(* ===== verification/Go_Prelude.thy ===== *)
theory Go_Prelude
  imports
    Complex_Main
    "HOL-Library.Word"
    "HOL-Library.AList"
    "HOL-Library.Char_ord"
    "HOL-Library.List_Lexorder"
    "HOL-Library.Multiset"
    "HOL-Library.Sublist"
    "HOL-Library.Product_Lexorder"
begin

text \<open>
  What the components share of Go itself and of its standard library.

  \<^item> Strings are Go's byte strings: \<open>string\<close>, a list of 8-bit characters, ordered
    byte by byte (\<open>strings.Compare\<close>). \<open>trim_space\<close> is \<open>strings.TrimSpace\<close> on
    every byte string, with the UTF-8 encodings of all Unicode spaces written out.
    \<open>to_upper\<close> and \<open>to_lower\<close> are \<open>strings.ToUpper\<close> and \<open>strings.ToLower\<close> on
    ASCII; bytes from 0x80 on are kept, where Go consults the Unicode case tables.
  \<^item> \<open>time\<close> is \<open>time.Time\<close> as the number of nanoseconds since the zero
    \<open>Time\<close>, so that \<open>IsZero\<close> is equality with 0; a \<open>duration\<close> is a number of
    nanoseconds, and \<open>time_sub\<close> saturates at the ends of int64 as \<open>Time.Sub\<close> does.
  \<^item> A \<open>float64\<close> is a \<open>real\<close>: no rounding, no infinities, no NaN.
  \<^item> A Go map is an association list with distinct keys (\<open>gomap\<close>). Go visits the
    entries of a map in an unspecified order; the model visits them in list order, and
    what the theorems say of such loops holds of every list, hence of every order.
\<close>

section \<open>Automation\<close>

named_theorems go_simps \<open>unfolding rules for the definitions of the Go prelude\<close>

named_theorems frame_simps \<open>fields that an operation leaves alone\<close>

named_theorems inv_intros \<open>the preservation lemmas of the invariants\<close>

section \<open>Machine integers and time\<close>

type_synonym u8 = "8 word"
type_synonym u64 = "64 word"
type_synonym time = int
type_synonym duration = int

definition wrap_i64 :: "int \<Rightarrow> int" where
  "wrap_i64 x = (x + 2 ^ 63) mod 2 ^ 64 - 2 ^ 63"

lemma wrap_i64_range: "- (2 ^ 63) \<le> wrap_i64 x \<and> wrap_i64 x < 2 ^ 63"
proof -
  have "0 \<le> (x + 2 ^ 63) mod 2 ^ 64" "(x + 2 ^ 63) mod 2 ^ 64 < (2 ^ 64 :: int)"
    by (rule pos_mod_sign, simp) (rule pos_mod_bound, simp)
  then show ?thesis by (simp add: wrap_i64_def)
qed

lemma wrap_i64_id [simp]: "- (2 ^ 63) \<le> x \<Longrightarrow> x < 2 ^ 63 \<Longrightarrow> wrap_i64 x = x"
  by (simp add: wrap_i64_def)

abbreviation (input) nanosecond :: duration where "nanosecond \<equiv> 1"
abbreviation (input) millisecond :: duration where "millisecond \<equiv> 1000000"
abbreviation (input) second :: duration where "second \<equiv> 1000000000"
abbreviation (input) minute :: duration where "minute \<equiv> 60000000000"
abbreviation (input) hour :: duration where "hour \<equiv> 3600000000000"

abbreviation (input) time_zero :: time where "time_zero \<equiv> 0"

definition max_duration :: duration where
  "max_duration = 2 ^ 63 - 1"

definition min_duration :: duration where
  "min_duration = - (2 ^ 63)"

definition time_sub :: "time \<Rightarrow> time \<Rightarrow> duration" where
  "time_sub a b = max min_duration (min max_duration (a - b))"

text \<open>Seconds and nanoseconds from the zero \<open>Time\<close> (year 1) to the Unix epoch.\<close>

definition unix_epoch_seconds :: int where
  "unix_epoch_seconds = 62135596800"

definition time_unix :: "time \<Rightarrow> int" where
  "time_unix t = t div second - unix_epoch_seconds"

definition time_unix_nano :: "time \<Rightarrow> int" where
  "time_unix_nano t = wrap_i64 (t - unix_epoch_seconds * second)"

definition time_unix_milli :: "time \<Rightarrow> int" where
  "time_unix_milli t = wrap_i64 (t div millisecond - unix_epoch_seconds * 1000)"

lemma time_sub_exact: "\<bar>a - b\<bar> < 2 ^ 63 \<Longrightarrow> time_sub a b = a - b"
  by (auto simp: time_sub_def max_duration_def min_duration_def min_def max_def)

lemma time_sub_ge_iff: "- (2 ^ 63) < d \<Longrightarrow> d < 2 ^ 63 \<Longrightarrow> d \<le> time_sub a b \<longleftrightarrow> d \<le> a - b"
  by (auto simp: time_sub_def max_duration_def min_duration_def min_def max_def)

lemma time_sub_less_iff: "- (2 ^ 63) < d \<Longrightarrow> d < 2 ^ 63 \<Longrightarrow> time_sub a b < d \<longleftrightarrow> a - b < d"
  by (auto simp: time_sub_def max_duration_def min_duration_def min_def max_def)

lemma time_sub_self [simp]: "time_sub a a = 0"
  by (simp add: time_sub_def max_duration_def min_duration_def)

lemma time_sub_mono: "a \<le> b \<Longrightarrow> time_sub a c \<le> time_sub b c"
  by (auto simp: time_sub_def max_duration_def min_duration_def)

lemma time_sub_antimono: "b \<le> c \<Longrightarrow> time_sub a c \<le> time_sub a b"
  by (auto simp: time_sub_def max_duration_def min_duration_def)


section \<open>Strings\<close>

subsection \<open>Case mapping\<close>

definition up_char :: "char \<Rightarrow> char" where
  "up_char c = (if CHR ''a'' \<le> c \<and> c \<le> CHR ''z'' then char_of (of_char c - 32 :: nat) else c)"

definition low_char :: "char \<Rightarrow> char" where
  "low_char c = (if CHR ''A'' \<le> c \<and> c \<le> CHR ''Z'' then char_of (of_char c + 32 :: nat) else c)"

definition to_upper :: "string \<Rightarrow> string" where
  "to_upper s = map up_char s"

definition to_lower :: "string \<Rightarrow> string" where
  "to_lower s = map low_char s"

lemma char_le_iff: "(c :: char) \<le> d \<longleftrightarrow> (of_char c :: nat) \<le> of_char d"
  by (simp add: less_eq_char_def)

lemma char_less_iff: "(c :: char) < d \<longleftrightarrow> (of_char c :: nat) < of_char d"
  by (simp add: less_char_def)

lemma of_char_less_256 [simp]: "(of_char c :: nat) < 256"
  using of_char_mod_256 [of c, where 'a = nat] by (metis mod_less_divisor zero_less_numeral)

lemma of_char_up_char:
  "(of_char (up_char c) :: nat) =
     (if 97 \<le> (of_char c :: nat) \<and> (of_char c :: nat) \<le> 122 then of_char c - 32 else of_char c)"
proof (cases "97 \<le> (of_char c :: nat) \<and> (of_char c :: nat) \<le> 122")
  case True
  then have "(of_char c :: nat) - 32 < 256" by arith
  with True show ?thesis by (simp add: up_char_def char_le_iff of_char_of)
next
  case False
  then show ?thesis by (auto simp: up_char_def char_le_iff)
qed

lemma of_char_low_char:
  "(of_char (low_char c) :: nat) =
     (if 65 \<le> (of_char c :: nat) \<and> (of_char c :: nat) \<le> 90 then of_char c + 32 else of_char c)"
proof (cases "65 \<le> (of_char c :: nat) \<and> (of_char c :: nat) \<le> 90")
  case True
  then have "(of_char c :: nat) + 32 < 256" by arith
  with True show ?thesis by (simp add: low_char_def char_le_iff of_char_of)
next
  case False
  then show ?thesis by (auto simp: low_char_def char_le_iff)
qed

lemma char_eqI: "(of_char c :: nat) = of_char d \<Longrightarrow> c = d"
  by simp

lemma up_char_idem [simp]: "up_char (up_char c) = up_char c"
  by (rule char_eqI) (simp only: of_char_up_char, auto)

lemma low_char_idem [simp]: "low_char (low_char c) = low_char c"
  by (rule char_eqI) (simp only: of_char_low_char, auto)

lemma to_upper_idem [simp]: "to_upper (to_upper s) = to_upper s"
  by (simp add: to_upper_def)

lemma to_lower_idem [simp]: "to_lower (to_lower s) = to_lower s"
  by (simp add: to_lower_def)

lemma to_upper_simps [simp]:
  "to_upper [] = []" "to_upper (c # s) = up_char c # to_upper s" "(to_upper s = []) = (s = [])"
  by (auto simp: to_upper_def)

lemma to_lower_simps [simp]:
  "to_lower [] = []" "to_lower (c # s) = low_char c # to_lower s" "(to_lower s = []) = (s = [])"
  by (auto simp: to_lower_def)

lemma length_to_upper [simp]: "length (to_upper s) = length s"
  by (simp add: to_upper_def)

subsection \<open>Trimming\<close>

text \<open>
  The UTF-8 encodings of the code points \<open>unicode.IsSpace\<close> accepts: the ASCII spaces,
  U+0085, U+00A0, U+1680, U+2000 to U+200A, U+2028, U+2029, U+202F, U+205F and U+3000.
\<close>

definition space_codes :: "nat list list" where
  "space_codes = map (\<lambda>n. [n]) [9, 10, 11, 12, 13, 32] @
     [[0xC2, 0x85], [0xC2, 0xA0], [0xE1, 0x9A, 0x80]] @
     map (\<lambda>n. [0xE2, 0x80, n]) [0x80, 0x81, 0x82, 0x83, 0x84, 0x85, 0x86, 0x87, 0x88, 0x89, 0x8A,
       0xA8, 0xA9, 0xAF] @
     [[0xE2, 0x81, 0x9F], [0xE3, 0x80, 0x80]]"

definition codes :: "string \<Rightarrow> nat list" where
  "codes s = map of_char s"

definition lead_space :: "nat list list \<Rightarrow> string \<Rightarrow> nat" where
  "lead_space ps s = (case find (\<lambda>p. prefix p (codes s)) ps of None \<Rightarrow> 0 | Some p \<Rightarrow> length p)"

function (sequential) strip :: "nat list list \<Rightarrow> string \<Rightarrow> string" where
  "strip ps s = (if lead_space ps s = 0 \<or> s = [] then s else strip ps (drop (lead_space ps s) s))"
  by pat_completeness auto
termination
  by (relation "measure (\<lambda>(ps, s). length s)") auto

declare strip.simps [simp del]

definition trim_left :: "string \<Rightarrow> string" where
  "trim_left s = strip space_codes s"

definition trim_right :: "string \<Rightarrow> string" where
  "trim_right s = rev (strip (map rev space_codes) (rev s))"

definition trim_space :: "string \<Rightarrow> string" where
  "trim_space s = trim_right (trim_left s)"


lemma lead_space_pos:
  assumes "[] \<notin> set ps"
  shows "lead_space ps s = 0 \<longleftrightarrow> (\<forall>p\<in>set ps. \<not> prefix p (codes s))"
proof (cases "find (\<lambda>p. prefix p (codes s)) ps")
  case None
  then show ?thesis by (simp add: lead_space_def) (simp add: find_None_iff)
next
  case (Some p)
  then have "p \<in> set ps" "prefix p (codes s)" by (auto simp: find_Some_iff)
  with Some assms show ?thesis by (auto simp: lead_space_def)
qed

lemma strip_fixed:
  "lead_space ps (strip ps s) = 0 \<or> strip ps s = []"
proof (induction ps s rule: strip.induct)
  case (1 ps s)
  then show ?case by (cases "lead_space ps s = 0 \<or> s = []") (auto simp: strip.simps [of ps s])
qed

lemma strip_suffix: "suffix (strip ps s) s"
proof (induction ps s rule: strip.induct)
  case (1 ps s)
  show ?case
  proof (cases "lead_space ps s = 0 \<or> s = []")
    case True
    then show ?thesis by (simp add: strip.simps [of ps s])
  next
    case False
    with 1 have "suffix (strip ps (drop (lead_space ps s) s)) s"
      by (meson suffix_drop suffix_order.trans)
    with False show ?thesis by (simp add: strip.simps [of ps s])
  qed
qed

lemma strip_id: "lead_space ps s = 0 \<Longrightarrow> strip ps s = s"
  by (simp add: strip.simps)

lemma strip_Nil [simp]: "strip ps [] = []"
  by (simp add: strip.simps)

lemma strip_idem [simp]: "strip ps (strip ps s) = strip ps s"
  using strip_fixed [of ps s] by (auto simp: strip_id)

lemma space_codes_nonempty: "[] \<notin> set space_codes" "[] \<notin> set (map rev space_codes)"
  by (simp_all add: space_codes_def)

lemma lead_space_prefix_0:
  assumes "[] \<notin> set ps" "lead_space ps s = 0" "prefix r s"
  shows "lead_space ps r = 0"
proof -
  have "prefix (codes r) (codes s)" using assms(3) by (auto simp: codes_def prefix_def)
  then show ?thesis using assms(1,2) by (auto simp: lead_space_pos dest: prefix_order.trans)
qed

lemma trim_right_prefix: "prefix (trim_right s) s"
  using strip_suffix [of "map rev space_codes" "rev s"]
  by (simp add: trim_right_def suffix_to_prefix)

lemma trim_right_idem [simp]: "trim_right (trim_right s) = trim_right s"
  by (simp add: trim_right_def)

lemma trim_left_right:
  "trim_left (trim_right (trim_left s)) = trim_right (trim_left s)"
proof (cases "trim_left s = []")
  case True
  then show ?thesis by (simp add: trim_left_def trim_right_def)
next
  case False
  then have "lead_space space_codes (trim_left s) = 0"
    using strip_fixed [of space_codes s] by (auto simp: trim_left_def)
  then have "lead_space space_codes (trim_right (trim_left s)) = 0"
    using space_codes_nonempty(1) trim_right_prefix lead_space_prefix_0 by blast
  then show ?thesis by (simp add: trim_left_def strip_id)
qed

lemma trim_space_idem [simp]: "trim_space (trim_space s) = trim_space s"
  by (simp add: trim_space_def trim_left_right)

lemma trim_space_Nil [simp]: "trim_space [] = []"
  by (simp add: trim_space_def trim_left_def trim_right_def)

lemma length_trim_space: "length (trim_space s) \<le> length s"
proof -
  have "length (trim_right (trim_left s)) \<le> length (trim_left s)"
    by (rule prefix_length_le [OF trim_right_prefix])
  also have "\<dots> \<le> length s"
    unfolding trim_left_def by (rule suffix_length_le [OF strip_suffix])
  finally show ?thesis by (simp add: trim_space_def)
qed

lemma set_trim_space: "set (trim_space s) \<subseteq> set s"
proof -
  have "set (trim_right (trim_left s)) \<subseteq> set (trim_left s)"
    by (rule set_mono_prefix [OF trim_right_prefix])
  also have "\<dots> \<subseteq> set s"
    unfolding trim_left_def by (rule set_mono_suffix [OF strip_suffix])
  finally show ?thesis by (simp add: trim_space_def)
qed

subsubsection \<open>Trimming and case mapping\<close>

text \<open>No byte of a space encoding is an ASCII letter, so case mapping keeps the spaces.\<close>

definition case_stable :: "nat \<Rightarrow> bool" where
  "case_stable n \<longleftrightarrow> \<not> (65 \<le> n \<and> n \<le> 90) \<and> \<not> (97 \<le> n \<and> n \<le> 122)"

lemma space_codes_stable:
  "\<forall>p\<in>set space_codes. list_all case_stable p"
  "\<forall>p\<in>set (map rev space_codes). list_all case_stable p"
  by (simp_all add: space_codes_def case_stable_def)

lemma prefix_codes_case:
  assumes "list_all case_stable p"
    and "\<And>c n. case_stable n \<Longrightarrow> (of_char (f c) :: nat) = n \<longleftrightarrow> of_char c = n"
  shows "prefix p (codes (map f s)) \<longleftrightarrow> prefix p (codes s)"
  using assms(1)
proof (induction p arbitrary: s)
  case Nil
  then show ?case by simp
next
  case (Cons n p)
  show ?case
  proof (cases s)
    case Nil
    then show ?thesis by (simp add: codes_def)
  next
    case (Cons a t)
    have "(of_char (f a) = n) = (of_char a = n)"
      using assms(2) Cons.prems by simp
    then show ?thesis using Cons.IH [of t] Cons.prems Cons by (auto simp: codes_def)
  qed
qed

lemma lead_space_case:
  assumes "\<forall>p\<in>set ps. list_all case_stable p"
    and "\<And>c n. case_stable n \<Longrightarrow> (of_char (f c) :: nat) = n \<longleftrightarrow> of_char c = n"
  shows "lead_space ps (map f s) = lead_space ps s"
proof -
  have "find (\<lambda>p. prefix p (codes (map f s))) ps = find (\<lambda>p. prefix p (codes s)) ps"
    using assms by (intro find_cong) (auto simp: prefix_codes_case)
  then show ?thesis by (simp add: lead_space_def)
qed

lemma strip_case:
  assumes "\<forall>p\<in>set ps. list_all case_stable p"
    and "\<And>c n. case_stable n \<Longrightarrow> (of_char (f c) :: nat) = n \<longleftrightarrow> of_char c = n"
  shows "strip ps (map f s) = map f (strip ps s)"
  using assms(1)
proof (induction ps s rule: strip.induct)
  case (1 ps s)
  then have eq: "lead_space ps (map f s) = lead_space ps s"
    using assms(2) by (intro lead_space_case)
  show ?case
  proof (cases "lead_space ps s = 0 \<or> s = []")
    case True
    then show ?thesis by (auto simp: strip.simps [of ps s] strip.simps [of ps "map f s"] eq)
  next
    case False
    then show ?thesis using 1
      by (simp add: strip.simps [of ps s] strip.simps [of ps "map f s"] eq drop_map)
  qed
qed

lemma up_char_stable: "case_stable n \<Longrightarrow> (of_char (up_char c) :: nat) = n \<longleftrightarrow> of_char c = n"
  by (auto simp: of_char_up_char case_stable_def)

lemma low_char_stable: "case_stable n \<Longrightarrow> (of_char (low_char c) :: nat) = n \<longleftrightarrow> of_char c = n"
  by (auto simp: of_char_low_char case_stable_def)

lemma trim_space_to_upper: "trim_space (to_upper s) = to_upper (trim_space s)"
  using strip_case [OF space_codes_stable(1) up_char_stable]
    strip_case [OF space_codes_stable(2) up_char_stable]
  by (simp add: trim_space_def trim_left_def trim_right_def to_upper_def rev_map)

lemma trim_space_to_lower: "trim_space (to_lower s) = to_lower (trim_space s)"
  using strip_case [OF space_codes_stable(1) low_char_stable]
    strip_case [OF space_codes_stable(2) low_char_stable]
  by (simp add: trim_space_def trim_left_def trim_right_def to_lower_def rev_map)

lemma trim_upper_trim [simp]: "trim_space (to_upper (trim_space s)) = to_upper (trim_space s)"
  by (simp add: trim_space_to_upper)

lemma trim_lower_trim [simp]: "trim_space (to_lower (trim_space s)) = to_lower (trim_space s)"
  by (simp add: trim_space_to_lower)

text \<open>A string of printable ASCII bytes other than the space has nothing to trim.\<close>

definition graph_char :: "char \<Rightarrow> bool" where
  "graph_char c \<longleftrightarrow> CHR '' '' < c \<and> c < CHR 0x7F"

lemma graph_char_code: "graph_char c \<longleftrightarrow> 32 < (of_char c :: nat) \<and> (of_char c :: nat) < 127"
  by (simp add: graph_char_def char_less_iff)

lemma lead_space_graph:
  assumes "\<And>p. p \<in> set ps \<Longrightarrow> p \<noteq> [] \<and> \<not> (32 < hd p \<and> hd p < 127)" and "list_all graph_char s"
  shows "lead_space ps s = 0"
proof -
  have "\<not> prefix p (codes s)" if p: "p \<in> set ps" for p
  proof
    assume pre: "prefix p (codes s)"
    obtain n q where pq: "p = n # q" "\<not> (32 < n \<and> n < 127)"
      using assms(1) [OF p] by (cases p) auto
    with pre obtain c t where "s = c # t" "n = of_char c"
      by (cases s) (auto simp: codes_def)
    with assms(2) pq show False by (simp add: graph_char_code)
  qed
  moreover have "[] \<notin> set ps" using assms(1) by blast
  ultimately show ?thesis by (simp add: lead_space_pos)
qed

lemma space_codes_hd:
  "p \<in> set space_codes \<Longrightarrow> p \<noteq> [] \<and> \<not> (32 < hd p \<and> hd p < 127)"
  "p \<in> set (map rev space_codes) \<Longrightarrow> p \<noteq> [] \<and> \<not> (32 < hd p \<and> hd p < 127)"
  by (auto simp: space_codes_def)

lemma trim_space_graph: "list_all graph_char s \<Longrightarrow> trim_space s = s"
proof -
  assume s: "list_all graph_char s"
  then have "trim_left s = s"
    unfolding trim_left_def
    using lead_space_graph [OF space_codes_hd(1) s] by (simp add: strip_id)
  moreover have "list_all graph_char (rev s)" using s by (simp add: list_all_iff)
  then have "trim_right s = s"
    unfolding trim_right_def
    using lead_space_graph [where ps = "map rev space_codes"] space_codes_hd(2)
    by (metis rev_rev_ident strip_id)
  ultimately show ?thesis by (simp add: trim_space_def)
qed


subsection \<open>Decimal integers\<close>

text \<open>\<open>strconv.FormatInt(i, 10)\<close>.\<close>

definition digit_char :: "nat \<Rightarrow> char" where
  "digit_char d = char_of (d + 48)"

fun format_nat :: "nat \<Rightarrow> string" where
  "format_nat n = (if n < 10 then [digit_char n] else format_nat (n div 10) @ [digit_char (n mod 10)])"

declare format_nat.simps [simp del]

definition format_int :: "int \<Rightarrow> string" where
  "format_int i = (if i < 0 then CHR ''-'' # format_nat (nat (- i)) else format_nat (nat i))"

definition digits_value :: "string \<Rightarrow> nat" where
  "digits_value s = foldl (\<lambda>a c. 10 * a + (of_char c - 48)) 0 s"

lemma of_digit_char: "d < 10 \<Longrightarrow> (of_char (digit_char d) :: nat) = d + 48"
  by (simp add: digit_char_def of_char_of)

lemma digits_value_format_nat [simp]: "digits_value (format_nat n) = n"
proof (induction n rule: format_nat.induct)
  case (1 n)
  show ?case
  proof (cases "n < 10")
    case True
    then show ?thesis by (simp add: format_nat.simps [of n] digits_value_def of_digit_char)
  next
    case False
    with 1 have "digits_value (format_nat (n div 10)) = n div 10" by simp
    with False show ?thesis
      by (simp add: format_nat.simps [of n] digits_value_def of_digit_char)
  qed
qed

lemma format_nat_digits: "c \<in> set (format_nat n) \<Longrightarrow> CHR ''0'' \<le> c \<and> c \<le> CHR ''9''"
proof (induction n rule: format_nat.induct)
  case (1 n)
  have d: "CHR ''0'' \<le> digit_char d \<and> digit_char d \<le> CHR ''9''" if "d < 10" for d
    using that by (simp add: char_le_iff of_digit_char)
  show ?case
  proof (cases "n < 10")
    case True
    with 1 d show ?thesis by (simp add: format_nat.simps [of n])
  next
    case False
    with 1 d [of "n mod 10"] show ?thesis by (auto simp: format_nat.simps [of n])
  qed
qed

lemma format_nat_nonempty [simp]: "format_nat n \<noteq> []"
  by (subst format_nat.simps) simp

lemma format_int_chars:
  "c \<in> set (format_int i) \<Longrightarrow> c = CHR ''-'' \<or> (CHR ''0'' \<le> c \<and> c \<le> CHR ''9'')"
  by (auto simp: format_int_def dest: format_nat_digits split: if_splits)

lemma format_int_no_colon: "CHR '':'' \<notin> set (format_int i)"
  by (auto dest!: format_int_chars simp: char_le_iff)

lemma minus_notin_format_nat: "CHR ''-'' \<notin> set (format_nat n)"
  by (auto dest!: format_nat_digits simp: char_le_iff)

lemma format_int_inject: "format_int i = format_int j \<longleftrightarrow> i = j"
proof
  assume eq: "format_int i = format_int j"
  have hd_ne: "CHR ''-'' # xs \<noteq> format_nat n" for xs n
    by (metis list.set_intros(1) minus_notin_format_nat)
  have inj: "format_nat m = format_nat n \<Longrightarrow> m = n" for m n
    by (metis digits_value_format_nat)
  show "i = j"
  proof (cases "i < 0")
    case True
    with eq have "j < 0" by (metis format_int_def hd_ne)
    with True eq have "nat (- i) = nat (- j)" by (intro inj) (simp add: format_int_def)
    with True \<open>j < 0\<close> show ?thesis by simp
  next
    case False
    with eq have "\<not> j < 0" by (metis format_int_def hd_ne)
    with False eq have "nat i = nat j" by (intro inj) (simp add: format_int_def)
    with False \<open>\<not> j < 0\<close> show ?thesis by simp
  qed
qed simp

section \<open>Go maps\<close>

type_synonym ('k, 'v) gomap = "('k \<times> 'v) list"

abbreviation (input) gm_empty :: "('k, 'v) gomap" where "gm_empty \<equiv> []"
abbreviation (input) gm_get :: "('k, 'v) gomap \<Rightarrow> 'k \<Rightarrow> 'v option" where "gm_get m k \<equiv> map_of m k"
abbreviation (input) gm_put :: "'k \<Rightarrow> 'v \<Rightarrow> ('k, 'v) gomap \<Rightarrow> ('k, 'v) gomap" where
  "gm_put k v m \<equiv> AList.update k v m"
abbreviation (input) gm_del :: "'k \<Rightarrow> ('k, 'v) gomap \<Rightarrow> ('k, 'v) gomap" where
  "gm_del k m \<equiv> AList.delete k m"

definition gm_wf :: "('k, 'v) gomap \<Rightarrow> bool" where
  "gm_wf m \<longleftrightarrow> distinct (map fst m)"

text \<open>\<open>for k, v := range m { if P(k, v) { delete(m, k) } }\<close>\<close>

definition gm_delete_if :: "('k \<times> 'v \<Rightarrow> bool) \<Rightarrow> ('k, 'v) gomap \<Rightarrow> ('k, 'v) gomap" where
  "gm_delete_if P m = filter (\<lambda>e. \<not> P e) m"

lemma gm_get_put [simp]: "map_of (AList.update k v m) = (map_of m)(k \<mapsto> v)"
  by (rule update_conv')

lemma gm_get_del [simp]: "map_of (AList.delete k m) = (map_of m)(k := None)"
  by (rule delete_conv')

lemma gm_wf_Nil [simp]: "gm_wf []"
  by (simp add: gm_wf_def)

lemma gm_wf_put [simp, intro]: "gm_wf m \<Longrightarrow> gm_wf (AList.update k v m)"
  by (simp add: gm_wf_def distinct_update)

lemma gm_wf_del [simp, intro]: "gm_wf m \<Longrightarrow> gm_wf (AList.delete k m)"
  by (simp add: gm_wf_def distinct_delete)

lemma gm_wf_filter [simp, intro]: "gm_wf m \<Longrightarrow> gm_wf (filter P m)"
  by (simp add: gm_wf_def distinct_map_filter)

lemma gm_length_put:
  "length (AList.update k v m) = (if k \<in> fst ` set m then length m else Suc (length m))"
  by (induction m) auto

lemma gm_wf_mem: "gm_wf m \<Longrightarrow> (k, v) \<in> set m \<longleftrightarrow> map_of m k = Some v"
  by (auto simp: gm_wf_def dest: map_of_SomeD)

lemma gm_wf_delete_if [simp, intro]: "gm_wf m \<Longrightarrow> gm_wf (gm_delete_if P m)"
  by (simp add: gm_delete_if_def)

lemma map_of_filter:
  "gm_wf m \<Longrightarrow> map_of (filter P m) k = (case map_of m k of None \<Rightarrow> None | Some v \<Rightarrow> if P (k, v) then Some v else None)"
proof (induction m)
  case (Cons e m)
  then have "gm_wf m" "map_of m (fst e) = None"
    by (auto simp: gm_wf_def map_of_eq_None_iff)
  with Cons.IH show ?case by (cases e) (auto split: option.splits)
qed simp

lemma gm_get_delete_if:
  "gm_wf m \<Longrightarrow> map_of (gm_delete_if P m) k =
     (case map_of m k of None \<Rightarrow> None | Some v \<Rightarrow> if P (k, v) then None else Some v)"
  by (auto simp: gm_delete_if_def map_of_filter split: option.splits)

lemma gm_length_delete:
  "gm_wf m \<Longrightarrow> length (AList.delete k m) = (if k \<in> fst ` set m then length m - 1 else length m)"
proof (induction m)
  case (Cons e m)
  then have "gm_wf m" "fst e \<notin> fst ` set m" by (auto simp: gm_wf_def)
  moreover have "k \<in> fst ` set m \<Longrightarrow> length m \<noteq> 0" by auto
  ultimately show ?case using Cons.IH by (auto simp: AList.delete_eq)
qed simp


text \<open>
  The contract of a Go map towards the code that uses it, and what follows from it for a
  loop of insertions. The association lists of the model keep it.
\<close>

locale go_map =
  fixes empty :: "'m"
    and get :: "'m \<Rightarrow> 'k \<Rightarrow> 'v option"
    and put :: "'k \<Rightarrow> 'v \<Rightarrow> 'm \<Rightarrow> 'm"
    and del :: "'k \<Rightarrow> 'm \<Rightarrow> 'm"
    and len :: "'m \<Rightarrow> nat"
    and wf :: "'m \<Rightarrow> bool"
  assumes get_empty: "get empty k = None"
    and get_put: "wf m \<Longrightarrow> get (put k v m) = (get m)(k \<mapsto> v)"
    and get_del: "wf m \<Longrightarrow> get (del k m) = (get m)(k := None)"
    and len_empty: "len empty = 0"
    and len_put: "wf m \<Longrightarrow> len (put k v m) = (if get m k = None then Suc (len m) else len m)"
    and len_del: "wf m \<Longrightarrow> len (del k m) = (if get m k = None then len m else len m - 1)"
    and wf_empty: "wf empty"
    and wf_put: "wf m \<Longrightarrow> wf (put k v m)"
    and wf_del: "wf m \<Longrightarrow> wf (del k m)"
begin

lemma wf_fold_put: "wf m \<Longrightarrow> wf (fold (\<lambda>(k, v). put k v) kvs m)"
  by (induction kvs arbitrary: m) (auto intro: wf_put)

lemma get_fold_put:
  "wf m \<Longrightarrow> get (fold (\<lambda>(k, v). put k v) kvs m) = get m ++ map_of (rev kvs)"
proof (induction kvs arbitrary: m)
  case Nil
  then show ?case by simp
next
  case (Cons e kvs)
  obtain k v where e: "e = (k, v)" by (cases e)
  have "get (fold (\<lambda>(k, v). put k v) kvs (put k v m)) = (get m)(k \<mapsto> v) ++ map_of (rev kvs)"
    using Cons by (simp add: wf_put get_put fun_upd_def)
  also have "\<dots> = get m ++ map_of (rev kvs @ [(k, v)])"
    by (auto simp: fun_eq_iff map_add_def split: option.splits)
  finally show ?case by (simp add: e)
qed

lemma len_put_le: "wf m \<Longrightarrow> len (put k v m) \<le> Suc (len m)"
  by (simp add: len_put)

lemma put_within: "wf m \<Longrightarrow> len m < cap \<or> get m k \<noteq> None \<Longrightarrow> len m \<le> cap \<Longrightarrow> len (put k v m) \<le> cap"
  by (auto simp: len_put)

end

interpretation gomap: go_map "[]" map_of AList.update AList.delete length gm_wf
  by unfold_locales (auto simp: gm_length_put gm_length_delete map_of_eq_None_iff)

section \<open>Lists\<close>

text \<open>Keeping the first \<open>n\<close> of a list sorted by age removes exactly the oldest entries.\<close>

lemma strict_sorted_distinct: "sorted_wrt (<) (map f xs) \<Longrightarrow> distinct (map (f :: 'a \<Rightarrow> 'b :: linorder) xs)"
  by (auto simp: strict_sorted_iff)

lemma sorted_wrt_map_less_nth:
  "sorted_wrt (<) (map f xs) \<Longrightarrow> i < j \<Longrightarrow> j < length xs \<Longrightarrow> (f (xs ! i) :: 'b :: linorder) < f (xs ! j)"
  by (auto simp: sorted_wrt_iff_nth_less)

lemma map_of_zip_upt_nth:
  assumes "distinct ks" "i < length ks"
  shows "map_of (zip ks [0..<length ks]) (ks ! i) = Some i"
  using assms by (intro map_of_eq_Some_iff [THEN iffD2]) (auto simp: set_zip intro!: exI [of _ i])

lemma map_of_zip_upt_Some:
  assumes "distinct ks" "map_of (zip ks [0..<length ks]) k = Some i"
  shows "i < length ks \<and> ks ! i = k"
proof -
  have "(k, i) \<in> set (zip ks [0..<length ks])" using assms(2) by (rule map_of_SomeD)
  then show ?thesis by (auto simp: set_zip)
qed

section \<open>Splitting and joining strings\<close>

text \<open>
  \<open>split_on c\<close> is \<open>strings.Split\<close> at a one-byte separator, \<open>join_with\<close> is
  \<open>strings.Join\<close>, \<open>fields_func\<close> is \<open>strings.FieldsFunc\<close> for a separator predicate that
  holds of no byte inside a multi-byte rune it rejects, \<open>str_contains\<close> is
  \<open>strings.Contains\<close>.
\<close>

fun split_when :: "(char \<Rightarrow> bool) \<Rightarrow> string \<Rightarrow> string list" where
  "split_when P [] = [[]]"
| "split_when P (c # cs) =
     (if P c then [] # split_when P cs
      else (case split_when P cs of [] \<Rightarrow> [[c]] | p # ps \<Rightarrow> (c # p) # ps))"

definition split_on :: "char \<Rightarrow> string \<Rightarrow> string list" where
  "split_on c = split_when (\<lambda>x. x = c)"

definition fields_func :: "(char \<Rightarrow> bool) \<Rightarrow> string \<Rightarrow> string list" where
  "fields_func P s = filter (\<lambda>p. p \<noteq> []) (split_when P s)"

fun join_with :: "string \<Rightarrow> string list \<Rightarrow> string" where
  "join_with sep [] = []"
| "join_with sep [p] = p"
| "join_with sep (p # q # ps) = p @ sep @ join_with sep (q # ps)"

text \<open>The separator that descriptions use, in UTF-8.\<close>

definition bullet :: string where
  "bullet = [CHR '' '', CHR 0xE2, CHR 0x80, CHR 0xA2, CHR '' '']"

definition str_contains :: "string \<Rightarrow> string \<Rightarrow> bool" where
  "str_contains s sub = sublist sub s"

lemma split_when_nonempty [simp]: "split_when P s \<noteq> []"
  by (induction s) (auto split: list.splits)

lemma split_when_parts: "p \<in> set (split_when P s) \<Longrightarrow> c \<in> set p \<Longrightarrow> \<not> P c"
  by (induction s arbitrary: p) (fastforce split: if_splits list.splits)+

lemma split_when_no_sep: "(\<And>c. c \<in> set s \<Longrightarrow> \<not> P c) \<Longrightarrow> split_when P s = [s]"
  by (induction s) auto

lemma split_when_append_sep:
  "(\<And>x. x \<in> set s \<Longrightarrow> \<not> P x) \<Longrightarrow> P c \<Longrightarrow> split_when P (s @ c # t) = s # split_when P t"
  by (induction s) auto

lemma split_on_simps [simp]: "split_on c [] = [[]]"
  by (simp add: split_on_def)

lemma split_on_append_sep: "c \<notin> set s \<Longrightarrow> split_on c (s @ c # t) = s # split_on c t"
  unfolding split_on_def by (rule split_when_append_sep) auto

lemma split_on_no_sep: "c \<notin> set s \<Longrightarrow> split_on c s = [s]"
  unfolding split_on_def by (rule split_when_no_sep) auto

lemma join_split: "join_with [c] (split_on c s) = s"
proof (induction s)
  case (Cons x s)
  obtain p ps where ps: "split_on c s = p # ps" using split_when_nonempty by (cases "split_on c s") (auto simp: split_on_def)
  then have "split_when (\<lambda>x. x = c) s = p # ps" by (simp add: split_on_def)
  then have "split_on c (x # s) = (if x = c then [] # p # ps else (x # p) # ps)" by (simp add: split_on_def)
  then show ?case using Cons ps by (cases ps) auto
qed simp

lemma split_join:
  "ps \<noteq> [] \<Longrightarrow> \<forall>p\<in>set ps. c \<notin> set p \<Longrightarrow> split_on c (join_with [c] ps) = ps"
  by (induction "[c]" ps rule: join_with.induct) (auto simp: split_on_no_sep split_on_append_sep)

section \<open>Monitors\<close>

text \<open>
  A monitor keeps a state, is fed one input after another, and answers each with a list of
  outputs. \<open>monitor\<close> is the interface of a monitor whose state represents the history of
  its inputs; its lemmas carry a step-wise argument to a whole run.
\<close>

fun mon_run :: "('i \<Rightarrow> 's \<Rightarrow> 'o list \<times> 's) \<Rightarrow> 'i list \<Rightarrow> 's \<Rightarrow> 'o list \<times> 's" where
  "mon_run step [] s = ([], s)"
| "mon_run step (i # is) s = (let (o1, s1) = step i s; (o2, s2) = mon_run step is s1 in (o1 @ o2, s2))"

lemma mon_run_append:
  "mon_run step (is @ js) s =
     (let (o1, s1) = mon_run step is s; (o2, s2) = mon_run step js s1 in (o1 @ o2, s2))"
  by (induction "is" arbitrary: s) (auto simp: Let_def split: prod.splits)

lemma mon_run_snoc:
  "mon_run step (is @ [i]) s = (fst (mon_run step is s) @ fst (step i (snd (mon_run step is s))),
     snd (step i (snd (mon_run step is s))))"
  by (simp add: mon_run_append Let_def split: prod.splits)

locale monitor =
  fixes init :: "'s"
    and step :: "'i \<Rightarrow> 's \<Rightarrow> 'o list \<times> 's"
    and rep :: "'i list \<Rightarrow> 'o list \<Rightarrow> 's \<Rightarrow> bool"
  assumes rep_init: "rep [] [] init"
    and rep_step: "rep is os s \<Longrightarrow> rep (is @ [i]) (os @ fst (step i s)) (snd (step i s))"
begin

lemma rep_run: "rep is (fst (mon_run step is init)) (snd (mon_run step is init))"
  by (induction "is" rule: rev_induct) (simp_all add: rep_init mon_run_snoc rep_step)

lemma rep_run_eq: "mon_run step is init = (os, s) \<Longrightarrow> rep is os s"
  using rep_run [of "is"] by simp

end

end
