(* ===== verification/Domain.thy ===== *)
theory Domain
  imports Go_Prelude
begin

text \<open>
  The domain types of \<open>internal/domain\<close>: aircraft, batches, snapshots, health, feeders,
  watch rules, alerts and alert states, with the functions the package defines on them.
  Go's string enumerations stay strings, because a value decoded from JSON may be none of
  the named constants. A record's zero value is Go's.
\<close>

section \<open>Providers and capabilities (aircraft.go)\<close>

type_synonym provider_id = string

abbreviation (input) ProviderUnknown :: provider_id where "ProviderUnknown \<equiv> ''unknown''"
abbreviation (input) ProviderReadsb :: provider_id where "ProviderReadsb \<equiv> ''readsb''"
abbreviation (input) ProviderAirplanesLive :: provider_id where "ProviderAirplanesLive \<equiv> ''airplanes-live''"

definition provider_known :: "provider_id \<Rightarrow> bool" where
  "provider_known p \<longleftrightarrow> p = ProviderReadsb \<or> p = ProviderAirplanesLive"

type_synonym capability = u8
type_synonym capabilities = u8

abbreviation (input) CapabilityAircraft :: capability where "CapabilityAircraft \<equiv> 1"
abbreviation (input) CapabilityReceiver :: capability where "CapabilityReceiver \<equiv> 2"
abbreviation (input) CapabilityStatistics :: capability where "CapabilityStatistics \<equiv> 4"

definition capability_String :: "capability \<Rightarrow> string" where
  "capability_String c =
     (if c = CapabilityAircraft then ''aircraft''
      else if c = CapabilityReceiver then ''receiver''
      else if c = CapabilityStatistics then ''stats''
      else ''unknown'')"

definition CapabilitiesOf :: "capability list \<Rightarrow> capabilities" where
  "CapabilitiesOf cs = foldl (\<lambda>supported c. Bit_Operations.or supported c) 0 cs"

definition caps_Supports :: "capabilities \<Rightarrow> capability \<Rightarrow> bool" where
  "caps_Supports cs c \<longleftrightarrow> Bit_Operations.and cs c \<noteq> 0"

section \<open>Aircraft (aircraft.go)\<close>

type_synonym feeder_id = string

record aircraft =
  ac_ICAO :: string
  ac_Provider :: provider_id
  ac_SourceType :: string
  ac_Callsign :: string
  ac_Registration :: string
  ac_AircraftType :: string
  ac_Category :: string
  ac_Squawk :: string
  ac_Emergency :: string
  ac_Latitude :: real
  ac_Longitude :: real
  ac_HasPosition :: bool
  ac_AltitudeFeet :: int
  ac_HasAltitude :: bool
  ac_OnGround :: bool
  ac_GroundSpeedKts :: real
  ac_HasGroundSpeed :: bool
  ac_TrackDegrees :: real
  ac_HasTrack :: bool
  ac_VerticalRateFPM :: int
  ac_HasVerticalRate :: bool
  ac_Messages :: u64
  ac_Seen :: duration
  ac_SeenPosition :: duration
  ac_RSSI :: real
  ac_HasRSSI :: bool
  ac_DistanceNM :: real
  ac_BearingDegrees :: real
  ac_HasDistance :: bool
  ac_SeenBy :: "feeder_id list"

definition zero_aircraft :: aircraft where
  "zero_aircraft = \<lparr> ac_ICAO = [], ac_Provider = [], ac_SourceType = [], ac_Callsign = [],
     ac_Registration = [], ac_AircraftType = [], ac_Category = [], ac_Squawk = [], ac_Emergency = [],
     ac_Latitude = 0, ac_Longitude = 0, ac_HasPosition = False, ac_AltitudeFeet = 0,
     ac_HasAltitude = False, ac_OnGround = False, ac_GroundSpeedKts = 0, ac_HasGroundSpeed = False,
     ac_TrackDegrees = 0, ac_HasTrack = False, ac_VerticalRateFPM = 0, ac_HasVerticalRate = False,
     ac_Messages = 0, ac_Seen = 0, ac_SeenPosition = 0, ac_RSSI = 0, ac_HasRSSI = False,
     ac_DistanceNM = 0, ac_BearingDegrees = 0, ac_HasDistance = False, ac_SeenBy = [] \<rparr>"

record aircraft_batch =
  ab_Provider :: provider_id
  ab_GeneratedAt :: time
  ab_Messages :: u64
  ab_MessageCounterValid :: bool
  ab_Aircraft :: "aircraft list"

datatype aircraft_key =
  AircraftKey (key_ICAO: string) (key_Callsign: string) (key_Registration: string)

text \<open>The order of the search index: callsign, then registration, then ICAO.\<close>

fun key_tuple :: "aircraft_key \<Rightarrow> string \<times> string \<times> string" where
  "key_tuple (AircraftKey icao callsign registration) = (callsign, registration, icao)"

lemma key_tuple_inject: "key_tuple a = key_tuple b \<Longrightarrow> a = b"
  by (cases a; cases b) simp

instantiation aircraft_key :: linorder
begin

definition less_eq_aircraft_key :: "aircraft_key \<Rightarrow> aircraft_key \<Rightarrow> bool" where
  "less_eq_aircraft_key a b \<longleftrightarrow> key_tuple a \<le> key_tuple b"

definition less_aircraft_key :: "aircraft_key \<Rightarrow> aircraft_key \<Rightarrow> bool" where
  "less_aircraft_key a b \<longleftrightarrow> key_tuple a < key_tuple b"

instance
  by standard
    (auto simp: less_eq_aircraft_key_def less_aircraft_key_def less_le_not_le
      intro: key_tuple_inject)

end

definition aircraft_key_of :: "aircraft \<Rightarrow> aircraft_key" where
  "aircraft_key_of a = AircraftKey (ac_ICAO a) (ac_Callsign a) (ac_Registration a)"

section \<open>Emergencies (emergency.go)\<close>

definition EmergencySquawk :: "string \<Rightarrow> bool" where
  "EmergencySquawk squawk \<longleftrightarrow> trim_space squawk \<in> {''7500'', ''7600'', ''7700''}"

definition EmergencyActive :: "aircraft \<Rightarrow> bool" where
  "EmergencyActive a \<longleftrightarrow>
     (let emergency = to_lower (trim_space (ac_Emergency a))
      in EmergencySquawk (ac_Squawk a) \<or> (emergency \<noteq> [] \<and> emergency \<noteq> ''none''))"

definition SquawkMeaning :: "string \<Rightarrow> string" where
  "SquawkMeaning squawk =
     (let s = trim_space squawk in
      if s = ''7500'' then ''unlawful interference (hijack)''
      else if s = ''7600'' then ''radio failure''
      else if s = ''7700'' then ''general emergency''
      else ''assigned transponder code'')"

section \<open>Watch rules and alerts (alert.go)\<close>

type_synonym rule_type = string

abbreviation (input) RuleICAO :: rule_type where "RuleICAO \<equiv> ''icao''"
abbreviation (input) RuleRegistration :: rule_type where "RuleRegistration \<equiv> ''registration''"
abbreviation (input) RuleCallsign :: rule_type where "RuleCallsign \<equiv> ''callsign''"
abbreviation (input) RuleCallsignPrefix :: rule_type where "RuleCallsignPrefix \<equiv> ''callsign-prefix''"
abbreviation (input) RuleSquawk :: rule_type where "RuleSquawk \<equiv> ''squawk''"
abbreviation (input) RuleEmergency :: rule_type where "RuleEmergency \<equiv> ''emergency''"
abbreviation (input) RuleRadius :: rule_type where "RuleRadius \<equiv> ''radius''"
abbreviation (input) RuleAltitude :: rule_type where "RuleAltitude \<equiv> ''altitude''"
abbreviation (input) RuleFirstSeen :: rule_type where "RuleFirstSeen \<equiv> ''first-seen''"
abbreviation (input) RuleFeeder :: rule_type where "RuleFeeder \<equiv> ''feeder''"
abbreviation (input) RuleOperator :: rule_type where "RuleOperator \<equiv> ''operator''"
abbreviation (input) RuleOwner :: rule_type where "RuleOwner \<equiv> ''owner''"
abbreviation (input) RuleAircraftType :: rule_type where "RuleAircraftType \<equiv> ''aircraft-type''"
abbreviation (input) RuleInteresting :: rule_type where "RuleInteresting \<equiv> ''interesting''"
abbreviation (input) RuleTakeoff :: rule_type where "RuleTakeoff \<equiv> ''takeoff''"
abbreviation (input) RuleLanding :: rule_type where "RuleLanding \<equiv> ''landing''"
abbreviation (input) RuleApproach :: rule_type where "RuleApproach \<equiv> ''approach''"

record watch_rule =
  wr_ID :: int
  wr_GuildID :: u64
  wr_FeederScope :: feeder_id
  wr_UserID :: u64
  wr_ServerScope :: bool
  wr_Type :: rule_type
  wr_Value :: string
  wr_Enabled :: bool
  wr_Cooldown :: duration
  wr_MinimumObservations :: int
  wr_EnterThreshold :: real
  wr_ExitThreshold :: real
  wr_BestEffortEnrichment :: bool
  wr_CreatedAt :: time
  wr_UpdatedAt :: time

datatype alert_priority = AlertNormal | AlertEmergency

record alert_observation =
  ob_DistanceNM :: real
  ob_HasDistance :: bool
  ob_DistanceFromAirport :: bool
  ob_AltitudeFeet :: int
  ob_HasAltitude :: bool
  ob_GroundSpeedKts :: real
  ob_HasGroundSpeed :: bool
  ob_VerticalRateFPM :: int
  ob_HasVerticalRate :: bool

definition zero_observation :: alert_observation where
  "zero_observation = \<lparr> ob_DistanceNM = 0, ob_HasDistance = False, ob_DistanceFromAirport = False,
     ob_AltitudeFeet = 0, ob_HasAltitude = False, ob_GroundSpeedKts = 0, ob_HasGroundSpeed = False,
     ob_VerticalRateFPM = 0, ob_HasVerticalRate = False \<rparr>"

definition AlertObservationFromAircraft :: "aircraft \<Rightarrow> alert_observation" where
  "AlertObservationFromAircraft a = \<lparr> ob_DistanceNM = ac_DistanceNM a, ob_HasDistance = ac_HasDistance a,
     ob_DistanceFromAirport = False, ob_AltitudeFeet = ac_AltitudeFeet a,
     ob_HasAltitude = ac_HasAltitude a, ob_GroundSpeedKts = ac_GroundSpeedKts a,
     ob_HasGroundSpeed = ac_HasGroundSpeed a, ob_VerticalRateFPM = ac_VerticalRateFPM a,
     ob_HasVerticalRate = ac_HasVerticalRate a \<rparr>"

record alert =
  al_ID :: string
  al_RuleID :: int
  al_GuildID :: u64
  al_FeederID :: feeder_id
  al_UserID :: u64
  al_AircraftICAO :: string
  al_Callsign :: string
  al_ConditionFingerprint :: string
  al_Type :: rule_type
  al_Priority :: alert_priority
  al_Title :: string
  al_Description :: string
  al_RouteSummary :: string
  al_InterestingGroup :: string
  al_InterestingOperator :: string
  al_InterestingTags :: string
  al_InterestingPriority :: bool
  al_InterestingLink :: string
  al_InterestingImage :: string
  al_Observation :: alert_observation
  al_ObservedAt :: time
  al_Cooldown :: duration

definition zero_alert :: alert where
  "zero_alert = \<lparr> al_ID = [], al_RuleID = 0, al_GuildID = 0, al_FeederID = [], al_UserID = 0,
     al_AircraftICAO = [], al_Callsign = [], al_ConditionFingerprint = [], al_Type = [],
     al_Priority = AlertNormal, al_Title = [], al_Description = [], al_RouteSummary = [],
     al_InterestingGroup = [], al_InterestingOperator = [], al_InterestingTags = [],
     al_InterestingPriority = False, al_InterestingLink = [], al_InterestingImage = [],
     al_Observation = zero_observation, al_ObservedAt = 0, al_Cooldown = 0 \<rparr>"

record alert_state =
  as_RuleID :: int
  as_FeederScope :: feeder_id
  as_AircraftICAO :: string
  as_ConditionFingerprint :: string
  as_LastFiredAt :: time
  as_LastClearAt :: time
  as_ConsecutiveMatches :: int
  as_Active :: bool

definition zero_alert_state :: alert_state where
  "zero_alert_state = \<lparr> as_RuleID = 0, as_FeederScope = [], as_AircraftICAO = [],
     as_ConditionFingerprint = [], as_LastFiredAt = 0, as_LastClearAt = 0,
     as_ConsecutiveMatches = 0, as_Active = False \<rparr>"

section \<open>Feeders (feeder.go)\<close>

abbreviation (input) FeederLocal :: feeder_id where "FeederLocal \<equiv> ''local''"
abbreviation (input) FeederAll :: feeder_id where "FeederAll \<equiv> ''all''"

type_synonym feeder_source_kind = string

abbreviation (input) FeederSourceLocal :: feeder_source_kind where "FeederSourceLocal \<equiv> ''local''"
abbreviation (input) FeederSourceAgent :: feeder_source_kind where "FeederSourceAgent \<equiv> ''agent''"

record feeder_descriptor =
  fd_ID :: feeder_id
  fd_DisplayName :: string
  fd_PublicArea :: string
  fd_AirportICAO :: string
  fd_WeatherStationICAO :: string
  fd_Latitude :: real
  fd_Longitude :: real
  fd_HasCenter :: bool
  fd_SourceKind :: feeder_source_kind
  fd_Enabled :: bool

datatype feeder_error =
    DisplayNameUTF8 | DisplayNameLength | DisplayNameControl | FeederIDLength | FeederIDChars

text \<open>
  \<open>utf8_runes s\<close> decodes a valid UTF-8 string to its code points and is \<open>None\<close> on an
  invalid one (\<open>utf8.ValidString\<close>): no stray continuation byte, no truncated or overlong
  sequence, no surrogate, nothing above U+10FFFF.
\<close>

definition cont_byte :: "nat \<Rightarrow> bool" where
  "cont_byte b \<longleftrightarrow> 0x80 \<le> b \<and> b \<le> 0xBF"

fun utf8_decode :: "nat list \<Rightarrow> nat list option" where
  "utf8_decode [] = Some []"
| "utf8_decode (b # bs) =
     (if b < 0x80 then map_option (Cons b) (utf8_decode bs)
      else if 0xC2 \<le> b \<and> b \<le> 0xDF then
        (case bs of c # cs \<Rightarrow>
           if cont_byte c then map_option (Cons ((b - 0xC0) * 64 + (c - 0x80))) (utf8_decode cs) else None
         | _ \<Rightarrow> None)
      else if 0xE0 \<le> b \<and> b \<le> 0xEF then
        (case bs of c # d # ds \<Rightarrow>
           if cont_byte c \<and> cont_byte d \<and> (b = 0xE0 \<longrightarrow> 0xA0 \<le> c) \<and> (b = 0xED \<longrightarrow> c \<le> 0x9F)
           then map_option (Cons ((b - 0xE0) * 4096 + (c - 0x80) * 64 + (d - 0x80))) (utf8_decode ds)
           else None
         | _ \<Rightarrow> None)
      else if 0xF0 \<le> b \<and> b \<le> 0xF4 then
        (case bs of c # d # e # es \<Rightarrow>
           if cont_byte c \<and> cont_byte d \<and> cont_byte e \<and> (b = 0xF0 \<longrightarrow> 0x90 \<le> c) \<and> (b = 0xF4 \<longrightarrow> c \<le> 0x8F)
           then map_option (Cons ((b - 0xF0) * 262144 + (c - 0x80) * 4096 + (d - 0x80) * 64 + (e - 0x80)))
                  (utf8_decode es)
           else None
         | _ \<Rightarrow> None)
      else None)"

definition utf8_runes :: "string \<Rightarrow> nat list option" where
  "utf8_runes s = utf8_decode (codes s)"

definition rune_control :: "nat \<Rightarrow> bool" where
  "rune_control r \<longleftrightarrow> r \<le> 0x1F \<or> (0x7F \<le> r \<and> r \<le> 0x9F)"

definition NormalizeFeederDisplayName :: "string \<Rightarrow> feeder_error + string" where
  "NormalizeFeederDisplayName value =
     (let v = trim_space value in
      case utf8_runes v of
        None \<Rightarrow> Inl DisplayNameUTF8
      | Some rs \<Rightarrow>
          if length rs < 1 \<or> length rs > 80 then Inl DisplayNameLength
          else if \<exists>r\<in>set rs. rune_control r then Inl DisplayNameControl
          else Inr v)"

definition feeder_id_char :: "char \<Rightarrow> bool" where
  "feeder_id_char c \<longleftrightarrow> \<not> ((c < CHR ''a'' \<or> c > CHR ''z'') \<and> (c < CHR ''0'' \<or> c > CHR ''9'') \<and> c \<noteq> CHR ''-'')"

definition NormalizeFeederID :: "string \<Rightarrow> feeder_error + feeder_id" where
  "NormalizeFeederID value =
     (let v = to_lower (trim_space value) in
      if v = [] \<or> length v > 48 then Inl FeederIDLength
      else if \<not> list_all feeder_id_char v then Inl FeederIDChars
      else Inr v)"

definition feeder_id_Valid :: "feeder_id \<Rightarrow> bool" where
  "feeder_id_Valid i \<longleftrightarrow> (case NormalizeFeederID i of Inl _ \<Rightarrow> False | Inr _ \<Rightarrow> True)"

section \<open>Data sources (provenance.go) and units (units.go)\<close>

type_synonym data_source = string

abbreviation (input) DataSourceUnknown :: data_source where "DataSourceUnknown \<equiv> ''unknown''"

definition data_source_Known :: "data_source \<Rightarrow> bool" where
  "data_source_Known s \<longleftrightarrow> s \<noteq> [] \<and> s \<noteq> DataSourceUnknown"

type_synonym unit_system = string

abbreviation (input) UnitsImperial :: unit_system where "UnitsImperial \<equiv> ''imperial''"
abbreviation (input) UnitsAviation :: unit_system where "UnitsAviation \<equiv> ''aviation''"
abbreviation (input) UnitsMetric :: unit_system where "UnitsMetric \<equiv> ''metric''"
abbreviation (input) DefaultUnitSystem :: unit_system where "DefaultUnitSystem \<equiv> UnitsImperial"

definition ParseUnitSystem :: "string \<Rightarrow> unit_system option" where
  "ParseUnitSystem value =
     (let v = to_lower (trim_space value) in
      if v = UnitsImperial then Some UnitsImperial
      else if v = UnitsAviation then Some UnitsAviation
      else if v = UnitsMetric then Some UnitsMetric
      else None)"

definition NormalizeUnitSystem :: "string \<Rightarrow> unit_system" where
  "NormalizeUnitSystem value =
     (case ParseUnitSystem value of None \<Rightarrow> DefaultUnitSystem | Some u \<Rightarrow> u)"

section \<open>Health, receiver, statistics, snapshots (snapshot.go)\<close>

type_synonym health_status = string

abbreviation (input) HealthUnknown :: health_status where "HealthUnknown \<equiv> ''unknown''"
abbreviation (input) HealthHealthy :: health_status where "HealthHealthy \<equiv> ''healthy''"
abbreviation (input) HealthStale :: health_status where "HealthStale \<equiv> ''stale''"
abbreviation (input) HealthOffline :: health_status where "HealthOffline \<equiv> ''offline''"
abbreviation (input) HealthDegraded :: health_status where "HealthDegraded \<equiv> ''degraded''"
abbreviation (input) HealthDisabled :: health_status where "HealthDisabled \<equiv> ''disabled''"

record source_health =
  sh_Provider :: provider_id
  sh_Status :: health_status
  sh_LastAttempt :: time
  sh_LastSuccess :: time
  sh_ConsecutiveFailures :: u64
  sh_ErrorClass :: string

record health =
  he_Aircraft :: source_health
  he_Receiver :: source_health
  he_Stats :: source_health

record receiver =
  rc_Version :: string
  rc_Refresh :: duration
  rc_HistorySize :: int
  rc_Latitude :: real
  rc_Longitude :: real
  rc_HasPosition :: bool
  rc_FetchedAt :: time

record statistics =
  sx_WindowStart :: time
  sx_WindowEnd :: time
  sx_Messages :: u64
  sx_MessageRate :: real
  sx_MaxRangeNM :: real
  sx_TrackedAircraft :: int
  sx_SingleMessageOnly :: int
  sx_FetchedAt :: time

record feeder_summary =
  fs_Descriptor :: feeder_descriptor
  fs_Health :: health_status
  fs_LastPublished :: time
  fs_Aircraft :: int

record snapshot =
  sn_FeederID :: feeder_id
  sn_Feeders :: "feeder_summary list"
  sn_Sequence :: u64
  sn_ActiveProvider :: provider_id
  sn_ProviderChangedAt :: time
  sn_Capabilities :: capabilities
  sn_SourceGeneratedAt :: time
  sn_FetchedAt :: time
  sn_PublishedAt :: time
  sn_Receiver :: receiver
  sn_Statistics :: statistics
  sn_ReceiverMessages :: u64
  sn_MessageCounterValid :: bool
  sn_Aircraft :: "aircraft list"
  sn_ByICAO :: "(string, int) gomap"
  sn_Search :: "aircraft_key list"
  sn_Health :: health

definition zero_source_health :: source_health where
  "zero_source_health = \<lparr> sh_Provider = [], sh_Status = [], sh_LastAttempt = 0, sh_LastSuccess = 0,
     sh_ConsecutiveFailures = 0, sh_ErrorClass = [] \<rparr>"

definition zero_health :: health where
  "zero_health = \<lparr> he_Aircraft = zero_source_health, he_Receiver = zero_source_health,
     he_Stats = zero_source_health \<rparr>"

definition zero_receiver :: receiver where
  "zero_receiver = \<lparr> rc_Version = [], rc_Refresh = 0, rc_HistorySize = 0, rc_Latitude = 0,
     rc_Longitude = 0, rc_HasPosition = False, rc_FetchedAt = 0 \<rparr>"

definition zero_statistics :: statistics where
  "zero_statistics = \<lparr> sx_WindowStart = 0, sx_WindowEnd = 0, sx_Messages = 0, sx_MessageRate = 0,
     sx_MaxRangeNM = 0, sx_TrackedAircraft = 0, sx_SingleMessageOnly = 0, sx_FetchedAt = 0 \<rparr>"

definition zero_snapshot :: snapshot where
  "zero_snapshot = \<lparr> sn_FeederID = [], sn_Feeders = [], sn_Sequence = 0, sn_ActiveProvider = [],
     sn_ProviderChangedAt = 0, sn_Capabilities = 0, sn_SourceGeneratedAt = 0, sn_FetchedAt = 0,
     sn_PublishedAt = 0, sn_Receiver = zero_receiver, sn_Statistics = zero_statistics,
     sn_ReceiverMessages = 0, sn_MessageCounterValid = False, sn_Aircraft = [], sn_ByICAO = [],
     sn_Search = [], sn_Health = zero_health \<rparr>"

text \<open>The receiver is \<open>None\<close> for a nil pointer.\<close>

definition LookupICAO :: "snapshot option \<Rightarrow> string \<Rightarrow> aircraft option" where
  "LookupICAO snapshot icao =
     (case snapshot of
        None \<Rightarrow> None
      | Some s \<Rightarrow>
          (case map_of (sn_ByICAO s) icao of
             None \<Rightarrow> None
           | Some index \<Rightarrow>
               if index < 0 \<or> index \<ge> int (length (sn_Aircraft s)) then None
               else Some (sn_Aircraft s ! nat index)))"

section \<open>\<open>enrichment.go\<close>\<close>

record aircraft_metadata =
  md_Source :: data_source
  md_Registration :: string
  md_AircraftType :: string
  md_ICAOType :: string
  md_Manufacturer :: string
  md_Owner :: string
  md_OwnerCountry :: string
  md_OperatorFlag :: string
  md_PhotoURL :: string
  md_ThumbnailURL :: string

record airline =
  ai_Name :: string
  ai_ICAO :: string
  ai_IATA :: string
  ai_Country :: string
  ai_CountryISO :: string
  ai_RadioCallsign :: string
  ai_Attribution :: string

record airport =
  ap_CountryCode :: string
  ap_Municipality :: string
  ap_Name :: string
  ap_IATA :: string
  ap_ICAO :: string
  ap_Latitude :: real
  ap_Longitude :: real
  ap_HasPosition :: bool
  ap_ElevationFeet :: real
  ap_HasElevation :: bool
  ap_FetchedAt :: time
  ap_ExpiresAt :: time
  ap_Stale :: bool
  ap_Attribution :: string

record route =
  rt_Source :: data_source
  rt_Callsign :: string
  rt_AirlineName :: string
  rt_AirlineICAO :: string
  rt_AirlineIATA :: string
  rt_Origin :: airport
  rt_Midpoint :: "airport option"
  rt_Destination :: airport
  rt_Airports :: "airport list"
  rt_Plausible :: bool
  rt_PlausibilityKnown :: bool
  rt_FetchedAt :: time
  rt_ExpiresAt :: time
  rt_Stale :: bool
  rt_Attribution :: string

record enrichment =
  er_ICAO :: string
  er_Callsign :: string
  er_Aircraft :: "aircraft_metadata option"
  er_Route :: "route option"
  er_Found :: bool
  er_FetchedAt :: time
  er_ExpiresAt :: time
  er_Stale :: bool
  er_Attribution :: string

section \<open>\<open>activity.go\<close>\<close>

type_synonym movement_phase = string

abbreviation (input) MovementApproach :: movement_phase where "MovementApproach \<equiv> ''approach''"
abbreviation (input) MovementDeparture :: movement_phase where "MovementDeparture \<equiv> ''departure''"
abbreviation (input) MovementLanded :: movement_phase where "MovementLanded \<equiv> ''landed''"

record airport_movement =
  mv_Phase :: movement_phase
  mv_ICAO :: string
  mv_Callsign :: string
  mv_Confidence :: int
  mv_DistanceNM :: real
  mv_HasDistance :: bool
  mv_BearingDegrees :: real
  mv_AltitudeFeet :: int
  mv_HasAltitude :: bool
  mv_VerticalRateFPM :: int
  mv_HasVerticalRate :: bool
  mv_GroundSpeedKts :: real
  mv_HasGroundSpeed :: bool
  mv_ObservedAt :: time
  mv_Evidence :: string

definition zero_movement :: airport_movement where
  "zero_movement = \<lparr> mv_Phase = [], mv_ICAO = [], mv_Callsign = [], mv_Confidence = 0, mv_DistanceNM = 0,
     mv_HasDistance = False, mv_BearingDegrees = 0, mv_AltitudeFeet = 0, mv_HasAltitude = False,
     mv_VerticalRateFPM = 0, mv_HasVerticalRate = False, mv_GroundSpeedKts = 0, mv_HasGroundSpeed = False,
     mv_ObservedAt = 0, mv_Evidence = [] \<rparr>"

record airport_activity =
  aa_AirportCode :: string
  aa_UpdatedAt :: time
  aa_Configured :: bool
  aa_Movements :: "airport_movement list"

end
