(* ===== verification/Source.thy ===== *)
theory Source
  imports Domain
begin

text \<open>
  \<open>internal/source\<close>: frames, provider sets, error classes (\<open>source.go\<close>) and the
  priority failover over aircraft providers (\<open>failover.go\<close>).

  A provider is seen through its interface: an identifier and a capability mask. What one
  call of its \<open>FetchAircraft\<close> does, and when the context is cancelled, comes from outside
  and is an argument of the model: an \<open>attempt\<close> per provider index, since one call of the
  failover's own \<open>FetchAircraft\<close> tries each provider at most once.
\<close>

section \<open>Frames, providers, sets (source.go)\<close>

record 'a frame =
  fr_FeederID :: feeder_id
  fr_FetchedAt :: time
  fr_Provider :: provider_id
  fr_Value :: 'a

record provider =
  pv_ProviderID :: provider_id
  pv_Capabilities :: capabilities

definition Supports :: "provider option \<Rightarrow> capability \<Rightarrow> bool" where
  "Supports p c \<longleftrightarrow> (case p of None \<Rightarrow> False | Some p \<Rightarrow> caps_Supports (pv_Capabilities p) c)"

record source_set =
  set_Aircraft :: "provider option"
  set_Receiver :: "provider option"
  set_Stats :: "provider option"

definition NewSet :: "provider \<Rightarrow> source_set" where
  "NewSet upstream = \<lparr> set_Aircraft = Some upstream, set_Receiver = Some upstream, set_Stats = Some upstream \<rparr>"

definition set_Capabilities :: "source_set \<Rightarrow> capabilities" where
  "set_Capabilities s =
     (let c0 = 0;
          c1 = (if Supports (set_Aircraft s) CapabilityAircraft then Bit_Operations.or c0 CapabilityAircraft else c0);
          c2 = (if Supports (set_Receiver s) CapabilityReceiver then Bit_Operations.or c1 CapabilityReceiver else c1)
      in if Supports (set_Stats s) CapabilityStatistics then Bit_Operations.or c2 CapabilityStatistics else c2)"

section \<open>Errors (source.go)\<close>

type_synonym error_class = string

abbreviation (input) ErrorTimeout :: error_class where "ErrorTimeout \<equiv> ''timeout''"
abbreviation (input) ErrorNetwork :: error_class where "ErrorNetwork \<equiv> ''network''"
abbreviation (input) ErrorStatus :: error_class where "ErrorStatus \<equiv> ''http_status''"
abbreviation (input) ErrorPayload :: error_class where "ErrorPayload \<equiv> ''invalid_payload''"
abbreviation (input) ErrorUnknown :: error_class where "ErrorUnknown \<equiv> ''unknown''"

text \<open>
  The error values the code builds and takes apart: \<open>FetchError\<close>, the \<open>net.Error\<close>s (with
  their \<open>Timeout()\<close>), \<open>fmt.Errorf\<close> with \<open>%w\<close>, \<open>errors.Join\<close>, and plain errors. The two
  context errors are plain and, for an expired deadline, a \<open>net.Error\<close> that timed out.
\<close>

datatype go_error =
    FetchError string error_class go_error
  | NetError bool string
  | Wrapped string go_error
  | Joined "go_error list"
  | Plain string
  | ContextCanceled
  | ContextDeadline

fun first_some :: "'a option list \<Rightarrow> 'a option" where
  "first_some [] = None"
| "first_some (Some x # xs) = Some x"
| "first_some (None # xs) = first_some xs"

text \<open>\<open>errors.As\<close>: the first match of the error tree in pre-order.\<close>

primrec as_FetchError :: "go_error \<Rightarrow> error_class option" where
  "as_FetchError (FetchError e c err) = Some c"
| "as_FetchError (NetError t m) = None"
| "as_FetchError (Wrapped m err) = as_FetchError err"
| "as_FetchError (Joined errs) = first_some (map as_FetchError errs)"
| "as_FetchError (Plain m) = None"
| "as_FetchError ContextCanceled = None"
| "as_FetchError ContextDeadline = None"

primrec as_NetError :: "go_error \<Rightarrow> bool option" where
  "as_NetError (FetchError e c err) = as_NetError err"
| "as_NetError (NetError t m) = Some t"
| "as_NetError (Wrapped m err) = as_NetError err"
| "as_NetError (Joined errs) = first_some (map as_NetError errs)"
| "as_NetError (Plain m) = None"
| "as_NetError ContextCanceled = None"
| "as_NetError ContextDeadline = Some True"

definition ClassifyError :: "go_error \<Rightarrow> error_class" where
  "ClassifyError err =
     (case as_FetchError err of
        Some c \<Rightarrow> c
      | None \<Rightarrow>
          (case as_NetError err of
             Some timeout \<Rightarrow> (if timeout then ErrorTimeout else ErrorNetwork)
           | None \<Rightarrow> ErrorUnknown))"

section \<open>Failover (failover.go)\<close>

record failover =
  fo_providers :: "provider list"
  fo_active :: int
  fo_recoverySuccesses :: int
  fo_recoveries :: "int list"

datatype failover_error =
    NoProviders | NegativeRecovery | NilProvider | NotFixedProvider provider_id
  | NoAircraftCapability provider_id | DuplicateProvider provider_id

abbreviation (input) DefaultRecoverySuccesses :: int where "DefaultRecoverySuccesses \<equiv> 2"

fun check_providers :: "provider_id list \<Rightarrow> provider option list \<Rightarrow> failover_error + provider list" where
  "check_providers seen [] = Inr []"
| "check_providers seen (None # ps) = Inl NilProvider"
| "check_providers seen (Some p # ps) =
     (let id = pv_ProviderID p in
      if \<not> provider_known id then Inl (NotFixedProvider id)
      else if \<not> caps_Supports (pv_Capabilities p) CapabilityAircraft then Inl (NoAircraftCapability id)
      else if id \<in> set seen then Inl (DuplicateProvider id)
      else map_sum (\<lambda>e. e) (Cons p) (check_providers (id # seen) ps))"

definition NewAircraftFailover :: "provider option list \<Rightarrow> int \<Rightarrow> failover_error + failover" where
  "NewAircraftFailover providers recoverySuccesses =
     (if providers = [] then Inl NoProviders
      else if recoverySuccesses < 0 then Inl NegativeRecovery
      else
        let rs = (if recoverySuccesses = 0 then DefaultRecoverySuccesses else recoverySuccesses) in
        case check_providers [] providers of
          Inl e \<Rightarrow> Inl e
        | Inr ordered \<Rightarrow>
            Inr \<lparr> fo_providers = ordered, fo_active = -1, fo_recoverySuccesses = rs,
                  fo_recoveries = replicate (length ordered) 0 \<rparr>)"

definition failover_ProviderID :: "failover \<Rightarrow> provider_id" where
  "failover_ProviderID f =
     (if fo_active f \<ge> 0 then pv_ProviderID (fo_providers f ! nat (fo_active f))
      else pv_ProviderID (fo_providers f ! 0))"

text \<open>
  One call of a provider: \<open>ctx.Err()\<close> before it, what it returns, and \<open>ctx.Err()\<close>
  after it. A cancelled context stays cancelled.
\<close>

record attempt =
  at_before :: "go_error option"
  at_result :: "go_error + aircraft_batch frame"
  at_after :: "go_error option"

definition ctx_err :: "attempt \<Rightarrow> go_error option" where
  "ctx_err a = (case at_before a of Some e \<Rightarrow> Some e | None \<Rightarrow> at_after a)"

definition stamp_provider :: "provider_id \<Rightarrow> aircraft_batch frame \<Rightarrow> aircraft_batch frame" where
  "stamp_provider p fr =
     fr\<lparr> fr_Provider := p,
         fr_Value := (fr_Value fr)\<lparr> ab_Provider := p,
           ab_Aircraft := map (\<lambda>a. a\<lparr> ac_Provider := p \<rparr>) (ab_Aircraft (fr_Value fr)) \<rparr> \<rparr>"

definition fetch :: "failover \<Rightarrow> (nat \<Rightarrow> attempt) \<Rightarrow> nat \<Rightarrow> go_error + aircraft_batch frame" where
  "fetch f env index =
     (case at_before (env index) of
        Some e \<Rightarrow> Inl e
      | None \<Rightarrow>
          (case at_result (env index) of
             Inl e \<Rightarrow> Inl e
           | Inr fr \<Rightarrow>
               (case at_after (env index) of
                  Some e \<Rightarrow> Inl e
                | None \<Rightarrow> Inr (stamp_provider (pv_ProviderID (fo_providers f ! index)) fr))))"

definition providerError :: "failover \<Rightarrow> nat \<Rightarrow> go_error \<Rightarrow> go_error" where
  "providerError f index err =
     Wrapped (pv_ProviderID (fo_providers f ! index) @ '' aircraft fetch'') err"

definition activate :: "nat \<Rightarrow> failover \<Rightarrow> failover" where
  "activate index f = f\<lparr> fo_active := int index,
     fo_recoveries := replicate (length (fo_recoveries f)) 0 \<rparr>"

fun fetchLower :: "failover \<Rightarrow> (nat \<Rightarrow> attempt) \<Rightarrow> nat list \<Rightarrow> go_error list \<Rightarrow>
    (go_error + aircraft_batch frame) \<times> failover" where
  "fetchLower f env [] errs = (Inl (Wrapped ''all aircraft providers failed'' (Joined errs)), f)"
| "fetchLower f env (index # rest) errs =
     (case fetch f env index of
        Inr fr \<Rightarrow> (Inr fr, activate index f)
      | Inl e \<Rightarrow>
          (case ctx_err (env index) of
             Some c \<Rightarrow> (Inl c, f)
           | None \<Rightarrow> fetchLower f env rest (errs @ [providerError f index e])))"

text \<open>The loop over the providers above the active one, which probes for recovery.\<close>

datatype probe_result =
    Returned "(go_error + aircraft_batch frame) \<times> failover"
  | Probed failover "go_error list" "(nat \<times> aircraft_batch frame) option"

fun probe :: "failover \<Rightarrow> (nat \<Rightarrow> attempt) \<Rightarrow> nat list \<Rightarrow> go_error list \<Rightarrow>
    (nat \<times> aircraft_batch frame) option \<Rightarrow> probe_result" where
  "probe f env [] errs recovered = Probed f errs recovered"
| "probe f env (index # rest) errs recovered =
     (case fetch f env index of
        Inl e \<Rightarrow>
          let f' = f\<lparr> fo_recoveries := (fo_recoveries f)[index := 0] \<rparr> in
          (case ctx_err (env index) of
             Some c \<Rightarrow> Returned (Inl c, f')
           | None \<Rightarrow> probe f' env rest (errs @ [providerError f index e]) recovered)
      | Inr fr \<Rightarrow>
          let n = fo_recoveries f ! index + 1;
              f' = f\<lparr> fo_recoveries := (fo_recoveries f)[index := n] \<rparr> in
          if n \<ge> fo_recoverySuccesses f then Returned (Inr fr, activate index f')
          else probe f' env rest errs (case recovered of None \<Rightarrow> Some (index, fr) | Some r \<Rightarrow> Some r))"

definition fetchInitial :: "failover \<Rightarrow> (nat \<Rightarrow> attempt) \<Rightarrow> (go_error + aircraft_batch frame) \<times> failover" where
  "fetchInitial f env = fetchLower f env [0..<length (fo_providers f)] []"

definition failover_FetchAircraft ::
    "failover \<Rightarrow> (nat \<Rightarrow> attempt) \<Rightarrow> (go_error + aircraft_batch frame) \<times> failover" where
  "failover_FetchAircraft f env =
     (if fo_active f < 0 then fetchInitial f env
      else if fo_active f = 0 then
        (case fetch f env 0 of
           Inr fr \<Rightarrow> (Inr fr, f)
         | Inl e \<Rightarrow>
             (case ctx_err (env 0) of
                Some c \<Rightarrow> (Inl c, f)
              | None \<Rightarrow> fetchLower f env [1..<length (fo_providers f)] [providerError f 0 e]))
      else
        let active = nat (fo_active f) in
        (case probe f env [0..<active] [] None of
           Returned r \<Rightarrow> r
         | Probed f' errs recovered \<Rightarrow>
             (case fetch f' env active of
                Inr fr \<Rightarrow> (Inr fr, f')
              | Inl e \<Rightarrow>
                  (case ctx_err (env active) of
                     Some c \<Rightarrow> (Inl c, f')
                   | None \<Rightarrow>
                       (case recovered of
                          Some (i, fr) \<Rightarrow> (Inr fr, activate i f')
                        | None \<Rightarrow> fetchLower f' env [active + 1..<length (fo_providers f')]
                                    (errs @ [providerError f' active e]))))))"

end
