(* ===== verification/Source_Props.thy ===== *)
theory Source_Props
  imports Source
begin

text \<open>
  Correctness of the aircraft failover: its invariant, that a call returns the snapshot of
  exactly one provider and makes it the active one, that it succeeds whenever some provider
  does, and that it returns to a higher-priority provider only after the configured number
  of consecutive successful probes.
\<close>

section \<open>The invariant\<close>

definition frame_from :: "provider_id \<Rightarrow> aircraft_batch frame \<Rightarrow> bool" where
  "frame_from p fr \<longleftrightarrow> fr_Provider fr = p \<and> ab_Provider (fr_Value fr) = p \<and>
     (\<forall>a\<in>set (ab_Aircraft (fr_Value fr)). ac_Provider a = p)"

abbreviation provider_at :: "failover \<Rightarrow> nat \<Rightarrow> provider_id" where
  "provider_at f i \<equiv> pv_ProviderID (fo_providers f ! i)"

definition failover_wf :: "failover \<Rightarrow> bool" where
  "failover_wf f \<longleftrightarrow>
     fo_providers f \<noteq> [] \<and> distinct (map pv_ProviderID (fo_providers f)) \<and>
     (\<forall>p\<in>set (fo_providers f). provider_known (pv_ProviderID p) \<and>
        caps_Supports (pv_Capabilities p) CapabilityAircraft) \<and>
     - 1 \<le> fo_active f \<and> fo_active f < int (length (fo_providers f)) \<and>
     1 \<le> fo_recoverySuccesses f \<and>
     length (fo_recoveries f) = length (fo_providers f) \<and>
     (\<forall>j < length (fo_recoveries f). 0 \<le> fo_recoveries f ! j \<and>
        fo_recoveries f ! j < fo_recoverySuccesses f \<and>
        (fo_active f \<le> int j \<longrightarrow> fo_recoveries f ! j = 0))"

definition same_config :: "failover \<Rightarrow> failover \<Rightarrow> bool" where
  "same_config f g \<longleftrightarrow> fo_providers g = fo_providers f \<and> fo_recoverySuccesses g = fo_recoverySuccesses f"

lemma same_config_refl [simp]: "same_config f f"
  by (simp add: same_config_def)

lemma same_config_trans: "same_config f g \<Longrightarrow> same_config g h \<Longrightarrow> same_config f h"
  by (simp add: same_config_def)

lemma same_config_updates [simp]:
  "same_config f (activate i g) = same_config f g"
  "same_config f (g\<lparr>fo_recoveries := r\<rparr>) = same_config f g"
  "same_config f (g\<lparr>fo_active := a\<rparr>) = same_config f g"
  by (simp_all add: same_config_def activate_def)

lemma fetch_same_config: "same_config f g \<Longrightarrow> fetch g env i = fetch f env i"
  by (simp add: fetch_def same_config_def cong: option.case_cong sum.case_cong)

lemma fetch_recoveries [simp]: "fetch (f\<lparr>fo_recoveries := r\<rparr>) env i = fetch f env i"
  by (simp add: fetch_def cong: option.case_cong sum.case_cong)

lemma fetch_frame_from: "fetch f env i = Inr fr \<Longrightarrow> frame_from (provider_at f i) fr"
  by (auto simp: fetch_def frame_from_def stamp_provider_def split: option.splits sum.splits)

lemma failover_wf_activate [inv_intros]:
  "failover_wf f \<Longrightarrow> i < length (fo_providers f) \<Longrightarrow> failover_wf (activate i f)"
  by (auto simp: failover_wf_def activate_def)

lemma failover_wf_probe_update:
  assumes "failover_wf f" "int i < fo_active f" "0 \<le> n" "n < fo_recoverySuccesses f"
  shows "failover_wf (f\<lparr>fo_recoveries := (fo_recoveries f)[i := n]\<rparr>)"
  using assms by (auto simp: failover_wf_def nth_list_update)

lemma check_providers_ok:
  "check_providers seen ps = Inr qs \<Longrightarrow>
     length qs = length ps \<and> distinct (map pv_ProviderID qs) \<and>
     set (map pv_ProviderID qs) \<inter> set seen = {} \<and>
     (\<forall>p\<in>set qs. provider_known (pv_ProviderID p) \<and> caps_Supports (pv_Capabilities p) CapabilityAircraft)"
proof (induction seen ps arbitrary: qs rule: check_providers.induct)
  case (3 seen p ps)
  then obtain rs where "check_providers (pv_ProviderID p # seen) ps = Inr rs" "qs = p # rs"
    by (cases "check_providers (pv_ProviderID p # seen) ps") (auto simp: Let_def split: if_splits)
  with 3 show ?case by (auto simp: Let_def split: if_splits)
qed auto

lemma failover_wf_new:
  "NewAircraftFailover ps n = Inr f \<Longrightarrow> failover_wf f \<and> fo_active f = - 1"
  by (auto simp: NewAircraftFailover_def failover_wf_def Let_def
      dest!: check_providers_ok split: if_splits sum.splits)

section \<open>What a call returns\<close>

text \<open>
  The result of a call from \<open>f\<close>: the invariant holds again, and a returned frame is the
  frame of the provider that is active afterwards, and of no other.
\<close>

definition good_result :: "failover \<Rightarrow> (go_error + aircraft_batch frame) \<times> failover \<Rightarrow> bool" where
  "good_result f r \<longleftrightarrow> failover_wf (snd r) \<and> same_config f (snd r) \<and>
     (\<forall>fr. fst r = Inr fr \<longrightarrow> 0 \<le> fo_active (snd r) \<and>
        frame_from (provider_at f (nat (fo_active (snd r)))) fr)"

lemma good_result_Inl [simp]: "good_result f (Inl e, g) \<longleftrightarrow> failover_wf g \<and> same_config f g"
  by (simp add: good_result_def)

lemma good_result_activate:
  assumes "failover_wf g" "same_config f g" "i < length (fo_providers g)"
    and "frame_from (provider_at f i) fr"
  shows "good_result f (Inr fr, activate i g)"
  using assms by (auto simp: good_result_def activate_def failover_wf_def)

lemma fetchLower_good:
  assumes "failover_wf g" "same_config f g" "\<forall>i\<in>set is. i < length (fo_providers g)"
  shows "good_result f (fetchLower g env is errs)"
  using assms(3)
proof (induction "is" arbitrary: errs)
  case Nil
  then show ?case using assms by simp
next
  case (Cons i "is")
  show ?case
  proof (cases "fetch g env i")
    case (Inl e)
    then show ?thesis using Cons assms by (auto split: option.splits)
  next
    case (Inr fr)
    then have "frame_from (provider_at f i) fr"
      using fetch_frame_from assms(2) by (metis same_config_def)
    then show ?thesis using Inr Cons.prems assms by (simp add: good_result_activate)
  qed
qed

definition good_probe :: "failover \<Rightarrow> failover \<Rightarrow> probe_result \<Rightarrow> bool" where
  "good_probe f g r \<longleftrightarrow>
     (case r of
        Returned x \<Rightarrow> good_result f x
      | Probed h errs rec \<Rightarrow> failover_wf h \<and> same_config f h \<and> fo_active h = fo_active g \<and>
          (\<forall>i fr. rec = Some (i, fr) \<longrightarrow> int i < fo_active g \<and> frame_from (provider_at f i) fr))"

lemma probe_good:
  assumes "failover_wf g" "same_config f g" "\<forall>i\<in>set is. int i < fo_active g"
    and "\<forall>i fr. rec = Some (i, fr) \<longrightarrow> int i < fo_active g \<and> frame_from (provider_at f i) fr"
  shows "good_probe f g (probe g env is errs rec)"
  using assms
proof (induction "is" arbitrary: g errs rec)
  case Nil
  then show ?case by (simp add: good_probe_def)
next
  case (Cons i "is")
  let ?upd = "\<lambda>n. g\<lparr>fo_recoveries := (fo_recoveries g)[i := n]\<rparr>"
  have i: "int i < fo_active g" "i < length (fo_providers g)"
    using Cons.prems(1,3) by (auto simp: failover_wf_def)
  have IH: "good_probe f g (probe (?upd n) env is es rec')"
    if "0 \<le> n" "n < fo_recoverySuccesses g"
      and "\<forall>i fr. rec' = Some (i, fr) \<longrightarrow> int i < fo_active g \<and> frame_from (provider_at f i) fr"
    for n es rec'
  proof -
    have "good_probe f (?upd n) (probe (?upd n) env is es rec')"
      using Cons.prems that i by (intro Cons.IH) (auto intro: failover_wf_probe_update)
    then show ?thesis
      by (cases "probe (?upd n) env is es rec'") (simp_all add: good_probe_def)
  qed
  show ?case
  proof (cases "fetch g env i")
    case (Inl e)
    have wf0: "failover_wf (?upd 0)"
      using Cons.prems(1) i by (intro failover_wf_probe_update) (auto simp: failover_wf_def)
    show ?thesis
    proof (cases "ctx_err (env i)")
      case None
      then show ?thesis using Inl IH Cons.prems(1,4) by (simp add: Let_def failover_wf_def)
    next
      case (Some c)
      then show ?thesis using Inl wf0 Cons.prems(2) by (simp add: Let_def good_probe_def)
    qed
  next
    case (Inr fr)
    let ?n = "fo_recoveries g ! i + 1"
    have fr: "frame_from (provider_at f i) fr"
      using Inr fetch_frame_from Cons.prems(2) by (metis same_config_def)
    have n0: "0 \<le> ?n" using Cons.prems(1) i by (auto simp: failover_wf_def)
    show ?thesis
    proof (cases "?n \<ge> fo_recoverySuccesses g")
      case True
      have "activate i (?upd ?n) = activate i g" by (simp add: activate_def)
      then show ?thesis using True Inr Cons.prems i fr
        by (simp add: Let_def good_probe_def good_result_activate)
    next
      case False
      then show ?thesis using Inr IH n0 Cons.prems(4) fr i
        by (simp add: Let_def split: option.splits)
    qed
  qed
qed

lemma FetchAircraft_good: "failover_wf f \<Longrightarrow> good_result f (failover_FetchAircraft f env)"
proof -
  assume wf: "failover_wf f"
  let ?n = "length (fo_providers f)"
  consider "fo_active f < 0" | "fo_active f = 0" | "fo_active f > 0" by linarith
  then show ?thesis
  proof cases
    case 1
    then show ?thesis using wf
      by (auto simp: failover_FetchAircraft_def fetchInitial_def intro!: fetchLower_good)
  next
    case 2
    have "good_result f (fetchLower f env [1..<?n] errs)" for errs
      using wf by (intro fetchLower_good) auto
    with 2 wf show ?thesis
      using fetch_frame_from [of f env 0]
      by (auto simp: failover_FetchAircraft_def good_result_def split: sum.splits option.splits)
  next
    case 3
    let ?a = "nat (fo_active f)"
    have "good_probe f f (probe f env [0..<?a] [] None)"
      using wf 3 by (intro probe_good) auto
    then show ?thesis
    proof (cases "probe f env [0..<?a] [] None")
      case (Returned r)
      with \<open>good_probe _ _ _\<close> 3 show ?thesis
        by (simp add: failover_FetchAircraft_def good_probe_def)
    next
      case (Probed g errs rec)
      with \<open>good_probe _ _ _\<close> have g: "failover_wf g" "same_config f g" "fo_active g = fo_active f"
        and rec: "\<And>i fr. rec = Some (i, fr) \<Longrightarrow> int i < fo_active f \<and> frame_from (provider_at f i) fr"
        by (auto simp: good_probe_def)
      have low: "good_result f (fetchLower g env [?a + 1..<length (fo_providers g)] es)" for es
        using g by (intro fetchLower_good) auto
      have act: "good_result f (Inr fr, activate i g)" if "rec = Some (i, fr)" for i fr
        using rec [OF that] g by (intro good_result_activate) (auto simp: failover_wf_def)
      have cur: "good_result f (Inr fr, g)" if "fetch g env ?a = Inr fr" for fr
        using fetch_frame_from [OF that] g 3 by (simp add: good_result_def same_config_def)
      from 3 Probed low act cur g show ?thesis
        by (auto simp: failover_FetchAircraft_def Let_def split: sum.splits option.splits)
    qed
  qed
qed


section \<open>Availability\<close>

definition no_cancel :: "nat \<Rightarrow> (nat \<Rightarrow> attempt) \<Rightarrow> bool" where
  "no_cancel n env \<longleftrightarrow> list_all (\<lambda>i. at_before (env i) = None \<and> at_after (env i) = None) [0..<n]"

definition succeeds :: "failover \<Rightarrow> (nat \<Rightarrow> attempt) \<Rightarrow> nat \<Rightarrow> bool" where
  "succeeds f env i \<longleftrightarrow> (case fetch f env i of Inl _ \<Rightarrow> False | Inr _ \<Rightarrow> True)"

lemma no_cancel_ctx: "no_cancel n env \<Longrightarrow> i < n \<Longrightarrow> ctx_err (env i) = None"
  by (auto simp: no_cancel_def list_all_iff ctx_err_def)

lemma succeeds_same_config: "same_config f g \<Longrightarrow> succeeds g env i = succeeds f env i"
  by (simp add: succeeds_def fetch_same_config)

lemma succeeds_recoveries [simp]: "succeeds (f\<lparr>fo_recoveries := r\<rparr>) env i = succeeds f env i"
  by (simp add: succeeds_def)

lemma fetchLower_available:
  assumes "no_cancel n env" "\<forall>i\<in>set is. i < n" "\<exists>i\<in>set is. succeeds g env i"
  shows "\<exists>fr. fst (fetchLower g env is errs) = Inr fr"
  using assms(2,3)
proof (induction "is" arbitrary: errs)
  case (Cons i "is")
  then show ?case using no_cancel_ctx [OF assms(1)]
    by (cases "fetch g env i") (auto simp: succeeds_def)
qed simp

lemma fetchLower_exhausted:
  assumes "no_cancel n env" "\<forall>i\<in>set is. i < n" "\<forall>i\<in>set is. \<not> succeeds g env i"
  shows "\<exists>es. fetchLower g env is errs = (Inl (Wrapped ''all aircraft providers failed'' (Joined es)), g)"
  using assms(2,3)
proof (induction "is" arbitrary: errs)
  case (Cons i "is")
  then show ?case using no_cancel_ctx [OF assms(1)]
    by (cases "fetch g env i") (auto simp: succeeds_def)
qed simp

text \<open>What the recovery probe does when nothing is cancelled.\<close>

lemma probe_Probed:
  assumes "probe g env is errs rec = Probed h errs' rec'" "distinct is"
    and "\<forall>i\<in>set is. i < length (fo_recoveries g)"
  shows "same_config g h \<and> fo_active h = fo_active g \<and> length (fo_recoveries h) = length (fo_recoveries g) \<and>
     (\<forall>i < length (fo_recoveries g). fo_recoveries h ! i =
        (if i \<in> set is then (if succeeds g env i then fo_recoveries g ! i + 1 else 0)
         else fo_recoveries g ! i)) \<and>
     (rec' \<noteq> None \<longleftrightarrow> rec \<noteq> None \<or> (\<exists>i\<in>set is. succeeds g env i))"
  using assms
proof (induction "is" arbitrary: g errs rec)
  case Nil
  then show ?case by simp
next
  case (Cons i "is")
  let ?n = "if succeeds g env i then fo_recoveries g ! i + 1 else 0"
  let ?g = "g\<lparr>fo_recoveries := (fo_recoveries g)[i := ?n]\<rparr>"
  obtain es rec2 where step: "probe ?g env is es rec2 = Probed h errs' rec'"
    and rec2: "rec2 \<noteq> None \<longleftrightarrow> rec \<noteq> None \<or> succeeds g env i"
    using Cons.prems(1)
    by (cases "fetch g env i")
      (auto simp: succeeds_def Let_def split: option.splits if_splits)
  have "same_config ?g h \<and> fo_active h = fo_active ?g \<and> length (fo_recoveries h) = length (fo_recoveries ?g) \<and>
     (\<forall>j < length (fo_recoveries ?g). fo_recoveries h ! j =
        (if j \<in> set is then (if succeeds ?g env j then fo_recoveries ?g ! j + 1 else 0)
         else fo_recoveries ?g ! j)) \<and>
     (rec' \<noteq> None \<longleftrightarrow> rec2 \<noteq> None \<or> (\<exists>j\<in>set is. succeeds ?g env j))"
    using Cons.prems by (intro Cons.IH [OF step]) auto
  moreover have "i \<notin> set is" "i < length (fo_recoveries g)" using Cons.prems by auto
  ultimately show ?case using rec2 by (auto simp: nth_list_update same_config_def)
qed

lemma probe_Returned:
  assumes "probe g env is errs rec = Returned r" "distinct is" "no_cancel n env"
    and "\<forall>i\<in>set is. i < length (fo_recoveries g) \<and> i < n"
  shows "\<exists>j fr h. r = (Inr fr, activate j h) \<and> j \<in> set is \<and> succeeds g env j \<and>
     length (fo_recoveries h) = length (fo_recoveries g) \<and>
     fo_recoverySuccesses g \<le> fo_recoveries g ! j + 1"
  using assms(1,2,4)
proof (induction "is" arbitrary: g errs rec)
  case Nil
  then show ?case by simp
next
  case (Cons i "is")
  let ?n = "if succeeds g env i then fo_recoveries g ! i + 1 else 0"
  let ?g = "g\<lparr>fo_recoveries := (fo_recoveries g)[i := ?n]\<rparr>"
  have i: "i \<notin> set is" "i < length (fo_recoveries g)" "ctx_err (env i) = None"
    using Cons.prems no_cancel_ctx [OF assms(3)] by auto
  have rest: ?case if q: "probe ?g env is es rec2 = Returned r" for es rec2
  proof -
    obtain j fr h where "r = (Inr fr, activate j h)" "j \<in> set is" "succeeds ?g env j"
      "length (fo_recoveries h) = length (fo_recoveries ?g)"
      "fo_recoverySuccesses ?g \<le> fo_recoveries ?g ! j + 1"
      using Cons.IH [OF q] Cons.prems by auto
    with i show ?thesis by (auto simp: nth_list_update split: if_splits)
  qed
  show ?case
  proof (cases "fetch g env i")
    case (Inl e)
    then show ?thesis using Cons.prems(1) i rest by (simp add: Let_def succeeds_def)
  next
    case (Inr fr)
    then have s: "succeeds g env i" by (simp add: succeeds_def)
    show ?thesis
    proof (cases "fo_recoveries g ! i + 1 \<ge> fo_recoverySuccesses g")
      case True
      with Inr Cons.prems(1) have "r = (Inr fr, activate i ?g)" by (simp add: Let_def s)
      then show ?thesis using True s i(2) by (intro exI [of _ i] exI [of _ fr] exI [of _ ?g]) auto
    next
      case False
      with Inr Cons.prems(1) s have "probe ?g env is errs
          (case rec of None \<Rightarrow> Some (i, fr) | Some x \<Rightarrow> Some x) = Returned r"
        by (simp add: Let_def)
      then show ?thesis by (rule rest)
    qed
  qed
qed

lemma FetchAircraft_available:
  assumes "failover_wf f" "no_cancel (length (fo_providers f)) env"
    and "i < length (fo_providers f)" "succeeds f env i"
  shows "\<exists>fr. fst (failover_FetchAircraft f env) = Inr fr"
proof -
  let ?n = "length (fo_providers f)"
  consider "fo_active f < 0" | "fo_active f = 0" | "fo_active f > 0" by linarith
  then show ?thesis
  proof cases
    case 1
    then show ?thesis using assms
      by (auto simp: failover_FetchAircraft_def fetchInitial_def intro!: fetchLower_available)
  next
    case 2
    show ?thesis
    proof (cases "fetch f env 0")
      case (Inl e)
      then have "i \<noteq> 0" using assms(4) by (cases i) (simp_all add: succeeds_def)
      then have "\<exists>fr. fst (fetchLower f env [1..<?n] es) = Inr fr" for es
        using assms by (intro fetchLower_available) auto
      moreover have "ctx_err (env 0) = None"
        using assms(2,3) by (intro no_cancel_ctx) auto
      ultimately show ?thesis using 2 Inl by (simp add: failover_FetchAircraft_def)
    next
      case (Inr fr)
      then show ?thesis using 2 by (simp add: failover_FetchAircraft_def)
    qed
  next
    case 3
    let ?a = "nat (fo_active f)"
    have a: "?a < ?n" "length (fo_recoveries f) = ?n" using assms(1) 3 by (auto simp: failover_wf_def)
    show ?thesis
    proof (cases "probe f env [0..<?a] [] None")
      case (Returned r)
      then have "\<exists>fr. fst r = Inr fr"
        using probe_Returned [OF Returned _ assms(2)] a by fastforce
      with Returned 3 show ?thesis by (simp add: failover_FetchAircraft_def)
    next
      case (Probed g errs rec)
      then have g: "same_config f g" and rec: "rec \<noteq> None \<longleftrightarrow> (\<exists>i < ?a. succeeds f env i)"
        using probe_Probed [OF Probed] a by (auto simp: Bex_def)
      have low: "\<exists>fr. fst (fetchLower g env [?a + 1..<length (fo_providers g)] es) = Inr fr"
        if "rec = None" "fetch g env ?a = Inl e" for es e
      proof -
        have "\<not> i < ?a" "i \<noteq> ?a"
          using that rec assms(4) fetch_same_config [OF g] by (auto simp: succeeds_def)
        then show ?thesis using assms g
          by (intro fetchLower_available [OF assms(2)])
            (auto simp: same_config_def succeeds_same_config [OF g] intro!: bexI [of _ i])
      qed
      have "ctx_err (env ?a) = None" using a by (intro no_cancel_ctx [OF assms(2)])
      then show ?thesis using 3 Probed low
        by (auto simp: failover_FetchAircraft_def Let_def split: sum.splits option.splits)
    qed
  qed
qed

section \<open>Hysteresis\<close>

fun failover_run :: "failover \<Rightarrow> (nat \<Rightarrow> attempt) list \<Rightarrow> failover" where
  "failover_run f [] = f"
| "failover_run f (env # envs) = failover_run (snd (failover_FetchAircraft f env)) envs"

text \<open>The number of latest calls in a row in which provider \<open>i\<close> answered.\<close>

definition streak :: "failover \<Rightarrow> (nat \<Rightarrow> attempt) list \<Rightarrow> nat \<Rightarrow> nat" where
  "streak f envs i = length (takeWhile (\<lambda>env. succeeds f env i) (rev envs))"

lemma streak_snoc: "streak f (envs @ [env]) i = (if succeeds f env i then Suc (streak f envs i) else 0)"
  by (simp add: streak_def)

lemma failover_run_append: "failover_run f (xs @ ys) = failover_run (failover_run f xs) ys"
  by (induction xs arbitrary: f) auto

lemma failover_run_wf:
  "failover_wf f \<Longrightarrow> failover_wf (failover_run f envs) \<and> same_config f (failover_run f envs)"
proof (induction envs arbitrary: f)
  case (Cons env envs)
  have "failover_wf (snd (failover_FetchAircraft f env))" "same_config f (snd (failover_FetchAircraft f env))"
    using FetchAircraft_good [OF Cons.prems] by (auto simp: good_result_def)
  then show ?case using Cons.IH by (auto intro: same_config_trans)
qed simp

lemma fetchLower_recoveries:
  "snd (fetchLower g env is errs) = g \<or> (\<exists>j. snd (fetchLower g env is errs) = activate j g)"
  by (induction "is" arbitrary: errs) (auto split: sum.splits option.splits)

lemma activate_recoveries: "i < length (fo_recoveries g) \<Longrightarrow> fo_recoveries (activate j g) ! i = 0"
  by (simp add: activate_def)

lemma FetchAircraft_recoveries:
  assumes "failover_wf f" "no_cancel (length (fo_providers f)) env" "i < length (fo_providers f)"
  shows "fo_recoveries (snd (failover_FetchAircraft f env)) ! i = 0 \<or>
    (succeeds f env i \<and> fo_recoveries (snd (failover_FetchAircraft f env)) ! i = fo_recoveries f ! i + 1)"
proof -
  let ?n = "length (fo_providers f)" and ?r = "snd (failover_FetchAircraft f env)"
  have len: "length (fo_recoveries f) = ?n" using assms(1) by (simp add: failover_wf_def)
  show ?thesis
  proof (cases "fo_active f > 0")
    case False
    then have "fo_recoveries f ! i = 0" using assms(1,3) by (auto simp: failover_wf_def)
    moreover have "?r = f \<or> (\<exists>j. ?r = activate j f)"
      using False fetchLower_recoveries
      by (auto simp: failover_FetchAircraft_def fetchInitial_def split: sum.splits option.splits)
    ultimately show ?thesis using activate_recoveries assms(3) len by metis
  next
    case True
    let ?a = "nat (fo_active f)"
    have a: "?a < ?n" using assms(1) True by (auto simp: failover_wf_def)
    show ?thesis
    proof (cases "probe f env [0..<?a] [] None")
      case (Returned r)
      then obtain j fr h where "r = (Inr fr, activate j h)" "length (fo_recoveries h) = ?n"
        using probe_Returned [OF Returned _ assms(2)] a len by fastforce
      with Returned True assms(3) show ?thesis
        by (simp add: failover_FetchAircraft_def activate_recoveries)
    next
      case (Probed g errs rec)
      then have g: "length (fo_recoveries g) = ?n" "fo_recoveries g ! i =
        (if i < ?a then (if succeeds f env i then fo_recoveries f ! i + 1 else 0) else fo_recoveries f ! i)"
        using probe_Probed [OF Probed] a len assms(3) by auto
      have "?r = g \<or> (\<exists>j. ?r = activate j g)"
        using True Probed fetchLower_recoveries
        by (auto simp: failover_FetchAircraft_def Let_def split: sum.splits option.splits)
      moreover have "\<not> i < ?a \<Longrightarrow> fo_recoveries f ! i = 0"
        using assms(1,3) by (auto simp: failover_wf_def)
      ultimately show ?thesis using g activate_recoveries assms(3) by (metis (full_types))
    qed
  qed
qed

lemma failover_run_streak:
  assumes "failover_wf f" "\<forall>env\<in>set envs. no_cancel (length (fo_providers f)) env"
    and "i < length (fo_providers f)" "\<forall>j < length (fo_providers f). fo_recoveries f ! j = 0"
  shows "fo_recoveries (failover_run f envs) ! i \<le> int (streak f envs i)"
  using assms(2)
proof (induction envs rule: rev_induct)
  case Nil
  then show ?case using assms by simp
next
  case (snoc env envs)
  let ?g = "failover_run f envs"
  have g: "failover_wf ?g" "same_config f ?g" using failover_run_wf [OF assms(1)] by auto
  then have "fo_recoveries (snd (failover_FetchAircraft ?g env)) ! i = 0 \<or>
    (succeeds ?g env i \<and> fo_recoveries (snd (failover_FetchAircraft ?g env)) ! i = fo_recoveries ?g ! i + 1)"
    using snoc.prems assms(3) by (intro FetchAircraft_recoveries) (auto simp: same_config_def)
  then show ?case using snoc succeeds_same_config [OF g(2)]
    by (auto simp: failover_run_append streak_snoc)
qed


lemma failover_run_new:
  assumes "NewAircraftFailover ps n = Inr f0"
  shows "failover_wf (failover_run f0 envs) \<and> same_config f0 (failover_run f0 envs)"
  using failover_wf_new [OF assms] failover_run_wf by blast

section \<open>Properties\<close>

text \<open>Whatever calls came before, a successful \<open>FetchAircraft\<close> of a failover built by
  \<open>NewAircraftFailover\<close> returns the snapshot of exactly one provider: the one that is
  active afterwards, whose identifier the frame, the batch and every aircraft in it carry.
  Providers are never merged.\<close>

theorem failover_single_provider:
  assumes "NewAircraftFailover ps n = Inr f0"
    and "failover_FetchAircraft (failover_run f0 envs) env = (Inr fr, f')"
  shows "0 \<le> fo_active f' \<and> fo_active f' < int (length (fo_providers f')) \<and>
    frame_from (provider_at f' (nat (fo_active f'))) fr"
proof -
  have "good_result (failover_run f0 envs) (Inr fr, f')"
    using failover_run_new [OF assms(1)] FetchAircraft_good assms(2) by metis
  then show ?thesis by (auto simp: good_result_def failover_wf_def same_config_def)
qed

text \<open>Availability: while the context is not cancelled, a call succeeds as soon as one
  of the configured providers answers, wherever it stands in the priority order and
  whichever provider is active.\<close>

theorem failover_available:
  assumes "NewAircraftFailover ps n = Inr f0"
    and "no_cancel (length (fo_providers f0)) env"
    and "i < length (fo_providers f0)" and "succeeds f0 env i"
  shows "\<exists>fr. fst (failover_FetchAircraft (failover_run f0 envs) env) = Inr fr"
proof -
  have g: "failover_wf (failover_run f0 envs)" "same_config f0 (failover_run f0 envs)"
    using failover_run_new [OF assms(1)] by auto
  show ?thesis
    using assms(2-4) succeeds_same_config [OF g(2)]
    by (intro FetchAircraft_available [OF g(1), of env i]) (simp_all add: same_config_def g(2) [unfolded same_config_def])
qed

text \<open>C26. Hysteresis: with the active provider still answering and nothing cancelled, the
  failover goes back to a higher-priority provider only after that provider has answered in
  the last \<open>RecoverySuccesses\<close> calls in a row.\<close>

theorem failover_hysteresis:
  assumes "NewAircraftFailover ps n = Inr f0"
    and "\<forall>e\<in>set (envs @ [env]). no_cancel (length (fo_providers f0)) e"
    and "f = failover_run f0 envs" and "f' = failover_run f0 (envs @ [env])"
    and "succeeds f0 env (nat (fo_active f))" and "fo_active f' < fo_active f"
  shows "fo_recoverySuccesses f0 \<le> int (streak f0 (envs @ [env]) (nat (fo_active f')))"
proof -
  have f: "failover_wf f" "same_config f0 f" using failover_run_new [OF assms(1)] assms(3) by auto
  have f0: "failover_wf f0" "fo_active f0 = - 1" using failover_wf_new [OF assms(1)] by auto
  have n: "length (fo_providers f) = length (fo_providers f0)"
    "length (fo_recoveries f) = length (fo_providers f0)"
    using f by (auto simp: same_config_def failover_wf_def)
  have nc: "no_cancel (length (fo_providers f0)) env" using assms(2) by simp
  have f': "f' = snd (failover_FetchAircraft f env)" using assms(3,4) by (simp add: failover_run_append)
  have "0 \<le> fo_active f'" if "fo_active f = 0"
  proof -
    have "f' = f \<or> (\<exists>j. f' = activate j f)"
      using that f' fetchLower_recoveries
      by (auto simp: failover_FetchAircraft_def split: sum.splits option.splits)
    then show ?thesis using that by (auto simp: activate_def)
  qed
  moreover have "- 1 \<le> fo_active f'"
    using FetchAircraft_good [OF f(1)] f' by (auto simp: good_result_def failover_wf_def)
  ultimately have pos: "0 < fo_active f" using assms(6) by linarith
  let ?a = "nat (fo_active f)"
  have a: "?a < length (fo_providers f0)" using f(1) pos n by (auto simp: failover_wf_def)
  have cur: "\<exists>fr. fetch f env ?a = Inr fr"
    using assms(5) fetch_same_config [OF f(2)] by (auto simp: succeeds_def split: sum.splits)
  show ?thesis
  proof (cases "probe f env [0..<?a] [] None")
    case (Returned r)
    then obtain j fr h where r: "r = (Inr fr, activate j h)" "j < ?a" "succeeds f env j"
      "fo_recoverySuccesses f \<le> fo_recoveries f ! j + 1"
      using probe_Returned [OF Returned _ nc] a n by fastforce
    then have "f' = activate j h" using f' pos Returned by (simp add: failover_FetchAircraft_def)
    then have j: "nat (fo_active f') = j" by (simp add: activate_def)
    have "fo_recoveries f ! j \<le> int (streak f0 envs j)"
      unfolding assms(3) using assms(2) f0 r(2) a
      by (intro failover_run_streak) (auto simp: failover_wf_def)
    then show ?thesis using r f(2) j succeeds_same_config [OF f(2)]
      by (simp add: streak_snoc same_config_def)
  next
    case (Probed g errs rec)
    then have g: "same_config f g" "fo_active g = fo_active f"
      using probe_Probed [OF Probed] a n by auto
    then have "f' = g" using f' pos Probed cur fetch_same_config [OF g(1), of env ?a]
      by (auto simp: failover_FetchAircraft_def)
    then show ?thesis using g assms(6) by simp
  qed
qed

section \<open>Witnesses\<close>

definition demo_provider :: "provider_id \<Rightarrow> provider" where
  "demo_provider i = \<lparr> pv_ProviderID = i, pv_Capabilities = 7 \<rparr>"

definition demo_frame :: "aircraft_batch frame" where
  "demo_frame = \<lparr> fr_FeederID = [], fr_FetchedAt = 0, fr_Provider = [],
     fr_Value = \<lparr> ab_Provider = [], ab_GeneratedAt = 0, ab_Messages = 0, ab_MessageCounterValid = True,
       ab_Aircraft = [zero_aircraft] \<rparr> \<rparr>"

text \<open>An environment without cancellation in which the listed provider indices answer.\<close>

definition demo_env :: "nat list \<Rightarrow> nat \<Rightarrow> attempt" where
  "demo_env up i = \<lparr> at_before = None,
     at_result = (if i \<in> set up then Inr demo_frame else Inl (Plain ''down'')), at_after = None \<rparr>"

definition demo_failover :: failover where
  "demo_failover = \<lparr> fo_providers = [demo_provider ProviderReadsb, demo_provider ProviderAirplanesLive],
     fo_active = - 1, fo_recoverySuccesses = 2, fo_recoveries = [0, 0] \<rparr>"

lemma demo_failover_new:
  "NewAircraftFailover [Some (demo_provider ProviderReadsb), Some (demo_provider ProviderAirplanesLive)] 0
     = Inr demo_failover"
  by (simp add: NewAircraftFailover_def demo_provider_def provider_known_def caps_Supports_def
      demo_failover_def numeral_2_eq_2)

lemmas demo_simps = demo_failover_def demo_provider_def demo_env_def failover_FetchAircraft_def
  fetchInitial_def fetch_def ctx_err_def providerError_def activate_def succeeds_def no_cancel_def

theorem failover_single_provider_witness:
  "\<exists>fr f'. failover_FetchAircraft (failover_run demo_failover [demo_env [1]]) (demo_env [0, 1]) = (Inr fr, f') \<and>
     fo_active f' = 1 \<and> frame_from ProviderAirplanesLive fr"
proof -
  obtain fr f' where r: "failover_FetchAircraft (failover_run demo_failover [demo_env [1]]) (demo_env [0, 1])
      = (Inr fr, f')" "fo_active f' = 1" "fo_providers f' = fo_providers demo_failover"
    by (simp add: demo_simps upt_rec numeral_2_eq_2)
  then show ?thesis
    using failover_single_provider [OF demo_failover_new r(1)]
    by (auto simp: demo_failover_def demo_provider_def)
qed

theorem failover_available_witness:
  "\<exists>fr. fst (failover_FetchAircraft (failover_run demo_failover [demo_env [1]]) (demo_env [0])) = Inr fr"
  by (rule failover_available [OF demo_failover_new, of _ 0])
    (simp_all add: demo_simps upt_rec numeral_2_eq_2)

theorem failover_hysteresis_witness:
  "2 \<le> int (streak demo_failover [demo_env [1], demo_env [0, 1], demo_env [0, 1]] 0)"
proof -
  let ?e = "[demo_env [1], demo_env [0, 1]]" and ?l = "demo_env [0, 1]"
  have a: "fo_active (failover_run demo_failover ?e) = 1"
    by (simp add: demo_simps upt_rec numeral_2_eq_2)
  have b: "fo_active (failover_run demo_failover (?e @ [?l])) = 0"
    by (simp add: demo_simps upt_rec numeral_2_eq_2)
  have c: "\<forall>e\<in>set (?e @ [?l]). no_cancel (length (fo_providers demo_failover)) e"
    by (simp add: demo_simps)
  have d: "succeeds demo_failover ?l (nat (fo_active (failover_run demo_failover ?e)))"
    unfolding a by (simp add: demo_simps)
  have "fo_active (failover_run demo_failover (?e @ [?l])) < fo_active (failover_run demo_failover ?e)"
    unfolding a b by simp
  from failover_hysteresis [OF demo_failover_new c refl refl d this]
  show ?thesis unfolding b by (simp add: demo_failover_def)
qed

end
