(* ===== verification/Geo.thy ===== *)
theory Geo
  imports Domain
begin

text \<open>
  The great-circle arithmetic of \<open>internal/state/geo.go\<close> and its two restatements, in
  \<open>internal/rules/movement.go\<close> and \<open>internal/track/store.go\<close>, over the reals. The lemmas
  bound the results for every input and show that the three versions agree.
\<close>

section \<open>The floating-point functions used\<close>

text \<open>\<open>math.Atan2\<close> on finite arguments, with a positive zero.\<close>

definition atan2 :: "real \<Rightarrow> real \<Rightarrow> real" where
  "atan2 y x =
     (if x > 0 then arctan (y / x)
      else if x < 0 then (if y \<ge> 0 then arctan (y / x) + pi else arctan (y / x) - pi)
      else if y > 0 then pi / 2
      else if y < 0 then - pi / 2
      else 0)"

text \<open>\<open>math.Mod\<close>: the quotient is truncated towards zero.\<close>

definition fmod :: "real \<Rightarrow> real \<Rightarrow> real" where
  "fmod x y = (if x / y \<ge> 0 then x - y * of_int \<lfloor>x / y\<rfloor> else x - y * of_int \<lceil>x / y\<rceil>)"

section \<open>state.DistanceBearing\<close>

definition earthRadiusNM :: real where
  "earthRadiusNM = 3440065 / 1000"

definition deg2rad :: "real \<Rightarrow> real" where
  "deg2rad d = d * (pi / 180)"

definition haversine :: "real \<Rightarrow> real \<Rightarrow> real \<Rightarrow> real \<Rightarrow> real" where
  "haversine fromLat toLat deltaLat deltaLon =
     sin (deltaLat / 2) * sin (deltaLat / 2) +
     cos fromLat * cos toLat * sin (deltaLon / 2) * sin (deltaLon / 2)"

definition DistanceBearing :: "real \<Rightarrow> real \<Rightarrow> real \<Rightarrow> real \<Rightarrow> real \<times> real" where
  "DistanceBearing fromLatitude fromLongitude toLatitude toLongitude =
     (let fromLat = deg2rad fromLatitude;
          toLat = deg2rad toLatitude;
          deltaLat = deg2rad (toLatitude - fromLatitude);
          deltaLon = deg2rad (toLongitude - fromLongitude);
          a = haversine fromLat toLat deltaLat deltaLon;
          distance = earthRadiusNM * 2 * atan2 (sqrt a) (sqrt (1 - a));
          y = sin deltaLon * cos toLat;
          x = cos fromLat * sin toLat - sin fromLat * cos toLat * cos deltaLon;
          bearing = fmod (atan2 y x * (180 / pi) + 360) 360
      in (distance, bearing))"

section \<open>rules.distanceBearing and rules.headingDelta\<close>

definition rules_distanceBearing :: "real \<Rightarrow> real \<Rightarrow> real \<Rightarrow> real \<Rightarrow> real \<times> real" where
  "rules_distanceBearing fromLatitude fromLongitude toLatitude toLongitude =
     (let fromLat = fromLatitude * (pi / 180);
          toLat = toLatitude * (pi / 180);
          deltaLat = (toLatitude - fromLatitude) * (pi / 180);
          deltaLon = (toLongitude - fromLongitude) * (pi / 180);
          a = sin (deltaLat / 2) * sin (deltaLat / 2) +
              cos fromLat * cos toLat * sin (deltaLon / 2) * sin (deltaLon / 2);
          distance = 3440065 / 1000 * 2 * atan2 (sqrt a) (sqrt (1 - a));
          y = sin deltaLon * cos toLat;
          x = cos fromLat * sin toLat - sin fromLat * cos toLat * cos deltaLon;
          bearing = fmod (atan2 y x * (180 / pi) + 360) 360
      in (distance, bearing))"

definition headingDelta :: "real \<Rightarrow> real \<Rightarrow> real" where
  "headingDelta from to =
     (let delta = fmod \<bar>from - to\<bar> 360 in if delta > 180 then 360 - delta else delta)"

section \<open>track.normalizeBearing, geographicDistanceNM, geographicBearing, compass\<close>

text \<open>The two loops of \<open>normalizeBearing\<close>.\<close>

function raise_bearing :: "real \<Rightarrow> real" where
  "raise_bearing value = (if value < 0 then raise_bearing (value + 360) else value)"
  by pat_completeness auto
termination
proof (relation "measure (\<lambda>v. nat \<lceil>- v / 360\<rceil>)")
  fix v :: real
  assume "v < 0"
  moreover have "- (v + 360) / 360 = - v / 360 - 1" by (simp add: field_simps)
  ultimately have "\<lceil>- (v + 360) / 360\<rceil> = \<lceil>- v / 360\<rceil> - 1" "0 < \<lceil>- v / 360\<rceil>"
    by (simp_all only: ceiling_diff_one) (simp add: divide_neg_pos)
  then show "(v + 360, v) \<in> measure (\<lambda>v. nat \<lceil>- v / 360\<rceil>)"
    unfolding in_measure by linarith
qed simp

function lower_bearing :: "real \<Rightarrow> real" where
  "lower_bearing value = (if value \<ge> 360 then lower_bearing (value - 360) else value)"
  by pat_completeness auto
termination
proof (relation "measure (\<lambda>v. nat \<lfloor>v / 360\<rfloor>)")
  fix v :: real
  assume "360 \<le> v"
  moreover have "(v - 360) / 360 = v / 360 - 1" by (simp add: field_simps)
  ultimately have "\<lfloor>(v - 360) / 360\<rfloor> = \<lfloor>v / 360\<rfloor> - 1" "0 < \<lfloor>v / 360\<rfloor>"
    by (simp_all only: floor_diff_one) simp
  then show "(v - 360, v) \<in> measure (\<lambda>v. nat \<lfloor>v / 360\<rfloor>)" by simp
qed simp

declare raise_bearing.simps [simp del] lower_bearing.simps [simp del]

definition normalizeBearing :: "real \<Rightarrow> real" where
  "normalizeBearing value = lower_bearing (raise_bearing value)"

definition geographicDistanceNM :: "real \<Rightarrow> real \<Rightarrow> real \<Rightarrow> real \<Rightarrow> real" where
  "geographicDistanceNM lat1 lon1 lat2 lon2 =
     (let lat1Radians = lat1 * pi / 180; lat2Radians = lat2 * pi / 180;
          deltaLat = (lat2 - lat1) * pi / 180;
          deltaLon = (lon2 - lon1) * pi / 180;
          a = sin (deltaLat / 2) * sin (deltaLat / 2) +
              cos lat1Radians * cos lat2Radians * sin (deltaLon / 2) * sin (deltaLon / 2)
      in 3440065 / 1000 * 2 * atan2 (sqrt a) (sqrt (1 - a)))"

definition geographicBearing :: "real \<Rightarrow> real \<Rightarrow> real \<Rightarrow> real \<Rightarrow> real" where
  "geographicBearing lat1 lon1 lat2 lon2 =
     (let lat1Radians = lat1 * pi / 180; lat2Radians = lat2 * pi / 180;
          deltaLon = (lon2 - lon1) * pi / 180;
          y = sin deltaLon * cos lat2Radians;
          x = cos lat1Radians * sin lat2Radians - sin lat1Radians * cos lat2Radians * cos deltaLon
      in normalizeBearing (atan2 y x * 180 / pi))"

definition compass_index :: "real \<Rightarrow> int" where
  "compass_index degrees = \<lfloor>(normalizeBearing degrees + 45 / 2) / 45\<rfloor> mod 8"

definition compass :: "real \<Rightarrow> string" where
  "compass degrees =
     [''N'', ''NE'', ''E'', ''SE'', ''S'', ''SW'', ''W'', ''NW''] ! nat (compass_index degrees)"

section \<open>Bounds\<close>

lemma atan2_bounds: "- pi \<le> atan2 y x \<and> atan2 y x \<le> pi"
proof (cases "x = 0")
  case True
  moreover have "- (pi / 2) \<le> pi" using pi_gt_zero by linarith
  ultimately show ?thesis by (auto simp: atan2_def)
next
  case False
  have b: "- (pi / 2) < arctan (y / x)" "arctan (y / x) < pi / 2"
    by (rule arctan_lbound, rule arctan_ubound)
  have "x < 0 \<Longrightarrow> 0 \<le> y \<Longrightarrow> arctan (y / x) \<le> 0" "x < 0 \<Longrightarrow> y < 0 \<Longrightarrow> 0 < arctan (y / x)"
    by (simp_all add: divide_le_0_iff zero_less_divide_iff)
  with b False pi_gt_zero show ?thesis by (auto simp: atan2_def)
qed

lemma fmod_360_bounds:
  assumes "0 \<le> x" shows "0 \<le> fmod x 360 \<and> fmod x 360 < 360"
proof -
  have "fmod x 360 = x - 360 * of_int \<lfloor>x / 360\<rfloor>" using assms by (simp add: fmod_def)
  moreover have "of_int \<lfloor>x / 360\<rfloor> * 360 \<le> x" "x < (of_int \<lfloor>x / 360\<rfloor> + 1) * 360"
    using of_int_floor_le [of "x / 360"] floor_correct [of "x / 360"] by (auto simp: field_simps)
  ultimately show ?thesis by (simp add: algebra_simps)
qed

lemma bearing_argument_nonneg: "0 \<le> atan2 y x * 180 / pi + 360"
proof -
  have "- pi * (180 / pi) \<le> atan2 y x * (180 / pi)"
    by (rule mult_right_mono) (use atan2_bounds [of y x] pi_gt_zero in auto)
  then show ?thesis by simp
qed

lemma DistanceBearing_bearing_range:
  "0 \<le> snd (DistanceBearing a b c d) \<and> snd (DistanceBearing a b c d) < 360"
  by (simp add: DistanceBearing_def Let_def fmod_360_bounds bearing_argument_nonneg)

text \<open>
  The haversine is a convex combination of two squares, so it lies in \<open>[0, 1]\<close> for
  every input and both square roots are taken of non-negative numbers.
\<close>

lemma haversine_convex:
  "haversine p q (q - p) l =
     (sin ((q - p) / 2))\<^sup>2 * (cos (l / 2))\<^sup>2 + (cos ((p + q) / 2))\<^sup>2 * (sin (l / 2))\<^sup>2"
proof -
  define s d where "s = (p + q) / 2" and "d = (q - p) / 2"
  have "p = s - d" "q = s + d" by (simp_all add: s_def d_def field_simps)
  then have "cos p * cos q = (cos s * cos d + sin s * sin d) * (cos s * cos d - sin s * sin d)"
    by (simp only: cos_diff cos_add)
  also have "\<dots> = (cos s)\<^sup>2 * (cos d)\<^sup>2 - (sin s)\<^sup>2 * (sin d)\<^sup>2"
    by (simp add: power2_eq_square algebra_simps)
  also have "\<dots> = (cos s)\<^sup>2 - (sin d)\<^sup>2"
    by (simp add: cos_squared_eq algebra_simps)
  finally have c: "cos p * cos q = (cos s)\<^sup>2 - (sin d)\<^sup>2" .
  have "haversine p q (q - p) l = (sin d)\<^sup>2 + (cos p * cos q) * (sin (l / 2))\<^sup>2"
    by (simp add: haversine_def d_def power2_eq_square)
  also have "\<dots> = (sin d)\<^sup>2 * (1 - (sin (l / 2))\<^sup>2) + (cos s)\<^sup>2 * (sin (l / 2))\<^sup>2"
    unfolding c by (simp add: algebra_simps)
  also have "1 - (sin (l / 2))\<^sup>2 = (cos (l / 2))\<^sup>2" by (simp add: cos_squared_eq)
  finally show ?thesis by (simp add: s_def d_def)
qed

lemma haversine_range: "0 \<le> haversine p q (q - p) l \<and> haversine p q (q - p) l \<le> 1"
proof -
  let ?a = "(sin ((q - p) / 2))\<^sup>2" and ?b = "(cos ((p + q) / 2))\<^sup>2"
  let ?u = "(cos (l / 2))\<^sup>2" and ?v = "(sin (l / 2))\<^sup>2"
  have ab: "0 \<le> ?a" "?a \<le> 1" "0 \<le> ?b" "?b \<le> 1"
    by (simp_all add: abs_square_le_1)
  have "?a * ?u \<le> 1 * ?u" "?b * ?v \<le> 1 * ?v"
    by (rule mult_right_mono; use ab in simp)+
  moreover have "?u + ?v = 1" by (simp add: sin_cos_squared_add2)
  ultimately have "?a * ?u + ?b * ?v \<le> 1" by linarith
  moreover have "0 \<le> ?a * ?u + ?b * ?v" by simp
  ultimately show ?thesis by (simp add: haversine_convex)
qed

lemma atan2_quadrant:
  assumes "0 \<le> y" "0 \<le> x" shows "0 \<le> atan2 y x \<and> atan2 y x \<le> pi / 2"
proof (cases "x = 0")
  case True
  then show ?thesis using assms by (auto simp: atan2_def)
next
  case False
  then have "atan2 y x = arctan (y / x)" using assms by (simp add: atan2_def)
  moreover have "0 \<le> arctan (y / x)" using assms by simp
  moreover have "arctan (y / x) < pi / 2" by (rule arctan_ubound)
  ultimately show ?thesis by simp
qed

lemma deg2rad_diff: "deg2rad (a - b) = deg2rad a - deg2rad b"
  by (simp add: deg2rad_def left_diff_distrib diff_divide_distrib)

lemma DistanceBearing_distance_range:
  "0 \<le> fst (DistanceBearing a b c d) \<and> fst (DistanceBearing a b c d) \<le> earthRadiusNM * pi"
proof -
  define h where "h = haversine (deg2rad a) (deg2rad c) (deg2rad c - deg2rad a) (deg2rad (d - b))"
  have "0 \<le> h" "h \<le> 1" using haversine_range by (auto simp: h_def)
  then have "0 \<le> atan2 (sqrt h) (sqrt (1 - h)) \<and> atan2 (sqrt h) (sqrt (1 - h)) \<le> pi / 2"
    by (intro atan2_quadrant) auto
  moreover have "fst (DistanceBearing a b c d) = earthRadiusNM * 2 * atan2 (sqrt h) (sqrt (1 - h))"
    by (simp add: DistanceBearing_def Let_def h_def deg2rad_diff)
  ultimately show ?thesis by (simp add: earthRadiusNM_def field_simps)
qed

lemma DistanceBearing_self: "fst (DistanceBearing a b a b) = 0"
  by (simp add: DistanceBearing_def Let_def haversine_def deg2rad_def atan2_def)

lemma haversine_swap: "haversine p q (q - p) l = haversine q p (p - q) (- l)"
proof -
  have "sin ((p - q) / 2) = - sin ((q - p) / 2)"
    by (metis minus_diff_eq minus_divide_left sin_minus)
  then show ?thesis by (simp add: haversine_convex add.commute)
qed

lemma DistanceBearing_symmetric:
  "fst (DistanceBearing a b c d) = fst (DistanceBearing c d a b)"
proof -
  show ?thesis
    by (simp add: DistanceBearing_def Let_def deg2rad_diff
        haversine_swap [of "deg2rad a" "deg2rad c" "deg2rad d - deg2rad b"])
qed

section \<open>The other versions\<close>

lemma rules_distanceBearing_eq: "rules_distanceBearing = DistanceBearing"
  by (simp add: rules_distanceBearing_def DistanceBearing_def haversine_def earthRadiusNM_def
      deg2rad_def Let_def fun_eq_iff)

lemma geographicDistanceNM_eq:
  "geographicDistanceNM a b c d = fst (DistanceBearing a b c d)"
  by (simp add: geographicDistanceNM_def DistanceBearing_def haversine_def earthRadiusNM_def
      deg2rad_def Let_def)

lemma raise_bearing_spec:
  "0 \<le> raise_bearing v \<and> (v < 0 \<longrightarrow> raise_bearing v < 360) \<and> (0 \<le> v \<longrightarrow> raise_bearing v = v) \<and>
   (\<exists>k :: int. raise_bearing v = v + 360 * of_int k)"
proof (induction v rule: raise_bearing.induct)
  case (1 v)
  show ?case
  proof (cases "v < 0")
    case True
    let ?r = "raise_bearing (v + 360)"
    have r: "raise_bearing v = ?r" using True by (simp add: raise_bearing.simps [of v])
    from 1 True obtain k :: int where ih: "0 \<le> ?r" "v + 360 < 0 \<longrightarrow> ?r < 360"
      "0 \<le> v + 360 \<longrightarrow> ?r = v + 360" "?r = v + 360 + 360 * of_int k" by blast
    then have "?r = v + 360 * of_int (k + 1)" by simp
    moreover have "?r < 360" using ih(2,3) True by (cases "v + 360 < 0") auto
    ultimately show ?thesis unfolding r using ih(1) True by (intro conjI exI [of _ "k + 1"]) auto
  next
    case False
    then show ?thesis by (auto simp: raise_bearing.simps [of v] intro: exI [of _ 0])
  qed
qed

lemma lower_bearing_spec:
  "0 \<le> v \<Longrightarrow> 0 \<le> lower_bearing v \<and> lower_bearing v < 360 \<and>
   (\<exists>k :: int. lower_bearing v = v + 360 * of_int k)"
proof (induction v rule: lower_bearing.induct)
  case (1 v)
  show ?case
  proof (cases "v \<ge> 360")
    case True
    with 1 obtain k :: int where "0 \<le> lower_bearing (v - 360)" "lower_bearing (v - 360) < 360"
      "lower_bearing (v - 360) = v - 360 + 360 * of_int k" by auto
    moreover from this(3) have "lower_bearing (v - 360) = v + 360 * of_int (k - 1)" by simp
    moreover have "lower_bearing v = lower_bearing (v - 360)"
      using True by (simp add: lower_bearing.simps [of v])
    ultimately show ?thesis by metis
  next
    case False
    with 1 show ?thesis by (auto simp: lower_bearing.simps [of v] intro: exI [of _ 0])
  qed
qed

lemma normalizeBearing_spec:
  "0 \<le> normalizeBearing v \<and> normalizeBearing v < 360 \<and>
   (\<exists>k :: int. normalizeBearing v = v + 360 * of_int k)"
proof -
  obtain j :: int where j: "0 \<le> raise_bearing v" "raise_bearing v = v + 360 * of_int j"
    using raise_bearing_spec by blast
  then obtain k :: int where "0 \<le> normalizeBearing v" "normalizeBearing v < 360"
    "normalizeBearing v = raise_bearing v + 360 * of_int k"
    using lower_bearing_spec [OF j(1)] by (auto simp: normalizeBearing_def)
  moreover from this j have "normalizeBearing v = v + 360 * of_int (j + k)" by simp
  ultimately show ?thesis by blast
qed

lemma congruent_360_unique:
  fixes x y :: real and k :: int
  assumes "0 \<le> x" "x < 360" "0 \<le> y" "y < 360" "x = y + 360 * of_int k"
  shows "x = y"
proof -
  have "- 1 < (of_int k :: real)" "(of_int k :: real) < 1" using assms by linarith+
  then have "k = 0" by linarith
  with assms(5) show ?thesis by simp
qed

lemma fmod_congruent: "0 \<le> x \<Longrightarrow> \<exists>k :: int. fmod x 360 = x + 360 * of_int k"
  by (rule exI [of _ "- \<lfloor>x / 360\<rfloor>"]) (simp add: fmod_def)

lemma normalizeBearing_fmod:
  assumes "0 \<le> v + 360" shows "normalizeBearing v = fmod (v + 360) 360"
proof -
  obtain j :: int where j: "normalizeBearing v = v + 360 * of_int j"
    using normalizeBearing_spec by blast
  obtain k :: int where k: "fmod (v + 360) 360 = v + 360 + 360 * of_int k"
    using fmod_congruent [OF assms] by blast
  have "normalizeBearing v = fmod (v + 360) 360 + 360 * of_int (j - k - 1)"
    using j k by simp
  then show ?thesis
    using congruent_360_unique normalizeBearing_spec fmod_360_bounds [OF assms] by blast
qed

lemma geographicBearing_eq:
  "geographicBearing a b c d = snd (DistanceBearing a b c d)"
  by (simp add: geographicBearing_def DistanceBearing_def deg2rad_def Let_def
      normalizeBearing_fmod bearing_argument_nonneg)

lemma headingDelta_range: "0 \<le> headingDelta a b \<and> headingDelta a b \<le> 180"
  using fmod_360_bounds [of "\<bar>a - b\<bar>"] by (auto simp: headingDelta_def Let_def)

lemma headingDelta_commute: "headingDelta a b = headingDelta b a"
  by (simp add: headingDelta_def abs_minus_commute)

lemma compass_index_range: "0 \<le> compass_index d \<and> compass_index d < 8"
  by (simp add: compass_index_def)

end
