(* ===== verification/Snapshot_Wf.thy ===== *)
theory Snapshot_Wf
  imports Domain
begin

text \<open>
  What a published snapshot promises its readers: aircraft in strictly increasing order of
  canonical ICAO addresses, an index that maps every address to its position and nothing
  else, and the sorted search keys of exactly these aircraft. The locale
  \<open>snapshot_reader\<close> is the interface of a component that publishes such snapshots (the
  \<open>SnapshotReader\<close> of \<open>internal/state/manager.go\<close>); its lemmas are what a lookup then
  returns.
\<close>

definition canonical_icao :: "string \<Rightarrow> bool" where
  "canonical_icao s \<longleftrightarrow> s \<noteq> [] \<and> trim_space s = s \<and> to_upper s = s"

definition canonical_list :: "aircraft list \<Rightarrow> bool" where
  "canonical_list xs \<longleftrightarrow>
     sorted_wrt (<) (map ac_ICAO xs) \<and> list_all (\<lambda>a. canonical_icao (ac_ICAO a)) xs"

definition index_of :: "aircraft list \<Rightarrow> (string, int) gomap" where
  "index_of xs = zip (map ac_ICAO xs) (map int [0..<length xs])"

definition snapshot_wf :: "snapshot \<Rightarrow> bool" where
  "snapshot_wf s \<longleftrightarrow> canonical_list (sn_Aircraft s) \<and>
     map_of (sn_ByICAO s) = map_of (index_of (sn_Aircraft s)) \<and>
     sn_Search s = sort (map aircraft_key_of (sn_Aircraft s))"

lemma canonical_list_Nil [simp]: "canonical_list []"
  by (simp add: canonical_list_def)

lemma canonical_distinct: "canonical_list xs \<Longrightarrow> distinct (map ac_ICAO xs)"
  by (simp add: canonical_list_def strict_sorted_distinct)

lemma canonical_list_map:
  "(\<And>a. ac_ICAO (f a) = ac_ICAO a) \<Longrightarrow> canonical_list (map f xs) = canonical_list xs"
  by (simp add: canonical_list_def comp_def list_all_iff)

lemma index_of_map: "(\<And>a. ac_ICAO (f a) = ac_ICAO a) \<Longrightarrow> index_of (map f xs) = index_of xs"
  by (simp add: index_of_def comp_def)

lemma fst_index_of [simp]: "map fst (index_of xs) = map ac_ICAO xs"
  by (simp add: index_of_def)

lemma index_of_Nil [simp]: "index_of [] = []"
  by (simp add: index_of_def)

lemma index_of_Some:
  assumes "distinct (map ac_ICAO xs)"
  shows "map_of (index_of xs) k = Some i \<longleftrightarrow>
     0 \<le> i \<and> nat i < length xs \<and> ac_ICAO (xs ! nat i) = k"
proof -
  have "map_of (index_of xs) k = Some i \<longleftrightarrow> (k, i) \<in> set (index_of xs)"
    using assms by (simp add: map_of_eq_Some_iff)
  also have "\<dots> \<longleftrightarrow> (\<exists>j < length xs. ac_ICAO (xs ! j) = k \<and> int j = i)"
    by (simp add: index_of_def in_set_zip conj_commute cong: conj_cong) auto
  also have "\<dots> \<longleftrightarrow> 0 \<le> i \<and> nat i < length xs \<and> ac_ICAO (xs ! nat i) = k"
    by (auto intro: exI [of _ "nat i"])
  finally show ?thesis .
qed

text \<open>The insertion loop that builds the index.\<close>

lemma fold_update_index:
  assumes "distinct (map ac_ICAO xs)"
  shows "map_of (fold (\<lambda>(k, v). AList.update k v) (index_of xs) []) = map_of (index_of xs)"
proof -
  have "map_of (fold (\<lambda>(k, v). AList.update k v) (index_of xs) []) = map_of (rev (index_of xs))"
    using gomap.get_fold_put [of "[]" "index_of xs"] by simp
  also have "\<dots> = map_of (index_of xs)"
    using assms by (intro map_of_inject_set [THEN iffD2]) (simp_all add: rev_map [symmetric])
  finally show ?thesis .
qed

lemma LookupICAO_wf:
  assumes "snapshot_wf s"
  shows "LookupICAO (Some s) icao = Some a \<longleftrightarrow> a \<in> set (sn_Aircraft s) \<and> ac_ICAO a = icao"
proof -
  have d: "distinct (map ac_ICAO (sn_Aircraft s))"
    using assms by (simp add: snapshot_wf_def canonical_distinct)
  have idx: "map_of (sn_ByICAO s) icao = Some i \<longleftrightarrow>
      0 \<le> i \<and> nat i < length (sn_Aircraft s) \<and> ac_ICAO (sn_Aircraft s ! nat i) = icao" for i
    using assms index_of_Some [OF d] by (simp add: snapshot_wf_def)
  show ?thesis
  proof
    assume "LookupICAO (Some s) icao = Some a"
    then show "a \<in> set (sn_Aircraft s) \<and> ac_ICAO a = icao"
      using idx by (auto simp: LookupICAO_def split: option.splits if_splits)
  next
    assume "a \<in> set (sn_Aircraft s) \<and> ac_ICAO a = icao"
    then obtain j where j: "j < length (sn_Aircraft s)" "sn_Aircraft s ! j = a" "ac_ICAO a = icao"
      by (auto simp: in_set_conv_nth)
    then have "map_of (sn_ByICAO s) icao = Some (int j)" using idx [of "int j"] by simp
    with j show "LookupICAO (Some s) icao = Some a" by (simp add: LookupICAO_def)
  qed
qed

lemma LookupICAO_None:
  assumes "snapshot_wf s"
  shows "LookupICAO (Some s) icao = None \<longleftrightarrow> icao \<notin> ac_ICAO ` set (sn_Aircraft s)"
  using LookupICAO_wf [OF assms, of icao] unfolding image_iff by (metis not_None_eq)

section \<open>The reader's interface\<close>

locale snapshot_reader =
  fixes current :: "'st \<Rightarrow> snapshot option"
    and inv :: "'st \<Rightarrow> bool"
  assumes current_wf: "inv st \<Longrightarrow> current st = Some s \<Longrightarrow> snapshot_wf s"
begin

lemma lookup_iff:
  "inv st \<Longrightarrow> current st = Some s \<Longrightarrow>
     LookupICAO (current st) icao = Some a \<longleftrightarrow> a \<in> set (sn_Aircraft s) \<and> ac_ICAO a = icao"
  using LookupICAO_wf [OF current_wf] by simp

lemma lookup_none:
  "inv st \<Longrightarrow> current st = Some s \<Longrightarrow>
     LookupICAO (current st) icao = None \<longleftrightarrow> icao \<notin> ac_ICAO ` set (sn_Aircraft s)"
  using lookup_iff [of st s icao] by (cases "LookupICAO (current st) icao") auto

lemma one_per_icao:
  "inv st \<Longrightarrow> current st = Some s \<Longrightarrow> a \<in> set (sn_Aircraft s) \<Longrightarrow> b \<in> set (sn_Aircraft s) \<Longrightarrow>
     ac_ICAO a = ac_ICAO b \<Longrightarrow> a = b"
  using lookup_iff [of st s "ac_ICAO b" a] lookup_iff [of st s "ac_ICAO b" b] by simp

lemma search_complete:
  "inv st \<Longrightarrow> current st = Some s \<Longrightarrow>
     sorted (sn_Search s) \<and> mset (sn_Search s) = mset (map aircraft_key_of (sn_Aircraft s))"
  using current_wf by (simp add: snapshot_wf_def)

end

end
