(* ===== verification/State_Engine.thy ===== *)
theory State_Engine
  imports Geo Source Snapshot_Wf
begin

text \<open>
  \<open>internal/state/engine.go\<close>: the per-feeder state engine. An operation runs under the
  engine's mutex, where it updates the engine and builds a snapshot (the \<open>_locked\<close>
  functions), and stores the snapshot after releasing the mutex (\<open>store\<close>); each operation
  is the composition of the two. The publish callback is modelled by the list of the
  snapshots it was given, newest last. The clock readings of an operation are arguments:
  the one it takes for its own decisions and the one of \<open>PublishedAt\<close>.
\<close>

section \<open>Normalisation of a batch\<close>

definition normalizeICAO :: "string \<Rightarrow> string" where
  "normalizeICAO value =
     (if list_ex (\<lambda>c. c \<le> CHR '' '' \<or> c \<ge> CHR 0x7F \<or> (c \<ge> CHR ''a'' \<and> c \<le> CHR ''z'')) value
      then to_upper (trim_space value) else value)"

definition betterBatchObservation :: "aircraft \<Rightarrow> aircraft \<Rightarrow> bool" where
  "betterBatchObservation candidate current =
     (if ac_Seen candidate \<noteq> ac_Seen current then ac_Seen candidate < ac_Seen current
      else if ac_HasPosition candidate \<noteq> ac_HasPosition current then ac_HasPosition candidate
      else ac_Messages candidate > ac_Messages current)"

definition derive_distance :: "receiver \<Rightarrow> aircraft \<Rightarrow> aircraft" where
  "derive_distance r a =
     (let a0 = a\<lparr> ac_DistanceNM := 0, ac_BearingDegrees := 0, ac_HasDistance := False \<rparr> in
      if \<not> rc_HasPosition r \<or> \<not> ac_HasPosition a then a0
      else
        let (distance, bearing) = DistanceBearing (rc_Latitude r) (rc_Longitude r) (ac_Latitude a) (ac_Longitude a)
        in a0\<lparr> ac_DistanceNM := distance, ac_BearingDegrees := bearing, ac_HasDistance := True \<rparr>)"

definition deriveDistances :: "aircraft list \<Rightarrow> receiver \<Rightarrow> aircraft list" where
  "deriveDistances aircraft r = map (derive_distance r) aircraft"

definition buildAircraftIndexes :: "aircraft list \<Rightarrow> (string, int) gomap \<times> aircraft_key list" where
  "buildAircraftIndexes aircraft =
     (fold (\<lambda>(k, v). AList.update k v) (index_of aircraft) [],
      sort (map aircraft_key_of aircraft))"

definition normalize_entry :: "provider_id \<Rightarrow> aircraft \<Rightarrow> aircraft" where
  "normalize_entry p a = a\<lparr> ac_ICAO := normalizeICAO (ac_ICAO a), ac_Provider := p, ac_SeenBy := [] \<rparr>"

text \<open>The flag \<open>sortedUnique\<close> after the first loop, from the previous ICAO on.\<close>

fun sorted_unique :: "string \<Rightarrow> aircraft list \<Rightarrow> bool" where
  "sorted_unique previous [] = True"
| "sorted_unique previous (a # as) =
     (\<not> (ac_ICAO a = [] \<or> (previous \<noteq> [] \<and> previous \<ge> ac_ICAO a)) \<and> sorted_unique (ac_ICAO a) as)"

text \<open>The compaction loop: the written prefix and the entries still to read.\<close>

fun compact_batch :: "aircraft list \<Rightarrow> aircraft list \<Rightarrow> aircraft list" where
  "compact_batch written [] = written"
| "compact_batch written (a # as) =
     (if ac_ICAO a = [] then compact_batch written as
      else if written \<noteq> [] \<and> ac_ICAO (last written) = ac_ICAO a then
        (if betterBatchObservation a (last written) then compact_batch (butlast written @ [a]) as
         else compact_batch written as)
      else compact_batch (written @ [a]) as)"

definition normalize_batch :: "provider_id \<Rightarrow> aircraft list \<Rightarrow> aircraft list" where
  "normalize_batch p aircraft =
     (let xs = map (normalize_entry p) aircraft in
      if sorted_unique [] xs then xs else compact_batch [] (sort_key ac_ICAO xs))"

section \<open>Health\<close>

definition staleAfter :: "duration \<Rightarrow> duration" where
  "staleAfter interval = max (wrap_i64 (3 * interval)) (5 * second)"

definition offlineAfter :: "duration \<Rightarrow> duration" where
  "offlineAfter interval = max (wrap_i64 (15 * interval)) (30 * second)"

definition successHealth :: "source_health \<Rightarrow> time \<Rightarrow> time \<Rightarrow> duration \<Rightarrow> source_health" where
  "successHealth previous attemptedAt generatedAt interval =
     (let (status, errorClass) =
        (if generatedAt \<noteq> time_zero then
           let skew = time_sub attemptedAt generatedAt in
           if skew < - (5 * minute) then (HealthDegraded, ''source_clock_future'')
           else if skew > staleAfter interval then (HealthStale, ''source_data_stale'')
           else (HealthHealthy, '''')
         else (HealthHealthy, ''''))
      in \<lparr> sh_Provider = sh_Provider previous, sh_Status = status, sh_LastAttempt = attemptedAt,
           sh_LastSuccess = attemptedAt, sh_ConsecutiveFailures = 0, sh_ErrorClass = errorClass \<rparr>)"

definition failureHealth :: "source_health \<Rightarrow> go_error \<Rightarrow> time \<Rightarrow> duration \<Rightarrow> source_health" where
  "failureHealth previous err attemptedAt interval =
     (let p = previous\<lparr> sh_LastAttempt := attemptedAt,
                sh_ConsecutiveFailures := sh_ConsecutiveFailures previous + 1,
                sh_ErrorClass := ClassifyError err \<rparr> in
      if sh_LastSuccess p = time_zero then
        (if sh_ConsecutiveFailures p \<ge> 3 then p\<lparr> sh_Status := HealthOffline \<rparr>
         else p\<lparr> sh_Status := HealthDegraded \<rparr>)
      else
        let age = time_sub attemptedAt (sh_LastSuccess p) in
        if age \<ge> offlineAfter interval then p\<lparr> sh_Status := HealthOffline \<rparr>
        else if age \<ge> staleAfter interval then p\<lparr> sh_Status := HealthStale \<rparr>
        else p\<lparr> sh_Status := HealthDegraded \<rparr>)"

definition configuredHealth :: "provider option \<Rightarrow> capability \<Rightarrow> source_health" where
  "configuredHealth provider capability =
     (case provider of
        None \<Rightarrow> zero_source_health\<lparr> sh_Provider := ProviderUnknown, sh_Status := HealthDisabled \<rparr>
      | Some p \<Rightarrow>
          let h = zero_source_health\<lparr> sh_Provider := pv_ProviderID p, sh_Status := HealthUnknown \<rparr> in
          if \<not> caps_Supports (pv_Capabilities p) capability then h\<lparr> sh_Status := HealthDisabled \<rparr> else h)"

section \<open>The engine\<close>

record engine =
  eg_current :: "snapshot option"
  eg_feeder :: feeder_id
  eg_publish :: bool
  eg_published :: "snapshot list"
  eg_sequence :: u64
  eg_batch :: aircraft_batch
  eg_fetched :: time
  eg_receiver :: receiver
  eg_stats :: statistics
  eg_health :: health
  eg_capabilities :: capabilities
  eg_providerChangedAt :: time

definition unknown_health :: source_health where
  "unknown_health = zero_source_health\<lparr> sh_Provider := ProviderUnknown, sh_Status := HealthUnknown \<rparr>"

definition NewEngineForFeeder :: "feeder_id \<Rightarrow> bool \<Rightarrow> engine" where
  "NewEngineForFeeder feederID publish =
     (let feeder = (if \<not> feeder_id_Valid feederID \<or> feederID = FeederAll then FeederLocal else feederID) in
      \<lparr> eg_current = Some (zero_snapshot\<lparr> sn_FeederID := feeder, sn_ActiveProvider := ProviderUnknown,
          sn_Aircraft := [], sn_ByICAO := [], sn_Search := [],
          sn_Health := \<lparr> he_Aircraft = unknown_health, he_Receiver = unknown_health, he_Stats = unknown_health \<rparr> \<rparr>),
        eg_feeder = feeder, eg_publish = publish, eg_published = [], eg_sequence = 0,
        eg_batch = \<lparr> ab_Provider = ProviderUnknown, ab_GeneratedAt = 0, ab_Messages = 0,
          ab_MessageCounterValid = False, ab_Aircraft = [] \<rparr>,
        eg_fetched = 0, eg_receiver = zero_receiver, eg_stats = zero_statistics, eg_health = zero_health,
        eg_capabilities = 0, eg_providerChangedAt = 0 \<rparr>)"

definition NewEngine :: "bool \<Rightarrow> engine" where
  "NewEngine publish = NewEngineForFeeder FeederLocal publish"

definition snapshotLocked ::
    "engine \<Rightarrow> time \<Rightarrow> aircraft list \<Rightarrow> (string, int) gomap \<Rightarrow> aircraft_key list \<Rightarrow> snapshot" where
  "snapshotLocked e now aircraft byICAO search =
     \<lparr> sn_FeederID = eg_feeder e, sn_Feeders = [], sn_Sequence = eg_sequence e,
       sn_ActiveProvider = ab_Provider (eg_batch e), sn_ProviderChangedAt = eg_providerChangedAt e,
       sn_Capabilities = eg_capabilities e, sn_SourceGeneratedAt = ab_GeneratedAt (eg_batch e),
       sn_FetchedAt = eg_fetched e, sn_PublishedAt = now, sn_Receiver = eg_receiver e,
       sn_Statistics = eg_stats e, sn_ReceiverMessages = ab_Messages (eg_batch e),
       sn_MessageCounterValid = ab_MessageCounterValid (eg_batch e), sn_Aircraft = aircraft,
       sn_ByICAO = byICAO, sn_Search = search, sn_Health = eg_health e \<rparr>"

definition buildLocked :: "bool \<Rightarrow> time \<Rightarrow> engine \<Rightarrow> engine \<times> snapshot" where
  "buildLocked rebuildAircraft now e =
     (let e1 = e\<lparr> eg_sequence := eg_sequence e + 1 \<rparr> in
      case eg_current e of
        None \<Rightarrow> (e1, snapshotLocked e1 now [] [] [])
      | Some c \<Rightarrow>
          if \<not> rebuildAircraft then (e1, snapshotLocked e1 now (sn_Aircraft c) (sn_ByICAO c) (sn_Search c))
          else
            let aircraft = deriveDistances (sn_Aircraft c) (eg_receiver e1);
                e2 = e1\<lparr> eg_batch := (eg_batch e1)\<lparr> ab_Aircraft := aircraft \<rparr> \<rparr>
            in (e2, snapshotLocked e2 now aircraft (sn_ByICAO c) (sn_Search c)))"

definition buildNewAircraftLocked :: "time \<Rightarrow> engine \<Rightarrow> engine \<times> snapshot" where
  "buildNewAircraftLocked now e =
     (let e1 = e\<lparr> eg_sequence := eg_sequence e + 1 \<rparr>;
          aircraft = deriveDistances
            (normalize_batch (ab_Provider (eg_batch e1)) (ab_Aircraft (eg_batch e1))) (eg_receiver e1);
          e2 = e1\<lparr> eg_batch := (eg_batch e1)\<lparr> ab_Aircraft := aircraft \<rparr> \<rparr>;
          (byICAO, search) = buildAircraftIndexes aircraft
      in (e2, snapshotLocked e2 now aircraft byICAO search))"

definition store :: "snapshot \<Rightarrow> engine \<Rightarrow> engine" where
  "store s e = e\<lparr> eg_current := Some s,
     eg_published := (if eg_publish e then eg_published e @ [s] else eg_published e) \<rparr>"

section \<open>The operations\<close>

definition configureSources_locked :: "source_set \<Rightarrow> time \<Rightarrow> engine \<Rightarrow> engine \<times> snapshot" where
  "configureSources_locked upstream nowP e =
     buildLocked False nowP
       (e\<lparr> eg_capabilities := set_Capabilities upstream,
           eg_health := \<lparr> he_Aircraft = configuredHealth (set_Aircraft upstream) CapabilityAircraft,
                          he_Receiver = configuredHealth (set_Receiver upstream) CapabilityReceiver,
                          he_Stats = configuredHealth (set_Stats upstream) CapabilityStatistics \<rparr> \<rparr>)"

definition unset_provider :: "provider_id \<Rightarrow> bool" where
  "unset_provider p \<longleftrightarrow> p = ProviderUnknown \<or> p = []"

definition frame_provider :: "aircraft_batch frame \<Rightarrow> engine \<Rightarrow> provider_id" where
  "frame_provider fr e =
     (let p1 = (if unset_provider (fr_Provider fr) then ab_Provider (fr_Value fr) else fr_Provider fr)
      in if unset_provider p1 then sh_Provider (he_Aircraft (eg_health e)) else p1)"

definition applyAircraft_locked ::
    "aircraft_batch frame \<Rightarrow> duration \<Rightarrow> time \<Rightarrow> time \<Rightarrow> engine \<Rightarrow> engine \<times> snapshot" where
  "applyAircraft_locked fr interval now nowP e =
     (let previous = ab_Provider (eg_batch e);
          provider = frame_provider fr e;
          changedAt = (if fr_FetchedAt fr = time_zero then now else fr_FetchedAt fr);
          providerChangedAt =
            (if provider_known previous \<and> previous \<noteq> provider then changedAt
             else if eg_providerChangedAt e = time_zero \<and> provider_known provider then changedAt
             else eg_providerChangedAt e);
          h = (successHealth (he_Aircraft (eg_health e)) (fr_FetchedAt fr) (ab_GeneratedAt (fr_Value fr)) interval)
                \<lparr> sh_Provider := provider \<rparr>
      in buildNewAircraftLocked nowP
           (e\<lparr> eg_batch := (fr_Value fr)\<lparr> ab_Provider := provider \<rparr>,
               eg_providerChangedAt := providerChangedAt, eg_fetched := fr_FetchedAt fr,
               eg_health := (eg_health e)\<lparr> he_Aircraft := h \<rparr> \<rparr>))"

definition applyReceiver_locked :: "receiver frame \<Rightarrow> duration \<Rightarrow> time \<Rightarrow> engine \<Rightarrow> engine \<times> snapshot" where
  "applyReceiver_locked fr interval nowP e =
     (let new = fr_Value fr; old = eg_receiver e;
          positionChanged = (rc_HasPosition old \<noteq> rc_HasPosition new \<or>
            rc_Latitude old \<noteq> rc_Latitude new \<or> rc_Longitude old \<noteq> rc_Longitude new);
          h = successHealth (he_Receiver (eg_health e)) (fr_FetchedAt fr) (fr_FetchedAt fr) interval;
          h' = (if \<not> unset_provider (fr_Provider fr) then h\<lparr> sh_Provider := fr_Provider fr \<rparr> else h)
      in buildLocked positionChanged nowP
           (e\<lparr> eg_receiver := new, eg_health := (eg_health e)\<lparr> he_Receiver := h' \<rparr> \<rparr>))"

definition applyStats_locked :: "statistics frame \<Rightarrow> duration \<Rightarrow> time \<Rightarrow> engine \<Rightarrow> engine \<times> snapshot" where
  "applyStats_locked fr interval nowP e =
     (let h = successHealth (he_Stats (eg_health e)) (fr_FetchedAt fr) (sx_WindowEnd (fr_Value fr)) interval;
          h' = (if \<not> unset_provider (fr_Provider fr) then h\<lparr> sh_Provider := fr_Provider fr \<rparr> else h)
      in buildLocked False nowP
           (e\<lparr> eg_stats := fr_Value fr, eg_health := (eg_health e)\<lparr> he_Stats := h' \<rparr> \<rparr>))"

definition aircraftFailure_locked :: "go_error \<Rightarrow> duration \<Rightarrow> time \<Rightarrow> time \<Rightarrow> engine \<Rightarrow> engine \<times> snapshot" where
  "aircraftFailure_locked err interval now nowP e =
     buildLocked False nowP
       (e\<lparr> eg_health := (eg_health e)\<lparr> he_Aircraft := failureHealth (he_Aircraft (eg_health e)) err now interval \<rparr> \<rparr>)"

definition receiverFailure_locked :: "go_error \<Rightarrow> duration \<Rightarrow> time \<Rightarrow> time \<Rightarrow> engine \<Rightarrow> engine \<times> snapshot" where
  "receiverFailure_locked err interval now nowP e =
     buildLocked False nowP
       (e\<lparr> eg_health := (eg_health e)\<lparr> he_Receiver := failureHealth (he_Receiver (eg_health e)) err now interval \<rparr> \<rparr>)"

definition statsFailure_locked :: "go_error \<Rightarrow> duration \<Rightarrow> time \<Rightarrow> time \<Rightarrow> engine \<Rightarrow> engine \<times> snapshot" where
  "statsFailure_locked err interval now nowP e =
     buildLocked False nowP
       (e\<lparr> eg_health := (eg_health e)\<lparr> he_Stats := failureHealth (he_Stats (eg_health e)) err now interval \<rparr> \<rparr>)"

text \<open>The operations the pollers of \<open>Run\<close> perform, as data, and their two halves.\<close>

datatype engine_op =
    ConfigureSources source_set time
  | ApplyAircraft "aircraft_batch frame" duration time time
  | ApplyReceiver "receiver frame" duration time
  | ApplyStats "statistics frame" duration time
  | AircraftFailure go_error duration time time
  | ReceiverFailure go_error duration time time
  | StatsFailure go_error duration time time

fun op_locked :: "engine_op \<Rightarrow> engine \<Rightarrow> engine \<times> snapshot" where
  "op_locked (ConfigureSources s nowP) e = configureSources_locked s nowP e"
| "op_locked (ApplyAircraft fr i now nowP) e = applyAircraft_locked fr i now nowP e"
| "op_locked (ApplyReceiver fr i nowP) e = applyReceiver_locked fr i nowP e"
| "op_locked (ApplyStats fr i nowP) e = applyStats_locked fr i nowP e"
| "op_locked (AircraftFailure err i now nowP) e = aircraftFailure_locked err i now nowP e"
| "op_locked (ReceiverFailure err i now nowP) e = receiverFailure_locked err i now nowP e"
| "op_locked (StatsFailure err i now nowP) e = statsFailure_locked err i now nowP e"

definition run_op :: "engine_op \<Rightarrow> engine \<Rightarrow> engine" where
  "run_op op e = (let (e', s) = op_locked op e in store s e')"

text \<open>
  \<open>Run\<close> starts two pollers. Each is at any moment between operations or holds a snapshot
  it has built and not yet stored; their halves interleave freely.
\<close>

record engine_sys =
  es_engine :: engine
  es_pending :: "bool \<Rightarrow> snapshot option"

definition poller_ops :: "bool \<Rightarrow> engine_op \<Rightarrow> bool" where
  "poller_ops aircraftPoller op =
     (case op of
        ApplyAircraft _ _ _ _ \<Rightarrow> aircraftPoller
      | AircraftFailure _ _ _ _ \<Rightarrow> aircraftPoller
      | ConfigureSources _ _ \<Rightarrow> False
      | _ \<Rightarrow> \<not> aircraftPoller)"

inductive sys_step :: "engine_sys \<Rightarrow> engine_sys \<Rightarrow> bool" where
  build: "es_pending s t = None \<Longrightarrow> poller_ops t op \<Longrightarrow> op_locked op (es_engine s) = (e, snap) \<Longrightarrow>
     sys_step s \<lparr> es_engine = e, es_pending = (es_pending s)(t := Some snap) \<rparr>"
| commit: "es_pending s t = Some snap \<Longrightarrow>
     sys_step s \<lparr> es_engine = store snap (es_engine s), es_pending = (es_pending s)(t := None) \<rparr>"

text \<open>\<open>Run\<close> configures the sources before it starts the pollers.\<close>

definition sys_init :: "feeder_id \<Rightarrow> bool \<Rightarrow> source_set \<Rightarrow> time \<Rightarrow> engine_sys" where
  "sys_init feederID publish upstream nowP =
     \<lparr> es_engine = run_op (ConfigureSources upstream nowP) (NewEngineForFeeder feederID publish),
       es_pending = (\<lambda>_. None) \<rparr>"

inductive sys_reachable :: "engine_sys \<Rightarrow> engine_sys \<Rightarrow> bool" for s0 where
  init: "sys_reachable s0 s0"
| step: "sys_reachable s0 s \<Longrightarrow> sys_step s t \<Longrightarrow> sys_reachable s0 t"

end
