(* ===== verification/State_Engine_Props.thy ===== *)
theory State_Engine_Props
  imports State_Engine
begin

text \<open>
  Correctness of the state engine: the fast path of the address normalisation, what a batch
  becomes, the invariant of the published snapshots under every interleaving of the two
  pollers, and the health state machine.
\<close>

section \<open>Address normalisation\<close>

lemma normalizeICAO_eq: "normalizeICAO value = to_upper (trim_space value)"
proof (cases "list_ex (\<lambda>c. c \<le> CHR '' '' \<or> c \<ge> CHR 0x7F \<or> (c \<ge> CHR ''a'' \<and> c \<le> CHR ''z'')) value")
  case True
  then show ?thesis by (simp add: normalizeICAO_def)
next
  case False
  then have "list_all graph_char value" "list_all (\<lambda>c. up_char c = c) value"
    by (auto simp: list_ex_iff list_all_iff graph_char_def up_char_def not_le)
  moreover from this(2) have "to_upper value = value"
    by (simp add: to_upper_def list_all_iff map_idI)
  ultimately show ?thesis using False by (simp add: normalizeICAO_def trim_space_graph)
qed

lemma normalizeICAO_canonical: "normalizeICAO v \<noteq> [] \<Longrightarrow> canonical_icao (normalizeICAO v)"
  by (simp add: normalizeICAO_eq canonical_icao_def)

section \<open>Batches\<close>

text \<open>The preference between two observations of one address is a lexicographic order.\<close>

definition batch_rank :: "aircraft \<Rightarrow> int \<times> bool \<times> int" where
  "batch_rank a = (ac_Seen a, \<not> ac_HasPosition a, - uint (ac_Messages a))"

lemma better_batch_rank: "betterBatchObservation a b \<longleftrightarrow> batch_rank a < batch_rank b"
  by (auto simp: betterBatchObservation_def batch_rank_def word_less_def)

lemma sorted_unique_iff:
  "sorted_unique previous xs \<longleftrightarrow>
     sorted_wrt (<) (map ac_ICAO xs) \<and> [] \<notin> ac_ICAO ` set xs \<and>
     (previous \<noteq> [] \<longrightarrow> (\<forall>a\<in>set xs. previous < ac_ICAO a))"
proof (induction xs arbitrary: previous)
  case (Cons x xs)
  show ?case
  proof (cases "ac_ICAO x = []")
    case True
    then show ?thesis by auto
  next
    case False
    then show ?thesis using Cons.IH [of "ac_ICAO x"] by (auto simp: not_le intro: less_trans)
  qed
qed simp

abbreviation covers :: "aircraft list \<Rightarrow> aircraft \<Rightarrow> bool" where
  "covers ys a \<equiv> \<exists>b\<in>set ys. ac_ICAO b = ac_ICAO a \<and> \<not> batch_rank a < batch_rank b"

lemma compact_batch_spec:
  assumes "sorted (map ac_ICAO as)" "sorted_wrt (<) (map ac_ICAO w)" "[] \<notin> ac_ICAO ` set w"
    and "\<And>a b. a \<in> set w \<Longrightarrow> b \<in> set as \<Longrightarrow> ac_ICAO a \<le> ac_ICAO b"
  shows "sorted_wrt (<) (map ac_ICAO (compact_batch w as)) \<and> [] \<notin> ac_ICAO ` set (compact_batch w as) \<and>
     set (compact_batch w as) \<subseteq> set w \<union> set as \<and>
     (\<forall>a\<in>set w \<union> set as. ac_ICAO a \<noteq> [] \<longrightarrow> covers (compact_batch w as) a)"
  using assms
proof (induction w "as" rule: compact_batch.induct)
  case (1 w)
  then show ?case by auto
next
  case (2 w x xs)
  have xs: "sorted (map ac_ICAO xs)" "\<And>b. b \<in> set xs \<Longrightarrow> ac_ICAO x \<le> ac_ICAO b"
    using "2.prems"(1) by auto
  consider (empty) "ac_ICAO x = []"
    | (worse) "ac_ICAO x \<noteq> []" "w \<noteq> []" "ac_ICAO (last w) = ac_ICAO x" "\<not> betterBatchObservation x (last w)"
    | (better) "ac_ICAO x \<noteq> []" "w \<noteq> []" "ac_ICAO (last w) = ac_ICAO x" "betterBatchObservation x (last w)"
    | (new) "ac_ICAO x \<noteq> []" "w = [] \<or> ac_ICAO (last w) \<noteq> ac_ICAO x"
    by blast
  then show ?case
  proof cases
    case empty
    then show ?thesis using 2 xs by auto
  next
    case worse
    then have eq: "compact_batch w (x # xs) = compact_batch w xs" by simp
    have IH: "sorted_wrt (<) (map ac_ICAO (compact_batch w xs)) \<and> [] \<notin> ac_ICAO ` set (compact_batch w xs) \<and>
      set (compact_batch w xs) \<subseteq> set w \<union> set xs \<and> (\<forall>a\<in>set w \<union> set xs. ac_ICAO a \<noteq> [] \<longrightarrow> covers (compact_batch w xs) a)"
      using worse xs "2.prems" by (intro "2.IH"(3)) auto
    have "last w \<in> set w \<union> set xs" "ac_ICAO (last w) \<noteq> []" using worse by simp_all
    then have "covers (compact_batch w xs) (last w)" using IH by blast
    then have "covers (compact_batch w xs) x" using worse by (force simp: better_batch_rank)
    with IH eq show ?thesis by auto
  next
    case better
    then obtain v y where w: "w = v @ [y]" by (metis append_butlast_last_id)
    with better have y: "ac_ICAO y = ac_ICAO x" "batch_rank x < batch_rank y"
      by (simp_all add: better_batch_rank)
    let ?w = "v @ [x]"
    have sw: "sorted_wrt (<) (map ac_ICAO ?w)" using "2.prems"(2) w y by (simp add: sorted_wrt_append)
    have eq: "compact_batch w (x # xs) = compact_batch ?w xs" using better w by simp
    have IH: "sorted_wrt (<) (map ac_ICAO (compact_batch ?w xs)) \<and> [] \<notin> ac_ICAO ` set (compact_batch ?w xs) \<and>
      set (compact_batch ?w xs) \<subseteq> set ?w \<union> set xs \<and> (\<forall>a\<in>set ?w \<union> set xs. ac_ICAO a \<noteq> [] \<longrightarrow> covers (compact_batch ?w xs) a)"
    proof -
      have le: "ac_ICAO a \<le> ac_ICAO b" if "a \<in> set ?w" "b \<in> set xs" for a b
        using that xs(2) "2.prems"(4) w by auto
      have ne: "[] \<notin> ac_ICAO ` set ?w" using "2.prems"(3) w better(1) by auto
      have bw: "butlast w @ [x] = ?w" using w by simp
      show ?thesis
        using "2.IH"(2) [unfolded bw, OF better(1) conjI [OF better(2,3)] better(4) xs(1) sw ne le] by blast
    qed
    then have "covers (compact_batch ?w xs) x" using better by auto
    then have "covers (compact_batch ?w xs) y" using y by force
    then show ?thesis unfolding eq using IH w by auto
  next
    case new
    let ?w = "w @ [x]"
    have "ac_ICAO a < ac_ICAO x" if "a \<in> set w" for a
    proof -
      have "w \<noteq> []" using that by auto
      then have l: "ac_ICAO (last w) < ac_ICAO x" using new "2.prems"(4) [of "last w" x] by auto
      obtain ys where ys: "w = ys @ [last w]" using \<open>w \<noteq> []\<close> by (metis append_butlast_last_id)
      have "sorted_wrt (<) (map ac_ICAO (ys @ [last w]))" using "2.prems"(2) ys by simp
      then have "\<forall>b\<in>set ys. ac_ICAO b < ac_ICAO (last w)" by (simp add: sorted_wrt_append)
      moreover have "a \<in> set (ys @ [last w])" using that ys by metis
      ultimately have "a = last w \<or> ac_ICAO a < ac_ICAO (last w)" by auto
      with l show ?thesis by auto
    qed
    then have sw: "sorted_wrt (<) (map ac_ICAO ?w)"
      using "2.prems"(2) by (auto simp: sorted_wrt_append)
    have IH: "sorted_wrt (<) (map ac_ICAO (compact_batch ?w xs)) \<and> [] \<notin> ac_ICAO ` set (compact_batch ?w xs) \<and>
      set (compact_batch ?w xs) \<subseteq> set ?w \<union> set xs \<and> (\<forall>a\<in>set ?w \<union> set xs. ac_ICAO a \<noteq> [] \<longrightarrow> covers (compact_batch ?w xs) a)"
      using new xs sw "2.prems"(3,4) by (intro "2.IH"(4)) auto
    then show ?thesis using new by auto
  qed
qed

lemma normalize_batch_spec:
  fixes p aircraft
  defines "xs \<equiv> map (normalize_entry p) aircraft"
  shows "canonical_list (normalize_batch p aircraft) \<and> set (normalize_batch p aircraft) \<subseteq> set xs \<and>
    (\<forall>a\<in>set xs. ac_ICAO a \<noteq> [] \<longrightarrow> covers (normalize_batch p aircraft) a)"
proof -
  let ?r = "normalize_batch p aircraft"
  have r: "sorted_wrt (<) (map ac_ICAO ?r) \<and> [] \<notin> ac_ICAO ` set ?r \<and> set ?r \<subseteq> set xs \<and>
    (\<forall>a\<in>set xs. ac_ICAO a \<noteq> [] \<longrightarrow> covers ?r a)"
  proof (cases "sorted_unique [] xs")
    case True
    then have "?r = xs" by (simp add: normalize_batch_def xs_def)
    then show ?thesis using True by (auto simp: sorted_unique_iff)
  next
    case False
    then have "?r = compact_batch [] (sort_key ac_ICAO xs)" by (simp add: normalize_batch_def xs_def)
    then show ?thesis using compact_batch_spec [of "sort_key ac_ICAO xs" "[]"] by simp
  qed
  have "canonical_icao (ac_ICAO a)" if "a \<in> set ?r" for a
  proof -
    have "a \<in> set xs" "ac_ICAO a \<noteq> []" using r that by (blast, metis image_eqI)
    then show ?thesis by (auto simp: xs_def normalize_entry_def intro: normalizeICAO_canonical)
  qed
  with r show ?thesis by (simp add: canonical_list_def list_all_iff)
qed

section \<open>The published snapshots\<close>

definition engine_wf :: "engine \<Rightarrow> bool" where
  "engine_wf e \<longleftrightarrow> eg_current e \<noteq> None \<and> (\<forall>s. eg_current e = Some s \<longrightarrow> snapshot_wf s) \<and> (\<forall>s\<in>set (eg_published e). snapshot_wf s)"

definition sys_wf :: "engine_sys \<Rightarrow> bool" where
  "sys_wf s \<longleftrightarrow> engine_wf (es_engine s) \<and> (\<forall>t snap. es_pending s t = Some snap \<longrightarrow> snapshot_wf snap)"

lemmas op_locked_defs = configureSources_locked_def applyAircraft_locked_def applyReceiver_locked_def
  applyStats_locked_def aircraftFailure_locked_def receiverFailure_locked_def statsFailure_locked_def

lemma derive_distance_frame [frame_simps]:
  "ac_ICAO (derive_distance r a) = ac_ICAO a" "ac_HasPosition (derive_distance r a) = ac_HasPosition a"
  "ac_Latitude (derive_distance r a) = ac_Latitude a" "ac_Longitude (derive_distance r a) = ac_Longitude a"
  "ac_Emergency (derive_distance r a) = ac_Emergency a" "ac_Squawk (derive_distance r a) = ac_Squawk a"
  "aircraft_key_of (derive_distance r a) = aircraft_key_of a"
  by (simp_all add: derive_distance_def Let_def aircraft_key_of_def split: prod.splits)

lemma derive_distance_idem: "derive_distance r (derive_distance r' a) = derive_distance r a"
  by (simp add: derive_distance_def Let_def split: prod.splits)

lemma deriveDistances_wf:
  "canonical_list (deriveDistances xs r) = canonical_list xs"
  "index_of (deriveDistances xs r) = index_of xs"
  "map aircraft_key_of (deriveDistances xs r) = map aircraft_key_of xs"
  by (simp_all add: deriveDistances_def canonical_list_map index_of_map frame_simps)

lemma snapshotLocked_sel [simp]:
  "sn_Aircraft (snapshotLocked e now as by se) = as" "sn_ByICAO (snapshotLocked e now as by se) = by"
  "sn_Search (snapshotLocked e now as by se) = se" "sn_Sequence (snapshotLocked e now as by se) = eg_sequence e"
  "sn_Receiver (snapshotLocked e now as by se) = eg_receiver e"
  "sn_Health (snapshotLocked e now as by se) = eg_health e"
  by (simp_all add: snapshotLocked_def)

lemma buildLocked_wf:
  assumes "engine_wf e" "buildLocked rebuild now e = (e', s)"
  shows "snapshot_wf s \<and> eg_current e' = eg_current e \<and> eg_published e' = eg_published e"
  using assms
  by (cases "eg_current e")
    (auto simp: buildLocked_def Let_def engine_wf_def snapshot_wf_def deriveDistances_wf
      split: if_splits)

lemma buildNewAircraftLocked_wf:
  assumes "buildNewAircraftLocked now e = (e', s)"
  shows "snapshot_wf s \<and> eg_current e' = eg_current e \<and> eg_published e' = eg_published e"
proof -
  let ?a = "deriveDistances (normalize_batch (ab_Provider (eg_batch e)) (ab_Aircraft (eg_batch e))) (eg_receiver e)"
  have "canonical_list ?a" using normalize_batch_spec by (simp add: deriveDistances_wf)
  then have "map_of (fst (buildAircraftIndexes ?a)) = map_of (index_of ?a)"
    by (simp add: buildAircraftIndexes_def fold_update_index canonical_distinct)
  then show ?thesis
    using assms \<open>canonical_list ?a\<close>
    by (auto simp: buildNewAircraftLocked_def Let_def snapshot_wf_def buildAircraftIndexes_def)
qed

lemma op_locked_wf:
  assumes "engine_wf e" "op_locked op e = (e', s)"
  shows "snapshot_wf s \<and> eg_current e' = eg_current e \<and> eg_published e' = eg_published e"
proof (cases op)
  case (ApplyAircraft fr i now nowP)
  then show ?thesis
    using assms(2) by (auto simp: applyAircraft_locked_def Let_def dest!: buildNewAircraftLocked_wf)
qed (use assms in \<open>auto simp: op_locked_defs Let_def engine_wf_def dest!: buildLocked_wf [rotated]\<close>)

lemma store_wf: "engine_wf e \<Longrightarrow> snapshot_wf s \<Longrightarrow> engine_wf (store s e)"
  by (auto simp: engine_wf_def store_def)

lemma run_op_wf: "engine_wf e \<Longrightarrow> engine_wf (run_op op e)"
proof -
  assume wf: "engine_wf e"
  obtain e' s where b: "op_locked op e = (e', s)" by fastforce
  from op_locked_wf [OF wf b] wf have "engine_wf e'" "snapshot_wf s" by (simp_all add: engine_wf_def)
  then show ?thesis using b by (simp add: run_op_def store_wf)
qed

lemma NewEngineForFeeder_wf: "engine_wf (NewEngineForFeeder f p)"
  by (simp add: engine_wf_def NewEngineForFeeder_def Let_def snapshot_wf_def)

lemma sys_init_wf: "sys_wf (sys_init f p upstream now)"
  by (simp add: sys_wf_def sys_init_def run_op_wf NewEngineForFeeder_wf)

lemma sys_step_wf: "sys_step s t \<Longrightarrow> sys_wf s \<Longrightarrow> sys_wf t"
proof (induction rule: sys_step.induct)
  case (build s t op e snap)
  then show ?case using op_locked_wf [of "es_engine s" op e snap] by (auto simp: sys_wf_def engine_wf_def)
next
  case (commit s t snap)
  then show ?case by (auto simp: sys_wf_def intro: store_wf)
qed

lemma sys_reachable_wf: "sys_reachable s0 s \<Longrightarrow> sys_wf s0 \<Longrightarrow> sys_wf s"
  by (induction rule: sys_reachable.induct) (auto intro: sys_step_wf)

interpretation feeder_reader: snapshot_reader "\<lambda>s. eg_current (es_engine s)" sys_wf
  by unfold_locales (simp add: sys_wf_def engine_wf_def)

interpretation engine_reader: snapshot_reader eg_current engine_wf
  by unfold_locales (simp add: engine_wf_def)

section \<open>Sequential runs\<close>

text \<open>What one operation makes of the current snapshot when no other interleaves with it.\<close>

definition distances_fresh :: "engine \<Rightarrow> bool" where
  "distances_fresh e \<longleftrightarrow> (\<forall>s. eg_current e = Some s \<longrightarrow>
     sn_Receiver s = eg_receiver e \<and> sn_Sequence s = eg_sequence e \<and>
     (\<forall>a\<in>set (sn_Aircraft s). a = derive_distance (eg_receiver e) a))"

lemma run_op_simps:
  "run_op op e = store (snd (op_locked op e)) (fst (op_locked op e))"
  by (simp add: run_op_def split: prod.splits)

lemma buildLocked_fields:
  "eg_sequence (fst (buildLocked rebuild now e)) = eg_sequence e + 1"
  "eg_receiver (fst (buildLocked rebuild now e)) = eg_receiver e"
  "sn_Sequence (snd (buildLocked rebuild now e)) = eg_sequence e + 1"
  "sn_Receiver (snd (buildLocked rebuild now e)) = eg_receiver e"
  "sn_Health (snd (buildLocked rebuild now e)) = eg_health e"
  "eg_publish (fst (buildLocked rebuild now e)) = eg_publish e"
  "eg_published (fst (buildLocked rebuild now e)) = eg_published e"
  by (simp_all add: buildLocked_def Let_def split: option.splits)

lemma buildNewAircraftLocked_fields:
  "eg_sequence (fst (buildNewAircraftLocked now e)) = eg_sequence e + 1"
  "eg_receiver (fst (buildNewAircraftLocked now e)) = eg_receiver e"
  "sn_Sequence (snd (buildNewAircraftLocked now e)) = eg_sequence e + 1"
  "sn_Receiver (snd (buildNewAircraftLocked now e)) = eg_receiver e"
  "sn_Health (snd (buildNewAircraftLocked now e)) = eg_health e"
  "sn_Aircraft (snd (buildNewAircraftLocked now e)) =
     deriveDistances (normalize_batch (ab_Provider (eg_batch e)) (ab_Aircraft (eg_batch e))) (eg_receiver e)"
  "eg_publish (fst (buildNewAircraftLocked now e)) = eg_publish e"
  "eg_published (fst (buildNewAircraftLocked now e)) = eg_published e"
  by (simp_all add: buildNewAircraftLocked_def Let_def split: prod.splits)

lemma buildLocked_aircraft:
  "sn_Aircraft (snd (buildLocked rebuild now e)) =
     (case eg_current e of None \<Rightarrow> []
      | Some c \<Rightarrow> if rebuild then deriveDistances (sn_Aircraft c) (eg_receiver e) else sn_Aircraft c)"
  by (simp add: buildLocked_def Let_def split: option.splits)

lemmas build_fields = buildLocked_fields buildNewAircraftLocked_fields

lemma op_locked_sequence:
  "eg_sequence (fst (op_locked op e)) = eg_sequence e + 1 \<and> sn_Sequence (snd (op_locked op e)) = eg_sequence e + 1
   \<and> eg_publish (fst (op_locked op e)) = eg_publish e \<and> eg_published (fst (op_locked op e)) = eg_published e
   \<and> sn_Receiver (snd (op_locked op e)) = eg_receiver (fst (op_locked op e))"
  by (cases op) (simp_all add: op_locked_defs Let_def build_fields)

lemma derive_distance_position:
  assumes "rc_HasPosition r = rc_HasPosition r'" "rc_Latitude r = rc_Latitude r'" "rc_Longitude r = rc_Longitude r'"
  shows "derive_distance r a = derive_distance r' a"
  unfolding derive_distance_def assms ..

lemma op_locked_distances:
  assumes "distances_fresh e" "eg_current e = Some c" "a \<in> set (sn_Aircraft (snd (op_locked op e)))"
  shows "a = derive_distance (eg_receiver (fst (op_locked op e))) a"
proof (cases op)
  case (ApplyAircraft fr i now nowP)
  with assms(3) show ?thesis
    by (auto simp: applyAircraft_locked_def Let_def build_fields deriveDistances_def derive_distance_idem)
next
  case (ApplyReceiver fr i nowP)
  let ?r = "fr_Value fr" and ?o = "eg_receiver e"
  have old: "b = derive_distance ?o b" if "b \<in> set (sn_Aircraft c)" for b
    using assms(1,2) that by (auto simp: distances_fresh_def)
  show ?thesis
  proof (cases "rc_HasPosition ?o \<noteq> rc_HasPosition ?r \<or> rc_Latitude ?o \<noteq> rc_Latitude ?r \<or> rc_Longitude ?o \<noteq> rc_Longitude ?r")
    case True
    then show ?thesis using assms(2,3) ApplyReceiver
      by (auto simp: applyReceiver_locked_def Let_def build_fields buildLocked_aircraft deriveDistances_def derive_distance_idem)
  next
    case False
    then have "derive_distance ?o = derive_distance ?r" using derive_distance_position by auto
    then show ?thesis using assms(2,3) ApplyReceiver False old
      by (auto simp: applyReceiver_locked_def Let_def build_fields buildLocked_aircraft)
  qed
qed (use assms in \<open>auto simp: op_locked_defs Let_def build_fields buildLocked_aircraft distances_fresh_def\<close>)

lemma run_op_fresh:
  assumes "distances_fresh e" "eg_current e \<noteq> None"
  shows "distances_fresh (run_op op e) \<and> eg_current (run_op op e) \<noteq> None"
proof -
  obtain c where "eg_current e = Some c" using assms(2) by auto
  then have "\<forall>a\<in>set (sn_Aircraft (snd (op_locked op e))). a = derive_distance (eg_receiver (fst (op_locked op e))) a"
    using op_locked_distances [OF assms(1)] by blast
  then show ?thesis using op_locked_sequence [of op e]
    by (simp add: run_op_simps store_def distances_fresh_def)
qed

lemma fold_run_op_fresh:
  "distances_fresh e \<and> eg_current e \<noteq> None \<Longrightarrow>
   distances_fresh (fold run_op ops e) \<and> eg_current (fold run_op ops e) \<noteq> None"
proof (induction ops arbitrary: e)
  case (Cons op ops)
  then show ?case using run_op_fresh [of e op] Cons.IH [of "run_op op e"] by (simp del: not_None_eq)
qed simp

lemma NewEngineForFeeder_fresh:
  "distances_fresh (NewEngineForFeeder f p) \<and> eg_current (NewEngineForFeeder f p) \<noteq> None"
  by (simp add: distances_fresh_def NewEngineForFeeder_def Let_def zero_snapshot_def)

lemma fold_run_op_published:
  "eg_publish e \<Longrightarrow> map sn_Sequence (eg_published (fold run_op ops e)) =
     map sn_Sequence (eg_published e) @ map (\<lambda>n. eg_sequence e + of_nat n) [1..<Suc (length ops)]"
proof (induction ops arbitrary: e)
  case (Cons op ops)
  have "eg_publish (run_op op e)" "eg_sequence (run_op op e) = eg_sequence e + 1"
    "map sn_Sequence (eg_published (run_op op e)) = map sn_Sequence (eg_published e) @ [eg_sequence e + 1]"
    using op_locked_sequence [of op e] Cons.prems by (simp_all add: run_op_simps store_def)
  moreover have "[1..<Suc (length (op # ops))] = 1 # map Suc [1..<Suc (length ops)]"
    by (simp add: map_Suc_upt upt_conv_Cons del: upt_Suc)
  ultimately show ?case using Cons.IH [of "run_op op e"] by (simp add: comp_def algebra_simps del: upt_Suc)
qed simp

section \<open>Health\<close>

text \<open>How bad a status is, and the status a failure sets.\<close>

definition severity :: "health_status \<Rightarrow> nat" where
  "severity st = (if st = HealthOffline then 3 else if st = HealthStale then 2
     else if st = HealthDegraded then 1 else 0)"

lemma severity_simps [simp]:
  "severity HealthOffline = 3" "severity HealthStale = 2" "severity HealthDegraded = 1"
  by (simp_all add: severity_def)

lemma severity_mono:
  assumes "a \<le> b" "m \<le> n"
  shows "severity (if z then if m \<ge> (2 :: nat) then HealthOffline else HealthDegraded
      else if a \<ge> (x :: int) then HealthOffline else if a \<ge> y then HealthStale else HealthDegraded)
    \<le> severity (if z then if n \<ge> 2 then HealthOffline else HealthDegraded
      else if b \<ge> x then HealthOffline else if b \<ge> y then HealthStale else HealthDegraded)"
  using assms by (simp only: severity_simps if_distrib [of severity]) simp

lemma failureHealth_status:
  "sh_Status (failureHealth h err t i) =
     (if sh_LastSuccess h = time_zero
      then if sh_ConsecutiveFailures h + 1 \<ge> 3 then HealthOffline else HealthDegraded
      else if time_sub t (sh_LastSuccess h) \<ge> offlineAfter i then HealthOffline
      else if time_sub t (sh_LastSuccess h) \<ge> staleAfter i then HealthStale else HealthDegraded)"
  by (simp add: failureHealth_def Let_def)

lemma failureHealth_fields:
  "sh_ConsecutiveFailures (failureHealth h err t i) = sh_ConsecutiveFailures h + 1"
  "sh_LastSuccess (failureHealth h err t i) = sh_LastSuccess h"
  "sh_LastAttempt (failureHealth h err t i) = t"
  by (simp_all add: failureHealth_def Let_def)

abbreviation fail_run :: "duration \<Rightarrow> (go_error \<times> time) list \<Rightarrow> source_health \<Rightarrow> source_health" where
  "fail_run i fs h \<equiv> fold (\<lambda>(err, t) g. failureHealth g err t i) fs h"

lemma fail_run_fields:
  "sh_ConsecutiveFailures (fail_run i fs h) = sh_ConsecutiveFailures h + of_nat (length fs) \<and>
   sh_LastSuccess (fail_run i fs h) = sh_LastSuccess h"
  by (induction fs arbitrary: h) (auto simp: failureHealth_fields)

lemma fail_run_snoc: "fail_run i (fs @ [(err, t)]) h = failureHealth (fail_run i fs h) err t i"
  by simp

lemma three_le_of_nat: "n < 2 ^ 64 \<Longrightarrow> (3 :: 64 word) \<le> of_nat n \<longleftrightarrow> 3 \<le> n"
  by (simp add: word_le_nat_alt unat_of_nat)

lemma fail_run_status:
  assumes "sh_ConsecutiveFailures h = 0" "length fs + 1 < 2 ^ 64"
  shows "sh_Status (fail_run i (fs @ [(err, t)]) h) =
     (if sh_LastSuccess h = time_zero then if length fs \<ge> 2 then HealthOffline else HealthDegraded
      else if time_sub t (sh_LastSuccess h) \<ge> offlineAfter i then HealthOffline
      else if time_sub t (sh_LastSuccess h) \<ge> staleAfter i then HealthStale else HealthDegraded)"
proof -
  let ?g = "fail_run i fs h"
  have c: "sh_ConsecutiveFailures ?g + 1 = of_nat (length fs + 1)" and l: "sh_LastSuccess ?g = sh_LastSuccess h"
    using fail_run_fields [of i fs h] assms(1) by simp_all
  have "(3 \<le> sh_ConsecutiveFailures ?g + 1) = (length fs \<ge> 2)"
    unfolding c using three_le_of_nat [OF assms(2)] by simp
  then show ?thesis unfolding fail_run_snoc failureHealth_status l by simp
qed

text \<open>A source that keeps failing. From a state with no failures counted (a new source or one
  that just succeeded), after any non-empty run of failures at non-decreasing times: the
  failure count is the length of the run; a source that never succeeded is degraded for its
  first two failures and offline from the third; one that did succeed is judged by the age of
  its last success alone; an additional failure never improves the status; and the next
  success with a plausible source timestamp makes it healthy with no failures counted.
\<close>

theorem health_escalation:
  assumes "sh_ConsecutiveFailures h = 0" "length fs + 1 < 2 ^ 64" "sorted (map snd (fs @ [(err, t)]))"
  shows "sh_ConsecutiveFailures (fail_run i (fs @ [(err, t)]) h) = of_nat (length fs + 1) \<and>
    sh_Status (fail_run i (fs @ [(err, t)]) h) =
     (if sh_LastSuccess h = time_zero then if length fs \<ge> 2 then HealthOffline else HealthDegraded
      else if time_sub t (sh_LastSuccess h) \<ge> offlineAfter i then HealthOffline
      else if time_sub t (sh_LastSuccess h) \<ge> staleAfter i then HealthStale else HealthDegraded) \<and>
    (fs \<noteq> [] \<longrightarrow> severity (sh_Status (fail_run i fs h)) \<le> severity (sh_Status (fail_run i (fs @ [(err, t)]) h))) \<and>
    (\<forall>u g. g = time_zero \<or> - (5 * minute) \<le> time_sub u g \<and> time_sub u g \<le> staleAfter i \<longrightarrow>
       sh_Status (successHealth (fail_run i (fs @ [(err, t)]) h) u g i) = HealthHealthy \<and>
       sh_ConsecutiveFailures (successHealth (fail_run i (fs @ [(err, t)]) h) u g i) = 0)"
proof (intro conjI impI allI)
  show "sh_ConsecutiveFailures (fail_run i (fs @ [(err, t)]) h) = of_nat (length fs + 1)"
    using fail_run_fields [of i "fs @ [(err, t)]" h] assms(1) by simp
  show "severity (sh_Status (fail_run i fs h)) \<le> severity (sh_Status (fail_run i (fs @ [(err, t)]) h))"
    if ne: "fs \<noteq> []"
  proof -
    obtain gs err' t' where fs: "fs = gs @ [(err', t')]" using ne by (cases fs rule: rev_cases) auto
    have "t' \<le> t" using assms(3) by (simp add: fs sorted_append)
    then have "time_sub t' (sh_LastSuccess h) \<le> time_sub t (sh_LastSuccess h)" by (rule time_sub_mono)
    moreover have gs: "length gs + 1 < 2 ^ 64" using assms(2) unfolding fs by (simp only: length_append)
    moreover have "length gs \<le> length fs" unfolding fs by simp
    ultimately have "severity (sh_Status (fail_run i (gs @ [(err', t')]) h)) \<le> severity (sh_Status (fail_run i (fs @ [(err, t)]) h))"
      unfolding fail_run_status [OF assms(1,2)] fail_run_status [OF assms(1) gs]
      by (intro severity_mono)
    then show ?thesis by (simp only: fs)
  qed
qed (auto simp: fail_run_status [OF assms(1,2), simplified] successHealth_def Let_def)

theorem health_escalation_witness:
  "sh_Status (fail_run second ([(Plain ''a'', 1), (Plain ''b'', 2)] @ [(Plain ''c'', 3)]) zero_source_health) = HealthOffline"
  using health_escalation [of zero_source_health "[(Plain ''a'', 1), (Plain ''b'', 2)]" "Plain ''c''" 3 second]
  by (simp add: zero_source_health_def)

text \<open>Sequential operation. However the operations of an engine follow one another, the
  current snapshot shows the engine's receiver and its last sequence number, every aircraft
  in it has the distance and bearing from that receiver (none when either position is
  unknown), and the published snapshots are numbered one after the other.
\<close>

theorem engine_sequential:
  "\<exists>c. eg_current (fold run_op ops (NewEngineForFeeder f True)) = Some c \<and>
     deriveDistances (sn_Aircraft c) (sn_Receiver c) = sn_Aircraft c \<and>
     sn_Receiver c = eg_receiver (fold run_op ops (NewEngineForFeeder f True)) \<and>
     sn_Sequence c = eg_sequence (fold run_op ops (NewEngineForFeeder f True)) \<and>
     map sn_Sequence (eg_published (fold run_op ops (NewEngineForFeeder f True))) =
       map of_nat [1..<Suc (length ops)]"
proof -
  let ?e = "fold run_op ops (NewEngineForFeeder f True)"
  have "distances_fresh ?e \<and> eg_current ?e \<noteq> None"
    by (rule fold_run_op_fresh [OF NewEngineForFeeder_fresh])
  moreover have "map sn_Sequence (eg_published ?e) = map of_nat [1..<Suc (length ops)]"
    by (subst fold_run_op_published) (simp_all add: NewEngineForFeeder_def Let_def del: upt_Suc)
  ultimately show ?thesis by (auto simp: distances_fresh_def deriveDistances_def simp del: upt_Suc intro!: map_idI)
qed

section \<open>What a reader sees\<close>

text \<open>
  C4. Every snapshot any reader of a running engine can see is well formed, whatever the
  interleaving of the two pollers between building a snapshot and storing it: addresses are
  canonical and strictly increasing, and a lookup finds exactly the aircraft with the given
  address. The same holds of every snapshot handed to the publish callback.
\<close>

theorem engine_reader_correct:
  assumes "sys_reachable (sys_init f p upstream now) s"
  shows "(\<exists>c. eg_current (es_engine s) = Some c \<and> snapshot_wf c \<and>
      (\<forall>k a. LookupICAO (eg_current (es_engine s)) k = Some a \<longleftrightarrow> a \<in> set (sn_Aircraft c) \<and> ac_ICAO a = k)) \<and>
    (\<forall>c\<in>set (eg_published (es_engine s)). snapshot_wf c)"
proof -
  have wf: "sys_wf s" by (rule sys_reachable_wf [OF assms sys_init_wf])
  then obtain c where c: "eg_current (es_engine s) = Some c" by (auto simp: sys_wf_def engine_wf_def)
  then show ?thesis using wf feeder_reader.current_wf [OF wf c] feeder_reader.lookup_iff [OF wf c]
    by (auto simp: sys_wf_def engine_wf_def)
qed

lemma normalize_batch_entries:
  assumes "b \<in> set (normalize_batch p xs)"
  shows "\<exists>x\<in>set xs. b = normalize_entry p x \<and> ac_ICAO b \<noteq> [] \<and>
    (\<forall>c\<in>set xs. normalizeICAO (ac_ICAO c) = ac_ICAO b \<longrightarrow> \<not> betterBatchObservation c x)"
proof -
  note spec = normalize_batch_spec [of p xs]
  obtain x where x: "x \<in> set xs" "b = normalize_entry p x" using spec assms by auto
  have can: "canonical_list (normalize_batch p xs)" using spec by blast
  then have ne: "ac_ICAO b \<noteq> []" using assms by (auto simp: canonical_list_def list_all_iff canonical_icao_def)
  have rank: "batch_rank (normalize_entry p y) = batch_rank y" for y
    by (simp add: batch_rank_def normalize_entry_def)
  have "\<not> betterBatchObservation c x" if c: "c \<in> set xs" "normalizeICAO (ac_ICAO c) = ac_ICAO b" for c
  proof -
    have "ac_ICAO (normalize_entry p c) = ac_ICAO b" using c(2) by (simp add: normalize_entry_def)
    then have "covers (normalize_batch p xs) (normalize_entry p c)"
      using spec c(1) ne by (metis (no_types, lifting) imageI list.set_map)
    then obtain d where d: "d \<in> set (normalize_batch p xs)" "ac_ICAO d = ac_ICAO b"
      "\<not> batch_rank (normalize_entry p c) < batch_rank d"
      using \<open>ac_ICAO (normalize_entry p c) = ac_ICAO b\<close> by auto
    have "d = b" using canonical_distinct [OF can] d(1,2) assms by (metis eq_key_imp_eq_value inj_onD distinct_map)
    then show ?thesis using d(3) x(2) by (simp add: rank better_batch_rank)
  qed
  with x ne show ?thesis by blast
qed

lemma applyAircraft_current:
  "\<exists>c. eg_current (run_op (ApplyAircraft fr i now nowP) e) = Some c \<and> snapshot_wf c \<and>
    sn_Aircraft c = deriveDistances (normalize_batch (frame_provider fr e) (ab_Aircraft (fr_Value fr))) (eg_receiver e)"
proof -
  obtain e' c where b: "op_locked (ApplyAircraft fr i now nowP) e = (e', c)" by fastforce
  then have b': "applyAircraft_locked fr i now nowP e = (e', c)" by simp
  have "snapshot_wf c" using b' by (auto simp: applyAircraft_locked_def Let_def dest!: buildNewAircraftLocked_wf)
  moreover have "sn_Aircraft (snd (applyAircraft_locked fr i now nowP e)) =
      deriveDistances (normalize_batch (frame_provider fr e) (ab_Aircraft (fr_Value fr))) (eg_receiver e)"
    by (simp add: applyAircraft_locked_def Let_def buildNewAircraftLocked_fields)
  moreover have "eg_current (run_op (ApplyAircraft fr i now nowP) e) = Some c"
    unfolding run_op_def b by (simp add: store_def)
  ultimately show ?thesis using b' by simp
qed

lemma applyAircraft_entries:
  "LookupICAO (eg_current (run_op (ApplyAircraft fr i now nowP) e)) k = None \<longleftrightarrow>
     k = [] \<or> (\<forall>b\<in>set (ab_Aircraft (fr_Value fr)). to_upper (trim_space (ac_ICAO b)) \<noteq> k)"
  "LookupICAO (eg_current (run_op (ApplyAircraft fr i now nowP) e)) k = Some a \<Longrightarrow>
     \<exists>b\<in>set (ab_Aircraft (fr_Value fr)). to_upper (trim_space (ac_ICAO b)) = k \<and>
       a = derive_distance (eg_receiver e) (normalize_entry (frame_provider fr e) b) \<and>
       (\<forall>c\<in>set (ab_Aircraft (fr_Value fr)). to_upper (trim_space (ac_ICAO c)) = k \<longrightarrow>
          \<not> betterBatchObservation c b)"
proof -
  let ?xs = "ab_Aircraft (fr_Value fr)" and ?p = "frame_provider fr e"
  let ?s = "eg_current (run_op (ApplyAircraft fr i now nowP) e)"
  obtain c where c: "?s = Some c" "snapshot_wf c"
    "sn_Aircraft c = deriveDistances (normalize_batch ?p ?xs) (eg_receiver e)"
    using applyAircraft_current by blast
  have found: "LookupICAO ?s k = Some a \<longleftrightarrow>
      (\<exists>b\<in>set (normalize_batch ?p ?xs). a = derive_distance (eg_receiver e) b \<and> ac_ICAO b = k)" for a
    using LookupICAO_wf [OF c(2)] c(1,3) by (auto simp: deriveDistances_def frame_simps)
  have "(\<exists>b\<in>set (normalize_batch ?p ?xs). ac_ICAO b = k) \<longleftrightarrow>
      k \<noteq> [] \<and> (\<exists>b\<in>set ?xs. normalizeICAO (ac_ICAO b) = k)" (is "?l = ?r")
  proof
    show "?l \<Longrightarrow> ?r" using normalize_batch_entries [of _ ?p ?xs] by (fastforce simp: normalize_entry_def)
  next
    assume ?r
    then obtain b where "b \<in> set ?xs" "ac_ICAO (normalize_entry ?p b) = k" "k \<noteq> []"
      by (auto simp: normalize_entry_def)
    then show ?l using normalize_batch_spec [of ?p ?xs] by (metis (no_types, lifting) imageI list.set_map)
  qed
  then have "LookupICAO ?s k = None \<longleftrightarrow> k = [] \<or> (\<forall>b\<in>set ?xs. normalizeICAO (ac_ICAO b) \<noteq> k)"
    using found by (cases "LookupICAO ?s k") auto
  moreover have "\<exists>b\<in>set ?xs. normalizeICAO (ac_ICAO b) = k \<and>
      a = derive_distance (eg_receiver e) (normalize_entry ?p b) \<and>
      (\<forall>c\<in>set ?xs. normalizeICAO (ac_ICAO c) = k \<longrightarrow> \<not> betterBatchObservation c b)"
    if "LookupICAO ?s k = Some a" for a
    using that found normalize_batch_entries [of _ ?p ?xs] by (fastforce simp: normalize_entry_def)
  ultimately show "LookupICAO ?s k = None \<longleftrightarrow> k = [] \<or> (\<forall>b\<in>set ?xs. to_upper (trim_space (ac_ICAO b)) \<noteq> k)"
    "LookupICAO ?s k = Some a \<Longrightarrow> \<exists>b\<in>set ?xs. to_upper (trim_space (ac_ICAO b)) = k \<and>
      a = derive_distance (eg_receiver e) (normalize_entry ?p b) \<and>
      (\<forall>c\<in>set ?xs. to_upper (trim_space (ac_ICAO c)) = k \<longrightarrow> \<not> betterBatchObservation c b)"
    by (simp_all add: normalizeICAO_eq)
qed

text \<open>
  C5. What a fetched batch becomes. After \<open>applyAircraft\<close> an address is found exactly when
  some entry of the batch normalises to it (entries with an empty address are dropped); the
  aircraft found is such an entry, tagged with the frame's provider and with distance and
  bearing from the engine's receiver, and no other entry with that address is better
  (smaller age, then having a position, then more messages).
\<close>

theorem applyAircraft_lookup:
  "(LookupICAO (eg_current (run_op (ApplyAircraft fr i now nowP) e)) k = None \<longleftrightarrow>
      k = [] \<or> (\<forall>b\<in>set (ab_Aircraft (fr_Value fr)). to_upper (trim_space (ac_ICAO b)) \<noteq> k)) \<and>
   (\<forall>a. LookupICAO (eg_current (run_op (ApplyAircraft fr i now nowP) e)) k = Some a \<longrightarrow>
      (\<exists>b\<in>set (ab_Aircraft (fr_Value fr)). to_upper (trim_space (ac_ICAO b)) = k \<and>
         a = derive_distance (eg_receiver e) (normalize_entry (frame_provider fr e) b) \<and>
         (\<forall>c\<in>set (ab_Aircraft (fr_Value fr)). to_upper (trim_space (ac_ICAO c)) = k \<longrightarrow>
            \<not> betterBatchObservation c b)))"
  using applyAircraft_entries [of fr i now nowP e k] by blast

text \<open>Concrete inputs for the witnesses below.\<close>

definition engine_demo_provider :: provider where
  "engine_demo_provider = \<lparr> pv_ProviderID = ProviderReadsb, pv_Capabilities = 7 \<rparr>"

definition engine_demo_frame :: "aircraft_batch frame" where
  "engine_demo_frame = \<lparr> fr_FeederID = FeederLocal, fr_FetchedAt = 100, fr_Provider = ProviderReadsb,
     fr_Value = \<lparr> ab_Provider = ProviderReadsb, ab_GeneratedAt = 100, ab_Messages = 5,
       ab_MessageCounterValid = True,
       ab_Aircraft = [zero_aircraft\<lparr> ac_ICAO := ''a1b2c3'', ac_Seen := 9 \<rparr>, zero_aircraft\<lparr> ac_ICAO := '' A1B2C3'' \<rparr>] \<rparr> \<rparr>"

definition engine_demo_stats :: "statistics frame" where
  "engine_demo_stats = \<lparr> fr_FeederID = FeederLocal, fr_FetchedAt = 100, fr_Provider = ProviderReadsb, fr_Value = zero_statistics \<rparr>"

lemma demo_icao: "to_upper (trim_space ''a1b2c3'') = ''A1B2C3''" "to_upper (trim_space '' A1B2C3'') = ''A1B2C3''"
  by code_simp+

theorem applyAircraft_lookup_witness:
  "LookupICAO (eg_current (run_op (ApplyAircraft engine_demo_frame second 100 100) (NewEngine True))) ''A1B2C3'' \<noteq> None"
  using applyAircraft_lookup [of engine_demo_frame second 100 100 "NewEngine True" "''A1B2C3''"]
  by (simp add: engine_demo_frame_def demo_icao)

lemma sys_reachable_step2: "sys_step s t \<Longrightarrow> sys_reachable s t"
  by (rule sys_reachable.step [OF sys_reachable.init])

theorem engine_reader_correct_witness:
  "snapshot_wf (the (eg_current (es_engine
     \<lparr> es_engine = fst (op_locked (ApplyAircraft engine_demo_frame second 100 100)
         (es_engine (sys_init FeederLocal True (NewSet engine_demo_provider) 1))),
       es_pending = (\<lambda>_. None)(True := Some (snd (op_locked (ApplyAircraft engine_demo_frame second 100 100)
         (es_engine (sys_init FeederLocal True (NewSet engine_demo_provider) 1))))) \<rparr>)))"
proof -
  let ?s = "sys_init FeederLocal True (NewSet engine_demo_provider) 1"
  let ?o = "op_locked (ApplyAircraft engine_demo_frame second 100 100) (es_engine ?s)"
  have "sys_step ?s \<lparr> es_engine = fst ?o, es_pending = (\<lambda>_. None)(True := Some (snd ?o)) \<rparr>"
    using sys_step.build [of ?s True "ApplyAircraft engine_demo_frame second 100 100" "fst ?o" "snd ?o"]
    by (simp add: sys_init_def poller_ops_def)
  from engine_reader_correct [OF sys_reachable_step2 [OF this]] show ?thesis by auto
qed

text \<open>
  C40. The store race. The mutex is released before the snapshot is stored, so the
  metadata poller can build a snapshot from the current aircraft, lose the processor while
  the aircraft poller builds and stores a whole new batch, and then store its own: the
  snapshot with the smaller sequence number is published last, stays current, and shows the
  aircraft of before the batch, whatever the batch was.
\<close>

theorem engine_store_race:
  assumes "es_pending s = (\<lambda>_. None)" "eg_current (es_engine s) = Some c" "eg_publish (es_engine s)"
  shows "\<exists>t c1 c2. sys_reachable s t \<and> es_pending t = (\<lambda>_. None) \<and>
    eg_published (es_engine t) = eg_published (es_engine s) @ [c1, c2] \<and> eg_current (es_engine t) = Some c2 \<and>
    sn_Sequence c1 = eg_sequence (es_engine s) + 2 \<and> sn_Sequence c2 = eg_sequence (es_engine s) + 1 \<and>
    sn_Aircraft c1 = deriveDistances (normalize_batch (frame_provider fr (es_engine s))
       (ab_Aircraft (fr_Value fr))) (eg_receiver (es_engine s)) \<and>
    sn_Aircraft c2 = sn_Aircraft c"
proof -
  let ?e = "es_engine s"
  let ?x = "op_locked (ApplyStats engine_demo_stats second 100) ?e"
  let ?y = "op_locked (ApplyAircraft fr second 100 100) (fst ?x)"
  define s1 where "s1 = \<lparr> es_engine = fst ?x, es_pending = (\<lambda>_. None)(False := Some (snd ?x)) \<rparr>"
  define s2 where "s2 = \<lparr> es_engine = fst ?y, es_pending = (es_pending s1)(True := Some (snd ?y)) \<rparr>"
  define s3 where "s3 = \<lparr> es_engine = store (snd ?y) (fst ?y), es_pending = (es_pending s2)(True := None) \<rparr>"
  define s4 where "s4 = \<lparr> es_engine = store (snd ?x) (es_engine s3), es_pending = (es_pending s3)(False := None) \<rparr>"
  have "sys_step s s1" unfolding s1_def assms(1) [symmetric]
    by (rule sys_step.build [where op = "ApplyStats engine_demo_stats second 100"])
      (use assms(1) in \<open>simp_all add: poller_ops_def\<close>)
  moreover have "sys_step s1 s2" unfolding s2_def
    by (rule sys_step.build [where op = "ApplyAircraft fr second 100 100"])
      (simp_all add: s1_def poller_ops_def)
  moreover have "sys_step s2 s3"
    using sys_step.commit [of s2 True "snd ?y"] by (simp add: s3_def s2_def)
  moreover have "sys_step s3 s4"
    using sys_step.commit [of s3 False "snd ?x"] by (simp add: s4_def s3_def s2_def s1_def)
  ultimately have "sys_reachable s s4" by (meson sys_reachable.intros)
  moreover have "es_pending s4 = (\<lambda>_. None)" by (auto simp: s4_def s3_def s2_def s1_def)
  moreover have pub: "eg_publish (fst ?y)" "eg_published (fst ?y) = eg_published ?e"
    "sn_Sequence (snd ?y) = eg_sequence ?e + 2" "sn_Sequence (snd ?x) = eg_sequence ?e + 1"
    using op_locked_sequence [of "ApplyStats engine_demo_stats second 100" ?e]
      op_locked_sequence [of "ApplyAircraft fr second 100 100" "fst ?x"] assms(3)
    by (simp_all del: op_locked.simps)
  moreover have "sn_Aircraft (snd ?x) = sn_Aircraft c"
    using assms(2) by (simp add: applyStats_locked_def Let_def buildLocked_aircraft)
  moreover have "frame_provider fr (fst ?x) = frame_provider fr ?e" "eg_receiver (fst ?x) = eg_receiver ?e"
    by (simp_all add: applyStats_locked_def Let_def buildLocked_def frame_provider_def assms(2))
  then have "sn_Aircraft (snd ?y) = deriveDistances (normalize_batch (frame_provider fr ?e)
      (ab_Aircraft (fr_Value fr))) (eg_receiver ?e)"
    by (simp add: applyAircraft_locked_def Let_def buildNewAircraftLocked_fields del: op_locked.simps(4)) 
  ultimately show ?thesis
    by (intro exI [of _ s4] exI [of _ "snd ?y"] exI [of _ "snd ?x"])
      (simp add: s4_def s3_def store_def del: op_locked.simps)
qed

theorem engine_store_race_witness:
  "\<exists>t. sys_reachable (sys_init FeederLocal True (NewSet engine_demo_provider) 1) t \<and>
     map sn_Sequence (eg_published (es_engine t)) = [1, 3, 2]"
proof -
  let ?e = "run_op (ConfigureSources (NewSet engine_demo_provider) 1) (NewEngineForFeeder FeederLocal True)"
  have e: "eg_publish ?e" "map sn_Sequence (eg_published ?e) = [1]" "eg_sequence ?e = 1" "eg_current ?e \<noteq> None"
    using fold_run_op_published [of "NewEngineForFeeder FeederLocal True" "[ConfigureSources (NewSet engine_demo_provider) 1]"]
      op_locked_sequence [of "ConfigureSources (NewSet engine_demo_provider) 1" "NewEngineForFeeder FeederLocal True"]
    by (simp_all add: run_op_simps store_def NewEngineForFeeder_def Let_def del: op_locked.simps)
  then obtain c where "eg_current (es_engine (sys_init FeederLocal True (NewSet engine_demo_provider) 1)) = Some c"
    by (auto simp: sys_init_def)
  from engine_store_race [OF _ this, of engine_demo_frame] e show ?thesis
    by (force simp: sys_init_def)
qed

end
