(* ===== verification/Feeder_Manager.thy ===== *)
theory Feeder_Manager
  imports Snapshot_Wf
begin

text \<open>
  \<open>internal/state/manager.go\<close>: the registry of feeders, the publication of their snapshots
  and the aggregate community view. The capacity-1 channel \<open>dirty\<close> is a flag, the
  observers are the logs of what they were given, newest last. \<open>Rebuild\<close> is split where
  the code releases the lock: the inputs read under it, then the aggregate computed and
  stored. The capacity computed from \<open>uniqueHint\<close> only sizes allocations and is left out;
  the hint itself is kept. The \<open>uint32\<close> positions of \<open>selected\<close> are numbers reduced
  modulo \<open>2 ^ 32\<close> where the code converts or increments them.
\<close>

definition u32 :: "nat \<Rightarrow> nat" where
  "u32 n = n mod 2 ^ 32"

definition DefaultAggregateInterval :: duration where
  "DefaultAggregateInterval = 250 * millisecond"

record feeder_entry =
  fe_descriptor :: feeder_descriptor
  fe_snapshot :: "snapshot option"

type_synonym feeders = "(feeder_id, feeder_entry) gomap"

record feeder_manager =
  fm_feeders :: feeders
  fm_current :: "snapshot option"
  fm_dirty :: bool
  fm_interval :: duration
  fm_sequence :: u64
  fm_uniqueHint :: int
  fm_observed :: "(feeder_id \<times> snapshot) list"
  fm_aggregates :: "snapshot list"

datatype manager_error = InvalidFeeder feeder_error | ReservedFeeder feeder_id

definition provider_status :: "health_status \<Rightarrow> source_health" where
  "provider_status st = zero_source_health\<lparr> sh_Provider := ProviderUnknown, sh_Status := st \<rparr>"

definition empty_aggregate_health :: health where
  "empty_aggregate_health = \<lparr> he_Aircraft = provider_status HealthUnknown,
     he_Receiver = provider_status HealthDisabled, he_Stats = provider_status HealthUnknown \<rparr>"

definition emptyAggregate :: "time \<Rightarrow> snapshot" where
  "emptyAggregate now = zero_snapshot\<lparr> sn_FeederID := FeederAll, sn_ActiveProvider := ProviderUnknown,
     sn_PublishedAt := now, sn_Aircraft := [], sn_ByICAO := [], sn_Search := [], sn_Feeders := [],
     sn_Health := empty_aggregate_health \<rparr>"

definition NewFeederManager :: "duration \<Rightarrow> time \<Rightarrow> feeder_manager" where
  "NewFeederManager interval now =
     \<lparr> fm_feeders = [], fm_current = Some (emptyAggregate now), fm_dirty = False,
       fm_interval = (if interval \<le> 0 then DefaultAggregateInterval else interval),
       fm_sequence = 0, fm_uniqueHint = 0, fm_observed = [], fm_aggregates = [] \<rparr>"

definition markDirty :: "feeder_manager \<Rightarrow> feeder_manager" where
  "markDirty m = m\<lparr> fm_dirty := True \<rparr>"

definition Register :: "feeder_descriptor \<Rightarrow> feeder_manager \<Rightarrow> (manager_error + unit) \<times> feeder_manager" where
  "Register descriptor m =
     (case NormalizeFeederID (fd_ID descriptor) of
        Inl err \<Rightarrow> (Inl (InvalidFeeder err), m)
      | Inr i \<Rightarrow>
          if i = FeederAll then (Inl (ReservedFeeder i), m)
          else
            let name = trim_space (fd_DisplayName descriptor);
                name' = (if name = [] then i else name)
            in (case NormalizeFeederDisplayName name' of
                  Inl err \<Rightarrow> (Inl (InvalidFeeder err), m)
                | Inr display \<Rightarrow>
                    let d = descriptor\<lparr> fd_ID := i, fd_DisplayName := display \<rparr>;
                        snap = (case map_of (fm_feeders m) i of None \<Rightarrow> None | Some entry \<Rightarrow> fe_snapshot entry)
                    in (Inr (), markDirty (m\<lparr> fm_feeders :=
                          AList.update i \<lparr> fe_descriptor = d, fe_snapshot = snap \<rparr> (fm_feeders m) \<rparr>))))"

definition Remove :: "feeder_id \<Rightarrow> feeder_manager \<Rightarrow> feeder_manager" where
  "Remove i m = markDirty (m\<lparr> fm_feeders := AList.delete i (fm_feeders m) \<rparr>)"

fun validSnapshotAircraft_from :: "string \<Rightarrow> aircraft list \<Rightarrow> bool" where
  "validSnapshotAircraft_from previous [] = True"
| "validSnapshotAircraft_from previous (a # as) =
     (let icao = ac_ICAO a in
      if icao = [] \<or> icao \<noteq> trim_space icao \<or> icao \<noteq> to_upper icao \<or> (previous \<noteq> [] \<and> previous \<ge> icao) then False
      else validSnapshotAircraft_from icao as)"

definition validSnapshotAircraft :: "aircraft list \<Rightarrow> bool" where
  "validSnapshotAircraft aircraft = validSnapshotAircraft_from [] aircraft"

definition Publish :: "feeder_id \<Rightarrow> snapshot option \<Rightarrow> feeder_manager \<Rightarrow> bool \<times> feeder_manager" where
  "Publish i snapshot m =
     (case snapshot of
        None \<Rightarrow> (False, m)
      | Some s \<Rightarrow>
          if \<not> validSnapshotAircraft (sn_Aircraft s) then (False, m)
          else
            (case map_of (fm_feeders m) i of
               None \<Rightarrow> (False, m)
             | Some entry \<Rightarrow>
                 if \<not> fd_Enabled (fe_descriptor entry) then (False, m)
                 else
                   let nxt = s\<lparr> sn_FeederID := i, sn_Feeders := [] \<rparr>;
                       m1 = markDirty (m\<lparr> fm_feeders :=
                              AList.update i (entry\<lparr> fe_snapshot := Some nxt \<rparr>) (fm_feeders m) \<rparr>)
                   in (True, m1\<lparr> fm_observed := fm_observed m1 @ [(i, nxt)] \<rparr>)))"

definition Aggregate :: "feeder_manager \<Rightarrow> snapshot option" where
  "Aggregate m = fm_current m"

definition Feeder :: "feeder_id \<Rightarrow> feeder_manager \<Rightarrow> snapshot option \<times> bool" where
  "Feeder i m =
     (if i = FeederAll then (Aggregate m, True)
      else
        (case map_of (fm_feeders m) i of
           None \<Rightarrow> (None, False)
         | Some entry \<Rightarrow> (fe_snapshot entry, fe_snapshot entry \<noteq> None)))"

definition summary_of :: "feeder_entry \<Rightarrow> feeder_summary" where
  "summary_of entry =
     (case fe_snapshot entry of
        None \<Rightarrow> \<lparr> fs_Descriptor = fe_descriptor entry, fs_Health = HealthUnknown, fs_LastPublished = 0, fs_Aircraft = 0 \<rparr>
      | Some s \<Rightarrow> \<lparr> fs_Descriptor = fe_descriptor entry, fs_Health = sh_Status (he_Aircraft (sn_Health s)),
                    fs_LastPublished = sn_PublishedAt s, fs_Aircraft = int (length (sn_Aircraft s)) \<rparr>)"

definition summary_key :: "feeder_summary \<Rightarrow> string \<times> feeder_id" where
  "summary_key s = (fd_DisplayName (fs_Descriptor s), fd_ID (fs_Descriptor s))"

definition sorted_summaries :: "feeders \<Rightarrow> feeder_summary list" where
  "sorted_summaries fs = sort_key summary_key (map (\<lambda>(_, entry). summary_of entry) fs)"

definition ListFeeders :: "feeder_manager \<Rightarrow> feeder_summary list" where
  "ListFeeders m = sorted_summaries (fm_feeders m)"

section \<open>Aggregation\<close>

definition later :: "time \<Rightarrow> time \<Rightarrow> time" where
  "later left right = (if right > left then right else left)"

definition betterObservationAt :: "aircraft \<Rightarrow> int \<Rightarrow> aircraft \<Rightarrow> int \<Rightarrow> bool" where
  "betterObservationAt candidate candidateAt current currentAt =
     (if candidateAt > currentAt then True
      else if candidateAt < currentAt then False
      else if ac_HasPosition candidate \<noteq> ac_HasPosition current then ac_HasPosition candidate
      else ac_Messages candidate > ac_Messages current)"

definition aggregateHealth_step :: "snapshot \<Rightarrow> health \<Rightarrow> health" where
  "aggregateHealth_step s r =
     (let a = he_Aircraft r; t = he_Stats r; sa = he_Aircraft (sn_Health s); st = he_Stats (sn_Health s);
          a1 = a\<lparr> sh_LastAttempt := later (sh_LastAttempt a) (sh_LastAttempt sa),
                  sh_LastSuccess := later (sh_LastSuccess a) (sh_LastSuccess sa) \<rparr>;
          t1 = t\<lparr> sh_LastAttempt := later (sh_LastAttempt t) (sh_LastAttempt st),
                  sh_LastSuccess := later (sh_LastSuccess t) (sh_LastSuccess st) \<rparr>;
          a2 = (if sh_Status sa \<noteq> HealthHealthy then a1\<lparr> sh_Status := HealthDegraded \<rparr> else a1);
          t2 = (if sh_Status st \<noteq> HealthHealthy \<and> sh_Status st \<noteq> HealthDisabled
                then t1\<lparr> sh_Status := HealthDegraded \<rparr> else t1)
      in r\<lparr> he_Aircraft := a2, he_Stats := t2 \<rparr>)"

definition aggregateHealth :: "snapshot list \<Rightarrow> health" where
  "aggregateHealth snapshots =
     (let r = empty_aggregate_health in
      if snapshots = [] then r
      else fold aggregateHealth_step snapshots
             (r\<lparr> he_Aircraft := (he_Aircraft r)\<lparr> sh_Status := HealthHealthy \<rparr>,
                 he_Stats := (he_Stats r)\<lparr> sh_Status := HealthHealthy \<rparr> \<rparr>))"

type_synonym aggregate_input = "feeder_descriptor \<times> snapshot"

definition input_of :: "feeder_entry \<Rightarrow> aggregate_input option" where
  "input_of entry =
     (case fe_snapshot entry of
        None \<Rightarrow> None
      | Some s \<Rightarrow> if fd_Enabled (fe_descriptor entry) then Some (fe_descriptor entry, s) else None)"

definition read_inputs :: "feeders \<Rightarrow> aggregate_input list" where
  "read_inputs fs = sort_key (\<lambda>(d, _). fd_ID d) (List.map_filter (\<lambda>(_, entry). input_of entry) fs)"

record selected =
  sel_snapshot :: snapshot
  sel_emergencySnapshot :: "snapshot option"
  sel_seenAt :: int
  sel_emergencyAt :: int
  sel_aircraftIndex :: nat
  sel_emergencyIndex :: nat
  sel_seenOffset :: nat
  sel_seenCount :: nat
  sel_seenCursor :: nat

definition seen_at :: "snapshot \<Rightarrow> aircraft \<Rightarrow> int" where
  "seen_at s a = time_unix_nano (sn_FetchedAt s - max (ac_Seen a) 0)"

text \<open>One iteration of the selection loop: the entry of the aircraft's address.\<close>

definition select_step :: "snapshot \<Rightarrow> nat \<Rightarrow> selected option \<Rightarrow> selected" where
  "select_step s i entry =
     (let a = sn_Aircraft s ! i;
          seenAt = seen_at s a;
          c0 = (case entry of
                  None \<Rightarrow> \<lparr> sel_snapshot = s, sel_emergencySnapshot = None, sel_seenAt = seenAt,
                      sel_emergencyAt = 0, sel_aircraftIndex = u32 i, sel_emergencyIndex = 0,
                      sel_seenOffset = 0, sel_seenCount = 0, sel_seenCursor = 0 \<rparr>
                | Some c \<Rightarrow> c);
          c1 = c0\<lparr> sel_seenCount := u32 (sel_seenCount c0 + 1) \<rparr>;
          c2 = (if EmergencyActive a \<and> (sel_emergencySnapshot c1 = None \<or> seenAt > sel_emergencyAt c1)
                then c1\<lparr> sel_emergencySnapshot := Some s, sel_emergencyIndex := u32 i, sel_emergencyAt := seenAt \<rparr>
                else c1)
      in if entry = None \<or>
            betterObservationAt a seenAt (sn_Aircraft (sel_snapshot c2) ! sel_aircraftIndex c2) (sel_seenAt c2)
         then c2\<lparr> sel_snapshot := s, sel_aircraftIndex := u32 i, sel_seenAt := seenAt \<rparr>
         else c2)"

definition observe_aircraft ::
    "snapshot \<Rightarrow> nat \<Rightarrow> (string, selected) gomap \<times> string list \<Rightarrow> (string, selected) gomap \<times> string list" where
  "observe_aircraft s i acc =
     (let (chosen, keys) = acc; icao = ac_ICAO (sn_Aircraft s ! i); entry = map_of chosen icao
      in (AList.update icao (select_step s i entry) chosen, if entry = None then keys @ [icao] else keys))"

definition observe_snapshot ::
    "snapshot \<Rightarrow> (string, selected) gomap \<times> string list \<Rightarrow> (string, selected) gomap \<times> string list" where
  "observe_snapshot s acc = fold (observe_aircraft s) [0..<length (sn_Aircraft s)] acc"

definition offset_step :: "string \<Rightarrow> nat \<times> (string, selected) gomap \<Rightarrow> nat \<times> (string, selected) gomap" where
  "offset_step icao acc =
     (let (totalSeen, chosen) = acc in
      case map_of chosen icao of
        None \<Rightarrow> acc
      | Some v \<Rightarrow> (totalSeen + sel_seenCount v, AList.update icao (v\<lparr> sel_seenOffset := u32 totalSeen \<rparr>) chosen))"

definition arena_step ::
    "feeder_id \<Rightarrow> string \<Rightarrow> feeder_id list \<times> (string, selected) gomap \<Rightarrow> feeder_id list \<times> (string, selected) gomap" where
  "arena_step i icao acc =
     (let (arena, chosen) = acc in
      case map_of chosen icao of
        None \<Rightarrow> acc
      | Some v \<Rightarrow> (arena[sel_seenOffset v + sel_seenCursor v := i],
          AList.update icao (v\<lparr> sel_seenCursor := u32 (sel_seenCursor v + 1) \<rparr>) chosen))"

definition arena_input ::
    "aggregate_input \<Rightarrow> feeder_id list \<times> (string, selected) gomap \<Rightarrow> feeder_id list \<times> (string, selected) gomap" where
  "arena_input input acc =
     (let (d, s) = input in fold (\<lambda>a. arena_step (fd_ID d) (ac_ICAO a)) (sn_Aircraft s) acc)"

definition finish_item :: "feeder_id list \<Rightarrow> selected \<Rightarrow> aircraft" where
  "finish_item arena v =
     (let item = sn_Aircraft (sel_snapshot v) ! sel_aircraftIndex v;
          item' = (case sel_emergencySnapshot v of
             None \<Rightarrow> item
           | Some es \<Rightarrow>
               if \<not> EmergencyActive item
               then let emergency = sn_Aircraft es ! sel_emergencyIndex v
                    in item\<lparr> ac_Emergency := ac_Emergency emergency, ac_Squawk := ac_Squawk emergency \<rparr>
               else item)
      in item'\<lparr> ac_SeenBy := take (sel_seenCount v) (drop (sel_seenOffset v) arena) \<rparr>)"

definition aggregate_aircraft :: "aggregate_input list \<Rightarrow> string list \<times> aircraft list" where
  "aggregate_aircraft inputs =
     (let (chosen, keys0) = fold (\<lambda>(_, s). observe_snapshot s) inputs ([], []);
          keys = sort keys0;
          (totalSeen, chosen1) = fold offset_step keys (0, chosen);
          (arena, chosen2) = fold arena_input inputs (replicate totalSeen [], chosen1)
      in (keys, map (\<lambda>icao. finish_item arena (the (map_of chosen2 icao))) keys))"

record aggregate_totals =
  ag_fetchedAt :: time
  ag_generatedAt :: time
  ag_messages :: u64
  ag_messageValid :: bool
  ag_stats :: statistics
  ag_capabilities :: capabilities

definition totals_step :: "aggregate_input \<Rightarrow> aggregate_totals \<Rightarrow> aggregate_totals" where
  "totals_step input t =
     (let (_, s) = input; st = ag_stats t; ss = sn_Statistics s in
      \<lparr> ag_fetchedAt = (if sn_FetchedAt s > ag_fetchedAt t then sn_FetchedAt s else ag_fetchedAt t),
        ag_generatedAt = (if sn_SourceGeneratedAt s > ag_generatedAt t then sn_SourceGeneratedAt s else ag_generatedAt t),
        ag_messages = (if sn_MessageCounterValid s then ag_messages t + sn_ReceiverMessages s else ag_messages t),
        ag_messageValid = (sn_MessageCounterValid s \<or> ag_messageValid t),
        ag_stats = st\<lparr> sx_Messages := sx_Messages st + sx_Messages ss,
                       sx_MessageRate := sx_MessageRate st + sx_MessageRate ss,
                       sx_MaxRangeNM := max (sx_MaxRangeNM st) (sx_MaxRangeNM ss) \<rparr>,
        ag_capabilities = or (ag_capabilities t) (sn_Capabilities s) \<rparr>)"

definition zero_totals :: aggregate_totals where
  "zero_totals = \<lparr> ag_fetchedAt = 0, ag_generatedAt = 0, ag_messages = 0, ag_messageValid = False,
     ag_stats = zero_statistics, ag_capabilities = 0 \<rparr>"

definition aggregate :: "feeders \<Rightarrow> u64 \<Rightarrow> time \<Rightarrow> snapshot" where
  "aggregate fs seq now =
     (let inputs = read_inputs fs;
          t = fold totals_step inputs zero_totals;
          (keys, aircraft) = aggregate_aircraft inputs
      in zero_snapshot\<lparr> sn_FeederID := FeederAll, sn_Feeders := sorted_summaries fs, sn_Sequence := seq,
           sn_ActiveProvider := ProviderUnknown, sn_Capabilities := ag_capabilities t,
           sn_SourceGeneratedAt := ag_generatedAt t, sn_FetchedAt := ag_fetchedAt t, sn_PublishedAt := now,
           sn_Statistics := (ag_stats t)\<lparr> sx_TrackedAircraft := int (length aircraft), sx_FetchedAt := ag_fetchedAt t \<rparr>,
           sn_ReceiverMessages := ag_messages t, sn_MessageCounterValid := ag_messageValid t,
           sn_Aircraft := aircraft,
           sn_ByICAO := fold (\<lambda>(k, v). AList.update k v) (zip keys (map int [0..<length keys])) [],
           sn_Search := sort (map (\<lambda>(icao, item). AircraftKey icao (ac_Callsign item) (ac_Registration item)) (zip keys aircraft)),
           sn_Health := aggregateHealth (map snd inputs) \<rparr>)"

text \<open>The part of \<open>Rebuild\<close> after the lock is released, on the entries read under it.\<close>

definition rebuild_store :: "feeders \<Rightarrow> time \<Rightarrow> feeder_manager \<Rightarrow> feeder_manager" where
  "rebuild_store fs now m =
     (let s = aggregate fs (fm_sequence m + 1) now in
      m\<lparr> fm_sequence := fm_sequence m + 1, fm_uniqueHint := int (length (sn_Aircraft s)),
         fm_current := Some s, fm_aggregates := fm_aggregates m @ [s] \<rparr>)"

definition Rebuild :: "time \<Rightarrow> feeder_manager \<Rightarrow> snapshot \<times> feeder_manager" where
  "Rebuild now m = (let m' = rebuild_store (fm_feeders m) now m in (the (fm_current m'), m'))"

section \<open>The coalescing loop\<close>

record manager_run =
  mr_manager :: feeder_manager
  mr_pending :: bool
  mr_building :: "feeders option"

inductive manager_step :: "manager_run \<Rightarrow> manager_run \<Rightarrow> bool" where
  register: "manager_step s (s\<lparr> mr_manager := snd (Register d (mr_manager s)) \<rparr>)"
| remove: "manager_step s (s\<lparr> mr_manager := Remove i (mr_manager s) \<rparr>)"
| publish: "manager_step s (s\<lparr> mr_manager := snd (Publish i snap (mr_manager s)) \<rparr>)"
| dirty: "mr_building s = None \<Longrightarrow> fm_dirty (mr_manager s) \<Longrightarrow>
     manager_step s (s\<lparr> mr_manager := (mr_manager s)\<lparr> fm_dirty := False \<rparr>, mr_pending := True \<rparr>)"
| timer: "mr_building s = None \<Longrightarrow> mr_pending s \<Longrightarrow>
     manager_step s (s\<lparr> mr_building := Some (fm_feeders (mr_manager s)) \<rparr>)"
| rebuilt: "mr_building s = Some fs \<Longrightarrow>
     manager_step s \<lparr> mr_manager = rebuild_store fs now (mr_manager s), mr_pending = False, mr_building = None \<rparr>"

definition manager_init :: "duration \<Rightarrow> time \<Rightarrow> manager_run" where
  "manager_init interval now = \<lparr> mr_manager = NewFeederManager interval now, mr_pending = False, mr_building = None \<rparr>"

inductive manager_reachable :: "manager_run \<Rightarrow> manager_run \<Rightarrow> bool" for s0 where
  init: "manager_reachable s0 s0"
| step: "manager_reachable s0 s \<Longrightarrow> manager_step s t \<Longrightarrow> manager_reachable s0 t"

end
