(* ===== verification/Feeder_Manager_Props.thy ===== *)
theory Feeder_Manager_Props
  imports Feeder_Manager
begin

text \<open>
  Correctness of the feeder manager. The loops of \<open>Rebuild\<close> are first flattened to one pass
  over the observations \<open>events\<close> of all inputs; the selection is then a fold per address,
  and the \<open>SeenBy\<close> slices of the shared arena are the feeders of the address in order.
\<close>

section \<open>Validation of a published snapshot\<close>

lemma validSnapshotAircraft_from_iff:
  "validSnapshotAircraft_from previous xs \<longleftrightarrow> canonical_list xs \<and>
     (previous \<noteq> [] \<longrightarrow> (\<forall>a\<in>set xs. previous < ac_ICAO a))"
proof (induction xs arbitrary: previous)
  case (Cons x xs)
  show ?case
  proof (cases "canonical_icao (ac_ICAO x)")
    case True
    then have "ac_ICAO x \<noteq> []" by (simp add: canonical_icao_def)
    then show ?thesis using True Cons.IH [of "ac_ICAO x"]
      by (auto simp: canonical_list_def canonical_icao_def Let_def not_le intro: less_trans)
  next
    case False
    then show ?thesis by (auto simp: canonical_list_def canonical_icao_def Let_def)
  qed
qed simp

lemma validSnapshotAircraft_iff: "validSnapshotAircraft xs = canonical_list xs"
  by (simp add: validSnapshotAircraft_def validSnapshotAircraft_from_iff)

section \<open>The observations of an aggregation\<close>

type_synonym event = "feeder_id \<times> snapshot \<times> nat"

definition ev_aircraft :: "event \<Rightarrow> aircraft" where
  "ev_aircraft e = (case e of (_, s, i) \<Rightarrow> sn_Aircraft s ! i)"

definition ev_key :: "event \<Rightarrow> string" where
  "ev_key e = ac_ICAO (ev_aircraft e)"

definition ev_at :: "event \<Rightarrow> int" where
  "ev_at e = seen_at (fst (snd e)) (ev_aircraft e)"

definition ev_rank :: "event \<Rightarrow> int \<times> bool \<times> int" where
  "ev_rank e = (ev_at e, ac_HasPosition (ev_aircraft e), uint (ac_Messages (ev_aircraft e)))"

definition input_events :: "aggregate_input \<Rightarrow> event list" where
  "input_events input = (case input of (d, s) \<Rightarrow> map (\<lambda>i. (fd_ID d, s, i)) [0..<length (sn_Aircraft s)])"

definition events :: "aggregate_input list \<Rightarrow> event list" where
  "events inputs = concat (map input_events inputs)"

definition ev_ok :: "event \<Rightarrow> bool" where
  "ev_ok e \<longleftrightarrow> (case e of (_, s, i) \<Rightarrow> i < length (sn_Aircraft s) \<and> i < 2 ^ 32)"

lemma better_rank:
  "betterObservationAt (ev_aircraft c) (ev_at c) (ev_aircraft d) (ev_at d) \<longleftrightarrow> ev_rank d < ev_rank c"
  by (auto simp: betterObservationAt_def ev_rank_def word_less_def)

abbreviation observe_ev :: "event \<Rightarrow> (string, selected) gomap \<times> string list \<Rightarrow> (string, selected) gomap \<times> string list" where
  "observe_ev e \<equiv> observe_aircraft (fst (snd e)) (snd (snd e))"

abbreviation arena_ev :: "event \<Rightarrow> feeder_id list \<times> (string, selected) gomap \<Rightarrow> feeder_id list \<times> (string, selected) gomap" where
  "arena_ev e \<equiv> arena_step (fst e) (ev_key e)"

lemma fold_observe_events:
  "fold (\<lambda>(_, s). observe_snapshot s) inputs acc = fold observe_ev (events inputs) acc"
  by (induction inputs arbitrary: acc)
    (auto simp: events_def input_events_def observe_snapshot_def fold_map comp_def)

lemma fold_arena_events: "fold arena_input inputs acc = fold arena_ev (events inputs) acc"
proof (induction inputs arbitrary: acc)
  case (Cons input inputs)
  obtain d s where i: "input = (d, s)" by (cases input)
  have "fold (\<lambda>a. arena_step (fd_ID d) (ac_ICAO a)) (map ((!) (sn_Aircraft s)) [0..<length (sn_Aircraft s)]) acc =
      fold (\<lambda>e. arena_step (fst e) (ev_key e)) (input_events input) acc"
    by (simp only: fold_map input_events_def i prod.case) (simp add: comp_def ev_key_def ev_aircraft_def)
  then show ?case using Cons by (simp add: events_def arena_input_def i map_nth)
qed (simp add: events_def)

text \<open>The selection for one address, as a fold over the observations of that address.\<close>

definition select_events :: "event list \<Rightarrow> selected option" where
  "select_events es = fold (\<lambda>e o'. Some (select_step (fst (snd e)) (snd (snd e)) o')) es None"

abbreviation at_key :: "string \<Rightarrow> event list \<Rightarrow> event list" where
  "at_key k es \<equiv> filter (\<lambda>e. ev_key e = k) es"

lemma select_events_snoc:
  "select_events (es @ [e]) = Some (select_step (fst (snd e)) (snd (snd e)) (select_events es))"
  by (simp add: select_events_def)

lemma select_events_None: "select_events es = None \<longleftrightarrow> es = []"
  by (cases es rule: rev_cases) (auto simp: select_events_def)

lemma fold_observe:
  assumes "fold observe_ev es ([], []) = (chosen, keys)"
  shows "(\<forall>k. map_of chosen k = select_events (at_key k es)) \<and> distinct keys \<and> set keys = ev_key ` set es"
  using assms
proof (induction es arbitrary: chosen keys rule: rev_induct)
  case Nil
  then show ?case by (simp add: select_events_def)
next
  case (snoc e es)
  obtain c ks where f: "fold observe_ev es ([], []) = (c, ks)" by fastforce
  note IH = snoc.IH [OF f]
  have key: "ac_ICAO (sn_Aircraft (fst (snd e)) ! snd (snd e)) = ev_key e"
    by (simp add: ev_key_def ev_aircraft_def split: prod.splits)
  have new: "map_of c (ev_key e) = None \<longleftrightarrow> ev_key e \<notin> ev_key ` set es"
    using IH by (auto simp: select_events_None filter_empty_conv image_iff)
  have step: "observe_ev e (c, ks) = (chosen, keys)" using snoc.prems by (simp add: f)
  have r: "chosen = AList.update (ev_key e) (select_step (fst (snd e)) (snd (snd e)) (map_of c (ev_key e))) c"
    "keys = (if map_of c (ev_key e) = None then ks @ [ev_key e] else ks)"
    using step by (simp_all add: observe_aircraft_def key Let_def)
  show ?case unfolding r using IH new by (auto simp: select_events_snoc)
qed

section \<open>What is selected\<close>

definition best_of :: "event list \<Rightarrow> event \<Rightarrow> bool" where
  "best_of es e \<longleftrightarrow> e \<in> set es \<and> (\<forall>d\<in>set es. \<not> ev_rank e < ev_rank d)"

definition latest_emergency :: "event list \<Rightarrow> event \<Rightarrow> bool" where
  "latest_emergency es e \<longleftrightarrow> e \<in> set es \<and> EmergencyActive (ev_aircraft e) \<and>
     (\<forall>d\<in>set es. EmergencyActive (ev_aircraft d) \<longrightarrow> ev_at d \<le> ev_at e)"

definition selected_ok :: "event list \<Rightarrow> selected \<Rightarrow> bool" where
  "selected_ok es v \<longleftrightarrow>
     (\<exists>e. best_of es e \<and> sel_snapshot v = fst (snd e) \<and> sel_aircraftIndex v = snd (snd e) \<and> sel_seenAt v = ev_at e) \<and>
     (case sel_emergencySnapshot v of
        None \<Rightarrow> (\<forall>e\<in>set es. \<not> EmergencyActive (ev_aircraft e))
      | Some s \<Rightarrow> (\<exists>e. latest_emergency es e \<and> s = fst (snd e) \<and> sel_emergencyIndex v = snd (snd e) \<and> sel_emergencyAt v = ev_at e)) \<and>
     sel_seenCount v = length es \<and> sel_seenCursor v = 0"

lemma u32_id [simp]: "n < 2 ^ 32 \<Longrightarrow> u32 n = n"
  by (simp add: u32_def)

text \<open>The effect of one more observation on each group of fields.\<close>

lemma select_step_fields:
  fixes e :: event and o' :: "selected option"
  defines "v \<equiv> select_step (fst (snd e)) (snd (snd e)) o'"
  assumes "ev_ok e"
  shows "sel_seenCount v = u32 ((case o' of None \<Rightarrow> 0 | Some c \<Rightarrow> sel_seenCount c) + 1)"
    "sel_seenCursor v = (case o' of None \<Rightarrow> 0 | Some c \<Rightarrow> sel_seenCursor c)"
    "(sel_snapshot v, sel_aircraftIndex v, sel_seenAt v) =
       (case o' of None \<Rightarrow> (fst (snd e), snd (snd e), ev_at e)
        | Some c \<Rightarrow> if betterObservationAt (ev_aircraft e) (ev_at e) (sn_Aircraft (sel_snapshot c) ! sel_aircraftIndex c) (sel_seenAt c)
            then (fst (snd e), snd (snd e), ev_at e) else (sel_snapshot c, sel_aircraftIndex c, sel_seenAt c))"
    "(sel_emergencySnapshot v, sel_emergencyIndex v, sel_emergencyAt v) =
       (if EmergencyActive (ev_aircraft e) \<and>
           (case o' of None \<Rightarrow> True | Some c \<Rightarrow> sel_emergencySnapshot c = None \<or> ev_at e > sel_emergencyAt c)
        then (Some (fst (snd e)), snd (snd e), ev_at e)
        else (case o' of None \<Rightarrow> (None, 0, 0) | Some c \<Rightarrow> (sel_emergencySnapshot c, sel_emergencyIndex c, sel_emergencyAt c)))"
  using assms(2) unfolding v_def
  by (cases e; cases o'; auto simp: select_step_def Let_def ev_aircraft_def ev_at_def ev_ok_def; fail)+

lemma select_events_ok:
  assumes "es \<noteq> []" "\<forall>e\<in>set es. ev_ok e" "length es < 2 ^ 32"
  shows "\<exists>v. select_events es = Some v \<and> selected_ok es v"
  using assms
proof (induction es rule: rev_induct)
  case (snoc e es)
  have ok: "ev_ok e" using snoc.prems by simp
  note f = select_step_fields [OF ok]
  show ?case
  proof (cases "es = []")
    case True
    then show ?thesis using f [of None]
      by (auto simp: select_events_def selected_ok_def best_of_def latest_emergency_def split: if_splits)
  next
    case False
    then obtain c where c: "select_events es = Some c" "selected_ok es c" using snoc by auto
    let ?v = "select_step (fst (snd e)) (snd (snd e)) (Some c)"
    obtain b where b: "best_of es b" "sel_snapshot c = fst (snd b)" "sel_aircraftIndex c = snd (snd b)" "sel_seenAt c = ev_at b"
      using c(2) by (auto simp: selected_ok_def)
    have cur: "sn_Aircraft (sel_snapshot c) ! sel_aircraftIndex c = ev_aircraft b"
      using b by (simp add: ev_aircraft_def split: prod.splits)
    have best: "\<exists>b'. best_of (es @ [e]) b' \<and> sel_snapshot ?v = fst (snd b') \<and> sel_aircraftIndex ?v = snd (snd b') \<and> sel_seenAt ?v = ev_at b'"
    proof (cases "ev_rank b < ev_rank e")
      case True
      then have "best_of (es @ [e]) e" using b(1) by (auto simp: best_of_def)
      moreover have "(sel_snapshot ?v, sel_aircraftIndex ?v, sel_seenAt ?v) = (fst (snd e), snd (snd e), ev_at e)"
        using f(3) [of "Some c"] True by (simp add: cur b(4) better_rank)
      ultimately show ?thesis by (intro exI [of _ e]) simp
    next
      case False
      then have "best_of (es @ [e]) b" using b(1) by (auto simp: best_of_def)
      moreover have "(sel_snapshot ?v, sel_aircraftIndex ?v, sel_seenAt ?v) = (sel_snapshot c, sel_aircraftIndex c, sel_seenAt c)"
        using f(3) [of "Some c"] False by (simp add: cur b(4) better_rank)
      ultimately show ?thesis by (intro exI [of _ b]) (simp add: b)
    qed
    have emer: "case sel_emergencySnapshot ?v of
        None \<Rightarrow> (\<forall>d\<in>set (es @ [e]). \<not> EmergencyActive (ev_aircraft d))
      | Some s \<Rightarrow> (\<exists>d. latest_emergency (es @ [e]) d \<and> s = fst (snd d) \<and> sel_emergencyIndex ?v = snd (snd d) \<and> sel_emergencyAt ?v = ev_at d)"
    proof (cases "sel_emergencySnapshot c")
      case None
      then have none: "\<forall>d\<in>set es. \<not> EmergencyActive (ev_aircraft d)" using c(2) by (simp add: selected_ok_def)
      show ?thesis
      proof (cases "EmergencyActive (ev_aircraft e)")
        case True
        then have "latest_emergency (es @ [e]) e" using none by (auto simp: latest_emergency_def)
        then show ?thesis using f(4) [of "Some c"] True None by (auto simp del: split_paired_Ex)
      next
        case False
        then show ?thesis using f(4) [of "Some c"] None none by auto
      qed
    next
      case (Some s)
      then obtain d where d: "latest_emergency es d" "s = fst (snd d)" "sel_emergencyIndex c = snd (snd d)" "sel_emergencyAt c = ev_at d"
        using c(2) by (auto simp: selected_ok_def)
      show ?thesis
      proof (cases "EmergencyActive (ev_aircraft e) \<and> ev_at e > ev_at d")
        case True
        then have "latest_emergency (es @ [e]) e" using d(1) by (force simp: latest_emergency_def)
        then show ?thesis using f(4) [of "Some c"] True Some d by (auto simp del: split_paired_Ex)
      next
        case False
        then have "latest_emergency (es @ [e]) d" using d(1) by (auto simp: latest_emergency_def)
        then show ?thesis using f(4) [of "Some c"] False Some d by (auto simp del: split_paired_Ex)
      qed
    qed
    show ?thesis unfolding select_events_snoc selected_ok_def c(1)
      using best emer f(1,2) [of "Some c"] c(2) snoc.prems(3) by (auto simp: selected_ok_def simp del: split_paired_Ex)
  qed
qed simp

section \<open>The arena of feeder identifiers\<close>

definition offset_of :: "string list \<Rightarrow> (string \<Rightarrow> nat) \<Rightarrow> string \<Rightarrow> nat" where
  "offset_of ks n k = sum_list (map n (takeWhile (\<lambda>x. x \<noteq> k) ks))"

lemma offset_of_Cons: "offset_of (x # ks) n k = (if x = k then 0 else n x + offset_of ks n k)"
  by (simp add: offset_of_def)

lemma offset_of_le: "k \<in> set ks \<Longrightarrow> offset_of ks n k + n k \<le> sum_list (map n ks)"
  by (induction ks) (auto simp: offset_of_Cons)

lemma offset_of_disjoint:
  assumes "k \<in> set ks" "k' \<in> set ks" "k \<noteq> k'"
  shows "offset_of ks n k + n k \<le> offset_of ks n k' \<or> offset_of ks n k' + n k' \<le> offset_of ks n k"
  using assms by (induction ks) (auto simp: offset_of_Cons)

lemma fold_offset:
  assumes "distinct ks" "\<forall>k\<in>set ks. \<exists>v. map_of chosen k = Some v \<and> sel_seenCount v = n k"
    and "t0 + sum_list (map n ks) < 2 ^ 32"
  shows "fst (fold offset_step ks (t0, chosen)) = t0 + sum_list (map n ks) \<and>
    (\<forall>k. map_of (snd (fold offset_step ks (t0, chosen))) k =
       (if k \<in> set ks then Some ((the (map_of chosen k))\<lparr> sel_seenOffset := t0 + offset_of ks n k \<rparr>) else map_of chosen k))"
  using assms
proof (induction ks arbitrary: t0 chosen)
  case (Cons x ks)
  obtain v where v: "map_of chosen x = Some v" "sel_seenCount v = n x" using Cons.prems by auto
  let ?c = "AList.update x (v\<lparr> sel_seenOffset := u32 t0 \<rparr>) chosen"
  have t0: "u32 t0 = t0" using Cons.prems(3) by simp
  have step: "fold offset_step (x # ks) (t0, chosen) = fold offset_step ks (t0 + n x, ?c)"
    by (simp add: offset_step_def v)
  have "fst (fold offset_step ks (t0 + n x, ?c)) = t0 + n x + sum_list (map n ks) \<and>
    (\<forall>k. map_of (snd (fold offset_step ks (t0 + n x, ?c))) k =
       (if k \<in> set ks then Some ((the (map_of ?c k))\<lparr> sel_seenOffset := t0 + n x + offset_of ks n k \<rparr>) else map_of ?c k))"
    using Cons.prems by (intro Cons.IH) auto
  then show ?case unfolding step using Cons.prems(1) v t0
    by (auto simp: offset_of_Cons add.assoc)
qed (simp add: offset_of_def)

lemma fold_arena:
  assumes chosen: "\<And>k. k \<in> ks \<Longrightarrow> map_of chosen k = Some (w k) \<and> sel_seenCursor (w k) = 0 \<and>
        sel_seenOffset (w k) + length (at_key k E) \<le> length arena0"
    and disjoint: "\<And>k k'. k \<in> ks \<Longrightarrow> k' \<in> ks \<Longrightarrow> k \<noteq> k' \<Longrightarrow>
        sel_seenOffset (w k) + length (at_key k E) \<le> sel_seenOffset (w k') \<or>
        sel_seenOffset (w k') + length (at_key k' E) \<le> sel_seenOffset (w k)"
    and keys: "\<And>e. e \<in> set E \<Longrightarrow> ev_key e \<in> ks" and len: "length E < 2 ^ 32"
    and pre: "prefix es E"
    and r: "fold arena_ev es (arena0, chosen) = (arena, ch)"
  shows "length arena = length arena0 \<and> (\<forall>k\<in>ks.
      map_of ch k = Some ((w k)\<lparr> sel_seenCursor := length (at_key k es) \<rparr>) \<and>
      (\<forall>j<length (at_key k es). arena ! (sel_seenOffset (w k) + j) = fst (at_key k es ! j)))"
  using pre r
proof (induction es arbitrary: arena ch rule: rev_induct)
  case Nil
  have "(w k)\<lparr> sel_seenCursor := 0 \<rparr> = w k" if "k \<in> ks" for k using chosen [OF that] by (cases "w k") simp
  then show ?case using Nil chosen by auto
next
  case (snoc e es)
  obtain a c where f: "fold arena_ev es (arena0, chosen) = (a, c)" by fastforce
  have pre: "prefix es E" using snoc.prems(1) by (auto simp: prefix_def)
  note IH = snoc.IH [OF pre f]
  let ?k = "ev_key e"
  have ek: "?k \<in> ks" using snoc.prems(1) keys [of e] by (auto simp: prefix_def)
  let ?n = "\<lambda>k. length (at_key k es)"
  have lt: "?n ?k < length (at_key ?k E)" using snoc.prems(1) by (auto simp: prefix_def)
  have small: "?n ?k + 1 < 2 ^ 32" using lt len length_filter_le [of "\<lambda>d. ev_key d = ?k" E] by linarith
  have step: "arena_ev e (a, c) = (arena, ch)" using snoc.prems(2) by (simp add: f)
  have mk: "map_of c ?k = Some ((w ?k)\<lparr> sel_seenCursor := ?n ?k \<rparr>)" using IH ek by simp
  have ar: "arena = a[sel_seenOffset (w ?k) + ?n ?k := fst e]"
    and ch: "ch = AList.update ?k ((w ?k)\<lparr> sel_seenCursor := ?n ?k + 1 \<rparr>) c"
    using step small by (simp_all add: arena_step_def mk)
  have "sel_seenOffset (w ?k) + ?n ?k < length a" using IH chosen [OF ek] lt by simp
  moreover have "sel_seenOffset (w ?k) + ?n ?k \<noteq> sel_seenOffset (w k) + j" if "k \<in> ks" "j < ?n k" "k \<noteq> ?k" for k j
  proof -
    have "?n k \<le> length (at_key k E)" using pre by (auto simp: prefix_def)
    then show ?thesis using disjoint [OF that(1) ek that(3)] that(2) lt by linarith
  qed
  ultimately show ?case unfolding ar ch using IH by (auto simp: nth_list_update nth_append less_Suc_eq)
qed

lemma sum_list_filter_key:
  assumes "distinct ks" "f ` set xs \<subseteq> set ks"
  shows "sum_list (map (\<lambda>k. length (filter (\<lambda>x. f x = k) xs)) ks) = length xs"
proof -
  have "sum_list (map (\<lambda>k. length (filter (\<lambda>x. f x = k) xs)) ks) = (\<Sum>k\<in>set ks. length (filter (\<lambda>x. f x = k) xs))"
    using assms(1) by (simp add: sum_list_distinct_conv_sum_set)
  also have "\<dots> = length xs" using assms(2)
  proof (induction xs)
    case (Cons x xs)
    have "(\<Sum>k\<in>set ks. length (filter (\<lambda>x. f x = k) (x # xs))) =
        (\<Sum>k\<in>set ks. length (filter (\<lambda>x. f x = k) xs) + (if f x = k then 1 else 0))"
      by (intro sum.cong) auto
    also have "\<dots> = length xs + 1" using Cons by (simp add: sum.distrib)
    finally show ?case by simp
  qed simp
  finally show ?thesis .
qed

section \<open>The aggregate\<close>

text \<open>What the aggregated entry of an address is, given the observations of that address.\<close>

definition item_ok :: "event list \<Rightarrow> aircraft \<Rightarrow> bool" where
  "item_ok es a \<longleftrightarrow> (\<exists>b. best_of es b \<and>
     (if EmergencyActive (ev_aircraft b) \<or> (\<forall>e\<in>set es. \<not> EmergencyActive (ev_aircraft e))
      then a = (ev_aircraft b)\<lparr> ac_SeenBy := map fst es \<rparr>
      else \<exists>e. latest_emergency es e \<and> a = (ev_aircraft b)\<lparr> ac_Emergency := ac_Emergency (ev_aircraft e),
             ac_Squawk := ac_Squawk (ev_aircraft e), ac_SeenBy := map fst es \<rparr>))"

lemma ev_aircraft_sel: "sn_Aircraft (fst (snd e)) ! snd (snd e) = ev_aircraft e"
  by (simp add: ev_aircraft_def split: prod.splits)

lemma finish_item_ok:
  assumes "selected_ok es v" "take (length es) (drop (sel_seenOffset v') arena) = map fst es"
    and "v' = v\<lparr> sel_seenOffset := o', sel_seenCursor := c' \<rparr>"
  shows "item_ok es (finish_item arena v')"
proof -
  obtain b where b: "best_of es b" "sn_Aircraft (sel_snapshot v) ! sel_aircraftIndex v = ev_aircraft b"
    using assms(1) by (auto simp: selected_ok_def ev_aircraft_def)
  have n: "sel_seenCount v = length es" using assms(1) by (simp add: selected_ok_def)
  show ?thesis
  proof (cases "sel_emergencySnapshot v")
    case None
    then have "\<forall>e\<in>set es. \<not> EmergencyActive (ev_aircraft e)" using assms(1) by (simp add: selected_ok_def)
    then show ?thesis unfolding item_ok_def using b None n assms(2,3)
      by (intro exI [of _ b]) (simp add: finish_item_def Let_def)
  next
    case (Some s)
    then obtain e where e: "latest_emergency es e" "s = fst (snd e)" "sel_emergencyIndex v = snd (snd e)"
      using assms(1) by (auto simp: selected_ok_def)
    then have "\<not> (\<forall>e\<in>set es. \<not> EmergencyActive (ev_aircraft e))" by (auto simp: latest_emergency_def)
    then show ?thesis unfolding item_ok_def using b Some n assms(2,3) e
      by (intro exI [of _ b]) (auto simp: finish_item_def Let_def ev_aircraft_sel simp del: split_paired_Ex)
  qed
qed

lemma events_ok:
  assumes "length (events inputs) < 2 ^ 32" "e \<in> set (events inputs)"
  shows "ev_ok e"
proof -
  obtain d s where i: "(d, s) \<in> set inputs" "fst (snd e) = s" "snd (snd e) < length (sn_Aircraft s)"
    using assms(2) by (auto simp: events_def input_events_def)
  obtain ys zs where "inputs = ys @ (d, s) # zs" using i(1) by (meson split_list)
  then have "length (sn_Aircraft s) \<le> length (events inputs)" by (simp add: events_def input_events_def)
  then show ?thesis using i assms(1) by (auto simp: ev_ok_def split: prod.splits)
qed

lemma aggregate_aircraft_spec:
  assumes "length (events inputs) < 2 ^ 32" "aggregate_aircraft inputs = (keys, as)"
  shows "sorted_wrt (<) keys \<and> set keys = ev_key ` set (events inputs) \<and>
    list_all2 (\<lambda>k a. item_ok (at_key k (events inputs)) a) keys as"
proof -
  let ?E = "events inputs" and ?n = "\<lambda>k. length (at_key k (events inputs))"
  obtain chosen keys0 where f1: "fold observe_ev ?E ([], []) = (chosen, keys0)" by fastforce
  have ks: "keys = sort keys0" and kmem: "set keys = ev_key ` set ?E" and dk: "distinct keys"
    using fold_observe [OF f1] assms(2) f1
    by (auto simp: aggregate_aircraft_def fold_observe_events Let_def split: prod.splits)
  have mk: "map_of chosen k = select_events (at_key k ?E)" for k using fold_observe [OF f1] by blast
  have sel: "\<exists>v. map_of chosen k = Some v \<and> selected_ok (at_key k ?E) v" if k: "k \<in> set keys" for k
  proof -
    have ne: "at_key k ?E \<noteq> []" using k unfolding kmem filter_empty_conv by blast
    have "\<forall>e\<in>set (at_key k ?E). ev_ok e" using events_ok [OF assms(1)] by simp
    moreover have "?n k < 2 ^ 32" using assms(1) length_filter_le le_less_trans by blast
    ultimately show ?thesis unfolding mk by (rule select_events_ok [OF ne])
  qed
  define w where "w k = (the (map_of chosen k))\<lparr> sel_seenOffset := offset_of keys ?n k \<rparr>" for k
  obtain total chosen1 where f2: "fold offset_step keys (0, chosen) = (total, chosen1)" by fastforce
  have tot: "sum_list (map ?n keys) = length ?E" by (rule sum_list_filter_key [OF dk]) (simp add: kmem)
  have cnt: "\<forall>k\<in>set keys. \<exists>v. map_of chosen k = Some v \<and> sel_seenCount v = ?n k"
    using sel by (auto simp: selected_ok_def)
  have off: "total = length ?E" "\<And>k. k \<in> set keys \<Longrightarrow> map_of chosen1 k = Some (w k)"
    using fold_offset [OF dk cnt, of 0] assms(1) tot by (simp_all add: f2 w_def)
  obtain arena chosen2 where f3: "fold arena_ev ?E (replicate total [], chosen1) = (arena, chosen2)" by fastforce
  have cur: "sel_seenCursor (w k) = 0" if "k \<in> set keys" for k
    using sel [OF that] by (auto simp: w_def selected_ok_def)
  have fill: "length arena = total \<and> (\<forall>k\<in>set keys. map_of chosen2 k = Some ((w k)\<lparr> sel_seenCursor := ?n k \<rparr>) \<and>
      (\<forall>j<?n k. arena ! (offset_of keys ?n k + j) = fst (at_key k ?E ! j)))"
    using fold_arena [of "set keys" chosen1 w ?E "replicate total []" ?E arena chosen2, OF _ _ _ assms(1) _ f3]
      off cur offset_of_le [of _ keys ?n] offset_of_disjoint [of _ keys _ ?n] kmem tot
    by (simp add: w_def)
  have item: "item_ok (at_key k ?E) (finish_item arena (the (map_of chosen2 k)))" if k: "k \<in> set keys" for k
  proof -
    obtain v where v: "map_of chosen k = Some v" "selected_ok (at_key k ?E) v" using sel [OF k] by blast
    have "take (?n k) (drop (offset_of keys ?n k) arena) = map fst (at_key k ?E)"
      using fill k offset_of_le [OF k, of ?n] tot off(1) by (intro nth_equalityI) simp_all
    then show ?thesis using fill k v
      by (intro finish_item_ok [where v = v and o' = "offset_of keys ?n k" and c' = "?n k"]) (simp_all add: w_def)
  qed
  have "as = map (\<lambda>k. finish_item arena (the (map_of chosen2 k))) keys"
    using assms(2) f1 f2 f3
    by (simp add: aggregate_aircraft_def fold_observe_events fold_arena_events ks Let_def)
  then show ?thesis using item kmem dk by (auto simp: ks list_all2_map2 list_all2_same strict_sorted_iff)
qed

section \<open>The registry\<close>

definition entry_ok :: "feeder_id \<Rightarrow> feeder_entry \<Rightarrow> bool" where
  "entry_ok i e \<longleftrightarrow> fd_ID (fe_descriptor e) = i \<and> i \<noteq> FeederAll \<and>
     (\<forall>s. fe_snapshot e = Some s \<longrightarrow> canonical_list (sn_Aircraft s) \<and> sn_FeederID s = i)"

definition feeders_wf :: "feeders \<Rightarrow> bool" where
  "feeders_wf fs \<longleftrightarrow> gm_wf fs \<and> (\<forall>i e. map_of fs i = Some e \<longrightarrow> entry_ok i e)"

definition contributes :: "feeders \<Rightarrow> feeder_id \<Rightarrow> snapshot \<Rightarrow> bool" where
  "contributes fs i s \<longleftrightarrow> (\<exists>e. map_of fs i = Some e \<and> fd_Enabled (fe_descriptor e) \<and> fe_snapshot e = Some s)"

definition small :: "feeders \<Rightarrow> bool" where
  "small fs \<longleftrightarrow> length (events (read_inputs fs)) < 2 ^ 32"

lemma input_of_Some:
  "input_of e = Some (d, s) \<longleftrightarrow> fe_descriptor e = d \<and> fd_Enabled d \<and> fe_snapshot e = Some s"
  by (auto simp: input_of_def split: option.splits)

lemma set_read_inputs:
  assumes "feeders_wf fs"
  shows "(d, s) \<in> set (read_inputs fs) \<longleftrightarrow> contributes fs (fd_ID d) s \<and> fe_descriptor (the (map_of fs (fd_ID d))) = d"
proof -
  have "(d, s) \<in> set (read_inputs fs) \<longleftrightarrow> (\<exists>i e. (i, e) \<in> set fs \<and> input_of e = Some (d, s))"
    by (force simp: read_inputs_def map_filter_def)
  also have "\<dots> \<longleftrightarrow> (\<exists>i e. map_of fs i = Some e \<and> fe_descriptor e = d \<and> fd_Enabled d \<and> fe_snapshot e = Some s)"
    using assms by (simp add: feeders_wf_def gm_wf_mem input_of_Some)
  finally show ?thesis using assms by (auto simp: contributes_def feeders_wf_def entry_ok_def)
qed

lemma distinct_map_filter_inputs:
  assumes "distinct (map fst gs)" "\<forall>(i, e)\<in>set gs. fd_ID (fe_descriptor e) = i"
  shows "distinct (map (\<lambda>(d, _). fd_ID d) (List.map_filter (\<lambda>(_, entry). input_of entry) gs)) \<and>
    (\<lambda>(d, _). fd_ID d) ` set (List.map_filter (\<lambda>(_, entry). input_of entry) gs) \<subseteq> fst ` set gs"
  using assms
proof (induction gs)
  case (Cons x gs)
  obtain i e where x: "x = (i, e)" by (cases x)
  show ?case
  proof (cases "input_of e")
    case None
    then show ?thesis using Cons x by (auto simp: List.map_filter_simps)
  next
    case (Some p)
    then obtain d s where p: "p = (d, s)" by (cases p)
    with Some Cons.prems(2) x have di: "fd_ID d = i" by (simp add: input_of_Some)
    have IH: "distinct (map (\<lambda>(d, _). fd_ID d) (List.map_filter (\<lambda>(_, entry). input_of entry) gs))"
      "(\<lambda>(d, _). fd_ID d) ` set (List.map_filter (\<lambda>(_, entry). input_of entry) gs) \<subseteq> fst ` set gs"
      using Cons by simp_all
    then have "i \<notin> (\<lambda>(d, _). fd_ID d) ` set (List.map_filter (\<lambda>(_, entry). input_of entry) gs)"
      using Cons.prems(1) x by auto
    then show ?thesis using IH x Some p di by (auto simp: List.map_filter_simps)
  qed
qed (simp add: List.map_filter_simps)

lemma distinct_read_inputs:
  assumes "feeders_wf fs"
  shows "sorted_wrt (<) (map (\<lambda>(d, _). fd_ID d) (read_inputs fs))"
proof -
  have "\<forall>(i, e)\<in>set fs. fd_ID (fe_descriptor e) = i"
    using assms by (auto simp: feeders_wf_def entry_ok_def gm_wf_mem)
  then have "distinct (map (\<lambda>(d, _). fd_ID d) (List.map_filter (\<lambda>(_, entry). input_of entry) fs))"
    using assms distinct_map_filter_inputs by (auto simp: feeders_wf_def gm_wf_def)
  then have "distinct (map (\<lambda>(d, _). fd_ID d) (read_inputs fs))"
    unfolding read_inputs_def distinct_map distinct_sort set_sort .
  moreover have "sorted (map (\<lambda>(d, _). fd_ID d) (read_inputs fs))"
    unfolding read_inputs_def by (rule sorted_sort_key)
  ultimately show ?thesis by (simp add: strict_sorted_iff)
qed

lemma input_mem:
  assumes "feeders_wf fs"
  shows "(\<exists>d. (d, s) \<in> set (read_inputs fs) \<and> fd_ID d = i) \<longleftrightarrow> contributes fs i s"
proof
  assume "contributes fs i s"
  then obtain e where e: "map_of fs i = Some e" "fd_ID (fe_descriptor e) = i" "contributes fs i s"
    using assms by (auto simp: contributes_def feeders_wf_def entry_ok_def)
  then have "(fe_descriptor e, s) \<in> set (read_inputs fs)" by (simp add: set_read_inputs [OF assms])
  with e show "\<exists>d. (d, s) \<in> set (read_inputs fs) \<and> fd_ID d = i" by blast
qed (auto simp: set_read_inputs [OF assms])

lemma event_mem:
  assumes "feeders_wf fs"
  shows "(i, s, j) \<in> set (events (read_inputs fs)) \<longleftrightarrow> contributes fs i s \<and> j < length (sn_Aircraft s)"
proof -
  have "(i, s, j) \<in> set (events (read_inputs fs)) \<longleftrightarrow>
      (\<exists>d. (d, s) \<in> set (read_inputs fs) \<and> fd_ID d = i \<and> j < length (sn_Aircraft s))"
    by (force simp: events_def input_events_def)
  also have "\<dots> \<longleftrightarrow> contributes fs i s \<and> j < length (sn_Aircraft s)"
    using input_mem [OF assms, of s i] by blast
  finally show ?thesis .
qed

lemma contributes_canonical: "feeders_wf fs \<Longrightarrow> contributes fs i s \<Longrightarrow> canonical_list (sn_Aircraft s)"
  by (auto simp: feeders_wf_def contributes_def entry_ok_def)

lemma filter_key_length:
  "distinct (map f xs) \<Longrightarrow> length (filter (\<lambda>x. f x = k) xs) = (if k \<in> f ` set xs then 1 else 0)"
  by (induction xs) (auto simp: filter_empty_conv)

lemma filter_nth_length: "length (filter (\<lambda>i. P (xs ! i)) [0..<length xs]) = length (filter P xs)"
  using length_map [of "(!) xs" "filter (\<lambda>i. P (xs ! i)) [0..<length xs]"]
    filter_map [of P "(!) xs" "[0..<length xs]"] by (simp add: map_nth comp_def)

lemma at_key_input:
  assumes "canonical_list (sn_Aircraft s)"
  shows "map fst (at_key k (input_events (d, s))) = (if k \<in> ac_ICAO ` set (sn_Aircraft s) then [fd_ID d] else [])"
proof -
  let ?is = "filter (\<lambda>i. ac_ICAO (sn_Aircraft s ! i) = k) [0..<length (sn_Aircraft s)]"
  have "map fst (at_key k (input_events (d, s))) = map (\<lambda>_. fd_ID d) ?is"
    by (simp add: input_events_def filter_map comp_def ev_key_def ev_aircraft_def)
  moreover have "length ?is = (if k \<in> ac_ICAO ` set (sn_Aircraft s) then 1 else 0)"
    using filter_key_length [OF canonical_distinct [OF assms]] 
    by (simp only: filter_nth_length [of "\<lambda>a. ac_ICAO a = k" "sn_Aircraft s"])
  ultimately show ?thesis by (simp add: map_replicate_const split: if_splits)
qed

lemma seen_by_inputs:
  assumes "\<forall>(d, s)\<in>set inputs. canonical_list (sn_Aircraft s)"
  shows "map fst (at_key k (events inputs)) =
     map (\<lambda>(d, _). fd_ID d) (filter (\<lambda>(_, s). k \<in> ac_ICAO ` set (sn_Aircraft s)) inputs)"
  using assms
proof (induction inputs)
  case (Cons input inputs)
  obtain d s where i: "input = (d, s)" by (cases input)
  then show ?case using Cons at_key_input [of s k d] by (simp add: events_def)
qed (simp add: events_def)

lemma selected_ids:
  "set (map (\<lambda>(d, _). g d) (filter (\<lambda>(_, s). P s) xs)) = {i. \<exists>s. (\<exists>d. (d, s) \<in> set xs \<and> g d = i) \<and> P s}"
  by force

lemma seen_by:
  fixes fs k
  assumes "feeders_wf fs"
  defines "ids \<equiv> map fst (at_key k (events (read_inputs fs)))"
  shows "sorted_wrt (<) ids \<and> set ids = {i. \<exists>s. contributes fs i s \<and> k \<in> ac_ICAO ` set (sn_Aircraft s)}"
proof -
  have c: "\<forall>(d, s)\<in>set (read_inputs fs). canonical_list (sn_Aircraft s)"
    using assms(1) contributes_canonical by (auto simp: set_read_inputs)
  have ids: "ids = map (\<lambda>(d, _). fd_ID d) (filter (\<lambda>(_, s). k \<in> ac_ICAO ` set (sn_Aircraft s)) (read_inputs fs))"
    unfolding ids_def by (rule seen_by_inputs [OF c])
  then have "sorted_wrt (<) ids"
    using distinct_read_inputs [OF assms(1)] by (simp add: sorted_wrt_map sorted_wrt_filter)
  moreover have "set ids = {i. \<exists>s. contributes fs i s \<and> k \<in> ac_ICAO ` set (sn_Aircraft s)}"
    unfolding ids input_mem [OF assms(1), symmetric] by (rule selected_ids)
  ultimately show ?thesis ..
qed

section \<open>The aggregate snapshot\<close>

lemma item_ok_icao: "item_ok (at_key k es) a \<Longrightarrow> ac_ICAO a = k"
  by (auto simp: item_ok_def best_of_def ev_key_def split: if_splits)

lemma aggregate_sel:
  assumes "aggregate_aircraft (read_inputs fs) = (keys, as)"
  shows "sn_Aircraft (aggregate fs seq now) = as"
    "sn_ByICAO (aggregate fs seq now) = fold (\<lambda>(k, v). AList.update k v) (zip keys (map int [0..<length keys])) []"
    "sn_Search (aggregate fs seq now) =
       sort (map (\<lambda>(icao, item). AircraftKey icao (ac_Callsign item) (ac_Registration item)) (zip keys as))"
  using assms by (simp_all add: aggregate_def Let_def)

lemma aggregate_items:
  assumes "feeders_wf fs" "small fs"
  shows "snapshot_wf (aggregate fs seq now) \<and>
    ac_ICAO ` set (sn_Aircraft (aggregate fs seq now)) = ev_key ` set (events (read_inputs fs)) \<and>
    (\<forall>a\<in>set (sn_Aircraft (aggregate fs seq now)). item_ok (at_key (ac_ICAO a) (events (read_inputs fs))) a)"
proof -
  let ?E = "events (read_inputs fs)"
  obtain keys as where ag: "aggregate_aircraft (read_inputs fs) = (keys, as)" by fastforce
  note spec = aggregate_aircraft_spec [OF assms(2) [unfolded small_def] ag]
  have keys: "map ac_ICAO as = keys"
  proof (rule nth_equalityI)
    show "length (map ac_ICAO as) = length keys" using spec list_all2_lengthD by fastforce
  next
    fix i assume i: "i < length (map ac_ICAO as)"
    then have "item_ok (at_key (keys ! i) ?E) (as ! i)" using spec by (simp add: list_all2_conv_all_nth)
    then show "map ac_ICAO as ! i = keys ! i" using i by (simp add: item_ok_icao)
  qed
  have item: "item_ok (at_key (ac_ICAO a) ?E) a" if "a \<in> set as" for a
    using that spec keys by (auto simp: in_set_conv_nth list_all2_conv_all_nth)
  have "canonical_icao (ev_key e)" if "e \<in> set ?E" for e
  proof -
    obtain i s j where e: "e = (i, s, j)" by (cases e)
    then have "canonical_list (sn_Aircraft s)" "j < length (sn_Aircraft s)"
      using that event_mem [OF assms(1)] contributes_canonical [OF assms(1)] by auto
    then show ?thesis by (simp add: e ev_key_def ev_aircraft_def canonical_list_def list_all_length)
  qed
  then have "\<forall>k\<in>ev_key ` set ?E. canonical_icao k" unfolding ball_simps(9) by (intro ballI)
  then have "\<forall>k\<in>set keys. canonical_icao k" using spec by simp
  moreover have "ac_ICAO a \<in> set keys" if "a \<in> set as" for a using that keys by (metis image_eqI set_map)
  ultimately have "\<forall>a\<in>set as. canonical_icao (ac_ICAO a)" by blast
  then have can: "canonical_list as" using spec by (simp add: canonical_list_def list_all_iff keys)
  have "zip keys as = map (\<lambda>a. (ac_ICAO a, a)) as" by (simp add: keys [symmetric] zip_map1 zip_same_conv_map)
  then have "sn_Search (aggregate fs seq now) = sort (map aircraft_key_of as)"
    by (simp add: aggregate_sel(3) [OF ag] aircraft_key_of_def [abs_def] comp_def)
  moreover have "zip keys (map int [0..<length keys]) = index_of as" using keys by (auto simp: index_of_def)
  ultimately have "snapshot_wf (aggregate fs seq now)"
    using can by (simp add: snapshot_wf_def aggregate_sel [OF ag] fold_update_index canonical_distinct)
  then show ?thesis using spec keys item by (simp add: aggregate_sel [OF ag] flip: set_map)
qed

lemma aggregate_lookup_item:
  assumes "feeders_wf fs" "small fs" "LookupICAO (Some (aggregate fs seq now)) k = Some a"
  shows "item_ok (at_key k (events (read_inputs fs))) a"
proof -
  have "a \<in> set (sn_Aircraft (aggregate fs seq now))" "ac_ICAO a = k"
    using LookupICAO_wf [of "aggregate fs seq now" k a] aggregate_items [OF assms(1,2), of seq now] assms(3) by simp_all
  then show ?thesis using aggregate_items [OF assms(1,2), of seq now] by blast
qed

lemma aggregate_lookup_None:
  assumes "feeders_wf fs" "small fs"
  shows "LookupICAO (Some (aggregate fs seq now)) k = None \<longleftrightarrow>
    (\<forall>i s. contributes fs i s \<longrightarrow> k \<notin> ac_ICAO ` set (sn_Aircraft s))"
proof -
  let ?s = "aggregate fs seq now"
  have "LookupICAO (Some ?s) k = None \<longleftrightarrow> k \<notin> ac_ICAO ` set (sn_Aircraft ?s)"
    using LookupICAO_None aggregate_items [OF assms] by blast
  also have "\<dots> \<longleftrightarrow> k \<notin> ev_key ` set (events (read_inputs fs))" using aggregate_items [OF assms, of seq now] by simp
  also have "k \<in> ev_key ` set (events (read_inputs fs)) \<longleftrightarrow> set (map fst (at_key k (events (read_inputs fs)))) \<noteq> {}"
    by (auto simp: filter_empty_conv)
  finally show ?thesis unfolding seen_by [OF assms(1), of k, THEN conjunct2] by blast
qed

lemma at_key_event:
  assumes "feeders_wf fs" "e \<in> set (at_key k (events (read_inputs fs)))"
  shows "contributes fs (fst e) (fst (snd e)) \<and> ev_aircraft e \<in> set (sn_Aircraft (fst (snd e))) \<and> ac_ICAO (ev_aircraft e) = k"
  using assms event_mem [OF assms(1), of "fst e" "fst (snd e)" "snd (snd e)"]
  by (cases e) (auto simp: ev_key_def ev_aircraft_def)

lemma event_at_key:
  assumes "feeders_wf fs" "contributes fs i s" "b \<in> set (sn_Aircraft s)"
  shows "\<exists>e\<in>set (at_key (ac_ICAO b) (events (read_inputs fs))). fst e = i \<and> fst (snd e) = s \<and> ev_aircraft e = b"
proof -
  obtain j where "j < length (sn_Aircraft s)" "sn_Aircraft s ! j = b" using assms(3) by (auto simp: in_set_conv_nth)
  then show ?thesis using assms event_mem [OF assms(1), of i s j]
    by (intro bexI [of _ "(i, s, j)"]) (auto simp: ev_key_def ev_aircraft_def)
qed

section \<open>Claims about the aggregate\<close>

text \<open>
  C1. The community view. An address is in the aggregate exactly when some enabled feeder's
  snapshot has it; the entry is, up to the emergency fields and \<open>SeenBy\<close>, an observation of
  an enabled feeder that no other observation of that address beats (later seen, then with a
  position, then more messages). The aggregate is a well-formed snapshot.
\<close>

theorem aggregate_lookup:
  assumes "feeders_wf fs" "small fs"
  shows "snapshot_wf (aggregate fs seq now) \<and>
    (LookupICAO (Some (aggregate fs seq now)) k = None \<longleftrightarrow>
      (\<forall>i s. contributes fs i s \<longrightarrow> k \<notin> ac_ICAO ` set (sn_Aircraft s))) \<and>
    (\<forall>a. LookupICAO (Some (aggregate fs seq now)) k = Some a \<longrightarrow>
      (\<exists>i s b. contributes fs i s \<and> b \<in> set (sn_Aircraft s) \<and> ac_ICAO b = k \<and>
         a = b\<lparr> ac_Emergency := ac_Emergency a, ac_Squawk := ac_Squawk a, ac_SeenBy := ac_SeenBy a \<rparr> \<and>
         (\<forall>i' s' b'. contributes fs i' s' \<and> b' \<in> set (sn_Aircraft s') \<and> ac_ICAO b' = k \<longrightarrow>
            \<not> betterObservationAt b' (seen_at s' b') b (seen_at s b))))"
proof (intro conjI allI impI)
  show "snapshot_wf (aggregate fs seq now)" using aggregate_items [OF assms] by blast
  show "LookupICAO (Some (aggregate fs seq now)) k = None \<longleftrightarrow>
      (\<forall>i s. contributes fs i s \<longrightarrow> k \<notin> ac_ICAO ` set (sn_Aircraft s))" by (rule aggregate_lookup_None [OF assms])
next
  fix a assume "LookupICAO (Some (aggregate fs seq now)) k = Some a"
  then have "item_ok (at_key k (events (read_inputs fs))) a" by (rule aggregate_lookup_item [OF assms])
  then obtain b where b: "best_of (at_key k (events (read_inputs fs))) b"
    "a = (ev_aircraft b)\<lparr> ac_Emergency := ac_Emergency a, ac_Squawk := ac_Squawk a, ac_SeenBy := ac_SeenBy a \<rparr>"
    by (auto simp: item_ok_def split: if_splits)
  have "\<not> betterObservationAt b' (seen_at s' b') (ev_aircraft b) (seen_at (fst (snd b)) (ev_aircraft b))"
    if c: "contributes fs i' s' \<and> b' \<in> set (sn_Aircraft s') \<and> ac_ICAO b' = k" for i' s' b'
  proof -
    obtain e where e: "e \<in> set (at_key k (events (read_inputs fs)))" "fst (snd e) = s'" "ev_aircraft e = b'"
      using event_at_key [OF assms(1)] c by blast
    then have "\<not> ev_rank b < ev_rank e" using b(1) unfolding best_of_def by blast
    then show ?thesis using better_rank [of e b] unfolding ev_at_def e(2,3) by blast
  qed
  moreover have "b \<in> set (at_key k (events (read_inputs fs)))" using b(1) by (simp add: best_of_def)
  ultimately show "\<exists>i s b. contributes fs i s \<and> b \<in> set (sn_Aircraft s) \<and> ac_ICAO b = k \<and>
         a = b\<lparr> ac_Emergency := ac_Emergency a, ac_Squawk := ac_Squawk a, ac_SeenBy := ac_SeenBy a \<rparr> \<and>
         (\<forall>i' s' b'. contributes fs i' s' \<and> b' \<in> set (sn_Aircraft s') \<and> ac_ICAO b' = k \<longrightarrow>
            \<not> betterObservationAt b' (seen_at s' b') b (seen_at s b))"
    using at_key_event [OF assms(1), of b k] b(2)
    by (intro exI [of _ "fst b"] exI [of _ "fst (snd b)"] exI [of _ "ev_aircraft b"]) blast
qed

lemma EmergencyActive_cong:
  "ac_Emergency a = ac_Emergency b \<Longrightarrow> ac_Squawk a = ac_Squawk b \<Longrightarrow> EmergencyActive a = EmergencyActive b"
  by (simp add: EmergencyActive_def)

lemma item_ok_emergency:
  assumes "item_ok es a"
  shows "(EmergencyActive a \<longleftrightarrow> (\<exists>e\<in>set es. EmergencyActive (ev_aircraft e))) \<and>
    (\<exists>e\<in>set es. ac_Emergency a = ac_Emergency (ev_aircraft e) \<and> ac_Squawk a = ac_Squawk (ev_aircraft e)) \<and>
    ac_SeenBy a = map fst es"
proof -
  obtain b where b: "b \<in> set es" "if EmergencyActive (ev_aircraft b) \<or> (\<forall>e\<in>set es. \<not> EmergencyActive (ev_aircraft e))
      then a = (ev_aircraft b)\<lparr> ac_SeenBy := map fst es \<rparr>
      else \<exists>e. latest_emergency es e \<and> a = (ev_aircraft b)\<lparr> ac_Emergency := ac_Emergency (ev_aircraft e),
             ac_Squawk := ac_Squawk (ev_aircraft e), ac_SeenBy := map fst es \<rparr>"
    using assms by (auto simp: item_ok_def best_of_def)
  show ?thesis
  proof (cases "EmergencyActive (ev_aircraft b) \<or> (\<forall>e\<in>set es. \<not> EmergencyActive (ev_aircraft e))")
    case True
    then have a: "a = (ev_aircraft b)\<lparr> ac_SeenBy := map fst es \<rparr>" using b(2) by simp
    then have "EmergencyActive a = EmergencyActive (ev_aircraft b)" by (simp add: EmergencyActive_def)
    moreover have "ac_Emergency a = ac_Emergency (ev_aircraft b) \<and> ac_Squawk a = ac_Squawk (ev_aircraft b) \<and>
      ac_SeenBy a = map fst es" using a by simp
    ultimately show ?thesis using True b(1) by blast
  next
    case False
    then obtain e where l: "latest_emergency es e" and a: "a = (ev_aircraft b)\<lparr> ac_Emergency := ac_Emergency (ev_aircraft e),
             ac_Squawk := ac_Squawk (ev_aircraft e), ac_SeenBy := map fst es \<rparr>"
      using b(2) unfolding if_not_P [OF False] by blast
    have e: "ac_Emergency a = ac_Emergency (ev_aircraft e)" "ac_Squawk a = ac_Squawk (ev_aircraft e)"
      "ac_SeenBy a = map fst es" using a by simp_all
    then have "EmergencyActive a = EmergencyActive (ev_aircraft e)" by (intro EmergencyActive_cong) simp_all
    moreover have "e \<in> set es" "EmergencyActive (ev_aircraft e)" using l by (simp_all add: latest_emergency_def)
    ultimately show ?thesis using e by blast
  qed
qed

text \<open>
  C2. Emergencies survive aggregation. The aggregated aircraft is in an emergency exactly
  when some enabled feeder observes the address in an emergency, even when a fresher
  observation of another feeder does not show it, and its squawk and emergency code are those
  of one and the same observation.
\<close>

theorem aggregate_emergency:
  assumes "feeders_wf fs" "small fs" "LookupICAO (Some (aggregate fs seq now)) k = Some a"
  shows "(EmergencyActive a \<longleftrightarrow>
      (\<exists>i s b. contributes fs i s \<and> b \<in> set (sn_Aircraft s) \<and> ac_ICAO b = k \<and> EmergencyActive b)) \<and>
    (\<exists>i s b. contributes fs i s \<and> b \<in> set (sn_Aircraft s) \<and> ac_ICAO b = k \<and>
       ac_Emergency a = ac_Emergency b \<and> ac_Squawk a = ac_Squawk b)"
proof -
  let ?es = "at_key k (events (read_inputs fs))"
  note it = item_ok_emergency [OF aggregate_lookup_item [OF assms]]
  have "(\<exists>e\<in>set ?es. EmergencyActive (ev_aircraft e)) \<longleftrightarrow>
      (\<exists>i s b. contributes fs i s \<and> b \<in> set (sn_Aircraft s) \<and> ac_ICAO b = k \<and> EmergencyActive b)"
    using at_key_event [OF assms(1), of _ k] event_at_key [OF assms(1)] by metis
  moreover obtain e where "e \<in> set ?es" "ac_Emergency a = ac_Emergency (ev_aircraft e)" "ac_Squawk a = ac_Squawk (ev_aircraft e)"
    using it by blast
  ultimately show ?thesis using it at_key_event [OF assms(1), of e k] by blast
qed

text \<open>\<open>SeenBy\<close>. The slice of the shared arena that an aggregated aircraft holds lists,
  sorted and without repetition, exactly the enabled feeders whose snapshot has its address.
\<close>

theorem aggregate_seen_by:
  assumes "feeders_wf fs" "small fs" "LookupICAO (Some (aggregate fs seq now)) k = Some a"
  shows "sorted_wrt (<) (ac_SeenBy a) \<and>
    set (ac_SeenBy a) = {i. \<exists>s. contributes fs i s \<and> k \<in> ac_ICAO ` set (sn_Aircraft s)}"
  using item_ok_emergency [OF aggregate_lookup_item [OF assms]] seen_by [OF assms(1), of k] by simp

section \<open>The registry and the coalescing loop\<close>

definition manager_ok :: "feeder_manager \<Rightarrow> bool" where
  "manager_ok m \<longleftrightarrow> feeders_wf (fm_feeders m) \<and> (\<forall>s. fm_current m = Some s \<longrightarrow> snapshot_wf s)"

lemma feeders_wf_update: "feeders_wf fs \<Longrightarrow> entry_ok i e \<Longrightarrow> feeders_wf (AList.update i e fs)"
  by (auto simp: feeders_wf_def)

lemma feeders_wf_delete: "feeders_wf fs \<Longrightarrow> feeders_wf (AList.delete i fs)"
  by (auto simp: feeders_wf_def)

lemma Register_wf: "feeders_wf (fm_feeders m) \<Longrightarrow> feeders_wf (fm_feeders (snd (Register d m)))"
  by (auto simp: Register_def Let_def markDirty_def feeders_wf_def entry_ok_def split: sum.splits option.splits)

lemma Remove_wf: "feeders_wf (fm_feeders m) \<Longrightarrow> feeders_wf (fm_feeders (Remove i m))"
  by (simp add: Remove_def markDirty_def feeders_wf_delete)

lemma Publish_cases:
  obtains (no) "Publish i snap m = (False, m)"
  | (yes) s entry where "snap = Some s" "canonical_list (sn_Aircraft s)" "map_of (fm_feeders m) i = Some entry"
      "fd_Enabled (fe_descriptor entry)" "fst (Publish i snap m)"
      "fm_feeders (snd (Publish i snap m)) =
         AList.update i (entry\<lparr> fe_snapshot := Some (s\<lparr> sn_FeederID := i, sn_Feeders := [] \<rparr>) \<rparr>) (fm_feeders m)"
      "fm_dirty (snd (Publish i snap m))" "fm_current (snd (Publish i snap m)) = fm_current m"
proof (cases "\<exists>s entry. snap = Some s \<and> canonical_list (sn_Aircraft s) \<and> map_of (fm_feeders m) i = Some entry \<and>
    fd_Enabled (fe_descriptor entry)")
  case True
  then obtain s entry where "snap = Some s" "canonical_list (sn_Aircraft s)" "map_of (fm_feeders m) i = Some entry"
    "fd_Enabled (fe_descriptor entry)" by blast
  then show thesis
    by (intro yes [of s entry]) (simp_all add: Publish_def validSnapshotAircraft_iff Let_def markDirty_def)
next
  case False
  then show thesis
    by (intro no) (auto simp: Publish_def validSnapshotAircraft_iff split: option.splits)
qed

lemma Publish_wf: "feeders_wf (fm_feeders m) \<Longrightarrow> feeders_wf (fm_feeders (snd (Publish i snap m)))"
  by (cases rule: Publish_cases [of i snap m]) (auto intro!: feeders_wf_update simp: feeders_wf_def entry_ok_def)

lemma rebuild_store_ok: "manager_ok m \<Longrightarrow> feeders_wf fs \<Longrightarrow> small fs \<Longrightarrow> manager_ok (rebuild_store fs now m)"
  using aggregate_items by (auto simp: manager_ok_def rebuild_store_def Let_def)

interpretation manager_reader: snapshot_reader fm_current manager_ok
  by unfold_locales (simp add: manager_ok_def)

lemma NewFeederManager_ok: "manager_ok (NewFeederManager interval now)"
  by (simp add: manager_ok_def NewFeederManager_def feeders_wf_def emptyAggregate_def snapshot_wf_def)

text \<open>Publication. \<open>Publish\<close> succeeds exactly on a valid snapshot (canonical, strictly
  increasing addresses) for a registered and enabled feeder. A success makes that feeder's
  snapshot the given one with the feeder's own identifier, whatever identifier it carried,
  and leaves every other feeder and the aggregate alone; a refusal changes nothing.
\<close>

theorem publish_isolated:
  "(fst (Publish i snap m) \<longleftrightarrow> (\<exists>s entry. snap = Some s \<and> canonical_list (sn_Aircraft s) \<and>
      map_of (fm_feeders m) i = Some entry \<and> fd_Enabled (fe_descriptor entry))) \<and>
   (\<not> fst (Publish i snap m) \<longrightarrow> snd (Publish i snap m) = m) \<and>
   (fst (Publish i snap m) \<and> i \<noteq> FeederAll \<longrightarrow>
      Feeder i (snd (Publish i snap m)) = (Some ((the snap)\<lparr> sn_FeederID := i, sn_Feeders := [] \<rparr>), True)) \<and>
   (\<forall>j. j \<noteq> i \<longrightarrow> Feeder j (snd (Publish i snap m)) = Feeder j m)"
proof (cases rule: Publish_cases [of i snap m])
  case no
  then have "\<not> (\<exists>s entry. snap = Some s \<and> canonical_list (sn_Aircraft s) \<and>
      map_of (fm_feeders m) i = Some entry \<and> fd_Enabled (fe_descriptor entry))"
    by (auto simp: Publish_def validSnapshotAircraft_iff Let_def)
  with no show ?thesis by simp
next
  case (yes s entry)
  then show ?thesis by (auto simp: Feeder_def Aggregate_def)
qed

definition publish_demo_descriptor :: feeder_descriptor where
  "publish_demo_descriptor = \<lparr> fd_ID = ''roof'', fd_DisplayName = ''Roof'', fd_PublicArea = [], fd_AirportICAO = [],
     fd_WeatherStationICAO = [], fd_Latitude = 0, fd_Longitude = 0, fd_HasCenter = False,
     fd_SourceKind = FeederSourceAgent, fd_Enabled = True \<rparr>"

definition publish_demo_feeders :: feeders where
  "publish_demo_feeders = [(''roof'', \<lparr> fe_descriptor = publish_demo_descriptor,
     fe_snapshot = Some (zero_snapshot\<lparr> sn_FeederID := ''roof'', sn_Aircraft := [zero_aircraft\<lparr> ac_ICAO := ''A1'', ac_Squawk := ''7700'' \<rparr>] \<rparr>) \<rparr>)]"

lemma publish_demo_wf: "feeders_wf publish_demo_feeders" "small publish_demo_feeders"
  "contributes publish_demo_feeders ''roof'' (zero_snapshot\<lparr> sn_FeederID := ''roof'', sn_Aircraft := [zero_aircraft\<lparr> ac_ICAO := ''A1'', ac_Squawk := ''7700'' \<rparr>] \<rparr>)"
proof -
  have "canonical_icao ''A1''" by code_simp
  then show "feeders_wf publish_demo_feeders"
    by (simp add: feeders_wf_def publish_demo_feeders_def gm_wf_def entry_ok_def canonical_list_def publish_demo_descriptor_def)
  show "small publish_demo_feeders"
    by (simp add: small_def publish_demo_feeders_def read_inputs_def List.map_filter_simps input_of_def
        events_def input_events_def publish_demo_descriptor_def)
  show "contributes publish_demo_feeders ''roof'' (zero_snapshot\<lparr> sn_FeederID := ''roof'', sn_Aircraft := [zero_aircraft\<lparr> ac_ICAO := ''A1'', ac_Squawk := ''7700'' \<rparr>] \<rparr>)"
    by (simp add: contributes_def publish_demo_feeders_def publish_demo_descriptor_def)
qed

theorem publish_isolated_witness:
  "fst (Publish ''roof'' (Some zero_snapshot) ((NewFeederManager 0 0)\<lparr> fm_feeders := publish_demo_feeders \<rparr>))"
  using publish_isolated [of "''roof''" "Some zero_snapshot" "(NewFeederManager 0 0)\<lparr> fm_feeders := publish_demo_feeders \<rparr>"]
  by (simp add: publish_demo_feeders_def publish_demo_descriptor_def zero_snapshot_def)

theorem aggregate_lookup_witness:
  "LookupICAO (Some (aggregate publish_demo_feeders 1 0)) ''A1'' \<noteq> None"
  using aggregate_lookup [OF publish_demo_wf(1,2), of 1 0 "''A1''"] publish_demo_wf(3) by fastforce

theorem aggregate_emergency_witness:
  "\<exists>a. LookupICAO (Some (aggregate publish_demo_feeders 1 0)) ''A1'' = Some a \<and> EmergencyActive a"
proof -
  have "LookupICAO (Some (aggregate publish_demo_feeders 1 0)) ''A1'' \<noteq> None"
    using aggregate_lookup_None [OF publish_demo_wf(1,2), of 1 0 "''A1''"] publish_demo_wf(3) by fastforce
  then obtain a where a: "LookupICAO (Some (aggregate publish_demo_feeders 1 0)) ''A1'' = Some a" by auto
  have "EmergencyActive (zero_aircraft\<lparr> ac_ICAO := ''A1'', ac_Squawk := ''7700'' \<rparr>)" by code_simp
  then have "EmergencyActive a"
    using aggregate_emergency [OF publish_demo_wf(1,2) a] publish_demo_wf(3) by fastforce
  with a show ?thesis by blast
qed

theorem aggregate_seen_by_witness:
  "\<exists>a. LookupICAO (Some (aggregate publish_demo_feeders 1 0)) ''A1'' = Some a \<and> ''roof'' \<in> set (ac_SeenBy a)"
proof -
  have "LookupICAO (Some (aggregate publish_demo_feeders 1 0)) ''A1'' \<noteq> None"
    using aggregate_lookup_None [OF publish_demo_wf(1,2), of 1 0 "''A1''"] publish_demo_wf(3) by fastforce
  then obtain a where a: "LookupICAO (Some (aggregate publish_demo_feeders 1 0)) ''A1'' = Some a" by auto
  then show ?thesis using aggregate_seen_by [OF publish_demo_wf(1,2) a] publish_demo_wf(3) by fastforce
qed

definition up_to_date :: "feeder_manager \<Rightarrow> bool" where
  "up_to_date m \<longleftrightarrow> (\<exists>seq now. fm_current m = Some (aggregate (fm_feeders m) seq now))"

definition run_inv :: "manager_run \<Rightarrow> bool" where
  "run_inv s \<longleftrightarrow> feeders_wf (fm_feeders (mr_manager s)) \<and>
     (\<forall>fs. mr_building s = Some fs \<longrightarrow> mr_pending s \<and> (fm_dirty (mr_manager s) \<or> fs = fm_feeders (mr_manager s))) \<and>
     (\<not> fm_dirty (mr_manager s) \<and> \<not> mr_pending s \<longrightarrow> up_to_date (mr_manager s))"

lemma aggregate_empty: "aggregate [] 0 now = emptyAggregate now"
  by (simp add: aggregate_def read_inputs_def List.map_filter_simps aggregate_aircraft_def zero_totals_def
      sorted_summaries_def aggregateHealth_def emptyAggregate_def zero_snapshot_def zero_statistics_def)

lemma manager_init_inv: "run_inv (manager_init interval now)"
proof -
  have "up_to_date (NewFeederManager interval now)"
    unfolding up_to_date_def NewFeederManager_def by (auto simp: aggregate_empty [symmetric])
  then show ?thesis using NewFeederManager_ok [of interval now] by (simp add: run_inv_def manager_init_def manager_ok_def)
qed

lemma Register_dirty: "snd (Register d m) = m \<or> fm_dirty (snd (Register d m))"
  by (auto simp: Register_def Let_def markDirty_def split: sum.splits)

lemma Publish_dirty: "snd (Publish i snap m) = m \<or> fm_dirty (snd (Publish i snap m))"
  by (cases rule: Publish_cases [of i snap m]) simp_all

lemma manager_step_inv: "manager_step s t \<Longrightarrow> run_inv s \<Longrightarrow> run_inv t"
proof (induction rule: manager_step.induct)
  case (register s d)
  then show ?case using Register_wf [of "mr_manager s" d] Register_dirty [of d "mr_manager s"] by (auto simp: run_inv_def)
next
  case (remove s i)
  then show ?case using Remove_wf [of "mr_manager s" i] by (auto simp: run_inv_def Remove_def markDirty_def)
next
  case (publish s i snap)
  then show ?case using Publish_wf [of "mr_manager s" i snap] Publish_dirty [of i snap "mr_manager s"]
    by (auto simp: run_inv_def)
next
  case (rebuilt s fs now)
  then show ?case by (auto simp: run_inv_def rebuild_store_def Let_def up_to_date_def)
qed (auto simp: run_inv_def)

lemma manager_reachable_inv: "manager_reachable s0 s \<Longrightarrow> run_inv s0 \<Longrightarrow> run_inv s"
  by (induction rule: manager_reachable.induct) (auto intro: manager_step_inv)

lemma manager_reachable_trans: "manager_reachable t u \<Longrightarrow> manager_reachable s t \<Longrightarrow> manager_reachable s u"
  by (induction rule: manager_reachable.induct) (auto intro: manager_reachable.step)

definition settled :: "manager_run \<Rightarrow> manager_run \<Rightarrow> bool" where
  "settled s t \<longleftrightarrow> \<not> fm_dirty (mr_manager t) \<and> \<not> mr_pending t \<and> fm_feeders (mr_manager t) = fm_feeders (mr_manager s)"

lemma settle_pending:
  assumes "mr_building s = None" "mr_pending s" "\<not> fm_dirty (mr_manager s)"
  shows "\<exists>t. manager_reachable s t \<and> settled s t"
proof -
  let ?s1 = "s\<lparr> mr_building := Some (fm_feeders (mr_manager s)) \<rparr>"
  let ?s2 = "\<lparr> mr_manager = rebuild_store (fm_feeders (mr_manager s)) 0 (mr_manager ?s1), mr_pending = False, mr_building = None \<rparr>"
  have "manager_step s ?s1" using assms by (intro manager_step.timer)
  moreover have "manager_step ?s1 ?s2" by (rule manager_step.rebuilt) simp
  ultimately have "manager_reachable s ?s2" by (meson manager_reachable.intros)
  moreover have "settled s ?s2" using assms by (simp add: settled_def rebuild_store_def Let_def)
  ultimately show ?thesis by blast
qed

lemma settle_idle:
  assumes "mr_building s = None"
  shows "\<exists>t. manager_reachable s t \<and> settled s t"
proof (cases "fm_dirty (mr_manager s)")
  case True
  let ?s1 = "s\<lparr> mr_manager := (mr_manager s)\<lparr> fm_dirty := False \<rparr>, mr_pending := True \<rparr>"
  have "manager_step s ?s1" using assms True by (rule manager_step.dirty)
  then have "manager_reachable s ?s1" by (meson manager_reachable.intros)
  moreover obtain t where "manager_reachable ?s1 t" "settled ?s1 t" using settle_pending [of ?s1] assms by auto
  ultimately show ?thesis by (auto simp: settled_def intro: manager_reachable_trans)
next
  case False
  then show ?thesis using assms settle_pending [of s] manager_reachable.init [of s]
    by (cases "mr_pending s") (auto simp: settled_def)
qed

lemma settle: "\<exists>t. manager_reachable s t \<and> settled s t"
proof (cases "mr_building s")
  case (Some fs)
  let ?s1 = "\<lparr> mr_manager = rebuild_store fs 0 (mr_manager s), mr_pending = False, mr_building = None \<rparr>"
  have "manager_reachable s ?s1" using manager_step.rebuilt [OF Some] by (meson manager_reachable.intros)
  moreover obtain t where "manager_reachable ?s1 t" "settled ?s1 t" using settle_idle [of ?s1] by auto
  ultimately show ?thesis by (auto simp: settled_def rebuild_store_def Let_def intro: manager_reachable_trans)
qed (rule settle_idle)



end
