(* ===== verification/Rule_Index.thy ===== *)
theory Rule_Index
  imports Domain
begin

text \<open>
  \<open>internal/rules/index.go\<close>: the compiled index of the watch rules, one per feeder scope.
  \<open>strconv.FormatFloat(x, 'f', -1, 64)\<close>, which renders the thresholds in a rule's
  fingerprint, is the argument \<open>ff\<close>: over the reals there is no shortest decimal that
  reads back as the same float64, and nothing below depends on its digits.
\<close>

record compiled_rule =
  cr_rule :: watch_rule
  cr_value :: string
  cr_fingerprint :: string

type_synonym rule_map = "(string, compiled_rule list) gomap"

record scope_index =
  si_icao :: rule_map
  si_registration :: rule_map
  si_callsign :: rule_map
  si_squawk :: rule_map
  si_prefixes :: "(int, rule_map) gomap"
  si_prefixLengths :: "int list"
  si_radius :: "compiled_rule list"
  si_altitude :: "compiled_rule list"
  si_firstSeen :: "compiled_rule list"
  si_operator :: rule_map
  si_owner :: rule_map
  si_aircraftType :: rule_map

record rule_index =
  ri_scopes :: "(feeder_id, scope_index) gomap"
  ri_fingerprints :: "(int, string) gomap"
  ri_bestEffort :: "(int, bool) gomap"
  ri_count :: int

definition newScopeIndex :: scope_index where
  "newScopeIndex = \<lparr> si_icao = [], si_registration = [], si_callsign = [], si_squawk = [], si_prefixes = [],
     si_prefixLengths = [], si_radius = [], si_altitude = [], si_firstSeen = [], si_operator = [],
     si_owner = [], si_aircraftType = [] \<rparr>"

definition empty_index :: rule_index where
  "empty_index = \<lparr> ri_scopes = [], ri_fingerprints = [], ri_bestEffort = [], ri_count = 0 \<rparr>"

definition normalizedRuleScope :: "watch_rule \<Rightarrow> feeder_id" where
  "normalizedRuleScope rule = (if wr_FeederScope rule = [] then FeederLocal else wr_FeederScope rule)"

text \<open>\<open>m[k]\<close> of a map of slices, which is nil when absent, and \<open>m[k] = append(m[k], r)\<close>.\<close>

definition rules_at :: "rule_map \<Rightarrow> string \<Rightarrow> compiled_rule list" where
  "rules_at m k = (case map_of m k of None \<Rightarrow> [] | Some rs \<Rightarrow> rs)"

definition append_rule :: "string \<Rightarrow> compiled_rule \<Rightarrow> rule_map \<Rightarrow> rule_map" where
  "append_rule k r m = AList.update k (rules_at m k @ [r]) m"

definition prefix_map :: "scope_index \<Rightarrow> int \<Rightarrow> rule_map" where
  "prefix_map si l = (case map_of (si_prefixes si) l of None \<Rightarrow> [] | Some m \<Rightarrow> m)"

definition compile_rule :: "(real \<Rightarrow> string) \<Rightarrow> watch_rule \<Rightarrow> compiled_rule" where
  "compile_rule ff rule0 =
     (let value = to_upper (trim_space (wr_Value rule0));
          rule = (if wr_MinimumObservations rule0 < 1 then rule0\<lparr> wr_MinimumObservations := 2 \<rparr> else rule0)
      in \<lparr> cr_rule = rule, cr_value = value,
           cr_fingerprint = wr_Type rule @ '':'' @ value @ '':'' @ ff (wr_EnterThreshold rule) @ '':'' @ ff (wr_ExitThreshold rule) \<rparr>)"

definition once :: "compiled_rule \<Rightarrow> compiled_rule" where
  "once c = c\<lparr> cr_rule := (cr_rule c)\<lparr> wr_MinimumObservations := 1 \<rparr> \<rparr>"

definition best_effort_once :: "compiled_rule \<Rightarrow> compiled_rule" where
  "best_effort_once c = c\<lparr> cr_rule := (cr_rule c)\<lparr> wr_BestEffortEnrichment := True, wr_MinimumObservations := 1 \<rparr> \<rparr>"

text \<open>The switch over the rule's type: the scope's new index and the rule as filed, or the default branch.\<close>

definition file_rule :: "compiled_rule \<Rightarrow> scope_index \<Rightarrow> (scope_index \<times> compiled_rule) option" where
  "file_rule c si =
     (let t = wr_Type (cr_rule c); v = cr_value c in
      if t = RuleICAO then Some (si\<lparr> si_icao := append_rule v c (si_icao si) \<rparr>, c)
      else if t = RuleRegistration then Some (si\<lparr> si_registration := append_rule v c (si_registration si) \<rparr>, c)
      else if t = RuleCallsign then Some (si\<lparr> si_callsign := append_rule v c (si_callsign si) \<rparr>, c)
      else if t = RuleSquawk then Some (si\<lparr> si_squawk := append_rule v c (si_squawk si) \<rparr>, c)
      else if t = RuleCallsignPrefix then
        (let l = int (length v);
             lengths = (if map_of (si_prefixes si) l = None then si_prefixLengths si @ [l] else si_prefixLengths si)
         in Some (si\<lparr> si_prefixLengths := lengths,
                      si_prefixes := AList.update l (append_rule v c (prefix_map si l)) (si_prefixes si) \<rparr>, c))
      else if t = RuleRadius then Some (si\<lparr> si_radius := si_radius si @ [c] \<rparr>, c)
      else if t = RuleAltitude then Some (si\<lparr> si_altitude := si_altitude si @ [c] \<rparr>, c)
      else if t = RuleFirstSeen then Some (si\<lparr> si_firstSeen := si_firstSeen si @ [once c] \<rparr>, once c)
      else if t = RuleOperator then
        Some (si\<lparr> si_operator := append_rule v (best_effort_once c) (si_operator si) \<rparr>, best_effort_once c)
      else if t = RuleOwner then
        Some (si\<lparr> si_owner := append_rule v (best_effort_once c) (si_owner si) \<rparr>, best_effort_once c)
      else if t = RuleAircraftType then
        Some (si\<lparr> si_aircraftType := append_rule v (best_effort_once c) (si_aircraftType si) \<rparr>, best_effort_once c)
      else None)"

definition index_rule :: "(real \<Rightarrow> string) \<Rightarrow> watch_rule \<Rightarrow> rule_index \<Rightarrow> rule_index" where
  "index_rule ff rule index =
     (if \<not> wr_Enabled rule then index
      else
        let c = compile_rule ff rule;
            scope = normalizedRuleScope rule;
            si = (case map_of (ri_scopes index) scope of None \<Rightarrow> newScopeIndex | Some si \<Rightarrow> si);
            index1 = (if map_of (ri_scopes index) scope = None
                      then index\<lparr> ri_scopes := AList.update scope si (ri_scopes index) \<rparr> else index)
        in (case file_rule c si of
              None \<Rightarrow> index1
            | Some (si', filed) \<Rightarrow>
                index1\<lparr> ri_scopes := AList.update scope si' (ri_scopes index1),
                        ri_fingerprints := AList.update (wr_ID rule) (cr_fingerprint filed) (ri_fingerprints index1),
                        ri_bestEffort := AList.update (wr_ID rule) (wr_BestEffortEnrichment (cr_rule filed)) (ri_bestEffort index1),
                        ri_count := ri_count index1 + 1 \<rparr>))"

definition sort_prefixes :: "scope_index \<Rightarrow> scope_index" where
  "sort_prefixes si = si\<lparr> si_prefixLengths := sort (si_prefixLengths si) \<rparr>"

definition BuildIndex :: "(real \<Rightarrow> string) \<Rightarrow> watch_rule list \<Rightarrow> rule_index" where
  "BuildIndex ff rules =
     (let index = fold (index_rule ff) rules empty_index
      in index\<lparr> ri_scopes := map (\<lambda>(k, si). (k, sort_prefixes si)) (ri_scopes index) \<rparr>)"

definition index_scope :: "rule_index option \<Rightarrow> feeder_id \<Rightarrow> scope_index option" where
  "index_scope index i = (case index of None \<Rightarrow> None | Some ix \<Rightarrow> map_of (ri_scopes ix) i)"

definition minimumSeenRetention :: duration where
  "minimumSeenRetention = 30 * minute"

definition maxSeenRetention :: "rule_index option \<Rightarrow> duration" where
  "maxSeenRetention index =
     (case index of
        None \<Rightarrow> minimumSeenRetention
      | Some ix \<Rightarrow> fold (\<lambda>(_, si). fold (\<lambda>r retention.
            if wr_Cooldown (cr_rule r) > retention then wr_Cooldown (cr_rule r) else retention) (si_firstSeen si))
          (ri_scopes ix) minimumSeenRetention)"

definition index_Len :: "rule_index option \<Rightarrow> int" where
  "index_Len index = (case index of None \<Rightarrow> 0 | Some ix \<Rightarrow> ri_count ix)"

section \<open>The rules an aircraft triggers through the index\<close>

text \<open>The lookups of the evaluation loop, in its order; it stops at the first prefix longer than the callsign.\<close>

fun prefix_rules :: "scope_index \<Rightarrow> string \<Rightarrow> int list \<Rightarrow> compiled_rule list" where
  "prefix_rules si callsign [] = []"
| "prefix_rules si callsign (l # ls) =
     (if l > int (length callsign) then []
      else rules_at (prefix_map si l) (take (nat l) callsign) @ prefix_rules si callsign ls)"

definition exact_rules :: "scope_index \<Rightarrow> aircraft \<Rightarrow> compiled_rule list" where
  "exact_rules si a =
     rules_at (si_icao si) (ac_ICAO a) @ rules_at (si_registration si) (ac_Registration a) @
     rules_at (si_callsign si) (ac_Callsign a) @ rules_at (si_squawk si) (ac_Squawk a) @
     prefix_rules si (ac_Callsign a) (si_prefixLengths si)"

end
