(* ===== verification/Rule_Index_Props.thy ===== *)
theory Rule_Index_Props
  imports Rule_Index
begin

text \<open>
  The index against its reference: what the lookups of the evaluation loop find for an
  aircraft are exactly the enabled rules of the scope whose condition holds of it.
\<close>

definition of_type :: "rule_type \<Rightarrow> compiled_rule \<Rightarrow> bool" where
  "of_type t c \<longleftrightarrow> wr_Type (cr_rule c) = t"

definition scope_rules :: "(real \<Rightarrow> string) \<Rightarrow> watch_rule list \<Rightarrow> feeder_id \<Rightarrow> compiled_rule list" where
  "scope_rules ff rules s = map (compile_rule ff) (filter (\<lambda>r. wr_Enabled r \<and> normalizedRuleScope r = s) rules)"

text \<open>An exact rule's condition, straight from its type and normalised value.\<close>

definition exact_match :: "aircraft \<Rightarrow> compiled_rule \<Rightarrow> bool" where
  "exact_match a c \<longleftrightarrow>
     of_type RuleICAO c \<and> cr_value c = ac_ICAO a \<or>
     of_type RuleRegistration c \<and> cr_value c = ac_Registration a \<or>
     of_type RuleCallsign c \<and> cr_value c = ac_Callsign a \<or>
     of_type RuleSquawk c \<and> cr_value c = ac_Squawk a \<or>
     of_type RuleCallsignPrefix c \<and> prefix (cr_value c) (ac_Callsign a)"

definition prefix_len :: "compiled_rule \<Rightarrow> int" where
  "prefix_len c = int (length (cr_value c))"

text \<open>
  What the index holds after a list of compiled rules: every keyed map groups the rules of
  its type by value, in order; the prefix maps also by length.
\<close>

definition map_ok :: "(compiled_rule \<Rightarrow> bool) \<Rightarrow> (compiled_rule \<Rightarrow> compiled_rule) \<Rightarrow> compiled_rule list \<Rightarrow> rule_map \<Rightarrow> bool" where
  "map_ok P g rs m \<longleftrightarrow> (\<forall>k. rules_at m k = map g (filter (\<lambda>c. P c \<and> cr_value c = k) rs))"

definition prefix_ok :: "compiled_rule list \<Rightarrow> scope_index \<Rightarrow> bool" where
  "prefix_ok rs si \<longleftrightarrow>
     (\<forall>l. map_ok (\<lambda>c. of_type RuleCallsignPrefix c \<and> prefix_len c = l) id rs (prefix_map si l)) \<and>
     distinct (si_prefixLengths si) \<and>
     dom (map_of (si_prefixes si)) = set (map prefix_len (filter (of_type RuleCallsignPrefix) rs)) \<and>
     set (si_prefixLengths si) = set (map prefix_len (filter (of_type RuleCallsignPrefix) rs))"

definition scope_ok :: "compiled_rule list \<Rightarrow> scope_index \<Rightarrow> bool" where
  "scope_ok rs si \<longleftrightarrow>
     map_ok (of_type RuleICAO) id rs (si_icao si) \<and> map_ok (of_type RuleRegistration) id rs (si_registration si) \<and>
     map_ok (of_type RuleCallsign) id rs (si_callsign si) \<and> map_ok (of_type RuleSquawk) id rs (si_squawk si) \<and>
     prefix_ok rs si \<and>
     si_radius si = filter (of_type RuleRadius) rs \<and> si_altitude si = filter (of_type RuleAltitude) rs \<and>
     si_firstSeen si = map once (filter (of_type RuleFirstSeen) rs) \<and>
     map_ok (of_type RuleOperator) best_effort_once rs (si_operator si) \<and>
     map_ok (of_type RuleOwner) best_effort_once rs (si_owner si) \<and>
     map_ok (of_type RuleAircraftType) best_effort_once rs (si_aircraftType si)"

lemma rules_at_Nil [simp]: "rules_at [] k = []"
  by (simp add: rules_at_def)

lemma rules_at_append: "rules_at (append_rule k r m) k' = (if k' = k then rules_at m k @ [r] else rules_at m k')"
  by (simp add: rules_at_def append_rule_def)

lemma map_ok_Nil [simp]: "map_ok P g [] []"
  by (simp add: map_ok_def)

lemma map_ok_append: "map_ok P g rs m \<Longrightarrow> P c \<Longrightarrow> map_ok P g (rs @ [c]) (append_rule (cr_value c) (g c) m)"
  by (auto simp: map_ok_def rules_at_append)

lemma map_ok_skip: "map_ok P g rs m \<Longrightarrow> \<not> P c \<Longrightarrow> map_ok P g (rs @ [c]) m"
  by (simp add: map_ok_def)

lemma newScopeIndex_ok: "scope_ok [] newScopeIndex"
  by (simp add: scope_ok_def newScopeIndex_def prefix_map_def prefix_ok_def)

lemma prefix_ok_skip: "prefix_ok rs si \<Longrightarrow> \<not> of_type RuleCallsignPrefix c \<Longrightarrow>
    si_prefixes si' = si_prefixes si \<Longrightarrow> si_prefixLengths si' = si_prefixLengths si \<Longrightarrow> prefix_ok (rs @ [c]) si'"
  unfolding prefix_ok_def by (simp add: prefix_map_def map_ok_skip)

lemma prefix_ok_add:
  assumes "prefix_ok rs si" "of_type RuleCallsignPrefix c"
    "si_prefixLengths si' = (if map_of (si_prefixes si) (prefix_len c) = None then si_prefixLengths si @ [prefix_len c] else si_prefixLengths si)"
    "si_prefixes si' = AList.update (prefix_len c) (append_rule (cr_value c) c (prefix_map si (prefix_len c))) (si_prefixes si)"
  shows "prefix_ok (rs @ [c]) si'"
proof -
  have pm: "prefix_map si' l = (if l = prefix_len c then append_rule (cr_value c) c (prefix_map si l) else prefix_map si l)" for l
    using assms(4) by (simp add: prefix_map_def)
  have "map_ok (\<lambda>c. of_type RuleCallsignPrefix c \<and> prefix_len c = l) id (rs @ [c]) (prefix_map si' l)" for l
  proof (cases "l = prefix_len c")
    case True
    have "map_ok (\<lambda>d. of_type RuleCallsignPrefix d \<and> prefix_len d = l) id rs (prefix_map si l)"
      using assms(1) unfolding prefix_ok_def by blast
    from map_ok_append [OF this, of c] True assms(2) show ?thesis unfolding pm id_apply by (simp only: simp_thms if_True)
  next
    case False
    have "map_ok (\<lambda>d. of_type RuleCallsignPrefix d \<and> prefix_len d = l) id rs (prefix_map si l)"
      using assms(1) unfolding prefix_ok_def by blast
    then show ?thesis unfolding pm if_not_P [OF False] by (rule map_ok_skip) (use False in blast)
  qed
  moreover have "prefix_len c \<in> set (si_prefixLengths si) \<longleftrightarrow> map_of (si_prefixes si) (prefix_len c) \<noteq> None"
    using assms(1) unfolding prefix_ok_def by (metis domIff)
  then have "distinct (si_prefixLengths si')" "set (si_prefixLengths si') = insert (prefix_len c) (set (si_prefixLengths si))"
    using assms(1) unfolding prefix_ok_def assms(3) by auto
  ultimately show ?thesis using assms(1,2) unfolding prefix_ok_def assms(4) by simp
qed

lemma file_rule_ok:
  assumes "scope_ok rs si"
  shows "scope_ok (rs @ [c]) (case file_rule c si of None \<Rightarrow> si | Some (si', _) \<Rightarrow> si')"
proof -
  note ok = assms [unfolded scope_ok_def]
  have po: "wr_Type (cr_rule c) \<noteq> RuleCallsignPrefix \<Longrightarrow> si_prefixes si' = si_prefixes si \<Longrightarrow>
      si_prefixLengths si' = si_prefixLengths si \<Longrightarrow> prefix_ok (rs @ [c]) si'" for si'
    using prefix_ok_skip [of rs si c si'] ok by (simp add: of_type_def)
  consider (ICAO) "wr_Type (cr_rule c) = RuleICAO" | (reg) "wr_Type (cr_rule c) = RuleRegistration"
    | (call) "wr_Type (cr_rule c) = RuleCallsign" | (squawk) "wr_Type (cr_rule c) = RuleSquawk"
    | (pre) "wr_Type (cr_rule c) = RuleCallsignPrefix" | (radius) "wr_Type (cr_rule c) = RuleRadius"
    | (alt) "wr_Type (cr_rule c) = RuleAltitude" | (first) "wr_Type (cr_rule c) = RuleFirstSeen"
    | (op) "wr_Type (cr_rule c) = RuleOperator" | (owner) "wr_Type (cr_rule c) = RuleOwner"
    | (actype) "wr_Type (cr_rule c) = RuleAircraftType"
    | (other) "wr_Type (cr_rule c) \<notin> {RuleICAO, RuleRegistration, RuleCallsign, RuleSquawk, RuleCallsignPrefix,
        RuleRadius, RuleAltitude, RuleFirstSeen, RuleOperator, RuleOwner, RuleAircraftType}"
    by blast
  then show ?thesis
  proof cases
    case pre
    let ?l = "int (length (cr_value c))"
    have "prefix_ok (rs @ [c]) (si\<lparr> si_prefixLengths := (if map_of (si_prefixes si) ?l = None then si_prefixLengths si @ [?l] else si_prefixLengths si),
        si_prefixes := AList.update ?l (append_rule (cr_value c) c (prefix_map si ?l)) (si_prefixes si) \<rparr>)"
      using ok pre by (intro prefix_ok_add [of rs si c]) (simp_all add: prefix_len_def of_type_def)
    with pre ok show ?thesis
      by (simp add: file_rule_def scope_ok_def Let_def of_type_def map_ok_skip)
  qed (use ok in \<open>simp_all add: file_rule_def scope_ok_def Let_def of_type_def map_ok_skip map_ok_append
         map_ok_append [where g = id, simplified] po\<close>)
qed

definition scope_at :: "compiled_rule list \<Rightarrow> scope_index option \<Rightarrow> bool" where
  "scope_at rs si = (case si of None \<Rightarrow> rs = [] | Some si \<Rightarrow> scope_ok rs si)"

definition index_ok :: "(real \<Rightarrow> string) \<Rightarrow> watch_rule list \<Rightarrow> rule_index \<Rightarrow> bool" where
  "index_ok ff rules ix \<longleftrightarrow> (\<forall>s. scope_at (scope_rules ff rules s) (map_of (ri_scopes ix) s))"

lemma scope_at_simps [simp]: "scope_at rs None \<longleftrightarrow> rs = []" "scope_at rs (Some si) \<longleftrightarrow> scope_ok rs si"
  by (simp_all add: scope_at_def)

lemma scope_rules_snoc:
  "scope_rules ff (rules @ [r]) s =
     scope_rules ff rules s @ (if wr_Enabled r \<and> normalizedRuleScope r = s then [compile_rule ff r] else [])"
  by (simp add: scope_rules_def)

lemma index_rule_scopes:
  assumes "wr_Enabled r"
  shows "map_of (ri_scopes (index_rule ff r ix)) = (map_of (ri_scopes ix))(normalizedRuleScope r \<mapsto>
     (let si = (case map_of (ri_scopes ix) (normalizedRuleScope r) of None \<Rightarrow> newScopeIndex | Some si \<Rightarrow> si)
      in case file_rule (compile_rule ff r) si of None \<Rightarrow> si | Some (si', _) \<Rightarrow> si'))"
  using assms by (auto simp: index_rule_def Let_def fun_eq_iff split: option.splits)

lemma index_rule_ok:
  assumes "index_ok ff rules ix"
  shows "index_ok ff (rules @ [r]) (index_rule ff r ix)"
proof (cases "wr_Enabled r")
  case False
  then show ?thesis using assms by (simp add: index_ok_def scope_rules_snoc index_rule_def)
next
  case True
  let ?s = "normalizedRuleScope r"
  let ?si = "case map_of (ri_scopes ix) ?s of None \<Rightarrow> newScopeIndex | Some si \<Rightarrow> si"
  have "scope_at (scope_rules ff rules ?s) (map_of (ri_scopes ix) ?s)" using assms unfolding index_ok_def by (rule spec)
  then have "scope_ok (scope_rules ff rules ?s) ?si"
    using newScopeIndex_ok by (cases "map_of (ri_scopes ix) ?s") auto
  from file_rule_ok [OF this, of "compile_rule ff r"] show ?thesis
    using assms True unfolding index_ok_def index_rule_scopes [OF True] Let_def
    by (simp add: scope_rules_snoc)
qed

lemma fold_index_ok: "index_ok ff rules (fold (index_rule ff) rules empty_index)"
proof (induction rules rule: rev_induct)
  case Nil
  show ?case by (simp add: index_ok_def empty_index_def scope_rules_def)
qed (simp add: index_rule_ok)

lemma sort_prefixes_ok: "scope_ok rs si \<Longrightarrow> scope_ok rs (sort_prefixes si)"
  unfolding scope_ok_def prefix_ok_def sort_prefixes_def prefix_map_def by simp

lemma map_of_map_snd: "map_of (map (\<lambda>(k, v). (k, f v)) m) k = map_option f (map_of m k)"
  by (induction m) auto

lemma BuildIndex_ok:
  "index_ok ff rules (BuildIndex ff rules)"
proof -
  have "scope_at (scope_rules ff rules s) (map_of (ri_scopes (BuildIndex ff rules)) s)" for s
    using fold_index_ok [of ff rules, unfolded index_ok_def, rule_format, of s]
    by (cases "map_of (ri_scopes (fold (index_rule ff) rules empty_index)) s")
      (simp_all add: BuildIndex_def Let_def map_of_map_snd sort_prefixes_ok)
  then show ?thesis by (simp add: index_ok_def)
qed

lemma BuildIndex_sorted:
  "map_of (ri_scopes (BuildIndex ff rules)) s = Some si \<Longrightarrow> sorted (si_prefixLengths si)"
  by (auto simp: BuildIndex_def Let_def map_of_map_snd sort_prefixes_def)

section \<open>The prefix loop\<close>

lemma prefix_rules_concat:
  "prefix_rules si cs ls =
     concat (map (\<lambda>l. rules_at (prefix_map si l) (take (nat l) cs)) (takeWhile (\<lambda>l. l \<le> int (length cs)) ls))"
  by (induction ls) auto

lemma takeWhile_sorted: "sorted ls \<Longrightarrow> takeWhile (\<lambda>l. l \<le> b) ls = filter (\<lambda>l. l \<le> (b :: int)) ls"
proof (induction ls)
  case (Cons x ls)
  moreover have "filter (\<lambda>l. l \<le> b) ls = []" if "\<not> x \<le> b" using that Cons.prems by (auto simp: filter_empty_conv)
  ultimately show ?case by auto
qed simp

lemma mset_partition_key:
  "distinct ls \<Longrightarrow> mset (concat (map (\<lambda>l. filter (\<lambda>c. P c \<and> f c = l) rs) ls)) = mset (filter (\<lambda>c. P c \<and> f c \<in> set ls) rs)"
proof (induction ls)
  case (Cons l ls)
  have "mset (filter (\<lambda>c. P c \<and> f c \<in> set (l # ls)) rs) =
      mset (filter (\<lambda>c. P c \<and> f c = l) rs) + mset (filter (\<lambda>c. P c \<and> f c \<in> set ls) rs)"
    using Cons.prems by (induction rs) auto
  then show ?case using Cons by simp
qed simp

lemma mset_filter_disjoint:
  "(\<And>c. c \<in> set rs \<Longrightarrow> \<not> (P c \<and> Q c)) \<Longrightarrow> mset (filter (\<lambda>c. P c \<or> Q c) rs) = mset (filter P rs) + mset (filter Q rs)"
  by (induction rs) auto

lemma prefix_take_iff: "n = length xs \<Longrightarrow> xs = take n ys \<longleftrightarrow> prefix xs ys"
  by (metis append_eq_conv_conj prefix_def take_is_prefix)

lemma prefix_rules_mset:
  assumes "prefix_ok rs si" "sorted (si_prefixLengths si)"
  shows "mset (prefix_rules si cs (si_prefixLengths si)) =
    mset (filter (\<lambda>c. of_type RuleCallsignPrefix c \<and> prefix (cr_value c) cs) rs)"
proof -
  let ?ls = "filter (\<lambda>l. l \<le> int (length cs)) (si_prefixLengths si)"
  let ?P = "\<lambda>c. of_type RuleCallsignPrefix c \<and> prefix (cr_value c) cs"
  have rules: "rules_at (prefix_map si l) (take (nat l) cs) = filter (\<lambda>c. ?P c \<and> prefix_len c = l) rs"
    if "l \<in> set ?ls" for l
  proof -
    have l: "0 \<le> l" "l \<le> int (length cs)" using that assms(1) by (auto simp: prefix_ok_def prefix_len_def)
    have "rules_at (prefix_map si l) (take (nat l) cs) =
        filter (\<lambda>c. (of_type RuleCallsignPrefix c \<and> prefix_len c = l) \<and> cr_value c = take (nat l) cs) rs"
      using assms(1) unfolding prefix_ok_def map_ok_def by simp
    also have "\<dots> = filter (\<lambda>c. ?P c \<and> prefix_len c = l) rs"
      using l take_is_prefix by (intro filter_cong) (auto simp: prefix_len_def prefix_take_iff)
    finally show ?thesis .
  qed
  have a: "prefix_rules si cs (si_prefixLengths si) = concat (map (\<lambda>l. filter (\<lambda>c. ?P c \<and> prefix_len c = l) rs) ?ls)"
    unfolding prefix_rules_concat takeWhile_sorted [OF assms(2)]
    by (rule arg_cong [where f = concat], rule map_cong [OF refl]) (rule rules)
  have b: "mset (concat (map (\<lambda>l. filter (\<lambda>c. ?P c \<and> prefix_len c = l) rs) ?ls)) =
      mset (filter (\<lambda>c. ?P c \<and> prefix_len c \<in> set ?ls) rs)"
    using assms(1) by (intro mset_partition_key) (simp add: prefix_ok_def)
  have c: "filter (\<lambda>c. ?P c \<and> prefix_len c \<in> set ?ls) rs = filter ?P rs"
    using assms(1) by (intro filter_cong) (auto simp: prefix_ok_def prefix_len_def dest: prefix_length_le)
  show ?thesis by (simp only: a b c)
qed

lemma exact_rules_mset:
  assumes "scope_ok rs si" "sorted (si_prefixLengths si)"
  shows "mset (exact_rules si a) = mset (filter (exact_match a) rs)"
proof -
  have m: "rules_at m k = filter (\<lambda>c. P c \<and> cr_value c = k) rs" if "map_ok P id rs m" for P m k
    using that by (simp add: map_ok_def)
  note ok = assms(1) [unfolded scope_ok_def]
  have "mset (filter (exact_match a) rs) =
     mset (filter (\<lambda>c. of_type RuleICAO c \<and> cr_value c = ac_ICAO a) rs) +
     (mset (filter (\<lambda>c. of_type RuleRegistration c \<and> cr_value c = ac_Registration a) rs) +
     (mset (filter (\<lambda>c. of_type RuleCallsign c \<and> cr_value c = ac_Callsign a) rs) +
     (mset (filter (\<lambda>c. of_type RuleSquawk c \<and> cr_value c = ac_Squawk a) rs) +
      mset (filter (\<lambda>c. of_type RuleCallsignPrefix c \<and> prefix (cr_value c) (ac_Callsign a)) rs))))"
    unfolding exact_match_def [abs_def]
    by (subst mset_filter_disjoint, force simp: of_type_def)+ simp
  then show ?thesis using ok prefix_rules_mset [OF _ assms(2), of rs "ac_Callsign a"]
    unfolding exact_rules_def by (simp add: m [of "of_type RuleICAO"] m [of "of_type RuleRegistration"]
        m [of "of_type RuleCallsign"] m [of "of_type RuleSquawk"])
qed

text \<open>
  C24. The rule index is exact. The rules that the keyed lookups and the sorted prefix loop
  find for an aircraft are, as a multiset, exactly the enabled rules of the scope whose
  condition holds of the aircraft: none missed by stopping at the first longer prefix, none
  found twice, none of another scope, and a scope without an index has no rules.
\<close>

theorem index_exact:
  "mset (case index_scope (Some (BuildIndex ff rules)) s of None \<Rightarrow> [] | Some si \<Rightarrow> exact_rules si a) =
     mset (filter (exact_match a) (map (compile_rule ff) (filter (\<lambda>r. wr_Enabled r \<and> normalizedRuleScope r = s) rules)))"
proof -
  have "mset (case map_of (ri_scopes (BuildIndex ff rules)) s of None \<Rightarrow> [] | Some si \<Rightarrow> exact_rules si a) =
      mset (filter (exact_match a) (scope_rules ff rules s))"
  proof (cases "map_of (ri_scopes (BuildIndex ff rules)) s")
    case None
    then show ?thesis using BuildIndex_ok [of ff rules, unfolded index_ok_def, rule_format, of s] by simp
  next
    case (Some si)
    then have "scope_ok (scope_rules ff rules s) si"
      using BuildIndex_ok [of ff rules, unfolded index_ok_def, rule_format, of s] by simp
    then show ?thesis using exact_rules_mset BuildIndex_sorted [OF Some] Some by simp
  qed
  then show ?thesis by (simp add: index_scope_def scope_rules_def)
qed

section \<open>Fingerprints\<close>

definition indexed_types :: "rule_type list" where
  "indexed_types = [RuleICAO, RuleRegistration, RuleCallsign, RuleSquawk, RuleCallsignPrefix, RuleRadius,
     RuleAltitude, RuleFirstSeen, RuleOperator, RuleOwner, RuleAircraftType]"

definition indexed :: "watch_rule \<Rightarrow> bool" where
  "indexed r \<longleftrightarrow> wr_Enabled r \<and> wr_Type r \<in> set indexed_types"

lemma file_rule_None: "file_rule c si = None \<longleftrightarrow> wr_Type (cr_rule c) \<notin> set indexed_types"
  unfolding file_rule_def Let_def indexed_types_def by simp

lemma file_rule_fingerprint: "file_rule c si = Some (si', filed) \<Longrightarrow> cr_fingerprint filed = cr_fingerprint c"
  unfolding file_rule_def Let_def once_def best_effort_once_def by (auto split: if_splits)

lemma compile_rule_type: "wr_Type (cr_rule (compile_rule ff r)) = wr_Type r"
  by (simp add: compile_rule_def Let_def)

lemma index_rule_fingerprints:
  "map_of (ri_fingerprints (index_rule ff r ix)) =
     (if indexed r then (map_of (ri_fingerprints ix))(wr_ID r \<mapsto> cr_fingerprint (compile_rule ff r)) else map_of (ri_fingerprints ix))"
proof (cases "wr_Enabled r")
  case True
  let ?si = "case map_of (ri_scopes ix) (normalizedRuleScope r) of None \<Rightarrow> newScopeIndex | Some si \<Rightarrow> si"
  show ?thesis
  proof (cases "file_rule (compile_rule ff r) ?si")
    case None
    then show ?thesis using True file_rule_None [of "compile_rule ff r" ?si]
      by (simp add: index_rule_def Let_def indexed_def compile_rule_type)
  next
    case (Some p)
    then obtain si' filed where p: "p = (si', filed)" by (cases p)
    have "indexed r" using True Some file_rule_None [of "compile_rule ff r" ?si] by (simp add: indexed_def compile_rule_type)
    then show ?thesis using True Some p file_rule_fingerprint [of "compile_rule ff r" ?si si' filed]
      by (simp add: index_rule_def Let_def)
  qed
qed (simp add: index_rule_def indexed_def)

lemma BuildIndex_fingerprints:
  assumes "distinct (map wr_ID rules)"
  shows "map_of (ri_fingerprints (BuildIndex ff rules)) i = Some fp \<longleftrightarrow>
    (\<exists>r\<in>set rules. indexed r \<and> wr_ID r = i \<and> fp = cr_fingerprint (compile_rule ff r))"
proof -
  have "map_of (ri_fingerprints (fold (index_rule ff) rules empty_index)) i = Some fp \<longleftrightarrow>
    (\<exists>r\<in>set rules. indexed r \<and> wr_ID r = i \<and> fp = cr_fingerprint (compile_rule ff r))"
    using assms
  proof (induction rules rule: rev_induct)
    case Nil
    show ?case by (simp add: empty_index_def)
  next
    case (snoc r rules)
    have "wr_ID r \<notin> wr_ID ` set rules" using snoc.prems by simp
    then have "\<forall>q\<in>set rules. wr_ID q \<noteq> wr_ID r" by (metis imageI)
    then show ?case using snoc by (auto simp: index_rule_fingerprints)
  qed
  then show ?thesis by (simp add: BuildIndex_def Let_def)
qed

end
