(* ===== verification/Rule_Engine.thy ===== *)
theory Rule_Engine
  imports Rule_Index
begin

text \<open>
  \<open>internal/rules/engine.go\<close>: the evaluation of the watch rules and of emergencies. The
  slices \<open>alerts\<close> and \<open>updates\<close> that the Go functions thread through are the fields of an
  accumulator together with the state map the functions update. \<open>Evaluate\<close> takes the
  emergency mutex and then the mutex of one scope; the two sections touch disjoint parts of
  the engine and are composed in that order. \<open>sort.Slice\<close> is a stable sort; the order of
  entries of equal age, which Go leaves open, never matters below.
\<close>

record state_key =
  sk_ruleID :: int
  sk_scope :: feeder_id
  sk_icao :: string

record state_record =
  sr_state :: alert_state
  sr_seenSequence :: u64
  sr_bestEffort :: bool
  sr_lastSeenAt :: time

definition zero_state_record :: state_record where
  "zero_state_record = \<lparr> sr_state = zero_alert_state, sr_seenSequence = 0, sr_bestEffort = False, sr_lastSeenAt = 0 \<rparr>"

record seen_record =
  se_firstSeen :: time
  se_lastSeen :: time

type_synonym rule_states = "(state_key, state_record) gomap"

record scope_state =
  ss_states :: rule_states
  ss_seen :: "(string, seen_record) gomap"
  ss_sequence :: u64

definition stateRetention :: duration where
  "stateRetention = 7 * 24 * hour"

definition maxSeenEntries :: nat where
  "maxSeenEntries = 100000"

definition maxStateEntries :: nat where
  "maxStateEntries = 250000"

record rule_engine =
  re_index :: rule_index
  re_scopes :: "(feeder_id, scope_state) gomap"
  re_scopeCount :: nat
  re_emergencies :: "(string, state_record) gomap"
  re_emergencySequence :: u64

record eval_acc =
  ev_states :: rule_states
  ev_alerts :: "alert list"
  ev_updates :: "alert_state list"

definition empty_scope :: scope_state where
  "empty_scope = \<lparr> ss_states = [], ss_seen = [], ss_sequence = 0 \<rparr>"

text \<open>\<open>engine.scope(id)\<close>: the scope's state, created when absent.\<close>

definition engine_scope :: "feeder_id \<Rightarrow> rule_engine \<Rightarrow> scope_state \<times> rule_engine" where
  "engine_scope i e =
     (case map_of (re_scopes e) i of
        Some s \<Rightarrow> (s, e)
      | None \<Rightarrow> (empty_scope, e\<lparr> re_scopes := AList.update i empty_scope (re_scopes e), re_scopeCount := re_scopeCount e + 1 \<rparr>))"

definition put_scope :: "feeder_id \<Rightarrow> scope_state \<Rightarrow> rule_engine \<Rightarrow> rule_engine" where
  "put_scope i s e = e\<lparr> re_scopes := AList.update i s (re_scopes e) \<rparr>"

definition get_or :: "'v \<Rightarrow> ('k, 'v) gomap \<Rightarrow> 'k \<Rightarrow> 'v" where
  "get_or d m k = (case map_of m k of None \<Rightarrow> d | Some v \<Rightarrow> v)"

definition restore_state :: "alert_state \<Rightarrow> rule_engine \<Rightarrow> rule_engine" where
  "restore_state st0 e =
     (let st = (if as_FeederScope st0 = [] then st0\<lparr> as_FeederScope := FeederLocal \<rparr> else st0);
          index = re_index e
      in if as_RuleID st > 0 \<and> get_or [] (ri_fingerprints index) (as_RuleID st) \<noteq> as_ConditionFingerprint st then e
         else
           let lastSeen = (if as_LastFiredAt st > as_LastClearAt st then as_LastFiredAt st else as_LastClearAt st);
               rec = \<lparr> sr_state = st, sr_seenSequence = 0,
                       sr_bestEffort = get_or False (ri_bestEffort index) (as_RuleID st), sr_lastSeenAt = lastSeen \<rparr>
           in if as_RuleID st = - 1 then e\<lparr> re_emergencies := AList.update (as_AircraftICAO st) rec (re_emergencies e) \<rparr>
              else
                let (scoped, e1) = engine_scope (as_FeederScope st) e;
                    key = \<lparr> sk_ruleID = as_RuleID st, sk_scope = as_FeederScope st, sk_icao = as_AircraftICAO st \<rparr>
                in put_scope (as_FeederScope st) (scoped\<lparr> ss_states := AList.update key rec (ss_states scoped) \<rparr>) e1)"

definition rules_NewEngine :: "(real \<Rightarrow> string) \<Rightarrow> watch_rule list \<Rightarrow> alert_state list \<Rightarrow> rule_engine" where
  "rules_NewEngine ff rules restored =
     fold restore_state restored
       \<lparr> re_index = BuildIndex ff rules, re_scopes = [], re_scopeCount = 0, re_emergencies = [], re_emergencySequence = 0 \<rparr>"

definition keep_state :: "watch_rule list \<Rightarrow> rule_index \<Rightarrow> state_key \<times> state_record \<Rightarrow> bool" where
  "keep_state rules index e =
     (let (key, rec) = e in
      sk_ruleID key > 0 \<longrightarrow>
        (\<exists>r\<in>set rules. wr_Enabled r \<and> wr_ID r = sk_ruleID key) \<and>
        map_of (ri_fingerprints index) (sk_ruleID key) = Some (as_ConditionFingerprint (sr_state rec)))"

definition ReplaceRules :: "(real \<Rightarrow> string) \<Rightarrow> watch_rule list \<Rightarrow> rule_engine \<Rightarrow> rule_engine" where
  "ReplaceRules ff rules e =
     (let index = BuildIndex ff rules in
      e\<lparr> re_index := index,
         re_scopes := map (\<lambda>(i, s). (i, s\<lparr> ss_states := gm_delete_if (\<lambda>kr. \<not> keep_state rules index kr) (ss_states s) \<rparr>)) (re_scopes e) \<rparr>)"

section \<open>Matching one rule\<close>

definition buildAlert :: "compiled_rule \<Rightarrow> feeder_id \<Rightarrow> aircraft \<Rightarrow> time \<Rightarrow> alert" where
  "buildAlert rule actualScope a now =
     zero_alert\<lparr> al_ID := format_int (wr_ID (cr_rule rule)) @ '':'' @ ac_ICAO a @ '':'' @ format_int (time_unix now),
       al_RuleID := wr_ID (cr_rule rule), al_GuildID := wr_GuildID (cr_rule rule), al_FeederID := actualScope,
       al_UserID := wr_UserID (cr_rule rule), al_AircraftICAO := ac_ICAO a, al_Callsign := ac_Callsign a,
       al_ConditionFingerprint := cr_fingerprint rule, al_Type := wr_Type (cr_rule rule), al_Priority := AlertNormal,
       al_Title := ''Watch rule matched'', al_Description := wr_Type (cr_rule rule) @ '' matched '' @ ac_ICAO a,
       al_Observation := AlertObservationFromAircraft a, al_ObservedAt := now, al_Cooldown := wr_Cooldown (cr_rule rule) \<rparr>"

definition rule_key :: "compiled_rule \<Rightarrow> string \<Rightarrow> state_key" where
  "rule_key rule icao = \<lparr> sk_ruleID = wr_ID (cr_rule rule), sk_scope = normalizedRuleScope (cr_rule rule), sk_icao = icao \<rparr>"

definition ruleState :: "rule_states \<Rightarrow> compiled_rule \<Rightarrow> string \<Rightarrow> state_key \<times> state_record \<times> bool" where
  "ruleState states rule icao =
     (let key = rule_key rule icao in
      case map_of states key of
        None \<Rightarrow> (key, zero_state_record, False)
      | Some rec \<Rightarrow>
          if as_ConditionFingerprint (sr_state rec) \<noteq> cr_fingerprint rule then (key, zero_state_record, False)
          else (key, rec, True))"

definition minimum_of :: "compiled_rule \<Rightarrow> int" where
  "minimum_of rule = (if wr_MinimumObservations (cr_rule rule) < 1 then 2 else wr_MinimumObservations (cr_rule rule))"

text \<open>The state after a match, whether the match was counted, and whether it fires.\<close>

definition match_state :: "compiled_rule \<Rightarrow> time \<Rightarrow> alert_state \<Rightarrow> alert_state \<times> bool \<times> bool" where
  "match_state rule now st =
     (let counted = (\<not> as_Active st \<and> as_ConsecutiveMatches st < minimum_of rule);
          st1 = (if counted then st\<lparr> as_ConsecutiveMatches := as_ConsecutiveMatches st + 1 \<rparr> else st);
          canFire = (\<not> as_Active st1 \<and> as_ConsecutiveMatches st1 \<ge> minimum_of rule \<and>
            (as_LastFiredAt st1 = time_zero \<or> time_sub now (as_LastFiredAt st1) \<ge> wr_Cooldown (cr_rule rule)))
      in (if canFire then st1\<lparr> as_Active := True, as_LastFiredAt := now \<rparr> else st1, counted, canFire))"

definition matchRecord ::
    "state_key \<Rightarrow> state_record \<Rightarrow> bool \<Rightarrow> compiled_rule \<Rightarrow> feeder_id \<Rightarrow> aircraft \<Rightarrow> bool \<Rightarrow> time \<Rightarrow> u64 \<Rightarrow> eval_acc \<Rightarrow> eval_acc" where
  "matchRecord key record0 exists rule actualScope a matches now sequence acc =
     (let rec = record0\<lparr> sr_seenSequence := sequence, sr_bestEffort := wr_BestEffortEnrichment (cr_rule rule), sr_lastSeenAt := now \<rparr> in
      if \<not> matches then
        (if \<not> exists then acc
         else if as_Active (sr_state rec) \<or> as_ConsecutiveMatches (sr_state rec) \<noteq> 0 then
           let st = (sr_state rec)\<lparr> as_Active := False, as_ConsecutiveMatches := 0, as_LastClearAt := now \<rparr>
           in acc\<lparr> ev_states := AList.update key (rec\<lparr> sr_state := st \<rparr>) (ev_states acc), ev_updates := ev_updates acc @ [st] \<rparr>
         else acc\<lparr> ev_states := AList.update key rec (ev_states acc) \<rparr>)
      else
        let st0 = (if as_RuleID (sr_state rec) = 0
                   then zero_alert_state\<lparr> as_RuleID := wr_ID (cr_rule rule), as_FeederScope := sk_scope key,
                          as_AircraftICAO := ac_ICAO a, as_ConditionFingerprint := cr_fingerprint rule \<rparr>
                   else sr_state rec);
            (st2, counted, canFire) = match_state rule now st0
        in acc\<lparr> ev_alerts := (if canFire then ev_alerts acc @ [buildAlert rule actualScope a now] else ev_alerts acc),
                ev_states := AList.update key (rec\<lparr> sr_state := st2 \<rparr>) (ev_states acc),
                ev_updates := (if counted \<or> canFire then ev_updates acc @ [st2] else ev_updates acc) \<rparr>)"

definition match_rule ::
    "feeder_id \<Rightarrow> aircraft \<Rightarrow> time \<Rightarrow> u64 \<Rightarrow> compiled_rule \<Rightarrow> bool \<Rightarrow> eval_acc \<Rightarrow> eval_acc" where
  "match_rule actualScope a now sequence rule matches acc =
     (let (key, rec, exists) = ruleState (ev_states acc) rule (ac_ICAO a)
      in matchRecord key rec exists rule actualScope a matches now sequence acc)"

definition matchAll :: "feeder_id \<Rightarrow> aircraft \<Rightarrow> time \<Rightarrow> u64 \<Rightarrow> compiled_rule list \<Rightarrow> eval_acc \<Rightarrow> eval_acc" where
  "matchAll actualScope a now sequence rules acc =
     fold (\<lambda>rule. match_rule actualScope a now sequence rule True) rules acc"

definition radius_match :: "feeder_id \<Rightarrow> aircraft \<Rightarrow> time \<Rightarrow> u64 \<Rightarrow> compiled_rule \<Rightarrow> eval_acc \<Rightarrow> eval_acc" where
  "radius_match actualScope a now sequence rule acc =
     (let (key, rec, exists) = ruleState (ev_states acc) rule (ac_ICAO a);
          active = (exists \<and> as_Active (sr_state rec));
          threshold = (if active \<and> wr_ExitThreshold (cr_rule rule) > 0 then wr_ExitThreshold (cr_rule rule)
                       else wr_EnterThreshold (cr_rule rule))
      in matchRecord key rec exists rule actualScope a
           (ac_HasDistance a \<and> threshold > 0 \<and> ac_DistanceNM a \<le> threshold) now sequence acc)"

definition altitude_matches :: "aircraft \<Rightarrow> compiled_rule \<Rightarrow> bool" where
  "altitude_matches a rule \<longleftrightarrow> ac_HasAltitude a \<and> real_of_int (ac_AltitudeFeet a) \<ge> wr_EnterThreshold (cr_rule rule) \<and>
     (wr_ExitThreshold (cr_rule rule) \<le> 0 \<or> real_of_int (ac_AltitudeFeet a) \<le> wr_ExitThreshold (cr_rule rule))"

definition first_seen_matches :: "bool \<Rightarrow> duration \<Rightarrow> compiled_rule \<Rightarrow> bool" where
  "first_seen_matches existed gap rule \<longleftrightarrow>
     \<not> existed \<or> (wr_Cooldown (cr_rule rule) > 0 \<and> gap \<ge> wr_Cooldown (cr_rule rule))"

section \<open>Evaluating a snapshot\<close>

definition evaluate_aircraft ::
    "feeder_id \<Rightarrow> scope_index option \<Rightarrow> time \<Rightarrow> u64 \<Rightarrow> aircraft \<Rightarrow>
       (string, seen_record) gomap \<times> eval_acc \<Rightarrow> (string, seen_record) gomap \<times> eval_acc" where
  "evaluate_aircraft actualScope scoped now sequence a sa =
     (let (seen, acc) = sa;
          previous = map_of seen (ac_ICAO a);
          existed = (previous \<noteq> None);
          gap = (case previous of None \<Rightarrow> 0 | Some p \<Rightarrow> time_sub now (se_lastSeen p));
          rec = (case previous of None \<Rightarrow> \<lparr> se_firstSeen = now, se_lastSeen = now \<rparr> | Some p \<Rightarrow> p\<lparr> se_lastSeen := now \<rparr>);
          seen' = AList.update (ac_ICAO a) rec seen
      in case scoped of
           None \<Rightarrow> (seen', acc)
         | Some si \<Rightarrow>
             (let acc1 = matchAll actualScope a now sequence (exact_rules si a) acc;
                  acc2 = fold (radius_match actualScope a now sequence) (si_radius si) acc1;
                  acc3 = fold (\<lambda>r. match_rule actualScope a now sequence r (altitude_matches a r)) (si_altitude si) acc2;
                  acc4 = fold (\<lambda>r. match_rule actualScope a now sequence r (first_seen_matches existed gap r)) (si_firstSeen si) acc3
              in (seen', acc4)))"

definition clear_unseen ::
    "feeder_id \<Rightarrow> time \<Rightarrow> u64 \<Rightarrow> (string, int) gomap \<Rightarrow> state_key \<times> state_record \<Rightarrow> state_record option" where
  "clear_unseen actualScope now sequence byICAO kr =
     (let (key, rec) = kr in
      if sk_scope key \<noteq> actualScope then None
      else if sr_seenSequence rec = sequence \<or> \<not> as_Active (sr_state rec) then None
      else if sr_bestEffort rec \<and> map_of byICAO (sk_icao key) \<noteq> None then None
      else Some (rec\<lparr> sr_state := (sr_state rec)\<lparr> as_Active := False, as_ConsecutiveMatches := 0, as_LastClearAt := now \<rparr> \<rparr>))"

definition clear_pass :: "feeder_id \<Rightarrow> time \<Rightarrow> u64 \<Rightarrow> (string, int) gomap \<Rightarrow> eval_acc \<Rightarrow> eval_acc" where
  "clear_pass actualScope now sequence byICAO acc =
     (let c = clear_unseen actualScope now sequence byICAO in
      acc\<lparr> ev_states := map (\<lambda>(k, r). (k, case c (k, r) of None \<Rightarrow> r | Some r' \<Rightarrow> r')) (ev_states acc),
           ev_updates := ev_updates acc @ List.map_filter (\<lambda>kr. map_option sr_state (c kr)) (ev_states acc) \<rparr>)"

definition scopeCaps :: "rule_engine \<Rightarrow> nat \<times> nat" where
  "scopeCaps e = (let count = max 1 (re_scopeCount e) in (max 1000 (maxSeenEntries div count), max 2500 (maxStateEntries div count)))"

text \<open>The first \<open>n\<close> keys of a list of (key, time) entries sorted by age, deleted from a map.\<close>

definition delete_oldest :: "nat \<Rightarrow> ('k \<times> time) list \<Rightarrow> ('k, 'v) gomap \<Rightarrow> ('k, 'v) gomap" where
  "delete_oldest n entries m = fold (\<lambda>(k, _). AList.delete k) (take n (sort_key snd entries)) m"

definition expired_state :: "time \<Rightarrow> 'k \<times> state_record \<Rightarrow> bool" where
  "expired_state cutoff kr \<longleftrightarrow> (let (_, rec) = kr in
     \<not> as_Active (sr_state rec) \<and> sr_lastSeenAt rec \<noteq> time_zero \<and> sr_lastSeenAt rec < cutoff)"

definition inactive_entries :: "('k, state_record) gomap \<Rightarrow> ('k \<times> time) list" where
  "inactive_entries m = map (\<lambda>(k, r). (k, sr_lastSeenAt r)) (filter (\<lambda>(_, r). \<not> as_Active (sr_state r)) m)"

definition pruneScopeLocked ::
    "scope_state \<Rightarrow> time \<Rightarrow> rule_index option \<Rightarrow> nat \<Rightarrow> nat \<Rightarrow> (nat \<times> nat) \<times> scope_state" where
  "pruneScopeLocked scoped now index seenCap stateCap =
     (let seenCutoff = now - maxSeenRetention index;
          seen1 = gm_delete_if (\<lambda>(_, r). se_lastSeen r < seenCutoff) (ss_seen scoped);
          states1 = gm_delete_if (expired_state (now - stateRetention)) (ss_states scoped);
          seen2 = (if length seen1 > seenCap
                   then delete_oldest (length seen1 - seenCap) (map (\<lambda>(k, r). (k, se_lastSeen r)) seen1) seen1 else seen1);
          states2 = (if length states1 > stateCap
                     then delete_oldest (min (length (inactive_entries states1)) (length states1 - stateCap))
                            (inactive_entries states1) states1 else states1)
      in ((length (ss_seen scoped) - length seen2, length (ss_states scoped) - length states2),
          scoped\<lparr> ss_seen := seen2, ss_states := states2 \<rparr>))"

definition pruneEmergencyLocked ::
    "(string, state_record) gomap \<Rightarrow> time \<Rightarrow> nat \<Rightarrow> nat \<times> (string, state_record) gomap" where
  "pruneEmergencyLocked states now limit =
     (let states1 = gm_delete_if (expired_state (now - stateRetention)) states;
          states2 = (if length states1 \<le> limit then states1
                     else delete_oldest (min (length (inactive_entries states1)) (length states1 - limit))
                            (inactive_entries states1) states1)
      in (length states - length states2, states2))"

definition emergencyDescription :: "aircraft \<Rightarrow> string" where
  "emergencyDescription a =
     (let d0 = ''Emergency state reported'';
          d1 = (if ac_Squawk a \<noteq> [] then d0 @ bullet @ ''squawk '' @ ac_Squawk a else d0)
      in if ac_Emergency a \<noteq> [] \<and> ac_Emergency a \<noteq> ''none'' then d1 @ bullet @ ac_Emergency a else d1)"

definition emergencyAlert :: "feeder_id \<Rightarrow> aircraft \<Rightarrow> time \<Rightarrow> alert" where
  "emergencyAlert actualScope a now =
     zero_alert\<lparr> al_ID := ''emergency:'' @ ac_ICAO a @ '':'' @ format_int (time_unix now), al_FeederID := actualScope,
       al_AircraftICAO := ac_ICAO a, al_Callsign := ac_Callsign a, al_ConditionFingerprint := ''emergency'',
       al_Type := RuleEmergency, al_Priority := AlertEmergency, al_Title := ''Emergency aircraft'',
       al_Description := emergencyDescription a, al_Observation := AlertObservationFromAircraft a, al_ObservedAt := now \<rparr>"

record emergency_acc =
  em_emergencies :: "(string, state_record) gomap"
  em_alerts :: "alert list"
  em_updates :: "alert_state list"

definition evaluateEmergency :: "feeder_id \<Rightarrow> time \<Rightarrow> u64 \<Rightarrow> aircraft \<Rightarrow> emergency_acc \<Rightarrow> emergency_acc" where
  "evaluateEmergency actualScope now sequence a acc =
     (let recognized = EmergencyActive a;
          found = map_of (em_emergencies acc) (ac_ICAO a)
      in if \<not> recognized \<and> found = None then acc
         else if \<not> recognized \<and> actualScope \<noteq> FeederAll \<and> actualScope \<noteq> FeederLocal then acc
         else
           let rec = (case found of None \<Rightarrow> zero_state_record | Some r \<Rightarrow> r)\<lparr> sr_seenSequence := sequence, sr_lastSeenAt := now \<rparr> in
           if \<not> recognized then
             (if as_Active (sr_state rec) then
                let st = (sr_state rec)\<lparr> as_Active := False, as_ConsecutiveMatches := 0, as_LastClearAt := now \<rparr>
                in acc\<lparr> em_emergencies := AList.update (ac_ICAO a) (rec\<lparr> sr_state := st \<rparr>) (em_emergencies acc),
                        em_updates := em_updates acc @ [st] \<rparr>
              else acc\<lparr> em_emergencies := AList.update (ac_ICAO a) rec (em_emergencies acc) \<rparr>)
           else if \<not> as_Active (sr_state rec) then
             let st = zero_alert_state\<lparr> as_RuleID := - 1, as_FeederScope := FeederAll, as_AircraftICAO := ac_ICAO a,
                        as_ConditionFingerprint := ''emergency'', as_LastFiredAt := now, as_ConsecutiveMatches := 1, as_Active := True \<rparr>
             in acc\<lparr> em_emergencies := AList.update (ac_ICAO a) (rec\<lparr> sr_state := st \<rparr>) (em_emergencies acc),
                     em_updates := em_updates acc @ [st], em_alerts := em_alerts acc @ [emergencyAlert actualScope a now] \<rparr>
           else acc\<lparr> em_emergencies := AList.update (ac_ICAO a) rec (em_emergencies acc) \<rparr>)"

text \<open>The emergency section of \<open>Evaluate\<close>: one critical section per snapshot, or one per aircraft.\<close>

definition evaluate_emergencies ::
    "feeder_id \<Rightarrow> time \<Rightarrow> aircraft list \<Rightarrow> rule_engine \<Rightarrow> rule_engine \<times> alert list \<times> alert_state list" where
  "evaluate_emergencies actualScope now aircraft e =
     (if actualScope = FeederAll \<or> actualScope = FeederLocal then
        let sequence = re_emergencySequence e + 1;
            acc = fold (evaluateEmergency actualScope now sequence) aircraft
                    \<lparr> em_emergencies = re_emergencies e, em_alerts = [], em_updates = [] \<rparr>;
            emergencies = (if sequence mod 300 = 0 \<or> length (em_emergencies acc) > maxSeenEntries
                           then snd (pruneEmergencyLocked (em_emergencies acc) now maxSeenEntries) else em_emergencies acc)
        in (e\<lparr> re_emergencySequence := sequence, re_emergencies := emergencies \<rparr>, em_alerts acc, em_updates acc)
      else
        let (sequence, acc) =
              fold (\<lambda>a (sequence, acc). if EmergencyActive a
                      then (sequence + 1, evaluateEmergency actualScope now (sequence + 1) a acc) else (sequence, acc))
                aircraft (re_emergencySequence e, \<lparr> em_emergencies = re_emergencies e, em_alerts = [], em_updates = [] \<rparr>)
        in (e\<lparr> re_emergencySequence := sequence, re_emergencies := em_emergencies acc \<rparr>, em_alerts acc, em_updates acc))"

text \<open>The scope section, with the index loaded at the start of \<open>Evaluate\<close>.\<close>

definition evaluate_scope ::
    "rule_index \<Rightarrow> feeder_id \<Rightarrow> time \<Rightarrow> snapshot \<Rightarrow> rule_engine \<Rightarrow> rule_engine \<times> alert list \<times> alert_state list" where
  "evaluate_scope index actualScope now s e =
     (let (runtime, e1) = engine_scope actualScope e;
          sequence = ss_sequence runtime + 1;
          (seen, acc) = fold (evaluate_aircraft actualScope (index_scope (Some index) actualScope) now sequence)
              (sn_Aircraft s) (ss_seen runtime, \<lparr> ev_states = ss_states runtime, ev_alerts = [], ev_updates = [] \<rparr>);
          acc' = clear_pass actualScope now sequence (sn_ByICAO s) acc;
          runtime' = \<lparr> ss_states = ev_states acc', ss_seen = seen, ss_sequence = sequence \<rparr>;
          (seenCap, stateCap) = scopeCaps e1;
          runtime'' = (if sequence mod 300 = 0 \<or> length seen > seenCap \<or> length (ev_states acc') > stateCap
                       then snd (pruneScopeLocked runtime' now (Some index) seenCap stateCap) else runtime')
      in (put_scope actualScope runtime'' e1, ev_alerts acc', ev_updates acc'))"

definition snapshot_scope :: "snapshot \<Rightarrow> feeder_id" where
  "snapshot_scope s = (if sn_FeederID s = [] then FeederLocal else sn_FeederID s)"

definition rules_Evaluate ::
    "snapshot option \<Rightarrow> time \<Rightarrow> rule_engine \<Rightarrow> rule_engine \<times> alert list \<times> alert_state list" where
  "rules_Evaluate snapshot clock e =
     (case snapshot of
        None \<Rightarrow> (e, [], [])
      | Some s \<Rightarrow>
          let now = (if sn_PublishedAt s = time_zero then clock else sn_PublishedAt s);
              index = re_index e;
              actualScope = snapshot_scope s;
              (e1, alerts1, updates1) = evaluate_emergencies actualScope now (sn_Aircraft s) e;
              (e2, alerts2, updates2) = evaluate_scope index actualScope now s e1
          in (e2, alerts1 @ alerts2, updates1 @ updates2))"

section \<open>Enrichment rules\<close>

fun firstNonEmpty :: "string list \<Rightarrow> string" where
  "firstNonEmpty [] = []"
| "firstNonEmpty (v # vs) = (if trim_space v \<noteq> [] then v else firstNonEmpty vs)"

definition match_values ::
    "rule_map \<Rightarrow> string \<Rightarrow> feeder_id \<Rightarrow> aircraft \<Rightarrow> time \<Rightarrow> u64 \<Rightarrow> eval_acc \<Rightarrow> eval_acc" where
  "match_values m actual actualScope a now sequence acc =
     fold (\<lambda>(expected, rules). fold (\<lambda>r. match_rule actualScope a now sequence r (actual \<noteq> [] \<and> actual = expected)) rules) m acc"

definition EvaluateEnrichment ::
    "enrichment \<Rightarrow> aircraft \<Rightarrow> time \<Rightarrow> time \<Rightarrow> rule_engine \<Rightarrow> rule_engine \<times> alert list \<times> alert_state list" where
  "EvaluateEnrichment value a observedAt0 clock e =
     (if ac_ICAO a = [] \<or> er_ICAO value = [] then (e, [], [])
      else
        let observedAt = (if observedAt0 = time_zero then clock else observedAt0);
            actualScope = (case ac_SeenBy a of [] \<Rightarrow> FeederLocal | [i] \<Rightarrow> i | _ \<Rightarrow> FeederAll)
        in (case index_scope (Some (re_index e)) actualScope of
              None \<Rightarrow> (e, [], [])
            | Some si \<Rightarrow>
                (let (runtime, e1) = engine_scope actualScope e;
                     sequence = ss_sequence runtime + 1;
                     (operator, owner, aircraftType) =
                       (case er_Aircraft value of
                          Some md \<Rightarrow>
                            if er_Found value
                            then (to_upper (trim_space (md_OperatorFlag md)), to_upper (trim_space (md_Owner md)),
                                  to_upper (trim_space (firstNonEmpty [md_ICAOType md, md_AircraftType md])))
                            else ([], [], [])
                        | None \<Rightarrow> ([], [], []));
                     acc0 = \<lparr> ev_states = ss_states runtime, ev_alerts = [], ev_updates = [] \<rparr>;
                     acc1 = match_values (si_operator si) operator actualScope a observedAt sequence acc0;
                     acc2 = match_values (si_owner si) owner actualScope a observedAt sequence acc1;
                     acc3 = match_values (si_aircraftType si) aircraftType actualScope a observedAt sequence acc2
                 in (put_scope actualScope (runtime\<lparr> ss_states := ev_states acc3, ss_sequence := sequence \<rparr>) e1,
                     ev_alerts acc3, ev_updates acc3))))"

section \<open>Maintenance\<close>

definition rules_Prune :: "time \<Rightarrow> time \<Rightarrow> rule_engine \<Rightarrow> (nat \<times> nat) \<times> rule_engine" where
  "rules_Prune now0 clock e =
     (let now = (if now0 = time_zero then clock else now0);
          (seenCap, stateCap) = scopeCaps e;
          pruned = map (\<lambda>(i, s). (i, pruneScopeLocked s now (Some (re_index e)) seenCap stateCap)) (re_scopes e);
          (removed, emergencies) = pruneEmergencyLocked (re_emergencies e) now maxSeenEntries
      in ((sum_list (map (\<lambda>(_, r). fst (fst r)) pruned), sum_list (map (\<lambda>(_, r). snd (fst r)) pruned) + removed),
          e\<lparr> re_scopes := map (\<lambda>(i, r). (i, snd r)) pruned, re_emergencies := emergencies \<rparr>))"

definition rules_Sizes :: "rule_engine \<Rightarrow> nat \<times> nat" where
  "rules_Sizes e = (sum_list (map (\<lambda>(_, s). length (ss_seen s)) (re_scopes e)),
     sum_list (map (\<lambda>(_, s). length (ss_states s)) (re_scopes e)) + length (re_emergencies e))"

end
