(* ===== verification/Rule_Engine_Props.thy ===== *)
theory Rule_Engine_Props
  imports Rule_Engine Rule_Index_Props
begin

text \<open>
  Correctness of the rule engine: the emergency episodes, the hysteresis and cooldown of a
  rule, what clearing and pruning keep, and what replacing the rules resets.
\<close>

section \<open>Emergencies\<close>

definition em_active :: "(string, state_record) gomap \<Rightarrow> string \<Rightarrow> bool" where
  "em_active m k \<longleftrightarrow> (\<exists>r. map_of m k = Some r \<and> as_Active (sr_state r))"

definition aggregate_scope :: "feeder_id \<Rightarrow> bool" where
  "aggregate_scope sc \<longleftrightarrow> sc = FeederAll \<or> sc = FeederLocal"

lemma evaluateEmergency_other:
  "k \<noteq> ac_ICAO a \<Longrightarrow> map_of (em_emergencies (evaluateEmergency sc now q a acc)) k = map_of (em_emergencies acc) k"
  by (simp add: evaluateEmergency_def Let_def)

lemma evaluateEmergency_active:
  "em_active (em_emergencies (evaluateEmergency sc now q a acc)) (ac_ICAO a) \<longleftrightarrow>
     EmergencyActive a \<or> (em_active (em_emergencies acc) (ac_ICAO a) \<and> \<not> aggregate_scope sc)"
  by (auto simp: evaluateEmergency_def Let_def em_active_def aggregate_scope_def zero_state_record_def
      zero_alert_state_def split: option.splits)

lemma evaluateEmergency_alerts:
  "em_alerts (evaluateEmergency sc now q a acc) = em_alerts acc @
     (if EmergencyActive a \<and> \<not> em_active (em_emergencies acc) (ac_ICAO a) then [emergencyAlert sc a now] else [])"
  by (auto simp: evaluateEmergency_def Let_def em_active_def zero_state_record_def zero_alert_state_def split: option.splits)

lemma evaluateEmergency_wf: "gm_wf (em_emergencies acc) \<Longrightarrow> gm_wf (em_emergencies (evaluateEmergency sc now q a acc))"
  by (simp add: evaluateEmergency_def Let_def)

lemma evaluateEmergency_skip:
  "\<not> EmergencyActive a \<Longrightarrow> \<not> aggregate_scope sc \<Longrightarrow> evaluateEmergency sc now q a acc = acc"
  by (simp add: evaluateEmergency_def Let_def aggregate_scope_def)

text \<open>A pass over distinct aircraft, whatever sequence number each is evaluated with.\<close>

fun emergency_pass :: "feeder_id \<Rightarrow> time \<Rightarrow> (u64 \<times> aircraft) list \<Rightarrow> emergency_acc \<Rightarrow> emergency_acc" where
  "emergency_pass sc now [] acc = acc"
| "emergency_pass sc now ((q, a) # qas) acc = emergency_pass sc now qas (evaluateEmergency sc now q a acc)"

lemma em_active_other:
  "k \<noteq> ac_ICAO a \<Longrightarrow> em_active (em_emergencies (evaluateEmergency sc now q a acc)) k = em_active (em_emergencies acc) k"
  by (simp add: em_active_def evaluateEmergency_other)

lemma emergency_pass_spec:
  assumes "distinct (map ac_ICAO (map snd qas))" "gm_wf (em_emergencies acc)"
  shows "gm_wf (em_emergencies (emergency_pass sc now qas acc)) \<and>
    em_alerts (emergency_pass sc now qas acc) = em_alerts acc @
      map (\<lambda>a. emergencyAlert sc a now)
        (filter (\<lambda>a. EmergencyActive a \<and> \<not> em_active (em_emergencies acc) (ac_ICAO a)) (map snd qas)) \<and>
    (\<forall>k. em_active (em_emergencies (emergency_pass sc now qas acc)) k \<longleftrightarrow>
      (\<exists>a\<in>set (map snd qas). ac_ICAO a = k \<and> EmergencyActive a) \<or>
      em_active (em_emergencies acc) k \<and> \<not> (aggregate_scope sc \<and> k \<in> ac_ICAO ` set (map snd qas)))"
  using assms
proof (induction qas arbitrary: acc)
  case (Cons qa qas)
  obtain q a where qa: "qa = (q, a)" by (cases qa)
  let ?acc = "evaluateEmergency sc now q a acc"
  have d: "distinct (map ac_ICAO (map snd qas))" "ac_ICAO a \<notin> ac_ICAO ` set (map snd qas)"
    using Cons.prems(1) qa by (simp_all del: map_map add: image_image)
  note IH = Cons.IH [of ?acc, OF d(1) evaluateEmergency_wf [OF Cons.prems(2)]]
  have "filter (\<lambda>b. EmergencyActive b \<and> \<not> em_active (em_emergencies ?acc) (ac_ICAO b)) (map snd qas) =
      filter (\<lambda>b. EmergencyActive b \<and> \<not> em_active (em_emergencies acc) (ac_ICAO b)) (map snd qas)"
  proof (rule filter_cong [OF refl])
    fix b assume "b \<in> set (map snd qas)"
    then have "ac_ICAO b \<noteq> ac_ICAO a" using d(2) by (metis imageI)
    then show "(EmergencyActive b \<and> \<not> em_active (em_emergencies ?acc) (ac_ICAO b)) =
        (EmergencyActive b \<and> \<not> em_active (em_emergencies acc) (ac_ICAO b))" by (simp add: em_active_other)
  qed
  then have "em_alerts (emergency_pass sc now (qa # qas) acc) = em_alerts acc @
      map (\<lambda>a. emergencyAlert sc a now)
        (filter (\<lambda>a. EmergencyActive a \<and> \<not> em_active (em_emergencies acc) (ac_ICAO a)) (map snd (qa # qas)))"
    using IH by (simp add: qa evaluateEmergency_alerts)
  moreover have "em_active (em_emergencies (emergency_pass sc now (qa # qas) acc)) k \<longleftrightarrow>
      (\<exists>a\<in>set (map snd (qa # qas)). ac_ICAO a = k \<and> EmergencyActive a) \<or>
      em_active (em_emergencies acc) k \<and> \<not> (aggregate_scope sc \<and> k \<in> ac_ICAO ` set (map snd (qa # qas)))" for k
  proof (cases "k = ac_ICAO a")
    case True
    then show ?thesis using IH d(2) by (auto simp: qa evaluateEmergency_active)
  next
    case False
    then show ?thesis using IH by (auto simp: qa em_active_other)
  qed
  ultimately show ?case using IH by (simp add: qa)
qed simp

lemma fold_aggregate_pass:
  "fold (evaluateEmergency sc now q) as acc = emergency_pass sc now (map (Pair q) as) acc"
  by (induction "as" arbitrary: acc) simp_all

lemma fold_feeder_pass:
  assumes "\<not> aggregate_scope sc"
  shows "\<exists>qs. length qs = length as \<and>
    snd (fold (\<lambda>a (q, acc). if EmergencyActive a then (q + 1, evaluateEmergency sc now (q + 1) a acc) else (q, acc)) as (q, acc)) =
      emergency_pass sc now (zip qs as) acc"
proof (induction "as" arbitrary: q acc)
  case (Cons a as)
  show ?case
  proof (cases "EmergencyActive a")
    case True
    obtain qs where "length qs = length as" "snd (fold (\<lambda>a (q, acc). if EmergencyActive a then (q + 1, evaluateEmergency sc now (q + 1) a acc) else (q, acc)) as (q + 1, evaluateEmergency sc now (q + 1) a acc)) =
        emergency_pass sc now (zip qs as) (evaluateEmergency sc now (q + 1) a acc)" using Cons by blast
    then show ?thesis using True by (intro exI [of _ "(q + 1) # qs"]) simp
  next
    case False
    obtain qs where "length qs = length as" "snd (fold (\<lambda>a (q, acc). if EmergencyActive a then (q + 1, evaluateEmergency sc now (q + 1) a acc) else (q, acc)) as (q, acc)) =
        emergency_pass sc now (zip qs as) acc" using Cons by blast
    then show ?thesis using False assms by (intro exI [of _ "q # qs"]) (simp add: evaluateEmergency_skip)
  qed
qed simp

section \<open>Pruning keeps what is active\<close>

lemma fold_delete_get: "map_of (fold (\<lambda>(k, _). AList.delete k) kts m) k = (if k \<in> fst ` set kts then None else map_of m k)"
  by (induction kts arbitrary: m) auto

lemma fold_delete_wf: "gm_wf m \<Longrightarrow> gm_wf (fold (\<lambda>(k, _). AList.delete k) kts m)"
  by (induction kts arbitrary: m) auto

lemma fold_delete_length:
  "gm_wf m \<Longrightarrow> distinct (map fst kts) \<Longrightarrow> fst ` set kts \<subseteq> fst ` set m \<Longrightarrow>
     length (fold (\<lambda>(k, _). AList.delete k) kts m) = length m - length kts"
proof (induction kts arbitrary: m)
  case (Cons kt kts)
  obtain k t where kt: "kt = (k, t)" by (cases kt)
  have "fst ` set kts \<subseteq> fst ` set (AList.delete k m)" 
  proof -
    have "k \<notin> fst ` set kts" "fst ` set kts \<subseteq> fst ` set m" using Cons.prems kt by simp_all
    moreover have "fst ` set (AList.delete k m) = fst ` set m - {k}"
      unfolding set_map [symmetric] delete_keys set_removeAll ..
    ultimately show ?thesis by blast
  qed
  then show ?case using Cons kt by (simp add: gm_length_delete)
qed simp

lemma delete_oldest_wf: "gm_wf m \<Longrightarrow> gm_wf (delete_oldest n es m)"
  by (simp add: delete_oldest_def fold_delete_wf)

lemma delete_oldest_get: "k \<notin> fst ` set es \<Longrightarrow> map_of (delete_oldest n es m) k = map_of m k"
  using set_take_subset [of n "sort_key snd es"] by (auto simp: delete_oldest_def fold_delete_get)

lemma delete_oldest_sub: "map_of (delete_oldest n es m) k = Some v \<Longrightarrow> map_of m k = Some v"
  by (auto simp: delete_oldest_def fold_delete_get split: if_splits)

lemma delete_oldest_length:
  assumes "gm_wf m" "distinct (map fst es)" "fst ` set es \<subseteq> fst ` set m" "n \<le> length es"
  shows "length (delete_oldest n es m) = length m - n"
proof -
  let ?t = "take n (sort_key snd es)"
  have "distinct (map fst (sort_key snd es))" using assms(2) by (simp add: distinct_map)
  then have "distinct (map fst ?t)" by (simp add: take_map [symmetric])
  moreover have "fst ` set ?t \<subseteq> fst ` set m" using assms(3) set_take_subset [of n "sort_key snd es"] by auto
  ultimately show ?thesis using fold_delete_length [OF assms(1), of ?t] assms(4) by (simp add: delete_oldest_def)
qed

lemma inactive_keys:
  "gm_wf m \<Longrightarrow> k \<in> fst ` set (inactive_entries m) \<longleftrightarrow> (\<exists>r. map_of m k = Some r \<and> \<not> as_Active (sr_state r))"
  by (force simp: inactive_entries_def gm_wf_mem)

lemma inactive_distinct: "gm_wf m \<Longrightarrow> distinct (map fst (inactive_entries m))"
proof -
  assume "gm_wf m"
  moreover have "map fst (inactive_entries m) = map fst (filter (\<lambda>(_, r). \<not> as_Active (sr_state r)) m)"
    by (auto simp: inactive_entries_def)
  ultimately show ?thesis by (simp add: gm_wf_def distinct_map_filter)
qed

lemma pruneEmergency_active:
  assumes "gm_wf m"
  shows "gm_wf (snd (pruneEmergencyLocked m now limit)) \<and> em_active (snd (pruneEmergencyLocked m now limit)) k = em_active m k"
proof -
  let ?m = "gm_delete_if (expired_state (now - stateRetention)) m"
  have wf: "gm_wf ?m" using assms by simp
  have act: "em_active ?m k = em_active m k"
    using assms by (auto simp: em_active_def gm_get_delete_if expired_state_def split: option.splits)
  have "em_active (delete_oldest n (inactive_entries ?m) ?m) k = em_active ?m k" for n
  proof (cases "k \<in> fst ` set (inactive_entries ?m)")
    case True
    then have "\<not> em_active ?m k" using inactive_keys [OF wf, of k] by (auto simp: em_active_def)
    then show ?thesis using delete_oldest_sub [of n "inactive_entries ?m" ?m k] by (auto simp: em_active_def)
  qed (simp add: em_active_def delete_oldest_get)
  then show ?thesis using act wf by (simp add: pruneEmergencyLocked_def Let_def delete_oldest_wf)
qed

section \<open>Alerts of the scope section are never emergencies\<close>

definition normal_acc :: "eval_acc \<Rightarrow> bool" where
  "normal_acc acc \<longleftrightarrow> (\<forall>al\<in>set (ev_alerts acc). al_Priority al = AlertNormal)"

lemma matchRecord_normal [inv_intros]: "normal_acc acc \<Longrightarrow> normal_acc (matchRecord key r ex rule sc a m now q acc)"
  by (auto simp: normal_acc_def matchRecord_def Let_def buildAlert_def split: prod.splits)

lemma match_rule_normal [inv_intros]: "normal_acc acc \<Longrightarrow> normal_acc (match_rule sc a now q rule m acc)"
  by (simp add: match_rule_def matchRecord_normal split: prod.splits)

lemma radius_match_normal [inv_intros]: "normal_acc acc \<Longrightarrow> normal_acc (radius_match sc a now q rule acc)"
  by (simp add: radius_match_def Let_def matchRecord_normal split: prod.splits)

lemma fold_inv: "(\<And>x acc. P acc \<Longrightarrow> P (f x acc)) \<Longrightarrow> P acc \<Longrightarrow> P (fold f xs acc)"
  by (induction xs arbitrary: acc) simp_all

lemma evaluate_aircraft_normal:
  "normal_acc (snd sa) \<Longrightarrow> normal_acc (snd (evaluate_aircraft sc si now q a sa))"
  by (cases sa; cases si)
    (auto simp: evaluate_aircraft_def Let_def matchAll_def intro!: fold_inv [where P = normal_acc] intro: inv_intros)

lemma match_values_normal: "normal_acc acc \<Longrightarrow> normal_acc (match_values m v sc a now q acc)"
  unfolding match_values_def by (rule fold_inv) (auto intro!: fold_inv [where P = normal_acc] inv_intros split: prod.splits)

lemma evaluate_scope_normal:
  assumes "evaluate_scope index sc now s e = (e', alerts, updates)"
  shows "(\<forall>al\<in>set alerts. al_Priority al = AlertNormal) \<and> re_emergencies e' = re_emergencies e"
proof -
  obtain runtime e1 where r: "engine_scope sc e = (runtime, e1)" by fastforce
  let ?q = "ss_sequence runtime + 1"
  obtain seen acc where f: "fold (evaluate_aircraft sc (index_scope (Some index) sc) now ?q) (sn_Aircraft s)
      (ss_seen runtime, \<lparr> ev_states = ss_states runtime, ev_alerts = [], ev_updates = [] \<rparr>) = (seen, acc)" by fastforce
  have "normal_acc (snd (fold (evaluate_aircraft sc (index_scope (Some index) sc) now ?q) (sn_Aircraft s)
      (ss_seen runtime, \<lparr> ev_states = ss_states runtime, ev_alerts = [], ev_updates = [] \<rparr>)))"
    by (rule fold_inv [where P = "\<lambda>sa. normal_acc (snd sa)"], erule evaluate_aircraft_normal)
      (simp add: normal_acc_def)
  then have "normal_acc acc" by (simp add: f)
  moreover have "alerts = ev_alerts acc"
    using assms by (simp add: evaluate_scope_def r f clear_pass_def Let_def split: prod.splits)
  moreover have "re_emergencies e1 = re_emergencies e" using r by (auto simp: engine_scope_def split: option.splits)
  ultimately show ?thesis
    using assms by (auto simp: evaluate_scope_def r f normal_acc_def put_scope_def Let_def split: prod.splits)
qed

section \<open>Claims about emergencies\<close>

lemma evaluate_emergencies_spec:
  assumes "gm_wf (re_emergencies e)" "distinct (map ac_ICAO as)" "evaluate_emergencies sc now as e = (e', alerts, updates)"
  shows "gm_wf (re_emergencies e') \<and>
    alerts = map (\<lambda>a. emergencyAlert sc a now) (filter (\<lambda>a. EmergencyActive a \<and> \<not> em_active (re_emergencies e) (ac_ICAO a)) as) \<and>
    (\<forall>k. em_active (re_emergencies e') k \<longleftrightarrow> (\<exists>a\<in>set as. ac_ICAO a = k \<and> EmergencyActive a) \<or>
       em_active (re_emergencies e) k \<and> \<not> (aggregate_scope sc \<and> k \<in> ac_ICAO ` set as))"
proof -
  let ?acc = "\<lparr> em_emergencies = re_emergencies e, em_alerts = [], em_updates = [] \<rparr>"
  have "\<exists>qs. length qs = length as \<and> alerts = em_alerts (emergency_pass sc now (zip qs as) ?acc) \<and>
      (\<forall>k. em_active (re_emergencies e') k = em_active (em_emergencies (emergency_pass sc now (zip qs as) ?acc)) k) \<and>
      (gm_wf (em_emergencies (emergency_pass sc now (zip qs as) ?acc)) \<longrightarrow> gm_wf (re_emergencies e'))"
  proof (cases "aggregate_scope sc")
    case True
    let ?q = "re_emergencySequence e + 1"
    let ?p = "emergency_pass sc now (map (Pair ?q) as) ?acc"
    have z: "zip (replicate (length as) ?q) as = map (Pair ?q) as" by (simp add: zip_replicate1)
    have w: "gm_wf (em_emergencies ?p)"
      using emergency_pass_spec [of "map (Pair ?q) as" ?acc sc now] assms(1,2) by (simp add: comp_def)
    have "alerts = em_alerts ?p \<and> (re_emergencies e' = snd (pruneEmergencyLocked (em_emergencies ?p) now maxSeenEntries) \<or>
        re_emergencies e' = em_emergencies ?p)"
      using assms(3) True by (auto simp: evaluate_emergencies_def aggregate_scope_def fold_aggregate_pass Let_def split: if_splits)
    then show ?thesis using pruneEmergency_active [OF w]
      by (intro exI [of _ "replicate (length as) ?q"]) (auto simp: z)
  next
    case False
    obtain qs where "length qs = length as" "snd (fold (\<lambda>a (q, acc). if EmergencyActive a then (q + 1, evaluateEmergency sc now (q + 1) a acc) else (q, acc)) as (re_emergencySequence e, ?acc)) =
      emergency_pass sc now (zip qs as) ?acc"
      using fold_feeder_pass [OF False] by blast
    then show ?thesis using assms(3) False
      by (intro exI [of _ qs]) (auto simp: evaluate_emergencies_def aggregate_scope_def Let_def split: prod.splits)
  qed
  then obtain qs where qs: "length qs = length as" "alerts = em_alerts (emergency_pass sc now (zip qs as) ?acc)"
      "\<forall>k. em_active (re_emergencies e') k = em_active (em_emergencies (emergency_pass sc now (zip qs as) ?acc)) k"
      "gm_wf (em_emergencies (emergency_pass sc now (zip qs as) ?acc)) \<longrightarrow> gm_wf (re_emergencies e')" by blast
  then have s: "map snd (zip qs as) = as" by simp
  show ?thesis using emergency_pass_spec [of "zip qs as" ?acc sc now, unfolded s, OF assms(2)] assms(1) qs by simp
qed

abbreviation is_emergency :: "alert \<Rightarrow> bool" where
  "is_emergency al \<equiv> al_Priority al = AlertEmergency"

definition snapshot_now :: "snapshot \<Rightarrow> time \<Rightarrow> time" where
  "snapshot_now s clock = (if sn_PublishedAt s = time_zero then clock else sn_PublishedAt s)"

lemma rules_Evaluate_emergencies:
  assumes "gm_wf (re_emergencies e)" "distinct (map ac_ICAO (sn_Aircraft s))"
    and "rules_Evaluate (Some s) clock e = (e', alerts, updates)"
  shows "gm_wf (re_emergencies e') \<and>
    filter is_emergency alerts = map (\<lambda>a. emergencyAlert (snapshot_scope s) a (snapshot_now s clock))
      (filter (\<lambda>a. EmergencyActive a \<and> \<not> em_active (re_emergencies e) (ac_ICAO a)) (sn_Aircraft s)) \<and>
    (\<forall>k. em_active (re_emergencies e') k \<longleftrightarrow> (\<exists>a\<in>set (sn_Aircraft s). ac_ICAO a = k \<and> EmergencyActive a) \<or>
       em_active (re_emergencies e) k \<and> \<not> (aggregate_scope (snapshot_scope s) \<and> k \<in> ac_ICAO ` set (sn_Aircraft s)))"
proof -
  obtain e1 a1 u1 where 1: "evaluate_emergencies (snapshot_scope s) (snapshot_now s clock) (sn_Aircraft s) e = (e1, a1, u1)"
    by (metis prod_cases3)
  obtain e2 a2 u2 where 2: "evaluate_scope (re_index e) (snapshot_scope s) (snapshot_now s clock) s e1 = (e2, a2, u2)"
    by (metis prod_cases3)
  have r: "e' = e2" "alerts = a1 @ a2"
    using assms(3) 1 2 by (auto simp: rules_Evaluate_def snapshot_now_def Let_def split: if_splits)
  note spec = evaluate_emergencies_spec [OF assms(1,2) 1]
  have "filter is_emergency a1 = a1" using spec by (auto simp: filter_id_conv emergencyAlert_def)
  moreover have "filter is_emergency a2 = []" using evaluate_scope_normal [OF 2] by (auto simp: filter_empty_conv)
  ultimately show ?thesis using spec evaluate_scope_normal [OF 2] by (simp add: r)
qed


definition emergency_demo_aircraft :: aircraft where
  "emergency_demo_aircraft = zero_aircraft\<lparr> ac_ICAO := ''A1'', ac_Squawk := ''7700'' \<rparr>"

definition emergency_demo_calm :: aircraft where
  "emergency_demo_calm = zero_aircraft\<lparr> ac_ICAO := ''A1'', ac_Squawk := ''1200'' \<rparr>"

lemma emergency_demo: "EmergencyActive emergency_demo_aircraft" "\<not> EmergencyActive emergency_demo_calm"
  by (code_simp, code_simp)


primrec rules_run :: "snapshot list \<Rightarrow> rule_engine \<Rightarrow> rule_engine \<times> alert list" where
  "rules_run [] e = (e, [])"
| "rules_run (s # ss) e =
     (let (e1, alerts, _) = rules_Evaluate (Some s) 0 e; (e2, rest) = rules_run ss e1 in (e2, alerts @ rest))"

text \<open>Flapping. The local snapshot closes an episode whenever it shows the aircraft without
  an emergency, although the aggregate (which keeps the emergency of any feeder) and the
  feeder that reports it still show one. Evaluating the local and the aggregate snapshot in
  turn, as the application does, raises a new emergency alert in every round.
\<close>

theorem emergency_flapping:
  assumes "gm_wf (re_emergencies e)"
    and "sn_FeederID sL = FeederLocal" "sn_Aircraft sL = [calm]" "\<not> EmergencyActive calm"
    and "sn_FeederID sA = FeederAll" "sn_Aircraft sA = [alarm]" "EmergencyActive alarm"
    and "ac_ICAO calm = ac_ICAO alarm"
  shows "length (filter is_emergency (snd (rules_run (concat (replicate n [sL, sA])) e))) = n"
  using assms(1)
proof (induction n arbitrary: e)
  case (Suc n)
  obtain e1 a1 u1 where 1: "rules_Evaluate (Some sL) 0 e = (e1, a1, u1)" by (metis prod_cases3)
  obtain e2 a2 u2 where 2: "rules_Evaluate (Some sA) 0 e1 = (e2, a2, u2)" by (metis prod_cases3)
  note L = rules_Evaluate_emergencies [OF Suc.prems _ 1]
  have L': "gm_wf (re_emergencies e1)" "filter is_emergency a1 = []" "\<not> em_active (re_emergencies e1) (ac_ICAO alarm)"
    using L assms by (simp_all add: aggregate_scope_def snapshot_scope_def)
  have A': "gm_wf (re_emergencies e2)" "length (filter is_emergency a2) = 1"
    using rules_Evaluate_emergencies [OF L'(1) _ 2] L'(3) assms by simp_all
  show ?case using Suc.IH [OF A'(1)] L'(2) A'(2)
    by (cases "rules_run (concat (replicate n [sL, sA])) e2") (simp add: 1 2)
qed simp

theorem emergency_flapping_witness:
  "length (filter is_emergency (snd (rules_run (concat (replicate 7
     [zero_snapshot\<lparr> sn_FeederID := FeederLocal, sn_Aircraft := [emergency_demo_calm] \<rparr>,
      zero_snapshot\<lparr> sn_FeederID := FeederAll, sn_Aircraft := [emergency_demo_aircraft] \<rparr>])) (rules_NewEngine (\<lambda>_. []) [] [])))) = 7"
  using emergency_demo
  by (intro emergency_flapping [where calm = emergency_demo_calm and alarm = emergency_demo_aircraft])
    (simp_all add: rules_NewEngine_def emergency_demo_calm_def emergency_demo_aircraft_def)

text \<open>
  Enrichment rules never raise an emergency: every alert of \<open>EvaluateEnrichment\<close> has
  normal priority, and the open emergency episodes are untouched.
\<close>

theorem enrichment_never_emergency:
  "filter is_emergency (fst (snd (EvaluateEnrichment v a observedAt clock e))) = [] \<and>
   re_emergencies (fst (EvaluateEnrichment v a observedAt clock e)) = re_emergencies e"
proof -
  have "normal_acc (match_values m3 v3 sc a t q (match_values m2 v2 sc a t q (match_values m1 v1 sc a t q
      \<lparr> ev_states = st, ev_alerts = [], ev_updates = [] \<rparr>)))" for m1 m2 m3 v1 v2 v3 sc t q st
    by (intro match_values_normal) (simp add: normal_acc_def)
  then have n: "filter is_emergency (ev_alerts (match_values m3 v3 sc a t q (match_values m2 v2 sc a t q (match_values m1 v1 sc a t q
      \<lparr> ev_states = st, ev_alerts = [], ev_updates = [] \<rparr>)))) = []" for m1 m2 m3 v1 v2 v3 sc t q st
    by (auto simp: normal_acc_def filter_empty_conv)
  define scope where "scope = (case ac_SeenBy a of [] \<Rightarrow> FeederLocal | [i] \<Rightarrow> i | _ \<Rightarrow> FeederAll)"
  obtain runtime e1 where es: "engine_scope scope e = (runtime, e1)" by (cases "engine_scope scope e")
  then have k: "re_emergencies e1 = re_emergencies e" by (auto simp: engine_scope_def split: option.splits)
  show ?thesis
  proof (cases "ac_ICAO a = [] \<or> er_ICAO v = [] \<or> index_scope (Some (re_index e)) scope = None")
    case True
    then show ?thesis unfolding EvaluateEnrichment_def Let_def scope_def [symmetric] by auto
  next
    case False
    then show ?thesis
      unfolding EvaluateEnrichment_def Let_def scope_def [symmetric] es
      using k by (auto simp: n put_scope_def split_beta)
  qed
qed

section \<open>Hysteresis and cooldown of a rule\<close>

text \<open>
  What can happen to the state of one rule for one aircraft: an observation, matching or
  not, or the sweep at the end of an evaluation.
\<close>

datatype rule_call =
    Observe aircraft bool time u64
  | Sweep feeder_id time u64 "(string, int) gomap"

fun apply_call :: "feeder_id \<Rightarrow> compiled_rule \<Rightarrow> rule_call \<Rightarrow> eval_acc \<Rightarrow> eval_acc" where
  "apply_call sc rule (Observe a m now q) acc = match_rule sc a now q rule m acc"
| "apply_call sc rule (Sweep sc' now q byICAO) acc = clear_pass sc' now q byICAO acc"

fun call_ok :: "string \<Rightarrow> rule_call \<Rightarrow> bool" where
  "call_ok k (Observe a m now q) \<longleftrightarrow> ac_ICAO a = k \<and> now \<noteq> time_zero"
| "call_ok k (Sweep _ _ _ _) \<longleftrightarrow> True"

fun call_match :: "rule_call \<Rightarrow> bool" where
  "call_match (Observe a m now q) \<longleftrightarrow> m"
| "call_match (Sweep _ _ _ _) \<longleftrightarrow> False"

definition spaced :: "compiled_rule \<Rightarrow> alert list \<Rightarrow> bool" where
  "spaced rule als \<longleftrightarrow> (\<forall>i. Suc i < length als \<longrightarrow>
     time_sub (al_ObservedAt (als ! Suc i)) (al_ObservedAt (als ! i)) \<ge> wr_Cooldown (cr_rule rule))"

definition tracked :: "compiled_rule \<Rightarrow> alert list \<Rightarrow> nat \<Rightarrow> state_record option \<Rightarrow> bool" where
  "tracked rule als matched r \<longleftrightarrow> spaced rule als \<and> (\<forall>al\<in>set als. al_ObservedAt al \<noteq> time_zero) \<and>
     (case r of
        None \<Rightarrow> als = []
      | Some r \<Rightarrow>
          as_RuleID (sr_state r) = wr_ID (cr_rule rule) \<and> as_ConditionFingerprint (sr_state r) = cr_fingerprint rule \<and>
          as_LastFiredAt (sr_state r) = (if als = [] then time_zero else al_ObservedAt (last als)) \<and>
          0 \<le> as_ConsecutiveMatches (sr_state r) \<and> as_ConsecutiveMatches (sr_state r) \<le> minimum_of rule \<and>
          minimum_of rule * int (length als) + (if as_Active (sr_state r) then 0 else as_ConsecutiveMatches (sr_state r)) \<le> int matched)"

lemma spaced_snoc:
  assumes "spaced rule als" "als \<noteq> [] \<longrightarrow> time_sub (al_ObservedAt al) (al_ObservedAt (last als)) \<ge> wr_Cooldown (cr_rule rule)"
  shows "spaced rule (als @ [al])"
  using assms by (cases als rule: rev_cases) (auto simp: spaced_def nth_append less_Suc_eq)

lemma map_of_map_key: "map_of (map (\<lambda>(k, v). (k, f k v)) m) k = map_option (f k) (map_of m k)"
  by (induction m) auto

lemma clear_pass_get:
  "map_of (ev_states (clear_pass sc now q b acc)) k =
     map_option (\<lambda>r. case clear_unseen sc now q b (k, r) of None \<Rightarrow> r | Some r' \<Rightarrow> r') (map_of (ev_states acc) k)"
  by (simp add: clear_pass_def Let_def map_of_map_key)

lemma minimum_pos: "minimum_of rule \<ge> 1"
  by (simp add: minimum_of_def)

text \<open>The state machine of \<open>matchRecord\<close> on the rule's own record.\<close>

definition fresh_state :: "compiled_rule \<Rightarrow> string \<Rightarrow> alert_state" where
  "fresh_state rule k = zero_alert_state\<lparr> as_RuleID := wr_ID (cr_rule rule), as_FeederScope := normalizedRuleScope (cr_rule rule),
     as_AircraftICAO := k, as_ConditionFingerprint := cr_fingerprint rule \<rparr>"

lemma match_rule_match:
  assumes "wr_ID (cr_rule rule) \<noteq> 0" "\<forall>r. map_of (ev_states acc) (rule_key rule (ac_ICAO a)) = Some r \<longrightarrow>
      as_RuleID (sr_state r) = wr_ID (cr_rule rule) \<and> as_ConditionFingerprint (sr_state r) = cr_fingerprint rule"
  defines "st \<equiv> (case map_of (ev_states acc) (rule_key rule (ac_ICAO a)) of None \<Rightarrow> fresh_state rule (ac_ICAO a) | Some r \<Rightarrow> sr_state r)"
  shows "\<exists>r. map_of (ev_states (match_rule sc a now q rule True acc)) (rule_key rule (ac_ICAO a)) = Some r \<and>
      sr_state r = fst (match_state rule now st) \<and>
      ev_alerts (match_rule sc a now q rule True acc) =
        ev_alerts acc @ (if snd (snd (match_state rule now st)) then [buildAlert rule sc a now] else [])"
proof (cases "map_of (ev_states acc) (rule_key rule (ac_ICAO a))")
  case None
  then have st: "st = zero_alert_state\<lparr> as_RuleID := wr_ID (cr_rule rule), as_FeederScope := sk_scope (rule_key rule (ac_ICAO a)),
      as_AircraftICAO := ac_ICAO a, as_ConditionFingerprint := cr_fingerprint rule \<rparr>"
    by (simp add: st_def fresh_state_def rule_key_def)
  obtain st2 c f where m: "match_state rule now st = (st2, c, f)" by (metis prod_cases3)
  have z: "as_RuleID (sr_state zero_state_record) = 0" by (simp add: zero_state_record_def zero_alert_state_def)
  show ?thesis using None m z by (simp add: match_rule_def ruleState_def matchRecord_def Let_def st [symmetric])
next
  case (Some r)
  then have st: "sr_state r = st" by (simp add: st_def)
  obtain st2 c f where m: "match_state rule now st = (st2, c, f)" by (metis prod_cases3)
  show ?thesis using Some m assms(1,2) st by (simp add: match_rule_def ruleState_def matchRecord_def Let_def)
qed

lemma match_rule_miss:
  assumes "\<forall>r. map_of (ev_states acc) (rule_key rule (ac_ICAO a)) = Some r \<longrightarrow>
      as_ConditionFingerprint (sr_state r) = cr_fingerprint rule"
  shows "ev_alerts (match_rule sc a now q rule False acc) = ev_alerts acc \<and>
    (case map_of (ev_states acc) (rule_key rule (ac_ICAO a)) of
       None \<Rightarrow> map_of (ev_states (match_rule sc a now q rule False acc)) (rule_key rule (ac_ICAO a)) = None
     | Some r \<Rightarrow> \<exists>r'. map_of (ev_states (match_rule sc a now q rule False acc)) (rule_key rule (ac_ICAO a)) = Some r' \<and>
         as_RuleID (sr_state r') = as_RuleID (sr_state r) \<and>
         as_ConditionFingerprint (sr_state r') = as_ConditionFingerprint (sr_state r) \<and>
         as_LastFiredAt (sr_state r') = as_LastFiredAt (sr_state r) \<and>
         \<not> as_Active (sr_state r') \<and> as_ConsecutiveMatches (sr_state r') = 0)"
  using assms
  by (cases "map_of (ev_states acc) (rule_key rule (ac_ICAO a))")
    (auto simp: match_rule_def ruleState_def matchRecord_def Let_def)

lemma match_state_fields:
  assumes "match_state rule now st = (st', c, fired)"
  shows "as_RuleID st' = as_RuleID st" "as_ConditionFingerprint st' = as_ConditionFingerprint st"
    "as_LastFiredAt st' = (if fired then now else as_LastFiredAt st)" "as_Active st' = (as_Active st \<or> fired)"
    "as_ConsecutiveMatches st' =
       (if \<not> as_Active st \<and> as_ConsecutiveMatches st < minimum_of rule then as_ConsecutiveMatches st + 1 else as_ConsecutiveMatches st)"
    "fired \<Longrightarrow> \<not> as_Active st \<and> minimum_of rule \<le> as_ConsecutiveMatches st' \<and>
       (as_LastFiredAt st = time_zero \<or> time_sub now (as_LastFiredAt st) \<ge> wr_Cooldown (cr_rule rule))"
  using assms by (auto simp: match_state_def Let_def split: if_splits)

lemma tracked_match:
  assumes "tracked rule als n r" "wr_ID (cr_rule rule) \<noteq> 0" "now \<noteq> time_zero"
    and "st = (case r of None \<Rightarrow> fresh_state rule k | Some r \<Rightarrow> sr_state r)" "match_state rule now st = (st', c, fired)"
    and "sr_state r' = st'" "al_ObservedAt al = now"
  shows "tracked rule (als @ (if fired then [al] else [])) (Suc n) (Some r')"
proof -
  have sp: "spaced rule als" "\<forall>al\<in>set als. al_ObservedAt al \<noteq> time_zero" using assms(1) by (simp_all add: tracked_def)
  have st: "as_RuleID st = wr_ID (cr_rule rule) \<and> as_ConditionFingerprint st = cr_fingerprint rule \<and>
    as_LastFiredAt st = (if als = [] then time_zero else al_ObservedAt (last als)) \<and>
    0 \<le> as_ConsecutiveMatches st \<and> as_ConsecutiveMatches st \<le> minimum_of rule \<and>
    minimum_of rule * int (length als) + (if as_Active st then 0 else as_ConsecutiveMatches st) \<le> int n"
  proof (cases r)
    case None
    then show ?thesis using assms(1,4) minimum_pos [of rule]
      by (simp add: tracked_def fresh_state_def zero_alert_state_def)
  next
    case (Some r0)
    then show ?thesis using assms(1,4) by (simp add: tracked_def split: if_splits)
  qed
  note f = match_state_fields [OF assms(5)]
  show ?thesis
  proof (cases fired)
    case False
    then show ?thesis using assms(6) st sp f(1-5) by (simp add: tracked_def split: if_splits)
  next
    case True
    then have "als \<noteq> [] \<longrightarrow> time_sub now (al_ObservedAt (last als)) \<ge> wr_Cooldown (cr_rule rule)"
      using f(6) st sp(2) by (cases "als = []") auto
    then have "spaced rule (als @ [al])" using sp(1) assms(7) by (intro spaced_snoc) simp_all
    moreover have "minimum_of rule * int (length (als @ [al])) \<le> int (Suc n)"
      using f(5) f(6) [OF True] st by (simp add: algebra_simps split: if_splits)
    ultimately show ?thesis using True sp(2) st f(1-5) assms(3,6,7) by (simp add: tracked_def)
  qed
qed

lemma apply_call_tracked:
  assumes "wr_ID (cr_rule rule) \<noteq> 0" "call_ok k call" "ev_alerts acc = pre @ als"
    and "tracked rule als n (map_of (ev_states acc) (rule_key rule k))"
  shows "\<exists>als'. ev_alerts (apply_call sc rule call acc) = pre @ als' \<and>
    tracked rule als' (if call_match call then Suc n else n) (map_of (ev_states (apply_call sc rule call acc)) (rule_key rule k))"
proof (cases call)
  case (Observe a m now q)
  have k: "ac_ICAO a = k" "now \<noteq> time_zero" using assms(2) Observe by simp_all
  have own: "\<forall>r. map_of (ev_states acc) (rule_key rule (ac_ICAO a)) = Some r \<longrightarrow>
      as_RuleID (sr_state r) = wr_ID (cr_rule rule) \<and> as_ConditionFingerprint (sr_state r) = cr_fingerprint rule"
    using assms(4) k by (auto simp: tracked_def)
  show ?thesis
  proof (cases m)
    case True
    let ?st = "case map_of (ev_states acc) (rule_key rule k) of None \<Rightarrow> fresh_state rule k | Some r \<Rightarrow> sr_state r"
    obtain st' c fired where ms: "match_state rule now ?st = (st', c, fired)" by (metis prod_cases3)
    obtain r where r: "map_of (ev_states (match_rule sc a now q rule True acc)) (rule_key rule k) = Some r" "sr_state r = st'"
      "ev_alerts (match_rule sc a now q rule True acc) = ev_alerts acc @ (if fired then [buildAlert rule sc a now] else [])"
      using match_rule_match [OF assms(1) own, of sc now q] k(1) ms by auto
    have "tracked rule (als @ (if fired then [buildAlert rule sc a now] else [])) (Suc n) (Some r)"
      using assms(1,4) k ms r(2)
      by (intro tracked_match [where r = "map_of (ev_states acc) (rule_key rule k)" and st = ?st and k = k])
        (simp_all add: buildAlert_def)
    then show ?thesis using Observe True r assms(3) by simp
  next
    case False
    have "ev_alerts (match_rule sc a now q rule False acc) = pre @ als"
      using match_rule_miss [of acc rule a sc now q] own assms(3) by simp
    moreover have "tracked rule als n (map_of (ev_states (match_rule sc a now q rule False acc)) (rule_key rule k))"
      using match_rule_miss [of acc rule a sc now q] own assms(4) k(1) minimum_pos [of rule]
      by (cases "map_of (ev_states acc) (rule_key rule k)") (auto simp: tracked_def split: if_splits)
    ultimately show ?thesis using Observe False by simp
  qed
next
  case (Sweep sc' now q b)
  have "tracked rule als n (map_of (ev_states (clear_pass sc' now q b acc)) (rule_key rule k))"
    using assms(4) minimum_pos [of rule]
    by (cases "map_of (ev_states acc) (rule_key rule k)")
      (auto simp: tracked_def clear_pass_get clear_unseen_def split: if_splits)
  then show ?thesis using Sweep assms(3) by (intro exI [of _ als]) (simp add: clear_pass_def Let_def)
qed

lemma apply_calls_tracked:
  assumes "wr_ID (cr_rule rule) \<noteq> 0" "\<forall>c\<in>set calls. call_ok k c" "ev_alerts acc = pre @ als"
    and "tracked rule als n (map_of (ev_states acc) (rule_key rule k))"
  shows "\<exists>als'. ev_alerts (fold (apply_call sc rule) calls acc) = pre @ als' \<and>
    tracked rule als' (n + length (filter call_match calls)) (map_of (ev_states (fold (apply_call sc rule) calls acc)) (rule_key rule k))"
  using assms
proof (induction calls arbitrary: acc als n)
  case (Cons c calls)
  obtain als1 where "ev_alerts (apply_call sc rule c acc) = pre @ als1"
    "tracked rule als1 (if call_match c then Suc n else n) (map_of (ev_states (apply_call sc rule c acc)) (rule_key rule k))"
    using apply_call_tracked [OF Cons.prems(1) _ Cons.prems(3,4), of c sc] Cons.prems(2) by auto
  from Cons.IH [OF Cons.prems(1) _ this] Cons.prems(2) show ?case by (cases "call_match c") simp_all
qed auto


definition cooldown_demo_rule :: compiled_rule where
  "cooldown_demo_rule = compile_rule (\<lambda>_. []) \<lparr> wr_ID = 7, wr_GuildID = 1, wr_FeederScope = [], wr_UserID = 2,
     wr_ServerScope = False, wr_Type = RuleICAO, wr_Value = ''a1'', wr_Enabled = True, wr_Cooldown = 60,
     wr_MinimumObservations = 2, wr_EnterThreshold = 0, wr_ExitThreshold = 0, wr_BestEffortEnrichment = False,
     wr_CreatedAt = 0, wr_UpdatedAt = 0 \<rparr>"


section \<open>Bounded memory\<close>

lemma delete_if_sub: "gm_wf m \<Longrightarrow> map_of (gm_delete_if P m) k = Some v \<Longrightarrow> map_of m k = Some v \<and> \<not> P (k, v)"
  by (auto simp: gm_get_delete_if split: option.splits if_splits)

lemma pruneScopeLocked_bounds:
  assumes "gm_wf (ss_seen s)" "gm_wf (ss_states s)"
  shows "length (ss_seen (snd (pruneScopeLocked s now ix seenCap stateCap))) \<le> seenCap"
    "length (ss_states (snd (pruneScopeLocked s now ix seenCap stateCap))) \<le> stateCap \<or>
       (\<forall>k r. map_of (ss_states (snd (pruneScopeLocked s now ix seenCap stateCap))) k = Some r \<longrightarrow> as_Active (sr_state r))"
proof -
  let ?seen = "gm_delete_if (\<lambda>(_, r). se_lastSeen r < now - maxSeenRetention ix) (ss_seen s)"
  let ?es = "map (\<lambda>(k, r). (k, se_lastSeen r)) ?seen"
  have wf: "gm_wf ?seen" using assms by simp
  have keys: "map fst ?es = map fst ?seen" by auto
  have "length (delete_oldest (length ?seen - seenCap) ?es ?seen) = length ?seen - (length ?seen - seenCap)"
  proof (intro delete_oldest_length)
    show "distinct (map fst ?es)" using wf unfolding keys gm_wf_def .
    show "fst ` set ?es \<subseteq> fst ` set ?seen" by force
  qed (use wf in simp_all)
  then show "length (ss_seen (snd (pruneScopeLocked s now ix seenCap stateCap))) \<le> seenCap"
    by (simp add: pruneScopeLocked_def Let_def)
next
  let ?st = "gm_delete_if (expired_state (now - stateRetention)) (ss_states s)"
  let ?es = "inactive_entries ?st" and ?n = "min (length (inactive_entries ?st)) (length ?st - stateCap)"
  have wf: "gm_wf ?st" using assms by simp
  have len: "length (delete_oldest ?n ?es ?st) = length ?st - ?n"
    using wf by (intro delete_oldest_length inactive_distinct) (force simp: inactive_entries_def)+
  show "length (ss_states (snd (pruneScopeLocked s now ix seenCap stateCap))) \<le> stateCap \<or>
       (\<forall>k r. map_of (ss_states (snd (pruneScopeLocked s now ix seenCap stateCap))) k = Some r \<longrightarrow> as_Active (sr_state r))"
  proof (cases "length ?st \<le> stateCap")
    case True
    then show ?thesis by (simp add: pruneScopeLocked_def Let_def)
  next
    case big: False
    then have r: "ss_states (snd (pruneScopeLocked s now ix seenCap stateCap)) = delete_oldest ?n ?es ?st"
      by (simp add: pruneScopeLocked_def Let_def)
    show ?thesis
    proof (cases "length ?st - stateCap \<le> length ?es")
      case True
      then show ?thesis using len big by (simp add: r min_def)
    next
      case False
      then have "?n = length ?es" by simp
      then have all: "map_of (delete_oldest ?n ?es ?st) k = (if k \<in> fst ` set ?es then None else map_of ?st k)" for k
        by (simp add: delete_oldest_def fold_delete_get)
      have "as_Active (sr_state v)" if "map_of (delete_oldest ?n ?es ?st) k = Some v" for k v
        using that inactive_keys [OF wf, of k] unfolding all by (auto split: if_splits)
      then show ?thesis by (simp only: r) blast
    qed
  qed
qed

lemma pruneScopeLocked_active:
  assumes "gm_wf (ss_states s)" "map_of (ss_states s) k = Some r" "as_Active (sr_state r)"
  shows "map_of (ss_states (snd (pruneScopeLocked s now ix seenCap stateCap))) k = Some r"
proof -
  let ?st = "gm_delete_if (expired_state (now - stateRetention)) (ss_states s)"
  have wf: "gm_wf ?st" using assms by simp
  have k: "map_of ?st k = Some r" using assms by (simp add: gm_get_delete_if expired_state_def)
  then have "k \<notin> fst ` set (inactive_entries ?st)" using assms(3) inactive_keys [OF wf, of k] by auto
  then show ?thesis using k by (simp add: pruneScopeLocked_def Let_def delete_oldest_get)
qed

section \<open>The scope section as a whole\<close>

definition scope_wf :: "scope_state \<Rightarrow> bool" where
  "scope_wf s \<longleftrightarrow> gm_wf (ss_states s) \<and> gm_wf (ss_seen s)"

definition rules_wf :: "rule_engine \<Rightarrow> bool" where
  "rules_wf e \<longleftrightarrow> (\<forall>i s. map_of (re_scopes e) i = Some s \<longrightarrow> scope_wf s)"

lemma matchRecord_wf [inv_intros]: "gm_wf (ev_states acc) \<Longrightarrow> gm_wf (ev_states (matchRecord key r ex rule sc a m now q acc))"
  by (simp add: matchRecord_def Let_def split: prod.splits)

lemma match_rule_wf [inv_intros]: "gm_wf (ev_states acc) \<Longrightarrow> gm_wf (ev_states (match_rule sc a now q rule m acc))"
  by (simp add: match_rule_def matchRecord_wf split: prod.splits)

lemma radius_match_wf [inv_intros]: "gm_wf (ev_states acc) \<Longrightarrow> gm_wf (ev_states (radius_match sc a now q rule acc))"
  by (simp add: radius_match_def Let_def matchRecord_wf split: prod.splits)

lemma evaluate_aircraft_wf:
  "gm_wf (fst sa) \<and> gm_wf (ev_states (snd sa)) \<Longrightarrow>
     gm_wf (fst (evaluate_aircraft sc si now q a sa)) \<and> gm_wf (ev_states (snd (evaluate_aircraft sc si now q a sa)))"
  by (cases sa; cases si)
    (auto simp: evaluate_aircraft_def Let_def matchAll_def intro!: fold_inv [where P = "\<lambda>acc. gm_wf (ev_states acc)"] intro: inv_intros)

lemma map_fst_map: "map fst (map (\<lambda>(k, r). (k, f k r)) m) = map fst m"
  by (induction m) auto

lemma clear_pass_wf: "gm_wf (ev_states acc) \<Longrightarrow> gm_wf (ev_states (clear_pass sc now q b acc))"
  unfolding gm_wf_def by (simp add: clear_pass_def Let_def map_fst_map del: map_map)

lemma pruneScopeLocked_wf: "scope_wf s \<Longrightarrow> scope_wf (snd (pruneScopeLocked s now ix c1 c2))"
  by (simp add: scope_wf_def pruneScopeLocked_def Let_def delete_oldest_wf)

lemma pruneScopeLocked_sub:
  assumes "scope_wf s" "map_of (ss_states (snd (pruneScopeLocked s now ix c1 c2))) k = Some r"
  shows "map_of (ss_states s) k = Some r"
proof -
  let ?st = "gm_delete_if (expired_state (now - stateRetention)) (ss_states s)"
  have "map_of ?st k = Some r"
    using assms(2) delete_oldest_sub [of _ "inactive_entries ?st" ?st k r]
    by (simp add: pruneScopeLocked_def Let_def split: if_splits)
  moreover have "gm_wf (ss_states s)" using assms(1) by (simp add: scope_wf_def)
  ultimately show ?thesis using delete_if_sub [of "ss_states s" "expired_state (now - stateRetention)" k r] by simp
qed

text \<open>The state of a scope before pruning, and that pruning is the only thing after it.\<close>

lemma evaluate_scope_cases:
  assumes "rules_wf e" "evaluate_scope index sc now s e = (e', alerts, updates)"
  obtains rt acc rt' where
    "scope_wf rt" "ss_states rt = ev_states (clear_pass sc now (ss_sequence rt) (sn_ByICAO s) acc)"
    "map_of (re_scopes e') = (map_of (re_scopes e))(sc \<mapsto> rt')" "scopeCaps e' = (c1, c2) \<Longrightarrow>
      (rt' = rt \<and> length (ss_seen rt) \<le> c1 \<and> length (ss_states rt) \<le> c2) \<or> rt' = snd (pruneScopeLocked rt now (Some index) c1 c2)"
    "ss_sequence rt' = ss_sequence rt"
proof -
  obtain runtime e1 where r: "engine_scope sc e = (runtime, e1)" by fastforce
  let ?q = "ss_sequence runtime + 1"
  let ?acc0 = "\<lparr> ev_states = ss_states runtime, ev_alerts = [], ev_updates = [] \<rparr>"
  let ?f = "evaluate_aircraft sc (index_scope (Some index) sc) now ?q"
  obtain seen acc where f: "fold ?f (sn_Aircraft s) (ss_seen runtime, ?acc0) = (seen, acc)" by fastforce
  obtain d1 d2 where caps: "scopeCaps e1 = (d1, d2)" by fastforce
  have run: "scope_wf runtime" "map_of (re_scopes e1) = (map_of (re_scopes e))(sc \<mapsto> runtime)"
    using assms(1) r by (auto simp: engine_scope_def rules_wf_def empty_scope_def scope_wf_def fun_eq_iff split: option.splits)
  have "gm_wf (fst (fold ?f (sn_Aircraft s) (ss_seen runtime, ?acc0))) \<and>
      gm_wf (ev_states (snd (fold ?f (sn_Aircraft s) (ss_seen runtime, ?acc0))))"
    by (rule fold_inv [where P = "\<lambda>sa. gm_wf (fst sa) \<and> gm_wf (ev_states (snd sa))"], erule evaluate_aircraft_wf)
      (use run(1) in \<open>simp add: scope_wf_def\<close>)
  then have wf: "gm_wf seen" "gm_wf (ev_states acc)" by (simp_all add: f)
  let ?acc = "clear_pass sc now ?q (sn_ByICAO s) acc"
  define rt where "rt = \<lparr> ss_states = ev_states ?acc, ss_seen = seen, ss_sequence = ?q \<rparr>"
  define rt' where "rt' = (if ?q mod 300 = 0 \<or> length seen > d1 \<or> length (ev_states ?acc) > d2
      then snd (pruneScopeLocked rt now (Some index) d1 d2) else rt)"
  have "evaluate_scope index sc now s e = (put_scope sc rt' e1, ev_alerts ?acc, ev_updates ?acc)"
    unfolding evaluate_scope_def Let_def r prod.case f caps rt'_def rt_def ..
  then have e': "e' = put_scope sc rt' e1" using assms(2) by simp
  show thesis
  proof (rule that [of rt acc rt'])
    show "scope_wf rt" using wf by (simp add: rt_def scope_wf_def clear_pass_wf)
    show "ss_states rt = ev_states (clear_pass sc now (ss_sequence rt) (sn_ByICAO s) acc)" by (simp add: rt_def)
    show "map_of (re_scopes e') = (map_of (re_scopes e))(sc \<mapsto> rt')" by (simp add: e' put_scope_def run(2))
    show "ss_sequence rt' = ss_sequence rt" by (simp add: rt'_def pruneScopeLocked_def Let_def)
    assume "scopeCaps e' = (c1, c2)"
    then have "c1 = d1" "c2 = d2" using caps by (simp_all add: e' put_scope_def scopeCaps_def)
    then show "(rt' = rt \<and> length (ss_seen rt) \<le> c1 \<and> length (ss_states rt) \<le> c2) \<or>
        rt' = snd (pruneScopeLocked rt now (Some index) c1 c2)"
      unfolding rt'_def by (auto simp: rt_def)
  qed
qed

lemma clear_pass_active:
  assumes "map_of (ev_states (clear_pass sc now q b acc)) k = Some r" "as_Active (sr_state r)" "sk_scope k = sc"
  shows "sr_seenSequence r = q \<or> sr_bestEffort r \<and> map_of b (sk_icao k) \<noteq> None"
proof -
  obtain r0 where r0: "map_of (ev_states acc) k = Some r0"
    "r = (case clear_unseen sc now q b (k, r0) of None \<Rightarrow> r0 | Some r' \<Rightarrow> r')"
    using assms(1) by (auto simp: clear_pass_get)
  show ?thesis
  proof (cases "clear_unseen sc now q b (k, r0)")
    case None
    then show ?thesis using r0 assms(2,3) by (auto simp: clear_unseen_def split: if_splits)
  next
    case (Some r')
    then have "\<not> as_Active (sr_state r)" using r0 by (auto simp: clear_unseen_def split: if_splits)
    with assms(2) show ?thesis by simp
  qed
qed



section \<open>Replacing the rules\<close>

text \<open>
  Replacing the rules. The new index is the one of the new rules, and in every scope a
  state survives, unchanged, exactly when it belongs to no rule (a non-positive identifier)
  or to a rule that is still enabled, of a known type, and whose condition (type, normalised
  value, thresholds) is the one the state was recorded under: an edited rule starts afresh.
\<close>

theorem replace_rules:
  assumes "rules_wf e" "distinct (map wr_ID rules)"
  shows "re_index (ReplaceRules ff rules e) = BuildIndex ff rules \<and>
    (\<forall>i s. map_of (re_scopes e) i = Some s \<longrightarrow> (\<exists>s'. map_of (re_scopes (ReplaceRules ff rules e)) i = Some s' \<and>
      ss_seen s' = ss_seen s \<and> ss_sequence s' = ss_sequence s \<and>
      (\<forall>k r. map_of (ss_states s') k = Some r \<longleftrightarrow> map_of (ss_states s) k = Some r \<and>
         (sk_ruleID k > 0 \<longrightarrow> (\<exists>rule\<in>set rules. indexed rule \<and> wr_ID rule = sk_ruleID k \<and>
            cr_fingerprint (compile_rule ff rule) = as_ConditionFingerprint (sr_state r))))))"
proof (intro conjI allI impI)
  show "re_index (ReplaceRules ff rules e) = BuildIndex ff rules" by (simp add: ReplaceRules_def Let_def)
next
  fix i s assume s: "map_of (re_scopes e) i = Some s"
  let ?ix = "BuildIndex ff rules"
  let ?s = "s\<lparr> ss_states := gm_delete_if (\<lambda>kr. \<not> keep_state rules ?ix kr) (ss_states s) \<rparr>"
  have wf: "gm_wf (ss_states s)" using assms(1) s by (auto simp: rules_wf_def scope_wf_def)
  have keep: "keep_state rules ?ix (k, r) \<longleftrightarrow> (sk_ruleID k > 0 \<longrightarrow> (\<exists>rule\<in>set rules. indexed rule \<and> wr_ID rule = sk_ruleID k \<and>
            cr_fingerprint (compile_rule ff rule) = as_ConditionFingerprint (sr_state r)))" for k r
    by (auto simp: keep_state_def BuildIndex_fingerprints [OF assms(2)] indexed_def)
  have "map_of (ss_states ?s) k = Some r \<longleftrightarrow> map_of (ss_states s) k = Some r \<and> keep_state rules ?ix (k, r)" for k r
    by (auto simp: gm_get_delete_if [OF wf] split: option.splits)
  moreover have "map_of (re_scopes (ReplaceRules ff rules e)) i = Some ?s"
    using s by (simp add: ReplaceRules_def Let_def map_of_map_snd)
  ultimately show "\<exists>s'. map_of (re_scopes (ReplaceRules ff rules e)) i = Some s' \<and>
      ss_seen s' = ss_seen s \<and> ss_sequence s' = ss_sequence s \<and>
      (\<forall>k r. map_of (ss_states s') k = Some r \<longleftrightarrow> map_of (ss_states s) k = Some r \<and>
         (sk_ruleID k > 0 \<longrightarrow> (\<exists>rule\<in>set rules. indexed rule \<and> wr_ID rule = sk_ruleID k \<and>
            cr_fingerprint (compile_rule ff rule) = as_ConditionFingerprint (sr_state r))))"
    by (intro exI [of _ ?s]) (simp add: keep)
qed

definition replace_demo_engine :: rule_engine where
  "replace_demo_engine = (rules_NewEngine (\<lambda>_. []) [] [])\<lparr> re_scopes := [(FeederLocal, \<lparr>
     ss_states = [(\<lparr> sk_ruleID = 3, sk_scope = FeederLocal, sk_icao = ''A1'' \<rparr>, zero_state_record)], ss_seen = [], ss_sequence = 4 \<rparr>)] \<rparr>"

theorem replace_rules_witness:
  "\<exists>s'. map_of (re_scopes (ReplaceRules (\<lambda>_. []) [] replace_demo_engine)) FeederLocal = Some s' \<and> ss_sequence s' = 4 \<and>
     map_of (ss_states s') \<lparr> sk_ruleID = 3, sk_scope = FeederLocal, sk_icao = ''A1'' \<rparr> = None"
proof -
  let ?k = "\<lparr> sk_ruleID = 3, sk_scope = FeederLocal, sk_icao = ''A1'' \<rparr>"
  have "rules_wf replace_demo_engine" by (simp add: replace_demo_engine_def rules_wf_def scope_wf_def gm_wf_def)
  moreover obtain s where s: "map_of (re_scopes replace_demo_engine) FeederLocal = Some s" "ss_sequence s = 4"
    by (simp add: replace_demo_engine_def)
  ultimately obtain s' where s': "map_of (re_scopes (ReplaceRules (\<lambda>_. []) [] replace_demo_engine)) FeederLocal = Some s'"
    "ss_sequence s' = 4" "\<forall>k r. map_of (ss_states s') k = Some r \<longrightarrow> \<not> sk_ruleID k > 0"
    using replace_rules [of replace_demo_engine "[]" "\<lambda>_. []"] by force
  have "map_of (ss_states s') ?k \<noteq> Some r" for r using s'(3) by force
  with s'(1,2) have "map_of (re_scopes (ReplaceRules (\<lambda>_. []) [] replace_demo_engine)) FeederLocal = Some s'"
    "ss_sequence s' = 4" "map_of (ss_states s') ?k = None" by auto
  then show ?thesis by auto
qed

end
