(* ===== verification/Alert_Queue.thy ===== *)
theory Alert_Queue
  imports Rule_Engine
begin

text \<open>
  \<open>internal/rules/queue.go\<close>: the alert queue. A buffered channel is a list with a capacity,
  oldest first. \<open>Enqueue\<close> and \<open>Pop\<close> are given twice: as functions for callers that run
  alone, and as the steps they consist of, which interleave: an enqueuer of a normal alert
  holds the mutex and may find the channel drained between two of its channel operations; a
  popper first looks at the emergencies, then waits on both channels, and forgets the key of
  a normal alert only after it has taken it out. In a \<open>select\<close> with several ready cases the
  choice is free.
\<close>

record queue =
  q_emergency :: "alert list"
  q_normal :: "alert list"
  q_emergencyCap :: nat
  q_normalCap :: nat
  q_pending :: "(string, unit) gomap"
  q_dropped :: u64
  q_coalesced :: u64

datatype queue_error = ErrAlertQueueFull | ErrAlertQueueFullContext

definition NewQueue :: "nat \<Rightarrow> nat \<Rightarrow> queue" where
  "NewQueue emergencyCapacity normalCapacity = \<lparr> q_emergency = [], q_normal = [], q_emergencyCap = emergencyCapacity,
     q_normalCap = normalCapacity, q_pending = [], q_dropped = 0, q_coalesced = 0 \<rparr>"

definition alert_key :: "alert \<Rightarrow> string" where
  "alert_key al = al_ConditionFingerprint al @ '':'' @ al_AircraftICAO al"

section \<open>The steps\<close>

definition send_emergency :: "alert \<Rightarrow> queue \<Rightarrow> queue option" where
  "send_emergency al q = (if length (q_emergency q) < q_emergencyCap q then Some (q\<lparr> q_emergency := q_emergency q @ [al] \<rparr>) else None)"

definition send_normal :: "alert \<Rightarrow> queue \<Rightarrow> queue option" where
  "send_normal al q = (if length (q_normal q) < q_normalCap q then Some (q\<lparr> q_normal := q_normal q @ [al] \<rparr>) else None)"

definition drop_one :: "queue \<Rightarrow> queue" where
  "drop_one q = q\<lparr> q_dropped := q_dropped q + 1 \<rparr>"

definition mark_pending :: "alert \<Rightarrow> queue \<Rightarrow> queue" where
  "mark_pending al q = q\<lparr> q_pending := AList.update (alert_key al) () (q_pending q) \<rparr>"

definition clear_pending :: "alert \<Rightarrow> queue \<Rightarrow> queue" where
  "clear_pending al q = q\<lparr> q_pending := AList.delete (alert_key al) (q_pending q) \<rparr>"

definition coalesce :: "queue \<Rightarrow> queue" where
  "coalesce q = q\<lparr> q_coalesced := q_coalesced q + 1 \<rparr>"

text \<open>Making room: the oldest normal alert is taken out if there is one.\<close>

definition evict_oldest :: "queue \<Rightarrow> queue" where
  "evict_oldest q =
     (case q_normal q of
        [] \<Rightarrow> q
      | oldest # rest \<Rightarrow> drop_one (clear_pending oldest (q\<lparr> q_normal := rest \<rparr>)))"

section \<open>The operations of a caller that runs alone\<close>

text \<open>
  \<open>done\<close>: the context is finished; \<open>pick\<close>: which case a \<open>select\<close> takes when both are
  ready. \<open>None\<close>: the call blocks.
\<close>

definition Enqueue :: "bool \<Rightarrow> bool \<Rightarrow> alert \<Rightarrow> queue \<Rightarrow> ((queue_error + unit) \<times> queue) option" where
  "Enqueue done pick al q =
     (if al_Priority al = AlertEmergency then
        (case send_emergency al q of
           Some q' \<Rightarrow> if done \<and> \<not> pick then Some (Inl ErrAlertQueueFullContext, drop_one q) else Some (Inr (), q')
         | None \<Rightarrow> if done then Some (Inl ErrAlertQueueFullContext, drop_one q) else None)
      else if map_of (q_pending q) (alert_key al) \<noteq> None then Some (Inr (), coalesce q)
      else
        let q1 = mark_pending al q in
        (case send_normal al q1 of
           Some q2 \<Rightarrow> Some (Inr (), q2)
         | None \<Rightarrow>
             let q2 = evict_oldest q1 in
             (case send_normal al q2 of
                Some q3 \<Rightarrow> Some (Inr (), q3)
              | None \<Rightarrow> Some (Inl ErrAlertQueueFull, drop_one (clear_pending al q2)))))"

definition Pop :: "bool \<Rightarrow> bool \<Rightarrow> queue \<Rightarrow> (alert option \<times> queue) option" where
  "Pop done pick q =
     (case q_emergency q of
        al # rest \<Rightarrow> Some (Some al, q\<lparr> q_emergency := rest \<rparr>)
      | [] \<Rightarrow>
          (case q_normal q of
             [] \<Rightarrow> if done then Some (None, q) else None
           | al # rest \<Rightarrow>
               if done \<and> \<not> pick then Some (None, q)
               else Some (Some al, clear_pending al (q\<lparr> q_normal := rest \<rparr>))))"

definition Depth :: "queue \<Rightarrow> nat \<times> nat" where
  "Depth q = (length (q_emergency q), length (q_normal q))"

section \<open>Concurrent callers\<close>

datatype enqueuer = Unlocked | Making alert | Retrying alert

record queue_sys =
  qs_queue :: queue
  qs_lock :: enqueuer
  qs_waiting :: nat
  qs_inflight :: "alert list"
  qs_delivered :: "alert list"
  qs_accepted :: "alert list"
  qs_calls :: nat

definition queue_init :: "nat \<Rightarrow> nat \<Rightarrow> queue_sys" where
  "queue_init ecap ncap = \<lparr> qs_queue = NewQueue ecap ncap, qs_lock = Unlocked, qs_waiting = 0, qs_inflight = [],
     qs_delivered = [], qs_accepted = [], qs_calls = 0 \<rparr>"

inductive queue_step :: "queue_sys \<Rightarrow> queue_sys \<Rightarrow> bool" where
  emergency_send: "al_Priority al = AlertEmergency \<Longrightarrow> send_emergency al (qs_queue s) = Some q \<Longrightarrow>
     queue_step s (s\<lparr> qs_queue := q, qs_accepted := qs_accepted s @ [al], qs_calls := qs_calls s + 1 \<rparr>)"
| emergency_timeout: "al_Priority (al :: alert) = AlertEmergency \<Longrightarrow>
     queue_step s (s\<lparr> qs_queue := drop_one (qs_queue s), qs_calls := qs_calls s + 1 \<rparr>)"
| normal_coalesce: "al_Priority al = AlertNormal \<Longrightarrow> qs_lock s = Unlocked \<Longrightarrow>
     map_of (q_pending (qs_queue s)) (alert_key al) \<noteq> None \<Longrightarrow>
     queue_step s (s\<lparr> qs_queue := coalesce (qs_queue s), qs_calls := qs_calls s + 1 \<rparr>)"
| normal_send: "al_Priority al = AlertNormal \<Longrightarrow> qs_lock s = Unlocked \<Longrightarrow>
     map_of (q_pending (qs_queue s)) (alert_key al) = None \<Longrightarrow> send_normal al (mark_pending al (qs_queue s)) = Some q \<Longrightarrow>
     queue_step s (s\<lparr> qs_queue := q, qs_calls := qs_calls s + 1 \<rparr>)"
| normal_full: "al_Priority al = AlertNormal \<Longrightarrow> qs_lock s = Unlocked \<Longrightarrow>
     map_of (q_pending (qs_queue s)) (alert_key al) = None \<Longrightarrow> send_normal al (mark_pending al (qs_queue s)) = None \<Longrightarrow>
     queue_step s (s\<lparr> qs_queue := mark_pending al (qs_queue s), qs_lock := Making al, qs_calls := qs_calls s + 1 \<rparr>)"
| make_room: "qs_lock s = Making al \<Longrightarrow>
     queue_step s (s\<lparr> qs_queue := evict_oldest (qs_queue s), qs_lock := Retrying al \<rparr>)"
| retry_send: "qs_lock s = Retrying al \<Longrightarrow> send_normal al (qs_queue s) = Some q \<Longrightarrow>
     queue_step s (s\<lparr> qs_queue := q, qs_lock := Unlocked \<rparr>)"
| retry_fail: "qs_lock s = Retrying al \<Longrightarrow> send_normal al (qs_queue s) = None \<Longrightarrow>
     queue_step s (s\<lparr> qs_queue := drop_one (clear_pending al (qs_queue s)), qs_lock := Unlocked \<rparr>)"
| pop_first: "q_emergency (qs_queue s) = al # rest \<Longrightarrow>
     queue_step s (s\<lparr> qs_queue := (qs_queue s)\<lparr> q_emergency := rest \<rparr>, qs_delivered := qs_delivered s @ [al] \<rparr>)"
| pop_wait: "q_emergency (qs_queue s) = [] \<Longrightarrow> queue_step s (s\<lparr> qs_waiting := qs_waiting s + 1 \<rparr>)"
| pop_cancel: "qs_waiting s > 0 \<Longrightarrow> queue_step s (s\<lparr> qs_waiting := qs_waiting s - 1 \<rparr>)"
| pop_emergency: "qs_waiting s > 0 \<Longrightarrow> q_emergency (qs_queue s) = al # rest \<Longrightarrow>
     queue_step s (s\<lparr> qs_queue := (qs_queue s)\<lparr> q_emergency := rest \<rparr>, qs_delivered := qs_delivered s @ [al],
       qs_waiting := qs_waiting s - 1 \<rparr>)"
| pop_normal: "qs_waiting s > 0 \<Longrightarrow> q_normal (qs_queue s) = al # rest \<Longrightarrow>
     queue_step s (s\<lparr> qs_queue := (qs_queue s)\<lparr> q_normal := rest \<rparr>, qs_inflight := qs_inflight s @ [al],
       qs_waiting := qs_waiting s - 1 \<rparr>)"
| pop_return: "qs_lock s = Unlocked \<Longrightarrow> al \<in> set (qs_inflight s) \<Longrightarrow>
     queue_step s (s\<lparr> qs_queue := clear_pending al (qs_queue s), qs_inflight := remove1 al (qs_inflight s),
       qs_delivered := qs_delivered s @ [al] \<rparr>)"

inductive queue_reachable :: "queue_sys \<Rightarrow> queue_sys \<Rightarrow> bool" for s0 where
  init: "queue_reachable s0 s0"
| step: "queue_reachable s0 s \<Longrightarrow> queue_step s t \<Longrightarrow> queue_reachable s0 t"

section \<open>The invariant\<close>

fun held :: "enqueuer \<Rightarrow> alert list" where
  "held Unlocked = []"
| "held (Making al) = [al]"
| "held (Retrying al) = [al]"

definition outstanding :: "queue_sys \<Rightarrow> alert list" where
  "outstanding s = q_normal (qs_queue s) @ qs_inflight s @ held (qs_lock s)"

definition inv_caps :: "queue_sys \<Rightarrow> bool" where
  "inv_caps s \<longleftrightarrow> length (q_emergency (qs_queue s)) \<le> q_emergencyCap (qs_queue s) \<and>
     length (q_normal (qs_queue s)) \<le> q_normalCap (qs_queue s) \<and>
     (\<forall>al. qs_lock s = Retrying al \<longrightarrow> q_normalCap (qs_queue s) = 0 \<or> length (q_normal (qs_queue s)) < q_normalCap (qs_queue s))"

definition inv_kinds :: "queue_sys \<Rightarrow> bool" where
  "inv_kinds s \<longleftrightarrow> (\<forall>al\<in>set (q_emergency (qs_queue s)). al_Priority al = AlertEmergency) \<and>
     (\<forall>al\<in>set (outstanding s). al_Priority al = AlertNormal)"

definition inv_keys :: "queue_sys \<Rightarrow> bool" where
  "inv_keys s \<longleftrightarrow> distinct (map alert_key (outstanding s)) \<and>
     dom (map_of (q_pending (qs_queue s))) = set (map alert_key (outstanding s))"

definition inv_fifo :: "queue_sys \<Rightarrow> bool" where
  "inv_fifo s \<longleftrightarrow>
     filter (\<lambda>al. al_Priority al = AlertEmergency) (qs_delivered s) @ q_emergency (qs_queue s) = qs_accepted s"

definition inv_count :: "queue_sys \<Rightarrow> bool" where
  "inv_count s \<longleftrightarrow> of_nat (qs_calls s) =
     of_nat (length (qs_delivered s) + length (q_emergency (qs_queue s)) + length (outstanding s)) +
       q_dropped (qs_queue s) + q_coalesced (qs_queue s)"

lemma send_emergency_Some: "send_emergency al q = Some q' \<longleftrightarrow>
    length (q_emergency q) < q_emergencyCap q \<and> q' = q\<lparr> q_emergency := q_emergency q @ [al] \<rparr>"
  by (auto simp: send_emergency_def)

lemma send_normal_Some: "send_normal al q = Some q' \<longleftrightarrow>
    length (q_normal q) < q_normalCap q \<and> q' = q\<lparr> q_normal := q_normal q @ [al] \<rparr>"
  by (auto simp: send_normal_def)

lemma send_normal_None: "send_normal al q = None \<longleftrightarrow> q_normalCap q \<le> length (q_normal q)"
  by (simp add: send_normal_def not_less)

lemmas queue_simps = send_emergency_Some send_normal_Some send_normal_None drop_one_def mark_pending_def
  clear_pending_def coalesce_def evict_oldest_def

lemma inv_caps_step: "queue_step s t \<Longrightarrow> inv_caps s \<Longrightarrow> inv_caps t"
  by (induction rule: queue_step.induct) (auto simp: inv_caps_def queue_simps split: list.splits)

lemma inv_kinds_step: "queue_step s t \<Longrightarrow> inv_kinds s \<Longrightarrow> inv_kinds t"
  by (induction rule: queue_step.induct)
    (auto simp: inv_kinds_def outstanding_def queue_simps split: list.splits dest: notin_set_remove1 in_set_remove1 [THEN iffD1] set_remove1_subset [THEN subsetD])

lemma inv_fifo_step: "queue_step s t \<Longrightarrow> inv_kinds s \<Longrightarrow> inv_fifo s \<Longrightarrow> inv_fifo t"
  by (induction rule: queue_step.induct)
    (auto simp: inv_fifo_def inv_kinds_def outstanding_def queue_simps split: list.splits)

lemma inv_count_step: "queue_step s t \<Longrightarrow> inv_count s \<Longrightarrow> inv_count t"
proof (induction rule: queue_step.induct)
  case (pop_return s al)
  then have "length (qs_inflight s) = Suc (length (remove1 al (qs_inflight s)))"
    by (simp add: length_remove1) (metis Suc_pred length_pos_if_in_set)
  with pop_return show ?case by (simp add: inv_count_def outstanding_def queue_simps algebra_simps)
qed (auto simp: inv_count_def outstanding_def queue_simps algebra_simps split: list.splits)

lemma inv_keys_perm:
  "mset (outstanding t) = mset (outstanding s) \<Longrightarrow> q_pending (qs_queue t) = q_pending (qs_queue s) \<Longrightarrow> inv_keys s \<Longrightarrow> inv_keys t"
  unfolding inv_keys_def by (metis (no_types, lifting) mset_map mset_eq_imp_distinct_iff mset_eq_setD)

lemma inv_keys_add:
  assumes "inv_keys s" "map_of (q_pending (qs_queue s)) (alert_key al) = None"
    "mset (outstanding t) = add_mset al (mset (outstanding s))" "q_pending (qs_queue t) = AList.update (alert_key al) () (q_pending (qs_queue s))"
  shows "inv_keys t"
proof -
  have "alert_key al \<notin> set (map alert_key (outstanding s))" using assms(1,2) unfolding inv_keys_def by (metis domIff)
  moreover have m: "mset (map alert_key (outstanding t)) = mset (alert_key al # map alert_key (outstanding s))" using assms(3) by simp
  then have "distinct (map alert_key (outstanding t)) = distinct (alert_key al # map alert_key (outstanding s))"
    "set (map alert_key (outstanding t)) = set (alert_key al # map alert_key (outstanding s))"
    using mset_eq_imp_distinct_iff [OF m] mset_eq_setD [OF m] by blast+
  ultimately show ?thesis using assms(1,4) unfolding inv_keys_def by simp
qed

lemma inv_keys_remove:
  assumes "inv_keys s" "mset (outstanding s) = add_mset al (mset (outstanding t))"
    "q_pending (qs_queue t) = AList.delete (alert_key al) (q_pending (qs_queue s))"
  shows "inv_keys t"
proof -
  have m: "mset (map alert_key (outstanding s)) = mset (alert_key al # map alert_key (outstanding t))" using assms(2) by simp
  then have "distinct (map alert_key (outstanding s)) = distinct (alert_key al # map alert_key (outstanding t))"
    "set (map alert_key (outstanding s)) = set (alert_key al # map alert_key (outstanding t))"
    using mset_eq_imp_distinct_iff [OF m] mset_eq_setD [OF m] by blast+
  then show ?thesis using assms(1,3) unfolding inv_keys_def by auto
qed

lemma inv_keys_step: "queue_step s t \<Longrightarrow> inv_keys s \<Longrightarrow> inv_keys t"
proof (induction rule: queue_step.induct)
  case (normal_send al s q)
  then have q: "q = (mark_pending al (qs_queue s))\<lparr> q_normal := q_normal (qs_queue s) @ [al] \<rparr>"
    by (simp add: send_normal_Some mark_pending_def)
  show ?case by (rule inv_keys_add [OF normal_send.prems normal_send.hyps(3)])
    (simp_all add: outstanding_def q mark_pending_def normal_send.hyps(2))
next
  case (normal_full al s)
  show ?case by (rule inv_keys_add [OF normal_full.prems normal_full.hyps(3)])
    (simp_all add: outstanding_def mark_pending_def normal_full.hyps(2))
next
  case (make_room s al)
  show ?case
  proof (cases "q_normal (qs_queue s)")
    case Nil
    then show ?thesis using make_room.hyps
      by (intro inv_keys_perm [OF _ _ make_room.prems]) (simp_all add: outstanding_def evict_oldest_def)
  next
    case (Cons oldest rest)
    then show ?thesis using make_room.hyps
      by (intro inv_keys_remove [OF make_room.prems, of oldest])
        (simp_all add: outstanding_def evict_oldest_def drop_one_def clear_pending_def)
  qed
next
  case (retry_send s al q)
  then show ?case by (intro inv_keys_perm [OF _ _ retry_send.prems]) (simp_all add: outstanding_def send_normal_Some)
next
  case (retry_fail s al)
  then show ?case by (intro inv_keys_remove [OF retry_fail.prems, of al])
    (simp_all add: outstanding_def drop_one_def clear_pending_def)
next
  case (pop_return s al)
  then show ?case by (intro inv_keys_remove [OF pop_return.prems, of al])
    (simp_all add: outstanding_def clear_pending_def)
next
  case (pop_normal s al rest)
  then show ?case by (intro inv_keys_perm [OF _ _ pop_normal.prems]) (simp_all add: outstanding_def)
qed (simp_all add: inv_keys_def outstanding_def send_emergency_Some drop_one_def coalesce_def)

definition queue_inv :: "queue_sys \<Rightarrow> bool" where
  "queue_inv s \<longleftrightarrow> inv_caps s \<and> inv_kinds s \<and> inv_keys s \<and> inv_fifo s \<and> inv_count s"

lemma queue_init_inv: "queue_inv (queue_init ecap ncap)"
  by (simp add: queue_inv_def inv_caps_def inv_kinds_def inv_keys_def inv_fifo_def inv_count_def queue_init_def
      NewQueue_def outstanding_def)

lemma queue_step_inv: "queue_step s t \<Longrightarrow> queue_inv s \<Longrightarrow> queue_inv t"
  by (auto simp: queue_inv_def intro: inv_caps_step inv_kinds_step inv_keys_step inv_fifo_step inv_count_step)

lemma queue_reachable_inv: "queue_reachable s0 s \<Longrightarrow> queue_inv s0 \<Longrightarrow> queue_inv s"
  by (induction rule: queue_reachable.induct) (auto intro: queue_step_inv)

text \<open>
  C6. The alert queue under concurrency. However enqueuers and poppers interleave, both
  channels stay within their capacity; at most one undelivered normal alert exists per
  coalescing key, and the pending keys are exactly those of the undelivered normal alerts (so
  no key stays blocked after its alert has left); accepted emergencies are delivered in the
  order they were accepted and none is lost; and every call is accounted for as delivered,
  queued, dropped or coalesced.
\<close>

theorem queue_concurrent:
  assumes "queue_reachable (queue_init ecap ncap) s"
  shows "length (q_emergency (qs_queue s)) \<le> q_emergencyCap (qs_queue s) \<and>
    length (q_normal (qs_queue s)) \<le> q_normalCap (qs_queue s) \<and>
    distinct (map alert_key (outstanding s)) \<and>
    dom (map_of (q_pending (qs_queue s))) = alert_key ` set (outstanding s) \<and>
    filter (\<lambda>al. al_Priority al = AlertEmergency) (qs_delivered s) @ q_emergency (qs_queue s) = qs_accepted s \<and>
    of_nat (qs_calls s) = of_nat (length (qs_delivered s) + length (q_emergency (qs_queue s)) + length (outstanding s)) +
       q_dropped (qs_queue s) + q_coalesced (qs_queue s)"
  using queue_reachable_inv [OF assms queue_init_inv]
  unfolding queue_inv_def inv_caps_def inv_keys_def inv_fifo_def inv_count_def by simp

theorem queue_concurrent_witness:
  "length (q_normal (qs_queue ((queue_init 4 4)\<lparr> qs_waiting := 1 \<rparr>))) \<le> 4"
proof -
  have "queue_step (queue_init 4 4) ((queue_init 4 4)\<lparr> qs_waiting := qs_waiting (queue_init 4 4) + 1 \<rparr>)"
    by (rule queue_step.pop_wait) (simp add: queue_init_def NewQueue_def)
  then have "queue_reachable (queue_init 4 4) ((queue_init 4 4)\<lparr> qs_waiting := 1 \<rparr>)"
    by (intro queue_reachable.step [OF queue_reachable.init]) (simp add: queue_init_def)
  from queue_concurrent [OF this] show ?thesis by (simp add: queue_init_def NewQueue_def)
qed

text \<open>Two watchers of the same condition. The coalescing key is the condition's fingerprint
  and the aircraft, not the rule or its owner: when the alerts of two rules with the same
  condition are queued one after the other, the second is discarded as a duplicate, and its
  owner is never told.
\<close>

theorem second_watcher_unheard:
  assumes "cr_fingerprint r1 = cr_fingerprint r2" "alert_key ` set (q_normal q) \<subseteq> dom (map_of (q_pending q))"
    and "Enqueue done1 pick1 (buildAlert r1 sc a t1) q = Some (Inr (), q1)"
  shows "Enqueue done2 pick2 (buildAlert r2 sc a t2) q1 = Some (Inr (), coalesce q1)"
proof -
  let ?al = "buildAlert r1 sc a t1" and ?b = "buildAlert r2 sc a t2"
  have n: "al_Priority ?al = AlertNormal" "al_Priority ?b = AlertNormal" "alert_key ?b = alert_key ?al"
    using assms(1) by (simp_all add: buildAlert_def alert_key_def)
  have "map_of (q_pending q1) (alert_key ?al) \<noteq> None"
  proof (cases "map_of (q_pending q) (alert_key ?al) = None")
    case False
    then show ?thesis using assms(3) n by (auto simp: Enqueue_def coalesce_def)
  next
    case True
    show ?thesis
    proof (cases "q_normal q")
      case Nil
      then show ?thesis using assms(3) True n
        by (auto simp: Enqueue_def Let_def send_normal_Some evict_oldest_def mark_pending_def
            drop_one_def clear_pending_def split: option.splits if_splits)
    next
      case (Cons x xs)
      have ne: "alert_key x \<noteq> alert_key ?al" using assms(2) True Cons by auto
      show ?thesis using assms(3) True n ne Cons
        by (auto simp: Enqueue_def Let_def send_normal_Some evict_oldest_def mark_pending_def
            drop_one_def clear_pending_def split: option.splits if_splits)
    qed
  qed
  then show ?thesis using n by (simp add: Enqueue_def)
qed

definition queue_demo_rule :: "int \<Rightarrow> u64 \<Rightarrow> compiled_rule" where
  "queue_demo_rule i user = compile_rule (\<lambda>_. []) \<lparr> wr_ID = i, wr_GuildID = 1, wr_FeederScope = [], wr_UserID = user,
     wr_ServerScope = False, wr_Type = RuleICAO, wr_Value = ''a1'', wr_Enabled = True, wr_Cooldown = 60,
     wr_MinimumObservations = 2, wr_EnterThreshold = 0, wr_ExitThreshold = 0, wr_BestEffortEnrichment = False,
     wr_CreatedAt = 0, wr_UpdatedAt = 0 \<rparr>"

theorem second_watcher_unheard_witness:
  "\<exists>q1. Enqueue False True (buildAlert (queue_demo_rule 1 100) FeederLocal zero_aircraft 5) (NewQueue 2 2) = Some (Inr (), q1) \<and>
     Enqueue False True (buildAlert (queue_demo_rule 2 200) FeederLocal zero_aircraft 5) q1 = Some (Inr (), coalesce q1)"
proof -
  obtain q1 where q1: "Enqueue False True (buildAlert (queue_demo_rule 1 100) FeederLocal zero_aircraft 5) (NewQueue 2 2) = Some (Inr (), q1)"
    by (simp add: Enqueue_def buildAlert_def NewQueue_def send_normal_def mark_pending_def Let_def)
  have "cr_fingerprint (queue_demo_rule 1 100) = cr_fingerprint (queue_demo_rule 2 200)"
    by (simp add: queue_demo_rule_def compile_rule_def Let_def)
  from second_watcher_unheard [OF this _ q1] q1 show ?thesis by (simp add: NewQueue_def)
qed

end
