(* ===== verification/Feeder_Monitor.thy ===== *)
theory Feeder_Monitor
  imports Domain
begin

text \<open>
  \<open>internal/rules/feeder.go\<close>: the monitor that announces a feeder source going offline and
  coming back. It is fed the published snapshots one after another; \<open>outage\<close> says of a
  history of statuses, with no state, whether the source is considered offline, and the
  monitor's alerts are exactly the changes of it. \<open>clock\<close> is what \<open>time.Now\<close> returns
  when a snapshot has no publication time.
\<close>

section \<open>The code\<close>

record feeder_state =
  fst_offline :: bool
  fst_recoverySamples :: int

definition zero_feeder_state :: feeder_state where
  "zero_feeder_state = \<lparr> fst_offline = False, fst_recoverySamples = 0 \<rparr>"

type_synonym feeder_monitor = "(string, feeder_state) gomap"

definition NewFeederMonitor :: feeder_monitor where
  "NewFeederMonitor = []"

definition restore_fingerprint :: "string \<Rightarrow> feeder_monitor \<Rightarrow> feeder_monitor" where
  "restore_fingerprint fingerprint m =
     (case split_on CHR '':'' fingerprint of
        [p0, p1, p2] \<Rightarrow>
          if p0 \<noteq> ''feeder'' then m
          else if map_of m p2 \<noteq> None then m
          else if p1 = ''offline'' then AList.update p2 (zero_feeder_state\<lparr> fst_offline := True \<rparr>) m
          else if p1 = ''recovered'' then AList.update p2 zero_feeder_state m
          else m
      | _ \<Rightarrow> m)"

definition feeder_Restore :: "string list \<Rightarrow> feeder_monitor \<Rightarrow> feeder_monitor" where
  "feeder_Restore fingerprints m = fold restore_fingerprint fingerprints m"

definition offline_alert :: "u64 \<Rightarrow> time \<Rightarrow> string \<Rightarrow> alert" where
  "offline_alert guildID now name = zero_alert\<lparr>
     al_ID := ''feeder-offline:'' @ name @ '':'' @ format_int (time_unix now), al_GuildID := guildID, al_Type := RuleFeeder,
     al_Priority := (if name = ''aircraft'' then AlertEmergency else AlertNormal), al_Title := ''Feeder source offline'',
     al_Description := name @ '' source is offline'', al_ConditionFingerprint := ''feeder:offline:'' @ name, al_ObservedAt := now \<rparr>"

definition recovered_alert :: "u64 \<Rightarrow> time \<Rightarrow> string \<Rightarrow> alert" where
  "recovered_alert guildID now name = zero_alert\<lparr>
     al_ID := ''feeder-recovered:'' @ name @ '':'' @ format_int (time_unix now), al_GuildID := guildID, al_Type := RuleFeeder,
     al_Priority := AlertNormal, al_Title := ''Feeder source recovered'',
     al_Description := name @ '' source recovered and is stable'', al_ConditionFingerprint := ''feeder:recovered:'' @ name,
     al_ObservedAt := now \<rparr>"

definition evaluate_source :: "u64 \<Rightarrow> time \<Rightarrow> string \<times> source_health \<Rightarrow> alert list \<times> feeder_monitor \<Rightarrow> alert list \<times> feeder_monitor" where
  "evaluate_source guildID now source acc =
     (let (name, health) = source; (alerts, m) = acc; status = sh_Status health in
      if status = HealthDisabled then (alerts, AList.delete name m)
      else
        let state = (case map_of m name of None \<Rightarrow> zero_feeder_state | Some st \<Rightarrow> st);
            (alerts', state') =
              (if status = HealthOffline then
                 let st = state\<lparr> fst_recoverySamples := 0 \<rparr> in
                 (if \<not> fst_offline st then (alerts @ [offline_alert guildID now name], st\<lparr> fst_offline := True \<rparr>)
                  else (alerts, st))
               else if fst_offline state \<and> status = HealthHealthy then
                 let st = state\<lparr> fst_recoverySamples := fst_recoverySamples state + 1 \<rparr> in
                 (if fst_recoverySamples st \<ge> 2
                  then (alerts @ [recovered_alert guildID now name], st\<lparr> fst_offline := False, fst_recoverySamples := 0 \<rparr>)
                  else (alerts, st))
               else if status \<noteq> HealthHealthy then (alerts, state\<lparr> fst_recoverySamples := 0 \<rparr>)
               else (alerts, state))
        in (alerts', AList.update name state' m))"

definition feeder_sources :: "snapshot \<Rightarrow> (string \<times> source_health) list" where
  "feeder_sources s = [(''aircraft'', he_Aircraft (sn_Health s)), (''receiver'', he_Receiver (sn_Health s)), (''stats'', he_Stats (sn_Health s))]"

definition feeder_Evaluate :: "time \<Rightarrow> u64 \<Rightarrow> snapshot option \<Rightarrow> feeder_monitor \<Rightarrow> alert list \<times> feeder_monitor" where
  "feeder_Evaluate clock guildID snapshot m =
     (case snapshot of
        None \<Rightarrow> ([], m)
      | Some s \<Rightarrow>
          let now = (if sn_PublishedAt s = time_zero then clock else sn_PublishedAt s) in
          fold (evaluate_source guildID now) (feeder_sources s) ([], m))"

section \<open>What an outage is\<close>

text \<open>
  A source is out when it was offline at some sample, has not been disabled since, and has
  not been healthy at two samples in a row since.
\<close>

definition outage :: "health_status list \<Rightarrow> bool" where
  "outage h \<longleftrightarrow> (\<exists>i < length h. h ! i = HealthOffline \<and> HealthDisabled \<notin> set (drop (Suc i) h) \<and>
     \<not> sublist [HealthHealthy, HealthHealthy] (drop (Suc i) h))"

definition status_of :: "string \<Rightarrow> snapshot \<Rightarrow> health_status" where
  "status_of name s = sh_Status (the (map_of (feeder_sources s) name))"

text \<open>The alert that a source's history \<open>h\<close> with the new sample \<open>x\<close> calls for.\<close>

definition due_alert :: "u64 \<Rightarrow> time \<Rightarrow> string \<Rightarrow> health_status list \<Rightarrow> health_status \<Rightarrow> alert list" where
  "due_alert guildID now name h x =
     (if \<not> outage h \<and> outage (h @ [x]) then [offline_alert guildID now name]
      else if outage h \<and> \<not> outage (h @ [x]) \<and> x \<noteq> HealthDisabled then [recovered_alert guildID now name]
      else [])"

lemma sublist_pair_snoc:
  "sublist [a, b] (xs @ [y]) \<longleftrightarrow> sublist [a, b] xs \<or> (xs \<noteq> [] \<and> last xs = a \<and> y = b)"
proof -
  have "suffix [a, b] (xs @ [y]) \<longleftrightarrow> xs \<noteq> [] \<and> last xs = a \<and> y = b"
    by (cases xs rule: rev_cases) (auto simp: suffix_def)
  then show ?thesis by (auto simp: sublist_snoc)
qed

lemma outage_Nil [simp]: "\<not> outage []"
  by (simp add: outage_def)

definition outage_from :: "health_status list \<Rightarrow> nat \<Rightarrow> bool" where
  "outage_from h i \<longleftrightarrow> h ! i = HealthOffline \<and> HealthDisabled \<notin> set (drop (Suc i) h) \<and>
     \<not> sublist [HealthHealthy, HealthHealthy] (drop (Suc i) h)"

lemma outage_from_snoc:
  assumes "i < length h"
  shows "outage_from (h @ [x]) i \<longleftrightarrow> outage_from h i \<and> x \<noteq> HealthDisabled \<and> (x = HealthHealthy \<longrightarrow> last h \<noteq> HealthHealthy)"
proof (cases "Suc i < length h")
  case True
  then have "drop (Suc i) h \<noteq> []" "last (drop (Suc i) h) = last h" by (simp_all add: last_drop)
  then show ?thesis using True by (auto simp: outage_from_def nth_append sublist_pair_snoc)
next
  case False
  then have n: "Suc i = length h" using assms by simp
  moreover from this have "h \<noteq> []" "length h - 1 = i" by auto
  ultimately have "drop (Suc i) h = []" "last h = h ! i" by (simp_all add: last_conv_nth)
  moreover have "\<not> sublist [HealthHealthy, HealthHealthy] [x]" using sublist_length_le by fastforce
  ultimately show ?thesis using n assms by (auto simp: outage_from_def nth_append)
qed

lemma outage_from_last: "outage_from (h @ [x]) (length h) \<longleftrightarrow> x = HealthOffline"
  by (simp add: outage_from_def)

lemma outage_snoc_iff:
  "outage (h @ [x]) \<longleftrightarrow> x = HealthOffline \<or>
     (x \<noteq> HealthDisabled \<and> outage h \<and> (x = HealthHealthy \<longrightarrow> last h \<noteq> HealthHealthy))"
proof -
  have ex: "outage g \<longleftrightarrow> (\<exists>i<length g. outage_from g i)" for g
    by (simp add: outage_def outage_from_def)
  have "outage (h @ [x]) \<longleftrightarrow> outage_from (h @ [x]) (length h) \<or> (\<exists>i<length h. outage_from (h @ [x]) i)"
    unfolding ex length_append_singleton less_Suc_eq by blast
  then show ?thesis unfolding ex outage_from_last using outage_from_snoc by blast
qed

section \<open>The monitor follows the outages\<close>

definition state_at :: "feeder_monitor \<Rightarrow> string \<Rightarrow> feeder_state" where
  "state_at m name = (case map_of m name of None \<Rightarrow> zero_feeder_state | Some st \<Rightarrow> st)"

definition tracks :: "health_status list \<Rightarrow> feeder_state \<Rightarrow> bool" where
  "tracks h st \<longleftrightarrow> fst_offline st = outage h \<and> fst_recoverySamples st = (if outage h \<and> last h = HealthHealthy then 1 else 0)"

lemma state_at_update [simp]: "state_at (AList.update k v m) name = (if name = k then v else state_at m name)"
  by (simp add: state_at_def)

lemma state_at_delete [simp]: "state_at (AList.delete k m) name = (if name = k then zero_feeder_state else state_at m name)"
  by (simp add: state_at_def)

lemma tracks_Nil: "tracks [] (state_at NewFeederMonitor name)"
  by (simp add: tracks_def state_at_def NewFeederMonitor_def zero_feeder_state_def)

lemma evaluate_source_tracks:
  assumes "tracks h (state_at m name)"
  shows "\<exists>m'. evaluate_source g now (name, hl) (alerts, m) = (alerts @ due_alert g now name h (sh_Status hl), m') \<and>
    tracks (h @ [sh_Status hl]) (state_at m' name) \<and> (\<forall>n. n \<noteq> name \<longrightarrow> state_at m' n = state_at m n)"
proof -
  have st: "(case map_of m name of None \<Rightarrow> zero_feeder_state | Some st \<Rightarrow> st) = state_at m name"
    by (simp add: state_at_def)
  show ?thesis using assms
    by (simp add: evaluate_source_def st Let_def tracks_def due_alert_def outage_snoc_iff zero_feeder_state_def)
qed

definition source_names :: "string list" where
  "source_names = [''aircraft'', ''receiver'', ''stats'']"

definition due_alerts :: "time \<Rightarrow> u64 \<Rightarrow> (string \<Rightarrow> health_status list) \<Rightarrow> snapshot \<Rightarrow> alert list" where
  "due_alerts clock g hist s =
     (let now = (if sn_PublishedAt s = time_zero then clock else sn_PublishedAt s) in
      concat (map (\<lambda>name. due_alert g now name (hist name) (status_of name s)) source_names))"

lemma feeder_Evaluate_tracks:
  assumes "\<And>name. name \<in> set source_names \<Longrightarrow> tracks (hist name) (state_at m name)"
  shows "\<exists>m'. feeder_Evaluate clock g (Some s) m = (due_alerts clock g hist s, m') \<and>
    (\<forall>name\<in>set source_names. tracks (hist name @ [status_of name s]) (state_at m' name))"
proof -
  define now where "now = (if sn_PublishedAt s = time_zero then clock else sn_PublishedAt s)"
  let ?step = "evaluate_source g now" and ?due = "\<lambda>name. due_alert g now name (hist name) (status_of name s)"
  have names: "status_of ''aircraft'' s = sh_Status (he_Aircraft (sn_Health s))"
    "status_of ''receiver'' s = sh_Status (he_Receiver (sn_Health s))"
    "status_of ''stats'' s = sh_Status (he_Stats (sn_Health s))"
    by (simp_all add: status_of_def feeder_sources_def)
  have "tracks (hist ''aircraft'') (state_at m ''aircraft'')" using assms [of "''aircraft''"] by (simp add: source_names_def)
  then obtain m1 where m1: "?step (''aircraft'', he_Aircraft (sn_Health s)) ([], m) = ([] @ ?due ''aircraft'', m1)"
    "tracks (hist ''aircraft'' @ [status_of ''aircraft'' s]) (state_at m1 ''aircraft'')"
    "\<forall>n. n \<noteq> ''aircraft'' \<longrightarrow> state_at m1 n = state_at m n"
    using evaluate_source_tracks unfolding names by blast
  have "tracks (hist ''receiver'') (state_at m1 ''receiver'')" using assms [of "''receiver''"] m1(3) by (simp add: source_names_def)
  then obtain m2 where m2: "?step (''receiver'', he_Receiver (sn_Health s)) ([] @ ?due ''aircraft'', m1) = (([] @ ?due ''aircraft'') @ ?due ''receiver'', m2)"
    "tracks (hist ''receiver'' @ [status_of ''receiver'' s]) (state_at m2 ''receiver'')"
    "\<forall>n. n \<noteq> ''receiver'' \<longrightarrow> state_at m2 n = state_at m1 n"
    using evaluate_source_tracks unfolding names by blast
  have "tracks (hist ''stats'') (state_at m2 ''stats'')" using assms [of "''stats''"] m1(3) m2(3) by (simp add: source_names_def)
  then obtain m3 where m3: "?step (''stats'', he_Stats (sn_Health s)) (([] @ ?due ''aircraft'') @ ?due ''receiver'', m2) =
      ((([] @ ?due ''aircraft'') @ ?due ''receiver'') @ ?due ''stats'', m3)"
    "tracks (hist ''stats'' @ [status_of ''stats'' s]) (state_at m3 ''stats'')"
    "\<forall>n. n \<noteq> ''stats'' \<longrightarrow> state_at m3 n = state_at m2 n"
    using evaluate_source_tracks unfolding names by blast
  have "feeder_Evaluate clock g (Some s) m = (due_alerts clock g hist s, m3)"
    unfolding feeder_Evaluate_def feeder_sources_def due_alerts_def source_names_def option.case Let_def now_def [symmetric]
    using m1(1) m2(1) m3(1) by simp
  then show ?thesis using m1 m2 m3 by (simp add: source_names_def)
qed

section \<open>Whole runs\<close>

text \<open>An input is the clock, the guild and the snapshot (or nil) of one evaluation.\<close>

type_synonym feeder_input = "time \<times> u64 \<times> snapshot option"

definition feeder_step :: "feeder_input \<Rightarrow> feeder_monitor \<Rightarrow> alert list \<times> feeder_monitor" where
  "feeder_step i m = (case i of (clock, g, snap) \<Rightarrow> feeder_Evaluate clock g snap m)"

fun snapshots_of :: "feeder_input list \<Rightarrow> snapshot list" where
  "snapshots_of [] = []"
| "snapshots_of ((_, _, None) # is) = snapshots_of is"
| "snapshots_of ((_, _, Some s) # is) = s # snapshots_of is"

definition statuses :: "string \<Rightarrow> feeder_input list \<Rightarrow> health_status list" where
  "statuses name is = map (status_of name) (snapshots_of is)"

lemma snapshots_of_append [simp]: "snapshots_of (is @ js) = snapshots_of is @ snapshots_of js"
  by (induction "is" rule: snapshots_of.induct) auto

lemma statuses_Nil [simp]: "statuses name [] = []"
  by (simp add: statuses_def)

definition alert_log :: "feeder_input list \<Rightarrow> alert list" where
  "alert_log is = concat (map (\<lambda>n. case is ! n of (clock, g, None) \<Rightarrow> []
     | (clock, g, Some s) \<Rightarrow> due_alerts clock g (\<lambda>name. statuses name (take n is)) s) [0..<length is])"

lemma alert_log_Nil [simp]: "alert_log [] = []"
  by (simp add: alert_log_def)

lemma alert_log_snoc:
  "alert_log (is @ [i]) = alert_log is @ (case i of (clock, g, None) \<Rightarrow> []
     | (clock, g, Some s) \<Rightarrow> due_alerts clock g (\<lambda>name. statuses name is) s)"
proof -
  have eq: "map (\<lambda>n. case (is @ [i]) ! n of (clock, g, None) \<Rightarrow> []
       | (clock, g, Some s) \<Rightarrow> due_alerts clock g (\<lambda>name. statuses name (take n (is @ [i]))) s) [0..<length is] =
     map (\<lambda>n. case is ! n of (clock, g, None) \<Rightarrow> []
       | (clock, g, Some s) \<Rightarrow> due_alerts clock g (\<lambda>name. statuses name (take n is)) s) [0..<length is]"
    by (intro map_cong) (auto simp: nth_append split: option.splits prod.splits)
  show ?thesis
    by (simp only: alert_log_def length_append_singleton upt_Suc_append le0 map_append concat_append eq) simp
qed

interpretation feeder_mon: monitor NewFeederMonitor feeder_step
  "\<lambda>is os m. os = alert_log is \<and> (\<forall>name\<in>set source_names. tracks (statuses name is) (state_at m name))"
proof
  show "[] = alert_log [] \<and> (\<forall>name\<in>set source_names. tracks (statuses name []) (state_at NewFeederMonitor name))"
    by (simp add: tracks_Nil)
next
  fix "is" :: "feeder_input list" and os :: "alert list" and m and i :: feeder_input
  assume rep: "os = alert_log is \<and> (\<forall>name\<in>set source_names. tracks (statuses name is) (state_at m name))"
  obtain clock g snap where i: "i = (clock, g, snap)" by (cases i)
  show "os @ fst (feeder_step i m) = alert_log (is @ [i]) \<and>
      (\<forall>name\<in>set source_names. tracks (statuses name (is @ [i])) (state_at (snd (feeder_step i m)) name))"
  proof (cases snap)
    case None
    then show ?thesis using rep i by (simp add: feeder_step_def feeder_Evaluate_def alert_log_snoc statuses_def)
  next
    case (Some s)
    obtain m' where "feeder_Evaluate clock g (Some s) m = (due_alerts clock g (\<lambda>name. statuses name is) s, m')"
      "\<forall>name\<in>set source_names. tracks (statuses name is @ [status_of name s]) (state_at m' name)"
      using feeder_Evaluate_tracks [of "\<lambda>name. statuses name is" m clock g s] rep by auto
    then show ?thesis using rep i Some by (simp add: feeder_step_def alert_log_snoc statuses_def)
  qed
qed

text \<open>
  C27. Feeder outages. Whatever snapshots a fresh monitor has been fed, its next evaluation
  announces a source as offline exactly when an outage of that source begins, and as
  recovered exactly when one ends by recovery; an outage begins with an offline sample and
  lasts until the source is disabled or was healthy at two samples in a row. Every other
  sample is silent.
\<close>

theorem feeder_alerts_exact:
  "fst (feeder_Evaluate clock g (Some s) (snd (mon_run feeder_step is NewFeederMonitor))) =
     (let now = (if sn_PublishedAt s = time_zero then clock else sn_PublishedAt s) in
      concat (map (\<lambda>name. due_alert g now name (statuses name is) (status_of name s)) [''aircraft'', ''receiver'', ''stats'']))"
proof -
  have "\<forall>name\<in>set source_names. tracks (statuses name is) (state_at (snd (mon_run feeder_step is NewFeederMonitor)) name)"
    using feeder_mon.rep_run [of "is"] by blast
  then have "fst (feeder_Evaluate clock g (Some s) (snd (mon_run feeder_step is NewFeederMonitor))) =
      due_alerts clock g (\<lambda>name. statuses name is) s"
    using feeder_Evaluate_tracks [of "\<lambda>name. statuses name is"] by (metis fst_conv)
  then show ?thesis by (simp add: due_alerts_def source_names_def Let_def)
qed

section \<open>Restarting\<close>

lemma restore_step:
  "restore_fingerprint f m = (case restore_fingerprint f [] of [] \<Rightarrow> m | e # _ \<Rightarrow> (if map_of m (fst e) \<noteq> None then m else AList.update (fst e) (snd e) m))"
  by (auto simp: restore_fingerprint_def split: list.splits)

lemma restore_keeps: "map_of (fold restore_fingerprint fs m) n = (case map_of m n of Some st \<Rightarrow> Some st | None \<Rightarrow> map_of (fold restore_fingerprint fs []) n)"
proof (induction fs arbitrary: m)
  case (Cons f fs)
  have "map_of (restore_fingerprint f m) n = (case map_of m n of Some st \<Rightarrow> Some st | None \<Rightarrow> map_of (restore_fingerprint f []) n)"
  proof (cases "restore_fingerprint f []")
    case (Cons e es)
    then have "es = []" by (auto simp: restore_fingerprint_def split: list.splits if_splits)
    with Cons show ?thesis by (subst restore_step) (auto split: option.splits)
  qed (subst restore_step, simp split: option.splits)
  then show ?case
    using Cons.IH [of "restore_fingerprint f m"] Cons.IH [of "restore_fingerprint f []"] by (simp split: option.splits)
qed (simp split: option.splits)

lemma split_fingerprint:
  assumes "CHR '':'' \<notin> set kind" "CHR '':'' \<notin> set name"
  shows "split_on CHR '':'' (''feeder:'' @ kind @ '':'' @ name) = [''feeder'', kind, name]"
  using split_join [of "[''feeder'', kind, name]" "CHR '':''"] assms by simp

lemma restore_offline: "CHR '':'' \<notin> set name \<Longrightarrow> restore_fingerprint (''feeder:offline:'' @ name) [] = [(name, zero_feeder_state\<lparr> fst_offline := True \<rparr>)]"
  using split_fingerprint [of "''offline''" name] by (simp add: restore_fingerprint_def)

lemma restore_recovered: "CHR '':'' \<notin> set name \<Longrightarrow> restore_fingerprint (''feeder:recovered:'' @ name) [] = [(name, zero_feeder_state)]"
  using split_fingerprint [of "''recovered''" name] by (simp add: restore_fingerprint_def)

definition restored_offline :: "feeder_monitor \<Rightarrow> string \<Rightarrow> bool" where
  "restored_offline m name = fst_offline (state_at m name)"

definition durable :: "alert list \<Rightarrow> string list" where
  "durable als = rev (map al_ConditionFingerprint als)"

lemma restore_due:
  assumes "CHR '':'' \<notin> set name"
  shows "map_of (fold restore_fingerprint (durable (due_alert g now name h x)) []) n =
    (if n \<noteq> name \<or> (outage h \<longleftrightarrow> outage (h @ [x])) \<or> (outage h \<and> x = HealthDisabled) then None
     else Some (zero_feeder_state\<lparr> fst_offline := \<not> outage h \<rparr>))"
  using restore_offline [OF assms] restore_recovered [OF assms]
  by (auto simp: durable_def due_alert_def offline_alert_def recovered_alert_def zero_feeder_state_def)

lemma restored_append:
  "map_of (fold restore_fingerprint (durable (as @ bs)) []) n =
     (case map_of (fold restore_fingerprint (durable bs) []) n of Some st \<Rightarrow> Some st
      | None \<Rightarrow> map_of (fold restore_fingerprint (durable as) []) n)"
  unfolding durable_def map_append rev_append fold_append o_def by (rule restore_keeps)

lemma restore_alert_log:
  assumes "\<forall>s\<in>set (snapshots_of is). \<forall>n\<in>set source_names. status_of n s \<noteq> HealthDisabled" "name \<in> set source_names"
  shows "restored_offline (feeder_Restore (durable (alert_log is)) NewFeederMonitor) name = outage (statuses name is)"
  using assms(1)
proof (induction "is" rule: rev_induct)
  case Nil
  then show ?case by (simp add: restored_offline_def state_at_def feeder_Restore_def durable_def NewFeederMonitor_def zero_feeder_state_def)
next
  case (snoc i "is")
  let ?r = "\<lambda>als. map_of (fold restore_fingerprint (durable als) [])"
  obtain clock g snap where i: "i = (clock, g, snap)" by (cases i)
  have IH: "restored_offline (feeder_Restore (durable (alert_log is)) NewFeederMonitor) name = outage (statuses name is)"
    using snoc by simp
  show ?case
  proof (cases snap)
    case None
    then show ?thesis using IH i by (simp add: alert_log_snoc statuses_def)
  next
    case (Some s)
    have x: "status_of name s \<noteq> HealthDisabled" using snoc.prems assms(2) i Some by simp
    have "?r (due_alerts clock g (\<lambda>n. statuses n is) s) name =
       (if outage (statuses name is) \<longleftrightarrow> outage (statuses name (is @ [i])) then None
        else Some (zero_feeder_state\<lparr> fst_offline := \<not> outage (statuses name is) \<rparr>))"
      using assms(2) x i Some unfolding due_alerts_def Let_def source_names_def
      by (auto simp: restored_append restore_due statuses_def)
    then show ?thesis using IH i Some
      by (auto simp: alert_log_snoc restored_offline_def state_at_def feeder_Restore_def NewFeederMonitor_def restored_append zero_feeder_state_def
          split: option.splits if_splits)
  qed
qed

text \<open>Restarting without repeating or losing an announcement. When the fingerprints of all
  alerts the monitor has emitted are given, newest first, to \<open>Restore\<close> of a fresh monitor
  and no source was disabled meanwhile, the new monitor considers exactly those sources
  offline that are in an outage, so it neither announces a running outage again nor misses
  its end.
\<close>

theorem feeder_restart:
  assumes "\<forall>s\<in>set (snapshots_of is). status_of ''aircraft'' s \<noteq> HealthDisabled \<and>
      status_of ''receiver'' s \<noteq> HealthDisabled \<and> status_of ''stats'' s \<noteq> HealthDisabled"
    and "name \<in> {''aircraft'', ''receiver'', ''stats''}"
  shows "restored_offline (feeder_Restore (rev (map al_ConditionFingerprint (fst (mon_run feeder_step is NewFeederMonitor))))
     NewFeederMonitor) name = outage (statuses name is)"
proof -
  have "fst (mon_run feeder_step is NewFeederMonitor) = alert_log is" using feeder_mon.rep_run [of "is"] by blast
  then show ?thesis using restore_alert_log [of "is" name] assms by (simp add: durable_def source_names_def)
qed

definition feeder_demo :: "health_status \<Rightarrow> snapshot" where
  "feeder_demo st = zero_snapshot\<lparr> sn_PublishedAt := 7, sn_Health := zero_health\<lparr> he_Aircraft := zero_source_health\<lparr> sh_Status := st \<rparr> \<rparr> \<rparr>"

theorem feeder_restart_witness:
  "restored_offline (feeder_Restore (rev (map al_ConditionFingerprint (fst (mon_run feeder_step
     [(0, 1, Some (feeder_demo HealthOffline)), (0, 1, Some (feeder_demo HealthHealthy))] NewFeederMonitor)))) NewFeederMonitor) ''aircraft''"
proof -
  have o: "outage [HealthOffline, HealthHealthy]"
    using outage_snoc_iff [of "[HealthOffline]" HealthHealthy] outage_snoc_iff [of "[]" HealthOffline] by simp
  show ?thesis
    using feeder_restart [of "[(0, 1, Some (feeder_demo HealthOffline)), (0, 1, Some (feeder_demo HealthHealthy))]" "''aircraft''"] o
    by (simp add: feeder_demo_def status_of_def feeder_sources_def zero_health_def zero_source_health_def statuses_def)
qed

end
