(* ===== verification/Plane_Alert.thy ===== *)
theory Plane_Alert
  imports Go_Prelude
begin

text \<open>
  \<open>internal/planealert\<close>: the community list of interesting aircraft, its CSV loader, the
  table it is kept in (\<open>internal/storage/sqlite\<close>) and the index the monitors look up. What
  the network and the database answer are arguments (\<open>loader_env\<close>, \<open>refresh_env\<close>): a CSV
  body is the rows \<open>encoding/csv\<close> reads from it and how the reading ends, a URL is its
  parsed parts.
\<close>

section \<open>\<open>record.go\<close>\<close>

record plane_record =
  pr_ICAO :: string
  pr_Registration :: string
  pr_Operator :: string
  pr_Type :: string
  pr_ICAOType :: string
  pr_Group :: string
  pr_Tag1 :: string
  pr_Tag2 :: string
  pr_Tag3 :: string
  pr_Category :: string
  pr_Link :: string
  pr_Image1 :: string
  pr_Image2 :: string
  pr_Image3 :: string
  pr_Image4 :: string

definition pr_Tags :: "plane_record \<Rightarrow> string" where
  "pr_Tags r = join_with bullet (filter (\<lambda>t. t \<noteq> []) (map trim_space [pr_Tag1 r, pr_Tag2 r, pr_Tag3 r]))"

definition pr_PrimaryImage :: "plane_record \<Rightarrow> string" where
  "pr_PrimaryImage r =
     (case filter (\<lambda>t. t \<noteq> []) (map trim_space [pr_Image1 r, pr_Image2 r, pr_Image3 r, pr_Image4 r]) of [] \<Rightarrow> [] | primary # _ \<Rightarrow> primary)"

definition containsTagWord :: "string \<Rightarrow> string \<Rightarrow> bool" where
  "containsTagWord value wanted \<longleftrightarrow> wanted \<in> set (fields_func
     (\<lambda>r. (r < CHR ''a'' \<or> r > CHR ''z'') \<and> (r < CHR ''0'' \<or> r > CHR ''9'')) value)"

definition high_interest_phrases :: "string list" where
  "high_interest_phrases = [''guantanamo'', ''gtmo'', ''offshore detention'', ''detention flight'', ''deportation'', ''removal flight'',
     ''immigration removal'', ''rendition'', ''detainee transport'', ''prisoner transport'', ''immigration and customs enforcement'']"

definition pr_HighInterest :: "plane_record \<Rightarrow> bool" where
  "pr_HighInterest r \<longleftrightarrow>
     list_ex (\<lambda>value. let normalized = to_lower (trim_space value) in
        list_ex (str_contains normalized) high_interest_phrases \<or> containsTagWord normalized ''ice'')
       [pr_Operator r, pr_Type r, pr_Group r, pr_Tag1 r, pr_Tag2 r, pr_Tag3 r, pr_Category r]"

section \<open>\<open>storage.go\<close> and the table\<close>

record plane_reference =
  rf_ICAO :: string
  rf_Registration :: string
  rf_Operator :: string
  rf_AircraftType :: string
  rf_ICAOType :: string
  rf_FlightGroup :: string
  rf_Tag1 :: string
  rf_Tag2 :: string
  rf_Tag3 :: string
  rf_Category :: string
  rf_Link :: string
  rf_ImageLink1 :: string
  rf_ImageLink2 :: string
  rf_ImageLink3 :: string
  rf_ImageLink4 :: string
  rf_CommitHash :: string
  rf_UpdatedAt :: time

definition StorageReference :: "time \<Rightarrow> plane_record \<Rightarrow> string \<Rightarrow> plane_reference" where
  "StorageReference clock r commitHash = \<lparr> rf_ICAO = pr_ICAO r, rf_Registration = pr_Registration r, rf_Operator = pr_Operator r,
     rf_AircraftType = pr_Type r, rf_ICAOType = pr_ICAOType r, rf_FlightGroup = pr_Group r, rf_Tag1 = pr_Tag1 r, rf_Tag2 = pr_Tag2 r,
     rf_Tag3 = pr_Tag3 r, rf_Category = pr_Category r, rf_Link = pr_Link r, rf_ImageLink1 = pr_Image1 r, rf_ImageLink2 = pr_Image2 r,
     rf_ImageLink3 = pr_Image3 r, rf_ImageLink4 = pr_Image4 r, rf_CommitHash = commitHash, rf_UpdatedAt = clock \<rparr>"

definition RecordFromStorage :: "plane_reference \<Rightarrow> plane_record" where
  "RecordFromStorage x = \<lparr> pr_ICAO = rf_ICAO x, pr_Registration = rf_Registration x, pr_Operator = rf_Operator x,
     pr_Type = rf_AircraftType x, pr_ICAOType = rf_ICAOType x, pr_Group = rf_FlightGroup x, pr_Tag1 = rf_Tag1 x, pr_Tag2 = rf_Tag2 x,
     pr_Tag3 = rf_Tag3 x, pr_Category = rf_Category x, pr_Link = rf_Link x, pr_Image1 = rf_ImageLink1 x, pr_Image2 = rf_ImageLink2 x,
     pr_Image3 = rf_ImageLink3 x, pr_Image4 = rf_ImageLink4 x \<rparr>"

text \<open>
  The table \<open>plane_alert_reference\<close>, whose primary key is the address: the inserts of a
  replacement run in one transaction, and inserting an address twice rolls it back.
\<close>

type_synonym reference_table = "plane_reference list"

definition PlaneAlertReferenceCount :: "reference_table \<Rightarrow> nat" where
  "PlaneAlertReferenceCount table = length table"

definition PlaneAlertCommitHash :: "reference_table \<Rightarrow> string" where
  "PlaneAlertCommitHash table = (case table of [] \<Rightarrow> [] | row # _ \<Rightarrow> rf_CommitHash row)"

fun insert_references :: "time \<Rightarrow> string \<Rightarrow> plane_reference list \<Rightarrow> reference_table \<Rightarrow> reference_table option" where
  "insert_references now commitHash [] table = Some table"
| "insert_references now commitHash (r # rs) table =
     (let hash = (if rf_CommitHash r = [] then commitHash else rf_CommitHash r);
          updated = (if rf_UpdatedAt r = time_zero then now else rf_UpdatedAt r) in
      if rf_ICAO r \<in> set (map rf_ICAO table) then None
      else insert_references now commitHash rs (table @ [r\<lparr> rf_CommitHash := hash, rf_UpdatedAt := updated \<rparr>]))"

definition ReplacePlaneAlertReference :: "time \<Rightarrow> plane_reference list \<Rightarrow> string \<Rightarrow> reference_table \<Rightarrow> reference_table option" where
  "ReplacePlaneAlertReference now rs commitHash table = insert_references now commitHash rs []"

section \<open>\<open>loader.go\<close>\<close>

definition DefaultCSVURL :: string where
  "DefaultCSVURL = ''https://raw.githubusercontent.com/sdr-enthusiasts/plane-alert-db/refs/heads/main/plane-alert-db-images.csv''"

definition isCustomURL :: "string \<Rightarrow> bool" where
  "isCustomURL url \<longleftrightarrow> url \<noteq> DefaultCSVURL \<and> \<not> str_contains url ''sdr-enthusiasts/plane-alert-db''"

text \<open>\<open>ul_Loopback\<close>: \<open>net.ParseIP\<close> reads the host name as a loopback address.\<close>

record parsed_url =
  ul_User :: bool
  ul_Scheme :: string
  ul_Hostname :: string
  ul_RawQuery :: string
  ul_Fragment :: string
  ul_Loopback :: bool

definition safeSourceURL :: "parsed_url option \<Rightarrow> bool" where
  "safeSourceURL url =
     (case url of
        None \<Rightarrow> False
      | Some u \<Rightarrow>
          if ul_User u \<or> ul_Hostname u = [] \<or> ul_RawQuery u \<noteq> [] \<or> ul_Fragment u \<noteq> [] then False
          else if ul_Scheme u = ''https'' then True
          else if ul_Scheme u \<noteq> ''http'' then False
          else to_lower (ul_Hostname u) = ''localhost'' \<or> ul_Loopback u)"

definition maxCSVBytes :: int where
  "maxCSVBytes = 32 * 1048576"

definition maxCSVRows :: nat where
  "maxCSVRows = 100000"

definition maxCSVFieldBytes :: nat where
  "maxCSVFieldBytes = 4096"

datatype plane_error =
    CSVHeader | CSVTooLarge | CSVMalformed | CSVRows | CSVField nat | CSVEmpty
  | FetchUnsafe | FetchFailed | FetchStatus int | FetchLength
  | StoreFailed

text \<open>How the reading ends: at the end of the body or with a parse error; the flag says that the size limit was used up.\<close>

datatype csv_end = CsvEOF bool | CsvError bool

type_synonym csv_stream = "string list list \<times> csv_end"

definition headerMap :: "string list \<Rightarrow> (string, nat) gomap" where
  "headerMap headers = fold (\<lambda>(index, header) m. AList.update header index m) (zip [0..<length headers] headers) []"

definition csv_field :: "string list \<Rightarrow> (string, nat) gomap \<Rightarrow> string \<Rightarrow> string" where
  "csv_field row headers name =
     (case map_of headers name of None \<Rightarrow> [] | Some index \<Rightarrow> if index \<ge> length row then [] else trim_space (row ! index))"

definition csv_record :: "string list \<Rightarrow> (string, nat) gomap \<Rightarrow> plane_record" where
  "csv_record row headers = (let f = csv_field row headers in
     \<lparr> pr_ICAO = to_upper (f ''$ICAO''), pr_Registration = f ''$Registration'', pr_Operator = f ''$Operator'', pr_Type = f ''$Type'',
       pr_ICAOType = f ''$ICAO Type'', pr_Group = f ''#CMPG'', pr_Tag1 = f ''$Tag 1'', pr_Tag2 = f ''$#Tag 2'', pr_Tag3 = f ''$#Tag 3'',
       pr_Category = f ''Category'', pr_Link = f ''$#Link'', pr_Image1 = f ''#ImageLink'', pr_Image2 = f ''#ImageLink2'',
       pr_Image3 = f ''#ImageLink3'', pr_Image4 = f ''#ImageLink4'' \<rparr>)"

fun csv_rows :: "(string, nat) gomap \<Rightarrow> nat \<Rightarrow> string list list \<Rightarrow> csv_end \<Rightarrow> plane_record list \<Rightarrow> plane_error + plane_record list" where
  "csv_rows headers rowNumber [] ending records =
     (case ending of
        CsvError used \<Rightarrow> Inl (if used then CSVTooLarge else CSVMalformed)
      | CsvEOF used \<Rightarrow> if used then Inl CSVTooLarge else if records = [] then Inl CSVEmpty else Inr records)"
| "csv_rows headers rowNumber (row # rows) ending records =
     (if rowNumber > maxCSVRows then Inl CSVRows
      else if list_ex (\<lambda>value. length value > maxCSVFieldBytes) row then Inl (CSVField rowNumber)
      else if csv_field row headers ''$ICAO'' = [] then csv_rows headers (rowNumber + 1) rows ending records
      else csv_rows headers (rowNumber + 1) rows ending (records @ [csv_record row headers]))"

definition parseCSV :: "csv_stream \<Rightarrow> plane_error + plane_record list" where
  "parseCSV body =
     (case body of
        ([], _) \<Rightarrow> Inl CSVHeader
      | (headings # rows, ending) \<Rightarrow> csv_rows (headerMap headings) 1 rows ending [])"

text \<open>
  What the network answers: the hash of the latest commit (\<open>None\<close>: an error), the reply to
  the request for the CSV (\<open>None\<close>: an error) as its status, its content length and its
  body, and the time of the loader's clock, formatted.
\<close>

record loader_env =
  le_latest :: "string option"
  le_url :: "parsed_url option"
  le_reply :: "(int \<times> int \<times> csv_stream) option"
  le_stamp :: string

definition FetchRecords :: "string \<Rightarrow> loader_env \<Rightarrow> plane_error + (plane_record list \<times> string)" where
  "FetchRecords url env =
     (let commitHash = (if isCustomURL url then [] else case le_latest env of None \<Rightarrow> ''unknown'' | Some hash \<Rightarrow> hash) in
      if \<not> safeSourceURL (le_url env) then Inl FetchUnsafe
      else case le_reply env of
             None \<Rightarrow> Inl FetchFailed
           | Some (status, contentLength, body) \<Rightarrow>
               if status \<noteq> 200 then Inl (FetchStatus status)
               else if contentLength > maxCSVBytes then Inl FetchLength
               else (case parseCSV body of
                       Inl e \<Rightarrow> Inl e
                     | Inr records \<Rightarrow> Inr (records, if commitHash = [] then le_stamp env else commitHash)))"

section \<open>\<open>index.go\<close>\<close>

definition planealert_normalizeICAO :: "string \<Rightarrow> string" where
  "planealert_normalizeICAO icao = to_upper (trim_space icao)"

record plane_index =
  px_url :: string
  px_custom :: bool
  px_records :: "(string, plane_record) gomap"
  px_loaded :: bool

definition NewIndex :: "string \<Rightarrow> plane_index" where
  "NewIndex url = \<lparr> px_url = url, px_custom = isCustomURL url, px_records = [], px_loaded = False \<rparr>"

definition planealert_Lookup :: "string \<Rightarrow> plane_index \<Rightarrow> plane_record option" where
  "planealert_Lookup icao ix = map_of (px_records ix) (planealert_normalizeICAO icao)"

definition planealert_Len :: "plane_index \<Rightarrow> nat" where
  "planealert_Len ix = length (px_records ix)"

definition setRecords :: "plane_record list \<Rightarrow> plane_index \<Rightarrow> plane_index" where
  "setRecords records ix = ix\<lparr> px_records := fold (\<lambda>r m. AList.update (planealert_normalizeICAO (pr_ICAO r)) r m) records [],
     px_loaded := True \<rparr>"

text \<open>Which of the database calls fail for reasons of their own, and the first answer for the latest commit.\<close>

record refresh_env =
  rv_countFails :: bool
  rv_hashFails :: bool
  rv_replaceFails :: bool
  rv_listFails :: bool
  rv_latest :: "string option"
  rv_loader :: loader_env
  rv_clock :: time

definition loadFromStore :: "refresh_env \<Rightarrow> reference_table \<Rightarrow> plane_index \<Rightarrow> (plane_error + unit) \<times> plane_index" where
  "loadFromStore env table ix =
     (if rv_listFails env then (Inl StoreFailed, ix) else (Inr (), setRecords (map RecordFromStorage table) ix))"

definition download :: "refresh_env \<Rightarrow> bool \<Rightarrow> reference_table \<Rightarrow> plane_index \<Rightarrow> (plane_error + unit) \<times> reference_table \<times> plane_index" where
  "download env force table ix =
     (case FetchRecords (px_url ix) (rv_loader env) of
        Inl e \<Rightarrow>
          if \<not> force then (let (r, ix') = loadFromStore env table ix in (r, table, ix'))
          else (Inl e, table, ix)
      | Inr (records, commitHash) \<Rightarrow>
          let stored = map (\<lambda>r. StorageReference (rv_clock env) r commitHash) records in
          (if rv_replaceFails env then (Inl StoreFailed, table, ix)
           else case ReplacePlaneAlertReference (rv_clock env) stored commitHash table of
                  None \<Rightarrow> (Inl StoreFailed, table, ix)
                | Some table' \<Rightarrow> (Inr (), table', setRecords records ix)))"

definition refresh :: "refresh_env \<Rightarrow> bool \<Rightarrow> reference_table \<Rightarrow> plane_index \<Rightarrow> (plane_error + unit) \<times> reference_table \<times> plane_index" where
  "refresh env force table ix =
     (if force then download env True table ix
      else if rv_countFails env then (Inl StoreFailed, table, ix)
      else
        let force' = (PlaneAlertReferenceCount table = 0) in
        if \<not> force' \<and> px_custom ix then (let (r, ix') = loadFromStore env table ix in (r, table, ix'))
        else if rv_hashFails env then (Inl StoreFailed, table, ix)
        else
          let existingHash = PlaneAlertCommitHash table in
          (case rv_latest env of
             Some latestHash \<Rightarrow>
               if latestHash \<noteq> [] \<and> latestHash = existingHash
               then (let (r, ix') = loadFromStore env table ix in (r, table, ix'))
               else download env force' table ix
           | None \<Rightarrow> download env force' table ix))"

section \<open>Parsing\<close>

lemma csv_rows_iff:
  "csv_rows H n rows ending acc = Inr rs \<longleftrightarrow>
     (rows = [] \<or> n + length rows \<le> Suc maxCSVRows) \<and> (\<forall>row\<in>set rows. \<forall>v\<in>set row. length v \<le> maxCSVFieldBytes) \<and>
     ending = CsvEOF False \<and> rs = acc @ map (\<lambda>row. csv_record row H) (filter (\<lambda>row. csv_field row H ''$ICAO'' \<noteq> []) rows) \<and> rs \<noteq> []"
proof (induction rows arbitrary: n acc)
  case Nil
  then show ?case by (cases ending) auto
next
  case (Cons row rows)
  show ?case
  proof (cases "n > maxCSVRows \<or> list_ex (\<lambda>value. length value > maxCSVFieldBytes) row")
    case True
    then show ?thesis by (auto simp: list_ex_iff not_le)
  next
    case False
    then have ok: "\<forall>v\<in>set row. length v \<le> maxCSVFieldBytes" "n \<le> maxCSVRows" by (auto simp: list_ex_iff not_less)
    have n: "(rows = [] \<or> n + 1 + length rows \<le> Suc maxCSVRows) \<longleftrightarrow> n + length (row # rows) \<le> Suc maxCSVRows"
      using ok(2) by (cases rows) auto
    show ?thesis using False ok(1) n by (simp add: Cons.IH)
  qed
qed

text \<open>The loader accepts a CSV body exactly when it ends properly within the size limit, has
  a header, at most 100,000 rows and no field above 4096 bytes, and at least one row names
  an address; it then yields one record per row that does, in order, with the address in
  upper case.
\<close>

theorem parseCSV_exact:
  "parseCSV (body, ending) = Inr rs \<longleftrightarrow>
     (\<exists>headings rows. body = headings # rows \<and> ending = CsvEOF False \<and> length rows \<le> 100000 \<and>
        (\<forall>row\<in>set rows. \<forall>v\<in>set row. length v \<le> 4096) \<and>
        rs = map (\<lambda>row. csv_record row (headerMap headings)) (filter (\<lambda>row. csv_field row (headerMap headings) ''$ICAO'' \<noteq> []) rows) \<and>
        rs \<noteq> [])"
proof (cases body)
  case (Cons headings rows)
  have "(rows = [] \<or> 1 + length rows \<le> Suc maxCSVRows) \<longleftrightarrow> length rows \<le> 100000" by (auto simp: maxCSVRows_def)
  then show ?thesis using Cons by (auto simp: parseCSV_def csv_rows_iff maxCSVFieldBytes_def)
qed (simp add: parseCSV_def)

theorem parseCSV_exact_witness:
  "parseCSV ([[''$ICAO''], [''ae1234'']], CsvEOF False) = Inr [csv_record [''ae1234''] (headerMap [''$ICAO''])]"
proof -
  have "csv_field [''ae1234''] (headerMap [''$ICAO'']) ''$ICAO'' = ''ae1234''"
    by (simp add: csv_field_def headerMap_def trim_space_graph graph_char_def)
  then show ?thesis by (subst parseCSV_exact) (simp add: exI [of _ "[''$ICAO'']"])
qed

section \<open>Looking up\<close>

definition keyed :: "plane_record list \<Rightarrow> (string \<times> plane_record) list" where
  "keyed records = map (\<lambda>r. (planealert_normalizeICAO (pr_ICAO r), r)) records"

text \<open>The last record with an address wins.\<close>

lemma Lookup_setRecords:
  "planealert_Lookup icao (setRecords records ix) = map_of (rev (keyed records)) (planealert_normalizeICAO icao)"
proof -
  have "fold (\<lambda>r m. AList.update (planealert_normalizeICAO (pr_ICAO r)) r m) records [] =
      fold (\<lambda>(k, v). AList.update k v) (keyed records) []"
    by (simp add: keyed_def fold_map comp_def)
  then show ?thesis
    using gomap.get_fold_put [OF gomap.wf_empty, of "keyed records"] by (simp add: planealert_Lookup_def setRecords_def)
qed

lemma px_loaded_setRecords: "px_loaded (setRecords records ix)"
  by (simp add: setRecords_def)

lemma RecordFromStorage_StorageReference [simp]: "RecordFromStorage (StorageReference clock r h) = r"
  by (simp add: RecordFromStorage_def StorageReference_def)

lemma RecordFromStorage_stamp [simp]:
  "RecordFromStorage (x\<lparr> rf_CommitHash := h, rf_UpdatedAt := t \<rparr>) = RecordFromStorage x"
  by (simp add: RecordFromStorage_def)

lemma insert_references_Some:
  "insert_references now h rs table = Some table' \<Longrightarrow>
     map RecordFromStorage table' = map RecordFromStorage table @ map RecordFromStorage rs \<and>
     (distinct (map rf_ICAO table) \<longrightarrow> distinct (map rf_ICAO table'))"
  by (induction rs arbitrary: table) (auto simp: Let_def split: if_splits)

lemma insert_references_dup:
  "\<not> distinct (map rf_ICAO table @ map rf_ICAO rs) \<Longrightarrow> distinct (map rf_ICAO table) \<Longrightarrow> insert_references now h rs table = None"
proof (induction rs arbitrary: table)
  case (Cons r rs)
  let ?r = "r\<lparr> rf_CommitHash := (if rf_CommitHash r = [] then h else rf_CommitHash r),
     rf_UpdatedAt := (if rf_UpdatedAt r = time_zero then now else rf_UpdatedAt r) \<rparr>"
  show ?case
  proof (cases "rf_ICAO r \<in> set (map rf_ICAO table)")
    case False
    have "insert_references now h rs (table @ [?r]) = None"
      using Cons.prems False by (intro Cons.IH) auto
    then show ?thesis using False by (simp add: Let_def)
  qed simp
qed simp

lemma download_cases:
  "download env force table ix = (res, table', ix') \<Longrightarrow>
     (case res of Inl _ \<Rightarrow> table' = table \<and> ix' = ix
      | Inr _ \<Rightarrow> ix' = setRecords (map RecordFromStorage table') ix)"
  unfolding download_def ReplacePlaneAlertReference_def loadFromStore_def Let_def
  by (auto split: sum.splits if_splits option.splits dest!: insert_references_Some simp: comp_def)

lemma refresh_cases:
  "refresh env force table ix = (res, table', ix') \<Longrightarrow>
     (case res of Inl _ \<Rightarrow> table' = table \<and> ix' = ix
      | Inr _ \<Rightarrow> ix' = setRecords (map RecordFromStorage table') ix)"
  unfolding refresh_def Let_def loadFromStore_def
  by (auto split: if_splits option.splits dest: download_cases)

text \<open>Refreshing the reference. A refresh that reports an error leaves the table and the
  index as they were. After one that succeeds, an address is found in the index exactly when
  the table has it, with the same record, and a process that restarts and loads its index
  from the table answers every lookup alike.
\<close>

theorem plane_alert_refresh:
  assumes "refresh env force table ix = (res, table', ix')"
  shows "(\<forall>e. res = Inl e \<longrightarrow> table' = table \<and> ix' = ix) \<and>
    (res = Inr () \<longrightarrow> px_loaded ix' \<and>
       (\<forall>icao. planealert_Lookup icao ix' = map_of (rev (keyed (map RecordFromStorage table'))) (planealert_normalizeICAO icao)) \<and>
       (\<forall>env2 icao. \<not> rv_listFails env2 \<longrightarrow>
          planealert_Lookup icao (snd (loadFromStore env2 table' (NewIndex (px_url ix)))) = planealert_Lookup icao ix'))"
  using refresh_cases [OF assms]
  by (cases res) (auto simp: Lookup_setRecords loadFromStore_def px_loaded_setRecords)

text \<open>One repeated address blocks the whole reference. Addresses are compared after
  conversion to upper case and the table's primary key is the address, but the loader keeps
  every row: a download in which an address occurs twice fails as a whole, and neither the
  table nor the index sees any of its records.
\<close>

theorem plane_alert_duplicate:
  assumes "FetchRecords (px_url ix) (rv_loader env) = Inr (records, h)" "\<not> distinct (map pr_ICAO records)"
  shows "refresh env True table ix = (Inl StoreFailed, table, ix)"
proof -
  have "map rf_ICAO (map (\<lambda>r. StorageReference (rv_clock env) r h) records) = map pr_ICAO records"
    by (simp add: StorageReference_def)
  then have "ReplacePlaneAlertReference (rv_clock env) (map (\<lambda>r. StorageReference (rv_clock env) r h) records) h table = None"
    unfolding ReplacePlaneAlertReference_def using assms(2) by (intro insert_references_dup) (simp_all del: map_map)
  then show ?thesis using assms(1) by (simp add: refresh_def download_def Let_def)
qed

definition plane_demo_url :: parsed_url where
  "plane_demo_url = \<lparr> ul_User = False, ul_Scheme = ''https'', ul_Hostname = ''h'', ul_RawQuery = [], ul_Fragment = [], ul_Loopback = False \<rparr>"

definition plane_demo_env :: "string list list \<Rightarrow> refresh_env" where
  "plane_demo_env rows = \<lparr> rv_countFails = False, rv_hashFails = False, rv_replaceFails = False, rv_listFails = False, rv_latest = None,
     rv_loader = \<lparr> le_latest = Some ''abc'', le_url = Some plane_demo_url,
       le_reply = Some (200, 10, ([''$ICAO''] # rows, CsvEOF False)), le_stamp = [] \<rparr>, rv_clock = 7 \<rparr>"

lemma plane_demo_upper: "up_char CHR ''a'' = CHR ''A''" "up_char CHR ''e'' = CHR ''E''" "up_char CHR ''z'' = CHR ''Z''"
  "up_char CHR ''A'' = CHR ''A''" "up_char CHR ''E'' = CHR ''E''" "up_char CHR ''Z'' = CHR ''Z''"
  by code_simp+

lemma plane_demo_trim: "trim_space '' zz '' = ''zz''" "trim_space ''ZZ'' = ''ZZ''" "trim_space ''zz'' = ''zz''"
  by code_simp+

lemma plane_demo_fetch:
  "FetchRecords DefaultCSVURL (rv_loader (plane_demo_env [[''ae1234''], [''AE1234'']])) =
     Inr ([csv_record [''ae1234''] (headerMap [''$ICAO'']), csv_record [''AE1234''] (headerMap [''$ICAO''])], ''abc'')"
  by (simp add: FetchRecords_def isCustomURL_def plane_demo_env_def plane_demo_url_def safeSourceURL_def maxCSVBytes_def parseCSV_def
      maxCSVRows_def maxCSVFieldBytes_def csv_field_def headerMap_def trim_space_graph graph_char_def)

theorem plane_alert_duplicate_witness:
  "refresh (plane_demo_env [[''ae1234''], [''AE1234'']]) True [] (NewIndex DefaultCSVURL) = (Inl StoreFailed, [], NewIndex DefaultCSVURL)"
proof (rule plane_alert_duplicate)
  show "FetchRecords (px_url (NewIndex DefaultCSVURL)) (rv_loader (plane_demo_env [[''ae1234''], [''AE1234'']])) =
     Inr ([csv_record [''ae1234''] (headerMap [''$ICAO'']), csv_record [''AE1234''] (headerMap [''$ICAO''])], ''abc'')"
    using plane_demo_fetch by (simp add: NewIndex_def)
  show "\<not> distinct (map pr_ICAO [csv_record [''ae1234''] (headerMap [''$ICAO'']), csv_record [''AE1234''] (headerMap [''$ICAO''])])"
    by (simp add: csv_record_def Let_def csv_field_def headerMap_def trim_space_graph graph_char_def plane_demo_upper)
qed

theorem plane_alert_refresh_witness:
  "planealert_Lookup '' zz '' (snd (snd (refresh (plane_demo_env []) False [StorageReference 1 (csv_record [''zz''] (headerMap [''$ICAO''])) ''h'']
     (NewIndex ''x'')))) \<noteq> None"
proof -
  let ?t = "[StorageReference 1 (csv_record [''zz''] (headerMap [''$ICAO''])) ''h'']"
  have f: "refresh (plane_demo_env []) False ?t (NewIndex ''x'') = (Inr (), ?t, setRecords (map RecordFromStorage ?t) (NewIndex ''x''))"
    by (simp add: refresh_def plane_demo_env_def NewIndex_def isCustomURL_def DefaultCSVURL_def str_contains_def sublist_Cons_right
        PlaneAlertReferenceCount_def loadFromStore_def)
  have "planealert_Lookup '' zz '' (setRecords (map RecordFromStorage ?t) (NewIndex ''x'')) \<noteq> None"
    using plane_alert_refresh [OF f]
    by (simp add: keyed_def planealert_normalizeICAO_def csv_record_def csv_field_def headerMap_def Let_def plane_demo_upper plane_demo_trim)
  then show ?thesis using f by simp
qed

end
