(* ===== verification/Interesting.thy ===== *)
theory Interesting
  imports Rule_Engine Plane_Alert
begin

text \<open>
  \<open>internal/rules/interesting.go\<close>: the monitor that announces aircraft on the plane-alert
  list, once each. The lookup function is an argument of every evaluation, because the index
  behind it is refreshed while the monitor runs; \<open>None\<close> is a nil function.
\<close>

section \<open>The code\<close>

type_synonym interesting_seen = "(string, unit) gomap"

definition normalizeInterestingICAO :: "string \<Rightarrow> string" where
  "normalizeInterestingICAO icao = to_upper (trim_space icao)"

definition NewInterestingMonitor :: interesting_seen where
  "NewInterestingMonitor = []"

definition interesting_Restore :: "string list \<Rightarrow> interesting_seen \<Rightarrow> interesting_seen" where
  "interesting_Restore icaos seen = fold (\<lambda>icao m. AList.update (normalizeInterestingICAO icao) () m) icaos seen"

definition interestingDescription :: "plane_record \<Rightarrow> string" where
  "interestingDescription r =
     (let parts = (if pr_Group r \<noteq> [] then [pr_Group r] else []) @ (if pr_Category r \<noteq> [] then [pr_Category r] else []) @
        (if pr_Tags r \<noteq> [] then [pr_Tags r] else [])
      in if parts = [] then ''Matched plane-alert-db reference entry.'' else join_with bullet parts)"

definition interesting_alert :: "u64 \<Rightarrow> time \<Rightarrow> string \<Rightarrow> aircraft \<Rightarrow> plane_record \<Rightarrow> alert" where
  "interesting_alert guildID now icao a r = zero_alert\<lparr>
     al_ID := ''interesting:'' @ icao @ '':'' @ format_int (time_unix_nano now), al_GuildID := guildID, al_AircraftICAO := icao,
     al_Callsign := ac_Callsign a, al_Type := RuleInteresting, al_Priority := AlertNormal,
     al_Title := firstNonEmpty [pr_Operator r, pr_Type r, pr_Group r, ''Interesting aircraft''],
     al_Description := interestingDescription r, al_ConditionFingerprint := ''interesting:'' @ icao, al_ObservedAt := now,
     al_InterestingGroup := pr_Group r, al_InterestingOperator := pr_Operator r, al_InterestingTags := pr_Tags r,
     al_InterestingPriority := pr_HighInterest r, al_InterestingLink := pr_Link r, al_InterestingImage := pr_PrimaryImage r,
     al_Observation := AlertObservationFromAircraft a \<rparr>"

definition evaluate_interesting ::
    "u64 \<Rightarrow> time \<Rightarrow> (string \<Rightarrow> plane_record option) \<Rightarrow> aircraft \<Rightarrow> alert list \<times> interesting_seen \<Rightarrow> alert list \<times> interesting_seen" where
  "evaluate_interesting guildID now lookup a acc =
     (let (alerts, seen) = acc; icao = normalizeInterestingICAO (ac_ICAO a) in
      if ac_Provider a \<noteq> ProviderReadsb then acc
      else if icao = [] then acc
      else if map_of seen icao \<noteq> None then acc
      else (case lookup icao of
              None \<Rightarrow> acc
            | Some r \<Rightarrow> (alerts @ [interesting_alert guildID now icao a r], AList.update icao () seen)))"

definition interesting_Evaluate ::
    "time \<Rightarrow> u64 \<Rightarrow> (string \<Rightarrow> plane_record option) option \<Rightarrow> snapshot option \<Rightarrow> interesting_seen \<Rightarrow> alert list \<times> interesting_seen" where
  "interesting_Evaluate clock guildID lookup snapshot seen =
     (case (snapshot, lookup) of
        (Some s, Some f) \<Rightarrow>
          if guildID = 0 then ([], seen)
          else
            let now = (if sn_PublishedAt s = time_zero then clock else sn_PublishedAt s) in
            fold (evaluate_interesting guildID now f) (sn_Aircraft s) ([], seen)
      | _ \<Rightarrow> ([], seen))"

section \<open>Once per aircraft\<close>

text \<open>The addresses that an evaluation could announce.\<close>

definition listed :: "(string \<Rightarrow> plane_record option) \<Rightarrow> aircraft list \<Rightarrow> string set" where
  "listed f as = {icao. icao \<noteq> [] \<and> f icao \<noteq> None \<and>
     (\<exists>a\<in>set as. ac_Provider a = ProviderReadsb \<and> normalizeInterestingICAO (ac_ICAO a) = icao)}"

type_synonym interesting_input = "time \<times> u64 \<times> (string \<Rightarrow> plane_record option) option \<times> snapshot option"

definition interesting_step :: "interesting_input \<Rightarrow> interesting_seen \<Rightarrow> alert list \<times> interesting_seen" where
  "interesting_step i seen = (case i of (clock, g, lookup, snap) \<Rightarrow> interesting_Evaluate clock g lookup snap seen)"

fun input_listed :: "interesting_input \<Rightarrow> string set" where
  "input_listed (clock, g, Some f, Some s) = (if g = 0 then {} else listed f (sn_Aircraft s))"
| "input_listed _ = {}"

lemma listed_Nil [simp]: "listed f [] = {}"
  by (simp add: listed_def)

lemma listed_Cons:
  "listed f (a # as) = (if ac_Provider a = ProviderReadsb \<and> normalizeInterestingICAO (ac_ICAO a) \<noteq> [] \<and>
      f (normalizeInterestingICAO (ac_ICAO a)) \<noteq> None then insert (normalizeInterestingICAO (ac_ICAO a)) (listed f as) else listed f as)"
  by (auto simp: listed_def)

lemma evaluate_interesting_fold:
  "fold (evaluate_interesting g now f) as (alerts, seen) = (alerts', seen') \<Longrightarrow>
     \<exists>new. alerts' = alerts @ new \<and> distinct (map al_AircraftICAO new) \<and>
       al_AircraftICAO ` set new = listed f as - dom (map_of seen) \<and> dom (map_of seen') = dom (map_of seen) \<union> listed f as"
proof (induction as arbitrary: alerts seen)
  case Nil
  then show ?case by simp
next
  case (Cons a as)
  let ?icao = "normalizeInterestingICAO (ac_ICAO a)"
  show ?case
  proof (cases "ac_Provider a = ProviderReadsb \<and> ?icao \<noteq> [] \<and> f ?icao \<noteq> None \<and> map_of seen ?icao = None")
    case False
    then have "evaluate_interesting g now f a (alerts, seen) = (alerts, seen)"
      by (auto simp: evaluate_interesting_def Let_def split: option.splits)
    moreover have "listed f (a # as) \<union> dom (map_of seen) = listed f as \<union> dom (map_of seen)"
      "listed f (a # as) - dom (map_of seen) = listed f as - dom (map_of seen)"
      using False by (auto simp: listed_Cons)
    ultimately show ?thesis using Cons.IH [of alerts seen] Cons.prems by (simp add: Un_commute)
  next
    case True
    then obtain r where r: "f ?icao = Some r" by blast
    let ?al = "interesting_alert g now ?icao a r"
    have "evaluate_interesting g now f a (alerts, seen) = (alerts @ [?al], AList.update ?icao () seen)"
      using True r by (simp add: evaluate_interesting_def Let_def)
    then have "fold (evaluate_interesting g now f) as (alerts @ [?al], AList.update ?icao () seen) = (alerts', seen')"
      using Cons.prems by simp
    from Cons.IH [OF this] obtain new where new: "alerts' = (alerts @ [?al]) @ new" "distinct (map al_AircraftICAO new)"
      "al_AircraftICAO ` set new = listed f as - dom (map_of (AList.update ?icao () seen))"
      "dom (map_of seen') = dom (map_of (AList.update ?icao () seen)) \<union> listed f as"
      by blast
    have icao: "al_AircraftICAO ?al = ?icao" by (simp add: interesting_alert_def)
    show ?thesis
    proof (intro exI [of _ "?al # new"] conjI)
      show "distinct (map al_AircraftICAO (?al # new))" using new(2,3) icao by auto
      show "al_AircraftICAO ` set (?al # new) = listed f (a # as) - dom (map_of seen)" using new(3) icao True by (auto simp: listed_Cons)
      show "dom (map_of seen') = dom (map_of seen) \<union> listed f (a # as)" using new(4) True by (auto simp: listed_Cons)
    qed (use new(1) in simp)
  qed
qed

lemma interesting_step_spec:
  "distinct (map al_AircraftICAO (fst (interesting_step i seen))) \<and>
     al_AircraftICAO ` set (fst (interesting_step i seen)) = input_listed i - dom (map_of seen) \<and>
     dom (map_of (snd (interesting_step i seen))) = dom (map_of seen) \<union> input_listed i"
proof -
  obtain clock g lookup snap where i: "i = (clock, g, lookup, snap)" by (cases i)
  show ?thesis
  proof (cases "\<exists>f s. lookup = Some f \<and> snap = Some s \<and> g \<noteq> 0")
    case True
    then obtain f s where fs: "lookup = Some f" "snap = Some s" "g \<noteq> 0" by blast
    let ?r = "fold (evaluate_interesting g (if sn_PublishedAt s = time_zero then clock else sn_PublishedAt s) f) (sn_Aircraft s) ([], seen)"
    have "interesting_step i seen = ?r" using i fs by (simp add: interesting_step_def interesting_Evaluate_def Let_def)
    then show ?thesis
      using evaluate_interesting_fold [of g _ f "sn_Aircraft s" "[]" seen "fst ?r" "snd ?r"] i fs by auto
  next
    case False
    then have "interesting_step i seen = ([], seen)" "input_listed i = {}" unfolding i
      by (cases lookup; cases snap; simp add: interesting_step_def interesting_Evaluate_def)+
    then show ?thesis by simp
  qed
qed

definition restored_set :: "string list \<Rightarrow> string set" where
  "restored_set icaos = normalizeInterestingICAO ` set icaos"

lemma dom_interesting_Restore: "dom (map_of (interesting_Restore icaos seen)) = dom (map_of seen) \<union> restored_set icaos"
  unfolding interesting_Restore_def restored_set_def by (induction icaos arbitrary: seen) auto

interpretation interesting_mon: monitor "interesting_Restore icaos NewInterestingMonitor" interesting_step
  "\<lambda>is os seen. distinct (map al_AircraftICAO os) \<and>
     al_AircraftICAO ` set os = (\<Union>i\<in>set is. input_listed i) - restored_set icaos \<and>
     dom (map_of seen) = restored_set icaos \<union> (\<Union>i\<in>set is. input_listed i)"
  for icaos
proof (unfold_locales, goal_cases)
  case 1
  show ?case by (simp add: dom_interesting_Restore NewInterestingMonitor_def)
next
  case (2 "is" os seen i)
  define H where "H = (\<Union>i\<in>set is. input_listed i)"
  define new where "new = fst (interesting_step i seen)"
  then have new: "fst (interesting_step i seen) = new" "distinct (map al_AircraftICAO new)"
     "al_AircraftICAO ` set new = input_listed i - dom (map_of seen)"
     "dom (map_of (snd (interesting_step i seen))) = dom (map_of seen) \<union> input_listed i"
    using interesting_step_spec [of i seen] by simp_all
  have os: "distinct (map al_AircraftICAO os)" "al_AircraftICAO ` set os = H - restored_set icaos" "dom (map_of seen) = restored_set icaos \<union> H"
    using 2 by (simp_all add: H_def)
  have "(\<Union>i\<in>set (is @ [i]). input_listed i) = H \<union> input_listed i" by (simp add: H_def Un_commute)
  moreover have "al_AircraftICAO ` set os \<inter> al_AircraftICAO ` set new = {}" unfolding new(3) os(2,3) by blast
  moreover have "al_AircraftICAO ` set (os @ new) = (H \<union> input_listed i) - restored_set icaos"
    unfolding set_append image_Un new(3) os(2,3) by blast
  ultimately show ?case using new(1,2,4) os(1,3) by (simp add: Un_assoc)
qed

text \<open>Interesting aircraft are announced once. Over any run of a monitor restored with the
  addresses already announced, whatever the list answers at each evaluation, the alerts
  name exactly the addresses that some evaluated snapshot of the local receiver shows while
  they are on the list, except the restored ones, and each of them once.
\<close>

theorem interesting_once:
  "distinct (map al_AircraftICAO (fst (mon_run interesting_step is (interesting_Restore icaos NewInterestingMonitor)))) \<and>
   al_AircraftICAO ` set (fst (mon_run interesting_step is (interesting_Restore icaos NewInterestingMonitor))) =
     (\<Union>i\<in>set is. input_listed i) - normalizeInterestingICAO ` set icaos"
  using interesting_mon.rep_run [of "is" icaos] by (simp add: restored_set_def)

end
