(* ===== verification/Movement.thy ===== *)
theory Movement
  imports Domain Geo
begin

text \<open>
  \<open>internal/rules/movement.go\<close> and \<open>movement_registry.go\<close>: inference of departures,
  landings and approaches near an airport from the trend of an aircraft's samples, one
  monitor per feeder, and the registry of the monitors with its global bound.
\<close>

section \<open>Data\<close>

definition movementCooldown :: duration where
  "movementCooldown = 10 * minute"

definition activityRetention :: duration where
  "activityRetention = 10 * minute"

definition movementStaleAfter :: duration where
  "movementStaleAfter = 30 * minute"

definition maxMovementTracks :: nat where
  "maxMovementTracks = 1000"

record movement_config =
  mc_AirportCode :: string
  mc_Latitude :: real
  mc_Longitude :: real
  mc_HasCenter :: bool

record movement_state =
  ms_onGround :: bool
  ms_known :: bool
  ms_approaching :: bool
  ms_lastTakeoff :: time
  ms_lastLanding :: time
  ms_lastApproach :: time
  ms_lastSeen :: time
  ms_lastSample :: time
  ms_lastDistanceNM :: real
  ms_hasDistance :: bool
  ms_lastAltitudeFt :: int
  ms_hasAltitude :: bool
  ms_groundNear :: bool
  ms_airborneNear :: bool
  ms_takeoffMatches :: int
  ms_landingMatches :: int
  ms_approachMatches :: int
  ms_phase :: movement_phase
  ms_phaseAt :: time
  ms_latest :: airport_movement

definition zero_movement_state :: movement_state where
  "zero_movement_state = \<lparr> ms_onGround = False, ms_known = False, ms_approaching = False, ms_lastTakeoff = 0, ms_lastLanding = 0,
     ms_lastApproach = 0, ms_lastSeen = 0, ms_lastSample = 0, ms_lastDistanceNM = 0, ms_hasDistance = False, ms_lastAltitudeFt = 0,
     ms_hasAltitude = False, ms_groundNear = False, ms_airborneNear = False, ms_takeoffMatches = 0, ms_landingMatches = 0,
     ms_approachMatches = 0, ms_phase = [], ms_phaseAt = 0, ms_latest = zero_movement \<rparr>"

type_synonym movement_tracks = "(string, movement_state) gomap"

record movement_monitor =
  mm_config :: movement_config
  mm_tracks :: movement_tracks
  mm_lastAt :: time

definition NewMovementMonitor :: "movement_config \<Rightarrow> movement_monitor" where
  "NewMovementMonitor config = \<lparr> mm_config = config, mm_tracks = [], mm_lastAt = 0 \<rparr>"

definition movement_StateLen :: "movement_monitor \<Rightarrow> nat" where
  "movement_StateLen mon = length (mm_tracks mon)"

definition pruneOldest :: "nat \<Rightarrow> movement_monitor \<Rightarrow> nat \<times> movement_monitor" where
  "pruneOldest n mon =
     (if n = 0 then (0, mon)
      else
        let values = sort_key snd (map (\<lambda>(icao, state). (icao, ms_lastSeen state)) (mm_tracks mon));
            removed = min n (length values)
        in (removed, mon\<lparr> mm_tracks := fold (\<lambda>(icao, _). AList.delete icao) (take removed values) (mm_tracks mon) \<rparr>))"

section \<open>Alerts\<close>

definition movementSentence :: "string \<Rightarrow> string \<Rightarrow> aircraft \<Rightarrow> string \<Rightarrow> string" where
  "movementSentence action airport a evidence =
     (let identity = (if trim_space (ac_Callsign a) = [] then trim_space (ac_ICAO a) else trim_space (ac_Callsign a));
          place = (if airport = [] then ''the configured airport'' else airport)
      in join_with [CHR 0x0A] [identity @ '' '' @ action @ '' '' @ place @ ''.'', evidence,
           ''This is an ADS-B trend, not an official runway status.''])"

definition movementAlert :: "u64 \<Rightarrow> aircraft \<Rightarrow> rule_type \<Rightarrow> string \<Rightarrow> string \<Rightarrow> real \<Rightarrow> int \<Rightarrow> bool \<Rightarrow> time \<Rightarrow> alert" where
  "movementAlert guildID a rule title description distance verticalRate hasVerticalRate now =
     (let icao = to_upper (trim_space (ac_ICAO a));
          observation = (AlertObservationFromAircraft a)\<lparr> ob_DistanceNM := distance, ob_HasDistance := True, ob_DistanceFromAirport := True,
            ob_VerticalRateFPM := verticalRate, ob_HasVerticalRate := hasVerticalRate \<rparr>
      in zero_alert\<lparr> al_ID := rule @ '':'' @ icao @ '':'' @ format_int (time_unix_nano now), al_GuildID := guildID, al_AircraftICAO := icao,
           al_Callsign := ac_Callsign a, al_Type := rule, al_Priority := AlertNormal, al_Title := title, al_Description := description,
           al_Observation := observation, al_ConditionFingerprint := rule @ '':'' @ icao, al_ObservedAt := now \<rparr>)"

section \<open>The three inferences\<close>

text \<open>What a sample says once distances, radial speed and vertical rate are worked out.\<close>

record movement_sample =
  sp_distance :: real
  sp_fromAirport :: real
  sp_toAirport :: real
  sp_radialSpeed :: real
  sp_hasRadialSpeed :: bool
  sp_verticalRate :: int
  sp_hasVerticalRate :: bool

text \<open>The conditions of an approach sample, in the order of the code's early returns.\<close>

definition approach_evidence :: "aircraft \<Rightarrow> movement_sample \<Rightarrow> bool" where
  "approach_evidence a sp \<longleftrightarrow>
     \<not> sp_distance sp > 10 \<and>
     \<not> (\<not> ac_HasAltitude a \<or> ac_AltitudeFeet a < 100 \<or> ac_AltitudeFeet a > 5000) \<and>
     \<not> (\<not> sp_hasVerticalRate sp \<or> sp_verticalRate sp > - 200) \<and>
     (let headingCompatible = (ac_HasTrack a \<and> headingDelta (ac_TrackDegrees a) (sp_toAirport sp) \<le> 45);
          closingCompatible = (sp_hasRadialSpeed sp \<and> sp_radialSpeed sp \<ge> 15)
      in \<not> (\<not> headingCompatible \<and> \<not> closingCompatible)) \<and>
     \<not> (sp_hasRadialSpeed sp \<and> sp_radialSpeed sp < - 15) \<and>
     \<not> (ac_HasGroundSpeed a \<and> (ac_GroundSpeedKts a < 45 \<or> ac_GroundSpeedKts a > 280))"

definition evaluateApproach :: "movement_config \<Rightarrow> u64 \<Rightarrow> aircraft \<Rightarrow> movement_sample \<Rightarrow> time \<Rightarrow> movement_state \<Rightarrow> alert list \<times> movement_state" where
  "evaluateApproach config guildID a sp now state =
     (if ac_OnGround a then ([], state\<lparr> ms_approachMatches := 0 \<rparr>)
      else if sp_distance sp > 12 then
        ([], state\<lparr> ms_approaching := False, ms_phase := (if ms_phase state = MovementApproach then [] else ms_phase state), ms_approachMatches := 0 \<rparr>)
      else if ms_approaching state \<or> time_sub now (ms_lastApproach state) < movementCooldown then ([], state)
      else if \<not> approach_evidence a sp then ([], state\<lparr> ms_approachMatches := 0 \<rparr>)
      else
        let st = state\<lparr> ms_approachMatches := ms_approachMatches state + 1 \<rparr> in
        if ms_approachMatches st < 3 then ([], st)
        else
          ([movementAlert guildID a RuleApproach ''Likely approach''
              (movementSentence ''appears to be approaching'' (mc_AirportCode config) a
                 ''It has been descending toward the airport for three consecutive updates.'')
              (sp_distance sp) (sp_verticalRate sp) (sp_hasVerticalRate sp) now],
           st\<lparr> ms_approachMatches := 0, ms_approaching := True, ms_lastApproach := now, ms_phase := MovementApproach, ms_phaseAt := now \<rparr>))"

definition departure_evidence :: "aircraft \<Rightarrow> movement_sample \<Rightarrow> movement_state \<Rightarrow> bool" where
  "departure_evidence a sp state \<longleftrightarrow>
     (let climbing0 = (sp_hasVerticalRate sp \<and> sp_verticalRate sp \<ge> 200);
          climbing = (if \<not> climbing0 \<and> ac_HasAltitude a \<and> ms_hasAltitude state then ac_AltitudeFeet a \<ge> ms_lastAltitudeFt state + 75 else climbing0);
          movingAway = (sp_hasRadialSpeed sp \<and> sp_radialSpeed sp \<le> - 15);
          headingAway = (ac_HasTrack a \<and> headingDelta (ac_TrackDegrees a) (sp_fromAirport sp) \<le> 45);
          lowEnough = (\<not> ac_HasAltitude a \<or> ac_AltitudeFeet a \<le> 5000)
      in \<not> (\<not> climbing \<or> (\<not> movingAway \<and> \<not> headingAway) \<or> \<not> lowEnough))"

definition evaluateDeparture :: "movement_config \<Rightarrow> u64 \<Rightarrow> aircraft \<Rightarrow> movement_sample \<Rightarrow> time \<Rightarrow> movement_state \<Rightarrow> alert list \<times> movement_state" where
  "evaluateDeparture config guildID a sp now state =
     (if ac_OnGround a then ([], state\<lparr> ms_takeoffMatches := 0 \<rparr>)
      else if sp_distance sp > 8 \<or> (\<not> ms_groundNear state \<and> ms_takeoffMatches state = 0) then ([], state\<lparr> ms_takeoffMatches := 0 \<rparr>)
      else if \<not> departure_evidence a sp state then ([], state\<lparr> ms_takeoffMatches := 0 \<rparr>)
      else
        let st = state\<lparr> ms_takeoffMatches := ms_takeoffMatches state + 1 \<rparr> in
        if ms_takeoffMatches st < 3 \<or> time_sub now (ms_lastTakeoff st) < movementCooldown then ([], st)
        else
          ([movementAlert guildID a RuleTakeoff ''Likely departure''
              (movementSentence ''appears to be departing'' (mc_AirportCode config) a
                 ''It has been climbing and moving away from the airport for three consecutive updates.'')
              (sp_distance sp) (sp_verticalRate sp) (sp_hasVerticalRate sp) now],
           st\<lparr> ms_takeoffMatches := 0, ms_lastTakeoff := now, ms_groundNear := False, ms_approaching := False,
               ms_phase := MovementDeparture, ms_phaseAt := now \<rparr>))"

definition evaluateLanding :: "movement_config \<Rightarrow> u64 \<Rightarrow> aircraft \<Rightarrow> movement_sample \<Rightarrow> time \<Rightarrow> movement_state \<Rightarrow> alert list \<times> movement_state" where
  "evaluateLanding config guildID a sp now state =
     (if \<not> ac_OnGround a then ([], state\<lparr> ms_landingMatches := 0 \<rparr>)
      else if sp_distance sp > 3 \<or> (\<not> ms_approaching state \<and> \<not> ms_airborneNear state \<and> ms_landingMatches state = 0)
        then ([], state\<lparr> ms_landingMatches := 0 \<rparr>)
      else
        let st = state\<lparr> ms_landingMatches := ms_landingMatches state + 1 \<rparr> in
        if ms_landingMatches st < 3 \<or> time_sub now (ms_lastLanding st) < movementCooldown then ([], st)
        else
          ([movementAlert guildID a RuleLanding ''Likely landing''
              (movementSentence ''appears to have landed near'' (mc_AirportCode config) a
                 ''It changed from a low airborne track to three consecutive on-ground updates near the airport.'')
              (sp_distance sp) (sp_verticalRate sp) (sp_hasVerticalRate sp) now],
           st\<lparr> ms_landingMatches := 0, ms_lastLanding := now, ms_approaching := False, ms_airborneNear := False,
               ms_phase := MovementLanded, ms_phaseAt := now \<rparr>))"

definition phase_confidence :: "movement_phase \<Rightarrow> int \<times> string" where
  "phase_confidence phase =
     (if phase = MovementApproach then (85, ''descending and converging on the airport'')
      else if phase = MovementDeparture then (90, ''climbing away after being on the ground nearby'')
      else if phase = MovementLanded then (95, ''airborne nearby, then three on-ground updates'')
      else (90, ''Three compatible ADS-B updates''))"

definition updateActivity :: "aircraft \<Rightarrow> movement_sample \<Rightarrow> time \<Rightarrow> movement_state \<Rightarrow> movement_state" where
  "updateActivity a sp now state =
     (if ms_phase state = [] then state
      else
        let (confidence, evidence) = phase_confidence (ms_phase state) in
        state\<lparr> ms_latest := \<lparr> mv_Phase = ms_phase state, mv_ICAO = ac_ICAO a, mv_Callsign = ac_Callsign a, mv_Confidence = confidence,
          mv_DistanceNM = sp_distance sp, mv_HasDistance = True, mv_BearingDegrees = sp_fromAirport sp,
          mv_AltitudeFeet = ac_AltitudeFeet a, mv_HasAltitude = ac_HasAltitude a, mv_VerticalRateFPM = sp_verticalRate sp,
          mv_HasVerticalRate = sp_hasVerticalRate sp, mv_GroundSpeedKts = ac_GroundSpeedKts a, mv_HasGroundSpeed = ac_HasGroundSpeed a,
          mv_ObservedAt = now, mv_Evidence = evidence \<rparr> \<rparr>)"

section \<open>One aircraft of a snapshot\<close>

text \<open>\<open>math.Round\<close>: to the nearest integer, halves away from zero.\<close>

definition round_half_away :: "real \<Rightarrow> int" where
  "round_half_away x = (if x < 0 then - \<lfloor>- x + 1 / 2\<rfloor> else \<lfloor>x + 1 / 2\<rfloor>)"

definition hours :: "duration \<Rightarrow> real" where
  "hours d = of_int d / of_int hour"

definition minutes :: "duration \<Rightarrow> real" where
  "minutes d = of_int d / of_int minute"

definition movement_sample_of :: "movement_config \<Rightarrow> aircraft \<Rightarrow> time \<Rightarrow> movement_state \<Rightarrow> movement_sample" where
  "movement_sample_of config a now state =
     (let (distance, fromAirport) = rules_distanceBearing (mc_Latitude config) (mc_Longitude config) (ac_Latitude a) (ac_Longitude a);
          elapsed = time_sub now (ms_lastSample state);
          timed = (ms_known state \<and> ms_hasDistance state \<and> ms_lastSample state \<noteq> time_zero \<and> elapsed > 0 \<and> elapsed \<le> 30 * second);
          derived = (timed \<and> \<not> ac_HasVerticalRate a \<and> ac_HasAltitude a \<and> ms_hasAltitude state)
      in \<lparr> sp_distance = distance, sp_fromAirport = fromAirport, sp_toAirport = fmod (fromAirport + 180) 360,
           sp_radialSpeed = (if timed then (ms_lastDistanceNM state - distance) / hours elapsed else 0), sp_hasRadialSpeed = timed,
           sp_verticalRate = (if derived then round_half_away (of_int (ac_AltitudeFeet a - ms_lastAltitudeFt state) / minutes elapsed)
                              else ac_VerticalRateFPM a),
           sp_hasVerticalRate = (derived \<or> ac_HasVerticalRate a) \<rparr>)"

definition note_proximity :: "aircraft \<Rightarrow> real \<Rightarrow> movement_state \<Rightarrow> movement_state" where
  "note_proximity a distance state =
     (let st1 = (if ac_OnGround a \<and> distance \<le> 3 then state\<lparr> ms_groundNear := True \<rparr> else state)
      in if \<not> ac_OnGround a \<and> distance \<le> 5 \<and> (\<not> ac_HasAltitude a \<or> ac_AltitudeFeet a \<le> 2000) then st1\<lparr> ms_airborneNear := True \<rparr> else st1)"

definition track_step :: "movement_config \<Rightarrow> u64 \<Rightarrow> time \<Rightarrow> aircraft \<Rightarrow> movement_state \<Rightarrow> alert list \<times> movement_state" where
  "track_step config guildID now a state =
     (let st0 = state\<lparr> ms_lastSeen := now \<rparr> in
      if \<not> ac_HasPosition a then
        ([], st0\<lparr> ms_approachMatches := 0, ms_takeoffMatches := 0, ms_landingMatches := 0, ms_known := True, ms_onGround := ac_OnGround a \<rparr>)
      else
        let sp = movement_sample_of config a now st0;
            st1 = (if sp_distance sp > 12 \<and> ms_phase st0 = MovementDeparture then st0\<lparr> ms_phase := [] \<rparr> else st0);
            st2 = note_proximity a (sp_distance sp) st1;
            (departures, st3) = evaluateDeparture config guildID a sp now st2;
            (landings, st4) = evaluateLanding config guildID a sp now st3;
            (approaches, st5) = evaluateApproach config guildID a sp now st4;
            st6 = updateActivity a sp now st5
        in (departures @ landings @ approaches,
            st6\<lparr> ms_onGround := ac_OnGround a, ms_known := True, ms_lastSample := now, ms_lastDistanceNM := sp_distance sp,
                 ms_hasDistance := True, ms_lastAltitudeFt := ac_AltitudeFeet a, ms_hasAltitude := ac_HasAltitude a \<rparr>))"

section \<open>A snapshot\<close>

definition movement_aircraft ::
    "movement_config \<Rightarrow> u64 \<Rightarrow> time \<Rightarrow> aircraft \<Rightarrow> alert list \<times> string list \<times> movement_tracks \<Rightarrow> alert list \<times> string list \<times> movement_tracks" where
  "movement_aircraft config guildID now a acc =
     (let (alerts, seen, tracks) = acc; icao = to_upper (trim_space (ac_ICAO a)) in
      if ac_Provider a \<noteq> ProviderReadsb then acc
      else if icao = [] then acc
      else if map_of tracks icao = None \<and> length tracks \<ge> maxMovementTracks then acc
      else
        let state = (case map_of tracks icao of None \<Rightarrow> zero_movement_state | Some st \<Rightarrow> st);
            (new, state') = track_step config guildID now a state
        in (alerts @ new, icao # seen, AList.update icao state' tracks))"

definition movement_Evaluate :: "time \<Rightarrow> u64 \<Rightarrow> snapshot option \<Rightarrow> movement_monitor \<Rightarrow> alert list \<times> movement_monitor" where
  "movement_Evaluate clock guildID snapshot mon =
     (case snapshot of
        None \<Rightarrow> ([], mon)
      | Some s \<Rightarrow>
          if guildID = 0 \<or> \<not> mc_HasCenter (mm_config mon) then ([], mon)
          else
            let now = (if sn_PublishedAt s = time_zero then clock else sn_PublishedAt s);
                (alerts, seen, tracks) = fold (movement_aircraft (mm_config mon) guildID now) (sn_Aircraft s) ([], [], mm_tracks mon);
                kept = gm_delete_if (\<lambda>(icao, state). icao \<notin> set seen \<and> time_sub now (ms_lastSeen state) > movementStaleAfter) tracks
            in (alerts, mon\<lparr> mm_tracks := kept, mm_lastAt := now \<rparr>))"

definition movementPriority :: "movement_phase \<Rightarrow> nat" where
  "movementPriority phase = (if phase = MovementApproach then 0 else if phase = MovementDeparture then 1 else 2)"

definition activity_key :: "airport_movement \<Rightarrow> nat \<times> real \<times> string" where
  "activity_key m = (movementPriority (mv_Phase m), mv_DistanceNM m, mv_ICAO m)"

definition movement_Activity :: "movement_monitor \<Rightarrow> airport_activity" where
  "movement_Activity mon =
     (let base = \<lparr> aa_AirportCode = mc_AirportCode (mm_config mon), aa_UpdatedAt = mm_lastAt mon,
            aa_Configured = mc_HasCenter (mm_config mon), aa_Movements = [] \<rparr> in
      if \<not> mc_HasCenter (mm_config mon) then base
      else base\<lparr> aa_Movements := sort_key activity_key (map (\<lambda>(_, st). ms_latest st)
        (filter (\<lambda>(_, st). \<not> (ms_phase st = [] \<or> mv_ICAO (ms_latest st) = [] \<or>
           time_sub (mm_lastAt mon) (ms_phaseAt st) > activityRetention)) (mm_tracks mon))) \<rparr>)"

section \<open>The registry\<close>

definition maxMovementStateGlobal :: nat where
  "maxMovementStateGlobal = 25000"

type_synonym movement_registry = "(feeder_id, movement_monitor) gomap"

definition NewMovementRegistry :: movement_registry where
  "NewMovementRegistry = []"

definition registry_Register :: "feeder_id \<Rightarrow> movement_config \<Rightarrow> movement_registry \<Rightarrow> movement_registry" where
  "registry_Register fid config registry =
     (if \<not> feeder_id_Valid fid \<or> fid = FeederAll then registry
      else
        (case map_of registry fid of
           Some current \<Rightarrow> if mm_config current = config then registry else AList.update fid (NewMovementMonitor config) registry
         | None \<Rightarrow> AList.update fid (NewMovementMonitor config) registry))"

definition registry_Remove :: "feeder_id \<Rightarrow> movement_registry \<Rightarrow> movement_registry" where
  "registry_Remove fid registry = AList.delete fid registry"

definition registry_StateLen :: "movement_registry \<Rightarrow> nat" where
  "registry_StateLen registry = sum_list (map (\<lambda>(_, mon). movement_StateLen mon) registry)"

text \<open>One round over the monitors, and how many entries are still to be removed.\<close>

fun prune_round :: "nat \<Rightarrow> movement_registry \<Rightarrow> nat \<times> bool \<times> movement_registry" where
  "prune_round over [] = (over, False, [])"
| "prune_round over ((fid, mon) # rest) =
     (if over = 0 then (over, False, (fid, mon) # rest)
      else
        let (removed, mon') = pruneOldest 1 mon in
        if removed = 1 then
          let (over', _, rest') = prune_round (over - 1) rest in (over', True, (fid, mon') # rest')
        else
          let (over', progress, rest') = prune_round over rest in (over', progress, (fid, mon') # rest'))"

lemma pruneOldest_len:
  assumes "gm_wf (mm_tracks mon)" "pruneOldest 1 mon = (removed, mon')"
  shows "gm_wf (mm_tracks mon') \<and> removed = (if mm_tracks mon = [] then 0 else 1) \<and>
    movement_StateLen mon' + removed = movement_StateLen mon \<and> mm_config mon' = mm_config mon"
proof -
  let ?v = "sort_key snd (map (\<lambda>(icao, state). (icao, ms_lastSeen state)) (mm_tracks mon))"
  have len: "length ?v = length (mm_tracks mon)" by simp
  show ?thesis
  proof (cases ?v)
    case Nil
    then have "mm_tracks mon = []" using len by (simp only: list.size(3)) simp
    then show ?thesis using assms by (auto simp: pruneOldest_def Let_def movement_StateLen_def)
  next
    case (Cons e es)
    then have "e \<in> set ?v" by (simp only: list.set_intros)
    then have "fst e \<in> fst ` set (mm_tracks mon)" by (auto simp: image_iff intro!: bexI)
    moreover have "mm_tracks mon \<noteq> []" using Cons by auto
    moreover have "length ?v = length (mm_tracks mon)" by simp
    moreover have "removed = 1" "mon' = mon\<lparr> mm_tracks := AList.delete (fst e) (mm_tracks mon) \<rparr>"
      using assms(2) Cons len by (auto simp: pruneOldest_def Let_def split: prod.splits)
    moreover have "length (mm_tracks mon) > 0" using calculation(2) by simp
    ultimately show ?thesis using assms(1) by (simp add: movement_StateLen_def gm_length_delete)
  qed
qed

definition registry_wf :: "movement_registry \<Rightarrow> bool" where
  "registry_wf registry \<longleftrightarrow> gm_wf registry \<and> (\<forall>(fid, mon)\<in>set registry. gm_wf (mm_tracks mon))"

lemma prune_round_spec:
  "\<forall>(fid, mon)\<in>set registry. gm_wf (mm_tracks mon) \<Longrightarrow> prune_round over registry = (over', progress, registry') \<Longrightarrow>
     map fst registry' = map fst registry \<and> (\<forall>(fid, mon)\<in>set registry'. gm_wf (mm_tracks mon)) \<and>
     registry_StateLen registry' + over = registry_StateLen registry + over' \<and> over' \<le> over \<and>
     (progress \<longrightarrow> over' < over) \<and> (\<not> progress \<longrightarrow> registry' = registry \<and> (over > 0 \<longrightarrow> registry_StateLen registry = 0))"
proof (induction over registry arbitrary: over' progress registry' rule: prune_round.induct)
  case (1 over)
  then show ?case by (simp add: registry_StateLen_def)
next
  case (2 over fid mon rest)
  show ?case
  proof (cases "over = 0")
    case True
    then show ?thesis using "2.prems" by auto
  next
    case False
    obtain removed mon' where mon': "pruneOldest 1 mon = (removed, mon')" by (cases "pruneOldest 1 mon")
    have p: "gm_wf (mm_tracks mon')" "removed = (if mm_tracks mon = [] then 0 else 1)" "movement_StateLen mon' + removed = movement_StateLen mon"
      using pruneOldest_len [OF _ mon'] "2.prems"(1) by auto
    obtain o2 p2 r2 where r: "prune_round (if removed = 1 then over - 1 else over) rest = (o2, p2, r2)"
      by (cases "prune_round (if removed = 1 then over - 1 else over) rest")
    have IH: "map fst r2 = map fst rest \<and> (\<forall>(fid, mon)\<in>set r2. gm_wf (mm_tracks mon)) \<and>
       registry_StateLen r2 + (if removed = 1 then over - 1 else over) = registry_StateLen rest + o2 \<and> o2 \<le> (if removed = 1 then over - 1 else over) \<and>
       (p2 \<longrightarrow> o2 < (if removed = 1 then over - 1 else over)) \<and> (\<not> p2 \<longrightarrow> r2 = rest \<and> ((if removed = 1 then over - 1 else over) > 0 \<longrightarrow> registry_StateLen rest = 0))"
    proof (cases "removed = 1")
      case True
      then show ?thesis using "2.IH"(1) [OF False mon' [symmetric] _ ] "2.prems"(1) r by simp
    next
      case no: False
      then show ?thesis using "2.IH"(2) [OF False mon' [symmetric] _ ] "2.prems"(1) r by simp
    qed
    have res: "over' = o2" "progress = (removed = 1 \<or> p2)" "registry' = (fid, mon') # r2"
      using "2.prems"(2) False mon' r by (auto simp: Let_def split: if_splits)
    have keep: "mon' = mon" if "removed \<noteq> 1"
      using that p(2) mon' by (auto simp: pruneOldest_def split: if_splits)
    show ?thesis
    proof (cases "removed = 1")
      case True
      then show ?thesis using IH p res False by (auto simp: registry_StateLen_def)
    next
      case no: False
      then have "movement_StateLen mon = 0" using p(2) by (simp add: movement_StateLen_def split: if_splits)
      then show ?thesis using IH p res False no keep by (auto simp: registry_StateLen_def)
    qed
  qed
qed

lemma prune_round_less: "prune_round over registry = (over', progress, registry') \<Longrightarrow> over' \<le> over \<and> (progress \<longrightarrow> over' < over)"
proof (induction over registry arbitrary: over' progress registry' rule: prune_round.induct)
  case (2 over fid mon rest)
  obtain removed mon' where mon': "pruneOldest 1 mon = (removed, mon')" by (cases "pruneOldest 1 mon")
  obtain o1 p1 r1 o2 p2 r2 where r: "prune_round (over - 1) rest = (o1, p1, r1)" "prune_round over rest = (o2, p2, r2)"
    by (cases "prune_round (over - 1) rest"; cases "prune_round over rest")
  show ?case
  proof (cases "over = 0")
    case False
    show ?thesis
    proof (cases "removed = 1")
      case True
      then show ?thesis using "2.IH"(1) [OF False refl mon' [symmetric] True r(1)] "2.prems" False mon' r(1) by auto
    next
      case no: False
      then show ?thesis using "2.IH"(2) [OF False refl mon' [symmetric] no r(2)] "2.prems" False mon' r(2) by auto
    qed
  qed (use "2.prems" in auto)
qed auto

function prune_loop :: "nat \<Rightarrow> movement_registry \<Rightarrow> movement_registry" where
  "prune_loop over registry =
     (if over = 0 then registry
      else let (over', progress, registry') = prune_round over registry in
           if \<not> progress then registry' else prune_loop over' registry')"
  by pat_completeness auto
termination
  by (relation "measure fst") (auto dest!: prune_round_less [OF sym])

declare prune_loop.simps [simp del]

definition enforceGlobalBound :: "movement_registry \<Rightarrow> movement_registry" where
  "enforceGlobalBound registry = prune_loop (registry_StateLen registry - maxMovementStateGlobal) registry"

definition registry_Evaluate :: "time \<Rightarrow> u64 \<Rightarrow> snapshot option \<Rightarrow> movement_registry \<Rightarrow> alert list \<times> movement_registry" where
  "registry_Evaluate clock guildID snapshot registry =
     (case snapshot of
        None \<Rightarrow> ([], registry)
      | Some s \<Rightarrow>
          if sn_FeederID s = [] \<or> sn_FeederID s = FeederAll then ([], registry)
          else
            (case map_of registry (sn_FeederID s) of
               None \<Rightarrow> ([], registry)
             | Some mon \<Rightarrow>
                 let (alerts, mon') = movement_Evaluate clock guildID snapshot mon in
                 (map (\<lambda>al. al\<lparr> al_FeederID := sn_FeederID s \<rparr>) alerts, enforceGlobalBound (AList.update (sn_FeederID s) mon' registry))))"

definition merge_activity :: "airport_activity \<Rightarrow> airport_activity \<Rightarrow> airport_activity" where
  "merge_activity activity result =
     (if \<not> aa_Configured activity then result
      else result\<lparr>
        aa_AirportCode := (if aa_AirportCode result = [] then aa_AirportCode activity
          else if aa_AirportCode result \<noteq> aa_AirportCode activity then ''ALL'' else aa_AirportCode result),
        aa_UpdatedAt := (if aa_UpdatedAt activity > aa_UpdatedAt result then aa_UpdatedAt activity else aa_UpdatedAt result),
        aa_Movements := aa_Movements result @ aa_Movements activity \<rparr>)"

definition zero_activity :: airport_activity where
  "zero_activity = \<lparr> aa_AirportCode = [], aa_UpdatedAt = 0, aa_Configured = False, aa_Movements = [] \<rparr>"

definition registry_ActivityFor :: "feeder_id \<Rightarrow> movement_registry \<Rightarrow> airport_activity" where
  "registry_ActivityFor fid registry =
     (if fid \<noteq> [] \<and> fid \<noteq> FeederAll then
        (case map_of registry fid of None \<Rightarrow> zero_activity | Some mon \<Rightarrow> movement_Activity mon)
      else
        let result = fold (\<lambda>(_, mon). merge_activity (movement_Activity mon)) registry (zero_activity\<lparr> aa_Configured := registry \<noteq> [] \<rparr>)
        in result\<lparr> aa_Movements := take 100 (sort_key (\<lambda>m. - mv_ObservedAt m) (aa_Movements result)) \<rparr>)"

definition registry_Activity :: "movement_registry \<Rightarrow> airport_activity" where
  "registry_Activity registry = registry_ActivityFor FeederAll registry"

end
