(* ===== verification/Movement_Props.thy ===== *)
theory Movement_Props
  imports Movement
begin

text \<open>
  The movement monitors: the bounds on what they remember, that an alert needs three
  consecutive samples of evidence, and that alerts of a kind keep their distance in time.
\<close>

section \<open>Bounds\<close>

lemma movement_aircraft_wf:
  assumes "gm_wf tracks" "length tracks \<le> maxMovementTracks"
    "movement_aircraft config g now a (alerts, seen, tracks) = (alerts', seen', tracks')"
  shows "gm_wf tracks' \<and> length tracks' \<le> maxMovementTracks"
  using assms gomap.put_within [OF assms(1), of maxMovementTracks]
  by (auto simp: movement_aircraft_def Let_def split: prod.splits if_splits)

lemma movement_fold_wf:
  "gm_wf tracks \<Longrightarrow> length tracks \<le> maxMovementTracks \<Longrightarrow>
     fold (movement_aircraft config g now) as (alerts, seen, tracks) = (alerts', seen', tracks') \<Longrightarrow>
     gm_wf tracks' \<and> length tracks' \<le> maxMovementTracks"
proof (induction as arbitrary: alerts seen tracks)
  case (Cons a as)
  obtain al1 se1 tr1 where s: "movement_aircraft config g now a (alerts, seen, tracks) = (al1, se1, tr1)"
    by (cases "movement_aircraft config g now a (alerts, seen, tracks)")
  show ?case using Cons.IH [of tr1 al1 se1] movement_aircraft_wf [OF Cons.prems(1,2) s] Cons.prems(3) s by simp
qed simp

definition monitor_ok :: "movement_monitor \<Rightarrow> bool" where
  "monitor_ok mon \<longleftrightarrow> gm_wf (mm_tracks mon) \<and> movement_StateLen mon \<le> maxMovementTracks"

lemma movement_Evaluate_ok:
  assumes "monitor_ok mon" shows "monitor_ok (snd (movement_Evaluate clock g snap mon))"
proof (cases "snap = None \<or> g = 0 \<or> \<not> mc_HasCenter (mm_config mon)")
  case True
  then show ?thesis using assms by (auto simp: movement_Evaluate_def split: option.splits)
next
  case False
  then obtain s where s: "snap = Some s" by auto
  define now where "now = (if sn_PublishedAt s = time_zero then clock else sn_PublishedAt s)"
  obtain al se tr where f: "fold (movement_aircraft (mm_config mon) g now) (sn_Aircraft s) ([], [], mm_tracks mon) = (al, se, tr)"
    by (cases "fold (movement_aircraft (mm_config mon) g now) (sn_Aircraft s) ([], [], mm_tracks mon)")
  have "gm_wf tr \<and> length tr \<le> maxMovementTracks"
    using movement_fold_wf [OF _ _ f] assms by (simp add: monitor_ok_def movement_StateLen_def)
  then show ?thesis using False s f
    by (simp add: movement_Evaluate_def now_def [symmetric] monitor_ok_def movement_StateLen_def gm_delete_if_def)
       (meson length_filter_le order_trans)
qed

definition registry_ok :: "movement_registry \<Rightarrow> bool" where
  "registry_ok registry \<longleftrightarrow> gm_wf registry \<and> (\<forall>(fid, mon)\<in>set registry. monitor_ok mon) \<and> registry_StateLen registry \<le> maxMovementStateGlobal"

lemma prune_round_ok:
  "\<forall>(fid, mon)\<in>set registry. monitor_ok mon \<Longrightarrow> prune_round over registry = (over', progress, registry') \<Longrightarrow>
     \<forall>(fid, mon)\<in>set registry'. monitor_ok mon"
proof (induction over registry arbitrary: over' progress registry' rule: prune_round.induct)
  case (2 over fid mon rest)
  obtain removed mon' where mon': "pruneOldest 1 mon = (removed, mon')" by (cases "pruneOldest 1 mon")
  have ok': "monitor_ok mon'" using pruneOldest_len [OF _ mon'] "2.prems"(1) by (auto simp: monitor_ok_def)
  obtain o1 p1 r1 o2 p2 r2 where r: "prune_round (over - 1) rest = (o1, p1, r1)" "prune_round over rest = (o2, p2, r2)"
    by (cases "prune_round (over - 1) rest"; cases "prune_round over rest")
  have rest: "\<forall>(fid, mon)\<in>set rest. monitor_ok mon" using "2.prems"(1) by simp
  show ?case
  proof (cases "over = 0")
    case False
    show ?thesis
    proof (cases "removed = 1")
      case True
      then show ?thesis using "2.IH"(1) [OF False refl mon' [symmetric] True rest r(1)] "2.prems" False mon' r(1) ok' by auto
    next
      case no: False
      then show ?thesis using "2.IH"(2) [OF False refl mon' [symmetric] no rest r(2)] "2.prems" False mon' r(2) ok' by auto
    qed
  qed (use "2.prems" in auto)
qed simp

lemma prune_loop_spec:
  "\<forall>(fid, mon)\<in>set registry. monitor_ok mon \<Longrightarrow> over \<le> registry_StateLen registry \<Longrightarrow>
     (\<forall>(fid, mon)\<in>set (prune_loop over registry). monitor_ok mon) \<and> map fst (prune_loop over registry) = map fst registry \<and>
     registry_StateLen (prune_loop over registry) = registry_StateLen registry - over"
proof (induction over registry rule: prune_loop.induct)
  case (1 over registry)
  obtain o2 p2 r2 where r: "prune_round over registry = (o2, p2, r2)" by (cases "prune_round over registry")
  have wf: "\<forall>(fid, mon)\<in>set registry. gm_wf (mm_tracks mon)" using "1.prems"(1) by (auto simp: monitor_ok_def)
  note rs = prune_round_spec [OF wf r] and ok = prune_round_ok [OF "1.prems"(1) r]
  show ?case
  proof (cases "over = 0 \<or> \<not> p2")
    case True
    then show ?thesis using "1.prems" r rs by (subst (1 2 3) prune_loop.simps) auto
  next
    case False
    have "prune_loop over registry = prune_loop o2 r2" using False r by (subst prune_loop.simps) simp
    moreover have "o2 \<le> registry_StateLen r2" using rs "1.prems"(2) by linarith
    moreover have "registry_StateLen r2 - o2 = registry_StateLen registry - over" using rs "1.prems"(2) by linarith
    ultimately show ?thesis using "1.IH" [OF _ r [symmetric] refl refl] False ok rs by simp
  qed
qed

lemma StateLen_delete: "gm_wf registry \<Longrightarrow> registry_StateLen (AList.delete fid registry) \<le> registry_StateLen registry"
  unfolding registry_StateLen_def by (induction registry) (auto simp: gm_wf_def AList.delete_eq)

lemma set_update_subset: "set (AList.update k v m) \<subseteq> insert (k, v) (set m)"
  by (induction m) auto

lemma set_delete_subset: "set (AList.delete k m) \<subseteq> set m"
  by (auto simp: AList.delete_eq)

lemma update_StateLen_le:
  "movement_StateLen mon = 0 \<Longrightarrow> registry_StateLen (AList.update fid mon registry) \<le> registry_StateLen registry"
  unfolding registry_StateLen_def by (induction registry) auto

lemma enforceGlobalBound_ok:
  assumes "gm_wf registry" "\<forall>(fid, mon)\<in>set registry. monitor_ok mon"
  shows "registry_ok (enforceGlobalBound registry)"
proof -
  have "registry_StateLen registry - maxMovementStateGlobal \<le> registry_StateLen registry" by simp
  note p = prune_loop_spec [OF assms(2) this]
  then show ?thesis using assms(1) unfolding registry_ok_def enforceGlobalBound_def gm_wf_def by auto
qed

lemma registry_Register_ok: "registry_ok registry \<Longrightarrow> registry_ok (registry_Register fid config registry)"
proof -
  assume ok: "registry_ok registry"
  have new: "monitor_ok (NewMovementMonitor config)" "movement_StateLen (NewMovementMonitor config) = 0"
    by (simp_all add: monitor_ok_def NewMovementMonitor_def movement_StateLen_def)
  have "registry_StateLen (AList.update fid (NewMovementMonitor config) registry) \<le> registry_StateLen registry"
    by (rule update_StateLen_le [OF new(2)])
  then have "registry_ok (AList.update fid (NewMovementMonitor config) registry)"
    using ok new set_update_subset [of fid "NewMovementMonitor config" registry] unfolding registry_ok_def by auto
  then show ?thesis using ok by (auto simp: registry_Register_def split: option.splits)
qed

lemma registry_Remove_ok: "registry_ok registry \<Longrightarrow> registry_ok (registry_Remove fid registry)"
  using set_delete_subset [of fid registry] StateLen_delete [of registry fid]
  by (auto simp: registry_ok_def registry_Remove_def)

lemma registry_Evaluate_ok:
  assumes "registry_ok registry" shows "registry_ok (snd (registry_Evaluate clock g snap registry))"
proof (cases "\<exists>s mon. snap = Some s \<and> sn_FeederID s \<noteq> [] \<and> sn_FeederID s \<noteq> FeederAll \<and> map_of registry (sn_FeederID s) = Some mon")
  case False
  then have "registry_Evaluate clock g snap registry = ([], registry)"
    by (auto simp: registry_Evaluate_def split: option.splits)
  then show ?thesis using assms by simp
next
  case True
  then obtain s mon where s: "snap = Some s" "sn_FeederID s \<noteq> []" "sn_FeederID s \<noteq> FeederAll" "map_of registry (sn_FeederID s) = Some mon" by blast
  let ?mon = "snd (movement_Evaluate clock g snap mon)"
  have "monitor_ok ?mon" using movement_Evaluate_ok assms map_of_SomeD [OF s(4)] by (auto simp: registry_ok_def)
  then have "registry_ok (enforceGlobalBound (AList.update (sn_FeederID s) ?mon registry))"
    using assms set_update_subset [of "sn_FeederID s" ?mon registry] by (intro enforceGlobalBound_ok) (auto simp: registry_ok_def)
  then show ?thesis using s by (cases "movement_Evaluate clock g snap mon") (simp add: registry_Evaluate_def)
qed

datatype registry_op =
    RegisterFeeder feeder_id movement_config
  | RemoveFeeder feeder_id
  | EvaluateSnapshot time u64 "snapshot option"

fun registry_run :: "registry_op list \<Rightarrow> movement_registry \<Rightarrow> movement_registry" where
  "registry_run [] registry = registry"
| "registry_run (RegisterFeeder fid config # ops) registry = registry_run ops (registry_Register fid config registry)"
| "registry_run (RemoveFeeder fid # ops) registry = registry_run ops (registry_Remove fid registry)"
| "registry_run (EvaluateSnapshot clock g snap # ops) registry = registry_run ops (snd (registry_Evaluate clock g snap registry))"

lemma registry_run_ok: "registry_ok registry \<Longrightarrow> registry_ok (registry_run ops registry)"
  by (induction ops registry rule: registry_run.induct) (simp_all add: registry_Register_ok registry_Remove_ok registry_Evaluate_ok)

text \<open>Bounded memory of the movement monitors. Whatever feeders are registered and removed
  and whatever snapshots are evaluated, every monitor keeps at most 1,000 tracks and all
  monitors together at most 25,000.
\<close>

theorem movement_bounded:
  "registry_StateLen (registry_run ops NewMovementRegistry) \<le> 25000 \<and>
   list_all (\<lambda>(fid, mon). movement_StateLen mon \<le> 1000) (registry_run ops NewMovementRegistry)"
proof -
  have "registry_ok NewMovementRegistry" by (simp add: registry_ok_def NewMovementRegistry_def registry_StateLen_def)
  then have "registry_ok (registry_run ops NewMovementRegistry)" by (rule registry_run_ok)
  then show ?thesis by (auto simp: registry_ok_def monitor_ok_def maxMovementStateGlobal_def maxMovementTracks_def list_all_iff)
qed

section \<open>One track\<close>

text \<open>
  How a counter of consecutive matches, the time of its last alert and the alerts evolve in
  one sample, given whether the sample is evidence.
\<close>

definition count_rel :: "rule_type \<Rightarrow> bool \<Rightarrow> time \<Rightarrow> int \<Rightarrow> time \<Rightarrow> alert list \<Rightarrow> int \<Rightarrow> time \<Rightarrow> bool" where
  "count_rel kind evidence now matches fired os matches' fired' \<longleftrightarrow>
     (os = [] \<and> fired' = fired \<and> (matches' = 0 \<or> evidence \<and> matches' = matches + 1)) \<or>
     (\<exists>al. os = [al] \<and> al_Type al = kind \<and> al_ObservedAt al = now \<and> evidence \<and> matches + 1 \<ge> 3 \<and>
        time_sub now fired \<ge> movementCooldown \<and> matches' = 0 \<and> fired' = now)"

lemma movementAlert_simps [simp]:
  "al_Type (movementAlert g a kind title description d v h now) = kind"
  "al_ObservedAt (movementAlert g a kind title description d v h now) = now"
  by (simp_all add: movementAlert_def Let_def)

lemma evaluateDeparture_rel:
  assumes "evaluateDeparture config g a sp now st = (os, st')"
  shows "count_rel RuleTakeoff (\<not> ac_OnGround a \<and> \<not> sp_distance sp > 8 \<and> departure_evidence a sp st) now
      (ms_takeoffMatches st) (ms_lastTakeoff st) os (ms_takeoffMatches st') (ms_lastTakeoff st')"
    and "ms_landingMatches st' = ms_landingMatches st" "ms_lastLanding st' = ms_lastLanding st"
    and "ms_approachMatches st' = ms_approachMatches st" "ms_lastApproach st' = ms_lastApproach st" "ms_lastSeen st' = ms_lastSeen st"
    and "ms_approaching st' \<Longrightarrow> ms_approaching st"
  using assms by (auto simp: evaluateDeparture_def Let_def count_rel_def not_less split: if_splits)

lemma evaluateLanding_rel:
  assumes "evaluateLanding config g a sp now st = (os, st')"
  shows "count_rel RuleLanding (ac_OnGround a \<and> \<not> sp_distance sp > 3) now
      (ms_landingMatches st) (ms_lastLanding st) os (ms_landingMatches st') (ms_lastLanding st')"
    and "ms_takeoffMatches st' = ms_takeoffMatches st" "ms_lastTakeoff st' = ms_lastTakeoff st"
    and "ms_approachMatches st' = ms_approachMatches st" "ms_lastApproach st' = ms_lastApproach st" "ms_lastSeen st' = ms_lastSeen st"
    and "ms_approaching st' \<Longrightarrow> ms_approaching st"
  using assms by (auto simp: evaluateLanding_def Let_def count_rel_def not_less split: if_splits)

lemma evaluateApproach_cases:
  assumes "evaluateApproach config g a sp now st = (os, st')"
  obtains (reset) ap ph where "os = []" "st' = st\<lparr> ms_approaching := ap, ms_phase := ph, ms_approachMatches := 0 \<rparr>" "ap \<Longrightarrow> ms_approaching st"
  | (held) "os = []" "st' = st" "ms_approaching st \<or> time_sub now (ms_lastApproach st) < movementCooldown"
  | (counted) "\<not> ac_OnGround a" "approach_evidence a sp" "\<not> ms_approaching st" "time_sub now (ms_lastApproach st) \<ge> movementCooldown"
      "os = []" "st' = st\<lparr> ms_approachMatches := ms_approachMatches st + 1 \<rparr>"
  | (fired) al where "\<not> ac_OnGround a" "approach_evidence a sp" "\<not> ms_approaching st" "time_sub now (ms_lastApproach st) \<ge> movementCooldown"
      "ms_approachMatches st + 1 \<ge> 3" "os = [al]" "al_Type al = RuleApproach" "al_ObservedAt al = now"
      "st' = st\<lparr> ms_approachMatches := 0, ms_approaching := True, ms_lastApproach := now, ms_phase := MovementApproach, ms_phaseAt := now \<rparr>"
proof -
  consider "ac_OnGround a" | "\<not> ac_OnGround a" "sp_distance sp > 12"
    | "\<not> ac_OnGround a" "\<not> sp_distance sp > 12" "ms_approaching st \<or> time_sub now (ms_lastApproach st) < movementCooldown"
    | "\<not> ac_OnGround a" "\<not> sp_distance sp > 12" "\<not> (ms_approaching st \<or> time_sub now (ms_lastApproach st) < movementCooldown)" "\<not> approach_evidence a sp"
    | "\<not> ac_OnGround a" "\<not> sp_distance sp > 12" "\<not> (ms_approaching st \<or> time_sub now (ms_lastApproach st) < movementCooldown)" "approach_evidence a sp"
        "ms_approachMatches st + 1 < 3"
    | "\<not> ac_OnGround a" "\<not> sp_distance sp > 12" "\<not> (ms_approaching st \<or> time_sub now (ms_lastApproach st) < movementCooldown)" "approach_evidence a sp"
        "\<not> ms_approachMatches st + 1 < 3"
    by blast
  then show thesis
  proof cases
    case 1
    then show ?thesis using assms by (intro reset [where ap = "ms_approaching st" and ph = "ms_phase st"]) (simp_all add: evaluateApproach_def)
  next
    case 2
    then show ?thesis using assms
      by (intro reset [where ap = False and ph = "if ms_phase st = MovementApproach then [] else ms_phase st"]) (simp_all add: evaluateApproach_def)
  next
    case 3
    then show ?thesis using assms by (intro held) (simp_all add: evaluateApproach_def)
  next
    case 4
    then show ?thesis using assms
      by (intro reset [where ap = "ms_approaching st" and ph = "ms_phase st"]) (cases st; simp add: evaluateApproach_def; blast)+
  next
    case 5
    then show ?thesis using assms by (intro counted) (simp_all add: evaluateApproach_def Let_def)
  next
    case 6
    then show ?thesis using assms by (intro fired [of "hd os"]) (auto simp: evaluateApproach_def Let_def)
  qed
qed

lemma evaluateApproach_rel:
  assumes "evaluateApproach config g a sp now st = (os, st')"
  shows "count_rel RuleApproach (\<not> ac_OnGround a \<and> approach_evidence a sp) now
      (ms_approachMatches st) (ms_lastApproach st) os (ms_approachMatches st') (ms_lastApproach st') \<or>
    (os = [] \<and> ms_approachMatches st' = ms_approachMatches st \<and> ms_lastApproach st' = ms_lastApproach st \<and>
      (ms_approaching st \<or> time_sub now (ms_lastApproach st) < movementCooldown))"
    and "ms_approachMatches st' > 0 \<Longrightarrow> ms_approachMatches st' = ms_approachMatches st + 1 \<Longrightarrow>
      time_sub now (ms_lastApproach st') \<ge> movementCooldown \<and> \<not> ms_approaching st'"
    and "ms_takeoffMatches st' = ms_takeoffMatches st" "ms_lastTakeoff st' = ms_lastTakeoff st"
    and "ms_landingMatches st' = ms_landingMatches st" "ms_lastLanding st' = ms_lastLanding st" "ms_lastSeen st' = ms_lastSeen st"
    and "ms_approaching st' \<Longrightarrow> ms_approaching st \<or> ms_approachMatches st' = 0"
  by (rule evaluateApproach_cases [OF assms]; simp add: count_rel_def)+

lemma note_proximity_frame [frame_simps]:
  "ms_takeoffMatches (note_proximity a d st) = ms_takeoffMatches st" "ms_lastTakeoff (note_proximity a d st) = ms_lastTakeoff st"
  "ms_landingMatches (note_proximity a d st) = ms_landingMatches st" "ms_lastLanding (note_proximity a d st) = ms_lastLanding st"
  "ms_approachMatches (note_proximity a d st) = ms_approachMatches st" "ms_lastApproach (note_proximity a d st) = ms_lastApproach st"
  "ms_approaching (note_proximity a d st) = ms_approaching st" "ms_lastSeen (note_proximity a d st) = ms_lastSeen st"
  "ms_hasAltitude (note_proximity a d st) = ms_hasAltitude st" "ms_lastAltitudeFt (note_proximity a d st) = ms_lastAltitudeFt st"
  by (simp_all add: note_proximity_def Let_def)

lemma updateActivity_frame [frame_simps]:
  "ms_takeoffMatches (updateActivity a sp now st) = ms_takeoffMatches st" "ms_lastTakeoff (updateActivity a sp now st) = ms_lastTakeoff st"
  "ms_landingMatches (updateActivity a sp now st) = ms_landingMatches st" "ms_lastLanding (updateActivity a sp now st) = ms_lastLanding st"
  "ms_approachMatches (updateActivity a sp now st) = ms_approachMatches st" "ms_lastApproach (updateActivity a sp now st) = ms_lastApproach st"
  "ms_approaching (updateActivity a sp now st) = ms_approaching st" "ms_lastSeen (updateActivity a sp now st) = ms_lastSeen st"
  by (simp_all add: updateActivity_def Let_def split: prod.splits)

text \<open>The evidence of a sample, read off the track before it.\<close>

definition departure_sample :: "movement_config \<Rightarrow> movement_state \<Rightarrow> time \<times> aircraft \<Rightarrow> bool" where
  "departure_sample config st i = (case i of (now, a) \<Rightarrow> ac_HasPosition a \<and> \<not> ac_OnGround a \<and>
     sp_distance (movement_sample_of config a now st) \<le> 8 \<and> departure_evidence a (movement_sample_of config a now st) st)"

definition landing_sample :: "movement_config \<Rightarrow> movement_state \<Rightarrow> time \<times> aircraft \<Rightarrow> bool" where
  "landing_sample config st i = (case i of (now, a) \<Rightarrow> ac_HasPosition a \<and> ac_OnGround a \<and>
     sp_distance (movement_sample_of config a now st) \<le> 3)"

definition approach_sample :: "movement_config \<Rightarrow> movement_state \<Rightarrow> time \<times> aircraft \<Rightarrow> bool" where
  "approach_sample config st i = (case i of (now, a) \<Rightarrow> ac_HasPosition a \<and> \<not> ac_OnGround a \<and>
     approach_evidence a (movement_sample_of config a now st))"

lemma sample_lastSeen: "movement_sample_of config a now (st\<lparr> ms_lastSeen := t \<rparr>) = movement_sample_of config a now st"
  by (cases st) (simp only: movement_sample_of_def movement_state.simps)

lemma departure_evidence_cong:
  "ms_hasAltitude st = ms_hasAltitude st' \<Longrightarrow> ms_lastAltitudeFt st = ms_lastAltitudeFt st' \<Longrightarrow>
     departure_evidence a sp st = departure_evidence a sp st'"
  by (simp only: departure_evidence_def)

definition track_rel :: "movement_config \<Rightarrow> time \<times> aircraft \<Rightarrow> movement_state \<Rightarrow> alert list \<Rightarrow> movement_state \<Rightarrow> bool" where
  "track_rel config i st os st' \<longleftrightarrow> (\<exists>d l p. os = d @ l @ p \<and>
     count_rel RuleTakeoff (departure_sample config st i) (fst i) (ms_takeoffMatches st) (ms_lastTakeoff st) d (ms_takeoffMatches st') (ms_lastTakeoff st') \<and>
     count_rel RuleLanding (landing_sample config st i) (fst i) (ms_landingMatches st) (ms_lastLanding st) l (ms_landingMatches st') (ms_lastLanding st') \<and>
     (count_rel RuleApproach (approach_sample config st i) (fst i) (ms_approachMatches st) (ms_lastApproach st) p (ms_approachMatches st') (ms_lastApproach st') \<or>
      (p = [] \<and> ms_approachMatches st' = ms_approachMatches st \<and> ms_lastApproach st' = ms_lastApproach st \<and>
        (ms_approaching st \<or> time_sub (fst i) (ms_lastApproach st) < movementCooldown)))) \<and>
   (ms_approachMatches st' > 0 \<longrightarrow> ms_approachMatches st' = ms_approachMatches st + 1 \<longrightarrow>
      time_sub (fst i) (ms_lastApproach st') \<ge> movementCooldown \<and> \<not> ms_approaching st') \<and>
   (ms_approaching st' \<longrightarrow> ms_approaching st \<or> ms_approachMatches st' = 0) \<and> ms_lastSeen st' = fst i"

lemma track_step_rel:
  assumes "track_step config g now a st = (os, st')"
  shows "track_rel config (now, a) st os st'"
proof (cases "ac_HasPosition a")
  case False
  then have "os = []" "st' = st\<lparr> ms_lastSeen := now, ms_approachMatches := 0, ms_takeoffMatches := 0, ms_landingMatches := 0,
      ms_known := True, ms_onGround := ac_OnGround a \<rparr>"
    using assms by (auto simp: track_step_def)
  then show ?thesis by (simp add: track_rel_def count_rel_def)
next
  case True
  define sp where "sp = movement_sample_of config a now st"
  define st0 where "st0 = st\<lparr> ms_lastSeen := now \<rparr>"
  define st1 where "st1 = (if sp_distance sp > 12 \<and> ms_phase st0 = MovementDeparture then st0\<lparr> ms_phase := [] \<rparr> else st0)"
  define st2 where "st2 = note_proximity a (sp_distance sp) st1"
  obtain d st3 where d: "evaluateDeparture config g a sp now st2 = (d, st3)" by (cases "evaluateDeparture config g a sp now st2")
  obtain l st4 where l: "evaluateLanding config g a sp now st3 = (l, st4)" by (cases "evaluateLanding config g a sp now st3")
  obtain p st5 where p: "evaluateApproach config g a sp now st4 = (p, st5)" by (cases "evaluateApproach config g a sp now st4")
  have sp0: "movement_sample_of config a now st0 = sp" by (simp add: st0_def sp_def sample_lastSeen)
  have res: "os = d @ l @ p" "st' = (updateActivity a sp now st5)\<lparr> ms_onGround := ac_OnGround a, ms_known := True, ms_lastSample := now,
      ms_lastDistanceNM := sp_distance sp, ms_hasDistance := True, ms_lastAltitudeFt := ac_AltitudeFeet a, ms_hasAltitude := ac_HasAltitude a \<rparr>"
    using assms True d l p unfolding track_step_def st0_def [symmetric] Let_def sp0 st1_def [symmetric] st2_def [symmetric] by simp_all
  have f12: "ms_takeoffMatches st2 = ms_takeoffMatches st" "ms_lastTakeoff st2 = ms_lastTakeoff st" "ms_landingMatches st2 = ms_landingMatches st"
    "ms_lastLanding st2 = ms_lastLanding st" "ms_approachMatches st2 = ms_approachMatches st" "ms_lastApproach st2 = ms_lastApproach st"
    "ms_approaching st2 = ms_approaching st" "ms_lastSeen st2 = now"
    by (simp_all add: st2_def st1_def st0_def frame_simps)
  have ev: "departure_evidence a sp st2 = departure_evidence a sp st"
    by (rule departure_evidence_cong) (simp_all add: st2_def st1_def st0_def frame_simps)
  note D = evaluateDeparture_rel [OF d] and L = evaluateLanding_rel [OF l] and P = evaluateApproach_rel [OF p]
  have cd: "count_rel RuleTakeoff (departure_sample config st (now, a)) now (ms_takeoffMatches st) (ms_lastTakeoff st) d (ms_takeoffMatches st') (ms_lastTakeoff st')"
    using D(1) L(2,3) P(3,4) True by (simp add: res(2) frame_simps f12 ev departure_sample_def sp_def [symmetric] not_less)
  have cl: "count_rel RuleLanding (landing_sample config st (now, a)) now (ms_landingMatches st) (ms_lastLanding st) l (ms_landingMatches st') (ms_lastLanding st')"
    using L(1) D(2,3) P(5,6) True by (simp add: res(2) frame_simps f12 landing_sample_def sp_def [symmetric] not_less)
  have st4: "ms_approachMatches st4 = ms_approachMatches st" "ms_lastApproach st4 = ms_lastApproach st" "ms_approaching st4 \<Longrightarrow> ms_approaching st"
    using D(4,5,7) L(4,5,7) f12 by simp_all
  have cp: "count_rel RuleApproach (approach_sample config st (now, a)) now (ms_approachMatches st) (ms_lastApproach st) p (ms_approachMatches st') (ms_lastApproach st') \<or>
      (p = [] \<and> ms_approachMatches st' = ms_approachMatches st \<and> ms_lastApproach st' = ms_lastApproach st \<and>
        (ms_approaching st \<or> time_sub now (ms_lastApproach st) < movementCooldown))"
    using P(1) st4 True by (auto simp: res(2) frame_simps approach_sample_def sp_def [symmetric])
  have up: "ms_approachMatches st' = ms_approachMatches st5" "ms_lastApproach st' = ms_lastApproach st5"
    "ms_approaching st' = ms_approaching st5" "ms_lastSeen st' = ms_lastSeen st5"
    by (simp_all add: res(2) frame_simps)
  have inc: "ms_approachMatches st' > 0 \<longrightarrow> ms_approachMatches st' = ms_approachMatches st + 1 \<longrightarrow>
      time_sub now (ms_lastApproach st') \<ge> movementCooldown \<and> \<not> ms_approaching st'"
    using P(2) unfolding up st4 by blast
  have app: "ms_approaching st' \<longrightarrow> ms_approaching st \<or> ms_approachMatches st' = 0"
    using P(8) st4(3) unfolding up by blast
  have seen: "ms_lastSeen st' = now" unfolding up using P(7) L(6) D(6) f12(8) by simp
  show ?thesis unfolding track_rel_def fst_conv
    using cd cl cp res(1) inc app seen by blast
qed

section \<open>A run of samples\<close>

type_synonym track_input = "time \<times> aircraft"

definition track_mon :: "movement_config \<Rightarrow> u64 \<Rightarrow> track_input \<Rightarrow> movement_state \<Rightarrow> alert list \<times> movement_state" where
  "track_mon config g i st = (case i of (now, a) \<Rightarrow> track_step config g now a st)"

text \<open>The track after a list of samples, and how many of the latest samples in a row are evidence.\<close>

definition track_after :: "movement_config \<Rightarrow> u64 \<Rightarrow> track_input list \<Rightarrow> movement_state" where
  "track_after config g is = snd (mon_run (track_mon config g) is zero_movement_state)"

definition track_alerts :: "movement_config \<Rightarrow> u64 \<Rightarrow> track_input list \<Rightarrow> alert list" where
  "track_alerts config g is = fst (mon_run (track_mon config g) is zero_movement_state)"

definition sample_streak :: "(movement_state \<Rightarrow> track_input \<Rightarrow> bool) \<Rightarrow> movement_config \<Rightarrow> u64 \<Rightarrow> track_input list \<Rightarrow> nat" where
  "sample_streak E config g is = length (takeWhile (\<lambda>n. E (track_after config g (take n is)) (is ! n)) (rev [0..<length is]))"

lemma sample_streak_Nil [simp]: "sample_streak E config g [] = 0"
  by (simp add: sample_streak_def)

lemma sample_streak_snoc: "sample_streak E config g (is @ [i]) = (if E (track_after config g is) i then Suc (sample_streak E config g is) else 0)"
proof -
  have "takeWhile (\<lambda>n. E (track_after config g (take n (is @ [i]))) ((is @ [i]) ! n)) (rev [0..<length is]) =
      takeWhile (\<lambda>n. E (track_after config g (take n is)) (is ! n)) (rev [0..<length is])"
    by (rule takeWhile_cong) (auto simp: nth_append)
  then show ?thesis by (simp add: sample_streak_def)
qed

lemma track_after_Nil [simp]: "track_after config g [] = zero_movement_state" "track_alerts config g [] = []"
  by (simp_all add: track_after_def track_alerts_def)

lemma track_after_snoc:
  "track_after config g (is @ [i]) = snd (track_mon config g i (track_after config g is))"
  "track_alerts config g (is @ [i]) = track_alerts config g is @ fst (track_mon config g i (track_after config g is))"
  by (simp_all add: track_after_def track_alerts_def mon_run_snoc)

definition fired_at :: "movement_state \<Rightarrow> rule_type \<Rightarrow> time" where
  "fired_at st kind = (if kind = RuleTakeoff then ms_lastTakeoff st else if kind = RuleLanding then ms_lastLanding st else ms_lastApproach st)"

definition movement_inv :: "movement_config \<Rightarrow> u64 \<Rightarrow> track_input list \<Rightarrow> alert list \<Rightarrow> movement_state \<Rightarrow> bool" where
  "movement_inv config g is os st \<longleftrightarrow>
     0 \<le> ms_takeoffMatches st \<and> ms_takeoffMatches st \<le> int (sample_streak (departure_sample config) config g is) \<and>
     0 \<le> ms_landingMatches st \<and> ms_landingMatches st \<le> int (sample_streak (landing_sample config) config g is) \<and>
     (sorted (map fst is) \<longrightarrow>
       0 \<le> ms_approachMatches st \<and> ms_approachMatches st \<le> int (sample_streak (approach_sample config) config g is) \<and>
       (ms_approachMatches st > 0 \<longrightarrow> \<not> ms_approaching st \<and> time_sub (ms_lastSeen st) (ms_lastApproach st) \<ge> movementCooldown) \<and>
       (is \<noteq> [] \<longrightarrow> ms_lastSeen st = fst (last is)) \<and>
       (\<forall>al\<in>set os. al_Type al \<in> {RuleTakeoff, RuleLanding, RuleApproach} \<and> al_ObservedAt al \<le> fired_at st (al_Type al) \<and>
          al_ObservedAt al \<le> ms_lastSeen st))"

lemma count_rel_bounds:
  assumes "count_rel kind evidence now matches fired os matches' fired'" "0 \<le> matches" "matches \<le> int n"
  shows "0 \<le> matches' \<and> matches' \<le> int (if evidence then Suc n else 0)"
  using assms by (auto simp: count_rel_def)

lemma count_rel_alert:
  assumes "count_rel kind evidence now matches fired os matches' fired'" "al \<in> set os" "matches \<le> int n"
  shows "al_Type al = kind \<and> al_ObservedAt al = now \<and> fired' = now \<and> 3 \<le> (if evidence then Suc n else 0) \<and> time_sub now fired \<ge> movementCooldown"
  using assms by (auto simp: count_rel_def)

lemma count_rel_emit:
  "count_rel kind evidence now matches fired os matches' fired' \<Longrightarrow> al \<in> set os \<Longrightarrow> al_Type al = kind \<and> al_ObservedAt al = now \<and> fired' = now"
  by (auto simp: count_rel_def)

lemma count_rel_fired: "count_rel kind evidence now matches fired os matches' fired' \<Longrightarrow> fired' = fired \<or> fired' = now"
  by (auto simp: count_rel_def)

lemma movement_inv_step:
  assumes inv: "movement_inv config g is os st" and st: "st = track_after config g is" and os0: "is = [] \<Longrightarrow> os = []"
    and step: "track_mon config g i st = (new, st')"
  shows "movement_inv config g (is @ [i]) (os @ new) st'"
proof -
  obtain now a where i: "i = (now, a)" by (cases i)
  have rel: "track_rel config i st new st'" using track_step_rel step i by (simp add: track_mon_def)
  then obtain d l p where new: "new = d @ l @ p"
    and D: "count_rel RuleTakeoff (departure_sample config st i) now (ms_takeoffMatches st) (ms_lastTakeoff st) d (ms_takeoffMatches st') (ms_lastTakeoff st')"
    and L: "count_rel RuleLanding (landing_sample config st i) now (ms_landingMatches st) (ms_lastLanding st) l (ms_landingMatches st') (ms_lastLanding st')"
    and P: "count_rel RuleApproach (approach_sample config st i) now (ms_approachMatches st) (ms_lastApproach st) p (ms_approachMatches st') (ms_lastApproach st') \<or>
      (p = [] \<and> ms_approachMatches st' = ms_approachMatches st \<and> ms_lastApproach st' = ms_lastApproach st \<and>
        (ms_approaching st \<or> time_sub now (ms_lastApproach st) < movementCooldown))"
    unfolding track_rel_def i fst_conv by blast
  have seen: "ms_lastSeen st' = now" and inc: "ms_approachMatches st' > 0 \<Longrightarrow> ms_approachMatches st' = ms_approachMatches st + 1 \<Longrightarrow>
      time_sub now (ms_lastApproach st') \<ge> movementCooldown \<and> \<not> ms_approaching st'"
    using rel unfolding track_rel_def i fst_conv by blast+
  have takeoff: "0 \<le> ms_takeoffMatches st' \<and> ms_takeoffMatches st' \<le> int (sample_streak (departure_sample config) config g (is @ [i]))"
    using count_rel_bounds [OF D, of "sample_streak (departure_sample config) config g is"] inv unfolding movement_inv_def sample_streak_snoc st [symmetric] by blast
  have landing: "0 \<le> ms_landingMatches st' \<and> ms_landingMatches st' \<le> int (sample_streak (landing_sample config) config g (is @ [i]))"
    using count_rel_bounds [OF L, of "sample_streak (landing_sample config) config g is"] inv unfolding movement_inv_def sample_streak_snoc st [symmetric] by blast
  have sorted_part: "0 \<le> ms_approachMatches st' \<and> ms_approachMatches st' \<le> int (sample_streak (approach_sample config) config g (is @ [i])) \<and>
       (ms_approachMatches st' > 0 \<longrightarrow> \<not> ms_approaching st' \<and> time_sub (ms_lastSeen st') (ms_lastApproach st') \<ge> movementCooldown) \<and>
       (\<forall>al\<in>set (os @ new). al_Type al \<in> {RuleTakeoff, RuleLanding, RuleApproach} \<and> al_ObservedAt al \<le> fired_at st' (al_Type al) \<and>
          al_ObservedAt al \<le> ms_lastSeen st')" if sorted: "sorted (map fst (is @ [i]))"
  proof -
    have is_sorted: "sorted (map fst is)" and later: "is \<noteq> [] \<Longrightarrow> ms_lastSeen st \<le> now"
      using sorted inv unfolding movement_inv_def i by (auto simp: sorted_append last_in_set)
    have am: "0 \<le> ms_approachMatches st" "ms_approachMatches st \<le> int (sample_streak (approach_sample config) config g is)"
      and armed: "ms_approachMatches st > 0 \<Longrightarrow> \<not> ms_approaching st \<and> time_sub (ms_lastSeen st) (ms_lastApproach st) \<ge> movementCooldown"
      and old: "\<And>al. al \<in> set os \<Longrightarrow> al_Type al \<in> {RuleTakeoff, RuleLanding, RuleApproach} \<and> al_ObservedAt al \<le> fired_at st (al_Type al) \<and>
          al_ObservedAt al \<le> ms_lastSeen st"
      using inv is_sorted unfolding movement_inv_def by blast+
    have held0: "ms_approachMatches st = 0" if "ms_approaching st \<or> time_sub now (ms_lastApproach st) < movementCooldown"
    proof (rule ccontr)
      assume "ms_approachMatches st \<noteq> 0"
      then have pos: "ms_approachMatches st > 0" using am(1) by simp
      then have "is \<noteq> []" using am(2) by auto
      then show False using that armed [OF pos] later time_sub_mono [of "ms_lastSeen st" now "ms_lastApproach st"] by auto
    qed
    have bounds: "0 \<le> ms_approachMatches st' \<and> ms_approachMatches st' \<le> int (sample_streak (approach_sample config) config g (is @ [i]))"
      using P
    proof (elim disjE conjE)
      assume "count_rel RuleApproach (approach_sample config st i) now (ms_approachMatches st) (ms_lastApproach st) p (ms_approachMatches st') (ms_lastApproach st')"
      from count_rel_bounds [OF this am] show ?thesis unfolding sample_streak_snoc st [symmetric] .
    qed (use held0 in auto)
    have "ms_approachMatches st' = ms_approachMatches st + 1" if "ms_approachMatches st' > 0"
      using P that held0 by (auto simp: count_rel_def)
    then have inc': "ms_approachMatches st' > 0 \<longrightarrow> \<not> ms_approaching st' \<and> time_sub (ms_lastSeen st') (ms_lastApproach st') \<ge> movementCooldown"
      using inc unfolding seen by blast
    have fired: "fired_at st' k = fired_at st k \<or> fired_at st' k = now" for k
    proof -
      have "ms_lastApproach st' = ms_lastApproach st \<or> ms_lastApproach st' = now" using P count_rel_fired by blast
      then show ?thesis using count_rel_fired [OF D] count_rel_fired [OF L] by (simp add: fired_at_def)
    qed
    have "al_Type al \<in> {RuleTakeoff, RuleLanding, RuleApproach} \<and> al_ObservedAt al \<le> fired_at st' (al_Type al) \<and> al_ObservedAt al \<le> ms_lastSeen st'"
      if "al \<in> set os" for al
    proof -
      have "is \<noteq> []" using that os0 by auto
      then have "al_ObservedAt al \<le> now" using old [OF that] later by auto
      then show ?thesis using old [OF that] fired [of "al_Type al"] seen by auto
    qed
    moreover have "al_Type al \<in> {RuleTakeoff, RuleLanding, RuleApproach} \<and> al_ObservedAt al \<le> fired_at st' (al_Type al) \<and> al_ObservedAt al \<le> ms_lastSeen st'"
      if "al \<in> set new" for al
    proof -
      from that new consider "al \<in> set d" | "al \<in> set l" | "al \<in> set p" by auto
      then show ?thesis
      proof cases
        case 1
        then show ?thesis using count_rel_emit [OF D 1] seen by (simp add: fired_at_def)
      next
        case 2
        then show ?thesis using count_rel_emit [OF L 2] seen by (simp add: fired_at_def)
      next
        case 3
        with P have "count_rel RuleApproach (approach_sample config st i) now (ms_approachMatches st) (ms_lastApproach st) p (ms_approachMatches st') (ms_lastApproach st')"
          by auto
        from count_rel_emit [OF this 3] show ?thesis using seen by (simp add: fired_at_def)
      qed
    qed
    ultimately show ?thesis using bounds inc' by auto
  qed
  show ?thesis unfolding movement_inv_def using takeoff landing sorted_part seen i by simp
qed

interpretation track: monitor zero_movement_state "track_mon config g"
  "\<lambda>is os st. st = track_after config g is \<and> os = track_alerts config g is \<and> movement_inv config g is os st"
  for config g
proof (unfold_locales, goal_cases)
  case 1
  show ?case by (simp add: movement_inv_def zero_movement_state_def)
next
  case (2 "is" os st i)
  then show ?case
    using movement_inv_step [of config g "is" os st i "fst (track_mon config g i st)" "snd (track_mon config g i st)"]
    by (auto simp: track_after_snoc)
qed

lemma movement_run_inv: "movement_inv config g is (track_alerts config g is) (track_after config g is)"
  using track.rep_run [of config g "is"] by (simp add: track_after_def track_alerts_def)

lemma track_alert_cases:
  assumes "sorted (map fst (is @ [(now, a)]))" "al \<in> set (fst (track_step config g now a (track_after config g is)))"
  shows "(al_Type al = RuleTakeoff \<and> 3 \<le> sample_streak (departure_sample config) config g (is @ [(now, a)]) \<or>
      al_Type al = RuleLanding \<and> 3 \<le> sample_streak (landing_sample config) config g (is @ [(now, a)]) \<or>
      al_Type al = RuleApproach \<and> 3 \<le> sample_streak (approach_sample config) config g (is @ [(now, a)])) \<and>
    al_ObservedAt al = now \<and> time_sub now (fired_at (track_after config g is) (al_Type al)) \<ge> movementCooldown"
proof -
  let ?st = "track_after config g is"
  obtain new st' where step: "track_step config g now a ?st = (new, st')" by (cases "track_step config g now a ?st")
  have inv: "ms_takeoffMatches ?st \<le> int (sample_streak (departure_sample config) config g is)"
    "ms_landingMatches ?st \<le> int (sample_streak (landing_sample config) config g is)"
    "ms_approachMatches ?st \<le> int (sample_streak (approach_sample config) config g is)"
    using movement_run_inv [of config g "is"] assms(1) unfolding movement_inv_def by (auto simp: sorted_append)
  from track_step_rel [OF step] obtain d l p where new: "new = d @ l @ p"
    and D: "count_rel RuleTakeoff (departure_sample config ?st (now, a)) now (ms_takeoffMatches ?st) (ms_lastTakeoff ?st) d (ms_takeoffMatches st') (ms_lastTakeoff st')"
    and L: "count_rel RuleLanding (landing_sample config ?st (now, a)) now (ms_landingMatches ?st) (ms_lastLanding ?st) l (ms_landingMatches st') (ms_lastLanding st')"
    and P: "count_rel RuleApproach (approach_sample config ?st (now, a)) now (ms_approachMatches ?st) (ms_lastApproach ?st) p (ms_approachMatches st') (ms_lastApproach st') \<or> p = []"
    unfolding track_rel_def fst_conv by blast
  from assms(2) step new consider "al \<in> set d" | "al \<in> set l" | "al \<in> set p" by auto
  then show ?thesis
  proof cases
    case 1
    then show ?thesis using count_rel_alert [OF D 1 inv(1)] by (simp add: sample_streak_snoc fired_at_def)
  next
    case 2
    then show ?thesis using count_rel_alert [OF L 2 inv(2)] by (simp add: sample_streak_snoc fired_at_def)
  next
    case 3
    with P have "count_rel RuleApproach (approach_sample config ?st (now, a)) now (ms_approachMatches ?st) (ms_lastApproach ?st) p (ms_approachMatches st') (ms_lastApproach st')"
      by auto
    from count_rel_alert [OF this 3 inv(3)] show ?thesis by (simp add: sample_streak_snoc fired_at_def)
  qed
qed

text \<open>Three samples in a row. For samples in the order of time, a departure, landing or
  approach is announced only when the latest three samples of the aircraft in a row, the
  current one included, are evidence of it; an approach counter that stands still while an
  approach is already announced or cooling down never makes up for missing samples.
\<close>

theorem movement_three_samples:
  assumes "sorted (map fst (is @ [(now, a)]))" "al \<in> set (fst (track_step config g now a (track_after config g is)))"
  shows "al_Type al = RuleTakeoff \<and> 3 \<le> sample_streak (departure_sample config) config g (is @ [(now, a)]) \<or>
    al_Type al = RuleLanding \<and> 3 \<le> sample_streak (landing_sample config) config g (is @ [(now, a)]) \<or>
    al_Type al = RuleApproach \<and> 3 \<le> sample_streak (approach_sample config) config g (is @ [(now, a)])"
  using track_alert_cases [OF assms] by blast

text \<open>Alerts of a kind keep their distance. For samples in the order of time, two alerts of
  the same kind for one track are at least ten minutes apart.
\<close>

theorem movement_cooldown:
  assumes "sorted (map fst (is @ [(now, a)]))" "al1 \<in> set (track_alerts config g is)"
    "al2 \<in> set (fst (track_step config g now a (track_after config g is)))" "al_Type al1 = al_Type al2"
  shows "time_sub (al_ObservedAt al2) (al_ObservedAt al1) \<ge> 10 * minute"
proof -
  have "al_ObservedAt al1 \<le> fired_at (track_after config g is) (al_Type al1)"
    using movement_run_inv [of config g "is"] assms(1,2) unfolding movement_inv_def by (auto simp: sorted_append)
  then have "time_sub now (fired_at (track_after config g is) (al_Type al1)) \<le> time_sub now (al_ObservedAt al1)"
    by (rule time_sub_antimono)
  then show ?thesis using track_alert_cases [OF assms(1,3)] assms(4) by (simp add: movementCooldown_def)
qed

definition movement_demo_config :: movement_config where
  "movement_demo_config = \<lparr> mc_AirportCode = ''XYZ'', mc_Latitude = 0, mc_Longitude = 0, mc_HasCenter = True \<rparr>"

definition movement_demo_aircraft :: "bool \<Rightarrow> aircraft" where
  "movement_demo_aircraft ground = zero_aircraft\<lparr> ac_ICAO := ''A1'', ac_HasPosition := True, ac_OnGround := ground \<rparr>"

lemma movement_demo_distance: "rules_distanceBearing 0 0 0 0 = (0, 0)"
  by (simp add: rules_distanceBearing_def Let_def atan2_def fmod_def)

lemma movement_demo_sample:
  "sp_distance (movement_sample_of movement_demo_config (movement_demo_aircraft ground) now st) = 0"
  by (simp add: movement_sample_of_def movement_demo_config_def movement_demo_aircraft_def zero_aircraft_def movement_demo_distance Let_def)

lemma movement_demo_no_rate: "\<not> sp_hasVerticalRate (movement_sample_of movement_demo_config (movement_demo_aircraft ground) now st)"
  by (simp add: movement_sample_of_def movement_demo_aircraft_def zero_aircraft_def Let_def split: prod.splits)

lemmas demo_steps = track_step_def Let_def note_proximity_def evaluateDeparture_def evaluateLanding_def evaluateApproach_def updateActivity_def

lemma demo_no_evidence:
  "\<not> departure_evidence (movement_demo_aircraft False) (movement_sample_of movement_demo_config (movement_demo_aircraft False) now st) st'"
  "\<not> approach_evidence (movement_demo_aircraft False) sp"
  using movement_demo_no_rate [of False now st]
  by (simp_all add: departure_evidence_def approach_evidence_def movement_demo_aircraft_def zero_aircraft_def)

lemma demo_fields:
  "ac_HasPosition (movement_demo_aircraft ground)" "ac_OnGround (movement_demo_aircraft ground) = ground" "\<not> ac_HasAltitude (movement_demo_aircraft ground)"
  by (simp_all add: movement_demo_aircraft_def zero_aircraft_def)

lemma demo_airborne:
  assumes "st' = snd (track_step movement_demo_config g now (movement_demo_aircraft False) st)"
  shows "ms_airborneNear st' \<and> ms_landingMatches st' = 0 \<and> ms_lastLanding st' = ms_lastLanding st"
  unfolding assms
  by (simp add: demo_steps demo_fields demo_no_evidence movement_demo_sample split: prod.splits)

lemma demo_ground:
  assumes "ms_airborneNear st"
  shows "ms_landingMatches st < 2 \<Longrightarrow>
      ms_landingMatches (snd (track_step movement_demo_config g now (movement_demo_aircraft True) st)) = ms_landingMatches st + 1 \<and>
      ms_airborneNear (snd (track_step movement_demo_config g now (movement_demo_aircraft True) st)) \<and>
      ms_lastLanding (snd (track_step movement_demo_config g now (movement_demo_aircraft True) st)) = ms_lastLanding st"
    and "ms_landingMatches st = 2 \<Longrightarrow> time_sub now (ms_lastLanding st) \<ge> movementCooldown \<Longrightarrow>
      (\<exists>al. fst (track_step movement_demo_config g now (movement_demo_aircraft True) st) = [al] \<and> al_Type al = RuleLanding) \<and>
      ms_lastLanding (snd (track_step movement_demo_config g now (movement_demo_aircraft True) st)) = now"
  using assms by (simp_all add: demo_steps demo_fields movement_demo_sample split: prod.splits)

lemma track_alerts_append: "al \<in> set (track_alerts config g is) \<Longrightarrow> al \<in> set (track_alerts config g (is @ js))"
  by (auto simp: track_alerts_def mon_run_append Let_def split: prod.splits)

text \<open>An airborne sample and three on the ground, the last of them at least the cooldown after the last landing.\<close>

definition landing_run :: "time \<Rightarrow> track_input list" where
  "landing_run t = [(t, movement_demo_aircraft False), (t, movement_demo_aircraft True), (t, movement_demo_aircraft True)]"

lemma landing_run_alert:
  assumes "time_sub t (ms_lastLanding (track_after movement_demo_config 1 is)) \<ge> movementCooldown"
  shows "\<exists>al st'. track_step movement_demo_config 1 t (movement_demo_aircraft True) (track_after movement_demo_config 1 (is @ landing_run t)) = ([al], st') \<and>
     al_Type al = RuleLanding \<and> ms_lastLanding st' = t"
proof -
  let ?step = "track_step movement_demo_config 1 t"
  define s0 where "s0 = track_after movement_demo_config 1 is"
  define s1 where "s1 = snd (?step (movement_demo_aircraft False) s0)"
  define s2 where "s2 = snd (?step (movement_demo_aircraft True) s1)"
  define s3 where "s3 = snd (?step (movement_demo_aircraft True) s2)"
  have 1: "ms_airborneNear s1" "ms_landingMatches s1 = 0" "ms_lastLanding s1 = ms_lastLanding s0" using demo_airborne [OF s1_def] by simp_all
  have 2: "ms_airborneNear s2" "ms_landingMatches s2 = 1" "ms_lastLanding s2 = ms_lastLanding s0"
    using demo_ground(1) [OF 1(1), of 1 t] 1 unfolding s2_def by simp_all
  have 3: "ms_airborneNear s3" "ms_landingMatches s3 = 2" "ms_lastLanding s3 = ms_lastLanding s0"
    using demo_ground(1) [OF 2(1), of 1 t] 2 unfolding s3_def by simp_all
  have run: "track_after movement_demo_config 1 (is @ landing_run t) = s3"
    using track_after_snoc(1) [of movement_demo_config 1]
    by (simp add: landing_run_def s3_def s2_def s1_def s0_def track_after_def mon_run_append track_mon_def Let_def split: prod.splits)
  have "(\<exists>al. fst (?step (movement_demo_aircraft True) s3) = [al] \<and> al_Type al = RuleLanding) \<and> ms_lastLanding (snd (?step (movement_demo_aircraft True) s3)) = t"
    using demo_ground(2) [OF 3(1,2), of t 1] assms 3(3) by (simp add: s0_def)
  then show ?thesis unfolding run by (cases "?step (movement_demo_aircraft True) s3") simp
qed

lemma demo_cooldown: "time_sub (10 ^ 15) 0 \<ge> movementCooldown" "time_sub (2 * 10 ^ 15) (10 ^ 15) \<ge> movementCooldown"
  by (simp_all add: time_sub_def movementCooldown_def max_duration_def min_duration_def)

definition movement_demo_run :: "track_input list" where
  "movement_demo_run = landing_run (10 ^ 15)"

lemma movement_demo_first:
  obtains al st' where "track_step movement_demo_config 1 (10 ^ 15) (movement_demo_aircraft True) (track_after movement_demo_config 1 movement_demo_run) = ([al], st')"
    "al_Type al = RuleLanding" "ms_lastLanding st' = 10 ^ 15"
  using landing_run_alert [of "10 ^ 15" "[]"] demo_cooldown(1) by (auto simp: movement_demo_run_def zero_movement_state_def)

theorem movement_three_samples_witness:
  "3 \<le> sample_streak (landing_sample movement_demo_config) movement_demo_config 1 (movement_demo_run @ [(10 ^ 15, movement_demo_aircraft True)])"
proof -
  obtain al st' where al: "track_step movement_demo_config 1 (10 ^ 15) (movement_demo_aircraft True) (track_after movement_demo_config 1 movement_demo_run) = ([al], st')"
      "al_Type al = RuleLanding" by (rule movement_demo_first)
  have "sorted (map fst (movement_demo_run @ [(10 ^ 15, movement_demo_aircraft True)]))" by (simp add: movement_demo_run_def landing_run_def)
  from movement_three_samples [OF this, of al] al show ?thesis by simp
qed

theorem movement_cooldown_witness:
  "\<exists>(al1 :: alert) (al2 :: alert). al_Type al1 = RuleLanding \<and> al_Type al2 = RuleLanding \<and> time_sub (al_ObservedAt al2) (al_ObservedAt al1) \<ge> 10 * minute"
proof -
  let ?is = "movement_demo_run @ [(10 ^ 15, movement_demo_aircraft True)]"
  obtain al1 st' where al1: "track_step movement_demo_config 1 (10 ^ 15) (movement_demo_aircraft True) (track_after movement_demo_config 1 movement_demo_run) = ([al1], st')"
      "al_Type al1 = RuleLanding" "ms_lastLanding st' = 10 ^ 15" by (rule movement_demo_first)
  have st': "track_after movement_demo_config 1 ?is = st'" and in1: "al1 \<in> set (track_alerts movement_demo_config 1 ?is)"
    using al1(1) by (simp_all add: track_after_snoc track_mon_def)
  have in1': "al1 \<in> set (track_alerts movement_demo_config 1 (?is @ landing_run (2 * 10 ^ 15)))"
    using in1 by (rule track_alerts_append)
  obtain al2 st2 where al2: "track_step movement_demo_config 1 (2 * 10 ^ 15) (movement_demo_aircraft True)
      (track_after movement_demo_config 1 (?is @ landing_run (2 * 10 ^ 15))) = ([al2], st2)" "al_Type al2 = RuleLanding"
    using landing_run_alert [of "2 * 10 ^ 15" ?is] demo_cooldown(2) st' al1(3) by auto
  have "sorted (map fst ((?is @ landing_run (2 * 10 ^ 15)) @ [(2 * 10 ^ 15, movement_demo_aircraft True)]))"
    by (simp add: movement_demo_run_def landing_run_def)
  from movement_cooldown [OF this in1', of al2] al1(2) al2
  have "al_Type al1 = RuleLanding \<and> al_Type al2 = RuleLanding \<and> time_sub (al_ObservedAt al2) (al_ObservedAt al1) \<ge> 10 * minute" by simp
  then show ?thesis by blast
qed

end
