(* ===== verification/Track_Store.thy ===== *)
theory Track_Store
  imports Domain Geo
begin

text \<open>
  \<open>internal/track/store.go\<close>: the recent positions of every aircraft, bounded in number of
  aircraft, of points and in age. \<open>container/list\<close> is a list of addresses, most recent
  first; \<open>sort.Search\<close> is written out as the binary search it is. The plots kept with the
  records are those of \<open>plot.go\<close>.
\<close>

section \<open>Data\<close>

definition DefaultRetention :: duration where
  "DefaultRetention = 15 * minute"

definition DefaultSampleInterval :: duration where
  "DefaultSampleInterval = 5 * second"

definition DefaultMaxPoints :: nat where
  "DefaultMaxPoints = 180"

definition DefaultMaxAircraft :: nat where
  "DefaultMaxAircraft = 5000"

definition defaultMaxPlots :: nat where
  "defaultMaxPlots = 64"

record track_point =
  tp_At :: time
  tp_DistanceNM :: real
  tp_BearingDegrees :: real
  tp_Latitude :: real
  tp_Longitude :: real
  tp_HasPosition :: bool
  tp_AltitudeFeet :: int
  tp_HasAltitude :: bool

record track_summary =
  ts_ICAO :: string
  ts_Points :: nat
  ts_From :: time
  ts_To :: time
  ts_ClosestApproachNM :: real
  ts_HasClosestApproach :: bool
  ts_AltitudeChangeFeet :: int
  ts_HasAltitudeChange :: bool
  ts_Direction :: string
  ts_LatestDistanceNM :: real
  ts_LatestBearingDegrees :: real

record track_record =
  tk_points :: "track_point list"
  tk_lastSeen :: time
  tk_generation :: u64
  tk_plot :: string
  tk_plotAt :: time
  tk_plotKey :: time

type_synonym track_records = "(string, track_record) gomap"

record track_store =
  st_records :: track_records
  st_order :: "string list"
  st_retention :: duration
  st_sampleInterval :: duration
  st_maxPoints :: nat
  st_maxAircraft :: nat
  st_plotTTL :: duration
  st_generation :: u64
  st_nextSample :: time

definition NewStore :: track_store where
  "NewStore = \<lparr> st_records = [], st_order = [], st_retention = DefaultRetention, st_sampleInterval = DefaultSampleInterval,
     st_maxPoints = DefaultMaxPoints, st_maxAircraft = DefaultMaxAircraft, st_plotTTL = 30 * second, st_generation = 0, st_nextSample = 0 \<rparr>"

section \<open>Pruning\<close>

text \<open>\<open>sort.Search\<close>: the loop \<open>for i < j\<close>.\<close>

function search_loop :: "(nat \<Rightarrow> bool) \<Rightarrow> nat \<Rightarrow> nat \<Rightarrow> nat" where
  "search_loop f i j =
     (if i < j then
        let h = (i + j) div 2 in
        if \<not> f h then search_loop f (h + 1) j else search_loop f i h
      else i)"
  by pat_completeness auto
termination by (relation "measure (\<lambda>(f, i, j). j - i)") auto

declare search_loop.simps [simp del]

definition go_search :: "nat \<Rightarrow> (nat \<Rightarrow> bool) \<Rightarrow> nat" where
  "go_search n f = search_loop f 0 n"

definition deleteLocked :: "string \<Rightarrow> track_store \<Rightarrow> track_store" where
  "deleteLocked icao store = store\<lparr> st_records := AList.delete icao (st_records store), st_order := remove1 icao (st_order store) \<rparr>"

definition prune_points :: "time \<Rightarrow> track_record \<Rightarrow> track_record" where
  "prune_points cutoff r =
     (let first = go_search (length (tk_points r)) (\<lambda>index. \<not> tp_At (tk_points r ! index) < cutoff) in
      if first > 0 then r\<lparr> tk_points := drop first (tk_points r), tk_plot := [] \<rparr> else r)"

definition prune_record :: "time \<Rightarrow> string \<Rightarrow> track_store \<Rightarrow> track_store" where
  "prune_record cutoff icao store =
     (case map_of (st_records store) icao of
        None \<Rightarrow> store
      | Some r \<Rightarrow>
          let r' = prune_points cutoff r; store' = store\<lparr> st_records := AList.update icao r' (st_records store) \<rparr> in
          if tk_lastSeen r' < cutoff \<or> tk_points r' = [] then deleteLocked icao store' else store')"

definition pruneLocked :: "time \<Rightarrow> track_store \<Rightarrow> track_store" where
  "pruneLocked now store = fold (prune_record (now - st_retention store)) (map fst (st_records store)) store"

section \<open>Observing\<close>

definition point_of :: "time \<Rightarrow> aircraft \<Rightarrow> track_point" where
  "point_of now a = \<lparr> tp_At = now, tp_DistanceNM = ac_DistanceNM a, tp_BearingDegrees = normalizeBearing (ac_BearingDegrees a),
     tp_Latitude = ac_Latitude a, tp_Longitude = ac_Longitude a, tp_HasPosition = ac_HasPosition a,
     tp_AltitudeFeet = ac_AltitudeFeet a, tp_HasAltitude = ac_HasAltitude a \<rparr>"

definition zero_track_record :: track_record where
  "zero_track_record = \<lparr> tk_points = [], tk_lastSeen = 0, tk_generation = 0, tk_plot = [], tk_plotAt = 0, tk_plotKey = 0 \<rparr>"

text \<open>Room for a new aircraft: \<open>None\<close> when everything kept was seen in this very snapshot.\<close>

definition make_room :: "track_store \<Rightarrow> track_store option" where
  "make_room store =
     (if length (st_records store) \<ge> st_maxAircraft store then
        (case rev (st_order store) of
           [] \<Rightarrow> None
         | oldICAO # _ \<Rightarrow>
             (case map_of (st_records store) oldICAO of
                None \<Rightarrow> None
              | Some oldRecord \<Rightarrow>
                  if tk_generation oldRecord = st_generation store then None else Some (deleteLocked oldICAO store)))
      else Some store)"

definition enter_record :: "string \<Rightarrow> track_store \<Rightarrow> track_store option" where
  "enter_record icao store =
     (case map_of (st_records store) icao of
        Some r \<Rightarrow> Some (store\<lparr> st_order := icao # remove1 icao (st_order store) \<rparr>)
      | None \<Rightarrow>
          map_option (\<lambda>s. s\<lparr> st_order := icao # st_order s, st_records := AList.update icao zero_track_record (st_records s) \<rparr>)
            (make_room store))"

definition add_point :: "nat \<Rightarrow> u64 \<Rightarrow> time \<Rightarrow> aircraft \<Rightarrow> track_record \<Rightarrow> track_record" where
  "add_point maxPoints generation now a r =
     (let points = tk_points r @ [point_of now a] in
      r\<lparr> tk_generation := generation, tk_lastSeen := now,
         tk_points := (if length points > maxPoints then drop (length points - maxPoints) points else points), tk_plot := [] \<rparr>)"

definition observe_track :: "time \<Rightarrow> aircraft \<Rightarrow> track_store \<Rightarrow> track_store" where
  "observe_track now a store =
     (let icao = to_upper (trim_space (ac_ICAO a)) in
      if icao = [] \<or> \<not> ac_HasDistance a then store
      else
        (case enter_record icao store of
           None \<Rightarrow> store
         | Some s \<Rightarrow>
             (case map_of (st_records s) icao of
                None \<Rightarrow> s
              | Some r \<Rightarrow> s\<lparr> st_records := AList.update icao (add_point (st_maxPoints s) (st_generation s) now a r) (st_records s) \<rparr>)))"

definition track_Observe :: "time \<Rightarrow> snapshot option \<Rightarrow> track_store \<Rightarrow> track_store" where
  "track_Observe clock snapshot store =
     (case snapshot of
        None \<Rightarrow> store
      | Some s \<Rightarrow>
          let now = (if sn_PublishedAt s = time_zero then clock else sn_PublishedAt s) in
          if st_nextSample store \<noteq> time_zero \<and> now < st_nextSample store then store
          else
            let s1 = pruneLocked now (store\<lparr> st_nextSample := now + st_sampleInterval store \<rparr>);
                s2 = s1\<lparr> st_generation := st_generation s1 + 1 \<rparr>
            in fold (observe_track now) (sn_Aircraft s) s2)"

section \<open>Reading\<close>

datatype track_error = ErrNotFound

definition track_points :: "time \<Rightarrow> string \<Rightarrow> track_store \<Rightarrow> (track_error + track_point list) \<times> track_store" where
  "track_points clock icao store =
     (let key = to_upper (trim_space icao); s = pruneLocked clock store in
      (case map_of (st_records s) key of
         None \<Rightarrow> (Inl ErrNotFound, s)
       | Some r \<Rightarrow> (if tk_points r = [] then Inl ErrNotFound else Inr (tk_points r), s)))"

definition track_Len :: "time \<Rightarrow> track_store \<Rightarrow> nat \<times> track_store" where
  "track_Len clock store = (let s = pruneLocked clock store in (length (st_records s), s))"

definition directionSummary :: "track_point list \<Rightarrow> string" where
  "directionSummary points =
     (if length points < 2 then ''insufficient samples''
      else
        let first = hd points; latest = last points;
            delta = tp_DistanceNM latest - tp_DistanceNM first
        in if tp_HasPosition first \<and> tp_HasPosition latest \<and>
              geographicDistanceNM (tp_Latitude first) (tp_Longitude first) (tp_Latitude latest) (tp_Longitude latest) \<ge> 25 / 100
           then ''tracking '' @ compass (geographicBearing (tp_Latitude first) (tp_Longitude first) (tp_Latitude latest) (tp_Longitude latest))
           else if delta < - (1 / 2) then ''approaching from '' @ compass (tp_BearingDegrees first)
           else if delta > 1 / 2 then ''departing toward '' @ compass (tp_BearingDegrees latest)
           else ''crossing near '' @ compass (tp_BearingDegrees latest))"

text \<open>The two nested loops over the altitudes: the inner one runs down from the right end.\<close>

fun altitude_right :: "track_point list \<Rightarrow> nat \<Rightarrow> nat \<Rightarrow> nat option" where
  "altitude_right points left 0 = None"
| "altitude_right points left (Suc right) =
     (if Suc right > left then (if tp_HasAltitude (points ! Suc right) then Some (Suc right) else altitude_right points left right)
      else None)"

function altitude_left :: "track_point list \<Rightarrow> nat \<Rightarrow> int option" where
  "altitude_left points left =
     (if left < length points then
        if \<not> tp_HasAltitude (points ! left) then altitude_left points (left + 1)
        else (case altitude_right points left (length points - 1) of
                Some right \<Rightarrow> Some (tp_AltitudeFeet (points ! right) - tp_AltitudeFeet (points ! left))
              | None \<Rightarrow> altitude_left points (left + 1))
      else None)"
  by pat_completeness auto
termination by (relation "measure (\<lambda>(points, left). length points - left)") auto

declare altitude_left.simps [simp del]

definition summarize :: "string \<Rightarrow> track_point list \<Rightarrow> track_summary" where
  "summarize icao points =
     (let latest = last points; change = altitude_left points 0 in
      \<lparr> ts_ICAO = icao, ts_Points = length points, ts_From = tp_At (hd points), ts_To = tp_At latest,
        ts_ClosestApproachNM = fold (\<lambda>p best. if tp_DistanceNM p < best then tp_DistanceNM p else best) (tl points) (tp_DistanceNM (hd points)),
        ts_HasClosestApproach = True,
        ts_AltitudeChangeFeet = (case change of None \<Rightarrow> 0 | Some d \<Rightarrow> d), ts_HasAltitudeChange = (change \<noteq> None),
        ts_Direction = directionSummary points, ts_LatestDistanceNM = tp_DistanceNM latest, ts_LatestBearingDegrees = tp_BearingDegrees latest \<rparr>)"

definition track_Summary :: "time \<Rightarrow> string \<Rightarrow> track_store \<Rightarrow> (track_error + track_summary) \<times> track_store" where
  "track_Summary clock icao store =
     (case track_points clock icao store of
        (Inl e, s) \<Rightarrow> (Inl e, s)
      | (Inr points, s) \<Rightarrow> (Inr (summarize (to_upper (trim_space icao)) points), s))"

end
