(* ===== verification/Track_Plot.thy ===== *)
theory Track_Plot
  imports Track_Store "HOL-Library.Sublist"
begin

text \<open>
  \<open>internal/track/plot.go\<close>: the picture of a track and the cache of pictures in the store. A
  canvas maps pixels to colours; \<open>SetRGBA\<close> ignores pixels outside. The PNG encoder is a
  parameter. The loop of \<open>drawLine\<close> has no bound of its own, so it is a partial function:
  \<open>None\<close> means that it never returns.
\<close>

section \<open>Canvas\<close>

definition plotSize :: int where
  "plotSize = 640"

record rgba =
  px_R :: nat
  px_G :: nat
  px_B :: nat
  px_A :: nat

type_synonym canvas = "int \<times> int \<Rightarrow> rgba"

definition in_bounds :: "int \<times> int \<Rightarrow> bool" where
  "in_bounds p \<longleftrightarrow> 0 \<le> fst p \<and> fst p < plotSize \<and> 0 \<le> snd p \<and> snd p < plotSize"

definition SetRGBA :: "rgba \<Rightarrow> int \<times> int \<Rightarrow> canvas \<Rightarrow> canvas" where
  "SetRGBA c p target = (if in_bounds p then target(p := c) else target)"

text \<open>\<open>int(f)\<close> of a float: towards zero.\<close>

definition trunc :: "real \<Rightarrow> int" where
  "trunc r = (if 0 \<le> r then \<lfloor>r\<rfloor> else \<lceil>r\<rceil>)"

definition go_abs :: "int \<Rightarrow> int" where
  "go_abs v = (if v < 0 then - v else v)"

section \<open>Drawing\<close>

partial_function (option) line_loop ::
    "rgba \<Rightarrow> int \<Rightarrow> int \<Rightarrow> int \<Rightarrow> int \<Rightarrow> int \<Rightarrow> int \<Rightarrow> int \<Rightarrow> int \<Rightarrow> int \<Rightarrow> canvas \<Rightarrow> canvas option" where
  "line_loop c dx dy sx sy x1 y1 x0 y0 err target =
     (let target' = (if in_bounds (x0, y0) then SetRGBA c (x0, y0) target else target) in
      if x0 = x1 \<and> y0 = y1 then Some target'
      else
        let twice = 2 * err;
            stepX = twice \<ge> dy;
            err1 = (if stepX then err + dy else err);
            x0' = (if stepX then x0 + sx else x0);
            stepY = twice \<le> dx;
            err2 = (if stepY then err1 + dx else err1);
            y0' = (if stepY then y0 + sy else y0)
        in line_loop c dx dy sx sy x1 y1 x0' y0' err2 target')"

definition drawLine :: "canvas \<Rightarrow> int \<Rightarrow> int \<Rightarrow> int \<Rightarrow> int \<Rightarrow> rgba \<Rightarrow> canvas option" where
  "drawLine target x0 y0 x1 y1 c =
     (let dx = go_abs (x1 - x0); dy = - go_abs (y1 - y0);
          sx = (if x0 < x1 then 1 else - 1); sy = (if y0 < y1 then 1 else - 1)
      in line_loop c dx dy sx sy x1 y1 x0 y0 (dx + dy) target)"

definition drawCircle :: "int \<Rightarrow> int \<Rightarrow> int \<Rightarrow> rgba \<Rightarrow> canvas \<Rightarrow> canvas" where
  "drawCircle centerX centerY radius c target =
     fold (\<lambda>degrees. let angle = real degrees * pi / 180 in
            SetRGBA c (centerX + trunc (cos angle * of_int radius), centerY + trunc (sin angle * of_int radius)))
       [0..<360] target"

definition drawDot :: "int \<Rightarrow> int \<Rightarrow> int \<Rightarrow> rgba \<Rightarrow> canvas \<Rightarrow> canvas" where
  "drawDot centerX centerY radius c target =
     fold (\<lambda>y. fold (\<lambda>x t. if x * x + y * y \<le> radius * radius then SetRGBA c (centerX + x, centerY + y) t else t) [- radius..radius])
       [- radius..radius] target"

section \<open>Coordinates\<close>

definition longitude_scale :: "track_point list \<Rightarrow> real" where
  "longitude_scale points =
     (let mean = fold (\<lambda>p acc. acc + tp_Latitude p) points 0 / real (length points); s = cos (mean * pi / 180) in
      if \<bar>s\<bar> < 1 / 100 then 1 / 100 else s)"

definition geographicCoordinates :: "track_point list \<Rightarrow> int \<Rightarrow> (int \<times> int) list" where
  "geographicCoordinates points center =
     (let ls = longitude_scale points;
          X = (\<lambda>p. tp_Longitude p * ls);
          minX = fold (\<lambda>p m. min m (X p)) (tl points) (X (hd points));
          maxX = fold (\<lambda>p m. max m (X p)) (tl points) (X (hd points));
          minY = fold (\<lambda>p m. min m (tp_Latitude p)) (tl points) (tp_Latitude (hd points));
          maxY = fold (\<lambda>p m. max m (tp_Latitude p)) (tl points) (tp_Latitude (hd points));
          span0 = max (maxX - minX) (maxY - minY);
          span = (if span0 < 1 / 10000 then 1 / 10000 else span0);
          midX = (minX + maxX) / 2; midY = (minY + maxY) / 2;
          scale = 560 / span
      in map (\<lambda>p. (center + trunc ((X p - midX) * scale), center - trunc ((tp_Latitude p - midY) * scale))) points)"

definition radialCoordinates :: "track_point list \<Rightarrow> int \<Rightarrow> (int \<times> int) list" where
  "radialCoordinates points center =
     (let maxDistance = fold (\<lambda>p m. max m (tp_DistanceNM p)) points 1 * (11 / 10) in
      map (\<lambda>p. let radius = tp_DistanceNM p / maxDistance * 292; angle = tp_BearingDegrees p * pi / 180 in
             (center + trunc (sin angle * radius), center - trunc (cos angle * radius))) points)"

definition plotCoordinates :: "track_point list \<Rightarrow> int \<Rightarrow> (int \<times> int) list" where
  "plotCoordinates points center =
     (if length points \<ge> 2 \<and> list_all tp_HasPosition points then geographicCoordinates points center
      else radialCoordinates points center)"

section \<open>The picture\<close>

fun draw_track :: "rgba \<Rightarrow> (int \<times> int) \<Rightarrow> (int \<times> int) list \<Rightarrow> canvas \<Rightarrow> ((int \<times> int) \<times> canvas) option" where
  "draw_track c previous [] target = Some (previous, target)"
| "draw_track c previous (p # ps) target =
     Option.bind (drawLine target (fst previous) (snd previous) (fst p) (snd p) c) (draw_track c p ps)"

definition blank_canvas :: canvas where
  "blank_canvas = (\<lambda>p. if in_bounds p then \<lparr> px_R = 7, px_G = 15, px_B = 24, px_A = 255 \<rparr> else \<lparr> px_R = 0, px_G = 0, px_B = 0, px_A = 0 \<rparr>)"

definition radar_canvas :: "canvas option" where
  "radar_canvas =
     (let center = plotSize div 2; radar = \<lparr> px_R = 53, px_G = 208, px_B = 127, px_A = 100 \<rparr>;
          circles = fold (\<lambda>radius. drawCircle center center radius radar) [80, 160, 240, 300] blank_canvas
      in Option.bind (drawLine circles center 16 center (plotSize - 16) radar)
           (\<lambda>t. drawLine t 16 center (plotSize - 16) center radar))"

text \<open>\<open>renderPlot\<close>: \<open>png\<close> gives the bytes of the picture, or \<open>None\<close> for an error.\<close>

definition renderPlot :: "(canvas \<Rightarrow> string option) \<Rightarrow> track_point list \<Rightarrow> string option option" where
  "renderPlot png points =
     Option.bind radar_canvas (\<lambda>t0.
       case plotCoordinates points (plotSize div 2) of
         [] \<Rightarrow> Some (png (drawDot 0 0 5 \<lparr> px_R = 243, px_G = 182, px_B = 58, px_A = 255 \<rparr> t0))
       | p # ps \<Rightarrow>
           Option.bind (draw_track \<lparr> px_R = 55, px_G = 181, px_B = 255, px_A = 255 \<rparr> p ps t0)
             (\<lambda>(q, t). Some (png (drawDot (fst q) (snd q) 5 \<lparr> px_R = 243, px_G = 182, px_B = 58, px_A = 255 \<rparr> t))))"

section \<open>The cache of pictures\<close>

definition older_plot :: "string \<times> track_record \<Rightarrow> nat \<times> (string \<times> track_record) option \<Rightarrow> nat \<times> (string \<times> track_record) option" where
  "older_plot entry acc =
     (let (n, oldest) = acc; r = snd entry in
      if tk_plot r = [] then acc
      else (n + 1,
            case oldest of
              None \<Rightarrow> Some entry
            | Some (k, o') \<Rightarrow> if tk_plotAt r < tk_plotAt o' then Some entry else Some (k, o')))"

definition evictPlotLocked :: "track_store \<Rightarrow> track_store" where
  "evictPlotLocked store =
     (case fold older_plot (st_records store) (0, None) of
        (plotCount, Some (k, r)) \<Rightarrow>
          if plotCount \<ge> defaultMaxPlots
          then store\<lparr> st_records := AList.update k (r\<lparr> tk_plot := [], tk_plotAt := time_zero, tk_plotKey := time_zero \<rparr>) (st_records store) \<rparr>
          else store
      | (_, None) \<Rightarrow> store)"

datatype plot_lookup =
    PlotMissing
  | PlotCached string "track_point list"
  | PlotRender time "track_point list"

text \<open>The two critical sections of \<open>Plot\<close>: before and after the picture is drawn.\<close>

definition plot_lookup :: "time \<Rightarrow> string \<Rightarrow> track_store \<Rightarrow> plot_lookup \<times> track_store" where
  "plot_lookup now icao store =
     (let s = pruneLocked now store in
      case map_of (st_records s) icao of
        None \<Rightarrow> (PlotMissing, s)
      | Some r \<Rightarrow>
          if tk_points r = [] then (PlotMissing, s)
          else
            let lastSample = tp_At (last (tk_points r)) in
            if tk_plot r \<noteq> [] \<and> time_sub now (tk_plotAt r) < st_plotTTL s \<and> tk_plotKey r = lastSample
            then (PlotCached (tk_plot r) (tk_points r), s)
            else (PlotRender lastSample (tk_points r), s))"

definition plot_save :: "time \<Rightarrow> string \<Rightarrow> time \<Rightarrow> string \<Rightarrow> track_store \<Rightarrow> track_store" where
  "plot_save now icao lastSample data store =
     (case map_of (st_records store) icao of
        None \<Rightarrow> store
      | Some r \<Rightarrow>
          if tk_points r = [] \<or> tp_At (last (tk_points r)) \<noteq> lastSample then store
          else
            let s = evictPlotLocked store in
            (case map_of (st_records s) icao of
               None \<Rightarrow> s
             | Some r' \<Rightarrow> s\<lparr> st_records := AList.update icao (r'\<lparr> tk_plot := data, tk_plotAt := now, tk_plotKey := lastSample \<rparr>) (st_records s) \<rparr>))"

text \<open>
  \<open>Plot\<close>, when nothing comes between its two sections: \<open>None\<close> if drawing does not end, else
  an error or the picture with the summary.
\<close>

definition Plot ::
    "(canvas \<Rightarrow> string option) \<Rightarrow> time \<Rightarrow> string \<Rightarrow> track_store \<Rightarrow> ((track_error option + string \<times> track_summary) \<times> track_store) option" where
  "Plot png clock icao0 store =
     (let icao = to_upper (trim_space icao0); (found, s) = plot_lookup clock icao store in
      case found of
        PlotMissing \<Rightarrow> Some (Inl (Some ErrNotFound), s)
      | PlotCached data points \<Rightarrow> Some (Inr (data, summarize icao points), s)
      | PlotRender lastSample points \<Rightarrow>
          (case renderPlot png points of
             None \<Rightarrow> None
           | Some None \<Rightarrow> Some (Inl None, s)
           | Some (Some data) \<Rightarrow> Some (Inr (data, summarize icao points), plot_save clock icao lastSample data s)))"

end
