(* ===== verification/Track_Store_Props.thy ===== *)
theory Track_Store_Props
  imports Track_Store Snapshot_Wf
begin

text \<open>
  The track store: its bounds and order under every sequence of operations, that reading
  returns exactly the points within the retention, and what a summary computes.
\<close>

section \<open>Binary search\<close>

definition upward :: "nat \<Rightarrow> (nat \<Rightarrow> bool) \<Rightarrow> bool" where
  "upward n f \<longleftrightarrow> (\<forall>k l. k \<le> l \<longrightarrow> l < n \<longrightarrow> f k \<longrightarrow> f l)"

definition splits_at :: "nat \<Rightarrow> (nat \<Rightarrow> bool) \<Rightarrow> nat \<Rightarrow> bool" where
  "splits_at n f m \<longleftrightarrow> m \<le> n \<and> (\<forall>k < m. \<not> f k) \<and> (\<forall>k. m \<le> k \<longrightarrow> k < n \<longrightarrow> f k)"

lemma search_loop_spec:
  "upward n f \<Longrightarrow> i \<le> j \<Longrightarrow> j \<le> n \<Longrightarrow> \<forall>k < i. \<not> f k \<Longrightarrow> \<forall>k. j \<le> k \<longrightarrow> k < n \<longrightarrow> f k \<Longrightarrow> splits_at n f (search_loop f i j)"
proof (induction f i j rule: search_loop.induct)
  case (1 f i j)
  let ?h = "(i + j) div 2"
  show ?case
  proof (cases "i < j")
    case True
    then have h: "i \<le> ?h" "?h < j" "?h \<le> n" "?h + 1 \<le> j" using "1.prems"(3) by auto
    show ?thesis
    proof (cases "f ?h")
      case True
      have "\<forall>k. ?h \<le> k \<longrightarrow> k < n \<longrightarrow> f k" using "1.prems"(1) True unfolding upward_def by blast
      then have "splits_at n f (search_loop f i ?h)" using "1.IH"(2) [OF \<open>i < j\<close> refl _ "1.prems"(1) h(1,3) "1.prems"(4)] True by simp
      then show ?thesis using \<open>i < j\<close> True by (subst search_loop.simps) (simp add: Let_def)
    next
      case False
      have "f ?h" if "f k" "k < ?h + 1" for k
      proof -
        have "k \<le> ?h" "?h < n" using that(2) h(2) "1.prems"(3) by linarith+
        then show ?thesis using "1.prems"(1) that(1) unfolding upward_def by blast
      qed
      then have "\<forall>k < ?h + 1. \<not> f k" using False by blast
      then have "splits_at n f (search_loop f (?h + 1) j)" using "1.IH"(1) [OF \<open>i < j\<close> refl False "1.prems"(1) h(4) "1.prems"(3) _ "1.prems"(5)] by simp
      then show ?thesis using \<open>i < j\<close> False by (subst search_loop.simps) (simp add: Let_def)
    qed
  next
    case False
    then have "i = j" "search_loop f i j = i" using "1.prems"(2) by (simp_all add: search_loop.simps)
    then show ?thesis using "1.prems"(3-5) unfolding splits_at_def by simp
  qed
qed

lemma splits_atD:
  "splits_at n f m \<Longrightarrow> m \<le> n" "splits_at n f m \<Longrightarrow> k < m \<Longrightarrow> \<not> f k" "splits_at n f m \<Longrightarrow> m \<le> k \<Longrightarrow> k < n \<Longrightarrow> f k"
  unfolding splits_at_def by blast+

lemma go_search_spec: "upward n f \<Longrightarrow> splits_at n f (go_search n f)"
  unfolding go_search_def by (rule search_loop_spec) auto

definition points_spaced :: "duration \<Rightarrow> track_point list \<Rightarrow> bool" where
  "points_spaced d ps \<longleftrightarrow> sorted_wrt (\<lambda>p q. tp_At p + d \<le> tp_At q) ps"

lemma points_spaced_drop: "points_spaced d ps \<Longrightarrow> points_spaced d (drop n ps)"
  by (simp add: points_spaced_def sorted_wrt_drop)

lemma points_spaced_sorted: "points_spaced d ps \<Longrightarrow> 0 \<le> d \<Longrightarrow> i \<le> j \<Longrightarrow> j < length ps \<Longrightarrow> tp_At (ps ! i) \<le> tp_At (ps ! j)"
proof (cases "i = j")
  case False
  assume "points_spaced d ps" "0 \<le> d" "i \<le> j" "j < length ps"
  then have "tp_At (ps ! i) + d \<le> tp_At (ps ! j)" using False sorted_wrt_nth_less [of _ ps i j] by (simp add: points_spaced_def)
  then show ?thesis using \<open>0 \<le> d\<close> by simp
qed simp

text \<open>Cutting at the index the search finds keeps exactly the points from the cutoff on.\<close>

lemma drop_search:
  assumes "points_spaced d ps" "0 \<le> d"
  shows "drop (go_search (length ps) (\<lambda>i. \<not> tp_At (ps ! i) < cutoff)) ps = filter (\<lambda>p. cutoff \<le> tp_At p) ps"
proof -
  let ?f = "\<lambda>i. \<not> tp_At (ps ! i) < cutoff" and ?n = "go_search (length ps) (\<lambda>i. \<not> tp_At (ps ! i) < cutoff)"
  have "upward (length ps) ?f" unfolding upward_def
  proof (intro allI impI)
    fix k l assume "k \<le> l" "l < length ps" "\<not> tp_At (ps ! k) < cutoff"
    then show "\<not> tp_At (ps ! l) < cutoff" using points_spaced_sorted [OF assms \<open>k \<le> l\<close> \<open>l < length ps\<close>] by simp
  qed
  then have sp: "splits_at (length ps) ?f ?n" by (rule go_search_spec)
  have s1: "?n \<le> length ps" by (rule splits_atD(1) [OF sp])
  have s2: "tp_At (ps ! k) < cutoff" if "k < ?n" for k using splits_atD(2) [OF sp that] by (simp only: not_not)
  have s3: "cutoff \<le> tp_At (ps ! k)" if "?n \<le> k" "k < length ps" for k using splits_atD(3) [OF sp that] by (simp only: not_less)
  have "\<not> cutoff \<le> tp_At p" if p: "p \<in> set (take ?n ps)" for p
  proof -
    obtain i where "i < ?n" "p = ps ! i" using p unfolding in_set_conv_nth by auto
    then show ?thesis using s2 [of i] by simp
  qed
  then have "filter (\<lambda>p. cutoff \<le> tp_At p) (take ?n ps) = []" by (simp add: filter_empty_conv)
  moreover have "filter (\<lambda>p. cutoff \<le> tp_At p) (drop ?n ps) = drop ?n ps"
  proof (rule filter_True, rule ballI)
    fix p assume "p \<in> set (drop ?n ps)"
    then obtain i where "i < length ps - ?n" "p = ps ! (?n + i)" by (auto simp: in_set_conv_nth)
    then show "cutoff \<le> tp_At p" using s3 [of "?n + i"] by simp
  qed
  ultimately show ?thesis by (metis append_Nil append_take_drop_id filter_append)
qed

section \<open>The invariant\<close>

definition record_ok :: "nat \<Rightarrow> duration \<Rightarrow> time \<Rightarrow> track_record \<Rightarrow> bool" where
  "record_ok maxPoints d next r \<longleftrightarrow> tk_points r \<noteq> [] \<and> length (tk_points r) \<le> maxPoints \<and> points_spaced d (tk_points r) \<and>
     tk_lastSeen r = tp_At (last (tk_points r)) \<and> tk_lastSeen r + d \<le> next"

definition store_ok :: "track_store \<Rightarrow> bool" where
  "store_ok s \<longleftrightarrow> gm_wf (st_records s) \<and> distinct (st_order s) \<and> set (st_order s) = dom (map_of (st_records s)) \<and>
     length (st_records s) \<le> st_maxAircraft s \<and> st_retention s = DefaultRetention \<and> st_sampleInterval s = DefaultSampleInterval \<and>
     st_maxPoints s = DefaultMaxPoints \<and> st_maxAircraft s = DefaultMaxAircraft"

definition records_ok :: "time \<Rightarrow> track_store \<Rightarrow> bool" where
  "records_ok next s \<longleftrightarrow> (\<forall>icao r. map_of (st_records s) icao = Some r \<longrightarrow> record_ok DefaultMaxPoints DefaultSampleInterval next r)"

lemma deleteLocked_ok: "store_ok s \<Longrightarrow> store_ok (deleteLocked icao s)"
  by (auto simp: store_ok_def deleteLocked_def gm_length_delete)

lemma deleteLocked_records: "map_of (st_records (deleteLocked icao s)) = (map_of (st_records s))(icao := None)"
  by (simp add: deleteLocked_def)

lemma prune_points_spec:
  assumes "record_ok m d next r" "0 \<le> d"
  shows "tk_points (prune_points cutoff r) = filter (\<lambda>p. cutoff \<le> tp_At p) (tk_points r)" "tk_lastSeen (prune_points cutoff r) = tk_lastSeen r"
    "tk_points (prune_points cutoff r) \<noteq> [] \<Longrightarrow> record_ok m d next (prune_points cutoff r)"
proof -
  let ?n = "go_search (length (tk_points r)) (\<lambda>i. \<not> tp_At (tk_points r ! i) < cutoff)"
  have sp: "points_spaced d (tk_points r)" using assms(1) by (simp add: record_ok_def)
  show p: "tk_points (prune_points cutoff r) = filter (\<lambda>p. cutoff \<le> tp_At p) (tk_points r)"
    using drop_search [OF sp assms(2), of cutoff] by (auto simp: prune_points_def Let_def)
  show l: "tk_lastSeen (prune_points cutoff r) = tk_lastSeen r" by (simp add: prune_points_def Let_def)
  have drop: "tk_points (prune_points cutoff r) = drop ?n (tk_points r)" by (simp add: prune_points_def Let_def)
  assume ne: "tk_points (prune_points cutoff r) \<noteq> []"
  then have "last (tk_points (prune_points cutoff r)) = last (tk_points r)" unfolding drop by (simp add: last_drop)
  then show "record_ok m d next (prune_points cutoff r)"
    using assms(1) ne l points_spaced_drop [OF sp, of ?n] unfolding record_ok_def drop length_drop by (simp add: le_diff_conv trans_le_add1)
qed

lemma record_ok_le:
  assumes "record_ok m d next r" "0 \<le> d" "p \<in> set (tk_points r)"
  shows "tp_At p \<le> tk_lastSeen r"
proof -
  have ne: "tk_points r \<noteq> []" and sp: "points_spaced d (tk_points r)" and ls: "tk_lastSeen r = tp_At (last (tk_points r))"
    using assms(1) unfolding record_ok_def by blast+
  obtain i where i: "i < length (tk_points r)" "p = tk_points r ! i" using assms(3) unfolding in_set_conv_nth by blast
  then have "i \<le> length (tk_points r) - 1" "length (tk_points r) - 1 < length (tk_points r)" by linarith+
  from points_spaced_sorted [OF sp assms(2) this] show ?thesis unfolding ls i(2) by (simp only: last_conv_nth [OF ne])
qed

text \<open>A record survives the pruning exactly when a point does.\<close>

lemma lastSeen_prune:
  assumes "record_ok m d next r" "0 \<le> d"
  shows "tk_lastSeen r < cutoff \<or> filter (\<lambda>p. cutoff \<le> tp_At p) (tk_points r) = [] \<longleftrightarrow> filter (\<lambda>p. cutoff \<le> tp_At p) (tk_points r) = []"
proof -
  have "filter (\<lambda>p. cutoff \<le> tp_At p) (tk_points r) = []" if "tk_lastSeen r < cutoff"
    unfolding filter_empty_conv
  proof
    fix p assume "p \<in> set (tk_points r)"
    from record_ok_le [OF assms this] that show "\<not> cutoff \<le> tp_At p" by simp
  qed
  then show ?thesis by blast
qed

definition kept :: "time \<Rightarrow> track_record \<Rightarrow> track_record option" where
  "kept cutoff r = (if filter (\<lambda>p. cutoff \<le> tp_At p) (tk_points r) = [] then None else Some (prune_points cutoff r))"

lemma prune_record_spec:
  assumes "store_ok s" "map_of (st_records s) icao = Some r" "record_ok DefaultMaxPoints DefaultSampleInterval next r"
  shows "store_ok (prune_record cutoff icao s)"
    "map_of (st_records (prune_record cutoff icao s)) = (map_of (st_records s))(icao := kept cutoff r)"
proof -
  let ?s = "s\<lparr> st_records := AList.update icao (prune_points cutoff r) (st_records s) \<rparr>"
  have d: "0 \<le> DefaultSampleInterval" by (simp add: DefaultSampleInterval_def)
  note p = prune_points_spec [OF assms(3) d, of cutoff] and l = lastSeen_prune [OF assms(3) d, of cutoff]
  have len: "length (AList.update icao (prune_points cutoff r) (st_records s)) = length (st_records s)"
    using assms(2) by (simp add: gm_length_put map_of_eq_None_iff flip: not_None_eq) (metis map_of_SomeD domI dom_map_of_conv_image_fst)
  have ok: "store_ok ?s" using assms(1,2) len by (auto simp: store_ok_def)
  have e: "prune_record cutoff icao s = (if filter (\<lambda>q. cutoff \<le> tp_At q) (tk_points r) = [] then deleteLocked icao ?s else ?s)"
    using assms(2) p(1,2) l by (simp add: prune_record_def Let_def)
  show "store_ok (prune_record cutoff icao s)" unfolding e using ok deleteLocked_ok by auto
  show "map_of (st_records (prune_record cutoff icao s)) = (map_of (st_records s))(icao := kept cutoff r)"
    unfolding e by (auto simp: deleteLocked_records kept_def)
qed

lemma prune_record_frame [frame_simps]:
  "st_retention (prune_record c i s) = st_retention s" "st_sampleInterval (prune_record c i s) = st_sampleInterval s"
  "st_maxPoints (prune_record c i s) = st_maxPoints s" "st_maxAircraft (prune_record c i s) = st_maxAircraft s"
  "st_generation (prune_record c i s) = st_generation s" "st_nextSample (prune_record c i s) = st_nextSample s"
  by (auto simp: prune_record_def deleteLocked_def Let_def split: option.splits)

lemma prune_fold:
  "store_ok s \<Longrightarrow> records_ok next s \<Longrightarrow> distinct icaos \<Longrightarrow> set icaos \<subseteq> dom (map_of (st_records s)) \<Longrightarrow>
     store_ok (fold (prune_record cutoff) icaos s) \<and>
     st_nextSample (fold (prune_record cutoff) icaos s) = st_nextSample s \<and> st_generation (fold (prune_record cutoff) icaos s) = st_generation s \<and>
     map_of (st_records (fold (prune_record cutoff) icaos s)) =
       (\<lambda>icao. if icao \<in> set icaos then Option.bind (map_of (st_records s) icao) (kept cutoff) else map_of (st_records s) icao)"
proof (induction icaos arbitrary: s)
  case (Cons icao icaos)
  obtain r where r: "map_of (st_records s) icao = Some r" using Cons.prems(4) by auto
  have rok: "record_ok DefaultMaxPoints DefaultSampleInterval next r" using Cons.prems(2) r by (simp add: records_ok_def)
  let ?s = "prune_record cutoff icao s"
  note p = prune_record_spec [OF Cons.prems(1) r rok, of cutoff]
  have d: "0 \<le> DefaultSampleInterval" by (simp add: DefaultSampleInterval_def)
  have "records_ok next ?s"
    unfolding records_ok_def p(2) using Cons.prems(2) prune_points_spec [OF rok d, of cutoff]
    by (auto simp: records_ok_def kept_def)
  moreover have "set icaos \<subseteq> dom (map_of (st_records ?s))" using Cons.prems(3,4) by (auto simp: p(2))
  ultimately have IH: "store_ok (fold (prune_record cutoff) icaos ?s) \<and>
     st_nextSample (fold (prune_record cutoff) icaos ?s) = st_nextSample ?s \<and> st_generation (fold (prune_record cutoff) icaos ?s) = st_generation ?s \<and>
     map_of (st_records (fold (prune_record cutoff) icaos ?s)) =
       (\<lambda>icao. if icao \<in> set icaos then Option.bind (map_of (st_records ?s) icao) (kept cutoff) else map_of (st_records ?s) icao)"
    using Cons.IH [of ?s] p(1) Cons.prems(3) by simp
  have "(if i \<in> set icaos then Option.bind (map_of (st_records ?s) i) (kept cutoff) else map_of (st_records ?s) i) =
      (if i \<in> set (icao # icaos) then Option.bind (map_of (st_records s) i) (kept cutoff) else map_of (st_records s) i)" for i
    using Cons.prems(3) r by (auto simp: p(2))
  then show ?case using IH by (simp add: frame_simps)
qed simp

lemma pruneLocked_spec:
  assumes "store_ok s" "records_ok next s"
  shows "store_ok (pruneLocked now s)" "st_nextSample (pruneLocked now s) = st_nextSample s" "st_generation (pruneLocked now s) = st_generation s"
    "map_of (st_records (pruneLocked now s)) = (\<lambda>icao. Option.bind (map_of (st_records s) icao) (kept (now - DefaultRetention)))"
    "records_ok next (pruneLocked now s)"
proof -
  have wf: "distinct (map fst (st_records s))" "st_retention s = DefaultRetention" using assms(1) by (simp_all add: store_ok_def gm_wf_def)
  have "set (map fst (st_records s)) \<subseteq> dom (map_of (st_records s))" by (simp add: dom_map_of_conv_image_fst)
  note p = prune_fold [OF assms wf(1) this, of "now - st_retention s", folded pruneLocked_def]
  show "store_ok (pruneLocked now s)" "st_nextSample (pruneLocked now s) = st_nextSample s" "st_generation (pruneLocked now s) = st_generation s"
    using p by blast+
  have none: "map_of (st_records s) icao = None" if "icao \<notin> fst ` set (st_records s)" for icao using that by (simp add: map_of_eq_None_iff)
  show m: "map_of (st_records (pruneLocked now s)) = (\<lambda>icao. Option.bind (map_of (st_records s) icao) (kept (now - DefaultRetention)))"
    using p none unfolding wf(2) by (auto simp: fun_eq_iff)
  have d: "0 \<le> DefaultSampleInterval" by (simp add: DefaultSampleInterval_def)
  show "records_ok next (pruneLocked now s)"
    unfolding records_ok_def m using assms(2) prune_points_spec [OF _ d]
    by (auto simp: records_ok_def kept_def bind_eq_Some_conv split: if_splits)
qed

lemma track_points_filter:
  assumes "store_ok s" "records_ok next s"
  shows "fst (track_points clock icao s) =
    (let recent = filter (\<lambda>p. clock - 15 * minute \<le> tp_At p) (case map_of (st_records s) (to_upper (trim_space icao)) of None \<Rightarrow> [] | Some r \<Rightarrow> tk_points r)
     in if recent = [] then Inl ErrNotFound else Inr recent)"
proof (cases "map_of (st_records s) (to_upper (trim_space icao))")
  case None
  then show ?thesis by (simp add: track_points_def Let_def pruneLocked_spec(4) [OF assms])
next
  case (Some r)
  have d: "0 \<le> DefaultSampleInterval" by (simp add: DefaultSampleInterval_def)
  have "record_ok DefaultMaxPoints DefaultSampleInterval next r" using assms(2) Some by (simp add: records_ok_def)
  then have "tk_points (prune_points (clock - DefaultRetention) r) = filter (\<lambda>p. clock - DefaultRetention \<le> tp_At p) (tk_points r)"
    using prune_points_spec(1) d by blast
  then show ?thesis using Some
    by (simp add: track_points_def Let_def pruneLocked_spec(4) [OF assms] kept_def DefaultRetention_def)
qed

section \<open>Observing keeps the order\<close>

lemma record_ok_mono: "record_ok m d next r \<Longrightarrow> next \<le> next' \<Longrightarrow> record_ok m d next' r"
  by (auto simp: record_ok_def)

lemma add_point_ok:
  assumes "tk_points r = [] \<or> record_ok m d now r" "0 < m" "0 \<le> d"
  shows "record_ok m d (now + d) (add_point m g now a r)"
proof -
  let ?ps = "tk_points r @ [point_of now a]"
  have at: "tp_At (point_of now a) = now" by (simp add: point_of_def)
  have sp: "points_spaced d ?ps"
  proof (cases "tk_points r = []")
    case True
    then show ?thesis by (simp add: points_spaced_def)
  next
    case False
    then have r: "points_spaced d (tk_points r)" "tk_lastSeen r + d \<le> now" "tk_lastSeen r = tp_At (last (tk_points r))"
      using assms(1) by (simp_all add: record_ok_def)
    have "tp_At p + d \<le> now" if "p \<in> set (tk_points r)" for p
      using record_ok_le [OF _ assms(3) that] r(2) assms(1) False by fastforce
    then show ?thesis using r(1) by (simp add: points_spaced_def sorted_wrt_append at)
  qed
  have ps: "tk_points (add_point m g now a r) = drop (length ?ps - m) ?ps" by (simp add: add_point_def Let_def)
  then have ne: "tk_points (add_point m g now a r) \<noteq> []" "length (tk_points (add_point m g now a r)) \<le> m" using assms(2) by auto
  have "length ?ps - m < length ?ps" using assms(2) by simp
  then have "last (tk_points (add_point m g now a r)) = point_of now a" unfolding ps by (simp only: last_drop last_snoc)
  moreover have "points_spaced d (tk_points (add_point m g now a r))" unfolding ps by (rule points_spaced_drop [OF sp])
  moreover have "tk_lastSeen (add_point m g now a r) = now" by (simp add: add_point_def Let_def)
  ultimately show ?thesis using ne unfolding record_ok_def by (simp add: at)
qed

lemma enter_record_spec:
  assumes "store_ok s" "enter_record icao s = Some s'"
  shows "store_ok s' \<and> st_generation s' = st_generation s \<and> st_nextSample s' = st_nextSample s \<and>
    (\<exists>r. map_of (st_records s') icao = Some r \<and> (map_of (st_records s) icao = Some r \<or> r = zero_track_record)) \<and>
    (\<forall>i. i \<noteq> icao \<longrightarrow> map_of (st_records s') i = map_of (st_records s) i \<or> map_of (st_records s') i = None)"
proof (cases "map_of (st_records s) icao")
  case (Some r)
  then have s': "s' = s\<lparr> st_order := icao # remove1 icao (st_order s) \<rparr>" using assms(2) by (simp add: enter_record_def)
  have "icao \<in> set (st_order s)" using assms(1) Some by (auto simp: store_ok_def)
  then show ?thesis using assms(1) Some unfolding s' by (auto simp: store_ok_def)
next
  case None
  then obtain s1 where s1: "make_room s = Some s1" and
    s': "s' = s1\<lparr> st_order := icao # st_order s1, st_records := AList.update icao zero_track_record (st_records s1) \<rparr>"
    using assms(2) by (auto simp: enter_record_def)
  have room: "store_ok s1 \<and> length (st_records s1) < st_maxAircraft s1 \<and> st_generation s1 = st_generation s \<and> st_nextSample s1 = st_nextSample s \<and>
     (\<forall>i. map_of (st_records s1) i = map_of (st_records s) i \<or> map_of (st_records s1) i = None)"
  proof (cases "length (st_records s) \<ge> st_maxAircraft s")
    case False
    then show ?thesis using s1 assms(1) by (simp add: make_room_def)
  next
    case True
    then obtain old r where old: "map_of (st_records s) old = Some r" "s1 = deleteLocked old s"
      using s1 by (auto simp: make_room_def split: list.splits option.splits if_splits)
    have "0 < length (st_records s)" using True assms(1) by (simp add: store_ok_def DefaultMaxAircraft_def)
    moreover have "old \<in> fst ` set (st_records s)" using old(1) by (metis domI dom_map_of_conv_image_fst)
    ultimately have "length (st_records s1) < length (st_records s)" using assms(1) old(2)
      by (simp add: store_ok_def deleteLocked_def gm_length_delete)
    then show ?thesis using old(2) deleteLocked_ok [OF assms(1)] assms(1)
      by (auto simp: deleteLocked_records store_ok_def deleteLocked_def)
  qed
  have n1: "map_of (st_records s1) icao = None" using room None by metis
  then have "icao \<notin> set (st_order s1)" using room by (simp add: store_ok_def domIff)
  moreover have "icao \<notin> fst ` set (st_records s1)" using n1 unfolding map_of_eq_None_iff .
  ultimately have "store_ok s'" using room n1 unfolding s' store_ok_def by (simp add: gm_length_put)
  then show ?thesis using room unfolding s' by simp
qed

definition name_of :: "aircraft \<Rightarrow> string" where
  "name_of a = to_upper (trim_space (ac_ICAO a))"

lemma observe_track_spec:
  assumes "store_ok s" "records_ok (now + DefaultSampleInterval) s"
    "\<And>r. map_of (st_records s) (name_of a) = Some r \<Longrightarrow> record_ok DefaultMaxPoints DefaultSampleInterval now r"
  shows "store_ok (observe_track now a s) \<and> records_ok (now + DefaultSampleInterval) (observe_track now a s) \<and>
    st_nextSample (observe_track now a s) = st_nextSample s \<and>
    (\<forall>i. i \<noteq> name_of a \<longrightarrow> map_of (st_records (observe_track now a s)) i = map_of (st_records s) i \<or> map_of (st_records (observe_track now a s)) i = None)"
proof (cases "name_of a = [] \<or> \<not> ac_HasDistance a \<or> enter_record (name_of a) s = None")
  case True
  then have "observe_track now a s = s" by (auto simp: observe_track_def name_of_def Let_def)
  then show ?thesis using assms by simp
next
  case False
  then obtain s' where s': "enter_record (name_of a) s = Some s'" by blast
  note e = enter_record_spec [OF assms(1) s']
  then obtain r where r: "map_of (st_records s') (name_of a) = Some r" "map_of (st_records s) (name_of a) = Some r \<or> r = zero_track_record" by blast
  let ?r = "add_point DefaultMaxPoints (st_generation s') now a r"
  have mp: "st_maxPoints s' = DefaultMaxPoints" using e by (simp add: store_ok_def)
  have o: "observe_track now a s = s'\<lparr> st_records := AList.update (name_of a) ?r (st_records s') \<rparr>"
    using False s' r(1) mp by (simp add: observe_track_def name_of_def Let_def)
  have "tk_points r = [] \<or> record_ok DefaultMaxPoints DefaultSampleInterval now r"
    using r(2) assms(3) by (auto simp: zero_track_record_def)
  then have rok: "record_ok DefaultMaxPoints DefaultSampleInterval (now + DefaultSampleInterval) ?r"
    by (rule add_point_ok) (simp_all add: DefaultMaxPoints_def DefaultSampleInterval_def)
  have in_keys: "name_of a \<in> fst ` set (st_records s')" using r(1) by (metis domI dom_map_of_conv_image_fst)
  have ok: "store_ok (observe_track now a s)" using e r(1) in_keys unfolding o by (auto simp: store_ok_def gm_length_put)
  have recs: "records_ok (now + DefaultSampleInterval) (observe_track now a s)"
    unfolding records_ok_def o
  proof (intro allI impI)
    fix i x assume "map_of (st_records (s'\<lparr> st_records := AList.update (name_of a) ?r (st_records s') \<rparr>)) i = Some x"
    then have x: "if i = name_of a then x = ?r else map_of (st_records s') i = Some x" by (auto split: if_splits)
    show "record_ok DefaultMaxPoints DefaultSampleInterval (now + DefaultSampleInterval) x"
    proof (cases "i = name_of a")
      case True
      then show ?thesis using x rok by simp
    next
      case ne: False
      then have "map_of (st_records s) i = Some x" using x e by (metis option.distinct(1))
      then show ?thesis using assms(2) unfolding records_ok_def by blast
    qed
  qed
  have frame: "map_of (st_records (observe_track now a s)) i = map_of (st_records s) i \<or> map_of (st_records (observe_track now a s)) i = None"
    if "i \<noteq> name_of a" for i
    using e that unfolding o by auto
  show ?thesis using ok recs frame e unfolding o by simp
qed

lemma observe_fold_spec:
  "store_ok s \<Longrightarrow> records_ok (now + DefaultSampleInterval) s \<Longrightarrow> distinct (map name_of as) \<Longrightarrow>
     \<forall>a\<in>set as. \<forall>r. map_of (st_records s) (name_of a) = Some r \<longrightarrow> record_ok DefaultMaxPoints DefaultSampleInterval now r \<Longrightarrow>
     store_ok (fold (observe_track now) as s) \<and> records_ok (now + DefaultSampleInterval) (fold (observe_track now) as s) \<and>
     st_nextSample (fold (observe_track now) as s) = st_nextSample s"
proof (induction as arbitrary: s)
  case (Cons a as)
  let ?s = "observe_track now a s"
  have o: "store_ok ?s \<and> records_ok (now + DefaultSampleInterval) ?s \<and> st_nextSample ?s = st_nextSample s \<and>
    (\<forall>i. i \<noteq> name_of a \<longrightarrow> map_of (st_records ?s) i = map_of (st_records s) i \<or> map_of (st_records ?s) i = None)"
    using observe_track_spec [OF Cons.prems(1,2)] Cons.prems(4) by simp
  have "\<forall>b\<in>set as. \<forall>r. map_of (st_records ?s) (name_of b) = Some r \<longrightarrow> record_ok DefaultMaxPoints DefaultSampleInterval now r"
  proof (intro ballI allI impI)
    fix b r assume b: "b \<in> set as" "map_of (st_records ?s) (name_of b) = Some r"
    then have "name_of b \<noteq> name_of a" using Cons.prems(3) by (auto simp: image_iff) 
    then have "map_of (st_records s) (name_of b) = Some r" using o b(2) by (metis option.distinct(1))
    then show "record_ok DefaultMaxPoints DefaultSampleInterval now r" using Cons.prems(4) b(1) by simp
  qed
  then show ?case using Cons.IH [of ?s] o Cons.prems(3) by simp
qed simp

lemma name_of_canonical: "canonical_list as \<Longrightarrow> map name_of as = map ac_ICAO as"
  by (auto simp: name_of_def canonical_list_def list_all_iff canonical_icao_def)

definition track_inv :: "track_store \<Rightarrow> bool" where
  "track_inv s \<longleftrightarrow> store_ok s \<and> records_ok (st_nextSample s) s \<and> (st_nextSample s = 0 \<longrightarrow> st_records s = [])"

lemma track_inv_prune: "track_inv s \<Longrightarrow> track_inv (pruneLocked now s)"
  unfolding track_inv_def using pruneLocked_spec [of s "st_nextSample s" now]
  by (auto simp: pruneLocked_def)

lemma track_Observe_inv:
  assumes inv: "track_inv s" and snap: "snapshot_wf w" and now: "0 < (if sn_PublishedAt w = time_zero then clock else sn_PublishedAt w)"
  shows "track_inv (track_Observe clock (Some w) s)"
proof -
  define n where "n = (if sn_PublishedAt w = time_zero then clock else sn_PublishedAt w)"
  show ?thesis
  proof (cases "st_nextSample s \<noteq> time_zero \<and> n < st_nextSample s")
    case True
    then show ?thesis using inv unfolding track_Observe_def option.case Let_def n_def [symmetric] by simp
  next
    case False
    let ?s0 = "s\<lparr> st_nextSample := n + st_sampleInterval s \<rparr>"
    let ?s1 = "pruneLocked n ?s0"
    let ?s2 = "?s1\<lparr> st_generation := st_generation ?s1 + 1 \<rparr>"
    have d: "st_sampleInterval s = DefaultSampleInterval" "0 < DefaultSampleInterval"
      using inv by (simp_all add: track_inv_def store_ok_def DefaultSampleInterval_def)
    have s0: "store_ok ?s0" using inv by (simp add: track_inv_def store_ok_def)
    have r0: "records_ok n ?s0"
    proof (cases "st_nextSample s = 0")
      case True
      then show ?thesis using inv by (simp add: track_inv_def records_ok_def)
    next
      case ne: False
      then have "st_nextSample s \<le> n" using False by simp
      then show ?thesis using inv record_ok_mono unfolding track_inv_def records_ok_def by (metis track_store.select_convs(1) track_store.surjective track_store.update_convs(9))
    qed
    note p = pruneLocked_spec [OF s0 r0, of n]
    have s2: "store_ok ?s2" "st_nextSample ?s2 = n + DefaultSampleInterval" using p(1,2) d(1) by (simp_all add: store_ok_def)
    have rn: "records_ok n ?s2" using p(5) by (simp add: records_ok_def)
    then have r2: "records_ok (n + DefaultSampleInterval) ?s2" using d(2) record_ok_mono unfolding records_ok_def by (meson le_add_same_cancel1 less_imp_le)
    have "distinct (map name_of (sn_Aircraft w))"
      using snap canonical_distinct name_of_canonical unfolding snapshot_wf_def by metis
    moreover have "\<forall>a\<in>set (sn_Aircraft w). \<forall>r. map_of (st_records ?s2) (name_of a) = Some r \<longrightarrow> record_ok DefaultMaxPoints DefaultSampleInterval n r"
      using rn unfolding records_ok_def by blast
    ultimately have f: "store_ok (fold (observe_track n) (sn_Aircraft w) ?s2) \<and> records_ok (n + DefaultSampleInterval) (fold (observe_track n) (sn_Aircraft w) ?s2) \<and>
       st_nextSample (fold (observe_track n) (sn_Aircraft w) ?s2) = n + DefaultSampleInterval"
      using observe_fold_spec [OF s2(1) r2] s2(2) by simp
    have "track_Observe clock (Some w) s = fold (observe_track n) (sn_Aircraft w) ?s2"
      using False unfolding track_Observe_def option.case Let_def n_def [symmetric] by auto
    moreover have "0 < n" using now by (simp add: n_def)
    ultimately show ?thesis using f d unfolding track_inv_def by auto
  qed
qed

datatype track_op = ObserveOp time "snapshot option" | PointsOp time string | LenOp time

fun track_run :: "track_op list \<Rightarrow> track_store \<Rightarrow> track_store" where
  "track_run [] s = s"
| "track_run (ObserveOp clock snap # ops) s = track_run ops (track_Observe clock snap s)"
| "track_run (PointsOp clock icao # ops) s = track_run ops (snd (track_points clock icao s))"
| "track_run (LenOp clock # ops) s = track_run ops (snd (track_Len clock s))"

text \<open>Snapshots as the engine and the manager publish them, and times after the zero time.\<close>

fun track_op_ok :: "track_op \<Rightarrow> bool" where
  "track_op_ok (ObserveOp clock (Some w)) \<longleftrightarrow> snapshot_wf w \<and> 0 < (if sn_PublishedAt w = time_zero then clock else sn_PublishedAt w)"
| "track_op_ok _ \<longleftrightarrow> True"

lemma track_run_inv: "track_inv s \<Longrightarrow> \<forall>op\<in>set ops. track_op_ok op \<Longrightarrow> track_inv (track_run ops s)"
proof (induction ops s rule: track_run.induct)
  case (2 clock snap ops s)
  have "track_inv (track_Observe clock snap s)"
    using 2 track_Observe_inv by (cases snap) (auto simp: track_Observe_def)
  then show ?case using 2 by simp
next
  case (3 clock icao ops s)
  have "snd (track_points clock icao s) = pruneLocked clock s" by (simp add: track_points_def Let_def split: option.splits)
  then show ?case using 3 track_inv_prune by simp
next
  case (4 clock ops s)
  then show ?case using track_inv_prune by (simp add: track_Len_def Let_def)
qed simp

lemma track_inv_NewStore: "track_inv NewStore"
  by (simp add: track_inv_def store_ok_def records_ok_def NewStore_def DefaultMaxAircraft_def)

text \<open>The track store stays bounded and in order. However observations and readings are
  interleaved, for well-formed snapshots, the store keeps at most 5,000 aircraft, the list
  that decides about eviction holds exactly the kept addresses, once each, and every kept
  track has between 1 and 180 points, in the order of time and at least five seconds apart.
\<close>

theorem track_store_bounded:
  assumes "\<forall>op\<in>set ops. track_op_ok op"
  shows "length (st_records (track_run ops NewStore)) \<le> 5000 \<and> distinct (st_order (track_run ops NewStore)) \<and>
    set (st_order (track_run ops NewStore)) = dom (map_of (st_records (track_run ops NewStore))) \<and>
    (\<forall>icao r. map_of (st_records (track_run ops NewStore)) icao = Some r \<longrightarrow>
       1 \<le> length (tk_points r) \<and> length (tk_points r) \<le> 180 \<and> sorted_wrt (\<lambda>p q. tp_At p + 5 * second \<le> tp_At q) (tk_points r))"
proof -
  have "track_inv (track_run ops NewStore)" using track_run_inv [OF track_inv_NewStore assms] .
  then show ?thesis unfolding track_inv_def store_ok_def records_ok_def record_ok_def points_spaced_def
    by (auto simp: DefaultMaxAircraft_def DefaultMaxPoints_def DefaultSampleInterval_def Suc_le_eq)
qed

text \<open>Reading a track returns the recent points. After any such operations, the points read
  for an address at a time are exactly the stored points of the last fifteen minutes, in
  their order; when there is none, the track is reported as not found.
\<close>

theorem track_points_recent:
  assumes "\<forall>op\<in>set ops. track_op_ok op"
  shows "fst (track_points clock icao (track_run ops NewStore)) =
    (let recent = filter (\<lambda>p. clock - 15 * minute \<le> tp_At p)
           (case map_of (st_records (track_run ops NewStore)) (to_upper (trim_space icao)) of None \<Rightarrow> [] | Some r \<Rightarrow> tk_points r)
     in if recent = [] then Inl ErrNotFound else Inr recent)"
  using track_points_filter track_run_inv [OF track_inv_NewStore assms] unfolding track_inv_def by blast

definition track_demo_snapshot :: snapshot where
  "track_demo_snapshot = zero_snapshot\<lparr> sn_PublishedAt := 7, sn_Aircraft := [], sn_ByICAO := [], sn_Search := [] \<rparr>"

lemma track_demo_ok: "track_op_ok (ObserveOp 0 (Some track_demo_snapshot))"
  by (simp add: track_demo_snapshot_def snapshot_wf_def index_of_def)

theorem track_store_bounded_witness:
  "length (st_records (track_run [ObserveOp 0 (Some track_demo_snapshot)] NewStore)) \<le> 5000"
  using track_store_bounded [of "[ObserveOp 0 (Some track_demo_snapshot)]"] track_demo_ok by simp

theorem track_points_recent_witness:
  "fst (track_points 8 ''A1'' (track_run [ObserveOp 0 (Some track_demo_snapshot)] NewStore)) = Inl ErrNotFound"
proof -
  have "st_records (track_run [ObserveOp 0 (Some track_demo_snapshot)] NewStore) = []"
    by (simp add: track_Observe_def track_demo_snapshot_def NewStore_def pruneLocked_def Let_def)
  then show ?thesis using track_points_recent [of "[ObserveOp 0 (Some track_demo_snapshot)]" 8 "''A1''"] track_demo_ok by (simp add: Let_def)
qed

section \<open>Summaries\<close>

lemma fold_closest:
  "fold (\<lambda>p best. if tp_DistanceNM p < best then tp_DistanceNM p else best) ps b = Min (insert b (tp_DistanceNM ` set ps))"
proof (induction ps arbitrary: b)
  case (Cons p ps)
  have "Min (insert (if tp_DistanceNM p < b then tp_DistanceNM p else b) (tp_DistanceNM ` set ps)) = Min (insert b (tp_DistanceNM ` set (p # ps)))"
    by (cases "tp_DistanceNM ` set ps = {}") (auto simp: Min_insert2 min_def)
  then show ?case using Cons.IH by simp
qed simp

definition altitudes_from :: "track_point list \<Rightarrow> nat \<Rightarrow> nat list" where
  "altitudes_from points l = filter (\<lambda>i. tp_HasAltitude (points ! i)) [l..<length points]"

lemma altitude_right_spec:
  "altitude_right points l n = (let R = filter (\<lambda>i. l < i \<and> tp_HasAltitude (points ! i)) [0..<Suc n] in if R = [] then None else Some (last R))"
proof (induction n)
  case (Suc n)
  have "filter (\<lambda>i. l < i \<and> tp_HasAltitude (points ! i)) [0..<Suc (Suc n)] = []" if "\<not> Suc n > l"
    using that by (auto simp: filter_empty_conv)
  then show ?case using Suc by (auto simp: Let_def)
qed (simp add: Let_def)

lemma altitudes_after:
  assumes "l < length points"
  shows "filter (\<lambda>i. l < i \<and> tp_HasAltitude (points ! i)) [0..<Suc (length points - 1)] = altitudes_from points (Suc l)"
proof -
  obtain k where k: "length points = Suc l + k" using assms less_iff_Suc_add by auto
  have "[0..<Suc l + k] = [0..<Suc l] @ [Suc l..<Suc l + k]" by (rule upt_add_eq_append) simp
  then have "[0..<Suc (length points - 1)] = [0..<Suc l] @ [Suc l..<length points]" using k by (simp del: upt_Suc)
  moreover have "filter (\<lambda>i. l < i \<and> tp_HasAltitude (points ! i)) [0..<Suc l] = []" by (auto simp: filter_empty_conv)
  moreover have "filter (\<lambda>i. l < i \<and> tp_HasAltitude (points ! i)) [Suc l..<length points] = altitudes_from points (Suc l)"
    unfolding altitudes_from_def by (rule filter_cong) auto
  ultimately show ?thesis by simp
qed

lemma altitude_left_spec:
  "altitude_left points l = (let I = altitudes_from points l in
     if length I \<ge> 2 then Some (tp_AltitudeFeet (points ! last I) - tp_AltitudeFeet (points ! hd I)) else None)"
proof (induction points l rule: altitude_left.induct)
  case (1 points l)
  show ?case
  proof (cases "l < length points")
    case False
    then show ?thesis by (subst altitude_left.simps) (simp add: altitudes_from_def Let_def)
  next
    case True
    have I: "altitudes_from points l = (if tp_HasAltitude (points ! l) then l # altitudes_from points (Suc l) else altitudes_from points (Suc l))"
      using True by (simp add: altitudes_from_def upt_conv_Cons)
    have R: "altitude_right points l (length points - 1) = (if altitudes_from points (Suc l) = [] then None else Some (last (altitudes_from points (Suc l))))"
      unfolding altitude_right_spec Let_def altitudes_after [OF True] ..
    show ?thesis
    proof (cases "tp_HasAltitude (points ! l)")
      case False
      then show ?thesis using "1.IH"(1) [OF True False] True I by (subst altitude_left.simps) simp
    next
      case alt: True
      show ?thesis
      proof (cases "altitudes_from points (Suc l)")
        case Nil
        then show ?thesis using "1.IH"(2) [OF True _ _] True alt I R by (subst altitude_left.simps) (simp add: Let_def)
      next
        case (Cons x xs)
        then show ?thesis using True alt I R by (subst altitude_left.simps) (simp add: Let_def)
      qed
    qed
  qed
qed

lemma filter_altitude: "map tp_AltitudeFeet (filter tp_HasAltitude points) = map (\<lambda>i. tp_AltitudeFeet (points ! i)) (altitudes_from points 0)"
proof -
  have "filter tp_HasAltitude (map ((!) points) [0..<length points]) = map ((!) points) (altitudes_from points 0)"
    by (simp add: altitudes_from_def filter_map comp_def)
  then have "filter tp_HasAltitude points = map ((!) points) (altitudes_from points 0)" by (simp only: map_nth)
  then show ?thesis by simp
qed

text \<open>What a track summary says. Of a non-empty track, the closest approach is the smallest
  distance of its points, and an altitude change is given exactly when at least two points
  have an altitude: the altitude of the last such point minus that of the first.
\<close>

theorem summarize_correct:
  assumes "points \<noteq> []"
  shows "ts_ClosestApproachNM (summarize icao points) = Min (tp_DistanceNM ` set points) \<and>
    (let altitudes = map tp_AltitudeFeet (filter tp_HasAltitude points) in
     ts_HasAltitudeChange (summarize icao points) = (length altitudes \<ge> 2) \<and>
     (length altitudes \<ge> 2 \<longrightarrow> ts_AltitudeChangeFeet (summarize icao points) = last altitudes - hd altitudes))"
proof -
  let ?I = "altitudes_from points 0"
  have "insert (tp_DistanceNM (hd points)) (tp_DistanceNM ` set (tl points)) = tp_DistanceNM ` set points"
    using assms by (cases points) auto
  moreover have "length ?I \<ge> 2 \<Longrightarrow> last (map (\<lambda>i. tp_AltitudeFeet (points ! i)) ?I) = tp_AltitudeFeet (points ! last ?I) \<and>
      hd (map (\<lambda>i. tp_AltitudeFeet (points ! i)) ?I) = tp_AltitudeFeet (points ! hd ?I)"
    by (cases ?I) (auto simp: last_map)
  ultimately show ?thesis
    by (simp add: summarize_def Let_def fold_closest altitude_left_spec filter_altitude)
qed

theorem summarize_correct_witness:
  "ts_ClosestApproachNM (summarize ''A1'' [point_of 5 (zero_aircraft\<lparr> ac_DistanceNM := 3 \<rparr>), point_of 10 (zero_aircraft\<lparr> ac_DistanceNM := 2 \<rparr>)]) = 2"
  using summarize_correct [of "[point_of 5 (zero_aircraft\<lparr> ac_DistanceNM := 3 \<rparr>), point_of 10 (zero_aircraft\<lparr> ac_DistanceNM := 2 \<rparr>)]" "''A1''"]
  by (simp add: point_of_def)

end
