(* ===== verification/Track_Plot_Props.thy ===== *)
theory Track_Plot_Props
  imports Track_Plot Track_Store_Props
begin

text \<open>
  The picture of a track: the line loop always ends at its target and never strays from the
  ideal line by more than half a pixel, a picture is drawn for every history, the coordinates
  stay on the canvas, and the store keeps at most 64 pictures.
\<close>

section \<open>The line loop\<close>

definition adjacent :: "int \<times> int \<Rightarrow> int \<times> int \<Rightarrow> bool" where
  "adjacent p q \<longleftrightarrow> p \<noteq> q \<and> \<bar>fst q - fst p\<bar> \<le> 1 \<and> \<bar>snd q - snd p\<bar> \<le> 1"

text \<open>Twice the distance from the ideal line, scaled by the longer side: half a pixel at most.\<close>

definition near_line :: "int \<Rightarrow> int \<Rightarrow> int \<Rightarrow> int \<Rightarrow> int \<times> int \<Rightarrow> bool" where
  "near_line x0 y0 x1 y1 p \<longleftrightarrow>
     2 * \<bar>(snd p - y0) * (x1 - x0) - (fst p - x0) * (y1 - y0)\<bar> \<le> max \<bar>x1 - x0\<bar> \<bar>y1 - y0\<bar>"

text \<open>The invariant of the loop after \<open>a\<close> steps along x and \<open>b\<close> along y.\<close>

definition line_inv :: "int \<Rightarrow> int \<Rightarrow> int \<Rightarrow> int \<Rightarrow> int \<Rightarrow> bool" where
  "line_inv DX DY a b err \<longleftrightarrow>
     0 \<le> a \<and> a \<le> DX \<and> 0 \<le> b \<and> b \<le> DY \<and> err = (b * DX - a * DY) + DX - DY \<and> 2 * \<bar>b * DX - a * DY\<bar> \<le> max DX DY"

definition step_x :: "int \<Rightarrow> int \<Rightarrow> int" where
  "step_x DY err = (if 2 * err \<ge> - DY then 1 else 0)"

definition step_y :: "int \<Rightarrow> int \<Rightarrow> int" where
  "step_y DX err = (if 2 * err \<le> DX then 1 else 0)"

lemma line_inv_no_overshoot:
  assumes inv: "line_inv DX DY a b err" and more: "\<not> (a = DX \<and> b = DY)"
  shows "a + step_x DY err \<le> DX" "b + step_y DX err \<le> DY"
proof -
  show "a + step_x DY err \<le> DX"
  proof (cases "a = DX")
    case True
    then have "b < DY" using more inv unfolding line_inv_def by simp
    then have "b * DX - DX * DY \<le> - DX"
      using mult_right_mono [of "b + 1" DY DX] inv True unfolding line_inv_def by (simp add: algebra_simps)
    then show ?thesis using inv True \<open>b < DY\<close> unfolding line_inv_def step_x_def by auto
  next
    case False
    then show ?thesis using inv unfolding line_inv_def step_x_def by auto
  qed
  show "b + step_y DX err \<le> DY"
  proof (cases "b = DY")
    case True
    then have "a < DX" using more inv unfolding line_inv_def by simp
    then have "DY \<le> DY * DX - a * DY"
      using mult_right_mono [of "a + 1" DX DY] inv True unfolding line_inv_def by (simp add: algebra_simps)
    then show ?thesis using inv True \<open>a < DX\<close> unfolding line_inv_def step_y_def by auto
  next
    case False
    then show ?thesis using inv unfolding line_inv_def step_y_def by auto
  qed
qed

lemma line_inv_progress:
  assumes "line_inv DX DY a b err"
  shows "1 \<le> step_x DY err + step_y DX err"
  using assms unfolding line_inv_def step_x_def step_y_def by auto

lemma line_inv_step:
  assumes inv: "line_inv DX DY a b err" and more: "\<not> (a = DX \<and> b = DY)"
  shows "line_inv DX DY (a + step_x DY err) (b + step_y DX err) (err - step_x DY err * DY + step_y DX err * DX)"
proof -
  define D where "D = b * DX - a * DY"
  have e: "err = D + DX - DY" "2 * \<bar>D\<bar> \<le> max DX DY" "0 \<le> DX" "0 \<le> DY" "0 \<le> a" "0 \<le> b"
    using inv unfolding line_inv_def D_def by auto
  have D': "(b + step_y DX err) * DX - (a + step_x DY err) * DY = D + step_y DX err * DX - step_x DY err * DY"
    unfolding D_def by (simp add: algebra_simps)
  have "2 * \<bar>D + step_y DX err * DX - step_x DY err * DY\<bar> \<le> max DX DY"
    using e(1-4) line_inv_progress [OF inv] unfolding step_x_def step_y_def max_def abs_if by (simp split: if_splits)
  then show ?thesis
    using e line_inv_no_overshoot [OF inv more] unfolding line_inv_def D' by (auto simp: step_x_def step_y_def)
qed

lemma line_loop_step:
  assumes "\<not> (x = x1 \<and> y = y1)"
  shows "line_loop c DX (- DY) sx sy x1 y1 x y err t =
    line_loop c DX (- DY) sx sy x1 y1 (x + sx * step_x DY err) (y + sy * step_y DX err)
      (err - step_x DY err * DY + step_y DX err * DX) (SetRGBA c (x, y) t)"
  using assms by (subst line_loop.simps) (auto simp: Let_def step_x_def step_y_def SetRGBA_def)

lemma line_loop_end:
  "line_loop c DX (- DY) sx sy x1 y1 x1 y1 err t = Some (SetRGBA c (x1, y1) t)"
  by (subst line_loop.simps) (simp add: Let_def SetRGBA_def)

lemma near_line_steps:
  assumes "\<bar>sx\<bar> = 1" "\<bar>sy\<bar> = 1" "0 \<le> DX" "0 \<le> DY" "2 * \<bar>b * DX - a * DY\<bar> \<le> max DX DY"
  shows "near_line x0 y0 (x0 + sx * DX) (y0 + sy * DY) (x0 + sx * a, y0 + sy * b)"
proof -
  have "(sy * b) * (sx * DX) - (sx * a) * (sy * DY) = (sx * sy) * (b * DX - a * DY)"
    by (simp add: algebra_simps)
  then have "\<bar>(sy * b) * (sx * DX) - (sx * a) * (sy * DY)\<bar> = \<bar>b * DX - a * DY\<bar>"
    using assms by (simp add: abs_mult)
  then show ?thesis using assms unfolding near_line_def by (simp add: abs_mult)
qed

lemma line_loop_runs:
  assumes "\<bar>sx\<bar> = 1" "\<bar>sy\<bar> = 1" "line_inv DX DY a b err"
  shows "\<exists>ps. line_loop c DX (- DY) sx sy (x0 + sx * DX) (y0 + sy * DY) (x0 + sx * a) (y0 + sy * b) err t
                = Some (fold (SetRGBA c) ps t)
            \<and> ps \<noteq> [] \<and> hd ps = (x0 + sx * a, y0 + sy * b) \<and> last ps = (x0 + sx * DX, y0 + sy * DY)
            \<and> successively adjacent ps \<and> list_all (near_line x0 y0 (x0 + sx * DX) (y0 + sy * DY)) ps"
  using assms
proof (induction "nat ((DX - a) + (DY - b))" arbitrary: a b err t rule: less_induct)
  case less
  have inv: "0 \<le> a" "a \<le> DX" "0 \<le> b" "b \<le> DY" "2 * \<bar>b * DX - a * DY\<bar> \<le> max DX DY"
    using less.prems(3) unfolding line_inv_def by auto
  have near: "near_line x0 y0 (x0 + sx * DX) (y0 + sy * DY) (x0 + sx * a, y0 + sy * b)"
    using near_line_steps [OF less.prems(1,2)] inv by simp
  show ?case
  proof (cases "a = DX \<and> b = DY")
    case True
    then show ?thesis using near line_loop_end [of c DX DY sx sy "x0 + sx * DX" "y0 + sy * DY" err t]
      by (intro exI [of _ "[(x0 + sx * DX, y0 + sy * DY)]"]) simp
  next
    case False
    define a' b' err' where "a' = a + step_x DY err" and "b' = b + step_y DX err"
      and "err' = err - step_x DY err * DY + step_y DX err * DX"
    have inv': "line_inv DX DY a' b' err'"
      unfolding a'_def b'_def err'_def by (rule line_inv_step [OF less.prems(3) False])
    have prog: "1 \<le> step_x DY err + step_y DX err" by (rule line_inv_progress [OF less.prems(3)])
    have le: "a' \<le> DX" "b' \<le> DY" using inv' unfolding line_inv_def by auto
    have st: "(step_x DY err = 0 \<or> step_x DY err = 1) \<and> (step_y DX err = 0 \<or> step_y DX err = 1)"
      unfolding step_x_def step_y_def by simp
    have "nat ((DX - a') + (DY - b')) < nat ((DX - a) + (DY - b))"
      using prog le unfolding a'_def b'_def by linarith
    from less.hyps [OF this less.prems(1,2) inv', of "SetRGBA c (x0 + sx * a, y0 + sy * b) t"]
    obtain ps where ps: "line_loop c DX (- DY) sx sy (x0 + sx * DX) (y0 + sy * DY) (x0 + sx * a') (y0 + sy * b') err'
            (SetRGBA c (x0 + sx * a, y0 + sy * b) t) = Some (fold (SetRGBA c) ps (SetRGBA c (x0 + sx * a, y0 + sy * b) t))"
        "ps \<noteq> []" "hd ps = (x0 + sx * a', y0 + sy * b')" "last ps = (x0 + sx * DX, y0 + sy * DY)"
        "successively adjacent ps" "list_all (near_line x0 y0 (x0 + sx * DX) (y0 + sy * DY)) ps"
      by blast
    have ne: "\<not> (x0 + sx * a = x0 + sx * DX \<and> y0 + sy * b = y0 + sy * DY)"
      using False less.prems(1,2) by auto
    have adj: "adjacent (x0 + sx * a, y0 + sy * b) (hd ps)"
      using ps(3) st prog less.prems(1,2) unfolding adjacent_def a'_def b'_def
      by (auto simp: algebra_simps abs_mult)
    have run: "line_loop c DX (- DY) sx sy (x0 + sx * DX) (y0 + sy * DY) (x0 + sx * a) (y0 + sy * b) err t
        = Some (fold (SetRGBA c) ((x0 + sx * a, y0 + sy * b) # ps) t)"
      using line_loop_step [OF ne, of c DX DY sx sy err t] ps(1) unfolding a'_def b'_def err'_def
      by (simp add: algebra_simps)
    show ?thesis
      using run ps(2-6) adj near
      by (intro exI [of _ "(x0 + sx * a, y0 + sy * b) # ps"]) (auto simp: successively_Cons)
  qed
qed

lemma drawLine_path:
  obtains ps where "drawLine target x0 y0 x1 y1 c = Some (fold (SetRGBA c) ps target)" "ps \<noteq> []"
    "hd ps = (x0, y0)" "last ps = (x1, y1)" "successively adjacent ps" "list_all (near_line x0 y0 x1 y1) ps"
proof -
  define DX DY where "DX = go_abs (x1 - x0)" and "DY = go_abs (y1 - y0)"
  define sx sy :: int where "sx = (if x0 < x1 then 1 else - 1)" and "sy = (if y0 < y1 then 1 else - 1)"
  have s: "\<bar>sx\<bar> = 1" "\<bar>sy\<bar> = 1" unfolding sx_def sy_def by simp_all
  have ends: "x0 + sx * DX = x1" "y0 + sy * DY = y1"
    unfolding sx_def sy_def DX_def DY_def go_abs_def by auto
  have inv: "line_inv DX DY 0 0 (DX + - DY)"
    unfolding line_inv_def DX_def DY_def go_abs_def by auto
  have "drawLine target x0 y0 x1 y1 c = line_loop c DX (- DY) sx sy x1 y1 x0 y0 (DX + - DY) target"
    unfolding drawLine_def DX_def DY_def sx_def sy_def Let_def by (rule refl)
  then show ?thesis
    using line_loop_runs [OF s inv, of c x0 y0 target] that unfolding ends by auto
qed


section \<open>A picture for every history\<close>

lemma drawLine_returns: "\<exists>t. drawLine target x0 y0 x1 y1 c = Some t"
  by (rule drawLine_path) blast

lemma draw_track_returns: "\<exists>q t. draw_track c p ps target = Some (q, t)"
proof (induction ps arbitrary: p target)
  case (Cons q ps)
  obtain t where "drawLine target (fst p) (snd p) (fst q) (snd q) c = Some t" using drawLine_returns by blast
  then show ?case using Cons.IH by simp
qed simp

lemma radar_canvas_returns: "\<exists>t. radar_canvas = Some t"
proof -
  define circles where "circles = fold (\<lambda>radius. drawCircle (plotSize div 2) (plotSize div 2) radius
    \<lparr> px_R = 53, px_G = 208, px_B = 127, px_A = 100 \<rparr>) [80, 160, 240, 300] blank_canvas"
  obtain t where "drawLine circles (plotSize div 2) 16 (plotSize div 2) (plotSize - 16) \<lparr> px_R = 53, px_G = 208, px_B = 127, px_A = 100 \<rparr> = Some t"
    using drawLine_returns by blast
  moreover obtain t' where "drawLine t 16 (plotSize div 2) (plotSize - 16) (plotSize div 2) \<lparr> px_R = 53, px_G = 208, px_B = 127, px_A = 100 \<rparr> = Some t'"
    using drawLine_returns by blast
  ultimately show ?thesis unfolding radar_canvas_def Let_def circles_def [symmetric] by simp
qed

lemma renderPlot_returns: "\<exists>t. renderPlot png points = Some (png t)"
proof -
  obtain t0 where t0: "radar_canvas = Some t0" using radar_canvas_returns by blast
  show ?thesis
  proof (cases "plotCoordinates points (plotSize div 2)")
    case Nil
    then show ?thesis unfolding renderPlot_def t0 by simp blast
  next
    case (Cons p ps)
    obtain q t where "draw_track \<lparr> px_R = 55, px_G = 181, px_B = 255, px_A = 255 \<rparr> p ps t0 = Some (q, t)"
      using draw_track_returns by blast
    then show ?thesis unfolding renderPlot_def t0 Cons by simp blast
  qed
qed

section \<open>The track stays on the canvas\<close>

lemma trunc_bound:
  assumes "\<bar>r\<bar> \<le> of_int b"
  shows "\<bar>trunc r\<bar> \<le> b"
proof (cases "0 \<le> r")
  case True
  then have "0 \<le> \<lfloor>r\<rfloor>" "\<lfloor>r\<rfloor> \<le> b" using assms by (simp_all add: floor_le_iff)
  then show ?thesis using True by (simp add: trunc_def)
next
  case False
  then have "\<lceil>r\<rceil> \<le> 0" "- b \<le> \<lceil>r\<rceil>" using assms by (simp_all add: ceiling_le_iff le_ceiling_iff)
  then show ?thesis using False by (simp add: trunc_def)
qed

lemma fold_min_le: "fold (\<lambda>p m. min m (f p)) ps (a :: real) \<le> a \<and> (\<forall>p\<in>set ps. fold (\<lambda>p m. min m (f p)) ps a \<le> f p)"
proof (induction ps arbitrary: a)
  case (Cons p ps)
  then show ?case by (auto intro: order_trans [OF conjunct1 [OF Cons.IH]] simp: min.coboundedI1)
qed simp

lemma fold_max_ge: "(a :: real) \<le> fold (\<lambda>p m. max m (f p)) ps a \<and> (\<forall>p\<in>set ps. f p \<le> fold (\<lambda>p m. max m (f p)) ps a)"
proof (induction ps arbitrary: a)
  case (Cons p ps)
  then show ?case by (auto intro: order_trans [OF _ conjunct1 [OF Cons.IH]] simp: max.coboundedI1)
qed simp

lemma fold_min_max_between:
  assumes "p \<in> set points"
  shows "fold (\<lambda>p m. min m (f p)) (tl points) (f (hd points)) \<le> (f p :: real)"
    "f p \<le> fold (\<lambda>p m. max m (f p)) (tl points) (f (hd points))"
  using assms fold_min_le [of f "tl points" "f (hd points)"] fold_max_ge [of "f (hd points)" f "tl points"]
  by (cases points; auto)+

lemma scaled_bound:
  assumes "lo \<le> x" "x \<le> hi" "hi - lo \<le> wide" "(0 :: real) < wide"
  shows "\<bar>(x - (lo + hi) / 2) * (560 / wide)\<bar> \<le> 280"
proof -
  have "\<bar>x - (lo + hi) / 2\<bar> \<le> wide / 2" using assms by (simp add: abs_le_iff field_simps)
  then have "\<bar>x - (lo + hi) / 2\<bar> * (560 / wide) \<le> wide / 2 * (560 / wide)"
    using assms(4) by (intro mult_right_mono) auto
  moreover have "\<bar>560 / wide\<bar> = 560 / wide" using assms(4) by simp
  ultimately show ?thesis using assms(4) by (simp only: abs_mult) simp
qed

lemma geographicCoordinates_near:
  assumes "q \<in> set (geographicCoordinates points center)"
  shows "\<bar>fst q - center\<bar> \<le> 280 \<and> \<bar>snd q - center\<bar> \<le> 280"
proof -
  define X where "X = (\<lambda>p :: track_point. tp_Longitude p * longitude_scale points)"
  define minX maxX minY maxY where "minX = fold (\<lambda>p m. min m (X p)) (tl points) (X (hd points))"
    and "maxX = fold (\<lambda>p m. max m (X p)) (tl points) (X (hd points))"
    and "minY = fold (\<lambda>p m. min m (tp_Latitude p)) (tl points) (tp_Latitude (hd points))"
    and "maxY = fold (\<lambda>p m. max m (tp_Latitude p)) (tl points) (tp_Latitude (hd points))"
  define span0 where "span0 = max (maxX - minX) (maxY - minY)"
  define wide where "wide = (if span0 < 1 / 10000 then 1 / 10000 else span0)"
  have wide: "0 < wide" "maxX - minX \<le> wide" "maxY - minY \<le> wide" using max.cobounded1 [of "maxX - minX" "maxY - minY"] max.cobounded2 [of "maxY - minY" "maxX - minX"]
    unfolding wide_def span0_def by (auto split: if_splits simp del: max.cobounded1 max.cobounded2 max_less_iff_conj)
  obtain p where p: "p \<in> set points"
      "q = (center + trunc ((X p - (minX + maxX) / 2) * (560 / wide)), center - trunc ((tp_Latitude p - (minY + maxY) / 2) * (560 / wide)))"
    using assms unfolding geographicCoordinates_def Let_def minX_def maxX_def minY_def maxY_def wide_def span0_def X_def by auto
  have "\<bar>(X p - (minX + maxX) / 2) * (560 / wide)\<bar> \<le> 280" "\<bar>(tp_Latitude p - (minY + maxY) / 2) * (560 / wide)\<bar> \<le> 280"
    using fold_min_max_between [OF p(1)] wide unfolding minX_def maxX_def minY_def maxY_def
    by (intro scaled_bound; simp)+
  then show ?thesis
    using trunc_bound [of _ 280] unfolding p(2) by simp
qed

lemma radialCoordinates_near:
  assumes q: "q \<in> set (radialCoordinates points center)" and d: "list_all (\<lambda>p. 0 \<le> tp_DistanceNM p) points"
  shows "\<bar>fst q - center\<bar> \<le> 292 \<and> \<bar>snd q - center\<bar> \<le> 292"
proof -
  define top where "top = fold (\<lambda>p m. max m (tp_DistanceNM p)) points 1"
  obtain p where p: "p \<in> set points"
    "q = (center + trunc (sin (tp_BearingDegrees p * pi / 180) * (tp_DistanceNM p / (top * (11 / 10)) * 292)),
          center - trunc (cos (tp_BearingDegrees p * pi / 180) * (tp_DistanceNM p / (top * (11 / 10)) * 292)))"
    using q unfolding radialCoordinates_def Let_def top_def by auto
  have "1 \<le> top" "tp_DistanceNM p \<le> top" "0 \<le> tp_DistanceNM p"
    using fold_max_ge [of 1 tp_DistanceNM points] p(1) d unfolding top_def by (auto simp: list_all_iff)
  then have r: "0 \<le> tp_DistanceNM p / (top * (11 / 10)) * 292" "tp_DistanceNM p / (top * (11 / 10)) * 292 \<le> 292"
    by (simp_all add: field_simps)
  have "\<bar>t * (tp_DistanceNM p / (top * (11 / 10)) * 292)\<bar> \<le> 292" if "\<bar>t\<bar> \<le> 1" for t :: real
    unfolding abs_mult using mult_mono [OF that r(2) _ r(1)] r(1) by (simp only: abs_of_nonneg) simp
  then show ?thesis
    using trunc_bound [of _ 292] abs_sin_le_one abs_cos_le_one unfolding p(2) by simp
qed

text \<open>Every sample of a track has its pixel on the canvas, with the dot around it.\<close>

lemma plotCoordinates_on_canvas:
  assumes "list_all (\<lambda>p. 0 \<le> tp_DistanceNM p) points" "q \<in> set (plotCoordinates points (plotSize div 2))"
    "\<bar>i\<bar> \<le> 5" "\<bar>j\<bar> \<le> 5"
  shows "in_bounds (fst q + i, snd q + j)"
proof -
  have "\<bar>fst q - plotSize div 2\<bar> \<le> 292 \<and> \<bar>snd q - plotSize div 2\<bar> \<le> 292"
    using assms(1,2) radialCoordinates_near [of q points] geographicCoordinates_near [of q points]
    unfolding plotCoordinates_def by (fastforce split: if_splits)
  then show ?thesis using assms(3,4) unfolding in_bounds_def plotSize_def by auto
qed

section \<open>The cache\<close>

definition plotted :: "track_store \<Rightarrow> string set" where
  "plotted s = {icao. \<exists>r. map_of (st_records s) icao = Some r \<and> tk_plot r \<noteq> []}"

definition plot_inv :: "(canvas \<Rightarrow> string option) \<Rightarrow> track_store \<Rightarrow> bool" where
  "plot_inv png s \<longleftrightarrow> gm_wf (st_records s) \<and> card (plotted s) \<le> defaultMaxPlots \<and>
     (\<forall>icao r. map_of (st_records s) icao = Some r \<longrightarrow> tk_plot r \<noteq> [] \<longrightarrow> renderPlot png (tk_points r) = Some (Some (tk_plot r)))"

text \<open>\<open>s'\<close> has no picture that \<open>s\<close> did not have for the same points.\<close>

definition plots_from :: "track_store \<Rightarrow> track_store \<Rightarrow> bool" where
  "plots_from s s' \<longleftrightarrow> (gm_wf (st_records s) \<longrightarrow> gm_wf (st_records s')) \<and>
     (\<forall>icao r'. map_of (st_records s') icao = Some r' \<longrightarrow> tk_plot r' \<noteq> [] \<longrightarrow>
        (\<exists>r. map_of (st_records s) icao = Some r \<and> tk_points r = tk_points r' \<and> tk_plot r = tk_plot r'))"

lemma plots_from_refl [simp, intro]: "plots_from s s"
  by (auto simp: plots_from_def)

lemma plots_from_trans [trans]: "plots_from s t \<Longrightarrow> plots_from t u \<Longrightarrow> plots_from s u"
  unfolding plots_from_def by metis

lemma plots_from_fold: "(\<And>x t. plots_from t (f x t)) \<Longrightarrow> plots_from s (fold f xs s)"
proof (induction xs arbitrary: s)
  case (Cons x xs)
  then show ?case using plots_from_trans [of s "f x s"] by simp
qed simp

lemma finite_plotted [simp, intro]: "finite (plotted s)"
  by (rule finite_subset [of _ "dom (map_of (st_records s))"]) (auto simp: plotted_def finite_dom_map_of)

lemma plot_inv_from:
  assumes "plots_from s s'" "plot_inv png s"
  shows "plot_inv png s'"
proof -
  have "plotted s' \<subseteq> plotted s" using assms(1) unfolding plots_from_def plotted_def by force
  then have "card (plotted s') \<le> card (plotted s)" by (intro card_mono) auto
  moreover have "renderPlot png (tk_points r') = Some (Some (tk_plot r'))"
    if "map_of (st_records s') icao = Some r'" "tk_plot r' \<noteq> []" for icao r'
    using assms that unfolding plots_from_def plot_inv_def by metis
  ultimately show ?thesis using assms unfolding plot_inv_def plots_from_def by auto
qed

lemma plots_from_update:
  assumes "map_of (st_records s) icao = Some r" "tk_plot r' \<noteq> [] \<Longrightarrow> r' = r"
  shows "plots_from s (s\<lparr> st_records := AList.update icao r' (st_records s) \<rparr>)"
  using assms unfolding plots_from_def by auto

lemma plots_from_delete: "plots_from s (deleteLocked icao s)"
  unfolding plots_from_def deleteLocked_def by (auto split: if_splits)

lemma plots_from_prune_record: "plots_from s (prune_record cutoff icao s)"
proof (cases "map_of (st_records s) icao")
  case (Some r)
  have "plots_from s (s\<lparr> st_records := AList.update icao (prune_points cutoff r) (st_records s) \<rparr>)"
    by (rule plots_from_update [OF Some]) (simp add: prune_points_def Let_def split: if_splits)
  then show ?thesis
    using Some plots_from_trans [OF _ plots_from_delete] by (simp add: prune_record_def Let_def)
qed (simp add: prune_record_def)

lemma plots_from_prune: "plots_from s (pruneLocked now s)"
  unfolding pruneLocked_def by (rule plots_from_fold) (rule plots_from_prune_record)

lemma plots_from_enter:
  assumes "enter_record icao s = Some s'"
  shows "plots_from s s'"
proof (cases "map_of (st_records s) icao")
  case (Some r)
  then show ?thesis using assms by (auto simp: enter_record_def plots_from_def)
next
  case None
  then obtain t where t: "make_room s = Some t"
    "s' = t\<lparr> st_order := icao # st_order t, st_records := AList.update icao zero_track_record (st_records t) \<rparr>"
    using assms by (auto simp: enter_record_def)
  have "plots_from s t"
    using t(1) plots_from_delete by (auto simp: make_room_def split: if_splits list.splits option.splits)
  moreover have "plots_from t s'" unfolding t(2) plots_from_def by (auto simp: zero_track_record_def)
  ultimately show ?thesis by (rule plots_from_trans)
qed

lemma plots_from_observe: "plots_from s (observe_track now a s)"
proof -
  have "plots_from s' (s'\<lparr> st_records := AList.update icao (add_point m g now a r) (st_records s') \<rparr>)"
    if "map_of (st_records s') icao = Some r" for s' icao r m g
    by (rule plots_from_update [OF that]) (simp add: add_point_def Let_def)
  then show ?thesis
    unfolding observe_track_def Let_def
    by (auto split: option.split dest!: plots_from_enter intro: plots_from_trans)
qed

lemma plots_from_Observe: "plots_from s (track_Observe clock snap s)"
proof (cases snap)
  case (Some w)
  define n where "n = (if sn_PublishedAt w = time_zero then clock else sn_PublishedAt w)"
  define s0 where "s0 = s\<lparr> st_nextSample := n + st_sampleInterval s \<rparr>"
  define s1 where "s1 = pruneLocked n s0"
  have "plots_from s s0" unfolding s0_def plots_from_def by auto
  also have "plots_from s0 s1" unfolding s1_def by (rule plots_from_prune)
  also have "plots_from s1 (s1\<lparr> st_generation := st_generation s1 + 1 \<rparr>)" unfolding plots_from_def by auto
  also have "plots_from (s1\<lparr> st_generation := st_generation s1 + 1 \<rparr>)
      (fold (observe_track n) (sn_Aircraft w) (s1\<lparr> st_generation := st_generation s1 + 1 \<rparr>))"
    by (rule plots_from_fold) (rule plots_from_observe)
  finally show ?thesis
    unfolding track_Observe_def Some option.case Let_def n_def [symmetric] s0_def [symmetric] s1_def [symmetric] by simp
qed (simp add: track_Observe_def)

lemma older_plot_fold:
  "fst (fold older_plot es (n, o')) = n + length (filter (\<lambda>e. tk_plot (snd e) \<noteq> []) es) \<and>
   (case snd (fold older_plot es (n, o')) of
      None \<Rightarrow> o' = None \<and> filter (\<lambda>e. tk_plot (snd e) \<noteq> []) es = []
    | Some e \<Rightarrow> o' = Some e \<or> e \<in> set es \<and> tk_plot (snd e) \<noteq> [])"
proof (induction es arbitrary: n o')
  case Nil
  then show ?case by (simp split: option.split)
next
  case (Cons e es)
  obtain n1 o1 where acc: "older_plot e (n, o') = (n1, o1)" by (cases "older_plot e (n, o')")
  show ?case
  proof (cases "tk_plot (snd e) = []")
    case True
    then have "older_plot e (n, o') = (n, o')" by (simp add: older_plot_def)
    then show ?thesis using Cons.IH [of n o'] True by (cases "snd (fold older_plot es (n, o'))") auto
  next
    case False
    then have n1: "n1 = Suc n" and o1: "o1 = o' \<or> o1 = Some e" "o1 \<noteq> None"
      using acc by (auto simp: older_plot_def Let_def split: if_splits option.splits)
    obtain q where q: "snd (fold older_plot es (n1, o1)) = Some q" "o1 = Some q \<or> q \<in> set es \<and> tk_plot (snd q) \<noteq> []"
      using Cons.IH [of n1 o1] o1(2) by (cases "snd (fold older_plot es (n1, o1))") auto
    have "o' = Some q \<or> q \<in> set (e # es) \<and> tk_plot (snd q) \<noteq> []" using q(2) o1(1) False by auto
    then show ?thesis using Cons.IH [of n1 o1] q(1) n1 False by (simp add: acc)
  qed
qed

lemma plotted_card:
  assumes "gm_wf (st_records s)"
  shows "length (filter (\<lambda>e. tk_plot (snd e) \<noteq> []) (st_records s)) = card (plotted s)"
proof -
  let ?f = "filter (\<lambda>e. tk_plot (snd e) \<noteq> []) (st_records s)"
  have "distinct (map fst ?f)" using assms by (simp add: gm_wf_def distinct_map_filter)
  then have "card (set (map fst ?f)) = length (map fst ?f)" by (rule distinct_card)
  then have "length ?f = card (fst ` set ?f)" by simp
  moreover have "icao \<in> fst ` set ?f \<longleftrightarrow> icao \<in> plotted s" for icao
    using gm_wf_mem [OF assms, of icao] unfolding plotted_def by (auto simp: image_iff)
  then have "fst ` set ?f = plotted s" by blast
  ultimately show ?thesis by simp
qed

lemma evictPlotLocked_room:
  assumes "plot_inv png s"
  shows "plots_from s (evictPlotLocked s)" "card (plotted (evictPlotLocked s)) < defaultMaxPlots"
proof -
  have wf: "gm_wf (st_records s)" and le: "card (plotted s) \<le> defaultMaxPlots" using assms by (simp_all add: plot_inv_def)
  obtain n o' where f: "fold older_plot (st_records s) (0, None) = (n, o')" by (cases "fold older_plot (st_records s) (0, None)")
  have n: "n = card (plotted s)" using older_plot_fold [of "st_records s" 0 None] plotted_card [OF wf] by (simp add: f)
  have "plots_from s (evictPlotLocked s) \<and> card (plotted (evictPlotLocked s)) < defaultMaxPlots"
  proof (cases o')
    case None
    then have "n = 0" using older_plot_fold [of "st_records s" 0 None] by (simp add: f)
    then show ?thesis using f None n by (simp add: evictPlotLocked_def defaultMaxPlots_def)
  next
    case (Some e)
    obtain k r where e: "e = (k, r)" by (cases e)
    have kr: "map_of (st_records s) k = Some r" "tk_plot r \<noteq> []"
      using older_plot_fold [of "st_records s" 0 None] gm_wf_mem [OF wf] by (simp_all add: f Some e)
    define s' where "s' = s\<lparr> st_records := AList.update k (r\<lparr> tk_plot := [], tk_plotAt := time_zero, tk_plotKey := time_zero \<rparr>) (st_records s) \<rparr>"
    have ev: "evictPlotLocked s = (if n \<ge> defaultMaxPlots then s' else s)"
      by (simp add: evictPlotLocked_def f Some e s'_def)
    have "plots_from s s'" unfolding s'_def by (rule plots_from_update [OF kr(1)]) simp
    moreover have "plotted s' = plotted s - {k}" unfolding plotted_def s'_def by auto
    moreover have "k \<in> plotted s" using kr by (auto simp: plotted_def)
    then have "card (plotted s - {k}) < card (plotted s)" by (intro psubset_card_mono) auto
    ultimately show ?thesis using le n by (auto simp: ev)
  qed
  then show "plots_from s (evictPlotLocked s)" "card (plotted (evictPlotLocked s)) < defaultMaxPlots" by simp_all
qed

lemma evict_keeps_points:
  "map_option tk_points (map_of (st_records (evictPlotLocked s)) icao) = map_option tk_points (map_of (st_records s) icao)"
  if "gm_wf (st_records s)"
proof -
  obtain n o' where f: "fold older_plot (st_records s) (0, None) = (n, o')" by (cases "fold older_plot (st_records s) (0, None)")
  show ?thesis
  proof (cases o')
    case (Some e)
    then show ?thesis
      using older_plot_fold [of "st_records s" 0 None] gm_wf_mem [OF that]
      by (cases e) (auto simp: evictPlotLocked_def f)
  qed (simp add: evictPlotLocked_def f)
qed

lemma plot_save_inv:
  assumes inv: "plot_inv png s" and r: "map_of (st_records s) icao = Some r"
    and drawn: "renderPlot png (tk_points r) = Some (Some data)"
  shows "plot_inv png (plot_save now icao lastSample data s)"
proof (cases "tk_points r = [] \<or> tp_At (last (tk_points r)) \<noteq> lastSample")
  case True
  then show ?thesis using inv r by (simp add: plot_save_def)
next
  case False
  have wf: "gm_wf (st_records s)" using inv by (simp add: plot_inv_def)
  define t where "t = evictPlotLocked s"
  have inv': "plot_inv png t" and room: "card (plotted t) < defaultMaxPlots"
    using plot_inv_from [OF evictPlotLocked_room(1) inv, OF inv] evictPlotLocked_room(2) [OF inv] by (simp_all add: t_def)
  obtain r' where r': "map_of (st_records t) icao = Some r'" "tk_points r' = tk_points r"
    using evict_keeps_points [OF wf, of icao] r by (auto simp: t_def)
  define u where "u = t\<lparr> st_records := AList.update icao (r'\<lparr> tk_plot := data, tk_plotAt := now, tk_plotKey := lastSample \<rparr>) (st_records t) \<rparr>"
  have e: "plot_save now icao lastSample data s = u"
    using False r r' by (auto simp: plot_save_def t_def [symmetric] u_def Let_def)
  have "plotted u \<subseteq> insert icao (plotted t)" unfolding plotted_def u_def by auto
  then have "card (plotted u) \<le> card (insert icao (plotted t))" by (intro card_mono) auto
  also have "\<dots> \<le> Suc (card (plotted t))" by (rule card_insert_le_m1) simp_all
  finally have "card (plotted u) \<le> defaultMaxPlots" using room by simp
  moreover have "renderPlot png (tk_points q) = Some (Some (tk_plot q))"
    if "map_of (st_records u) k = Some q" "tk_plot q \<noteq> []" for k q
    using that inv' drawn r' unfolding u_def plot_inv_def by (auto split: if_splits)
  moreover have "gm_wf (st_records u)" using inv' unfolding u_def plot_inv_def by simp
  ultimately show ?thesis unfolding e plot_inv_def by blast
qed

lemma plot_lookup_store: "snd (plot_lookup now icao s) = pruneLocked now s"
  by (simp add: plot_lookup_def Let_def split: option.split)

lemma plot_lookup_render:
  assumes "plot_lookup now icao s = (PlotRender lastSample points, s')"
  obtains r where "map_of (st_records s') icao = Some r" "tk_points r = points"
  using assms by (auto simp: plot_lookup_def Let_def split: option.splits if_splits)

lemma plot_lookup_cached:
  assumes "plot_lookup now icao s = (PlotCached data points, s')"
  obtains r where "map_of (st_records s') icao = Some r" "tk_points r = points" "tk_plot r = data" "data \<noteq> []"
  using assms by (auto simp: plot_lookup_def Let_def split: option.splits if_splits)

lemma Plot_inv:
  assumes inv: "plot_inv png s" and run: "Plot png clock icao s = Some (res, s')"
  shows "plot_inv png s'"
proof -
  let ?k = "to_upper (trim_space icao)"
  obtain found t where l: "plot_lookup clock ?k s = (found, t)" by (cases "plot_lookup clock ?k s")
  have t: "plot_inv png t"
    using plot_inv_from [OF plots_from_prune inv, of clock] plot_lookup_store [of clock ?k s] l by simp
  show ?thesis
  proof (cases found)
    case (PlotRender lastSample points)
    obtain r where r: "map_of (st_records t) ?k = Some r" "tk_points r = points"
      using plot_lookup_render [OF l [unfolded PlotRender]] .
    show ?thesis
      using run t l PlotRender r plot_save_inv [OF t r(1)]
      by (auto simp: Plot_def Let_def split: option.splits)
  qed (use run t l in \<open>auto simp: Plot_def Let_def\<close>)
qed

datatype plot_op = TrackOp track_op | PlotOp time string

fun plot_run :: "(canvas \<Rightarrow> string option) \<Rightarrow> plot_op list \<Rightarrow> track_store \<Rightarrow> track_store" where
  "plot_run png [] s = s"
| "plot_run png (TrackOp op # ops) s = plot_run png ops (track_run [op] s)"
| "plot_run png (PlotOp clock icao # ops) s =
     plot_run png ops (case Plot png clock icao s of None \<Rightarrow> s | Some (_, s') \<Rightarrow> s')"

lemma plots_from_op: "plots_from s (track_run [op] s)"
  using plots_from_Observe plots_from_prune
  by (cases op) (simp_all add: track_points_def track_Len_def Let_def split: option.split)

lemma plot_run_inv: "plot_inv png s \<Longrightarrow> plot_inv png (plot_run png ops s)"
proof (induction png ops s rule: plot_run.induct)
  case (2 png op ops s)
  then show ?case using plot_inv_from [OF plots_from_op] by simp
next
  case (3 png clock icao ops s)
  then show ?case using Plot_inv by (auto split: option.splits)
qed simp

lemma plot_inv_NewStore: "plot_inv png NewStore"
  by (simp add: plot_inv_def plotted_def NewStore_def)

text \<open>The answer without a cache: the history is read and drawn.\<close>

definition plot_fresh ::
    "(canvas \<Rightarrow> string option) \<Rightarrow> time \<Rightarrow> string \<Rightarrow> track_store \<Rightarrow> (track_error option + string \<times> track_summary) option" where
  "plot_fresh png clock icao s =
     (case fst (track_points clock icao s) of
        Inl e \<Rightarrow> Some (Inl (Some e))
      | Inr points \<Rightarrow>
          map_option (\<lambda>picture. case picture of None \<Rightarrow> Inl None | Some data \<Rightarrow> Inr (data, summarize (to_upper (trim_space icao)) points))
            (renderPlot png points))"

lemma Plot_fresh:
  assumes "plot_inv png s"
  shows "map_option fst (Plot png clock icao s) = plot_fresh png clock icao s"
proof -
  have t: "plot_inv png (pruneLocked clock s)" by (rule plot_inv_from [OF plots_from_prune assms])
  show ?thesis
  proof (cases "map_of (st_records (pruneLocked clock s)) (to_upper (trim_space icao))")
    case (Some r)
    have c: "tk_plot r \<noteq> [] \<Longrightarrow> renderPlot png (tk_points r) = Some (Some (tk_plot r))"
      using t Some unfolding plot_inv_def by blast
    show ?thesis
      using Some c
      by (auto simp: Plot_def plot_fresh_def plot_lookup_def track_points_def Let_def split: option.splits)
  qed (simp add: Plot_def plot_fresh_def plot_lookup_def track_points_def Let_def)
qed

text \<open>The cache of pictures is bounded and invisible. However observations, readings and
  requests for pictures follow one another, the store keeps at most 64 pictures, and a request
  always returns, with the same answer as reading the retained history at that moment and
  drawing it: a cached picture never shows a history that has changed.
\<close>

theorem plot_cache_transparent:
  "card {icao. \<exists>r. map_of (st_records (plot_run png ops NewStore)) icao = Some r \<and> tk_plot r \<noteq> []} \<le> 64 \<and>
   Plot png clock icao (plot_run png ops NewStore) \<noteq> None \<and>
   map_option fst (Plot png clock icao (plot_run png ops NewStore)) = plot_fresh png clock icao (plot_run png ops NewStore)"
proof -
  define s where "s = plot_run png ops NewStore"
  have inv: "plot_inv png s" unfolding s_def by (rule plot_run_inv [OF plot_inv_NewStore])
  have "card (plotted s) \<le> 64" using inv by (simp add: plot_inv_def defaultMaxPlots_def)
  moreover have "plot_fresh png clock icao s \<noteq> None"
    using renderPlot_returns [of png] unfolding plot_fresh_def by (auto split: sum.split)
  then have "Plot png clock icao s \<noteq> None" using Plot_fresh [OF inv, of clock icao] by auto
  ultimately show ?thesis
    using Plot_fresh [OF inv, of clock icao] unfolding plotted_def s_def [symmetric] by simp
qed

end
