(* ===== verification/Storage_Writer.thy ===== *)
theory Storage_Writer
  imports Domain Rule_Index "HOL-Library.Sublist"
begin

text \<open>
  \<open>internal/storage/storage.go\<close>, \<open>writer.go\<close> and \<open>ApplyBatch\<close>, \<open>DeleteWatchRule\<close> and
  \<open>ReportSummaryForScope\<close> of \<open>sqlite/store.go\<close>: the queue of persistence events, the
  coalescing of report rollups, the retries, and the transaction that stores a batch. The
  database is a record of the tables a batch touches, with their foreign keys; what the driver
  answers (a failure to begin, execute or commit, and the error of a violated key) is an
  argument. Times are compared as numbers: bucket times are whole hours, whose text form sorts
  like the times.
\<close>

section \<open>Data\<close>

record report_rollup =
  ro_GuildID :: u64
  ro_FeederScope :: feeder_id
  ro_BucketStart :: time
  ro_AircraftObservations :: int
  ro_Messages :: int
  ro_EmergencyObservations :: int
  ro_EmergencyEvents :: int
  ro_MaximumRange :: real
  ro_PeakTracked :: int

definition zero_rollup :: report_rollup where
  "zero_rollup = \<lparr> ro_GuildID = 0, ro_FeederScope = [], ro_BucketStart = time_zero, ro_AircraftObservations = 0, ro_Messages = 0,
     ro_EmergencyObservations = 0, ro_EmergencyEvents = 0, ro_MaximumRange = 0, ro_PeakTracked = 0 \<rparr>"

record feeder_event =
  fv_GuildID :: u64
  fv_FeederID :: feeder_id
  fv_Kind :: string
  fv_Status :: string
  fv_Detail :: string
  fv_Occurred :: time

record interesting_row =
  ir_GuildID :: u64
  ir_ICAO :: string
  ir_FirstSeenAt :: time
  ir_Callsign :: string
  ir_FlightGroup :: string

record route_catalog =
  rg_Source :: data_source
  rg_Callsign :: string
  rg_AirlineName :: string
  rg_AirlineICAO :: string
  rg_AirlineIATA :: string
  rg_OriginICAO :: string
  rg_OriginIATA :: string
  rg_OriginName :: string
  rg_OriginCountryISO :: string
  rg_DestinationICAO :: string
  rg_DestinationIATA :: string
  rg_DestinationName :: string
  rg_DestinationCountryISO :: string
  rg_Plausible :: bool
  rg_PlausibilityKnown :: bool
  rg_UpdatedAt :: time

record route_sighting =
  rsi_ICAO :: string
  rsi_Callsign :: string
  rsi_Route :: route_catalog

record route_batch =
  rsb_GuildID :: u64
  rsb_FeederID :: feeder_id
  rsb_BucketStart :: time
  rsb_Observations :: "route_sighting list"

type_synonym write_kind = u8

abbreviation (input) WriteAlertState :: write_kind where "WriteAlertState \<equiv> 0"
abbreviation (input) WriteFeederEvent :: write_kind where "WriteFeederEvent \<equiv> 1"
abbreviation (input) WriteReportRollup :: write_kind where "WriteReportRollup \<equiv> 2"
abbreviation (input) WriteInterestingSeen :: write_kind where "WriteInterestingSeen \<equiv> 3"
abbreviation (input) WriteRouteSightings :: write_kind where "WriteRouteSightings \<equiv> 4"

record write_event =
  we_Kind :: write_kind
  we_AlertState :: alert_state
  we_Feeder :: feeder_event
  we_Rollup :: report_rollup
  we_Interesting :: interesting_row
  we_RouteBatch :: route_batch

definition zero_event :: write_event where
  "zero_event = \<lparr> we_Kind = 0, we_AlertState = zero_alert_state,
     we_Feeder = \<lparr> fv_GuildID = 0, fv_FeederID = [], fv_Kind = [], fv_Status = [], fv_Detail = [], fv_Occurred = time_zero \<rparr>,
     we_Rollup = zero_rollup,
     we_Interesting = \<lparr> ir_GuildID = 0, ir_ICAO = [], ir_FirstSeenAt = time_zero, ir_Callsign = [], ir_FlightGroup = [] \<rparr>,
     we_RouteBatch = \<lparr> rsb_GuildID = 0, rsb_FeederID = [], rsb_BucketStart = time_zero, rsb_Observations = [] \<rparr> \<rparr>"

text \<open>An error, as far as the writer looks into it: \<open>errors.Is\<close> of the context errors, \<open>Temporary\<close>
  through \<open>errors.As\<close>, and its text.\<close>

record write_error =
  wx_canceled :: bool
  wx_temporary :: bool
  wx_message :: string

definition wrap_write_error :: "string \<Rightarrow> write_error \<Rightarrow> write_error" where
  "wrap_write_error operation e = e\<lparr> wx_message := operation @ '': '' @ wx_message e \<rparr>"

datatype apply_result = applySucceeded | applyRetryLater | applyPermanentFailure

datatype writer_error = ErrWriterFull | ErrWriterUnavailable

section \<open>The tables of a batch\<close>

type_synonym alert_key = "int \<times> feeder_id \<times> string \<times> string"
type_synonym rollup_key = "u64 \<times> feeder_id \<times> time"

record persist_db =
  db_guilds :: "u64 list"
  db_rules :: "(int \<times> u64) list"
  db_alert_state :: "(alert_key, alert_state) gomap"
  db_system_alert_state :: "(alert_key, alert_state) gomap"
  db_feeder_events :: "feeder_event list"
  db_rollups :: "(rollup_key, report_rollup) gomap"
  db_interesting :: "(u64 \<times> string, interesting_row) gomap"
  db_route_catalog :: "(string, route_catalog) gomap"
  db_route_sightings :: "(u64 \<times> feeder_id \<times> string \<times> time, string \<times> int) gomap"

text \<open>\<open>Truncate(time.Hour)\<close>.\<close>

definition truncate_hour :: "time \<Rightarrow> time" where
  "truncate_hour t = t - t mod hour"

definition alert_key_of :: "alert_state \<Rightarrow> alert_key" where
  "alert_key_of s = (as_RuleID s, as_FeederScope s, as_AircraftICAO s, as_ConditionFingerprint s)"

text \<open>The fields that a conflicting insert of a rollup adds up or maximises; the writer's coalescing does the same.\<close>

definition coalesce :: "report_rollup \<Rightarrow> report_rollup \<Rightarrow> report_rollup" where
  "coalesce current v = current\<lparr>
     ro_AircraftObservations := ro_AircraftObservations current + ro_AircraftObservations v,
     ro_Messages := ro_Messages current + ro_Messages v,
     ro_EmergencyObservations := ro_EmergencyObservations current + ro_EmergencyObservations v,
     ro_EmergencyEvents := ro_EmergencyEvents current + ro_EmergencyEvents v,
     ro_MaximumRange := max (ro_MaximumRange current) (ro_MaximumRange v),
     ro_PeakTracked := max (ro_PeakTracked current) (ro_PeakTracked v) \<rparr>"

definition store_alert_state :: "write_error \<Rightarrow> alert_state \<Rightarrow> persist_db \<Rightarrow> write_error + persist_db" where
  "store_alert_state constraint state0 db =
     (let state = (if as_FeederScope state0 = [] then state0\<lparr> as_FeederScope := FeederLocal \<rparr> else state0) in
      if as_RuleID state \<le> 0
      then Inr (db\<lparr> db_system_alert_state := AList.update (alert_key_of state) state (db_system_alert_state db) \<rparr>)
      else if as_RuleID state \<in> fst ` set (db_rules db)
      then Inr (db\<lparr> db_alert_state := AList.update (alert_key_of state) state (db_alert_state db) \<rparr>)
      else Inl constraint)"

definition store_feeder_event :: "write_error \<Rightarrow> feeder_event \<Rightarrow> persist_db \<Rightarrow> write_error + persist_db" where
  "store_feeder_event constraint value0 db =
     (let v = (if fv_FeederID value0 = [] then value0\<lparr> fv_FeederID := FeederLocal \<rparr> else value0) in
      if fv_GuildID v \<in> set (db_guilds db) then Inr (db\<lparr> db_feeder_events := db_feeder_events db @ [v] \<rparr>)
      else Inl constraint)"

definition store_rollup :: "write_error \<Rightarrow> report_rollup \<Rightarrow> persist_db \<Rightarrow> write_error + persist_db" where
  "store_rollup constraint value0 db =
     (let v = (if ro_FeederScope value0 = [] then value0\<lparr> ro_FeederScope := FeederAll \<rparr> else value0);
          key = (ro_GuildID v, ro_FeederScope v, ro_BucketStart v)
      in case map_of (db_rollups db) key of
           Some current \<Rightarrow> Inr (db\<lparr> db_rollups := AList.update key (coalesce current v) (db_rollups db) \<rparr>)
         | None \<Rightarrow>
             if ro_GuildID v \<in> set (db_guilds db) then Inr (db\<lparr> db_rollups := AList.update key v (db_rollups db) \<rparr>)
             else Inl constraint)"

definition store_interesting :: "write_error \<Rightarrow> time \<Rightarrow> interesting_row \<Rightarrow> persist_db \<Rightarrow> write_error + persist_db" where
  "store_interesting constraint now v db =
     (let seenAt = (if ir_FirstSeenAt v = time_zero then now else ir_FirstSeenAt v); key = (ir_GuildID v, ir_ICAO v) in
      if map_of (db_interesting db) key \<noteq> None then Inr db
      else if ir_GuildID v \<in> set (db_guilds db)
      then Inr (db\<lparr> db_interesting := AList.update key (v\<lparr> ir_FirstSeenAt := seenAt \<rparr>) (db_interesting db) \<rparr>)
      else Inl constraint)"

text \<open>\<open>recordRouteSightingsTx\<close>; the catalogue row is replaced, the sighting counted.\<close>

fun store_sightings :: "write_error \<Rightarrow> u64 \<Rightarrow> feeder_id \<Rightarrow> time \<Rightarrow> route_sighting list \<Rightarrow> persist_db \<Rightarrow> write_error + persist_db" where
  "store_sightings constraint guild feeder bucket [] db = Inr db"
| "store_sightings constraint guild feeder bucket (observation # rest) db =
     (let route = rsi_Route observation; key = (guild, feeder, rsi_ICAO observation, bucket) in
      if rg_Source route \<noteq> ''adsb-lol''
      then Inl \<lparr> wx_canceled = False, wx_temporary = False,
             wx_message = ''persist route source '' @ rg_Source route @ '': only adsb.lol is allowed'' \<rparr>
      else if guild \<notin> set (db_guilds db) then Inl (wrap_write_error ''upsert route sighting'' constraint)
      else store_sightings constraint guild feeder bucket rest
             (db\<lparr> db_route_catalog := AList.update (rg_Callsign route) route (db_route_catalog db),
                  db_route_sightings :=
                    AList.update key
                      (rsi_Callsign observation, case map_of (db_route_sightings db) key of None \<Rightarrow> 1 | Some (_, n) \<Rightarrow> n + 1)
                      (db_route_sightings db) \<rparr>))"

definition recordRouteSightingsTx :: "write_error \<Rightarrow> time \<Rightarrow> route_batch \<Rightarrow> persist_db \<Rightarrow> write_error + persist_db" where
  "recordRouteSightingsTx constraint now batch db =
     (let feederID = (if rsb_FeederID batch = [] then FeederAll else rsb_FeederID batch);
          bucket0 = truncate_hour (rsb_BucketStart batch);
          bucket = (if bucket0 = time_zero then truncate_hour now else bucket0)
      in store_sightings constraint (rsb_GuildID batch) feederID bucket (rsb_Observations batch) db)"

definition unsupported_kind :: "write_kind \<Rightarrow> write_error" where
  "unsupported_kind kind = \<lparr> wx_canceled = False, wx_temporary = False,
     wx_message = ''unsupported persistence event kind '' @ format_nat (unat kind) \<rparr>"

definition store_event :: "write_error \<Rightarrow> time \<Rightarrow> write_event \<Rightarrow> persist_db \<Rightarrow> write_error + persist_db" where
  "store_event constraint now event db =
     (if we_Kind event = WriteAlertState then store_alert_state constraint (we_AlertState event) db
      else if we_Kind event = WriteFeederEvent then store_feeder_event constraint (we_Feeder event) db
      else if we_Kind event = WriteReportRollup then store_rollup constraint (we_Rollup event) db
      else if we_Kind event = WriteInterestingSeen then store_interesting constraint now (we_Interesting event) db
      else if we_Kind event = WriteRouteSightings then recordRouteSightingsTx constraint now (we_RouteBatch event) db
      else Inl (unsupported_kind (we_Kind event)))"

text \<open>What the driver answers to one transaction: \<open>tx_exec i\<close> for the statement of event \<open>i\<close>.\<close>

record tx_env =
  tx_begin :: "write_error option"
  tx_exec :: "nat \<Rightarrow> write_error option"
  tx_commit :: "write_error option"
  tx_constraint :: write_error
  tx_now :: time

fun store_events :: "tx_env \<Rightarrow> nat \<Rightarrow> write_event list \<Rightarrow> persist_db \<Rightarrow> write_error + persist_db" where
  "store_events tx i [] db = Inr db"
| "store_events tx i (event # rest) db =
     (case tx_exec tx i of
        Some e \<Rightarrow> Inl (wrap_write_error ''apply persistence batch'' e)
      | None \<Rightarrow>
          (case store_event (tx_constraint tx) (tx_now tx) event db of
             Inl e \<Rightarrow> Inl (if we_Kind event = WriteRouteSightings then e else wrap_write_error ''apply persistence batch'' e)
           | Inr db' \<Rightarrow> store_events tx (i + 1) rest db'))"

definition ApplyBatch :: "tx_env \<Rightarrow> write_event list \<Rightarrow> persist_db \<Rightarrow> write_error option \<times> persist_db" where
  "ApplyBatch tx events db =
     (case tx_begin tx of
        Some e \<Rightarrow> (Some (wrap_write_error ''begin persistence batch'' e), db)
      | None \<Rightarrow>
          (case store_events tx 0 events db of
             Inl e \<Rightarrow> (Some e, db)
           | Inr db' \<Rightarrow>
               (case tx_commit tx of
                  Some e \<Rightarrow> (Some (wrap_write_error ''commit persistence batch'' e), db)
                | None \<Rightarrow> (None, db'))))"

text \<open>\<open>DeleteWatchRule\<close>: the rows of \<open>alert_state\<close> go with the rule (\<open>ON DELETE CASCADE\<close>). False: nothing changed.\<close>

definition DeleteWatchRule :: "int \<Rightarrow> u64 \<Rightarrow> persist_db \<Rightarrow> bool \<times> persist_db" where
  "DeleteWatchRule i guild db =
     (if (i, guild) \<in> set (db_rules db)
      then (True, db\<lparr> db_rules := filter (\<lambda>r. r \<noteq> (i, guild)) (db_rules db),
                      db_alert_state := gm_delete_if (\<lambda>(k, _). fst k = i) (db_alert_state db) \<rparr>)
      else (False, db))"

section \<open>The writer\<close>

record writer =
  sw_queue :: "write_event list"
  sw_capacity :: nat
  sw_batchMax :: nat
  sw_flush :: duration
  sw_rollupFlush :: duration
  sw_retryBudget :: duration
  sw_degraded :: bool
  sw_disabled :: bool
  sw_observed :: "write_error option list"
  sw_accepted :: u64
  sw_dropped :: u64
  sw_batches :: u64
  sw_written :: u64
  sw_failed :: u64
  sw_coalesced :: u64
  sw_lastSize :: nat
  sw_latency :: duration

text \<open>\<open>NewWriter\<close>; \<open>sw_observed\<close> is the list of calls of the observer so far.\<close>

definition NewWriter :: "nat \<Rightarrow> nat \<Rightarrow> duration \<Rightarrow> writer" where
  "NewWriter capacity batchMax flush =
     \<lparr> sw_queue = [], sw_capacity = capacity, sw_batchMax = batchMax, sw_flush = flush, sw_rollupFlush = 15 * second,
       sw_retryBudget = 2 * second, sw_degraded = False, sw_disabled = False, sw_observed = [], sw_accepted = 0, sw_dropped = 0,
       sw_batches = 0, sw_written = 0, sw_failed = 0, sw_coalesced = 0, sw_lastSize = 0, sw_latency = 0 \<rparr>"

definition writer_Enqueue :: "write_event \<Rightarrow> writer \<Rightarrow> writer_error option \<times> writer" where
  "writer_Enqueue event w =
     (if sw_disabled w then (Some ErrWriterUnavailable, w\<lparr> sw_dropped := sw_dropped w + 1 \<rparr>)
      else if length (sw_queue w) < sw_capacity w
      then (None, w\<lparr> sw_queue := sw_queue w @ [event], sw_accepted := sw_accepted w + 1 \<rparr>)
      else (Some ErrWriterFull, w\<lparr> sw_dropped := sw_dropped w + 1 \<rparr>))"

definition writer_Depth :: "writer \<Rightarrow> nat" where
  "writer_Depth w = length (sw_queue w)"

type_synonym writer_rollups = "(u64 \<times> feeder_id \<times> int, report_rollup) gomap"

definition addEvent :: "write_event \<Rightarrow> writer \<times> write_event list \<times> writer_rollups \<Rightarrow> writer \<times> write_event list \<times> writer_rollups" where
  "addEvent event s =
     (let (w, batch, rollups) = s in
      if we_Kind event \<noteq> WriteReportRollup then (w, batch @ [event], rollups)
      else
        let v = (we_Rollup event)\<lparr> ro_BucketStart := truncate_hour (ro_BucketStart (we_Rollup event)) \<rparr>;
            key = (ro_GuildID v, ro_FeederScope v, time_unix (ro_BucketStart v))
        in case map_of rollups key of
             Some current \<Rightarrow> (w\<lparr> sw_coalesced := sw_coalesced w + 1 \<rparr>, batch, AList.update key (coalesce current v) rollups)
           | None \<Rightarrow> (w, batch, AList.update key v rollups))"

definition rollupEvents :: "writer_rollups \<Rightarrow> write_event list" where
  "rollupEvents rollups = map (\<lambda>(_, v). zero_event\<lparr> we_Kind := WriteReportRollup, we_Rollup := v \<rparr>) rollups"

definition drainInto :: "writer \<times> write_event list \<times> writer_rollups \<Rightarrow> writer \<times> write_event list \<times> writer_rollups" where
  "drainInto s = (let (w, batch, rollups) = s in fold addEvent (sw_queue w) (w\<lparr> sw_queue := [] \<rparr>, batch, rollups))"

definition transientWriteError :: "write_error option \<Rightarrow> bool" where
  "transientWriteError err =
     (case err of
        None \<Rightarrow> False
      | Some e \<Rightarrow>
          if wx_canceled e then False
          else if wx_temporary e then True
          else
            let message = to_lower (wx_message e) in
            str_contains message ''database is locked'' \<or> str_contains message ''database locked'' \<or>
            str_contains message ''database is busy'' \<or> str_contains message ''database busy'' \<or>
            str_contains message ''sqlite_busy'' \<or> str_contains message ''sqlite_locked'')"

definition writer_notify :: "write_error option \<Rightarrow> writer \<Rightarrow> writer" where
  "writer_notify err w =
     (if sw_degraded w \<noteq> (err \<noteq> None)
      then w\<lparr> sw_degraded := (err \<noteq> None), sw_observed := sw_observed w @ [err] \<rparr> else w)"

text \<open>
  What happens around the attempts of \<open>applyUntil\<close>: the answer of the sink to attempt \<open>n\<close>, how
  long it took, the clock after it, and whether the context ended while waiting.
\<close>

record 'e apply_env =
  ax_sink :: "nat \<Rightarrow> 'e"
  ax_took :: "nat \<Rightarrow> duration"
  ax_start :: time
  ax_now :: "nat \<Rightarrow> time"
  ax_done :: "nat \<Rightarrow> bool"

definition writer_apply ::
    "('e \<Rightarrow> write_event list \<Rightarrow> 'db \<Rightarrow> write_error option \<times> 'db) \<Rightarrow> 'e apply_env \<Rightarrow> nat \<Rightarrow> write_event list \<Rightarrow> writer \<Rightarrow> 'db
      \<Rightarrow> write_error option \<times> writer \<times> 'db" where
  "writer_apply sink env n batch w db =
     (if batch = [] then (None, w, db)
      else
        let (err, db') = sink (ax_sink env n) batch db;
            w1 = w\<lparr> sw_batches := sw_batches w + 1, sw_lastSize := length batch, sw_latency := ax_took env n \<rparr>
        in case err of
             Some e \<Rightarrow> (Some e, w1\<lparr> sw_failed := sw_failed w1 + of_nat (length batch) \<rparr>, db')
           | None \<Rightarrow> (None, w1\<lparr> sw_written := sw_written w1 + of_nat (length batch) \<rparr>, db'))"

partial_function (option) apply_loop ::
    "('e \<Rightarrow> write_event list \<Rightarrow> 'db \<Rightarrow> write_error option \<times> 'db) \<Rightarrow> 'e apply_env \<Rightarrow> write_event list \<Rightarrow> time \<Rightarrow> nat \<Rightarrow> duration
      \<Rightarrow> writer \<Rightarrow> 'db \<Rightarrow> (apply_result \<times> writer \<times> 'db) option" where
  "apply_loop sink env batch deadline n delay w db =
     (case writer_apply sink env n batch w db of
        (None, w1, db1) \<Rightarrow> Some (applySucceeded, writer_notify None w1, db1)
      | (Some e, w1, db1) \<Rightarrow>
          if \<not> transientWriteError (Some e)
          then Some (applyPermanentFailure, (writer_notify (Some e) w1)\<lparr> sw_disabled := True \<rparr>, db1)
          else if ax_now env n + delay > deadline then Some (applyRetryLater, writer_notify (Some e) w1, db1)
          else if ax_done env n then Some (applyRetryLater, writer_notify (Some e) w1, db1)
          else apply_loop sink env batch deadline (n + 1) (min (delay * 2) second) (writer_notify (Some e) w1) db1)"

definition applyUntil ::
    "('e \<Rightarrow> write_event list \<Rightarrow> 'db \<Rightarrow> write_error option \<times> 'db) \<Rightarrow> 'e apply_env \<Rightarrow> write_event list \<Rightarrow> writer \<Rightarrow> 'db
      \<Rightarrow> (apply_result \<times> writer \<times> 'db) option" where
  "applyUntil sink env batch w db =
     (if batch = [] then Some (applySucceeded, w, db)
      else apply_loop sink env batch (ax_start env + sw_retryBudget w) 0 (50 * millisecond) w db)"

end
