(* ===== verification/Report.thy ===== *)
theory Report
  imports Storage_Writer
begin

text \<open>
  \<open>internal/report\<close> (the hourly aggregator, the live leaders, the route statistics),
  \<open>internal/storage/routestats.go\<close>, and the report queries of \<open>internal/storage/sqlite\<close>. The
  clock that replaces a missing time and the cached route of a callsign are arguments.
\<close>

section \<open>The aggregator (\<open>aggregate.go\<close>)\<close>

record message_state =
  mg_lastMessages :: u64
  mg_hasMessages :: bool
  mg_lastProvider :: provider_id
  mg_lastSample :: time

definition zero_message_state :: message_state where
  "zero_message_state = \<lparr> mg_lastMessages = 0, mg_hasMessages = False, mg_lastProvider = [], mg_lastSample = time_zero \<rparr>"

type_synonym aggregator = "(feeder_id, message_state) gomap"

definition NewAggregator :: aggregator where
  "NewAggregator = gm_empty"

definition ObserveSampled :: "time \<Rightarrow> u64 \<Rightarrow> snapshot \<Rightarrow> duration \<Rightarrow> aggregator \<Rightarrow> report_rollup option \<times> aggregator" where
  "ObserveSampled clock guildID snapshot minimumInterval states =
     (let now = (if sn_PublishedAt snapshot = time_zero then clock else sn_PublishedAt snapshot);
          scope = (if sn_FeederID snapshot = [] then FeederAll else sn_FeederID snapshot);
          state = (case map_of states scope of None \<Rightarrow> zero_message_state | Some m \<Rightarrow> m)
      in if minimumInterval > 0 \<and> mg_lastSample state \<noteq> time_zero \<and> time_sub now (mg_lastSample state) < minimumInterval then (None, states)
         else
           let messages =
                 (if sn_MessageCounterValid snapshot \<and> mg_hasMessages state \<and> sn_ActiveProvider snapshot = mg_lastProvider state \<and>
                     sn_ReceiverMessages snapshot \<ge> mg_lastMessages state
                  then sint (sn_ReceiverMessages snapshot - mg_lastMessages state) else 0);
               state1 =
                 (if sn_MessageCounterValid snapshot
                  then state\<lparr> mg_lastMessages := sn_ReceiverMessages snapshot, mg_lastProvider := sn_ActiveProvider snapshot, mg_hasMessages := True \<rparr>
                  else state\<lparr> mg_hasMessages := False \<rparr>)\<lparr> mg_lastSample := now \<rparr>;
               range = fold (\<lambda>a r. if ac_HasDistance a \<and> ac_DistanceNM a > r then ac_DistanceNM a else r) (sn_Aircraft snapshot) 0
           in (Some (zero_rollup\<lparr> ro_GuildID := guildID, ro_FeederScope := scope, ro_BucketStart := truncate_hour now,
                 ro_AircraftObservations := int (length (sn_Aircraft snapshot)), ro_PeakTracked := int (length (sn_ByICAO snapshot)),
                 ro_Messages := messages, ro_MaximumRange := range \<rparr>),
               AList.update scope state1 states))"

definition aggregator_Observe :: "time \<Rightarrow> u64 \<Rightarrow> snapshot \<Rightarrow> aggregator \<Rightarrow> report_rollup \<times> aggregator" where
  "aggregator_Observe clock guildID snapshot states =
     (let (rollup, states') = ObserveSampled clock guildID snapshot 0 states in
      (case rollup of None \<Rightarrow> zero_rollup | Some r \<Rightarrow> r, states'))"

definition EmergencyEventForScope :: "time \<Rightarrow> u64 \<Rightarrow> feeder_id \<Rightarrow> time \<Rightarrow> report_rollup" where
  "EmergencyEventForScope clock guildID scope observedAt =
     zero_rollup\<lparr> ro_GuildID := guildID, ro_FeederScope := (if scope = [] then FeederAll else scope),
       ro_BucketStart := truncate_hour (if observedAt = time_zero then clock else observedAt), ro_EmergencyEvents := 1 \<rparr>"

definition EmergencyEvent :: "time \<Rightarrow> u64 \<Rightarrow> time \<Rightarrow> report_rollup" where
  "EmergencyEvent clock guildID observedAt = EmergencyEventForScope clock guildID FeederAll observedAt"

section \<open>Live leaders (\<open>leaders.go\<close>)\<close>

definition LiveLeaderMaxAge :: duration where
  "LiveLeaderMaxAge = 15 * second"

record aircraft_leader =
  ld_Aircraft :: aircraft
  ld_Age :: duration
  ld_Found :: bool

definition zero_leader :: aircraft_leader where
  "zero_leader = \<lparr> ld_Aircraft = zero_aircraft, ld_Age = 0, ld_Found = False \<rparr>"

record live_leaders =
  ll_Fastest :: aircraft_leader
  ll_Slowest :: aircraft_leader
  ll_Highest :: aircraft_leader
  ll_Lowest :: aircraft_leader
  ll_Eligible :: nat

definition preferLeader :: "aircraft_leader \<Rightarrow> aircraft_leader \<Rightarrow> bool" where
  "preferLeader candidate current =
     (if ld_Age candidate \<noteq> ld_Age current then ld_Age candidate < ld_Age current
      else ac_ICAO (ld_Aircraft candidate) < ac_ICAO (ld_Aircraft current))"

text \<open>One of the four comparisons; \<open>ahead\<close> is the strict one.\<close>

definition take_leader :: "(aircraft \<Rightarrow> aircraft \<Rightarrow> bool) \<Rightarrow> (aircraft \<Rightarrow> aircraft \<Rightarrow> bool) \<Rightarrow> aircraft_leader \<Rightarrow> aircraft_leader \<Rightarrow> aircraft_leader" where
  "take_leader ahead level candidate current =
     (if \<not> ld_Found current \<or> ahead (ld_Aircraft candidate) (ld_Aircraft current) \<or>
         level (ld_Aircraft candidate) (ld_Aircraft current) \<and> preferLeader candidate current
      then candidate else current)"

definition leader_age :: "duration \<Rightarrow> aircraft \<Rightarrow> duration" where
  "leader_age publicationAge a = wrap_i64 (publicationAge + max (ac_Seen a) 0)"

definition select_leader :: "duration \<Rightarrow> aircraft \<Rightarrow> live_leaders \<Rightarrow> live_leaders" where
  "select_leader publicationAge a leaders =
     (let age = leader_age publicationAge a in
      if ac_OnGround a \<or> age > LiveLeaderMaxAge then leaders
      else
        let candidate = \<lparr> ld_Aircraft = a, ld_Age = age, ld_Found = True \<rparr>;
            fast = ac_HasGroundSpeed a \<and> ac_GroundSpeedKts a > 0;
            l1 = (if fast then leaders\<lparr>
                    ll_Fastest := take_leader (\<lambda>x y. ac_GroundSpeedKts x > ac_GroundSpeedKts y) (\<lambda>x y. ac_GroundSpeedKts x = ac_GroundSpeedKts y) candidate (ll_Fastest leaders),
                    ll_Slowest := take_leader (\<lambda>x y. ac_GroundSpeedKts x < ac_GroundSpeedKts y) (\<lambda>x y. ac_GroundSpeedKts x = ac_GroundSpeedKts y) candidate (ll_Slowest leaders) \<rparr>
                  else leaders);
            l2 = (if ac_HasAltitude a then l1\<lparr>
                    ll_Highest := take_leader (\<lambda>x y. ac_AltitudeFeet x > ac_AltitudeFeet y) (\<lambda>x y. ac_AltitudeFeet x = ac_AltitudeFeet y) candidate (ll_Highest l1),
                    ll_Lowest := take_leader (\<lambda>x y. ac_AltitudeFeet x < ac_AltitudeFeet y) (\<lambda>x y. ac_AltitudeFeet x = ac_AltitudeFeet y) candidate (ll_Lowest l1) \<rparr>
                  else l1)
        in if fast \<or> ac_HasAltitude a then l2\<lparr> ll_Eligible := ll_Eligible l2 + 1 \<rparr> else l2)"

definition SelectLiveLeaders :: "snapshot option \<Rightarrow> time \<Rightarrow> live_leaders" where
  "SelectLiveLeaders snapshot now =
     (let none = \<lparr> ll_Fastest = zero_leader, ll_Slowest = zero_leader, ll_Highest = zero_leader, ll_Lowest = zero_leader, ll_Eligible = 0 \<rparr> in
      case snapshot of
        None \<Rightarrow> none
      | Some s \<Rightarrow> fold (select_leader (max 0 (time_sub now (sn_PublishedAt s)))) (sn_Aircraft s) none)"

section \<open>Route statistics (\<open>routestats.go\<close>)\<close>

abbreviation (input) DataSourceADSBLOL :: data_source where "DataSourceADSBLOL \<equiv> ''adsb-lol''"

definition firstRouteCode :: "airport \<Rightarrow> string" where
  "firstRouteCode a = (let code = to_upper (trim_space (ap_IATA a)) in if code \<noteq> [] then code else to_upper (trim_space (ap_ICAO a)))"

definition RouteCatalogFromDomain :: "time \<Rightarrow> route \<Rightarrow> route_catalog option" where
  "RouteCatalogFromDomain clock r =
     (if rt_Source r \<noteq> DataSourceADSBLOL then None
      else if rt_Midpoint r \<noteq> None then None
      else if rt_PlausibilityKnown r \<and> \<not> rt_Plausible r then None
      else
        let originCode = firstRouteCode (rt_Origin r); destinationCode = firstRouteCode (rt_Destination r) in
        if originCode = [] \<or> destinationCode = [] \<or> originCode = destinationCode then None
        else
          let callsign = to_upper (trim_space (rt_Callsign r)) in
          if callsign = [] then None
          else Some \<lparr> rg_Source = rt_Source r, rg_Callsign = callsign, rg_AirlineName = trim_space (rt_AirlineName r),
            rg_AirlineICAO = to_upper (trim_space (rt_AirlineICAO r)), rg_AirlineIATA = to_upper (trim_space (rt_AirlineIATA r)),
            rg_OriginICAO = to_upper (trim_space (ap_ICAO (rt_Origin r))), rg_OriginIATA = to_upper (trim_space (ap_IATA (rt_Origin r))),
            rg_OriginName = trim_space (ap_Name (rt_Origin r)), rg_OriginCountryISO = to_upper (trim_space (ap_CountryCode (rt_Origin r))),
            rg_DestinationICAO = to_upper (trim_space (ap_ICAO (rt_Destination r))), rg_DestinationIATA = to_upper (trim_space (ap_IATA (rt_Destination r))),
            rg_DestinationName = trim_space (ap_Name (rt_Destination r)), rg_DestinationCountryISO = to_upper (trim_space (ap_CountryCode (rt_Destination r))),
            rg_Plausible = rt_Plausible r, rg_PlausibilityKnown = rt_PlausibilityKnown r,
            rg_UpdatedAt = (if rt_FetchedAt r = time_zero then clock else rt_FetchedAt r) \<rparr>)"

text \<open>\<open>CachedRoute\<close> of the route service, when there is one: \<open>None\<close> stands for an error or no route.\<close>

definition routeFor :: "time \<Rightarrow> (string \<Rightarrow> route option) option \<Rightarrow> string \<Rightarrow> route option" where
  "routeFor clock lookup callsign =
     (case lookup of
        None \<Rightarrow> None
      | Some cachedRoute \<Rightarrow>
          (case cachedRoute callsign of
             None \<Rightarrow> None
           | Some r \<Rightarrow> if RouteCatalogFromDomain clock r \<noteq> None then Some r else None))"

type_synonym sighting_key = "u64 \<times> feeder_id \<times> string \<times> int"
type_synonym route_collector = "(sighting_key, unit) gomap"

definition NewRouteStatsCollector :: route_collector where
  "NewRouteStatsCollector = gm_empty"

definition collector_pruneLocked :: "time \<Rightarrow> route_collector \<Rightarrow> route_collector" where
  "collector_pruneLocked bucket seen =
     (let cutoff = time_unix (bucket - 2 * hour) in gm_delete_if (\<lambda>((_, _, _, b), _). b < cutoff) seen)"

definition observe_route ::
    "time \<Rightarrow> u64 \<Rightarrow> feeder_id \<Rightarrow> time \<Rightarrow> (string \<Rightarrow> route option) option \<Rightarrow> aircraft \<Rightarrow> route_sighting list \<times> route_collector \<Rightarrow> route_sighting list \<times> route_collector" where
  "observe_route clock guildID feederID bucket routes a acc =
     (let (observations, seen) = acc;
          callsign = to_upper (trim_space (ac_Callsign a)); icao = to_upper (trim_space (ac_ICAO a));
          key = (guildID, feederID, icao, time_unix bucket)
      in if callsign = [] \<or> map_of seen key \<noteq> None then acc
         else
           (case routeFor clock routes callsign of
              None \<Rightarrow> acc
            | Some r \<Rightarrow>
                (case RouteCatalogFromDomain clock r of
                   None \<Rightarrow> acc
                 | Some catalog \<Rightarrow>
                     (observations @ [\<lparr> rsi_ICAO = icao, rsi_Callsign = callsign, rsi_Route = catalog \<rparr>], AList.update key () seen))))"

definition zero_route_batch :: route_batch where
  "zero_route_batch = \<lparr> rsb_GuildID = 0, rsb_FeederID = [], rsb_BucketStart = time_zero, rsb_Observations = [] \<rparr>"

definition collector_Observe ::
    "time \<Rightarrow> u64 \<Rightarrow> snapshot option \<Rightarrow> (string \<Rightarrow> route option) option \<Rightarrow> time \<Rightarrow> route_collector \<Rightarrow> route_batch \<times> route_collector" where
  "collector_Observe clock guildID snapshot routes now0 seen =
     (case snapshot of
        None \<Rightarrow> (zero_route_batch, seen)
      | Some s \<Rightarrow>
          if guildID = 0 then (zero_route_batch, seen)
          else
            let bucket = truncate_hour (if now0 = time_zero then clock else now0);
                feederID = (if sn_FeederID s = [] then FeederLocal else sn_FeederID s);
                (observations, seen') = fold (observe_route clock guildID feederID bucket routes) (sn_Aircraft s) ([], collector_pruneLocked bucket seen)
            in if observations = [] then (zero_route_batch, seen')
               else (\<lparr> rsb_GuildID = guildID, rsb_FeederID = feederID, rsb_BucketStart = bucket, rsb_Observations = observations \<rparr>, seen'))"

section \<open>Report queries\<close>

definition AddReportRollup :: "write_error option \<Rightarrow> write_error \<Rightarrow> report_rollup \<Rightarrow> persist_db \<Rightarrow> write_error option \<times> persist_db" where
  "AddReportRollup failure constraint rollup db =
     (case failure of
        Some e \<Rightarrow> (Some (wrap_write_error ''add report rollup'' e), db)
      | None \<Rightarrow>
          (case store_rollup constraint rollup db of
             Inl e \<Rightarrow> (Some (wrap_write_error ''add report rollup'' e), db)
           | Inr db' \<Rightarrow> (None, db')))"

record report_summary =
  su_From :: time
  su_To :: time
  su_AircraftObservations :: int
  su_Messages :: int
  su_EmergencyObservations :: int
  su_EmergencyEvents :: int
  su_MaximumRangeNM :: real
  su_PeakTracked :: int
  su_PeakHour :: time
  su_PeakAircraft :: int

definition summary_rows :: "u64 \<Rightarrow> feeder_id \<Rightarrow> time \<Rightarrow> time \<Rightarrow> persist_db \<Rightarrow> (rollup_key \<times> report_rollup) list" where
  "summary_rows guildID scope from until db = filter (\<lambda>((g, sc, bucket), _). g = guildID \<and> sc = scope \<and> from \<le> bucket \<and> bucket < until) (db_rollups db)"

definition max_or_zero :: "('a :: {linorder, zero}) list \<Rightarrow> 'a" where
  "max_or_zero xs = (case xs of [] \<Rightarrow> 0 | x # rest \<Rightarrow> fold max rest x)"

text \<open>\<open>ReportSummaryForScope\<close>, when the two queries succeed.\<close>

definition ReportSummaryForScope :: "u64 \<Rightarrow> feeder_id \<Rightarrow> time \<Rightarrow> time \<Rightarrow> persist_db \<Rightarrow> report_summary" where
  "ReportSummaryForScope guildID feederScope from0 to0 db =
     (let scope = (if feederScope = [] then FeederAll else feederScope);
          from = truncate_hour from0; until = truncate_hour to0;
          rows = summary_rows guildID scope from until db; values = map snd rows;
          peak = sort_key (\<lambda>(_, r). - ro_PeakTracked r) (sort_key (\<lambda>((_, _, bucket), _). bucket) rows)
      in \<lparr> su_From = from, su_To = until,
           su_AircraftObservations = sum_list (map ro_AircraftObservations values), su_Messages = sum_list (map ro_Messages values),
           su_EmergencyObservations = sum_list (map ro_EmergencyObservations values), su_EmergencyEvents = sum_list (map ro_EmergencyEvents values),
           su_MaximumRangeNM = max_or_zero (map ro_MaximumRange values), su_PeakTracked = max_or_zero (map ro_PeakTracked values),
           su_PeakHour = (case peak of [] \<Rightarrow> time_zero | ((_, _, bucket), _) # _ \<Rightarrow> bucket),
           su_PeakAircraft = (case peak of [] \<Rightarrow> 0 | (_, r) # _ \<Rightarrow> ro_PeakTracked r) \<rparr>)"

definition ReportSummary :: "u64 \<Rightarrow> time \<Rightarrow> time \<Rightarrow> persist_db \<Rightarrow> report_summary" where
  "ReportSummary guildID from until db = ReportSummaryForScope guildID FeederAll from until db"

end
