(* ===== verification/Storage_Run.thy ===== *)
theory Storage_Run
  imports Storage_Writer
begin

text \<open>
  \<open>Run\<close> of \<open>internal/storage/writer.go\<close>: the loop that collects events and flushes them, beside
  the goroutines that enqueue and the other users of the database. A call of \<open>applyUntil\<close> is
  one step: what \<open>Enqueue\<close> does meanwhile could as well have happened before it, as the two
  share only the flag that the call sets at its very end. \<open>rn_accepted\<close> records the events
  that \<open>Enqueue\<close> accepted, for the specification only.
\<close>

record 'db run_state =
  rn_w :: writer
  rn_batch :: "write_event list"
  rn_rollups :: writer_rollups
  rn_db :: 'db
  rn_stopped :: bool
  rn_accepted :: "write_event list"

definition run_start :: "writer \<Rightarrow> 'db \<Rightarrow> 'db run_state" where
  "run_start w db = \<lparr> rn_w = w, rn_batch = [], rn_rollups = [], rn_db = db, rn_stopped = False, rn_accepted = [] \<rparr>"

definition run_Enqueue :: "write_event \<Rightarrow> 'db run_state \<Rightarrow> 'db run_state" where
  "run_Enqueue event s =
     (case writer_Enqueue event (rn_w s) of
        (None, w) \<Rightarrow> s\<lparr> rn_w := w, rn_accepted := rn_accepted s @ [event] \<rparr>
      | (Some _, w) \<Rightarrow> s\<lparr> rn_w := w \<rparr>)"

definition flush_batch ::
    "('e \<Rightarrow> write_event list \<Rightarrow> 'db \<Rightarrow> write_error option \<times> 'db) \<Rightarrow> 'e apply_env \<Rightarrow> 'db run_state \<Rightarrow> 'db run_state option" where
  "flush_batch sink env s =
     map_option (\<lambda>(res, w, db). s\<lparr> rn_w := w, rn_db := db, rn_batch := (if res = applyRetryLater then rn_batch s else []) \<rparr>)
       (applyUntil sink env (rn_batch s) (rn_w s) (rn_db s))"

definition flush_rollups ::
    "('e \<Rightarrow> write_event list \<Rightarrow> 'db \<Rightarrow> write_error option \<times> 'db) \<Rightarrow> 'e apply_env \<Rightarrow> 'db run_state \<Rightarrow> 'db run_state option" where
  "flush_rollups sink env s =
     map_option (\<lambda>(res, w, db). s\<lparr> rn_w := w, rn_db := db, rn_rollups := (if res = applyRetryLater then rn_rollups s else []) \<rparr>)
       (applyUntil sink env (rollupEvents (rn_rollups s)) (rn_w s) (rn_db s))"

definition run_full :: "'db run_state \<Rightarrow> bool" where
  "run_full s \<longleftrightarrow> \<not> sw_disabled (rn_w s) \<and>
     (length (rn_batch s) \<ge> sw_batchMax (rn_w s) \<or> length (rn_rollups s) \<ge> sw_batchMax (rn_w s))"

definition flush_full ::
    "('e \<Rightarrow> write_event list \<Rightarrow> 'db \<Rightarrow> write_error option \<times> 'db) \<Rightarrow> 'e apply_env \<Rightarrow> 'db run_state \<Rightarrow> 'db run_state option" where
  "flush_full sink env s =
     (if length (rn_batch s) \<ge> sw_batchMax (rn_w s) then flush_batch sink env s else flush_rollups sink env s)"

definition run_receive :: "'db run_state \<Rightarrow> 'db run_state" where
  "run_receive s =
     (case sw_queue (rn_w s) of
        [] \<Rightarrow> s
      | event # rest \<Rightarrow>
          let w = (rn_w s)\<lparr> sw_queue := rest \<rparr> in
          if sw_disabled w then s\<lparr> rn_w := w\<lparr> sw_dropped := sw_dropped w + 1 \<rparr> \<rparr>
          else
            let (w', batch, rollups) = addEvent event (w, rn_batch s, rn_rollups s) in
            s\<lparr> rn_w := w', rn_batch := batch, rn_rollups := rollups \<rparr>)"

text \<open>The branch of \<open>ctx.Done()\<close>: drain the queue and flush twice with a context of its own.\<close>

definition run_stop ::
    "('e \<Rightarrow> write_event list \<Rightarrow> 'db \<Rightarrow> write_error option \<times> 'db) \<Rightarrow> 'e apply_env \<Rightarrow> 'e apply_env \<Rightarrow> 'db run_state \<Rightarrow> (apply_result \<times> apply_result \<times> 'db run_state) option" where
  "run_stop sink env1 env2 s =
     (let (w, batch, rollups) = drainInto (rn_w s, rn_batch s, rn_rollups s) in
      case applyUntil sink env1 batch w (rn_db s) of
        None \<Rightarrow> None
      | Some (res1, w1, db1) \<Rightarrow>
          (case applyUntil sink env2 (rollupEvents rollups) w1 db1 of
             None \<Rightarrow> None
           | Some (res2, w2, db2) \<Rightarrow>
               Some (res1, res2, s\<lparr> rn_w := w2, rn_db := db2, rn_batch := [], rn_rollups := [], rn_stopped := True \<rparr>)))"

inductive run_step ::
    "('e \<Rightarrow> write_event list \<Rightarrow> 'db \<Rightarrow> write_error option \<times> 'db) \<Rightarrow> ('db \<Rightarrow> 'db \<Rightarrow> bool) \<Rightarrow> 'db run_state \<Rightarrow> 'db run_state \<Rightarrow> bool"
  for sink other where
    enqueue: "run_step sink other s (run_Enqueue event s)"
  | database: "other (rn_db s) db \<Longrightarrow> run_step sink other s (s\<lparr> rn_db := db \<rparr>)"
  | full: "\<not> rn_stopped s \<Longrightarrow> run_full s \<Longrightarrow> flush_full sink env s = Some s' \<Longrightarrow> run_step sink other s s'"
  | receive: "\<not> rn_stopped s \<Longrightarrow> \<not> run_full s \<Longrightarrow> run_step sink other s (run_receive s)"
  | tick: "\<not> rn_stopped s \<Longrightarrow> \<not> run_full s \<Longrightarrow> flush_batch sink env s = Some s' \<Longrightarrow> run_step sink other s s'"
  | rollup_tick: "\<not> rn_stopped s \<Longrightarrow> \<not> run_full s \<Longrightarrow> flush_rollups sink env s = Some s' \<Longrightarrow> run_step sink other s s'"
  | stop: "\<not> rn_stopped s \<Longrightarrow> \<not> run_full s \<Longrightarrow> run_stop sink env1 env2 s = Some (res1, res2, s') \<Longrightarrow> run_step sink other s s'"

text \<open>The other writer of these tables that matters here: the deletion of a watch rule.\<close>

definition rule_deleted :: "persist_db \<Rightarrow> persist_db \<Rightarrow> bool" where
  "rule_deleted db db' \<longleftrightarrow> (\<exists>i guild. db' = snd (DeleteWatchRule i guild db))"

end
