(* ===== verification/Storage_Props.thy ===== *)
theory Storage_Props
  imports Storage_Run
begin

text \<open>
  What the persistence writer promises. The content of rollups is a commutative monoid (sums
  and maxima), and the locale \<open>batch_sink\<close> is the contract of \<open>BatchSink\<close> in its terms: a failed
  batch changes nothing, a stored one adds its content. From it: no accepted rollup is lost
  while the writer is not disabled, whatever is coalesced, retried and interleaved; feeder
  events keep their order; a stop whose flushes succeed stores everything; the retries of a
  flush end. It is interpreted for the SQLite store.
\<close>

section \<open>The content of rollups\<close>

datatype totals = NoTotals | Totals int int int int real int

instantiation totals :: comm_monoid_add
begin

definition zero_totals :: totals where
  "zero_totals = NoTotals"

fun plus_totals :: "totals \<Rightarrow> totals \<Rightarrow> totals" where
  "plus_totals NoTotals t = t"
| "plus_totals t NoTotals = t"
| "plus_totals (Totals a b c d r p) (Totals a' b' c' d' r' p') = Totals (a + a') (b + b') (c + c') (d + d') (max r r') (max p p')"

instance
proof
  fix a b c :: totals
  show "a + b + c = a + (b + c)" by (cases a; cases b; cases c) (simp_all add: max.assoc)
  show "a + b = b + a" by (cases a; cases b) (simp_all add: max.commute)
  show "0 + a = a" by (simp add: zero_totals_def)
qed

end

definition totals_of :: "report_rollup \<Rightarrow> totals" where
  "totals_of r = Totals (ro_AircraftObservations r) (ro_Messages r) (ro_EmergencyObservations r) (ro_EmergencyEvents r)
     (ro_MaximumRange r) (ro_PeakTracked r)"

lemma totals_coalesce: "totals_of (coalesce a b) = totals_of a + totals_of b"
  by (simp add: totals_of_def coalesce_def)

definition scope_of :: "report_rollup \<Rightarrow> feeder_id" where
  "scope_of r = (if ro_FeederScope r = [] then FeederAll else ro_FeederScope r)"

definition key_of :: "report_rollup \<Rightarrow> rollup_key" where
  "key_of r = (ro_GuildID r, scope_of r, truncate_hour (ro_BucketStart r))"

definition rollup_totals :: "(rollup_key \<Rightarrow> bool) \<Rightarrow> report_rollup \<Rightarrow> totals" where
  "rollup_totals P r = (if P (key_of r) then totals_of r else 0)"

definition event_totals :: "(rollup_key \<Rightarrow> bool) \<Rightarrow> write_event \<Rightarrow> totals" where
  "event_totals P e = (if we_Kind e = WriteReportRollup then rollup_totals P (we_Rollup e) else 0)"

definition batch_totals :: "(rollup_key \<Rightarrow> bool) \<Rightarrow> write_event list \<Rightarrow> totals" where
  "batch_totals P events = sum_list (map (event_totals P) events)"

lemma batch_totals_simps [simp]:
  "batch_totals P [] = 0"
  "batch_totals P (e # es) = event_totals P e + batch_totals P es"
  "batch_totals P (xs @ ys) = batch_totals P xs + batch_totals P ys"
  by (simp_all add: batch_totals_def)

text \<open>The feeder events of a list, as they are stored.\<close>

definition feeder_row :: "feeder_event \<Rightarrow> feeder_event" where
  "feeder_row v = (if fv_FeederID v = [] then v\<lparr> fv_FeederID := FeederLocal \<rparr> else v)"

definition feeder_rows :: "write_event list \<Rightarrow> feeder_event list" where
  "feeder_rows events = map (\<lambda>e. feeder_row (we_Feeder e)) (filter (\<lambda>e. we_Kind e = WriteFeederEvent) events)"

lemma feeder_rows_simps [simp]:
  "feeder_rows [] = []"
  "feeder_rows (e # es) = (if we_Kind e = WriteFeederEvent then [feeder_row (we_Feeder e)] else []) @ feeder_rows es"
  "feeder_rows (xs @ ys) = feeder_rows xs @ feeder_rows ys"
  by (simp_all add: feeder_rows_def)

section \<open>Hours\<close>

definition hour_aligned :: "write_event \<Rightarrow> bool" where
  "hour_aligned e \<longleftrightarrow> we_Kind e = WriteReportRollup \<longrightarrow> truncate_hour (ro_BucketStart (we_Rollup e)) = ro_BucketStart (we_Rollup e)"

lemma truncate_hour_idem [simp]: "truncate_hour (truncate_hour t) = truncate_hour t"
  by (simp add: truncate_hour_def mod_diff_eq [symmetric])

lemma truncate_hour_multiple: "truncate_hour t = hour * (t div hour)"
  by (simp add: truncate_hour_def minus_mod_eq_mult_div)

lemma time_unix_hour_inj:
  assumes "time_unix (truncate_hour s) = time_unix (truncate_hour t)"
  shows "truncate_hour s = truncate_hour t"
proof -
  have "(hour * q) div second = 3600 * q" for q :: int by simp
  then show ?thesis using assms unfolding truncate_hour_multiple time_unix_def by simp
qed

section \<open>Collecting events\<close>

definition rollups_ok :: "writer_rollups \<Rightarrow> bool" where
  "rollups_ok rollups \<longleftrightarrow> distinct (map fst rollups) \<and>
     (\<forall>(k, v)\<in>set rollups. k = (ro_GuildID v, ro_FeederScope v, time_unix (ro_BucketStart v)) \<and> truncate_hour (ro_BucketStart v) = ro_BucketStart v)"

definition pending_totals :: "(rollup_key \<Rightarrow> bool) \<Rightarrow> writer_rollups \<Rightarrow> totals" where
  "pending_totals P rollups = sum_list (map (\<lambda>(_, v). rollup_totals P v) rollups)"

lemma pending_rollupEvents: "batch_totals P (rollupEvents rollups) = pending_totals P rollups"
  by (induction rollups) (auto simp: pending_totals_def rollupEvents_def event_totals_def)

lemma rollupEvents_feeder [simp]: "feeder_rows (rollupEvents rollups) = []"
  by (induction rollups) (auto simp: rollupEvents_def)

lemma rollupEvents_aligned: "rollups_ok rollups \<Longrightarrow> list_all hour_aligned (rollupEvents rollups)"
  by (auto simp: rollups_ok_def rollupEvents_def list_all_iff hour_aligned_def)

lemma sum_list_update_new:
  "map_of m k = None \<Longrightarrow> sum_list (map h (AList.update k v m)) = sum_list (map h m) + (h (k, v) :: 'a :: comm_monoid_add)"
  by (induction m) (auto simp: add_ac split: if_splits)

lemma sum_list_update_old:
  "map_of m k = Some v \<Longrightarrow> h (k, v') = h (k, v) + (d :: 'a :: comm_monoid_add) \<Longrightarrow>
     sum_list (map h (AList.update k v' m)) = sum_list (map h m) + d"
  by (induction m) (auto simp: add_ac split: if_splits)

lemma alist_update_subset: "distinct (map fst m) \<Longrightarrow> set (AList.update k v m) \<subseteq> insert (k, v) (set m)"
  by (induction m) auto

lemma coalesce_key [simp]:
  "ro_GuildID (coalesce a b) = ro_GuildID a" "ro_FeederScope (coalesce a b) = ro_FeederScope a"
  "ro_BucketStart (coalesce a b) = ro_BucketStart a" "key_of (coalesce a b) = key_of a"
  by (simp_all add: coalesce_def key_of_def scope_of_def)

text \<open>Collecting an event touches the writer only at one counter.\<close>

definition counted :: "writer \<Rightarrow> writer \<Rightarrow> bool" where
  "counted w w' \<longleftrightarrow> (\<exists>n. w' = w\<lparr> sw_coalesced := n \<rparr>)"

lemma counted_refl [simp]: "counted w w"
  unfolding counted_def by (intro exI [of _ "sw_coalesced w"]) simp

lemma counted_step [simp]: "counted w (w\<lparr> sw_coalesced := n \<rparr>)"
  unfolding counted_def by blast

lemma counted_trans: "counted w w' \<Longrightarrow> counted w' w'' \<Longrightarrow> counted w w''"
  unfolding counted_def by auto

lemma counted_frame:
  assumes "counted w w'"
  shows "sw_queue w' = sw_queue w" "sw_disabled w' = sw_disabled w" "sw_batchMax w' = sw_batchMax w"
  using assms unfolding counted_def by auto

lemma addEvent_rollup:
  assumes ok: "rollups_ok rollups" and kind: "we_Kind event = WriteReportRollup"
    and add: "addEvent event (w, batch, rollups) = (w', batch', rollups')"
  shows "rollups_ok rollups'" "batch' = batch" "pending_totals P rollups' = pending_totals P rollups + event_totals P event"
    "counted w w'"
proof -
  define v where "v = (we_Rollup event)\<lparr> ro_BucketStart := truncate_hour (ro_BucketStart (we_Rollup event)) \<rparr>"
  define key where "key = (ro_GuildID v, ro_FeederScope v, time_unix (ro_BucketStart v))"
  define entry where "entry = (case map_of rollups key of None \<Rightarrow> v | Some current \<Rightarrow> coalesce current v)"
  have e: "counted w w'" "batch' = batch" "rollups' = AList.update key entry rollups"
    using add kind unfolding addEvent_def v_def [symmetric] key_def [symmetric] entry_def
    by (auto simp: Let_def v_def [symmetric] key_def [symmetric] split: option.splits)
  have dist: "distinct (map fst rollups)" using ok by (simp add: rollups_ok_def)
  have al: "truncate_hour (ro_BucketStart v) = ro_BucketStart v" by (simp add: v_def)
  have v: "event_totals P event = rollup_totals P v"
    using kind by (simp add: event_totals_def rollup_totals_def key_of_def scope_of_def v_def totals_of_def)
  have old: "key = (ro_GuildID c, ro_FeederScope c, time_unix (ro_BucketStart c))" "truncate_hour (ro_BucketStart c) = ro_BucketStart c"
    if "map_of rollups key = Some c" for c
    using ok map_of_SomeD [OF that] unfolding rollups_ok_def by auto
  have same: "key_of c = key_of v" if c: "map_of rollups key = Some c" for c
    using old [OF c] al time_unix_hour_inj [of "ro_BucketStart c" "ro_BucketStart v"]
    unfolding key_def key_of_def scope_of_def by simp
  have entryk: "key = (ro_GuildID entry, ro_FeederScope entry, time_unix (ro_BucketStart entry)) \<and> truncate_hour (ro_BucketStart entry) = ro_BucketStart entry"
  proof (cases "map_of rollups key")
    case None
    then have "entry = v" by (simp add: entry_def)
    then show ?thesis using al key_def by simp
  next
    case (Some c)
    then have "entry = coalesce c v" by (simp add: entry_def)
    then show ?thesis using old [OF Some] by simp
  qed
  show "rollups_ok rollups'"
    using ok entryk alist_update_subset [OF dist, of key entry] unfolding e rollups_ok_def by (auto simp: distinct_update)
  show "batch' = batch" "counted w w'" by (fact e)+
  show "pending_totals P rollups' = pending_totals P rollups + event_totals P event"
  proof (cases "map_of rollups key")
    case None
    then show ?thesis unfolding e pending_totals_def v entry_def by (simp add: sum_list_update_new)
  next
    case (Some c)
    have "rollup_totals P (coalesce c v) = rollup_totals P c + rollup_totals P v"
      using same [OF Some] by (simp add: rollup_totals_def totals_coalesce)
    then show ?thesis
      unfolding e pending_totals_def v entry_def Some option.case by (intro sum_list_update_old [OF Some]) simp
  qed
qed

lemma addEvent_other:
  assumes "we_Kind event \<noteq> WriteReportRollup"
  shows "addEvent event (w, batch, rollups) = (w, batch @ [event], rollups)"
  using assms by (simp add: addEvent_def)

definition batch_only :: "write_event list \<Rightarrow> bool" where
  "batch_only batch \<longleftrightarrow> list_all (\<lambda>e. we_Kind e \<noteq> WriteReportRollup) batch"

lemma batch_only_totals: "batch_only batch \<Longrightarrow> batch_totals P batch = 0"
  by (induction batch) (auto simp: batch_only_def event_totals_def)

lemma batch_only_aligned: "batch_only batch \<Longrightarrow> list_all hour_aligned batch"
  by (auto simp: batch_only_def list_all_iff hour_aligned_def)

text \<open>What is collected: the content and the feeder events of a batch and the rollups beside it.\<close>

definition held_totals :: "(rollup_key \<Rightarrow> bool) \<Rightarrow> write_event list \<times> writer_rollups \<Rightarrow> totals" where
  "held_totals P s = batch_totals P (fst s) + pending_totals P (snd s)"

definition held_ok :: "write_event list \<times> writer_rollups \<Rightarrow> bool" where
  "held_ok s \<longleftrightarrow> batch_only (fst s) \<and> rollups_ok (snd s)"

lemma addEvent_held:
  assumes ok: "held_ok s" and add: "addEvent event (w, s) = (w', s')"
  shows "held_ok s'" "held_totals P s' = held_totals P s + event_totals P event"
    "feeder_rows (fst s') = feeder_rows (fst s) @ feeder_rows [event]"
    "counted w w'"
proof -
  obtain batch rollups batch' rollups' where s: "s = (batch, rollups)" "s' = (batch', rollups')" by (cases s, cases s') blast
  have "held_ok s' \<and> held_totals P s' = held_totals P s + event_totals P event
      \<and> feeder_rows (fst s') = feeder_rows (fst s) @ feeder_rows [event] \<and> counted w w'"
  proof (cases "we_Kind event = WriteReportRollup")
    case True
    have r: "rollups_ok rollups" using ok by (simp add: held_ok_def s)
    note a = addEvent_rollup [OF r True add [unfolded s]]
    show ?thesis using ok a True by (simp add: s held_ok_def held_totals_def add_ac)
  next
    case False
    then have e: "w' = w" "batch' = batch @ [event]" "rollups' = rollups"
      using add addEvent_other [OF False, of w batch rollups] by (simp_all add: s)
    then show ?thesis using ok False by (simp add: s held_ok_def held_totals_def batch_only_def event_totals_def)
  qed
  then show "held_ok s'" "held_totals P s' = held_totals P s + event_totals P event"
    "feeder_rows (fst s') = feeder_rows (fst s) @ feeder_rows [event]" "counted w w'" by blast+
qed

lemma drain_held:
  assumes "held_ok s" "fold addEvent events (w, s) = (w', s')"
  shows "held_ok s' \<and> held_totals P s' = held_totals P s + batch_totals P events
    \<and> feeder_rows (fst s') = feeder_rows (fst s) @ feeder_rows events \<and> counted w w'"
  using assms
proof (induction events arbitrary: w s)
  case (Cons event events)
  obtain w1 s1 where add: "addEvent event (w, s) = (w1, s1)" by (cases "addEvent event (w, s)")
  note a = addEvent_held [OF Cons.prems(1) add]
  have "fold addEvent events (w1, s1) = (w', s')" using Cons.prems(2) add by simp
  note IH = Cons.IH [OF a(1) this]
  have "counted w w'" using IH a(4) counted_trans by blast
  then show ?case using IH a(2,3) by (simp add: add_ac)
qed simp

section \<open>The retries\<close>

text \<open>How a run of \<open>applyUntil\<close> ends: some attempt decides, and what it decides.\<close>

definition decides :: "write_error option \<Rightarrow> writer \<Rightarrow> apply_result \<Rightarrow> writer \<Rightarrow> bool" where
  "decides err w1 res w' \<longleftrightarrow>
     (case err of
        None \<Rightarrow> res = applySucceeded \<and> w' = writer_notify None w1
      | Some e \<Rightarrow>
          res = applyPermanentFailure \<and> \<not> transientWriteError (Some e) \<and> w' = (writer_notify (Some e) w1)\<lparr> sw_disabled := True \<rparr> \<or>
          res = applyRetryLater \<and> transientWriteError (Some e) \<and> w' = writer_notify (Some e) w1)"

definition kept_by_retries :: "('e \<Rightarrow> write_event list \<Rightarrow> 'db \<Rightarrow> write_error option \<times> 'db) \<Rightarrow> 'e apply_env \<Rightarrow> write_event list \<Rightarrow> (writer \<Rightarrow> 'db \<Rightarrow> bool) \<Rightarrow> bool" where
  "kept_by_retries sink env batch I \<longleftrightarrow>
     (\<forall>n w db e w1 db1. I w db \<longrightarrow> writer_apply sink env n batch w db = (Some e, w1, db1) \<longrightarrow> I (writer_notify (Some e) w1) db1)"

lemma apply_loop_rule:
  assumes "apply_loop sink env batch deadline n delay w db = Some y"
  shows "\<forall>I. I w db \<longrightarrow> kept_by_retries sink env batch I \<longrightarrow>
    (\<exists>m w0 db0 err w1. I w0 db0 \<and> writer_apply sink env m batch w0 db0 = (err, w1, snd (snd y)) \<and> decides err w1 (fst y) (fst (snd y)))"
  using assms
proof (rule apply_loop.raw_induct [rotated])
  fix rec sink env batch deadline n delay w db y
  assume IH: "\<And>sink env batch deadline n delay w db y. rec sink env batch deadline n delay w db = Some y \<Longrightarrow>
      \<forall>I. I w db \<longrightarrow> kept_by_retries sink env batch I \<longrightarrow>
        (\<exists>m w0 db0 err w1. I w0 db0 \<and> writer_apply sink env m batch w0 db0 = (err, w1, snd (snd y)) \<and> decides err w1 (fst y) (fst (snd y)))"
    and run: "(case writer_apply sink env n batch w db of
        (None, w1, db1) \<Rightarrow> Some (applySucceeded, writer_notify None w1, db1)
      | (Some e, w1, db1) \<Rightarrow>
          if \<not> transientWriteError (Some e)
          then Some (applyPermanentFailure, (writer_notify (Some e) w1)\<lparr> sw_disabled := True \<rparr>, db1)
          else if ax_now env n + delay > deadline then Some (applyRetryLater, writer_notify (Some e) w1, db1)
          else if ax_done env n then Some (applyRetryLater, writer_notify (Some e) w1, db1)
          else rec sink env batch deadline (n + 1) (min (delay * 2) second) (writer_notify (Some e) w1) db1) = Some y"
  obtain err w1 db1 where a: "writer_apply sink env n batch w db = (err, w1, db1)" by (cases "writer_apply sink env n batch w db") blast
  show "\<forall>I. I w db \<longrightarrow> kept_by_retries sink env batch I \<longrightarrow>
        (\<exists>m w0 db0 err w1. I w0 db0 \<and> writer_apply sink env m batch w0 db0 = (err, w1, snd (snd y)) \<and> decides err w1 (fst y) (fst (snd y)))"
  proof (intro allI impI)
    fix I
    assume I: "I w db" and kept: "kept_by_retries sink env batch I"
    show "\<exists>m w0 db0 err w1. I w0 db0 \<and> writer_apply sink env m batch w0 db0 = (err, w1, snd (snd y)) \<and> decides err w1 (fst y) (fst (snd y))"
    proof (cases "\<exists>e. err = Some e \<and> transientWriteError (Some e) \<and> \<not> ax_now env n + delay > deadline \<and> \<not> ax_done env n")
      case True
      then obtain e where e: "err = Some e" "transientWriteError (Some e)" "\<not> ax_now env n + delay > deadline" "\<not> ax_done env n" by blast
      have "rec sink env batch deadline (n + 1) (min (delay * 2) second) (writer_notify (Some e) w1) db1 = Some y"
        using run a e by simp
      note IH [OF this]
      moreover have "I (writer_notify (Some e) w1) db1"
        using kept I a e(1) unfolding kept_by_retries_def by blast
      ultimately show ?thesis using kept by blast
    next
      case False
      then have "snd (snd y) = db1 \<and> decides err w1 (fst y) (fst (snd y))"
        using run a by (cases err) (auto simp: decides_def split: if_splits)
      then show ?thesis using I a by blast
    qed
  qed
qed

text \<open>Nothing is lost: what is stored, collected and queued is what was there plus what was accepted.\<close>

definition accounted :: "('db \<Rightarrow> (rollup_key \<Rightarrow> bool) \<Rightarrow> totals) \<Rightarrow> ('db \<Rightarrow> feeder_event list) \<Rightarrow> 'db \<Rightarrow> 'db run_state \<Rightarrow> bool" where
  "accounted st rows db0 s \<longleftrightarrow>
     held_ok (rn_batch s, rn_rollups s) \<and>
     (\<forall>P. st (rn_db s) P + held_totals P (rn_batch s, rn_rollups s) + batch_totals P (sw_queue (rn_w s)) = st db0 P + batch_totals P (rn_accepted s)) \<and>
     rows (rn_db s) @ feeder_rows (rn_batch s) @ feeder_rows (sw_queue (rn_w s)) = rows db0 @ feeder_rows (rn_accepted s)"

definition conserved :: "('db \<Rightarrow> (rollup_key \<Rightarrow> bool) \<Rightarrow> totals) \<Rightarrow> ('db \<Rightarrow> feeder_event list) \<Rightarrow> 'db \<Rightarrow> 'db run_state \<Rightarrow> bool" where
  "conserved st rows db0 s \<longleftrightarrow> rn_stopped s \<or> sw_disabled (rn_w s) \<or> accounted st rows db0 s"

lemma accounted_Enqueue:
  "accounted st rows db0 s \<Longrightarrow> accounted st rows db0 (run_Enqueue event s)"
  by (auto simp: accounted_def run_Enqueue_def writer_Enqueue_def add_ac)

lemma Enqueue_flags [simp]:
  "rn_stopped (run_Enqueue event s) = rn_stopped s" "sw_disabled (rn_w (run_Enqueue event s)) = sw_disabled (rn_w s)"
  by (auto simp: run_Enqueue_def writer_Enqueue_def)

lemma accounted_receive:
  assumes "accounted st rows db0 s" "\<not> sw_disabled (rn_w s)"
  shows "accounted st rows db0 (run_receive s)"
proof (cases "sw_queue (rn_w s)")
  case (Cons event rest)
  define w where "w = (rn_w s)\<lparr> sw_queue := rest \<rparr>"
  obtain w' batch rollups where add: "addEvent event (w, rn_batch s, rn_rollups s) = (w', batch, rollups)"
    by (cases "addEvent event (w, rn_batch s, rn_rollups s)") blast
  have ok: "held_ok (rn_batch s, rn_rollups s)" using assms(1) by (simp add: accounted_def)
  note a = addEvent_held [OF ok add] and c = counted_frame [OF addEvent_held(4) [OF ok add]]
  have r: "run_receive s = s\<lparr> rn_w := w', rn_batch := batch, rn_rollups := rollups \<rparr>"
    using Cons assms(2) add by (simp add: run_receive_def Let_def w_def)
  have q: "sw_queue w' = rest" using c by (simp add: w_def)
  show ?thesis
    unfolding accounted_def r using assms(1) a q Cons unfolding accounted_def by (simp add: add_ac)
qed (use assms in \<open>simp add: run_receive_def\<close>)

lemma receive_flags [simp]:
  "rn_stopped (run_receive s) = rn_stopped s"
  "sw_disabled (rn_w (run_receive s)) = sw_disabled (rn_w s)"
  by (auto simp: run_receive_def addEvent_def Let_def split: list.splits option.splits if_splits)

section \<open>The contract of the sink\<close>

locale batch_sink =
  fixes sink :: "'e \<Rightarrow> write_event list \<Rightarrow> 'db \<Rightarrow> write_error option \<times> 'db"
    and other :: "'db \<Rightarrow> 'db \<Rightarrow> bool"
    and stored_totals :: "'db \<Rightarrow> (rollup_key \<Rightarrow> bool) \<Rightarrow> totals"
    and stored_rows :: "'db \<Rightarrow> feeder_event list"
  assumes sink_failed: "sink e events db = (Some err, db') \<Longrightarrow> db' = db"
    and sink_totals: "sink e events db = (None, db') \<Longrightarrow> list_all hour_aligned events \<Longrightarrow>
      stored_totals db' P = stored_totals db P + batch_totals P events"
    and sink_rows: "sink e events db = (None, db') \<Longrightarrow> stored_rows db' = stored_rows db @ feeder_rows events"
    and other_totals: "other db db' \<Longrightarrow> stored_totals db' P = stored_totals db P"
    and other_rows: "other db db' \<Longrightarrow> stored_rows db' = stored_rows db"
begin

lemma apply_stored:
  assumes "writer_apply sink env n batch w db = (err, w', db')" "list_all hour_aligned batch"
  shows "err \<noteq> None \<Longrightarrow> db' = db"
    "err = None \<Longrightarrow> stored_totals db' P = stored_totals db P + batch_totals P batch \<and> stored_rows db' = stored_rows db @ feeder_rows batch"
    "sw_queue w' = sw_queue w" "sw_disabled w' = sw_disabled w"
proof -
  obtain serr sdb where s: "sink (ax_sink env n) batch db = (serr, sdb)" by (cases "sink (ax_sink env n) batch db")
  note f = sink_failed [of "ax_sink env n" batch db _ sdb] and t = sink_totals [of "ax_sink env n" batch db sdb]
    and r = sink_rows [of "ax_sink env n" batch db sdb]
  show "err \<noteq> None \<Longrightarrow> db' = db"
    "err = None \<Longrightarrow> stored_totals db' P = stored_totals db P + batch_totals P batch \<and> stored_rows db' = stored_rows db @ feeder_rows batch"
    "sw_queue w' = sw_queue w" "sw_disabled w' = sw_disabled w"
    using assms s f t r by (auto simp: writer_apply_def Let_def split: if_splits option.splits)
qed

lemma apply_loop_stored:
  assumes run: "apply_loop sink env batch deadline n delay w db = Some (res, w', db')" and al: "list_all hour_aligned batch"
  shows "res \<noteq> applySucceeded \<Longrightarrow> db' = db"
    "res = applySucceeded \<Longrightarrow> stored_totals db' P = stored_totals db P + batch_totals P batch \<and> stored_rows db' = stored_rows db @ feeder_rows batch"
    "sw_queue w' = sw_queue w" "sw_disabled w' \<longleftrightarrow> sw_disabled w \<or> res = applyPermanentFailure"
proof -
  define I where "I = (\<lambda>(v :: writer) d. d = db \<and> sw_queue v = sw_queue w \<and> sw_disabled v = sw_disabled w)"
  have notify: "sw_queue (writer_notify err v) = sw_queue v" "sw_disabled (writer_notify err v) = sw_disabled v" for err v
    by (simp_all add: writer_notify_def)
  have kept: "kept_by_retries sink env batch I"
    using apply_stored [OF _ al] unfolding kept_by_retries_def I_def by (auto simp: notify)
  have "I w db" by (simp add: I_def)
  then obtain m w0 db0 err w1 where d: "I w0 db0" "writer_apply sink env m batch w0 db0 = (err, w1, db')" "decides err w1 res w'"
    using apply_loop_rule [OF run] kept by auto
  note a = apply_stored [OF d(2) al]
  show "res \<noteq> applySucceeded \<Longrightarrow> db' = db"
    "res = applySucceeded \<Longrightarrow> stored_totals db' P = stored_totals db P + batch_totals P batch \<and> stored_rows db' = stored_rows db @ feeder_rows batch"
    "sw_queue w' = sw_queue w" "sw_disabled w' \<longleftrightarrow> sw_disabled w \<or> res = applyPermanentFailure"
    using d(1,3) a unfolding I_def decides_def by (auto simp: notify split: option.splits)
qed

lemma applyUntil_stored:
  assumes run: "applyUntil sink env batch w db = Some (res, w', db')" and al: "list_all hour_aligned batch"
  shows "res \<noteq> applySucceeded \<Longrightarrow> db' = db"
    "res = applySucceeded \<Longrightarrow> stored_totals db' P = stored_totals db P + batch_totals P batch \<and> stored_rows db' = stored_rows db @ feeder_rows batch"
    "sw_queue w' = sw_queue w" "sw_disabled w' \<longleftrightarrow> sw_disabled w \<or> res = applyPermanentFailure"
  using run apply_loop_stored [OF _ al] unfolding applyUntil_def by (auto split: if_splits)

lemma flush_batch_accounted:
  assumes run: "flush_batch sink env s = Some s'" and acc: "accounted stored_totals stored_rows db0 s"
    and live: "\<not> sw_disabled (rn_w s')"
  shows "accounted stored_totals stored_rows db0 s'"
proof -
  obtain res w db where a: "applyUntil sink env (rn_batch s) (rn_w s) (rn_db s) = Some (res, w, db)"
      and s': "s' = s\<lparr> rn_w := w, rn_db := db, rn_batch := (if res = applyRetryLater then rn_batch s else []) \<rparr>"
    using run by (auto simp: flush_batch_def)
  have b: "batch_only (rn_batch s)" using acc by (simp add: accounted_def held_ok_def)
  note u = applyUntil_stored [OF a batch_only_aligned [OF b]]
  have res: "res \<noteq> applyPermanentFailure" using live u(4) by (simp add: s')
  have z: "batch_totals P (rn_batch s) = 0" for P by (rule batch_only_totals [OF b])
  show ?thesis
  proof (cases "res = applySucceeded")
    case True
    then show ?thesis using acc u(2,3) z unfolding accounted_def s' held_ok_def held_totals_def by (simp add: batch_only_def)
  next
    case False
    then have "res = applyRetryLater" using res by (cases res) auto
    then show ?thesis using acc u(1,3) False unfolding accounted_def s' by simp
  qed
qed

lemma flush_rollups_accounted:
  assumes run: "flush_rollups sink env s = Some s'" and acc: "accounted stored_totals stored_rows db0 s"
    and live: "\<not> sw_disabled (rn_w s')"
  shows "accounted stored_totals stored_rows db0 s'"
proof -
  obtain res w db where a: "applyUntil sink env (rollupEvents (rn_rollups s)) (rn_w s) (rn_db s) = Some (res, w, db)"
      and s': "s' = s\<lparr> rn_w := w, rn_db := db, rn_rollups := (if res = applyRetryLater then rn_rollups s else []) \<rparr>"
    using run by (auto simp: flush_rollups_def)
  have b: "rollups_ok (rn_rollups s)" using acc by (simp add: accounted_def held_ok_def)
  note u = applyUntil_stored [OF a rollupEvents_aligned [OF b]]
  have res: "res \<noteq> applyPermanentFailure" using live u(4) by (simp add: s')
  show ?thesis
  proof (cases "res = applySucceeded")
    case True
    have "pending_totals P [] = 0" for P by (simp add: pending_totals_def)
    then show ?thesis
      using acc u(2,3) True unfolding accounted_def s' held_ok_def held_totals_def
      by (simp add: rollups_ok_def pending_rollupEvents add_ac)
  next
    case False
    then have "res = applyRetryLater" using res by (cases res) auto
    then show ?thesis using acc u(1,3) False unfolding accounted_def s' by simp
  qed
qed

lemma applyUntil_disabled:
  assumes "applyUntil sink env batch w db = Some (res, w', db')" "sw_disabled w"
  shows "sw_disabled w'"
proof (cases "batch = []")
  case False
  define I where "I = (\<lambda>(v :: writer) (d :: 'db). sw_disabled v)"
  have n: "sw_disabled (writer_notify err v) = sw_disabled v" for err v by (simp add: writer_notify_def)
  have a: "sw_disabled v' = sw_disabled v" if "writer_apply sink env m batch v d = (err, v', d')" for m v d err v' d'
    using that by (auto simp: writer_apply_def Let_def split: if_splits prod.splits option.splits)
  have kept: "kept_by_retries sink env batch I" unfolding kept_by_retries_def I_def using a n by auto
  have run: "apply_loop sink env batch (ax_start env + sw_retryBudget w) 0 (50 * millisecond) w db = Some (res, w', db')"
    using assms(1) False by (simp add: applyUntil_def)
  obtain m w0 db0 err w1 where d: "I w0 db0" "writer_apply sink env m batch w0 db0 = (err, w1, db')" "decides err w1 res w'"
    using apply_loop_rule [OF run] kept assms(2) unfolding I_def by auto
  then show ?thesis using a [OF d(2)] n unfolding I_def decides_def by (auto split: option.splits)
qed (use assms in \<open>simp add: applyUntil_def\<close>)

lemma step_conserved:
  assumes step: "run_step sink other s s'" and inv: "conserved stored_totals stored_rows db0 s"
  shows "conserved stored_totals stored_rows db0 s'"
  using step
proof (cases rule: run_step.cases)
  case (enqueue event)
  then show ?thesis using inv unfolding conserved_def by (auto intro: accounted_Enqueue)
next
  case (database db)
  then show ?thesis using inv other_totals [OF database(2)] other_rows [OF database(2)] unfolding conserved_def accounted_def by simp
next
  case (receive)
  then show ?thesis using inv unfolding conserved_def by (auto intro: accounted_receive)
next
  case (full env)
  then have "flush_batch sink env s = Some s' \<or> flush_rollups sink env s = Some s'" by (auto simp: flush_full_def split: if_splits)
  moreover have "\<not> sw_disabled (rn_w s)" using full by (simp add: run_full_def)
  ultimately show ?thesis using inv full(1) unfolding conserved_def
    by (blast intro: flush_batch_accounted flush_rollups_accounted)
next
  case (tick env)
  then show ?thesis
    using inv flush_batch_accounted applyUntil_disabled unfolding conserved_def by (fastforce simp: flush_batch_def)
next
  case (rollup_tick env)
  then show ?thesis
    using inv flush_rollups_accounted applyUntil_disabled unfolding conserved_def by (fastforce simp: flush_rollups_def)
next
  case (stop env1 env2 res1 res2)
  then have "rn_stopped s'" by (auto simp: run_stop_def Let_def split: prod.splits option.splits)
  then show ?thesis by (simp add: conserved_def)
qed

lemma start_conserved: "sw_queue w = [] \<Longrightarrow> conserved stored_totals stored_rows db (run_start w db)"
  by (simp add: conserved_def accounted_def run_start_def held_ok_def batch_only_def rollups_ok_def held_totals_def pending_totals_def)

lemma run_conserved:
  assumes "(run_step sink other)\<^sup>*\<^sup>* (run_start w db) s" "sw_queue w = []"
  shows "conserved stored_totals stored_rows db s"
  using assms(1) by (induction rule: rtranclp_induct) (use start_conserved assms(2) step_conserved in \<open>blast+\<close>)

lemma stop_stores_all:
  assumes run: "run_stop sink env1 env2 s = Some (applySucceeded, applySucceeded, s')"
    and acc: "accounted stored_totals stored_rows db0 s"
  shows "stored_totals (rn_db s') P = stored_totals db0 P + batch_totals P (rn_accepted s')"
    "stored_rows (rn_db s') = stored_rows db0 @ feeder_rows (rn_accepted s')"
proof -
  obtain w batch rollups where dr: "drainInto (rn_w s, rn_batch s, rn_rollups s) = (w, batch, rollups)"
    by (cases "drainInto (rn_w s, rn_batch s, rn_rollups s)") blast
  have ok: "held_ok (rn_batch s, rn_rollups s)" using acc by (simp add: accounted_def)
  have "fold addEvent (sw_queue (rn_w s)) ((rn_w s)\<lparr> sw_queue := [] \<rparr>, rn_batch s, rn_rollups s) = (w, batch, rollups)"
    using dr by (simp add: drainInto_def)
  note d = drain_held [OF ok this]
  have b: "batch_only batch" "rollups_ok rollups" using d by (simp_all add: held_ok_def)
  obtain w1 db1 w2 db2 where a1: "applyUntil sink env1 batch w (rn_db s) = Some (applySucceeded, w1, db1)"
    and a2: "applyUntil sink env2 (rollupEvents rollups) w1 db1 = Some (applySucceeded, w2, db2)"
    and s': "s' = s\<lparr> rn_w := w2, rn_db := db2, rn_batch := [], rn_rollups := [], rn_stopped := True \<rparr>"
    using run dr by (auto simp: run_stop_def split: option.splits)
  note u1 = applyUntil_stored(2) [OF a1 batch_only_aligned [OF b(1)] refl] and u2 = applyUntil_stored(2) [OF a2 rollupEvents_aligned [OF b(2)] refl]
  have h: "held_totals P (batch, rollups) = held_totals P (rn_batch s, rn_rollups s) + batch_totals P (sw_queue (rn_w s))" using d by simp
  show "stored_totals (rn_db s') P = stored_totals db0 P + batch_totals P (rn_accepted s')"
  proof -
    have "stored_totals (rn_db s') P = stored_totals (rn_db s) P + held_totals P (batch, rollups)"
      using u1 [of P] u2 [of P] by (simp add: s' held_totals_def pending_rollupEvents add_ac)
    also have "\<dots> = stored_totals (rn_db s) P + held_totals P (rn_batch s, rn_rollups s) + batch_totals P (sw_queue (rn_w s))"
      unfolding h by (simp add: add_ac)
    also have "\<dots> = stored_totals db0 P + batch_totals P (rn_accepted s)" using acc unfolding accounted_def by blast
    finally show ?thesis by (simp add: s')
  qed
  show "stored_rows (rn_db s') = stored_rows db0 @ feeder_rows (rn_accepted s')"
    using acc u1 u2 d unfolding accounted_def s' by simp
qed

end

section \<open>The SQLite store is such a sink\<close>

definition sqlite_totals :: "persist_db \<Rightarrow> (rollup_key \<Rightarrow> bool) \<Rightarrow> totals" where
  "sqlite_totals db P = sum_list (map (\<lambda>(k, r). if P k then totals_of r else 0) (db_rollups db))"

lemma store_rollup_totals:
  assumes "store_rollup c r db = Inr db'" "truncate_hour (ro_BucketStart r) = ro_BucketStart r"
  shows "sqlite_totals db' P = sqlite_totals db P + rollup_totals P r" "db_feeder_events db' = db_feeder_events db"
proof -
  define v where "v = (if ro_FeederScope r = [] then r\<lparr> ro_FeederScope := FeederAll \<rparr> else r)"
  define key where "key = (ro_GuildID v, ro_FeederScope v, ro_BucketStart v)"
  have v: "key_of r = key" "totals_of v = totals_of r"
    using assms(2) by (simp_all add: v_def key_def key_of_def scope_of_def totals_of_def)
  have db': "db' = db\<lparr> db_rollups := AList.update key (case map_of (db_rollups db) key of None \<Rightarrow> v | Some current \<Rightarrow> coalesce current v) (db_rollups db) \<rparr>"
    using assms(1) unfolding store_rollup_def Let_def v_def [symmetric] key_def [symmetric] by (auto split: option.splits if_splits)
  show "sqlite_totals db' P = sqlite_totals db P + rollup_totals P r"
  proof (cases "map_of (db_rollups db) key")
    case None
    then show ?thesis unfolding sqlite_totals_def db' rollup_totals_def v(1) by (simp add: sum_list_update_new v(2))
  next
    case (Some c)
    have "db_rollups db' = AList.update key (coalesce c v) (db_rollups db)" by (simp add: db' Some)
    then show ?thesis unfolding sqlite_totals_def rollup_totals_def v(1)
      using sum_list_update_old [OF Some, of "\<lambda>(k, r). if P k then totals_of r else 0" "coalesce c v" "if P key then totals_of r else 0"]
      by (simp add: totals_coalesce v(2))
  qed
  show "db_feeder_events db' = db_feeder_events db" by (simp add: db')
qed

lemma store_sightings_frame:
  "store_sightings c guild feeder bucket observations db = Inr db' \<Longrightarrow> db_rollups db' = db_rollups db \<and> db_feeder_events db' = db_feeder_events db"
proof (induction c guild feeder bucket observations db rule: store_sightings.induct)
  case (2 c guild feeder bucket observation rest db)
  then show ?case by (auto simp: Let_def split: if_splits)
qed simp

lemma store_event_totals:
  assumes "store_event c now e db = Inr db'" "hour_aligned e"
  shows "sqlite_totals db' P = sqlite_totals db P + event_totals P e \<and> db_feeder_events db' = db_feeder_events db @ feeder_rows [e]"
proof (cases "we_Kind e = WriteReportRollup")
  case True
  then have "store_rollup c (we_Rollup e) db = Inr db'" "truncate_hour (ro_BucketStart (we_Rollup e)) = ro_BucketStart (we_Rollup e)"
    using assms by (simp_all add: store_event_def hour_aligned_def)
  note r = store_rollup_totals [OF this]
  then show ?thesis using True by (simp add: event_totals_def)
next
  case False
  have "db_rollups db' = db_rollups db \<and> db_feeder_events db' = db_feeder_events db @ feeder_rows [e]"
  proof -
    consider "we_Kind e = WriteAlertState" | "we_Kind e = WriteFeederEvent" | "we_Kind e = WriteInterestingSeen" | "we_Kind e = WriteRouteSightings"
      using assms(1) False by (auto simp: store_event_def split: if_splits)
    then show ?thesis
    proof cases
      case 1
      then show ?thesis using assms(1) by (auto simp: store_event_def store_alert_state_def Let_def split: if_splits)
    next
      case 2
      then show ?thesis using assms(1) by (auto simp: store_event_def store_feeder_event_def feeder_row_def Let_def split: if_splits)
    next
      case 3
      then show ?thesis using assms(1) by (auto simp: store_event_def store_interesting_def Let_def split: if_splits)
    next
      case 4
      then have "recordRouteSightingsTx c now (we_RouteBatch e) db = Inr db'" using assms(1) by (simp add: store_event_def)
      then show ?thesis using 4 store_sightings_frame unfolding recordRouteSightingsTx_def Let_def by fastforce
    qed
  qed
  then show ?thesis using False by (simp add: event_totals_def sqlite_totals_def)
qed

lemma store_events_totals:
  "store_events tx i events db = Inr db' \<Longrightarrow> list_all hour_aligned events \<Longrightarrow>
     sqlite_totals db' P = sqlite_totals db P + batch_totals P events \<and> db_feeder_events db' = db_feeder_events db @ feeder_rows events"
proof (induction tx i events db rule: store_events.induct)
  case (2 tx i e rest db)
  obtain db1 where d: "tx_exec tx i = None" "store_event (tx_constraint tx) (tx_now tx) e db = Inr db1"
      "store_events tx (i + 1) rest db1 = Inr db'"
    using 2(2) by (auto split: option.splits sum.splits)
  have "hour_aligned e" "list_all hour_aligned rest" using 2(3) by simp_all
  then show ?case using store_event_totals [OF d(2), of P] 2(1) [OF d] by (simp add: add_ac)
qed simp

lemma store_events_rows:
  "store_events tx i events db = Inr db' \<Longrightarrow> db_feeder_events db' = db_feeder_events db @ feeder_rows events"
proof (induction tx i events db rule: store_events.induct)
  case (2 tx i e rest db)
  obtain db1 where d: "tx_exec tx i = None" "store_event (tx_constraint tx) (tx_now tx) e db = Inr db1"
      "store_events tx (i + 1) rest db1 = Inr db'"
    using 2(2) by (auto split: option.splits sum.splits)
  have "db_feeder_events db1 = db_feeder_events db @ feeder_rows [e]"
  proof (cases "we_Kind e = WriteReportRollup")
    case True
    then have "store_rollup (tx_constraint tx) (we_Rollup e) db = Inr db1" using d(2) by (simp add: store_event_def)
    then show ?thesis using True by (auto simp: store_rollup_def Let_def split: option.splits if_splits)
  next
    case False
    then have "hour_aligned e" by (simp add: hour_aligned_def)
    then show ?thesis using store_event_totals [OF d(2)] by blast
  qed
  then show ?case using 2(1) [OF d] by simp
qed simp

interpretation sqlite: batch_sink ApplyBatch rule_deleted sqlite_totals db_feeder_events
proof
  show "db' = db" if "ApplyBatch e events db = (Some err, db')" for e events db err db'
    using that by (auto simp: ApplyBatch_def split: option.splits sum.splits)
  show "sqlite_totals db' P = sqlite_totals db P + batch_totals P events"
    if "ApplyBatch e events db = (None, db')" "list_all hour_aligned events" for e events db db' P
    using that store_events_totals by (auto simp: ApplyBatch_def split: option.splits sum.splits)
  show "db_feeder_events db' = db_feeder_events db @ feeder_rows events" if "ApplyBatch e events db = (None, db')" for e events db db'
    using that store_events_rows by (auto simp: ApplyBatch_def split: option.splits sum.splits)
  show "sqlite_totals db' P = sqlite_totals db P" if "rule_deleted db db'" for db db' P
    using that by (auto simp: rule_deleted_def DeleteWatchRule_def sqlite_totals_def split: if_splits)
  show "db_feeder_events db' = db_feeder_events db" if "rule_deleted db db'" for db db'
    using that by (auto simp: rule_deleted_def DeleteWatchRule_def split: if_splits)
qed

section \<open>Properties\<close>

lemma writer_accounted:
  assumes "(run_step ApplyBatch rule_deleted)\<^sup>*\<^sup>* (run_start (NewWriter capacity batchMax flush) db0) s"
    "\<not> rn_stopped s" "\<not> sw_disabled (rn_w s)"
  shows "accounted sqlite_totals db_feeder_events db0 s"
  using sqlite.run_conserved [OF assms(1)] assms(2,3) by (simp add: conserved_def NewWriter_def)

lemma stop_accepted: "run_stop sink env1 env2 s = Some (res1, res2, s') \<Longrightarrow> rn_accepted s' = rn_accepted s"
  by (auto simp: run_stop_def Let_def split: prod.splits option.splits)


text \<open>The delay before attempt \<open>n + 1\<close>.\<close>

definition retry_delay :: "nat \<Rightarrow> duration" where
  "retry_delay n = min (50 * millisecond * 2 ^ n) second"

lemma retry_delay_Suc: "min (retry_delay n * 2) second = retry_delay (Suc n)"
  by (simp add: retry_delay_def min_def)

lemma writer_apply_batches:
  assumes "writer_apply sink env n batch w db = (err, w1, db1)"
  obtains i where "i \<le> 1" "sw_batches w1 = sw_batches w + of_nat i"
proof (cases "batch = []")
  case True
  then show ?thesis using that [of 0] assms by (simp add: writer_apply_def)
next
  case False
  then show ?thesis using that [of 1] assms by (auto simp: writer_apply_def Let_def split: prod.splits option.splits)
qed

lemma apply_loop_decided:
  assumes "writer_apply sink env n batch w db = (err, w1, db1)"
    "err = None \<or> \<not> transientWriteError err \<or> ax_now env n + delay > deadline \<or> ax_done env n"
  obtains res w' where "apply_loop sink env batch deadline n delay w db = Some (res, w', db1)" "sw_batches w' = sw_batches w1"
proof -
  have "\<exists>res w'. apply_loop sink env batch deadline n delay w db = Some (res, w', db1) \<and> sw_batches w' = sw_batches w1"
    using assms by (subst apply_loop.simps) (auto simp: writer_notify_def split: option.split)
  then show ?thesis using that by blast
qed

lemma apply_loop_ends:
  assumes "ax_now env (n + j) + retry_delay (n + j) > deadline"
  shows "\<exists>i res w' db'. i \<le> j + 1 \<and> apply_loop sink env batch deadline n (retry_delay n) w db = Some (res, w', db') \<and> sw_batches w' = sw_batches w + of_nat i"
  using assms
proof (induction j arbitrary: n w db)
  case (0 n w db)
  obtain err w1 db1 where a: "writer_apply sink env n batch w db = (err, w1, db1)" by (cases "writer_apply sink env n batch w db") blast
  obtain i where i: "i \<le> 1" "sw_batches w1 = sw_batches w + of_nat i" by (rule writer_apply_batches [OF a])
  have "err = None \<or> \<not> transientWriteError err \<or> ax_now env n + retry_delay n > deadline \<or> ax_done env n" using 0 by simp
  then obtain res w' where "apply_loop sink env batch deadline n (retry_delay n) w db = Some (res, w', db1)" "sw_batches w' = sw_batches w1"
    using apply_loop_decided [OF a] by blast
  then show ?case using i by auto
next
  case (Suc j n w db)
  obtain err w1 db1 where a: "writer_apply sink env n batch w db = (err, w1, db1)" by (cases "writer_apply sink env n batch w db") blast
  obtain i where i: "i \<le> 1" "sw_batches w1 = sw_batches w + of_nat i" by (rule writer_apply_batches [OF a])
  show ?case
  proof (cases "err = None \<or> \<not> transientWriteError err \<or> ax_now env n + retry_delay n > deadline \<or> ax_done env n")
    case True
    then obtain res w' where "apply_loop sink env batch deadline n (retry_delay n) w db = Some (res, w', db1)" "sw_batches w' = sw_batches w1"
      using apply_loop_decided [OF a] by blast
    then show ?thesis using i by (intro exI [of _ i] exI [of _ res] exI [of _ w'] exI [of _ db1]) simp
  next
    case False
    then obtain e where e: "err = Some e" by auto
    have next1: "apply_loop sink env batch deadline n (retry_delay n) w db =
        apply_loop sink env batch deadline (Suc n) (retry_delay (Suc n)) (writer_notify (Some e) w1) db1"
      using False a e by (subst apply_loop.simps) (simp add: retry_delay_Suc)
    obtain i' res w' db' where r: "i' \<le> j + 1"
        "apply_loop sink env batch deadline (Suc n) (retry_delay (Suc n)) (writer_notify (Some e) w1) db1 = Some (res, w', db')"
        "sw_batches w' = sw_batches (writer_notify (Some e) w1) + of_nat i'"
      using Suc.IH [of "Suc n" "writer_notify (Some e) w1" db1] Suc.prems by auto
    have "sw_batches w' = sw_batches w + of_nat (i + i')" using r(3) i(2) by (simp add: writer_notify_def)
    then show ?thesis using next1 r(1,2) i(1) by (intro exI [of _ "i + i'"] exI [of _ res] exI [of _ w'] exI [of _ db']) simp
  qed
qed

text \<open>
  C23. A flush always returns. When the timers are honest, so that each wait lasts at least its
  delay, the retries of a batch end whatever the sink answers and however long it stays
  locked: at most six attempts are made within the two seconds of the budget.
\<close>

theorem writer_retry_bounded:
  assumes "ax_start env \<le> ax_now env 0" "\<forall>n. ax_now env n + retry_delay n \<le> ax_now env (Suc n)"
    "sw_retryBudget w = 2 * second"
  shows "\<exists>n res w' db'. n \<le> 6 \<and> applyUntil sink env batch w db = Some (res, w', db') \<and> sw_batches w' = sw_batches w + of_nat n"
proof (cases "batch = []")
  case True
  then show ?thesis by (intro exI [of _ 0]) (simp add: applyUntil_def)
next
  case False
  have d: "ax_now env n + retry_delay n \<le> ax_now env (Suc n)" for n using assms(2) by blast
  have v: "retry_delay 0 = 50 * millisecond" "retry_delay 1 = 100 * millisecond" "retry_delay 2 = 200 * millisecond"
    "retry_delay 3 = 400 * millisecond" "retry_delay 4 = 800 * millisecond" "retry_delay 5 = second"
    by (simp_all add: retry_delay_def)
  have "ax_now env (0 + 5) + retry_delay (0 + 5) > ax_start env + sw_retryBudget w"
    using d [of 0] d [of 1] d [of 2] d [of 3] d [of 4] assms(1,3) v by (simp add: eval_nat_numeral)
  from apply_loop_ends [OF this, of sink batch w db] show ?thesis
    using False v(1) by (simp add: applyUntil_def)
qed

section \<open>Witnesses and two ways to lose data\<close>

definition tx_ok :: tx_env where
  "tx_ok = \<lparr> tx_begin = None, tx_exec = (\<lambda>_. None), tx_commit = None,
     tx_constraint = \<lparr> wx_canceled = False, wx_temporary = False, wx_message = ''FOREIGN KEY constraint failed'' \<rparr>, tx_now = 0 \<rparr>"

definition tx_canceled :: tx_env where
  "tx_canceled = tx_ok\<lparr> tx_begin := Some \<lparr> wx_canceled = True, wx_temporary = False, wx_message = ''context canceled'' \<rparr> \<rparr>"

text \<open>An environment in which every attempt gets the same answer and time passes.\<close>

definition answers :: "tx_env \<Rightarrow> tx_env apply_env" where
  "answers tx = \<lparr> ax_sink = (\<lambda>_. tx), ax_took = (\<lambda>_. 0), ax_start = 0, ax_now = (\<lambda>n. int n * second), ax_done = (\<lambda>_. False) \<rparr>"

lemma applyUntil_permanent:
  assumes "ApplyBatch tx batch db = (Some e, db)" "\<not> transientWriteError (Some e)" "batch \<noteq> []"
  shows "\<exists>w'. applyUntil ApplyBatch (answers tx) batch w db = Some (applyPermanentFailure, w', db) \<and> sw_queue w' = sw_queue w \<and> sw_disabled w'"
  using assms
  by (simp add: applyUntil_def, subst apply_loop.simps) (simp add: writer_apply_def answers_def writer_notify_def Let_def)

abbreviation (input) app_writer :: writer where
  "app_writer \<equiv> NewWriter 1024 64 (250 * millisecond)"

text \<open>One event that is not a rollup is accepted and collected.\<close>

definition collected :: "write_event \<Rightarrow> persist_db \<Rightarrow> persist_db run_state" where
  "collected event db = run_receive (run_Enqueue event (run_start app_writer db))"

lemma collected_simps:
  assumes "we_Kind event \<noteq> WriteReportRollup"
  shows "rn_batch (collected event db) = [event]" "rn_rollups (collected event db) = []" "rn_db (collected event db) = db"
    "sw_queue (rn_w (collected event db)) = []" "\<not> rn_stopped (collected event db)" "rn_accepted (collected event db) = [event]"
    "\<not> run_full (collected event db)"
  using assms
  by (simp_all add: collected_def run_receive_def run_Enqueue_def writer_Enqueue_def run_start_def NewWriter_def addEvent_def run_full_def)

lemma collected_reached:
  "(run_step sink other)\<^sup>*\<^sup>* (run_start app_writer db) (collected event db)"
proof -
  have "run_step sink other (run_start app_writer db) (run_Enqueue event (run_start app_writer db))" by (rule run_step.enqueue)
  moreover have "\<not> rn_stopped (run_Enqueue event (run_start app_writer db))" "\<not> run_full (run_Enqueue event (run_start app_writer db))"
    by (simp_all add: run_Enqueue_def writer_Enqueue_def run_start_def NewWriter_def run_full_def)
  then have "run_step sink other (run_Enqueue event (run_start app_writer db)) (collected event db)"
    unfolding collected_def by (rule run_step.receive)
  ultimately show ?thesis by (meson converse_rtranclp_into_rtranclp rtranclp.rtrancl_refl)
qed

text \<open>
  C39. Deleting a watch rule can switch persistence off for good. An alert state of a rule is
  accepted and collected; the rule is deleted before the next flush, as the command that removes
  a watch does; the insert then violates the foreign key, which is not a transient error, so
  the flush disables the writer: it stores nothing of the batch and every later event is
  refused.
\<close>

theorem deleted_rule_disables_writer:
  assumes "we_Kind event = WriteAlertState" "as_RuleID (we_AlertState event) = i" "0 < i"
    "(i, guild) \<in> set (db_rules db)" "distinct (map fst (db_rules db))"
    "tx_begin (tx :: tx_env) = None" "\<forall>n. tx_exec tx n = None"
    "\<not> transientWriteError (Some (wrap_write_error ''apply persistence batch'' (tx_constraint tx)))"
  shows "\<exists>s. (run_step ApplyBatch rule_deleted)\<^sup>*\<^sup>* (run_start app_writer db) s \<and> rn_accepted s = [event] \<and>
    sw_disabled (rn_w s) \<and> rn_batch s = [] \<and> rn_db s = snd (DeleteWatchRule i guild db) \<and>
    (\<forall>later. fst (writer_Enqueue later (rn_w s)) = Some ErrWriterUnavailable)"
proof -
  have kind: "we_Kind event \<noteq> WriteReportRollup" using assms(1) by simp
  define db1 where "db1 = snd (DeleteWatchRule i guild db)"
  define s2 where "s2 = (collected event db)\<lparr> rn_db := db1 \<rparr>"
  have gone: "i \<notin> fst ` set (db_rules db1)"
    using assms(4,5) unfolding db1_def DeleteWatchRule_def by (auto dest: eq_key_imp_eq_value)
  have "run_step ApplyBatch rule_deleted (collected event db) s2"
    unfolding s2_def by (rule run_step.database) (auto simp: rule_deleted_def db1_def collected_simps [OF kind])
  then have r2: "(run_step ApplyBatch rule_deleted)\<^sup>*\<^sup>* (run_start app_writer db) s2"
    using collected_reached rtranclp.rtrancl_into_rtrancl by metis
  have "ApplyBatch tx [event] db1 = (Some (wrap_write_error ''apply persistence batch'' (tx_constraint tx)), db1)"
    using assms(1-3,6,7) gone by (auto simp: ApplyBatch_def store_event_def store_alert_state_def Let_def)
  then obtain w' where w': "applyUntil ApplyBatch (answers tx) [event] (rn_w s2) db1 = Some (applyPermanentFailure, w', db1)" "sw_disabled w'"
    using applyUntil_permanent [OF _ assms(8)] by blast
  have f: "flush_batch ApplyBatch (answers tx) s2 = Some (s2\<lparr> rn_w := w', rn_db := db1, rn_batch := [] \<rparr>)"
    using w'(1) by (simp add: flush_batch_def s2_def collected_simps [OF kind])
  have "\<not> rn_stopped s2" "\<not> run_full s2" using collected_simps(5,7) [OF kind] by (simp_all add: s2_def run_full_def)
  then have "run_step ApplyBatch rule_deleted s2 (s2\<lparr> rn_w := w', rn_db := db1, rn_batch := [] \<rparr>)"
    using run_step.tick [OF _ _ f] by blast
  with r2 have "(run_step ApplyBatch rule_deleted)\<^sup>*\<^sup>* (run_start app_writer db) (s2\<lparr> rn_w := w', rn_db := db1, rn_batch := [] \<rparr>)"
    by (rule rtranclp.rtrancl_into_rtrancl)
  then show ?thesis
    using w'(2) collected_simps(6) [OF kind] unfolding db1_def
    by (intro exI [of _ "s2\<lparr> rn_w := w', rn_db := db1, rn_batch := [] \<rparr>"]) (simp add: s2_def db1_def writer_Enqueue_def)
qed

text \<open>A batch in flight when the program is stopped is lost. The context of \<open>Run\<close> ends while a
  batch is being stored; the sink answers that the context was cancelled, which counts as a
  permanent failure, so the batch is discarded; the flush of the stop, which has a context of
  its own and succeeds, no longer has it. The accepted event is in no table.
\<close>

theorem writer_cancel_loses:
  assumes "we_Kind event \<noteq> WriteReportRollup"
  shows "\<exists>s env1 env2 s'. (run_step ApplyBatch rule_deleted)\<^sup>*\<^sup>* (run_start app_writer db) s \<and>
    run_stop ApplyBatch env1 env2 s = Some (applySucceeded, applySucceeded, s') \<and> rn_accepted s' = [event] \<and> rn_db s' = db"
proof -
  have "ApplyBatch tx_canceled [event] db = (Some (wrap_write_error ''begin persistence batch'' (the (tx_begin tx_canceled))), db)"
    by (simp add: ApplyBatch_def tx_canceled_def)
  moreover have "\<not> transientWriteError (Some (wrap_write_error ''begin persistence batch'' (the (tx_begin tx_canceled))))"
    by (simp add: transientWriteError_def wrap_write_error_def tx_canceled_def)
  ultimately obtain w' where w': "applyUntil ApplyBatch (answers tx_canceled) [event] (rn_w (collected event db)) db = Some (applyPermanentFailure, w', db)"
      "sw_queue w' = sw_queue (rn_w (collected event db))"
    using applyUntil_permanent by blast
  define s where "s = (collected event db)\<lparr> rn_w := w', rn_db := db, rn_batch := [] \<rparr>"
  have f: "flush_batch ApplyBatch (answers tx_canceled) (collected event db) = Some s"
    using w'(1) by (simp add: flush_batch_def s_def collected_simps [OF assms])
  have "run_step ApplyBatch rule_deleted (collected event db) s"
    using run_step.tick [OF _ _ f] collected_simps(5,7) [OF assms] by blast
  then have r: "(run_step ApplyBatch rule_deleted)\<^sup>*\<^sup>* (run_start app_writer db) s"
    using collected_reached rtranclp.rtrancl_into_rtrancl by metis
  have q: "sw_queue w' = []" using w'(2) collected_simps(4) [OF assms] by simp
  have "run_stop ApplyBatch (answers tx_ok) (answers tx_ok) s = Some (applySucceeded, applySucceeded, s\<lparr> rn_w := w', rn_db := db, rn_batch := [], rn_rollups := [], rn_stopped := True \<rparr>)"
    using q by (simp add: run_stop_def drainInto_def applyUntil_def s_def collected_simps [OF assms] rollupEvents_def)
  then show ?thesis
    using r collected_simps(6) [OF assms]
    by (intro exI [of _ s] exI conjI) (auto simp: s_def)
qed

definition demo_db :: persist_db where
  "demo_db = \<lparr> db_guilds = [7], db_rules = [(3, 7)], db_alert_state = [], db_system_alert_state = [], db_feeder_events = [],
     db_rollups = [], db_interesting = [], db_route_catalog = [], db_route_sightings = [] \<rparr>"

definition demo_alert_event :: write_event where
  "demo_alert_event = zero_event\<lparr> we_AlertState := zero_alert_state\<lparr> as_RuleID := 3 \<rparr> \<rparr>"

definition demo_rollup_event :: "int \<Rightarrow> real \<Rightarrow> write_event" where
  "demo_rollup_event n r = zero_event\<lparr> we_Kind := WriteReportRollup,
     we_Rollup := zero_rollup\<lparr> ro_GuildID := 7, ro_BucketStart := 90 * minute + n, ro_AircraftObservations := n, ro_MaximumRange := r \<rparr> \<rparr>"

text \<open>Two rollups of the same hour, coalesced but not yet stored.\<close>

definition demo_run :: "persist_db run_state" where
  "demo_run = run_receive (run_Enqueue (demo_rollup_event 5 40) (run_receive (run_Enqueue (demo_rollup_event 2 90) (run_start (NewWriter 4 4 second) demo_db))))"

lemmas demo_run_simps = demo_run_def run_receive_def run_Enqueue_def writer_Enqueue_def run_start_def NewWriter_def addEvent_def
  run_full_def demo_rollup_event_def zero_event_def zero_rollup_def truncate_hour_def time_unix_def unix_epoch_seconds_def coalesce_def

lemma demo_run_state:
  "\<not> rn_stopped demo_run" "\<not> sw_disabled (rn_w demo_run)" "rn_accepted demo_run = [demo_rollup_event 2 90, demo_rollup_event 5 40]"
  by (simp_all add: demo_run_simps)

lemma demo_run_reached: "(run_step ApplyBatch rule_deleted)\<^sup>*\<^sup>* (run_start (NewWriter 4 4 second) demo_db) demo_run"
proof -
  define s0 s1 s2 s3 where "s0 = run_start (NewWriter 4 4 second) demo_db" and "s1 = run_Enqueue (demo_rollup_event 2 90) s0"
    and "s2 = run_receive s1" and "s3 = run_Enqueue (demo_rollup_event 5 40) s2"
  have "\<not> rn_stopped s1" "\<not> run_full s1" "\<not> rn_stopped s3" "\<not> run_full s3"
    by (simp_all add: s0_def s1_def s2_def s3_def demo_run_simps)
  then have "run_step ApplyBatch rule_deleted s0 s1" "run_step ApplyBatch rule_deleted s1 s2" "run_step ApplyBatch rule_deleted s2 s3"
      "run_step ApplyBatch rule_deleted s3 demo_run"
    unfolding s1_def s2_def s3_def demo_run_def s0_def by (auto intro: run_step.intros)
  then show ?thesis unfolding s0_def [symmetric] by (meson converse_rtranclp_into_rtranclp rtranclp.rtrancl_refl)
qed


theorem writer_retry_bounded_witness:
  "\<exists>n res w' db'. n \<le> 6 \<and> applyUntil ApplyBatch (answers (tx_ok\<lparr> tx_begin := Some \<lparr> wx_canceled = False, wx_temporary = True, wx_message = [] \<rparr> \<rparr>))
     [demo_alert_event] app_writer demo_db = Some (res, w', db') \<and> sw_batches w' = of_nat n"
proof -
  define env where "env = answers (tx_ok\<lparr> tx_begin := Some \<lparr> wx_canceled = False, wx_temporary = True, wx_message = [] \<rparr> \<rparr>)"
  have "ax_start env \<le> ax_now env 0" by (simp add: env_def answers_def)
  moreover have "\<forall>n. ax_now env n + retry_delay n \<le> ax_now env (Suc n)"
    by (simp add: env_def answers_def retry_delay_def algebra_simps)
  moreover have "sw_retryBudget app_writer = 2 * second" "sw_batches app_writer = 0" by (simp_all add: NewWriter_def)
  ultimately show ?thesis
    unfolding env_def [symmetric] using writer_retry_bounded [of env app_writer ApplyBatch "[demo_alert_event]" demo_db] by simp
qed

theorem deleted_rule_disables_writer_witness:
  "\<exists>s. (run_step ApplyBatch rule_deleted)\<^sup>*\<^sup>* (run_start app_writer demo_db) s \<and> rn_accepted s = [demo_alert_event] \<and>
    sw_disabled (rn_w s) \<and> rn_batch s = [] \<and> rn_db s = snd (DeleteWatchRule 3 7 demo_db) \<and>
    (\<forall>later. fst (writer_Enqueue later (rn_w s)) = Some ErrWriterUnavailable)"
proof (rule deleted_rule_disables_writer [of _ _ _ _ tx_ok])
  show "\<not> transientWriteError (Some (wrap_write_error ''apply persistence batch'' (tx_constraint tx_ok)))"
    by (simp add: tx_ok_def) code_simp
qed (simp_all add: demo_alert_event_def zero_event_def demo_db_def tx_ok_def)

theorem writer_cancel_loses_witness:
  "\<exists>s env1 env2 s'. (run_step ApplyBatch rule_deleted)\<^sup>*\<^sup>* (run_start app_writer demo_db) s \<and>
    run_stop ApplyBatch env1 env2 s = Some (applySucceeded, applySucceeded, s') \<and> rn_accepted s' = [demo_alert_event] \<and> rn_db s' = demo_db"
  by (rule writer_cancel_loses) (simp add: demo_alert_event_def zero_event_def)

end
