(* ===== verification/Report_Props.thy ===== *)
theory Report_Props
  imports Report Storage_Props
begin

text \<open>
  The reports: a summary is exactly the accepted observations of its hours once the writer has
  stored them; the live leaders are the best of the eligible aircraft, ties broken by freshness
  and address; a route sighting is reported once per hour.
\<close>

section \<open>From accepted events to the summary\<close>

definition in_report :: "u64 \<Rightarrow> feeder_id \<Rightarrow> time \<Rightarrow> time \<Rightarrow> rollup_key \<Rightarrow> bool" where
  "in_report guildID scope from until k \<longleftrightarrow> (case k of (g, sc, bucket) \<Rightarrow> g = guildID \<and> sc = scope \<and> from \<le> bucket \<and> bucket < until)"

definition summary_totals :: "report_summary \<Rightarrow> totals" where
  "summary_totals su = Totals (su_AircraftObservations su) (su_Messages su) (su_EmergencyObservations su) (su_EmergencyEvents su)
     (su_MaximumRangeNM su) (su_PeakTracked su)"

text \<open>A report without data shows zeros.\<close>

fun shown :: "totals \<Rightarrow> totals" where
  "shown NoTotals = Totals 0 0 0 0 0 0"
| "shown t = t"

lemma fold_max_init: "fold max xs (max a b) = max a (fold max xs (b :: 'a :: linorder))"
proof (induction xs arbitrary: b)
  case (Cons x xs)
  then show ?case by (simp add: max.left_commute)
qed simp

lemma max_or_zero_Cons: "max_or_zero (x # y # ys) = max x (max_or_zero (y # ys))"
  using fold_max_init [of ys x y] by (simp add: max_or_zero_def max.commute)

lemma sum_totals_nonempty:
  "sum_list (map totals_of (r # rs)) =
     Totals (sum_list (map ro_AircraftObservations (r # rs))) (sum_list (map ro_Messages (r # rs))) (sum_list (map ro_EmergencyObservations (r # rs)))
       (sum_list (map ro_EmergencyEvents (r # rs))) (max_or_zero (map ro_MaximumRange (r # rs))) (max_or_zero (map ro_PeakTracked (r # rs)))"
proof (induction rs arbitrary: r)
  case Nil
  then show ?case by (simp add: totals_of_def max_or_zero_def)
next
  case (Cons r' rs)
  have "sum_list (map totals_of (r # r' # rs)) = totals_of r + sum_list (map totals_of (r' # rs))" by simp
  also have "\<dots> = Totals (sum_list (map ro_AircraftObservations (r # r' # rs))) (sum_list (map ro_Messages (r # r' # rs)))
      (sum_list (map ro_EmergencyObservations (r # r' # rs))) (sum_list (map ro_EmergencyEvents (r # r' # rs)))
      (max_or_zero (map ro_MaximumRange (r # r' # rs))) (max_or_zero (map ro_PeakTracked (r # r' # rs)))"
    unfolding Cons.IH totals_of_def [of r] by (simp add: max_or_zero_Cons)
  finally show ?case .
qed

lemma sum_selected: "sum_list (map (\<lambda>(k, r). if P k then totals_of r else 0) rows) = sum_list (map totals_of (map snd (filter (\<lambda>(k, _). P k) rows)))"
  by (induction rows) auto

lemma summary_shows:
  "summary_totals (ReportSummaryForScope guildID scope from until db) =
     shown (sqlite_totals db (in_report guildID (if scope = [] then FeederAll else scope) (truncate_hour from) (truncate_hour until)))"
proof -
  define sc where "sc = (if scope = [] then FeederAll else scope)"
  define rows where "rows = summary_rows guildID sc (truncate_hour from) (truncate_hour until) db"
  have "rows = filter (\<lambda>(k, _). in_report guildID sc (truncate_hour from) (truncate_hour until) k) (db_rollups db)"
    unfolding rows_def summary_rows_def in_report_def by (rule arg_cong [of _ _ "\<lambda>f. filter f (db_rollups db)"]) auto
  then have "sqlite_totals db (in_report guildID sc (truncate_hour from) (truncate_hour until)) = sum_list (map totals_of (map snd rows))"
    unfolding sqlite_totals_def by (simp only: sum_selected)
  moreover have "summary_totals (ReportSummaryForScope guildID scope from until db) = shown (sum_list (map totals_of (map snd rows)))"
  proof (cases rows)
    case Nil
    then show ?thesis
      unfolding summary_totals_def ReportSummaryForScope_def Let_def sc_def [symmetric] rows_def [symmetric]
      by (simp add: max_or_zero_def zero_totals_def)
  next
    case (Cons x xs)
    show ?thesis
      unfolding summary_totals_def ReportSummaryForScope_def Let_def sc_def [symmetric] rows_def [symmetric]
      using sum_totals_nonempty [of "snd x" "map snd xs"] by (simp only: Cons list.map(2) shown.simps report_summary.select_convs)
  qed
  ultimately show ?thesis by (simp add: sc_def)
qed


section \<open>Live leaders\<close>

text \<open>\<open>L\<close> is the leader of the aircraft that qualify: one of them, and no other is ahead, or level and fresher, or level and as fresh with a smaller address.\<close>

definition leads :: "(aircraft \<Rightarrow> 'a :: linorder) \<Rightarrow> (aircraft \<Rightarrow> duration) \<Rightarrow> (aircraft \<Rightarrow> bool) \<Rightarrow> aircraft list \<Rightarrow> aircraft_leader \<Rightarrow> bool" where
  "leads rank age qualifies as L \<longleftrightarrow>
     (if list_ex qualifies as
      then ld_Found L \<and> ld_Aircraft L \<in> set as \<and> qualifies (ld_Aircraft L) \<and> ld_Age L = age (ld_Aircraft L) \<and>
        list_all (\<lambda>a. qualifies a \<longrightarrow> rank (ld_Aircraft L) < rank a \<or> rank (ld_Aircraft L) = rank a \<and>
          (ld_Age L < age a \<or> ld_Age L = age a \<and> ac_ICAO (ld_Aircraft L) \<le> ac_ICAO a)) as
      else L = zero_leader)"

lemma leads_step:
  assumes L: "leads rank age qualifies as L"
  shows "leads rank age qualifies (as @ [a])
    (if qualifies a then take_leader (\<lambda>x y. rank x < rank y) (\<lambda>x y. rank x = rank y) \<lparr> ld_Aircraft = a, ld_Age = age a, ld_Found = True \<rparr> L else L)"
proof (cases "qualifies a")
  case False
  then show ?thesis using L by (auto simp: leads_def)
next
  case q: True
  show ?thesis
  proof (cases "list_ex qualifies as")
    case False
    then have "L = zero_leader" "\<And>b. b \<in> set as \<Longrightarrow> \<not> qualifies b" using L by (auto simp: leads_def list_ex_iff)
    then show ?thesis using q by (auto simp: leads_def take_leader_def zero_leader_def list_all_iff)
  next
    case True
    define M where "M = take_leader (\<lambda>x y. rank x < rank y) (\<lambda>x y. rank x = rank y) \<lparr> ld_Aircraft = a, ld_Age = age a, ld_Found = True \<rparr> L"
    have l: "ld_Found L" "ld_Aircraft L \<in> set as" "qualifies (ld_Aircraft L)" "ld_Age L = age (ld_Aircraft L)"
      using L True by (auto simp: leads_def)
    have best: "rank (ld_Aircraft L) < rank b \<or> rank (ld_Aircraft L) = rank b \<and> (ld_Age L < age b \<or> ld_Age L = age b \<and> ac_ICAO (ld_Aircraft L) \<le> ac_ICAO b)"
      if "b \<in> set as" "qualifies b" for b using L True that by (auto simp: leads_def list_all_iff)
    have M: "M = \<lparr> ld_Aircraft = a, ld_Age = age a, ld_Found = True \<rparr> \<and>
        (rank a < rank (ld_Aircraft L) \<or> rank a = rank (ld_Aircraft L) \<and> (age a < ld_Age L \<or> age a = ld_Age L \<and> ac_ICAO a < ac_ICAO (ld_Aircraft L)))
      \<or> M = L \<and> (rank (ld_Aircraft L) < rank a \<or> rank (ld_Aircraft L) = rank a \<and> (ld_Age L < age a \<or> ld_Age L = age a \<and> ac_ICAO (ld_Aircraft L) \<le> ac_ICAO a))"
      using l(1) by (auto simp: M_def take_leader_def preferLeader_def not_less neq_iff split: if_splits)
    have "leads rank age qualifies (as @ [a]) M"
      using M
    proof
      assume "M = \<lparr> ld_Aircraft = a, ld_Age = age a, ld_Found = True \<rparr> \<and>
        (rank a < rank (ld_Aircraft L) \<or> rank a = rank (ld_Aircraft L) \<and> (age a < ld_Age L \<or> age a = ld_Age L \<and> ac_ICAO a < ac_ICAO (ld_Aircraft L)))"
      then show ?thesis using q best by (fastforce simp: leads_def list_all_iff)
    next
      assume "M = L \<and> (rank (ld_Aircraft L) < rank a \<or> rank (ld_Aircraft L) = rank a \<and> (ld_Age L < age a \<or> ld_Age L = age a \<and> ac_ICAO (ld_Aircraft L) \<le> ac_ICAO a))"
      then show ?thesis using True l best by (auto simp: leads_def list_all_iff)
    qed
    then show ?thesis using q by (simp add: M_def)
  qed
qed

definition live :: "duration \<Rightarrow> aircraft \<Rightarrow> bool" where
  "live publicationAge a \<longleftrightarrow> \<not> ac_OnGround a \<and> leader_age publicationAge a \<le> LiveLeaderMaxAge"

definition has_speed :: "duration \<Rightarrow> aircraft \<Rightarrow> bool" where
  "has_speed publicationAge a \<longleftrightarrow> live publicationAge a \<and> ac_HasGroundSpeed a \<and> ac_GroundSpeedKts a > 0"

definition has_altitude :: "duration \<Rightarrow> aircraft \<Rightarrow> bool" where
  "has_altitude publicationAge a \<longleftrightarrow> live publicationAge a \<and> ac_HasAltitude a"

definition no_leaders :: live_leaders where
  "no_leaders = \<lparr> ll_Fastest = zero_leader, ll_Slowest = zero_leader, ll_Highest = zero_leader, ll_Lowest = zero_leader, ll_Eligible = 0 \<rparr>"

lemma select_leader_fields:
  fixes p :: duration and a :: aircraft and l :: live_leaders
  defines "c \<equiv> \<lparr> ld_Aircraft = a, ld_Age = leader_age p a, ld_Found = True \<rparr>"
  shows "ll_Fastest (select_leader p a l) = (if has_speed p a then take_leader (\<lambda>x y. - ac_GroundSpeedKts x < - ac_GroundSpeedKts y) (\<lambda>x y. - ac_GroundSpeedKts x = - ac_GroundSpeedKts y) c (ll_Fastest l) else ll_Fastest l)"
    "ll_Slowest (select_leader p a l) = (if has_speed p a then take_leader (\<lambda>x y. ac_GroundSpeedKts x < ac_GroundSpeedKts y) (\<lambda>x y. ac_GroundSpeedKts x = ac_GroundSpeedKts y) c (ll_Slowest l) else ll_Slowest l)"
    "ll_Highest (select_leader p a l) = (if has_altitude p a then take_leader (\<lambda>x y. - ac_AltitudeFeet x < - ac_AltitudeFeet y) (\<lambda>x y. - ac_AltitudeFeet x = - ac_AltitudeFeet y) c (ll_Highest l) else ll_Highest l)"
    "ll_Lowest (select_leader p a l) = (if has_altitude p a then take_leader (\<lambda>x y. ac_AltitudeFeet x < ac_AltitudeFeet y) (\<lambda>x y. ac_AltitudeFeet x = ac_AltitudeFeet y) c (ll_Lowest l) else ll_Lowest l)"
    "ll_Eligible (select_leader p a l) = ll_Eligible l + (if has_speed p a \<or> has_altitude p a then 1 else 0)"
  unfolding c_def by (simp_all add: select_leader_def Let_def live_def has_speed_def has_altitude_def not_le)

lemma leaders_fold:
  fixes p :: duration
  defines "l \<equiv> \<lambda>as. fold (select_leader p) as no_leaders"
  shows "leads (\<lambda>a. - ac_GroundSpeedKts a) (leader_age p) (has_speed p) as (ll_Fastest (l as))
    \<and> leads ac_GroundSpeedKts (leader_age p) (has_speed p) as (ll_Slowest (l as))
    \<and> leads (\<lambda>a. - ac_AltitudeFeet a) (leader_age p) (has_altitude p) as (ll_Highest (l as))
    \<and> leads ac_AltitudeFeet (leader_age p) (has_altitude p) as (ll_Lowest (l as))
    \<and> ll_Eligible (l as) = length (filter (\<lambda>a. has_speed p a \<or> has_altitude p a) as)"
proof (induction as rule: rev_induct)
  case Nil
  then show ?case by (simp add: l_def no_leaders_def leads_def)
next
  case (snoc a as)
  have e: "l (as @ [a]) = select_leader p a (l as)" by (simp add: l_def)
  from snoc have i: "leads (\<lambda>a. - ac_GroundSpeedKts a) (leader_age p) (has_speed p) as (ll_Fastest (l as))"
    "leads ac_GroundSpeedKts (leader_age p) (has_speed p) as (ll_Slowest (l as))"
    "leads (\<lambda>a. - ac_AltitudeFeet a) (leader_age p) (has_altitude p) as (ll_Highest (l as))"
    "leads ac_AltitudeFeet (leader_age p) (has_altitude p) as (ll_Lowest (l as))"
    "ll_Eligible (l as) = length (filter (\<lambda>a. has_speed p a \<or> has_altitude p a) as)" by blast+
  show ?case
    unfolding e select_leader_fields
    by (intro conjI leads_step [OF i(1)] leads_step [OF i(2)] leads_step [OF i(3)] leads_step [OF i(4)]) (simp add: i(5))
qed

text \<open>The live leaders are right. Each of the four leaders of a snapshot is one of the airborne
  aircraft seen in the last fifteen seconds that has the value, and no such aircraft beats it:
  none is faster (slower, higher, lower), none with the same value is fresher, and none as
  fresh has a smaller address. There is no leader exactly when no aircraft qualifies, and the
  eligible ones are counted once each.
\<close>

theorem leaders_exact:
  "leads (\<lambda>a. - ac_GroundSpeedKts a) (leader_age (max 0 (time_sub now (sn_PublishedAt s)))) (has_speed (max 0 (time_sub now (sn_PublishedAt s)))) (sn_Aircraft s) (ll_Fastest (SelectLiveLeaders (Some s) now)) \<and>
   leads ac_GroundSpeedKts (leader_age (max 0 (time_sub now (sn_PublishedAt s)))) (has_speed (max 0 (time_sub now (sn_PublishedAt s)))) (sn_Aircraft s) (ll_Slowest (SelectLiveLeaders (Some s) now)) \<and>
   leads (\<lambda>a. - ac_AltitudeFeet a) (leader_age (max 0 (time_sub now (sn_PublishedAt s)))) (has_altitude (max 0 (time_sub now (sn_PublishedAt s)))) (sn_Aircraft s) (ll_Highest (SelectLiveLeaders (Some s) now)) \<and>
   leads ac_AltitudeFeet (leader_age (max 0 (time_sub now (sn_PublishedAt s)))) (has_altitude (max 0 (time_sub now (sn_PublishedAt s)))) (sn_Aircraft s) (ll_Lowest (SelectLiveLeaders (Some s) now)) \<and>
   ll_Eligible (SelectLiveLeaders (Some s) now) =
     length (filter (\<lambda>a. has_speed (max 0 (time_sub now (sn_PublishedAt s))) a \<or> has_altitude (max 0 (time_sub now (sn_PublishedAt s))) a) (sn_Aircraft s))"
  using leaders_fold [of "max 0 (time_sub now (sn_PublishedAt s))" "sn_Aircraft s"]
  unfolding SelectLiveLeaders_def Let_def option.case no_leaders_def [symmetric] .

section \<open>Route sightings\<close>

text \<open>The sightings of a batch, with the hour they count for.\<close>

definition batch_sightings :: "route_batch \<Rightarrow> sighting_key list" where
  "batch_sightings b = map (\<lambda>o'. (rsb_GuildID b, rsb_FeederID b, rsi_ICAO o', time_unix (rsb_BucketStart b))) (rsb_Observations b)"

type_synonym route_input = "time \<times> u64 \<times> snapshot option \<times> (string \<Rightarrow> route option) option \<times> time"

fun collect_run :: "route_input list \<Rightarrow> route_collector \<Rightarrow> sighting_key list \<times> route_collector" where
  "collect_run [] seen = ([], seen)"
| "collect_run ((clock, guild, snap, routes, now) # rest) seen =
     (let (b, seen') = collector_Observe clock guild snap routes now seen; (more, seen'') = collect_run rest seen' in
      (batch_sightings b @ more, seen''))"

definition input_time :: "route_input \<Rightarrow> time" where
  "input_time i = (case i of (clock, _, _, _, now) \<Rightarrow> if now = time_zero then clock else now)"

lemma observe_route_cases:
  "observe_route clock guild feeder bucket routes a (obs, seen) = (obs, seen) \<or>
   (\<exists>x. observe_route clock guild feeder bucket routes a (obs, seen) = (obs @ [x], AList.update (guild, feeder, rsi_ICAO x, time_unix bucket) () seen) \<and>
        map_of seen (guild, feeder, rsi_ICAO x, time_unix bucket) = None)"
proof -
  define callsign icao where "callsign = to_upper (trim_space (ac_Callsign a))" and "icao = to_upper (trim_space (ac_ICAO a))"
  show ?thesis
  proof (cases "Option.bind (routeFor clock routes callsign) (RouteCatalogFromDomain clock)")
    case None
    then show ?thesis
      unfolding observe_route_def Let_def callsign_def [symmetric] icao_def [symmetric]
      by (cases "routeFor clock routes callsign") simp_all
  next
    case (Some c)
    then obtain r where r: "routeFor clock routes callsign = Some r" "RouteCatalogFromDomain clock r = Some c" by (auto simp: bind_eq_Some_conv)
    have "observe_route clock guild feeder bucket routes a (obs, seen) =
        (if callsign = [] \<or> map_of seen (guild, feeder, icao, time_unix bucket) \<noteq> None then (obs, seen)
         else (obs @ [\<lparr> rsi_ICAO = icao, rsi_Callsign = callsign, rsi_Route = c \<rparr>], AList.update (guild, feeder, icao, time_unix bucket) () seen))"
      unfolding observe_route_def Let_def callsign_def [symmetric] icao_def [symmetric] by (simp add: r)
    then show ?thesis by (metis route_sighting.select_convs(1))
  qed
qed

lemma observe_route_fold:
  fixes guild feeder bucket
  defines "k \<equiv> \<lambda>o'. (guild, feeder, rsi_ICAO o', time_unix bucket)"
  assumes "fold (observe_route clock guild feeder bucket routes) as (obs, seen) = (obs', seen')"
    "set (map k obs) \<subseteq> dom (map_of seen)" "distinct (map k obs)"
  shows "\<exists>new. obs' = obs @ new \<and> distinct (map k obs') \<and> set (map k new) \<inter> dom (map_of seen) = {} \<and>
    dom (map_of seen') = dom (map_of seen) \<union> set (map k new)"
  using assms(2-)
proof (induction as arbitrary: obs seen)
  case (Cons a as)
  obtain obs1 seen1 where o1: "observe_route clock guild feeder bucket routes a (obs, seen) = (obs1, seen1)"
    by (cases "observe_route clock guild feeder bucket routes a (obs, seen)")
  have rest: "fold (observe_route clock guild feeder bucket routes) as (obs1, seen1) = (obs', seen')" using Cons.prems(1) o1 by simp
  consider "obs1 = obs" "seen1 = seen" | x where "obs1 = obs @ [x]" "map_of seen (k x) = None" "seen1 = AList.update (k x) () seen"
    using observe_route_cases [of clock guild feeder bucket routes a obs seen] unfolding o1 k_def by (elim disjE exE) auto
  then show ?case
  proof cases
    case 1
    then show ?thesis using Cons.IH [of obs1 seen1] rest Cons.prems(2,3) by simp
  next
    case x: (2 x)
    have "set (map k obs1) \<subseteq> dom (map_of seen1)" "distinct (map k obs1)" using x Cons.prems(2,3) by auto
    from Cons.IH [OF rest this] obtain new where n: "obs' = obs1 @ new" "distinct (map k obs')" "set (map k new) \<inter> dom (map_of seen1) = {}"
        "dom (map_of seen') = dom (map_of seen1) \<union> set (map k new)" by blast
    show ?thesis using n x by (intro exI [of _ "x # new"]) auto
  qed
qed auto

definition sighting_hour :: "sighting_key \<Rightarrow> int" where
  "sighting_hour k = (case k of (_, _, _, b) \<Rightarrow> b)"

lemma time_unix_mono: "s \<le> t \<Longrightarrow> time_unix s \<le> time_unix t"
  by (simp add: time_unix_def zdiv_mono1)

lemma truncate_hour_mono: "s \<le> t \<Longrightarrow> truncate_hour s \<le> truncate_hour t"
  by (simp add: truncate_hour_multiple zdiv_mono1)

lemma pruned_dom:
  assumes "gm_wf seen"
  shows "dom (map_of (collector_pruneLocked bucket seen)) = {k \<in> dom (map_of seen). time_unix (bucket - 2 * hour) \<le> sighting_hour k}"
  unfolding collector_pruneLocked_def Let_def
  by (auto simp: gm_get_delete_if [OF assms] sighting_hour_def dom_def split: option.splits prod.splits if_splits)

lemma observe_route_wf: "gm_wf seen \<Longrightarrow> gm_wf (snd (fold (observe_route clock guild feeder bucket routes) as (obs, seen)))"
proof (induction as arbitrary: obs seen)
  case (Cons a as)
  obtain obs1 seen1 where o1: "observe_route clock guild feeder bucket routes a (obs, seen) = (obs1, seen1)"
    by (cases "observe_route clock guild feeder bucket routes a (obs, seen)")
  have "gm_wf seen1" using observe_route_cases [of clock guild feeder bucket routes a obs seen] Cons.prems unfolding o1 by auto
  then show ?case using Cons.IH o1 by simp
qed simp

text \<open>What one observation does: new sightings of its hour, remembered; older ones may be forgotten.\<close>

lemma collector_Observe_spec:
  assumes run: "collector_Observe clock guild snap routes now seen = (b, seen')" and wf: "gm_wf seen"
  defines "B \<equiv> time_unix (truncate_hour (input_time (clock, guild, snap, routes, now)))"
  shows "gm_wf seen'" "distinct (batch_sightings b)" "set (batch_sightings b) \<inter> dom (map_of seen) = {}"
    "\<forall>k\<in>set (batch_sightings b). sighting_hour k = B"
    "set (batch_sightings b) \<union> {k \<in> dom (map_of seen). B \<le> sighting_hour k} \<subseteq> dom (map_of seen')"
proof -
  have "gm_wf seen' \<and> distinct (batch_sightings b) \<and> set (batch_sightings b) \<inter> dom (map_of seen) = {} \<and>
    (\<forall>k\<in>set (batch_sightings b). sighting_hour k = B) \<and>
    set (batch_sightings b) \<union> {k \<in> dom (map_of seen). B \<le> sighting_hour k} \<subseteq> dom (map_of seen')"
  proof (cases "snap = None \<or> guild = 0")
    case True
    then have "b = zero_route_batch" "seen' = seen" using run by (auto simp: collector_Observe_def split: option.splits)
    then show ?thesis using wf by (simp add: zero_route_batch_def batch_sightings_def)
  next
    case False
    then obtain w where w: "snap = Some w" "guild \<noteq> 0" by auto
    define bucket where "bucket = truncate_hour (if now = time_zero then clock else now)"
    define feeder where "feeder = (if sn_FeederID w = [] then FeederLocal else sn_FeederID w)"
    have B: "B = time_unix bucket" by (simp add: B_def bucket_def input_time_def)
    obtain obs where f: "fold (observe_route clock guild feeder bucket routes) (sn_Aircraft w) ([], collector_pruneLocked bucket seen) = (obs, seen')"
        and b: "b = (if obs = [] then zero_route_batch else \<lparr> rsb_GuildID = guild, rsb_FeederID = feeder, rsb_BucketStart = bucket, rsb_Observations = obs \<rparr>)"
      using run w unfolding collector_Observe_def Let_def w(1) option.case bucket_def [symmetric] feeder_def [symmetric]
      by (auto split: prod.splits if_splits)
    have keys: "batch_sightings b = map (\<lambda>o'. (guild, feeder, rsi_ICAO o', time_unix bucket)) obs"
      by (simp add: b batch_sightings_def zero_route_batch_def)
    have sp: "distinct (batch_sightings b)" "set (batch_sightings b) \<inter> dom (map_of (collector_pruneLocked bucket seen)) = {}"
        "dom (map_of seen') = dom (map_of (collector_pruneLocked bucket seen)) \<union> set (batch_sightings b)"
      using observe_route_fold [OF f] unfolding keys by auto
    have hours: "\<forall>k\<in>set (batch_sightings b). sighting_hour k = B" by (auto simp: keys B sighting_hour_def)
    have cut: "time_unix (bucket - 2 * hour) \<le> B" unfolding B by (rule time_unix_mono) simp
    have wf': "gm_wf seen'" using observe_route_wf [of "collector_pruneLocked bucket seen"] f wf
      by (metis collector_pruneLocked_def gm_wf_delete_if snd_conv)
    have kept: "k \<in> dom (map_of (collector_pruneLocked bucket seen))" if "k \<in> dom (map_of seen)" "B \<le> sighting_hour k" for k
      using that cut unfolding pruned_dom [OF wf] by simp
    have "k \<notin> dom (map_of seen)" if k: "k \<in> set (batch_sightings b)" for k
      using kept [of k] sp(2) hours k by (metis disjoint_iff order_refl)
    then have "set (batch_sightings b) \<inter> dom (map_of seen) = {}" by (meson disjoint_iff)
    moreover have "set (batch_sightings b) \<union> {k \<in> dom (map_of seen). B \<le> sighting_hour k} \<subseteq> dom (map_of seen')"
      using kept unfolding sp(3) by blast
    ultimately show ?thesis using sp(1) hours wf' by blast
  qed
  then show "gm_wf seen'" "distinct (batch_sightings b)" "set (batch_sightings b) \<inter> dom (map_of seen) = {}"
    "\<forall>k\<in>set (batch_sightings b). sighting_hour k = B"
    "set (batch_sightings b) \<union> {k \<in> dom (map_of seen). B \<le> sighting_hour k} \<subseteq> dom (map_of seen')" by blast+
qed

lemma collect_run_once:
  assumes "collect_run inputs seen = (out, seen')" "gm_wf seen" "sorted (map input_time inputs)" "list_all (\<lambda>i. t \<le> input_time i) inputs"
  shows "distinct out \<and> set out \<inter> dom (map_of seen) = {} \<and> (\<forall>k\<in>set out. time_unix (truncate_hour t) \<le> sighting_hour k)"
  using assms
proof (induction inputs arbitrary: seen out t)
  case (Cons i inputs)
  obtain clock guild snap routes now where i: "i = (clock, guild, snap, routes, now)" by (cases i)
  obtain b seen1 where o1: "collector_Observe clock guild snap routes now seen = (b, seen1)" by (cases "collector_Observe clock guild snap routes now seen")
  obtain more where m: "collect_run inputs seen1 = (more, seen')" "out = batch_sightings b @ more"
    using Cons.prems(1) by (auto simp: i o1 split: prod.splits)
  define B where "B = time_unix (truncate_hour (input_time i))"
  note sp = collector_Observe_spec [OF o1 Cons.prems(2), folded i B_def]
  have "list_all (\<lambda>j. input_time i \<le> input_time j) inputs" using Cons.prems(3) by (auto simp: list_all_iff)
  then have IH: "distinct more \<and> set more \<inter> dom (map_of seen1) = {} \<and> (\<forall>k\<in>set more. B \<le> sighting_hour k)"
    using Cons.IH [OF m(1) sp(1), of "input_time i"] Cons.prems(3) by (simp add: B_def)
  have "time_unix (truncate_hour t) \<le> B"
    unfolding B_def using Cons.prems(4) by (intro time_unix_mono truncate_hour_mono) simp
  then have "\<forall>k\<in>set out. time_unix (truncate_hour t) \<le> sighting_hour k" using IH sp(4) m(2) by auto
  moreover have "k \<notin> dom (map_of seen)" if "k \<in> set more" for k
    using IH sp(5) that by blast
  then have "set out \<inter> dom (map_of seen) = {}" using sp(3) m(2) by (auto simp: disjoint_iff simp del: split_paired_All)
  moreover have "distinct out" using IH sp(2,5) m(2) by auto
  ultimately show ?case by blast
qed simp

text \<open>A route sighting counts once per hour. While the clock does not run backwards, no
  aircraft of a guild and a feeder is reported twice for the same hour, however many snapshots
  show it and although the collector forgets hours that are more than two hours old.
\<close>

theorem route_sightings_once:
  assumes "sorted (map input_time inputs)"
  shows "distinct (fst (collect_run inputs NewRouteStatsCollector))"
proof (cases inputs)
  case (Cons i rest)
  have "list_all (\<lambda>j. input_time i \<le> input_time j) inputs" using assms Cons by (auto simp: list_all_iff)
  then show ?thesis
    using collect_run_once [of inputs NewRouteStatsCollector _ _ "input_time i"] assms
    by (cases "collect_run inputs NewRouteStatsCollector") (auto simp: NewRouteStatsCollector_def)
qed simp

section \<open>Witnesses\<close>

lemma applyUntil_ok:
  assumes "store_events tx_ok 0 batch db = Inr db'" "batch \<noteq> []"
  shows "\<exists>w'. applyUntil ApplyBatch (answers tx_ok) batch w db = Some (applySucceeded, w', db')"
  using assms
  by (simp add: applyUntil_def, subst apply_loop.simps)
    (simp add: writer_apply_def ApplyBatch_def answers_def Let_def, simp add: tx_ok_def)

lemma demo_stop:
  obtains s' where "run_stop ApplyBatch (answers tx_ok) (answers tx_ok) demo_run = Some (applySucceeded, applySucceeded, s')"
    "rn_accepted s' = [demo_rollup_event 2 90, demo_rollup_event 5 40]"
proof -
  have r: "sw_queue (rn_w demo_run) = []" "rn_batch demo_run = []" "rn_db demo_run = demo_db" by (simp_all add: demo_run_simps)
  have "rollupEvents (rn_rollups demo_run) \<noteq> []" by (simp add: demo_run_simps rollupEvents_def)
  moreover obtain db' where "store_events tx_ok 0 (rollupEvents (rn_rollups demo_run)) demo_db = Inr db'"
    by (simp add: demo_run_simps rollupEvents_def tx_ok_def store_event_def store_rollup_def demo_db_def Let_def)
  ultimately obtain w' where w': "applyUntil ApplyBatch (answers tx_ok) (rollupEvents (rn_rollups demo_run)) ((rn_w demo_run)\<lparr> sw_queue := [] \<rparr>) demo_db = Some (applySucceeded, w', db')"
    using applyUntil_ok by blast
  have "applyUntil ApplyBatch (answers tx_ok) [] w demo_db = Some (applySucceeded, w, demo_db)" for w by (simp add: applyUntil_def)
  then have "run_stop ApplyBatch (answers tx_ok) (answers tx_ok) demo_run
      = Some (applySucceeded, applySucceeded, demo_run\<lparr> rn_w := w', rn_db := db', rn_batch := [], rn_rollups := [], rn_stopped := True \<rparr>)"
    by (simp add: run_stop_def drainInto_def r w')
  then show ?thesis using that demo_run_state(3) by simp
qed


definition demo_inputs :: "route_input list" where
  "demo_inputs = [(0, 1, Some (zero_snapshot\<lparr> sn_Aircraft := [zero_aircraft\<lparr> ac_Callsign := ''AAL100'', ac_ICAO := ''ABC123'' \<rparr>] \<rparr>), None, 5),
     (0, 1, Some zero_snapshot, None, 9)]"

theorem route_sightings_once_witness:
  "sorted (map input_time demo_inputs) \<and> distinct (fst (collect_run demo_inputs NewRouteStatsCollector))"
proof -
  have "sorted (map input_time demo_inputs)" by (simp add: demo_inputs_def input_time_def)
  then show ?thesis using route_sightings_once by blast
qed

end
