(* ===== verification/Agent_Protocol.thy ===== *)
theory Agent_Protocol
  imports Snapshot_Wf Geo
begin

text \<open>
  \<open>internal/source/agent\<close>, the parts both sides share: the payload of a snapshot, its encoding
  and decoding (\<open>protocol.go\<close>), the signed envelope and its verification, and the validator of
  transport identities (\<open>validator.go\<close>). The JSON encoding, zstd, SHA-256 and Ed25519 are the
  fields of \<open>codec\<close>, a parameter of the definitions; what a theorem needs of them is
  among its hypotheses.
\<close>

section \<open>Data\<close>

definition ProtocolVersion :: int where
  "ProtocolVersion = 1"

definition MaxCompressedBytes :: nat where
  "MaxCompressedBytes = 2 * 2 ^ 20"

definition MaxDecompressedBytes :: nat where
  "MaxDecompressedBytes = 16 * 2 ^ 20"

definition MaxAircraft :: nat where
  "MaxAircraft = 5000"

definition DefaultMaxClockSkew :: duration where
  "DefaultMaxClockSkew = 2 * minute"

abbreviation (input) PrivateKeySize :: nat where "PrivateKeySize \<equiv> 64"
abbreviation (input) PublicKeySize :: nat where "PublicKeySize \<equiv> 32"
abbreviation (input) SignatureSize :: nat where "SignatureSize \<equiv> 64"

datatype agent_error =
    ErrVersion
  | ErrSignature
  | ErrIdentity
  | ErrReplay u64 u64
  | ErrClock
  | ErrPayload
  | ErrSequenceRejected
  | ErrEnrollmentInvalid
  | ErrFeederNotFound
  | AgentError string

record signed_envelope =
  en_Version :: int
  en_FeederID :: feeder_id
  en_Sequence :: u64
  en_SentAt :: time
  en_Payload :: string
  en_Signature :: string

record snapshot_payload =
  pl_SourceGeneratedAt :: time
  pl_FetchedAt :: time
  pl_ActiveProvider :: provider_id
  pl_Capabilities :: capabilities
  pl_Receiver :: receiver
  pl_Statistics :: statistics
  pl_ReceiverMessages :: u64
  pl_MessageValid :: bool
  pl_Aircraft :: "aircraft list"
  pl_Health :: health

text \<open>
  The libraries: \<open>json.Marshal\<close> of a payload and the first value of a \<open>json.Decoder\<close>
  (\<open>None\<close>: an error), whether anything but the end of the input follows it, zstd, SHA-256
  and Ed25519.
\<close>

record codec =
  cd_marshal :: "snapshot_payload \<Rightarrow> string option"
  cd_unmarshal :: "string \<Rightarrow> snapshot_payload option"
  cd_trailing :: "string \<Rightarrow> bool"
  cd_compress :: "string \<Rightarrow> string"
  cd_decompress :: "string \<Rightarrow> string option"
  cd_sha256 :: "string \<Rightarrow> string"
  cd_sign :: "string \<Rightarrow> string \<Rightarrow> string"
  cd_verify :: "string \<Rightarrow> string \<Rightarrow> string \<Rightarrow> bool"

section \<open>Encoding\<close>

definition redact_receiver :: "receiver \<Rightarrow> receiver" where
  "redact_receiver r = r\<lparr> rc_Latitude := 0, rc_Longitude := 0, rc_HasPosition := False \<rparr>"

definition redact_aircraft :: "aircraft \<Rightarrow> aircraft" where
  "redact_aircraft a = a\<lparr> ac_DistanceNM := 0, ac_BearingDegrees := 0, ac_HasDistance := False, ac_SeenBy := [] \<rparr>"

definition payload_of :: "snapshot \<Rightarrow> snapshot_payload" where
  "payload_of s = \<lparr> pl_SourceGeneratedAt = sn_SourceGeneratedAt s, pl_FetchedAt = sn_FetchedAt s,
     pl_ActiveProvider = sn_ActiveProvider s, pl_Capabilities = sn_Capabilities s, pl_Receiver = redact_receiver (sn_Receiver s),
     pl_Statistics = sn_Statistics s, pl_ReceiverMessages = sn_ReceiverMessages s, pl_MessageValid = sn_MessageCounterValid s,
     pl_Aircraft = map redact_aircraft (sn_Aircraft s), pl_Health = sn_Health s \<rparr>"

definition Encode :: "codec \<Rightarrow> bool \<Rightarrow> snapshot option \<Rightarrow> agent_error + string" where
  "Encode c opened snapshot =
     (if \<not> opened then Inl (AgentError ''snapshot encoder is required'')
      else
        (case snapshot of
           None \<Rightarrow> Inl (AgentError ''snapshot is required'')
         | Some s \<Rightarrow>
             if length (sn_Aircraft s) > MaxAircraft then Inl (AgentError ''aircraft count exceeds the limit'')
             else
               (case cd_marshal c (payload_of s) of
                  None \<Rightarrow> Inl (AgentError ''encode agent snapshot'')
                | Some raw \<Rightarrow>
                    if length raw > MaxDecompressedBytes then Inl (AgentError ''snapshot JSON exceeds the limit'')
                    else
                      let compressed = cd_compress c raw in
                      if length compressed > MaxCompressedBytes then Inl (AgentError ''compressed snapshot exceeds the limit'')
                      else Inr compressed)))"

section \<open>Decoding\<close>

text \<open>The loop that builds the index and the search keys.\<close>

fun decode_index ::
    "int \<Rightarrow> aircraft list \<Rightarrow> (string, int) gomap \<Rightarrow> aircraft_key list \<Rightarrow> agent_error + (string, int) gomap \<times> aircraft_key list" where
  "decode_index index [] byICAO search = Inr (byICAO, search)"
| "decode_index index (a # as) byICAO search =
     (let icao = ac_ICAO a in
      if icao = [] then Inl (AgentError ''agent aircraft ICAO is required'')
      else if map_of byICAO icao \<noteq> None then Inl (AgentError ''agent snapshot contains duplicate aircraft ICAO'')
      else decode_index (index + 1) as (AList.update icao index byICAO) (search @ [aircraft_key_of a]))"

definition decode_aircraft :: "aircraft list \<Rightarrow> aircraft list" where
  "decode_aircraft as = sort_key ac_ICAO (map (\<lambda>a. a\<lparr> ac_ICAO := to_upper (trim_space (ac_ICAO a)), ac_SeenBy := [] \<rparr>) as)"

definition decoded_snapshot ::
    "feeder_id \<Rightarrow> time \<Rightarrow> snapshot_payload \<Rightarrow> aircraft list \<Rightarrow> (string, int) gomap \<times> aircraft_key list \<Rightarrow> snapshot" where
  "decoded_snapshot feederID publishedAt p aircraft indexes =
     \<lparr> sn_FeederID = feederID, sn_Feeders = [], sn_Sequence = 0, sn_ActiveProvider = pl_ActiveProvider p, sn_ProviderChangedAt = 0,
       sn_Capabilities = pl_Capabilities p, sn_SourceGeneratedAt = pl_SourceGeneratedAt p, sn_FetchedAt = pl_FetchedAt p,
       sn_PublishedAt = publishedAt, sn_Receiver = pl_Receiver p, sn_Statistics = pl_Statistics p,
       sn_ReceiverMessages = pl_ReceiverMessages p, sn_MessageCounterValid = pl_MessageValid p, sn_Aircraft = aircraft,
       sn_ByICAO = fst indexes, sn_Search = snd indexes, sn_Health = pl_Health p \<rparr>"

definition Decode :: "codec \<Rightarrow> feeder_id \<Rightarrow> string \<Rightarrow> time \<Rightarrow> agent_error + snapshot" where
  "Decode c feederID compressed publishedAt =
     (if compressed = [] \<or> length compressed > MaxCompressedBytes then Inl ErrPayload
      else
        (case cd_decompress c compressed of
           None \<Rightarrow> Inl ErrPayload
         | Some raw \<Rightarrow>
             if length raw > MaxDecompressedBytes then Inl ErrPayload
             else
               (case cd_unmarshal c raw of
                  None \<Rightarrow> Inl (AgentError ''decode agent snapshot'')
                | Some p \<Rightarrow>
                    if cd_trailing c raw then Inl ErrPayload
                    else if length (pl_Aircraft p) > MaxAircraft then Inl ErrPayload
                    else if \<not> feeder_id_Valid feederID \<or> feederID = FeederAll then Inl ErrIdentity
                    else
                      let aircraft = decode_aircraft (pl_Aircraft p) in
                      (case decode_index 0 aircraft [] [] of
                         Inl e \<Rightarrow> Inl e
                       | Inr indexes \<Rightarrow> Inr (decoded_snapshot feederID publishedAt p aircraft indexes)))))"

section \<open>Envelopes\<close>

text \<open>\<open>binary.BigEndian.AppendUint16\<close> and \<open>AppendUint64\<close>.\<close>

definition be_bytes :: "nat \<Rightarrow> nat \<Rightarrow> string" where
  "be_bytes n v = map (\<lambda>i. char_of (v div 256 ^ i mod 256)) (rev [0..<n])"

definition signingBytes :: "signed_envelope \<Rightarrow> string \<Rightarrow> string" where
  "signingBytes e hash =
     be_bytes 2 (nat (en_Version e mod 2 ^ 16)) @ be_bytes 1 (length (en_FeederID e) mod 256) @ en_FeederID e @
     be_bytes 8 (unat (en_Sequence e)) @ be_bytes 8 (nat (time_unix_milli (en_SentAt e) mod 2 ^ 64)) @ hash"

definition SignEnvelope :: "codec \<Rightarrow> string \<Rightarrow> feeder_id \<Rightarrow> u64 \<Rightarrow> time \<Rightarrow> string \<Rightarrow> agent_error + signed_envelope" where
  "SignEnvelope c privateKey feederID sequence sentAt payload =
     (if length privateKey \<noteq> PrivateKeySize \<or> \<not> feeder_id_Valid feederID \<or> feederID = FeederAll \<or> sequence = 0 \<or>
         payload = [] \<or> length payload > MaxCompressedBytes
      then Inl (AgentError ''invalid signed envelope input'')
      else
        let e = \<lparr> en_Version = ProtocolVersion, en_FeederID = feederID, en_Sequence = sequence, en_SentAt = sentAt,
                  en_Payload = payload, en_Signature = [] \<rparr>
        in Inr (e\<lparr> en_Signature := cd_sign c privateKey (signingBytes e (cd_sha256 c payload)) \<rparr>))"

definition VerifyEnvelope :: "codec \<Rightarrow> string \<Rightarrow> signed_envelope \<Rightarrow> time \<Rightarrow> duration \<Rightarrow> agent_error + string" where
  "VerifyEnvelope c publicKey e now maxSkew =
     (if en_Version e \<noteq> ProtocolVersion then Inl ErrVersion
      else if length publicKey \<noteq> PublicKeySize \<or> length (en_Signature e) \<noteq> SignatureSize \<or> \<not> feeder_id_Valid (en_FeederID e) \<or>
        en_FeederID e = FeederAll \<or> en_Sequence e = 0 then Inl ErrSignature
      else if en_Payload e = [] \<or> length (en_Payload e) > MaxCompressedBytes then Inl ErrPayload
      else
        let skew = (if maxSkew \<le> 0 then DefaultMaxClockSkew else maxSkew) in
        if en_SentAt e < now - skew \<or> en_SentAt e > now + skew then Inl ErrClock
        else
          let hash = cd_sha256 c (en_Payload e) in
          if \<not> cd_verify c publicKey (signingBytes e hash) (en_Signature e) then Inl ErrSignature else Inr hash)"

section \<open>The validator of transport identities\<close>

record transport_envelope =
  te_SourceID :: string
  te_Sequence :: u64
  te_SentAt :: time
  te_Payload :: string

record validator =
  va_last :: "(string, u64) gomap"
  va_maxSkew :: duration
  va_maxPayload :: int

definition NewValidator :: "duration \<Rightarrow> int \<Rightarrow> validator" where
  "NewValidator maxSkew maxPayload = \<lparr> va_last = [], va_maxSkew = maxSkew, va_maxPayload = maxPayload \<rparr>"

definition last_sequence :: "validator \<Rightarrow> string \<Rightarrow> u64" where
  "last_sequence v i = (case map_of (va_last v) i of None \<Rightarrow> 0 | Some n \<Rightarrow> n)"

definition Validate :: "time \<Rightarrow> string \<Rightarrow> transport_envelope \<Rightarrow> validator \<Rightarrow> agent_error option \<times> validator" where
  "Validate now certificateIdentity e v =
     (if certificateIdentity = [] \<or> certificateIdentity \<noteq> te_SourceID e then (Some ErrIdentity, v)
      else if te_Payload e = [] \<or> int (length (te_Payload e)) > va_maxPayload v then (Some ErrPayload, v)
      else if te_SentAt e < now - va_maxSkew v \<or> te_SentAt e > now + va_maxSkew v then (Some ErrClock, v)
      else if te_Sequence e \<le> last_sequence v (te_SourceID e)
        then (Some (ErrReplay (te_Sequence e) (last_sequence v (te_SourceID e))), v)
      else (None, v\<lparr> va_last := AList.update (te_SourceID e) (te_Sequence e) (va_last v) \<rparr>))"

end
