(* ===== verification/Feeder_Store.thy ===== *)
theory Feeder_Store
  imports Agent_Protocol
begin

text \<open>
  \<open>internal/storage/sqlite/store_feeders.go\<close>: the tables of feeders and of enrollments. A row
  is a \<open>storage.Feeder\<close>; a nullable column is empty or zero when it is \<open>NULL\<close>, as
  \<open>scanFeeder\<close> reads it. The pool has one connection, so a transaction is one step. Whether
  the database executes a statement (it may be busy, or a constraint of the schema may fail)
  is an argument.
\<close>

section \<open>Rows\<close>

record stored_feeder =
  sf_Descriptor :: feeder_descriptor
  sf_GuildID :: u64
  sf_OwnerUserID :: u64
  sf_PublicKey :: string
  sf_LastSequence :: u64
  sf_LastPayloadHash :: string
  sf_LastSeenAt :: time
  sf_CreatedAt :: time
  sf_UpdatedAt :: time

record feeder_enrollment =
  enr_TokenHash :: string
  enr_FeederID :: feeder_id
  enr_ExpiresAt :: time
  enr_CreatedAt :: time

text \<open>A row of \<open>feeder_enrollments\<close>: \<open>consumed_at\<close> and \<open>revoked_at\<close> may be \<open>NULL\<close>.\<close>

record enrollment_row =
  er_FeederID :: feeder_id
  er_ExpiresAt :: time
  er_ConsumedAt :: "time option"
  er_RevokedAt :: "time option"
  er_CreatedAt :: time

record feeder_db =
  fdb_feeders :: "(feeder_id, stored_feeder) gomap"
  fdb_enrollments :: "(string, enrollment_row) gomap"

datatype sequence_acceptance = SequenceAccepted | SequenceDuplicate | SequenceRejected

section \<open>Operations\<close>

definition stored_descriptor :: "feeder_id \<Rightarrow> string \<Rightarrow> feeder_descriptor \<Rightarrow> feeder_descriptor" where
  "stored_descriptor i name d =
     d\<lparr> fd_ID := i, fd_DisplayName := name, fd_PublicArea := trim_space (fd_PublicArea d),
        fd_AirportICAO := to_upper (trim_space (fd_AirportICAO d)),
        fd_WeatherStationICAO := to_upper (trim_space (fd_WeatherStationICAO d)),
        fd_Latitude := (if fd_HasCenter d then fd_Latitude d else 0),
        fd_Longitude := (if fd_HasCenter d then fd_Longitude d else 0) \<rparr>"

text \<open>\<open>ON CONFLICT(id) DO UPDATE\<close>: the key, the sequence and the kind of the source are kept.\<close>

definition merge_feeder :: "stored_feeder \<Rightarrow> stored_feeder \<Rightarrow> stored_feeder" where
  "merge_feeder old new =
     old\<lparr> sf_Descriptor := (sf_Descriptor new)\<lparr> fd_SourceKind := fd_SourceKind (sf_Descriptor old) \<rparr>,
          sf_OwnerUserID := sf_OwnerUserID new, sf_UpdatedAt := sf_UpdatedAt new \<rparr>"

definition UpsertFeeder :: "bool \<Rightarrow> time \<Rightarrow> stored_feeder \<Rightarrow> feeder_db \<Rightarrow> agent_error option \<times> feeder_db" where
  "UpsertFeeder db_ok clock value db =
     (let d = sf_Descriptor value in
      case NormalizeFeederID (fd_ID d) of
        Inl _ \<Rightarrow> (Some (AgentError ''invalid feeder ID''), db)
      | Inr i \<Rightarrow>
          if i = FeederAll then (Some (AgentError ''invalid feeder ID''), db)
          else
            (case NormalizeFeederDisplayName (fd_DisplayName d) of
               Inl _ \<Rightarrow> (Some (AgentError ''invalid display name''), db)
             | Inr name \<Rightarrow>
                 if fd_SourceKind d \<noteq> FeederSourceLocal \<and> fd_SourceKind d \<noteq> FeederSourceAgent
                   then (Some (AgentError ''feeder source kind must be local or agent''), db)
                 else if \<not> db_ok then (Some (AgentError ''upsert feeder''), db)
                 else
                   let now = (if sf_UpdatedAt value = time_zero then clock else sf_UpdatedAt value);
                       created = (if sf_CreatedAt value = time_zero then now else sf_CreatedAt value);
                       row = value\<lparr> sf_Descriptor := stored_descriptor i name d, sf_CreatedAt := created, sf_UpdatedAt := now \<rparr>;
                       row' = (case map_of (fdb_feeders db) i of None \<Rightarrow> row | Some old \<Rightarrow> merge_feeder old row)
                   in (None, db\<lparr> fdb_feeders := AList.update i row' (fdb_feeders db) \<rparr>)))"

definition store_Feeder :: "feeder_id \<Rightarrow> feeder_db \<Rightarrow> agent_error + stored_feeder" where
  "store_Feeder i db = (case map_of (fdb_feeders db) i of None \<Rightarrow> Inl ErrFeederNotFound | Some f \<Rightarrow> Inr f)"

definition store_Feeders :: "u64 \<Rightarrow> int \<Rightarrow> feeder_db \<Rightarrow> stored_feeder list" where
  "store_Feeders guildID limit db =
     take (nat (min (max limit 1) 250))
       (sort_key (\<lambda>f. (fd_DisplayName (sf_Descriptor f), fd_ID (sf_Descriptor f)))
         (filter (\<lambda>f. sf_GuildID f = guildID) (map snd (fdb_feeders db))))"

definition CreateFeederEnrollment :: "bool \<Rightarrow> time \<Rightarrow> feeder_enrollment \<Rightarrow> feeder_db \<Rightarrow> agent_error option \<times> feeder_db" where
  "CreateFeederEnrollment db_ok clock e db =
     (let created = (if enr_CreatedAt e = time_zero then clock else enr_CreatedAt e) in
      if length (enr_TokenHash e) \<noteq> 32 then (Some (AgentError ''enrollment token hash must be 32 bytes''), db)
      else if \<not> feeder_id_Valid (enr_FeederID e) \<or> enr_FeederID e = FeederAll
        then (Some (AgentError ''invalid enrollment feeder ID''), db)
      else if \<not> enr_ExpiresAt e > created then (Some (AgentError ''enrollment expiry must be after creation''), db)
      else if \<not> db_ok \<or> map_of (fdb_enrollments db) (enr_TokenHash e) \<noteq> None \<or> map_of (fdb_feeders db) (enr_FeederID e) = None
        then (Some (AgentError ''create feeder enrollment''), db)
      else (None, db\<lparr> fdb_enrollments := AList.update (enr_TokenHash e)
              \<lparr> er_FeederID = enr_FeederID e, er_ExpiresAt = enr_ExpiresAt e, er_ConsumedAt = None, er_RevokedAt = None, er_CreatedAt = created \<rparr>
              (fdb_enrollments db) \<rparr>))"

definition activate_feeder :: "string \<Rightarrow> time \<Rightarrow> stored_feeder \<Rightarrow> stored_feeder" where
  "activate_feeder publicKey now f =
     f\<lparr> sf_PublicKey := publicKey, sf_LastSequence := 0, sf_LastPayloadHash := [],
        sf_Descriptor := (sf_Descriptor f)\<lparr> fd_Enabled := True \<rparr>, sf_UpdatedAt := now \<rparr>"

definition update_feeder :: "feeder_id \<Rightarrow> (stored_feeder \<Rightarrow> stored_feeder) \<Rightarrow> feeder_db \<Rightarrow> feeder_db" where
  "update_feeder i f db =
     (case map_of (fdb_feeders db) i of None \<Rightarrow> db | Some row \<Rightarrow> db\<lparr> fdb_feeders := AList.update i (f row) (fdb_feeders db) \<rparr>)"

definition ConsumeFeederEnrollment ::
    "bool \<Rightarrow> string \<Rightarrow> string \<Rightarrow> time \<Rightarrow> feeder_db \<Rightarrow> (agent_error + stored_feeder) \<times> feeder_db" where
  "ConsumeFeederEnrollment db_ok tokenHash publicKey now db =
     (if length tokenHash \<noteq> 32 \<or> length publicKey \<noteq> 32 then (Inl ErrEnrollmentInvalid, db)
      else if \<not> db_ok then (Inl (AgentError ''feeder enrollment''), db)
      else
        (case map_of (fdb_enrollments db) tokenHash of
           None \<Rightarrow> (Inl ErrEnrollmentInvalid, db)
         | Some e \<Rightarrow>
             if er_ConsumedAt e \<noteq> None \<or> er_RevokedAt e \<noteq> None \<or> \<not> now < er_ExpiresAt e then (Inl ErrEnrollmentInvalid, db)
             else
               let db1 = db\<lparr> fdb_enrollments := AList.update tokenHash (e\<lparr> er_ConsumedAt := Some now \<rparr>) (fdb_enrollments db) \<rparr>;
                   db2 = update_feeder (er_FeederID e) (activate_feeder publicKey now) db1
               in (store_Feeder (er_FeederID e) db2, db2)))"

definition revoke_row :: "time \<Rightarrow> stored_feeder \<Rightarrow> stored_feeder" where
  "revoke_row now f =
     f\<lparr> sf_Descriptor := (sf_Descriptor f)\<lparr> fd_Enabled := False \<rparr>, sf_PublicKey := [], sf_LastPayloadHash := [], sf_UpdatedAt := now \<rparr>"

definition revoke_enrollments :: "feeder_id \<Rightarrow> time \<Rightarrow> (string, enrollment_row) gomap \<Rightarrow> (string, enrollment_row) gomap" where
  "revoke_enrollments i now rows =
     map (\<lambda>(k, e). (k, if er_FeederID e = i \<and> er_ConsumedAt e = None \<and> er_RevokedAt e = None then e\<lparr> er_RevokedAt := Some now \<rparr> else e)) rows"

definition RevokeFeeder :: "bool \<Rightarrow> feeder_id \<Rightarrow> time \<Rightarrow> feeder_db \<Rightarrow> agent_error option \<times> feeder_db" where
  "RevokeFeeder db_ok i now db =
     (if \<not> db_ok then (Some (AgentError ''revoke feeder''), db)
      else
        (case map_of (fdb_feeders db) i of
           None \<Rightarrow> (Some ErrFeederNotFound, db)
         | Some f \<Rightarrow>
             if fd_SourceKind (sf_Descriptor f) \<noteq> FeederSourceAgent then (Some ErrFeederNotFound, db)
             else (None, db\<lparr> fdb_feeders := AList.update i (revoke_row now f) (fdb_feeders db),
                             fdb_enrollments := revoke_enrollments i now (fdb_enrollments db) \<rparr>)))"

definition accept_row :: "u64 \<Rightarrow> string \<Rightarrow> time \<Rightarrow> stored_feeder \<Rightarrow> stored_feeder" where
  "accept_row sequence payloadHash seenAt f =
     f\<lparr> sf_LastSequence := sequence, sf_LastPayloadHash := payloadHash, sf_LastSeenAt := seenAt, sf_UpdatedAt := seenAt \<rparr>"

text \<open>
  The query fails (\<open>read_ok\<close> is false) with \<open>enabled\<close> still zero, so the rejection is
  returned before the error is looked at. The driver refuses an unsigned integer with the
  high bit set.
\<close>

definition AcceptFeederSequence ::
    "bool \<Rightarrow> bool \<Rightarrow> bool \<Rightarrow> feeder_id \<Rightarrow> u64 \<Rightarrow> string \<Rightarrow> time \<Rightarrow> feeder_db \<Rightarrow> (agent_error + sequence_acceptance) \<times> feeder_db" where
  "AcceptFeederSequence begin_ok read_ok write_ok i sequence payloadHash seenAt db =
     (if sequence = 0 \<or> length payloadHash \<noteq> 32 then (Inl ErrSequenceRejected, db)
      else if \<not> begin_ok then (Inl (AgentError ''begin feeder sequence''), db)
      else
        (case (if read_ok then map_of (fdb_feeders db) i else None) of
           None \<Rightarrow> (Inl ErrSequenceRejected, db)
         | Some f \<Rightarrow>
             if \<not> fd_Enabled (sf_Descriptor f) \<or> length (sf_PublicKey f) \<noteq> 32 then (Inl ErrSequenceRejected, db)
             else if sequence < sf_LastSequence f then (Inl ErrSequenceRejected, db)
             else if sequence = sf_LastSequence f then
               (if payloadHash = sf_LastPayloadHash f then (Inr SequenceDuplicate, db) else (Inl ErrSequenceRejected, db))
             else if \<not> write_ok \<or> unat sequence \<ge> 2 ^ 63 then (Inl (AgentError ''update feeder sequence''), db)
             else (Inr SequenceAccepted, db\<lparr> fdb_feeders := AList.update i (accept_row sequence payloadHash seenAt f) (fdb_feeders db) \<rparr>)))"

end
