(* ===== verification/Agent_Server.thy ===== *)
theory Agent_Server
  imports Feeder_Store Feeder_Manager
begin

text \<open>
  \<open>internal/source/agent/server.go\<close> and \<open>client.go\<close>: the ingress that verifies and publishes the
  snapshots of remote agents, and the client that signs and delivers them; and the delivery
  loop of \<open>runner.go\<close>. The publisher is the manager of the feeders. HTTP, the credentials
  file and the clocks are arguments.
\<close>

section \<open>The ingress\<close>

record agent_server =
  sv_db :: feeder_db
  sv_manager :: feeder_manager

definition center_aircraft :: "feeder_descriptor \<Rightarrow> aircraft \<Rightarrow> aircraft" where
  "center_aircraft d a =
     (let a0 = a\<lparr> ac_DistanceNM := 0, ac_BearingDegrees := 0, ac_HasDistance := False \<rparr> in
      if fd_HasCenter d \<and> ac_HasPosition a then
        let (distance, bearing) = DistanceBearing (fd_Latitude d) (fd_Longitude d) (ac_Latitude a) (ac_Longitude a)
        in a0\<lparr> ac_DistanceNM := distance, ac_BearingDegrees := bearing, ac_HasDistance := True \<rparr>
      else a0)"

definition applyPublicCenter :: "feeder_descriptor \<Rightarrow> snapshot \<Rightarrow> snapshot" where
  "applyPublicCenter d s =
     s\<lparr> sn_Receiver := (sn_Receiver s)\<lparr> rc_Latitude := 0, rc_Longitude := 0, rc_HasPosition := False \<rparr>,
        sn_Aircraft := map (center_aircraft d) (sn_Aircraft s) \<rparr>"

text \<open>What \<open>process\<close> does before it touches the sequence: identity, signature, decoding.\<close>

definition verify_stage :: "codec \<Rightarrow> time \<Rightarrow> time \<Rightarrow> feeder_db \<Rightarrow> signed_envelope \<Rightarrow> agent_error + string \<times> snapshot" where
  "verify_stage c now1 now2 db e =
     (case store_Feeder (en_FeederID e) db of
        Inl _ \<Rightarrow> Inl ErrIdentity
      | Inr f \<Rightarrow>
          if \<not> fd_Enabled (sf_Descriptor f) \<or> fd_SourceKind (sf_Descriptor f) \<noteq> FeederSourceAgent then Inl ErrIdentity
          else
            (case VerifyEnvelope c (sf_PublicKey f) e now1 DefaultMaxClockSkew of
               Inl err \<Rightarrow> Inl err
             | Inr hash \<Rightarrow>
                 (case Decode c (en_FeederID e) (en_Payload e) now2 of
                    Inl err \<Rightarrow> Inl err
                  | Inr s \<Rightarrow> Inr (hash, applyPublicCenter (sf_Descriptor f) s))))"

record ingress_env =
  ie_now1 :: time
  ie_now2 :: time
  ie_now3 :: time
  ie_begin :: bool
  ie_read :: bool
  ie_write :: bool

text \<open>The rest of \<open>process\<close>: the sequence is claimed, then the snapshot is published.\<close>

definition accept_stage ::
    "ingress_env \<Rightarrow> signed_envelope \<Rightarrow> string \<times> snapshot \<Rightarrow> agent_server \<Rightarrow> (agent_error + bool) \<times> agent_server" where
  "accept_stage env e verified sv =
     (let (hash, s) = verified;
          (r, db') = AcceptFeederSequence (ie_begin env) (ie_read env) (ie_write env) (en_FeederID e) (en_Sequence e) hash (ie_now3 env) (sv_db sv);
          sv' = sv\<lparr> sv_db := db' \<rparr>
      in case r of
           Inl err \<Rightarrow> (Inl err, sv')
         | Inr acceptance \<Rightarrow>
             let (published, m') = Publish (en_FeederID e) (Some s) (sv_manager sv'); sv'' = sv'\<lparr> sv_manager := m' \<rparr> in
             if acceptance = SequenceDuplicate then
               (if \<not> published then (Inl (AgentError ''duplicate feeder publication refused''), sv'') else (Inr True, sv''))
             else if \<not> published then (Inl (AgentError ''feeder publication refused''), sv'')
             else (Inr False, sv''))"

definition process :: "codec \<Rightarrow> ingress_env \<Rightarrow> signed_envelope \<Rightarrow> agent_server \<Rightarrow> (agent_error + bool) \<times> agent_server" where
  "process c env e sv =
     (case verify_stage c (ie_now1 env) (ie_now2 env) (sv_db sv) e of
        Inl err \<Rightarrow> (Inl err, sv)
      | Inr verified \<Rightarrow> accept_stage env e verified sv)"

definition snapshot_status :: "agent_error + bool \<Rightarrow> int" where
  "snapshot_status r =
     (case r of
        Inr _ \<Rightarrow> 200
      | Inl err \<Rightarrow>
          if err = ErrSignature \<or> err = ErrIdentity then 401
          else if err = ErrSequenceRejected \<or> err = ErrClock then 409
          else if err \<noteq> ErrPayload \<and> err \<noteq> ErrVersion then 500
          else 400)"

text \<open>
  \<open>handleSnapshot\<close>: \<open>body\<close> is what the bounded JSON decoder makes of the request, \<open>full\<close> whether
  the queue of jobs is full, \<open>gone\<close> whether the client's context ends first. The answer is
  a status and whether it says accepted; \<open>None\<close>: none is written.
\<close>

definition handleSnapshot ::
    "codec \<Rightarrow> ingress_env \<Rightarrow> bool \<Rightarrow> bool \<Rightarrow> signed_envelope option \<Rightarrow> agent_server \<Rightarrow> (int \<times> bool) option \<times> agent_server" where
  "handleSnapshot c env full gone body sv =
     (case body of
        None \<Rightarrow> (Some (400, False), sv)
      | Some e \<Rightarrow>
          if full then (Some (429, False), sv)
          else
            let (r, sv') = process c env e sv in
            (if gone then None else Some (snapshot_status r, \<not> isl r), sv'))"

definition handleEnrollment ::
    "codec \<Rightarrow> bool \<Rightarrow> time \<Rightarrow> (string \<times> string) option \<Rightarrow> agent_server \<Rightarrow> int \<times> stored_feeder option \<times> agent_server" where
  "handleEnrollment c db_ok now body sv =
     (case body of
        None \<Rightarrow> (400, None, sv)
      | Some (token0, publicKey) \<Rightarrow>
          let token = trim_space token0 in
          if length token < 32 \<or> length token > 256 \<or> length publicKey \<noteq> PublicKeySize then (401, None, sv)
          else
            let (r, db') = ConsumeFeederEnrollment db_ok (cd_sha256 c token) publicKey now (sv_db sv); sv' = sv\<lparr> sv_db := db' \<rparr> in
            (case r of
               Inl err \<Rightarrow> (if err = ErrEnrollmentInvalid then 401 else 500, None, sv')
             | Inr f \<Rightarrow>
                 let (registered, m') = Register (sf_Descriptor f) (sv_manager sv'); sv'' = sv'\<lparr> sv_manager := m' \<rparr> in
                 (case registered of Inl _ \<Rightarrow> (500, None, sv'') | Inr _ \<Rightarrow> (201, Some f, sv''))))"

section \<open>The client\<close>

record credentials =
  ck_FeederID :: feeder_id
  ck_PrivateKey :: string
  ck_Sequence :: u64

text \<open>\<open>cl_file\<close>: the credentials file, if there is one.\<close>

record agent_client =
  cl_credential :: credentials
  cl_pending :: "signed_envelope option"
  cl_encoder :: bool
  cl_file :: "credentials option"

definition zero_credentials :: credentials where
  "zero_credentials = \<lparr> ck_FeederID = [], ck_PrivateKey = [], ck_Sequence = 0 \<rparr>"

definition agent_NewClient :: "credentials option \<Rightarrow> agent_client" where
  "agent_NewClient file = \<lparr> cl_credential = zero_credentials, cl_pending = None, cl_encoder = True, cl_file = file \<rparr>"

definition client_Close :: "agent_client \<Rightarrow> agent_client" where
  "client_Close cl = cl\<lparr> cl_encoder := False \<rparr>"

definition saveCredentials :: "bool \<Rightarrow> credentials \<Rightarrow> agent_client \<Rightarrow> bool \<times> agent_client" where
  "saveCredentials disk_ok credential cl = (if disk_ok then (True, cl\<lparr> cl_file := Some credential \<rparr>) else (False, cl))"

definition LoadCredentials :: "agent_client \<Rightarrow> agent_error option \<times> agent_client" where
  "LoadCredentials cl =
     (case cl_file cl of
        None \<Rightarrow> (Some (AgentError ''read agent credentials''), cl)
      | Some k \<Rightarrow>
          if \<not> feeder_id_Valid (ck_FeederID k) \<or> ck_FeederID k = FeederAll \<or> length (ck_PrivateKey k) \<noteq> PrivateKeySize
          then (Some (AgentError ''agent credential file is invalid''), cl)
          else (None, cl\<lparr> cl_credential := k \<rparr>))"

text \<open>
  \<open>Enroll\<close>: \<open>keys\<close> is the generated pair of private and public key, \<open>reply\<close> the decoded answer
  of the server to a token and a public key: version and feeder, \<open>None\<close> for an error.
\<close>

definition Enroll ::
    "(string \<times> string) option \<Rightarrow> (string \<Rightarrow> string \<Rightarrow> (int \<times> feeder_id) option) \<Rightarrow> bool \<Rightarrow> string \<Rightarrow> agent_client \<Rightarrow>
     agent_error option \<times> agent_client" where
  "Enroll keys reply disk_ok token0 cl =
     (let token = trim_space token0 in
      if length token < 32 \<or> length token > 256 then (Some (AgentError ''enrollment token is invalid''), cl)
      else
        (case keys of
           None \<Rightarrow> (Some (AgentError ''generate agent identity''), cl)
         | Some (privateKey, publicKey) \<Rightarrow>
             (case reply token publicKey of
                None \<Rightarrow> (Some (AgentError ''agent request failed''), cl)
              | Some (version, feederID) \<Rightarrow>
                  if version \<noteq> ProtocolVersion \<or> \<not> feeder_id_Valid feederID \<or> feederID = FeederAll
                  then (Some (AgentError ''enrollment response is invalid''), cl)
                  else
                    let credential = \<lparr> ck_FeederID = feederID, ck_PrivateKey = privateKey, ck_Sequence = 0 \<rparr>;
                        (saved, cl') = saveCredentials disk_ok credential cl
                    in if \<not> saved then (Some (AgentError ''write agent credentials''), cl')
                       else (None, cl'\<lparr> cl_credential := credential \<rparr>))))"

text \<open>
  The first half of \<open>Send\<close>: the envelope that will be posted. One that is still pending is
  posted again as it is.
\<close>

definition prepare_envelope :: "codec \<Rightarrow> time \<Rightarrow> bool \<Rightarrow> snapshot option \<Rightarrow> agent_client \<Rightarrow> (agent_error + signed_envelope) \<times> agent_client" where
  "prepare_envelope c now disk_ok snapshot cl =
     (if length (ck_PrivateKey (cl_credential cl)) \<noteq> PrivateKeySize then (Inl (AgentError ''agent is not enrolled''), cl)
      else if \<not> cl_encoder cl then (Inl (AgentError ''agent client is closed''), cl)
      else
        (case cl_pending cl of
           Some e \<Rightarrow> (Inr e, cl)
         | None \<Rightarrow>
             (case Encode c (cl_encoder cl) snapshot of
                Inl err \<Rightarrow> (Inl err, cl)
              | Inr payload \<Rightarrow>
                  let k = cl_credential cl; nextSequence = ck_Sequence k + 1 in
                  (case SignEnvelope c (ck_PrivateKey k) (ck_FeederID k) nextSequence now payload of
                     Inl err \<Rightarrow> (Inl err, cl)
                   | Inr e \<Rightarrow>
                       let cl1 = cl\<lparr> cl_credential := k\<lparr> ck_Sequence := nextSequence \<rparr> \<rparr>;
                           (saved, cl2) = saveCredentials disk_ok (cl_credential cl1) cl1
                       in if \<not> saved then (Inl (AgentError ''write agent credentials''), cl2)
                          else (Inr e, cl2\<lparr> cl_pending := Some e \<rparr>)))))"

text \<open>The second half: the answer to the request (\<open>None\<close>: it failed), a status and \<open>accepted\<close>.\<close>

definition finish_send :: "(int \<times> bool) option \<Rightarrow> agent_client \<Rightarrow> agent_error option \<times> agent_client" where
  "finish_send reply cl =
     (case reply of
        None \<Rightarrow> (Some (AgentError ''agent request failed''), cl)
      | Some (status, accepted) \<Rightarrow>
          if status < 200 \<or> status \<ge> 300 then (Some (AgentError ''agent server returned an error''), cl)
          else if \<not> accepted then (Some (AgentError ''snapshot was not accepted''), cl)
          else (None, cl\<lparr> cl_pending := None \<rparr>))"

definition Send ::
    "codec \<Rightarrow> time \<Rightarrow> bool \<Rightarrow> (signed_envelope \<Rightarrow> (int \<times> bool) option) \<Rightarrow> snapshot option \<Rightarrow> agent_client \<Rightarrow>
     agent_error option \<times> agent_client" where
  "Send c now disk_ok post snapshot cl =
     (case prepare_envelope c now disk_ok snapshot cl of
        (Inl err, cl') \<Rightarrow> (Some err, cl')
      | (Inr e, cl') \<Rightarrow> finish_send (post e) cl')"

section \<open>The delivery loop\<close>

text \<open>The bounded channel of the latest snapshots, and the drain to the newest of them.\<close>

definition latest_capacity :: nat where
  "latest_capacity = 5"

definition offer_latest :: "snapshot \<Rightarrow> snapshot list \<Rightarrow> snapshot list" where
  "offer_latest s latest =
     (if sn_FetchedAt s = time_zero then latest
      else if length latest < latest_capacity then latest @ [s]
      else let drained = tl latest in if length drained < latest_capacity then drained @ [s] else drained)"

record delivery =
  dl_pending :: "snapshot option"
  dl_latest :: "snapshot list"
  dl_backoff :: duration
  dl_client :: agent_client

text \<open>The snapshot a turn is about: the one still pending, or the newest that was offered.\<close>

definition next_snapshot :: "delivery \<Rightarrow> (snapshot \<times> snapshot list) option" where
  "next_snapshot d =
     (case dl_pending d of
        Some s \<Rightarrow> Some (s, dl_latest d)
      | None \<Rightarrow> if dl_latest d = [] then None else Some (last (dl_latest d), []))"

text \<open>
  One turn of the loop: nothing to do (\<open>None\<close>) while the channel is empty and nothing is
  pending; otherwise one call of \<open>Send\<close>, and after an error a wait of \<open>backoff\<close>.
\<close>

definition delivery_turn ::
    "codec \<Rightarrow> time \<Rightarrow> bool \<Rightarrow> (signed_envelope \<Rightarrow> (int \<times> bool) option) \<Rightarrow> delivery \<Rightarrow> (duration \<times> delivery) option" where
  "delivery_turn c now disk_ok post d =
     (case next_snapshot d of
        None \<Rightarrow> None
      | Some (s, rest) \<Rightarrow>
          let (err, cl') = Send c now disk_ok post (Some s) (dl_client d); d' = d\<lparr> dl_latest := rest, dl_client := cl' \<rparr> in
          Some (case err of
                  None \<Rightarrow> (0, d'\<lparr> dl_pending := None, dl_backoff := second \<rparr>)
                | Some _ \<Rightarrow> (dl_backoff d, d'\<lparr> dl_pending := Some s, dl_backoff := min (dl_backoff d * 2) (30 * second) \<rparr>)))"

end
