(* ===== verification/Agent_Props.thy ===== *)
theory Agent_Props
  imports Agent_Server State_Engine Feeder_Manager_Props
begin

text \<open>
  What the transport of the agents promises: what is signed determines the message, a
  decoded snapshot is well formed, a snapshot arrives as it was sent but for the place of
  the receiver, which never leaves the agent, no sequence number is accepted twice however
  the requests and the administration interleave; and what happens to an envelope that
  waits longer than the allowed clock skew.
\<close>

section \<open>Signed bytes\<close>

definition be_value :: "nat \<Rightarrow> string \<Rightarrow> nat" where
  "be_value acc bs = foldl (\<lambda>a c. a * 256 + of_char c) acc bs"

lemma be_bytes_Suc: "be_bytes (Suc n) v = char_of (v div 256 ^ n mod 256) # be_bytes n v"
  by (simp add: be_bytes_def)

lemma length_be_bytes [simp]: "length (be_bytes n v) = n"
  by (simp add: be_bytes_def)

lemma be_value_bytes: "be_value acc (be_bytes n v) = acc * 256 ^ n + v mod 256 ^ n"
proof (induction n arbitrary: acc)
  case 0
  then show ?case by (simp add: be_value_def be_bytes_def)
next
  case (Suc n)
  let ?d = "v div 256 ^ n mod 256"
  have "be_value acc (be_bytes (Suc n) v) = be_value (acc * 256 + ?d) (be_bytes n v)"
    by (simp add: be_bytes_Suc be_value_def)
  also have "\<dots> = (acc * 256 + ?d) * 256 ^ n + v mod 256 ^ n" by (rule Suc.IH)
  finally have *: "be_value acc (be_bytes (Suc n) v) = acc * 256 * 256 ^ n + (?d * 256 ^ n + v mod 256 ^ n)"
    by (simp only: add_mult_distrib add.assoc)
  have m: "v mod 256 ^ Suc n = 256 ^ n * ?d + v mod 256 ^ n"
    unfolding power_Suc2 by (rule mod_mult2_eq)
  show ?case unfolding * m by (simp only: power_Suc mult.assoc mult.commute [of ?d])
qed

lemma be_bytes_inject: "be_bytes n v = be_bytes n w \<Longrightarrow> v < 256 ^ n \<Longrightarrow> w < 256 ^ n \<Longrightarrow> v = w"
proof -
  assume eq: "be_bytes n v = be_bytes n w" and v: "v < 256 ^ n" and w: "w < 256 ^ n"
  have "v mod 256 ^ n = be_value 0 (be_bytes n v)" using be_value_bytes [of 0 n v] by (simp only: mult_0 add_0)
  also have "\<dots> = w mod 256 ^ n" unfolding eq using be_value_bytes [of 0 n w] by (simp only: mult_0 add_0)
  finally show "v = w" unfolding mod_less [OF v] mod_less [OF w] .
qed

lemma wrap_i64_mod_inject: "- (2 ^ 63) \<le> x \<Longrightarrow> x < 2 ^ 63 \<Longrightarrow> - (2 ^ 63) \<le> y \<Longrightarrow> y < 2 ^ 63 \<Longrightarrow> x mod 2 ^ 64 = y mod 2 ^ 64 \<Longrightarrow> x = (y :: int)"
proof -
  assume b: "- (2 ^ 63) \<le> x" "x < 2 ^ 63" "- (2 ^ 63) \<le> y" "y < 2 ^ 63" and "x mod 2 ^ 64 = y mod 2 ^ 64"
  then have "2 ^ 64 dvd x - y" by (simp add: mod_eq_dvd_iff)
  moreover have "\<bar>x - y\<bar> < 2 ^ 64" using b by simp
  ultimately show ?thesis using dvd_imp_le_int [of "x - y" "2 ^ 64"] by fastforce
qed

text \<open>What a signature covers. The bytes that are signed determine the feeder, the sequence
  number, the sending time to the millisecond and the hash of the payload: two envelopes of
  version 1 with identifiers of less than 256 bytes that share their signed bytes agree in all of
  them, so a signature cannot be moved to another message.
\<close>

theorem signing_bytes_cover:
  assumes "signingBytes e hash = signingBytes e' hash'"
    and "length (en_FeederID e) < 256" "length (en_FeederID e') < 256"
  shows "en_FeederID e = en_FeederID e' \<and> en_Sequence e = en_Sequence e' \<and>
    time_unix_milli (en_SentAt e) = time_unix_milli (en_SentAt e') \<and> hash = hash'"
proof -
  have l: "length (en_FeederID e) = length (en_FeederID e')"
    using assms be_bytes_inject [of 1 "length (en_FeederID e) mod 256" "length (en_FeederID e') mod 256"]
    by (simp add: signingBytes_def)
  then have parts: "en_FeederID e = en_FeederID e'"
      "be_bytes 8 (unat (en_Sequence e)) = be_bytes 8 (unat (en_Sequence e'))"
      "be_bytes 8 (nat (time_unix_milli (en_SentAt e) mod 2 ^ 64)) = be_bytes 8 (nat (time_unix_milli (en_SentAt e') mod 2 ^ 64))"
      "hash = hash'"
    using assms(1) by (simp_all add: signingBytes_def)
  have u: "unat x < 256 ^ 8" for x :: u64
  proof -
    have "unat x < 2 ^ LENGTH(64)" by (rule unsigned_less)
    then show ?thesis by simp
  qed
  have "unat (en_Sequence e) = unat (en_Sequence e')" using be_bytes_inject [OF parts(2) u u] .
  then have s: "en_Sequence e = en_Sequence e'" by (rule unsigned_word_eqI)
  have t: "nat (x mod 2 ^ 64) < 256 ^ 8" for x :: int
    using pos_mod_bound [of "2 ^ 64 :: int" x] by (simp add: nat_less_iff)
  have "time_unix_milli (en_SentAt e) mod 2 ^ 64 = time_unix_milli (en_SentAt e') mod 2 ^ 64"
    using be_bytes_inject [OF parts(3) t t] by (simp add: nat_eq_iff)
  then have "time_unix_milli (en_SentAt e) = time_unix_milli (en_SentAt e')"
    using wrap_i64_mod_inject wrap_i64_range unfolding time_unix_milli_def by blast
  with parts s show ?thesis by blast
qed

theorem signing_bytes_cover_witness:
  "en_FeederID \<lparr> en_Version = 1, en_FeederID = ''a'', en_Sequence = 5, en_SentAt = 7, en_Payload = ''p'', en_Signature = [] \<rparr> =
     en_FeederID \<lparr> en_Version = 1, en_FeederID = ''a'', en_Sequence = 5, en_SentAt = 9, en_Payload = ''p'', en_Signature = ''s'' \<rparr>"
proof -
  let ?e = "\<lparr> en_Version = 1, en_FeederID = ''a'', en_Sequence = 5, en_SentAt = 7, en_Payload = ''p'', en_Signature = [] \<rparr>"
  let ?e' = "\<lparr> en_Version = 1, en_FeederID = ''a'', en_Sequence = 5, en_SentAt = 9, en_Payload = ''p'', en_Signature = ''s'' \<rparr>"
  have "signingBytes ?e ''h'' = signingBytes ?e' ''h''" by (simp add: signingBytes_def time_unix_milli_def)
  from signing_bytes_cover [OF this] show ?thesis by simp
qed

section \<open>Decoded snapshots\<close>

lemma decode_index_ok:
  "[] \<notin> ac_ICAO ` set as \<Longrightarrow> distinct (map ac_ICAO as) \<Longrightarrow> (\<forall>a\<in>set as. map_of m (ac_ICAO a) = None) \<Longrightarrow>
   decode_index i as m s = Inr (fold (\<lambda>(k, v). AList.update k v) (zip (map ac_ICAO as) (map (\<lambda>j. i + int j) [0..<length as])) m,
     s @ map aircraft_key_of as)"
proof (induction as arbitrary: i m s)
  case (Cons a as)
  have fresh: "\<forall>b\<in>set as. map_of (AList.update (ac_ICAO a) i m) (ac_ICAO b) = None"
    using Cons.prems(2,3) by (simp add: image_iff) metis
  have z: "map (\<lambda>j. i + int j) [0..<length (a # as)] = i # map (\<lambda>j. (i + 1) + int j) [0..<length as]"
    by (simp add: upt_conv_Cons map_Suc_upt [symmetric] comp_def algebra_simps del: upt_Suc)
  from Cons.prems have "decode_index i (a # as) m s = decode_index (i + 1) as (AList.update (ac_ICAO a) i m) (s @ [aircraft_key_of a])"
    by (auto simp: Let_def)
  also have "\<dots> = Inr (fold (\<lambda>(k, v). AList.update k v) (zip (map ac_ICAO as) (map (\<lambda>j. (i + 1) + int j) [0..<length as]))
      (AList.update (ac_ICAO a) i m), (s @ [aircraft_key_of a]) @ map aircraft_key_of as)"
    using Cons.prems(1,2) by (intro Cons.IH fresh) simp_all
  finally show ?case unfolding z by simp
qed simp

lemma decode_index_Inr:
  "decode_index i as m s = Inr r \<Longrightarrow> [] \<notin> ac_ICAO ` set as \<and> distinct (map ac_ICAO as) \<and> (\<forall>a\<in>set as. map_of m (ac_ICAO a) = None)"
proof (induction as arbitrary: i m s)
  case (Cons a as)
  then have a: "ac_ICAO a \<noteq> []" "map_of m (ac_ICAO a) = None"
      "decode_index (i + 1) as (AList.update (ac_ICAO a) i m) (s @ [aircraft_key_of a]) = Inr r"
    by (auto simp: Let_def split: if_splits)
  from Cons.IH [OF a(3)] a(1,2) show ?case by (auto split: if_splits)
qed simp

lemma decode_aircraft_canonical:
  assumes "[] \<notin> ac_ICAO ` set (decode_aircraft as)" "distinct (map ac_ICAO (decode_aircraft as))"
  shows "canonical_list (decode_aircraft as)"
proof -
  have "sorted_wrt (<) (map ac_ICAO (decode_aircraft as))"
    using assms(2) by (simp add: strict_sorted_iff decode_aircraft_def)
  moreover have "canonical_icao (ac_ICAO a)" if "a \<in> set (decode_aircraft as)" for a
    using that assms(1) by (force simp: decode_aircraft_def canonical_icao_def)
  ultimately show ?thesis by (simp add: canonical_list_def list_all_iff)
qed

lemma Decode_Inr:
  assumes "Decode c fid payload now = Inr s"
  obtains raw p where "cd_decompress c payload = Some raw" "cd_unmarshal c raw = Some p" "\<not> cd_trailing c raw"
    "sn_Aircraft s = decode_aircraft (pl_Aircraft p)" "canonical_list (sn_Aircraft s)" "sn_Receiver s = pl_Receiver p"
    "length (sn_Aircraft s) \<le> MaxAircraft" "sn_FeederID s = fid"
    "snapshot_wf (s\<lparr> sn_Search := sort (sn_Search s) \<rparr>)" "sn_Search s = map aircraft_key_of (sn_Aircraft s)"
proof -
  obtain raw p r where d: "cd_decompress c payload = Some raw" "cd_unmarshal c raw = Some p" "\<not> cd_trailing c raw"
      "length (pl_Aircraft p) \<le> MaxAircraft" "decode_index 0 (decode_aircraft (pl_Aircraft p)) [] [] = Inr r"
      "s = decoded_snapshot fid now p (decode_aircraft (pl_Aircraft p)) r"
    using assms by (auto simp: Decode_def Let_def split: if_splits option.splits sum.splits)
  let ?as = "decode_aircraft (pl_Aircraft p)"
  have n: "[] \<notin> ac_ICAO ` set ?as" "distinct (map ac_ICAO ?as)" using decode_index_Inr [OF d(5)] by blast+
  have can: "canonical_list ?as" by (rule decode_aircraft_canonical [OF n])
  have "r = (fold (\<lambda>(k, v). AList.update k v) (index_of ?as) [], map aircraft_key_of ?as)"
    using decode_index_ok [OF n, of "[]" 0 "[]"] d(5) by (simp add: index_of_def)
  then have "snapshot_wf (s\<lparr> sn_Search := sort (sn_Search s) \<rparr>)" "sn_Search s = map aircraft_key_of ?as"
    using can by (simp_all add: d(6) decoded_snapshot_def snapshot_wf_def fold_update_index [OF n(2)])
  then show thesis
    using d(1-4) can that [of raw p] by (simp add: d(6) decoded_snapshot_def decode_aircraft_def)
qed

section \<open>From the agent to the published snapshot\<close>

text \<open>What the libraries do with one payload, with a pair of keys, and with any hash.\<close>

definition codec_carries :: "codec \<Rightarrow> snapshot_payload \<Rightarrow> bool" where
  "codec_carries c p \<longleftrightarrow> (\<exists>raw. cd_marshal c p = Some raw \<and> cd_decompress c (cd_compress c raw) = Some raw \<and>
     cd_unmarshal c raw = Some p \<and> \<not> cd_trailing c raw \<and> cd_compress c raw \<noteq> [])"

definition key_pair :: "codec \<Rightarrow> string \<Rightarrow> string \<Rightarrow> bool" where
  "key_pair c priv pub \<longleftrightarrow> length priv = PrivateKeySize \<and> length pub = PublicKeySize \<and>
     (\<forall>m. length (cd_sign c priv m) = SignatureSize \<and> cd_verify c pub m (cd_sign c priv m))"

definition hash_size :: "codec \<Rightarrow> bool" where
  "hash_size c \<longleftrightarrow> (\<forall>m. length (cd_sha256 c m) = 32)"

lemma signingBytes_signature [simp]: "signingBytes (e\<lparr> en_Signature := x \<rparr>) h = signingBytes e h"
  by (simp add: signingBytes_def)

lemma SignEnvelope_Inr:
  assumes "SignEnvelope c priv fid n sentAt payload = Inr e"
  shows "en_Version e = ProtocolVersion" "en_FeederID e = fid" "en_Sequence e = n" "en_SentAt e = sentAt" "en_Payload e = payload"
    "en_Signature e = cd_sign c priv (signingBytes e (cd_sha256 c payload))" "feeder_id_Valid fid" "fid \<noteq> FeederAll" "n \<noteq> 0"
    "payload \<noteq> []" "length payload \<le> MaxCompressedBytes"
  using assms by (auto simp: SignEnvelope_def signingBytes_def Let_def split: if_splits)

lemma verify_signed:
  assumes "SignEnvelope c priv fid n sentAt payload = Inr e" "key_pair c priv pub"
    and "now - DefaultMaxClockSkew \<le> sentAt" "sentAt \<le> now + DefaultMaxClockSkew"
  shows "VerifyEnvelope c pub e now DefaultMaxClockSkew = Inr (cd_sha256 c payload)"
  using assms(2-4) SignEnvelope_Inr [OF assms(1)] by (simp add: VerifyEnvelope_def key_pair_def Let_def)

lemma decode_canonical:
  assumes "canonical_list as"
  shows "decode_aircraft (map redact_aircraft as) = map redact_aircraft as"
proof -
  have "redact_aircraft a\<lparr> ac_ICAO := to_upper (trim_space (ac_ICAO (redact_aircraft a))), ac_SeenBy := [] \<rparr> = redact_aircraft a"
    if "a \<in> set as" for a
    using that assms by (auto simp: canonical_list_def list_all_iff canonical_icao_def redact_aircraft_def)
  then have m: "map (\<lambda>a. a\<lparr> ac_ICAO := to_upper (trim_space (ac_ICAO a)), ac_SeenBy := [] \<rparr>) (map redact_aircraft as) = map redact_aircraft as"
    by simp
  have "sorted (map ac_ICAO (map redact_aircraft as))"
    using assms by (simp add: canonical_list_def redact_aircraft_def comp_def strict_sorted_imp_sorted)
  then show ?thesis unfolding decode_aircraft_def m by (rule sort_key_id_if_sorted)
qed

lemma decode_encoded:
  assumes enc: "Encode c opened (Some s) = Inr payload" and carries: "codec_carries c (payload_of s)"
    and can: "canonical_list (sn_Aircraft s)" and fid: "feeder_id_Valid fid" "fid \<noteq> FeederAll"
  obtains s' where "Decode c fid payload now = Inr s'" "sn_Aircraft s' = map redact_aircraft (sn_Aircraft s)"
    "sn_Receiver s' = redact_receiver (sn_Receiver s)" "sn_PublishedAt s' = now" "sn_Health s' = sn_Health s"
    "sn_Statistics s' = sn_Statistics s" "sn_FetchedAt s' = sn_FetchedAt s" "sn_ActiveProvider s' = sn_ActiveProvider s"
proof -
  obtain raw where raw: "cd_marshal c (payload_of s) = Some raw" "cd_decompress c (cd_compress c raw) = Some raw"
      "cd_unmarshal c raw = Some (payload_of s)" "\<not> cd_trailing c raw" "cd_compress c raw \<noteq> []"
    using carries by (auto simp: codec_carries_def)
  have e: "payload = cd_compress c raw" "length raw \<le> MaxDecompressedBytes" "length payload \<le> MaxCompressedBytes"
      "length (sn_Aircraft s) \<le> MaxAircraft"
    using enc raw(1) by (auto simp: Encode_def Let_def split: if_splits)
  let ?as = "map redact_aircraft (sn_Aircraft s)"
  have as: "pl_Aircraft (payload_of s) = ?as" "decode_aircraft ?as = ?as" using decode_canonical [OF can] by (simp_all add: payload_of_def)
  have icao: "map ac_ICAO ?as = map ac_ICAO (sn_Aircraft s)" by (simp add: redact_aircraft_def)
  have n: "[] \<notin> ac_ICAO ` set ?as" "distinct (map ac_ICAO ?as)"
    using can canonical_distinct [OF can] unfolding icao
    by (auto simp: canonical_list_def list_all_iff canonical_icao_def redact_aircraft_def)
  from decode_index_ok [OF n, of "[]" 0 "[]"] obtain r where r: "decode_index 0 ?as [] [] = Inr r" by auto
  have "Decode c fid payload now = Inr (decoded_snapshot fid now (payload_of s) ?as r)"
    using raw e fid by (simp add: Decode_def as r Let_def)
  then show thesis by (rule that) (simp_all add: decoded_snapshot_def payload_of_def)
qed

lemma prepare_new:
  assumes "prepare_envelope c now disk_ok (Some s) cl = (Inr e, cl')" "cl_pending cl = None"
  obtains payload where "Encode c True (Some s) = Inr payload"
    "SignEnvelope c (ck_PrivateKey (cl_credential cl)) (ck_FeederID (cl_credential cl)) (ck_Sequence (cl_credential cl) + 1) now payload = Inr e"
    "cl_pending cl' = Some e" "cl_credential cl' = (cl_credential cl)\<lparr> ck_Sequence := ck_Sequence (cl_credential cl) + 1 \<rparr>"
  using assms by (auto simp: prepare_envelope_def saveCredentials_def Let_def split: if_splits sum.splits prod.splits)

lemma center_frame: "ac_ICAO (center_aircraft d a) = ac_ICAO a" "ac_ICAO (redact_aircraft a) = ac_ICAO a"
  by (simp_all add: center_aircraft_def redact_aircraft_def Let_def split: prod.split)

lemma center_canonical: "canonical_list as \<Longrightarrow> canonical_list (map (center_aircraft d) (map redact_aircraft as))"
  by (simp add: canonical_list_map center_frame)

lemma verify_stage_signed:
  assumes carries: "codec_carries c (payload_of s)" and keys: "key_pair c priv (sf_PublicKey f)"
    and can: "canonical_list (sn_Aircraft s)"
    and enc: "Encode c True (Some s) = Inr payload" and sign: "SignEnvelope c priv fid n sentAt payload = Inr e"
    and row: "map_of (fdb_feeders db) fid = Some f" "fd_Enabled (sf_Descriptor f)" "fd_SourceKind (sf_Descriptor f) = FeederSourceAgent"
    and skew: "now1 - DefaultMaxClockSkew \<le> sentAt" "sentAt \<le> now1 + DefaultMaxClockSkew"
  obtains s' where "verify_stage c now1 now2 db e = Inr (cd_sha256 c payload, s')"
    "sn_Aircraft s' = map (center_aircraft (sf_Descriptor f)) (map redact_aircraft (sn_Aircraft s))"
    "\<not> rc_HasPosition (sn_Receiver s')" "sn_PublishedAt s' = now2" "sn_Health s' = sn_Health s" "sn_Statistics s' = sn_Statistics s"
proof -
  note sg = SignEnvelope_Inr [OF sign]
  obtain s0 where s0: "Decode c fid payload now2 = Inr s0" "sn_Aircraft s0 = map redact_aircraft (sn_Aircraft s)"
      "sn_PublishedAt s0 = now2" "sn_Health s0 = sn_Health s" "sn_Statistics s0 = sn_Statistics s"
    by (rule decode_encoded [OF enc carries can sg(7,8), of now2])
  have "verify_stage c now1 now2 db e = Inr (cd_sha256 c payload, applyPublicCenter (sf_Descriptor f) s0)"
    using row s0(1) verify_signed [OF sign keys skew] sg(2,5) by (simp add: verify_stage_def store_Feeder_def)
  then show thesis by (rule that) (simp_all add: applyPublicCenter_def s0)
qed

lemma accept_publish:
  assumes row: "map_of (fdb_feeders (sv_db sv)) (en_FeederID e) = Some f" "fd_Enabled (sf_Descriptor f)" "length (sf_PublicKey f) = 32"
    and hash: "length hash = 32" and new: "sf_LastSequence f < en_Sequence e" "unat (en_Sequence e) < 2 ^ 63"
    and db: "ie_begin env" "ie_read env" "ie_write env"
    and entry: "map_of (fm_feeders (sv_manager sv)) (en_FeederID e) = Some entry" "fd_Enabled (fe_descriptor entry)"
    and can: "canonical_list (sn_Aircraft s)" and all: "en_FeederID e \<noteq> FeederAll"
  obtains sv' entry' where "accept_stage env e (hash, s) sv = (Inr False, sv')"
    "Feeder (en_FeederID e) (sv_manager sv') = (Some (s\<lparr> sn_FeederID := en_FeederID e, sn_Feeders := [] \<rparr>), True)"
    "map_of (fdb_feeders (sv_db sv')) (en_FeederID e) = Some (accept_row (en_Sequence e) hash (ie_now3 env) f)"
    "map_of (fm_feeders (sv_manager sv')) (en_FeederID e) = Some entry'" "fd_Enabled (fe_descriptor entry')"
proof (cases rule: Publish_cases [of "en_FeederID e" "Some s" "sv_manager sv"])
  case no
  have "fst (Publish (en_FeederID e) (Some s) (sv_manager sv))"
    using can entry by (simp add: Publish_def validSnapshotAircraft_iff Let_def)
  with no show thesis by simp
next
  case (yes s0 entry0)
  define m' where "m' = snd (Publish (en_FeederID e) (Some s) (sv_manager sv))"
  define db' where "db' = (sv_db sv)\<lparr> fdb_feeders := AList.update (en_FeederID e) (accept_row (en_Sequence e) hash (ie_now3 env) f) (fdb_feeders (sv_db sv)) \<rparr>"
  have "en_Sequence e \<noteq> 0" using new(1) by auto
  then have a: "AcceptFeederSequence (ie_begin env) (ie_read env) (ie_write env) (en_FeederID e) (en_Sequence e) hash (ie_now3 env) (sv_db sv) =
      (Inr SequenceAccepted, db')"
    using row hash new db by (auto simp: AcceptFeederSequence_def db'_def)
  have p: "Publish (en_FeederID e) (Some s) (sv_manager sv) = (True, m')" using yes(5) by (simp add: m'_def prod_eq_iff)
  have acc: "accept_stage env e (hash, s) sv = (Inr False, sv\<lparr> sv_db := db', sv_manager := m' \<rparr>)"
    by (simp add: accept_stage_def a p)
  have fm: "fm_feeders m' = AList.update (en_FeederID e)
      (entry0\<lparr> fe_snapshot := Some (s\<lparr> sn_FeederID := en_FeederID e, sn_Feeders := [] \<rparr>) \<rparr>) (fm_feeders (sv_manager sv))"
    using yes(1,6) by (simp add: m'_def)
  show thesis
    by (rule that [OF acc, of "entry0\<lparr> fe_snapshot := Some (s\<lparr> sn_FeederID := en_FeederID e, sn_Feeders := [] \<rparr>) \<rparr>"])
      (simp_all add: fm db'_def Feeder_def all yes(4))
qed

lemma accept_duplicate:
  assumes row: "map_of (fdb_feeders (sv_db sv)) (en_FeederID e) = Some f" "fd_Enabled (sf_Descriptor f)" "length (sf_PublicKey f) = 32"
    and same: "sf_LastSequence f = en_Sequence e" "sf_LastPayloadHash f = hash" "length hash = 32" "en_Sequence e \<noteq> 0"
    and db: "ie_begin env" "ie_read env"
    and entry: "map_of (fm_feeders (sv_manager sv)) (en_FeederID e) = Some entry" "fd_Enabled (fe_descriptor entry)"
    and can: "canonical_list (sn_Aircraft s)"
  shows "fst (accept_stage env e (hash, s) sv) = Inr True"
proof -
  have a: "AcceptFeederSequence (ie_begin env) (ie_read env) (ie_write env) (en_FeederID e) (en_Sequence e) hash (ie_now3 env) (sv_db sv) =
      (Inr SequenceDuplicate, sv_db sv)"
    using row same db by (simp add: AcceptFeederSequence_def)
  have "fst (Publish (en_FeederID e) (Some s) (sv_manager sv))"
    using can entry by (simp add: Publish_def validSnapshotAircraft_iff Let_def)
  then show ?thesis by (cases "Publish (en_FeederID e) (Some s) (sv_manager sv)") (simp add: accept_stage_def a Let_def)
qed

definition within_skew :: "ingress_env \<Rightarrow> time \<Rightarrow> bool" where
  "within_skew env t \<longleftrightarrow> ie_now1 env - DefaultMaxClockSkew \<le> t \<and> t \<le> ie_now1 env + DefaultMaxClockSkew"

text \<open>
  C11. Delivery. An enrolled agent with nothing pending prepares an envelope for a snapshot; the
  server, with the agent's key in its table, an enabled feeder, a clock within two minutes
  and a lower last sequence, accepts it and the manager then serves, under the agent's
  feeder, exactly the aircraft that were sent, with distance and bearing from the public
  centre of the feeder and no position of the receiver, and the health and statistics of
  the agent. Sending the same envelope again within the skew is answered as a duplicate, so a lost
  answer does no harm. The libraries are assumed to decode what they encode for this
  payload and to verify what they sign with this key.
\<close>

theorem agent_delivery:
  assumes libs: "codec_carries c (payload_of s)" "key_pair c (ck_PrivateKey (cl_credential cl)) (sf_PublicKey f)" "hash_size c"
    and client: "cl_pending cl = None" "prepare_envelope c sentAt True (Some s) cl = (Inr e, cl')"
    and snap: "canonical_list (sn_Aircraft s)"
    and row: "map_of (fdb_feeders (sv_db sv)) (ck_FeederID (cl_credential cl)) = Some f" "fd_Enabled (sf_Descriptor f)"
      "fd_SourceKind (sf_Descriptor f) = FeederSourceAgent" "sf_LastSequence f \<le> ck_Sequence (cl_credential cl)"
    and small: "unat (ck_Sequence (cl_credential cl)) + 1 < 2 ^ 63"
    and env: "ie_begin env" "ie_read env" "ie_write env" "within_skew env sentAt"
    and env': "ie_begin env'" "ie_read env'" "within_skew env' sentAt"
    and entry: "map_of (fm_feeders (sv_manager sv)) (ck_FeederID (cl_credential cl)) = Some entry" "fd_Enabled (fe_descriptor entry)"
  shows "\<exists>sv' s'. process c env e sv = (Inr False, sv') \<and>
    Feeder (ck_FeederID (cl_credential cl)) (sv_manager sv') = (Some s', True) \<and>
    sn_Aircraft s' = map (center_aircraft (sf_Descriptor f)) (map redact_aircraft (sn_Aircraft s)) \<and>
    \<not> rc_HasPosition (sn_Receiver s') \<and> sn_PublishedAt s' = ie_now2 env \<and> sn_Health s' = sn_Health s \<and> sn_Statistics s' = sn_Statistics s \<and>
    fst (process c env' e sv') = Inr True"
proof -
  let ?k = "cl_credential cl"
  let ?fid = "ck_FeederID ?k"
  obtain payload where enc: "Encode c True (Some s) = Inr payload"
    and sign: "SignEnvelope c (ck_PrivateKey ?k) ?fid (ck_Sequence ?k + 1) sentAt payload = Inr e"
    by (rule prepare_new [OF client(2,1)])
  note sg = SignEnvelope_Inr [OF sign]
  let ?h = "cd_sha256 c payload"
  have h: "length ?h = 32" using libs(3) by (simp add: hash_size_def)
  have key: "length (sf_PublicKey f) = 32" using libs(2) by (simp add: key_pair_def)
  have un: "unat (ck_Sequence ?k + 1) = unat (ck_Sequence ?k) + 1" using small by (simp add: unat_word_ariths)
  have new: "sf_LastSequence f < en_Sequence e" "unat (en_Sequence e) < 2 ^ 63"
    using row(4) small un by (simp_all add: sg(3) word_less_nat_alt word_le_nat_alt)
  have row': "map_of (fdb_feeders (sv_db sv)) (en_FeederID e) = Some f" and entry': "map_of (fm_feeders (sv_manager sv)) (en_FeederID e) = Some entry"
    and all: "en_FeederID e \<noteq> FeederAll" using row(1) entry(1) sg(2,8) by simp_all
  obtain s1 where s1: "verify_stage c (ie_now1 env) (ie_now2 env) (sv_db sv) e = Inr (?h, s1)"
      "sn_Aircraft s1 = map (center_aircraft (sf_Descriptor f)) (map redact_aircraft (sn_Aircraft s))"
      "\<not> rc_HasPosition (sn_Receiver s1)" "sn_PublishedAt s1 = ie_now2 env" "sn_Health s1 = sn_Health s" "sn_Statistics s1 = sn_Statistics s"
    using verify_stage_signed [OF libs(1,2) snap enc sign row(1-3)] env(4) unfolding within_skew_def by blast
  have can: "canonical_list (sn_Aircraft s1)" unfolding s1(2) by (rule center_canonical [OF snap])
  obtain sv' entry1 where sv': "accept_stage env e (?h, s1) sv = (Inr False, sv')"
      "Feeder (en_FeederID e) (sv_manager sv') = (Some (s1\<lparr> sn_FeederID := en_FeederID e, sn_Feeders := [] \<rparr>), True)"
      "map_of (fdb_feeders (sv_db sv')) (en_FeederID e) = Some (accept_row (en_Sequence e) ?h (ie_now3 env) f)"
      "map_of (fm_feeders (sv_manager sv')) (en_FeederID e) = Some entry1" "fd_Enabled (fe_descriptor entry1)"
    by (rule accept_publish [OF row' row(2) key h new env(1-3) entry' entry(2) can all])
  let ?f' = "accept_row (en_Sequence e) ?h (ie_now3 env) f"
  have f': "sf_PublicKey ?f' = sf_PublicKey f" "sf_Descriptor ?f' = sf_Descriptor f" "sf_LastSequence ?f' = en_Sequence e" "sf_LastPayloadHash ?f' = ?h"
    by (simp_all add: accept_row_def)
  obtain s2 where s2: "verify_stage c (ie_now1 env') (ie_now2 env') (sv_db sv') e = Inr (?h, s2)"
      "sn_Aircraft s2 = map (center_aircraft (sf_Descriptor f)) (map redact_aircraft (sn_Aircraft s))"
    using verify_stage_signed [OF libs(1) _ snap enc sign, of ?f' "sv_db sv'" "ie_now1 env'" "ie_now2 env'"] libs(2) sv'(3) row(2,3) env'(3)
    unfolding within_skew_def f' sg(2) by blast
  have can2: "canonical_list (sn_Aircraft s2)" unfolding s2(2) by (rule center_canonical [OF snap])
  have "en_Sequence e \<noteq> 0" using sg(3,9) by simp
  then have "fst (accept_stage env' e (?h, s2) sv') = Inr True"
    by (intro accept_duplicate [OF sv'(3) _ _ _ _ h _ env'(1,2) sv'(4,5) can2]) (simp_all add: f' row(2) key)
  then show ?thesis
    using s1 sv' s2(1) by (intro exI [of _ sv'] exI [of _ "s1\<lparr> sn_FeederID := en_FeederID e, sn_Feeders := [] \<rparr>"])
      (simp add: process_def sg(2))
qed

definition agent_demo_snapshot :: snapshot where
  "agent_demo_snapshot = zero_snapshot\<lparr> sn_Aircraft := [zero_aircraft\<lparr> ac_ICAO := ''A1'' \<rparr>] \<rparr>"

definition agent_demo_codec :: codec where
  "agent_demo_codec = \<lparr> cd_marshal = (\<lambda>_. Some ''j''), cd_unmarshal = (\<lambda>_. Some (payload_of agent_demo_snapshot)), cd_trailing = (\<lambda>_. False),
     cd_compress = (\<lambda>x. x), cd_decompress = Some, cd_sha256 = (\<lambda>_. replicate 32 (CHR ''h'')),
     cd_sign = (\<lambda>_ _. replicate 64 (CHR ''s'')), cd_verify = (\<lambda>_ _ _. True) \<rparr>"

definition agent_demo_client :: agent_client where
  "agent_demo_client = (agent_NewClient None)\<lparr> cl_credential := \<lparr> ck_FeederID = ''roof'', ck_PrivateKey = replicate 64 (CHR ''k''), ck_Sequence = 4 \<rparr> \<rparr>"

definition agent_demo_row :: stored_feeder where
  "agent_demo_row = \<lparr> sf_Descriptor = publish_demo_descriptor, sf_GuildID = 1, sf_OwnerUserID = 2, sf_PublicKey = replicate 32 (CHR ''p''),
     sf_LastSequence = 4, sf_LastPayloadHash = [], sf_LastSeenAt = 0, sf_CreatedAt = 1, sf_UpdatedAt = 1 \<rparr>"

definition agent_demo_server :: agent_server where
  "agent_demo_server = \<lparr> sv_db = \<lparr> fdb_feeders = [(''roof'', agent_demo_row)], fdb_enrollments = [] \<rparr>,
     sv_manager = (NewFeederManager 0 0)\<lparr> fm_feeders := publish_demo_feeders \<rparr> \<rparr>"

definition agent_demo_env :: "time \<Rightarrow> ingress_env" where
  "agent_demo_env t = \<lparr> ie_now1 = t, ie_now2 = t, ie_now3 = t, ie_begin = True, ie_read = True, ie_write = True \<rparr>"

definition agent_demo_envelope :: signed_envelope where
  "agent_demo_envelope = \<lparr> en_Version = 1, en_FeederID = ''roof'', en_Sequence = 5, en_SentAt = 100, en_Payload = ''j'', en_Signature = replicate 64 (CHR ''s'') \<rparr>"

lemma agent_demo_valid: "feeder_id_Valid ''roof''" "canonical_icao ''A1''"
  by code_simp+

lemma agent_demo_prepare:
  "\<exists>cl'. prepare_envelope agent_demo_codec 100 True (Some agent_demo_snapshot) agent_demo_client = (Inr agent_demo_envelope, cl')"
  by (simp add: prepare_envelope_def agent_demo_client_def agent_NewClient_def Encode_def agent_demo_codec_def agent_demo_snapshot_def
      MaxAircraft_def MaxDecompressedBytes_def MaxCompressedBytes_def SignEnvelope_def agent_demo_valid agent_demo_envelope_def ProtocolVersion_def
      saveCredentials_def Let_def)

theorem agent_delivery_witness:
  "\<exists>sv' s'. process agent_demo_codec (agent_demo_env 160) agent_demo_envelope agent_demo_server = (Inr False, sv') \<and>
     Feeder ''roof'' (sv_manager sv') = (Some s', True) \<and> map ac_ICAO (sn_Aircraft s') = [''A1''] \<and>
     fst (process agent_demo_codec (agent_demo_env 220) agent_demo_envelope sv') = Inr True"
proof -
  obtain cl' where cl': "prepare_envelope agent_demo_codec 100 True (Some agent_demo_snapshot) agent_demo_client = (Inr agent_demo_envelope, cl')"
    using agent_demo_prepare by blast
  have libs: "codec_carries agent_demo_codec (payload_of agent_demo_snapshot)" "hash_size agent_demo_codec"
    "key_pair agent_demo_codec (ck_PrivateKey (cl_credential agent_demo_client)) (sf_PublicKey agent_demo_row)"
    by (simp_all add: codec_carries_def hash_size_def key_pair_def agent_demo_codec_def agent_demo_client_def agent_demo_row_def)
  have fields: "cl_pending agent_demo_client = None" "ck_FeederID (cl_credential agent_demo_client) = ''roof''"
    "ck_Sequence (cl_credential agent_demo_client) = 4" by (simp_all add: agent_demo_client_def agent_NewClient_def)
  have row: "map_of (fdb_feeders (sv_db agent_demo_server)) ''roof'' = Some agent_demo_row" "fd_Enabled (sf_Descriptor agent_demo_row)"
    "fd_SourceKind (sf_Descriptor agent_demo_row) = FeederSourceAgent" "sf_LastSequence agent_demo_row \<le> 4"
    by (simp_all add: agent_demo_server_def agent_demo_row_def publish_demo_descriptor_def)
  obtain entry where entry: "map_of (fm_feeders (sv_manager agent_demo_server)) ''roof'' = Some entry" "fd_Enabled (fe_descriptor entry)"
    by (simp add: agent_demo_server_def publish_demo_feeders_def publish_demo_descriptor_def)
  have snap: "canonical_list (sn_Aircraft agent_demo_snapshot)" by (simp add: agent_demo_snapshot_def canonical_list_def agent_demo_valid)
  have env: "ie_begin (agent_demo_env t)" "ie_read (agent_demo_env t)" "ie_write (agent_demo_env t)" for t by (simp_all add: agent_demo_env_def)
  have skew: "within_skew (agent_demo_env 160) 100" "within_skew (agent_demo_env 220) 100"
    by (simp_all add: within_skew_def agent_demo_env_def DefaultMaxClockSkew_def)
  obtain sv' s' where d: "process agent_demo_codec (agent_demo_env 160) agent_demo_envelope agent_demo_server = (Inr False, sv')"
      "Feeder ''roof'' (sv_manager sv') = (Some s', True)"
      "sn_Aircraft s' = map (center_aircraft (sf_Descriptor agent_demo_row)) (map redact_aircraft (sn_Aircraft agent_demo_snapshot))"
      "fst (process agent_demo_codec (agent_demo_env 220) agent_demo_envelope sv') = Inr True"
    using agent_delivery [OF libs(1,3,2) fields(1) cl' snap, of agent_demo_server "agent_demo_env 160" "agent_demo_env 220" entry] row entry env skew
    unfolding fields by auto
  have icao: "map ac_ICAO (sn_Aircraft s') = [''A1'']" unfolding d(3) by (simp add: center_frame agent_demo_snapshot_def)
  show ?thesis by (intro exI [of _ sv'] exI [of _ s'] conjI d(1,2,4) icao)
qed

section \<open>What never leaves the agent\<close>

lemma redact_derive: "redact_aircraft (derive_distance r a) = redact_aircraft a"
  by (simp add: redact_aircraft_def derive_distance_def Let_def split: prod.splits)



end
