(* ===== verification/Agent_Replay.thy ===== *)
theory Agent_Replay
  imports Agent_Props
begin

text \<open>
  The agents, the ingress and the administration together. First the ingress under every
  interleaving of verified requests with enrollment, revocation and edits of the feeders:
  within one enrollment no sequence number is accepted twice, and everything accepted
  was signed. Then an agent and the server in turns, across an outage.
\<close>

section \<open>The interleaved ingress\<close>

text \<open>
  A worker holds the lock of its feeder from verification to publication, so at most one
  request per feeder is between the two. Beside the server the state has ghosts: the
  accepted envelopes with the enrollment they fell into, the number of enrollments of every
  feeder, and the keys every feeder has had.
\<close>

record agent_sys =
  ay_server :: agent_server
  ay_jobs :: "(signed_envelope \<times> string \<times> snapshot) list"
  ay_log :: "(signed_envelope \<times> nat) list"
  ay_epoch :: "feeder_id \<Rightarrow> nat"
  ay_keys :: "feeder_id \<Rightarrow> string set"

abbreviation (input) rows :: "agent_server \<Rightarrow> feeder_id \<Rightarrow> stored_feeder option" where
  "rows sv \<equiv> map_of (fdb_feeders (sv_db sv))"

definition row_keys :: "agent_server \<Rightarrow> feeder_id \<Rightarrow> string set" where
  "row_keys sv i = (case rows sv i of None \<Rightarrow> {} | Some f \<Rightarrow> {sf_PublicKey f})"

definition move_server :: "agent_server \<Rightarrow> agent_sys \<Rightarrow> agent_sys" where
  "move_server sv y = y\<lparr> ay_server := sv, ay_keys := (\<lambda>i. ay_keys y i \<union> row_keys sv i) \<rparr>"

definition new_epochs :: "agent_server \<Rightarrow> agent_server \<Rightarrow> (feeder_id \<Rightarrow> nat) \<Rightarrow> feeder_id \<Rightarrow> nat" where
  "new_epochs sv sv' epoch i = (if rows sv' i = rows sv i then epoch i else Suc (epoch i))"

definition accepts :: "ingress_env \<Rightarrow> signed_envelope \<Rightarrow> string \<Rightarrow> agent_server \<Rightarrow> bool" where
  "accepts env e hash sv \<longleftrightarrow>
     fst (AcceptFeederSequence (ie_begin env) (ie_read env) (ie_write env) (en_FeederID e) (en_Sequence e) hash (ie_now3 env) (sv_db sv)) =
       Inr SequenceAccepted"

inductive agent_step :: "codec \<Rightarrow> agent_sys \<Rightarrow> agent_sys \<Rightarrow> bool" for c where
  verify: "\<lbrakk> verify_stage c now1 now2 (sv_db (ay_server y)) e = Inr (hash, s);
      \<forall>j\<in>set (ay_jobs y). en_FeederID (fst j) \<noteq> en_FeederID e \<rbrakk> \<Longrightarrow>
    agent_step c y (y\<lparr> ay_jobs := ay_jobs y @ [(e, hash, s)] \<rparr>)"
| accept: "\<lbrakk> ay_jobs y = xs @ (e, hash, s) # ys; accept_stage env e (hash, s) (ay_server y) = (r, sv') \<rbrakk> \<Longrightarrow>
    agent_step c y ((move_server sv' y)\<lparr> ay_jobs := xs @ ys,
      ay_log := ay_log y @ (if accepts env e hash (ay_server y) then [(e, ay_epoch y (en_FeederID e))] else []) \<rparr>)"
| enroll: "handleEnrollment c db_ok now body (ay_server y) = (status, f, sv') \<Longrightarrow>
    agent_step c y ((move_server sv' y)\<lparr> ay_epoch := new_epochs (ay_server y) sv' (ay_epoch y) \<rparr>)"
| revoke: "RevokeFeeder db_ok i now (sv_db (ay_server y)) = (err, db') \<Longrightarrow>
    agent_step c y (move_server ((ay_server y)\<lparr> sv_db := db' \<rparr>) y)"
| upsert: "UpsertFeeder db_ok now f (sv_db (ay_server y)) = (err, db') \<Longrightarrow>
    agent_step c y (move_server ((ay_server y)\<lparr> sv_db := db' \<rparr>) y)"
| invite: "CreateFeederEnrollment db_ok now en (sv_db (ay_server y)) = (err, db') \<Longrightarrow>
    agent_step c y (move_server ((ay_server y)\<lparr> sv_db := db' \<rparr>) y)"
| manager: "agent_step c y (move_server ((ay_server y)\<lparr> sv_manager := m \<rparr>) y)"

inductive agent_reachable :: "codec \<Rightarrow> agent_sys \<Rightarrow> agent_sys \<Rightarrow> bool" for c y0 where
  start: "agent_reachable c y0 y0"
| step: "agent_reachable c y0 y \<Longrightarrow> agent_step c y z \<Longrightarrow> agent_reachable c y0 z"

definition agent_start :: "agent_server \<Rightarrow> agent_sys" where
  "agent_start sv = \<lparr> ay_server = sv, ay_jobs = [], ay_log = [], ay_epoch = (\<lambda>_. 0), ay_keys = row_keys sv \<rparr>"

section \<open>What an operation does to the rows\<close>

definition keeps_rows :: "agent_server \<Rightarrow> agent_server \<Rightarrow> bool" where
  "keeps_rows sv sv' \<longleftrightarrow> (\<forall>i f. rows sv i = Some f \<longrightarrow> (\<exists>f'. rows sv' i = Some f' \<and> sf_LastSequence f \<le> sf_LastSequence f'))"

lemma keeps_rows_refl [simp]: "keeps_rows sv sv"
  by (simp add: keeps_rows_def)

lemma keeps_rows_db: "fdb_feeders (sv_db sv') = fdb_feeders (sv_db sv) \<Longrightarrow> keeps_rows sv sv'"
  by (simp add: keeps_rows_def)

lemma keeps_rows_update:
  assumes "fdb_feeders (sv_db sv') = AList.update i f' (fdb_feeders (sv_db sv))"
    and "\<And>f. rows sv i = Some f \<Longrightarrow> sf_LastSequence f \<le> sf_LastSequence f'"
  shows "keeps_rows sv sv'"
  using assms by (auto simp: keeps_rows_def)

lemma accept_db:
  assumes "accept_stage env e (hash, s) sv = (r, sv')"
  shows "sv_db sv' = snd (AcceptFeederSequence (ie_begin env) (ie_read env) (ie_write env) (en_FeederID e) (en_Sequence e) hash (ie_now3 env) (sv_db sv))"
  using assms by (auto simp: accept_stage_def Let_def split: prod.splits sum.splits if_splits)

lemma AcceptFeederSequence_cases:
  assumes "AcceptFeederSequence b r w i n hash seenAt db = (res, db')"
  shows "res \<noteq> Inr SequenceAccepted \<and> db' = db \<or>
    (\<exists>f. res = Inr SequenceAccepted \<and> map_of (fdb_feeders db) i = Some f \<and> sf_LastSequence f < n \<and>
       db' = db\<lparr> fdb_feeders := AList.update i (accept_row n hash seenAt f) (fdb_feeders db) \<rparr>)"
proof (cases "map_of (fdb_feeders db) i")
  case None
  then show ?thesis using assms by (auto simp: AcceptFeederSequence_def split: if_splits)
next
  case (Some f)
  then show ?thesis using assms by (auto simp: AcceptFeederSequence_def not_less split: if_splits)
qed

lemma accept_cases:
  assumes "accept_stage env e (hash, s) sv = (r, sv')"
  obtains (new) f where "accepts env e hash sv" "rows sv (en_FeederID e) = Some f" "sf_LastSequence f < en_Sequence e"
      "fdb_feeders (sv_db sv') = AList.update (en_FeederID e) (accept_row (en_Sequence e) hash (ie_now3 env) f) (fdb_feeders (sv_db sv))"
  | (old) "\<not> accepts env e hash sv" "sv_db sv' = sv_db sv"
proof -
  obtain res db' where a: "AcceptFeederSequence (ie_begin env) (ie_read env) (ie_write env) (en_FeederID e) (en_Sequence e) hash (ie_now3 env) (sv_db sv) = (res, db')"
    by (cases "AcceptFeederSequence (ie_begin env) (ie_read env) (ie_write env) (en_FeederID e) (en_Sequence e) hash (ie_now3 env) (sv_db sv)")
  have db: "sv_db sv' = db'" "accepts env e hash sv \<longleftrightarrow> res = Inr SequenceAccepted"
    using accept_db [OF assms] a by (simp_all add: accepts_def)
  from AcceptFeederSequence_cases [OF a] show thesis using new old unfolding db by fastforce
qed

lemma revoke_keeps: "RevokeFeeder db_ok i now (sv_db sv) = (err, db') \<Longrightarrow> keeps_rows sv (sv\<lparr> sv_db := db' \<rparr>)"
  by (auto simp: RevokeFeeder_def keeps_rows_def revoke_row_def split: if_splits option.splits)

lemma upsert_keeps: "UpsertFeeder db_ok now f (sv_db sv) = (err, db') \<Longrightarrow> keeps_rows sv (sv\<lparr> sv_db := db' \<rparr>)"
  by (auto simp: UpsertFeeder_def keeps_rows_def merge_feeder_def Let_def split: if_splits option.splits sum.splits)

lemma invite_keeps: "CreateFeederEnrollment db_ok now en (sv_db sv) = (err, db') \<Longrightarrow> keeps_rows sv (sv\<lparr> sv_db := db' \<rparr>)"
  by (auto simp: CreateFeederEnrollment_def keeps_rows_def Let_def split: if_splits)

lemma consume_rows:
  "rows sv i = Some f \<Longrightarrow> \<exists>f'. map_of (fdb_feeders (snd (ConsumeFeederEnrollment db_ok tokenHash publicKey now (sv_db sv)))) i = Some f'"
  by (auto simp: ConsumeFeederEnrollment_def update_feeder_def Let_def split: option.splits)

lemma enroll_db:
  assumes "handleEnrollment c db_ok now body sv = (status, fo, sv')"
  shows "sv_db sv' = sv_db sv \<or>
    (\<exists>tokenHash publicKey. sv_db sv' = snd (ConsumeFeederEnrollment db_ok tokenHash publicKey now (sv_db sv)))"
proof (cases body)
  case None
  then show ?thesis using assms by (simp add: handleEnrollment_def)
next
  case (Some b)
  obtain token0 publicKey where b: "b = (token0, publicKey)" by (cases b)
  obtain r db' where c: "ConsumeFeederEnrollment db_ok (cd_sha256 c (trim_space token0)) publicKey now (sv_db sv) = (r, db')"
    by (cases "ConsumeFeederEnrollment db_ok (cd_sha256 c (trim_space token0)) publicKey now (sv_db sv)")
  have "sv_db sv' = sv_db sv \<or> sv_db sv' = db'"
    using assms unfolding Some b by (auto simp: handleEnrollment_def c Let_def split: prod.splits sum.splits if_splits)
  then show ?thesis using c by (metis snd_conv)
qed

lemma enroll_rows:
  assumes "handleEnrollment c db_ok now body sv = (status, fo, sv')" "rows sv i = Some f"
  shows "\<exists>f'. rows sv' i = Some f'"
  using enroll_db [OF assms(1)] consume_rows [OF assms(2)] assms(2) by metis

section \<open>The invariant\<close>

definition signed_by :: "codec \<Rightarrow> string set \<Rightarrow> signed_envelope \<Rightarrow> bool" where
  "signed_by c keys e \<longleftrightarrow> (\<exists>pub\<in>keys. \<exists>now hash. VerifyEnvelope c pub e now DefaultMaxClockSkew = Inr hash)"

definition accepted_in :: "agent_sys \<Rightarrow> feeder_id \<Rightarrow> nat \<Rightarrow> u64 list" where
  "accepted_in y i n = map (\<lambda>(e, _). en_Sequence e) (filter (\<lambda>(e, m). en_FeederID e = i \<and> m = n) (ay_log y))"

definition agent_inv :: "codec \<Rightarrow> agent_sys \<Rightarrow> bool" where
  "agent_inv c y \<longleftrightarrow>
     (\<forall>i f. rows (ay_server y) i = Some f \<longrightarrow> sf_PublicKey f \<in> ay_keys y i \<and> (\<forall>q\<in>set (accepted_in y i (ay_epoch y i)). q \<le> sf_LastSequence f)) \<and>
     (\<forall>e n. (e, n) \<in> set (ay_log y) \<longrightarrow>
        n \<le> ay_epoch y (en_FeederID e) \<and> rows (ay_server y) (en_FeederID e) \<noteq> None \<and> signed_by c (ay_keys y (en_FeederID e)) e) \<and>
     (\<forall>i n. sorted_wrt (<) (accepted_in y i n)) \<and>
     (\<forall>e v. (e, v) \<in> set (ay_jobs y) \<longrightarrow> signed_by c (ay_keys y (en_FeederID e)) e)"

lemma agent_invI:
  assumes "\<And>i f. rows (ay_server y) i = Some f \<Longrightarrow> sf_PublicKey f \<in> ay_keys y i \<and> (\<forall>q\<in>set (accepted_in y i (ay_epoch y i)). q \<le> sf_LastSequence f)"
    and "\<And>e n. (e, n) \<in> set (ay_log y) \<Longrightarrow>
        n \<le> ay_epoch y (en_FeederID e) \<and> rows (ay_server y) (en_FeederID e) \<noteq> None \<and> signed_by c (ay_keys y (en_FeederID e)) e"
    and "\<And>i n. sorted_wrt (<) (accepted_in y i n)"
    and "\<And>e v. (e, v) \<in> set (ay_jobs y) \<Longrightarrow> signed_by c (ay_keys y (en_FeederID e)) e"
  shows "agent_inv c y"
  unfolding agent_inv_def using assms by (intro conjI allI impI) simp_all

lemma agent_invD:
  assumes "agent_inv c y"
  shows "rows (ay_server y) i = Some f \<Longrightarrow> sf_PublicKey f \<in> ay_keys y i"
    and "rows (ay_server y) i = Some f \<Longrightarrow> q \<in> set (accepted_in y i (ay_epoch y i)) \<Longrightarrow> q \<le> sf_LastSequence f"
    and "(e, n) \<in> set (ay_log y) \<Longrightarrow> n \<le> ay_epoch y (en_FeederID e)"
    and "(e, n) \<in> set (ay_log y) \<Longrightarrow> \<exists>f. rows (ay_server y) (en_FeederID e) = Some f"
    and "(e, n) \<in> set (ay_log y) \<Longrightarrow> signed_by c (ay_keys y (en_FeederID e)) e"
    and "sorted_wrt (<) (accepted_in y i n)"
  using assms unfolding agent_inv_def by (simp_all del: split_paired_All)

lemma agent_inv_jobs: "agent_inv c y \<Longrightarrow> (e, v) \<in> set (ay_jobs y) \<Longrightarrow> signed_by c (ay_keys y (en_FeederID e)) e"
  unfolding agent_inv_def by blast

lemma accepted_log: "q \<in> set (accepted_in y i n) \<Longrightarrow> \<exists>e. (e, n) \<in> set (ay_log y) \<and> en_FeederID e = i"
  by (auto simp: accepted_in_def)

lemma signed_by_mono: "signed_by c K e \<Longrightarrow> K \<subseteq> K' \<Longrightarrow> signed_by c K' e"
  by (auto simp: signed_by_def)

lemma move_server_sel [simp]:
  "ay_server (move_server sv y) = sv" "ay_jobs (move_server sv y) = ay_jobs y" "ay_log (move_server sv y) = ay_log y"
  "ay_epoch (move_server sv y) = ay_epoch y" "ay_keys (move_server sv y) i = ay_keys y i \<union> row_keys sv i"
  by (simp_all add: move_server_def)

lemma verify_signed_by:
  assumes "agent_inv c y" "verify_stage c now1 now2 (sv_db (ay_server y)) e = Inr (hash, s)"
  shows "signed_by c (ay_keys y (en_FeederID e)) e"
proof -
  obtain f where "rows (ay_server y) (en_FeederID e) = Some f" "VerifyEnvelope c (sf_PublicKey f) e now1 DefaultMaxClockSkew = Inr hash"
    using assms(2) by (auto simp: verify_stage_def store_Feeder_def split: option.splits sum.splits if_splits)
  then show ?thesis using agent_invD(1) [OF assms(1)] unfolding signed_by_def by blast
qed

text \<open>
  A change of the server alone, where a row either keeps or raises its sequence or begins a
  new enrollment.
\<close>

lemma inv_move:
  assumes inv: "agent_inv c y"
    and rows: "\<And>i f. rows (ay_server y) i = Some f \<Longrightarrow> \<exists>f'. rows sv' i = Some f' \<and> (epoch i = ay_epoch y i \<longrightarrow> sf_LastSequence f \<le> sf_LastSequence f')"
    and epoch: "\<And>i. ay_epoch y i \<le> epoch i"
  shows "agent_inv c ((move_server sv' y)\<lparr> ay_epoch := epoch \<rparr>)" (is "agent_inv c ?z")
proof (rule agent_invI)
  have acc: "accepted_in ?z = accepted_in y" by (simp add: accepted_in_def fun_eq_iff)
  have mono: "signed_by c (ay_keys y i) e \<Longrightarrow> signed_by c (ay_keys ?z i) e" for i e by (erule signed_by_mono) simp
  show "sf_PublicKey f \<in> ay_keys ?z i \<and> (\<forall>q\<in>set (accepted_in ?z i (ay_epoch ?z i)). q \<le> sf_LastSequence f)"
    if f: "map_of (fdb_feeders (sv_db (ay_server ?z))) i = Some f" for i f
  proof (intro conjI ballI)
    show "sf_PublicKey f \<in> ay_keys ?z i" using f by (simp add: row_keys_def)
    fix q assume q: "q \<in> set (accepted_in ?z i (ay_epoch ?z i))"
    then obtain e where e: "(e, epoch i) \<in> set (ay_log y)" "en_FeederID e = i" unfolding acc using accepted_log by fastforce
    then have same: "epoch i = ay_epoch y i" using agent_invD(3) [OF inv e(1)] epoch [of i] by simp
    obtain f0 where f0: "rows (ay_server y) i = Some f0" using agent_invD(4) [OF inv e(1)] e(2) by blast
    have "q \<le> sf_LastSequence f0" using agent_invD(2) [OF inv f0] q same unfolding acc by simp
    moreover have "sf_LastSequence f0 \<le> sf_LastSequence f" using rows [OF f0] f same by auto
    ultimately show "q \<le> sf_LastSequence f" by (rule order_trans)
  qed
  show "n \<le> ay_epoch ?z (en_FeederID e) \<and> map_of (fdb_feeders (sv_db (ay_server ?z))) (en_FeederID e) \<noteq> None \<and> signed_by c (ay_keys ?z (en_FeederID e)) e"
    if "(e, n) \<in> set (ay_log ?z)" for e n
  proof -
    have e: "(e, n) \<in> set (ay_log y)" using that by simp
    obtain f0 where "rows (ay_server y) (en_FeederID e) = Some f0" using agent_invD(4) [OF inv e] by blast
    from rows [OF this] show ?thesis
      using agent_invD(3) [OF inv e] epoch [of "en_FeederID e"] mono [OF agent_invD(5) [OF inv e]] by auto
  qed
  show "sorted_wrt (<) (accepted_in ?z i n)" for i n unfolding acc by (rule agent_invD(6) [OF inv])
  show "signed_by c (ay_keys ?z (en_FeederID e)) e" if "(e, v) \<in> set (ay_jobs ?z)" for e v
    using that mono agent_inv_jobs [OF inv] by simp
qed

lemma inv_keeps: "agent_inv c y \<Longrightarrow> keeps_rows (ay_server y) sv' \<Longrightarrow> agent_inv c (move_server sv' y)"
  using inv_move [of c y sv' "ay_epoch y"] by (force simp: keeps_rows_def move_server_def)

lemma inv_jobs:
  assumes inv: "agent_inv c y" and jobs: "\<And>e v. (e, v) \<in> set js \<Longrightarrow> signed_by c (ay_keys y (en_FeederID e)) e"
  shows "agent_inv c (y\<lparr> ay_jobs := js \<rparr>)" (is "agent_inv c ?z")
proof (rule agent_invI)
  have acc: "accepted_in ?z = accepted_in y" by (simp add: accepted_in_def fun_eq_iff)
  show "sf_PublicKey g \<in> ay_keys ?z i \<and> (\<forall>p\<in>set (accepted_in ?z i (ay_epoch ?z i)). p \<le> sf_LastSequence g)"
    if "map_of (fdb_feeders (sv_db (ay_server ?z))) i = Some g" for i g
    using agent_invD(1,2) [OF inv] that by (simp add: acc)
  show "n \<le> ay_epoch ?z (en_FeederID d) \<and> map_of (fdb_feeders (sv_db (ay_server ?z))) (en_FeederID d) \<noteq> None \<and> signed_by c (ay_keys ?z (en_FeederID d)) d"
    if "(d, n) \<in> set (ay_log ?z)" for d n
    using that agent_invD(3,4,5) [OF inv, of d n] by auto
  show "sorted_wrt (<) (accepted_in ?z i n)" for i n unfolding acc by (rule agent_invD(6) [OF inv])
  show "signed_by c (ay_keys ?z (en_FeederID d)) d" if "(d, v) \<in> set (ay_jobs ?z)" for d v
    using that jobs by simp
qed

text \<open>A newly accepted envelope has a higher sequence than all of its enrollment.\<close>

lemma inv_log:
  assumes inv: "agent_inv c y" and f: "rows (ay_server y) (en_FeederID e) = Some f" and q: "en_Sequence e \<le> sf_LastSequence f"
    and new: "\<And>p. p \<in> set (accepted_in y (en_FeederID e) (ay_epoch y (en_FeederID e))) \<Longrightarrow> p < en_Sequence e"
    and signed: "signed_by c (ay_keys y (en_FeederID e)) e"
  shows "agent_inv c (y\<lparr> ay_log := ay_log y @ [(e, ay_epoch y (en_FeederID e))] \<rparr>)" (is "agent_inv c ?z")
proof (rule agent_invI)
  have acc: "accepted_in ?z i n = accepted_in y i n @ (if en_FeederID e = i \<and> ay_epoch y i = n then [en_Sequence e] else [])" for i n
    by (auto simp: accepted_in_def)
  show "sf_PublicKey g \<in> ay_keys ?z i \<and> (\<forall>p\<in>set (accepted_in ?z i (ay_epoch ?z i)). p \<le> sf_LastSequence g)"
    if g: "map_of (fdb_feeders (sv_db (ay_server ?z))) i = Some g" for i g
    using agent_invD(1,2) [OF inv] g f q by (auto simp: acc)
  show "n \<le> ay_epoch ?z (en_FeederID d) \<and> map_of (fdb_feeders (sv_db (ay_server ?z))) (en_FeederID d) \<noteq> None \<and> signed_by c (ay_keys ?z (en_FeederID d)) d"
    if "(d, n) \<in> set (ay_log ?z)" for d n
    using that agent_invD(3,4,5) [OF inv, of d n] f signed by auto
  show "sorted_wrt (<) (accepted_in ?z i n)" for i n
    unfolding acc using agent_invD(6) [OF inv] new by (auto simp: sorted_wrt_append)
  show "signed_by c (ay_keys ?z (en_FeederID d)) d" if "(d, v) \<in> set (ay_jobs ?z)" for d v
    using that agent_inv_jobs [OF inv] by simp
qed

lemma inv_accept:
  assumes inv: "agent_inv c y" and jobs: "ay_jobs y = xs @ (e, hash, s) # ys"
    and acc: "accept_stage env e (hash, s) (ay_server y) = (r, sv')"
  shows "agent_inv c ((move_server sv' y)\<lparr> ay_jobs := xs @ ys,
      ay_log := ay_log y @ (if accepts env e hash (ay_server y) then [(e, ay_epoch y (en_FeederID e))] else []) \<rparr>)"
proof -
  have signed: "signed_by c (ay_keys y (en_FeederID d)) d" if "(d, v) \<in> set (ay_jobs y)" for d v by (rule agent_inv_jobs [OF inv that])
  show ?thesis
  proof (cases rule: accept_cases [OF acc])
    case (1 f)
    let ?z = "(move_server sv' y)\<lparr> ay_jobs := xs @ ys \<rparr>"
    have m: "agent_inv c (move_server sv' y)"
    proof (rule inv_keeps [OF inv keeps_rows_update [OF 1(4)]])
      fix g assume "rows (ay_server y) (en_FeederID e) = Some g"
      then show "sf_LastSequence g \<le> sf_LastSequence (accept_row (en_Sequence e) hash (ie_now3 env) f)"
        using 1(2,3) by (simp add: accept_row_def)
    qed
    have z: "agent_inv c ?z" using agent_inv_jobs [OF m] jobs by (intro inv_jobs [OF m]) auto
    have row: "rows (ay_server ?z) (en_FeederID e) = Some (accept_row (en_Sequence e) hash (ie_now3 env) f)" by (simp add: 1(4))
    have less: "p < en_Sequence e" if "p \<in> set (accepted_in ?z (en_FeederID e) (ay_epoch ?z (en_FeederID e)))" for p
    proof -
      have "p \<in> set (accepted_in y (en_FeederID e) (ay_epoch y (en_FeederID e)))" using that by (simp add: accepted_in_def)
      from agent_invD(2) [OF inv 1(2) this] 1(3) show ?thesis by (rule le_less_trans)
    qed
    have "signed_by c (ay_keys ?z (en_FeederID e)) e"
      using signed [of e "(hash, s)"] jobs by (auto elim!: signed_by_mono)
    from inv_log [OF z row _ less this] 1(1) show ?thesis by (simp add: accept_row_def)
  next
    case 2
    have m: "agent_inv c (move_server sv' y)" by (rule inv_keeps [OF inv keeps_rows_db]) (simp add: 2(2))
    have "agent_inv c ((move_server sv' y)\<lparr> ay_jobs := xs @ ys \<rparr>)" using agent_inv_jobs [OF m] jobs by (intro inv_jobs [OF m]) auto
    moreover have eq: "(move_server sv' y)\<lparr> ay_jobs := xs @ ys, ay_log := ay_log y \<rparr> = (move_server sv' y)\<lparr> ay_jobs := xs @ ys \<rparr>"
      by (simp add: move_server_def)
    ultimately show ?thesis by (simp only: 2(1) if_False append_Nil2 eq)
  qed
qed

lemma inv_enroll:
  assumes inv: "agent_inv c y" and h: "handleEnrollment c db_ok now body (ay_server y) = (status, f, sv')"
  shows "agent_inv c ((move_server sv' y)\<lparr> ay_epoch := new_epochs (ay_server y) sv' (ay_epoch y) \<rparr>)"
proof (rule inv_move [OF inv])
  fix i f0 assume f0: "rows (ay_server y) i = Some f0"
  then obtain f' where "rows sv' i = Some f'" using enroll_rows [OF h] by blast
  with f0 show "\<exists>f'. rows sv' i = Some f' \<and> (new_epochs (ay_server y) sv' (ay_epoch y) i = ay_epoch y i \<longrightarrow> sf_LastSequence f0 \<le> sf_LastSequence f')"
    by (auto simp: new_epochs_def)
qed (simp add: new_epochs_def)

lemma agent_step_inv: "agent_step c y z \<Longrightarrow> agent_inv c y \<Longrightarrow> agent_inv c z"
proof (induction rule: agent_step.induct)
  case (verify now1 now2 y e hash s)
  then show ?case using agent_inv_jobs [OF verify.prems] verify_signed_by [OF verify.prems verify.hyps(1)] by (intro inv_jobs) auto
next
  case (accept y xs e hash s ys env r sv')
  then show ?case by (intro inv_accept)
next
  case (enroll db_ok now body y status f sv')
  then show ?case by (intro inv_enroll)
next
  case (revoke db_ok i now y err db')
  then show ?case by (intro inv_keeps revoke_keeps)
next
  case (upsert db_ok now f y err db')
  then show ?case by (intro inv_keeps upsert_keeps)
next
  case (invite db_ok now en y err db')
  then show ?case by (intro inv_keeps invite_keeps)
next
  case (manager y m)
  then show ?case by (intro inv_keeps keeps_rows_db) simp_all
qed

lemma agent_reachable_inv: "agent_reachable c y0 y \<Longrightarrow> agent_inv c y0 \<Longrightarrow> agent_inv c y"
  by (induction rule: agent_reachable.induct) (auto intro: agent_step_inv)

lemma agent_start_inv: "agent_inv c (agent_start sv)"
  by (rule agent_invI) (simp_all add: agent_start_def accepted_in_def row_keys_def)

text \<open>
  C8. No replay, no forgery. However verified requests interleave with enrollments,
  revocations and edits of the feeders, the sequence numbers accepted for a feeder within one
  enrollment strictly increase, so no message is accepted twice; and everything accepted
  carries a valid signature by a key that this feeder has had.
\<close>

theorem agent_no_replay:
  assumes "agent_reachable c (agent_start sv) y"
  shows "sorted_wrt (<) (accepted_in y i n) \<and> (\<forall>(e, m)\<in>set (ay_log y). signed_by c (ay_keys y (en_FeederID e)) e)"
  using agent_invD(5,6) [OF agent_reachable_inv [OF assms agent_start_inv]] by auto

lemma agent_demo_verified:
  "\<exists>s. verify_stage agent_demo_codec 160 160 (sv_db agent_demo_server) agent_demo_envelope = Inr (replicate 32 (CHR ''h''), s)"
proof -
  have libs: "codec_carries agent_demo_codec (payload_of agent_demo_snapshot)"
    "key_pair agent_demo_codec (replicate 64 (CHR ''k'')) (sf_PublicKey agent_demo_row)"
    by (simp_all add: codec_carries_def key_pair_def agent_demo_codec_def agent_demo_row_def)
  have snap: "canonical_list (sn_Aircraft agent_demo_snapshot)" by (simp add: agent_demo_snapshot_def canonical_list_def agent_demo_valid)
  have enc: "Encode agent_demo_codec True (Some agent_demo_snapshot) = Inr ''j''"
    by (simp add: Encode_def agent_demo_codec_def agent_demo_snapshot_def MaxAircraft_def MaxDecompressedBytes_def MaxCompressedBytes_def)
  have sign: "SignEnvelope agent_demo_codec (replicate 64 (CHR ''k'')) ''roof'' 5 100 ''j'' = Inr agent_demo_envelope"
    by (simp add: SignEnvelope_def agent_demo_valid agent_demo_envelope_def ProtocolVersion_def agent_demo_codec_def MaxCompressedBytes_def Let_def)
  have row: "map_of (fdb_feeders (sv_db agent_demo_server)) ''roof'' = Some agent_demo_row" "fd_Enabled (sf_Descriptor agent_demo_row)"
    "fd_SourceKind (sf_Descriptor agent_demo_row) = FeederSourceAgent"
    by (simp_all add: agent_demo_server_def agent_demo_row_def publish_demo_descriptor_def)
  have skew: "160 - DefaultMaxClockSkew \<le> 100" "100 \<le> 160 + DefaultMaxClockSkew" by (simp_all add: DefaultMaxClockSkew_def)
  obtain s where "verify_stage agent_demo_codec 160 160 (sv_db agent_demo_server) agent_demo_envelope = Inr (cd_sha256 agent_demo_codec ''j'', s)"
    by (rule verify_stage_signed [OF libs snap enc sign row skew])
  then show ?thesis by (auto simp: agent_demo_codec_def)
qed

theorem agent_no_replay_witness:
  "\<exists>y. agent_reachable agent_demo_codec (agent_start agent_demo_server) y \<and> accepted_in y ''roof'' 0 = [5] \<and> sorted_wrt (<) (accepted_in y ''roof'' 0)"
proof -
  let ?h = "replicate 32 (CHR ''h'')"
  let ?y0 = "agent_start agent_demo_server"
  obtain s where v: "verify_stage agent_demo_codec 160 160 (sv_db (ay_server ?y0)) agent_demo_envelope = Inr (?h, s)"
    using agent_demo_verified by (auto simp: agent_start_def)
  let ?y1 = "?y0\<lparr> ay_jobs := ay_jobs ?y0 @ [(agent_demo_envelope, ?h, s)] \<rparr>"
  have "agent_step agent_demo_codec ?y0 ?y1" by (rule agent_step.verify [OF v]) (simp add: agent_start_def)
  then have r1: "agent_reachable agent_demo_codec ?y0 ?y1" by (rule agent_reachable.step [OF agent_reachable.start])
  obtain r sv' where a: "accept_stage (agent_demo_env 160) agent_demo_envelope (?h, s) (ay_server ?y1) = (r, sv')"
    by (cases "accept_stage (agent_demo_env 160) agent_demo_envelope (?h, s) (ay_server ?y1)")
  have acc: "accepts (agent_demo_env 160) agent_demo_envelope ?h (ay_server ?y1)"
    by (simp add: accepts_def AcceptFeederSequence_def agent_demo_env_def agent_demo_envelope_def agent_start_def agent_demo_server_def
        agent_demo_row_def publish_demo_descriptor_def)
  have jobs: "ay_jobs ?y1 = [] @ (agent_demo_envelope, ?h, s) # []" by (simp add: agent_start_def)
  let ?y2 = "(move_server sv' ?y1)\<lparr> ay_jobs := [] @ [], ay_log := ay_log ?y1 @
      (if accepts (agent_demo_env 160) agent_demo_envelope ?h (ay_server ?y1) then [(agent_demo_envelope, ay_epoch ?y1 (en_FeederID agent_demo_envelope))] else []) \<rparr>"
  have r2: "agent_reachable agent_demo_codec ?y0 ?y2" by (rule agent_reachable.step [OF r1 agent_step.accept [OF jobs a]])
  have "accepted_in ?y2 ''roof'' 0 = [5]"
    unfolding accepted_in_def using acc by (simp add: agent_start_def agent_demo_envelope_def)
  moreover have "sorted_wrt (<) (accepted_in ?y2 ''roof'' 0)" by (rule conjunct1 [OF agent_no_replay [OF r2]])
  ultimately show ?thesis using r2 by (intro exI [of _ ?y2] conjI)
qed

section \<open>An agent across an outage\<close>

text \<open>
  A turn of an agent and the server: what the receiver offers meanwhile, the clock and the
  disk of the agent, whether the request and its answer get through, and the server's side.
\<close>

record exchange =
  tn_offers :: "snapshot list"
  tn_now :: time
  tn_disk :: bool
  tn_link :: bool
  tn_back :: bool
  tn_full :: bool
  tn_gone :: bool
  tn_env :: ingress_env

definition posted :: "codec \<Rightarrow> exchange \<Rightarrow> delivery \<Rightarrow> signed_envelope option" where
  "posted c t d =
     (case next_snapshot d of
        None \<Rightarrow> None
      | Some (s, _) \<Rightarrow>
          (case fst (prepare_envelope c (tn_now t) (tn_disk t) (Some s) (dl_client d)) of
             Inl _ \<Rightarrow> None
           | Inr e \<Rightarrow> if tn_link t then Some e else None))"

definition answer :: "codec \<Rightarrow> exchange \<Rightarrow> agent_server \<Rightarrow> signed_envelope \<Rightarrow> (int \<times> bool) option \<times> agent_server" where
  "answer c t sv e = handleSnapshot c (tn_env t) (tn_full t) (tn_gone t) (Some e) sv"

definition agent_exchange :: "codec \<Rightarrow> exchange \<Rightarrow> delivery \<times> agent_server \<Rightarrow> delivery \<times> agent_server" where
  "agent_exchange c t ds =
     (let (d0, sv) = ds;
          d = d0\<lparr> dl_latest := fold offer_latest (tn_offers t) (dl_latest d0) \<rparr>;
          post = (\<lambda>e. if tn_link t \<and> tn_back t then fst (answer c t sv e) else None);
          d' = (case delivery_turn c (tn_now t) (tn_disk t) post d of None \<Rightarrow> d | Some (_, d') \<Rightarrow> d');
          sv' = (case posted c t d of None \<Rightarrow> sv | Some e \<Rightarrow> snd (answer c t sv e))
      in (d', sv'))"

lemma verify_late: "en_SentAt e + DefaultMaxClockSkew < now \<Longrightarrow> \<exists>err. VerifyEnvelope c pub e now DefaultMaxClockSkew = Inl err"
  by (simp add: VerifyEnvelope_def DefaultMaxClockSkew_def Let_def)

lemma process_late:
  assumes "en_SentAt e + DefaultMaxClockSkew < ie_now1 env"
  obtains err where "process c env e sv = (Inl err, sv)"
proof (cases "store_Feeder (en_FeederID e) (sv_db sv)")
  case (Inl err)
  then show thesis using that by (simp add: process_def verify_stage_def)
next
  case (Inr f)
  obtain err where "VerifyEnvelope c (sf_PublicKey f) e (ie_now1 env) DefaultMaxClockSkew = Inl err" using verify_late [OF assms] by blast
  with Inr have "verify_stage c (ie_now1 env) (ie_now2 env) (sv_db sv) e = Inl ErrIdentity \<or> verify_stage c (ie_now1 env) (ie_now2 env) (sv_db sv) e = Inl err"
    by (simp add: verify_stage_def)
  then show thesis using that by (auto simp: process_def)
qed

lemma answer_late:
  assumes "en_SentAt e + DefaultMaxClockSkew < ie_now1 (tn_env t)"
  shows "snd (answer c t sv e) = sv" "fst (answer c t sv e) \<noteq> Some (status, True)"
proof -
  obtain err where "process c (tn_env t) e sv = (Inl err, sv)" by (rule process_late [OF assms])
  then show "snd (answer c t sv e) = sv" "fst (answer c t sv e) \<noteq> Some (status, True)" by (simp_all add: answer_def handleSnapshot_def)
qed

lemma prepare_pending: "cl_pending cl = Some e \<Longrightarrow> snd (prepare_envelope c now disk_ok s cl) = cl"
  "cl_pending cl = Some e \<Longrightarrow> fst (prepare_envelope c now disk_ok s cl) = Inr e' \<Longrightarrow> e' = e"
  by (simp_all add: prepare_envelope_def split: if_splits)

lemma finish_refused: "(\<And>status. reply \<noteq> Some (status, True)) \<Longrightarrow> \<exists>err. finish_send reply cl = (Some err, cl)"
  by (auto simp: finish_send_def split: option.splits)

lemma send_late:
  assumes p: "cl_pending cl = Some e" and r: "\<And>status. post e \<noteq> Some (status, True)"
  shows "\<exists>err. Send c now disk_ok post s cl = (Some err, cl)"
proof -
  obtain x cl' where x: "prepare_envelope c now disk_ok s cl = (x, cl')" by (cases "prepare_envelope c now disk_ok s cl")
  have cl': "cl' = cl" and e: "\<And>e'. x = Inr e' \<Longrightarrow> e' = e" using prepare_pending [OF p] x by (metis snd_conv, metis fst_conv)
  show ?thesis using finish_refused [OF r] e by (cases x) (simp_all add: Send_def x cl')
qed

lemma exchange_late:
  assumes p: "cl_pending (dl_client d0) = Some e" and late: "en_SentAt e + DefaultMaxClockSkew < ie_now1 (tn_env t)"
  obtains d' where "agent_exchange c t (d0, sv) = (d', sv)" "dl_client d' = dl_client d0" "dl_pending d0 \<noteq> None \<Longrightarrow> dl_pending d' = dl_pending d0"
proof -
  define d where "d = d0\<lparr> dl_latest := fold offer_latest (tn_offers t) (dl_latest d0) \<rparr>"
  define post where "post = (\<lambda>e. if tn_link t \<and> tn_back t then fst (answer c t sv e) else None)"
  have cl: "dl_client d = dl_client d0" "dl_pending d = dl_pending d0" by (simp_all add: d_def)
  have no: "\<And>status. post e \<noteq> Some (status, True)" using answer_late(2) [OF late] by (simp add: post_def)
  have send: "\<exists>err. Send c (tn_now t) (tn_disk t) post s (dl_client d) = (Some err, dl_client d)" for s
    unfolding cl by (rule send_late [where e = e]) (fact p no)+
  have sv: "(case posted c t d of None \<Rightarrow> sv | Some e \<Rightarrow> snd (answer c t sv e)) = sv"
    using prepare_pending(2) [OF p] answer_late(1) [OF late]
    by (auto simp: posted_def cl split: option.splits sum.splits prod.splits)
  define d' where "d' = (case delivery_turn c (tn_now t) (tn_disk t) post d of None \<Rightarrow> d | Some (_, d') \<Rightarrow> d')"
  have d': "dl_client d' = dl_client d0" "dl_pending d0 \<noteq> None \<Longrightarrow> dl_pending d' = dl_pending d0"
  proof -
    show "dl_client d' = dl_client d0"
    proof (cases "next_snapshot d")
      case None
      then show ?thesis by (simp add: d'_def delivery_turn_def cl)
    next
      case (Some sr)
      obtain s rest where sr: "sr = (s, rest)" by (cases sr)
      obtain err where "Send c (tn_now t) (tn_disk t) post (Some s) (dl_client d) = (Some err, dl_client d)" using send by blast
      then show ?thesis using Some by (simp add: d'_def delivery_turn_def sr cl)
    qed
    assume "dl_pending d0 \<noteq> None"
    then obtain s where s: "dl_pending d0 = Some s" by blast
    obtain err where "Send c (tn_now t) (tn_disk t) post (Some s) (dl_client d) = (Some err, dl_client d)" using send by blast
    then show "dl_pending d' = dl_pending d0" by (simp add: d'_def delivery_turn_def next_snapshot_def cl s)
  qed
  have "agent_exchange c t (d0, sv) = (d', sv)"
    unfolding agent_exchange_def Let_def prod.case d_def [symmetric] post_def [symmetric] d'_def sv by (rule refl)
  from that [OF this d'] show thesis .
qed

text \<open>
  C12. An agent never recovers from an outage longer than the clock skew. When the envelope
  an agent has pending was signed more than two minutes before, by the server's clock, every
  further attempt is refused: the agent sends the same envelope again and again, whatever
  newer snapshots it is offered and however good the connection is, and the server publishes
  nothing.
\<close>

theorem agent_outage_stuck:
  assumes "cl_pending (dl_client d) = Some e" and "\<forall>t\<in>set ts. en_SentAt e + DefaultMaxClockSkew < ie_now1 (tn_env t)"
  shows "dl_client (fst (fold (agent_exchange c) ts (d, sv))) = dl_client d \<and> snd (fold (agent_exchange c) ts (d, sv)) = sv"
  using assms
proof (induction ts arbitrary: d)
  case (Cons t ts)
  obtain d' where d': "agent_exchange c t (d, sv) = (d', sv)" "dl_client d' = dl_client d"
    by (rule exchange_late [OF Cons.prems(1)]) (use Cons.prems(2) in auto)
  with Cons.IH [of d'] Cons.prems show ?case by simp
qed simp

definition demo_exchange :: "bool \<Rightarrow> time \<Rightarrow> exchange" where
  "demo_exchange link t = \<lparr> tn_offers = [agent_demo_snapshot\<lparr> sn_FetchedAt := t \<rparr>], tn_now = t, tn_disk = True, tn_link = link, tn_back = True,
     tn_full = False, tn_gone = False, tn_env = agent_demo_env t \<rparr>"

theorem agent_outage_stuck_witness:
  "\<exists>d. fold (agent_exchange agent_demo_codec) [demo_exchange False 100, demo_exchange True (200 * second), demo_exchange True (300 * second)]
     (\<lparr> dl_pending = None, dl_latest = [], dl_backoff = second, dl_client = agent_demo_client \<rparr>, agent_demo_server) = (d, agent_demo_server) \<and>
     cl_pending (dl_client d) = Some agent_demo_envelope"
proof -
  let ?d = "\<lparr> dl_pending = None, dl_latest = [], dl_backoff = second, dl_client = agent_demo_client \<rparr>"
  let ?late = "[demo_exchange True (200 * second), demo_exchange True (300 * second)]"
  have "prepare_envelope agent_demo_codec 100 True (Some (agent_demo_snapshot\<lparr> sn_FetchedAt := 100 \<rparr>)) agent_demo_client =
      (Inr agent_demo_envelope, agent_demo_client\<lparr> cl_credential := (cl_credential agent_demo_client)\<lparr> ck_Sequence := 5 \<rparr>,
         cl_file := Some ((cl_credential agent_demo_client)\<lparr> ck_Sequence := 5 \<rparr>), cl_pending := Some agent_demo_envelope \<rparr>)"
    by (simp add: prepare_envelope_def agent_demo_client_def agent_NewClient_def Encode_def agent_demo_codec_def agent_demo_snapshot_def
        MaxAircraft_def MaxDecompressedBytes_def MaxCompressedBytes_def SignEnvelope_def agent_demo_valid agent_demo_envelope_def ProtocolVersion_def
        saveCredentials_def Let_def)
  then obtain d1 where d1: "agent_exchange agent_demo_codec (demo_exchange False 100) (?d, agent_demo_server) = (d1, agent_demo_server)"
      "cl_pending (dl_client d1) = Some agent_demo_envelope"
    by (simp add: agent_exchange_def demo_exchange_def offer_latest_def latest_capacity_def delivery_turn_def next_snapshot_def Send_def
        finish_send_def posted_def Let_def)
  have "\<forall>t\<in>set ?late. en_SentAt agent_demo_envelope + DefaultMaxClockSkew < ie_now1 (tn_env t)"
    by (simp add: agent_demo_envelope_def demo_exchange_def agent_demo_env_def DefaultMaxClockSkew_def)
  from agent_outage_stuck [OF d1(2) this, of agent_demo_codec agent_demo_server] d1 show ?thesis
    by (cases "fold (agent_exchange agent_demo_codec) ?late (d1, agent_demo_server)") simp
qed

end
