(* ===== verification/Sessions.thy ===== *)
theory Sessions
  imports Domain "HOL-Library.Signed_Division"
begin

text \<open>
  \<open>internal/discord/sessions.go\<close>: the sessions behind the buttons of a message, bounded in
  number and per user, owned by a user in a place, and the custom IDs that name them.
  A clock reading and the bytes of \<open>rand.Read\<close> are arguments; the calls hold the mutex, so
  each is one step.
\<close>

section \<open>Sessions\<close>

record session =
  ses_ID :: string
  ses_UserID :: u64
  ses_GuildID :: u64
  ses_ChannelID :: u64
  ses_View :: string
  ses_Sort :: string
  ses_Query :: string
  ses_Squawk :: string
  ses_FeederID :: feeder_id
  ses_Units :: unit_system
  ses_Page :: int
  ses_PageSize :: int
  ses_RadiusNM :: real
  ses_MinFeet :: int
  ses_MaxFeet :: int
  ses_HasMin :: bool
  ses_HasMax :: bool
  ses_Action :: string
  ses_TargetID :: u64
  ses_TargetChannelID :: u64
  ses_TargetMessageID :: u64
  ses_TargetMessageCreatedAt :: time
  ses_TargetPreview :: string
  ses_Reason :: string
  ses_Duration :: duration
  ses_DeleteMessageDuration :: duration
  ses_CreatedAt :: time
  ses_ExpiresAt :: time

datatype session_error =
    ErrInvalidCustomID
  | ErrSessionExpired
  | ErrSessionOwner
  | ErrSessionCapacity
  | ErrSessionRandom
  | ErrSessionUnique

record session_manager =
  sm_sessions :: "(string, session) gomap"
  sm_perUser :: "(u64, int) gomap"
  sm_maxGlobal :: int
  sm_maxPerUser :: int
  sm_ttl :: duration

definition zero_session :: session where
  "zero_session = \<lparr> ses_ID = [], ses_UserID = 0, ses_GuildID = 0, ses_ChannelID = 0, ses_View = [], ses_Sort = [], ses_Query = [],
     ses_Squawk = [], ses_FeederID = [], ses_Units = [], ses_Page = 0, ses_PageSize = 0, ses_RadiusNM = 0, ses_MinFeet = 0,
     ses_MaxFeet = 0, ses_HasMin = False, ses_HasMax = False, ses_Action = [], ses_TargetID = 0, ses_TargetChannelID = 0,
     ses_TargetMessageID = 0, ses_TargetMessageCreatedAt = 0, ses_TargetPreview = [], ses_Reason = [], ses_Duration = 0,
     ses_DeleteMessageDuration = 0, ses_CreatedAt = 0, ses_ExpiresAt = 0 \<rparr>"

definition NewSessionManager :: "int \<Rightarrow> int \<Rightarrow> duration \<Rightarrow> session_manager" where
  "NewSessionManager maxGlobal maxPerUser ttl =
     \<lparr> sm_sessions = [], sm_perUser = [], sm_maxGlobal = maxGlobal, sm_maxPerUser = maxPerUser, sm_ttl = ttl \<rparr>"

text \<open>\<open>perUser[u]\<close>: zero for an absent key.\<close>

definition per_user :: "session_manager \<Rightarrow> u64 \<Rightarrow> int" where
  "per_user m u = (case map_of (sm_perUser m) u of None \<Rightarrow> 0 | Some n \<Rightarrow> n)"

definition session_deleteLocked :: "string \<Rightarrow> session \<Rightarrow> session_manager \<Rightarrow> session_manager" where
  "session_deleteLocked sid s m =
     (let u = ses_UserID s; n = per_user m u - 1;
          m1 = m\<lparr> sm_sessions := AList.delete sid (sm_sessions m), sm_perUser := AList.update u n (sm_perUser m) \<rparr>
      in if n \<le> 0 then m1\<lparr> sm_perUser := AList.delete u (sm_perUser m1) \<rparr> else m1)"

definition cleanup_entry :: "time \<Rightarrow> string \<times> session \<Rightarrow> int \<times> session_manager \<Rightarrow> int \<times> session_manager" where
  "cleanup_entry now entry acc =
     (let (sid, s) = entry; (removed, m) = acc in
      if \<not> now < ses_ExpiresAt s then (removed + 1, session_deleteLocked sid s m) else acc)"

definition cleanupLocked :: "time \<Rightarrow> session_manager \<Rightarrow> int \<times> session_manager" where
  "cleanupLocked now m = fold (cleanup_entry now) (sm_sessions m) (0, m)"

text \<open>\<open>base64.RawURLEncoding\<close>.\<close>

definition b64_alphabet :: string where
  "b64_alphabet = ''ABCDEFGHIJKLMNOPQRSTUVWXYZabcdefghijklmnopqrstuvwxyz0123456789-_''"

definition b64_char :: "nat \<Rightarrow> char" where
  "b64_char n = b64_alphabet ! (n mod 64)"

fun b64_encode :: "string \<Rightarrow> string" where
  "b64_encode (a # b # c # rest) =
     (let x = of_char a; y = of_char b; z = (of_char c :: nat) in
      b64_char (x div 4) # b64_char (x mod 4 * 16 + y div 16) # b64_char (y mod 16 * 4 + z div 64) # b64_char z # b64_encode rest)"
| "b64_encode [a, b] =
     (let x = of_char a; y = of_char b in [b64_char (x div 4), b64_char (x mod 4 * 16 + y div 16), b64_char (y mod 16 * 4)])"
| "b64_encode [a] = (let x = of_char a in [b64_char (x div 4), b64_char (x mod 4 * 16)])"
| "b64_encode [] = []"

text \<open>
  The four attempts at an unused identifier. \<open>random\<close> gives what \<open>rand.Read\<close> puts into the
  twelve bytes at each attempt, \<open>None\<close> for an error.
\<close>

fun fresh_id :: "(nat \<Rightarrow> string option) \<Rightarrow> (string, session) gomap \<Rightarrow> nat list \<Rightarrow> session_error + string" where
  "fresh_id random sessions [] = Inl ErrSessionUnique"
| "fresh_id random sessions (attempt # rest) =
     (case random attempt of
        None \<Rightarrow> Inl ErrSessionRandom
      | Some bytes \<Rightarrow>
          let sid = b64_encode bytes in
          if map_of sessions sid = None then (if sid = [] then Inl ErrSessionUnique else Inr sid)
          else fresh_id random sessions rest)"

record session_request =
  sq_user :: u64
  sq_guild :: u64
  sq_channel :: u64
  sq_view :: string
  sq_sort :: string
  sq_query :: string
  sq_squawk :: string

definition CreateWithTTL ::
    "time \<Rightarrow> time \<Rightarrow> (nat \<Rightarrow> string option) \<Rightarrow> session_request \<Rightarrow> duration \<Rightarrow> session_manager \<Rightarrow> (session_error + session) \<times> session_manager" where
  "CreateWithTTL now1 now2 random q ttl m0 =
     (let (_, m) = cleanupLocked now1 m0 in
      if int (length (sm_sessions m)) \<ge> sm_maxGlobal m \<or> per_user m (sq_user q) \<ge> sm_maxPerUser m then (Inl ErrSessionCapacity, m)
      else
        (case fresh_id random (sm_sessions m) [0, 1, 2, 3] of
           Inl e \<Rightarrow> (Inl e, m)
         | Inr sid \<Rightarrow>
             let ttl' = (if ttl \<le> 0 \<or> ttl > sm_ttl m then sm_ttl m else ttl);
                 s = zero_session\<lparr> ses_ID := sid, ses_UserID := sq_user q, ses_GuildID := sq_guild q, ses_ChannelID := sq_channel q,
                       ses_View := sq_view q, ses_Sort := sq_sort q, ses_Query := sq_query q, ses_Squawk := sq_squawk q,
                       ses_CreatedAt := now2, ses_ExpiresAt := now2 + ttl' \<rparr>
             in (Inr s, m\<lparr> sm_sessions := AList.update sid s (sm_sessions m),
                           sm_perUser := AList.update (sq_user q) (per_user m (sq_user q) + 1) (sm_perUser m) \<rparr>)))"

definition session_Create ::
    "time \<Rightarrow> time \<Rightarrow> (nat \<Rightarrow> string option) \<Rightarrow> session_request \<Rightarrow> session_manager \<Rightarrow> (session_error + session) \<times> session_manager" where
  "session_Create now1 now2 random q m = CreateWithTTL now1 now2 random q (sm_ttl m) m"

definition session_Get ::
    "time \<Rightarrow> string \<Rightarrow> u64 \<Rightarrow> u64 \<Rightarrow> u64 \<Rightarrow> session_manager \<Rightarrow> (session_error + session) \<times> session_manager" where
  "session_Get now sid user guild channel m =
     (case map_of (sm_sessions m) sid of
        None \<Rightarrow> (Inl ErrSessionExpired, m)
      | Some s \<Rightarrow>
          if \<not> now < ses_ExpiresAt s then (Inl ErrSessionExpired, session_deleteLocked sid s m)
          else if ses_UserID s \<noteq> user \<or> ses_GuildID s \<noteq> guild \<or> ses_ChannelID s \<noteq> channel then (Inl ErrSessionOwner, m)
          else (Inr s, m))"

definition session_Update :: "time \<Rightarrow> session \<Rightarrow> session_manager \<Rightarrow> (session_error + unit) \<times> session_manager" where
  "session_Update now s m =
     (case map_of (sm_sessions m) (ses_ID s) of
        None \<Rightarrow> (Inl ErrSessionExpired, m)
      | Some current \<Rightarrow>
          if \<not> now < ses_ExpiresAt current then (Inl ErrSessionExpired, m)
          else if ses_UserID current \<noteq> ses_UserID s \<or> ses_GuildID current \<noteq> ses_GuildID s \<or> ses_ChannelID current \<noteq> ses_ChannelID s
            then (Inl ErrSessionOwner, m)
          else (Inr (), m\<lparr> sm_sessions := AList.update (ses_ID s)
                  (s\<lparr> ses_CreatedAt := ses_CreatedAt current, ses_ExpiresAt := ses_ExpiresAt current \<rparr>) (sm_sessions m) \<rparr>))"

definition session_Delete :: "string \<Rightarrow> session_manager \<Rightarrow> session_manager" where
  "session_Delete sid m = (case map_of (sm_sessions m) sid of None \<Rightarrow> m | Some s \<Rightarrow> session_deleteLocked sid s m)"

definition session_Cleanup :: "time \<Rightarrow> session_manager \<Rightarrow> int \<times> session_manager" where
  "session_Cleanup now m = cleanupLocked now m"

definition session_Len :: "session_manager \<Rightarrow> int" where
  "session_Len m = int (length (sm_sessions m))"

section \<open>Custom IDs\<close>

definition customIDPrefix :: string where
  "customIDPrefix = ''sf:v1:''"

text \<open>
  \<open>strings.IndexFunc(value, unicode.IsSpace) >= 0\<close>: a white-space code point begins at some
  byte; its first byte is never a continuation byte, so it begins a rune there.
\<close>

definition contains_space :: "string \<Rightarrow> bool" where
  "contains_space value = list_ex (\<lambda>t. lead_space space_codes t \<noteq> 0) (suffixes value)"

definition invalidCustomIDPart :: "string \<Rightarrow> bool" where
  "invalidCustomIDPart value \<longleftrightarrow> value = [] \<or> CHR '':'' \<in> set value \<or> contains_space value"

definition CustomID :: "string \<Rightarrow> string \<Rightarrow> session_error + string" where
  "CustomID sessionID action =
     (if invalidCustomIDPart sessionID \<or> invalidCustomIDPart action then Inl ErrInvalidCustomID
      else
        let value = customIDPrefix @ sessionID @ '':'' @ action in
        if length value > 100 then Inl ErrInvalidCustomID else Inr value)"

definition ParseCustomID :: "string \<Rightarrow> session_error + string \<times> string" where
  "ParseCustomID value =
     (if \<not> prefix customIDPrefix value \<or> length value > 100 then Inl ErrInvalidCustomID
      else
        (case split_on (CHR '':'') (drop (length customIDPrefix) value) of
           [sessionID, action] \<Rightarrow>
             if invalidCustomIDPart sessionID \<or> invalidCustomIDPart action then Inl ErrInvalidCustomID else Inr (sessionID, action)
         | _ \<Rightarrow> Inl ErrInvalidCustomID))"

section \<open>Paged lists\<close>

text \<open>\<open>render.PageBounds\<close> and the buttons of \<open>pagination.go\<close>: label, custom ID, disabled.\<close>

definition DefaultPageSize :: int where
  "DefaultPageSize = 5"

definition PageBounds :: "int \<Rightarrow> int \<Rightarrow> int \<Rightarrow> int \<times> int \<times> int \<times> int" where
  "PageBounds entries page pageSize0 =
     (let pageSize = (if pageSize0 < 1 then DefaultPageSize else pageSize0);
          maxPage = max 0 ((entries - 1) sdiv pageSize);
          normalizedPage = min (max page 0) maxPage;
          start = min (normalizedPage * pageSize) entries;
          end = min (start + pageSize) entries
      in (start, end, normalizedPage, maxPage))"

end
