(* ===== verification/Sessions_Props.thy ===== *)
theory Sessions_Props
  imports Sessions
begin

text \<open>
  What the session manager of \<open>internal/discord/sessions.go\<close> keeps: the counters per user are
  exact and the capacities hold along every sequence of calls; a session that was handed out
  stays reachable by its owner, through the custom IDs of its buttons, until it expires.
\<close>

section \<open>The counters\<close>

definition owned :: "(string, session) gomap \<Rightarrow> u64 \<Rightarrow> nat" where
  "owned ss u = length (filter (\<lambda>(k, s). ses_UserID s = u) ss)"

definition user_bit :: "session \<Rightarrow> u64 \<Rightarrow> nat" where
  "user_bit s u = (if ses_UserID s = u then 1 else 0)"

lemma gm_mset_delete: "gm_wf m \<Longrightarrow> map_of m k = Some v \<Longrightarrow> mset m = add_mset (k, v) (mset (AList.delete k m))"
proof (induction m)
  case (Cons e m)
  obtain k' v' where e: "e = (k', v')" by (cases e)
  have wf: "gm_wf m" "k' \<notin> fst ` set m" using Cons.prems(1) by (auto simp: gm_wf_def e)
  show ?case
  proof (cases "k = k'")
    case True
    then have "AList.delete k m = m" using wf(2) by (simp add: delete_idem)
    with True Cons.prems(2) e show ?thesis by simp
  next
    case False
    with Cons.IH [OF wf(1)] Cons.prems(2) e show ?thesis by simp
  qed
qed simp

lemma gm_mset_update: "gm_wf m \<Longrightarrow> mset (AList.update k v m) = add_mset (k, v) (mset (AList.delete k m))"
  using gm_mset_delete [of "AList.update k v m" k v] by (simp add: delete_update_same)

lemma owned_mset: "owned ss u = size (filter_mset (\<lambda>(k, s). ses_UserID s = u) (mset ss))"
  by (simp add: owned_def mset_filter [symmetric] del: mset_filter)

lemma owned_delete: "gm_wf ss \<Longrightarrow> map_of ss k = Some s \<Longrightarrow> owned ss u = owned (AList.delete k ss) u + user_bit s u"
  using gm_mset_delete [of ss k s] by (simp add: owned_mset user_bit_def)

lemma owned_update: "gm_wf ss \<Longrightarrow> owned (AList.update k s ss) u = owned (AList.delete k ss) u + user_bit s u"
  using gm_mset_update [of ss k s] by (simp add: owned_mset user_bit_def)

lemma owned_Nil [simp]: "owned [] u = 0"
  by (simp add: owned_def)

lemma delete_absent: "map_of ss k = None \<Longrightarrow> AList.delete k ss = ss"
  by (simp add: delete_idem map_of_eq_None_iff)

definition session_ok :: "session_manager \<Rightarrow> bool" where
  "session_ok m \<longleftrightarrow> gm_wf (sm_sessions m) \<and> gm_wf (sm_perUser m) \<and>
     (\<forall>k s. map_of (sm_sessions m) k = Some s \<longrightarrow> ses_ID s = k) \<and>
     (\<forall>u. map_of (sm_perUser m) u = (if owned (sm_sessions m) u = 0 then None else Some (int (owned (sm_sessions m) u)))) \<and>
     int (length (sm_sessions m)) \<le> max 0 (sm_maxGlobal m) \<and>
     (\<forall>u. int (owned (sm_sessions m) u) \<le> max 0 (sm_maxPerUser m))"

lemma per_user_owned: "session_ok m \<Longrightarrow> per_user m u = int (owned (sm_sessions m) u)"
  by (simp add: session_ok_def per_user_def)

definition same_limits :: "session_manager \<Rightarrow> session_manager \<Rightarrow> bool" where
  "same_limits m m' \<longleftrightarrow> sm_maxGlobal m' = sm_maxGlobal m \<and> sm_maxPerUser m' = sm_maxPerUser m \<and> sm_ttl m' = sm_ttl m"

lemma session_deleteLocked_sel [simp]:
  "sm_sessions (session_deleteLocked k s m) = AList.delete k (sm_sessions m)"
  "sm_maxGlobal (session_deleteLocked k s m) = sm_maxGlobal m"
  "sm_maxPerUser (session_deleteLocked k s m) = sm_maxPerUser m"
  "sm_ttl (session_deleteLocked k s m) = sm_ttl m"
  by (simp_all add: session_deleteLocked_def Let_def)

lemma session_deleteLocked_perUser:
  "map_of (sm_perUser (session_deleteLocked k s m)) u =
     (if u = ses_UserID s then (if per_user m u - 1 \<le> 0 then None else Some (per_user m u - 1)) else map_of (sm_perUser m) u)"
  by (simp add: session_deleteLocked_def Let_def)

lemma session_deleteLocked_ok:
  assumes ok: "session_ok m" and s: "map_of (sm_sessions m) k = Some s"
  shows "session_ok (session_deleteLocked k s m)"
proof -
  let ?m = "session_deleteLocked k s m"
  have wf: "gm_wf (sm_sessions m)" "gm_wf (sm_perUser m)" using ok by (simp_all add: session_ok_def)
  have o: "owned (sm_sessions m) u = owned (sm_sessions ?m) u + user_bit s u" for u
    using owned_delete [OF wf(1) s, of u] by simp
  have len: "length (sm_sessions ?m) \<le> length (sm_sessions m)" by (simp add: length_delete_le)
  have "gm_wf (sm_perUser ?m)" using wf(2) by (simp add: session_deleteLocked_def Let_def)
  moreover have "map_of (sm_perUser ?m) u = (if owned (sm_sessions ?m) u = 0 then None else Some (int (owned (sm_sessions ?m) u)))" for u
    using ok o [of u] per_user_owned [OF ok, of u] unfolding session_deleteLocked_perUser user_bit_def
    by (auto simp: session_ok_def)
  moreover have "int (owned (sm_sessions ?m) u) \<le> max 0 (sm_maxPerUser ?m)" for u
  proof -
    have "int (owned (sm_sessions m) u) \<le> max 0 (sm_maxPerUser m)" using ok by (simp add: session_ok_def)
    with o [of u] show ?thesis by simp
  qed
  moreover have "int (length (sm_sessions ?m)) \<le> max 0 (sm_maxGlobal ?m)"
    using ok len unfolding session_ok_def by (simp only: session_deleteLocked_sel) linarith
  ultimately show ?thesis using ok wf unfolding session_ok_def by simp
qed

section \<open>Cleaning up\<close>

lemma cleanup_fold:
  assumes "session_ok m" "distinct (map fst es)" "\<And>k s. (k, s) \<in> set es \<Longrightarrow> map_of (sm_sessions m) k = Some s"
  shows "session_ok (snd (fold (cleanup_entry now) es (n, m))) \<and> same_limits m (snd (fold (cleanup_entry now) es (n, m))) \<and>
    map_of (sm_sessions (snd (fold (cleanup_entry now) es (n, m)))) k =
      (if \<exists>s. (k, s) \<in> set es \<and> ses_ExpiresAt s \<le> now then None else map_of (sm_sessions m) k)"
  using assms
proof (induction es arbitrary: n m)
  case Nil
  then show ?case by (simp add: same_limits_def)
next
  case (Cons e es)
  obtain k0 s0 where e: "e = (k0, s0)" by (cases e)
  have s0: "map_of (sm_sessions m) k0 = Some s0" and fresh: "k0 \<notin> fst ` set es" and d: "distinct (map fst es)"
    using Cons.prems(2,3) by (auto simp: e)
  have rest: "map_of (sm_sessions m) k' = Some s'" if "(k', s') \<in> set es" for k' s' using Cons.prems(3) that by simp
  show ?case
  proof (cases "now < ses_ExpiresAt s0")
    case True
    then have "cleanup_entry now e (n, m) = (n, m)" by (simp add: cleanup_entry_def e)
    with Cons.IH [OF Cons.prems(1) d rest, of n] True show ?thesis by (auto simp: e)
  next
    case False
    let ?m = "session_deleteLocked k0 s0 m"
    have step: "cleanup_entry now e (n, m) = (n + 1, ?m)" using False by (simp add: cleanup_entry_def e)
    have "map_of (sm_sessions ?m) k' = Some s'" if "(k', s') \<in> set es" for k' s'
      using rest [OF that] fresh that by force
    from Cons.IH [OF session_deleteLocked_ok [OF Cons.prems(1) s0] d this, of "n + 1"] False fresh show ?thesis
      unfolding fold_simps comp_def step by (auto simp: e same_limits_def)
  qed
qed

lemma cleanupLocked_spec:
  assumes "session_ok m"
  shows "session_ok (snd (cleanupLocked now m))" "same_limits m (snd (cleanupLocked now m))"
    "map_of (sm_sessions (snd (cleanupLocked now m))) k =
       (case map_of (sm_sessions m) k of None \<Rightarrow> None | Some s \<Rightarrow> if ses_ExpiresAt s \<le> now then None else Some s)"
proof -
  have wf: "gm_wf (sm_sessions m)" using assms by (simp add: session_ok_def)
  then have d: "distinct (map fst (sm_sessions m))" by (simp add: gm_wf_def)
  have mem: "map_of (sm_sessions m) k = Some s" if "(k, s) \<in> set (sm_sessions m)" for k s
    using that by (simp add: gm_wf_mem [OF wf])
  note spec = cleanup_fold [OF assms d mem, of now 0]
  show "session_ok (snd (cleanupLocked now m))" "same_limits m (snd (cleanupLocked now m))"
    unfolding cleanupLocked_def using spec by simp_all
  show "map_of (sm_sessions (snd (cleanupLocked now m))) k =
       (case map_of (sm_sessions m) k of None \<Rightarrow> None | Some s \<Rightarrow> if ses_ExpiresAt s \<le> now then None else Some s)"
    using conjunct2 [OF conjunct2 [OF spec [of k]]] unfolding cleanupLocked_def gm_wf_mem [OF wf] by (simp split: option.splits)
qed

section \<open>Identifiers\<close>

lemma fresh_id_Inr:
  "fresh_id random ss as = Inr k \<Longrightarrow> map_of ss k = None \<and> k \<noteq> [] \<and> (\<exists>n bytes. random n = Some bytes \<and> k = b64_encode bytes)"
proof (induction as)
  case (Cons a as)
  then show ?case by (cases "random a") (auto simp: Let_def split: if_splits)
qed simp

definition id_char :: "char \<Rightarrow> bool" where
  "id_char c \<longleftrightarrow> graph_char c \<and> c \<noteq> CHR '':''"

lemma b64_alphabet_ok: "list_all id_char b64_alphabet" "length b64_alphabet = 64"
  by (simp_all add: b64_alphabet_def id_char_def graph_char_code)

lemma b64_char_ok: "id_char (b64_char n)"
proof -
  have "b64_char n \<in> set b64_alphabet" by (simp add: b64_char_def b64_alphabet_ok)
  with b64_alphabet_ok(1) show ?thesis by (simp add: list_all_iff)
qed

lemma b64_encode_ok: "list_all id_char (b64_encode bs)"
  by (induction bs rule: b64_encode.induct) (simp_all add: Let_def b64_char_ok)

lemma length_b64_encode: "3 * length (b64_encode bs) \<le> 4 * length bs + 2"
  by (induction bs rule: b64_encode.induct) (fastforce simp: Let_def)+

lemma contains_space_graph: "list_all graph_char s \<Longrightarrow> \<not> contains_space s"
proof -
  assume s: "list_all graph_char s"
  have "lead_space space_codes t = 0" if "t \<in> set (suffixes s)" for t
  proof (rule lead_space_graph [OF space_codes_hd(1)])
    show "list_all graph_char t" using s that by (auto simp: list_all_iff dest: set_mono_suffix)
  qed
  then show ?thesis by (auto simp: contains_space_def list_ex_iff)
qed

lemma valid_part: "list_all id_char s \<Longrightarrow> s \<noteq> [] \<Longrightarrow> \<not> invalidCustomIDPart s"
proof -
  assume s: "list_all id_char s" "s \<noteq> []"
  then have "list_all graph_char s" by (auto simp: list_all_iff id_char_def)
  from contains_space_graph [OF this] s show ?thesis by (auto simp: invalidCustomIDPart_def list_all_iff id_char_def)
qed

lemma CustomID_Parse: "CustomID k a = Inr cid \<Longrightarrow> ParseCustomID cid = Inr (k, a)"
proof -
  assume c: "CustomID k a = Inr cid"
  then have v: "\<not> invalidCustomIDPart k" "\<not> invalidCustomIDPart a" "cid = customIDPrefix @ k @ '':'' @ a" "length cid \<le> 100"
    by (auto simp: CustomID_def Let_def split: if_splits)
  then have "CHR '':'' \<notin> set k" "CHR '':'' \<notin> set a" by (simp_all add: invalidCustomIDPart_def)
  then have "split_on (CHR '':'') (k @ '':'' @ a) = [k, a]" by (simp add: split_on_append_sep split_on_no_sep)
  with v show ?thesis by (simp add: ParseCustomID_def)
qed

section \<open>Runs\<close>

datatype session_op =
    SCreate time time "nat \<Rightarrow> string option" session_request duration
  | SGet time string u64 u64 u64
  | SUpdate time session
  | SDelete string
  | SCleanup time

fun session_step :: "session_op \<Rightarrow> session_manager \<Rightarrow> session_manager" where
  "session_step (SCreate now1 now2 random q ttl) m = snd (CreateWithTTL now1 now2 random q ttl m)"
| "session_step (SGet now k user guild channel) m = snd (session_Get now k user guild channel m)"
| "session_step (SUpdate now s) m = snd (session_Update now s m)"
| "session_step (SDelete k) m = session_Delete k m"
| "session_step (SCleanup now) m = snd (session_Cleanup now m)"

abbreviation session_run :: "session_op list \<Rightarrow> session_manager \<Rightarrow> session_manager" where
  "session_run ops m \<equiv> fold session_step ops m"

text \<open>A created session is a new entry; its owner had room for it.\<close>

lemma create_cases:
  assumes "session_ok m" and "CreateWithTTL now1 now2 random q ttl m = (r, m')"
  obtains (refused) e where "r = Inl e" "m' = snd (cleanupLocked now1 m)"
  | (created) s mc where "mc = snd (cleanupLocked now1 m)" "r = Inr s" "session_ok mc" "same_limits m mc"
      "map_of (sm_sessions mc) (ses_ID s) = None" "ses_ID s \<noteq> []" "\<exists>n bytes. random n = Some bytes \<and> ses_ID s = b64_encode bytes"
      "ses_UserID s = sq_user q" "ses_GuildID s = sq_guild q" "ses_ChannelID s = sq_channel q"
      "int (length (sm_sessions mc)) < sm_maxGlobal mc" "per_user mc (sq_user q) < sm_maxPerUser mc"
      "m' = mc\<lparr> sm_sessions := AList.update (ses_ID s) s (sm_sessions mc),
                sm_perUser := AList.update (sq_user q) (per_user mc (sq_user q) + 1) (sm_perUser mc) \<rparr>"
proof -
  let ?mc = "snd (cleanupLocked now1 m)"
  have ok: "session_ok ?mc" "same_limits m ?mc" using cleanupLocked_spec [OF assms(1)] by blast+
  have un: "cleanupLocked now1 m = (fst (cleanupLocked now1 m), ?mc)" by simp
  show thesis
  proof (cases "int (length (sm_sessions ?mc)) \<ge> sm_maxGlobal ?mc \<or> per_user ?mc (sq_user q) \<ge> sm_maxPerUser ?mc")
    case True
    then have "CreateWithTTL now1 now2 random q ttl m = (Inl ErrSessionCapacity, ?mc)"
      unfolding CreateWithTTL_def by (subst un) (simp only: prod.case Let_def True if_True)
    then have "r = Inl ErrSessionCapacity" "m' = ?mc" using assms(2) by simp_all
    then show thesis by (rule refused)
  next
    case False
    show thesis
    proof (cases "fresh_id random (sm_sessions ?mc) [0, 1, 2, 3]")
      case (Inl e)
      have "CreateWithTTL now1 now2 random q ttl m = (Inl e, ?mc)"
        unfolding CreateWithTTL_def by (subst un) (simp only: prod.case Let_def False if_False Inl sum.case)
      then have "r = Inl e" "m' = ?mc" using assms(2) by simp_all
      then show thesis by (rule refused)
    next
      case (Inr k)
      define s where "s = zero_session\<lparr> ses_ID := k, ses_UserID := sq_user q, ses_GuildID := sq_guild q, ses_ChannelID := sq_channel q,
          ses_View := sq_view q, ses_Sort := sq_sort q, ses_Query := sq_query q, ses_Squawk := sq_squawk q, ses_CreatedAt := now2,
          ses_ExpiresAt := now2 + (if ttl \<le> 0 \<or> ttl > sm_ttl ?mc then sm_ttl ?mc else ttl) \<rparr>"
      have f: "ses_ID s = k" "ses_UserID s = sq_user q" "ses_GuildID s = sq_guild q" "ses_ChannelID s = sq_channel q"
        by (simp_all add: s_def)
      have "CreateWithTTL now1 now2 random q ttl m = (Inr s, ?mc\<lparr> sm_sessions := AList.update k s (sm_sessions ?mc),
             sm_perUser := AList.update (sq_user q) (per_user ?mc (sq_user q) + 1) (sm_perUser ?mc) \<rparr>)"
        unfolding CreateWithTTL_def s_def by (subst un) (simp only: prod.case Let_def False if_False Inr sum.case)
      with assms(2) f have s: "r = Inr s" "m' = ?mc\<lparr> sm_sessions := AList.update (ses_ID s) s (sm_sessions ?mc),
             sm_perUser := AList.update (sq_user q) (per_user ?mc (sq_user q) + 1) (sm_perUser ?mc) \<rparr>" by simp_all
      show thesis
        by (rule created [OF refl s(1) ok _ _ _ _ _ _ _ _ s(2)]) (use f False fresh_id_Inr [OF Inr] in simp_all)
    qed
  qed
qed

lemma create_ok:
  assumes "session_ok mc" "map_of (sm_sessions mc) (ses_ID s) = None" "ses_UserID s = u"
    "int (length (sm_sessions mc)) < sm_maxGlobal mc" "per_user mc u < sm_maxPerUser mc"
  shows "session_ok (mc\<lparr> sm_sessions := AList.update (ses_ID s) s (sm_sessions mc),
      sm_perUser := AList.update u (per_user mc u + 1) (sm_perUser mc) \<rparr>)" (is "session_ok ?m")
proof -
  have wf: "gm_wf (sm_sessions mc)" "gm_wf (sm_perUser mc)" using assms(1) by (simp_all add: session_ok_def)
  have o: "owned (sm_sessions ?m) v = owned (sm_sessions mc) v + user_bit s v" for v
    using owned_update [OF wf(1), of "ses_ID s" s v] by (simp add: delete_absent [OF assms(2)])
  have pu: "map_of (sm_perUser mc) v = (if owned (sm_sessions mc) v = 0 then None else Some (int (owned (sm_sessions mc) v)))" for v
    using assms(1) by (simp add: session_ok_def)
  have cap: "int (owned (sm_sessions mc) v) \<le> max 0 (sm_maxPerUser mc)" for v using assms(1) by (simp add: session_ok_def)
  have n: "per_user mc v = int (owned (sm_sessions mc) v)" for v using assms(1) by (rule per_user_owned)
  have "map_of (sm_perUser ?m) v = (if owned (sm_sessions ?m) v = 0 then None else Some (int (owned (sm_sessions ?m) v)))" for v
    unfolding o using assms(3) by (simp add: n user_bit_def pu)
  moreover have "int (owned (sm_sessions ?m) v) \<le> max 0 (sm_maxPerUser ?m)" for v
    unfolding o using cap [of v] assms(3,5) by (auto simp: n user_bit_def)
  moreover have "int (length (sm_sessions ?m)) \<le> max 0 (sm_maxGlobal ?m)"
    using assms(2,4) by (simp add: gm_length_put map_of_eq_None_iff)
  ultimately show ?thesis using assms(1) wf unfolding session_ok_def by simp
qed

lemma update_ok:
  assumes "session_ok m" "map_of (sm_sessions m) (ses_ID s) = Some current" "ses_UserID current = ses_UserID s" "ses_ID s' = ses_ID s"
    "ses_UserID s' = ses_UserID s"
  shows "session_ok (m\<lparr> sm_sessions := AList.update (ses_ID s) s' (sm_sessions m) \<rparr>)"
proof -
  have wf: "gm_wf (sm_sessions m)" using assms(1) by (simp add: session_ok_def)
  have o: "owned (AList.update (ses_ID s) s' (sm_sessions m)) = owned (sm_sessions m)"
    using owned_update [OF wf, of "ses_ID s" s'] owned_delete [OF wf assms(2)] assms(3,5) by (auto simp: user_bit_def)
  have l: "length (AList.update (ses_ID s) s' (sm_sessions m)) = length (sm_sessions m)"
    using map_of_SomeD [OF assms(2)] by (force simp: gm_length_put)
  show ?thesis using assms(1,4) wf unfolding session_ok_def by (simp add: o l)
qed

lemma session_step_ok:
  assumes "session_ok m"
  shows "session_ok (session_step op m) \<and> same_limits m (session_step op m)"
proof (cases op)
  case (SCreate now1 now2 random q ttl)
  obtain r m' where c: "CreateWithTTL now1 now2 random q ttl m = (r, m')" by (cases "CreateWithTTL now1 now2 random q ttl m")
  show ?thesis
  proof (cases rule: create_cases [OF assms c])
    case 1
    then show ?thesis using cleanupLocked_spec [OF assms] by (simp add: SCreate c)
  next
    case (2 s mc)
    then show ?thesis using create_ok [OF 2(3,5,8,11,12)] by (simp add: SCreate c same_limits_def)
  qed
next
  case (SGet now k user guild channel)
  then show ?thesis using assms session_deleteLocked_ok [OF assms, of k]
    by (auto simp: session_Get_def same_limits_def split: option.splits)
next
  case (SUpdate now s)
  show ?thesis
  proof (cases "snd (session_Update now s m) = m")
    case True
    with assms SUpdate show ?thesis by (simp add: same_limits_def)
  next
    case False
    then obtain current where current: "map_of (sm_sessions m) (ses_ID s) = Some current" "ses_UserID current = ses_UserID s"
        "snd (session_Update now s m) = m\<lparr> sm_sessions := AList.update (ses_ID s)
           (s\<lparr> ses_CreatedAt := ses_CreatedAt current, ses_ExpiresAt := ses_ExpiresAt current \<rparr>) (sm_sessions m) \<rparr>"
      by (auto simp: session_Update_def split: option.splits if_splits)
    have "session_ok (snd (session_Update now s m))" unfolding current(3) by (rule update_ok [OF assms current(1,2)]) simp_all
    then show ?thesis using current(3) by (simp add: SUpdate same_limits_def)
  qed
next
  case (SDelete k)
  then show ?thesis using assms session_deleteLocked_ok [OF assms, of k] by (auto simp: session_Delete_def same_limits_def split: option.splits)
next
  case (SCleanup now)
  then show ?thesis using cleanupLocked_spec [OF assms] by (simp add: session_Cleanup_def)
qed

lemma session_run_ok: "session_ok m \<Longrightarrow> session_ok (session_run ops m) \<and> same_limits m (session_run ops m)"
proof (induction ops arbitrary: m)
  case Nil
  then show ?case by (simp add: same_limits_def)
next
  case (Cons op ops)
  from session_step_ok [OF Cons.prems, of op] Cons.IH [of "session_step op m"] show ?case by (simp add: same_limits_def)
qed

lemma NewSessionManager_ok: "session_ok (NewSessionManager g p ttl)"
  by (simp add: session_ok_def NewSessionManager_def)

text \<open>What an operation must not do to end the session \<open>s\<close> early.\<close>

fun spares :: "session \<Rightarrow> session_op \<Rightarrow> bool" where
  "spares s (SCreate now1 now2 random q ttl) \<longleftrightarrow> now1 < ses_ExpiresAt s"
| "spares s (SGet now k user guild channel) \<longleftrightarrow> now < ses_ExpiresAt s"
| "spares s (SUpdate now s') \<longleftrightarrow> True"
| "spares s (SDelete k) \<longleftrightarrow> k \<noteq> ses_ID s"
| "spares s (SCleanup now) \<longleftrightarrow> now < ses_ExpiresAt s"

definition same_identity :: "session \<Rightarrow> session \<Rightarrow> bool" where
  "same_identity s s' \<longleftrightarrow> ses_ID s' = ses_ID s \<and> ses_UserID s' = ses_UserID s \<and> ses_GuildID s' = ses_GuildID s \<and>
     ses_ChannelID s' = ses_ChannelID s \<and> ses_CreatedAt s' = ses_CreatedAt s \<and> ses_ExpiresAt s' = ses_ExpiresAt s"

definition held :: "session \<Rightarrow> session_manager \<Rightarrow> bool" where
  "held s m \<longleftrightarrow> (\<exists>s'. map_of (sm_sessions m) (ses_ID s) = Some s' \<and> same_identity s s')"

lemma held_cleanup: "session_ok m \<Longrightarrow> held s m \<Longrightarrow> now < ses_ExpiresAt s \<Longrightarrow> held s (snd (cleanupLocked now m))"
  by (auto simp: held_def same_identity_def cleanupLocked_spec(3))

lemma session_step_held:
  assumes ok: "session_ok m" and h: "held s m" and sp: "spares s op"
  shows "held s (session_step op m)"
proof (cases op)
  case (SCreate now1 now2 random q ttl)
  have hc: "held s (snd (cleanupLocked now1 m))" using held_cleanup [OF ok h] sp SCreate by simp
  obtain r m' where c: "CreateWithTTL now1 now2 random q ttl m = (r, m')" by (cases "CreateWithTTL now1 now2 random q ttl m")
  show ?thesis
  proof (cases rule: create_cases [OF ok c])
    case 1
    then show ?thesis using hc by (simp add: SCreate c)
  next
    case (2 s0 mc)
    have "map_of (sm_sessions mc) (ses_ID s) \<noteq> None" using hc unfolding 2(1) [symmetric] by (auto simp: held_def)
    then have "ses_ID s \<noteq> ses_ID s0" using 2(5) by metis
    then show ?thesis using hc unfolding 2(1) [symmetric] by (simp add: SCreate c 2(13) held_def)
  qed
next
  case (SGet now k user guild channel)
  then show ?thesis using h sp by (auto simp: session_Get_def held_def same_identity_def split: option.splits)
next
  case (SUpdate now s')
  then show ?thesis using h by (auto simp: session_Update_def held_def same_identity_def split: option.splits)
next
  case (SDelete k)
  then show ?thesis using h sp by (auto simp: session_Delete_def held_def split: option.splits)
next
  case (SCleanup now)
  then show ?thesis using held_cleanup [OF ok h] sp by (simp add: session_Cleanup_def)
qed

lemma session_run_held: "session_ok m \<Longrightarrow> held s m \<Longrightarrow> \<forall>op\<in>set ops. spares s op \<Longrightarrow> held s (session_run ops m)"
proof (induction ops arbitrary: m)
  case (Cons op ops)
  then show ?case using session_step_ok [of m op] session_step_held [of m s op] by simp
qed simp

section \<open>Pages\<close>

text \<open>A page is a slice of the records, never empty when there are records, at most a page long.\<close>

lemma page_start: "0 < ps \<Longrightarrow> 0 < n \<Longrightarrow> 0 \<le> p \<Longrightarrow> p \<le> (n - 1) div ps \<Longrightarrow> p * ps < (n :: int)"
proof -
  assume a: "0 < ps" "0 < n" "p \<le> (n - 1) div ps"
  then have "p * ps \<le> (n - 1) div ps * ps" by (simp add: mult_right_mono)
  also have "\<dots> \<le> n - 1" using div_mult_mod_eq [of "n - 1" ps] pos_mod_sign [OF a(1), of "n - 1"] by linarith
  finally show ?thesis by simp
qed

lemma PageBounds_slice:
  assumes "PageBounds n page ps = (start, end', p, mp)" "0 \<le> n"
  shows "0 \<le> start" "start \<le> end'" "end' \<le> n" "0 < n \<Longrightarrow> start < end'" "end' - start \<le> (if ps < 1 then DefaultPageSize else ps)"
    "0 \<le> p" "p \<le> mp"
proof -
  define z where "z = (if ps < 1 then DefaultPageSize else ps)"
  have z: "0 < z" by (simp add: z_def DefaultPageSize_def)
  define q where "q = max 0 ((n - 1) sdiv z)"
  define i where "i = min (max page 0) q"
  define j where "j = min (i * z) n"
  have "PageBounds n page ps = (j, min (j + z) n, i, q)"
    unfolding PageBounds_def Let_def j_def i_def q_def z_def by (rule refl)
  then have "(start, end', p, mp) = (j, min (j + z) n, i, q)" unfolding assms(1) .
  then have "mp = q" "p = i" "start = j" "end' = min (j + z) n" unfolding prod.inject by blast+
  then have eqs: "mp = max 0 ((n - 1) sdiv z)" "p = min (max page 0) mp" "start = min (p * z) n" "end' = min (start + z) n"
    unfolding j_def i_def q_def by (auto simp only:)
  have "0 \<le> mp" unfolding eqs(1) by simp
  then show p: "0 \<le> p" and "p \<le> mp" unfolding eqs(2) by simp_all
  have pz: "0 \<le> p * z" using p z by simp
  then show "0 \<le> start" unfolding eqs(3) using assms(2) by simp
  have "start \<le> n" unfolding eqs(3) by simp
  then show "start \<le> end'" "end' \<le> n" "end' - start \<le> (if ps < 1 then DefaultPageSize else ps)"
    unfolding eqs(4) z_def [symmetric] using z by simp_all
  assume n: "0 < n"
  have "mp = (n - 1) div z" unfolding eqs(1) using n z by (simp add: signed_divide_int_def sgn_if pos_imp_zdiv_nonneg_iff)
  then have "p * z < n" using page_start [OF z n p] \<open>p \<le> mp\<close> by simp
  then have "start < n" unfolding eqs(3) by simp
  then show "start < end'" unfolding eqs(4) using z by simp
qed

section \<open>The properties\<close>

text \<open>Bounded sessions. Along every sequence of calls the manager holds at most \<open>maxGlobal\<close>
  sessions and at most \<open>maxPerUser\<close> of any one user, and the counter it keeps for a user is
  the number of that user's sessions.
\<close>

theorem session_capacity:
  "session_Len (session_run ops (NewSessionManager maxGlobal maxPerUser ttl)) \<le> max 0 maxGlobal \<and>
   int (owned (sm_sessions (session_run ops (NewSessionManager maxGlobal maxPerUser ttl))) user) \<le> max 0 maxPerUser \<and>
   per_user (session_run ops (NewSessionManager maxGlobal maxPerUser ttl)) user =
     int (owned (sm_sessions (session_run ops (NewSessionManager maxGlobal maxPerUser ttl))) user)"
proof -
  let ?m = "session_run ops (NewSessionManager maxGlobal maxPerUser ttl)"
  have ok: "session_ok ?m" and lim: "sm_maxGlobal ?m = maxGlobal" "sm_maxPerUser ?m = maxPerUser"
    using session_run_ok [OF NewSessionManager_ok [of maxGlobal maxPerUser ttl], of ops]
    unfolding same_limits_def by (simp_all add: NewSessionManager_def)
  have "session_Len ?m \<le> max 0 maxGlobal" "int (owned (sm_sessions ?m) user) \<le> max 0 maxPerUser"
    using ok unfolding session_ok_def session_Len_def lim by blast+
  with per_user_owned [OF ok] show ?thesis by blast
qed

text \<open>Buttons reach their session, and nobody else's. When \<open>CreateWithTTL\<close> hands out a session,
  the custom ID of any action of up to 77 bytes without colon or space exists and parses back
  to the session and the action; whatever other calls follow, up to its expiry and as long as
  it is not deleted, the owner gets the session, with its identity and its expiry, and any
  other user, or the owner in another place, gets \<open>ErrSessionOwner\<close>.
\<close>

theorem session_button:
  assumes created: "CreateWithTTL now1 now2 random q ttl (session_run ops (NewSessionManager maxGlobal maxPerUser ttl0)) = (Inr s, m)"
    and bytes: "\<And>n bs. random n = Some bs \<Longrightarrow> length bs = 12"
    and action: "\<not> invalidCustomIDPart action" "length action \<le> 77"
    and later: "\<forall>op\<in>set ops'. spares s op" and now: "now < ses_ExpiresAt s"
  shows "(\<exists>cid. CustomID (ses_ID s) action = Inr cid \<and> ParseCustomID cid = Inr (ses_ID s, action)) \<and>
    (\<exists>s'. fst (session_Get now (ses_ID s) (sq_user q) (sq_guild q) (sq_channel q) (session_run ops' m)) = Inr s' \<and> same_identity s s') \<and>
    (\<forall>user guild channel. (user, guild, channel) \<noteq> (sq_user q, sq_guild q, sq_channel q) \<longrightarrow>
      fst (session_Get now (ses_ID s) user guild channel (session_run ops' m)) = Inl ErrSessionOwner)"
    (is "?button \<and> ?owner \<and> ?others")
proof -
  let ?m0 = "session_run ops (NewSessionManager maxGlobal maxPerUser ttl0)"
  have ok: "session_ok ?m0" using session_run_ok [OF NewSessionManager_ok] by blast
  have okm: "session_ok m" using session_step_ok [OF ok, of "SCreate now1 now2 random q ttl"] created by simp
  obtain sb mc where id: "\<exists>n bytes. random n = Some bytes \<and> ses_ID s = b64_encode bytes" "ses_ID s \<noteq> []"
    and owner: "ses_UserID s = sq_user q" "ses_GuildID s = sq_guild q" "ses_ChannelID s = sq_channel q"
    and m: "map_of (sm_sessions m) (ses_ID s) = Some s"
    by (cases rule: create_cases [OF ok created]) auto
  have ?button
  proof -
    obtain bs where bs: "ses_ID s = b64_encode bs" "length bs = 12" using id bytes by blast
    then have "length (ses_ID s) \<le> 16" using length_b64_encode [of bs] by simp
    moreover have "\<not> invalidCustomIDPart (ses_ID s)" using valid_part [OF b64_encode_ok [of bs]] bs(1) id(2) by simp
    ultimately have "\<exists>cid. CustomID (ses_ID s) action = Inr cid" using action by (auto simp: CustomID_def customIDPrefix_def Let_def)
    with CustomID_Parse show ?thesis by blast
  qed
  have "held s m" using m by (auto simp: held_def same_identity_def)
  from session_run_held [OF okm this later] obtain s' where
    s': "map_of (sm_sessions (session_run ops' m)) (ses_ID s) = Some s'" "same_identity s s'" by (auto simp: held_def)
  then have ?owner using owner now by (simp add: session_Get_def same_identity_def)
  moreover have ?others using s' owner now by (auto simp: session_Get_def same_identity_def)
  ultimately show ?thesis using \<open>?button\<close> by blast
qed

definition demo_session_request :: session_request where
  "demo_session_request = \<lparr> sq_user = 7, sq_guild = 8, sq_channel = 9, sq_view = ''feeders-list'', sq_sort = [], sq_query = [], sq_squawk = [] \<rparr>"

definition demo_random :: "nat \<Rightarrow> string option" where
  "demo_random n = Some (replicate 12 (CHR ''x''))"

lemma demo_session_create:
  "\<exists>s m. CreateWithTTL 1 2 demo_random demo_session_request 10 (session_run [] (NewSessionManager 5 2 100)) = (Inr s, m) \<and>
     ses_ID s = ''eHh4eHh4eHh4eHh4'' \<and> ses_ExpiresAt s = 12"
proof -
  have "b64_encode (replicate 12 (CHR ''x'')) = ''eHh4eHh4eHh4eHh4''"
    by code_simp
  then show ?thesis
    by (simp add: CreateWithTTL_def cleanupLocked_def NewSessionManager_def demo_random_def demo_session_request_def per_user_def Let_def)
qed

theorem session_button_witness:
  "\<exists>s m. CreateWithTTL 1 2 demo_random demo_session_request 10 (session_run [] (NewSessionManager 5 2 100)) = (Inr s, m) \<and>
     ParseCustomID ''sf:v1:eHh4eHh4eHh4eHh4:next'' = Inr (ses_ID s, ''next'') \<and>
     (\<exists>s'. fst (session_Get 5 (ses_ID s) 7 8 9 (session_run [SCleanup 4, SDelete ''other''] m)) = Inr s' \<and> same_identity s s') \<and>
     fst (session_Get 5 (ses_ID s) 1 8 9 (session_run [SCleanup 4, SDelete ''other''] m)) = Inl ErrSessionOwner"
proof -
  obtain s m where c: "CreateWithTTL 1 2 demo_random demo_session_request 10 (session_run [] (NewSessionManager 5 2 100)) = (Inr s, m)"
    and s: "ses_ID s = ''eHh4eHh4eHh4eHh4''" "ses_ExpiresAt s = 12" using demo_session_create by blast
  have nx: "list_all id_char ''next''" by (simp add: id_char_def graph_char_code)
  have "\<And>n bs. demo_random n = Some bs \<Longrightarrow> length bs = 12" by (simp add: demo_random_def)
  moreover have "\<not> invalidCustomIDPart ''next''" by (rule valid_part [OF nx]) simp
  moreover have "\<forall>op\<in>set [SCleanup 4, SDelete ''other'']. spares s op" by (simp add: s)
  ultimately have b: "(\<exists>cid. CustomID (ses_ID s) ''next'' = Inr cid \<and> ParseCustomID cid = Inr (ses_ID s, ''next'')) \<and>
    (\<exists>s'. fst (session_Get 5 (ses_ID s) 7 8 9 (session_run [SCleanup 4, SDelete ''other''] m)) = Inr s' \<and> same_identity s s') \<and>
    (\<forall>user guild channel. (user, guild, channel) \<noteq> (7, 8, 9) \<longrightarrow>
      fst (session_Get 5 (ses_ID s) user guild channel (session_run [SCleanup 4, SDelete ''other''] m)) = Inl ErrSessionOwner)"
    using session_button [OF c, of "''next''" "[SCleanup 4, SDelete ''other'']" 5] s(2) by (simp add: demo_session_request_def)
  moreover from b have "ParseCustomID ''sf:v1:eHh4eHh4eHh4eHh4:next'' = Inr (ses_ID s, ''next'')"
    by (auto simp: s CustomID_def customIDPrefix_def Let_def split: if_splits)
  ultimately show ?thesis using c by auto
qed

end
