(* ===== verification/Enrichment_Cache.thy ===== *)
theory Enrichment_Cache
  imports Domain
begin

text \<open>
  The building blocks of \<open>internal/enrichment\<close>: the bounded cache with expiry
  (\<open>route_cache.go\<close>, \<open>cache.go\<close>), the tracker of newly seen aircraft (\<open>discovery.go\<close>), the token
  bucket and the circuit breakers (\<open>service.go\<close>, \<open>routes.go\<close>). The linked list of a cache is the
  list of its keys, most recently used first; clock readings are arguments.
\<close>

section \<open>Errors\<close>

text \<open>An error as far as the services look into it: \<open>errors.Is\<close> of \<open>ErrNotFound\<close> and of
  \<open>context.Canceled\<close>, the delay of a \<open>RetryableError\<close> that is retryable, and its text.\<close>

record lookup_error =
  lx_notFound :: bool
  lx_canceled :: bool
  lx_retry :: "duration option"
  lx_message :: string

definition ErrNotFoundEnrichment :: lookup_error where
  "ErrNotFoundEnrichment = \<lparr> lx_notFound = True, lx_canceled = False, lx_retry = None, lx_message = ''enrichment not found'' \<rparr>"

definition plain_error :: "string \<Rightarrow> lookup_error" where
  "plain_error message = \<lparr> lx_notFound = False, lx_canceled = False, lx_retry = None, lx_message = message \<rparr>"

section \<open>The cache (\<open>ttlLRU\<close>)\<close>

record 'v lru_entry =
  lu_value :: 'v
  lu_err :: "lookup_error option"
  lu_expiresAt :: time
  lu_staleAt :: time

record 'v lru =
  lr_entries :: "(string, 'v lru_entry) gomap"
  lr_order :: "string list"
  lr_max :: nat

definition newTTLLRU :: "int \<Rightarrow> 'v lru" where
  "newTTLLRU maxEntries = \<lparr> lr_entries = gm_empty, lr_order = [], lr_max = nat (if maxEntries < 1 then 1 else maxEntries) \<rparr>"

definition lru_remove :: "string \<Rightarrow> 'v lru \<Rightarrow> 'v lru" where
  "lru_remove key c = c\<lparr> lr_entries := AList.delete key (lr_entries c), lr_order := remove1 key (lr_order c) \<rparr>"

definition lru_front :: "string \<Rightarrow> 'v lru \<Rightarrow> 'v lru" where
  "lru_front key c = c\<lparr> lr_order := key # remove1 key (lr_order c) \<rparr>"

text \<open>\<open>get\<close>: the value, whether it is stale, and its error; \<open>None\<close> for a miss.\<close>

definition lru_get :: "time \<Rightarrow> string \<Rightarrow> 'v lru \<Rightarrow> ('v \<times> bool \<times> lookup_error option) option \<times> 'v lru" where
  "lru_get now key c =
     (case map_of (lr_entries c) key of
        None \<Rightarrow> (None, c)
      | Some e \<Rightarrow>
          if \<not> now < lu_staleAt e then (None, lru_remove key c)
          else (Some (lu_value e, \<not> now < lu_expiresAt e, lu_err e), lru_front key c))"

text \<open>The loop of \<open>set\<close> that removes from the back while there are too many.\<close>

function lru_trim :: "'v lru \<Rightarrow> 'v lru" where
  "lru_trim c =
     (if length (lr_entries c) > lr_max c \<and> lr_order c \<noteq> [] then lru_trim (lru_remove (last (lr_order c)) c) else c)"
  by pat_completeness auto
termination
  by (relation "measure (\<lambda>c. length (lr_order c))") (auto simp: lru_remove_def length_remove1 intro: diff_less)

declare lru_trim.simps [simp del]

definition lru_set :: "time \<Rightarrow> string \<Rightarrow> 'v \<Rightarrow> lookup_error option \<Rightarrow> duration \<Rightarrow> duration \<Rightarrow> 'v lru \<Rightarrow> 'v lru" where
  "lru_set now key v err ttl staleTTL c =
     (let entry = \<lparr> lu_value = v, lu_err = err, lu_expiresAt = now + ttl, lu_staleAt = now + (ttl + staleTTL) \<rparr> in
      if map_of (lr_entries c) key \<noteq> None
      then lru_front key (c\<lparr> lr_entries := AList.update key entry (lr_entries c) \<rparr>)
      else lru_trim (c\<lparr> lr_entries := AList.update key entry (lr_entries c), lr_order := key # lr_order c \<rparr>))"

definition lru_len :: "'v lru \<Rightarrow> nat" where
  "lru_len c = length (lr_entries c)"

text \<open>\<open>Cache\<close> of \<open>cache.go\<close>, on enrichments.\<close>

definition NewCache :: "int \<Rightarrow> enrichment lru" where
  "NewCache maxEntries = newTTLLRU maxEntries"

definition cache_Get :: "time \<Rightarrow> string \<Rightarrow> enrichment lru \<Rightarrow> (enrichment \<times> bool \<times> lookup_error option) option \<times> enrichment lru" where
  "cache_Get now key c =
     (let (hit, c') = lru_get now key c in
      (map_option (\<lambda>(v, stale, err). (v\<lparr> er_Stale := stale \<rparr>, stale, err)) hit, c'))"

definition cache_Set :: "time \<Rightarrow> string \<Rightarrow> enrichment \<Rightarrow> lookup_error option \<Rightarrow> duration \<Rightarrow> duration \<Rightarrow> enrichment lru \<Rightarrow> enrichment lru" where
  "cache_Set now key v err ttl staleTTL c = lru_set now key (v\<lparr> er_ExpiresAt := now + ttl \<rparr>) err ttl staleTTL c"

section \<open>Discovery\<close>

record discovery_entry =
  de_callsign :: string
  de_seenAt :: time

record discovery =
  ds_entries :: "(string, discovery_entry) gomap"
  ds_order :: "string list"
  ds_limit :: nat
  ds_ttl :: duration

definition NewDiscoveryTracker :: discovery where
  "NewDiscoveryTracker = \<lparr> ds_entries = gm_empty, ds_order = [], ds_limit = 50000, ds_ttl = 30 * minute \<rparr>"

text \<open>One aircraft: the admissions so far and the tracker.\<close>

definition discover :: "time \<Rightarrow> aircraft \<Rightarrow> (string \<times> string) list \<times> discovery \<Rightarrow> (string \<times> string) list \<times> discovery" where
  "discover observedAt item acc =
     (let (admitted, t) = acc; icao = to_upper (trim_space (ac_ICAO item)); callsign = to_upper (trim_space (ac_Callsign item)) in
      if icao = [] then acc
      else
        (case map_of (ds_entries t) icao of
           None \<Rightarrow>
             (admitted @ [(icao, callsign)],
              t\<lparr> ds_entries := AList.update icao \<lparr> de_callsign = callsign, de_seenAt = observedAt \<rparr> (ds_entries t), ds_order := icao # ds_order t \<rparr>)
         | Some e \<Rightarrow>
             (if de_callsign e \<noteq> callsign then admitted @ [(icao, callsign)] else admitted,
              t\<lparr> ds_entries := AList.update icao \<lparr> de_callsign = callsign, de_seenAt = observedAt \<rparr> (ds_entries t),
                 ds_order := icao # remove1 icao (ds_order t) \<rparr>)))"

definition oldestBefore :: "time \<Rightarrow> discovery \<Rightarrow> bool" where
  "oldestBefore cutoff t =
     (ds_order t \<noteq> [] \<and> (case map_of (ds_entries t) (last (ds_order t)) of None \<Rightarrow> False | Some e \<Rightarrow> de_seenAt e < cutoff))"

function discovery_trim :: "time \<Rightarrow> discovery \<Rightarrow> discovery" where
  "discovery_trim cutoff t =
     (if (length (ds_order t) > ds_limit t \<or> oldestBefore cutoff t) \<and> ds_order t \<noteq> []
      then discovery_trim cutoff (t\<lparr> ds_entries := AList.delete (last (ds_order t)) (ds_entries t), ds_order := butlast (ds_order t) \<rparr>)
      else t)"
  by pat_completeness auto
termination
  by (relation "measure (\<lambda>(_, t). length (ds_order t))") auto

declare discovery_trim.simps [simp del]

definition discovery_Observe :: "time \<Rightarrow> aircraft list \<Rightarrow> time \<Rightarrow> discovery \<Rightarrow> (string \<times> string) list \<times> discovery" where
  "discovery_Observe clock aircraft observedAt0 t =
     (let observedAt = (if observedAt0 = time_zero then clock else observedAt0);
          (admitted, t') = fold (discover observedAt) aircraft ([], t)
      in (admitted, discovery_trim (observedAt - ds_ttl t) t'))"

definition discovery_Len :: "discovery \<Rightarrow> nat" where
  "discovery_Len t = length (ds_entries t)"

section \<open>The token bucket\<close>

record token_bucket =
  tb_rate :: real
  tb_burst :: real
  tb_tokens :: real
  tb_last :: time

definition newTokenBucket :: "time \<Rightarrow> real \<Rightarrow> real \<Rightarrow> token_bucket" where
  "newTokenBucket now rate burst =
     (let b = (if burst < 1 then 1 else burst) in
      \<lparr> tb_rate = (if rate \<le> 0 then 5 else rate), tb_burst = b, tb_tokens = b, tb_last = now \<rparr>)"

text \<open>One turn of the loop of \<open>wait\<close>, under the lock: a token is taken (\<open>None\<close>), or the time to wait.\<close>

definition bucket_turn :: "time \<Rightarrow> token_bucket \<Rightarrow> duration option \<times> token_bucket" where
  "bucket_turn now b =
     (let tokens = min (tb_burst b) (tb_tokens b + of_int (time_sub now (tb_last b)) / of_int second * tb_rate b);
          b1 = b\<lparr> tb_tokens := tokens, tb_last := now \<rparr>
      in if tokens \<ge> 1 then (None, b1\<lparr> tb_tokens := tokens - 1 \<rparr>)
         else (Some \<lfloor>(1 - tokens) / tb_rate b * of_int second\<rfloor>, b1))"

text \<open>\<open>wait\<close>: turns at the given times until a token is taken or the context is done.\<close>

fun bucket_wait :: "(time \<times> bool) list \<Rightarrow> token_bucket \<Rightarrow> bool option \<times> token_bucket" where
  "bucket_wait [] b = (None, b)"
| "bucket_wait ((now, done) # later) b =
     (case bucket_turn now b of
        (None, b') \<Rightarrow> (Some True, b')
      | (Some _, b') \<Rightarrow> if done then (Some False, b') else bucket_wait later b')"

section \<open>Circuit breakers\<close>

text \<open>\<open>routeCircuit\<close>; \<open>circuitBreaker\<close> of the metadata service is the one with five failures and thirty seconds.\<close>

record circuit =
  ci_threshold :: nat
  ci_openFor :: duration
  ci_failures :: nat
  ci_openUntil :: time
  ci_probing :: bool

definition newRouteCircuit :: "nat \<Rightarrow> duration \<Rightarrow> circuit" where
  "newRouteCircuit threshold openFor = \<lparr> ci_threshold = threshold, ci_openFor = openFor, ci_failures = 0, ci_openUntil = time_zero, ci_probing = False \<rparr>"

definition circuitBreaker :: circuit where
  "circuitBreaker = newRouteCircuit 5 (30 * second)"

definition circuit_allow :: "time \<Rightarrow> circuit \<Rightarrow> bool \<times> circuit" where
  "circuit_allow now c =
     (if ci_openUntil c = time_zero then (True, c)
      else if now < ci_openUntil c then (False, c)
      else if ci_probing c then (False, c)
      else (True, c\<lparr> ci_probing := True \<rparr>))"

definition circuit_success :: "circuit \<Rightarrow> circuit" where
  "circuit_success c = c\<lparr> ci_failures := 0, ci_openUntil := time_zero, ci_probing := False \<rparr>"

definition circuit_failure :: "time \<Rightarrow> circuit \<Rightarrow> circuit" where
  "circuit_failure now c =
     (let c1 = c\<lparr> ci_probing := False, ci_failures := ci_failures c + 1 \<rparr> in
      if ci_failures c1 \<ge> ci_threshold c1 then c1\<lparr> ci_openUntil := now + ci_openFor c1 \<rparr> else c1)"

end
