(* ===== verification/Enrichment_Service.thy ===== *)
theory Enrichment_Service
  imports Enrichment_Cache
begin

text \<open>
  \<open>internal/enrichment/service.go\<close>, \<open>admission.go\<close> and \<open>enrichment.go\<close>: the service that looks up
  aircraft metadata, with its cache, its queue of background lookups, its retries and its
  circuit. The upstream, the limiter and the context of a lookup are an environment; the clock
  readings of one phase of a lookup are one argument. \<open>singleflight\<close> runs one lookup of a key at
  a time, so a lookup is one step.
\<close>

section \<open>Admission\<close>

datatype admission = AdmissionInvalid | AdmissionCached | AdmissionCoalesced | AdmissionEnqueued | AdmissionDropped

definition admission_Accepted :: "admission \<Rightarrow> bool" where
  "admission_Accepted r \<longleftrightarrow> r = AdmissionCached \<or> r = AdmissionCoalesced \<or> r = AdmissionEnqueued"

definition NormalizeKey :: "string \<Rightarrow> string \<Rightarrow> string \<times> string \<times> string" where
  "NormalizeKey icao callsign =
     (let i = to_upper (trim_space icao); c = to_upper (trim_space callsign) in (i, c, i @ ''|'' @ c))"

text \<open>
  A queue of requests and the keys that are queued or being looked up. The three enqueuing
  operations of the services share this section under \<open>pendingMu\<close>: a full queue gives up its
  oldest request. A worker receives from the channel without that lock; a receive is ordered
  before or after the section.
\<close>

record 'r request_queue =
  pq_queue :: "'r list"
  pq_capacity :: nat
  pq_pending :: "(string, unit) gomap"
  pq_enqueued :: u64
  pq_dropped :: u64
  pq_coalesced :: u64

definition new_queue :: "nat \<Rightarrow> 'r request_queue" where
  "new_queue capacity = \<lparr> pq_queue = [], pq_capacity = capacity, pq_pending = gm_empty, pq_enqueued = 0, pq_dropped = 0, pq_coalesced = 0 \<rparr>"

definition admit :: "('r \<Rightarrow> string) \<Rightarrow> 'r \<Rightarrow> 'r request_queue \<Rightarrow> admission \<times> 'r request_queue" where
  "admit key request q =
     (if map_of (pq_pending q) (key request) \<noteq> None then (AdmissionCoalesced, q\<lparr> pq_coalesced := pq_coalesced q + 1 \<rparr>)
      else
        let q1 = q\<lparr> pq_pending := AList.update (key request) () (pq_pending q) \<rparr> in
        if length (pq_queue q1) < pq_capacity q1
        then (AdmissionEnqueued, q1\<lparr> pq_queue := pq_queue q1 @ [request], pq_enqueued := pq_enqueued q1 + 1 \<rparr>)
        else
          let q2 = (case pq_queue q1 of
                      [] \<Rightarrow> q1
                    | oldest # rest \<Rightarrow> q1\<lparr> pq_queue := rest, pq_pending := AList.delete (key oldest) (pq_pending q1), pq_dropped := pq_dropped q1 + 1 \<rparr>)
          in if length (pq_queue q2) < pq_capacity q2
             then (AdmissionEnqueued, q2\<lparr> pq_queue := pq_queue q2 @ [request], pq_enqueued := pq_enqueued q2 + 1 \<rparr>)
             else (AdmissionDropped, q2\<lparr> pq_pending := AList.delete (key request) (pq_pending q2), pq_dropped := pq_dropped q2 + 1 \<rparr>))"

text \<open>A worker receives a request; when it is done it clears the key.\<close>

definition take_request :: "'r request_queue \<Rightarrow> ('r \<times> 'r request_queue) option" where
  "take_request q = (case pq_queue q of [] \<Rightarrow> None | request # rest \<Rightarrow> Some (request, q\<lparr> pq_queue := rest \<rparr>))"

definition clear_requests :: "string list \<Rightarrow> 'r request_queue \<Rightarrow> 'r request_queue" where
  "clear_requests keys q = q\<lparr> pq_pending := fold AList.delete keys (pq_pending q) \<rparr>"

section \<open>The service\<close>

record enrich_config =
  ec_Workers :: int
  ec_QueueSize :: int
  ec_RouteEnabled :: bool
  ec_RequestBudget :: duration
  ec_AircraftTTL :: duration
  ec_RouteTTL :: duration
  ec_NotFoundTTL :: duration
  ec_ErrorTTL :: duration
  ec_StaleTTL :: duration
  ec_RequestsPerSecond :: real
  ec_Burst :: real

definition DefaultConfig :: enrich_config where
  "DefaultConfig = \<lparr> ec_Workers = 2, ec_QueueSize = 256, ec_RouteEnabled = False, ec_RequestBudget = 4 * second, ec_AircraftTTL = 14 * 24 * hour,
     ec_RouteTTL = 8 * hour, ec_NotFoundTTL = 3 * hour, ec_ErrorTTL = 30 * second, ec_StaleTTL = 24 * hour, ec_RequestsPerSecond = 5, ec_Burst = 2 \<rparr>"

record request =
  rq_ICAO :: string
  rq_Callsign :: string
  rq_key :: string

record enrich_service =
  ev_config :: enrich_config
  ev_cache :: "enrichment lru"
  ev_requests :: "request request_queue"
  ev_circuit :: circuit
  ev_limiter :: token_bucket
  ev_observed :: "(enrichment \<times> lookup_error option) list"
  ev_hits :: u64
  ev_misses :: u64
  ev_sent :: u64
  ev_failures :: u64
  ev_circuitRejects :: u64

definition NewService :: "time \<Rightarrow> enrich_config \<Rightarrow> enrich_service" where
  "NewService now config0 =
     (let config = config0\<lparr> ec_Workers := (if ec_Workers config0 < 1 then 2 else ec_Workers config0),
            ec_QueueSize := (if ec_QueueSize config0 < 1 then 256 else ec_QueueSize config0),
            ec_RequestBudget := (if ec_RequestBudget config0 \<le> 0 then 4 * second else ec_RequestBudget config0) \<rparr>
      in \<lparr> ev_config = config, ev_cache = NewCache 10000, ev_requests = new_queue (nat (ec_QueueSize config)), ev_circuit = circuitBreaker,
           ev_limiter = newTokenBucket now (ec_RequestsPerSecond config) (ec_Burst config), ev_observed = [],
           ev_hits = 0, ev_misses = 0, ev_sent = 0, ev_failures = 0, ev_circuitRejects = 0 \<rparr>)"

definition service_Enqueue :: "time \<Rightarrow> string \<Rightarrow> string \<Rightarrow> enrich_service \<Rightarrow> admission \<times> enrich_service" where
  "service_Enqueue now icao0 callsign0 s =
     (let (icao, callsign, key) = NormalizeKey icao0 callsign0 in
      if icao = [] then (AdmissionInvalid, s)
      else
        let (hit, cache) = cache_Get now key (ev_cache s); s1 = s\<lparr> ev_cache := cache \<rparr> in
        case hit of
          Some (_, False, _) \<Rightarrow> (AdmissionCached, s1\<lparr> ev_hits := ev_hits s1 + 1 \<rparr>)
        | _ \<Rightarrow>
            let (result, q) = admit rq_key \<lparr> rq_ICAO = icao, rq_Callsign = callsign, rq_key = key \<rparr> (ev_requests s1) in
            (result, s1\<lparr> ev_requests := q \<rparr>))"

definition zero_enrichment :: enrichment where
  "zero_enrichment = \<lparr> er_ICAO = [], er_Callsign = [], er_Aircraft = None, er_Route = None, er_Found = False, er_FetchedAt = time_zero,
     er_ExpiresAt = time_zero, er_Stale = False, er_Attribution = [] \<rparr>"

definition service_Cached :: "time \<Rightarrow> string \<Rightarrow> string \<Rightarrow> enrich_service \<Rightarrow> (enrichment \<times> bool \<times> lookup_error option) \<times> enrich_service" where
  "service_Cached now icao callsign s =
     (let (_, _, key) = NormalizeKey icao callsign; (hit, cache) = cache_Get now key (ev_cache s); s1 = s\<lparr> ev_cache := cache \<rparr> in
      case hit of
        None \<Rightarrow> ((zero_enrichment, False, None), s1\<lparr> ev_misses := ev_misses s1 + 1 \<rparr>)
      | Some (v, stale, err) \<Rightarrow>
          let s2 = s1\<lparr> ev_hits := ev_hits s1 + 1 \<rparr> in
          ((v, True, err), if stale then snd (service_Enqueue now icao callsign s2) else s2))"

section \<open>A lookup\<close>

text \<open>One attempt: the error of the limiter, the answer of the upstream, and the error of the
  budget when it ends during the delay before the next attempt.\<close>

record lookup_attempt =
  la_wait :: "lookup_error option"
  la_answer :: "lookup_error + enrichment"
  la_over :: "lookup_error option"

text \<open>The loop over at most three attempts: the requests sent and the outcome.\<close>

fun lookup_attempts :: "(nat \<Rightarrow> lookup_attempt) \<Rightarrow> nat \<Rightarrow> nat \<Rightarrow> lookup_error + enrichment \<Rightarrow> nat \<times> (lookup_error + enrichment)" where
  "lookup_attempts env attempt 0 result = (0, result)"
| "lookup_attempts env attempt (Suc left) result =
     (case la_wait (env attempt) of
        Some e \<Rightarrow> (0, Inl e)
      | None \<Rightarrow>
          (case la_answer (env attempt) of
             Inr v \<Rightarrow> (1, Inr v)
           | Inl e \<Rightarrow>
               if lx_notFound e then (1, Inl e)
               else
                 (case lx_retry e of
                    None \<Rightarrow> (1, Inl e)
                  | Some _ \<Rightarrow>
                      (case la_over (env attempt) of
                         Some e' \<Rightarrow> (1, Inl e')
                       | None \<Rightarrow> (let (n, r) = lookup_attempts env (attempt + 1) left (Inl e) in (n + 1, r))))))"

definition service_notify :: "enrichment \<Rightarrow> lookup_error option \<Rightarrow> enrich_service \<Rightarrow> enrich_service" where
  "service_notify v err s = s\<lparr> ev_observed := ev_observed s @ [(v, err)] \<rparr>"

text \<open>\<open>lookup\<close>: \<open>now\<close> before the requests, \<open>later\<close> after them.\<close>

definition service_lookup ::
    "time \<Rightarrow> time \<Rightarrow> (nat \<Rightarrow> lookup_attempt) \<Rightarrow> request \<Rightarrow> enrich_service \<Rightarrow> (enrichment \<times> lookup_error option) \<times> enrich_service" where
  "service_lookup now later env request s =
     (let (hit, cache) = cache_Get now (rq_key request) (ev_cache s); s1 = s\<lparr> ev_cache := cache \<rparr> in
      case hit of
        Some (v, False, err) \<Rightarrow> ((v, err), s1)
      | _ \<Rightarrow>
          let (allowed, circuit) = circuit_allow now (ev_circuit s1); s2 = s1\<lparr> ev_circuit := circuit \<rparr> in
          if \<not> allowed then ((zero_enrichment, Some (plain_error ''ADSBDB circuit is open'')), s2\<lparr> ev_circuitRejects := ev_circuitRejects s2 + 1 \<rparr>)
          else
            let (sent, outcome) = lookup_attempts env 0 3 (Inr zero_enrichment); s3 = s2\<lparr> ev_sent := ev_sent s2 + of_nat sent \<rparr> in
            case outcome of
              Inr value0 \<Rightarrow>
                let v = (if ec_RouteEnabled (ev_config s) then value0 else value0\<lparr> er_Route := None \<rparr>);
                    ttl = (if er_Route v \<noteq> None \<and> ec_RouteTTL (ev_config s) < ec_AircraftTTL (ev_config s) then ec_RouteTTL (ev_config s) else ec_AircraftTTL (ev_config s));
                    s4 = s3\<lparr> ev_circuit := circuit_success (ev_circuit s3),
                             ev_cache := cache_Set later (rq_key request) v None ttl (ec_StaleTTL (ev_config s)) (ev_cache s3) \<rparr>
                in ((v, None), service_notify v None s4)
            | Inl e \<Rightarrow>
                if lx_notFound e then
                  let notFound = zero_enrichment\<lparr> er_ICAO := rq_ICAO request, er_Callsign := rq_Callsign request \<rparr>;
                      s4 = s3\<lparr> ev_circuit := circuit_success (ev_circuit s3),
                               ev_cache := cache_Set later (rq_key request) notFound (Some ErrNotFoundEnrichment) (ec_NotFoundTTL (ev_config s)) 0 (ev_cache s3) \<rparr>
                  in ((zero_enrichment, Some ErrNotFoundEnrichment), service_notify notFound (Some ErrNotFoundEnrichment) s4)
                else
                  ((zero_enrichment, Some e),
                   s3\<lparr> ev_failures := ev_failures s3 + 1, ev_circuit := circuit_failure later (ev_circuit s3),
                       ev_cache := cache_Set later (rq_key request) zero_enrichment (Some e) (ec_ErrorTTL (ev_config s)) 0 (ev_cache s3) \<rparr>))"

definition service_Lookup ::
    "time \<Rightarrow> time \<Rightarrow> (nat \<Rightarrow> lookup_attempt) \<Rightarrow> string \<Rightarrow> string \<Rightarrow> enrich_service \<Rightarrow> (enrichment \<times> lookup_error option) \<times> enrich_service" where
  "service_Lookup now later env icao0 callsign0 s =
     (let (icao, callsign, key) = NormalizeKey icao0 callsign0; (hit, cache) = cache_Get now key (ev_cache s); s1 = s\<lparr> ev_cache := cache \<rparr> in
      case hit of
        Some (v, False, err) \<Rightarrow> ((v, err), s1\<lparr> ev_hits := ev_hits s1 + 1 \<rparr>)
      | _ \<Rightarrow> service_lookup now later env \<lparr> rq_ICAO = icao, rq_Callsign = callsign, rq_key = key \<rparr> (s1\<lparr> ev_misses := ev_misses s1 + 1 \<rparr>))"

text \<open>The steps of the service: its callers, and its workers with the requests they hold.\<close>

inductive service_step :: "enrich_service \<times> request list \<Rightarrow> enrich_service \<times> request list \<Rightarrow> bool" where
  enqueue: "service_step (s, held) (snd (service_Enqueue now icao callsign s), held)"
| cached: "service_step (s, held) (snd (service_Cached now icao callsign s), held)"
| lookup: "service_step (s, held) (snd (service_Lookup now later env icao callsign s), held)"
| receive: "take_request (ev_requests s) = Some (request, q) \<Longrightarrow> int (length held) < ec_Workers (ev_config s) \<Longrightarrow>
    service_step (s, held) (s\<lparr> ev_requests := q \<rparr>, request # held)"
| work: "request \<in> set held \<Longrightarrow> service_step (s, held) (snd (service_lookup now later env request s), held)"
| finish: "request \<in> set held \<Longrightarrow>
    service_step (s, held) (s\<lparr> ev_requests := clear_requests [rq_key request] (ev_requests s) \<rparr>, remove1 request held)"

end
