(* ===== verification/Enrichment_Routes.thy ===== *)
theory Enrichment_Routes
  imports Enrichment_Service
begin

text \<open>
  \<open>internal/enrichment/routes.go\<close>: the service that resolves callsigns to routes and airport
  codes to airports, in batches. The upstream, the limiter, the slots for outbound requests and
  the context are an environment; a call under \<open>singleflight\<close> is one step.
\<close>

section \<open>Requests\<close>

definition MaxRouteBatchSize :: int where
  "MaxRouteBatchSize = 50"

record route_request =
  rr_Callsign :: string
  rr_Latitude :: real
  rr_Longitude :: real

definition code_char :: "char \<Rightarrow> bool" where
  "code_char c \<longleftrightarrow> (CHR ''A'' \<le> c \<and> c \<le> CHR ''Z'') \<or> (CHR ''0'' \<le> c \<and> c \<le> CHR ''9'')"

definition NormalizeCallsign :: "string \<Rightarrow> string option" where
  "NormalizeCallsign value0 =
     (let v = to_upper (trim_space value0) in
      if length v < 2 \<or> length v > 12 then None else if list_all code_char v then Some v else None)"

definition NormalizeAirportCode :: "string \<Rightarrow> string option" where
  "NormalizeAirportCode value0 =
     (let v = to_upper (trim_space value0) in
      if length v \<noteq> 4 then None else if list_all code_char v then Some v else None)"

definition normalizeRouteRequest :: "route_request \<Rightarrow> route_request option" where
  "normalizeRouteRequest request =
     (case NormalizeCallsign (rr_Callsign request) of
        None \<Rightarrow> None
      | Some callsign \<Rightarrow>
          if rr_Latitude request < - 90 \<or> rr_Latitude request > 90 \<or> rr_Longitude request < - 180 \<or> rr_Longitude request > 180
          then None else Some (request\<lparr> rr_Callsign := callsign \<rparr>))"

section \<open>Configuration\<close>

record route_config =
  rf_QueueSize :: int
  rf_AirportQueueSize :: int
  rf_BatchSize :: int
  rf_BatchWait :: duration
  rf_PrefetchLimit :: int
  rf_PrefetchScanLimit :: int
  rf_RequestBudget :: duration
  rf_RouteTTL :: duration
  rf_AirportTTL :: duration
  rf_NotFoundTTL :: duration
  rf_ErrorTTL :: duration
  rf_StaleTTL :: duration
  rf_MaxRouteEntries :: int
  rf_MaxAirportEntries :: int
  rf_RequestsPerSecond :: real
  rf_Burst :: real
  rf_MaxConcurrent :: int
  rf_MaxAttempts :: int
  rf_MaxRetryDelay :: duration
  rf_CircuitFailures :: int
  rf_CircuitOpenTimeout :: duration

definition DefaultRouteConfig :: route_config where
  "DefaultRouteConfig = \<lparr> rf_QueueSize = 256, rf_AirportQueueSize = 64, rf_BatchSize = MaxRouteBatchSize, rf_BatchWait = 25 * millisecond,
     rf_PrefetchLimit = MaxRouteBatchSize, rf_PrefetchScanLimit = 500, rf_RequestBudget = 4 * second, rf_RouteTTL = 8 * hour,
     rf_AirportTTL = 7 * 24 * hour, rf_NotFoundTTL = hour, rf_ErrorTTL = 30 * second, rf_StaleTTL = 24 * hour, rf_MaxRouteEntries = 10000,
     rf_MaxAirportEntries = 2000, rf_RequestsPerSecond = 2, rf_Burst = 1, rf_MaxConcurrent = 2, rf_MaxAttempts = 2, rf_MaxRetryDelay = 2 * second,
     rf_CircuitFailures = 5, rf_CircuitOpenTimeout = 30 * second \<rparr>"

definition positive_or :: "'a :: {zero, linorder} \<Rightarrow> 'a \<Rightarrow> 'a" where
  "positive_or fallback v = (if v \<le> 0 then fallback else v)"

definition normalizeRouteConfig :: "route_config \<Rightarrow> route_config" where
  "normalizeRouteConfig c =
     (let d = DefaultRouteConfig;
          prefetch = (if rf_PrefetchLimit c < 1 \<or> rf_PrefetchLimit c > MaxRouteBatchSize then rf_PrefetchLimit d else rf_PrefetchLimit c)
      in \<lparr> rf_QueueSize = positive_or (rf_QueueSize d) (rf_QueueSize c),
           rf_AirportQueueSize = positive_or (rf_AirportQueueSize d) (rf_AirportQueueSize c),
           rf_BatchSize = (if rf_BatchSize c < 1 \<or> rf_BatchSize c > MaxRouteBatchSize then rf_BatchSize d else rf_BatchSize c),
           rf_BatchWait = positive_or (rf_BatchWait d) (rf_BatchWait c),
           rf_PrefetchLimit = prefetch,
           rf_PrefetchScanLimit = (if rf_PrefetchScanLimit c < prefetch then rf_PrefetchScanLimit d else rf_PrefetchScanLimit c),
           rf_RequestBudget = positive_or (rf_RequestBudget d) (rf_RequestBudget c),
           rf_RouteTTL = positive_or (rf_RouteTTL d) (rf_RouteTTL c),
           rf_AirportTTL = positive_or (rf_AirportTTL d) (rf_AirportTTL c),
           rf_NotFoundTTL = positive_or (rf_NotFoundTTL d) (rf_NotFoundTTL c),
           rf_ErrorTTL = positive_or (rf_ErrorTTL d) (rf_ErrorTTL c),
           rf_StaleTTL = positive_or (rf_StaleTTL d) (rf_StaleTTL c),
           rf_MaxRouteEntries = positive_or (rf_MaxRouteEntries d) (rf_MaxRouteEntries c),
           rf_MaxAirportEntries = positive_or (rf_MaxAirportEntries d) (rf_MaxAirportEntries c),
           rf_RequestsPerSecond = positive_or (rf_RequestsPerSecond d) (rf_RequestsPerSecond c),
           rf_Burst = (if rf_Burst c < 1 then rf_Burst d else rf_Burst c),
           rf_MaxConcurrent = positive_or (rf_MaxConcurrent d) (rf_MaxConcurrent c),
           rf_MaxAttempts = (if rf_MaxAttempts c < 1 \<or> rf_MaxAttempts c > 3 then rf_MaxAttempts d else rf_MaxAttempts c),
           rf_MaxRetryDelay = positive_or (rf_MaxRetryDelay d) (rf_MaxRetryDelay c),
           rf_CircuitFailures = positive_or (rf_CircuitFailures d) (rf_CircuitFailures c),
           rf_CircuitOpenTimeout = positive_or (rf_CircuitOpenTimeout d) (rf_CircuitOpenTimeout c) \<rparr>)"

section \<open>The service\<close>

record route_service =
  rs_config :: route_config
  rs_routes :: "route lru"
  rs_airports :: "airport lru"
  rs_routeQueue :: "route_request request_queue"
  rs_airportQueue :: "string request_queue"
  rs_circuit :: circuit
  rs_limiter :: token_bucket
  rs_prefetchCursor :: nat
  rs_batches :: u64
  rs_requests :: u64
  rs_hits :: u64
  rs_misses :: u64
  rs_failures :: u64
  rs_circuitRejects :: u64

definition NewRouteService :: "time \<Rightarrow> route_config \<Rightarrow> route_service" where
  "NewRouteService now config0 =
     (let c = normalizeRouteConfig config0 in
      \<lparr> rs_config = c, rs_routes = newTTLLRU (rf_MaxRouteEntries c), rs_airports = newTTLLRU (rf_MaxAirportEntries c),
        rs_routeQueue = new_queue (nat (rf_QueueSize c)), rs_airportQueue = new_queue (nat (rf_AirportQueueSize c)),
        rs_circuit = newRouteCircuit (nat (rf_CircuitFailures c)) (rf_CircuitOpenTimeout c),
        rs_limiter = newTokenBucket now (rf_RequestsPerSecond c) (rf_Burst c), rs_prefetchCursor = 0,
        rs_batches = 0, rs_requests = 0, rs_hits = 0, rs_misses = 0, rs_failures = 0, rs_circuitRejects = 0 \<rparr>)"

definition EnqueueRoute :: "time \<Rightarrow> route_request \<Rightarrow> route_service \<Rightarrow> admission \<times> route_service" where
  "EnqueueRoute now request s =
     (case normalizeRouteRequest request of
        None \<Rightarrow> (AdmissionInvalid, s)
      | Some normalized \<Rightarrow>
          let (hit, routes) = lru_get now (rr_Callsign normalized) (rs_routes s); s1 = s\<lparr> rs_routes := routes \<rparr> in
          case hit of
            Some (_, False, _) \<Rightarrow> (AdmissionCached, s1\<lparr> rs_hits := rs_hits s1 + 1 \<rparr>)
          | _ \<Rightarrow> let (result, q) = admit rr_Callsign normalized (rs_routeQueue s1) in (result, s1\<lparr> rs_routeQueue := q \<rparr>))"

definition EnqueueAirport :: "time \<Rightarrow> string \<Rightarrow> route_service \<Rightarrow> admission \<times> route_service" where
  "EnqueueAirport now code0 s =
     (case NormalizeAirportCode code0 of
        None \<Rightarrow> (AdmissionInvalid, s)
      | Some code \<Rightarrow>
          let (hit, airports) = lru_get now code (rs_airports s); s1 = s\<lparr> rs_airports := airports \<rparr> in
          case hit of
            Some (_, False, _) \<Rightarrow> (AdmissionCached, s1\<lparr> rs_hits := rs_hits s1 + 1 \<rparr>)
          | _ \<Rightarrow> let (result, q) = admit (\<lambda>c. c) code (rs_airportQueue s1) in (result, s1\<lparr> rs_airportQueue := q \<rparr>))"

text \<open>The loop of \<open>Prefetch\<close>: aircraft examined, requests queued.\<close>

function prefetch_loop :: "time \<Rightarrow> aircraft list \<Rightarrow> nat \<Rightarrow> nat \<Rightarrow> nat \<Rightarrow> nat \<Rightarrow> nat \<Rightarrow> route_service \<Rightarrow> nat \<times> nat \<times> route_service" where
  "prefetch_loop now aircraft start scanLimit limit examined queued s =
     (if \<not> examined < scanLimit \<or> queued \<ge> limit then (examined, queued, s)
      else
        let item = aircraft ! ((start + examined) mod length aircraft) in
        if \<not> ac_HasPosition item then prefetch_loop now aircraft start scanLimit limit (examined + 1) queued s
        else
          let (result, s') = EnqueueRoute now \<lparr> rr_Callsign = ac_Callsign item, rr_Latitude = ac_Latitude item, rr_Longitude = ac_Longitude item \<rparr> s in
          prefetch_loop now aircraft start scanLimit limit (examined + 1) (if result = AdmissionEnqueued then queued + 1 else queued) s')"
  by pat_completeness auto
termination by (relation "measure (\<lambda>(_, _, _, scanLimit, _, examined, _, _). scanLimit - examined)") auto

declare prefetch_loop.simps [simp del]

definition Prefetch :: "time \<Rightarrow> aircraft list \<Rightarrow> route_service \<Rightarrow> nat \<times> route_service" where
  "Prefetch now aircraft s =
     (if aircraft = [] then (0, s)
      else
        let start = rs_prefetchCursor s mod length aircraft;
            scanLimit = min (length aircraft) (nat (rf_PrefetchScanLimit (rs_config s)));
            (examined, queued, s') = prefetch_loop now aircraft start scanLimit (nat (rf_PrefetchLimit (rs_config s))) 0 0 s
        in (queued, s'\<lparr> rs_prefetchCursor := (start + examined) mod length aircraft \<rparr>))"

definition CachedRoute :: "time \<Rightarrow> string \<Rightarrow> route_service \<Rightarrow> (route \<times> lookup_error option) option \<times> route_service" where
  "CachedRoute now callsign0 s =
     (case NormalizeCallsign callsign0 of
        None \<Rightarrow> (None, s)
      | Some callsign \<Rightarrow>
          let (hit, routes) = lru_get now callsign (rs_routes s); s1 = s\<lparr> rs_routes := routes \<rparr> in
          case hit of
            None \<Rightarrow> (None, s1\<lparr> rs_misses := rs_misses s1 + 1 \<rparr>)
          | Some (v, stale, err) \<Rightarrow> (Some (v\<lparr> rt_Stale := stale \<rparr>, err), s1\<lparr> rs_hits := rs_hits s1 + 1 \<rparr>))"

definition CachedAirport :: "time \<Rightarrow> string \<Rightarrow> route_service \<Rightarrow> (airport \<times> lookup_error option) option \<times> route_service" where
  "CachedAirport now code0 s =
     (case NormalizeAirportCode code0 of
        None \<Rightarrow> (None, s)
      | Some code \<Rightarrow>
          let (hit, airports) = lru_get now code (rs_airports s); s1 = s\<lparr> rs_airports := airports \<rparr> in
          case hit of
            None \<Rightarrow> (None, s1\<lparr> rs_misses := rs_misses s1 + 1 \<rparr>)
          | Some (v, stale, err) \<Rightarrow> (Some (v\<lparr> ap_Stale := stale \<rparr>, err), s1\<lparr> rs_hits := rs_hits s1 + 1 \<rparr>))"

section \<open>Fetching\<close>

text \<open>One attempt: the error of \<open>waitForRequest\<close>, the answer, and whether the context ended during the delay of \<open>retry\<close>.\<close>

record 'a fetch_attempt =
  fa_wait :: "lookup_error option"
  fa_answer :: "lookup_error + 'a"
  fa_over :: bool

text \<open>\<open>retry\<close>: whether another attempt is made after the error of attempt \<open>n\<close>.\<close>

definition retry :: "route_config \<Rightarrow> bool \<Rightarrow> lookup_error \<Rightarrow> nat \<Rightarrow> bool" where
  "retry config over err attempt \<longleftrightarrow> int attempt + 1 < rf_MaxAttempts config \<and> lx_retry err \<noteq> None \<and> \<not> over"

definition retry_wait :: "route_config \<Rightarrow> lookup_error \<Rightarrow> nat \<Rightarrow> duration" where
  "retry_wait config err attempt =
     (let delay = (case lx_retry err of None \<Rightarrow> 0 | Some d \<Rightarrow> d) in
      min (if delay \<le> 0 then 100 * 2 ^ attempt * millisecond else delay) (rf_MaxRetryDelay config))"

text \<open>\<open>requestRoutes\<close> (and \<open>requestAirport\<close> with \<open>final\<close> for \<open>ErrNotFound\<close>): the requests sent and the outcome.\<close>

fun request_attempts ::
    "route_config \<Rightarrow> (lookup_error \<Rightarrow> bool) \<Rightarrow> (nat \<Rightarrow> 'a fetch_attempt) \<Rightarrow> nat \<Rightarrow> nat \<Rightarrow> lookup_error + 'a \<Rightarrow> nat \<times> (lookup_error + 'a)" where
  "request_attempts config final env attempt 0 result = (0, result)"
| "request_attempts config final env attempt (Suc left) result =
     (case fa_wait (env attempt) of
        Some e \<Rightarrow> (0, Inl e)
      | None \<Rightarrow>
          (case fa_answer (env attempt) of
             Inr v \<Rightarrow> (1, Inr v)
           | Inl e \<Rightarrow>
               if final e \<or> \<not> retry config (fa_over (env attempt)) e attempt then (1, Inl e)
               else (let (n, r) = request_attempts config final env (attempt + 1) left (Inl e) in (n + 1, r))))"

definition recordFailure :: "time \<Rightarrow> lookup_error \<Rightarrow> route_service \<Rightarrow> route_service" where
  "recordFailure now err s =
     (let s1 = s\<lparr> rs_failures := rs_failures s + 1 \<rparr> in
      if \<not> lx_canceled err then s1\<lparr> rs_circuit := circuit_failure now (rs_circuit s1) \<rparr> else s1)"

definition zero_airport :: airport where
  "zero_airport = \<lparr> ap_CountryCode = [], ap_Municipality = [], ap_Name = [], ap_IATA = [], ap_ICAO = [], ap_Latitude = 0, ap_Longitude = 0,
     ap_HasPosition = False, ap_ElevationFeet = 0, ap_HasElevation = False, ap_FetchedAt = time_zero, ap_ExpiresAt = time_zero, ap_Stale = False, ap_Attribution = [] \<rparr>"

definition zero_route :: route where
  "zero_route = \<lparr> rt_Source = [], rt_Callsign = [], rt_AirlineName = [], rt_AirlineICAO = [], rt_AirlineIATA = [], rt_Origin = zero_airport, rt_Midpoint = None,
     rt_Destination = zero_airport, rt_Airports = [], rt_Plausible = False, rt_PlausibilityKnown = False, rt_FetchedAt = time_zero, rt_ExpiresAt = time_zero,
     rt_Stale = False, rt_Attribution = [] \<rparr>"

definition cache_airport :: "time \<Rightarrow> airport \<Rightarrow> route_service \<Rightarrow> route_service" where
  "cache_airport now a s =
     (case NormalizeAirportCode (ap_ICAO a) of
        None \<Rightarrow> s
      | Some code \<Rightarrow>
          s\<lparr> rs_airports := lru_set now code
               (a\<lparr> ap_ICAO := code, ap_FetchedAt := now, ap_ExpiresAt := now + rf_AirportTTL (rs_config s), ap_Stale := False \<rparr>) None
               (rf_AirportTTL (rs_config s)) (rf_StaleTTL (rs_config s)) (rs_airports s) \<rparr>)"

definition cacheRouteAirports :: "time \<Rightarrow> route \<Rightarrow> route_service \<Rightarrow> route_service" where
  "cacheRouteAirports now r s =
     (let airports = (if rt_Airports r = [] then rt_Origin r # (case rt_Midpoint r of None \<Rightarrow> [] | Some m \<Rightarrow> [m]) @ [rt_Destination r] else rt_Airports r) in
      fold (cache_airport now) airports s)"

definition store_route :: "time \<Rightarrow> (string, route) gomap \<Rightarrow> route_request \<Rightarrow> route_service \<Rightarrow> route_service" where
  "store_route now routes request s =
     (case map_of routes (rr_Callsign request) of
        None \<Rightarrow> s\<lparr> rs_routes := lru_set now (rr_Callsign request) zero_route (Some ErrNotFoundEnrichment) (rf_NotFoundTTL (rs_config s)) 0 (rs_routes s) \<rparr>
      | Some r0 \<Rightarrow>
          let r = r0\<lparr> rt_Callsign := rr_Callsign request, rt_FetchedAt := now, rt_ExpiresAt := now + rf_RouteTTL (rs_config s), rt_Stale := False \<rparr> in
          cacheRouteAirports now r
            (s\<lparr> rs_routes := lru_set now (rr_Callsign request) r None (rf_RouteTTL (rs_config s)) (rf_StaleTTL (rs_config s)) (rs_routes s) \<rparr>))"

text \<open>The requests whose route is not cached or stale.\<close>

fun missing_routes :: "time \<Rightarrow> route_request list \<Rightarrow> route_service \<Rightarrow> route_request list \<times> route_service" where
  "missing_routes now [] s = ([], s)"
| "missing_routes now (request # rest) s =
     (let (hit, routes) = lru_get now (rr_Callsign request) (rs_routes s);
          (missing, s') = missing_routes now rest (s\<lparr> rs_routes := routes \<rparr>)
      in (case hit of Some (_, False, _) \<Rightarrow> missing | _ \<Rightarrow> request # missing, s'))"

definition ErrRouteCircuitOpen :: lookup_error where
  "ErrRouteCircuitOpen = plain_error ''route enrichment circuit is open''"

definition fetchRoutes ::
    "time \<Rightarrow> time \<Rightarrow> (nat \<Rightarrow> (string, route) gomap fetch_attempt) \<Rightarrow> route_request list \<Rightarrow> route_service \<Rightarrow> lookup_error option \<times> route_service" where
  "fetchRoutes now later env requests s =
     (let (missing, s1) = missing_routes now requests s in
      if missing = [] then (None, s1)
      else
        let (allowed, circuit) = circuit_allow now (rs_circuit s1); s2 = s1\<lparr> rs_circuit := circuit \<rparr> in
        if \<not> allowed then (Some ErrRouteCircuitOpen, s2\<lparr> rs_circuitRejects := rs_circuitRejects s2 + 1 \<rparr>)
        else
          let (sent, outcome) = request_attempts (rs_config s) (\<lambda>_. False) env 0 (nat (rf_MaxAttempts (rs_config s))) (Inr []);
              s3 = s2\<lparr> rs_requests := rs_requests s2 + of_nat sent \<rparr>
          in case outcome of
               Inl e \<Rightarrow>
                 if lx_canceled e then (Some e, s3)
                 else
                   (Some e,
                    fold (\<lambda>request s. s\<lparr> rs_routes := lru_set later (rr_Callsign request) zero_route (Some e) (rf_ErrorTTL (rs_config s)) 0 (rs_routes s) \<rparr>)
                      missing (recordFailure later e s3))
             | Inr routes \<Rightarrow>
                 (None,
                  fold (store_route later routes) missing
                    (s3\<lparr> rs_circuit := circuit_success (rs_circuit s3), rs_batches := rs_batches s3 + 1 \<rparr>)))"

definition fetchAirport :: "time \<Rightarrow> time \<Rightarrow> (nat \<Rightarrow> airport fetch_attempt) \<Rightarrow> string \<Rightarrow> route_service \<Rightarrow> lookup_error option \<times> route_service" where
  "fetchAirport now later env code s =
     (let (hit, airports) = lru_get now code (rs_airports s); s1 = s\<lparr> rs_airports := airports \<rparr> in
      case hit of
        Some (_, False, _) \<Rightarrow> (None, s1)
      | _ \<Rightarrow>
          let (allowed, circuit) = circuit_allow now (rs_circuit s1); s2 = s1\<lparr> rs_circuit := circuit \<rparr> in
          if \<not> allowed then (Some ErrRouteCircuitOpen, s2\<lparr> rs_circuitRejects := rs_circuitRejects s2 + 1 \<rparr>)
          else
            let (sent, outcome) = request_attempts (rs_config s) lx_notFound env 0 (nat (rf_MaxAttempts (rs_config s))) (Inr zero_airport);
                s3 = s2\<lparr> rs_requests := rs_requests s2 + of_nat sent \<rparr>
            in case outcome of
                 Inl e \<Rightarrow>
                   if lx_notFound e then
                     (Some ErrNotFoundEnrichment,
                      s3\<lparr> rs_circuit := circuit_success (rs_circuit s3),
                          rs_airports := lru_set later code zero_airport (Some ErrNotFoundEnrichment) (rf_NotFoundTTL (rs_config s)) 0 (rs_airports s3) \<rparr>)
                   else if lx_canceled e then (Some e, s3)
                   else
                     (let s4 = recordFailure later e s3 in
                      (Some e, s4\<lparr> rs_airports := lru_set later code zero_airport (Some e) (rf_ErrorTTL (rs_config s)) 0 (rs_airports s4) \<rparr>))
               | Inr a \<Rightarrow>
                   (None,
                    s3\<lparr> rs_circuit := circuit_success (rs_circuit s3),
                        rs_airports := lru_set later code
                          (a\<lparr> ap_ICAO := code, ap_FetchedAt := later, ap_ExpiresAt := later + rf_AirportTTL (rs_config s), ap_Stale := False \<rparr>) None
                          (rf_AirportTTL (rs_config s)) (rf_StaleTTL (rs_config s)) (rs_airports s3) \<rparr>))"

section \<open>Lookups\<close>

definition LookupRoute ::
    "time \<Rightarrow> time \<Rightarrow> (nat \<Rightarrow> (string, route) gomap fetch_attempt) \<Rightarrow> route_request \<Rightarrow> route_service \<Rightarrow> (route \<times> lookup_error option) \<times> route_service" where
  "LookupRoute now later env request0 s =
     (case normalizeRouteRequest request0 of
        None \<Rightarrow> ((zero_route, Some (plain_error ''valid callsign and aircraft position are required'')), s)
      | Some request \<Rightarrow>
          let (hit, routes) = lru_get now (rr_Callsign request) (rs_routes s); s1 = s\<lparr> rs_routes := routes \<rparr> in
          case hit of
            Some (v, stale, err) \<Rightarrow>
              let s2 = s1\<lparr> rs_hits := rs_hits s1 + 1 \<rparr> in
              ((v\<lparr> rt_Stale := stale \<rparr>, err), if stale \<and> err = None then snd (EnqueueRoute now request s2) else s2)
          | None \<Rightarrow>
              let s2 = s1\<lparr> rs_misses := rs_misses s1 + 1 \<rparr>; (err, s3) = fetchRoutes now later env [request] s2 in
              (case err of
                 Some e \<Rightarrow> ((zero_route, Some e), s3)
               | None \<Rightarrow>
                   let (hit', routes') = lru_get later (rr_Callsign request) (rs_routes s3); s4 = s3\<lparr> rs_routes := routes' \<rparr> in
                   (case hit' of None \<Rightarrow> (zero_route, Some ErrNotFoundEnrichment) | Some (v, _, cachedErr) \<Rightarrow> (v, cachedErr), s4)))"

definition LookupAirport ::
    "time \<Rightarrow> time \<Rightarrow> (nat \<Rightarrow> airport fetch_attempt) \<Rightarrow> string \<Rightarrow> route_service \<Rightarrow> (airport \<times> lookup_error option) \<times> route_service" where
  "LookupAirport now later env code0 s =
     (case NormalizeAirportCode code0 of
        None \<Rightarrow> ((zero_airport, Some (plain_error ''valid ICAO airport code is required'')), s)
      | Some code \<Rightarrow>
          let (hit, airports) = lru_get now code (rs_airports s); s1 = s\<lparr> rs_airports := airports \<rparr> in
          case hit of
            Some (v, stale, err) \<Rightarrow>
              let s2 = s1\<lparr> rs_hits := rs_hits s1 + 1 \<rparr> in
              ((v\<lparr> ap_Stale := stale \<rparr>, err), if stale \<and> err = None then snd (EnqueueAirport now code s2) else s2)
          | None \<Rightarrow>
              let s2 = s1\<lparr> rs_misses := rs_misses s1 + 1 \<rparr>; (err, s3) = fetchAirport now later env code s2 in
              (case err of
                 Some e \<Rightarrow> ((zero_airport, Some e), s3)
               | None \<Rightarrow>
                   let (hit', airports') = lru_get later code (rs_airports s3); s4 = s3\<lparr> rs_airports := airports' \<rparr> in
                   (case hit' of None \<Rightarrow> (zero_airport, Some ErrNotFoundEnrichment) | Some (v, _, cachedErr) \<Rightarrow> (v, cachedErr), s4)))"

section \<open>The loop\<close>

text \<open>\<open>collectRouteBatch\<close>: how many more requests arrive before the timer or the end of the context is \<open>arriving\<close>.\<close>

definition collectRouteBatch :: "nat \<Rightarrow> route_request \<Rightarrow> route_service \<Rightarrow> route_request list \<times> route_service" where
  "collectRouteBatch arriving first s =
     (let n = min arriving (nat (rf_BatchSize (rs_config s)) - 1); q = rs_routeQueue s in
      (first # take n (pq_queue q), s\<lparr> rs_routeQueue := q\<lparr> pq_queue := drop n (pq_queue q) \<rparr> \<rparr>))"

text \<open>The callers and the loop of \<open>Run\<close>, with the batch or the code it works on.\<close>

record route_work =
  wk_batch :: "route_request list"
  wk_codes :: "string list"

inductive route_step :: "route_service \<times> route_work \<Rightarrow> route_service \<times> route_work \<Rightarrow> bool" where
  prefetch: "route_step (s, k) (snd (Prefetch now aircraft s), k)"
| enqueue_route: "route_step (s, k) (snd (EnqueueRoute now request s), k)"
| enqueue_airport: "route_step (s, k) (snd (EnqueueAirport now code s), k)"
| cached_route: "route_step (s, k) (snd (CachedRoute now callsign s), k)"
| cached_airport: "route_step (s, k) (snd (CachedAirport now code s), k)"
| lookup_route: "route_step (s, k) (snd (LookupRoute now later env request s), k)"
| lookup_airport: "route_step (s, k) (snd (LookupAirport now later aenv code s), k)"
| receive_routes: "wk_batch k = [] \<Longrightarrow> wk_codes k = [] \<Longrightarrow> take_request (rs_routeQueue s) = Some (request, q) \<Longrightarrow>
    collectRouteBatch arriving request (s\<lparr> rs_routeQueue := q \<rparr>) = (batch, s') \<Longrightarrow> route_step (s, k) (s', k\<lparr> wk_batch := batch \<rparr>)"
| receive_airport: "wk_batch k = [] \<Longrightarrow> wk_codes k = [] \<Longrightarrow> take_request (rs_airportQueue s) = Some (code, q) \<Longrightarrow>
    route_step (s, k) (s\<lparr> rs_airportQueue := q \<rparr>, k\<lparr> wk_codes := [code] \<rparr>)"
| fetch_routes: "wk_batch k \<noteq> [] \<Longrightarrow> route_step (s, k)
    ((\<lambda>s. s\<lparr> rs_routeQueue := clear_requests (map rr_Callsign (wk_batch k)) (rs_routeQueue s) \<rparr>) (snd (fetchRoutes now later env (wk_batch k) s)), k\<lparr> wk_batch := [] \<rparr>)"
| fetch_airport: "wk_codes k = [code] \<Longrightarrow> route_step (s, k)
    ((\<lambda>s. s\<lparr> rs_airportQueue := clear_requests [code] (rs_airportQueue s) \<rparr>) (snd (fetchAirport now later aenv code s)), k\<lparr> wk_codes := [] \<rparr>)"

end
