(* ===== verification/Enrichment_Cache_Props.thy ===== *)
theory Enrichment_Cache_Props
  imports Enrichment_Cache
begin

text \<open>
  The cache refines a plain list, most recently used first, cut to its capacity; a value is
  found again as long as it is fresh enough and not crowded out; the token bucket keeps to its
  rate; an open circuit lets through a single probe; the discovery tracker is bounded.
\<close>

section \<open>The cache is a list\<close>

type_synonym 'v lru_list = "(string \<times> 'v lru_entry) list"

definition list_get :: "time \<Rightarrow> string \<Rightarrow> 'v lru_list \<Rightarrow> ('v \<times> bool \<times> lookup_error option) option \<times> 'v lru_list" where
  "list_get now key l =
     (case map_of l key of
        None \<Rightarrow> (None, l)
      | Some e \<Rightarrow>
          if lu_staleAt e \<le> now then (None, AList.delete key l)
          else (Some (lu_value e, lu_expiresAt e \<le> now, lu_err e), (key, e) # AList.delete key l))"

definition list_set :: "nat \<Rightarrow> time \<Rightarrow> string \<Rightarrow> 'v \<Rightarrow> lookup_error option \<Rightarrow> duration \<Rightarrow> duration \<Rightarrow> 'v lru_list \<Rightarrow> 'v lru_list" where
  "list_set capacity now key v err ttl staleTTL l =
     take capacity ((key, \<lparr> lu_value = v, lu_err = err, lu_expiresAt = now + ttl, lu_staleAt = now + (ttl + staleTTL) \<rparr>) # AList.delete key l)"

definition lru_abs :: "'v lru \<Rightarrow> 'v lru_list" where
  "lru_abs c = map (\<lambda>k. (k, the (map_of (lr_entries c) k))) (lr_order c)"

definition lru_ok :: "'v lru \<Rightarrow> bool" where
  "lru_ok c \<longleftrightarrow> gm_wf (lr_entries c) \<and> distinct (lr_order c) \<and> set (lr_order c) = dom (map_of (lr_entries c)) \<and>
     length (lr_order c) \<le> lr_max c \<and> 1 \<le> lr_max c"

lemma lru_length:
  assumes "gm_wf (lr_entries c)" "distinct (lr_order c)" "set (lr_order c) = dom (map_of (lr_entries c))"
  shows "length (lr_entries c) = length (lr_order c)"
proof -
  have "length (lr_entries c) = card (dom (map_of (lr_entries c)))"
    using assms(1) unfolding gm_wf_def by (metis distinct_card dom_map_of_conv_image_fst length_map list.set_map)
  then show ?thesis using assms(2,3) by (metis distinct_card)
qed

lemma length_remove1_mem: "x \<in> set xs \<Longrightarrow> Suc (length (remove1 x xs)) = length xs"
  by (induction xs) auto

lemma remove1_last: "distinct xs \<Longrightarrow> xs \<noteq> [] \<Longrightarrow> remove1 (last xs) xs = butlast xs"
  by (cases xs rule: rev_exhaust) (simp_all add: remove1_append)

lemma delete_map: "distinct ks \<Longrightarrow> AList.delete k (map (\<lambda>j. (j, f j)) ks) = map (\<lambda>j. (j, f j)) (remove1 k ks)"
  by (induction ks) (auto simp: AList.delete_eq remove1_idem)

lemma map_of_abs: "lru_ok c \<Longrightarrow> map_of (lru_abs c) = map_of (lr_entries c)"
proof
  fix k
  assume "lru_ok c"
  then show "map_of (lru_abs c) k = map_of (lr_entries c) k"
    unfolding lru_abs_def lru_ok_def map_of_map_restrict [symmetric]
    by (cases "k \<in> set (lr_order c)") (auto simp: map_of_map_restrict restrict_map_def domIff)
qed

lemma abs_front:
  assumes "lru_ok c" "map_of (lr_entries c) key = Some e"
  shows "lru_ok (lru_front key c)" "lru_abs (lru_front key c) = (key, e) # AList.delete key (lru_abs c)"
proof -
  have k: "key \<in> set (lr_order c)" using assms by (auto simp: lru_ok_def)
  have "length (lr_order c) = Suc (length (remove1 key (lr_order c)))" using length_remove1_mem [OF k] by simp
  then show "lru_ok (lru_front key c)" using assms k by (auto simp: lru_ok_def lru_front_def)
  show "lru_abs (lru_front key c) = (key, e) # AList.delete key (lru_abs c)"
    using assms by (simp add: lru_abs_def lru_front_def lru_ok_def delete_map)
qed

lemma abs_remove:
  assumes "lru_ok c"
  shows "lru_ok (lru_remove key c)" "lru_abs (lru_remove key c) = AList.delete key (lru_abs c)"
proof -
  have d: "distinct (lr_order c)" using assms by (simp add: lru_ok_def)
  show "lru_ok (lru_remove key c)" using assms by (auto simp: lru_ok_def lru_remove_def length_remove1)
  have "map (\<lambda>k. (k, the (map_of (AList.delete key (lr_entries c)) k))) (remove1 key (lr_order c)) =
      map (\<lambda>k. (k, the (map_of (lr_entries c) k))) (remove1 key (lr_order c))"
    using d by (intro map_cong) auto
  then show "lru_abs (lru_remove key c) = AList.delete key (lru_abs c)"
    unfolding lru_abs_def lru_remove_def using d by (simp add: delete_map)
qed

lemma get_refines:
  assumes "lru_ok c"
  shows "lru_ok (snd (lru_get now key c))" "fst (lru_get now key c) = fst (list_get now key (lru_abs c))"
    "lru_abs (snd (lru_get now key c)) = snd (list_get now key (lru_abs c))"
proof -
  have "lru_ok (snd (lru_get now key c)) \<and> fst (lru_get now key c) = fst (list_get now key (lru_abs c))
    \<and> lru_abs (snd (lru_get now key c)) = snd (list_get now key (lru_abs c))"
  proof (cases "map_of (lr_entries c) key")
    case None
    then show ?thesis using assms by (simp add: lru_get_def list_get_def map_of_abs)
  next
    case (Some e)
    then show ?thesis using assms abs_front [OF assms Some] abs_remove [OF assms, of key]
      by (simp add: lru_get_def list_get_def map_of_abs not_less)
  qed
  then show "lru_ok (snd (lru_get now key c))" "fst (lru_get now key c) = fst (list_get now key (lru_abs c))"
    "lru_abs (snd (lru_get now key c)) = snd (list_get now key (lru_abs c))" by blast+
qed

lemma trim_one:
  assumes "lr_order c = key # ks" "ks \<noteq> []" "gm_wf (lr_entries c)" "distinct (lr_order c)" "set (lr_order c) = dom (map_of (lr_entries c))"
    "length (lr_order c) = Suc (lr_max c)"
  shows "lru_trim c = lru_remove (last ks) c"
proof -
  have len: "length (lr_entries c) = Suc (lr_max c)" using lru_length assms by metis
  have "length (lr_entries (lru_remove (last ks) c)) = lr_max c"
  proof -
    have "last ks \<in> fst ` set (lr_entries c)" using assms(1,2,5) by (metis dom_map_of_conv_image_fst last_in_set list.set_intros(2))
    then show ?thesis using len assms(3) by (simp add: lru_remove_def gm_length_delete)
  qed
  moreover have "lr_max (lru_remove (last ks) c) = lr_max c" by (simp add: lru_remove_def)
  ultimately have "lru_trim (lru_remove (last ks) c) = lru_remove (last ks) c" by (subst lru_trim.simps) simp
  then show ?thesis using assms(1,2) len by (subst lru_trim.simps) simp
qed

lemma set_refines:
  assumes ok: "lru_ok c"
  shows "lru_ok (lru_set now key v err ttl staleTTL c) \<and> lr_max (lru_set now key v err ttl staleTTL c) = lr_max c \<and>
    lru_abs (lru_set now key v err ttl staleTTL c) = list_set (lr_max c) now key v err ttl staleTTL (lru_abs c)"
proof -
  define e where "e = \<lparr> lu_value = v, lu_err = err, lu_expiresAt = now + ttl, lu_staleAt = now + (ttl + staleTTL) \<rparr>"
  have d: "distinct (lr_order c)" and le: "length (lr_order c) \<le> lr_max c" and m: "1 \<le> lr_max c"
    and dm: "set (lr_order c) = dom (map_of (lr_entries c))" and wf: "gm_wf (lr_entries c)" using ok by (simp_all add: lru_ok_def)
  show ?thesis
  proof (cases "map_of (lr_entries c) key = None")
    case False
    define c1 where "c1 = c\<lparr> lr_entries := AList.update key e (lr_entries c) \<rparr>"
    have k: "key \<in> set (lr_order c)" using False dm by auto
    have ok1: "lru_ok c1" using ok False by (auto simp: lru_ok_def c1_def)
    have abs1: "AList.delete key (lru_abs c1) = AList.delete key (lru_abs c)"
    proof -
      have "map (\<lambda>k. (k, the (map_of (lr_entries c1) k))) (remove1 key (lr_order c)) = map (\<lambda>k. (k, the (map_of (lr_entries c) k))) (remove1 key (lr_order c))"
        using d by (intro map_cong) (auto simp: c1_def)
      then show ?thesis using d by (simp add: lru_abs_def delete_map c1_def)
    qed
    have "map_of (lr_entries c1) key = Some e" by (simp add: c1_def)
    note f = abs_front [OF ok1 this]
    have s: "lru_set now key v err ttl staleTTL c = lru_front key c1"
      using False by (simp add: lru_set_def Let_def e_def c1_def)
    have "length ((key, e) # AList.delete key (lru_abs c)) \<le> lr_max c"
      using length_remove1_mem [OF k] le d by (simp add: lru_abs_def delete_map)
    then show ?thesis using f abs1 unfolding s list_set_def e_def [symmetric]
      by (simp add: lru_front_def c1_def)
  next
    case True
    have k: "key \<notin> set (lr_order c)" using True dm by auto
    define c1 where "c1 = c\<lparr> lr_entries := AList.update key e (lr_entries c), lr_order := key # lr_order c \<rparr>"
    have s: "lru_set now key v err ttl staleTTL c = lru_trim c1"
      using True by (simp add: lru_set_def Let_def e_def c1_def)
    have same: "map (\<lambda>j. (j, the (map_of (lr_entries c1) j))) (lr_order c) = lru_abs c"
      unfolding lru_abs_def using k by (intro map_cong) (auto simp: c1_def)
    then have abs1: "lru_abs c1 = (key, e) # lru_abs c" by (simp add: lru_abs_def c1_def)
    have nd: "AList.delete key (lru_abs c) = lru_abs c"
      using k d by (simp add: lru_abs_def delete_map remove1_idem)
    have p: "gm_wf (lr_entries c1)" "distinct (lr_order c1)" "set (lr_order c1) = dom (map_of (lr_entries c1))"
      using wf d k dm by (auto simp: c1_def)
    show ?thesis
    proof (cases "length (lr_order c) < lr_max c")
      case True
      then have "lru_trim c1 = c1" using lru_length [OF p] by (subst lru_trim.simps) (simp add: c1_def)
      moreover have "lru_ok c1" using p True m by (simp add: lru_ok_def c1_def)
      ultimately show ?thesis
        unfolding s list_set_def e_def [symmetric] nd using abs1 True by (simp add: c1_def lru_abs_def)
    next
      case False
      then have full: "length (lr_order c) = lr_max c" using le by simp
      then have ne: "lr_order c \<noteq> []" using m by auto
      have t: "lru_trim c1 = lru_remove (last (lr_order c)) c1"
        using trim_one [OF _ ne p] full by (simp add: c1_def)
      have r: "remove1 (last (lr_order c)) (key # lr_order c) = key # butlast (lr_order c)"
        using remove1_last [OF d ne] k ne by auto
      have abs2: "lru_abs (lru_trim c1) = (key, e) # butlast (lru_abs c)"
      proof -
        have "lru_abs (lru_remove (last (lr_order c)) c1) = map (\<lambda>j. (j, the (map_of (lr_entries c1) j))) (key # butlast (lr_order c))"
          unfolding lru_abs_def lru_remove_def using r d ne k p(2)
          by (auto simp: c1_def intro!: map_cong) (metis distinct_append distinct.simps(2) append_butlast_last_id last_in_set in_set_butlastD not_distinct_conv_prefix)+
        also have "\<dots> = (key, e) # butlast (lru_abs c)"
          using same by (simp add: map_butlast) (simp add: c1_def)
        finally show ?thesis by (simp add: t)
      qed
      have "last (lr_order c) \<in> set (lr_order c1)" using ne by (simp add: c1_def)
      from length_remove1_mem [OF this] have ok2: "lru_ok (lru_trim c1)"
        unfolding t using p m full
        by (auto simp: lru_ok_def lru_remove_def) (simp_all add: c1_def)
      have "take (lr_max c) ((key, e) # lru_abs c) = (key, e) # butlast (lru_abs c)"
        using full m by (cases "lr_max c") (auto simp: lru_abs_def butlast_conv_take)
      then show ?thesis
        unfolding s list_set_def e_def [symmetric] nd using abs2 ok2 by (simp add: t) (simp add: lru_remove_def c1_def)
    qed
  qed
qed

section \<open>Runs of the cache\<close>

datatype 'v cache_op = GetOp time string | SetOp time string 'v "lookup_error option" duration duration

fun cache_run :: "'v cache_op list \<Rightarrow> 'v lru \<Rightarrow> ('v \<times> bool \<times> lookup_error option) option list \<times> 'v lru" where
  "cache_run [] c = ([], c)"
| "cache_run (GetOp now key # ops) c = (let (hit, c') = lru_get now key c; (hits, c'') = cache_run ops c' in (hit # hits, c''))"
| "cache_run (SetOp now key v err ttl staleTTL # ops) c = cache_run ops (lru_set now key v err ttl staleTTL c)"

fun list_run :: "nat \<Rightarrow> 'v cache_op list \<Rightarrow> 'v lru_list \<Rightarrow> ('v \<times> bool \<times> lookup_error option) option list \<times> 'v lru_list" where
  "list_run capacity [] l = ([], l)"
| "list_run capacity (GetOp now key # ops) l = (let (hit, l') = list_get now key l; (hits, l'') = list_run capacity ops l' in (hit # hits, l''))"
| "list_run capacity (SetOp now key v err ttl staleTTL # ops) l = list_run capacity ops (list_set capacity now key v err ttl staleTTL l)"

lemma get_max: "lr_max (snd (lru_get now key c)) = lr_max c"
  by (simp add: lru_get_def lru_remove_def lru_front_def split: option.split)

lemma run_refines:
  "lru_ok c \<Longrightarrow> lru_ok (snd (cache_run ops c)) \<and> lr_max (snd (cache_run ops c)) = lr_max c \<and>
     fst (cache_run ops c) = fst (list_run (lr_max c) ops (lru_abs c)) \<and> lru_abs (snd (cache_run ops c)) = snd (list_run (lr_max c) ops (lru_abs c))"
proof (induction ops c rule: cache_run.induct)
  case (2 now key ops c)
  obtain hit c' where g: "lru_get now key c = (hit, c')" by (cases "lru_get now key c")
  obtain l' where l: "list_get now key (lru_abs c) = (hit, l')" "lru_abs c' = l'"
    using get_refines [OF 2(2), of now key] by (cases "list_get now key (lru_abs c)") (simp add: g)
  have "lru_ok c'" "lr_max c' = lr_max c" using get_refines(1) [OF 2(2), of now key] get_max [of now key c] by (simp_all add: g)
  then show ?case using 2(1) [OF g [symmetric] refl] l by (simp add: g split: prod.splits) auto
next
  case (3 now key v err ttl staleTTL ops c)
  then show ?case using set_refines [OF 3(2), of now key v err ttl staleTTL] by simp
qed simp

lemma newTTLLRU_ok: "lru_ok (newTTLLRU n)" "lru_abs (newTTLLRU n) = []" "lr_max (newTTLLRU n) = nat (max 1 n)"
  by (auto simp: lru_ok_def newTTLLRU_def lru_abs_def)

text \<open>The keys an operation touches.\<close>

fun op_key :: "'v cache_op \<Rightarrow> string" where
  "op_key (GetOp now key) = key"
| "op_key (SetOp now key v err ttl staleTTL) = key"

fun op_keeps :: "string \<Rightarrow> time \<Rightarrow> 'v cache_op \<Rightarrow> bool" where
  "op_keeps k staleAt (GetOp now key) \<longleftrightarrow> key = k \<longrightarrow> now < staleAt"
| "op_keeps k staleAt (SetOp now key v err ttl staleTTL) \<longleftrightarrow> key \<noteq> k"

text \<open>An entry and the keys in front of it.\<close>

definition stands :: "string \<Rightarrow> 'v lru_entry \<Rightarrow> string set \<Rightarrow> 'v lru_list \<Rightarrow> bool" where
  "stands k e A l \<longleftrightarrow> (\<exists>pre post. l = pre @ (k, e) # post \<and> k \<notin> fst ` set pre \<and> fst ` set pre \<subseteq> A \<and> distinct (map fst l))"

lemma stands_map_of: "stands k e A l \<Longrightarrow> map_of l k = Some e"
  unfolding stands_def by (auto simp: map_add_Some_iff map_of_eq_None_iff)

lemma stands_delete:
  assumes "stands k e A l" "j \<noteq> k"
  shows "stands k e A (AList.delete j l)"
proof -
  obtain pre post where l: "l = pre @ (k, e) # post" "k \<notin> fst ` set pre" "fst ` set pre \<subseteq> A" "distinct (map fst l)"
    using assms(1) unfolding stands_def by blast
  have "AList.delete j l = AList.delete j pre @ (k, e) # AList.delete j post" using assms(2) by (simp add: l(1) AList.delete_eq)
  moreover have "fst ` set (AList.delete j pre) \<subseteq> fst ` set pre" by (auto simp: AList.delete_eq)
  ultimately show ?thesis using l(2-4) distinct_delete [of l j] unfolding stands_def
    by (intro exI [of _ "AList.delete j pre"] exI [of _ "AList.delete j post"] conjI) auto
qed

lemma stands_mono:
  assumes "stands k e A l" "A \<subseteq> B"
  shows "stands k e B l"
proof -
  obtain pre post where l: "l = pre @ (k, e) # post" "k \<notin> fst ` set pre" "fst ` set pre \<subseteq> A" "distinct (map fst l)"
    using assms(1) unfolding stands_def by blast
  then show ?thesis unfolding stands_def using assms(2) by (intro exI [of _ pre] exI [of _ post] conjI) auto
qed

lemma stands_front:
  assumes "stands k e A l" "j \<noteq> k"
  shows "stands k e (insert j A) ((j, x) # AList.delete j l)"
proof -
  obtain pre post where d: "AList.delete j l = pre @ (k, e) # post" "k \<notin> fst ` set pre" "fst ` set pre \<subseteq> A" "distinct (map fst (AList.delete j l))"
    using stands_delete [OF assms] unfolding stands_def by blast
  have "j \<notin> fst ` set (AList.delete j l)" by (auto simp: AList.delete_eq)
  then show ?thesis unfolding stands_def using d assms(2)
    by (intro exI [of _ "(j, x) # pre"] exI [of _ post]) auto
qed

lemma stands_take:
  assumes "stands k e A l" "card A < n" "finite A"
  shows "stands k e A (take n l)"
proof -
  obtain pre post where l: "l = pre @ (k, e) # post" "k \<notin> fst ` set pre" "fst ` set pre \<subseteq> A" "distinct (map fst l)"
    using assms(1) unfolding stands_def by blast
  have "length pre = card (fst ` set pre)" using l(1,4) by (metis distinct_append distinct_card length_map list.set_map map_append)
  also have "\<dots> \<le> card A" by (rule card_mono [OF assms(3) l(3)])
  finally have len: "length pre < n" using assms(2) by simp
  then have "take n l = pre @ (k, e) # take (n - length pre - 1) post" by (simp add: l(1) take_Cons')
  then show ?thesis using l(2-4) unfolding stands_def by (metis distinct_take take_map)
qed

lemma list_run_stands:
  assumes "stands k e A l" "list_all (op_keeps k (lu_staleAt e)) ops" "finite A" "card (A \<union> (op_key ` set ops - {k})) < capacity"
  shows "\<exists>A'. stands k e A' (snd (list_run capacity ops l))"
  using assms
proof (induction capacity ops l arbitrary: A rule: list_run.induct)
  case (2 capacity now key ops l)
  obtain hit l' where g: "list_get now key l = (hit, l')" by (cases "list_get now key l")
  have "\<exists>B. stands k e B l' \<and> finite B \<and> B \<union> (op_key ` set ops - {k}) \<subseteq> A \<union> (op_key ` set (GetOp now key # ops) - {k})"
  proof (cases "key = k")
    case True
    have m: "map_of l k = Some e" by (rule stands_map_of [OF 2(2)])
    have "l' = (k, e) # AList.delete k l" using g m 2(3) True by (simp add: list_get_def not_le)
    moreover have "k \<notin> fst ` set (AList.delete k l)" by (auto simp: AList.delete_eq)
    moreover have "distinct (map fst l)" using 2(2) unfolding stands_def by blast
    then have "distinct (map fst (AList.delete k l))" by (rule distinct_delete)
    ultimately have "stands k e {} l'" unfolding stands_def by (intro exI [of _ "[]"] exI [of _ "AList.delete k l"]) auto
    then show ?thesis by (intro exI [of _ "{}"]) auto
  next
    case False
    have "l' = l \<or> l' = AList.delete key l \<or> (\<exists>x. l' = (key, x) # AList.delete key l)"
      using g by (auto simp: list_get_def split: option.splits if_splits)
    then have "stands k e (insert key A) l'"
    proof (elim disjE exE)
      assume "l' = l"
      then show ?thesis using stands_mono [OF 2(2) subset_insertI] by simp
    next
      assume "l' = AList.delete key l"
      then show ?thesis using stands_mono [OF stands_delete [OF 2(2) False] subset_insertI] by simp
    next
      fix x
      assume "l' = (key, x) # AList.delete key l"
      then show ?thesis using stands_front [OF 2(2) False] by simp
    qed
    then show ?thesis using 2(4) False by (intro exI [of _ "insert key A"]) auto
  qed
  then obtain B where B: "stands k e B l'" "finite B" "B \<union> (op_key ` set ops - {k}) \<subseteq> A \<union> (op_key ` set (GetOp now key # ops) - {k})" by blast
  have "card (B \<union> (op_key ` set ops - {k})) \<le> card (A \<union> (op_key ` set (GetOp now key # ops) - {k}))"
    using 2(4) by (intro card_mono B(3)) auto
  then have c: "card (B \<union> (op_key ` set ops - {k})) < capacity" using 2(5) by simp
  have "list_all (op_keeps k (lu_staleAt e)) ops" using 2(3) by simp
  from 2(1) [OF g [symmetric] refl B(1) this B(2) c] show ?case by (simp add: g split: prod.splits) auto
next
  case (3 capacity now key v err ttl staleTTL ops l)
  have ne: "key \<noteq> k" and rest: "list_all (op_keeps k (lu_staleAt e)) ops" using 3(3) by simp_all
  have sub: "insert key A \<union> (op_key ` set ops - {k}) \<subseteq> A \<union> (op_key ` set (SetOp now key v err ttl staleTTL # ops) - {k})" using ne by auto
  have fin: "finite (A \<union> (op_key ` set (SetOp now key v err ttl staleTTL # ops) - {k}))" using 3(4) by simp
  have "card (insert key A) \<le> card (A \<union> (op_key ` set (SetOp now key v err ttl staleTTL # ops) - {k}))" using sub by (intro card_mono [OF fin]) auto
  then have "card (insert key A) < capacity" using 3(5) by simp
  then have st: "stands k e (insert key A) (list_set capacity now key v err ttl staleTTL l)"
    unfolding list_set_def using stands_take [OF stands_front [OF 3(2) ne]] 3(4) by auto
  have "card (insert key A \<union> (op_key ` set ops - {k})) < capacity" using card_mono [OF fin sub] 3(5) by simp
  then show ?case using 3(1) [OF st rest] 3(4) by simp
qed auto

text \<open>
  C33. The caches of the enrichment services behave like a list. For every sequence of reads and
  writes, a cache of \<open>n\<close> entries answers exactly like the list of its entries, most recently
  used first, where a write puts the entry in front and cuts the list to the capacity and a
  read moves its entry to the front, or removes it when even its stale time is over; it never
  holds more than its capacity.
\<close>

theorem lru_refines:
  "fst (cache_run ops (newTTLLRU n)) = fst (list_run (nat (max 1 n)) ops []) \<and>
   lru_abs (snd (cache_run ops (newTTLLRU n))) = snd (list_run (nat (max 1 n)) ops []) \<and>
   lru_len (snd (cache_run ops (newTTLLRU n))) \<le> nat (max 1 n)"
proof -
  note r = run_refines [OF newTTLLRU_ok(1), of ops n]
  have "lru_ok (snd (cache_run ops (newTTLLRU n)))" "lr_max (snd (cache_run ops (newTTLLRU n))) = nat (max 1 n)"
    using r newTTLLRU_ok(3) [of n] by (simp_all add: newTTLLRU_def)
  then have "lru_len (snd (cache_run ops (newTTLLRU n))) \<le> nat (max 1 n)"
    using lru_length [of "snd (cache_run ops (newTTLLRU n))"] by (simp add: lru_ok_def lru_len_def)
  then show ?thesis using r by (simp add: newTTLLRU_ok)
qed

text \<open>
  A cached value is not lost early. After a value is written, as long as it is not
  overwritten, its stale time has not come and fewer other keys than the capacity were touched
  since, a read finds it, with its error, and calls it stale exactly from its expiry on.
\<close>

theorem lru_retains:
  assumes "list_all (op_keeps key (now + (ttl + staleTTL))) later" "card (op_key ` set later - {key}) < nat (max 1 n)"
    "t < now + (ttl + staleTTL)"
  shows "fst (lru_get t key (snd (cache_run (earlier @ SetOp now key v err ttl staleTTL # later) (newTTLLRU n)))) = Some (v, now + ttl \<le> t, err)"
proof -
  define e where "e = \<lparr> lu_value = v, lu_err = err, lu_expiresAt = now + ttl, lu_staleAt = now + (ttl + staleTTL) \<rparr>"
  define m where "m = nat (max 1 n)"
  define l where "l = snd (list_run m earlier [])"
  have app: "snd (list_run m (xs @ ys) l0) = snd (list_run m ys (snd (list_run m xs l0)))" for xs ys and l0 :: "'a lru_list"
    by (induction m xs l0 rule: list_run.induct) (auto split: prod.splits)
  define c where "c = snd (cache_run (earlier @ SetOp now key v err ttl staleTTL # later) (newTTLLRU n))"
  have ok: "lru_ok c" and abs: "lru_abs c = snd (list_run m later (list_set m now key v err ttl staleTTL l))"
    using run_refines [OF newTTLLRU_ok(1), of "earlier @ SetOp now key v err ttl staleTTL # later" n]
    unfolding c_def l_def newTTLLRU_ok m_def [symmetric] app by simp_all
  have dl: "distinct (map fst l)"
  proof -
    have "lru_ok (snd (cache_run earlier (newTTLLRU n)))" "lru_abs (snd (cache_run earlier (newTTLLRU n))) = l"
      using run_refines [OF newTTLLRU_ok(1), of earlier n] by (simp_all add: l_def m_def newTTLLRU_ok)
    then show ?thesis by (auto simp: lru_abs_def lru_ok_def comp_def)
  qed
  have "stands key e {} ((key, e) # AList.delete key l)"
    unfolding stands_def using distinct_delete [OF dl, of key] by (intro exI [of _ "[]"] exI [of _ "AList.delete key l"]) (auto simp: AList.delete_eq)
  then have "stands key e {} (list_set m now key v err ttl staleTTL l)"
    unfolding list_set_def e_def [symmetric] by (rule stands_take) (simp_all add: m_def)
  then obtain A where "stands key e A (lru_abs c)"
    using list_run_stands [of key e "{}" _ later m] assms(1,2) unfolding abs by (auto simp: e_def m_def)
  then have "map_of (lru_abs c) key = Some e" by (rule stands_map_of)
  then have "fst (list_get t key (lru_abs c)) = Some (v, now + ttl \<le> t, err)"
    using assms(3) by (simp add: list_get_def e_def)
  then show ?thesis using get_refines(2) [OF ok] unfolding c_def by simp
qed

section \<open>The token bucket\<close>

fun bucket_turns :: "time list \<Rightarrow> token_bucket \<Rightarrow> nat \<times> token_bucket" where
  "bucket_turns [] b = (0, b)"
| "bucket_turns (t # ts) b =
     (let (wait, b1) = bucket_turn t b; (n, b2) = bucket_turns ts b1 in (if wait = None then Suc n else n, b2))"

definition bucket_ok :: "token_bucket \<Rightarrow> bool" where
  "bucket_ok b \<longleftrightarrow> 0 \<le> tb_tokens b \<and> tb_tokens b \<le> tb_burst b \<and> 0 < tb_rate b \<and> 1 \<le> tb_burst b"

lemma bucket_turn_spec:
  assumes "bucket_ok b" "tb_last b \<le> t"
  shows "bucket_ok (snd (bucket_turn t b))" "tb_last (snd (bucket_turn t b)) = t" "tb_rate (snd (bucket_turn t b)) = tb_rate b" "tb_burst (snd (bucket_turn t b)) = tb_burst b"
    "(if fst (bucket_turn t b) = None then 1 else 0) + tb_tokens (snd (bucket_turn t b)) \<le> min (tb_burst b) (tb_tokens b + of_int (t - tb_last b) / of_int second * tb_rate b)"
proof -
  define refill where "refill = of_int (time_sub t (tb_last b)) / of_int second * tb_rate b"
  define full where "full = of_int (t - tb_last b) / of_int second * tb_rate b"
  have sub: "0 \<le> time_sub t (tb_last b)" "time_sub t (tb_last b) \<le> t - tb_last b"
    using assms(2) by (auto simp: time_sub_def max_duration_def min_duration_def)
  have r: "0 \<le> refill" "refill \<le> full"
    using sub assms(1) unfolding refill_def full_def bucket_ok_def by (auto intro!: mult_right_mono divide_right_mono)
  have e: "bucket_turn t b = (if min (tb_burst b) (tb_tokens b + refill) \<ge> 1
      then (None, b\<lparr> tb_tokens := min (tb_burst b) (tb_tokens b + refill) - 1, tb_last := t \<rparr>)
      else (Some \<lfloor>(1 - min (tb_burst b) (tb_tokens b + refill)) / tb_rate b * of_int second\<rfloor>, b\<lparr> tb_tokens := min (tb_burst b) (tb_tokens b + refill), tb_last := t \<rparr>))"
    unfolding bucket_turn_def Let_def refill_def by simp
  show "bucket_ok (snd (bucket_turn t b))" "tb_last (snd (bucket_turn t b)) = t" "tb_rate (snd (bucket_turn t b)) = tb_rate b" "tb_burst (snd (bucket_turn t b)) = tb_burst b"
    using assms(1) r unfolding e bucket_ok_def by auto
  show "(if fst (bucket_turn t b) = None then 1 else 0) + tb_tokens (snd (bucket_turn t b)) \<le> min (tb_burst b) (tb_tokens b + of_int (t - tb_last b) / of_int second * tb_rate b)"
    using r unfolding full_def [symmetric] e by (auto simp: min_def)
qed

lemma bucket_turns_spec:
  assumes "bucket_ok b" "sorted (tb_last b # ts)"
  shows "bucket_ok (snd (bucket_turns ts b)) \<and> tb_last (snd (bucket_turns ts b)) = last (tb_last b # ts) \<and> tb_rate (snd (bucket_turns ts b)) = tb_rate b
    \<and> tb_burst (snd (bucket_turns ts b)) = tb_burst b
    \<and> real (fst (bucket_turns ts b)) + tb_tokens (snd (bucket_turns ts b)) \<le> tb_tokens b + of_int (last (tb_last b # ts) - tb_last b) / of_int second * tb_rate b"
  using assms
proof (induction ts arbitrary: b)
  case (Cons t ts)
  obtain wait b1 where t: "bucket_turn t b = (wait, b1)" by (cases "bucket_turn t b")
  obtain n b2 where ts: "bucket_turns ts b1 = (n, b2)" by (cases "bucket_turns ts b1")
  have "tb_last b \<le> t" using Cons.prems(2) by simp
  note one = bucket_turn_spec [OF Cons.prems(1) this, unfolded t, simplified]
  have IH: "bucket_ok b2 \<and> tb_last b2 = last (t # ts) \<and> tb_rate b2 = tb_rate b \<and> tb_burst b2 = tb_burst b
      \<and> real n + tb_tokens b2 \<le> tb_tokens b1 + of_int (last (t # ts) - t) / of_int second * tb_rate b"
    using Cons.IH [of b1] Cons.prems(2) one(1-4) by (simp add: ts)
  have "of_int (last (t # ts) - t) / of_int second * tb_rate b + of_int (t - tb_last b) / of_int second * tb_rate b =
      of_int (last (t # ts) - tb_last b) / of_int second * tb_rate b" by (simp add: field_simps)
  moreover have "(if wait = None then 1 else 0) + tb_tokens b1 \<le> tb_tokens b + of_int (t - tb_last b) / of_int second * tb_rate b"
    using one(5) by simp
  ultimately have "real (if wait = None then Suc n else n) + tb_tokens b2 \<le> tb_tokens b + of_int (last (t # ts) - tb_last b) / of_int second * tb_rate b"
    using IH by (auto split: if_splits)
  then show ?case using IH by (simp add: t ts)
qed simp

text \<open>The requests keep to their rate. Whatever happened before, among any turns of waiting
  callers in a span of time the bucket grants at most its burst plus its rate times the span:
  two metadata requests and five more for every second.
\<close>

theorem token_bucket_rate:
  assumes "sorted (start # earlier @ t # ts)"
  shows "real (fst (bucket_turns (t # ts) (snd (bucket_turns earlier (newTokenBucket start rate burst)))))
    \<le> max 1 burst + (if rate \<le> 0 then 5 else rate) * of_int (last (t # ts) - t) / of_int second"
proof -
  define b0 where "b0 = newTokenBucket start rate burst"
  define b where "b = snd (bucket_turns earlier b0)"
  have b0: "bucket_ok b0" "tb_last b0 = start" "tb_rate b0 = (if rate \<le> 0 then 5 else rate)" "tb_burst b0 = max 1 burst"
    by (auto simp: b0_def newTokenBucket_def bucket_ok_def Let_def)
  have s: "sorted (start # earlier)" "last (start # earlier) \<le> t" "sorted (t # ts)"
    using assms by (auto simp: sorted_append)
  have b: "bucket_ok b" "tb_last b = last (start # earlier)" "tb_rate b = tb_rate b0" "tb_burst b = tb_burst b0"
    using bucket_turns_spec [OF b0(1), of earlier] s(1) by (simp_all add: b_def b0(2))
  obtain wait b1 where t: "bucket_turn t b = (wait, b1)" by (cases "bucket_turn t b")
  have le: "tb_last b \<le> t" using b(2) s(2) by simp
  note one = bucket_turn_spec [OF b(1) le, unfolded t, simplified]
  have many: "real (fst (bucket_turns ts b1)) + tb_tokens (snd (bucket_turns ts b1)) \<le> tb_tokens b1 + of_int (last (t # ts) - t) / of_int second * tb_rate b"
    "0 \<le> tb_tokens (snd (bucket_turns ts b1))"
    using bucket_turns_spec [OF one(1), of ts] s(3) one(2,3) by (simp_all add: bucket_ok_def)
  have "real (fst (bucket_turns (t # ts) b)) = (if wait = None then 1 else 0) + real (fst (bucket_turns ts b1))"
    by (simp add: t split: prod.split)
  also have "\<dots> \<le> tb_burst b + of_int (last (t # ts) - t) / of_int second * tb_rate b"
    using one(5) many by (auto split: if_splits)
  finally show ?thesis unfolding b_def b0_def [symmetric] using b(3,4) b0(3,4) by (simp add: b_def mult.commute)
qed

section \<open>Circuits\<close>

fun allows :: "time list \<Rightarrow> circuit \<Rightarrow> bool list \<times> circuit" where
  "allows [] c = ([], c)"
| "allows (t # ts) c = (let (ok, c1) = circuit_allow t c; (oks, c2) = allows ts c1 in (ok # oks, c2))"

definition circuit_open :: "circuit \<Rightarrow> bool" where
  "circuit_open c \<longleftrightarrow> ci_openUntil c \<noteq> time_zero"

lemma allows_probing: "circuit_open c \<Longrightarrow> ci_probing c \<Longrightarrow> allows ts c = (map (\<lambda>_. False) ts, c)"
  by (induction ts) (simp_all add: circuit_allow_def circuit_open_def)

text \<open>An open circuit grants nothing before its time, then one probe.\<close>

fun one_probe :: "time \<Rightarrow> time list \<Rightarrow> bool list" where
  "one_probe opens [] = []"
| "one_probe opens (t # ts) = (if t < opens then False # one_probe opens ts else True # map (\<lambda>_. False) ts)"

lemma allows_open: "circuit_open c \<Longrightarrow> \<not> ci_probing c \<Longrightarrow> fst (allows ts c) = one_probe (ci_openUntil c) ts"
proof (induction ts)
  case (Cons t ts)
  have "fst (allows ts (c\<lparr> ci_probing := True \<rparr>)) = map (\<lambda>_. False) ts"
    using allows_probing [of "c\<lparr> ci_probing := True \<rparr>" ts] Cons.prems(1) by (simp add: circuit_open_def)
  then show ?case using Cons by (auto simp: circuit_allow_def circuit_open_def split: prod.splits)
qed simp

text \<open>
  An open circuit rests, then probes once. After the failure that reaches the threshold,
  whatever requests come at whatever times, none is let through before the circuit has been
  open for its time; then exactly one is, and all others wait for its outcome.
\<close>

theorem circuit_single_probe:
  assumes "ci_threshold c \<le> ci_failures c + 1" "t + ci_openFor c \<noteq> 0"
  shows "fst (allows ts (circuit_failure t c)) = one_probe (t + ci_openFor c) ts"
  using assms allows_open [of "circuit_failure t c" ts] by (simp add: circuit_failure_def circuit_open_def Let_def)

section \<open>Witnesses\<close>

theorem lru_retains_witness:
  "fst (lru_get 9 ''A'' (snd (cache_run ([] @ SetOp 1 ''A'' (7 :: nat) None 5 20 # [SetOp 2 ''B'' 8 None 5 20, GetOp 3 ''A'', SetOp 4 ''C'' 9 None 5 20]) (newTTLLRU 3))))
     = Some (7, True, None)"
proof -
  have "op_key ` set [SetOp 2 ''B'' (8 :: nat) None 5 20, GetOp 3 ''A'', SetOp 4 ''C'' 9 None 5 20] - {''A''} = {''B'', ''C''}" by auto
  then have "card (op_key ` set [SetOp 2 ''B'' (8 :: nat) None 5 20, GetOp 3 ''A'', SetOp 4 ''C'' 9 None 5 20] - {''A''}) < nat (max 1 3)" by simp
  from lru_retains [OF _ this, of 1 5 20 9 "[]" 7 None] show ?thesis by simp
qed

theorem token_bucket_rate_witness:
  "real (fst (bucket_turns [2 * second, 2 * second, 3 * second] (snd (bucket_turns [second] (newTokenBucket 0 5 2))))) \<le> 7"
  using token_bucket_rate [of 0 "[second]" "2 * second" "[2 * second, 3 * second]" 5 2] by simp

theorem circuit_single_probe_witness:
  "fst (allows [second, 31 * second, 32 * second] (circuit_failure second (circuitBreaker\<lparr> ci_failures := 4 \<rparr>))) = [False, True, False]"
  using circuit_single_probe [of "circuitBreaker\<lparr> ci_failures := 4 \<rparr>" second "[second, 31 * second, 32 * second]"]
  by (simp add: circuitBreaker_def newRouteCircuit_def)

end
