(* ===== verification/Enrichment_Props.thy ===== *)
theory Enrichment_Props
  imports Enrichment_Routes Enrichment_Cache_Props
begin

text \<open>
  The enrichment services: a key is queued or being looked up at most once and the record of
  pending keys is exact, under every interleaving of callers and workers; the caches of the
  route service hold normalised callsigns and airport codes only; a cancelled probe leaves the
  circuit closed to everyone.
\<close>

section \<open>Queues of requests\<close>

text \<open>\<open>held\<close> are the keys that workers are looking up.\<close>

definition queue_ok :: "('r \<Rightarrow> string) \<Rightarrow> nat \<Rightarrow> string list \<Rightarrow> 'r request_queue \<Rightarrow> bool" where
  "queue_ok key n held q \<longleftrightarrow> distinct (held @ map key (pq_queue q)) \<and> set (held @ map key (pq_queue q)) = dom (map_of (pq_pending q)) \<and>
     length (pq_queue q) \<le> n \<and> 0 < n \<and> pq_capacity q = n"

lemma admit_ok:
  assumes ok: "queue_ok key n held q"
  shows "queue_ok key n held (snd (admit key r q)) \<and> fst (admit key r q) \<noteq> AdmissionDropped \<and>
    key r \<in> dom (map_of (pq_pending (snd (admit key r q))))"
proof (cases "map_of (pq_pending q) (key r) = None")
  case False
  then show ?thesis using ok by (auto simp: admit_def queue_ok_def)
next
  case new: True
  have fresh: "key r \<notin> set held" "key r \<notin> key ` set (pq_queue q)" using ok new by (auto simp: queue_ok_def)
  show ?thesis
  proof (cases "length (pq_queue q) < pq_capacity q")
    case True
    have a: "admit key r q = (AdmissionEnqueued, q\<lparr> pq_pending := AList.update (key r) () (pq_pending q), pq_queue := pq_queue q @ [r], pq_enqueued := pq_enqueued q + 1 \<rparr>)"
      using new True by (simp add: admit_def Let_def)
    show ?thesis unfolding a using ok fresh True by (auto simp: queue_ok_def)
  next
    case False
    then obtain x rest where x: "pq_queue q = x # rest" using ok by (cases "pq_queue q") (auto simp: queue_ok_def)
    have len: "length (pq_queue q) = pq_capacity q" using ok False by (simp add: queue_ok_def)
    have a: "admit key r q = (AdmissionEnqueued, q\<lparr> pq_pending := AList.delete (key x) (AList.update (key r) () (pq_pending q)), pq_queue := rest @ [r],
        pq_dropped := pq_dropped q + 1, pq_enqueued := pq_enqueued q + 1 \<rparr>)"
      using new False x len by (simp add: admit_def Let_def)
    have rx: "key r \<noteq> key x" using fresh(2) x by auto
    show ?thesis unfolding a using ok fresh rx x len by (auto simp: queue_ok_def)
  qed
qed

lemma take_ok:
  assumes "queue_ok key n held q" "take_request q = Some (r, q')"
  shows "queue_ok key n (key r # held) q'"
  using assms by (auto simp: take_request_def queue_ok_def split: list.splits)

lemma fold_delete: "map_of (fold AList.delete keys m) = (\<lambda>k. if k \<in> set keys then None else map_of m k)"
  by (induction keys arbitrary: m) (auto simp: fun_eq_iff)

lemma clear_ok:
  assumes ok: "queue_ok key n held q" and keys: "set keys \<subseteq> set held"
  shows "queue_ok key n (filter (\<lambda>k. k \<notin> set keys) held) (clear_requests keys q)"
proof -
  have "set (filter (\<lambda>k. k \<notin> set keys) held @ map key (pq_queue q)) = dom (\<lambda>k. if k \<in> set keys then None else map_of (pq_pending q) k)"
    using ok keys unfolding queue_ok_def by (auto simp: dom_def split: if_splits)
  then show ?thesis using ok unfolding queue_ok_def clear_requests_def by (auto simp: fold_delete)
qed

section \<open>The metadata service\<close>

definition service_ok :: "enrich_service \<times> request list \<Rightarrow> bool" where
  "service_ok x \<longleftrightarrow> queue_ok rq_key (nat (ec_QueueSize (ev_config (fst x)))) (map rq_key (snd x)) (ev_requests (fst x)) \<and> int (length (snd x)) \<le> ec_Workers (ev_config (fst x)) \<and>
     lru_ok (ev_cache (fst x)) \<and> lr_max (ev_cache (fst x)) = 10000"

lemma cache_Get_snd: "snd (cache_Get now key c) = snd (lru_get now key c)"
  by (cases "lru_get now key c") (simp add: cache_Get_def)

lemma cache_Get_ok: "lru_ok c \<Longrightarrow> lru_ok (snd (cache_Get now key c)) \<and> lr_max (snd (cache_Get now key c)) = lr_max c"
  using get_refines(1) [of c now key] get_max [of now key c] by (simp add: cache_Get_snd)

lemma cache_Set_ok: "lru_ok c \<Longrightarrow> lru_ok (cache_Set now key v err ttl st c) \<and> lr_max (cache_Set now key v err ttl st c) = lr_max c"
  using set_refines [of c now key "v\<lparr> er_ExpiresAt := now + ttl \<rparr>" err ttl st] by (simp add: cache_Set_def)

text \<open>What the operations do to the three parts of the invariant.\<close>

definition keeps_cache :: "enrich_service \<Rightarrow> enrich_service \<Rightarrow> bool" where
  "keeps_cache s s' \<longleftrightarrow> ev_config s' = ev_config s \<and>
     (lru_ok (ev_cache s) \<longrightarrow> lru_ok (ev_cache s') \<and> lr_max (ev_cache s') = lr_max (ev_cache s))"

lemma keeps_cache_trans: "keeps_cache a b \<Longrightarrow> keeps_cache b c \<Longrightarrow> keeps_cache a c"
  by (simp add: keeps_cache_def)

lemma keeps_get: "keeps_cache s (s\<lparr> ev_cache := snd (cache_Get now key (ev_cache s)) \<rparr>)"
  using cache_Get_ok [of "ev_cache s" now key] by (simp add: keeps_cache_def)

lemma service_Enqueue_frame:
  "keeps_cache s (snd (service_Enqueue now icao callsign s)) \<and>
   (queue_ok rq_key n held (ev_requests s) \<longrightarrow> queue_ok rq_key n held (ev_requests (snd (service_Enqueue now icao callsign s))))"
proof -
  obtain i c key where k: "NormalizeKey icao callsign = (i, c, key)" by (cases "NormalizeKey icao callsign")
  obtain hit cache where g: "cache_Get now key (ev_cache s) = (hit, cache)" by (cases "cache_Get now key (ev_cache s)")
  have gok: "keeps_cache s (s\<lparr> ev_cache := cache \<rparr>)" using keeps_get [of s now key] by (simp add: g)
  define r where "r = \<lparr> rq_ICAO = i, rq_Callsign = c, rq_key = key \<rparr>"
  obtain res q where a: "admit rq_key r (ev_requests s) = (res, q)" by (cases "admit rq_key r (ev_requests s)")
  have aok: "queue_ok rq_key n held (ev_requests s) \<Longrightarrow> queue_ok rq_key n held q"
    using admit_ok [of rq_key n held "ev_requests s" r] by (simp add: a)
  have "snd (service_Enqueue now icao callsign s) =
      (if i = [] then s else if \<exists>v e. hit = Some (v, False, e) then s\<lparr> ev_cache := cache, ev_hits := ev_hits s + 1 \<rparr>
       else s\<lparr> ev_cache := cache, ev_requests := q \<rparr>)"
    unfolding service_Enqueue_def k r_def [symmetric]
    by (cases hit) (auto simp: g r_def [symmetric] a split: bool.split)
  then show ?thesis using gok aok by (simp add: keeps_cache_def)
qed

lemma service_Enqueue_room:
  assumes "queue_ok rq_key n held (ev_requests s)"
  shows "fst (service_Enqueue now icao callsign s) \<noteq> AdmissionDropped"
proof -
  obtain i c key where k: "NormalizeKey icao callsign = (i, c, key)" by (cases "NormalizeKey icao callsign")
  obtain hit cache where g: "cache_Get now key (ev_cache s) = (hit, cache)" by (cases "cache_Get now key (ev_cache s)")
  define r where "r = \<lparr> rq_ICAO = i, rq_Callsign = c, rq_key = key \<rparr>"
  obtain res q where a: "admit rq_key r (ev_requests s) = (res, q)" by (cases "admit rq_key r (ev_requests s)")
  have "res \<noteq> AdmissionDropped" using admit_ok [OF assms, of r] by (simp add: a)
  then show ?thesis unfolding service_Enqueue_def k
    by (cases hit) (auto simp: g r_def a [unfolded r_def] Let_def split: bool.splits)
qed

lemma service_lookup_frame:
  "keeps_cache s (snd (service_lookup now later env r s)) \<and> ev_requests (snd (service_lookup now later env r s)) = ev_requests s"
proof -
  obtain hit cache where g: "cache_Get now (rq_key r) (ev_cache s) = (hit, cache)" by (cases "cache_Get now (rq_key r) (ev_cache s)")
  have gok: "keeps_cache s (s\<lparr> ev_cache := cache \<rparr>)" using keeps_get [of s now "rq_key r"] by (simp add: g)
  obtain sent outcome where o1: "lookup_attempts env 0 3 (Inr zero_enrichment) = (sent, outcome)" by (cases "lookup_attempts env 0 3 (Inr zero_enrichment)")
  obtain allowed ci where al: "circuit_allow now (ev_circuit s) = (allowed, ci)" by (cases "circuit_allow now (ev_circuit s)")
  show ?thesis
  proof (cases "\<exists>v e. hit = Some (v, False, e)")
    case True
    then show ?thesis using gok by (auto simp: service_lookup_def g keeps_cache_def)
  next
    case miss: False
    then have h: "hit = None \<or> (\<exists>v e. hit = Some (v, True, e))" by (cases hit) auto
    have c: "lru_ok (ev_cache s) \<Longrightarrow> lru_ok cache \<and> lr_max cache = lr_max (ev_cache s)" using gok by (simp add: keeps_cache_def)
    show ?thesis
    proof (cases outcome)
      case (Inl e)
      then show ?thesis using h c
        by (cases allowed; cases "lx_notFound e") (auto simp: service_lookup_def g o1 al Let_def service_notify_def keeps_cache_def cache_Set_ok)
    next
      case (Inr v)
      then show ?thesis using h c
        by (cases allowed) (auto simp: service_lookup_def g o1 al Let_def service_notify_def keeps_cache_def cache_Set_ok)
    qed
  qed
qed

lemma service_Cached_frame:
  "keeps_cache s (snd (service_Cached now icao callsign s)) \<and>
   (queue_ok rq_key n held (ev_requests s) \<longrightarrow> queue_ok rq_key n held (ev_requests (snd (service_Cached now icao callsign s))))"
proof -
  obtain i c key where k: "NormalizeKey icao callsign = (i, c, key)" by (cases "NormalizeKey icao callsign")
  obtain hit cache where g: "cache_Get now key (ev_cache s) = (hit, cache)" by (cases "cache_Get now key (ev_cache s)")
  have gok: "keeps_cache s (s\<lparr> ev_cache := cache \<rparr>)" using keeps_get [of s now key] by (simp add: g)
  define s2 where "s2 = s\<lparr> ev_cache := cache, ev_hits := ev_hits s + 1 \<rparr>"
  have k2: "keeps_cache s s2" "ev_requests s2 = ev_requests s" using gok by (simp_all add: s2_def keeps_cache_def)
  have "snd (service_Cached now icao callsign s) = s\<lparr> ev_cache := cache, ev_misses := ev_misses s + 1 \<rparr> \<or>
      snd (service_Cached now icao callsign s) = s2 \<or> snd (service_Cached now icao callsign s) = snd (service_Enqueue now icao callsign s2)"
    by (cases hit) (auto simp: service_Cached_def k g s2_def Let_def)
  moreover have "keeps_cache s (s\<lparr> ev_cache := cache, ev_misses := ev_misses s + 1 \<rparr>)" using gok by (simp add: keeps_cache_def)
  ultimately show ?thesis using k2 service_Enqueue_frame [of s2 now icao callsign n held] keeps_cache_trans [OF k2(1)] by auto
qed

lemma service_Lookup_frame:
  "keeps_cache s (snd (service_Lookup now later env icao callsign s)) \<and> ev_requests (snd (service_Lookup now later env icao callsign s)) = ev_requests s"
proof -
  obtain i c key where k: "NormalizeKey icao callsign = (i, c, key)" by (cases "NormalizeKey icao callsign")
  obtain hit cache where g: "cache_Get now key (ev_cache s) = (hit, cache)" by (cases "cache_Get now key (ev_cache s)")
  have gok: "keeps_cache s (s\<lparr> ev_cache := cache \<rparr>)" using keeps_get [of s now key] by (simp add: g)
  define r where "r = \<lparr> rq_ICAO = i, rq_Callsign = c, rq_key = key \<rparr>"
  define s2 where "s2 = s\<lparr> ev_cache := cache, ev_misses := ev_misses s + 1 \<rparr>"
  have k2: "keeps_cache s s2" "ev_requests s2 = ev_requests s" using gok by (simp_all add: s2_def keeps_cache_def)
  have "snd (service_Lookup now later env icao callsign s) = s\<lparr> ev_cache := cache, ev_hits := ev_hits s + 1 \<rparr> \<or>
      snd (service_Lookup now later env icao callsign s) = snd (service_lookup now later env r s2)"
    by (cases hit) (auto simp: service_Lookup_def k g s2_def r_def Let_def split: bool.split)
  moreover have "keeps_cache s (s\<lparr> ev_cache := cache, ev_hits := ev_hits s + 1 \<rparr>)" using gok by (simp add: keeps_cache_def)
  ultimately show ?thesis using k2 service_lookup_frame [of s2 now later env r] keeps_cache_trans [OF k2(1)] by auto
qed

lemma remove1_keys:
  "distinct (map key xs) \<Longrightarrow> x \<in> set xs \<Longrightarrow> map key (remove1 x xs) = filter (\<lambda>k. k \<notin> set [key x]) (map key xs)"
proof (induction xs)
  case (Cons y ys)
  have "filter (\<lambda>k. k \<noteq> key y) (map key ys) = map key ys" using Cons.prems(1) by (auto intro!: filter_True)
  then show ?case using Cons by auto
qed simp

lemma service_step_ok: "service_step x y \<Longrightarrow> service_ok x \<Longrightarrow> service_ok y"
proof (induction rule: service_step.induct)
  case (enqueue s held now icao callsign)
  then show ?case using service_Enqueue_frame [of s now icao callsign "nat (ec_QueueSize (ev_config s))" "map rq_key held"] by (simp add: service_ok_def keeps_cache_def)
next
  case (cached s held now icao callsign)
  then show ?case using service_Cached_frame [of s now icao callsign "nat (ec_QueueSize (ev_config s))" "map rq_key held"] by (simp add: service_ok_def keeps_cache_def)
next
  case (lookup s held now later env icao callsign)
  then show ?case using service_Lookup_frame [of s now later env icao callsign] by (simp add: service_ok_def keeps_cache_def)
next
  case (receive s request q held)
  then show ?case using take_ok [of rq_key "nat (ec_QueueSize (ev_config s))" "map rq_key held" "ev_requests s" request q] by (simp add: service_ok_def)
next
  case (work request held s now later env)
  then show ?case using service_lookup_frame [of s now later env request] by (simp add: service_ok_def keeps_cache_def)
next
  case (finish request held s)
  have d: "distinct (map rq_key held)" using finish.prems by (simp add: service_ok_def queue_ok_def)
  have "map rq_key (remove1 request held) = filter (\<lambda>k. k \<notin> set [rq_key request]) (map rq_key held)"
    using d finish.hyps by (rule remove1_keys)
  then show ?case using finish clear_ok [of rq_key "nat (ec_QueueSize (ev_config s))" "map rq_key held" "ev_requests s" "[rq_key request]"]
    by (auto simp: service_ok_def length_remove1)
qed

text \<open>
  C34. Background lookups are never duplicated or forgotten. In every state the metadata service
  reaches, under any interleaving of its callers and its workers, the keys recorded as pending
  are exactly the keys queued or held by a worker, each once; the queue, the workers and the
  cache keep to their limits; and a lookup asked for then is never refused for want of room.
\<close>

theorem enrichment_queue_exact:
  assumes "service_step\<^sup>*\<^sup>* (NewService start config, []) (s, held)"
  shows "distinct (map rq_key (held @ pq_queue (ev_requests s))) \<and>
    rq_key ` set (held @ pq_queue (ev_requests s)) = dom (map_of (pq_pending (ev_requests s))) \<and>
    int (length (pq_queue (ev_requests s))) \<le> ec_QueueSize (ev_config s) \<and> int (length held) \<le> ec_Workers (ev_config s) \<and>
    lru_len (ev_cache s) \<le> 10000 \<and> fst (service_Enqueue now icao callsign s) \<noteq> AdmissionDropped"
proof -
  have start: "service_ok (NewService start config, [])"
    by (auto simp: service_ok_def queue_ok_def NewService_def new_queue_def NewCache_def newTTLLRU_def lru_ok_def gm_wf_def Let_def)
  have ok: "service_ok (s, held)"
    using assms start by (induction rule: rtranclp_induct) (auto intro: service_step_ok)
  then have q: "queue_ok rq_key (nat (ec_QueueSize (ev_config s))) (map rq_key held) (ev_requests s)" and w: "int (length held) \<le> ec_Workers (ev_config s)"
    and c: "lru_ok (ev_cache s)" "lr_max (ev_cache s) = 10000" by (simp_all add: service_ok_def)
  have "lru_len (ev_cache s) \<le> 10000" using c lru_length [of "ev_cache s"] by (simp add: lru_ok_def lru_len_def)
  moreover have "int (length (pq_queue (ev_requests s))) \<le> ec_QueueSize (ev_config s)" using q unfolding queue_ok_def by linarith
  moreover have "distinct (map rq_key (held @ pq_queue (ev_requests s)))" using q by (simp add: queue_ok_def)
  moreover have "rq_key ` set (held @ pq_queue (ev_requests s)) = dom (map_of (pq_pending (ev_requests s)))" using q by (simp add: queue_ok_def image_Un)
  ultimately show ?thesis using w service_Enqueue_room [OF q] by simp
qed

section \<open>The route service\<close>

definition valid_callsign :: "string \<Rightarrow> bool" where
  "valid_callsign v \<longleftrightarrow> 2 \<le> length v \<and> length v \<le> 12 \<and> list_all code_char v"

definition valid_airport_code :: "string \<Rightarrow> bool" where
  "valid_airport_code v \<longleftrightarrow> length v = 4 \<and> list_all code_char v"

definition valid_request :: "route_request \<Rightarrow> bool" where
  "valid_request r \<longleftrightarrow> valid_callsign (rr_Callsign r) \<and> - 90 \<le> rr_Latitude r \<and> rr_Latitude r \<le> 90 \<and> - 180 \<le> rr_Longitude r \<and> rr_Longitude r \<le> 180"

lemma NormalizeCallsign_valid: "NormalizeCallsign v = Some c \<Longrightarrow> valid_callsign c"
  by (auto simp: NormalizeCallsign_def valid_callsign_def Let_def split: if_splits)

lemma NormalizeAirportCode_valid: "NormalizeAirportCode v = Some c \<Longrightarrow> valid_airport_code c"
  by (auto simp: NormalizeAirportCode_def valid_airport_code_def Let_def split: if_splits)

lemma normalizeRouteRequest_valid: "normalizeRouteRequest r = Some r' \<Longrightarrow> valid_request r'"
  by (auto simp: normalizeRouteRequest_def valid_request_def dest: NormalizeCallsign_valid split: option.splits if_splits)

text \<open>A cache whose entries all satisfy a predicate of the key, the value and the error.\<close>

definition cache_holds :: "(string \<Rightarrow> 'v \<Rightarrow> lookup_error option \<Rightarrow> bool) \<Rightarrow> 'v lru \<Rightarrow> bool" where
  "cache_holds P c \<longleftrightarrow> (\<forall>k e. map_of (lr_entries c) k = Some e \<longrightarrow> P k (lu_value e) (lu_err e))"

lemma cache_holds_get: "cache_holds P c \<Longrightarrow> cache_holds P (snd (lru_get now key c))"
  by (auto simp: cache_holds_def lru_get_def lru_remove_def lru_front_def split: option.splits if_splits)

lemma cache_holds_trim: "cache_holds P c \<Longrightarrow> cache_holds P (lru_trim c)"
proof (induction c rule: lru_trim.induct)
  case (1 c)
  have "cache_holds P (lru_remove (last (lr_order c)) c)" using 1(2) by (auto simp: cache_holds_def lru_remove_def split: if_splits)
  then show ?case using 1 by (subst lru_trim.simps) simp
qed

lemma cache_holds_set:
  assumes "cache_holds P c" "P key v err"
  shows "cache_holds P (lru_set now key v err ttl st c)"
  using assms by (auto simp: lru_set_def Let_def lru_front_def cache_holds_def split: if_splits intro!: cache_holds_trim [unfolded cache_holds_def])

definition route_entry :: "string \<Rightarrow> route \<Rightarrow> lookup_error option \<Rightarrow> bool" where
  "route_entry k v err \<longleftrightarrow> valid_callsign k \<and> (err = None \<longrightarrow> rt_Callsign v = k)"

definition airport_entry :: "string \<Rightarrow> airport \<Rightarrow> lookup_error option \<Rightarrow> bool" where
  "airport_entry k v err \<longleftrightarrow> valid_airport_code k \<and> (err = None \<longrightarrow> ap_ICAO v = k)"

text \<open>The invariant, with the batch and the codes the loop works on.\<close>

definition rs_ok :: "route_request list \<Rightarrow> string list \<Rightarrow> route_service \<Rightarrow> bool" where
  "rs_ok batch held s \<longleftrightarrow> cache_holds route_entry (rs_routes s) \<and> cache_holds airport_entry (rs_airports s) \<and>
     queue_ok rr_Callsign (nat (rf_QueueSize (rs_config s))) (map rr_Callsign batch) (rs_routeQueue s) \<and>
     list_all valid_request (batch @ pq_queue (rs_routeQueue s)) \<and>
     queue_ok (\<lambda>c. c) (nat (rf_AirportQueueSize (rs_config s))) held (rs_airportQueue s) \<and>
     list_all valid_airport_code (held @ pq_queue (rs_airportQueue s)) \<and>
     length batch \<le> 50 \<and> 1 \<le> rf_BatchSize (rs_config s) \<and> rf_BatchSize (rs_config s) \<le> 50"

lemma rs_ok_counters [simp]:
  "rs_ok b c (s\<lparr> rs_hits := x \<rparr>) = rs_ok b c s" "rs_ok b c (s\<lparr> rs_misses := x \<rparr>) = rs_ok b c s"
  "rs_ok b c (s\<lparr> rs_requests := x \<rparr>) = rs_ok b c s" "rs_ok b c (s\<lparr> rs_failures := x \<rparr>) = rs_ok b c s"
  "rs_ok b c (s\<lparr> rs_circuitRejects := x \<rparr>) = rs_ok b c s" "rs_ok b c (s\<lparr> rs_batches := x \<rparr>) = rs_ok b c s"
  "rs_ok b c (s\<lparr> rs_circuit := y \<rparr>) = rs_ok b c s" "rs_ok b c (s\<lparr> rs_prefetchCursor := n \<rparr>) = rs_ok b c s"
  by (simp_all add: rs_ok_def)

lemma rs_ok_routes: "rs_ok b c s \<Longrightarrow> cache_holds route_entry r \<Longrightarrow> rs_ok b c (s\<lparr> rs_routes := r \<rparr>)"
  by (simp add: rs_ok_def)

lemma rs_ok_airports: "rs_ok b c s \<Longrightarrow> cache_holds airport_entry r \<Longrightarrow> rs_ok b c (s\<lparr> rs_airports := r \<rparr>)"
  by (simp add: rs_ok_def)

lemma rs_ok_get_route: "rs_ok b c s \<Longrightarrow> lru_get now key (rs_routes s) = (hit, r) \<Longrightarrow> rs_ok b c (s\<lparr> rs_routes := r \<rparr>)"
  using cache_holds_get [of route_entry "rs_routes s" now key] by (simp add: rs_ok_def)

lemma rs_ok_get_airport: "rs_ok b c s \<Longrightarrow> lru_get now key (rs_airports s) = (hit, r) \<Longrightarrow> rs_ok b c (s\<lparr> rs_airports := r \<rparr>)"
  using cache_holds_get [of airport_entry "rs_airports s" now key] by (simp add: rs_ok_def)

lemma admit_subset: "set (pq_queue (snd (admit key r q))) \<subseteq> insert r (set (pq_queue q))"
  by (auto simp: admit_def Let_def split: list.splits if_splits)

lemma rs_ok_admit_route:
  assumes "rs_ok b c s" "valid_request r" "admit rr_Callsign r (rs_routeQueue s) = (res, q)"
  shows "rs_ok b c (s\<lparr> rs_routeQueue := q \<rparr>)"
proof -
  note a = admit_ok [of rr_Callsign _ "map rr_Callsign b" "rs_routeQueue s" r, unfolded assms(3), simplified]
  have "list_all valid_request (pq_queue q)"
    using admit_subset [of rr_Callsign r "rs_routeQueue s"] assms by (auto simp: rs_ok_def list_all_iff)
  then show ?thesis using a assms(1) by (simp add: rs_ok_def)
qed

lemma rs_ok_admit_airport:
  assumes "rs_ok b c s" "valid_airport_code r" "admit (\<lambda>c. c) r (rs_airportQueue s) = (res, q)"
  shows "rs_ok b c (s\<lparr> rs_airportQueue := q \<rparr>)"
proof -
  note a = admit_ok [of "\<lambda>c. c" _ c "rs_airportQueue s" r, unfolded assms(3), simplified]
  have "list_all valid_airport_code (pq_queue q)"
    using admit_subset [of "\<lambda>c. c" r "rs_airportQueue s"] assms by (auto simp: rs_ok_def list_all_iff)
  then show ?thesis using a assms(1) by (simp add: rs_ok_def)
qed

lemma rs_ok_miss_route:
  assumes "rs_ok b c s" "lru_get now key (rs_routes s) = (hit, r)" "valid_request x" "admit rr_Callsign x (rs_routeQueue s) = (res, q)"
  shows "rs_ok b c (s\<lparr> rs_routes := r, rs_routeQueue := q \<rparr>)"
  using rs_ok_admit_route [OF rs_ok_get_route [OF assms(1,2)] assms(3)] assms(4) by simp

lemma rs_ok_miss_airport:
  assumes "rs_ok b c s" "lru_get now key (rs_airports s) = (hit, r)" "valid_airport_code x" "admit (\<lambda>c. c) x (rs_airportQueue s) = (res, q)"
  shows "rs_ok b c (s\<lparr> rs_airports := r, rs_airportQueue := q \<rparr>)"
  using rs_ok_admit_airport [OF rs_ok_get_airport [OF assms(1,2)] assms(3)] assms(4) by simp

lemma EnqueueRoute_ok: "rs_ok b c s \<Longrightarrow> rs_ok b c (snd (EnqueueRoute now request s))"
  by (auto simp: EnqueueRoute_def Let_def dest!: normalizeRouteRequest_valid intro: rs_ok_get_route rs_ok_miss_route split: option.split prod.split bool.split)

lemma EnqueueAirport_ok: "rs_ok b c s \<Longrightarrow> rs_ok b c (snd (EnqueueAirport now code s))"
  by (auto simp: EnqueueAirport_def Let_def dest!: NormalizeAirportCode_valid intro: rs_ok_get_airport rs_ok_miss_airport split: option.split prod.split bool.split)

lemma prefetch_loop_ok:
  "rs_ok b c s \<Longrightarrow> rs_ok b c (snd (snd (prefetch_loop now aircraft start scanLimit limit examined queued s)))"
proof (induction now aircraft start scanLimit limit examined queued s rule: prefetch_loop.induct)
  case (1 now aircraft start scanLimit limit examined queued s)
  define item where "item = aircraft ! ((start + examined) mod length aircraft)"
  define r where "r = \<lparr> rr_Callsign = ac_Callsign item, rr_Latitude = ac_Latitude item, rr_Longitude = ac_Longitude item \<rparr>"
  obtain result s' where e: "EnqueueRoute now r s = (result, s')" by (cases "EnqueueRoute now r s")
  have "rs_ok b c s'" using EnqueueRoute_ok [OF 1(3), of now r] by (simp add: e)
  note IH = 1(2) [OF _ item_def _ e [unfolded r_def, symmetric] refl this]
  show ?case
  proof (cases "\<not> examined < scanLimit \<or> queued \<ge> limit")
    case True
    then show ?thesis using 1(3) by (subst prefetch_loop.simps) simp
  next
    case False
    note unfold = prefetch_loop.simps [of now aircraft start scanLimit limit examined queued s, unfolded Let_def, folded item_def, folded r_def]
    show ?thesis
      using False 1(1) [OF False item_def _ 1(3)] IH [OF False] by (cases "ac_HasPosition item") (simp_all add: unfold e)
  qed
qed

lemma Prefetch_ok: "rs_ok b c s \<Longrightarrow> rs_ok b c (snd (Prefetch now aircraft s))"
  using prefetch_loop_ok [of b c s now aircraft] by (auto simp: Prefetch_def Let_def split: prod.split) (metis snd_conv)

lemma CachedRoute_ok: "rs_ok b c s \<Longrightarrow> rs_ok b c (snd (CachedRoute now callsign s))"
  by (auto simp: CachedRoute_def Let_def intro: rs_ok_get_route split: option.split prod.split)

lemma CachedAirport_ok: "rs_ok b c s \<Longrightarrow> rs_ok b c (snd (CachedAirport now code s))"
  by (auto simp: CachedAirport_def Let_def intro: rs_ok_get_airport split: option.split prod.split)

lemma rs_ok_set_route:
  assumes "rs_ok b c s" "valid_callsign key" "err = None \<Longrightarrow> rt_Callsign v = key"
  shows "rs_ok b c (s\<lparr> rs_routes := lru_set now key v err ttl st (rs_routes s) \<rparr>)"
  using assms by (intro rs_ok_routes cache_holds_set) (auto simp: rs_ok_def route_entry_def)

lemma rs_ok_set_airport:
  assumes "rs_ok b c s" "valid_airport_code key" "err = None \<Longrightarrow> ap_ICAO v = key"
  shows "rs_ok b c (s\<lparr> rs_airports := lru_set now key v err ttl st (rs_airports s) \<rparr>)"
  using assms by (intro rs_ok_airports cache_holds_set) (auto simp: rs_ok_def airport_entry_def)

lemma cacheRouteAirports_ok: "rs_ok b c s \<Longrightarrow> rs_ok b c (cacheRouteAirports now r s)"
  unfolding cacheRouteAirports_def Let_def
  by (rule fold_invariant [where Q = "\<lambda>_. True"])
    (auto simp: cache_airport_def dest: NormalizeAirportCode_valid intro!: rs_ok_set_airport split: option.split)

lemma store_route_ok:
  assumes "rs_ok b c s" "valid_callsign (rr_Callsign request)"
  shows "rs_ok b c (store_route now routes request s)"
  using assms by (auto simp: store_route_def Let_def intro!: rs_ok_set_route cacheRouteAirports_ok split: option.split)

lemma missing_routes_ok:
  assumes "rs_ok b c s" "missing_routes now requests s = (missing, s')"
  shows "rs_ok b c s' \<and> set missing \<subseteq> set requests"
  using assms
proof (induction requests arbitrary: s missing s')
  case (Cons request rest)
  obtain hit r where g: "lru_get now (rr_Callsign request) (rs_routes s) = (hit, r)" by (cases "lru_get now (rr_Callsign request) (rs_routes s)")
  obtain m1 s1 where m: "missing_routes now rest (s\<lparr> rs_routes := r \<rparr>) = (m1, s1)" by (cases "missing_routes now rest (s\<lparr> rs_routes := r \<rparr>)")
  have "rs_ok b c s1 \<and> set m1 \<subseteq> set rest" using Cons.IH [OF rs_ok_get_route [OF Cons.prems(1) g] m] .
  moreover have "s' = s1" "set missing \<subseteq> insert request (set m1)" using Cons.prems(2) by (auto simp: g m split: option.splits bool.splits)
  ultimately show ?case by auto
qed simp

lemma recordFailure_ok: "rs_ok b c (recordFailure now e s) = rs_ok b c s"
  by (simp add: recordFailure_def Let_def)

lemma fetchRoutes_ok:
  assumes ok: "rs_ok b c s" and valid: "list_all valid_request requests"
  shows "rs_ok b c (snd (fetchRoutes now later env requests s))"
proof -
  obtain missing s1 where m: "missing_routes now requests s = (missing, s1)" by (cases "missing_routes now requests s")
  have ok1: "rs_ok b c s1" and v: "r \<in> set missing \<Longrightarrow> valid_callsign (rr_Callsign r)" for r
    using missing_routes_ok [OF ok m] valid by (auto simp: list_all_iff valid_request_def)
  obtain allowed ci where al: "circuit_allow now (rs_circuit s1) = (allowed, ci)" by (cases "circuit_allow now (rs_circuit s1)")
  obtain sent outcome where o1: "request_attempts (rs_config s) (\<lambda>_. False) env 0 (nat (rf_MaxAttempts (rs_config s))) (Inr []) = (sent, outcome)"
    by (cases "request_attempts (rs_config s) (\<lambda>_. False) env 0 (nat (rf_MaxAttempts (rs_config s))) (Inr [])")
  have errors: "rs_ok b c (fold (\<lambda>r s. s\<lparr> rs_routes := lru_set later (rr_Callsign r) zero_route (Some e) (rf_ErrorTTL (rs_config s)) 0 (rs_routes s) \<rparr>) missing s')"
    if "rs_ok b c s'" for e s'
    by (rule fold_invariant [where Q = "\<lambda>r. r \<in> set missing"]) (use that v in \<open>auto intro: rs_ok_set_route\<close>)
  have stored: "rs_ok b c (fold (store_route later routes) missing s')" if "rs_ok b c s'" for routes s'
    by (rule fold_invariant [where Q = "\<lambda>r. r \<in> set missing"]) (use that v in \<open>auto intro: store_route_ok\<close>)
  show ?thesis
    using ok1 errors stored
    by (cases outcome; cases "missing = []"; cases allowed) (simp_all add: fetchRoutes_def m al o1 Let_def recordFailure_ok)
qed

lemma fetchAirport_ok:
  assumes ok: "rs_ok b c s" and code: "valid_airport_code code"
  shows "rs_ok b c (snd (fetchAirport now later env code s))"
proof -
  obtain hit r where g: "lru_get now code (rs_airports s) = (hit, r)" by (cases "lru_get now code (rs_airports s)")
  define s1 where "s1 = s\<lparr> rs_airports := r \<rparr>"
  have ok1: "rs_ok b c s1" using rs_ok_get_airport [OF ok g] by (simp add: s1_def)
  obtain allowed ci where al: "circuit_allow now (rs_circuit s) = (allowed, ci)" by (cases "circuit_allow now (rs_circuit s)")
  define s3 where "s3 sent = s1\<lparr> rs_circuit := ci, rs_requests := rs_requests s1 + of_nat sent \<rparr>" for sent
  have ok3: "rs_ok b c (s3 sent)" for sent using ok1 by (simp add: s3_def)
  have ok4: "rs_ok b c (recordFailure later e (s3 sent))" for e sent using ok3 by (simp add: recordFailure_ok)
  have set3: "rs_ok b c (s3 sent \<lparr> rs_circuit := circuit_success (rs_circuit (s3 sent)), rs_airports := lru_set later code v err ttl st (rs_airports (s3 sent)) \<rparr>)"
    if "err = None \<Longrightarrow> ap_ICAO v = code" for sent v err ttl st
    using rs_ok_set_airport [OF _ code that, of b c "s3 sent \<lparr> rs_circuit := circuit_success (rs_circuit (s3 sent)) \<rparr>"] ok3 by simp
  obtain sent outcome where o1: "request_attempts (rs_config s) lx_notFound env 0 (nat (rf_MaxAttempts (rs_config s))) (Inr zero_airport) = (sent, outcome)"
    by (cases "request_attempts (rs_config s) lx_notFound env 0 (nat (rf_MaxAttempts (rs_config s))) (Inr zero_airport)")
  consider v e where "hit = Some (v, False, e)" | "hit = None \<or> (\<exists>v e. hit = Some (v, True, e))" by (cases hit) auto
  then show ?thesis
  proof cases
    case 1
    then show ?thesis using ok1 by (simp add: fetchAirport_def g s1_def Let_def)
  next
    case 2
    have "snd (fetchAirport now later env code s) =
        (if \<not> allowed then s1\<lparr> rs_circuit := ci, rs_circuitRejects := rs_circuitRejects s1 + 1 \<rparr>
         else case outcome of
           Inl e \<Rightarrow>
             if lx_notFound e then
               s3 sent \<lparr> rs_circuit := circuit_success (rs_circuit (s3 sent)),
                  rs_airports := lru_set later code zero_airport (Some ErrNotFoundEnrichment) (rf_NotFoundTTL (rs_config s)) 0 (rs_airports (s3 sent)) \<rparr>
             else if lx_canceled e then s3 sent
             else recordFailure later e (s3 sent) \<lparr> rs_airports := lru_set later code zero_airport (Some e) (rf_ErrorTTL (rs_config s)) 0 (rs_airports (recordFailure later e (s3 sent))) \<rparr>
         | Inr a \<Rightarrow>
             s3 sent \<lparr> rs_circuit := circuit_success (rs_circuit (s3 sent)),
                rs_airports := lru_set later code
                  (a\<lparr> ap_ICAO := code, ap_FetchedAt := later, ap_ExpiresAt := later + rf_AirportTTL (rs_config s), ap_Stale := False \<rparr>) None
                  (rf_AirportTTL (rs_config s)) (rf_StaleTTL (rs_config s)) (rs_airports (s3 sent)) \<rparr>)"
      using 2 unfolding fetchAirport_def by (elim disjE exE) (auto simp: g al o1 s3_def s1_def Let_def split: sum.split)
    then show ?thesis
      using ok1 ok3 by (cases outcome) (auto intro!: set3 rs_ok_set_airport [OF ok4 code])
  qed
qed

lemma LookupRoute_ok: "rs_ok b c s \<Longrightarrow> rs_ok b c (snd (LookupRoute now later env request s))"
proof (cases "normalizeRouteRequest request")
  case (Some r)
  assume ok: "rs_ok b c s"
  obtain hit rr where g: "lru_get now (rr_Callsign r) (rs_routes s) = (hit, rr)" by (cases "lru_get now (rr_Callsign r) (rs_routes s)")
  have ok1: "rs_ok b c (s\<lparr> rs_routes := rr, rs_hits := x \<rparr>)" "rs_ok b c (s\<lparr> rs_routes := rr, rs_misses := x \<rparr>)" for x
    using rs_ok_get_route [OF ok g] by simp_all
  define s2 where "s2 = s\<lparr> rs_routes := rr, rs_misses := rs_misses s + 1 \<rparr>"
  obtain err s3 where f: "fetchRoutes now later env [r] s2 = (err, s3)" by (cases "fetchRoutes now later env [r] s2")
  have ok3: "rs_ok b c s3"
    using fetchRoutes_ok [of b c s2 "[r]" now later env] ok1(2) normalizeRouteRequest_valid [OF Some] by (simp add: f [unfolded s2_def] s2_def)
  show ?thesis
    using ok1(1) ok3 EnqueueRoute_ok [OF ok1(1)]
    by (cases hit; cases err) (auto simp: LookupRoute_def Some g f [unfolded s2_def] Let_def intro: rs_ok_get_route split: prod.split)
qed (simp add: LookupRoute_def)

lemma LookupAirport_ok: "rs_ok b c s \<Longrightarrow> rs_ok b c (snd (LookupAirport now later env code s))"
proof (cases "NormalizeAirportCode code")
  case (Some r)
  assume ok: "rs_ok b c s"
  obtain hit rr where g: "lru_get now r (rs_airports s) = (hit, rr)" by (cases "lru_get now r (rs_airports s)")
  have ok1: "rs_ok b c (s\<lparr> rs_airports := rr, rs_hits := x \<rparr>)" "rs_ok b c (s\<lparr> rs_airports := rr, rs_misses := x \<rparr>)" for x
    using rs_ok_get_airport [OF ok g] by simp_all
  define s2 where "s2 = s\<lparr> rs_airports := rr, rs_misses := rs_misses s + 1 \<rparr>"
  obtain err s3 where f: "fetchAirport now later env r s2 = (err, s3)" by (cases "fetchAirport now later env r s2")
  have ok3: "rs_ok b c s3"
    using fetchAirport_ok [of b c s2 r now later env] ok1(2) NormalizeAirportCode_valid [OF Some] by (simp add: f [unfolded s2_def] s2_def)
  show ?thesis
    using ok1(1) ok3 EnqueueAirport_ok [OF ok1(1)]
    by (cases hit; cases err) (auto simp: LookupAirport_def Some g f [unfolded s2_def] Let_def intro: rs_ok_get_airport split: prod.split)
qed (simp add: LookupAirport_def)

lemma collect_ok:
  assumes ok: "rs_ok [] c s" and t: "take_request (rs_routeQueue s) = Some (request, q)"
    and col: "collectRouteBatch arriving request (s\<lparr> rs_routeQueue := q \<rparr>) = (batch, s')"
  shows "rs_ok batch c s'"
proof -
  define n where "n = min arriving (nat (rf_BatchSize (rs_config s)) - 1)"
  have q: "pq_queue (rs_routeQueue s) = request # pq_queue q" "q = rs_routeQueue s\<lparr> pq_queue := pq_queue q \<rparr>"
    using t by (auto simp: take_request_def split: list.splits)
  have b: "batch = request # take n (pq_queue q)" "s' = s\<lparr> rs_routeQueue := q\<lparr> pq_queue := drop n (pq_queue q) \<rparr> \<rparr>"
    using col by (auto simp: collectRouteBatch_def n_def Let_def)
  have keys: "map rr_Callsign (request # take n (pq_queue q)) @ map rr_Callsign (drop n (pq_queue q)) = map rr_Callsign (pq_queue (rs_routeQueue s))"
    unfolding q(1) by (simp flip: map_append)
  have all: "(request # take n (pq_queue q)) @ drop n (pq_queue q) = pq_queue (rs_routeQueue s)" unfolding q(1) by simp
  have pend: "pq_pending q = pq_pending (rs_routeQueue s)" "pq_capacity q = pq_capacity (rs_routeQueue s)" by (subst q(2); simp)+
  have "length batch \<le> 50" using ok unfolding b(1) n_def rs_ok_def by auto
  moreover have "queue_ok rr_Callsign (nat (rf_QueueSize (rs_config s))) (map rr_Callsign batch) (q\<lparr> pq_queue := drop n (pq_queue q) \<rparr>)"
  proof -
    have ok0: "queue_ok rr_Callsign (nat (rf_QueueSize (rs_config s))) [] (rs_routeQueue s)" using ok by (simp add: rs_ok_def)
    have len: "length (drop n (pq_queue q)) \<le> length (pq_queue (rs_routeQueue s))" by (simp add: q(1))
    have sel: "pq_queue (q\<lparr> pq_queue := drop n (pq_queue q) \<rparr>) = drop n (pq_queue q)" "pq_pending (q\<lparr> pq_queue := drop n (pq_queue q) \<rparr>) = pq_pending q"
      "pq_capacity (q\<lparr> pq_queue := drop n (pq_queue q) \<rparr>) = pq_capacity q" by simp_all
    show ?thesis unfolding queue_ok_def sel pend b(1) keys using ok0 len unfolding queue_ok_def append_Nil by linarith
  qed
  moreover have "list_all valid_request (batch @ drop n (pq_queue q))" using ok unfolding b(1) all rs_ok_def by simp
  ultimately show ?thesis using ok unfolding b(2) rs_ok_def by simp
qed

lemma clear_batch:
  assumes "rs_ok batch c s"
  shows "rs_ok [] c (s\<lparr> rs_routeQueue := clear_requests (map rr_Callsign batch) (rs_routeQueue s) \<rparr>)"
proof -
  have "queue_ok rr_Callsign (nat (rf_QueueSize (rs_config s))) [] (clear_requests (map rr_Callsign batch) (rs_routeQueue s))"
    using clear_ok [of rr_Callsign "nat (rf_QueueSize (rs_config s))" "map rr_Callsign batch" "rs_routeQueue s" "map rr_Callsign batch"] assms
    by (simp add: rs_ok_def filter_empty_conv)
  then show ?thesis using assms by (simp add: rs_ok_def clear_requests_def)
qed

lemma clear_code:
  assumes "rs_ok b [code] s"
  shows "rs_ok b [] (s\<lparr> rs_airportQueue := clear_requests [code] (rs_airportQueue s) \<rparr>)"
proof -
  have "queue_ok (\<lambda>c. c) (nat (rf_AirportQueueSize (rs_config s))) [] (clear_requests [code] (rs_airportQueue s))"
    using clear_ok [of "\<lambda>c. c" "nat (rf_AirportQueueSize (rs_config s))" "[code]" "rs_airportQueue s" "[code]"] assms by (simp add: rs_ok_def)
  then show ?thesis using assms by (simp add: rs_ok_def clear_requests_def)
qed

lemma route_step_ok: "route_step x y \<Longrightarrow> rs_ok (wk_batch (snd x)) (wk_codes (snd x)) (fst x) \<Longrightarrow> rs_ok (wk_batch (snd y)) (wk_codes (snd y)) (fst y)"
proof (induction rule: route_step.induct)
  case (receive_airport k s code q)
  have "queue_ok (\<lambda>c. c) (nat (rf_AirportQueueSize (rs_config s))) [code] q"
    using take_ok [OF _ receive_airport(3), of "\<lambda>c. c" "nat (rf_AirportQueueSize (rs_config s))" "[]"] receive_airport by (simp add: rs_ok_def)
  moreover have "list_all valid_airport_code (code # pq_queue q)"
    using receive_airport by (auto simp: rs_ok_def take_request_def split: list.splits)
  ultimately show ?case using receive_airport(1,2,4) by (simp add: rs_ok_def)
next
  case (fetch_routes k s now later env)
  have "list_all valid_request (wk_batch k)" using fetch_routes(2) by (simp add: rs_ok_def)
  then show ?case using clear_batch [OF fetchRoutes_ok] fetch_routes(2) by simp
next
  case (fetch_airport k code s now later env)
  have "valid_airport_code code" using fetch_airport by (simp add: rs_ok_def)
  then show ?case using clear_code [OF fetchAirport_ok] fetch_airport by simp
qed (auto intro: Prefetch_ok EnqueueRoute_ok EnqueueAirport_ok CachedRoute_ok CachedAirport_ok LookupRoute_ok LookupAirport_ok collect_ok)

lemma NewRouteService_ok: "rs_ok [] [] (NewRouteService now config)"
  by (auto simp: rs_ok_def NewRouteService_def normalizeRouteConfig_def DefaultRouteConfig_def MaxRouteBatchSize_def positive_or_def Let_def
    queue_ok_def new_queue_def cache_holds_def newTTLLRU_def)

text \<open>
  C35. The route caches are well typed. In every state the route service reaches, every cached
  route is kept under a normalised callsign, two to twelve capital letters or digits, and a
  route that was found bears that callsign; every cached airport under a code of four, its
  own; every request queued or being fetched is normalised, with a position on the globe, and
  recorded as pending exactly once; and no batch is longer than fifty.
\<close>

theorem route_service_typed:
  assumes "route_step\<^sup>*\<^sup>* (NewRouteService start config, \<lparr> wk_batch = [], wk_codes = [] \<rparr>) (s, k)"
  shows "(\<forall>c e. map_of (lr_entries (rs_routes s)) c = Some e \<longrightarrow> valid_callsign c \<and> (lu_err e = None \<longrightarrow> rt_Callsign (lu_value e) = c)) \<and>
    (\<forall>c e. map_of (lr_entries (rs_airports s)) c = Some e \<longrightarrow> valid_airport_code c \<and> (lu_err e = None \<longrightarrow> ap_ICAO (lu_value e) = c)) \<and>
    list_all valid_request (wk_batch k @ pq_queue (rs_routeQueue s)) \<and> list_all valid_airport_code (wk_codes k @ pq_queue (rs_airportQueue s)) \<and>
    distinct (map rr_Callsign (wk_batch k @ pq_queue (rs_routeQueue s))) \<and>
    dom (map_of (pq_pending (rs_routeQueue s))) = rr_Callsign ` set (wk_batch k @ pq_queue (rs_routeQueue s)) \<and>
    length (wk_batch k) \<le> 50"
proof -
  have "rs_ok (wk_batch (snd (s, k))) (wk_codes (snd (s, k))) (fst (s, k))"
    using assms by (induction rule: rtranclp_induct) (auto simp: NewRouteService_ok dest: route_step_ok)
  then have ok: "rs_ok (wk_batch k) (wk_codes k) s" by simp
  have "dom (map_of (pq_pending (rs_routeQueue s))) = rr_Callsign ` set (wk_batch k @ pq_queue (rs_routeQueue s))"
    using ok by (auto simp: rs_ok_def queue_ok_def)
  then show ?thesis using ok unfolding rs_ok_def queue_ok_def cache_holds_def route_entry_def airport_entry_def by simp
qed

section \<open>A cancelled probe\<close>

text \<open>A circuit that waits for the outcome of its probe.\<close>

definition waiting :: "circuit \<Rightarrow> bool" where
  "waiting c \<longleftrightarrow> circuit_open c \<and> ci_probing c"

lemma waiting_refuses: "waiting c \<Longrightarrow> circuit_allow now c = (False, c)"
  by (simp add: waiting_def circuit_open_def circuit_allow_def)

definition same_service :: "route_service \<Rightarrow> route_service \<Rightarrow> bool" where
  "same_service s s' \<longleftrightarrow> rs_circuit s' = rs_circuit s \<and> rs_requests s' = rs_requests s"

lemma same_service_trans: "same_service a b \<Longrightarrow> same_service b c \<Longrightarrow> same_service a c"
  by (simp add: same_service_def)

lemma same_EnqueueRoute: "same_service s (snd (EnqueueRoute now request s))"
  by (simp add: EnqueueRoute_def same_service_def Let_def split: option.split prod.split bool.split)

lemma same_EnqueueAirport: "same_service s (snd (EnqueueAirport now code s))"
  by (simp add: EnqueueAirport_def same_service_def Let_def split: option.split prod.split bool.split)

lemma same_missing: "same_service s (snd (missing_routes now requests s))"
proof (induction requests arbitrary: s)
  case (Cons r rest)
  obtain hit c where g: "lru_get now (rr_Callsign r) (rs_routes s) = (hit, c)" by (cases "lru_get now (rr_Callsign r) (rs_routes s)")
  show ?case using Cons [of "s\<lparr> rs_routes := c \<rparr>"]
    by (cases "missing_routes now rest (s\<lparr> rs_routes := c \<rparr>)") (simp add: same_service_def g)
qed (simp add: same_service_def)

lemma waiting_fetchRoutes: "waiting (rs_circuit s) \<Longrightarrow> same_service s (snd (fetchRoutes now later env requests s))"
  using same_missing [of s now requests]
  by (cases "missing_routes now requests s") (auto simp: fetchRoutes_def same_service_def waiting_refuses Let_def)

lemma waiting_fetchAirport: "waiting (rs_circuit s) \<Longrightarrow> same_service s (snd (fetchAirport now later env code s))"
  by (cases "lru_get now code (rs_airports s)") (auto simp: fetchAirport_def same_service_def waiting_refuses Let_def split: option.split bool.split)

lemma same_prefetch: "same_service s (snd (snd (prefetch_loop now aircraft start scanLimit limit examined queued s)))"
proof (induction now aircraft start scanLimit limit examined queued s rule: prefetch_loop.induct)
  case (1 now aircraft start scanLimit limit examined queued s)
  define item where "item = aircraft ! ((start + examined) mod length aircraft)"
  define r where "r = \<lparr> rr_Callsign = ac_Callsign item, rr_Latitude = ac_Latitude item, rr_Longitude = ac_Longitude item \<rparr>"
  obtain result s' where e: "EnqueueRoute now r s = (result, s')" by (cases "EnqueueRoute now r s")
  have st: "same_service s s'" using same_EnqueueRoute [of s now r] by (simp add: e)
  note unfold = prefetch_loop.simps [of now aircraft start scanLimit limit examined queued s, unfolded Let_def, folded item_def, folded r_def]
  show ?case
  proof (cases "\<not> examined < scanLimit \<or> queued \<ge> limit")
    case True
    then show ?thesis by (subst prefetch_loop.simps) (simp add: same_service_def)
  next
    case False
    show ?thesis
      using False 1(1) [OF False item_def] same_service_trans [OF st 1(2) [OF False item_def _ e [unfolded r_def, symmetric] refl]]
      by (cases "ac_HasPosition item") (simp_all add: unfold e)
  qed
qed

lemma waiting_LookupRoute:
  assumes w: "waiting (rs_circuit s)"
  shows "same_service s (snd (LookupRoute now later env request s))"
proof (cases "normalizeRouteRequest request")
  case (Some r)
  obtain hit c where g: "lru_get now (rr_Callsign r) (rs_routes s) = (hit, c)" by (cases "lru_get now (rr_Callsign r) (rs_routes s)")
  define s1 where "s1 = s\<lparr> rs_routes := c, rs_hits := rs_hits s + 1 \<rparr>"
  define s2 where "s2 = s\<lparr> rs_routes := c, rs_misses := rs_misses s + 1 \<rparr>"
  obtain err s3 where f: "fetchRoutes now later env [r] s2 = (err, s3)" by (cases "fetchRoutes now later env [r] s2")
  have "same_service s s3" "same_service s s1" "same_service s (snd (EnqueueRoute now r s1))"
    using waiting_fetchRoutes [of s2 now later env "[r]"] same_EnqueueRoute [of s1 now r] w by (simp_all add: f s1_def same_service_def) (simp_all add: s2_def)
  then show ?thesis
    by (cases hit; cases err) (auto simp: LookupRoute_def Some g f [unfolded s2_def] s1_def same_service_def Let_def split: prod.split)
qed (simp add: LookupRoute_def same_service_def)

lemma waiting_LookupAirport:
  assumes w: "waiting (rs_circuit s)"
  shows "same_service s (snd (LookupAirport now later env code s))"
proof (cases "NormalizeAirportCode code")
  case (Some r)
  obtain hit c where g: "lru_get now r (rs_airports s) = (hit, c)" by (cases "lru_get now r (rs_airports s)")
  define s1 where "s1 = s\<lparr> rs_airports := c, rs_hits := rs_hits s + 1 \<rparr>"
  define s2 where "s2 = s\<lparr> rs_airports := c, rs_misses := rs_misses s + 1 \<rparr>"
  obtain err s3 where f: "fetchAirport now later env r s2 = (err, s3)" by (cases "fetchAirport now later env r s2")
  have "same_service s s3" "same_service s s1" "same_service s (snd (EnqueueAirport now r s1))"
    using waiting_fetchAirport [of s2 now later env r] same_EnqueueAirport [of s1 now r] w by (simp_all add: f s1_def same_service_def) (simp_all add: s2_def)
  then show ?thesis
    by (cases hit; cases err) (auto simp: LookupAirport_def Some g f [unfolded s2_def] s1_def same_service_def Let_def split: prod.split)
qed (simp add: LookupAirport_def same_service_def)

lemma waiting_step: "route_step x y \<Longrightarrow> waiting (rs_circuit (fst x)) \<Longrightarrow> same_service (fst x) (fst y)"
proof (induction rule: route_step.induct)
  case (prefetch s k now aircraft)
  show ?case using same_prefetch [of s now aircraft] by (auto simp: Prefetch_def same_service_def Let_def split: prod.split) (metis snd_conv)+
next
  case (lookup_route s k now later env request)
  then show ?case using waiting_LookupRoute by simp
next
  case (lookup_airport s k now later env code)
  then show ?case using waiting_LookupAirport by simp
next
  case (fetch_routes k s now later env)
  then show ?case using waiting_fetchRoutes [of s now later env "wk_batch k"] by (simp add: same_service_def)
next
  case (fetch_airport k code s now later env)
  then show ?case using waiting_fetchAirport [of s now later env code] by (simp add: same_service_def)
qed (auto simp: same_EnqueueRoute [unfolded same_service_def] same_EnqueueAirport [unfolded same_service_def] same_service_def CachedRoute_def CachedAirport_def collectRouteBatch_def Let_def split: option.split prod.split)

lemma waiting_steps:
  "route_step\<^sup>*\<^sup>* x y \<Longrightarrow> waiting (rs_circuit (fst x)) \<Longrightarrow> same_service (fst x) (fst y) \<and> waiting (rs_circuit (fst y))"
proof (induction rule: rtranclp_induct)
  case (step y z)
  then show ?case using waiting_step [OF step(2)] same_service_trans [of "fst x" "fst y" "fst z"] by (auto simp: same_service_def)
qed (simp add: same_service_def)

text \<open>
  A cancelled probe closes the route service for good. When the one probe that an open circuit
  lets through ends with a cancelled context, \<open>fetchRoutes\<close> tells the circuit neither success nor
  failure: from then on, whatever the callers and the loop do, no request is sent any more.
\<close>

theorem route_probe_stuck:
  assumes "circuit_open (rs_circuit s)" "ci_openUntil (rs_circuit s) \<le> now" "\<not> ci_probing (rs_circuit s)"
    "fst (missing_routes now requests s) \<noteq> []"
    "request_attempts (rs_config s) (\<lambda>_. False) env 0 (nat (rf_MaxAttempts (rs_config s))) (Inr []) = (sent, Inl e)" "lx_canceled e"
    "route_step\<^sup>*\<^sup>* (snd (fetchRoutes now later env requests s), k) (s', k')"
  shows "rs_requests s' = rs_requests s + of_nat sent \<and> fst (circuit_allow t (rs_circuit s')) = False"
proof -
  obtain missing s1 where m: "missing_routes now requests s = (missing, s1)" by (cases "missing_routes now requests s")
  have s1: "rs_circuit s1 = rs_circuit s" "rs_requests s1 = rs_requests s" using same_missing [of s now requests] by (simp_all add: m same_service_def)
  have al: "circuit_allow now (rs_circuit s) = (True, rs_circuit s\<lparr> ci_probing := True \<rparr>)"
    using assms(1-3) by (simp add: circuit_allow_def circuit_open_def)
  have f: "rs_circuit (snd (fetchRoutes now later env requests s)) = rs_circuit s\<lparr> ci_probing := True \<rparr>"
    "rs_requests (snd (fetchRoutes now later env requests s)) = rs_requests s + of_nat sent"
    using assms(4-6) m s1 al by (simp_all add: fetchRoutes_def Let_def)
  have "waiting (rs_circuit (snd (fetchRoutes now later env requests s)))" using assms(1) f(1) by (simp add: waiting_def circuit_open_def)
  with waiting_steps [OF assms(7)] have "same_service (snd (fetchRoutes now later env requests s)) s'" "waiting (rs_circuit s')" by simp_all
  then show ?thesis using f(2) waiting_refuses [of "rs_circuit s'" t] by (simp add: same_service_def)
qed

section \<open>Witnesses\<close>

theorem enrichment_queue_exact_witness:
  "dom (map_of (pq_pending (ev_requests (snd (service_Enqueue 1 '' a1b2c3'' ''dlh1'' (NewService 0 DefaultConfig)))))) = {''A1B2C3|DLH1''}"
proof -
  define s where "s = snd (service_Enqueue 1 '' a1b2c3'' ''dlh1'' (NewService 0 DefaultConfig))"
  have "service_step\<^sup>*\<^sup>* (NewService 0 DefaultConfig, []) (s, [])" unfolding s_def by (rule r_into_rtranclp) (rule service_step.enqueue)
  from enrichment_queue_exact [OF this, of 2 "''4ca123''" "''ryr1''"]
  have "rq_key ` set (pq_queue (ev_requests s)) = dom (map_of (pq_pending (ev_requests s)))" by simp
  moreover have "map rq_key (pq_queue (ev_requests s)) = [''A1B2C3|DLH1'']" unfolding s_def by code_simp
  then have "rq_key ` set (pq_queue (ev_requests s)) = {''A1B2C3|DLH1''}" by (metis list.set_map list.simps(15) set_empty)
  ultimately show ?thesis unfolding s_def by simp
qed

theorem route_service_typed_witness:
  "map rr_Callsign (pq_queue (rs_routeQueue (snd (EnqueueRoute 1 \<lparr> rr_Callsign = '' dlh1ab'', rr_Latitude = 50, rr_Longitude = 8 \<rparr> (NewRouteService 0 DefaultRouteConfig))))) = [''DLH1AB''] \<and>
   valid_callsign ''DLH1AB''"
proof -
  define s where "s = snd (EnqueueRoute 1 \<lparr> rr_Callsign = '' dlh1ab'', rr_Latitude = 50, rr_Longitude = 8 \<rparr> (NewRouteService 0 DefaultRouteConfig))"
  have "route_step\<^sup>*\<^sup>* (NewRouteService 0 DefaultRouteConfig, \<lparr> wk_batch = [], wk_codes = [] \<rparr>) (s, \<lparr> wk_batch = [], wk_codes = [] \<rparr>)"
    unfolding s_def by (rule r_into_rtranclp) (rule route_step.enqueue_route)
  from route_service_typed [OF this] have v: "list_all valid_request (pq_queue (rs_routeQueue s))" by simp
  have q: "map rr_Callsign (pq_queue (rs_routeQueue s)) = [''DLH1AB'']" unfolding s_def by code_simp
  then obtain r where "pq_queue (rs_routeQueue s) = [r]" "rr_Callsign r = ''DLH1AB''" by auto
  then have "valid_callsign ''DLH1AB''" using v by (simp add: valid_request_def)
  then show ?thesis using q unfolding s_def by simp
qed

end
