(* ===== verification/Outbound.thy ===== *)
theory Outbound
  imports Domain
begin

text \<open>
  \<open>internal/discord/outbound.go\<close>: the scheduler of everything that is sent to Discord. There is
  one buffered channel per priority, a list with a capacity, oldest first, and four lanes that
  take jobs out and run them. The function of a job is an opaque value; what its runs answer,
  whether the context has ended and which ready case a \<open>select\<close> takes are arguments. \<open>Enqueue\<close> is
  given for a caller that runs alone; for the dashboard, whose three channel operations are
  under no lock, also as the steps they consist of.
\<close>

section \<open>Jobs and the scheduler\<close>

text \<open>\<open>Priority\<close>; the last stands for the other values of the type.\<close>

datatype outbound_priority =
  PriorityEmergency | PriorityInteraction | PriorityAlert | PriorityDashboard | PriorityReport | PriorityUnknown

record 'r outbound_job =
  oj_Key :: string
  oj_Priority :: outbound_priority
  oj_Retryable :: bool
  oj_Run :: "'r option"

text \<open>The channels, and the sets of pending keys that exist for alerts and reports, by priority.\<close>

record 'r scheduler =
  ob_queue :: "outbound_priority \<Rightarrow> 'r outbound_job list"
  ob_cap :: "outbound_priority \<Rightarrow> nat"
  ob_pending :: "outbound_priority \<Rightarrow> (string, unit) gomap"
  ob_accepted :: u64
  ob_succeeded :: u64
  ob_failed :: u64
  ob_retried :: u64
  ob_dropped :: u64
  ob_coalesced :: u64
  ob_retryBase :: duration

definition NewOutboundScheduler :: "nat \<Rightarrow> nat \<Rightarrow> nat \<Rightarrow> nat \<Rightarrow> 'r scheduler" where
  "NewOutboundScheduler emergencyCapacity interactionCapacity alertCapacity reportCapacity =
     \<lparr> ob_queue = (\<lambda>_. []),
       ob_cap = (\<lambda>p. case p of
          PriorityEmergency \<Rightarrow> emergencyCapacity | PriorityInteraction \<Rightarrow> interactionCapacity | PriorityAlert \<Rightarrow> alertCapacity
        | PriorityDashboard \<Rightarrow> 1 | PriorityReport \<Rightarrow> reportCapacity | PriorityUnknown \<Rightarrow> 0),
       ob_pending = (\<lambda>_. gm_empty), ob_accepted = 0, ob_succeeded = 0, ob_failed = 0, ob_retried = 0, ob_dropped = 0, ob_coalesced = 0,
       ob_retryBase = 100 * millisecond \<rparr>"

definition outbound_Depth :: "outbound_priority \<Rightarrow> 'r scheduler \<Rightarrow> nat" where
  "outbound_Depth p s = length (ob_queue s p)"

section \<open>Enqueueing\<close>

text \<open>What becomes of a job, and the error the caller sees.\<close>

datatype enqueued = Accepted | Merged | Full | FullContext | NoRun

datatype outbound_error = ErrQueueFull | ErrQueueFullContext | ErrNoRun

fun enqueue_error :: "enqueued \<Rightarrow> outbound_error option" where
  "enqueue_error Accepted = None"
| "enqueue_error Merged = None"
| "enqueue_error Full = Some ErrQueueFull"
| "enqueue_error FullContext = Some ErrQueueFullContext"
| "enqueue_error NoRun = Some ErrNoRun"

definition channel_send :: "'r outbound_job \<Rightarrow> 'r scheduler \<Rightarrow> 'r scheduler option" where
  "channel_send job s =
     (let p = oj_Priority job in
      if length (ob_queue s p) < ob_cap s p then Some (s\<lparr> ob_queue := (ob_queue s)(p := ob_queue s p @ [job]) \<rparr>) else None)"

definition count_accepted :: "'r scheduler \<Rightarrow> 'r scheduler" where
  "count_accepted s = s\<lparr> ob_accepted := ob_accepted s + 1 \<rparr>"

definition count_dropped :: "'r scheduler \<Rightarrow> 'r scheduler" where
  "count_dropped s = s\<lparr> ob_dropped := ob_dropped s + 1 \<rparr>"

text \<open>The blocking send of emergencies and interactions; \<open>None\<close>: the caller waits.\<close>

definition enqueue_blocking :: "bool \<Rightarrow> bool \<Rightarrow> 'r outbound_job \<Rightarrow> 'r scheduler \<Rightarrow> (enqueued \<times> 'r scheduler) option" where
  "enqueue_blocking done pick job s =
     (case channel_send job s of
        Some s' \<Rightarrow> if done \<and> \<not> pick then Some (FullContext, count_dropped s) else Some (Accepted, count_accepted s')
      | None \<Rightarrow> if done then Some (FullContext, count_dropped s) else None)"

definition enqueueDeduplicated :: "'r outbound_job \<Rightarrow> 'r scheduler \<Rightarrow> enqueued \<times> 'r scheduler" where
  "enqueueDeduplicated job s =
     (let p = oj_Priority job in
      if oj_Key job \<noteq> [] \<and> map_of (ob_pending s p) (oj_Key job) \<noteq> None then (Merged, s\<lparr> ob_coalesced := ob_coalesced s + 1 \<rparr>)
      else
        let s1 = (if oj_Key job \<noteq> [] then s\<lparr> ob_pending := (ob_pending s)(p := AList.update (oj_Key job) () (ob_pending s p)) \<rparr> else s) in
        (case channel_send job s1 of
           Some s2 \<Rightarrow> (Accepted, count_accepted s2)
         | None \<Rightarrow>
             (Full, count_dropped
                (if oj_Key job \<noteq> [] then s1\<lparr> ob_pending := (ob_pending s1)(p := AList.delete (oj_Key job) (ob_pending s1 p)) \<rparr> else s1))))"

text \<open>The three operations on the dashboard channel: send, or make room, or send again.\<close>

definition dashboard_drain :: "'r scheduler \<Rightarrow> 'r scheduler" where
  "dashboard_drain s =
     (case ob_queue s PriorityDashboard of
        [] \<Rightarrow> s
      | _ # rest \<Rightarrow> s\<lparr> ob_queue := (ob_queue s)(PriorityDashboard := rest), ob_coalesced := ob_coalesced s + 1 \<rparr>)"

definition dashboard_last :: "'r outbound_job \<Rightarrow> 'r scheduler \<Rightarrow> enqueued \<times> 'r scheduler" where
  "dashboard_last job s = (case channel_send job s of Some s' \<Rightarrow> (Accepted, count_accepted s') | None \<Rightarrow> (Full, count_dropped s))"

definition outbound_Enqueue :: "bool \<Rightarrow> bool \<Rightarrow> 'r outbound_job \<Rightarrow> 'r scheduler \<Rightarrow> (enqueued \<times> 'r scheduler) option" where
  "outbound_Enqueue done pick job s =
     (if oj_Run job = None then Some (NoRun, s)
      else case oj_Priority job of
        PriorityEmergency \<Rightarrow> enqueue_blocking done pick job s
      | PriorityInteraction \<Rightarrow> enqueue_blocking done pick job s
      | PriorityAlert \<Rightarrow> Some (enqueueDeduplicated job s)
      | PriorityDashboard \<Rightarrow>
          (case channel_send job s of
             Some s' \<Rightarrow> Some (Accepted, count_accepted s')
           | None \<Rightarrow> Some (dashboard_last job (dashboard_drain s)))
      | PriorityReport \<Rightarrow> Some (enqueueDeduplicated job s)
      | PriorityUnknown \<Rightarrow> Some (Full, s))"

section \<open>Running\<close>

text \<open>One attempt: whether the run succeeded, whether the context had ended after it, and
  whether it ended during the delay before the next.\<close>

record attempt_outcome =
  ao_ok :: bool
  ao_ctxErr :: bool
  ao_cancelled :: bool

definition retry_pause :: "duration \<Rightarrow> nat \<Rightarrow> duration \<Rightarrow> duration" where
  "retry_pause retryBase attempt jitter = retryBase * 2 ^ attempt + jitter"

text \<open>The loop of \<open>execute\<close>: the number of runs, whether the last succeeded, and the counters.\<close>

fun execute_loop :: "(nat \<Rightarrow> attempt_outcome) \<Rightarrow> nat \<Rightarrow> nat \<Rightarrow> 'r scheduler \<Rightarrow> nat \<times> bool \<times> 'r scheduler" where
  "execute_loop env attempt 0 s = (0, False, s)"
| "execute_loop env attempt (Suc left) s =
     (let o1 = env attempt in
      if ao_ok o1 then (1, True, s\<lparr> ob_succeeded := ob_succeeded s + 1 \<rparr>)
      else if left = 0 \<or> ao_ctxErr o1 then (1, False, s\<lparr> ob_failed := ob_failed s + 1 \<rparr>)
      else
        let s1 = s\<lparr> ob_retried := ob_retried s + 1 \<rparr> in
        if ao_cancelled o1 then (1, False, s1\<lparr> ob_failed := ob_failed s1 + 1 \<rparr>)
        else let (n, ok, s2) = execute_loop env (attempt + 1) left s1 in (n + 1, ok, s2))"

definition execute :: "(nat \<Rightarrow> attempt_outcome) \<Rightarrow> 'r outbound_job \<Rightarrow> 'r scheduler \<Rightarrow> nat \<times> bool \<times> 'r scheduler" where
  "execute env job s = execute_loop env 0 (if oj_Retryable job then 3 else 1) s"

definition releasePending :: "'r outbound_job \<Rightarrow> 'r scheduler \<Rightarrow> 'r scheduler" where
  "releasePending job s =
     (let p = oj_Priority job in
      if oj_Key job = [] \<or> (p \<noteq> PriorityAlert \<and> p \<noteq> PriorityReport) then s
      else s\<lparr> ob_pending := (ob_pending s)(p := AList.delete (oj_Key job) (ob_pending s p)) \<rparr>)"

section \<open>The lanes\<close>

datatype lane = LaneEmergency | LaneInteraction | LaneAlert | LaneBackground

text \<open>Where the goroutine of a lane is: at the start of \<open>next\<close>, in the second \<open>select\<close> of
  \<open>nextBackground\<close>, running a job, about to release its key, or returned.\<close>

datatype 'r lane_state = AtNext | Waiting | Running "'r outbound_job" | Releasing "'r outbound_job" | Returned

definition receive_job :: "outbound_priority \<Rightarrow> 'r scheduler \<Rightarrow> ('r outbound_job \<times> 'r scheduler) option" where
  "receive_job p s =
     (case ob_queue s p of [] \<Rightarrow> None | job # rest \<Rightarrow> Some (job, s\<lparr> ob_queue := (ob_queue s)(p := rest) \<rparr>))"

text \<open>The channels a lane may receive from: \<open>nextEmergency\<close>, \<open>nextInteraction\<close>, \<open>nextAlert\<close> and the two selects of \<open>nextBackground\<close>.\<close>

fun lane_sources :: "lane \<Rightarrow> 'r lane_state \<Rightarrow> outbound_priority list" where
  "lane_sources LaneEmergency AtNext = [PriorityEmergency]"
| "lane_sources LaneInteraction AtNext = [PriorityInteraction]"
| "lane_sources LaneAlert AtNext = [PriorityAlert]"
| "lane_sources LaneBackground AtNext = [PriorityDashboard]"
| "lane_sources LaneBackground Waiting = [PriorityDashboard, PriorityReport]"
| "lane_sources _ _ = []"

text \<open>What happened: a job was accepted, taken by a lane, thrown out by a newer dashboard, or ran to its end.\<close>

datatype 'r outbound_event =
  EvAccepted "'r outbound_job" | EvTaken "'r outbound_job" | EvReplaced "'r outbound_job" | EvDone "'r outbound_job" nat bool

datatype dash_phase = DashDrain | DashLast

record 'r outbound_system =
  os_sched :: "'r scheduler"
  os_calls :: "('r outbound_job \<times> dash_phase) list"
  os_lanes :: "lane \<Rightarrow> 'r lane_state"
  os_log :: "'r outbound_event list"

definition outbound_start :: "'r scheduler \<Rightarrow> 'r outbound_system" where
  "outbound_start s = \<lparr> os_sched = s, os_calls = [], os_lanes = (\<lambda>_. AtNext), os_log = [] \<rparr>"

definition log_sent :: "'r outbound_job \<Rightarrow> enqueued \<Rightarrow> 'r outbound_event list" where
  "log_sent job res = (if res = Accepted then [EvAccepted job] else [])"

inductive outbound_step :: "'r outbound_system \<Rightarrow> 'r outbound_system \<Rightarrow> bool" where
  call: "outbound_Enqueue done pick job (os_sched y) = Some (res, s) \<Longrightarrow> oj_Run job = None \<or> oj_Priority job \<noteq> PriorityDashboard \<Longrightarrow>
    outbound_step y (y\<lparr> os_sched := s, os_log := os_log y @ log_sent job res \<rparr>)"
| dash_send: "oj_Run job \<noteq> None \<Longrightarrow> oj_Priority job = PriorityDashboard \<Longrightarrow> channel_send job (os_sched y) = Some s \<Longrightarrow>
    outbound_step y (y\<lparr> os_sched := count_accepted s, os_log := os_log y @ [EvAccepted job] \<rparr>)"
| dash_full: "oj_Run job \<noteq> None \<Longrightarrow> oj_Priority job = PriorityDashboard \<Longrightarrow> channel_send job (os_sched y) = None \<Longrightarrow>
    outbound_step y (y\<lparr> os_calls := (job, DashDrain) # os_calls y \<rparr>)"
| dash_drain: "(job, DashDrain) \<in> set (os_calls y) \<Longrightarrow>
    outbound_step y (y\<lparr> os_sched := dashboard_drain (os_sched y), os_calls := (job, DashLast) # remove1 (job, DashDrain) (os_calls y),
      os_log := os_log y @ map EvReplaced (take 1 (ob_queue (os_sched y) PriorityDashboard)) \<rparr>)"
| dash_last: "(job, DashLast) \<in> set (os_calls y) \<Longrightarrow> dashboard_last job (os_sched y) = (res, s) \<Longrightarrow>
    outbound_step y (y\<lparr> os_sched := s, os_calls := remove1 (job, DashLast) (os_calls y), os_log := os_log y @ log_sent job res \<rparr>)"
| lane_take: "p \<in> set (lane_sources l (os_lanes y l)) \<Longrightarrow> receive_job p (os_sched y) = Some (job, s) \<Longrightarrow>
    outbound_step y (y\<lparr> os_sched := s, os_lanes := (os_lanes y)(l := Running job), os_log := os_log y @ [EvTaken job] \<rparr>)"
| lane_wait: "os_lanes y LaneBackground = AtNext \<Longrightarrow> ob_queue (os_sched y) PriorityDashboard = [] \<Longrightarrow>
    outbound_step y (y\<lparr> os_lanes := (os_lanes y)(LaneBackground := Waiting) \<rparr>)"
| lane_run: "os_lanes y l = Running job \<Longrightarrow> execute env job (os_sched y) = (n, ok, s) \<Longrightarrow>
    outbound_step y (y\<lparr> os_sched := s, os_lanes := (os_lanes y)(l := Releasing job), os_log := os_log y @ [EvDone job n ok] \<rparr>)"
| lane_release: "os_lanes y l = Releasing job \<Longrightarrow>
    outbound_step y (y\<lparr> os_sched := releasePending job (os_sched y), os_lanes := (os_lanes y)(l := AtNext) \<rparr>)"
| lane_stop: "os_lanes y l = Waiting \<or> (os_lanes y l = AtNext \<and> l \<noteq> LaneBackground) \<Longrightarrow>
    outbound_step y (y\<lparr> os_lanes := (os_lanes y)(l := Returned) \<rparr>)"

end
