(* ===== verification/Outbound_Props.thy ===== *)
theory Outbound_Props
  imports Outbound
begin

text \<open>
  The scheduler under every interleaving of its callers and its lanes: what is accepted is run,
  each job once and in the order of acceptance within its priority, except for a dashboard that
  a newer one replaces; a key is pending exactly while its job is queued or running.
\<close>

section \<open>Projections of the log\<close>

fun sent :: "outbound_priority \<Rightarrow> 'r outbound_event list \<Rightarrow> 'r outbound_job list" where
  "sent p [] = []"
| "sent p (EvAccepted j # es) = (if oj_Priority j = p then j # sent p es else sent p es)"
| "sent p (_ # es) = sent p es"

fun gone :: "outbound_priority \<Rightarrow> 'r outbound_event list \<Rightarrow> 'r outbound_job list" where
  "gone p [] = []"
| "gone p (EvTaken j # es) = (if oj_Priority j = p then j # gone p es else gone p es)"
| "gone p (EvReplaced j # es) = (if oj_Priority j = p then j # gone p es else gone p es)"
| "gone p (_ # es) = gone p es"

fun started :: "outbound_priority \<Rightarrow> 'r outbound_event list \<Rightarrow> 'r outbound_job list" where
  "started p [] = []"
| "started p (EvTaken j # es) = (if oj_Priority j = p then j # started p es else started p es)"
| "started p (_ # es) = started p es"

fun executed :: "outbound_priority \<Rightarrow> 'r outbound_event list \<Rightarrow> 'r outbound_job list" where
  "executed p [] = []"
| "executed p (EvDone j n ok # es) = (if oj_Priority j = p then j # executed p es else executed p es)"
| "executed p (_ # es) = executed p es"

fun accepted_count :: "'r outbound_event list \<Rightarrow> nat" where
  "accepted_count [] = 0"
| "accepted_count (EvAccepted j # es) = Suc (accepted_count es)"
| "accepted_count (_ # es) = accepted_count es"

fun done_count :: "bool \<Rightarrow> 'r outbound_event list \<Rightarrow> nat" where
  "done_count b [] = 0"
| "done_count b (EvDone j n ok # es) = (if ok = b then Suc (done_count b es) else done_count b es)"
| "done_count b (_ # es) = done_count b es"

lemma sent_append [simp]: "sent p (es @ fs) = sent p es @ sent p fs"
  by (induction p es rule: sent.induct) simp_all

lemma gone_append [simp]: "gone p (es @ fs) = gone p es @ gone p fs"
  by (induction p es rule: gone.induct) simp_all

lemma started_append [simp]: "started p (es @ fs) = started p es @ started p fs"
  by (induction p es rule: started.induct) simp_all

lemma executed_append [simp]: "executed p (es @ fs) = executed p es @ executed p fs"
  by (induction p es rule: executed.induct) simp_all

lemma accepted_count_append [simp]: "accepted_count (es @ fs) = accepted_count es + accepted_count fs"
  by (induction es rule: accepted_count.induct) simp_all

lemma done_count_append [simp]: "done_count b (es @ fs) = done_count b es + done_count b fs"
  by (induction b es rule: done_count.induct) simp_all

lemma unit_None [simp]: "x \<noteq> Some () \<longleftrightarrow> x = None"
  by (cases x) auto

lemma sent_priority: "j \<in> set (sent p es) \<Longrightarrow> oj_Priority j = p"
  by (induction p es rule: sent.induct) (auto split: if_splits)

lemma log_sent_simps [simp]:
  "sent p (log_sent job res) = (if res = Accepted \<and> oj_Priority job = p then [job] else [])"
  "gone p (log_sent job res) = []" "started p (log_sent job res) = []" "executed p (log_sent job res) = []"
  "done_count b (log_sent job res) = 0" "accepted_count (log_sent job res) = (if res = Accepted then 1 else 0)"
  by (simp_all add: log_sent_def)

section \<open>What the operations do\<close>

definition keyed :: "outbound_priority \<Rightarrow> bool" where
  "keyed p \<longleftrightarrow> p = PriorityAlert \<or> p = PriorityReport"

text \<open>A scheduler that differs at most in counters of refusals and in the order of a set of keys.\<close>

definition same_view :: "'r scheduler \<Rightarrow> 'r scheduler \<Rightarrow> bool" where
  "same_view s s' \<longleftrightarrow> ob_queue s' = ob_queue s \<and> ob_cap s' = ob_cap s \<and> (\<forall>p. map_of (ob_pending s' p) = map_of (ob_pending s p)) \<and>
     ob_accepted s' = ob_accepted s \<and> ob_succeeded s' = ob_succeeded s \<and> ob_failed s' = ob_failed s"

text \<open>A scheduler that has accepted a job.\<close>

definition sent_view :: "'r outbound_job \<Rightarrow> 'r scheduler \<Rightarrow> 'r scheduler \<Rightarrow> bool" where
  "sent_view job s s' \<longleftrightarrow> (let p = oj_Priority job in
     length (ob_queue s p) < ob_cap s p \<and> ob_queue s' = (ob_queue s)(p := ob_queue s p @ [job]) \<and> ob_cap s' = ob_cap s \<and>
     (\<forall>q. map_of (ob_pending s' q) = (if q = p \<and> keyed p \<and> oj_Key job \<noteq> [] then (map_of (ob_pending s q))(oj_Key job \<mapsto> ()) else map_of (ob_pending s q))) \<and>
     (keyed p \<and> oj_Key job \<noteq> [] \<longrightarrow> map_of (ob_pending s p) (oj_Key job) = None) \<and>
     ob_accepted s' = ob_accepted s + 1 \<and> ob_succeeded s' = ob_succeeded s \<and> ob_failed s' = ob_failed s)"

lemma channel_send_view:
  assumes "channel_send job s = Some s'" "\<not> keyed (oj_Priority job)"
  shows "sent_view job s (count_accepted s')"
  using assms by (auto simp: channel_send_def sent_view_def count_accepted_def Let_def split: if_splits)

lemma enqueue_blocking_view:
  assumes "enqueue_blocking done pick job s = Some (res, s')" "\<not> keyed (oj_Priority job)"
  shows "if res = Accepted then sent_view job s s' else same_view s s'"
  using assms channel_send_view [of job s]
  by (auto simp: enqueue_blocking_def count_dropped_def same_view_def split: option.splits if_splits)

lemma enqueueDeduplicated_view:
  assumes "enqueueDeduplicated job s = (res, s')" "keyed (oj_Priority job)"
  shows "if res = Accepted then sent_view job s s' else same_view s s'"
proof (cases "length (ob_queue s (oj_Priority job)) < ob_cap s (oj_Priority job)")
  case True
  then show ?thesis using assms
    by (auto simp: enqueueDeduplicated_def channel_send_def sent_view_def same_view_def count_accepted_def Let_def split: if_splits)
next
  case False
  then show ?thesis using assms
    by (auto simp: enqueueDeduplicated_def channel_send_def same_view_def count_dropped_def Let_def fun_eq_iff split: if_splits)
qed

lemma Enqueue_view:
  assumes "outbound_Enqueue done pick job s = Some (res, s')" "oj_Run job = None \<or> oj_Priority job \<noteq> PriorityDashboard"
  shows "if res = Accepted then sent_view job s s' else same_view s s'"
proof (cases "oj_Run job = None")
  case True
  then show ?thesis using assms by (auto simp: outbound_Enqueue_def same_view_def)
next
  case False
  then show ?thesis using assms enqueue_blocking_view [of "done" pick job s res s'] enqueueDeduplicated_view [of job s res s']
    by (cases "oj_Priority job") (auto simp: outbound_Enqueue_def keyed_def same_view_def)
qed

lemma dashboard_last_view:
  assumes "dashboard_last job s = (res, s')" "oj_Priority job = PriorityDashboard"
  shows "if res = Accepted then sent_view job s s' else same_view s s'"
  using assms channel_send_view [of job s]
  by (auto simp: dashboard_last_def keyed_def same_view_def count_dropped_def split: option.splits)

lemma execute_loop_view:
  assumes "execute_loop env attempt left s = (n, ok, s')" "0 < left"
  shows "ob_queue s' = ob_queue s \<and> ob_cap s' = ob_cap s \<and> ob_pending s' = ob_pending s \<and> ob_accepted s' = ob_accepted s \<and> 1 \<le> n \<and> n \<le> left \<and>
    ob_succeeded s' = ob_succeeded s + (if ok then 1 else 0) \<and> ob_failed s' = ob_failed s + (if ok then 0 else 1) \<and> (ok \<longleftrightarrow> ao_ok (env (attempt + n - 1)))"
  using assms
proof (induction env attempt left s arbitrary: n ok s' rule: execute_loop.induct)
  case (2 env attempt left s)
  define s1 where "s1 = s\<lparr> ob_retried := ob_retried s + 1 \<rparr>"
  obtain n1 ok1 s2 where r: "execute_loop env (attempt + 1) left s1 = (n1, ok1, s2)" by (cases "execute_loop env (attempt + 1) left s1")
  note IH = 2(1) [OF refl _ _ _ _ r [unfolded s1_def]]
  show ?case
  proof (cases "ao_ok (env attempt) \<or> left = 0 \<or> ao_ctxErr (env attempt) \<or> ao_cancelled (env attempt)")
    case True
    then show ?thesis using 2(2) by (auto simp: Let_def split: if_splits)
  next
    case False
    then have e: "n = n1 + 1" "ok = ok1" "s' = s2" using 2(2) r by (auto simp: Let_def s1_def)
    have "0 < left" using False by simp
    then show ?thesis using IH False unfolding e by (simp add: Let_def)
  qed
qed simp

text \<open>
  A job runs once, or up to three times when it may be retried, and counts once: as succeeded
  when its last run did, as failed otherwise.
\<close>

lemma execute_view:
  assumes "execute env job s = (n, ok, s')"
  shows "ob_queue s' = ob_queue s" "ob_cap s' = ob_cap s" "ob_pending s' = ob_pending s" "ob_accepted s' = ob_accepted s"
    "1 \<le> n" "n \<le> (if oj_Retryable job then 3 else 1)" "ob_succeeded s' = ob_succeeded s + (if ok then 1 else 0)"
    "ob_failed s' = ob_failed s + (if ok then 0 else 1)" "ok \<longleftrightarrow> ao_ok (env (n - 1))"
  using execute_loop_view [of env 0 "if oj_Retryable job then 3 else 1" s n ok s'] assms by (simp_all add: execute_def split: if_splits)

section \<open>The invariant\<close>

fun lane_of :: "outbound_priority \<Rightarrow> lane" where
  "lane_of PriorityEmergency = LaneEmergency"
| "lane_of PriorityInteraction = LaneInteraction"
| "lane_of PriorityAlert = LaneAlert"
| "lane_of _ = LaneBackground"

fun running_job :: "'r lane_state \<Rightarrow> 'r outbound_job list" where
  "running_job (Running j) = [j]"
| "running_job _ = []"

fun held_job :: "'r lane_state \<Rightarrow> 'r outbound_job list" where
  "held_job (Running j) = [j]"
| "held_job (Releasing j) = [j]"
| "held_job _ = []"

definition running :: "outbound_priority \<Rightarrow> 'r outbound_system \<Rightarrow> 'r outbound_job list" where
  "running p y = filter (\<lambda>j. oj_Priority j = p) (running_job (os_lanes y (lane_of p)))"

definition live_keys :: "outbound_priority \<Rightarrow> 'r outbound_system \<Rightarrow> string list" where
  "live_keys p y = filter (\<lambda>k. k \<noteq> []) (map oj_Key (filter (\<lambda>j. oj_Priority j = p) (held_job (os_lanes y (lane_of p))) @ ob_queue (os_sched y) p))"

fun runs_ok :: "'r outbound_event \<Rightarrow> bool" where
  "runs_ok (EvDone j n ok) \<longleftrightarrow> 1 \<le> n \<and> n \<le> (if oj_Retryable j then 3 else 1)"
| "runs_ok _ \<longleftrightarrow> True"

definition log_inv :: "'r outbound_system \<Rightarrow> bool" where
  "log_inv y \<longleftrightarrow> (\<forall>p. sent p (os_log y) = gone p (os_log y) @ ob_queue (os_sched y) p \<and> length (ob_queue (os_sched y) p) \<le> ob_cap (os_sched y) p \<and>
     (p \<noteq> PriorityDashboard \<longrightarrow> gone p (os_log y) = started p (os_log y))) \<and>
     (\<forall>(j, phase) \<in> set (os_calls y). oj_Priority j = PriorityDashboard) \<and>
     ob_accepted (os_sched y) = of_nat (accepted_count (os_log y))"

definition lane_inv :: "'r outbound_system \<Rightarrow> bool" where
  "lane_inv y \<longleftrightarrow> (\<forall>p. started p (os_log y) = executed p (os_log y) @ running p y) \<and>
     (\<forall>l. \<forall>j \<in> set (held_job (os_lanes y l)). lane_of (oj_Priority j) = l) \<and>
     list_all runs_ok (os_log y) \<and>
     ob_succeeded (os_sched y) = of_nat (done_count True (os_log y)) \<and> ob_failed (os_sched y) = of_nat (done_count False (os_log y))"

definition key_inv :: "'r outbound_system \<Rightarrow> bool" where
  "key_inv y \<longleftrightarrow> (\<forall>p. keyed p \<longrightarrow> distinct (live_keys p y) \<and> set (live_keys p y) = dom (map_of (ob_pending (os_sched y) p)))"

definition outbound_inv :: "'r outbound_system \<Rightarrow> bool" where
  "outbound_inv y \<longleftrightarrow> log_inv y \<and> lane_inv y \<and> key_inv y"

lemma inv_sent:
  assumes "outbound_inv y" "sent_view job (os_sched y) s"
  shows "outbound_inv (y\<lparr> os_sched := s, os_log := os_log y @ [EvAccepted job] \<rparr>)"
proof -
  have "log_inv (y\<lparr> os_sched := s, os_log := os_log y @ [EvAccepted job] \<rparr>)"
    using assms by (auto simp: outbound_inv_def log_inv_def sent_view_def Let_def)
  moreover have "lane_inv (y\<lparr> os_sched := s, os_log := os_log y @ [EvAccepted job] \<rparr>)"
    using assms by (auto simp: outbound_inv_def lane_inv_def sent_view_def running_def Let_def)
  moreover have "key_inv (y\<lparr> os_sched := s, os_log := os_log y @ [EvAccepted job] \<rparr>)"
  proof -
    have "distinct (live_keys p (y\<lparr> os_sched := s, os_log := os_log y @ [EvAccepted job] \<rparr>)) \<and>
        set (live_keys p (y\<lparr> os_sched := s, os_log := os_log y @ [EvAccepted job] \<rparr>)) = dom (map_of (ob_pending s p))" if k: "keyed p" for p
    proof -
      have old: "distinct (live_keys p y)" "set (live_keys p y) = dom (map_of (ob_pending (os_sched y) p))"
        using assms(1) k by (simp_all add: outbound_inv_def key_inv_def)
      have new: "live_keys p (y\<lparr> os_sched := s, os_log := os_log y @ [EvAccepted job] \<rparr>) =
          live_keys p y @ (if p = oj_Priority job \<and> oj_Key job \<noteq> [] then [oj_Key job] else [])"
        using assms(2) by (auto simp: live_keys_def sent_view_def Let_def)
      have pend: "map_of (ob_pending s p) = (if p = oj_Priority job \<and> oj_Key job \<noteq> [] then (map_of (ob_pending (os_sched y) p))(oj_Key job \<mapsto> ()) else map_of (ob_pending (os_sched y) p))"
        using assms(2) k by (auto simp: sent_view_def Let_def)
      have fresh: "p = oj_Priority job \<Longrightarrow> oj_Key job \<noteq> [] \<Longrightarrow> oj_Key job \<notin> set (live_keys p y)"
        unfolding old(2) using assms(2) k by (auto simp: sent_view_def Let_def)
      show ?thesis using old fresh unfolding new pend by auto
    qed
    then show ?thesis by (simp add: key_inv_def)
  qed
  ultimately show ?thesis by (simp add: outbound_inv_def)
qed

lemma inv_same:
  assumes "outbound_inv y" "same_view (os_sched y) s"
  shows "outbound_inv (y\<lparr> os_sched := s \<rparr>)"
  using assms by (auto simp: outbound_inv_def log_inv_def lane_inv_def key_inv_def same_view_def running_def live_keys_def)

lemma inv_calls:
  assumes "outbound_inv y" "\<forall>(j, phase) \<in> set calls. oj_Priority j = PriorityDashboard"
  shows "outbound_inv (y\<lparr> os_calls := calls \<rparr>)"
  using assms by (auto simp: outbound_inv_def log_inv_def lane_inv_def key_inv_def running_def live_keys_def)

lemma inv_drain:
  assumes "outbound_inv y"
  shows "outbound_inv (y\<lparr> os_sched := dashboard_drain (os_sched y), os_log := os_log y @ map EvReplaced (take 1 (ob_queue (os_sched y) PriorityDashboard)) \<rparr>)"
proof (cases "ob_queue (os_sched y) PriorityDashboard")
  case Nil
  then show ?thesis using assms by (simp add: dashboard_drain_def)
next
  case (Cons j rest)
  have "j \<in> set (sent PriorityDashboard (os_log y))" using assms Cons by (simp add: outbound_inv_def log_inv_def)
  then have p: "oj_Priority j = PriorityDashboard" by (rule sent_priority)
  have len: "Suc (length rest) \<le> ob_cap (os_sched y) PriorityDashboard" using assms Cons unfolding outbound_inv_def log_inv_def by (metis length_Cons)
  have s: "dashboard_drain (os_sched y) = os_sched y\<lparr> ob_queue := (ob_queue (os_sched y))(PriorityDashboard := rest), ob_coalesced := ob_coalesced (os_sched y) + 1 \<rparr>"
    by (simp add: dashboard_drain_def Cons)
  show ?thesis
    using assms Cons p len unfolding s
    by (auto simp: outbound_inv_def log_inv_def lane_inv_def key_inv_def running_def live_keys_def keyed_def)
qed

lemma inv_take:
  assumes inv: "outbound_inv y" and src: "p \<in> set (lane_sources l (os_lanes y l))" and rec: "receive_job p (os_sched y) = Some (job, s)"
  shows "outbound_inv (y\<lparr> os_sched := s, os_lanes := (os_lanes y)(l := Running job), os_log := os_log y @ [EvTaken job] \<rparr>)"
proof -
  obtain rest where q: "ob_queue (os_sched y) p = job # rest" "s = os_sched y\<lparr> ob_queue := (ob_queue (os_sched y))(p := rest) \<rparr>"
    using rec by (auto simp: receive_job_def split: list.splits)
  have "job \<in> set (sent p (os_log y))" using inv q(1) by (simp add: outbound_inv_def log_inv_def)
  then have p: "oj_Priority job = p" by (rule sent_priority)
  have l: "lane_of p = l" and idle: "held_job (os_lanes y l) = []" "running_job (os_lanes y l) = []"
    using src by (cases l; cases "os_lanes y l"; auto)+
  have len: "Suc (length rest) \<le> ob_cap (os_sched y) p" using inv q(1) unfolding outbound_inv_def log_inv_def by (metis length_Cons)
  let ?y = "y\<lparr> os_sched := s, os_lanes := (os_lanes y)(l := Running job), os_log := os_log y @ [EvTaken job] \<rparr>"
  have "log_inv ?y" using inv q len p by (auto simp: outbound_inv_def log_inv_def)
  moreover have "lane_inv ?y" using inv q(2) p l idle by (auto simp: outbound_inv_def lane_inv_def running_def)
  moreover have "live_keys r ?y = live_keys r y" for r
    using q p l idle by (auto simp: live_keys_def)
  then have "key_inv ?y" using inv q(2) by (simp add: outbound_inv_def key_inv_def)
  ultimately show ?thesis by (simp add: outbound_inv_def)
qed

lemma inv_idle:
  assumes "outbound_inv y" "held_job (os_lanes y l) = []" "held_job st = []"
  shows "outbound_inv (y\<lparr> os_lanes := (os_lanes y)(l := st) \<rparr>)"
proof -
  have r: "running_job (os_lanes y l) = []" "running_job st = []" using assms(2,3) by (cases "os_lanes y l"; cases st; simp)+
  have "live_keys p (y\<lparr> os_lanes := (os_lanes y)(l := st) \<rparr>) = live_keys p y" "running p (y\<lparr> os_lanes := (os_lanes y)(l := st) \<rparr>) = running p y" for p
    using assms(2,3) r by (simp_all add: live_keys_def running_def)
  then show ?thesis using assms by (auto simp: outbound_inv_def log_inv_def lane_inv_def key_inv_def)
qed

lemma inv_run:
  assumes inv: "outbound_inv y" and st: "os_lanes y l = Running job" and ex: "execute env job (os_sched y) = (n, ok, s)"
  shows "outbound_inv (y\<lparr> os_sched := s, os_lanes := (os_lanes y)(l := Releasing job), os_log := os_log y @ [EvDone job n ok] \<rparr>)"
proof -
  let ?y = "y\<lparr> os_sched := s, os_lanes := (os_lanes y)(l := Releasing job), os_log := os_log y @ [EvDone job n ok] \<rparr>"
  note v = execute_view [OF ex]
  have l: "lane_of (oj_Priority job) = l" using inv st unfolding outbound_inv_def lane_inv_def by (metis held_job.simps(1) list.set_intros(1))
  have "log_inv ?y" using inv v by (auto simp: outbound_inv_def log_inv_def)
  moreover have "lane_inv ?y" unfolding lane_inv_def
  proof (intro conjI allI ballI impI)
    show "started p (os_log ?y) = executed p (os_log ?y) @ running p ?y" for p
      using inv st l by (auto simp: outbound_inv_def lane_inv_def running_def)
  qed (use inv v st l in \<open>auto simp: outbound_inv_def lane_inv_def split: if_splits\<close>)
  moreover have "live_keys r ?y = live_keys r y" for r using v st by (auto simp: live_keys_def)
  then have "key_inv ?y" using inv v by (simp add: outbound_inv_def key_inv_def)
  ultimately show ?thesis by (simp add: outbound_inv_def)
qed

lemma inv_release:
  assumes inv: "outbound_inv y" and st: "os_lanes y l = Releasing job"
  shows "outbound_inv (y\<lparr> os_sched := releasePending job (os_sched y), os_lanes := (os_lanes y)(l := AtNext) \<rparr>)"
proof -
  let ?y = "y\<lparr> os_sched := releasePending job (os_sched y), os_lanes := (os_lanes y)(l := AtNext) \<rparr>"
  have l: "lane_of (oj_Priority job) = l" using inv st unfolding outbound_inv_def lane_inv_def by (metis held_job.simps(2) list.set_intros(1))
  have "log_inv ?y" using inv by (auto simp: outbound_inv_def log_inv_def releasePending_def Let_def)
  moreover have "lane_inv ?y" using inv st by (auto simp: outbound_inv_def lane_inv_def running_def releasePending_def Let_def)
  moreover have "distinct (live_keys p ?y) \<and> set (live_keys p ?y) = dom (map_of (ob_pending (os_sched ?y) p))" if k: "keyed p" for p
  proof -
    have old: "distinct (live_keys p y)" "set (live_keys p y) = dom (map_of (ob_pending (os_sched y) p))"
      using inv k by (simp_all add: outbound_inv_def key_inv_def)
    show ?thesis
    proof (cases "p = oj_Priority job \<and> oj_Key job \<noteq> []")
      case True
      have new: "live_keys p y = oj_Key job # live_keys p ?y" using True st l by (auto simp: live_keys_def releasePending_def Let_def)
      have pend: "map_of (ob_pending (os_sched ?y) p) = (map_of (ob_pending (os_sched y) p))(oj_Key job := None)"
        using True k by (auto simp: releasePending_def keyed_def fun_eq_iff Let_def)
      show ?thesis using old unfolding new pend by auto
    next
      case False
      have "live_keys p ?y = live_keys p y" using False st by (auto simp: live_keys_def releasePending_def Let_def)
      moreover have "ob_pending (os_sched ?y) p = ob_pending (os_sched y) p" using False by (auto simp: releasePending_def Let_def)
      ultimately show ?thesis using old by simp
    qed
  qed
  then have "key_inv ?y" by (simp add: key_inv_def)
  ultimately show ?thesis by (simp add: outbound_inv_def)
qed

lemma outbound_step_inv: "outbound_step y z \<Longrightarrow> outbound_inv y \<Longrightarrow> outbound_inv z"
proof (induction rule: outbound_step.induct)
  case (call dn pick job y res s)
  then show ?case using Enqueue_view [OF call(1,2)] inv_sent [of y job s] inv_same [of y s]
    by (cases "res = Accepted") (simp_all add: log_sent_def)
next
  case (dash_send job y s)
  then show ?case using channel_send_view [of job "os_sched y" s] inv_sent by (simp add: keyed_def)
next
  case (dash_full job y)
  then show ?case by (intro inv_calls) (auto simp: outbound_inv_def log_inv_def)
next
  case (dash_drain job y)
  have "\<forall>(j, phase) \<in> set ((job, DashLast) # remove1 (job, DashDrain) (os_calls y)). oj_Priority j = PriorityDashboard"
    using dash_drain set_remove1_subset [of "(job, DashDrain)" "os_calls y"] by (auto simp: outbound_inv_def log_inv_def)
  from inv_calls [OF inv_drain [OF dash_drain(2)] this] show ?case by (cases y) simp
next
  case (dash_last job y res s)
  have p: "oj_Priority job = PriorityDashboard" using dash_last(1,3) by (auto simp: outbound_inv_def log_inv_def)
  have c: "\<forall>(j, phase) \<in> set (remove1 (job, DashLast) (os_calls y)). oj_Priority j = PriorityDashboard"
    using dash_last set_remove1_subset [of "(job, DashLast)" "os_calls y"] by (auto simp: outbound_inv_def log_inv_def)
  show ?case
  proof (cases "res = Accepted")
    case True
    then show ?thesis using inv_calls [OF inv_sent [OF dash_last(3), of job s] c] dashboard_last_view [OF dash_last(2) p] by (cases y) (simp add: log_sent_def)
  next
    case False
    then show ?thesis using inv_calls [OF inv_same [OF dash_last(3), of s] c] dashboard_last_view [OF dash_last(2) p] by (cases y) (simp add: log_sent_def)
  qed
qed (auto intro: inv_take inv_idle inv_run inv_release)

lemma outbound_start_inv: "outbound_inv (outbound_start (NewOutboundScheduler e i a r))"
  by (auto simp: outbound_inv_def log_inv_def lane_inv_def key_inv_def outbound_start_def NewOutboundScheduler_def running_def live_keys_def)

lemma outbound_reachable_inv:
  "outbound_step\<^sup>*\<^sup>* (outbound_start (NewOutboundScheduler e i a r)) y \<Longrightarrow> outbound_inv y"
  by (induction rule: rtranclp_induct) (auto intro: outbound_start_inv outbound_step_inv)

lemma outbound_step_cap: "outbound_step y z \<Longrightarrow> outbound_inv y \<Longrightarrow> ob_cap (os_sched z) = ob_cap (os_sched y)"
proof (induction rule: outbound_step.induct)
  case (call dn pick job y res s)
  then show ?case using Enqueue_view [OF call(1,2)] by (auto simp: same_view_def sent_view_def Let_def split: if_splits)
next
  case (dash_last job y res s)
  then show ?case by (auto simp: dashboard_last_def channel_send_def count_accepted_def count_dropped_def Let_def split: option.splits if_splits)
next
  case (lane_run y l job env n ok s)
  then show ?case using execute_view(2) by simp
qed (auto simp: channel_send_def count_accepted_def dashboard_drain_def receive_job_def releasePending_def Let_def split: list.splits if_splits)

text \<open>
  C9. Discord receives what was accepted. In every state the scheduler reaches, under any
  interleaving of its callers and its four lanes, and for every priority: the accepted jobs
  are the finished ones, then the one running, then the queued ones, in this order, so each is
  run once and none is lost or overtaken by a later one of its priority; only a dashboard may
  be thrown out, by a newer one. No queue exceeds its capacity. A job is tried once, or three
  times at most if it may be retried. The key of an alert or a report is pending exactly while
  its job is queued or held by a lane, and no key is there twice. The counters count.
\<close>

theorem outbound_exact:
  assumes "outbound_step\<^sup>*\<^sup>* (outbound_start (NewOutboundScheduler e i a r)) y"
  shows "(p \<noteq> PriorityDashboard \<longrightarrow> sent p (os_log y) = executed p (os_log y) @ running p y @ ob_queue (os_sched y) p) \<and>
    sent PriorityDashboard (os_log y) = gone PriorityDashboard (os_log y) @ ob_queue (os_sched y) PriorityDashboard \<and>
    started PriorityDashboard (os_log y) = executed PriorityDashboard (os_log y) @ running PriorityDashboard y \<and>
    length (ob_queue (os_sched y) p) \<le> ob_cap (NewOutboundScheduler e i a r :: 'r scheduler) p \<and>
    (keyed p \<longrightarrow> distinct (live_keys p y) \<and> set (live_keys p y) = dom (map_of (ob_pending (os_sched y) p))) \<and>
    list_all runs_ok (os_log y) \<and>
    ob_accepted (os_sched y) = of_nat (accepted_count (os_log y)) \<and> ob_succeeded (os_sched y) = of_nat (done_count True (os_log y)) \<and>
    ob_failed (os_sched y) = of_nat (done_count False (os_log y))"
proof -
  have inv: "outbound_inv y" using assms by (rule outbound_reachable_inv)
  have "ob_cap (os_sched y) = ob_cap (NewOutboundScheduler e i a r :: 'r scheduler)"
    using assms
  proof (induction rule: rtranclp_induct)
    case (step y z)
    then show ?case using outbound_step_cap outbound_reachable_inv by metis
  qed (simp add: outbound_start_def NewOutboundScheduler_def)
  then show ?thesis using inv unfolding outbound_inv_def log_inv_def lane_inv_def key_inv_def by simp
qed

section \<open>Witness\<close>

theorem outbound_exact_witness:
  "let job = \<lparr> oj_Key = ''emergency:ABC'', oj_Priority = PriorityEmergency, oj_Retryable = True, oj_Run = Some () \<rparr>;
       s = snd (the (outbound_Enqueue False False job (NewOutboundScheduler 64 128 256 32)))
   in ob_queue s PriorityEmergency = [job] \<and> length (ob_queue s PriorityEmergency) \<le> 64"
proof -
  define job where "job = \<lparr> oj_Key = ''emergency:ABC'', oj_Priority = PriorityEmergency, oj_Retryable = True, oj_Run = Some () \<rparr>"
  define s where "s = snd (the (outbound_Enqueue False False job (NewOutboundScheduler 64 128 256 32)))"
  define y0 where "y0 = outbound_start (NewOutboundScheduler 64 128 256 32 :: unit scheduler)"
  have e: "outbound_Enqueue False False job (os_sched y0) = Some (Accepted, s)"
    by (simp add: s_def y0_def outbound_start_def job_def outbound_Enqueue_def enqueue_blocking_def channel_send_def NewOutboundScheduler_def)
  have q: "ob_queue s PriorityEmergency = [job]"
    by (simp add: s_def job_def outbound_Enqueue_def enqueue_blocking_def channel_send_def NewOutboundScheduler_def count_accepted_def)
  have "outbound_step\<^sup>*\<^sup>* y0 (y0\<lparr> os_sched := s, os_log := os_log y0 @ log_sent job Accepted \<rparr>)"
    using outbound_step.call [OF e] by (simp add: job_def)
  from outbound_exact [OF this [unfolded y0_def], of PriorityEmergency]
  have "length (ob_queue s PriorityEmergency) \<le> 64" by (simp add: NewOutboundScheduler_def)
  then show ?thesis using q unfolding s_def job_def Let_def by simp
qed

end
