(* ===== verification/Alert_Delivery.thy ===== *)
theory Alert_Delivery
  imports Rule_Engine Outbound
begin

text \<open>
  From an alert to a message in a channel: \<open>SubmitAlert\<close>, \<open>sendAlert\<close> and what they use of
  \<open>internal/discord/client.go\<close>, the muted squawk codes of \<open>admin.go\<close>, and the loop of
  \<open>internal/app/app.go\<close> that completes the alerts of the rule engine. The answers of the
  database, the cache of routes and the answer of Discord are an environment; a message is the
  channel, the alert and the units it is rendered with, and its nonce. SHA-256 is a parameter.
\<close>

section \<open>Settings\<close>

record guild_settings =
  gs_GuildID :: u64
  gs_Units :: string
  gs_Timezone :: string
  gs_AlertsPaused :: bool
  gs_MutedSquawks :: string
  gs_DefaultFeederID :: feeder_id
  gs_CreatedAt :: time
  gs_UpdatedAt :: time

record channel_binding =
  cb_GuildID :: u64
  cb_Purpose :: string
  cb_ChannelID :: u64
  cb_UpdatedAt :: time

record alert_config =
  ag_GuildID :: u64
  ag_Category :: string
  ag_Enabled :: bool
  ag_Cooldown :: duration
  ag_Destination :: u64
  ag_UpdatedAt :: time

text \<open>\<open>squawkPattern\<close>: four octal digits.\<close>

definition octal_char :: "char \<Rightarrow> bool" where
  "octal_char c \<longleftrightarrow> CHR ''0'' \<le> c \<and> c \<le> CHR ''7''"

definition squawkPattern :: "string \<Rightarrow> bool" where
  "squawkPattern code \<longleftrightarrow> length code = 4 \<and> list_all octal_char code"

fun split_muted :: "string list \<Rightarrow> string list \<Rightarrow> string list" where
  "split_muted [] result = result"
| "split_muted (part # parts) result =
     (let code = trim_space part in
      if \<not> squawkPattern code then split_muted parts result
      else if code \<in> set result then split_muted parts result
      else split_muted parts (result @ [code]))"

definition splitMutedSquawks :: "string \<Rightarrow> string list" where
  "splitMutedSquawks raw = split_muted (split_on CHR '','' raw) []"

definition joinMutedSquawk :: "string \<Rightarrow> string \<Rightarrow> string" where
  "joinMutedSquawk existing code =
     (let parts = splitMutedSquawks existing in
      if code \<in> set parts then join_with '','' parts else join_with '','' (parts @ [code]))"

definition removeMutedSquawk :: "string \<Rightarrow> string \<Rightarrow> string" where
  "removeMutedSquawk existing code = join_with '','' (filter (\<lambda>part. part \<noteq> code) (splitMutedSquawks existing))"

definition mutedSquawkSet :: "string \<Rightarrow> string set" where
  "mutedSquawkSet raw = set (splitMutedSquawks raw)"

text \<open>The four subcommands of \<open>/settings\<close> that concern the delivery of alerts; \<open>None\<close>: the command is refused.\<close>

datatype settings_command = PauseAlerts | ResumeAlerts | MuteSquawk string | UnmuteSquawk string

fun settings_update :: "settings_command \<Rightarrow> guild_settings \<Rightarrow> guild_settings option" where
  "settings_update PauseAlerts settings = Some (settings\<lparr> gs_AlertsPaused := True \<rparr>)"
| "settings_update ResumeAlerts settings = Some (settings\<lparr> gs_AlertsPaused := False \<rparr>)"
| "settings_update (MuteSquawk value) settings =
     (let code = trim_space value in
      if \<not> squawkPattern code then None else Some (settings\<lparr> gs_MutedSquawks := joinMutedSquawk (gs_MutedSquawks settings) code \<rparr>))"
| "settings_update (UnmuteSquawk value) settings =
     (let code = trim_space value in
      if \<not> squawkPattern code then None else Some (settings\<lparr> gs_MutedSquawks := removeMutedSquawk (gs_MutedSquawks settings) code \<rparr>))"

section \<open>Where an alert goes\<close>

definition extractAlertSquawk :: "alert \<Rightarrow> string" where
  "extractAlertSquawk al =
     (let parts = split_on CHR '':'' (al_ConditionFingerprint al) in
      if al_Type al = RuleSquawk \<and> squawkPattern (last parts) then last parts
      else if prefix ''emergency:'' (al_ConditionFingerprint al) \<and> length parts \<ge> 2 \<and> squawkPattern (parts ! 1) then parts ! 1
      else [])"

definition alertDestination :: "alert \<Rightarrow> string \<times> string" where
  "alertDestination al =
     (if al_Priority al = AlertEmergency then (''emergencies'', ''emergency'')
      else if al_Type al = RuleInteresting then
        (if al_InterestingPriority al then (''high-interest'', ''high-interest'') else (''interesting'', ''interesting''))
      else if al_Type al = RuleTakeoff \<or> al_Type al = RuleLanding \<or> al_Type al = RuleApproach then (''alerts'', ''movements'')
      else if al_Type al = RuleFeeder then (''alerts'', ''feeder'')
      else (''alerts'', ''watch''))"

definition bound_channel :: "string \<Rightarrow> channel_binding list \<Rightarrow> u64 option" where
  "bound_channel purpose bindings = map_option cb_ChannelID (find (\<lambda>b. cb_Purpose b = purpose) bindings)"

definition boundAlertDestination :: "channel_binding list \<Rightarrow> string \<Rightarrow> u64 \<times> string" where
  "boundAlertDestination bindings purpose =
     (case bound_channel purpose bindings of
        Some channel \<Rightarrow> (channel, purpose)
      | None \<Rightarrow>
          if purpose = ''high-interest'' then
            (case bound_channel ''interesting'' bindings of Some channel \<Rightarrow> (channel, ''interesting'') | None \<Rightarrow> (0, purpose))
          else (0, purpose))"

definition firstNonEmpty_router :: "string list \<Rightarrow> string" where
  "firstNonEmpty_router values = (case find (\<lambda>v. trim_space v \<noteq> []) values of None \<Rightarrow> ''Unknown'' | Some v \<Rightarrow> trim_space v)"

text \<open>The arrow between the codes is three bytes of UTF-8.\<close>

definition routeSummary :: "route \<Rightarrow> string" where
  "routeSummary r =
     (let origin = firstNonEmpty_router [ap_IATA (rt_Origin r), ap_ICAO (rt_Origin r)];
          destination = firstNonEmpty_router [ap_IATA (rt_Destination r), ap_ICAO (rt_Destination r)]
      in if origin = [] \<and> destination = [] then []
         else (if origin = [] then ''?'' else origin) @ [CHR 0xE2, CHR 0x86, CHR 0x92] @ (if destination = [] then ''?'' else destination))"

section \<open>Cooldown of deliveries\<close>

type_synonym delivered = "(string, time) gomap"

definition inCooldown :: "string \<Rightarrow> time \<Rightarrow> duration \<Rightarrow> delivered \<Rightarrow> bool" where
  "inCooldown key now cooldown d =
     (let last_at = (case map_of d key of None \<Rightarrow> time_zero | Some t \<Rightarrow> t) in last_at \<noteq> time_zero \<and> time_sub now last_at < cooldown)"

text \<open>The scan for the oldest entry; the empty key stands for none yet.\<close>

definition older_entry :: "string \<times> time \<Rightarrow> string \<times> time \<Rightarrow> string \<times> time" where
  "older_entry candidate oldest = (if fst oldest = [] \<or> snd candidate < snd oldest then candidate else oldest)"

definition markDelivered :: "string \<Rightarrow> time \<Rightarrow> delivered \<Rightarrow> delivered" where
  "markDelivered key now d0 =
     (let d = AList.update key now d0 in
      if length d > 10000 then
        let d1 = gm_delete_if (\<lambda>(_, sent_at). sent_at < now - 24 * hour) d in
        if length d1 > 10000 then AList.delete (fst (fold older_entry d1 ([], now))) d1 else d1
      else d)"

section \<open>Sending an alert\<close>

datatype send_error = DeliveryNotReady | RepositoryError string | NoChannel string | CreateError string

record sent_alert =
  sa_Channel :: u64
  sa_Alert :: alert
  sa_Units :: unit_system
  sa_Interesting :: bool
  sa_Nonce :: string

text \<open>\<open>dx_route\<close> is the route \<open>CachedRoute\<close> finds without an error, if there is a route service.\<close>

record delivery_env =
  dx_ready :: bool
  dx_settings :: "send_error + guild_settings"
  dx_route :: "string \<Rightarrow> route option"
  dx_bindings :: "send_error + channel_binding list"
  dx_configs :: "send_error + alert_config list"
  dx_settingsAgain :: "send_error + guild_settings"
  dx_create :: "send_error option"

text \<open>The guards on pauses and muted codes.\<close>

definition alert_silenced :: "guild_settings \<Rightarrow> alert \<Rightarrow> bool" where
  "alert_silenced settings al =
     (if gs_AlertsPaused settings \<and> al_Priority al \<noteq> AlertEmergency then True
      else
        let muted = mutedSquawkSet (gs_MutedSquawks settings) in
        if muted = {} then False
        else if extractAlertSquawk al \<in> muted \<and> al_Priority al \<noteq> AlertEmergency then True
        else al_Priority al = AlertEmergency \<and> extractAlertSquawk al \<noteq> [] \<and> extractAlertSquawk al \<in> muted)"

definition with_route :: "(string \<Rightarrow> route option) \<Rightarrow> alert \<Rightarrow> alert" where
  "with_route routes al =
     (if al_RouteSummary al = [] then
        let callsign = to_upper (trim_space (al_Callsign al)) in
        if callsign \<noteq> [] then (case routes callsign of Some r \<Rightarrow> al\<lparr> al_RouteSummary := routeSummary r \<rparr> | None \<Rightarrow> al) else al
      else al)"

definition boundedNonce :: "(string \<Rightarrow> string) \<Rightarrow> string \<Rightarrow> string" where
  "boundedNonce sha256_hex value = take 24 (sha256_hex value)"

text \<open>The result: an error, or what was sent if anything was, and the times of deliveries.\<close>

definition sendAlert ::
    "(string \<Rightarrow> string) \<Rightarrow> delivery_env \<Rightarrow> alert \<Rightarrow> delivered \<Rightarrow> (send_error + sent_alert option) \<times> delivered" where
  "sendAlert sha256_hex env al0 d =
     (if \<not> dx_ready env then (Inl DeliveryNotReady, d)
      else if (case dx_settings env of Inl _ \<Rightarrow> False | Inr settings \<Rightarrow> alert_silenced settings al0) then (Inr None, d)
      else
        let al = with_route (dx_route env) al0 in
        case dx_bindings env of
          Inl e \<Rightarrow> (Inl e, d)
        | Inr bindings \<Rightarrow>
            let (purpose0, category) = alertDestination al; (destination0, purpose) = boundAlertDestination bindings purpose0 in
            case dx_configs env of
              Inl e \<Rightarrow> (Inl e, d)
            | Inr configs \<Rightarrow>
                let configured = find (\<lambda>c. ag_Category c = category) configs in
                if (case configured of Some c \<Rightarrow> \<not> ag_Enabled c | None \<Rightarrow> False) then (Inr None, d)
                else
                  let destination = (case configured of Some c \<Rightarrow> if ag_Destination c \<noteq> 0 then ag_Destination c else destination0 | None \<Rightarrow> destination0);
                      cooldown = (case configured of Some c \<Rightarrow> ag_Cooldown c | None \<Rightarrow> 0);
                      key = category @ '':'' @ al_ConditionFingerprint al @ '':'' @ al_AircraftICAO al
                  in if destination = 0 then (Inl (NoChannel purpose), d)
                     else if al_Priority al \<noteq> AlertEmergency \<and> cooldown > 0 \<and> inCooldown key (al_ObservedAt al) cooldown d then (Inr None, d)
                     else
                       let units = (case dx_settingsAgain env of Inl _ \<Rightarrow> DefaultUnitSystem | Inr settings \<Rightarrow> NormalizeUnitSystem (gs_Units settings));
                           message = \<lparr> sa_Channel = destination, sa_Alert = al, sa_Units = units, sa_Interesting = (al_Type al = RuleInteresting),
                                       sa_Nonce = boundedNonce sha256_hex (al_ID al) \<rparr>
                       in case dx_create env of
                            Some e \<Rightarrow> (Inl e, d)
                          | None \<Rightarrow>
                              (Inr (Some message),
                               if al_Priority al \<noteq> AlertEmergency \<and> cooldown > 0 then markDelivered key (al_ObservedAt al) d else d))"

section \<open>Submitting an alert\<close>

text \<open>The function of the job is the alert it sends.\<close>

definition SubmitAlert :: "alert \<Rightarrow> alert outbound_job" where
  "SubmitAlert al = \<lparr> oj_Key = al_ConditionFingerprint al @ '':'' @ al_AircraftICAO al,
     oj_Priority = (if al_Priority al = AlertEmergency then PriorityEmergency else PriorityAlert), oj_Retryable = True, oj_Run = Some al \<rparr>"

text \<open>How the observer of published snapshots completes an alert before it is queued.\<close>

definition complete_alert :: "u64 \<Rightarrow> feeder_id \<Rightarrow> alert \<Rightarrow> alert" where
  "complete_alert guild feeder al0 =
     (let al = (if al_FeederID al0 = [] then al0\<lparr> al_FeederID := feeder \<rparr> else al0) in
      if al_Priority al = AlertEmergency \<and> al_GuildID al = 0 then al\<lparr> al_GuildID := guild \<rparr> else al)"

end
