(* ===== verification/Schedules.thy ===== *)
theory Schedules
  imports Outbound
begin

text \<open>
  Scheduled messages: the reports and the digest for administrators of
  \<open>internal/discord/client.go\<close>, with the table of schedules of
  \<open>internal/storage/sqlite/store.go\<close> and the state of the digest of \<open>store_admin_digest.go\<close>.
  Day one of the zero time is a Monday and every day has 24 hours in UTC. A job is the report or
  the digest it sends.
\<close>

section \<open>Periods\<close>

abbreviation day :: duration where
  "day \<equiv> 24 * hour"

definition reportPeriodStart :: "string \<Rightarrow> time \<Rightarrow> time" where
  "reportPeriodStart cadence now =
     (let today = now - now mod day in
      if cadence = ''daily'' then today
      else if cadence = ''weekly'' then today - (today div day mod 7) * day
      else time_zero)"

definition completedReportPeriod :: "string \<Rightarrow> time \<Rightarrow> time \<times> time" where
  "completedReportPeriod cadence now =
     (let until = reportPeriodStart cadence now in
      if cadence = ''daily'' then (until - day, until)
      else if cadence = ''weekly'' then (until - 7 * day, until)
      else (time_zero, time_zero))"

text \<open>Division of \<open>int64\<close> truncates.\<close>

definition go_quot :: "int \<Rightarrow> int \<Rightarrow> int" where
  "go_quot a b = sgn a * sgn b * (\<bar>a\<bar> div \<bar>b\<bar>)"

definition from_unix :: "int \<Rightarrow> time" where
  "from_unix s = (s + unix_epoch_seconds) * second"

definition adminDigestPeriodStart :: "time \<Rightarrow> duration \<Rightarrow> time" where
  "adminDigestPeriodStart now interval =
     (if interval \<le> 0 then now
      else let unix = time_unix now; seconds = max 1 (go_quot interval second) in from_unix (go_quot unix seconds * seconds))"

section \<open>Schedules\<close>

record report_schedule =
  sd_ID :: int
  sd_GuildID :: u64
  sd_Cadence :: string
  sd_Destination :: u64
  sd_Enabled :: bool
  sd_LastRun :: time
  sd_UpdatedAt :: time

text \<open>The table, in the order of its identifiers.\<close>

type_synonym schedules = "report_schedule list"

definition reportDue :: "report_schedule \<Rightarrow> time \<Rightarrow> bool" where
  "reportDue s now = (let start = reportPeriodStart (sd_Cadence s) now in start \<noteq> time_zero \<and> sd_LastRun s < start)"

definition same_schedule :: "report_schedule \<Rightarrow> report_schedule \<Rightarrow> bool" where
  "same_schedule a b \<longleftrightarrow> sd_GuildID a = sd_GuildID b \<and> sd_Cadence a = sd_Cadence b \<and> sd_Destination a = sd_Destination b"

text \<open>\<open>clock\<close>: the reading when no time is given; \<open>fresh\<close>: the identifier of a new row.\<close>

definition UpsertReportSchedule :: "time \<Rightarrow> int \<Rightarrow> report_schedule \<Rightarrow> schedules \<Rightarrow> schedules" where
  "UpsertReportSchedule clock fresh v db =
     (let now = (if sd_UpdatedAt v = time_zero then clock else sd_UpdatedAt v);
          lastRun = (if sd_LastRun v = time_zero then now else sd_LastRun v)
      in if list_ex (same_schedule v) db
         then map (\<lambda>row. if same_schedule v row then row\<lparr> sd_Enabled := sd_Enabled v, sd_UpdatedAt := now \<rparr> else row) db
         else db @ [v\<lparr> sd_ID := fresh, sd_UpdatedAt := now, sd_LastRun := lastRun \<rparr>])"

definition ReportSchedules :: "u64 \<Rightarrow> schedules \<Rightarrow> schedules" where
  "ReportSchedules guild db = take 100 (filter (\<lambda>row. sd_GuildID row = guild) db)"

text \<open>\<open>False\<close>: no row has changed, which is an error.\<close>

definition MarkReportScheduleRun :: "int \<Rightarrow> u64 \<Rightarrow> time \<Rightarrow> schedules \<Rightarrow> bool \<times> schedules" where
  "MarkReportScheduleRun i guild ranAt db =
     (list_ex (\<lambda>row. sd_ID row = i \<and> sd_GuildID row = guild) db,
      map (\<lambda>row. if sd_ID row = i \<and> sd_GuildID row = guild then row\<lparr> sd_LastRun := ranAt \<rparr> else row) db)"

section \<open>Jobs\<close>

datatype report_task = SendReport report_schedule time | SendDigest u64 time time

definition report_job :: "report_schedule \<Rightarrow> time \<Rightarrow> report_task outbound_job" where
  "report_job s now = \<lparr> oj_Key = ''report:'' @ format_int (sd_ID s) @ '':'' @ format_int (time_unix (reportPeriodStart (sd_Cadence s) now)),
     oj_Priority = PriorityReport, oj_Retryable = True, oj_Run = Some (SendReport s now) \<rparr>"

definition enqueueDueReports :: "time \<Rightarrow> schedules \<Rightarrow> report_task scheduler \<Rightarrow> report_task scheduler" where
  "enqueueDueReports now rows s =
     fold (\<lambda>row s. if \<not> sd_Enabled row \<or> \<not> reportDue row now then s else snd (enqueueDeduplicated (report_job row now) s)) rows s"

text \<open>A report that is sent: its channel, the period it covers, and the text its nonce is made of.\<close>

record sent_report =
  sn_Schedule :: int
  sn_Channel :: u64
  sn_From :: time
  sn_To :: time
  sn_NonceKey :: string

datatype report_error = ReportNotReady | UnsupportedCadence string | ReportRepository string | ReportCreate string

text \<open>\<open>ready\<close>: a client is connected; the errors of the summary, of Discord and of the update of the row.\<close>

definition sendScheduledReport ::
    "bool \<Rightarrow> report_error option \<Rightarrow> report_error option \<Rightarrow> report_error option \<Rightarrow> report_schedule \<Rightarrow> time \<Rightarrow> schedules
     \<Rightarrow> report_error option \<times> sent_report list \<times> schedules" where
  "sendScheduledReport ready summaryErr createErr markErr s now db =
     (if \<not> ready then (Some ReportNotReady, [], db)
      else
        let (from', to') = completedReportPeriod (sd_Cadence s) now in
        if from' = time_zero \<or> to' = time_zero then (Some (UnsupportedCadence (sd_Cadence s)), [], db)
        else case summaryErr of Some e \<Rightarrow> (Some e, [], db)
        | None \<Rightarrow>
            (case createErr of Some e \<Rightarrow> (Some e, [], db)
             | None \<Rightarrow>
                 let sent = [\<lparr> sn_Schedule = sd_ID s, sn_Channel = sd_Destination s, sn_From = from', sn_To = to',
                       sn_NonceKey = ''skyfeed-report-'' @ format_int (sd_ID s) @ ''-'' @ format_int (time_unix (reportPeriodStart (sd_Cadence s) now)) \<rparr>]
                 in case markErr of Some e \<Rightarrow> (Some e, sent, db)
                    | None \<Rightarrow>
                        let (changed, db') = MarkReportScheduleRun (sd_ID s) (sd_GuildID s) now db in
                        (if changed then None else Some (ReportRepository ''no rows''), sent, db')))"

section \<open>The digest\<close>

text \<open>The last run, or the zero time; \<open>admin\<close>: the channel bound for administrators, zero for none.\<close>

definition digest_job :: "u64 \<Rightarrow> u64 \<Rightarrow> time \<Rightarrow> time \<Rightarrow> report_task outbound_job" where
  "digest_job guild destination period now =
     \<lparr> oj_Key = ''admin-digest:'' @ format_int (uint guild) @ '':'' @ format_int (time_unix period),
       oj_Priority = PriorityReport, oj_Retryable = True, oj_Run = Some (SendDigest destination period now) \<rparr>"

definition enqueueDueAdminDigest :: "duration \<Rightarrow> u64 \<Rightarrow> u64 \<Rightarrow> time \<Rightarrow> time \<Rightarrow> report_task scheduler \<Rightarrow> report_task scheduler" where
  "enqueueDueAdminDigest interval guild admin lastRun now s =
     (if interval \<le> 0 \<or> guild = 0 then s
      else
        let periodStart = adminDigestPeriodStart now interval in
        if lastRun \<noteq> time_zero \<and> \<not> lastRun < periodStart then s
        else if admin = 0 then s
        else snd (enqueueDeduplicated (digest_job guild admin periodStart now) s))"

definition MarkAdminDigestRun :: "time \<Rightarrow> u64 \<Rightarrow> time \<Rightarrow> (u64, time) gomap \<Rightarrow> (u64, time) gomap" where
  "MarkAdminDigestRun clock guild ranAt db = AList.update guild (if ranAt = time_zero then clock else ranAt) db"

definition AdminDigestLastRun :: "u64 \<Rightarrow> (u64, time) gomap \<Rightarrow> time" where
  "AdminDigestLastRun guild db = (case map_of db guild of None \<Rightarrow> time_zero | Some t \<Rightarrow> t)"

section \<open>The schedules at work\<close>

text \<open>
  The ticks of \<open>runReportScheduler\<close> and the lane that runs the jobs. A message that Discord
  accepts and the update of its row succeed together: a message that is sent again because the
  update failed carries the same nonce, which Discord is told to enforce.
\<close>

record report_system =
  ry_sched :: "report_task scheduler"
  ry_lane :: "report_task lane_state"
  ry_db :: schedules
  ry_clock :: time
  ry_sent :: "sent_report list"

inductive report_step :: "u64 \<Rightarrow> report_system \<Rightarrow> report_system \<Rightarrow> bool" for guild :: u64 where
  tick: "ry_clock y \<le> now \<Longrightarrow> report_step guild y
    (y\<lparr> ry_clock := now, ry_sched := enqueueDueReports now (ReportSchedules guild (ry_db y)) (ry_sched y) \<rparr>)"
| take: "ry_lane y = AtNext \<Longrightarrow> receive_job PriorityReport (ry_sched y) = Some (job, s) \<Longrightarrow>
    report_step guild y (y\<lparr> ry_sched := s, ry_lane := Running job \<rparr>)"
| run: "ry_lane y = Running job \<Longrightarrow> oj_Run job = Some (SendReport row now) \<Longrightarrow>
    sendScheduledReport ready summaryErr createErr None row now (ry_db y) = (err, sent, db) \<Longrightarrow>
    report_step guild y (y\<lparr> ry_lane := Releasing job, ry_db := db, ry_sent := ry_sent y @ sent \<rparr>)"
| release: "ry_lane y = Releasing job \<Longrightarrow> report_step guild y (y\<lparr> ry_sched := releasePending job (ry_sched y), ry_lane := AtNext \<rparr>)"

definition report_start :: "report_task scheduler \<Rightarrow> schedules \<Rightarrow> time \<Rightarrow> report_system" where
  "report_start s db now = \<lparr> ry_sched = s, ry_lane = AtNext, ry_db = db, ry_clock = now, ry_sent = [] \<rparr>"

end
