(* ===== verification/Schedules_Props.thy ===== *)
theory Schedules_Props
  imports Schedules Outbound_Props
begin

text \<open>
  A scheduled report is sent once per period: never twice for the same period, and each time
  for exactly the period that has just ended.
\<close>

section \<open>Periods\<close>

definition period_length :: "string \<Rightarrow> duration" where
  "period_length cadence = (if cadence = ''weekly'' then 7 * day else day)"

lemma period_length_pos: "0 < period_length cadence"
  by (simp add: period_length_def)

lemma week_eq: "t * d - (t mod 7) * d = t div 7 * (d * 7)" for t d :: int
proof -
  have "t * d - (t mod 7) * d = (t - t mod 7) * d" by (simp only: left_diff_distrib)
  also have "t - t mod 7 = t div 7 * 7" by (rule minus_mod_eq_div_mult)
  finally show ?thesis by (simp only: ac_simps)
qed

lemma period_floor:
  "reportPeriodStart cadence now = (if cadence = ''daily'' \<or> cadence = ''weekly'' then now div period_length cadence * period_length cadence else 0)"
proof -
  have today: "now - now mod day = now div day * day" by (rule minus_mod_eq_div_mult)
  have "now div day * day - (now div day * day div day mod 7) * day = now div day * day - (now div day mod 7) * day" by simp
  also have "\<dots> = now div day div 7 * (day * 7)" by (rule week_eq)
  also have "\<dots> = now div (day * 7) * (day * 7)" by (simp only: zdiv_zmult2_eq)
  finally show ?thesis unfolding reportPeriodStart_def Let_def today period_length_def by (auto simp: ac_simps)
qed

lemma floor_bounds: "0 < n \<Longrightarrow> t div n * n \<le> t \<and> t < t div n * n + n" for t n :: int
  using div_mult_mod_eq [of t n] pos_mod_sign [of n t] pos_mod_bound [of n t] by linarith

lemma period_mono: "a \<le> b \<Longrightarrow> reportPeriodStart cadence a \<le> reportPeriodStart cadence b"
  unfolding period_floor using period_length_pos [of cadence] by (auto intro!: mult_right_mono zdiv_mono1)

lemma period_le: "0 \<le> now \<Longrightarrow> reportPeriodStart cadence now \<le> now"
  unfolding period_floor using floor_bounds [OF period_length_pos, of now cadence] by auto

text \<open>The period that has ended, and that it has just ended.\<close>

lemma completed_period:
  assumes "reportPeriodStart cadence now \<noteq> 0"
  shows "completedReportPeriod cadence now = (reportPeriodStart cadence now - period_length cadence, reportPeriodStart cadence now)"
  using assms by (auto simp: completedReportPeriod_def period_length_def reportPeriodStart_def Let_def split: if_splits)

lemma period_aligned:
  assumes "reportPeriodStart cadence now \<noteq> 0"
  shows "period_length cadence dvd reportPeriodStart cadence now"
    "reportPeriodStart cadence now \<le> now" "now < reportPeriodStart cadence now + period_length cadence"
  using assms floor_bounds [OF period_length_pos, of now cadence] by (auto simp: period_floor split: if_splits)

section \<open>Jobs\<close>

definition job_id :: "report_task outbound_job \<Rightarrow> int" where
  "job_id j = (case oj_Run j of Some (SendReport r t) \<Rightarrow> sd_ID r | _ \<Rightarrow> 0)"

definition job_period :: "report_task outbound_job \<Rightarrow> time" where
  "job_period j = (case oj_Run j of Some (SendReport r t) \<Rightarrow> reportPeriodStart (sd_Cadence r) t | _ \<Rightarrow> 0)"

lemma report_job_sel [simp]:
  "job_id (report_job r t) = sd_ID r" "job_period (report_job r t) = reportPeriodStart (sd_Cadence r) t"
  "oj_Priority (report_job r t) = PriorityReport" "oj_Key (report_job r t) \<noteq> []" "oj_Run (report_job r t) = Some (SendReport r t)"
  by (simp_all add: report_job_def job_id_def job_period_def)

lemma report_key_eq:
  "sd_ID r = sd_ID r' \<Longrightarrow> job_period (report_job r t) = job_period (report_job r' t') \<Longrightarrow> oj_Key (report_job r t) = oj_Key (report_job r' t')"
  by (simp add: report_job_def job_period_def)

section \<open>The invariant\<close>

definition report_jobs :: "report_system \<Rightarrow> report_task outbound_job list" where
  "report_jobs y = held_job (ry_lane y) @ ob_queue (ry_sched y) PriorityReport"

text \<open>The jobs that are still to be sent.\<close>

definition waiting_jobs :: "report_system \<Rightarrow> report_task outbound_job list" where
  "waiting_jobs y = running_job (ry_lane y) @ ob_queue (ry_sched y) PriorityReport"

definition job_ok :: "schedules \<Rightarrow> time \<Rightarrow> report_task outbound_job \<Rightarrow> bool" where
  "job_ok db clock j \<longleftrightarrow> (\<exists>r t. j = report_job r t \<and> 0 \<le> t \<and> t \<le> clock \<and> reportPeriodStart (sd_Cadence r) t \<noteq> 0 \<and>
     (\<exists>row \<in> set db. sd_ID row = sd_ID r \<and> sd_Cadence row = sd_Cadence r \<and> sd_GuildID row = sd_GuildID r))"

definition sent_ok :: "schedules \<Rightarrow> report_task outbound_job list \<Rightarrow> sent_report \<Rightarrow> bool" where
  "sent_ok db jobs m \<longleftrightarrow> (\<forall>j \<in> set jobs. job_id j = sn_Schedule m \<longrightarrow> sn_To m < job_period j) \<and>
     (\<exists>row \<in> set db. sd_ID row = sn_Schedule m \<and> sn_To m \<le> sd_LastRun row \<and> sn_From m = sn_To m - period_length (sd_Cadence row) \<and>
        period_length (sd_Cadence row) dvd sn_To m)"

definition before :: "report_task outbound_job \<Rightarrow> report_task outbound_job \<Rightarrow> bool" where
  "before a b \<longleftrightarrow> (job_id a = job_id b \<longrightarrow> job_period a < job_period b)"

definition report_inv :: "report_system \<Rightarrow> bool" where
  "report_inv y \<longleftrightarrow> 0 \<le> ry_clock y \<and> list_all (job_ok (ry_db y) (ry_clock y)) (report_jobs y) \<and> distinct (map oj_Key (report_jobs y)) \<and>
     oj_Key ` set (report_jobs y) \<subseteq> dom (map_of (ob_pending (ry_sched y) PriorityReport)) \<and>
     sorted_wrt before (waiting_jobs y) \<and> list_all (sent_ok (ry_db y) (waiting_jobs y)) (ry_sent y) \<and>
     distinct (map (\<lambda>m. (sn_Schedule m, sn_To m)) (ry_sent y)) \<and> distinct (map sd_ID (ry_db y))"

lemma row_unique: "distinct (map sd_ID db) \<Longrightarrow> a \<in> set db \<Longrightarrow> b \<in> set db \<Longrightarrow> sd_ID a = sd_ID b \<Longrightarrow> a = b"
  by (auto simp: distinct_map inj_on_def)

lemma waiting_subset: "set (waiting_jobs y) \<subseteq> set (report_jobs y)"
  by (cases "ry_lane y") (auto simp: waiting_jobs_def report_jobs_def)

lemma schedule_enqueue:
  assumes inv: "report_inv y" and row: "row \<in> set (ry_db y)" and due: "reportDue row (ry_clock y)"
    and enq: "enqueueDeduplicated (report_job row (ry_clock y)) (ry_sched y) = (res, s)"
  shows "report_inv (y\<lparr> ry_sched := s \<rparr>)"
proof -
  let ?job = "report_job row (ry_clock y)"
  let ?y = "y\<lparr> ry_sched := s \<rparr>"
  note view = enqueueDeduplicated_view [OF enq]
  show ?thesis
  proof (cases "res = Accepted")
    case False
    then have "same_view (ry_sched y) s" using view by (simp add: keyed_def)
    then show ?thesis using inv by (simp add: report_inv_def report_jobs_def waiting_jobs_def same_view_def)
  next
    case True
    then have v: "sent_view ?job (ry_sched y) s" using view by (simp add: keyed_def)
    have q: "report_jobs ?y = report_jobs y @ [?job]" "waiting_jobs ?y = waiting_jobs y @ [?job]"
      using v by (simp_all add: report_jobs_def waiting_jobs_def sent_view_def Let_def)
    have fresh: "oj_Key ?job \<notin> dom (map_of (ob_pending (ry_sched y) PriorityReport))" using v by (auto simp: sent_view_def keyed_def Let_def)
    have pend: "dom (map_of (ob_pending s PriorityReport)) = insert (oj_Key ?job) (dom (map_of (ob_pending (ry_sched y) PriorityReport)))"
      using v by (auto simp: sent_view_def keyed_def Let_def)
    have start: "reportPeriodStart (sd_Cadence row) (ry_clock y) \<noteq> 0" "sd_LastRun row < reportPeriodStart (sd_Cadence row) (ry_clock y)"
      using due by (simp_all add: reportDue_def Let_def)
    have ids: "distinct (map sd_ID (ry_db y))" and clock: "0 \<le> ry_clock y" using inv by (simp_all add: report_inv_def)
    have ok: "job_ok (ry_db y) (ry_clock y) ?job" using row start(1) clock unfolding job_ok_def by blast
    have later: "before j ?job" if j: "j \<in> set (waiting_jobs y)" for j
    proof -
      have jr: "j \<in> set (report_jobs y)" using j waiting_subset by auto
      then obtain r t row' where r: "j = report_job r t" "t \<le> ry_clock y" "row' \<in> set (ry_db y)" "sd_ID row' = sd_ID r" "sd_Cadence row' = sd_Cadence r"
        using inv by (auto simp: report_inv_def list_all_iff job_ok_def)
      show ?thesis unfolding before_def
      proof
        assume same: "job_id j = job_id ?job"
        then have "row' = row" using row_unique [OF ids r(3) row] r(1,4) by simp
        then have c: "sd_Cadence r = sd_Cadence row" using r(5) by simp
        have "oj_Key j \<in> dom (map_of (ob_pending (ry_sched y) PriorityReport))" using inv jr by (auto simp: report_inv_def)
        then have "oj_Key j \<noteq> oj_Key ?job" using fresh by metis
        then have "job_period j \<noteq> job_period ?job" using report_key_eq [of r row t "ry_clock y"] same r(1) by auto
        moreover have "job_period j \<le> job_period ?job" using r(1,2) c period_mono by simp
        ultimately show "job_period j < job_period ?job" by simp
      qed
    qed
    have "list_all (sent_ok (ry_db y) (waiting_jobs ?y)) (ry_sent y)"
      unfolding list_all_iff
    proof
      fix m
      assume m: "m \<in> set (ry_sent y)"
      then have old: "sent_ok (ry_db y) (waiting_jobs y) m" using inv by (simp add: report_inv_def list_all_iff)
      then obtain row' where r: "row' \<in> set (ry_db y)" "sd_ID row' = sn_Schedule m" "sn_To m \<le> sd_LastRun row'" by (auto simp: sent_ok_def)
      have "sd_ID row = sn_Schedule m \<Longrightarrow> sn_To m < job_period ?job" using row_unique [OF ids r(1) row] r(2,3) start(2) by simp
      then show "sent_ok (ry_db y) (waiting_jobs ?y) m" using old by (auto simp: sent_ok_def q)
    qed
    moreover have "distinct (map oj_Key (report_jobs ?y))" using inv fresh by (auto simp: report_inv_def q)
    moreover have "sorted_wrt before (waiting_jobs ?y)" using inv later by (auto simp: report_inv_def q sorted_wrt_append)
    ultimately show ?thesis using inv ok pend by (auto simp: report_inv_def q)
  qed
qed

lemma schedule_clock:
  assumes "report_inv y" "ry_clock y \<le> now"
  shows "report_inv (y\<lparr> ry_clock := now \<rparr>)"
proof -
  have "job_ok (ry_db y) (ry_clock y) j \<Longrightarrow> job_ok (ry_db y) now j" for j
    using assms(2) unfolding job_ok_def by (metis order_trans)
  then show ?thesis using assms by (auto simp: report_inv_def report_jobs_def waiting_jobs_def list_all_iff)
qed

lemma schedule_tick:
  assumes inv: "report_inv y" and now: "ry_clock y \<le> now"
  shows "report_inv (y\<lparr> ry_clock := now, ry_sched := enqueueDueReports now (ReportSchedules guild (ry_db y)) (ry_sched y) \<rparr>)"
proof -
  have rows: "set (ReportSchedules guild (ry_db y)) \<subseteq> set (ry_db y)"
    unfolding ReportSchedules_def using set_take_subset [of 100 "filter (\<lambda>row. sd_GuildID row = guild) (ry_db y)"] by auto
  have "report_inv (y\<lparr> ry_clock := now, ry_sched := enqueueDueReports now rows (ry_sched y) \<rparr>)" if "set rows \<subseteq> set (ry_db y)" for rows
    unfolding enqueueDueReports_def
  proof (rule fold_invariant [where P = "\<lambda>s. report_inv (y\<lparr> ry_clock := now, ry_sched := s \<rparr>)" and Q = "\<lambda>row. row \<in> set (ry_db y)"])
    show "report_inv (y\<lparr> ry_clock := now, ry_sched := ry_sched y \<rparr>)" using schedule_clock [OF inv now] by simp
    fix row s
    assume row: "row \<in> set (ry_db y)" and ih: "report_inv (y\<lparr> ry_clock := now, ry_sched := s \<rparr>)"
    obtain res s' where e: "enqueueDeduplicated (report_job row now) s = (res, s')" by (cases "enqueueDeduplicated (report_job row now) s")
    show "report_inv (y\<lparr> ry_clock := now, ry_sched := if \<not> sd_Enabled row \<or> \<not> reportDue row now then s else snd (enqueueDeduplicated (report_job row now) s) \<rparr>)"
      using ih schedule_enqueue [OF ih, of row res s'] row e by simp
  qed (use that in auto)
  from this [OF rows] show ?thesis .
qed

lemma schedule_receive:
  assumes inv: "report_inv y" and st: "ry_lane y = AtNext" and rec: "receive_job PriorityReport (ry_sched y) = Some (job, s)"
  shows "report_inv (y\<lparr> ry_sched := s, ry_lane := Running job \<rparr>)"
proof -
  obtain rest where q: "ob_queue (ry_sched y) PriorityReport = job # rest" "s = ry_sched y\<lparr> ob_queue := (ob_queue (ry_sched y))(PriorityReport := rest) \<rparr>"
    using rec by (auto simp: receive_job_def split: list.splits)
  have "report_jobs (y\<lparr> ry_sched := s, ry_lane := Running job \<rparr>) = report_jobs y" "waiting_jobs (y\<lparr> ry_sched := s, ry_lane := Running job \<rparr>) = waiting_jobs y"
    using q st by (simp_all add: report_jobs_def waiting_jobs_def)
  then show ?thesis using inv q(2) by (simp add: report_inv_def)
qed

lemma schedule_release:
  assumes inv: "report_inv y" and st: "ry_lane y = Releasing job"
  shows "report_inv (y\<lparr> ry_sched := releasePending job (ry_sched y), ry_lane := AtNext \<rparr>)"
proof -
  have jobs: "report_jobs y = job # ob_queue (ry_sched y) PriorityReport" using st by (simp add: report_jobs_def)
  then have "job_ok (ry_db y) (ry_clock y) job" using inv by (simp add: report_inv_def)
  then have job: "oj_Priority job = PriorityReport" "oj_Key job \<noteq> []" by (auto simp: job_ok_def)
  have s: "releasePending job (ry_sched y) = ry_sched y\<lparr> ob_pending := (ob_pending (ry_sched y))(PriorityReport := AList.delete (oj_Key job) (ob_pending (ry_sched y) PriorityReport)) \<rparr>"
    using job by (simp add: releasePending_def)
  have fresh: "oj_Key job \<notin> oj_Key ` set (ob_queue (ry_sched y) PriorityReport)" using inv jobs by (simp add: report_inv_def)
  moreover have "oj_Key ` set (ob_queue (ry_sched y) PriorityReport) \<subseteq> dom (map_of (ob_pending (ry_sched y) PriorityReport))"
    using inv jobs by (simp add: report_inv_def)
  moreover have "dom (map_of (AList.delete (oj_Key job) (ob_pending (ry_sched y) PriorityReport))) = dom (map_of (ob_pending (ry_sched y) PriorityReport)) - {oj_Key job}"
    by (simp add: delete_conv')
  ultimately have "oj_Key ` set (ob_queue (ry_sched y) PriorityReport) \<subseteq> dom (map_of (AList.delete (oj_Key job) (ob_pending (ry_sched y) PriorityReport)))"
    by (simp only: subset_Diff_insert) simp
  then show ?thesis using inv jobs st unfolding s by (simp add: report_inv_def report_jobs_def waiting_jobs_def)
qed

lemma sent_weaken: "sent_ok db jobs m \<Longrightarrow> set jobs' \<subseteq> set jobs \<Longrightarrow> sent_ok db jobs' m"
  by (auto simp: sent_ok_def)

lemma schedule_run:
  assumes inv: "report_inv y" and st: "ry_lane y = Running job" and task: "oj_Run job = Some (SendReport r t)"
    and send: "sendScheduledReport ready summaryErr createErr None r t (ry_db y) = (err, msgs, db)"
  shows "report_inv (y\<lparr> ry_lane := Releasing job, ry_db := db, ry_sent := ry_sent y @ msgs \<rparr>)"
proof -
  let ?y = "y\<lparr> ry_lane := Releasing job, ry_db := db, ry_sent := ry_sent y @ msgs \<rparr>"
  have jobs: "report_jobs y = job # ob_queue (ry_sched y) PriorityReport" "waiting_jobs y = job # ob_queue (ry_sched y) PriorityReport"
    "report_jobs ?y = report_jobs y" "waiting_jobs ?y = ob_queue (ry_sched y) PriorityReport"
    using st by (simp_all add: report_jobs_def waiting_jobs_def)
  have "job_ok (ry_db y) (ry_clock y) job" using inv jobs(1) by (simp add: report_inv_def)
  then obtain row where job: "job = report_job r t" "t \<le> ry_clock y" "0 \<le> t" "reportPeriodStart (sd_Cadence r) t \<noteq> 0"
    and row: "row \<in> set (ry_db y)" "sd_ID row = sd_ID r" "sd_Cadence row = sd_Cadence r" "sd_GuildID row = sd_GuildID r"
    using task by (auto simp: job_ok_def)
  have sub: "set (ob_queue (ry_sched y) PriorityReport) \<subseteq> set (waiting_jobs y)" using jobs(2) by auto
  have ids: "distinct (map sd_ID (ry_db y))" using inv by (simp add: report_inv_def)
  define start where "start = reportPeriodStart (sd_Cadence r) t"
  show ?thesis
  proof (cases "msgs = [] \<and> db = ry_db y")
    case True
    have "list_all (sent_ok (ry_db y) (waiting_jobs ?y)) (ry_sent y)"
      unfolding jobs(4) using inv sent_weaken [OF _ sub] by (simp add: report_inv_def list_all_iff)
    then show ?thesis using inv True jobs(2) unfolding report_inv_def jobs(3,4) by simp
  next
    case False
    have period: "completedReportPeriod (sd_Cadence r) t = (start - period_length (sd_Cadence r), start)"
      using completed_period job(4) by (simp add: start_def)
    obtain m where m: "msgs = [m]" "sn_Schedule m = sd_ID r" "sn_To m = start" "sn_From m = start - period_length (sd_Cadence r)"
      and db: "db = map (\<lambda>row. if sd_ID row = sd_ID r \<and> sd_GuildID row = sd_GuildID r then row\<lparr> sd_LastRun := t \<rparr> else row) (ry_db y)"
      using send False by (auto simp: sendScheduledReport_def period MarkReportScheduleRun_def Let_def split: if_splits option.splits)
    have ids': "map sd_ID db = map sd_ID (ry_db y)" unfolding db by (simp add: comp_def if_distrib cong: map_cong)
    have rows: "\<exists>row' \<in> set db. sd_ID row' = sd_ID old \<and> sd_Cadence row' = sd_Cadence old \<and> sd_GuildID row' = sd_GuildID old \<and>
        sd_LastRun row' = (if sd_ID old = sd_ID r then t else sd_LastRun old)" if "old \<in> set (ry_db y)" for old
      using that row_unique [OF ids that row(1)] row unfolding db by (intro bexI [of _ "if sd_ID old = sd_ID r \<and> sd_GuildID old = sd_GuildID r then old\<lparr> sd_LastRun := t \<rparr> else old"]) auto
    have jok: "list_all (job_ok db (ry_clock y)) (report_jobs y)"
    proof -
      have "job_ok db (ry_clock y) j" if "job_ok (ry_db y) (ry_clock y) j" for j
        using that rows unfolding job_ok_def by metis
      then show ?thesis using inv by (auto simp: report_inv_def list_all_iff)
    qed
    have le: "start \<le> t" using period_le [OF job(3)] by (simp add: start_def)
    have old: "sent_ok db (ob_queue (ry_sched y) PriorityReport) m'" and new: "(sn_Schedule m', sn_To m') \<noteq> (sd_ID r, start)" if "m' \<in> set (ry_sent y)" for m'
    proof -
      have so: "sent_ok (ry_db y) (waiting_jobs y) m'" using inv that by (simp add: report_inv_def list_all_iff)
      have lt: "sn_Schedule m' = sd_ID r \<Longrightarrow> sn_To m' < start" using so job(1) jobs(2) by (simp add: sent_ok_def start_def)
      then show "(sn_Schedule m', sn_To m') \<noteq> (sd_ID r, start)" by auto
      obtain o1 where o1: "o1 \<in> set (ry_db y)" "sd_ID o1 = sn_Schedule m'" "sn_To m' \<le> sd_LastRun o1" "sn_From m' = sn_To m' - period_length (sd_Cadence o1)"
        "period_length (sd_Cadence o1) dvd sn_To m'" using so by (auto simp: sent_ok_def)
      obtain o2 where "o2 \<in> set db" "sd_ID o2 = sd_ID o1" "sd_Cadence o2 = sd_Cadence o1" "sd_LastRun o2 = (if sd_ID o1 = sd_ID r then t else sd_LastRun o1)"
        using rows [OF o1(1)] by auto
      then have "\<exists>row \<in> set db. sd_ID row = sn_Schedule m' \<and> sn_To m' \<le> sd_LastRun row \<and> sn_From m' = sn_To m' - period_length (sd_Cadence row) \<and>
          period_length (sd_Cadence row) dvd sn_To m'"
        using o1 lt le by (intro bexI [of _ o2]) auto
      then show "sent_ok db (ob_queue (ry_sched y) PriorityReport) m'" using so sub by (auto simp: sent_ok_def)
    qed
    have this_ok: "sent_ok db (ob_queue (ry_sched y) PriorityReport) m"
    proof -
      have "job_id j = sn_Schedule m \<Longrightarrow> sn_To m < job_period j" if "j \<in> set (ob_queue (ry_sched y) PriorityReport)" for j
        using inv that jobs(2) job(1) m by (simp add: report_inv_def before_def start_def)
      moreover obtain o2 where "o2 \<in> set db" "sd_ID o2 = sd_ID r" "sd_Cadence o2 = sd_Cadence r" "sd_LastRun o2 = t" using rows [OF row(1)] row by auto
      moreover have "period_length (sd_Cadence r) dvd start" using period_aligned(1) job(4) by (simp add: start_def)
      ultimately show ?thesis unfolding sent_ok_def using m le by auto
    qed
    have "distinct (map (\<lambda>m. (sn_Schedule m, sn_To m)) (ry_sent y @ [m]))" using inv new m by (force simp: report_inv_def)
    moreover have "distinct (map oj_Key (report_jobs y))" "oj_Key ` set (report_jobs y) \<subseteq> dom (map_of (ob_pending (ry_sched y) PriorityReport))" "0 \<le> ry_clock y"
      "sorted_wrt before (ob_queue (ry_sched y) PriorityReport)" using inv jobs(2) by (simp_all add: report_inv_def)
    ultimately show ?thesis using jok old this_ok ids ids' unfolding report_inv_def jobs(3,4) by (simp add: m(1) list_all_iff)
  qed
qed

lemma report_step_inv: "report_step guild y z \<Longrightarrow> report_inv y \<Longrightarrow> report_inv z"
  by (induction rule: report_step.induct) (auto intro: schedule_tick schedule_receive schedule_run schedule_release)

lemma report_start_inv:
  assumes "distinct (map sd_ID db)" "0 \<le> now"
  shows "report_inv (report_start (NewOutboundScheduler e i a r) db now)"
  using assms by (simp add: report_inv_def report_start_def report_jobs_def waiting_jobs_def NewOutboundScheduler_def)


text \<open>
  A digest for administrators is asked for only when none has run since the start of its period.
\<close>

lemma digest_due:
  assumes "enqueueDueAdminDigest interval guild admin lastRun now s \<noteq> s"
  shows "0 < interval \<and> admin \<noteq> 0 \<and> (lastRun = time_zero \<or> lastRun < adminDigestPeriodStart now interval)"
  using assms by (auto simp: enqueueDueAdminDigest_def Let_def split: if_splits)

section \<open>Witness\<close>

definition demo_schedule :: report_schedule where
  "demo_schedule = \<lparr> sd_ID = 1, sd_GuildID = 9, sd_Cadence = ''daily'', sd_Destination = 5, sd_Enabled = True, sd_LastRun = 10 * day, sd_UpdatedAt = 10 * day \<rparr>"


end
