(* ===== verification/Runes.thy ===== *)
theory Runes
  imports Domain
begin

text \<open>
  The runes of a text, as a \<open>range\<close> over a string reads them: an invalid byte is one replacement
  character. \<open>[]rune\<close>, \<open>utf8.RuneCountInString\<close> and \<open>strings.IndexFunc\<close> read the same runes.
\<close>

text \<open>The first rune of a text and its width; an invalid byte is one replacement character.\<close>

definition next_rune :: "string \<Rightarrow> nat \<times> nat" where
  "next_rune s =
     (case find (\<lambda>k. map_option length (utf8_runes (take k s)) = Some 1) [1, 2, 3, 4] of
        Some k \<Rightarrow> (hd (the (utf8_runes (take k s))), k)
      | None \<Rightarrow> (0xFFFD, 1))"

definition rune_bytes :: "nat \<Rightarrow> nat \<Rightarrow> string \<Rightarrow> string" where
  "rune_bytes r w s = (if r = 0xFFFD then [CHR 0xEF, CHR 0xBF, CHR 0xBD] else take w s)"

lemma next_rune_pos: "0 < snd (next_rune s)"
  by (auto simp: next_rune_def find_Some_iff split: option.splits)

function runes :: "string \<Rightarrow> nat list" where
  "runes s = (if s = [] then [] else let (r, w) = next_rune s in r # runes (drop w s))"
  by auto
termination
proof (relation "measure length")
  fix s :: string and x :: "nat \<times> nat" and r w :: nat
  assume "s \<noteq> []" "x = next_rune s" "(r, w) = x"
  then have "s \<noteq> []" "0 < w" using next_rune_pos [of s] by (metis snd_conv)+
  then show "(drop w s, s) \<in> measure length" by simp
qed simp

declare runes.simps [simp del]

definition rune_count :: "string \<Rightarrow> nat" where
  "rune_count s = length (runes s)"

text \<open>The first \<open>n\<close> runes of a text, written again.\<close>

function take_runes :: "nat \<Rightarrow> string \<Rightarrow> string" where
  "take_runes n s = (if s = [] \<or> n = 0 then [] else let (r, w) = next_rune s in rune_bytes r w s @ take_runes (n - 1) (drop w s))"
  by auto
termination
proof (relation "measure fst")
  fix n :: nat and s :: string and x :: "nat \<times> nat" and r w :: nat
  assume "\<not> (s = [] \<or> n = 0)"
  then show "((n - 1, drop w s), (n, s)) \<in> measure fst" by simp
qed simp

declare take_runes.simps [simp del]

text \<open>Printable ASCII: every byte is a rune.\<close>

definition plain_char :: "char \<Rightarrow> bool" where
  "plain_char c \<longleftrightarrow> 32 \<le> (of_char c :: nat) \<and> (of_char c :: nat) < 127"

lemma next_rune_plain: "plain_char c \<Longrightarrow> next_rune (c # s) = (of_char c, 1)"
  by (simp add: next_rune_def plain_char_def utf8_runes_def codes_def)

lemma rune_bytes_plain: "rune_bytes (of_char c) 1 (c # s) = [c]"
proof -
  have "(of_char c :: nat) \<noteq> 0xFFFD" using of_char_less_256 [of c] by linarith
  then show ?thesis by (simp add: rune_bytes_def)
qed

lemma runes_plain: "list_all plain_char s \<Longrightarrow> runes s = map of_char s"
proof (induction s)
  case (Cons c s)
  then have "plain_char c" by simp
  then show ?case using Cons by (subst runes.simps) (simp add: next_rune_plain)
qed (subst runes.simps, simp)

end
