(* ===== verification/Aircraft_Sources.thy ===== *)
theory Aircraft_Sources
  imports Source Runes
begin

text \<open>
  The two sources of aircraft: the readsb of a receiver (\<open>internal/source/readsb\<close>) and the
  public airplanes.live (\<open>internal/source/airplaneslive\<close>): their payloads, the validation, the
  normalisation to the domain types, the classification of failures and the spacing of requests.
  \<open>encoding/json\<close>, \<open>strconv.ParseFloat\<close>, \<open>http.ParseTime\<close> and \<open>mime.ParseMediaType\<close> are
  parameters; a response of the network is an argument. A payload read from JSON holds no NaN and
  no infinity. Metrics of requests are left out.
\<close>

section \<open>Numbers and text\<close>

text \<open>\<open>int64\<close> of a \<open>float64\<close>; out of range, where Go leaves the result open, as amd64 computes it.\<close>

definition int_of_float :: "real \<Rightarrow> int" where
  "int_of_float x = (let n = (if x < 0 then \<lceil>x\<rceil> else \<lfloor>x\<rfloor>) in if - (2 ^ 63) \<le> n \<and> n < 2 ^ 63 then n else - (2 ^ 63))"

definition validUnixSeconds :: "real \<Rightarrow> bool" where
  "validUnixSeconds value \<longleftrightarrow> value > 0"

definition unixFloat :: "real \<Rightarrow> time" where
  "unixFloat value =
     (let secondsPart = int_of_float value;
          nanoseconds = int_of_float ((value - of_int secondsPart) * of_int second)
      in (secondsPart + unix_epoch_seconds) * second + nanoseconds)"

definition durationSeconds :: "real \<Rightarrow> duration" where
  "durationSeconds value = int_of_float (value * of_int second)"

definition validPosition :: "real \<Rightarrow> real \<Rightarrow> bool" where
  "validPosition latitude longitude \<longleftrightarrow> latitude \<ge> -90 \<and> latitude \<le> 90 \<and> longitude \<ge> -180 \<and> longitude \<le> 180"

function keep_runes :: "nat \<Rightarrow> string \<Rightarrow> string" where
  "keep_runes room s =
     (if s = [] \<or> room = 0 then []
      else
        let (r, w) = next_rune s in
        if rune_control r then keep_runes room (drop w s) else rune_bytes r w s @ keep_runes (room - 1) (drop w s))"
  by auto
termination
proof (relation "measure (length \<circ> snd)")
  fix room :: nat and s :: string and x :: "nat \<times> nat" and r w :: nat
  assume "\<not> (s = [] \<or> room = 0)" "x = next_rune s" "(r, w) = x"
  then have "s \<noteq> []" "0 < w" using next_rune_pos [of s] by (metis snd_conv)+
  then show "((room, drop w s), (room, s)) \<in> measure (length \<circ> snd)" "((room - 1, drop w s), (room, s)) \<in> measure (length \<circ> snd)"
    by simp_all
qed simp

declare keep_runes.simps [simp del]

definition normalizedText :: "string \<Rightarrow> nat \<Rightarrow> bool \<Rightarrow> string" where
  "normalizedText value maximum upper =
     (let v = trim_space (keep_runes maximum (trim_space value)) in if upper then to_upper v else v)"

section \<open>Altitudes\<close>

record altitude =
  alt_Value :: int
  alt_Valid :: bool
  alt_Ground :: bool

definition no_altitude :: altitude where
  "no_altitude = \<lparr> alt_Value = 0, alt_Valid = False, alt_Ground = False \<rparr>"

text \<open>\<open>unquote\<close> decodes a JSON string.\<close>

definition ground_altitude ::
    "(go_error \<Rightarrow> go_error) \<Rightarrow> (string \<Rightarrow> go_error) \<Rightarrow> (string \<Rightarrow> go_error + string) \<Rightarrow> string \<Rightarrow> go_error + altitude" where
  "ground_altitude wrap other unquote data =
     (case unquote data of
        Inl e \<Rightarrow> Inl (wrap e)
      | Inr value \<Rightarrow>
          if value \<noteq> ''ground'' then Inl (other value)
          else Inr \<lparr> alt_Value = 0, alt_Valid = True, alt_Ground = True \<rparr>)"

definition readsb_altitude ::
    "(string \<Rightarrow> go_error + string) \<Rightarrow> (string \<Rightarrow> go_error + real) \<Rightarrow> string \<Rightarrow> go_error + altitude" where
  "readsb_altitude unquote ParseFloat raw =
     (let data = trim_space raw in
      if data = ''null'' then Inr no_altitude
      else if data \<noteq> [] \<and> hd data = CHR ''\"'' then ground_altitude (\<lambda>e. e) (\<lambda>value. Plain (''unexpected altitude string '' @ value)) unquote data
      else case ParseFloat data of
             Inl e \<Rightarrow> Inl (Wrapped ''parse altitude'' e)
           | Inr value \<Rightarrow> Inr \<lparr> alt_Value = int_of_float value, alt_Valid = True, alt_Ground = False \<rparr>)"

text \<open>\<open>strconv.ParseInt\<close> to the base 10 for 32 bits: a sign, digits, and the range.\<close>

definition digit :: "char \<Rightarrow> bool" where
  "digit c \<longleftrightarrow> CHR ''0'' \<le> c \<and> c \<le> CHR ''9''"

definition asciiDigits :: "string \<Rightarrow> bool" where
  "asciiDigits value \<longleftrightarrow> value \<noteq> [] \<and> list_all digit value"

definition parse_int32 :: "string \<Rightarrow> int option" where
  "parse_int32 s =
     (let negative = (s \<noteq> [] \<and> hd s = CHR ''-'');
          body = (if s \<noteq> [] \<and> (hd s = CHR ''-'' \<or> hd s = CHR ''+'') then tl s else s);
          n = (if negative then - int (digits_value body) else int (digits_value body))
      in if asciiDigits body \<and> - (2 ^ 31) \<le> n \<and> n < 2 ^ 31 then Some n else None)"

definition point_altitude :: "(string \<Rightarrow> go_error + string) \<Rightarrow> string \<Rightarrow> go_error + altitude" where
  "point_altitude unquote raw =
     (let data = trim_space raw in
      if data = ''null'' then Inr no_altitude
      else if data \<noteq> [] \<and> hd data = CHR ''\"'' then ground_altitude (Wrapped ''decode altitude string'') (\<lambda>_. Plain ''altitude string is not supported'') unquote data
      else case parse_int32 data of
             None \<Rightarrow> Inl (Plain ''altitude must be an integer'')
           | Some value \<Rightarrow> Inr \<lparr> alt_Value = value, alt_Valid = True, alt_Ground = False \<rparr>)"

section \<open>readsb: payloads\<close>

record readsb_aircraft =
  ra_Hex :: string
  ra_Type :: string
  ra_Flight :: string
  ra_Registration :: string
  ra_AircraftType :: string
  ra_Category :: string
  ra_Squawk :: string
  ra_Emergency :: string
  ra_Latitude :: "real option"
  ra_Longitude :: "real option"
  ra_Altitude :: altitude
  ra_GroundSpeed :: "real option"
  ra_Track :: "real option"
  ra_BaroRate :: "int option"
  ra_GeomRate :: "int option"
  ra_Messages :: u64
  ra_Seen :: real
  ra_SeenPosition :: "real option"
  ra_RSSI :: "real option"

record aircraft_response =
  rr_Now :: real
  rr_Messages :: u64
  rr_Aircraft :: "readsb_aircraft list option"

record receiver_response =
  rv_Version :: string
  rv_Refresh :: int
  rv_History :: int
  rv_Latitude :: "real option"
  rv_Longitude :: "real option"

record stats_period =
  sp_Start :: real
  sp_End :: real
  sp_Messages :: u64
  sp_MaxDistance :: "real option"
  sp_MaxDistanceInMetres :: "real option"
  sp_TracksAll :: int
  sp_TracksSingle :: int

record stats_response =
  st_WithPosition :: "int option"
  st_WithoutPosition :: "int option"
  st_Latest :: stats_period
  st_Last1Min :: stats_period

section \<open>readsb: validation and normalisation\<close>

definition validateAircraftResponse :: "aircraft_response \<Rightarrow> go_error option" where
  "validateAircraftResponse r =
     (if \<not> validUnixSeconds (rr_Now r) then Some (Plain ''aircraft payload has no valid generation time'')
      else if rr_Aircraft r = None then Some (Plain ''aircraft payload is missing the aircraft array'')
      else None)"

text \<open>The optional fields, which both sources treat alike.\<close>

definition with_vertical_rate :: "int option \<Rightarrow> int option \<Rightarrow> aircraft \<Rightarrow> aircraft" where
  "with_vertical_rate baro geom a =
     (case baro of
        Some rate \<Rightarrow> a\<lparr> ac_VerticalRateFPM := rate, ac_HasVerticalRate := True \<rparr>
      | None \<Rightarrow> (case geom of Some rate \<Rightarrow> a\<lparr> ac_VerticalRateFPM := rate, ac_HasVerticalRate := True \<rparr> | None \<Rightarrow> a))"

definition with_ground_speed :: "real option \<Rightarrow> aircraft \<Rightarrow> aircraft" where
  "with_ground_speed speed a = (case speed of Some v \<Rightarrow> a\<lparr> ac_GroundSpeedKts := v, ac_HasGroundSpeed := True \<rparr> | None \<Rightarrow> a)"

definition with_track :: "real option \<Rightarrow> aircraft \<Rightarrow> aircraft" where
  "with_track track a = (case track of Some v \<Rightarrow> a\<lparr> ac_TrackDegrees := v, ac_HasTrack := True \<rparr> | None \<Rightarrow> a)"

definition with_seen_position :: "real option \<Rightarrow> aircraft \<Rightarrow> aircraft" where
  "with_seen_position seen a = (case seen of Some v \<Rightarrow> a\<lparr> ac_SeenPosition := durationSeconds v \<rparr> | None \<Rightarrow> a)"

definition with_rssi :: "real option \<Rightarrow> aircraft \<Rightarrow> aircraft" where
  "with_rssi rssi a = (case rssi of Some v \<Rightarrow> a\<lparr> ac_RSSI := v, ac_HasRSSI := True \<rparr> | None \<Rightarrow> a)"

definition readsb_position :: "real option \<Rightarrow> real option \<Rightarrow> aircraft \<Rightarrow> aircraft" where
  "readsb_position lat lon a =
     (case (lat, lon) of
        (Some la, Some lo) \<Rightarrow>
          if validPosition la lo then a\<lparr> ac_Latitude := la, ac_Longitude := lo, ac_HasPosition := True \<rparr> else a
      | _ \<Rightarrow> a)"

definition normalize_readsb :: "readsb_aircraft \<Rightarrow> aircraft" where
  "normalize_readsb raw =
     with_rssi (ra_RSSI raw) (with_seen_position (ra_SeenPosition raw) (with_vertical_rate (ra_BaroRate raw) (ra_GeomRate raw)
       (with_track (ra_Track raw) (with_ground_speed (ra_GroundSpeed raw) (readsb_position (ra_Latitude raw) (ra_Longitude raw)
         (zero_aircraft\<lparr> ac_ICAO := to_upper (trim_space (ra_Hex raw)), ac_Provider := ProviderReadsb,
            ac_SourceType := trim_space (ra_Type raw), ac_Callsign := to_upper (trim_space (ra_Flight raw)),
            ac_Registration := to_upper (trim_space (ra_Registration raw)), ac_AircraftType := to_upper (trim_space (ra_AircraftType raw)),
            ac_Category := trim_space (ra_Category raw), ac_Squawk := trim_space (ra_Squawk raw),
            ac_Emergency := to_lower (trim_space (ra_Emergency raw)), ac_Messages := ra_Messages raw,
            ac_Seen := durationSeconds (ra_Seen raw), ac_AltitudeFeet := alt_Value (ra_Altitude raw),
            ac_HasAltitude := alt_Valid (ra_Altitude raw) \<and> \<not> alt_Ground (ra_Altitude raw),
            ac_OnGround := alt_Ground (ra_Altitude raw) \<rparr>))))))"

fun normalize_readsb_list :: "readsb_aircraft list \<Rightarrow> aircraft list" where
  "normalize_readsb_list [] = []"
| "normalize_readsb_list (raw # rest) =
     (if to_upper (trim_space (ra_Hex raw)) = [] then normalize_readsb_list rest else normalize_readsb raw # normalize_readsb_list rest)"

definition normalizeAircraft :: "aircraft_response \<Rightarrow> aircraft_batch" where
  "normalizeAircraft r = \<lparr> ab_Provider = ProviderReadsb, ab_GeneratedAt = unixFloat (rr_Now r), ab_Messages = rr_Messages r,
     ab_MessageCounterValid = True, ab_Aircraft = normalize_readsb_list (case rr_Aircraft r of Some xs \<Rightarrow> xs | None \<Rightarrow> []) \<rparr>"

definition validateReceiverResponse :: "receiver_response \<Rightarrow> go_error option" where
  "validateReceiverResponse r =
     (if trim_space (rv_Version r) = [] then Some (Plain ''receiver payload is missing the version'')
      else if rv_Refresh r \<le> 0 then Some (Plain ''receiver payload has no valid refresh interval'')
      else if (rv_Latitude r = None) \<noteq> (rv_Longitude r = None) then Some (Plain ''receiver payload has an incomplete position'')
      else case (rv_Latitude r, rv_Longitude r) of
             (Some la, Some lo) \<Rightarrow> if \<not> validPosition la lo then Some (Plain ''receiver payload has an invalid position'') else None
           | _ \<Rightarrow> None)"

definition normalizeReceiver :: "receiver_response \<Rightarrow> time \<Rightarrow> receiver" where
  "normalizeReceiver r fetchedAt =
     (let base = \<lparr> rc_Version = trim_space (rv_Version r), rc_Refresh = wrap_i64 (rv_Refresh r * millisecond), rc_HistorySize = rv_History r,
            rc_Latitude = 0, rc_Longitude = 0, rc_HasPosition = False, rc_FetchedAt = fetchedAt \<rparr>
      in case (rv_Latitude r, rv_Longitude r) of
           (Some la, Some lo) \<Rightarrow>
             if validPosition la lo then base\<lparr> rc_Latitude := la, rc_Longitude := lo, rc_HasPosition := True \<rparr> else base
         | _ \<Rightarrow> base)"

definition validStatsPeriod :: "stats_period \<Rightarrow> bool" where
  "validStatsPeriod p \<longleftrightarrow> validUnixSeconds (sp_Start p) \<and> validUnixSeconds (sp_End p) \<and> sp_End p > sp_Start p"

definition selectStatsPeriod :: "stats_response \<Rightarrow> stats_period option" where
  "selectStatsPeriod r =
     (if validStatsPeriod (st_Latest r) then Some (st_Latest r)
      else if validStatsPeriod (st_Last1Min r) then Some (st_Last1Min r)
      else None)"

definition statsDistanceMetres :: "stats_period \<Rightarrow> real" where
  "statsDistanceMetres p =
     (case sp_MaxDistance p of Some d \<Rightarrow> d | None \<Rightarrow> (case sp_MaxDistanceInMetres p of Some d \<Rightarrow> d | None \<Rightarrow> 0))"

definition validateStatsResponse :: "stats_response \<Rightarrow> go_error option" where
  "validateStatsResponse r =
     (case selectStatsPeriod r of
        None \<Rightarrow> Some (Plain ''stats payload has no valid latest or last1min period'')
      | Some p \<Rightarrow>
          if statsDistanceMetres p < 0 then Some (Plain ''stats payload has an invalid maximum distance'')
          else if sp_TracksAll p < 0 \<or> sp_TracksSingle p < 0 then Some (Plain ''stats payload has a negative track count'')
          else if (case st_WithPosition r of Some n \<Rightarrow> n < 0 | None \<Rightarrow> False) then Some (Plain ''stats payload has a negative positioned-aircraft count'')
          else if (case st_WithoutPosition r of Some n \<Rightarrow> n < 0 | None \<Rightarrow> False) then Some (Plain ''stats payload has a negative unpositioned-aircraft count'')
          else None)"

definition zero_statistics_at :: "time \<Rightarrow> statistics" where
  "zero_statistics_at fetchedAt = \<lparr> sx_WindowStart = time_zero, sx_WindowEnd = time_zero, sx_Messages = 0, sx_MessageRate = 0, sx_MaxRangeNM = 0,
     sx_TrackedAircraft = 0, sx_SingleMessageOnly = 0, sx_FetchedAt = fetchedAt \<rparr>"

definition normalizeStats :: "stats_response \<Rightarrow> time \<Rightarrow> statistics" where
  "normalizeStats r fetchedAt =
     (case selectStatsPeriod r of
        None \<Rightarrow> zero_statistics_at fetchedAt
      | Some p \<Rightarrow>
          let start = unixFloat (sp_Start p); stop = unixFloat (sp_End p);
              length_s = of_int (time_sub stop start) / of_int second :: real;
              rate = (if length_s > 0 then real (unat (sp_Messages p)) / length_s else 0);
              tracked = (if st_WithPosition r \<noteq> None \<or> st_WithoutPosition r \<noteq> None then
                           wrap_i64 ((case st_WithPosition r of Some n \<Rightarrow> n | None \<Rightarrow> 0) + (case st_WithoutPosition r of Some n \<Rightarrow> n | None \<Rightarrow> 0))
                         else sp_TracksAll p)
          in \<lparr> sx_WindowStart = start, sx_WindowEnd = stop, sx_Messages = sp_Messages p, sx_MessageRate = rate,
               sx_MaxRangeNM = statsDistanceMetres p / 1852, sx_TrackedAircraft = tracked, sx_SingleMessageOnly = sp_TracksSingle p,
               sx_FetchedAt = fetchedAt \<rparr>)"

section \<open>readsb: a fetch\<close>

text \<open>\<open>errors.Is(err, context.DeadlineExceeded)\<close>.\<close>

primrec is_deadline :: "go_error \<Rightarrow> bool" where
  "is_deadline (FetchError e c err) = is_deadline err"
| "is_deadline (NetError t m) = False"
| "is_deadline (Wrapped m err) = is_deadline err"
| "is_deadline (Joined errs) = list_ex id (map is_deadline errs)"
| "is_deadline (Plain m) = False"
| "is_deadline ContextCanceled = False"
| "is_deadline ContextDeadline = True"

text \<open>What the network does with a request; \<open>ht_ReadErr\<close> is what a read past the body returns instead of the end.\<close>

record http_response =
  ht_Code :: int
  ht_Status :: string
  ht_ContentType :: string
  ht_RetryAfter :: string
  ht_Body :: string
  ht_ReadErr :: "go_error option"

datatype http_reply = BadRequest go_error | NoResponse go_error | Response http_response

definition read_limited :: "nat \<Rightarrow> http_response \<Rightarrow> go_error option \<times> string" where
  "read_limited n r = (if length (ht_Body r) < n then (ht_ReadErr r, ht_Body r) else (None, take n (ht_Body r)))"

definition fetchJSON ::
    "(string \<Rightarrow> go_error + 'a) \<Rightarrow> ('a \<Rightarrow> go_error option) \<Rightarrow> string \<Rightarrow> nat \<Rightarrow> http_reply \<Rightarrow> time \<Rightarrow> go_error + time \<times> 'a" where
  "fetchJSON decode validate endpoint maximum reply fetchedAt =
     (case reply of
        BadRequest e \<Rightarrow> Inl (FetchError endpoint ErrorPayload e)
      | NoResponse e \<Rightarrow> Inl (FetchError endpoint (if is_deadline e then ErrorTimeout else ErrorNetwork) e)
      | Response r \<Rightarrow>
          if ht_Code r < 200 \<or> ht_Code r \<ge> 300 then Inl (FetchError endpoint ErrorStatus (Plain (''HTTP '' @ ht_Status r)))
          else
            case read_limited (maximum + 1) r of
              (Some e, data) \<Rightarrow> Inl (FetchError endpoint ErrorPayload e)
            | (None, data) \<Rightarrow>
                if length data > maximum then Inl (FetchError endpoint ErrorPayload (Plain ''payload exceeds the limit''))
                else if data = [] then Inl (FetchError endpoint ErrorPayload (Plain ''empty payload''))
                else case decode data of
                       Inl e \<Rightarrow> Inl (FetchError endpoint ErrorPayload (Wrapped ''decode JSON'' e))
                     | Inr v \<Rightarrow>
                         (case validate v of
                            Some e \<Rightarrow> Inl (FetchError endpoint ErrorPayload (Wrapped ''validate JSON'' e))
                          | None \<Rightarrow> Inr (fetchedAt, v)))"

definition frame_of :: "(time \<Rightarrow> 'a \<Rightarrow> 'b) \<Rightarrow> go_error + time \<times> 'a \<Rightarrow> go_error + 'b frame" where
  "frame_of convert result =
     (case result of
        Inl e \<Rightarrow> Inl e
      | Inr (fetchedAt, v) \<Rightarrow> Inr \<lparr> fr_FeederID = [], fr_FetchedAt = fetchedAt, fr_Provider = ProviderReadsb, fr_Value = convert fetchedAt v \<rparr>)"

definition readsb_FetchAircraft :: "(string \<Rightarrow> go_error + aircraft_response) \<Rightarrow> http_reply \<Rightarrow> time \<Rightarrow> go_error + aircraft_batch frame" where
  "readsb_FetchAircraft decode reply fetchedAt =
     frame_of (\<lambda>_. normalizeAircraft) (fetchJSON decode validateAircraftResponse ''aircraft.json'' (16 * 2 ^ 20) reply fetchedAt)"

definition readsb_FetchReceiver :: "(string \<Rightarrow> go_error + receiver_response) \<Rightarrow> http_reply \<Rightarrow> time \<Rightarrow> go_error + receiver frame" where
  "readsb_FetchReceiver decode reply fetchedAt =
     frame_of (\<lambda>t r. normalizeReceiver r t) (fetchJSON decode validateReceiverResponse ''receiver.json'' (256 * 2 ^ 10) reply fetchedAt)"

definition readsb_FetchStats :: "(string \<Rightarrow> go_error + stats_response) \<Rightarrow> http_reply \<Rightarrow> time \<Rightarrow> go_error + statistics frame" where
  "readsb_FetchStats decode reply fetchedAt =
     frame_of (\<lambda>t r. normalizeStats r t) (fetchJSON decode validateStatsResponse ''stats.json'' (4 * 2 ^ 20) reply fetchedAt)"

end
