(* ===== verification/Aircraft_Points.thy ===== *)
theory Aircraft_Points
  imports Aircraft_Sources
begin

text \<open>
  airplanes.live (\<open>internal/source/airplaneslive\<close>): the validation of a response, which accepts
  all of it or nothing, its normalisation, the client with its rate limit and its handling of
  \<open>Retry-After\<close>. The wait for a request is a sequence of turns under a mutex; the callers
  interleave.
\<close>

section \<open>Payload\<close>

record point_aircraft =
  pa_Hex :: string
  pa_Type :: string
  pa_Flight :: string
  pa_Registration :: string
  pa_AircraftType :: string
  pa_Category :: string
  pa_Squawk :: string
  pa_Emergency :: string
  pa_Latitude :: "real option"
  pa_Longitude :: "real option"
  pa_Altitude :: altitude
  pa_GroundSpeed :: "real option"
  pa_Track :: "real option"
  pa_BaroRate :: "int option"
  pa_GeomRate :: "int option"
  pa_Messages :: "u64 option"
  pa_Seen :: "real option"
  pa_SeenPosition :: "real option"
  pa_RSSI :: "real option"

record point_response =
  pr_Aircraft :: "point_aircraft list option"
  pr_Message :: string
  pr_Now :: "int option"
  pr_Total :: "int option"
  pr_CacheAt :: "int option"
  pr_Process :: "real option"

section \<open>Validation\<close>

definition validUnixMilliseconds :: "int \<Rightarrow> bool" where
  "validUnixMilliseconds value \<longleftrightarrow> value \<ge> 1000000000000 \<and> value \<le> 4102444800000"

definition hex_upper :: "char \<Rightarrow> bool" where
  "hex_upper c \<longleftrightarrow> \<not> ((c < CHR ''0'' \<or> c > CHR ''9'') \<and> (c < CHR ''A'' \<or> c > CHR ''F''))"

definition validAircraftIdentifier :: "string \<Rightarrow> bool" where
  "validAircraftIdentifier value =
     (let v = (if length value = 7 \<and> hd value = CHR ''~'' then tl value else value) in
      length v = 6 \<and> list_all hex_upper v)"

definition unfit :: "('a \<Rightarrow> bool) \<Rightarrow> 'a option \<Rightarrow> bool" where
  "unfit bad v = (case v of Some x \<Rightarrow> bad x | None \<Rightarrow> False)"

definition point_aircraft_error :: "point_aircraft \<Rightarrow> string option" where
  "point_aircraft_error a =
     (if trim_space (pa_Type a) = [] then Some ''point payload contains an aircraft without a source type''
      else if pa_Messages a = None then Some ''point payload contains an aircraft without a message count''
      else if pa_Seen a = None \<or> unfit (\<lambda>s. s < 0) (pa_Seen a) then Some ''point payload contains an invalid seen age''
      else if (pa_Latitude a = None) \<noteq> (pa_Longitude a = None) then Some ''point payload contains an incomplete aircraft position''
      else if unfit (\<lambda>la. unfit (\<lambda>lo. \<not> validPosition la lo) (pa_Longitude a)) (pa_Latitude a) then Some ''point payload contains an invalid aircraft position''
      else if unfit (\<lambda>v. v < 0) (pa_GroundSpeed a) then Some ''point payload contains an invalid ground speed''
      else if unfit (\<lambda>v. v < 0 \<or> v > 360) (pa_Track a) then Some ''point payload contains an invalid track''
      else if unfit (\<lambda>v. v < 0) (pa_SeenPosition a) then Some ''point payload contains an invalid position age''
      else None)"

fun validate_point_list :: "point_aircraft list \<Rightarrow> (string, unit) gomap \<Rightarrow> string option" where
  "validate_point_list [] seen = None"
| "validate_point_list (a # rest) seen =
     (let icao = to_upper (trim_space (pa_Hex a)) in
      if \<not> validAircraftIdentifier icao then Some ''point payload contains an invalid aircraft identifier''
      else if map_of seen icao \<noteq> None then Some ''point payload contains a duplicate aircraft identifier''
      else case point_aircraft_error a of
             Some e \<Rightarrow> Some e
           | None \<Rightarrow> validate_point_list rest (AList.update icao () seen))"

definition validatePointResponse :: "point_response \<Rightarrow> string option" where
  "validatePointResponse r =
     (case pr_Aircraft r of
        None \<Rightarrow> Some ''point payload is missing the aircraft array''
      | Some xs \<Rightarrow>
          if pr_Now r = None \<or> unfit (\<lambda>v. \<not> validUnixMilliseconds v) (pr_Now r) then Some ''point payload has no valid millisecond generation time''
          else if pr_Total r = None \<or> unfit (\<lambda>n. n < 0 \<or> n \<noteq> int (length xs)) (pr_Total r) then Some ''point payload aircraft total does not match the array''
          else if length xs > 10000 then Some ''point payload contains too many aircraft''
          else if trim_space (pr_Message r) \<noteq> ''No error'' then Some ''point payload reports a provider error''
          else if pr_CacheAt r = None \<or> unfit (\<lambda>v. \<not> validUnixMilliseconds v) (pr_CacheAt r) then Some ''point payload has an invalid millisecond cache time''
          else if pr_Process r = None \<or> unfit (\<lambda>v. v < 0) (pr_Process r) then Some ''point payload has an invalid processing time''
          else validate_point_list xs [])"

section \<open>Normalisation\<close>

definition point_position :: "real option \<Rightarrow> real option \<Rightarrow> aircraft \<Rightarrow> aircraft" where
  "point_position lat lon a =
     (case lat of Some la \<Rightarrow> a\<lparr> ac_Latitude := la, ac_Longitude := the lon, ac_HasPosition := True \<rparr> | None \<Rightarrow> a)"

definition point_track :: "real option \<Rightarrow> aircraft \<Rightarrow> aircraft" where
  "point_track track a = with_track (map_option (\<lambda>v. if v = 360 then 0 else v) track) a"

text \<open>The dereferences of \<open>Messages\<close>, \<open>Seen\<close> and \<open>Now\<close>, and of the longitude, are safe in a validated response.\<close>

definition normalize_point_aircraft :: "point_aircraft \<Rightarrow> aircraft" where
  "normalize_point_aircraft raw =
     with_rssi (pa_RSSI raw) (with_seen_position (pa_SeenPosition raw) (with_vertical_rate (pa_BaroRate raw) (pa_GeomRate raw)
       (point_track (pa_Track raw) (with_ground_speed (pa_GroundSpeed raw) (point_position (pa_Latitude raw) (pa_Longitude raw)
         (zero_aircraft\<lparr> ac_ICAO := normalizedText (pa_Hex raw) 7 True, ac_Provider := ProviderAirplanesLive,
            ac_SourceType := normalizedText (pa_Type raw) 32 False, ac_Callsign := normalizedText (pa_Flight raw) 16 True,
            ac_Registration := normalizedText (pa_Registration raw) 16 True, ac_AircraftType := normalizedText (pa_AircraftType raw) 16 True,
            ac_Category := normalizedText (pa_Category raw) 8 False, ac_Squawk := normalizedText (pa_Squawk raw) 8 False,
            ac_Emergency := to_lower (normalizedText (pa_Emergency raw) 32 False), ac_Messages := the (pa_Messages raw),
            ac_Seen := durationSeconds (the (pa_Seen raw)), ac_AltitudeFeet := alt_Value (pa_Altitude raw),
            ac_HasAltitude := alt_Valid (pa_Altitude raw) \<and> \<not> alt_Ground (pa_Altitude raw),
            ac_OnGround := alt_Ground (pa_Altitude raw) \<rparr>))))))"

definition from_unix_milli :: "int \<Rightarrow> time" where
  "from_unix_milli ms = unix_epoch_seconds * second + ms * millisecond"

definition normalizePoint :: "point_response \<Rightarrow> aircraft_batch" where
  "normalizePoint r = \<lparr> ab_Provider = ProviderAirplanesLive, ab_GeneratedAt = from_unix_milli (the (pr_Now r)), ab_Messages = 0,
     ab_MessageCounterValid = False, ab_Aircraft = map normalize_point_aircraft (case pr_Aircraft r of Some xs \<Rightarrow> xs | None \<Rightarrow> []) \<rparr>"

section \<open>The client\<close>

record point_config =
  pc_Latitude :: real
  pc_Longitude :: real
  pc_RadiusNM :: int
  pc_Timeout :: duration
  pc_MinimumInterval :: duration

record base_url =
  bu_Scheme :: string
  bu_Host :: string
  bu_User :: bool
  bu_RawQuery :: string
  bu_Fragment :: string

record point_client =
  pk_minimumInterval :: duration
  pk_nextRequest :: time
  pk_retryNotBefore :: time

abbreviation minimumRate :: duration where "minimumRate \<equiv> second"
abbreviation maxRetryAfter :: duration where "maxRetryAfter \<equiv> 30 * second"

text \<open>\<open>newClient\<close>, with the configuration of the client kept apart from its state.\<close>

definition newClient :: "base_url option \<Rightarrow> bool \<Rightarrow> point_config \<Rightarrow> string + point_client" where
  "newClient baseURL hasHTTP config =
     (case baseURL of
        None \<Rightarrow> Inl ''airplanes.live client requires HTTP configuration''
      | Some u \<Rightarrow>
          if \<not> hasHTTP then Inl ''airplanes.live client requires HTTP configuration''
          else if \<not> validPosition (pc_Latitude config) (pc_Longitude config) then Inl ''airplanes.live client requires a valid public center''
          else if pc_RadiusNM config < 1 \<or> pc_RadiusNM config > 250 then Inl ''airplanes.live radius must be between 1 and 250 NM''
          else if pc_Timeout config \<le> 0 then Inl ''airplanes.live timeout must be positive''
          else if pc_MinimumInterval config < minimumRate then Inl ''airplanes.live poll interval must be at least one second''
          else if bu_Scheme u = [] \<or> bu_Host u = [] \<or> bu_User u \<or> bu_RawQuery u \<noteq> [] \<or> bu_Fragment u \<noteq> [] then Inl ''airplanes.live endpoint is invalid''
          else Inr \<lparr> pk_minimumInterval = pc_MinimumInterval config, pk_nextRequest = time_zero, pk_retryNotBefore = time_zero \<rparr>)"

text \<open>A turn of \<open>acquire\<close>: granted, or the delay to wait for.\<close>

definition acquire_turn :: "time \<Rightarrow> point_client \<Rightarrow> duration option \<times> point_client" where
  "acquire_turn now c =
     (let notBefore = (if pk_retryNotBefore c > pk_nextRequest c then pk_retryNotBefore c else pk_nextRequest c) in
      if \<not> notBefore > now then (None, c\<lparr> pk_nextRequest := now + pk_minimumInterval c \<rparr>)
      else (Some (time_sub notBefore now), c))"

text \<open>The loop: the readings of the clock, and whether each wait ended in time. \<open>None\<close>: the
  readings are not enough; \<open>Some False\<close>: the context ended.\<close>

fun acquire :: "(time \<times> bool) list \<Rightarrow> point_client \<Rightarrow> bool option \<times> point_client" where
  "acquire [] c = (None, c)"
| "acquire ((now, waited) # rest) c =
     (case acquire_turn now c of
        (None, c') \<Rightarrow> (Some True, c')
      | (Some delay, c') \<Rightarrow> if waited then acquire rest c' else (Some False, c'))"

definition deferRequests :: "time \<Rightarrow> duration \<Rightarrow> point_client \<Rightarrow> point_client" where
  "deferRequests now delay c =
     (if delay \<le> 0 then c
      else let notBefore = now + delay in
           if notBefore > pk_retryNotBefore c then c\<lparr> pk_retryNotBefore := notBefore \<rparr> else c)"

text \<open>\<open>ParseTime\<close>: the date of a header; a number too long for \<open>uint64\<close> is out of range.\<close>

definition boundedRetryAfter :: "(string \<Rightarrow> time option) \<Rightarrow> string \<Rightarrow> time \<Rightarrow> duration" where
  "boundedRetryAfter ParseTime raw0 now =
     (let raw = trim_space raw0 in
      if asciiDigits raw \<and> (digits_value raw \<ge> 2 ^ 64 \<or> digits_value raw \<ge> 30) then maxRetryAfter
      else
        let delay = (if asciiDigits raw then int (digits_value raw) * second
                     else case ParseTime raw of
                            Some value \<Rightarrow> if value > now then time_sub value now else minimumRate
                          | None \<Rightarrow> minimumRate)
        in if delay < minimumRate then minimumRate else if delay > maxRetryAfter then maxRetryAfter else delay)"

text \<open>\<open>Duration.String\<close> from one second to below a minute: the fraction without trailing zeros.\<close>

definition seconds_String :: "duration \<Rightarrow> string" where
  "seconds_String d =
     (let fraction = format_int (d mod second);
          padded = replicate (9 - length fraction) CHR ''0'' @ fraction;
          shown = rev (dropWhile (\<lambda>c. c = CHR ''0'') (rev padded))
      in format_int (d div second) @ (if shown = [] then [] else CHR ''.'' # shown) @ ''s'')"

definition payloadError :: "string \<Rightarrow> go_error" where
  "payloadError message = FetchError ''aircraft'' ErrorPayload (Plain message)"

text \<open>
  What the decoder of a stream does with the bytes it may read: how many it has read when the
  first value is decoded, that value, whether the end is the next it finds, and how many bytes
  it has read by then.
\<close>

record 'a stream_decode =
  sm_First :: nat
  sm_Value :: "'a option"
  sm_Single :: bool
  sm_Second :: nat

definition point_body :: "(string \<Rightarrow> point_response stream_decode) \<Rightarrow> http_response \<Rightarrow> go_error + point_response" where
  "point_body decode r =
     (let maximum = 16 * 2 ^ 20; d = decode (take (maximum + 1) (ht_Body r)) in
      if sm_First d = maximum + 1 then Inl (payloadError ''payload exceeds size limit'')
      else case sm_Value d of
             None \<Rightarrow> Inl (payloadError ''decode JSON'')
           | Some payload \<Rightarrow>
               if \<not> sm_Single d then Inl (payloadError ''response contains multiple JSON values'')
               else if sm_Second d = maximum + 1 then Inl (payloadError ''payload exceeds size limit'')
               else case validatePointResponse payload of
                      Some e \<Rightarrow> Inl (FetchError ''aircraft'' ErrorPayload (Plain e))
                    | None \<Rightarrow> Inr payload)"

text \<open>
  A fetch: the readings and waits for the rate limit, the reply, the context's error after it,
  the time of the reply, and the reading of the clock for the deferral. \<open>acquire_err\<close> is the
  error of the context.
\<close>

definition point_FetchAircraft ::
    "(string \<Rightarrow> point_response stream_decode) \<Rightarrow> (string \<Rightarrow> time option) \<Rightarrow> (string \<Rightarrow> bool) \<Rightarrow> (time \<times> bool) list \<Rightarrow> go_error
     \<Rightarrow> http_reply \<Rightarrow> go_error option \<Rightarrow> time \<Rightarrow> time \<Rightarrow> point_client \<Rightarrow> (go_error + aircraft_batch frame) option \<times> point_client" where
  "point_FetchAircraft decode ParseTime jsonContentType waits acquire_err reply ctxErr fetchedAt deferAt c0 =
     (case acquire waits c0 of
        (None, c) \<Rightarrow> (None, c)
      | (Some False, c) \<Rightarrow> (Some (Inl acquire_err), c)
      | (Some True, c) \<Rightarrow>
          (case reply of
             BadRequest e \<Rightarrow> (Some (Inl (payloadError ''construct request'')), c)
           | NoResponse e \<Rightarrow>
               (Some (Inl (case ctxErr of
                  Some err \<Rightarrow> err
                | None \<Rightarrow>
                    if as_NetError e = Some True then FetchError ''aircraft'' ErrorTimeout (Plain ''request timed out'')
                    else FetchError ''aircraft'' ErrorNetwork (Plain ''network request failed''))), c)
           | Response r \<Rightarrow>
               if ht_Code r < 200 \<or> ht_Code r \<ge> 300 then
                 let limited = (ht_Code r = 429 \<or> ht_Code r = 503);
                     retryAfter = (if limited then boundedRetryAfter ParseTime (ht_RetryAfter r) fetchedAt else 0);
                     message = ''HTTP '' @ format_int (ht_Code r) @ (if retryAfter > 0 then ''; retry after '' @ seconds_String retryAfter else [])
                 in (Some (Inl (FetchError ''aircraft'' ErrorStatus (Plain message))), if limited then deferRequests deferAt retryAfter c else c)
               else if \<not> jsonContentType (ht_ContentType r) then (Some (Inl (payloadError ''response content type is not JSON'')), c)
               else case point_body decode r of
                      Inl e \<Rightarrow> (Some (Inl e), c)
                    | Inr payload \<Rightarrow>
                        (Some (Inr \<lparr> fr_FeederID = [], fr_FetchedAt = fetchedAt, fr_Provider = ProviderAirplanesLive, fr_Value = normalizePoint payload \<rparr>), c)))"

section \<open>Callers under every interleaving\<close>

text \<open>What has happened so far, newest first: requests granted, and deferrals with their delay.\<close>

datatype point_event = Granted time | Deferred time duration

record point_system =
  py_client :: point_client
  py_clock :: time
  py_log :: "point_event list"

inductive point_step :: "point_system \<Rightarrow> point_system \<Rightarrow> bool" where
  tick: "py_clock y \<le> now \<Longrightarrow> point_step y (y\<lparr> py_clock := now \<rparr>)"
| turn: "acquire_turn (py_clock y) (py_client y) = (None, c) \<Longrightarrow>
    point_step y (y\<lparr> py_client := c, py_log := Granted (py_clock y) # py_log y \<rparr>)"
| wait: "acquire_turn (py_clock y) (py_client y) = (Some delay, c) \<Longrightarrow> point_step y (y\<lparr> py_client := c \<rparr>)"
| deferral: "delay = boundedRetryAfter ParseTime raw fetchedAt \<Longrightarrow>
    point_step y (y\<lparr> py_client := deferRequests (py_clock y) delay (py_client y), py_log := Deferred (py_clock y) delay # py_log y \<rparr>)"

definition point_start :: "point_client \<Rightarrow> time \<Rightarrow> point_system" where
  "point_start c now = \<lparr> py_client = c, py_clock = now, py_log = [] \<rparr>"

end
