(* ===== verification/Aircraft_Points_Props.thy ===== *)
theory Aircraft_Points_Props
  imports Aircraft_Points State_Engine_Props
begin

text \<open>
  What the sources promise to the engine: an accepted response of airplanes.live is found in the
  engine aircraft by aircraft, a response of readsb up to its best duplicates; every error of a
  fetch is of a class; requests keep their distance, however many callers there are.
\<close>

section \<open>Text\<close>

text \<open>Printable ASCII passes unchanged.\<close>

lemma keep_runes_plain: "list_all plain_char s \<Longrightarrow> length s \<le> room \<Longrightarrow> keep_runes room s = s"
proof (induction s arbitrary: room)
  case (Cons c s)
  then have c: "plain_char c" by simp
  then show ?case using Cons c
    by (subst keep_runes.simps) (auto simp: next_rune_plain rune_bytes_plain [unfolded One_nat_def] plain_char_def rune_control_def)
qed (subst keep_runes.simps, simp)

lemma normalizedText_plain:
  assumes "list_all plain_char (trim_space s)" "length (trim_space s) \<le> maximum"
  shows "normalizedText s maximum upper = (if upper then to_upper (trim_space s) else trim_space s)"
  using assms by (simp add: normalizedText_def keep_runes_plain)

text \<open>An accepted address is the text it was sent as, trimmed and in capitals.\<close>

lemma hex_upper_plain: "hex_upper (up_char c) \<Longrightarrow> plain_char c"
  by (simp add: hex_upper_def plain_char_def char_le_iff char_less_iff of_char_up_char split: if_splits) auto

lemma identifier_plain:
  assumes "validAircraftIdentifier (to_upper s)"
  shows "list_all plain_char s \<and> length s \<le> 7 \<and> s \<noteq> []"
proof (cases "length (to_upper s) = 7 \<and> hd (to_upper s) = CHR ''~''")
  case True
  then obtain c t where s: "s = c # t" "up_char c = CHR ''~''" by (cases s) (auto simp: to_upper_def)
  have "plain_char c" using arg_cong [OF s(2), of "of_char :: char \<Rightarrow> nat"] by (simp add: plain_char_def of_char_up_char split: if_splits)
  moreover have "list_all plain_char t" using assms True s(1) by (auto simp: validAircraftIdentifier_def Let_def to_upper_def list_all_iff intro: hex_upper_plain)
  ultimately show ?thesis using True s(1) by simp
next
  case False
  then have "length s = 6" "list_all hex_upper (to_upper s)" using assms by (auto simp: validAircraftIdentifier_def Let_def split: if_splits)
  then show ?thesis by (auto simp: to_upper_def list_all_iff intro: hex_upper_plain)
qed

lemma identifier_text:
  assumes "validAircraftIdentifier (to_upper (trim_space s))"
  shows "normalizedText s 7 True = to_upper (trim_space s)" "to_upper (trim_space s) \<noteq> []"
  using identifier_plain [OF assms] normalizedText_plain [of s 7 True] by (auto simp: to_upper_def)

section \<open>Normalised aircraft\<close>

lemma with_fields [simp]:
  "ac_ICAO (with_rssi v a) = ac_ICAO a" "ac_ICAO (with_seen_position v a) = ac_ICAO a" "ac_ICAO (with_vertical_rate g h a) = ac_ICAO a"
  "ac_ICAO (with_track v a) = ac_ICAO a" "ac_ICAO (with_ground_speed v a) = ac_ICAO a"
  "ac_Latitude (with_rssi v a) = ac_Latitude a" "ac_Latitude (with_seen_position v a) = ac_Latitude a" "ac_Latitude (with_vertical_rate g h a) = ac_Latitude a"
  "ac_Latitude (with_track v a) = ac_Latitude a" "ac_Latitude (with_ground_speed v a) = ac_Latitude a"
  "ac_Longitude (with_rssi v a) = ac_Longitude a" "ac_Longitude (with_seen_position v a) = ac_Longitude a" "ac_Longitude (with_vertical_rate g h a) = ac_Longitude a"
  "ac_Longitude (with_track v a) = ac_Longitude a" "ac_Longitude (with_ground_speed v a) = ac_Longitude a"
  "ac_HasPosition (with_rssi v a) = ac_HasPosition a" "ac_HasPosition (with_seen_position v a) = ac_HasPosition a"
  "ac_HasPosition (with_vertical_rate g h a) = ac_HasPosition a" "ac_HasPosition (with_track v a) = ac_HasPosition a"
  "ac_HasPosition (with_ground_speed v a) = ac_HasPosition a"
  by (simp_all add: with_rssi_def with_seen_position_def with_vertical_rate_def with_track_def with_ground_speed_def split: option.splits)

text \<open>A place that is on the globe, or none, with the zero coordinates.\<close>

definition place_ok :: "aircraft \<Rightarrow> bool" where
  "place_ok a = (if ac_HasPosition a then validPosition (ac_Latitude a) (ac_Longitude a) else ac_Latitude a = 0 \<and> ac_Longitude a = 0)"

lemma normalize_readsb_icao [simp]: "ac_ICAO (normalize_readsb raw) = to_upper (trim_space (ra_Hex raw))"
  by (simp add: normalize_readsb_def readsb_position_def split: option.splits)

lemma normalize_readsb_place: "place_ok (normalize_readsb raw)"
  by (simp add: normalize_readsb_def readsb_position_def place_ok_def zero_aircraft_def split: option.splits)

lemma normalize_readsb_list_set:
  "set (normalize_readsb_list raws) = normalize_readsb ` {raw \<in> set raws. to_upper (trim_space (ra_Hex raw)) \<noteq> []}"
  by (induction raws) auto

lemma normalize_point_icao: "ac_ICAO (normalize_point_aircraft raw) = normalizedText (pa_Hex raw) 7 True"
  by (simp add: normalize_point_aircraft_def point_position_def point_track_def split: option.splits)

lemma normalize_point_place:
  assumes "point_aircraft_error raw = None"
  shows "place_ok (normalize_point_aircraft raw)"
proof -
  have "(pa_Latitude raw = None) = (pa_Longitude raw = None)" "\<not> unfit (\<lambda>la. unfit (\<lambda>lo. \<not> validPosition la lo) (pa_Longitude raw)) (pa_Latitude raw)"
    using assms by (simp_all add: point_aircraft_error_def split: if_splits)
  then show ?thesis
    by (cases "pa_Latitude raw"; cases "pa_Longitude raw")
      (simp_all add: unfit_def normalize_point_aircraft_def point_position_def point_track_def place_ok_def zero_aircraft_def)
qed

section \<open>From a response to the engine\<close>

lemma not_seen: "v \<noteq> Some () \<longleftrightarrow> v = None"
  by (cases v) simp_all

lemma validate_list:
  assumes "validate_point_list xs seen = None"
  shows "distinct (map (\<lambda>raw. to_upper (trim_space (pa_Hex raw))) xs) \<and>
    (\<forall>raw \<in> set xs. validAircraftIdentifier (to_upper (trim_space (pa_Hex raw))) \<and> point_aircraft_error raw = None \<and>
       map_of seen (to_upper (trim_space (pa_Hex raw))) = None)"
  using assms
proof (induction xs arbitrary: seen)
  case (Cons a xs)
  define icao where "icao = to_upper (trim_space (pa_Hex a))"
  have a: "validAircraftIdentifier icao" "map_of seen icao = None" "point_aircraft_error a = None"
    and rest: "validate_point_list xs (AList.update icao () seen) = None"
    using Cons.prems by (cases "map_of seen icao"; simp_all add: icao_def Let_def split: if_splits option.splits)+
  show ?case using Cons.IH [OF rest] a by (auto simp: icao_def [symmetric] not_seen split: if_splits)
qed simp

lemma validate_response:
  assumes "validatePointResponse r = None"
  obtains xs where "pr_Aircraft r = Some xs" "validate_point_list xs [] = None" "length xs \<le> 10000" "pr_Total r = Some (int (length xs))"
  using assms by (auto simp: validatePointResponse_def unfit_def split: option.splits if_splits)

lemma find_by_key:
  assumes "distinct (map f xs)" "x \<in> set xs"
  shows "find (\<lambda>y. f y = f x) xs = Some x"
  using assms by (induction xs) auto

lemma find_None_key: "find (\<lambda>y. f y = k) xs = None \<longleftrightarrow> (\<forall>y \<in> set xs. f y \<noteq> k)"
  by (auto simp: find_None_iff)

text \<open>
  C16. From airplanes.live to the engine. When a fetch succeeds, the response was accepted as a
  whole, and the engine that applies the frame finds exactly the aircraft of the response: under
  an address the one entry of that address, as it was sent up to normalisation and with the
  distance from the receiver, and nothing under any other address. Every place is on the globe.
\<close>

theorem point_fetch_lookup:
  assumes "point_FetchAircraft decode ParseTime jsonContentType waits acquireErr reply ctxErr fetchedAt deferAt c = (Some (Inr fr), c')"
  shows "\<exists>r payload xs. reply = Response r \<and> sm_Value (decode (take (16 * 2 ^ 20 + 1) (ht_Body r))) = Some payload \<and> pr_Aircraft payload = Some xs \<and>
    (\<forall>k. LookupICAO (eg_current (run_op (ApplyAircraft fr i now nowP) e)) k =
       map_option (\<lambda>raw. derive_distance (eg_receiver e) (normalize_entry ProviderAirplanesLive (normalize_point_aircraft raw)))
         (find (\<lambda>raw. to_upper (trim_space (pa_Hex raw)) = k) xs)) \<and>
    (\<forall>raw \<in> set xs. place_ok (normalize_point_aircraft raw)) \<and> length xs \<le> 10000"
proof -
  obtain r payload where r: "reply = Response r" "point_body decode r = Inr payload" and fr: "fr_Provider fr = ProviderAirplanesLive" "fr_Value fr = normalizePoint payload"
    using assms by (auto simp: point_FetchAircraft_def Let_def split: prod.splits option.splits bool.splits http_reply.splits if_splits sum.splits)
  have payload: "sm_Value (decode (take (16 * 2 ^ 20 + 1) (ht_Body r))) = Some payload" "validatePointResponse payload = None"
    using r(2) unfolding point_body_def Let_def by (auto split: if_splits option.splits)
  obtain xs where xs: "pr_Aircraft payload = Some xs" "validate_point_list xs [] = None" "length xs \<le> 10000"
    using validate_response [OF payload(2)] by metis
  define icao where "icao = (\<lambda>raw :: point_aircraft. to_upper (trim_space (pa_Hex raw)))"
  have valid: "distinct (map icao xs)" "\<And>raw. raw \<in> set xs \<Longrightarrow> validAircraftIdentifier (icao raw)" "\<And>raw. raw \<in> set xs \<Longrightarrow> point_aircraft_error raw = None"
    using validate_list [OF xs(2)] by (simp_all add: icao_def)
  have key: "ac_ICAO (normalize_point_aircraft raw) = icao raw" "icao raw \<noteq> []" "to_upper (trim_space (icao raw)) = icao raw" if "raw \<in> set xs" for raw
    using identifier_text [of "pa_Hex raw"] valid(2) [OF that] by (simp_all add: normalize_point_icao icao_def)
  have batch: "ab_Aircraft (fr_Value fr) = map normalize_point_aircraft xs" by (simp add: fr(2) normalizePoint_def xs(1))
  have prov: "frame_provider fr e = ProviderAirplanesLive" by (simp add: frame_provider_def fr(1) unset_provider_def)
  define found where "found = LookupICAO (eg_current (run_op (ApplyAircraft fr i now nowP) e))"
  have look: "found k = map_option (\<lambda>raw. derive_distance (eg_receiver e) (normalize_entry ProviderAirplanesLive (normalize_point_aircraft raw))) (find (\<lambda>raw. icao raw = k) xs)" for k
  proof (cases "found k")
    case None
    then have "\<forall>raw \<in> set xs. icao raw \<noteq> k"
      using applyAircraft_entries(1) [of fr i now nowP e k] key unfolding found_def batch by auto
    then have "find (\<lambda>raw. icao raw = k) xs = None" by (simp add: find_None_key)
    then show ?thesis using None by simp
  next
    case (Some a)
    then obtain raw where raw: "raw \<in> set xs" "icao raw = k"
      "a = derive_distance (eg_receiver e) (normalize_entry ProviderAirplanesLive (normalize_point_aircraft raw))"
      using applyAircraft_entries(2) [of fr i now nowP e k a] key unfolding found_def batch prov by auto
    then show ?thesis using Some find_by_key [OF valid(1) raw(1)] by simp
  qed
  show ?thesis
    using r(1) payload(1) xs(1,3) look valid(3) normalize_point_place unfolding found_def icao_def by blast
qed

text \<open>
  C0. From readsb to the engine. When a fetch succeeds, the engine that applies the frame finds
  an address exactly when some entry of the response has it (entries without an address are
  dropped), and what it finds is such an entry, normalised, on the globe if it has a place, and
  no worse than any other entry with that address.
\<close>

theorem readsb_fetch_lookup:
  assumes "readsb_FetchAircraft decode reply fetchedAt = Inr fr"
  shows "\<exists>r payload xs. reply = Response r \<and> decode (ht_Body r) = Inr payload \<and> rr_Aircraft payload = Some xs \<and> 0 < rr_Now payload \<and>
    (\<forall>k. k \<noteq> [] \<longrightarrow> (LookupICAO (eg_current (run_op (ApplyAircraft fr i now nowP) e)) k \<noteq> None \<longleftrightarrow> (\<exists>raw \<in> set xs. to_upper (trim_space (ra_Hex raw)) = k))) \<and>
    (\<forall>k a. LookupICAO (eg_current (run_op (ApplyAircraft fr i now nowP) e)) k = Some a \<longrightarrow>
      (\<exists>raw \<in> set xs. to_upper (trim_space (ra_Hex raw)) = k \<and> place_ok (normalize_readsb raw) \<and>
         a = derive_distance (eg_receiver e) (normalize_entry ProviderReadsb (normalize_readsb raw)) \<and>
         (\<forall>other \<in> set xs. to_upper (trim_space (ra_Hex other)) = k \<longrightarrow> \<not> betterBatchObservation (normalize_readsb other) (normalize_readsb raw))))"
proof -
  obtain r payload where r: "reply = Response r" "decode (ht_Body r) = Inr payload" "validateAircraftResponse payload = None"
    and fr: "fr_Provider fr = ProviderReadsb" "fr_Value fr = normalizeAircraft payload"
    using assms by (auto simp: readsb_FetchAircraft_def frame_of_def fetchJSON_def read_limited_def split: sum.splits http_reply.splits if_splits option.splits prod.splits)
  obtain xs where xs: "rr_Aircraft payload = Some xs" "0 < rr_Now payload"
    using r(3) by (auto simp: validateAircraftResponse_def validUnixSeconds_def split: if_splits)
  have batch: "set (ab_Aircraft (fr_Value fr)) = normalize_readsb ` {raw \<in> set xs. to_upper (trim_space (ra_Hex raw)) \<noteq> []}"
    by (simp add: fr(2) normalizeAircraft_def xs(1) normalize_readsb_list_set)
  have prov: "frame_provider fr e = ProviderReadsb" by (simp add: frame_provider_def fr(1) unset_provider_def)
  define found where "found = LookupICAO (eg_current (run_op (ApplyAircraft fr i now nowP) e))"
  have none: "found k = None \<longleftrightarrow> k = [] \<or> (\<forall>raw \<in> set xs. to_upper (trim_space (ra_Hex raw)) \<noteq> k)" for k
    using applyAircraft_entries(1) [of fr i now nowP e k] unfolding found_def batch by auto
  have some: "\<exists>raw \<in> set xs. to_upper (trim_space (ra_Hex raw)) = k \<and> place_ok (normalize_readsb raw) \<and>
      a = derive_distance (eg_receiver e) (normalize_entry ProviderReadsb (normalize_readsb raw)) \<and>
      (\<forall>other \<in> set xs. to_upper (trim_space (ra_Hex other)) = k \<longrightarrow> \<not> betterBatchObservation (normalize_readsb other) (normalize_readsb raw))"
    if a: "found k = Some a" for k a
  proof -
    have "k \<noteq> []" using none [of k] a by auto
    obtain raw where raw: "raw \<in> set xs" "to_upper (trim_space (ra_Hex raw)) = k" "a = derive_distance (eg_receiver e) (normalize_entry ProviderReadsb (normalize_readsb raw))"
      and best: "\<forall>b \<in> set (ab_Aircraft (fr_Value fr)). to_upper (trim_space (ac_ICAO b)) = k \<longrightarrow> \<not> betterBatchObservation b (normalize_readsb raw)"
      using applyAircraft_entries(2) [of fr i now nowP e k a] a unfolding found_def prov by (auto simp: batch)
    have "\<not> betterBatchObservation (normalize_readsb other) (normalize_readsb raw)" if "other \<in> set xs" "to_upper (trim_space (ra_Hex other)) = k" for other
    proof -
      have "normalize_readsb other \<in> set (ab_Aircraft (fr_Value fr))" using that \<open>k \<noteq> []\<close> unfolding batch by blast
      from bspec [OF best this] show ?thesis unfolding that(2) [symmetric] by simp
    qed
    then show ?thesis using raw normalize_readsb_place by (intro bexI [of _ raw]) simp_all
  qed
  show ?thesis
    using r(1,2) xs none some unfolding found_def by blast
qed

section \<open>Errors\<close>

text \<open>Every failure of a fetch has the class of its cause, which the health of a source is judged by.\<close>

lemma fetchJSON_class:
  assumes "fetchJSON decode validate endpoint maximum reply fetchedAt = Inl e"
  shows "ClassifyError e = (case reply of BadRequest _ \<Rightarrow> ErrorPayload
     | NoResponse err \<Rightarrow> if is_deadline err then ErrorTimeout else ErrorNetwork
     | Response r \<Rightarrow> if ht_Code r < 200 \<or> 300 \<le> ht_Code r then ErrorStatus else ErrorPayload)"
  using assms by (auto simp: fetchJSON_def ClassifyError_def split: http_reply.splits if_splits prod.splits option.splits sum.splits)

lemma point_body_class: "point_body decode r = Inl e \<Longrightarrow> ClassifyError e = ErrorPayload"
  unfolding point_body_def Let_def by (auto simp: payloadError_def ClassifyError_def split: if_splits option.splits)

section \<open>The rate of requests\<close>

lemma retry_after_bounds: "minimumRate \<le> boundedRetryAfter ParseTime raw now \<and> boundedRetryAfter ParseTime raw now \<le> maxRetryAfter"
  by (simp add: boundedRetryAfter_def Let_def)

text \<open>A wait that is not disturbed is followed by a grant.\<close>

lemma acquire_after_wait:
  assumes "acquire_turn now c = (Some delay, c')" "now + delay \<le> later" "pk_nextRequest c - now < 2 ^ 63" "pk_retryNotBefore c - now < 2 ^ 63"
  shows "acquire [(now, True), (later, waited)] c = (Some True, c\<lparr> pk_nextRequest := later + pk_minimumInterval c \<rparr>)"
proof -
  have "c' = c" "now < max (pk_nextRequest c) (pk_retryNotBefore c)" "delay = max (pk_nextRequest c) (pk_retryNotBefore c) - now"
    using assms(1,3,4) by (auto simp: acquire_turn_def Let_def max_def time_sub_exact split: if_splits)
  then have "c' = c" "\<not> pk_nextRequest c > later" "\<not> pk_retryNotBefore c > later" using assms(2) by auto
  then show ?thesis using assms(1) by (simp add: acquire_turn_def Let_def)
qed

definition point_inv :: "duration \<Rightarrow> point_system \<Rightarrow> bool" where
  "point_inv interval y \<longleftrightarrow> pk_minimumInterval (py_client y) = interval \<and>
     (\<forall>t. Granted t \<in> set (py_log y) \<longrightarrow> t + interval \<le> pk_nextRequest (py_client y)) \<and>
     (\<forall>t d. Deferred t d \<in> set (py_log y) \<longrightarrow> t + d \<le> pk_retryNotBefore (py_client y) \<and> minimumRate \<le> d \<and> d \<le> maxRetryAfter)"

definition spaced :: "duration \<Rightarrow> point_event \<Rightarrow> point_event \<Rightarrow> bool" where
  "spaced interval later earlier =
     (case later of
        Granted t \<Rightarrow> (case earlier of Granted t0 \<Rightarrow> t0 + interval \<le> t | Deferred t0 d \<Rightarrow> t0 + d \<le> t)
      | Deferred t d \<Rightarrow> True)"

lemma point_step_inv:
  assumes "point_step y z" "point_inv interval y" "0 \<le> interval" "sorted_wrt (spaced interval) (py_log y)"
  shows "point_inv interval z \<and> sorted_wrt (spaced interval) (py_log z)"
  using assms(1)
proof cases
  case (turn c)
  then have c: "c = (py_client y)\<lparr> pk_nextRequest := py_clock y + pk_minimumInterval (py_client y) \<rparr>"
    "pk_nextRequest (py_client y) \<le> py_clock y" "pk_retryNotBefore (py_client y) \<le> py_clock y"
    by (auto simp: acquire_turn_def Let_def split: if_splits)
  have "spaced interval (Granted (py_clock y)) ev" if ev: "ev \<in> set (py_log y)" for ev
  proof (cases ev)
    case (Granted t)
    then have "t + interval \<le> pk_nextRequest (py_client y)" using assms(2) ev by (simp add: point_inv_def)
    then show ?thesis using c(2) Granted by (simp add: spaced_def)
  next
    case (Deferred t d)
    then have "t + d \<le> pk_retryNotBefore (py_client y)" using assms(2) ev by (simp add: point_inv_def)
    then show ?thesis using c(3) Deferred by (simp add: spaced_def)
  qed
  moreover have "t + interval \<le> py_clock y + interval" if "Granted t \<in> set (py_log y)" for t
  proof -
    have "t + interval \<le> pk_nextRequest (py_client y)" using assms(2) that by (simp add: point_inv_def)
    then show ?thesis using c(2) assms(3) by linarith
  qed
  ultimately show ?thesis using assms(2,4) turn c(1) by (simp add: point_inv_def)
next
  case (deferral delay ParseTime raw fetchedAt)
  have d: "minimumRate \<le> delay" "delay \<le> maxRetryAfter" using retry_after_bounds [of ParseTime raw fetchedAt] deferral(2) by simp_all
  have later: "pk_retryNotBefore (py_client y) \<le> pk_retryNotBefore (deferRequests (py_clock y) delay (py_client y))"
    "py_clock y + delay \<le> pk_retryNotBefore (deferRequests (py_clock y) delay (py_client y))"
    "pk_nextRequest (deferRequests (py_clock y) delay (py_client y)) = pk_nextRequest (py_client y)"
    "pk_minimumInterval (deferRequests (py_clock y) delay (py_client y)) = pk_minimumInterval (py_client y)"
    using d by (auto simp: deferRequests_def Let_def)
  have "t + d' \<le> pk_retryNotBefore (deferRequests (py_clock y) delay (py_client y))" if "Deferred t d' \<in> set (py_log y)" for t d'
  proof -
    have "t + d' \<le> pk_retryNotBefore (py_client y)" using assms(2) that by (simp add: point_inv_def)
    then show ?thesis using later(1) by linarith
  qed
  then show ?thesis using assms(2,4) deferral(1) d later by (auto simp: point_inv_def spaced_def)
qed (use assms(2,4) in \<open>auto simp: point_inv_def acquire_turn_def Let_def split: if_splits\<close>)

text \<open>
  C19. airplanes.live is not asked too often. Under every interleaving of callers and of
  answers that ask for a pause: two requests are at least the configured interval apart, which
  is a second or more; no request is made before the end of a pause that was asked for earlier;
  and a pause lasts between one and thirty seconds, whatever the header says.
\<close>

theorem requests_spaced:
  assumes "newClient url hasHTTP config = Inr c" "point_step\<^sup>*\<^sup>* (point_start c now) y"
  shows "sorted_wrt (spaced (pc_MinimumInterval config)) (py_log y) \<and> second \<le> pc_MinimumInterval config \<and>
    (\<forall>t d. Deferred t d \<in> set (py_log y) \<longrightarrow> second \<le> d \<and> d \<le> 30 * second)"
proof -
  have c: "pk_minimumInterval c = pc_MinimumInterval config" "second \<le> pc_MinimumInterval config"
    using assms(1) by (auto simp: newClient_def split: option.splits if_splits)
  have "point_inv (pc_MinimumInterval config) y \<and> sorted_wrt (spaced (pc_MinimumInterval config)) (py_log y)"
    using assms(2)
  proof (induction rule: rtranclp_induct)
    case base
    then show ?case using c(1) by (simp add: point_inv_def point_start_def)
  next
    case (step y z)
    then show ?case using point_step_inv [of y z "pc_MinimumInterval config"] c(2) by simp
  qed
  then show ?thesis using c(2) by (auto simp: point_inv_def)
qed

section \<open>Witnesses\<close>

definition demo_point :: point_aircraft where
  "demo_point = \<lparr> pa_Hex = ''a1b2c3 '', pa_Type = ''adsb_icao'', pa_Flight = ''DLH1'', pa_Registration = [], pa_AircraftType = [], pa_Category = [],
     pa_Squawk = ''1000'', pa_Emergency = ''none'', pa_Latitude = Some 50, pa_Longitude = Some 8,
     pa_Altitude = \<lparr> alt_Value = 3000, alt_Valid = True, alt_Ground = False \<rparr>, pa_GroundSpeed = Some 300, pa_Track = Some 360,
     pa_BaroRate = None, pa_GeomRate = None, pa_Messages = Some 5, pa_Seen = Some 1, pa_SeenPosition = Some 2, pa_RSSI = None \<rparr>"

definition demo_point_response :: point_response where
  "demo_point_response = \<lparr> pr_Aircraft = Some [demo_point], pr_Message = ''No error'', pr_Now = Some 1700000000000, pr_Total = Some 1,
     pr_CacheAt = Some 1700000000000, pr_Process = Some 1 \<rparr>"

definition demo_http :: http_response where
  "demo_http = \<lparr> ht_Code = 200, ht_Status = ''200 OK'', ht_ContentType = ''application/json'', ht_RetryAfter = [], ht_Body = ''{}'', ht_ReadErr = None \<rparr>"

definition demo_point_client :: point_client where
  "demo_point_client = \<lparr> pk_minimumInterval = second, pk_nextRequest = 0, pk_retryNotBefore = 0 \<rparr>"

lemma demo_point_texts: "to_upper (trim_space ''a1b2c3 '') = ''A1B2C3''" "validAircraftIdentifier ''A1B2C3''" "trim_space ''adsb_icao'' \<noteq> []"
  "trim_space ''No error'' = ''No error''"
  by code_simp+

lemma demo_point_valid: "validatePointResponse demo_point_response = None"
  by (simp add: validatePointResponse_def demo_point_response_def demo_point_def point_aircraft_error_def unfit_def validUnixMilliseconds_def validPosition_def
      demo_point_texts Let_def)

theorem point_fetch_lookup_witness:
  "\<exists>fr. fst (point_FetchAircraft (\<lambda>body. \<lparr> sm_First = 2, sm_Value = Some demo_point_response, sm_Single = True, sm_Second = 2 \<rparr>) (\<lambda>_. None) (\<lambda>_. True)
      [(5, True)] ContextCanceled (Response demo_http) None 6 7 demo_point_client) = Some (Inr fr) \<and>
    LookupICAO (eg_current (run_op (ApplyAircraft fr second 8 9) (NewEngine True))) ''A1B2C3'' \<noteq> None"
proof -
  let ?decode = "\<lambda>body :: string. \<lparr> sm_First = 2, sm_Value = Some demo_point_response, sm_Single = True, sm_Second = 2 \<rparr>"
  obtain fr c' where f: "point_FetchAircraft ?decode (\<lambda>_. None) (\<lambda>_. True) [(5, True)] ContextCanceled (Response demo_http) None 6 7 demo_point_client = (Some (Inr fr), c')"
    by (simp add: point_FetchAircraft_def acquire_turn_def demo_point_client_def demo_http_def point_body_def demo_point_valid Let_def)
  obtain xs where xs: "pr_Aircraft demo_point_response = Some xs"
    "\<And>k. LookupICAO (eg_current (run_op (ApplyAircraft fr second 8 9) (NewEngine True))) k =
       map_option (\<lambda>raw. derive_distance (eg_receiver (NewEngine True)) (normalize_entry ProviderAirplanesLive (normalize_point_aircraft raw)))
         (find (\<lambda>raw. to_upper (trim_space (pa_Hex raw)) = k) xs)"
    using point_fetch_lookup [OF f, of second 8 9 "NewEngine True"] by auto
  have "xs = [demo_point]" using xs(1) by (simp add: demo_point_response_def)
  then have "LookupICAO (eg_current (run_op (ApplyAircraft fr second 8 9) (NewEngine True))) ''A1B2C3'' \<noteq> None"
    by (simp add: xs(2) demo_point_def demo_point_texts)
  then show ?thesis using f by auto
qed

definition demo_readsb :: readsb_aircraft where
  "demo_readsb = \<lparr> ra_Hex = ''a1b2c3 '', ra_Type = [], ra_Flight = [], ra_Registration = [], ra_AircraftType = [], ra_Category = [], ra_Squawk = [],
     ra_Emergency = [], ra_Latitude = Some 95, ra_Longitude = Some 8, ra_Altitude = no_altitude, ra_GroundSpeed = None, ra_Track = None,
     ra_BaroRate = None, ra_GeomRate = Some 64, ra_Messages = 1, ra_Seen = 1, ra_SeenPosition = None, ra_RSSI = None \<rparr>"

theorem readsb_fetch_lookup_witness:
  "\<exists>fr. readsb_FetchAircraft (\<lambda>_. Inr \<lparr> rr_Now = 1700000000, rr_Messages = 3, rr_Aircraft = Some [demo_readsb] \<rparr>) (Response demo_http) 6 = Inr fr \<and>
    LookupICAO (eg_current (run_op (ApplyAircraft fr second 8 9) (NewEngine True))) ''A1B2C3'' \<noteq> None"
proof -
  let ?payload = "\<lparr> rr_Now = 1700000000, rr_Messages = 3, rr_Aircraft = Some [demo_readsb] \<rparr>"
  obtain fr where f: "readsb_FetchAircraft (\<lambda>_. Inr ?payload) (Response demo_http) 6 = Inr fr"
    by (simp add: readsb_FetchAircraft_def frame_of_def fetchJSON_def read_limited_def demo_http_def validateAircraftResponse_def validUnixSeconds_def)
  have "to_upper (trim_space (ra_Hex demo_readsb)) = ''A1B2C3''" by (simp add: demo_readsb_def demo_point_texts)
  then have "LookupICAO (eg_current (run_op (ApplyAircraft fr second 8 9) (NewEngine True))) ''A1B2C3'' \<noteq> None"
    using readsb_fetch_lookup [OF f, of second 8 9 "NewEngine True"] by auto
  then show ?thesis using f by blast
qed

definition demo_point_config :: point_config where
  "demo_point_config = \<lparr> pc_Latitude = 50, pc_Longitude = 8, pc_RadiusNM = 100, pc_Timeout = second, pc_MinimumInterval = second \<rparr>"

theorem requests_spaced_witness:
  "\<exists>y t1 t2. point_step\<^sup>*\<^sup>* (point_start demo_point_client 5) y \<and> py_log y = [Granted t2, Granted t1] \<and> t1 + second \<le> t2"
proof -
  let ?url = "\<lparr> bu_Scheme = ''https'', bu_Host = ''api.airplanes.live'', bu_User = False, bu_RawQuery = [], bu_Fragment = [] \<rparr>"
  have new: "newClient (Some ?url) True demo_point_config = Inr demo_point_client"
    by (simp add: newClient_def demo_point_config_def validPosition_def demo_point_client_def)
  define y0 where "y0 = point_start demo_point_client 5"
  define c1 where "c1 = demo_point_client\<lparr> pk_nextRequest := 5 + second \<rparr>"
  define y1 where "y1 = y0\<lparr> py_client := c1, py_log := [Granted 5] \<rparr>"
  define y2 where "y2 = y1\<lparr> py_clock := 5 + second \<rparr>"
  define c3 where "c3 = c1\<lparr> pk_nextRequest := 5 + second + second \<rparr>"
  define y3 where "y3 = y2\<lparr> py_client := c3, py_log := [Granted (5 + second), Granted 5] \<rparr>"
  have "point_step y0 y1" using point_step.turn [of y0 c1] by (simp add: y1_def y0_def point_start_def c1_def acquire_turn_def demo_point_client_def)
  moreover have "point_step y1 y2" unfolding y2_def by (rule point_step.tick) (simp add: y1_def y0_def point_start_def)
  moreover have "point_step y2 y3" using point_step.turn [of y2 c3]
    by (simp add: y3_def y2_def y1_def y0_def point_start_def c1_def c3_def acquire_turn_def demo_point_client_def)
  ultimately have run: "point_step\<^sup>*\<^sup>* y0 y3" by (meson converse_rtranclp_into_rtranclp r_into_rtranclp)
  have log: "py_log y3 = [Granted (5 + second), Granted 5]" by (simp add: y3_def)
  have "(5 :: time) + second \<le> 5 + second"
    using requests_spaced [OF new run [unfolded y0_def]] by (simp add: log spaced_def demo_point_config_def)
  then show ?thesis using run log unfolding y0_def by blast
qed

end
