(* ===== verification/Moderation.thy ===== *)
theory Moderation
  imports Sessions Aircraft_Sources
begin

text \<open>
  Moderation of members (\<open>internal/discord/moderation.go\<close>, \<open>moderation_discord.go\<close>): who may act,
  the request, its confirmation, the case in the database (\<open>internal/storage/sqlite/store.go\<close>)
  and the action at Discord. A set of permissions stands for the bit set of disgo, with union for
  \<open>Add\<close> and membership for \<open>Has\<close>. The answers of Discord and the errors of the database are
  arguments; what is sent to Discord is a list of actions. \<open>time.ParseDuration\<close> is a parameter.
\<close>

section \<open>Permissions and tiers\<close>

datatype permission =
    PermAdministrator | PermKickMembers | PermBanMembers | PermManageMessages | PermModerateMembers
  | PermManageGuild | PermManageRoles | PermViewChannel | PermReadHistory | PermOther nat

type_synonym permissions = "permission set"

definition hasNativeModerationPermission :: "permissions \<Rightarrow> bool \<Rightarrow> string \<Rightarrow> bool" where
  "hasNativeModerationPermission permissions administrator action =
     (if administrator \<or> PermAdministrator \<in> permissions then True
      else if action = ''kick'' then PermKickMembers \<in> permissions
      else if action = ''ban'' \<or> action = ''unban'' then PermBanMembers \<in> permissions
      else if action = ''delete-message'' then PermManageMessages \<in> permissions
      else if action = ''case'' \<or> action = ''history'' then
        PermModerateMembers \<in> permissions \<or> PermKickMembers \<in> permissions \<or> PermBanMembers \<in> permissions
      else PermModerateMembers \<in> permissions)"

record role_binding =
  rlb_GuildID :: u64
  rlb_Tier :: string
  rlb_RoleID :: u64
  rlb_UpdatedAt :: time

definition tierRank :: "string \<Rightarrow> nat" where
  "tierRank tier = (if tier = ''operator'' then 1 else if tier = ''moderator'' then 2 else if tier = ''admin'' then 3 else 0)"

definition containsID :: "u64 list \<Rightarrow> u64 \<Rightarrow> bool" where
  "containsID values wanted = list_ex (\<lambda>value. value = wanted) values"

text \<open>The loop over the bindings.\<close>

fun tier_bound :: "u64 list \<Rightarrow> nat \<Rightarrow> role_binding list \<Rightarrow> bool" where
  "tier_bound roleIDs requiredRank [] = False"
| "tier_bound roleIDs requiredRank (b # bs) =
     (if tierRank (rlb_Tier b) < requiredRank \<or> \<not> containsID roleIDs (rlb_RoleID b) then tier_bound roleIDs requiredRank bs else True)"

definition authorizedTier :: "go_error + role_binding list \<Rightarrow> u64 list \<Rightarrow> bool \<Rightarrow> string \<Rightarrow> bool" where
  "authorizedTier bindings roleIDs administrator required =
     (if administrator \<and> required = ''admin'' then True
      else case bindings of Inl _ \<Rightarrow> False | Inr bs \<Rightarrow> tier_bound roleIDs (tierRank required) bs)"

section \<open>The request\<close>

record command_request =
  mrq_Subcommand :: string
  mrq_UserID :: u64
  mrq_GuildID :: u64
  mrq_ChannelID :: u64
  mrq_Administrator :: bool
  mrq_Permissions :: permissions
  mrq_RoleIDs :: "u64 list"
  mrq_Strings :: "(string, string) gomap"
  mrq_Ints :: "(string, int) gomap"
  mrq_IDs :: "(string, u64) gomap"

record moderation_execution =
  mex_CaseID :: int
  mex_GuildID :: u64
  mex_ChannelID :: u64
  mex_ModeratorID :: u64
  mex_TargetUserID :: u64
  mex_Action :: string
  mex_Reason :: string
  mex_Duration :: duration
  mex_DeleteMessageDuration :: duration

definition option_or :: "'v \<Rightarrow> ('k, 'v) gomap \<Rightarrow> 'k \<Rightarrow> 'v" where
  "option_or zero m k = (case map_of m k of None \<Rightarrow> zero | Some v \<Rightarrow> v)"

datatype request_error = ReasonControl | ReasonLength | InvalidUnbanID | InvalidMember | InvalidDuration

definition validateModerationReason :: "string \<Rightarrow> request_error + string" where
  "validateModerationReason raw =
     (let reason = trim_space raw in
      if list_ex (\<lambda>r. rune_control r \<and> r \<noteq> 10 \<and> r \<noteq> 9) (runes reason) then Inl ReasonControl
      else if rune_count reason < 3 \<or> rune_count reason > 400 then Inl ReasonLength
      else Inr reason)"

definition boundedInt :: "int \<Rightarrow> int \<Rightarrow> int \<Rightarrow> int \<Rightarrow> int" where
  "boundedInt value lower upper fallback = (if value = 0 then fallback else min (max value lower) upper)"

text \<open>\<open>strconv.ParseUint\<close> to the base 10 for 64 bits.\<close>

definition parse_uint64 :: "string \<Rightarrow> u64 option" where
  "parse_uint64 s = (if asciiDigits s \<and> digits_value s < 2 ^ 64 then Some (of_nat (digits_value s)) else None)"

definition moderationExecutionFromCommand ::
    "(string \<Rightarrow> duration option) \<Rightarrow> command_request \<Rightarrow> request_error + moderation_execution" where
  "moderationExecutionFromCommand ParseDuration q =
     (let target0 = option_or 0 (mrq_IDs q) ''user'';
          parsed = parse_uint64 (trim_space (option_or [] (mrq_Strings q) ''user-id''))
      in if mrq_Subcommand q = ''unban'' \<and> (parsed = None \<or> parsed = Some 0) then Inl InvalidUnbanID
         else
           let target = (if mrq_Subcommand q = ''unban'' then the parsed else target0) in
           if target = 0 then Inl InvalidMember
           else case validateModerationReason (option_or [] (mrq_Strings q) ''reason'') of
                  Inl e \<Rightarrow> Inl e
                | Inr reason \<Rightarrow>
                    let given = ParseDuration (option_or [] (mrq_Strings q) ''duration'') in
                    if mrq_Subcommand q = ''timeout'' \<and>
                       (case given of None \<Rightarrow> True | Some d \<Rightarrow> d < minute \<or> d > 28 * 24 * hour) then Inl InvalidDuration
                    else Inr \<lparr> mex_CaseID = 0, mex_GuildID = mrq_GuildID q, mex_ChannelID = mrq_ChannelID q, mex_ModeratorID = mrq_UserID q,
                           mex_TargetUserID = target, mex_Action = mrq_Subcommand q, mex_Reason = reason,
                           mex_Duration = (if mrq_Subcommand q = ''timeout'' then the given else 0),
                           mex_DeleteMessageDuration = boundedInt (option_or 0 (mrq_Ints q) ''delete-message-days'') 0 7 0 * (24 * hour) \<rparr>)"

section \<open>Cases and their log\<close>

record moderation_case =
  mdc_ID :: int
  mdc_GuildID :: u64
  mdc_ModeratorID :: u64
  mdc_TargetUserID :: u64
  mdc_TargetChannelID :: u64
  mdc_TargetMessageID :: u64
  mdc_TargetMessageCreatedAt :: time
  mdc_Action :: string
  mdc_Reason :: string
  mdc_Duration :: duration
  mdc_DeleteMessageDuration :: duration
  mdc_Status :: string
  mdc_DMStatus :: string
  mdc_ErrorCode :: string
  mdc_CreatedAt :: time
  mdc_CompletedAt :: time

record moderation_log =
  mlg_ID :: int
  mlg_CaseID :: int
  mlg_GuildID :: u64
  mlg_Attempts :: int
  mlg_NextAttemptAt :: time
  mlg_DeliveredAt :: "time option"
  mlg_LastError :: string
  mlg_CreatedAt :: time

text \<open>The two tables, in the order of their identifiers, and the next identifiers, which never come back.\<close>

record moderation_db =
  mdb_cases :: "moderation_case list"
  mdb_log :: "moderation_log list"
  mdb_nextCase :: int
  mdb_nextLog :: int

text \<open>The constraints of the table.\<close>

definition case_admissible :: "moderation_case \<Rightarrow> bool" where
  "case_admissible v \<longleftrightarrow>
     mdc_Action v \<in> {''warn'', ''timeout'', ''remove-timeout'', ''kick'', ''ban'', ''unban'', ''delete-message''} \<and>
     3 \<le> rune_count (mdc_Reason v) \<and> rune_count (mdc_Reason v) \<le> 400 \<and>
     0 \<le> mdc_Duration v \<and> mdc_Duration v \<le> 2419200 * second \<and>
     0 \<le> mdc_DeleteMessageDuration v \<and> mdc_DeleteMessageDuration v \<le> 604800 * second"

definition whole_seconds :: "duration \<Rightarrow> duration" where
  "whole_seconds d = sgn d * (\<bar>d\<bar> div second * second)"

definition CreateModerationCase ::
    "time \<Rightarrow> go_error option \<Rightarrow> moderation_case \<Rightarrow> moderation_db \<Rightarrow> (go_error + moderation_case) \<times> moderation_db" where
  "CreateModerationCase clock dbErr v db =
     (let now = (if mdc_CreatedAt v = time_zero then clock else mdc_CreatedAt v);
          row = v\<lparr> mdc_ID := mdb_nextCase db, mdc_Reason := trim_space (mdc_Reason v), mdc_Duration := whole_seconds (mdc_Duration v),
                  mdc_DeleteMessageDuration := whole_seconds (mdc_DeleteMessageDuration v), mdc_Status := ''pending'', mdc_DMStatus := ''not-attempted'',
                  mdc_ErrorCode := [], mdc_CreatedAt := now, mdc_CompletedAt := time_zero \<rparr>
      in case dbErr of
           Some e \<Rightarrow> (Inl (Wrapped ''create moderation case'' e), db)
         | None \<Rightarrow>
             if \<not> case_admissible row then (Inl (Wrapped ''create moderation case'' (Plain ''constraint'')), db)
             else (Inr (v\<lparr> mdc_ID := mdb_nextCase db, mdc_Status := ''pending'', mdc_DMStatus := ''not-attempted'', mdc_CreatedAt := now \<rparr>),
                   db\<lparr> mdb_cases := mdb_cases db @ [row], mdb_nextCase := mdb_nextCase db + 1 \<rparr>))"

definition truncateStorage :: "string \<Rightarrow> nat \<Rightarrow> string" where
  "truncateStorage value maximum =
     (let v = trim_space value in if rune_count v \<le> maximum then v else take_runes maximum v)"

text \<open>The log entry to give up at the limit: delivered ones first, then the oldest.\<close>

definition oldest_log :: "moderation_log list \<Rightarrow> int option" where
  "oldest_log logs =
     (case sort_key (\<lambda>l. if mlg_DeliveredAt l \<noteq> None then 0 else (1 :: nat)) (sort_key mlg_CreatedAt (sort_key mlg_ID logs)) of
        [] \<Rightarrow> None | l # _ \<Rightarrow> Some (mlg_ID l))"

definition trim_log :: "moderation_log list \<Rightarrow> moderation_log list" where
  "trim_log logs = (if length logs \<ge> 10000 then filter (\<lambda>l. Some (mlg_ID l) \<noteq> oldest_log logs) logs else logs)"

text \<open>\<open>ended\<close>: the context has ended, so the transaction does not begin.\<close>

definition CompleteModerationCase ::
    "time \<Rightarrow> bool \<Rightarrow> go_error option \<Rightarrow> int \<Rightarrow> u64 \<Rightarrow> string \<Rightarrow> string \<Rightarrow> string \<Rightarrow> time \<Rightarrow> moderation_db \<Rightarrow> go_error option \<times> moderation_db" where
  "CompleteModerationCase clock ended dbErr i guild status dmStatus errorCode completedAt0 db =
     (let completedAt = (if completedAt0 = time_zero then clock else completedAt0);
          open_case = (\<lambda>c. mdc_ID c = i \<and> mdc_GuildID c = guild \<and> mdc_Status c = ''pending'')
      in if ended then (Some (Wrapped ''begin moderation completion'' ContextDeadline), db)
         else case dbErr of
           Some e \<Rightarrow> (Some (Wrapped ''complete moderation case'' e), db)
         | None \<Rightarrow>
             if \<not> list_ex open_case (mdb_cases db) then (Some (Wrapped ''complete moderation case'' (Plain ''not found'')), db)
             else if list_ex (\<lambda>l. mlg_CaseID l = i) (trim_log (mdb_log db)) then (Some (Wrapped ''complete moderation case'' (Plain ''constraint'')), db)
             else (None, db\<lparr>
                mdb_cases := map (\<lambda>c. if open_case c then c\<lparr> mdc_Status := status, mdc_DMStatus := dmStatus,
                  mdc_ErrorCode := truncateStorage errorCode 160, mdc_CompletedAt := completedAt \<rparr> else c) (mdb_cases db),
                mdb_log := trim_log (mdb_log db) @ [\<lparr> mlg_ID = mdb_nextLog db, mlg_CaseID = i, mlg_GuildID = guild, mlg_Attempts = 0,
                  mlg_NextAttemptAt = completedAt, mlg_DeliveredAt = None, mlg_LastError = [], mlg_CreatedAt = completedAt \<rparr>],
                mdb_nextLog := mdb_nextLog db + 1 \<rparr>))"

definition find_case :: "int \<Rightarrow> u64 \<Rightarrow> moderation_db \<Rightarrow> moderation_case option" where
  "find_case i guild db = find (\<lambda>c. mdc_ID c = i \<and> mdc_GuildID c = guild) (mdb_cases db)"

definition ModerationCases :: "u64 \<Rightarrow> u64 \<Rightarrow> int \<Rightarrow> moderation_db \<Rightarrow> moderation_case list" where
  "ModerationCases guild targetUser limit db =
     take (nat (min (max limit 1) 100)) (rev (sort_key mdc_CreatedAt (sort_key mdc_ID
       (filter (\<lambda>c. mdc_GuildID c = guild \<and> (targetUser = 0 \<or> mdc_TargetUserID c = targetUser)) (mdb_cases db)))))"

definition PendingModerationLogs :: "time \<Rightarrow> int \<Rightarrow> moderation_db \<Rightarrow> (moderation_log \<times> moderation_case) list" where
  "PendingModerationLogs now limit db =
     take (nat (min (max limit 1) 100))
       (concat (map (\<lambda>l. case find (\<lambda>c. mdc_ID c = mlg_CaseID l) (mdb_cases db) of None \<Rightarrow> [] | Some c \<Rightarrow> [(l, c)])
         (sort_key mlg_NextAttemptAt (sort_key mlg_ID
           (filter (\<lambda>l. mlg_DeliveredAt l = None \<and> mlg_NextAttemptAt l \<le> now) (mdb_log db))))))"

definition MarkModerationLogDelivered :: "int \<Rightarrow> time \<Rightarrow> moderation_db \<Rightarrow> bool \<times> moderation_db" where
  "MarkModerationLogDelivered i at' db =
     (list_ex (\<lambda>l. mlg_ID l = i \<and> mlg_DeliveredAt l = None) (mdb_log db),
      db\<lparr> mdb_log := map (\<lambda>l. if mlg_ID l = i \<and> mlg_DeliveredAt l = None then l\<lparr> mlg_DeliveredAt := Some at', mlg_LastError := [] \<rparr> else l) (mdb_log db) \<rparr>)"

definition MarkModerationLogFailed :: "int \<Rightarrow> string \<Rightarrow> time \<Rightarrow> moderation_db \<Rightarrow> bool \<times> moderation_db" where
  "MarkModerationLogFailed i lastError nextAttempt db =
     (list_ex (\<lambda>l. mlg_ID l = i \<and> mlg_DeliveredAt l = None) (mdb_log db),
      db\<lparr> mdb_log := map (\<lambda>l. if mlg_ID l = i \<and> mlg_DeliveredAt l = None
             then l\<lparr> mlg_Attempts := mlg_Attempts l + 1, mlg_LastError := truncateStorage lastError 160, mlg_NextAttemptAt := nextAttempt \<rparr> else l) (mdb_log db) \<rparr>)"

text \<open>Old cases, with their log: the log refers to them and is deleted with them.\<close>

definition PurgeModerationCases :: "time \<Rightarrow> int \<Rightarrow> moderation_db \<Rightarrow> int \<times> moderation_db" where
  "PurgeModerationCases before limit db =
     (let old = map mdc_ID (take (nat (min (max limit 1) 1000)) (sort_key mdc_CreatedAt (filter (\<lambda>c. mdc_CreatedAt c < before) (mdb_cases db))))
      in (int (length old), db\<lparr> mdb_cases := filter (\<lambda>c. mdc_ID c \<notin> set old) (mdb_cases db),
            mdb_log := filter (\<lambda>l. mlg_CaseID l \<notin> set old) (mdb_log db) \<rparr>))"

section \<open>The action at Discord\<close>

record discord_role =
  dro_ID :: u64
  dro_Position :: int
  dro_Permissions :: permissions

text \<open>What Discord answers: owner and roles of the guild, the roles of a member, the result of the
  action, and whether a direct message is delivered.\<close>

record discord_rest =
  drs_Guild :: "go_error + u64 \<times> discord_role list"
  drs_Member :: "u64 \<Rightarrow> go_error + u64 list"
  drs_Act :: "go_error option"
  drs_DM :: bool

datatype discord_action =
    WarnUser u64 | SetTimeout u64 duration | ClearTimeout u64 | KickMember u64 | BanMember u64 duration | UnbanUser u64

definition requiredDiscordPermission :: "string \<Rightarrow> permission option" where
  "requiredDiscordPermission action =
     (if action = ''warn'' \<or> action = ''timeout'' \<or> action = ''remove-timeout'' then Some PermModerateMembers
      else if action = ''kick'' then Some PermKickMembers
      else if action = ''ban'' \<or> action = ''unban'' then Some PermBanMembers
      else None)"

definition memberPermissions :: "u64 \<Rightarrow> discord_role list \<Rightarrow> u64 list \<Rightarrow> permissions" where
  "memberPermissions guild roles roleIDs =
     (let ps = fold (\<lambda>role ps. if dro_ID role = guild \<or> containsID roleIDs (dro_ID role) then ps \<union> dro_Permissions role else ps) roles {}
      in if PermAdministrator \<in> ps then UNIV else ps)"

definition highestRolePosition :: "discord_role list \<Rightarrow> u64 list \<Rightarrow> int" where
  "highestRolePosition roles roleIDs =
     fold (\<lambda>role highest. if containsID roleIDs (dro_ID role) \<and> dro_Position role > highest then dro_Position role else highest) roles 0"

abbreviation ErrModerationPermission :: go_error where "ErrModerationPermission \<equiv> Plain ''required Discord permission is missing''"
abbreviation ErrModerationHierarchy :: go_error where "ErrModerationHierarchy \<equiv> Plain ''discord role hierarchy blocks the action''"
abbreviation ErrModerationOwner :: go_error where "ErrModerationOwner \<equiv> Plain ''the server owner cannot be moderated''"
abbreviation ErrModerationSelf :: go_error where "ErrModerationSelf \<equiv> Plain ''the moderator, bot, and target must be different users''"

text \<open>The guards on the target, for every action but \<open>unban\<close>.\<close>

definition target_error :: "u64 \<Rightarrow> u64 \<Rightarrow> discord_role list \<Rightarrow> u64 list \<Rightarrow> u64 list \<Rightarrow> u64 list \<Rightarrow> moderation_execution \<Rightarrow> go_error option" where
  "target_error guild owner roles moderatorRoles botRoles targetRoles ex =
     (if mex_TargetUserID ex = owner then Some ErrModerationOwner
      else if mex_ModeratorID ex \<noteq> owner \<and> highestRolePosition roles moderatorRoles \<le> highestRolePosition roles targetRoles then Some ErrModerationHierarchy
      else if highestRolePosition roles botRoles \<le> highestRolePosition roles targetRoles then Some ErrModerationHierarchy
      else if mex_Action ex = ''timeout'' \<and> PermAdministrator \<in> memberPermissions guild roles targetRoles then Some ErrModerationHierarchy
      else None)"

text \<open>The error, the status of the direct message, and what was sent.\<close>

definition perform_action :: "discord_rest \<Rightarrow> moderation_execution \<Rightarrow> go_error option \<times> string \<times> discord_action list" where
  "perform_action rest ex =
     (let target = mex_TargetUserID ex; act = mex_Action ex;
          done = (\<lambda>action. (map_option (Wrapped (''execute '' @ act)) (drs_Act rest), ''not-attempted'', [action]))
      in if act = ''warn'' then (None, if drs_DM rest then ''delivered'' else ''failed'', [WarnUser target])
         else if act = ''timeout'' then done (SetTimeout target (mex_Duration ex))
         else if act = ''remove-timeout'' then done (ClearTimeout target)
         else if act = ''kick'' then done (KickMember target)
         else if act = ''ban'' then done (BanMember target (mex_DeleteMessageDuration ex))
         else if act = ''unban'' then done (UnbanUser target)
         else (Some (Wrapped (''execute '' @ act) (Plain ''unsupported moderation action'')), ''not-attempted'', []))"

definition ExecuteModeration :: "bool \<Rightarrow> u64 \<Rightarrow> discord_rest \<Rightarrow> moderation_execution \<Rightarrow> go_error option \<times> string \<times> discord_action list" where
  "ExecuteModeration ready botID rest ex =
     (let guild = mex_GuildID ex; moderator = mex_ModeratorID ex; target = mex_TargetUserID ex in
      if \<not> ready then (Some (Plain ''discord moderation is not ready''), [], [])
      else if moderator = target \<or> target = botID then (Some ErrModerationSelf, [], [])
      else case drs_Guild rest of Inl e \<Rightarrow> (Some (Wrapped ''load guild moderation state'' e), [], [])
      | Inr (owner, roles) \<Rightarrow>
          (case drs_Member rest moderator of Inl e \<Rightarrow> (Some (Wrapped ''load moderator state'' e), [], [])
           | Inr moderatorRoles \<Rightarrow>
               (case drs_Member rest botID of Inl e \<Rightarrow> (Some (Wrapped ''load bot state'' e), [], [])
                | Inr botRoles \<Rightarrow>
                    (case requiredDiscordPermission (mex_Action ex) of
                       None \<Rightarrow> (Some ErrModerationPermission, [], [])
                     | Some required \<Rightarrow>
                         if required \<notin> memberPermissions guild roles moderatorRoles \<and> moderator \<noteq> owner then (Some ErrModerationPermission, [], [])
                         else if required \<notin> memberPermissions guild roles botRoles \<and> mex_Action ex \<noteq> ''warn'' then (Some ErrModerationPermission, [], [])
                         else if mex_Action ex = ''unban'' then perform_action rest ex
                         else (case drs_Member rest target of Inl e \<Rightarrow> (Some (Wrapped ''load target state'' e), [], [])
                               | Inr targetRoles \<Rightarrow>
                                   (case target_error guild owner roles moderatorRoles botRoles targetRoles ex of
                                      Some e \<Rightarrow> (Some e, [], [])
                                    | None \<Rightarrow> perform_action rest ex))))))"

section \<open>Executing and confirming\<close>

primrec is_cancelled :: "go_error \<Rightarrow> bool" where
  "is_cancelled (FetchError e c err) = is_cancelled err"
| "is_cancelled (NetError t m) = False"
| "is_cancelled (Wrapped m err) = is_cancelled err"
| "is_cancelled (Joined errs) = list_ex id (map is_cancelled errs)"
| "is_cancelled (Plain m) = False"
| "is_cancelled ContextCanceled = True"
| "is_cancelled ContextDeadline = False"

definition moderationErrorCode :: "go_error \<Rightarrow> string" where
  "moderationErrorCode e = (if is_deadline e \<or> is_cancelled e then ''timeout'' else ''discord-action-failed'')"

datatype moderation_reply =
    Unavailable | StorageDown | TierMissing | NativeMissing string | DeletionBegun | CaseShown moderation_case | CaseUnknown | CaseNumberInvalid
  | HistoryShown | RequestRefused request_error | SelfRefused | TooManyConfirmations | ConfirmationFailed | ConfirmationShown session
  | ControlInvalid | ModerationCancelled | AuthorizationChanged
  | CaseNotCreated | CaseNotFinalized int | CaseFailed int | CaseDone int string

text \<open>The environment of an execution; \<open>mxe_ended\<close>: its context of ten seconds has ended when the case is completed.\<close>

record moderation_env =
  mxe_now :: time
  mxe_createErr :: "go_error option"
  mxe_ready :: bool
  mxe_bot :: u64
  mxe_rest :: discord_rest
  mxe_ended :: bool
  mxe_completeErr :: "go_error option"
  mxe_doneAt :: time

definition executeModeration ::
    "moderation_env \<Rightarrow> moderation_execution \<Rightarrow> moderation_db \<Rightarrow> moderation_reply \<times> discord_action list \<times> moderation_db" where
  "executeModeration env ex db =
     (let requested = \<lparr> mdc_ID = 0, mdc_GuildID = mex_GuildID ex, mdc_ModeratorID = mex_ModeratorID ex, mdc_TargetUserID = mex_TargetUserID ex,
            mdc_TargetChannelID = 0, mdc_TargetMessageID = 0, mdc_TargetMessageCreatedAt = time_zero, mdc_Action = mex_Action ex, mdc_Reason = mex_Reason ex,
            mdc_Duration = mex_Duration ex, mdc_DeleteMessageDuration = mex_DeleteMessageDuration ex, mdc_Status = [], mdc_DMStatus = [],
            mdc_ErrorCode = [], mdc_CreatedAt = mxe_now env, mdc_CompletedAt = time_zero \<rparr>
      in case CreateModerationCase (mxe_now env) (mxe_createErr env) requested db of
           (Inl e, db1) \<Rightarrow> (CaseNotCreated, [], db1)
         | (Inr moderationCase, db1) \<Rightarrow>
             let i = mdc_ID moderationCase;
                 (actionErr, dm, actions) = ExecuteModeration (mxe_ready env) (mxe_bot env) (mxe_rest env) (ex\<lparr> mex_CaseID := i \<rparr>);
                 (status, errorCode) = (case actionErr of None \<Rightarrow> (''succeeded'', []) | Some e \<Rightarrow> (''failed'', moderationErrorCode e));
                 dmStatus = (if dm = [] then ''not-attempted'' else dm);
                 (completeErr, db2) = CompleteModerationCase (mxe_doneAt env) (mxe_ended env) (mxe_completeErr env) i (mex_GuildID ex) status dmStatus errorCode (mxe_doneAt env) db1
             in (case completeErr of Some e \<Rightarrow> CaseNotFinalized i
                 | None \<Rightarrow> (case actionErr of Some e \<Rightarrow> CaseFailed i | None \<Rightarrow> CaseDone i dmStatus),
                 actions, db2))"

text \<open>The confirmation: a session of a minute behind two buttons. The readings of the clock and the random bytes are arguments.\<close>

definition confirmModeration ::
    "time \<Rightarrow> time \<Rightarrow> time \<Rightarrow> (nat \<Rightarrow> string option) \<Rightarrow> moderation_execution \<Rightarrow> session_manager \<Rightarrow> moderation_reply \<times> session_manager" where
  "confirmModeration now1 now2 now3 random ex m =
     (case CreateWithTTL now1 now2 random \<lparr> sq_user = mex_ModeratorID ex, sq_guild = mex_GuildID ex, sq_channel = mex_ChannelID ex,
             sq_view = ''moderation'', sq_sort = [], sq_query = [], sq_squawk = [] \<rparr> minute m of
        (Inl e, m1) \<Rightarrow> (TooManyConfirmations, m1)
      | (Inr s0, m1) \<Rightarrow>
          let s = s0\<lparr> ses_Action := mex_Action ex, ses_TargetID := mex_TargetUserID ex, ses_Reason := mex_Reason ex,
                ses_Duration := mex_Duration ex, ses_DeleteMessageDuration := mex_DeleteMessageDuration ex \<rparr>
          in case session_Update now3 s m1 of
               (Inl e, m2) \<Rightarrow> (ConfirmationFailed, m2)
             | (Inr _, m2) \<Rightarrow> (ConfirmationShown s, m2))"

text \<open>The parts of the router that are there, the error of \<open>ensureGuild\<close>, and the bindings of roles.\<close>

record moderation_router =
  mro_repository :: bool
  mro_deletion :: bool
  mro_moderation :: bool
  mro_ensureErr :: "go_error option"
  mro_bindings :: "go_error + role_binding list"
  mro_historyErr :: "go_error option"

definition handleModeration ::
    "(string \<Rightarrow> duration option) \<Rightarrow> moderation_router \<Rightarrow> moderation_env \<Rightarrow> time \<Rightarrow> time \<Rightarrow> (nat \<Rightarrow> string option)
     \<Rightarrow> command_request \<Rightarrow> session_manager \<Rightarrow> moderation_db \<Rightarrow> moderation_reply \<times> discord_action list \<times> session_manager \<times> moderation_db" where
  "handleModeration ParseDuration r env now2 now3 random q m db =
     (let deletion = (mrq_Subcommand q = ''delete-message'') in
      if \<not> mro_repository r \<or> (deletion \<and> \<not> mro_deletion r) \<or> (\<not> deletion \<and> \<not> mro_moderation r) then (Unavailable, [], m, db)
      else if mro_ensureErr r \<noteq> None then (StorageDown, [], m, db)
      else if \<not> authorizedTier (mro_bindings r) (mrq_RoleIDs q) (mrq_Administrator q) (if deletion then ''admin'' else ''moderator'') then (TierMissing, [], m, db)
      else if \<not> hasNativeModerationPermission (mrq_Permissions q) (mrq_Administrator q) (mrq_Subcommand q) then (NativeMissing (mrq_Subcommand q), [], m, db)
      else if deletion then (DeletionBegun, [], m, db)
      else if mrq_Subcommand q = ''case'' then
        (let i = option_or 0 (mrq_Ints q) ''case-id'' in
         (if i \<le> 0 then CaseNumberInvalid
          else (case find_case i (mrq_GuildID q) db of None \<Rightarrow> CaseUnknown | Some c \<Rightarrow> CaseShown c), [], m, db))
      else if mrq_Subcommand q = ''history'' then (if mro_historyErr r \<noteq> None then CaseUnknown else HistoryShown, [], m, db)
      else case moderationExecutionFromCommand ParseDuration q of
             Inl e \<Rightarrow> (RequestRefused e, [], m, db)
           | Inr ex \<Rightarrow>
               if mex_TargetUserID ex = mrq_UserID q then (SelfRefused, [], m, db)
               else if mex_Action ex = ''kick'' \<or> mex_Action ex = ''ban'' then
                 (let (reply, m') = confirmModeration (mxe_now env) now2 now3 random ex m in (reply, [], m', db))
               else (let (reply, actions, db') = executeModeration env ex db in (reply, actions, m, db')))"

record component_request =
  cpr_UserID :: u64
  cpr_GuildID :: u64
  cpr_ChannelID :: u64
  cpr_Administrator :: bool
  cpr_Permissions :: permissions
  cpr_RoleIDs :: "u64 list"

definition confirmed_execution :: "component_request \<Rightarrow> session \<Rightarrow> moderation_execution" where
  "confirmed_execution q s = \<lparr> mex_CaseID = 0, mex_GuildID = cpr_GuildID q, mex_ChannelID = cpr_ChannelID q, mex_ModeratorID = cpr_UserID q,
     mex_TargetUserID = ses_TargetID s, mex_Action = ses_Action s, mex_Reason = ses_Reason s, mex_Duration = ses_Duration s,
     mex_DeleteMessageDuration = ses_DeleteMessageDuration s \<rparr>"

definition handleModerationComponent ::
    "moderation_router \<Rightarrow> moderation_env \<Rightarrow> component_request \<Rightarrow> session \<Rightarrow> string \<Rightarrow> session_manager \<Rightarrow> moderation_db
     \<Rightarrow> moderation_reply \<times> discord_action list \<times> session_manager \<times> moderation_db" where
  "handleModerationComponent r env q s action m db =
     (if action = ''moderate-cancel'' then (ModerationCancelled, [], session_Delete (ses_ID s) m, db)
      else if action \<noteq> ''moderate-confirm'' then (ControlInvalid, [], m, db)
      else if \<not> authorizedTier (mro_bindings r) (cpr_RoleIDs q) (cpr_Administrator q) ''moderator'' then (AuthorizationChanged, [], session_Delete (ses_ID s) m, db)
      else if \<not> hasNativeModerationPermission (cpr_Permissions q) (cpr_Administrator q) (ses_Action s) then
        (NativeMissing (ses_Action s), [], session_Delete (ses_ID s) m, db)
      else (let (reply, actions, db') = executeModeration env (confirmed_execution q s) db in (reply, actions, session_Delete (ses_ID s) m, db')))"

text \<open>The way of a press of a button to it: the identifier, the session and its view.\<close>

definition moderation_component ::
    "moderation_router \<Rightarrow> moderation_env \<Rightarrow> time \<Rightarrow> string \<Rightarrow> component_request \<Rightarrow> session_manager \<Rightarrow> moderation_db
     \<Rightarrow> moderation_reply \<times> discord_action list \<times> session_manager \<times> moderation_db" where
  "moderation_component r env now customID q m db =
     (case ParseCustomID customID of
        Inl e \<Rightarrow> (ControlInvalid, [], m, db)
      | Inr (sid, action) \<Rightarrow>
          (case session_Get now sid (cpr_UserID q) (cpr_GuildID q) (cpr_ChannelID q) m of
             (Inl e, m1) \<Rightarrow> (ControlInvalid, [], m1, db)
           | (Inr s, m1) \<Rightarrow>
               if ses_View s = ''moderation'' then handleModerationComponent r env q s action m1 db else (ControlInvalid, [], m1, db)))"

section \<open>The log\<close>

definition moderationLogBackoff :: "int \<Rightarrow> duration" where
  "moderationLogBackoff attempts = min (5 * second * 2 ^ nat (min (max attempts 0) 9)) (30 * minute)"

text \<open>
  One round of deliveries: the channel of each guild (an error of its bindings, or the channel,
  zero for none), whether Discord refuses the message of a log entry, and whether the update of a
  row fails. A message is the channel, the case and the number its nonce is made of.
\<close>

record log_env =
  lge_channel :: "u64 \<Rightarrow> string + u64"
  lge_create :: "int \<Rightarrow> string option"
  lge_markErr :: "int \<Rightarrow> bool"

definition defer_log :: "log_env \<Rightarrow> moderation_log \<Rightarrow> string \<Rightarrow> time \<Rightarrow> moderation_db \<Rightarrow> moderation_db" where
  "defer_log env l message next' db = (if lge_markErr env (mlg_ID l) then db else snd (MarkModerationLogFailed (mlg_ID l) message next' db))"

definition deliver_log ::
    "log_env \<Rightarrow> time \<Rightarrow> moderation_log \<times> moderation_case \<Rightarrow> (u64 \<times> moderation_case) list \<times> moderation_db \<Rightarrow> (u64 \<times> moderation_case) list \<times> moderation_db" where
  "deliver_log env now = (\<lambda>(l, c) (messages, db).
     case lge_channel env (mdc_GuildID c) of
       Inl e \<Rightarrow> (messages, defer_log env l e (now + moderationLogBackoff (mlg_Attempts l)) db)
     | Inr channel \<Rightarrow>
         if channel = 0 then (messages, defer_log env l ''moderation log channel is not configured'' (now + 5 * minute) db)
         else (case lge_create env (mlg_ID l) of
                 Some e \<Rightarrow> (messages, defer_log env l e (now + moderationLogBackoff (mlg_Attempts l)) db)
               | None \<Rightarrow> (messages @ [(channel, c)],
                          if lge_markErr env (mlg_ID l) then db else snd (MarkModerationLogDelivered (mlg_ID l) now db))))"

definition deliverModerationLogs :: "bool \<Rightarrow> log_env \<Rightarrow> time \<Rightarrow> moderation_db \<Rightarrow> (u64 \<times> moderation_case) list \<times> moderation_db" where
  "deliverModerationLogs ready env now db =
     (if \<not> ready then ([], db) else fold (deliver_log env now) (PendingModerationLogs now 20 db) ([], db))"

text \<open>A year before, by the calendar, is an argument.\<close>

definition purgeModerationCases :: "time \<Rightarrow> moderation_db \<Rightarrow> moderation_db" where
  "purgeModerationCases yearBefore db = snd (PurgeModerationCases yearBefore 500 db)"

section \<open>The cases under every interleaving\<close>

text \<open>
  The handlers that have created a case and are to complete it, each with the case's number and
  guild; the steps are the transactions, which handlers, deliveries and the purge interleave.
\<close>

record case_system =
  csy_db :: moderation_db
  csy_open :: "(int \<times> u64) list"

inductive case_step :: "case_system \<Rightarrow> case_system \<Rightarrow> bool" where
  create: "CreateModerationCase clock dbErr v (csy_db y) = (Inr c, db) \<Longrightarrow>
    case_step y (y\<lparr> csy_db := db, csy_open := (mdc_ID c, mdc_GuildID c) # csy_open y \<rparr>)"
| complete: "(i, guild) \<in> set (csy_open y) \<Longrightarrow> status = ''succeeded'' \<or> status = ''failed'' \<Longrightarrow>
    CompleteModerationCase clock ended dbErr i guild status dm code doneAt (csy_db y) = (res, db) \<Longrightarrow>
    case_step y (y\<lparr> csy_db := db, csy_open := remove1 (i, guild) (csy_open y) \<rparr>)"
| deliver: "deliver_log env now (l, c) ([], csy_db y) = (messages, db) \<Longrightarrow> case_step y (y\<lparr> csy_db := db \<rparr>)"
| purge: "PurgeModerationCases before limit (csy_db y) = (n, db) \<Longrightarrow> case_step y (y\<lparr> csy_db := db \<rparr>)"

definition case_start :: case_system where
  "case_start = \<lparr> csy_db = \<lparr> mdb_cases = [], mdb_log = [], mdb_nextCase = 1, mdb_nextLog = 1 \<rparr>, csy_open = [] \<rparr>"

end
