(* ===== verification/Moderation_Props.thy ===== *)
theory Moderation_Props
  imports Moderation Sessions_Props
begin

text \<open>
  Moderation is authorised three times over, recorded before it happens, confirmed as it was
  asked for, and its cases live one life; a case whose Discord call runs out of time does not.
\<close>

section \<open>Who may act\<close>

primrec action_target :: "discord_action \<Rightarrow> u64" where
  "action_target (WarnUser u) = u"
| "action_target (SetTimeout u d) = u"
| "action_target (ClearTimeout u) = u"
| "action_target (KickMember u) = u"
| "action_target (BanMember u d) = u"
| "action_target (UnbanUser u) = u"

primrec action_name :: "discord_action \<Rightarrow> string" where
  "action_name (WarnUser u) = ''warn''"
| "action_name (SetTimeout u d) = ''timeout''"
| "action_name (ClearTimeout u) = ''remove-timeout''"
| "action_name (KickMember u) = ''kick''"
| "action_name (BanMember u d) = ''ban''"
| "action_name (UnbanUser u) = ''unban''"

text \<open>
  What Discord's own rules ask of an action: the moderator is the owner or holds the permission, is
  not the target, and, unless a ban is lifted, the target is not the owner and ranks below the
  moderator and the bot.
\<close>

definition entitled :: "discord_rest \<Rightarrow> u64 \<Rightarrow> u64 \<Rightarrow> u64 \<Rightarrow> discord_action \<Rightarrow> bool" where
  "entitled rest guild botID moderator act \<longleftrightarrow>
     action_target act \<noteq> moderator \<and> action_target act \<noteq> botID \<and>
     (\<exists>owner roles moderatorRoles botRoles required.
        drs_Guild rest = Inr (owner, roles) \<and> drs_Member rest moderator = Inr moderatorRoles \<and> drs_Member rest botID = Inr botRoles \<and>
        requiredDiscordPermission (action_name act) = Some required \<and>
        (moderator = owner \<or> required \<in> memberPermissions guild roles moderatorRoles) \<and>
        (action_name act \<noteq> ''unban'' \<longrightarrow>
           action_target act \<noteq> owner \<and>
           (\<exists>targetRoles. drs_Member rest (action_target act) = Inr targetRoles \<and>
              (moderator = owner \<or> highestRolePosition roles targetRoles < highestRolePosition roles moderatorRoles) \<and>
              highestRolePosition roles targetRoles < highestRolePosition roles botRoles)))"

lemma perform_action_sends:
  assumes "perform_action rest ex = (err, dm, acts)" "act \<in> set acts"
  shows "acts = [act] \<and> action_target act = mex_TargetUserID ex \<and> action_name act = mex_Action ex"
  using assms by (auto simp: perform_action_def Let_def split: if_splits)

lemma target_ok:
  assumes "target_error guild owner roles moderatorRoles botRoles targetRoles ex = None"
  shows "mex_TargetUserID ex \<noteq> owner \<and> (mex_ModeratorID ex = owner \<or> highestRolePosition roles targetRoles < highestRolePosition roles moderatorRoles) \<and>
    highestRolePosition roles targetRoles < highestRolePosition roles botRoles"
  using assms by (auto simp: target_error_def not_le split: if_splits)

lemma ExecuteModeration_entitled:
  assumes run: "ExecuteModeration ready botID rest ex = (err, dm, acts)" and act: "act \<in> set acts"
  shows "acts = [act] \<and> action_target act = mex_TargetUserID ex \<and> action_name act = mex_Action ex \<and>
    entitled rest (mex_GuildID ex) botID (mex_ModeratorID ex) act"
proof -
  have ne: "acts \<noteq> []" using act by auto
  obtain owner roles moderatorRoles botRoles required where
    g: "drs_Guild rest = Inr (owner, roles)" "drs_Member rest (mex_ModeratorID ex) = Inr moderatorRoles" "drs_Member rest botID = Inr botRoles"
      "requiredDiscordPermission (mex_Action ex) = Some required"
      "mex_ModeratorID ex = owner \<or> required \<in> memberPermissions (mex_GuildID ex) roles moderatorRoles"
      "mex_TargetUserID ex \<noteq> mex_ModeratorID ex" "mex_TargetUserID ex \<noteq> botID"
    and rest: "(if mex_Action ex = ''unban'' then perform_action rest ex
       else (case drs_Member rest (mex_TargetUserID ex) of Inl e \<Rightarrow> (Some (Wrapped ''load target state'' e), [], [])
             | Inr targetRoles \<Rightarrow>
                 (case target_error (mex_GuildID ex) owner roles moderatorRoles botRoles targetRoles ex of
                    Some e \<Rightarrow> (Some e, [], []) | None \<Rightarrow> perform_action rest ex))) = (err, dm, acts)"
    using run ne unfolding ExecuteModeration_def Let_def
    by (auto split: if_splits sum.splits prod.splits option.splits)
  show ?thesis
  proof (cases "mex_Action ex = ''unban''")
    case True
    then have "perform_action rest ex = (err, dm, acts)" using rest by simp
    from perform_action_sends [OF this act] show ?thesis using g True by (auto simp: entitled_def)
  next
    case False
    then obtain targetRoles where t: "drs_Member rest (mex_TargetUserID ex) = Inr targetRoles"
      "target_error (mex_GuildID ex) owner roles moderatorRoles botRoles targetRoles ex = None" "perform_action rest ex = (err, dm, acts)"
      using rest ne by (auto split: sum.splits option.splits)
    from perform_action_sends [OF t(3) act] target_ok [OF t(2)] show ?thesis using g t(1) False by (auto simp: entitled_def)
  qed
qed

section \<open>The case of an action\<close>

lemma create_case:
  assumes "CreateModerationCase clock dbErr v db = (Inr c, db')"
  obtains row where "db' = db\<lparr> mdb_cases := mdb_cases db @ [row], mdb_nextCase := mdb_nextCase db + 1 \<rparr>" "mdc_ID c = mdb_nextCase db" "mdc_ID row = mdb_nextCase db"
    "mdc_GuildID row = mdc_GuildID v" "mdc_GuildID c = mdc_GuildID v" "mdc_ModeratorID row = mdc_ModeratorID v" "mdc_TargetUserID row = mdc_TargetUserID v"
    "mdc_Action row = mdc_Action v" "mdc_Status row = ''pending''" "case_admissible row"
  using assms by (auto simp: CreateModerationCase_def Let_def split: option.splits if_splits)

lemma complete_case:
  "CompleteModerationCase clock ended dbErr i guild status dm code at' db = (Some e, db') \<Longrightarrow> db' = db"
  "CompleteModerationCase clock ended dbErr i guild status dm code at' db = (None, db') \<Longrightarrow>
     \<exists>t code'. mdb_cases db' = map (\<lambda>c. if mdc_ID c = i \<and> mdc_GuildID c = guild \<and> mdc_Status c = ''pending''
         then c\<lparr> mdc_Status := status, mdc_DMStatus := dm, mdc_ErrorCode := code', mdc_CompletedAt := t \<rparr> else c) (mdb_cases db) \<and>
       mdb_log db' = trim_log (mdb_log db) @ [\<lparr> mlg_ID = mdb_nextLog db, mlg_CaseID = i, mlg_GuildID = guild, mlg_Attempts = 0,
         mlg_NextAttemptAt = t, mlg_DeliveredAt = None, mlg_LastError = [], mlg_CreatedAt = t \<rparr>] \<and>
       mdb_nextLog db' = mdb_nextLog db + 1 \<and> mdb_nextCase db' = mdb_nextCase db \<and> \<not> ended \<and>
       i \<notin> mlg_CaseID ` set (trim_log (mdb_log db)) \<and> (\<exists>c \<in> set (mdb_cases db). mdc_ID c = i \<and> mdc_GuildID c = guild \<and> mdc_Status c = ''pending'')"
proof -
  let ?open = "\<lambda>c. mdc_ID c = i \<and> mdc_GuildID c = guild \<and> mdc_Status c = ''pending''"
  let ?t = "if at' = time_zero then clock else at'"
  show "db' = db" if "CompleteModerationCase clock ended dbErr i guild status dm code at' db = (Some e, db')"
    using that by (simp add: CompleteModerationCase_def Let_def split: option.splits if_splits)
  assume a: "CompleteModerationCase clock ended dbErr i guild status dm code at' db = (None, db')"
  then have "\<not> ended" "list_ex ?open (mdb_cases db)" "\<not> list_ex (\<lambda>l. mlg_CaseID l = i) (trim_log (mdb_log db))"
    and db: "db' = db\<lparr> mdb_cases := map (\<lambda>c. if ?open c then c\<lparr> mdc_Status := status, mdc_DMStatus := dm, mdc_ErrorCode := truncateStorage code 160, mdc_CompletedAt := ?t \<rparr> else c) (mdb_cases db),
      mdb_log := trim_log (mdb_log db) @ [\<lparr> mlg_ID = mdb_nextLog db, mlg_CaseID = i, mlg_GuildID = guild, mlg_Attempts = 0,
         mlg_NextAttemptAt = ?t, mlg_DeliveredAt = None, mlg_LastError = [], mlg_CreatedAt = ?t \<rparr>],
      mdb_nextLog := mdb_nextLog db + 1 \<rparr>"
    unfolding CompleteModerationCase_def Let_def by (simp_all split: option.splits if_split_asm)
  then have "i \<notin> mlg_CaseID ` set (trim_log (mdb_log db))" "\<exists>c \<in> set (mdb_cases db). ?open c" by (auto simp: list_ex_iff)
  with \<open>\<not> ended\<close> show "\<exists>t code'. mdb_cases db' = map (\<lambda>c. if ?open c
         then c\<lparr> mdc_Status := status, mdc_DMStatus := dm, mdc_ErrorCode := code', mdc_CompletedAt := t \<rparr> else c) (mdb_cases db) \<and>
       mdb_log db' = trim_log (mdb_log db) @ [\<lparr> mlg_ID = mdb_nextLog db, mlg_CaseID = i, mlg_GuildID = guild, mlg_Attempts = 0,
         mlg_NextAttemptAt = t, mlg_DeliveredAt = None, mlg_LastError = [], mlg_CreatedAt = t \<rparr>] \<and>
       mdb_nextLog db' = mdb_nextLog db + 1 \<and> mdb_nextCase db' = mdb_nextCase db \<and> \<not> ended \<and>
       i \<notin> mlg_CaseID ` set (trim_log (mdb_log db)) \<and> (\<exists>c \<in> set (mdb_cases db). ?open c)"
    by (intro exI [of _ ?t] exI [of _ "truncateStorage code 160"]) (simp add: db)
qed

lemma complete_keeps:
  assumes "CompleteModerationCase clock ended dbErr i guild status dm code at' db = (res, db')" "row \<in> set (mdb_cases db)"
  shows "\<exists>row' \<in> set (mdb_cases db'). mdc_ID row' = mdc_ID row \<and> mdc_ModeratorID row' = mdc_ModeratorID row \<and>
    mdc_TargetUserID row' = mdc_TargetUserID row \<and> mdc_Action row' = mdc_Action row"
proof (cases res)
  case (Some e)
  then show ?thesis using complete_case(1) assms by metis
next
  case None
  obtain t code' where "mdb_cases db' = map (\<lambda>c. if mdc_ID c = i \<and> mdc_GuildID c = guild \<and> mdc_Status c = ''pending''
      then c\<lparr> mdc_Status := status, mdc_DMStatus := dm, mdc_ErrorCode := code', mdc_CompletedAt := t \<rparr> else c) (mdb_cases db)"
    using complete_case(2) [OF assms(1) [unfolded None]] by auto
  then show ?thesis using assms(2)
    by (intro bexI [of _ "if mdc_ID row = i \<and> mdc_GuildID row = guild \<and> mdc_Status row = ''pending''
        then row\<lparr> mdc_Status := status, mdc_DMStatus := dm, mdc_ErrorCode := code', mdc_CompletedAt := t \<rparr> else row"]) auto
qed

lemma executeModeration_sends:
  assumes run: "executeModeration env ex db = (reply, acts, db')" and act: "act \<in> set acts"
  shows "acts = [act] \<and> action_target act = mex_TargetUserID ex \<and> action_name act = mex_Action ex \<and>
    entitled (mxe_rest env) (mex_GuildID ex) (mxe_bot env) (mex_ModeratorID ex) act \<and>
    (\<exists>c \<in> set (mdb_cases db'). mdc_ID c = mdb_nextCase db \<and> mdc_ModeratorID c = mex_ModeratorID ex \<and> mdc_TargetUserID c = action_target act \<and>
       mdc_Action c = action_name act)"
proof -
  obtain v where v: "mdc_ModeratorID v = mex_ModeratorID ex" "mdc_TargetUserID v = mex_TargetUserID ex" "mdc_Action v = mex_Action ex"
    and run': "(case CreateModerationCase (mxe_now env) (mxe_createErr env) v db of
       (Inl e, db1) \<Rightarrow> (CaseNotCreated, [], db1)
     | (Inr moderationCase, db1) \<Rightarrow>
         let i = mdc_ID moderationCase;
             (actionErr, dm, actions) = ExecuteModeration (mxe_ready env) (mxe_bot env) (mxe_rest env) (ex\<lparr> mex_CaseID := i \<rparr>);
             (status, errorCode) = (case actionErr of None \<Rightarrow> (''succeeded'', []) | Some e \<Rightarrow> (''failed'', moderationErrorCode e));
             dmStatus = (if dm = [] then ''not-attempted'' else dm);
             (completeErr, db2) = CompleteModerationCase (mxe_doneAt env) (mxe_ended env) (mxe_completeErr env) i (mex_GuildID ex) status dmStatus errorCode (mxe_doneAt env) db1
         in (case completeErr of Some e \<Rightarrow> CaseNotFinalized i
             | None \<Rightarrow> (case actionErr of Some e \<Rightarrow> CaseFailed i | None \<Rightarrow> CaseDone i dmStatus), actions, db2)) = (reply, acts, db')"
    using run unfolding executeModeration_def by (metis (no_types, lifting) moderation_case.select_convs(3,4,8))
  obtain c db1 where c: "CreateModerationCase (mxe_now env) (mxe_createErr env) v db = (Inr c, db1)"
    using run' act by (auto split: prod.splits sum.splits)
  obtain row where row: "db1 = db\<lparr> mdb_cases := mdb_cases db @ [row], mdb_nextCase := mdb_nextCase db + 1 \<rparr>" "mdc_ID c = mdb_nextCase db"
    "mdc_ID row = mdb_nextCase db" "mdc_ModeratorID row = mdc_ModeratorID v" "mdc_TargetUserID row = mdc_TargetUserID v" "mdc_Action row = mdc_Action v"
    using create_case [OF c] by metis
  obtain err dm where e: "ExecuteModeration (mxe_ready env) (mxe_bot env) (mxe_rest env) (ex\<lparr> mex_CaseID := mdc_ID c \<rparr>) = (err, dm, acts)"
    and fin: "\<exists>status dm' code res. CompleteModerationCase (mxe_doneAt env) (mxe_ended env) (mxe_completeErr env) (mdc_ID c) (mex_GuildID ex) status dm' code (mxe_doneAt env) db1 = (res, db')"
    using run' unfolding c by (auto simp: Let_def split: prod.splits)
  have "row \<in> set (mdb_cases db1)" using row(1) by simp
  then obtain row' where "row' \<in> set (mdb_cases db')" "mdc_ID row' = mdb_nextCase db" "mdc_ModeratorID row' = mex_ModeratorID ex"
    "mdc_TargetUserID row' = mex_TargetUserID ex" "mdc_Action row' = mex_Action ex"
    using fin complete_keeps row(3-6) v by metis
  then show ?thesis using ExecuteModeration_entitled [OF e act] by auto
qed

text \<open>
  C17. Nothing is done to a member without authority. Whatever a command or the press of a button
  sends to Discord, it is one action, against someone else, by a user whose role is bound to the
  tier of moderators (a Discord administrator alone is not enough), who holds Discord's own
  permission for it, as the interaction says and as Discord says when asked, and who ranks above
  the target, unless a ban is lifted; and the case that records it exists before.
\<close>

theorem moderation_authorized:
  assumes "handleModeration ParseDuration r env now2 now3 random q m db = (reply, acts, m', db') \<and>
       user = mrq_UserID q \<and> guild = mrq_GuildID q \<and> roles = mrq_RoleIDs q \<and> admin = mrq_Administrator q \<and> perms = mrq_Permissions q
     \<or> moderation_component r env now2 customID p m db = (reply, acts, m', db') \<and>
       user = cpr_UserID p \<and> guild = cpr_GuildID p \<and> roles = cpr_RoleIDs p \<and> admin = cpr_Administrator p \<and> perms = cpr_Permissions p"
    and "act \<in> set acts"
  shows "acts = [act] \<and> authorizedTier (mro_bindings r) roles admin ''moderator'' \<and> hasNativeModerationPermission perms admin (action_name act) \<and>
    entitled (mxe_rest env) guild (mxe_bot env) user act \<and>
    (\<exists>c \<in> set (mdb_cases db'). mdc_ID c = mdb_nextCase db \<and> mdc_ModeratorID c = user \<and> mdc_TargetUserID c = action_target act \<and> mdc_Action c = action_name act)"
  using assms(1)
proof
  assume a: "handleModeration ParseDuration r env now2 now3 random q m db = (reply, acts, m', db') \<and>
       user = mrq_UserID q \<and> guild = mrq_GuildID q \<and> roles = mrq_RoleIDs q \<and> admin = mrq_Administrator q \<and> perms = mrq_Permissions q"
  then obtain ex where ex: "moderationExecutionFromCommand ParseDuration q = Inr ex" "executeModeration env ex db = (reply, acts, db')"
    and auth: "authorizedTier (mro_bindings r) roles admin ''moderator''" "hasNativeModerationPermission perms admin (mrq_Subcommand q)"
    using assms(2) unfolding handleModeration_def Let_def by (auto split: if_splits sum.splits prod.splits)
  have f: "mex_GuildID ex = guild" "mex_ModeratorID ex = user" "mex_Action ex = mrq_Subcommand q"
    using ex(1) a unfolding moderationExecutionFromCommand_def Let_def by (auto split: if_splits sum.splits)
  from executeModeration_sends [OF ex(2) assms(2)] show ?thesis using auth f by auto
next
  assume a: "moderation_component r env now2 customID p m db = (reply, acts, m', db') \<and>
       user = cpr_UserID p \<and> guild = cpr_GuildID p \<and> roles = cpr_RoleIDs p \<and> admin = cpr_Administrator p \<and> perms = cpr_Permissions p"
  then obtain s where ex: "executeModeration env (confirmed_execution p s) db = (reply, acts, db')"
    and auth: "authorizedTier (mro_bindings r) roles admin ''moderator''" "hasNativeModerationPermission perms admin (ses_Action s)"
    using assms(2) unfolding moderation_component_def handleModerationComponent_def by (auto split: if_splits sum.splits prod.splits)
  from executeModeration_sends [OF ex assms(2)] show ?thesis using auth a by (auto simp: confirmed_execution_def)
qed

section \<open>The confirmation\<close>

lemma created_session:
  assumes "CreateWithTTL now1 now2 random q ttl m = (Inr s, m1)" "0 < ttl"
  shows "map_of (sm_sessions m1) (ses_ID s) = Some s" "ses_ExpiresAt s \<le> now2 + ttl" "ses_UserID s = sq_user q" "ses_GuildID s = sq_guild q"
    "ses_ChannelID s = sq_channel q" "ses_View s = sq_view q"
  using assms by (auto simp: CreateWithTTL_def Let_def zero_session_def split: prod.splits if_splits sum.splits)

lemma updated_session:
  assumes "session_Update now s m = (Inr u, m1)" "map_of (sm_sessions m) (ses_ID s) = Some s0" "ses_CreatedAt s = ses_CreatedAt s0" "ses_ExpiresAt s = ses_ExpiresAt s0"
  shows "map_of (sm_sessions m1) (ses_ID s) = Some s"
proof -
  have "s\<lparr> ses_CreatedAt := ses_CreatedAt s0, ses_ExpiresAt := ses_ExpiresAt s0 \<rparr> = s" using assms(3,4) by (cases s) simp
  then show ?thesis using assms by (auto simp: session_Update_def split: if_splits)
qed

lemma confirmation_session:
  assumes "confirmModeration now1 now2 now3 random ex m = (ConfirmationShown s, m1)"
  shows "map_of (sm_sessions m1) (ses_ID s) = Some s" "ses_ExpiresAt s \<le> now2 + minute" "ses_UserID s = mex_ModeratorID ex" "ses_GuildID s = mex_GuildID ex"
    "ses_ChannelID s = mex_ChannelID ex" "ses_View s = ''moderation''" "ses_Action s = mex_Action ex" "ses_TargetID s = mex_TargetUserID ex"
    "ses_Reason s = mex_Reason ex" "ses_Duration s = mex_Duration ex" "ses_DeleteMessageDuration s = mex_DeleteMessageDuration ex"
proof -
  obtain s0 m0 u where c: "CreateWithTTL now1 now2 random \<lparr> sq_user = mex_ModeratorID ex, sq_guild = mex_GuildID ex, sq_channel = mex_ChannelID ex,
      sq_view = ''moderation'', sq_sort = [], sq_query = [], sq_squawk = [] \<rparr> minute m = (Inr s0, m0)"
    and s: "s = s0\<lparr> ses_Action := mex_Action ex, ses_TargetID := mex_TargetUserID ex, ses_Reason := mex_Reason ex,
                ses_Duration := mex_Duration ex, ses_DeleteMessageDuration := mex_DeleteMessageDuration ex \<rparr>"
    and u: "session_Update now3 s m0 = (Inr u, m1)"
    using assms unfolding confirmModeration_def Let_def by (auto split: prod.splits sum.splits)
  note cs = created_session [OF c]
  show "map_of (sm_sessions m1) (ses_ID s) = Some s" by (rule updated_session [OF u]) (use cs(1) s in simp_all)
  show "ses_ExpiresAt s \<le> now2 + minute" "ses_UserID s = mex_ModeratorID ex" "ses_GuildID s = mex_GuildID ex"
    "ses_ChannelID s = mex_ChannelID ex" "ses_View s = ''moderation''" "ses_Action s = mex_Action ex" "ses_TargetID s = mex_TargetUserID ex"
    "ses_Reason s = mex_Reason ex" "ses_Duration s = mex_Duration ex" "ses_DeleteMessageDuration s = mex_DeleteMessageDuration ex"
    using cs(2-6) s by simp_all
qed

lemma absent_session: "map_of (sm_sessions m) sid = None \<Longrightarrow> ParseCustomID cid = Inr (sid, action) \<Longrightarrow> moderation_component r env now cid p m db = (ControlInvalid, [], m, db)"
  by (simp add: moderation_component_def session_Get_def)

lemma foreign_session:
  "map_of (sm_sessions m) sid = Some s \<Longrightarrow> ses_UserID s \<noteq> cpr_UserID p \<Longrightarrow> ParseCustomID cid = Inr (sid, action) \<Longrightarrow>
     fst (snd (moderation_component r env now cid p m db)) = []"
  by (simp add: moderation_component_def session_Get_def)

text \<open>
  C28. A confirmation executes what was asked for, once. A kick or a ban does nothing by itself:
  it shows a confirmation that lasts at most a minute. Pressing its button within that time, by
  the same user in the same channel while still authorised, executes exactly the execution the
  command described, as if there had been no confirmation; a press by anyone else sends nothing,
  and after the first press the button is dead.
\<close>

theorem confirm_roundtrip:
  assumes "handleModeration ParseDuration r env now2 now3 random q m db = (ConfirmationShown s, acts, m1, db1)"
    and "CustomID (ses_ID s) ''moderate-confirm'' = Inr cid"
  shows "acts = [] \<and> db1 = db \<and> ses_ExpiresAt s \<le> now2 + minute \<and>
    (\<exists>ex. moderationExecutionFromCommand ParseDuration q = Inr ex \<and> mex_Action ex \<in> {''kick'', ''ban''} \<and>
       (\<forall>r' env' now p db'. now < ses_ExpiresAt s \<longrightarrow> cpr_UserID p = mrq_UserID q \<longrightarrow> cpr_GuildID p = mrq_GuildID q \<longrightarrow> cpr_ChannelID p = mrq_ChannelID q \<longrightarrow>
          authorizedTier (mro_bindings r') (cpr_RoleIDs p) (cpr_Administrator p) ''moderator'' \<longrightarrow>
          hasNativeModerationPermission (cpr_Permissions p) (cpr_Administrator p) (mex_Action ex) \<longrightarrow>
          moderation_component r' env' now cid p m1 db' =
            (let (reply, actions, db'') = executeModeration env' ex db' in (reply, actions, session_Delete (ses_ID s) m1, db'')))) \<and>
    (\<forall>r' env' now p db'. cpr_UserID p \<noteq> mrq_UserID q \<longrightarrow> fst (snd (moderation_component r' env' now cid p m1 db')) = []) \<and>
    (\<forall>r' env' now p db'. moderation_component r' env' now cid p (session_Delete (ses_ID s) m1) db' = (ControlInvalid, [], session_Delete (ses_ID s) m1, db'))"
proof -
  obtain ex where ex: "moderationExecutionFromCommand ParseDuration q = Inr ex" "mex_Action ex = ''kick'' \<or> mex_Action ex = ''ban''"
    and c: "confirmModeration (mxe_now env) now2 now3 random ex m = (ConfirmationShown s, m1)" "acts = []" "db1 = db"
  proof -
    have no: "fst (executeModeration env ex db) \<noteq> ConfirmationShown s" for ex
      by (auto simp: executeModeration_def Let_def split: prod.splits sum.splits option.splits)
    show ?thesis using assms(1) no that unfolding handleModeration_def Let_def
      by (auto split: if_splits sum.splits prod.splits option.splits) (metis fst_conv)+
  qed
  note cs = confirmation_session [OF c(1)]
  have f: "mex_CaseID ex = 0" "mex_GuildID ex = mrq_GuildID q" "mex_ModeratorID ex = mrq_UserID q" "mex_ChannelID ex = mrq_ChannelID q"
    using ex(1) unfolding moderationExecutionFromCommand_def Let_def by (auto split: if_splits sum.splits)
  have p: "ParseCustomID cid = Inr (ses_ID s, ''moderate-confirm'')" using assms(2) by (rule CustomID_Parse)
  have press: "moderation_component r' env' now cid p m1 db' =
      (let (reply, actions, db'') = executeModeration env' ex db' in (reply, actions, session_Delete (ses_ID s) m1, db''))"
    if "now < ses_ExpiresAt s" "cpr_UserID p = mrq_UserID q" "cpr_GuildID p = mrq_GuildID q" "cpr_ChannelID p = mrq_ChannelID q"
      "authorizedTier (mro_bindings r') (cpr_RoleIDs p) (cpr_Administrator p) ''moderator''"
      "hasNativeModerationPermission (cpr_Permissions p) (cpr_Administrator p) (mex_Action ex)" for r' env' now p db'
  proof -
    have "confirmed_execution p s = ex" using cs f that(2-4) by (cases ex) (simp add: confirmed_execution_def)
    then show ?thesis using that p cs f by (simp add: moderation_component_def session_Get_def handleModerationComponent_def)
  qed
  have gone: "map_of (sm_sessions (session_Delete (ses_ID s) m1)) (ses_ID s) = None" using cs(1) by (simp add: session_Delete_def)
  show ?thesis
    using c(2,3) cs(2) ex press absent_session [OF gone p] foreign_session [OF cs(1) _ p] cs(3) f(3) by fastforce
qed

section \<open>The life of a case\<close>

lemma oldest_log_mem: "logs \<noteq> [] \<Longrightarrow> \<exists>l \<in> set logs. oldest_log logs = Some (mlg_ID l)"
proof -
  assume ne: "logs \<noteq> []"
  let ?s = "sort_key (\<lambda>l. if mlg_DeliveredAt l \<noteq> None then 0 else (1 :: nat)) (sort_key mlg_CreatedAt (sort_key mlg_ID logs))"
  have s: "set ?s = set logs" by simp
  then have "?s \<noteq> []" using ne by (metis set_empty)
  then obtain l rest where "?s = l # rest" by (auto simp: neq_Nil_conv)
  moreover then have "l \<in> set logs" using s by (metis list.set_intros(1))
  ultimately have "?s = l # rest" "l \<in> set logs" by simp_all
  then show ?thesis by (auto simp: oldest_log_def)
qed

lemma trim_log_subset: "set (trim_log logs) \<subseteq> set logs"
  by (auto simp: trim_log_def)

lemma trim_log_short: "length logs \<le> 10000 \<Longrightarrow> length (trim_log logs) < 10000"
proof (cases "length logs \<ge> 10000")
  case True
  assume len: "length logs \<le> 10000"
  have "logs \<noteq> []" using True by auto
  then obtain l where l: "l \<in> set logs" "oldest_log logs = Some (mlg_ID l)" using oldest_log_mem by blast
  then have "length (filter (\<lambda>l'. Some (mlg_ID l') \<noteq> oldest_log logs) logs) < length logs"
    by (intro length_filter_less [of l]) auto
  then show ?thesis using True len by (simp add: trim_log_def)
qed (simp add: trim_log_def)

lemma trim_log_distinct: "distinct (map f logs) \<Longrightarrow> distinct (map f (trim_log logs))"
  by (simp add: trim_log_def distinct_map_filter)

definition open_ids :: "case_system \<Rightarrow> int set" where
  "open_ids y = fst ` set (csy_open y)"

text \<open>
  Numbers are never used twice; a case has at most one log entry, and only when it is finished; a
  handler holds a case that is not finished; the log is bounded.
\<close>

definition cases_inv :: "case_system \<Rightarrow> bool" where
  "cases_inv y \<longleftrightarrow>
     distinct (map mdc_ID (mdb_cases (csy_db y))) \<and> (\<forall>c \<in> set (mdb_cases (csy_db y)). mdc_ID c < mdb_nextCase (csy_db y)) \<and>
     distinct (map fst (csy_open y)) \<and> (\<forall>i \<in> open_ids y. i < mdb_nextCase (csy_db y)) \<and>
     distinct (map mlg_CaseID (mdb_log (csy_db y))) \<and>
     (\<forall>l \<in> set (mdb_log (csy_db y)). \<exists>c \<in> set (mdb_cases (csy_db y)). mdc_ID c = mlg_CaseID l \<and> mdc_Status c \<noteq> ''pending'') \<and>
     (\<forall>c \<in> set (mdb_cases (csy_db y)). mdc_ID c \<in> open_ids y \<longrightarrow> mdc_Status c = ''pending'') \<and>
     (\<forall>c \<in> set (mdb_cases (csy_db y)). mdc_Status c \<in> {''pending'', ''succeeded'', ''failed''}) \<and>
     length (mdb_log (csy_db y)) \<le> 10000"

lemma complete_done:
  assumes "CompleteModerationCase clock ended dbErr i guild status dm code at' db = (None, db')"
  obtains f c0 where "mdb_cases db' = map f (mdb_cases db)" "\<And>c. mdc_ID (f c) = mdc_ID c"
    "\<And>c. f c = c \<or> mdc_ID c = i \<and> mdc_Status (f c) = status"
    "map mlg_CaseID (mdb_log db') = map mlg_CaseID (trim_log (mdb_log db)) @ [i]" "mdb_nextCase db' = mdb_nextCase db"
    "i \<notin> mlg_CaseID ` set (trim_log (mdb_log db))" "c0 \<in> set (mdb_cases db)" "mdc_ID c0 = i" "mdc_Status (f c0) = status"
proof -
  from complete_case(2) [OF assms] obtain t code' where d: "mdb_cases db' = map (\<lambda>c. if mdc_ID c = i \<and> mdc_GuildID c = guild \<and> mdc_Status c = ''pending''
         then c\<lparr> mdc_Status := status, mdc_DMStatus := dm, mdc_ErrorCode := code', mdc_CompletedAt := t \<rparr> else c) (mdb_cases db) \<and>
       mdb_log db' = trim_log (mdb_log db) @ [\<lparr> mlg_ID = mdb_nextLog db, mlg_CaseID = i, mlg_GuildID = guild, mlg_Attempts = 0,
         mlg_NextAttemptAt = t, mlg_DeliveredAt = None, mlg_LastError = [], mlg_CreatedAt = t \<rparr>] \<and>
       mdb_nextLog db' = mdb_nextLog db + 1 \<and> mdb_nextCase db' = mdb_nextCase db \<and> \<not> ended \<and>
       i \<notin> mlg_CaseID ` set (trim_log (mdb_log db)) \<and> (\<exists>c \<in> set (mdb_cases db). mdc_ID c = i \<and> mdc_GuildID c = guild \<and> mdc_Status c = ''pending'')"
    by (elim exE) (rule that)
  obtain c0 where c0: "c0 \<in> set (mdb_cases db)" "mdc_ID c0 = i" "mdc_GuildID c0 = guild" "mdc_Status c0 = ''pending''" using d by blast
  define f :: "moderation_case \<Rightarrow> moderation_case" where "f = (\<lambda>c. if mdc_ID c = i \<and> mdc_GuildID c = guild \<and> mdc_Status c = ''pending''
         then c\<lparr> mdc_Status := status, mdc_DMStatus := dm, mdc_ErrorCode := code', mdc_CompletedAt := t \<rparr> else c)"
  show ?thesis
  proof (rule that [of f c0])
    show "mdb_cases db' = map f (mdb_cases db)" using d unfolding f_def by (elim conjE)
    show "mdc_ID (f c) = mdc_ID c" for c by (simp add: f_def)
    show "f c = c \<or> mdc_ID c = i \<and> mdc_Status (f c) = status" for c by (simp add: f_def)
    show "mdc_Status (f c0) = status" using c0 by (simp add: f_def)
  qed (use d c0 in simp_all)
qed

text \<open>What a delivery leaves as it is.\<close>

lemma mark_log:
  "mdb_cases (snd (MarkModerationLogDelivered i t db)) = mdb_cases db" "mdb_nextCase (snd (MarkModerationLogDelivered i t db)) = mdb_nextCase db"
  "map mlg_CaseID (mdb_log (snd (MarkModerationLogDelivered i t db))) = map mlg_CaseID (mdb_log db)"
  "mdb_cases (snd (MarkModerationLogFailed i e t db)) = mdb_cases db" "mdb_nextCase (snd (MarkModerationLogFailed i e t db)) = mdb_nextCase db"
  "map mlg_CaseID (mdb_log (snd (MarkModerationLogFailed i e t db))) = map mlg_CaseID (mdb_log db)"
  by (simp_all add: MarkModerationLogDelivered_def MarkModerationLogFailed_def comp_def if_distrib cong: if_cong)

definition same_ids :: "moderation_db \<Rightarrow> moderation_db \<Rightarrow> bool" where
  "same_ids db db' \<longleftrightarrow> mdb_cases db' = mdb_cases db \<and> mdb_nextCase db' = mdb_nextCase db \<and> map mlg_CaseID (mdb_log db') = map mlg_CaseID (mdb_log db)"

lemma defer_same: "same_ids db (defer_log env l e t db)"
  by (simp add: same_ids_def defer_log_def mark_log)

lemma deliver_same: "deliver_log env now (l, c) (ms, db) = (messages, db') \<Longrightarrow> same_ids db db'"
  using defer_same [of db env l] by (auto simp: deliver_log_def same_ids_def mark_log split: sum.splits if_splits option.splits)

lemma cases_inv_same:
  assumes "cases_inv y" "same_ids (csy_db y) db"
  shows "cases_inv (y\<lparr> csy_db := db \<rparr>)"
proof -
  have len: "length (mdb_log db) = length (mdb_log (csy_db y))" using assms(2) by (metis length_map same_ids_def)
  have ids: "mlg_CaseID ` set (mdb_log db) = mlg_CaseID ` set (mdb_log (csy_db y))" using assms(2) by (metis list.set_map same_ids_def)
  have "\<exists>c \<in> set (mdb_cases (csy_db y)). mdc_ID c = mlg_CaseID l \<and> mdc_Status c \<noteq> ''pending''" if "l \<in> set (mdb_log db)" for l
  proof -
    have "mlg_CaseID l \<in> mlg_CaseID ` set (mdb_log (csy_db y))" using that ids by (metis imageI)
    then obtain l' where "l' \<in> set (mdb_log (csy_db y))" "mlg_CaseID l' = mlg_CaseID l" by auto
    then show ?thesis using assms(1) unfolding cases_inv_def by metis
  qed
  then show ?thesis using assms len unfolding cases_inv_def open_ids_def same_ids_def by simp
qed

lemma purge_shape:
  assumes "PurgeModerationCases before limit db = (n, db')"
  obtains old where "db' = db\<lparr> mdb_cases := filter (\<lambda>c. mdc_ID c \<notin> set old) (mdb_cases db),
      mdb_log := filter (\<lambda>l. mlg_CaseID l \<notin> set old) (mdb_log db) \<rparr>"
proof -
  from assms show thesis unfolding PurgeModerationCases_def Let_def prod.inject by (elim conjE) (rule that, rule sym)
qed

lemma case_step_inv:
  assumes "case_step y z" "cases_inv y"
  shows "cases_inv z"
  using assms(1)
proof cases
  case (create clock dbErr v c db)
  obtain row where row: "db = (csy_db y)\<lparr> mdb_cases := mdb_cases (csy_db y) @ [row], mdb_nextCase := mdb_nextCase (csy_db y) + 1 \<rparr>"
    "mdc_ID c = mdb_nextCase (csy_db y)" "mdc_ID row = mdb_nextCase (csy_db y)" "mdc_Status row = ''pending''"
    using create_case [OF create(2)] by metis
  show ?thesis using assms(2) unfolding create(1) cases_inv_def open_ids_def row(1) by (force simp: row(2-4))
next
  case (complete i guild status clock ended dbErr dm code doneAt res db)
  show ?thesis
  proof (cases res)
    case (Some e)
    then have "db = csy_db y" using complete_case(1) complete(4) by metis
    moreover have "set (remove1 (i, guild) (csy_open y)) \<subseteq> set (csy_open y)" by (rule set_remove1_subset)
    ultimately show ?thesis using assms(2) unfolding complete(1) cases_inv_def open_ids_def
      by (auto simp: distinct_map distinct_remove1 intro: inj_on_subset)
  next
    case None
    let ?db = "csy_db y"
    obtain f c0 where db: "mdb_cases db = map f (mdb_cases ?db)" "\<And>c. mdc_ID (f c) = mdc_ID c" "\<And>c. f c = c \<or> mdc_ID c = i \<and> mdc_Status (f c) = status"
      "map mlg_CaseID (mdb_log db) = map mlg_CaseID (trim_log (mdb_log ?db)) @ [i]" "mdb_nextCase db = mdb_nextCase ?db"
      "i \<notin> mlg_CaseID ` set (trim_log (mdb_log ?db))" "c0 \<in> set (mdb_cases ?db)" "mdc_ID c0 = i" "mdc_Status (f c0) = status"
      by (rule complete_done [OF complete(4) [unfolded None]]) (rule that)
    have inv: "distinct (map mdc_ID (mdb_cases ?db))" "distinct (map fst (csy_open y))" "distinct (map mlg_CaseID (mdb_log ?db))"
      "\<forall>c \<in> set (mdb_cases ?db). mdc_ID c < mdb_nextCase ?db" "length (mdb_log ?db) \<le> 10000" "\<forall>i \<in> open_ids y. i < mdb_nextCase ?db"
      "\<forall>l \<in> set (mdb_log ?db). \<exists>c \<in> set (mdb_cases ?db). mdc_ID c = mlg_CaseID l \<and> mdc_Status c \<noteq> ''pending''"
      "\<forall>c \<in> set (mdb_cases ?db). mdc_ID c \<in> open_ids y \<longrightarrow> mdc_Status c = ''pending''"
      "\<forall>c \<in> set (mdb_cases ?db). mdc_Status c \<in> {''pending'', ''succeeded'', ''failed''}"
      using assms(2) by (simp_all add: cases_inv_def)
    have z: "csy_db z = db" "csy_open z = remove1 (i, guild) (csy_open y)" by (simp_all add: complete(1))
    have opens: "open_ids z \<subseteq> open_ids y - {i}"
    proof
      fix k
      assume "k \<in> open_ids z"
      then obtain g where g: "(k, g) \<in> set (remove1 (i, guild) (csy_open y))" by (auto simp: open_ids_def z)
      then have y: "(k, g) \<in> set (csy_open y)" "(k, g) \<noteq> (i, guild)"
        using inv(2) by (auto simp: distinct_map dest: set_remove1_subset [THEN subsetD])
      then have "k \<noteq> i" using inv(2) complete(2) unfolding distinct_map inj_on_def by fastforce
      then show "k \<in> open_ids y - {i}" using y(1) by (force simp: open_ids_def)
    qed
    have st: "status \<noteq> ''pending''" "status \<in> {''pending'', ''succeeded'', ''failed''}" using complete(3) by auto
    have logged: "\<exists>c \<in> set (mdb_cases db). mdc_ID c = mlg_CaseID l \<and> mdc_Status c \<noteq> ''pending''" if "l \<in> set (mdb_log db)" for l
    proof -
      have "mlg_CaseID l \<in> set (map mlg_CaseID (mdb_log db))" using that by simp
      then consider "mlg_CaseID l \<in> mlg_CaseID ` set (trim_log (mdb_log ?db))" | "mlg_CaseID l = i" unfolding db(4) by auto
      then show ?thesis
      proof cases
        case 1
        then obtain l' where "l' \<in> set (mdb_log ?db)" "mlg_CaseID l = mlg_CaseID l'" using trim_log_subset by blast
        then obtain c where c: "c \<in> set (mdb_cases ?db)" "mdc_ID c = mlg_CaseID l" "mdc_Status c \<noteq> ''pending''" using inv(7) by auto
        have "mdc_Status (f c) \<noteq> ''pending''" using db(3) [of c] c(3) st(1) by auto
        then show ?thesis using c db(1,2) by auto
      next
        case 2
        then show ?thesis using db(1,2,7,8,9) st(1) by auto
      qed
    qed
    have dl: "distinct (map mlg_CaseID (mdb_log db))" unfolding db(4) using db(6) trim_log_distinct [OF inv(3)] by simp
    have "length (mdb_log db) = Suc (length (trim_log (mdb_log ?db)))" using arg_cong [OF db(4), of length] by simp
    then have len: "length (mdb_log db) \<le> 10000" using trim_log_short [OF inv(5)] by simp
    have pend: "mdc_Status (f c) = ''pending''" if "c \<in> set (mdb_cases ?db)" "mdc_ID c \<in> open_ids z" for c
      using that inv(8) opens db(3) [of c] by auto
    have stat: "mdc_Status (f c) \<in> {''pending'', ''succeeded'', ''failed''}" if "c \<in> set (mdb_cases ?db)" for c
      using that inv(9) db(3) [of c] st(2) by auto
    have ids: "map mdc_ID (mdb_cases db) = map mdc_ID (mdb_cases ?db)" by (simp add: db(1,2))
    have o: "distinct (map fst (csy_open z))"
      using inv(2) inj_on_subset [OF _ set_remove1_subset] unfolding z(2) distinct_map by (metis distinct_remove1)
    have dc: "distinct (map mdc_ID (mdb_cases db))" using ids inv(1) by simp
    have "\<forall>c \<in> set (mdb_cases db). mdc_ID c < mdb_nextCase db" "\<forall>i \<in> open_ids z. i < mdb_nextCase db"
      "\<forall>c \<in> set (mdb_cases db). mdc_ID c \<in> open_ids z \<longrightarrow> mdc_Status c = ''pending''"
      "\<forall>c \<in> set (mdb_cases db). mdc_Status c \<in> {''pending'', ''succeeded'', ''failed''}"
      using ids inv(1,4,6) opens pend stat by (auto simp: db(1,2,5))
    then show ?thesis using dc dl len o logged unfolding cases_inv_def z(1) by simp
  qed
next
  case (deliver env now l c messages db)
  show ?thesis using cases_inv_same [OF assms(2) deliver_same [OF deliver(2)]] by (simp add: deliver(1))
next
  case (purge before limit n db)
  obtain old where db: "db = (csy_db y)\<lparr> mdb_cases := filter (\<lambda>c. mdc_ID c \<notin> set old) (mdb_cases (csy_db y)),
      mdb_log := filter (\<lambda>l. mlg_CaseID l \<notin> set old) (mdb_log (csy_db y)) \<rparr>"
    by (rule purge_shape [OF purge(2)]) (rule that)
  let ?log = "filter (\<lambda>l. mlg_CaseID l \<notin> set old) (mdb_log (csy_db y))" and ?cs = "filter (\<lambda>c. mdc_ID c \<notin> set old) (mdb_cases (csy_db y))"
  have inv: "\<forall>l \<in> set (mdb_log (csy_db y)). \<exists>c \<in> set (mdb_cases (csy_db y)). mdc_ID c = mlg_CaseID l \<and> mdc_Status c \<noteq> ''pending''"
    "length (mdb_log (csy_db y)) \<le> 10000" using assms(2) by (simp_all add: cases_inv_def)
  have "length ?log \<le> 10000" using inv(2) length_filter_le [of _ "mdb_log (csy_db y)"] by (rule order_trans [rotated])
  moreover have "\<exists>c \<in> set ?cs. mdc_ID c = mlg_CaseID l \<and> mdc_Status c \<noteq> ''pending''" if l: "l \<in> set ?log" for l
  proof -
    obtain c where "c \<in> set (mdb_cases (csy_db y))" "mdc_ID c = mlg_CaseID l" "mdc_Status c \<noteq> ''pending''" using inv(1) l by auto
    then show ?thesis using l by (intro bexI [of _ c]) simp_all
  qed
  ultimately show ?thesis using assms(2) unfolding purge(1) db cases_inv_def open_ids_def
    by (simp add: distinct_map_filter)
qed

lemma cases_reachable: "case_step\<^sup>*\<^sup>* case_start y \<Longrightarrow> cases_inv y"
proof (induction rule: rtranclp_induct)
  case base
  show ?case by (simp add: cases_inv_def case_start_def open_ids_def)
qed (rule case_step_inv)

text \<open>A case left pending by its handler.\<close>

definition abandoned :: "int \<Rightarrow> case_system \<Rightarrow> bool" where
  "abandoned i z \<longleftrightarrow> (\<forall>c \<in> set (mdb_cases (csy_db z)). mdc_ID c = i \<longrightarrow> mdc_Status c = ''pending'') \<and>
     i \<notin> open_ids z \<and> i < mdb_nextCase (csy_db z)"

lemma abandoned_step:
  assumes "case_step z w" "abandoned i z"
  shows "abandoned i w"
proof -
  note ab = assms(2) [unfolded abandoned_def]
  from assms(1) show ?thesis
  proof cases
    case (create clock dbErr v c db)
    obtain row where "db = (csy_db z)\<lparr> mdb_cases := mdb_cases (csy_db z) @ [row], mdb_nextCase := mdb_nextCase (csy_db z) + 1 \<rparr>"
      "mdc_ID c = mdb_nextCase (csy_db z)" "mdc_Status row = ''pending''"
      using create_case [OF create(2)] by metis
    then show ?thesis using ab by (auto simp: create(1) open_ids_def abandoned_def)
  next
    case (complete j guild status clock ended dbErr dm code doneAt res db)
    have j: "j \<noteq> i" using complete(2) ab by (force simp: open_ids_def)
    have sub: "open_ids w \<subseteq> open_ids z" using set_remove1_subset by (force simp: complete(1) open_ids_def)
    show ?thesis
    proof (cases res)
      case (Some e)
      then have "db = csy_db z" using complete_case(1) complete(4) by metis
      then show ?thesis using ab sub by (auto simp: complete(1) abandoned_def)
    next
      case None
      obtain f c0 where d: "mdb_cases db = map f (mdb_cases (csy_db z))" "\<And>c. mdc_ID (f c) = mdc_ID c" "\<And>c. f c = c \<or> mdc_ID c = j \<and> mdc_Status (f c) = status"
        "map mlg_CaseID (mdb_log db) = map mlg_CaseID (trim_log (mdb_log (csy_db z))) @ [j]" "mdb_nextCase db = mdb_nextCase (csy_db z)"
        "j \<notin> mlg_CaseID ` set (trim_log (mdb_log (csy_db z)))" "c0 \<in> set (mdb_cases (csy_db z))" "mdc_ID c0 = j" "mdc_Status (f c0) = status"
        by (rule complete_done [OF complete(4) [unfolded None]]) (rule that)
      have "f c = c" if "mdc_ID c = i" for c using d(3) [of c] that j by auto
      then have "\<forall>c' \<in> set (mdb_cases db). mdc_ID c' = i \<longrightarrow> mdc_Status c' = ''pending''" using ab d(1,2) by auto
      then show ?thesis using ab sub d(5) by (auto simp: complete(1) abandoned_def)
    qed
  next
    case (deliver env now l c messages db)
    show ?thesis using ab deliver_same [OF deliver(2)] by (simp add: deliver(1) same_ids_def open_ids_def abandoned_def)
  next
    case (purge before limit n db)
    obtain old where "db = (csy_db z)\<lparr> mdb_cases := filter (\<lambda>c. mdc_ID c \<notin> set old) (mdb_cases (csy_db z)),
        mdb_log := filter (\<lambda>l. mlg_CaseID l \<notin> set old) (mdb_log (csy_db z)) \<rparr>"
      by (rule purge_shape [OF purge(2)]) (rule that)
    then show ?thesis using ab unfolding purge(1) by (simp add: open_ids_def abandoned_def)
  qed
qed

lemma abandoned_reach: "case_step\<^sup>*\<^sup>* z w \<Longrightarrow> abandoned i z \<Longrightarrow> abandoned i w"
  by (induction rule: rtranclp_induct) (auto intro: abandoned_step)

lemma abandoned_begin:
  assumes "cases_inv y" "c \<in> set (mdb_cases (csy_db y))" "mdc_Status c = ''pending''" "mdc_ID c \<notin> open_ids y"
  shows "abandoned (mdc_ID c) y"
proof -
  have d: "distinct (map mdc_ID (mdb_cases (csy_db y)))" "mdc_ID c < mdb_nextCase (csy_db y)" using assms(1,2) by (simp_all add: cases_inv_def)
  then have "c' = c" if "c' \<in> set (mdb_cases (csy_db y))" "mdc_ID c' = mdc_ID c" for c'
    using that assms(2) unfolding distinct_map inj_on_def by metis
  then show ?thesis using d(2) assms(3,4) unfolding abandoned_def by auto
qed

lemma abandoned_no_log: "cases_inv z \<Longrightarrow> abandoned i z \<Longrightarrow> i \<notin> mlg_CaseID ` set (mdb_log (csy_db z))"
  unfolding cases_inv_def abandoned_def by fastforce

text \<open>
  C18. A case lives once. Under every interleaving of moderation, deletions of messages, log
  deliveries and the purge: no number is given twice, a case is pending or has one outcome, and it
  has at most one entry in the log, which exists only when it is finished; the log keeps to its
  bound. A case that is pending while no handler holds it stays pending for ever, without a log
  entry.
\<close>

theorem case_lifecycle:
  assumes "case_step\<^sup>*\<^sup>* case_start y"
  shows "distinct (map mdc_ID (mdb_cases (csy_db y))) \<and> (\<forall>c \<in> set (mdb_cases (csy_db y)). mdc_Status c \<in> {''pending'', ''succeeded'', ''failed''}) \<and>
    distinct (map mlg_CaseID (mdb_log (csy_db y))) \<and>
    (\<forall>l \<in> set (mdb_log (csy_db y)). \<exists>c \<in> set (mdb_cases (csy_db y)). mdc_ID c = mlg_CaseID l \<and> mdc_Status c \<noteq> ''pending'') \<and>
    length (mdb_log (csy_db y)) \<le> 10000 \<and>
    (\<forall>c \<in> set (mdb_cases (csy_db y)). mdc_Status c = ''pending'' \<longrightarrow> mdc_ID c \<notin> open_ids y \<longrightarrow>
       (\<forall>z. case_step\<^sup>*\<^sup>* y z \<longrightarrow> (\<forall>c' \<in> set (mdb_cases (csy_db z)). mdc_ID c' = mdc_ID c \<longrightarrow> mdc_Status c' = ''pending'') \<and>
          mdc_ID c \<notin> mlg_CaseID ` set (mdb_log (csy_db z))))"
proof -
  have inv: "cases_inv y" using assms by (rule cases_reachable)
  have never: "(\<forall>c' \<in> set (mdb_cases (csy_db z)). mdc_ID c' = mdc_ID c \<longrightarrow> mdc_Status c' = ''pending'') \<and> mdc_ID c \<notin> mlg_CaseID ` set (mdb_log (csy_db z))"
    if c: "c \<in> set (mdb_cases (csy_db y))" "mdc_Status c = ''pending''" "mdc_ID c \<notin> open_ids y" and z: "case_step\<^sup>*\<^sup>* y z" for c z
  proof -
    have ab: "abandoned (mdc_ID c) z" by (rule abandoned_reach [OF z abandoned_begin [OF inv c]])
    have "cases_inv z" using rtranclp_trans [OF assms z] by (rule cases_reachable)
    from abandoned_no_log [OF this ab] ab show ?thesis unfolding abandoned_def by (intro conjI) simp_all
  qed
  have "distinct (map mdc_ID (mdb_cases (csy_db y)))" "\<forall>c \<in> set (mdb_cases (csy_db y)). mdc_Status c \<in> {''pending'', ''succeeded'', ''failed''}"
    "distinct (map mlg_CaseID (mdb_log (csy_db y)))"
    "\<forall>l \<in> set (mdb_log (csy_db y)). \<exists>c \<in> set (mdb_cases (csy_db y)). mdc_ID c = mlg_CaseID l \<and> mdc_Status c \<noteq> ''pending''"
    "length (mdb_log (csy_db y)) \<le> 10000"
    using inv by (simp_all add: cases_inv_def)
  then show ?thesis using never by (intro conjI) blast+
qed

section \<open>A case that runs out of time\<close>


text \<open>The request of a command fits the table, so a case is refused only by an error of the database.\<close>

lemma valid_reason: "validateModerationReason raw = Inr reason \<Longrightarrow> trim_space reason = reason \<and> 3 \<le> rune_count reason \<and> rune_count reason \<le> 400"
  by (auto simp: validateModerationReason_def Let_def split: if_splits)

lemma whole_seconds_bounds: "0 \<le> d \<Longrightarrow> 0 \<le> whole_seconds d \<and> whole_seconds d \<le> d"
  using div_mult_mod_eq [of d second] pos_mod_sign [of second d] by (auto simp: whole_seconds_def sgn_if)

lemma request_admissible:
  assumes q: "moderationExecutionFromCommand ParseDuration q = Inr ex"
    and action: "mrq_Subcommand q \<in> {''warn'', ''timeout'', ''remove-timeout'', ''kick'', ''ban'', ''unban''}" and err: "mxe_createErr env = None"
  shows "fst (executeModeration env ex db) \<noteq> CaseNotCreated \<and> mex_TargetUserID ex \<noteq> 0"
proof -
  have f: "mex_Action ex = mrq_Subcommand q" "mex_TargetUserID ex \<noteq> 0" "\<exists>raw. validateModerationReason raw = Inr (mex_Reason ex)"
    "mex_Duration ex = 0 \<or> (minute \<le> mex_Duration ex \<and> mex_Duration ex \<le> 28 * 24 * hour)"
    "\<exists>v. mex_DeleteMessageDuration ex = boundedInt v 0 7 0 * (24 * hour)"
    using q unfolding moderationExecutionFromCommand_def Let_def by (auto split: if_splits sum.splits option.splits)
  have d: "0 \<le> whole_seconds (mex_Duration ex)" "whole_seconds (mex_Duration ex) \<le> 2419200 * second"
    using whole_seconds_bounds [of "mex_Duration ex"] f(4) by (auto simp: whole_seconds_def)
  obtain v where v: "mex_DeleteMessageDuration ex = boundedInt v 0 7 0 * (24 * hour)" using f(5) by blast
  have "0 \<le> boundedInt v 0 7 0 \<and> boundedInt v 0 7 0 \<le> 7" by (simp add: boundedInt_def)
  then have "0 \<le> mex_DeleteMessageDuration ex" "mex_DeleteMessageDuration ex \<le> 604800 * second" unfolding v by linarith+
  then have m: "0 \<le> whole_seconds (mex_DeleteMessageDuration ex)" "whole_seconds (mex_DeleteMessageDuration ex) \<le> 604800 * second"
    using whole_seconds_bounds [of "mex_DeleteMessageDuration ex"] by linarith+
  obtain raw where "validateModerationReason raw = Inr (mex_Reason ex)" using f(3) by blast
  note r = valid_reason [OF this]
  have "mex_Action ex \<in> {''warn'', ''timeout'', ''remove-timeout'', ''kick'', ''ban'', ''unban'', ''delete-message''}" using action unfolding f(1) by blast
  then have "fst (executeModeration env ex db) \<noteq> CaseNotCreated"
    unfolding executeModeration_def CreateModerationCase_def Let_def err
    using d m r by (simp add: case_admissible_def Let_def split: prod.splits option.splits)
  then show ?thesis using f(2) by simp
qed

section \<open>Witnesses\<close>

definition demo_roles :: "discord_role list" where
  "demo_roles = [\<lparr> dro_ID = 100, dro_Position = 5, dro_Permissions = {PermModerateMembers, PermBanMembers} \<rparr>,
     \<lparr> dro_ID = 101, dro_Position = 9, dro_Permissions = {PermModerateMembers, PermBanMembers} \<rparr>]"

text \<open>The moderator 7 has the first role, the bot 8 the second, the target 6 none; 1 is the owner.\<close>

definition demo_rest :: discord_rest where
  "demo_rest = \<lparr> drs_Guild = Inr (1, demo_roles),
     drs_Member = (\<lambda>u. if u = 7 then Inr [100] else if u = 8 then Inr [101] else Inr []), drs_Act = None, drs_DM = True \<rparr>"

definition demo_mod_env :: moderation_env where
  "demo_mod_env = \<lparr> mxe_now = 5, mxe_createErr = None, mxe_ready = True, mxe_bot = 8, mxe_rest = demo_rest, mxe_ended = False, mxe_completeErr = None, mxe_doneAt = 6 \<rparr>"

definition demo_mod_router :: moderation_router where
  "demo_mod_router = \<lparr> mro_repository = True, mro_deletion = True, mro_moderation = True, mro_ensureErr = None,
     mro_bindings = Inr [\<lparr> rlb_GuildID = 9, rlb_Tier = ''moderator'', rlb_RoleID = 100, rlb_UpdatedAt = 1 \<rparr>], mro_historyErr = None \<rparr>"

definition demo_command :: "string \<Rightarrow> command_request" where
  "demo_command action = \<lparr> mrq_Subcommand = action, mrq_UserID = 7, mrq_GuildID = 9, mrq_ChannelID = 3, mrq_Administrator = False,
     mrq_Permissions = {PermModerateMembers, PermBanMembers}, mrq_RoleIDs = [100], mrq_Strings = [(''reason'', ''spam'')], mrq_Ints = [], mrq_IDs = [(''user'', 6)] \<rparr>"

definition demo_cases :: moderation_db where
  "demo_cases = \<lparr> mdb_cases = [], mdb_log = [], mdb_nextCase = 1, mdb_nextLog = 1 \<rparr>"

lemma demo_reason: "trim_space ''spam'' = ''spam''" "runes ''spam'' = [115, 112, 97, 109]"
proof -
  show "trim_space ''spam'' = ''spam''" by code_simp
  have "list_all plain_char ''spam''" by (simp add: plain_char_def)
  then show "runes ''spam'' = [115, 112, 97, 109]" by (simp add: runes_plain)
qed

lemma demo_execution:
  assumes "action \<in> {''warn'', ''ban''}"
  shows "moderationExecutionFromCommand (\<lambda>_. None) (demo_command action) = Inr \<lparr> mex_CaseID = 0, mex_GuildID = 9, mex_ChannelID = 3, mex_ModeratorID = 7,
     mex_TargetUserID = 6, mex_Action = action, mex_Reason = ''spam'', mex_Duration = 0, mex_DeleteMessageDuration = 0 \<rparr>"
  using assms by (auto simp: moderationExecutionFromCommand_def demo_command_def option_or_def validateModerationReason_def demo_reason rune_count_def
      rune_control_def boundedInt_def Let_def)

lemma demo_allowed: "authorizedTier (mro_bindings demo_mod_router) [100] False ''moderator''"
  by (simp add: authorizedTier_def demo_mod_router_def tierRank_def containsID_def)

definition demo_warning :: moderation_execution where
  "demo_warning = \<lparr> mex_CaseID = 0, mex_GuildID = 9, mex_ChannelID = 3, mex_ModeratorID = 7, mex_TargetUserID = 6, mex_Action = ''warn'',
     mex_Reason = ''spam'', mex_Duration = 0, mex_DeleteMessageDuration = 0 \<rparr>"

lemma demo_warns: "ExecuteModeration True 8 demo_rest (demo_warning\<lparr> mex_CaseID := i \<rparr>) = (None, ''delivered'', [WarnUser 6])"
  by (simp add: ExecuteModeration_def demo_warning_def demo_rest_def demo_roles_def requiredDiscordPermission_def memberPermissions_def containsID_def
      highestRolePosition_def target_error_def perform_action_def Let_def)

lemma demo_warned: "\<exists>reply db'. executeModeration demo_mod_env demo_warning demo_cases = (reply, [WarnUser 6], db')"
proof -
  have "case_admissible \<lparr> mdc_ID = 1, mdc_GuildID = 9, mdc_ModeratorID = 7, mdc_TargetUserID = 6, mdc_TargetChannelID = 0, mdc_TargetMessageID = 0,
      mdc_TargetMessageCreatedAt = 0, mdc_Action = ''warn'', mdc_Reason = ''spam'', mdc_Duration = 0, mdc_DeleteMessageDuration = 0,
      mdc_Status = ''pending'', mdc_DMStatus = ''not-attempted'', mdc_ErrorCode = [], mdc_CreatedAt = 5, mdc_CompletedAt = 0 \<rparr>"
    by (simp add: case_admissible_def rune_count_def demo_reason)
  then show ?thesis
    unfolding executeModeration_def CreateModerationCase_def Let_def
    using demo_warns [of 1]
    by (simp add: demo_mod_env_def demo_warning_def demo_cases_def whole_seconds_def demo_reason split: prod.split)
qed

theorem moderation_authorized_witness:
  "\<exists>reply m' db'. handleModeration (\<lambda>_. None) demo_mod_router demo_mod_env 1 2 (\<lambda>_. None) (demo_command ''warn'') (NewSessionManager 9 9 minute) demo_cases =
     (reply, [WarnUser 6], m', db') \<and> entitled demo_rest 9 8 7 (WarnUser 6)"
proof -
  have ex: "moderationExecutionFromCommand (\<lambda>_. None) (demo_command ''warn'') = Inr demo_warning" by (simp add: demo_execution demo_warning_def)
  obtain reply db' where e: "executeModeration demo_mod_env demo_warning demo_cases = (reply, [WarnUser 6], db')" using demo_warned by blast
  have q: "mrq_Subcommand (demo_command a) = a" "mrq_UserID (demo_command a) = 7" "mrq_RoleIDs (demo_command a) = [100]" "mrq_Administrator (demo_command a) = False"
    "mrq_Permissions (demo_command a) = {PermModerateMembers, PermBanMembers}" "mrq_GuildID (demo_command a) = 9" for a by (simp_all add: demo_command_def)
  have r: "mro_repository demo_mod_router" "mro_moderation demo_mod_router" "mro_ensureErr demo_mod_router = None" by (simp_all add: demo_mod_router_def)
  have h: "handleModeration (\<lambda>_. None) demo_mod_router demo_mod_env 1 2 (\<lambda>_. None) (demo_command ''warn'') (NewSessionManager 9 9 minute) demo_cases =
     (reply, [WarnUser 6], NewSessionManager 9 9 minute, db')"
    unfolding handleModeration_def Let_def q ex using r demo_allowed by (simp add: e demo_warning_def [symmetric] hasNativeModerationPermission_def) (simp add: demo_warning_def e [unfolded demo_warning_def])
  have "entitled (mxe_rest demo_mod_env) 9 (mxe_bot demo_mod_env) 7 (WarnUser 6)"
    by (rule moderation_authorized [where roles = "[100]" and admin = False and perms = "{PermModerateMembers, PermBanMembers}" and q = "demo_command ''warn''", OF disjI1, OF conjI [OF h], THEN conjunct2, THEN conjunct2, THEN conjunct2, THEN conjunct1]) (simp_all add: q)
  then show ?thesis using h by (simp add: demo_mod_env_def)
qed

definition demo_ban :: moderation_execution where
  "demo_ban = demo_warning\<lparr> mex_Action := ''ban'' \<rparr>"

lemma demo_confirm:
  "\<exists>s m. confirmModeration 5 1 2 demo_random demo_ban (NewSessionManager 9 9 minute) = (ConfirmationShown s, m) \<and> ses_ID s = ''eHh4eHh4eHh4eHh4'' \<and> ses_ExpiresAt s = 1 + minute"
proof -
  have "b64_encode (replicate 12 (CHR ''x'')) = ''eHh4eHh4eHh4eHh4''" by code_simp
  then show ?thesis
    by (simp add: confirmModeration_def CreateWithTTL_def cleanupLocked_def NewSessionManager_def demo_random_def per_user_def session_Update_def
        demo_ban_def demo_warning_def zero_session_def Let_def)
qed

theorem confirm_roundtrip_witness:
  "\<exists>s m1. handleModeration (\<lambda>_. None) demo_mod_router demo_mod_env 1 2 demo_random (demo_command ''ban'') (NewSessionManager 9 9 minute) demo_cases =
     (ConfirmationShown s, [], m1, demo_cases) \<and>
     moderation_component demo_mod_router demo_mod_env 3 ''sf:v1:eHh4eHh4eHh4eHh4:moderate-confirm''
       \<lparr> cpr_UserID = 7, cpr_GuildID = 9, cpr_ChannelID = 3, cpr_Administrator = False, cpr_Permissions = {PermModerateMembers, PermBanMembers}, cpr_RoleIDs = [100] \<rparr>
       m1 demo_cases = (let (reply, actions, db) = executeModeration demo_mod_env demo_ban demo_cases in (reply, actions, session_Delete (ses_ID s) m1, db))"
proof -
  have ex: "moderationExecutionFromCommand (\<lambda>_. None) (demo_command ''ban'') = Inr demo_ban" by (simp add: demo_execution demo_ban_def demo_warning_def)
  obtain s m1 where c: "confirmModeration 5 1 2 demo_random demo_ban (NewSessionManager 9 9 minute) = (ConfirmationShown s, m1)"
    and s: "ses_ID s = ''eHh4eHh4eHh4eHh4''" "ses_ExpiresAt s = 1 + minute" using demo_confirm by blast
  have q: "mrq_Subcommand (demo_command a) = a" "mrq_UserID (demo_command a) = 7" "mrq_RoleIDs (demo_command a) = [100]" "mrq_Administrator (demo_command a) = False"
    "mrq_Permissions (demo_command a) = {PermModerateMembers, PermBanMembers}" "mrq_GuildID (demo_command a) = 9" "mrq_ChannelID (demo_command a) = 3" for a
    by (simp_all add: demo_command_def)
  have r: "mro_repository demo_mod_router" "mro_moderation demo_mod_router" "mro_ensureErr demo_mod_router = None" "mxe_now demo_mod_env = 5"
    by (simp_all add: demo_mod_router_def demo_mod_env_def)
  have t: "mex_TargetUserID demo_ban = 6" "mex_Action demo_ban = ''ban''" by (simp_all add: demo_ban_def demo_warning_def)
  have h: "handleModeration (\<lambda>_. None) demo_mod_router demo_mod_env 1 2 demo_random (demo_command ''ban'') (NewSessionManager 9 9 minute) demo_cases =
     (ConfirmationShown s, [], m1, demo_cases)"
    unfolding handleModeration_def Let_def q ex using r t demo_allowed c by (simp add: hasNativeModerationPermission_def)
  have cid: "CustomID (ses_ID s) ''moderate-confirm'' = Inr ''sf:v1:eHh4eHh4eHh4eHh4:moderate-confirm''" unfolding s(1) by code_simp
  note b = confirm_roundtrip [OF h cid]
  from b ex have press: "\<forall>r' env' now p db'. now < ses_ExpiresAt s \<longrightarrow> cpr_UserID p = 7 \<longrightarrow> cpr_GuildID p = 9 \<longrightarrow> cpr_ChannelID p = 3 \<longrightarrow>
          authorizedTier (mro_bindings r') (cpr_RoleIDs p) (cpr_Administrator p) ''moderator'' \<longrightarrow>
          hasNativeModerationPermission (cpr_Permissions p) (cpr_Administrator p) ''ban'' \<longrightarrow>
          moderation_component r' env' now ''sf:v1:eHh4eHh4eHh4eHh4:moderate-confirm'' p m1 db' =
            (let (reply, actions, db'') = executeModeration env' demo_ban db' in (reply, actions, session_Delete (ses_ID s) m1, db''))"
    unfolding q by (elim conjE exE) (simp only: sum.inject t)
  show ?thesis
    using h s(2) demo_allowed press by (intro exI [of _ s] exI [of _ m1] conjI) (simp_all add: hasNativeModerationPermission_def)
qed

text \<open>The ban of the example, at a Discord that does not answer in time.\<close>

definition demo_slow_env :: moderation_env where
  "demo_slow_env = demo_mod_env\<lparr> mxe_rest := demo_rest\<lparr> drs_Act := Some ContextDeadline \<rparr>, mxe_ended := True \<rparr>"

lemma demo_slow_ban:
  "fst (ExecuteModeration (mxe_ready demo_slow_env) (mxe_bot demo_slow_env) (mxe_rest demo_slow_env) (demo_ban\<lparr> mex_CaseID := i \<rparr>)) =
     Some (Wrapped ''execute ban'' ContextDeadline)"
  by (simp add: ExecuteModeration_def demo_slow_env_def demo_mod_env_def demo_ban_def demo_warning_def demo_rest_def demo_roles_def requiredDiscordPermission_def
      memberPermissions_def containsID_def highestRolePosition_def target_error_def perform_action_def Let_def)


theorem case_lifecycle_witness:
  "\<exists>y. case_step\<^sup>*\<^sup>* case_start y \<and> map mdc_ID (mdb_cases (csy_db y)) = [1] \<and> distinct (map mdc_ID (mdb_cases (csy_db y)))"
proof -
  define v where "v = \<lparr> mdc_ID = 0, mdc_GuildID = 9, mdc_ModeratorID = 7, mdc_TargetUserID = 6, mdc_TargetChannelID = 0, mdc_TargetMessageID = 0,
      mdc_TargetMessageCreatedAt = 0, mdc_Action = ''warn'', mdc_Reason = ''spam'', mdc_Duration = 0, mdc_DeleteMessageDuration = 0,
      mdc_Status = [], mdc_DMStatus = [], mdc_ErrorCode = [], mdc_CreatedAt = 5, mdc_CompletedAt = 0 \<rparr>"
  have "\<exists>c. fst (CreateModerationCase 5 None v (csy_db case_start)) = Inr c"
    by (simp add: CreateModerationCase_def case_start_def v_def case_admissible_def rune_count_def demo_reason whole_seconds_def Let_def)
  then obtain c db where cr: "CreateModerationCase 5 None v (csy_db case_start) = (Inr c, db)" by (metis prod.collapse)
  obtain row where row: "db = (csy_db case_start)\<lparr> mdb_cases := mdb_cases (csy_db case_start) @ [row], mdb_nextCase := mdb_nextCase (csy_db case_start) + 1 \<rparr>"
    "mdc_ID row = mdb_nextCase (csy_db case_start)" using create_case [OF cr] by metis
  define y where "y = case_start\<lparr> csy_db := db, csy_open := (mdc_ID c, mdc_GuildID c) # csy_open case_start \<rparr>"
  have run: "case_step\<^sup>*\<^sup>* case_start y" unfolding y_def by (rule r_into_rtranclp, rule case_step.create, rule cr)
  have "map mdc_ID (mdb_cases (csy_db y)) = [1]" using row by (simp add: y_def case_start_def)
  moreover have "distinct (map mdc_ID (mdb_cases (csy_db y)))" by (rule case_lifecycle [OF run, THEN conjunct1])
  ultimately show ?thesis using run by (intro exI [of _ y] conjI)
qed

end
