(* ===== verification/Metar.thy ===== *)
theory Metar
  imports Aircraft_Sources
begin

text \<open>
  The reading of a METAR (\<open>internal/weather/aviationweather/metar.go\<close>): the groups of the report,
  one token after the other, and the flight category. The regular expressions of the source are
  written out as functions that return their captures; \<open>strconv.ParseFloat\<close> on digits is the decimal
  value, out of range from where a \<open>float64\<close> is infinite.
\<close>

section \<open>The observation\<close>

record cloud_layer =
  cl_Cover :: string
  cl_BaseFeet :: int
  cl_HasBase :: bool

record observation =
  wo_RequestedICAO :: string
  wo_ReportingICAO :: string
  wo_StationStatus :: string
  wo_StationDistanceNM :: real
  wo_HasStationDistance :: bool
  wo_METAR :: string
  wo_TAF :: string
  wo_FlightCategory :: string
  wo_METARStatus :: string
  wo_TAFStatus :: string
  wo_ObservedAt :: time
  wo_FetchedAt :: time
  wo_Attribution :: string
  wo_Stale :: bool
  wo_WindDirectionDegrees :: int
  wo_WindVariable :: bool
  wo_WindSpeedKts :: int
  wo_WindGustKts :: int
  wo_HasWind :: bool
  wo_VisibilitySM :: real
  wo_VisibilityAtLeast :: bool
  wo_VisibilityLessThan :: bool
  wo_HasVisibility :: bool
  wo_TemperatureC :: int
  wo_DewpointC :: int
  wo_HasTemperature :: bool
  wo_HasDewpoint :: bool
  wo_AltimeterInHg :: real
  wo_HasAltimeter :: bool
  wo_Clouds :: "cloud_layer list"
  wo_Conditions :: "string list"

definition blank_observation :: observation where
  "blank_observation = \<lparr> wo_RequestedICAO = [], wo_ReportingICAO = [], wo_StationStatus = [], wo_StationDistanceNM = 0, wo_HasStationDistance = False,
     wo_METAR = [], wo_TAF = [], wo_FlightCategory = [], wo_METARStatus = [], wo_TAFStatus = [], wo_ObservedAt = time_zero, wo_FetchedAt = time_zero,
     wo_Attribution = [], wo_Stale = False, wo_WindDirectionDegrees = 0, wo_WindVariable = False, wo_WindSpeedKts = 0, wo_WindGustKts = 0, wo_HasWind = False,
     wo_VisibilitySM = 0, wo_VisibilityAtLeast = False, wo_VisibilityLessThan = False, wo_HasVisibility = False,
     wo_TemperatureC = 0, wo_DewpointC = 0, wo_HasTemperature = False, wo_HasDewpoint = False, wo_AltimeterInHg = 0, wo_HasAltimeter = False,
     wo_Clouds = [], wo_Conditions = [] \<rparr>"

section \<open>Tokens\<close>

text \<open>\<open>strings.Fields\<close>; \<open>cur\<close> is the word that has begun.\<close>

function (sequential) fields_from :: "string \<Rightarrow> string \<Rightarrow> string list" where
  "fields_from cur [] = (if cur = [] then [] else [cur])"
| "fields_from cur (c # s) =
     (let n = lead_space space_codes (c # s) in
      if n > 0 then (if cur = [] then [] else [cur]) @ fields_from [] (drop n (c # s))
      else fields_from (cur @ [c]) s)"
  by pat_completeness auto
termination
  by (relation "measure (length \<circ> snd)") auto

declare fields_from.simps [simp del]

definition strings_Fields :: "string \<Rightarrow> string list" where
  "strings_Fields s = fields_from [] s"

definition cut_prefix :: "string \<Rightarrow> string \<Rightarrow> string option" where
  "cut_prefix p s = (if prefix p s then Some (drop (length p) s) else None)"

definition cut_suffix :: "string \<Rightarrow> string \<Rightarrow> string option" where
  "cut_suffix p s = (if suffix p s then Some (take (length s - length p) s) else None)"

text \<open>\<open>strings.TrimPrefix\<close>.\<close>

definition trim_prefix :: "string \<Rightarrow> string \<Rightarrow> string" where
  "trim_prefix p s = (if prefix p s then drop (length p) s else s)"

definition digits_between :: "nat \<Rightarrow> nat \<Rightarrow> string \<Rightarrow> bool" where
  "digits_between low high s \<longleftrightarrow> low \<le> length s \<and> length s \<le> high \<and> list_all digit s"

text \<open>The wind: direction, speed and gust, empty when there is none.\<close>

definition match_wind :: "string \<Rightarrow> (string \<times> string \<times> string) option" where
  "match_wind token =
     (let direction = take 3 token;
          rest = drop 3 token;
          speed = takeWhile digit rest;
          tail = dropWhile digit rest
      in if \<not> (direction = ''VRB'' \<or> digits_between 3 3 direction) \<or> \<not> digits_between 2 3 speed then None
         else if tail = ''KT'' then Some (direction, speed, [])
         else if prefix ''G'' tail \<and> digits_between 2 3 (takeWhile digit (tl tail)) \<and> dropWhile digit (tl tail) = ''KT''
         then Some (direction, speed, takeWhile digit (tl tail))
         else None)"

definition plain_decimal :: "string \<Rightarrow> bool" where
  "plain_decimal s \<longleftrightarrow>
     (let tail = dropWhile digit s in
      takeWhile digit s \<noteq> [] \<and> (tail = [] \<or> hd tail = CHR ''.'' \<and> asciiDigits (tl tail)))"

definition plain_fraction :: "string \<Rightarrow> bool" where
  "plain_fraction s \<longleftrightarrow>
     (let tail = dropWhile digit s in
      takeWhile digit s \<noteq> [] \<and> tail \<noteq> [] \<and> hd tail = CHR ''/'' \<and> asciiDigits (tl tail))"

text \<open>The visibility: the sign and the number.\<close>

definition match_visibility :: "string \<Rightarrow> (string \<times> string) option" where
  "match_visibility token =
     (case cut_suffix ''SM'' token of
        None \<Rightarrow> None
      | Some body \<Rightarrow>
          let sign = (if prefix ''M'' body \<or> prefix ''P'' body then take 1 body else []);
              number = drop (length sign) body
          in if plain_decimal number \<or> plain_fraction number then Some (sign, number) else None)"

definition signed_pair :: "string \<Rightarrow> bool" where
  "signed_pair s \<longleftrightarrow> digits_between 2 2 (trim_prefix ''M'' s)"

definition match_temperature :: "string \<Rightarrow> (string \<times> string) option" where
  "match_temperature token =
     (let left = takeWhile (\<lambda>c. c \<noteq> CHR ''/'') token;
          right = drop (length left + 1) token
      in if length left < length token \<and> signed_pair left \<and> (signed_pair right \<or> right = ''//'') then Some (left, right) else None)"

definition match_altimeter :: "string \<Rightarrow> string option" where
  "match_altimeter token =
     (case cut_prefix ''A'' token of None \<Rightarrow> None | Some digits \<Rightarrow> if digits_between 4 4 digits then Some digits else None)"

definition match_cloud :: "string \<Rightarrow> (string \<times> string) option" where
  "match_cloud token =
     (let cover = (if prefix ''VV'' token then ''VV'' else take 3 token);
          base = take 3 (drop (length cover) token);
          tail = drop 3 (drop (length cover) token)
      in if cover \<in> {''FEW'', ''SCT'', ''BKN'', ''OVC'', ''VV''} \<and> (digits_between 3 3 base \<or> base = ''///'') \<and> tail \<in> {[], ''CB'', ''TCU''}
         then Some (cover, base) else None)"

section \<open>Values\<close>

definition decimal_value :: "string \<Rightarrow> real" where
  "decimal_value s =
     (let whole = takeWhile digit s; fraction = drop 1 (dropWhile digit s)
      in real (digits_value whole) + real (digits_value fraction) / 10 ^ length fraction)"

definition parse_decimal :: "string \<Rightarrow> real option" where
  "parse_decimal s = (if decimal_value s < 2 ^ 1024 - 2 ^ 970 then Some (decimal_value s) else None)"

definition parseVisibility :: "string \<Rightarrow> real option" where
  "parseVisibility value =
     (if CHR ''/'' \<in> set value then
        (let numerator = takeWhile (\<lambda>c. c \<noteq> CHR ''/'') value;
             denominator = drop (length numerator + 1) value
         in case (parse_decimal numerator, parse_decimal denominator) of
              (Some left, Some right) \<Rightarrow> if right > 0 then Some (left / right) else None
            | _ \<Rightarrow> None)
      else parse_decimal value)"

definition signedMETARNumber :: "string \<Rightarrow> int option" where
  "signedMETARNumber value0 =
     (if value0 = ''//'' then None
      else
        let value = trim_prefix ''M'' value0 in
        if \<not> asciiDigits value then None
        else Some (if prefix ''M'' value0 then - int (digits_value value) else int (digits_value value)))"

definition conditionLabels :: "(string, string) gomap" where
  "conditionLabels =
     [(''DZ'', ''drizzle''), (''RA'', ''rain''), (''SN'', ''snow''), (''SG'', ''snow grains''), (''IC'', ''ice crystals''),
      (''PL'', ''ice pellets''), (''GR'', ''hail''), (''GS'', ''small hail''), (''UP'', ''unknown precipitation''),
      (''BR'', ''mist''), (''FG'', ''fog''), (''FU'', ''smoke''), (''VA'', ''volcanic ash''), (''DU'', ''dust''), (''SA'', ''sand''), (''HZ'', ''haze''),
      (''PO'', ''dust whirls''), (''SQ'', ''squalls''), (''FC'', ''funnel cloud''), (''SS'', ''sandstorm''), (''DS'', ''dust storm''), (''TS'', ''thunderstorms'')]"

text \<open>The loop over pairs of bytes.\<close>

fun condition_pairs :: "string \<Rightarrow> string \<Rightarrow> string" where
  "condition_pairs intensity (a # b # rest) =
     (case map_of conditionLabels [a, b] of Some label \<Rightarrow> intensity @ label | None \<Rightarrow> condition_pairs intensity rest)"
| "condition_pairs intensity _ = []"

definition weatherCondition :: "string \<Rightarrow> string" where
  "weatherCondition token =
     (let intensity = (if prefix ''-'' token then ''light '' else if prefix ''+'' token then ''heavy '' else []);
          value = trim_prefix ''+'' (trim_prefix ''-'' token)
      in condition_pairs intensity (fold trim_prefix [''MI'', ''PR'', ''BC'', ''DR'', ''BL'', ''SH'', ''FZ''] value))"

definition appendUnique :: "string list \<Rightarrow> string \<Rightarrow> string list" where
  "appendUnique vs v = (if list_ex (\<lambda>existing. existing = v) vs then vs else vs @ [v])"

definition add_condition :: "string \<Rightarrow> string list \<Rightarrow> string list" where
  "add_condition token vs = (let label = weatherCondition token in if label \<noteq> [] then appendUnique vs label else vs)"

definition lower_ceiling :: "cloud_layer \<Rightarrow> int \<Rightarrow> int" where
  "lower_ceiling layer lowest =
     (if cl_HasBase layer \<and> (cl_Cover layer = ''BKN'' \<or> cl_Cover layer = ''OVC'' \<or> cl_Cover layer = ''VV'') \<and> cl_BaseFeet layer < lowest
      then cl_BaseFeet layer else lowest)"

definition inferFlightCategory :: "observation \<Rightarrow> string" where
  "inferFlightCategory ob =
     (let lowest = fold lower_ceiling (wo_Clouds ob) 100000;
          visibility = (if wo_HasVisibility ob then wo_VisibilitySM ob else 100)
      in if visibility < 1 \<or> lowest < 500 then ''LIFR''
         else if visibility < 3 \<or> lowest < 1000 then ''IFR''
         else if visibility \<le> 5 \<or> lowest \<le> 3000 then ''MVFR''
         else ''VFR'')"

section \<open>The report\<close>

definition set_wind :: "string \<Rightarrow> string \<Rightarrow> string \<Rightarrow> observation \<Rightarrow> observation" where
  "set_wind direction speed gust ob =
     ob\<lparr> wo_HasWind := True, wo_WindVariable := (direction = ''VRB''),
        wo_WindDirectionDegrees := (if direction = ''VRB'' then wo_WindDirectionDegrees ob else int (digits_value direction)),
        wo_WindSpeedKts := int (digits_value speed), wo_WindGustKts := int (digits_value gust) \<rparr>"

definition set_visibility :: "string \<Rightarrow> real \<Rightarrow> observation \<Rightarrow> observation" where
  "set_visibility sign value ob =
     ob\<lparr> wo_HasVisibility := True, wo_VisibilityAtLeast := (sign = ''P''), wo_VisibilityLessThan := (sign = ''M''), wo_VisibilitySM := value \<rparr>"

definition set_temperature :: "string \<Rightarrow> string \<Rightarrow> observation \<Rightarrow> observation" where
  "set_temperature temperature dewpoint ob =
     (let ob1 = (case signedMETARNumber temperature of Some v \<Rightarrow> ob\<lparr> wo_TemperatureC := v, wo_HasTemperature := True \<rparr> | None \<Rightarrow> ob)
      in case signedMETARNumber dewpoint of Some v \<Rightarrow> ob1\<lparr> wo_DewpointC := v, wo_HasDewpoint := True \<rparr> | None \<Rightarrow> ob1)"

definition cloud_of :: "string \<Rightarrow> string \<Rightarrow> cloud_layer" where
  "cloud_of cover base =
     (if base = ''///'' then \<lparr> cl_Cover = cover, cl_BaseFeet = 0, cl_HasBase = False \<rparr>
      else \<lparr> cl_Cover = cover, cl_BaseFeet = int (digits_value base) * 100, cl_HasBase = True \<rparr>)"

text \<open>A whole number of miles whose fraction is the next token.\<close>

definition mixed_visibility :: "string \<Rightarrow> string list \<Rightarrow> (string \<times> real) option" where
  "mixed_visibility token later =
     (if asciiDigits token \<and> later \<noteq> [] then
        (case match_visibility (hd later) of
           Some (sign, number) \<Rightarrow>
             if CHR ''/'' \<in> set number then
               (case (parse_decimal token, parseVisibility number) of (Some whole, Some fraction) \<Rightarrow> Some (sign, whole + fraction) | _ \<Rightarrow> None)
             else None
         | None \<Rightarrow> None)
      else None)"

text \<open>A token that is neither a wind nor such a whole number.\<close>

definition metar_token :: "string \<Rightarrow> observation \<Rightarrow> observation" where
  "metar_token token ob =
     (case match_visibility token of
        Some (sign, number) \<Rightarrow> (case parseVisibility number of Some value \<Rightarrow> set_visibility sign value ob | None \<Rightarrow> ob)
      | None \<Rightarrow>
          (case match_temperature token of
             Some (temperature, dewpoint) \<Rightarrow> set_temperature temperature dewpoint ob
           | None \<Rightarrow>
               (case match_altimeter token of
                  Some digits \<Rightarrow> ob\<lparr> wo_AltimeterInHg := real (digits_value digits) / 100, wo_HasAltimeter := True \<rparr>
                | None \<Rightarrow>
                    (case match_cloud token of
                       Some (cover, base) \<Rightarrow> ob\<lparr> wo_Clouds := wo_Clouds ob @ [cloud_of cover base] \<rparr>
                     | None \<Rightarrow> ob\<lparr> wo_Conditions := add_condition token (wo_Conditions ob) \<rparr>))))"

function metar_tokens :: "string list \<Rightarrow> observation \<Rightarrow> observation" where
  "metar_tokens [] ob = ob"
| "metar_tokens (token # later) ob =
     (case match_wind token of
        Some (direction, speed, gust) \<Rightarrow> metar_tokens later (set_wind direction speed gust ob)
      | None \<Rightarrow>
          (case mixed_visibility token later of
             Some (sign, value) \<Rightarrow> metar_tokens (tl later) (set_visibility sign value ob)
           | None \<Rightarrow> metar_tokens later (metar_token token ob)))"
  by pat_completeness auto
termination
  by (relation "measure (length \<circ> fst)") auto

declare metar_tokens.simps [simp del]

definition populateMETAR :: "observation \<Rightarrow> observation" where
  "populateMETAR ob =
     (if trim_space (wo_METAR ob) = [] then ob
      else
        let ob1 = metar_tokens (strings_Fields (to_upper (wo_METAR ob))) ob
        in if wo_FlightCategory ob1 = [] then ob1\<lparr> wo_FlightCategory := inferFlightCategory ob1 \<rparr> else ob1)"

end
