(* ===== verification/Weather.thy ===== *)
theory Weather
  imports Metar Enrichment_Cache Geo
begin

text \<open>
  The client of aviationweather.gov (\<open>internal/weather/aviationweather/client.go\<close>): from the reply of
  the network to an observation, the search for a reporting station, the bounded cache with its
  stale values, and a lookup. The JSON decoder, \<open>strconv.ParseFloat\<close> (its finite values) and
  \<open>time.Parse\<close> are parameters, the answers to requests and the clock an environment; the
  environment also holds what other goroutines do to the client between two critical sections.
  The map and the list of the cache, which are changed together, are one list of entries, most
  recently used first.
\<close>

section \<open>Replies of the network\<close>

record cloud_dto =
  wl_Cover :: string
  wl_Base :: "real option"

record response_dto =
  wd_ICAOID :: string
  wd_RawObservation :: string
  wd_RawTAF :: string
  wd_ReportTime :: string
  wd_FlightCategory :: string
  wd_Temperature :: "real option"
  wd_Dewpoint :: "real option"
  wd_WindDirection :: string
  wd_WindSpeed :: "real option"
  wd_WindGust :: "real option"
  wd_Visibility :: string
  wd_Altimeter :: "real option"
  wd_Weather :: string
  wd_Clouds :: "cloud_dto list"
  wd_Latitude :: "real option"
  wd_Longitude :: "real option"

record airport_dto =
  wa_ICAOID :: string
  wa_Latitude :: "real option"
  wa_Longitude :: "real option"

definition zero_dto :: response_dto where
  "zero_dto = \<lparr> wd_ICAOID = [], wd_RawObservation = [], wd_RawTAF = [], wd_ReportTime = [], wd_FlightCategory = [], wd_Temperature = None,
     wd_Dewpoint = None, wd_WindDirection = [], wd_WindSpeed = None, wd_WindGust = None, wd_Visibility = [], wd_Altimeter = None, wd_Weather = [],
     wd_Clouds = [], wd_Latitude = None, wd_Longitude = None \<rparr>"

text \<open>
  One request; \<open>limited\<close> is the error of the wait for the rate limit. \<open>None\<close>: no content. What a
  decoder of the stream finds: the first value, what follows it (\<open>None\<close> for the end), and whether
  more was there than may be read.
\<close>

datatype after_value = AtEnd | AnotherValue | Broken go_error

record 'a weather_decode =
  wj_Value :: "go_error + 'a"
  wj_Next :: after_value
  wj_Exhausted :: bool

text \<open>An error of the transport; its text is kept, the error itself is not, so nothing finds it again. The
  text is left out here.\<close>

definition sanitizeError :: "go_error \<Rightarrow> go_error" where
  "sanitizeError e = Plain ''aviation weather request failed''"

definition weather_fetchJSON :: "(string \<Rightarrow> 'a weather_decode) \<Rightarrow> go_error option \<Rightarrow> http_reply \<Rightarrow> go_error + 'a option" where
  "weather_fetchJSON decode limited reply =
     (case limited of Some e \<Rightarrow> Inl e
      | None \<Rightarrow>
          (case reply of
             BadRequest e \<Rightarrow> Inl e
           | NoResponse e \<Rightarrow> Inl (sanitizeError e)
           | Response r \<Rightarrow>
               if ht_Code r = 204 then Inr None
               else if ht_Code r < 200 \<or> ht_Code r \<ge> 300 then Inl (Plain (''aviation weather returned HTTP '' @ format_int (ht_Code r)))
               else
                 let d = decode (take (2 ^ 20 + 1) (ht_Body r)) in
                 (case wj_Value d of
                    Inl e \<Rightarrow> Inl (Wrapped ''decode aviation weather response'' e)
                  | Inr payload \<Rightarrow>
                      (case wj_Next d of
                         AnotherValue \<Rightarrow> Inl (Plain ''decode aviation weather response: multiple JSON values'')
                       | Broken e \<Rightarrow> Inl (Wrapped ''decode aviation weather response'' e)
                       | AtEnd \<Rightarrow>
                           if wj_Exhausted d then Inl (Plain ''aviation weather response exceeds 1048576 bytes'') else Inr (Some payload)))))"

text \<open>\<open>fetch\<close> and \<open>fetchAirports\<close>.\<close>

definition weather_fetch :: "go_error + 'a list option \<Rightarrow> go_error + 'a list" where
  "weather_fetch r = (case r of Inl e \<Rightarrow> Inl e | Inr None \<Rightarrow> Inr [] | Inr (Some rows) \<Rightarrow> Inr rows)"

text \<open>The limit of two requests at once and one a second.\<close>

definition weather_bucket :: "time \<Rightarrow> token_bucket" where
  "weather_bucket now = \<lparr> tb_rate = 1, tb_burst = 2, tb_tokens = 2, tb_last = now \<rparr>"

section \<open>From a reply to an observation\<close>

definition round_int :: "real \<Rightarrow> int" where
  "round_int x = int_of_float (of_int (if x \<ge> 0 then \<lfloor>x + 1 / 2\<rfloor> else - \<lfloor>1 / 2 - x\<rfloor>))"

definition trim_quotes :: "string \<Rightarrow> string" where
  "trim_quotes s = rev (dropWhile (\<lambda>c. c = CHR ''\"'') (rev (dropWhile (\<lambda>c. c = CHR ''\"'') s)))"

definition trim_suffix :: "string \<Rightarrow> string \<Rightarrow> string" where
  "trim_suffix p s = (if suffix p s then take (length s - length p) s else s)"

definition flexibleNumber :: "(string \<Rightarrow> real option) \<Rightarrow> string \<Rightarrow> real option \<times> string" where
  "flexibleNumber ParseFloat raw =
     (let body = trim_space (trim_quotes raw) in
      if body = [] \<or> body = ''null'' then (None, body)
      else (ParseFloat (trim_prefix ''M'' (trim_prefix ''P'' (trim_suffix ''+'' body))), body))"

definition typed_temperature :: "response_dto \<Rightarrow> observation \<Rightarrow> observation" where
  "typed_temperature dto ob =
     (let ob1 = (case wd_Temperature dto of Some t \<Rightarrow> ob\<lparr> wo_TemperatureC := round_int t, wo_HasTemperature := True \<rparr> | None \<Rightarrow> ob)
      in case wd_Dewpoint dto of Some t \<Rightarrow> ob1\<lparr> wo_DewpointC := round_int t, wo_HasDewpoint := True \<rparr> | None \<Rightarrow> ob1)"

definition typed_wind :: "(string \<Rightarrow> real option) \<Rightarrow> response_dto \<Rightarrow> observation \<Rightarrow> observation" where
  "typed_wind ParseFloat dto ob =
     (let ob1 = (case fst (flexibleNumber ParseFloat (wd_WindDirection dto)) of
                   Some direction \<Rightarrow> ob\<lparr> wo_WindDirectionDegrees := round_int direction, wo_WindVariable := False, wo_HasWind := True \<rparr>
                 | None \<Rightarrow>
                     if to_upper (trim_quotes (wd_WindDirection dto)) = ''VRB'' then ob\<lparr> wo_WindVariable := True, wo_HasWind := True \<rparr> else ob);
          ob2 = (case wd_WindSpeed dto of Some v \<Rightarrow> ob1\<lparr> wo_WindSpeedKts := round_int v, wo_HasWind := True \<rparr> | None \<Rightarrow> ob1)
      in case wd_WindGust dto of Some v \<Rightarrow> ob2\<lparr> wo_WindGustKts := round_int v, wo_HasWind := True \<rparr> | None \<Rightarrow> ob2)"

definition typed_visibility :: "(string \<Rightarrow> real option) \<Rightarrow> response_dto \<Rightarrow> observation \<Rightarrow> observation" where
  "typed_visibility ParseFloat dto ob =
     (case flexibleNumber ParseFloat (wd_Visibility dto) of
        (Some v, body) \<Rightarrow>
          ob\<lparr> wo_VisibilitySM := v, wo_VisibilityAtLeast := suffix ''+'' body \<or> prefix ''P'' (to_upper body),
             wo_VisibilityLessThan := prefix ''M'' (to_upper body), wo_HasVisibility := True \<rparr>
      | (None, _) \<Rightarrow> ob)"

definition typed_altimeter :: "response_dto \<Rightarrow> observation \<Rightarrow> observation" where
  "typed_altimeter dto ob =
     (case wd_Altimeter dto of
        None \<Rightarrow> ob
      | Some v \<Rightarrow>
          if v \<ge> 800 \<and> v \<le> 1100 then ob\<lparr> wo_AltimeterInHg := v / (338638866667 / 10000000000), wo_HasAltimeter := True \<rparr>
          else if v \<ge> 20 \<and> v \<le> 40 then ob\<lparr> wo_AltimeterInHg := v, wo_HasAltimeter := True \<rparr>
          else ob)"

definition typed_cloud :: "cloud_dto \<Rightarrow> cloud_layer" where
  "typed_cloud c =
     \<lparr> cl_Cover = to_upper (trim_space (wl_Cover c)), cl_BaseFeet = (case wl_Base c of Some b \<Rightarrow> round_int b | None \<Rightarrow> 0), cl_HasBase = wl_Base c \<noteq> None \<rparr>"

definition typed_clouds :: "response_dto \<Rightarrow> observation \<Rightarrow> observation" where
  "typed_clouds dto ob = (if wd_Clouds dto \<noteq> [] then ob\<lparr> wo_Clouds := map typed_cloud (wd_Clouds dto) \<rparr> else ob)"

definition typed_conditions :: "response_dto \<Rightarrow> observation \<Rightarrow> observation" where
  "typed_conditions dto ob =
     (if trim_space (wd_Weather dto) \<noteq> [] then ob\<lparr> wo_Conditions := fold add_condition (strings_Fields (to_upper (wd_Weather dto))) [] \<rparr> else ob)"

definition typed_category :: "response_dto \<Rightarrow> observation \<Rightarrow> observation" where
  "typed_category dto ob =
     (let category = to_upper (trim_space (wd_FlightCategory dto)) in
      if category \<noteq> [] then ob\<lparr> wo_FlightCategory := category \<rparr> else ob\<lparr> wo_FlightCategory := inferFlightCategory ob \<rparr>)"

definition applyTypedMETAR :: "(string \<Rightarrow> real option) \<Rightarrow> response_dto \<Rightarrow> observation \<Rightarrow> observation" where
  "applyTypedMETAR ParseFloat dto ob =
     typed_category dto (typed_conditions dto (typed_clouds dto (typed_altimeter dto
       (typed_visibility ParseFloat dto (typed_wind ParseFloat dto (typed_temperature dto ob))))))"

section \<open>Stations\<close>

record station_resolution =
  sn_Requested :: string
  sn_Reporting :: string
  sn_Status :: string
  sn_Distance :: real
  sn_HasData :: bool
  sn_METAR :: response_dto

abbreviation (input) attribution :: string where "attribution \<equiv> ''Weather by aviationweather.gov''"

definition observationFromDTO ::
    "(string \<Rightarrow> real option) \<Rightarrow> (string \<Rightarrow> time option) \<Rightarrow> string \<Rightarrow> station_resolution \<Rightarrow> time \<Rightarrow> observation" where
  "observationFromDTO ParseFloat ParseTime requested resolution fetchedAt =
     (let dto = sn_METAR resolution;
          ob = applyTypedMETAR ParseFloat dto (populateMETAR (blank_observation\<lparr>
                 wo_RequestedICAO := requested, wo_ReportingICAO := sn_Reporting resolution, wo_StationStatus := sn_Status resolution,
                 wo_StationDistanceNM := sn_Distance resolution, wo_HasStationDistance := True,
                 wo_METAR := trim_space (wd_RawObservation dto), wo_FlightCategory := to_upper (trim_space (wd_FlightCategory dto)),
                 wo_METARStatus := ''available'', wo_FetchedAt := fetchedAt, wo_Attribution := attribution \<rparr>))
      in case ParseTime (wd_ReportTime dto) of Some at' \<Rightarrow> ob\<lparr> wo_ObservedAt := at' \<rparr> | None \<Rightarrow> ob)"

definition distanceNM :: "real \<Rightarrow> real \<Rightarrow> real \<Rightarrow> real \<Rightarrow> real" where
  "distanceNM latitude1 lon1 latitude2 lon2 =
     (let lat1 = latitude1 * (pi / 180);
          lat2 = latitude2 * (pi / 180);
          deltaLat = lat2 - lat1;
          deltaLon = (lon2 - lon1) * (pi / 180);
          a = sin (deltaLat / 2) * sin (deltaLat / 2) + cos lat1 * cos lat2 * sin (deltaLon / 2) * sin (deltaLon / 2)
      in 2 * (3440065 / 1000) * atan2 (sqrt a) (sqrt (1 - a)))"

definition max_float64 :: real where
  "max_float64 = (2 - 1 / 2 ^ 52) * 2 ^ 1023"

definition unavailable_station :: "string \<Rightarrow> string \<Rightarrow> station_resolution" where
  "unavailable_station requested reporting =
     \<lparr> sn_Requested = requested, sn_Reporting = reporting, sn_Status = ''unavailable'', sn_Distance = 0, sn_HasData = False, sn_METAR = zero_dto \<rparr>"

text \<open>One round of the loop of \<open>nearestStation\<close>, with the best distance so far.\<close>

definition nearer_station ::
    "(string \<Rightarrow> time option) \<Rightarrow> string \<Rightarrow> real \<Rightarrow> real \<Rightarrow> time \<Rightarrow> response_dto \<Rightarrow> real \<times> station_resolution \<Rightarrow> real \<times> station_resolution" where
  "nearer_station ParseTime requested latitude longitude now row = (\<lambda>(best, result).
     (case (wd_Latitude row, wd_Longitude row) of
        (Some la, Some lo) \<Rightarrow>
          if trim_space (wd_RawObservation row) = [] then (best, result)
          else if (case ParseTime (wd_ReportTime row) of Some t \<Rightarrow> time_sub now t > 2 * hour | None \<Rightarrow> False) then (best, result)
          else
            let distance = distanceNM latitude longitude la lo in
            if distance > 25 \<or> distance \<ge> best then (best, result)
            else (distance,
              \<lparr> sn_Requested = requested, sn_Reporting = to_upper (trim_space (wd_ICAOID row)), sn_Status = (if distance \<le> 1 / 4 then ''alias'' else ''nearby''),
                sn_Distance = distance, sn_HasData = True, sn_METAR = row \<rparr>)
      | _ \<Rightarrow> (best, result)))"

definition nearestStation ::
    "(string \<Rightarrow> time option) \<Rightarrow> string \<Rightarrow> real \<Rightarrow> real \<Rightarrow> response_dto list \<Rightarrow> time \<Rightarrow> station_resolution" where
  "nearestStation ParseTime requested latitude longitude rows now =
     snd (fold (nearer_station ParseTime requested latitude longitude now) rows (max_float64, unavailable_station requested requested))"

section \<open>The cache and the stations\<close>

record cached_observation =
  wc_Value :: "go_error + observation"
  wc_Expires :: time
  wc_StaleExpires :: time

record station_cache =
  wk_Station :: station_resolution
  wk_Expires :: time

record weather_client =
  wx_ttl :: duration
  wx_max :: nat
  wx_cache :: "(string \<times> cached_observation) list"
  wx_stations :: "(string, station_cache) gomap"

definition weather_NewClient :: weather_client where
  "weather_NewClient = \<lparr> wx_ttl = 10 * minute, wx_max = 500, wx_cache = [], wx_stations = gm_empty \<rparr>"

definition move_front :: "string \<Rightarrow> cached_observation \<Rightarrow> weather_client \<Rightarrow> weather_client" where
  "move_front code entry c = c\<lparr> wx_cache := (code, entry) # AList.delete code (wx_cache c) \<rparr>"

definition weather_cached :: "time \<Rightarrow> string \<Rightarrow> weather_client \<Rightarrow> (go_error + observation) option \<times> weather_client" where
  "weather_cached now code c =
     (case map_of (wx_cache c) code of
        None \<Rightarrow> (None, c)
      | Some entry \<Rightarrow>
          if \<not> now < wc_Expires entry then
            (if now < wc_StaleExpires entry then (None, c) else (None, c\<lparr> wx_cache := AList.delete code (wx_cache c) \<rparr>))
          else (Some (wc_Value entry), move_front code entry c))"

definition weather_stale :: "time \<Rightarrow> string \<Rightarrow> weather_client \<Rightarrow> observation option \<times> weather_client" where
  "weather_stale now code c =
     (case map_of (wx_cache c) code of
        None \<Rightarrow> (None, c)
      | Some entry \<Rightarrow>
          (case wc_Value entry of
             Inl _ \<Rightarrow> (None, c)
           | Inr v \<Rightarrow>
               if wo_METAR v = [] \<or> \<not> now < wc_StaleExpires entry then (None, c)
               else (Some (v\<lparr> wo_Stale := True \<rparr>), move_front code entry c)))"

definition staleExpiry :: "time \<Rightarrow> bool \<Rightarrow> duration \<Rightarrow> time" where
  "staleExpiry now failed ttl = (if failed then now + ttl else now + (ttl + 30 * minute))"

text \<open>The loop that removes from the back, on the list: the oldest entries beyond the maximum go.\<close>

definition weather_store :: "time \<Rightarrow> string \<Rightarrow> go_error + observation \<Rightarrow> duration \<Rightarrow> weather_client \<Rightarrow> weather_client" where
  "weather_store now code v ttl c =
     (let entry = \<lparr> wc_Value = v, wc_Expires = now + ttl, wc_StaleExpires = staleExpiry now (isl v) ttl \<rparr> in
      if map_of (wx_cache c) code \<noteq> None then move_front code entry c
      else c\<lparr> wx_cache := take (wx_max c) ((code, entry) # wx_cache c) \<rparr>)"

definition weather_CacheLen :: "weather_client \<Rightarrow> nat" where
  "weather_CacheLen c = length (wx_cache c)"

definition cachedStation :: "time \<Rightarrow> string \<Rightarrow> weather_client \<Rightarrow> station_resolution option \<times> weather_client" where
  "cachedStation now code c =
     (case map_of (wx_stations c) code of
        None \<Rightarrow> (None, c\<lparr> wx_stations := AList.delete code (wx_stations c) \<rparr>)
      | Some entry \<Rightarrow>
          if \<not> now < wk_Expires entry then (None, c\<lparr> wx_stations := AList.delete code (wx_stations c) \<rparr>)
          else (Some (wk_Station entry), c))"

definition storeStation :: "time \<Rightarrow> string \<Rightarrow> station_resolution \<Rightarrow> duration \<Rightarrow> weather_client \<Rightarrow> weather_client" where
  "storeStation now code resolution ttl c =
     (let kept = (if length (wx_stations c) \<ge> wx_max c then tl (wx_stations c) else wx_stations c)
      in c\<lparr> wx_stations := AList.update code \<lparr> wk_Station = resolution, wk_Expires = now + ttl \<rparr> kept \<rparr>)"

definition deleteStation :: "string \<Rightarrow> weather_client \<Rightarrow> weather_client" where
  "deleteStation code c = c\<lparr> wx_stations := AList.delete code (wx_stations c) \<rparr>"

section \<open>A lookup\<close>

text \<open>
  The environment: the reading of the clock at each point, what other goroutines have done by
  then, and the answers: to a refresh of a known station, for a station, for the airports, for a
  box of latitudes and longitudes, and for the forecast.
\<close>

record weather_env =
  wv_clock :: "nat \<Rightarrow> time"
  wv_others :: "nat \<Rightarrow> weather_client \<Rightarrow> weather_client"
  wv_ParseFloat :: "string \<Rightarrow> real option"
  wv_ParseTime :: "string \<Rightarrow> time option"
  wv_refresh :: "string \<Rightarrow> go_error + response_dto list"
  wv_metar :: "string \<Rightarrow> go_error + response_dto list"
  wv_airport :: "string \<Rightarrow> string \<Rightarrow> go_error + airport_dto list"
  wv_nearby :: "real \<times> real \<times> real \<times> real \<Rightarrow> go_error + response_dto list"
  wv_taf :: "string \<Rightarrow> go_error + response_dto list"

abbreviation (input) defaultNegativeTTL :: duration where "defaultNegativeTTL \<equiv> 5 * minute"
abbreviation (input) defaultErrorTTL :: duration where "defaultErrorTTL \<equiv> minute"
abbreviation (input) defaultStationTTL :: duration where "defaultStationTTL \<equiv> 24 * hour"

definition first_nonblank :: "string \<Rightarrow> string \<Rightarrow> string" where
  "first_nonblank a b = (if trim_space a \<noteq> [] then trim_space a else trim_space b)"

fun airport_position :: "weather_env \<Rightarrow> string \<Rightarrow> string list \<Rightarrow> go_error + (real \<times> real) option" where
  "airport_position env requested [] = Inr None"
| "airport_position env requested (kind # kinds) =
     (case wv_airport env kind requested of
        Inl e \<Rightarrow> Inl e
      | Inr rows \<Rightarrow>
          (case rows of
             row # _ \<Rightarrow>
               (case (wa_Latitude row, wa_Longitude row) of
                  (Some la, Some lo) \<Rightarrow> Inr (Some (la, lo))
                | _ \<Rightarrow> airport_position env requested kinds)
           | [] \<Rightarrow> airport_position env requested kinds))"

definition airportPosition :: "weather_env \<Rightarrow> string \<Rightarrow> go_error + (real \<times> real) option" where
  "airportPosition env requested = airport_position env requested [''airport'', ''stationinfo'']"

definition nearby_box :: "real \<Rightarrow> real \<Rightarrow> real \<times> real \<times> real \<times> real" where
  "nearby_box latitude longitude =
     (let latDelta = 25 / 60;
          lonScale = max (cos (latitude * pi / 180)) (1 / 10);
          lonDelta = 25 / (60 * lonScale)
      in (latitude - latDelta, longitude - lonDelta, latitude + latDelta, longitude + lonDelta))"

definition reports :: "response_dto list \<Rightarrow> bool" where
  "reports rows \<longleftrightarrow> rows \<noteq> [] \<and> trim_space (wd_RawObservation (hd rows)) \<noteq> []"

definition resolve_requested :: "weather_env \<Rightarrow> string \<Rightarrow> weather_client \<Rightarrow> (go_error + station_resolution) \<times> weather_client" where
  "resolve_requested env requested c =
     (case wv_metar env requested of
        Inl e \<Rightarrow> (Inl e, c)
      | Inr rows \<Rightarrow>
          if reports rows then
            (let resolution = \<lparr> sn_Requested = requested, sn_Reporting = first_nonblank (to_upper (wd_ICAOID (hd rows))) requested,
                   sn_Status = ''exact'', sn_Distance = 0, sn_HasData = True, sn_METAR = hd rows \<rparr>
             in (Inr resolution, storeStation (wv_clock env 3) requested resolution defaultStationTTL (wv_others env 3 c)))
          else
            (case airportPosition env requested of
               Inl e \<Rightarrow> (Inl e, c)
             | Inr None \<Rightarrow>
                 (let resolution = unavailable_station requested requested
                  in (Inr resolution, storeStation (wv_clock env 3) requested resolution defaultNegativeTTL (wv_others env 3 c)))
             | Inr (Some (latitude, longitude)) \<Rightarrow>
                 (case wv_nearby env (nearby_box latitude longitude) of
                    Inl e \<Rightarrow> (Inl e, c)
                  | Inr nearby \<Rightarrow>
                      let resolution = nearestStation (wv_ParseTime env) requested latitude longitude nearby (wv_clock env 2)
                      in (Inr resolution,
                          storeStation (wv_clock env 3) requested resolution
                            (if sn_HasData resolution then defaultStationTTL else defaultNegativeTTL) (wv_others env 3 c)))))"

definition resolveStation :: "weather_env \<Rightarrow> string \<Rightarrow> weather_client \<Rightarrow> (go_error + station_resolution) \<times> weather_client" where
  "resolveStation env requested c0 =
     (case cachedStation (wv_clock env 0) requested (wv_others env 0 c0) of
        (Some known, c) \<Rightarrow>
          if \<not> sn_HasData known then (Inr known, c)
          else
            (case wv_refresh env (sn_Reporting known) of
               Inl e \<Rightarrow> (Inl e, c)
             | Inr (row # _) \<Rightarrow> (Inr (known\<lparr> sn_METAR := row \<rparr>), c)
             | Inr [] \<Rightarrow> resolve_requested env requested (deleteStation requested (wv_others env 1 c)))
      | (None, c) \<Rightarrow> resolve_requested env requested c)"

definition override_resolution :: "weather_env \<Rightarrow> string \<Rightarrow> string \<Rightarrow> response_dto \<Rightarrow> go_error + station_resolution" where
  "override_resolution env requested reporting row =
     (let resolution = \<lparr> sn_Requested = requested, sn_Reporting = first_nonblank (to_upper (wd_ICAOID row)) reporting,
            sn_Status = ''nearby'', sn_Distance = 0, sn_HasData = True, sn_METAR = row \<rparr>
      in if requested = sn_Reporting resolution then Inr (resolution\<lparr> sn_Status := ''exact'' \<rparr>)
         else
           (case (wd_Latitude row, wd_Longitude row) of
              (Some la, Some lo) \<Rightarrow>
                (case airportPosition env requested of
                   Inl e \<Rightarrow> Inl e
                 | Inr None \<Rightarrow> Inr resolution
                 | Inr (Some (latitude, longitude)) \<Rightarrow>
                     let distance = distanceNM latitude longitude la lo
                     in Inr (resolution\<lparr> sn_Distance := distance, sn_Status := (if distance \<le> 1 / 4 then ''alias'' else ''nearby'') \<rparr>))
            | _ \<Rightarrow> Inr resolution))"

definition resolve_override :: "weather_env \<Rightarrow> string \<Rightarrow> string \<Rightarrow> string \<Rightarrow> weather_client \<Rightarrow> (go_error + station_resolution) \<times> weather_client" where
  "resolve_override env cacheKey requested reporting c =
     (case wv_metar env reporting of
        Inl e \<Rightarrow> (Inl e, c)
      | Inr rows \<Rightarrow>
          if \<not> reports rows then
            (let resolution = unavailable_station requested reporting
             in (Inr resolution, storeStation (wv_clock env 3) cacheKey resolution defaultNegativeTTL (wv_others env 3 c)))
          else
            (case override_resolution env requested reporting (hd rows) of
               Inl e \<Rightarrow> (Inl e, c)
             | Inr resolution \<Rightarrow>
                 (Inr resolution, storeStation (wv_clock env 3) cacheKey resolution defaultStationTTL (wv_others env 3 c))))"

definition resolveOverride :: "weather_env \<Rightarrow> string \<Rightarrow> string \<Rightarrow> string \<Rightarrow> weather_client \<Rightarrow> (go_error + station_resolution) \<times> weather_client" where
  "resolveOverride env cacheKey requested reporting c0 =
     (case cachedStation (wv_clock env 0) cacheKey (wv_others env 0 c0) of
        (Some known, c) \<Rightarrow>
          (case wv_refresh env (sn_Reporting known) of
             Inl e \<Rightarrow> (Inl e, c)
           | Inr rows \<Rightarrow>
               if reports rows then (Inr (known\<lparr> sn_METAR := hd rows \<rparr>), c)
               else resolve_override env cacheKey requested reporting (deleteStation cacheKey (wv_others env 1 c)))
      | (None, c) \<Rightarrow> resolve_override env cacheKey requested reporting c)"

definition with_forecast :: "go_error + response_dto list \<Rightarrow> observation \<Rightarrow> observation" where
  "with_forecast taf ob =
     (let ob1 = (case taf of Inr (row # _) \<Rightarrow> ob\<lparr> wo_TAF := trim_space (wd_RawTAF row) \<rparr> | _ \<Rightarrow> ob)
      in ob1\<lparr> wo_TAFStatus := (if isl taf then ''unavailable'' else if wo_TAF ob1 = [] then ''not-found'' else ''available'') \<rparr>)"

definition weather_lookup :: "weather_env \<Rightarrow> string \<Rightarrow> string \<Rightarrow> string \<Rightarrow> weather_client \<Rightarrow> (go_error + observation) \<times> weather_client" where
  "weather_lookup env cacheKey code reportingStation c0 =
     (case (if reportingStation = [] \<or> reportingStation = code then resolveStation env code c0
            else resolveOverride env cacheKey code reportingStation c0) of
        (Inl e, c) \<Rightarrow>
          (case weather_stale (wv_clock env 4) cacheKey (wv_others env 4 c) of
             (Some v, c') \<Rightarrow> (Inr v, c')
           | (None, c') \<Rightarrow> (Inl e, weather_store (wv_clock env 5) cacheKey (Inl e) defaultErrorTTL (wv_others env 5 c')))
      | (Inr resolution, c) \<Rightarrow>
          if \<not> sn_HasData resolution then
            (let ob = blank_observation\<lparr> wo_RequestedICAO := code, wo_ReportingICAO := first_nonblank reportingStation code, wo_StationStatus := ''unavailable'',
                   wo_METARStatus := ''not-found'', wo_TAFStatus := ''not-found'', wo_FetchedAt := wv_clock env 4, wo_Attribution := attribution \<rparr>
             in (Inr ob, weather_store (wv_clock env 5) cacheKey (Inr ob) defaultNegativeTTL (wv_others env 5 c)))
          else
            (let ob = with_forecast (wv_taf env (sn_Reporting resolution))
                   (observationFromDTO (wv_ParseFloat env) (wv_ParseTime env) code resolution (wv_clock env 4))
             in (Inr ob, weather_store (wv_clock env 5) cacheKey (Inr ob) (wx_ttl c) (wv_others env 5 c))))"

definition asciiLetters :: "string \<Rightarrow> bool" where
  "asciiLetters value = list_all (\<lambda>c. CHR ''A'' \<le> c \<and> c \<le> CHR ''Z'') value"

text \<open>
  What becomes of the request when the cache does not answer: it runs the lookup, shares the
  result of a lookup of the same key that runs already, or its context ends first.
\<close>

datatype flight_part = Runs | Shares "go_error + observation" | GivesUp go_error

definition cache_key :: "string \<Rightarrow> string \<Rightarrow> string" where
  "cache_key code station = (if station \<noteq> [] \<and> station \<noteq> code then code @ ''@'' @ station else code)"

definition LookupAt ::
    "weather_env \<Rightarrow> flight_part \<Rightarrow> time \<Rightarrow> time \<Rightarrow> string \<Rightarrow> string \<Rightarrow> weather_client \<Rightarrow> (go_error + observation) \<times> weather_client" where
  "LookupAt env part now again icao reportingStation c =
     (let code = to_upper (trim_space icao); station = to_upper (trim_space reportingStation); key = cache_key code station in
      if length code \<noteq> 4 \<or> \<not> asciiLetters code then (Inl (Plain ''airport ICAO must be four ASCII letters''), c)
      else if station \<noteq> [] \<and> (length station \<noteq> 4 \<or> \<not> asciiLetters station) then (Inl (Plain ''weather station ICAO must be four ASCII letters''), c)
      else
        (case weather_cached now key c of
           (Some r, c1) \<Rightarrow> (r, c1)
         | (None, c1) \<Rightarrow>
             (case part of
                GivesUp e \<Rightarrow> (Inl e, c1)
              | Shares r \<Rightarrow> (r, c1)
              | Runs \<Rightarrow>
                  (case weather_cached again key c1 of
                     (Some r, c2) \<Rightarrow> (r, c2)
                   | (None, c2) \<Rightarrow> weather_lookup env key code station c2))))"

definition weather_Lookup :: "weather_env \<Rightarrow> flight_part \<Rightarrow> time \<Rightarrow> time \<Rightarrow> string \<Rightarrow> weather_client \<Rightarrow> (go_error + observation) \<times> weather_client" where
  "weather_Lookup env part now again icao c = LookupAt env part now again icao [] c"

end
