(* ===== verification/Metar_Props.thy ===== *)
theory Metar_Props
  imports Metar
begin

text \<open>
  The reading of a METAR is right: what a report says in its groups is what the observation holds
  (\<open>metar_roundtrip\<close>), the flight category follows its definition (\<open>flight_category_exact\<close>). One
  group is read for what it is not: the name of the station, whose letters may be those of a
  weather code.
\<close>

section \<open>Words\<close>

lemma lead_space_graph_head:
  assumes "\<And>p. p \<in> set ps \<Longrightarrow> p \<noteq> [] \<and> \<not> (32 < hd p \<and> hd p < 127)" "graph_char c"
  shows "lead_space ps (c # s) = 0"
proof -
  have "\<not> prefix p (codes (c # s))" if "p \<in> set ps" for p
    using assms(1) [OF that] assms(2) by (cases p) (auto simp: codes_def graph_char_code)
  moreover have "[] \<notin> set ps" using assms(1) by blast
  ultimately show ?thesis by (simp add: lead_space_pos)
qed

lemma lead_space_word: "graph_char c \<Longrightarrow> lead_space space_codes (c # s) = 0"
  by (rule lead_space_graph_head [OF space_codes_hd(1)])

text \<open>A text between two visible characters has nothing to trim.\<close>

lemma trim_space_ends:
  assumes "s \<noteq> []" "graph_char (hd s)" "graph_char (last s)"
  shows "trim_space s = s"
proof -
  have "lead_space space_codes s = 0" using lead_space_word [of "hd s" "tl s"] assms(1,2) by simp
  then have l: "trim_left s = s" by (simp add: trim_left_def strip_id)
  have "lead_space (map rev space_codes) (hd (rev s) # tl (rev s)) = 0"
    by (rule lead_space_graph_head [OF space_codes_hd(2)]) (use assms in \<open>simp_all add: hd_rev\<close>)
  then have "trim_right s = s" using assms(1) by (simp add: trim_right_def strip_id)
  then show ?thesis by (simp add: trim_space_def l)
qed

lemma join_ends:
  assumes "ws \<noteq> []" "list_all (\<lambda>w. w \<noteq> []) ws"
  shows "join_with sep ws \<noteq> [] \<and> hd (join_with sep ws) = hd (hd ws) \<and> last (join_with sep ws) = last (last ws)"
  using assms by (induction sep ws rule: join_with.induct) auto

lemma lead_space_blank: "lead_space space_codes (CHR '' '' # s) = 1"
  by (simp add: lead_space_def space_codes_def codes_def)

lemma fields_word: "list_all graph_char w \<Longrightarrow> fields_from cur (w @ s) = fields_from (cur @ w) s"
  by (induction w arbitrary: cur) (simp_all add: fields_from.simps(2) lead_space_word Let_def)

lemma fields_join:
  assumes "list_all (\<lambda>w. w \<noteq> [] \<and> list_all graph_char w) ws"
  shows "strings_Fields (join_with '' '' ws) = ws"
  using assms unfolding strings_Fields_def
proof (induction ws rule: join_with.induct [of _ "''a''"])
  case 1
  then show ?case by (simp add: fields_from.simps)
next
  case (2 sep p)
  then show ?case using fields_word [of p "[]" "[]"] by (simp add: fields_from.simps)
next
  case (3 sep p q ps)
  have "fields_from [] (join_with '' '' (p # q # ps)) = fields_from p (CHR '' '' # join_with '' '' (q # ps))"
    using fields_word [of p "[]"] 3(2) by simp
  also have "\<dots> = p # fields_from [] (join_with '' '' (q # ps))"
    using 3(2) by (simp add: fields_from.simps(2) lead_space_blank)
  finally show ?case using 3 by simp
qed

lemma upper_join: "list_all (\<lambda>w. to_upper w = w) ws \<Longrightarrow> to_upper (join_with '' '' ws) = join_with '' '' ws"
  by (induction "'' ''" ws rule: join_with.induct) (simp_all add: to_upper_def up_char_def)

section \<open>Digits\<close>

fun fixed_digits :: "nat \<Rightarrow> nat \<Rightarrow> string" where
  "fixed_digits 0 n = []"
| "fixed_digits (Suc k) n = fixed_digits k (n div 10) @ [digit_char (n mod 10)]"

lemma digit_digit_char: "d < 10 \<Longrightarrow> digit (digit_char d)"
  by (simp add: digit_def char_le_iff of_digit_char)

lemma fixed_digits_digits: "list_all digit (fixed_digits k n)"
  by (induction k arbitrary: n) (simp_all add: digit_digit_char)

lemma length_fixed_digits [simp]: "length (fixed_digits k n) = k"
  by (induction k arbitrary: n) simp_all

lemma fixed_digits_value: "digits_value (fixed_digits k n) = n mod 10 ^ k"
proof (induction k arbitrary: n)
  case (Suc k)
  have "digits_value (fixed_digits (Suc k) n) = 10 * digits_value (fixed_digits k (n div 10)) + n mod 10"
    by (simp add: digits_value_def of_digit_char)
  also have "\<dots> = n mod (10 * 10 ^ k)" by (simp add: Suc.IH mod_mult2_eq)
  finally show ?case by simp
qed (simp add: digits_value_def)

lemma format_nat_digit: "list_all digit (format_nat n)"
  using format_nat_digits by (auto simp: list_all_iff digit_def)

lemma digit_facts:
  assumes "digit c"
  shows "graph_char c" "up_char c = c" "c \<noteq> CHR ''/''" "c \<noteq> CHR ''.''" "c \<noteq> CHR ''G''" "c \<noteq> CHR ''M''" "c \<noteq> CHR ''P''" "c \<noteq> CHR ''V''"
    "c \<noteq> CHR ''K''" "c \<noteq> CHR ''A''" "c \<noteq> CHR ''S''" "c \<noteq> CHR ''Z''"
  using assms unfolding digit_def char_le_iff graph_char_code up_char_def by auto

lemma digits_word: "list_all digit s \<Longrightarrow> list_all graph_char s \<and> to_upper s = s"
  by (induction s) (simp_all add: to_upper_def digit_facts)

lemma take_digits: "list_all digit s \<Longrightarrow> \<not> digit c \<Longrightarrow> takeWhile digit (s @ c # t) = s \<and> dropWhile digit (s @ c # t) = c # t"
  by (induction s) simp_all

lemma all_digits: "list_all digit s \<Longrightarrow> takeWhile digit s = s \<and> dropWhile digit s = []"
  by (induction s) simp_all

lemma no_digit: "\<not> digit (CHR ''K'')" "\<not> digit (CHR ''G'')" "\<not> digit (CHR ''S'')" "\<not> digit (CHR ''/'')" "\<not> digit (CHR ''Z'')" "\<not> digit (CHR ''M'')"
  "\<not> digit (CHR ''P'')" "\<not> digit (CHR ''V'')" "\<not> digit (CHR ''A'')" "\<not> digit (CHR ''.'')"
  by (simp_all add: digit_def char_le_iff)

section \<open>A report\<close>

text \<open>The letters of a station's name.\<close>

definition capital :: "char \<Rightarrow> bool" where
  "capital c \<longleftrightarrow> CHR ''A'' \<le> c \<and> c \<le> CHR ''Z''"

datatype metar_visibility = Miles string nat | Fraction string nat nat | Mixed nat nat nat

record metar_report =
  mt_Station :: string
  mt_Time :: nat
  mt_Direction :: "nat option"
  mt_Speed :: nat
  mt_Gust :: "nat option"
  mt_Visibility :: metar_visibility
  mt_Clouds :: "(string \<times> nat option) list"
  mt_Temperature :: int
  mt_Dewpoint :: "int option"
  mt_Altimeter :: nat

definition knots :: "nat \<Rightarrow> string" where
  "knots n = (if n < 100 then fixed_digits 2 n else fixed_digits 3 n)"

definition wind_word :: "metar_report \<Rightarrow> string" where
  "wind_word r =
     (case mt_Direction r of None \<Rightarrow> ''VRB'' | Some d \<Rightarrow> fixed_digits 3 d) @ knots (mt_Speed r) @
     (case mt_Gust r of None \<Rightarrow> [] | Some g \<Rightarrow> ''G'' @ knots g) @ ''KT''"

fun visibility_words :: "metar_visibility \<Rightarrow> string list" where
  "visibility_words (Miles sign n) = [sign @ format_nat n @ ''SM'']"
| "visibility_words (Fraction sign n d) = [sign @ format_nat n @ ''/'' @ format_nat d @ ''SM'']"
| "visibility_words (Mixed w n d) = [format_nat w, format_nat n @ ''/'' @ format_nat d @ ''SM'']"

definition degrees_word :: "int \<Rightarrow> string" where
  "degrees_word t = (if t < 0 then ''M'' @ fixed_digits 2 (nat (- t)) else fixed_digits 2 (nat t))"

definition temperature_word :: "metar_report \<Rightarrow> string" where
  "temperature_word r = degrees_word (mt_Temperature r) @ ''/'' @ (case mt_Dewpoint r of None \<Rightarrow> ''//'' | Some d \<Rightarrow> degrees_word d)"

definition cloud_word :: "string \<times> nat option \<Rightarrow> string" where
  "cloud_word c = fst c @ (case snd c of None \<Rightarrow> ''///'' | Some h \<Rightarrow> fixed_digits 3 h)"

definition metar_words :: "metar_report \<Rightarrow> string list" where
  "metar_words r =
     mt_Station r # (fixed_digits 6 (mt_Time r) @ ''Z'') # wind_word r # visibility_words (mt_Visibility r) @
     map cloud_word (mt_Clouds r) @ [temperature_word r, ''A'' @ fixed_digits 4 (mt_Altimeter r)]"

fun valid_visibility :: "metar_visibility \<Rightarrow> bool" where
  "valid_visibility (Miles sign n) \<longleftrightarrow> sign \<in> {[], ''P'', ''M''} \<and> n < 1000"
| "valid_visibility (Fraction sign n d) \<longleftrightarrow> sign \<in> {[], ''P'', ''M''} \<and> n < 1000 \<and> 0 < d \<and> d < 1000"
| "valid_visibility (Mixed w n d) \<longleftrightarrow> w < 1000 \<and> n < 1000 \<and> 0 < d \<and> d < 1000"

definition valid_report :: "metar_report \<Rightarrow> bool" where
  "valid_report r \<longleftrightarrow>
     length (mt_Station r) = 4 \<and> list_all capital (mt_Station r) \<and>
     (case mt_Direction r of None \<Rightarrow> True | Some d \<Rightarrow> d \<le> 360) \<and> mt_Speed r < 1000 \<and> (case mt_Gust r of None \<Rightarrow> True | Some g \<Rightarrow> g < 1000) \<and>
     valid_visibility (mt_Visibility r) \<and>
     list_all (\<lambda>(cover, base). cover \<in> {''FEW'', ''SCT'', ''BKN'', ''OVC'', ''VV''} \<and> (case base of None \<Rightarrow> True | Some h \<Rightarrow> h < 1000)) (mt_Clouds r) \<and>
     \<bar>mt_Temperature r\<bar> < 100 \<and> (case mt_Dewpoint r of None \<Rightarrow> True | Some d \<Rightarrow> \<bar>d\<bar> < 100) \<and> mt_Altimeter r < 10000"

fun visibility_sign :: "metar_visibility \<Rightarrow> string" where
  "visibility_sign (Miles sign n) = sign"
| "visibility_sign (Fraction sign n d) = sign"
| "visibility_sign (Mixed w n d) = []"

fun visibility_miles :: "metar_visibility \<Rightarrow> real" where
  "visibility_miles (Miles sign n) = real n"
| "visibility_miles (Fraction sign n d) = real n / real d"
| "visibility_miles (Mixed w n d) = real w + real n / real d"

definition cloud_meaning :: "string \<times> nat option \<Rightarrow> cloud_layer" where
  "cloud_meaning c = \<lparr> cl_Cover = fst c, cl_BaseFeet = (case snd c of None \<Rightarrow> 0 | Some h \<Rightarrow> int h * 100), cl_HasBase = snd c \<noteq> None \<rparr>"

text \<open>What the groups say. The conditions are those the name of the station gives.\<close>

definition metar_meaning :: "metar_report \<Rightarrow> observation" where
  "metar_meaning r =
     blank_observation\<lparr> wo_METAR := join_with '' '' (metar_words r),
       wo_HasWind := True, wo_WindVariable := (mt_Direction r = None), wo_WindDirectionDegrees := (case mt_Direction r of None \<Rightarrow> 0 | Some d \<Rightarrow> int d),
       wo_WindSpeedKts := int (mt_Speed r), wo_WindGustKts := (case mt_Gust r of None \<Rightarrow> 0 | Some g \<Rightarrow> int g),
       wo_HasVisibility := True, wo_VisibilitySM := visibility_miles (mt_Visibility r),
       wo_VisibilityAtLeast := (visibility_sign (mt_Visibility r) = ''P''), wo_VisibilityLessThan := (visibility_sign (mt_Visibility r) = ''M''),
       wo_TemperatureC := mt_Temperature r, wo_HasTemperature := True,
       wo_DewpointC := (case mt_Dewpoint r of None \<Rightarrow> 0 | Some d \<Rightarrow> d), wo_HasDewpoint := (mt_Dewpoint r \<noteq> None),
       wo_AltimeterInHg := real (mt_Altimeter r) / 100, wo_HasAltimeter := True,
       wo_Clouds := map cloud_meaning (mt_Clouds r), wo_Conditions := add_condition (mt_Station r) [] \<rparr>"

section \<open>The groups\<close>

lemma knots_facts:
  assumes "n < 1000"
  shows "list_all digit (knots n) \<and> digits_between 2 3 (knots n) \<and> digits_value (knots n) = n \<and> knots n \<noteq> []"
proof -
  define k where "k = (if n < 100 then 2 else 3 :: nat)"
  have k: "knots n = fixed_digits k n" "2 \<le> k" "k \<le> 3" "n < 10 ^ k" using assms by (simp_all add: knots_def k_def)
  have "length (knots n) = k" using k(1) by simp
  moreover then have "knots n \<noteq> []" using k(2) by auto
  moreover have "digits_value (knots n) = n" using fixed_digits_value [of k n] k(1,4) by simp
  ultimately show ?thesis using fixed_digits_digits [of k n] k unfolding digits_between_def by simp
qed

lemma match_wind_word:
  assumes "valid_report r"
  obtains direction gust where
    "match_wind (wind_word r) = Some (direction, knots (mt_Speed r), gust)"
    "direction = (case mt_Direction r of None \<Rightarrow> ''VRB'' | Some d \<Rightarrow> fixed_digits 3 d)" "gust = (case mt_Gust r of None \<Rightarrow> [] | Some g \<Rightarrow> knots g)"
proof -
  define direction where "direction = (case mt_Direction r of None \<Rightarrow> ''VRB'' | Some d \<Rightarrow> fixed_digits 3 d)"
  define ending where "ending = (case mt_Gust r of None \<Rightarrow> [] | Some g \<Rightarrow> ''G'' @ knots g) @ ''KT''"
  have w: "wind_word r = direction @ knots (mt_Speed r) @ ending" by (simp add: wind_word_def direction_def ending_def)
  have d: "length direction = 3" "direction = ''VRB'' \<or> digits_between 3 3 direction"
    by (auto simp: direction_def digits_between_def fixed_digits_digits split: option.splits)
  have k: "list_all digit (knots (mt_Speed r))" "digits_between 2 3 (knots (mt_Speed r))"
    using knots_facts [of "mt_Speed r"] assms by (simp_all add: valid_report_def)
  obtain c e where e: "ending = c # e" "\<not> digit c" by (cases "mt_Gust r") (auto simp: ending_def no_digit)
  have t: "takeWhile digit (knots (mt_Speed r) @ ending) = knots (mt_Speed r)" "dropWhile digit (knots (mt_Speed r) @ ending) = ending"
    using take_digits [OF k(1) e(2)] e(1) by simp_all
  have three: "take 3 (wind_word r) = direction" "drop 3 (wind_word r) = knots (mt_Speed r) @ ending" using d(1) w by simp_all
  have "match_wind (wind_word r) = Some (direction, knots (mt_Speed r), case mt_Gust r of None \<Rightarrow> [] | Some g \<Rightarrow> knots g)"
  proof (cases "mt_Gust r")
    case None
    then show ?thesis unfolding match_wind_def Let_def three t using d(2) k(2) by (simp add: ending_def)
  next
    case (Some g)
    then have g: "list_all digit (knots g)" "digits_between 2 3 (knots g)" using knots_facts [of g] assms by (simp_all add: valid_report_def)
    have "ending = CHR ''G'' # knots g @ ''KT''" using Some by (simp add: ending_def)
    moreover have "takeWhile digit (knots g @ ''KT'') = knots g" "dropWhile digit (knots g @ ''KT'') = ''KT''"
      using take_digits [OF g(1) no_digit(1)] by simp_all
    ultimately show ?thesis unfolding match_wind_def Let_def three t using d(2) k(2) g Some by simp
  qed
  then show ?thesis using that direction_def by simp
qed

lemma cut_SM: "cut_suffix ''SM'' (s @ ''SM'') = Some s"
  by (auto simp: cut_suffix_def suffix_def)

text \<open>The numbers of a visibility.\<close>

lemma decimal_digits:
  assumes "list_all digit s"
  shows "decimal_value s = real (digits_value s)"
proof -
  have t: "takeWhile digit s = s" "dropWhile digit s = []" using all_digits [OF assms] by (rule conjunct1, rule conjunct2)
  show ?thesis unfolding decimal_value_def Let_def t by (simp add: digits_value_def)
qed

lemma parse_digits: "list_all digit s \<Longrightarrow> digits_value s < 1000 \<Longrightarrow> parse_decimal s = Some (real (digits_value s))"
proof -
  assume s: "list_all digit s" "digits_value s < 1000"
  have "(1000 :: real) < 2 ^ 1024 - 2 ^ 970" by simp
  then show ?thesis using s by (simp add: parse_decimal_def decimal_digits)
qed

lemma format_nat_parse: "n < 1000 \<Longrightarrow> parse_decimal (format_nat n) = Some (real n)"
  using parse_digits [OF format_nat_digit] by simp

lemma no_slash: "list_all digit s \<Longrightarrow> CHR ''/'' \<notin> set s"
  using digit_facts(3) by (fastforce simp: list_all_iff)

lemma cut_slash:
  assumes "list_all digit s"
  shows "takeWhile (\<lambda>c. c \<noteq> CHR ''/'') (s @ ''/'' @ t) = s" "drop (length s + 1) (s @ ''/'' @ t) = t"
proof -
  show "takeWhile (\<lambda>c. c \<noteq> CHR ''/'') (s @ ''/'' @ t) = s"
    using assms by (induction s) (auto simp: digit_facts)
qed simp

lemma parse_whole: "n < 1000 \<Longrightarrow> parseVisibility (format_nat n) = Some (real n)"
  using no_slash [OF format_nat_digit] by (simp add: parseVisibility_def format_nat_parse)

lemma parse_fraction:
  assumes "n < 1000" "0 < d" "d < 1000"
  shows "parseVisibility (format_nat n @ ''/'' @ format_nat d) = Some (real n / real d)"
  using cut_slash [OF format_nat_digit] assms by (simp add: parseVisibility_def Let_def format_nat_parse)

lemma plain_whole: "plain_decimal (format_nat n)"
proof -
  have t: "takeWhile digit (format_nat n) = format_nat n" "dropWhile digit (format_nat n) = []"
    using all_digits [OF format_nat_digit] by (rule conjunct1, rule conjunct2)
  show ?thesis unfolding plain_decimal_def Let_def t by simp
qed

lemma plain_quotient: "plain_fraction (format_nat n @ ''/'' @ format_nat d)"
proof -
  have t: "takeWhile digit (format_nat n @ ''/'' @ format_nat d) = format_nat n" "dropWhile digit (format_nat n @ ''/'' @ format_nat d) = CHR ''/'' # format_nat d"
    using take_digits [OF format_nat_digit no_digit(4), of n "format_nat d"] by simp_all
  show ?thesis unfolding plain_fraction_def Let_def t using format_nat_digit [of d] unfolding asciiDigits_def by simp
qed

lemma digit_head:
  assumes "list_all digit s" "s \<noteq> []"
  shows "\<not> prefix ''M'' (s @ t)" "\<not> prefix ''P'' (s @ t)"
proof -
  obtain c u where c: "s = c # u" "digit c" using assms by (cases s) simp_all
  show "\<not> prefix ''M'' (s @ t)" using c(1) digit_facts(6) [OF c(2)] by simp
  show "\<not> prefix ''P'' (s @ t)" using c(1) digit_facts(7) [OF c(2)] by simp
qed

lemma match_number:
  assumes "sign \<in> {[], ''P'', ''M''}" "list_all digit s" "s \<noteq> []" "plain_decimal (s @ t) \<or> plain_fraction (s @ t)"
  shows "match_visibility (sign @ s @ t @ ''SM'') = Some (sign, s @ t)"
proof -
  have "cut_suffix ''SM'' (sign @ s @ t @ ''SM'') = Some (sign @ s @ t)" using cut_SM [of "sign @ s @ t"] by simp
  moreover have "(if prefix ''M'' (sign @ s @ t) \<or> prefix ''P'' (sign @ s @ t) then take 1 (sign @ s @ t) else []) = sign"
    using assms(1) digit_head [OF assms(2,3), of t] by auto
  ultimately show ?thesis using assms(4) unfolding match_visibility_def by (simp add: Let_def)
qed

lemma match_whole: "sign \<in> {[], ''P'', ''M''} \<Longrightarrow> match_visibility (sign @ format_nat n @ ''SM'') = Some (sign, format_nat n)"
  using match_number [OF _ format_nat_digit format_nat_nonempty, where t = "[]"] plain_whole by simp

lemma match_quotient:
  "sign \<in> {[], ''P'', ''M''} \<Longrightarrow>
   match_visibility (sign @ format_nat n @ ''/'' @ format_nat d @ ''SM'') = Some (sign, format_nat n @ ''/'' @ format_nat d)"
  using match_number [OF _ format_nat_digit format_nat_nonempty, where t = "''/'' @ format_nat d"] plain_quotient by simp

text \<open>What cannot be a wind: less than five bytes, or no knots at the end.\<close>

lemma no_wind_short: "length w < 5 \<Longrightarrow> match_wind w = None"
proof -
  assume "length w < 5"
  then have "length (takeWhile digit (drop 3 w)) < 2" using length_takeWhile_le [of digit "drop 3 w"] by simp
  then show ?thesis by (simp add: match_wind_def Let_def digits_between_def)
qed

lemma no_wind_ending: "\<not> suffix ''KT'' w \<Longrightarrow> match_wind w = None"
proof -
  assume w: "\<not> suffix ''KT'' w"
  have a: "suffix (dropWhile digit (drop 3 w)) w" by (rule suffix_order.trans [OF suffix_dropWhile suffix_drop])
  have b: "suffix (dropWhile digit (tl (dropWhile digit (drop 3 w)))) w"
    by (rule suffix_order.trans [OF suffix_dropWhile suffix_order.trans [OF suffix_tl a]])
  have "dropWhile digit (drop 3 w) \<noteq> ''KT''" using w a by auto
  moreover have "dropWhile digit (tl (dropWhile digit (drop 3 w))) \<noteq> ''KT''" using w b by auto
  ultimately show ?thesis by (simp add: match_wind_def Let_def)
qed

lemma no_mixed: "\<not> list_all digit w \<Longrightarrow> mixed_visibility w later = None"
  by (simp add: mixed_visibility_def asciiDigits_def)

section \<open>One token after the other\<close>

lemma tokens_wind: "match_wind w = Some (d, k, g) \<Longrightarrow> metar_tokens (w # later) ob = metar_tokens later (set_wind d k g ob)"
  by (simp add: metar_tokens.simps(2))

lemma tokens_other:
  "match_wind w = None \<Longrightarrow> mixed_visibility w later = None \<Longrightarrow> metar_tokens (w # later) ob = metar_tokens later (metar_token w ob)"
  by (simp add: metar_tokens.simps(2))

lemma tokens_mixed:
  "match_wind w = None \<Longrightarrow> mixed_visibility w (v # later) = Some (sign, value) \<Longrightarrow>
   metar_tokens (w # v # later) ob = metar_tokens later (set_visibility sign value ob)"
  by (simp add: metar_tokens.simps(2))

lemma no_visibility: "\<not> suffix ''SM'' w \<Longrightarrow> match_visibility w = None"
  by (simp add: match_visibility_def cut_suffix_def)

lemma no_temperature: "CHR ''/'' \<notin> set w \<Longrightarrow> match_temperature w = None"
proof -
  assume "CHR ''/'' \<notin> set w"
  then have t: "takeWhile (\<lambda>c. c \<noteq> CHR ''/'') w = w" by (intro takeWhile_eq_all_conv [THEN iffD2]) auto
  show ?thesis unfolding match_temperature_def Let_def t by simp
qed

lemma capital_facts: "capital c \<Longrightarrow> \<not> digit c \<and> graph_char c \<and> up_char c = c \<and> c \<noteq> CHR ''/''"
  unfolding capital_def digit_def char_le_iff graph_char_code up_char_def by auto

lemma no_number:
  assumes "list_all (\<lambda>c. \<not> digit c) w"
  shows "\<not> plain_decimal w" "\<not> plain_fraction w"
proof -
  have "takeWhile digit w = []" using assms by (cases w) simp_all
  then show "\<not> plain_decimal w" "\<not> plain_fraction w" unfolding plain_decimal_def plain_fraction_def Let_def by simp_all
qed

lemma all_sublist: "list_all P w \<Longrightarrow> list_all P (drop n w) \<and> list_all P (take n w)"
  unfolding list_all_iff using in_set_takeD in_set_dropD by metis

lemma capital_no_visibility:
  assumes "list_all capital w"
  shows "match_visibility w = None"
proof (cases "suffix ''SM'' w")
  case True
  have "list_all (\<lambda>c. \<not> digit c) w" using assms capital_facts unfolding list_all_iff by blast
  then have n: "list_all (\<lambda>c. \<not> digit c) (drop n (take m w))" for n m using all_sublist by blast
  show ?thesis unfolding match_visibility_def cut_suffix_def Let_def using True no_number [OF n] by (simp only: if_True option.case simp_thms if_False)
qed (rule no_visibility)

lemma short_no_altimeter: "length w < 5 \<Longrightarrow> match_altimeter w = None"
  by (auto simp: match_altimeter_def cut_prefix_def digits_between_def)

lemma short_no_cloud:
  assumes "length w < 5"
  shows "match_cloud w = None"
proof -
  have "length (take 3 (drop (length c) w)) < 3" if "2 \<le> length c" for c :: string using assms that by simp
  then have "\<not> digits_between 3 3 (take 3 (drop (length c) w)) \<and> take 3 (drop (length c) w) \<noteq> ''///''" if "2 \<le> length c" for c :: string
    using that unfolding digits_between_def by fastforce
  then have "c \<in> {''FEW'', ''SCT'', ''BKN'', ''OVC'', ''VV''} \<Longrightarrow> \<not> (digits_between 3 3 (take 3 (drop (length c) w)) \<or> take 3 (drop (length c) w) = ''///'')" for c
    by force
  moreover define cover where "cover = (if prefix ''VV'' w then ''VV'' else take 3 w)"
  ultimately have nc: "cover \<in> {''FEW'', ''SCT'', ''BKN'', ''OVC'', ''VV''} \<Longrightarrow>
    \<not> (digits_between 3 3 (take 3 (drop (length cover) w)) \<or> take 3 (drop (length cover) w) = ''///'')" by blast
  show ?thesis unfolding match_cloud_def Let_def cover_def [symmetric] by (rule if_not_P) (use nc in blast)
qed

lemma tokens_station:
  assumes "length w = 4" "list_all capital w"
  shows "metar_tokens (w # later) ob = metar_tokens later (ob\<lparr> wo_Conditions := add_condition w (wo_Conditions ob) \<rparr>)"
proof -
  have "\<not> list_all digit w" using assms capital_facts by (cases w) auto
  moreover have "CHR ''/'' \<notin> set w" using assms(2) capital_facts unfolding list_all_iff by blast
  ultimately have "match_wind w = None" "mixed_visibility w later = None" "match_visibility w = None" "match_temperature w = None"
    "match_altimeter w = None" "match_cloud w = None"
    using assms no_wind_short no_mixed capital_no_visibility no_temperature short_no_altimeter short_no_cloud by simp_all
  then show ?thesis by (simp add: tokens_other metar_token_def)
qed

text \<open>The time of the report: its digits are in no label.\<close>

lemma label_letters: "map_of conditionLabels [a, b] \<noteq> None \<Longrightarrow> \<not> digit a"
proof -
  assume "map_of conditionLabels [a, b] \<noteq> None"
  then have "[a, b] \<in> set (map fst conditionLabels)" by (simp add: map_of_eq_None_iff)
  then have "list_all (\<lambda>k. \<not> digit (hd k)) (map fst conditionLabels) \<Longrightarrow> \<not> digit a" unfolding list_all_iff by fastforce
  moreover have "list_all (\<lambda>k. \<not> digit (hd k)) (map fst conditionLabels)" by code_simp
  ultimately show ?thesis by blast
qed

lemma label_none: "digit a \<Longrightarrow> map_of conditionLabels [a, b] = None"
  using label_letters by blast

lemma digits_no_pairs: "list_all digit s \<Longrightarrow> condition_pairs i (s @ [c]) = []"
  by (induction i s rule: condition_pairs.induct) (simp_all add: label_none)

lemma digits_no_condition:
  assumes "list_all digit s" "s \<noteq> []"
  shows "weatherCondition (s @ [c]) = []"
proof -
  obtain d u where d: "s = d # u" "digit d" using assms by (cases s) simp_all
  have n: "\<not> prefix (x # p) (s @ [c])" if "\<not> digit x" for x p using d that by auto
  have "\<not> digit (CHR ''-'')" "\<not> digit (CHR ''+'')" "\<not> digit (CHR ''M'')" "\<not> digit (CHR ''P'')" "\<not> digit (CHR ''B'')" "\<not> digit (CHR ''D'')"
    "\<not> digit (CHR ''S'')" "\<not> digit (CHR ''F'')" by (simp_all add: digit_def char_le_iff)
  then have p: "\<not> prefix ''-'' (s @ [c])" "\<not> prefix ''+'' (s @ [c])" "\<not> prefix ''MI'' (s @ [c])" "\<not> prefix ''PR'' (s @ [c])" "\<not> prefix ''BC'' (s @ [c])"
    "\<not> prefix ''DR'' (s @ [c])" "\<not> prefix ''BL'' (s @ [c])" "\<not> prefix ''SH'' (s @ [c])" "\<not> prefix ''FZ'' (s @ [c])"
    using n by simp_all
  show ?thesis unfolding weatherCondition_def trim_prefix_def Let_def using p digits_no_pairs [OF assms(1)]
    by (simp only: if_False fold_simps comp_apply id_apply)
qed

lemma tokens_time:
  "metar_tokens ((fixed_digits 6 t @ ''Z'') # later) ob = metar_tokens later ob"
proof -
  define w where "w = fixed_digits 6 t @ ''Z''"
  have d: "list_all digit (fixed_digits 6 t)" "fixed_digits 6 t \<noteq> []" by (rule fixed_digits_digits) (use length_fixed_digits [of 6 t] in force)
  obtain a u where a: "fixed_digits 6 t = a # u" "digit a" "length u = 5" using d length_fixed_digits [of 6 t] by (cases "fixed_digits 6 t") auto
  have nd: "\<not> list_all digit w" using no_digit(5) by (simp add: w_def)
  have ends: "\<not> suffix ''KT'' w" "\<not> suffix ''SM'' w" unfolding w_def by (auto simp: suffix_def append_eq_append_conv2 Cons_eq_append_conv append_eq_Cons_conv)
  have slash: "CHR ''/'' \<notin> set w" using no_slash [OF d(1)] by (simp add: w_def)
  have alt: "match_altimeter w = None" using a digit_facts(10) [OF a(2)] by (simp add: w_def match_altimeter_def cut_prefix_def)
  have cloud: "match_cloud w = None"
  proof -
    have "\<not> prefix ''VV'' w" using a digit_facts(8) [OF a(2)] by (simp add: w_def)
    moreover have "take 3 w = a # take 2 u" using a(1,3) by (simp add: w_def)
    moreover have "a \<noteq> CHR ''F''" "a \<noteq> CHR ''S''" "a \<noteq> CHR ''B''" "a \<noteq> CHR ''O''" "a \<noteq> CHR ''V''" using a(2) by (auto simp: digit_def char_le_iff)
    ultimately show ?thesis by (simp add: match_cloud_def Let_def)
  qed
  have "weatherCondition w = []" unfolding w_def by (rule digits_no_condition [OF d])
  then have "metar_token w ob = ob"
    using no_visibility [OF ends(2)] no_temperature [OF slash] alt cloud by (simp add: metar_token_def add_condition_def)
  then show ?thesis using tokens_other [OF no_wind_ending [OF ends(1)] no_mixed [OF nd]] unfolding w_def by simp
qed

text \<open>A word that ends in a digit, a slash or a mile is no wind.\<close>

lemma last_not: "w \<noteq> [] \<Longrightarrow> last w \<noteq> c \<Longrightarrow> \<not> suffix (p @ [c]) w"
  by (auto simp: suffix_def)

lemma ends_no_wind: "w \<noteq> [] \<Longrightarrow> last w \<noteq> CHR ''T'' \<Longrightarrow> match_wind w = None"
  using last_not [of w "CHR ''T''" "''K''"] by (simp add: no_wind_ending)

lemma ends_no_visibility: "w \<noteq> [] \<Longrightarrow> last w \<noteq> CHR ''M'' \<Longrightarrow> match_visibility w = None"
  using last_not [of w "CHR ''M''" "''S''"] by (simp add: no_visibility)

lemma digits_last: "list_all digit s \<Longrightarrow> s \<noteq> [] \<Longrightarrow> digit (last s)"
  by (simp add: list_all_iff)

lemma digit_no_T: "digit c \<Longrightarrow> c \<noteq> CHR ''T'' \<and> c \<noteq> CHR ''M''"
  by (auto simp: digit_def char_le_iff)

lemma tokens_visibility:
  assumes "valid_visibility v"
  shows "metar_tokens (visibility_words v @ later) ob = metar_tokens later (set_visibility (visibility_sign v) (visibility_miles v) ob)"
proof (cases v)
  case (Miles sign n)
  define w where "w = sign @ format_nat n @ ''SM''"
  have "match_wind w = None" by (rule ends_no_wind) (simp_all add: w_def)
  moreover have "mixed_visibility w later = None" by (rule no_mixed) (simp add: w_def no_digit)
  moreover have "match_visibility w = Some (sign, format_nat n)" unfolding w_def by (rule match_whole) (use assms Miles in simp)
  ultimately show ?thesis using assms Miles parse_whole [of n] by (simp add: tokens_other metar_token_def w_def)
next
  case (Fraction sign n d)
  define w where "w = sign @ format_nat n @ ''/'' @ format_nat d @ ''SM''"
  have "match_wind w = None" by (rule ends_no_wind) (simp_all add: w_def)
  moreover have "mixed_visibility w later = None" by (rule no_mixed) (simp add: w_def no_digit)
  moreover have "match_visibility w = Some (sign, format_nat n @ ''/'' @ format_nat d)"
    unfolding w_def by (rule match_quotient) (use assms Fraction in simp)
  ultimately show ?thesis using assms Fraction parse_fraction [of n d] by (simp add: tokens_other metar_token_def w_def)
next
  case (Mixed k n d)
  define u where "u = format_nat n @ ''/'' @ format_nat d @ ''SM''"
  have "match_wind (format_nat k) = None"
    by (rule ends_no_wind) (use digit_no_T digits_last [OF format_nat_digit] in auto)
  moreover have "mixed_visibility (format_nat k) (u # later) = Some ([], real k + real n / real d)"
  proof -
    have "asciiDigits (format_nat k)" using format_nat_digit by (simp add: asciiDigits_def)
    moreover have "match_visibility u = Some ([], format_nat n @ ''/'' @ format_nat d)" using match_quotient [of "[]" n d] by (simp add: u_def)
    ultimately show ?thesis using assms Mixed parse_fraction [of n d] format_nat_parse [of k] by (simp add: mixed_visibility_def)
  qed
  ultimately show ?thesis using Mixed by (simp add: tokens_mixed u_def)
qed

text \<open>Temperatures.\<close>

lemma degrees_facts:
  assumes "\<bar>t\<bar> < 100"
  shows "signed_pair (degrees_word t)" "signedMETARNumber (degrees_word t) = Some t" "CHR ''/'' \<notin> set (degrees_word t)" "digit (last (degrees_word t))"
    "degrees_word t \<noteq> []"
proof -
  define s where "s = fixed_digits 2 (nat \<bar>t\<bar>)"
  have s: "list_all digit s" "length s = 2" "digits_value s = nat \<bar>t\<bar>" "s \<noteq> []"
    using fixed_digits_digits fixed_digits_value [of 2 "nat \<bar>t\<bar>"] assms length_fixed_digits [of 2 "nat \<bar>t\<bar>"]
    unfolding s_def by (auto simp del: length_fixed_digits)
  have w: "degrees_word t = (if t < 0 then CHR ''M'' # s else s)" by (simp add: degrees_word_def s_def)
  have m: "\<not> prefix ''M'' s" using digit_head(1) [OF s(1,4), of "[]"] by simp
  have trim: "trim_prefix ''M'' (degrees_word t) = s" using m by (simp add: w trim_prefix_def)
  have sl: "degrees_word t \<noteq> ''//''" using s(1,4) no_digit(4) by (auto simp: w)
  show "signed_pair (degrees_word t)" unfolding signed_pair_def trim digits_between_def using s by simp
  show "signedMETARNumber (degrees_word t) = Some t"
    unfolding signedMETARNumber_def Let_def trim using sl s m by (simp add: asciiDigits_def w)
  show "CHR ''/'' \<notin> set (degrees_word t)" using no_slash [OF s(1)] by (simp add: w)
  show "digit (last (degrees_word t))" using digits_last [OF s(1,4)] s(4) by (simp add: w)
  show "degrees_word t \<noteq> []" using s(4) by (simp add: w)
qed

lemma tokens_temperature:
  assumes "valid_report r"
  shows "metar_tokens (temperature_word r # later) ob = metar_tokens later
    (let ob1 = ob\<lparr> wo_TemperatureC := mt_Temperature r, wo_HasTemperature := True \<rparr>
     in case mt_Dewpoint r of None \<Rightarrow> ob1 | Some d \<Rightarrow> ob1\<lparr> wo_DewpointC := d, wo_HasDewpoint := True \<rparr>)"
proof -
  define right where "right = (case mt_Dewpoint r of None \<Rightarrow> ''//'' | Some d \<Rightarrow> degrees_word d)"
  define left where "left = degrees_word (mt_Temperature r)"
  have w: "temperature_word r = left @ ''/'' @ right" by (simp add: temperature_word_def right_def left_def)
  have l: "signed_pair left" "signedMETARNumber left = Some (mt_Temperature r)" "CHR ''/'' \<notin> set left"
    using degrees_facts [of "mt_Temperature r"] assms by (simp_all add: valid_report_def left_def)
  have d: "\<bar>d\<bar> < 100" if "mt_Dewpoint r = Some d" for d using assms that by (simp add: valid_report_def)
  have rt: "signed_pair right \<or> right = ''//''" "right \<noteq> []" "last right \<noteq> CHR ''T''" "last right \<noteq> CHR ''M''"
    using degrees_facts d digit_no_T by (auto simp: right_def split: option.splits)
  have rv: "signedMETARNumber right = mt_Dewpoint r"
  proof (cases "mt_Dewpoint r")
    case None
    then show ?thesis by (simp add: right_def signedMETARNumber_def)
  next
    case (Some t)
    then show ?thesis using degrees_facts(2) [OF d [OF Some]] by (simp add: right_def)
  qed
  have t: "takeWhile (\<lambda>c. c \<noteq> CHR ''/'') (temperature_word r) = left" "drop (length left + 1) (temperature_word r) = right"
  proof -
    have "takeWhile (\<lambda>c. c \<noteq> CHR ''/'') left = left" using l(3) by (intro takeWhile_eq_all_conv [THEN iffD2]) auto
    then show "takeWhile (\<lambda>c. c \<noteq> CHR ''/'') (temperature_word r) = left" using l(3) by (subst w, subst takeWhile_append2) auto
    show "drop (length left + 1) (temperature_word r) = right" by (simp add: w)
  qed
  have match: "match_temperature (temperature_word r) = Some (left, right)"
    unfolding match_temperature_def Let_def t using l(1) rt(1) by (simp add: w)
  have "match_wind (temperature_word r) = None" by (rule ends_no_wind) (use rt in \<open>simp_all add: w\<close>)
  moreover have "match_visibility (temperature_word r) = None" by (rule ends_no_visibility) (use rt in \<open>simp_all add: w\<close>)
  moreover have "mixed_visibility (temperature_word r) later = None" by (rule no_mixed) (simp add: w no_digit)
  ultimately show ?thesis using match l(2) rv by (simp add: tokens_other metar_token_def set_temperature_def Let_def split: option.splits)
qed

text \<open>Clouds and the altimeter.\<close>

lemma match_cloud_word:
  assumes "cover \<in> {''FEW'', ''SCT'', ''BKN'', ''OVC'', ''VV''}" "digits_between 3 3 base \<or> base = ''///''"
  shows "match_cloud (cover @ base) = Some (cover, base)"
proof -
  have b: "length base = 3" using assms(2) by (auto simp: digits_between_def)
  define c where "c = (if prefix ''VV'' (cover @ base) then ''VV'' else take 3 (cover @ base))"
  have c: "c = cover" using assms(1) by (auto simp: c_def)
  show ?thesis unfolding match_cloud_def Let_def c_def [symmetric] unfolding c using assms b by simp
qed

lemma capital_cover: "cover \<in> {''FEW'', ''SCT'', ''BKN'', ''OVC'', ''VV''} \<Longrightarrow> list_all capital cover \<and> cover \<noteq> [] \<and> \<not> prefix ''A'' cover"
  by (auto simp: capital_def char_le_iff)

lemma tokens_cloud:
  assumes "fst c \<in> {''FEW'', ''SCT'', ''BKN'', ''OVC'', ''VV''}" "case snd c of None \<Rightarrow> True | Some h \<Rightarrow> h < 1000"
  shows "metar_tokens (cloud_word c # later) ob = metar_tokens later (ob\<lparr> wo_Clouds := wo_Clouds ob @ [cloud_meaning c] \<rparr>)"
proof -
  define cover where "cover = fst c"
  define base where "base = (case snd c of None \<Rightarrow> ''///'' | Some h \<Rightarrow> fixed_digits 3 h)"
  have w: "cloud_word c = cover @ base" by (simp add: cloud_word_def cover_def base_def)
  have cover: "list_all capital cover" "cover \<noteq> []" "\<not> prefix ''A'' cover" using capital_cover assms(1) by (simp_all add: cover_def)
  obtain a u where a: "cover = a # u" "capital a" using cover by (cases cover) simp_all
  have base: "base \<noteq> []" "last base \<noteq> CHR ''T''" "last base \<noteq> CHR ''M''" "base = ''///'' \<or> digits_between 3 3 base"
  proof -
    have "length base = 3" by (cases "snd c") (simp_all add: base_def)
    then show ne: "base \<noteq> []" by auto
    have "digit (last base) \<or> last base = CHR ''/''"
    proof (cases "snd c")
      case (Some h)
      then have "base = fixed_digits 3 h" by (simp add: base_def)
      then show ?thesis using digits_last [OF fixed_digits_digits, of 3 h] ne by simp
    qed (simp add: base_def)
    then show "last base \<noteq> CHR ''T''" "last base \<noteq> CHR ''M''" using digit_no_T by auto
    show "base = ''///'' \<or> digits_between 3 3 base" by (cases "snd c") (simp_all add: base_def digits_between_def fixed_digits_digits)
  qed
  have no_t: "match_temperature (cloud_word c) = None"
  proof (cases "snd c")
    case (Some h)
    then have "CHR ''/'' \<notin> set (cloud_word c)" using cover(1) capital_facts no_slash [OF fixed_digits_digits, of 3 h]
      unfolding w base_def list_all_iff by auto
    then show ?thesis by (rule no_temperature)
  next
    case None
    have "takeWhile (\<lambda>c. c \<noteq> CHR ''/'') cover = cover" using cover(1) capital_facts unfolding list_all_iff by (intro takeWhile_eq_all_conv [THEN iffD2]) blast
    then have t: "takeWhile (\<lambda>c. c \<noteq> CHR ''/'') (cloud_word c) = cover" using None by (simp add: w base_def takeWhile_append)
    have "\<not> signed_pair cover" using assms(1) by (auto simp: cover_def signed_pair_def trim_prefix_def digits_between_def digit_def char_le_iff)
    then show ?thesis unfolding match_temperature_def Let_def t by simp
  qed
  have "match_wind (cloud_word c) = None" by (rule ends_no_wind) (use base in \<open>simp_all add: w\<close>)
  moreover have "match_visibility (cloud_word c) = None" by (rule ends_no_visibility) (use base in \<open>simp_all add: w\<close>)
  moreover have "mixed_visibility (cloud_word c) later = None" by (rule no_mixed) (use a capital_facts in \<open>simp add: w\<close>)
  moreover have "match_altimeter (cloud_word c) = None" using cover(2,3) by (cases cover) (auto simp: w match_altimeter_def cut_prefix_def)
  moreover have "match_cloud (cloud_word c) = Some (cover, base)"
    unfolding w by (rule match_cloud_word) (use assms(1) base(4) in \<open>auto simp: cover_def\<close>)
  moreover have "cloud_of cover base = cloud_meaning c"
  proof (cases "snd c")
    case (Some h)
    then have "fixed_digits 3 h \<noteq> ''///''" using fixed_digits_digits [of 3 h] no_digit(4) by auto
    then show ?thesis using Some assms(2) by (simp add: cloud_of_def cloud_meaning_def base_def cover_def fixed_digits_value)
  qed (simp add: cloud_of_def cloud_meaning_def base_def cover_def)
  ultimately show ?thesis using no_t by (simp add: tokens_other metar_token_def)
qed

lemma tokens_clouds:
  assumes "list_all (\<lambda>(cover, base). cover \<in> {''FEW'', ''SCT'', ''BKN'', ''OVC'', ''VV''} \<and> (case base of None \<Rightarrow> True | Some h \<Rightarrow> h < 1000)) cs"
  shows "metar_tokens (map cloud_word cs @ later) ob = metar_tokens later (ob\<lparr> wo_Clouds := wo_Clouds ob @ map cloud_meaning cs \<rparr>)"
  using assms
proof (induction cs arbitrary: ob)
  case (Cons c cs)
  then show ?case using tokens_cloud [of c] by (auto simp: split_beta)
qed simp

lemma tokens_altimeter:
  assumes "n < 10000"
  shows "metar_tokens ((''A'' @ fixed_digits 4 n) # later) ob = metar_tokens later (ob\<lparr> wo_AltimeterInHg := real n / 100, wo_HasAltimeter := True \<rparr>)"
proof -
  define w where "w = ''A'' @ fixed_digits 4 n"
  have s: "fixed_digits 4 n \<noteq> []" using length_fixed_digits [of 4 n] by force
  have l: "digit (last w)" using digits_last [OF fixed_digits_digits s] s by (simp add: w_def)
  have "match_wind w = None" by (rule ends_no_wind) (use l digit_no_T in \<open>auto simp: w_def\<close>)
  moreover have "match_visibility w = None" by (rule ends_no_visibility) (use l digit_no_T in \<open>auto simp: w_def\<close>)
  moreover have "mixed_visibility w later = None" by (rule no_mixed) (simp add: w_def no_digit)
  moreover have "match_temperature w = None" by (rule no_temperature) (use no_slash [OF fixed_digits_digits] in \<open>simp add: w_def\<close>)
  moreover have "match_altimeter w = Some (fixed_digits 4 n)"
    by (simp add: w_def match_altimeter_def cut_prefix_def digits_between_def fixed_digits_digits)
  ultimately show ?thesis using assms by (simp add: tokens_other metar_token_def w_def fixed_digits_value)
qed

section \<open>The report as a whole\<close>

definition plain_word :: "string \<Rightarrow> bool" where
  "plain_word w \<longleftrightarrow> w \<noteq> [] \<and> list_all (\<lambda>c. graph_char c \<and> up_char c = c) w"

lemma plain_append: "plain_word u \<Longrightarrow> list_all (\<lambda>c. graph_char c \<and> up_char c = c) v \<Longrightarrow> plain_word (u @ v)"
  by (simp add: plain_word_def)

lemma digits_plain: "list_all digit s \<Longrightarrow> list_all (\<lambda>c. graph_char c \<and> up_char c = c) s"
  unfolding list_all_iff using digit_facts(1,2) by blast

lemma capitals_plain: "list_all capital s \<Longrightarrow> list_all (\<lambda>c. graph_char c \<and> up_char c = c) s"
  unfolding list_all_iff using capital_facts by blast

lemma signs_plain: "graph_char (CHR ''/'') \<and> up_char (CHR ''/'') = CHR ''/''" "graph_char (CHR ''S'') \<and> up_char (CHR ''S'') = CHR ''S''"
  "graph_char (CHR ''M'') \<and> up_char (CHR ''M'') = CHR ''M''" "graph_char (CHR ''P'') \<and> up_char (CHR ''P'') = CHR ''P''"
  "graph_char (CHR ''G'') \<and> up_char (CHR ''G'') = CHR ''G''" "graph_char (CHR ''K'') \<and> up_char (CHR ''K'') = CHR ''K''"
  "graph_char (CHR ''T'') \<and> up_char (CHR ''T'') = CHR ''T''" "graph_char (CHR ''Z'') \<and> up_char (CHR ''Z'') = CHR ''Z''"
  "graph_char (CHR ''A'') \<and> up_char (CHR ''A'') = CHR ''A''" "graph_char (CHR ''V'') \<and> up_char (CHR ''V'') = CHR ''V''"
  "graph_char (CHR ''R'') \<and> up_char (CHR ''R'') = CHR ''R''" "graph_char (CHR ''B'') \<and> up_char (CHR ''B'') = CHR ''B''"
  by (simp_all add: graph_char_code up_char_def char_le_iff)

lemma knots_plain: "list_all (\<lambda>c. graph_char c \<and> up_char c = c) (knots n)"
  by (simp add: knots_def digits_plain fixed_digits_digits)

lemma degrees_plain: "list_all (\<lambda>c. graph_char c \<and> up_char c = c) (degrees_word t)"
  using digits_plain [OF fixed_digits_digits] signs_plain(3) by (simp add: degrees_word_def)

lemma visibility_plain: "valid_visibility v \<Longrightarrow> list_all plain_word (visibility_words v)"
  using digits_plain [OF format_nat_digit] signs_plain by (cases v) (auto simp: plain_word_def simp del: format_nat.simps)

lemma words_plain:
  assumes "valid_report r"
  shows "list_all plain_word (metar_words r)"
proof -
  have "plain_word (mt_Station r)"
    using assms capitals_plain [of "mt_Station r"] by (auto simp: valid_report_def plain_word_def)
  moreover have "plain_word (fixed_digits 6 (mt_Time r) @ ''Z'')"
    using digits_plain [OF fixed_digits_digits] signs_plain by (simp add: plain_word_def)
  moreover have "plain_word (wind_word r)"
    using knots_plain digits_plain [OF fixed_digits_digits] signs_plain
    by (auto simp: plain_word_def wind_word_def split: option.splits)
  moreover have "list_all plain_word (visibility_words (mt_Visibility r))" by (rule visibility_plain) (use assms in \<open>simp add: valid_report_def\<close>)
  moreover have "plain_word (temperature_word r)"
    using degrees_plain signs_plain by (auto simp: plain_word_def temperature_word_def split: option.splits)
  moreover have "plain_word (''A'' @ fixed_digits 4 (mt_Altimeter r))"
    using digits_plain [OF fixed_digits_digits] signs_plain by (simp add: plain_word_def)
  moreover have "plain_word (cloud_word c)" if "c \<in> set (mt_Clouds r)" for c
  proof -
    have "fst c \<in> {''FEW'', ''SCT'', ''BKN'', ''OVC'', ''VV''}" using assms that by (auto simp: valid_report_def list_all_iff)
    from capital_cover [OF this] have "list_all (\<lambda>c. graph_char c \<and> up_char c = c) (fst c)" "fst c \<noteq> []" using capitals_plain by blast+
    then show ?thesis using digits_plain [OF fixed_digits_digits] signs_plain(1) by (auto simp: plain_word_def cloud_word_def split: option.splits)
  qed
  ultimately show ?thesis by (auto simp: metar_words_def list_all_iff)
qed

lemma metar_line:
  assumes "valid_report r"
  defines "line \<equiv> join_with '' '' (metar_words r)"
  shows "strings_Fields (to_upper line) = metar_words r" "trim_space line = line" "line \<noteq> []"
proof -
  have p: "list_all plain_word (metar_words r)" by (rule words_plain [OF assms(1)])
  have u: "list_all (\<lambda>w. to_upper w = w) (metar_words r)"
  proof -
    have "to_upper w = w" if "plain_word w" for w
      using that by (auto simp: plain_word_def to_upper_def list_all_iff intro: map_idI)
    then show ?thesis using p by (auto simp: list_all_iff)
  qed
  have ne: "list_all (\<lambda>w. w \<noteq> []) (metar_words r)" using p unfolding list_all_iff plain_word_def by blast
  have g: "graph_char c" if "c \<in> set w" "w \<in> set (metar_words r)" for c w
    using p that unfolding list_all_iff plain_word_def by blast
  have w: "list_all (\<lambda>w. w \<noteq> [] \<and> list_all graph_char w) (metar_words r)" using ne g unfolding list_all_iff by blast
  have nonempty: "metar_words r \<noteq> []" by (simp add: metar_words_def)
  note ends = join_ends [OF nonempty ne, of "'' ''"]
  show "strings_Fields (to_upper line) = metar_words r" unfolding line_def upper_join [OF u] by (rule fields_join [OF w])
  show "line \<noteq> []" using ends by (simp add: line_def)
  have "hd (metar_words r) \<in> set (metar_words r)" "last (metar_words r) \<in> set (metar_words r)" using nonempty by simp_all
  moreover then have "hd (metar_words r) \<noteq> []" "last (metar_words r) \<noteq> []" using ne unfolding list_all_iff by blast+
  ultimately have "graph_char (hd (hd (metar_words r)))" "graph_char (last (last (metar_words r)))"
    using g [OF hd_in_set] g [OF last_in_set] by blast+
  then show "trim_space line = line" unfolding line_def by (intro trim_space_ends) (use ends in simp_all)
qed

lemma metar_tokens_report:
  assumes "valid_report r"
  shows "metar_tokens (metar_words r) (blank_observation\<lparr> wo_METAR := join_with '' '' (metar_words r) \<rparr>) = metar_meaning r"
proof -
  have st: "length (mt_Station r) = 4" "list_all capital (mt_Station r)" using assms by (simp_all add: valid_report_def)
  have v: "valid_visibility (mt_Visibility r)" and alt: "mt_Altimeter r < 10000" using assms by (simp_all add: valid_report_def)
  have cl: "list_all (\<lambda>(cover, base). cover \<in> {''FEW'', ''SCT'', ''BKN'', ''OVC'', ''VV''} \<and> (case base of None \<Rightarrow> True | Some h \<Rightarrow> h < 1000)) (mt_Clouds r)"
    using assms by (simp add: valid_report_def)
  obtain direction gust where wind: "match_wind (wind_word r) = Some (direction, knots (mt_Speed r), gust)"
    "direction = (case mt_Direction r of None \<Rightarrow> ''VRB'' | Some d \<Rightarrow> fixed_digits 3 d)" "gust = (case mt_Gust r of None \<Rightarrow> [] | Some g \<Rightarrow> knots g)"
    by (rule match_wind_word [OF assms]) (rule that)
  have direction: "direction = ''VRB'' \<longleftrightarrow> mt_Direction r = None" "mt_Direction r = Some d \<Longrightarrow> digits_value direction = d" for d
  proof -
    show "direction = ''VRB'' \<longleftrightarrow> mt_Direction r = None"
    proof (cases "mt_Direction r")
      case (Some d)
      have "fixed_digits 3 d \<noteq> ''VRB''"
      proof
        assume "fixed_digits 3 d = ''VRB''"
        then have "list_all digit ''VRB''" using fixed_digits_digits [of 3 d] by (simp only:)
        then show False using no_digit(8) by simp
      qed
      then show ?thesis using Some by (simp add: wind(2))
    qed (simp add: wind(2))
    show "mt_Direction r = Some d \<Longrightarrow> digits_value direction = d" using assms unfolding wind(2) by (simp add: fixed_digits_value valid_report_def)
  qed
  have speed: "digits_value (knots (mt_Speed r)) = mt_Speed r" using knots_facts assms by (simp add: valid_report_def)
  have gusts: "int (digits_value gust) = (case mt_Gust r of None \<Rightarrow> 0 | Some g \<Rightarrow> int g)"
    using knots_facts assms unfolding wind(3) by (cases "mt_Gust r") (simp_all add: valid_report_def digits_value_def)
  show ?thesis
    unfolding metar_words_def tokens_station [OF st] tokens_time tokens_wind [OF wind(1)] tokens_visibility [OF v] tokens_clouds [OF cl]
      tokens_temperature [OF assms] tokens_altimeter [OF alt]
    using direction speed gusts
    by (cases "mt_Direction r"; cases "mt_Dewpoint r")
      (simp_all add: metar_tokens.simps(1) metar_meaning_def set_wind_def set_visibility_def blank_observation_def Let_def metar_words_def)
qed

text \<open>
  C29. A METAR is read back. The report that is written from a station, a time, a wind, a
  visibility, clouds, temperatures and a pressure is read as exactly these: direction or
  variable, speed and gust, whole and broken miles with their sign, the layers in their order with
  their heights in feet, temperatures below zero, inches of mercury; and nothing else, except that
  the name of the station is taken for a weather condition when it spells one.
\<close>

theorem metar_roundtrip:
  assumes "valid_report r"
  shows "populateMETAR (blank_observation\<lparr> wo_METAR := join_with '' '' (metar_words r) \<rparr>) =
    (metar_meaning r)\<lparr> wo_FlightCategory := inferFlightCategory (metar_meaning r) \<rparr>"
proof -
  have "wo_FlightCategory (metar_meaning r) = []" by (simp add: metar_meaning_def blank_observation_def)
  then show ?thesis
    unfolding populateMETAR_def Let_def using metar_line [OF assms] metar_tokens_report [OF assms] by simp
qed

lemma fixed_digits_numeral: "fixed_digits (numeral k) n = fixed_digits (pred_numeral k) (n div 10) @ [digit_char (n mod 10)]"
  by (subst numeral_eq_Suc) (rule fixed_digits.simps(2))

lemma digit_chars:
  "digit_char 0 = CHR ''0''" "digit_char (Suc 0) = CHR ''1''" "digit_char 1 = CHR ''1''" "digit_char 2 = CHR ''2''" "digit_char 3 = CHR ''3''"
  "digit_char 4 = CHR ''4''" "digit_char 5 = CHR ''5''" "digit_char 8 = CHR ''8''" "digit_char 9 = CHR ''9''"
  by code_simp+

definition demo_metar :: metar_report where
  "demo_metar = \<lparr> mt_Station = ''KXYZ'', mt_Time = 231453, mt_Direction = None, mt_Speed = 12, mt_Gust = Some 20, mt_Visibility = Mixed 1 1 2,
     mt_Clouds = [(''BKN'', Some 8), (''VV'', None)], mt_Temperature = -2, mt_Dewpoint = Some (-5), mt_Altimeter = 2988 \<rparr>"

theorem metar_roundtrip_witness:
  "populateMETAR (blank_observation\<lparr> wo_METAR := ''KXYZ 231453Z VRB12G20KT 1 1/2SM BKN008 VV/// M02/M05 A2988'' \<rparr>) =
    (metar_meaning demo_metar)\<lparr> wo_FlightCategory := inferFlightCategory (metar_meaning demo_metar) \<rparr> \<and>
   wo_TemperatureC (metar_meaning demo_metar) = -2 \<and> wo_VisibilitySM (metar_meaning demo_metar) = 3 / 2"
proof -
  have "valid_report demo_metar" by (simp add: demo_metar_def valid_report_def capital_def char_le_iff)
  note t = metar_roundtrip [OF this]
  have "join_with '' '' (metar_words demo_metar) = ''KXYZ 231453Z VRB12G20KT 1 1/2SM BKN008 VV/// M02/M05 A2988''"
    by (simp add: metar_words_def demo_metar_def wind_word_def knots_def temperature_word_def degrees_word_def cloud_word_def fixed_digits_numeral digit_chars
        format_nat.simps)
  with t have a: "populateMETAR (blank_observation\<lparr> wo_METAR := ''KXYZ 231453Z VRB12G20KT 1 1/2SM BKN008 VV/// M02/M05 A2988'' \<rparr>) =
    (metar_meaning demo_metar)\<lparr> wo_FlightCategory := inferFlightCategory (metar_meaning demo_metar) \<rparr>" by (simp only:)
  have "wo_TemperatureC (metar_meaning demo_metar) = -2" "wo_VisibilitySM (metar_meaning demo_metar) = 3 / 2"
    unfolding metar_meaning_def by (simp_all add: demo_metar_def)
  with a show ?thesis by (intro conjI)
qed

text \<open>The conditions, whatever was observed before.\<close>

lemma metar_conditions:
  assumes "valid_report r"
  shows "wo_Conditions (metar_tokens (metar_words r) ob) = add_condition (mt_Station r) (wo_Conditions ob)"
proof -
  have st: "length (mt_Station r) = 4" "list_all capital (mt_Station r)" using assms by (simp_all add: valid_report_def)
  have v: "valid_visibility (mt_Visibility r)" and alt: "mt_Altimeter r < 10000" using assms by (simp_all add: valid_report_def)
  have cl: "list_all (\<lambda>(cover, base). cover \<in> {''FEW'', ''SCT'', ''BKN'', ''OVC'', ''VV''} \<and> (case base of None \<Rightarrow> True | Some h \<Rightarrow> h < 1000)) (mt_Clouds r)"
    using assms by (simp add: valid_report_def)
  obtain direction gust where wind: "match_wind (wind_word r) = Some (direction, knots (mt_Speed r), gust)"
    by (rule match_wind_word [OF assms]) (rule that)
  show ?thesis
    unfolding metar_words_def tokens_station [OF st] tokens_time tokens_wind [OF wind(1)] tokens_visibility [OF v] tokens_clouds [OF cl]
      tokens_temperature [OF assms] tokens_altimeter [OF alt]
    by (cases "mt_Dewpoint r") (simp_all add: metar_tokens.simps(1) set_wind_def set_visibility_def Let_def)
qed

section \<open>The flight category\<close>

definition cloud_ceiling :: "cloud_layer \<Rightarrow> bool" where
  "cloud_ceiling l \<longleftrightarrow> cl_HasBase l \<and> cl_Cover l \<in> {''BKN'', ''OVC'', ''VV''}"

lemma lower_ceiling_less:
  "fold lower_ceiling cs lowest < h \<longleftrightarrow> lowest < h \<or> (\<exists>l \<in> set cs. cloud_ceiling l \<and> cl_BaseFeet l < h)"
proof (induction cs arbitrary: lowest)
  case (Cons l cs)
  then show ?case by (auto simp: lower_ceiling_def cloud_ceiling_def)
qed simp

text \<open>
  The flight category is the usual one, of the lowest broken or overcast layer or vertical
  visibility and of the visibility: below 500 ft or a mile, below 1000 ft or three miles, up to
  3000 ft or five miles, or better; what was not observed does not count.
\<close>

theorem flight_category_exact:
  "inferFlightCategory ob =
     (let sight = (\<lambda>P. wo_HasVisibility ob \<and> P (wo_VisibilitySM ob));
          cloud = (\<lambda>P. \<exists>l \<in> set (wo_Clouds ob). cloud_ceiling l \<and> P (cl_BaseFeet l))
      in if sight (\<lambda>v. v < 1) \<or> cloud (\<lambda>h. h < 500) then ''LIFR''
         else if sight (\<lambda>v. v < 3) \<or> cloud (\<lambda>h. h < 1000) then ''IFR''
         else if sight (\<lambda>v. v \<le> 5) \<or> cloud (\<lambda>h. h \<le> 3000) then ''MVFR''
         else ''VFR'')"
proof -
  define low where "low = fold lower_ceiling (wo_Clouds ob) 100000"
  define vis where "vis = (if wo_HasVisibility ob then wo_VisibilitySM ob else 100)"
  have l: "low < h \<longleftrightarrow> (\<exists>l \<in> set (wo_Clouds ob). cloud_ceiling l \<and> cl_BaseFeet l < h)" if "h \<le> 100000" for h
    using that by (simp add: low_def lower_ceiling_less)
  have "low \<le> 3000 \<longleftrightarrow> low < 3001" by linarith
  also have "\<dots> \<longleftrightarrow> (\<exists>l \<in> set (wo_Clouds ob). cloud_ceiling l \<and> cl_BaseFeet l < 3001)" by (rule l) simp
  also have "\<dots> \<longleftrightarrow> (\<exists>l \<in> set (wo_Clouds ob). cloud_ceiling l \<and> cl_BaseFeet l \<le> 3000)" by (intro bex_cong refl conj_cong) linarith
  finally have c: "low \<le> 3000 \<longleftrightarrow> (\<exists>l \<in> set (wo_Clouds ob). cloud_ceiling l \<and> cl_BaseFeet l \<le> 3000)" .
  have v: "vis < 1 \<longleftrightarrow> wo_HasVisibility ob \<and> wo_VisibilitySM ob < 1" "vis < 3 \<longleftrightarrow> wo_HasVisibility ob \<and> wo_VisibilitySM ob < 3"
    "vis \<le> 5 \<longleftrightarrow> wo_HasVisibility ob \<and> wo_VisibilitySM ob \<le> 5" by (simp_all add: vis_def)
  have l2: "low < 500 \<longleftrightarrow> (\<exists>l \<in> set (wo_Clouds ob). cloud_ceiling l \<and> cl_BaseFeet l < 500)"
    "low < 1000 \<longleftrightarrow> (\<exists>l \<in> set (wo_Clouds ob). cloud_ceiling l \<and> cl_BaseFeet l < 1000)" by (rule l, simp)+
  show ?thesis
    unfolding inferFlightCategory_def Let_def low_def [symmetric] vis_def [symmetric] v l2 c by (rule refl)
qed

end
