(* ===== verification/Weather_Lookup_Props.thy ===== *)
theory Weather_Lookup_Props
  imports Weather_Props
begin

text \<open>
  A lookup among other goroutines: they are a parameter of it, and may do between its critical
  sections whatever keeps the invariant, which the lookup keeps in turn. And what a caller sees
  while the service fails, and of a station whose name spells a condition.
\<close>

section \<open>Fields that the groups of a report leave alone\<close>

lemma metar_token_frame:
  "wo_RequestedICAO (metar_token w ob) = wo_RequestedICAO ob \<and> wo_StationStatus (metar_token w ob) = wo_StationStatus ob \<and>
   wo_METARStatus (metar_token w ob) = wo_METARStatus ob \<and> wo_Stale (metar_token w ob) = wo_Stale ob \<and> wo_METAR (metar_token w ob) = wo_METAR ob"
  by (simp add: metar_token_def set_visibility_def set_temperature_def Let_def split: option.splits prod.splits)

lemma metar_tokens_frame:
  "wo_RequestedICAO (metar_tokens ws ob) = wo_RequestedICAO ob \<and> wo_StationStatus (metar_tokens ws ob) = wo_StationStatus ob \<and>
   wo_METARStatus (metar_tokens ws ob) = wo_METARStatus ob \<and> wo_Stale (metar_tokens ws ob) = wo_Stale ob \<and> wo_METAR (metar_tokens ws ob) = wo_METAR ob"
proof (induction ws ob rule: metar_tokens.induct)
  case (2 w later ob)
  then show ?case
    using metar_token_frame [of w ob]
    by (auto simp: metar_tokens.simps(2) set_wind_def set_visibility_def split: option.splits prod.splits)
qed (simp add: metar_tokens.simps(1))

lemma populate_frame:
  "wo_RequestedICAO (populateMETAR ob) = wo_RequestedICAO ob \<and> wo_StationStatus (populateMETAR ob) = wo_StationStatus ob \<and>
   wo_METARStatus (populateMETAR ob) = wo_METARStatus ob \<and> wo_Stale (populateMETAR ob) = wo_Stale ob \<and> wo_METAR (populateMETAR ob) = wo_METAR ob"
  using metar_tokens_frame by (simp add: populateMETAR_def Let_def)

lemma typed_frame:
  "wo_RequestedICAO (applyTypedMETAR PF dto ob) = wo_RequestedICAO ob \<and> wo_StationStatus (applyTypedMETAR PF dto ob) = wo_StationStatus ob \<and>
   wo_METARStatus (applyTypedMETAR PF dto ob) = wo_METARStatus ob \<and> wo_Stale (applyTypedMETAR PF dto ob) = wo_Stale ob \<and>
   wo_METAR (applyTypedMETAR PF dto ob) = wo_METAR ob"
proof -
  have "wo_RequestedICAO (f ob) = wo_RequestedICAO ob \<and> wo_StationStatus (f ob) = wo_StationStatus ob \<and> wo_METARStatus (f ob) = wo_METARStatus ob \<and>
    wo_Stale (f ob) = wo_Stale ob \<and> wo_METAR (f ob) = wo_METAR ob"
    if "f \<in> {typed_temperature dto, typed_wind PF dto, typed_visibility PF dto, typed_altimeter dto, typed_clouds dto, typed_conditions dto, typed_category dto}" for f ob
    using that
    by (auto simp: typed_temperature_def typed_wind_def typed_visibility_def typed_altimeter_def typed_clouds_def typed_conditions_def
        typed_category_def Let_def split: option.splits prod.splits if_splits)
  then show ?thesis unfolding applyTypedMETAR_def by simp
qed

lemma observation_frame:
  "wo_RequestedICAO (observationFromDTO PF PT requested s t) = requested \<and> wo_StationStatus (observationFromDTO PF PT requested s t) = sn_Status s \<and>
   wo_METARStatus (observationFromDTO PF PT requested s t) = ''available'' \<and> \<not> wo_Stale (observationFromDTO PF PT requested s t) \<and>
   wo_METAR (observationFromDTO PF PT requested s t) = trim_space (wd_RawObservation (sn_METAR s))"
  using typed_frame populate_frame
  by (simp add: observationFromDTO_def Let_def blank_observation_def split: option.splits)

section \<open>What the cache holds\<close>

definition known_status :: "string \<Rightarrow> bool" where
  "known_status status \<longleftrightarrow> status \<in> {''exact'', ''alias'', ''nearby''}"

text \<open>An observation under its key: the airport of the key, and a station exactly when there is a report.\<close>

definition fits :: "string \<Rightarrow> observation \<Rightarrow> bool" where
  "fits key v \<longleftrightarrow> wo_RequestedICAO v = take 4 key \<and>
     (known_status (wo_StationStatus v) \<and> wo_METARStatus v = ''available'' \<or>
      wo_StationStatus v = ''unavailable'' \<and> wo_METARStatus v = ''not-found'' \<and> wo_METAR v = [] \<and> \<not> wo_Stale v)"

definition answers :: "string \<Rightarrow> go_error + observation \<Rightarrow> bool" where
  "answers key r \<longleftrightarrow> (\<forall>v. r = Inr v \<longrightarrow> fits key v)"

definition station_fits :: "station_resolution \<Rightarrow> bool" where
  "station_fits s \<longleftrightarrow> (sn_HasData s \<longrightarrow> known_status (sn_Status s))"

definition entry_fits :: "string \<times> cached_observation \<Rightarrow> bool" where
  "entry_fits p \<longleftrightarrow> answers (fst p) (wc_Value (snd p)) \<and> (\<forall>v. wc_Value (snd p) = Inr v \<longrightarrow> \<not> wo_Stale v)"

definition weather_inv :: "weather_client \<Rightarrow> bool" where
  "weather_inv c \<longleftrightarrow>
     0 < wx_max c \<and> distinct (map fst (wx_cache c)) \<and> length (wx_cache c) \<le> wx_max c \<and>
     (\<forall>p \<in> set (wx_cache c). entry_fits p) \<and>
     gm_wf (wx_stations c) \<and> length (wx_stations c) \<le> wx_max c \<and> (\<forall>p \<in> set (wx_stations c). station_fits (wk_Station (snd p)))"

lemma weather_inv_start: "weather_inv weather_NewClient"
  by (simp add: weather_inv_def weather_NewClient_def)

lemma delete_subset: "set (AList.delete k m) \<subseteq> set m"
  by (auto simp: AList.delete_eq)

lemma move_front_inv:
  assumes "weather_inv c" "map_of (wx_cache c) key = Some old" "entry_fits (key, e)"
  shows "weather_inv (move_front key e c)"
proof -
  have "length (AList.delete key (wx_cache c)) < length (wx_cache c)"
    using assms(2) by (induction "wx_cache c" arbitrary: c) (auto simp: AList.delete_eq less_Suc_eq_le dest!: map_of_SomeD intro!: length_filter_less)
  then show ?thesis
    using assms delete_subset [of key "wx_cache c"] distinct_delete [of "wx_cache c" key]
    by (auto simp: weather_inv_def move_front_def AList.delete_eq)
qed

lemma cache_entry:
  assumes "weather_inv c" "map_of (wx_cache c) key = Some e"
  shows "entry_fits (key, e)"
  using assms(1) map_of_SomeD [OF assms(2)] unfolding weather_inv_def by blast

lemma weather_cached_inv:
  assumes "weather_cached now key c = (r, c')" "weather_inv c"
  shows "weather_inv c' \<and> (\<forall>x. r = Some x \<longrightarrow> answers key x)"
proof (cases "map_of (wx_cache c) key")
  case None
  then show ?thesis using assms by (simp add: weather_cached_def)
next
  case (Some e)
  note ce = cache_entry [OF assms(2) Some]
  have "weather_inv (c\<lparr> wx_cache := AList.delete key (wx_cache c) \<rparr>)"
    using assms(2) delete_subset [of key "wx_cache c"] distinct_delete [of "wx_cache c" key] length_delete_le [of key "wx_cache c"]
    by (auto simp: weather_inv_def)
  then show ?thesis using assms Some move_front_inv [OF assms(2) Some ce] ce by (auto simp: weather_cached_def entry_fits_def split: if_splits)
qed

lemma weather_stale_inv:
  assumes "weather_stale now key c = (r, c')" "weather_inv c"
  shows "weather_inv c' \<and> (\<forall>v. r = Some v \<longrightarrow> fits key v)"
proof (cases "map_of (wx_cache c) key")
  case None
  then show ?thesis using assms by (simp add: weather_stale_def)
next
  case (Some e)
  note ce = cache_entry [OF assms(2) Some]
  show ?thesis
  proof (cases "wc_Value e")
    case (Inl err)
    then show ?thesis using assms Some by (simp add: weather_stale_def)
  next
    case (Inr v)
    then have "fits key v" using ce by (simp add: entry_fits_def answers_def)
    then have "fits key (v\<lparr> wo_Stale := True \<rparr>)" if "wo_METAR v \<noteq> []" using that by (auto simp: fits_def)
    then show ?thesis using assms Some Inr move_front_inv [OF assms(2) Some ce] by (auto simp: weather_stale_def split: if_splits)
  qed
qed

lemma weather_store_inv:
  assumes "weather_inv c" "answers key v" "\<forall>ob. v = Inr ob \<longrightarrow> \<not> wo_Stale ob"
  shows "weather_inv (weather_store now key v ttl c)"
proof (cases "map_of (wx_cache c) key")
  case (Some old)
  then show ?thesis unfolding weather_store_def Let_def using assms by (simp add: move_front_inv entry_fits_def)
next
  case None
  define e where "e = \<lparr> wc_Value = v, wc_Expires = now + ttl, wc_StaleExpires = staleExpiry now (isl v) ttl \<rparr>"
  have d: "distinct (map fst ((key, e) # wx_cache c))" using assms(1) None by (simp add: weather_inv_def map_of_eq_None_iff)
  have t: "distinct (map fst (take n ((key, e) # wx_cache c)))" for n
    using distinct_take [OF d, of n] by (simp only: take_map)
  have s: "set (take n ((key, e) # wx_cache c)) \<subseteq> set ((key, e) # wx_cache c)" for n by (rule set_take_subset)
  have "weather_store now key v ttl c = c\<lparr> wx_cache := take (wx_max c) ((key, e) # wx_cache c) \<rparr>" using None by (simp add: weather_store_def e_def)
  moreover have "entry_fits (key, e)" using assms(2,3) by (simp add: e_def entry_fits_def)
  ultimately show ?thesis using assms(1) t [of "wx_max c"] s [of "wx_max c"] unfolding weather_inv_def by auto
qed

lemma deleteStation_inv:
  assumes "weather_inv c"
  shows "weather_inv (deleteStation key c)"
  using assms delete_subset [of key "wx_stations c"] length_delete_le [of key "wx_stations c"] gm_wf_del [of "wx_stations c" key]
  unfolding weather_inv_def deleteStation_def by auto

lemma cachedStation_inv:
  assumes "cachedStation now key c = (r, c')" "weather_inv c"
  shows "weather_inv c'" "r = Some s \<Longrightarrow> station_fits s"
proof -
  have "weather_inv (deleteStation key c)" by (rule deleteStation_inv [OF assms(2)])
  then show "weather_inv c'" using assms by (auto simp: cachedStation_def deleteStation_def split: option.splits if_splits)
  show "r = Some s \<Longrightarrow> station_fits s"
    using assms by (fastforce simp: cachedStation_def weather_inv_def split: option.splits if_splits dest: map_of_SomeD)
qed

lemma length_update_le: "length (AList.update k v m) \<le> Suc (length m)"
  by (induction m) auto

lemma stations_update_subset: "set (AList.update k v m) \<subseteq> insert (k, v) (set m)"
  by (induction m) auto

lemma storeStation_inv:
  assumes "weather_inv c" "station_fits s"
  shows "weather_inv (storeStation now key s ttl c)"
proof -
  define kept where "kept = (if length (wx_stations c) \<ge> wx_max c then tl (wx_stations c) else wx_stations c)"
  define e where "e = \<lparr> wk_Station = s, wk_Expires = now + ttl \<rparr>"
  have k: "gm_wf kept" "set kept \<subseteq> set (wx_stations c)" "length kept < wx_max c"
    using assms(1) by (auto simp: kept_def weather_inv_def gm_wf_def map_tl distinct_tl dest: list.set_sel(2)[rotated])
  have "length (AList.update key e kept) \<le> wx_max c" using length_update_le [of key e kept] k(3) by linarith
  moreover have "\<forall>p \<in> set (AList.update key e kept). station_fits (wk_Station (snd p))"
    using stations_update_subset [of key e kept] k(2) assms by (fastforce simp: weather_inv_def e_def)
  ultimately show ?thesis using assms(1) gm_wf_put [OF k(1), of key e]
    unfolding weather_inv_def storeStation_def Let_def kept_def [symmetric] e_def [symmetric] by simp
qed

section \<open>A lookup among others\<close>

text \<open>What other goroutines do keeps the invariant.\<close>

definition peers_keep :: "weather_env \<Rightarrow> bool" where
  "peers_keep env \<longleftrightarrow> (\<forall>i c. weather_inv c \<longrightarrow> weather_inv (wv_others env i c))"

lemma nearest_station_cases:
  "nearestStation PT requested latitude longitude rows now = unavailable_station requested requested \<or>
   (\<exists>row. nearestStation PT requested latitude longitude rows now = chosen requested latitude longitude row)"
  using nearest_fold [where rows = rows and ParseTime = PT and latitude = latitude and longitude = longitude and now = now and requested = requested] by (auto simp: nearestStation_def)

lemma nearest_fits: "station_fits (nearestStation PT requested latitude longitude rows now)"
  using nearest_station_cases [of PT requested latitude longitude rows now]
  by (auto simp: station_fits_def known_status_def chosen_def unavailable_station_def split: if_splits)

lemma resolve_requested_inv:
  assumes "resolve_requested env requested c = (r, c')" "weather_inv c" "peers_keep env"
  shows "weather_inv c' \<and> (\<forall>s. r = Inr s \<longrightarrow> station_fits s)"
proof -
  have store: "weather_inv (storeStation now key s ttl (wv_others env i c))" if "station_fits s" for now key s ttl i
    using assms(2,3) that by (simp add: peers_keep_def storeStation_inv)
  have ex: "station_fits \<lparr> sn_Requested = a, sn_Reporting = b, sn_Status = ''exact'', sn_Distance = 0, sn_HasData = True, sn_METAR = m \<rparr>" for a b m
    by (simp add: station_fits_def known_status_def)
  have un: "station_fits (unavailable_station a b)" for a b by (simp add: station_fits_def unavailable_station_def)
  show ?thesis using assms(1,2) store [OF ex] store [OF un] store [OF nearest_fits] ex un nearest_fits
    unfolding resolve_requested_def Let_def by (auto split: sum.splits option.splits if_splits)
qed

lemma resolveStation_inv:
  assumes "resolveStation env requested c = (r, c')" "weather_inv c" "peers_keep env"
  shows "weather_inv c' \<and> (\<forall>s. r = Inr s \<longrightarrow> station_fits s)"
proof -
  obtain known c1 where k: "cachedStation (wv_clock env 0) requested (wv_others env 0 c) = (known, c1)" by (cases "cachedStation (wv_clock env 0) requested (wv_others env 0 c)")
  have i: "weather_inv (wv_others env 0 c)" using assms(2,3) by (simp add: peers_keep_def)
  note c1 = cachedStation_inv(1) [OF k i]
  have d: "weather_inv (deleteStation requested (wv_others env 1 c1))" using assms(3) c1 by (simp add: peers_keep_def deleteStation_inv)
  show ?thesis
  proof (cases known)
    case None
    then show ?thesis using assms(1) resolve_requested_inv [OF _ c1 assms(3)] by (simp add: resolveStation_def k)
  next
    case (Some s)
    have s: "station_fits s" "\<And>row. station_fits (s\<lparr> sn_METAR := row \<rparr>)" using cachedStation_inv(2) [OF k i Some] by (simp_all add: station_fits_def)
    show ?thesis using assms(1) Some s c1 resolve_requested_inv [OF _ d assms(3)]
      by (auto simp: resolveStation_def k split: if_splits sum.splits list.splits)
  qed
qed

lemma override_fits: "override_resolution env requested reporting row = Inr s \<Longrightarrow> station_fits s"
  by (auto simp: override_resolution_def station_fits_def known_status_def Let_def split: if_splits option.splits sum.splits)

lemma resolve_override_inv:
  assumes "resolve_override env key requested reporting c = (r, c')" "weather_inv c" "peers_keep env"
  shows "weather_inv c' \<and> (\<forall>s. r = Inr s \<longrightarrow> station_fits s)"
proof -
  have store: "weather_inv (storeStation now key s ttl (wv_others env i c))" if "station_fits s" for now key s ttl i
    using assms(2,3) that by (simp add: peers_keep_def storeStation_inv)
  have un: "station_fits (unavailable_station a b)" for a b by (simp add: station_fits_def unavailable_station_def)
  show ?thesis using assms(1,2) store store [OF un] un override_fits
    unfolding resolve_override_def Let_def by (auto split: sum.splits if_splits)
qed

lemma resolveOverride_inv:
  assumes "resolveOverride env key requested reporting c = (r, c')" "weather_inv c" "peers_keep env"
  shows "weather_inv c' \<and> (\<forall>s. r = Inr s \<longrightarrow> station_fits s)"
proof -
  obtain known c1 where k: "cachedStation (wv_clock env 0) key (wv_others env 0 c) = (known, c1)" by (cases "cachedStation (wv_clock env 0) key (wv_others env 0 c)")
  have i: "weather_inv (wv_others env 0 c)" using assms(2,3) by (simp add: peers_keep_def)
  note c1 = cachedStation_inv(1) [OF k i]
  have d: "weather_inv (deleteStation key (wv_others env 1 c1))" using assms(3) c1 by (simp add: peers_keep_def deleteStation_inv)
  show ?thesis
  proof (cases known)
    case None
    then show ?thesis using assms(1) resolve_override_inv [OF _ c1 assms(3)] by (simp add: resolveOverride_def k)
  next
    case (Some s)
    have "station_fits (s\<lparr> sn_METAR := row \<rparr>)" for row using cachedStation_inv(2) [OF k i Some] by (simp add: station_fits_def)
    then show ?thesis using assms(1) Some c1 resolve_override_inv [OF _ d assms(3)]
      by (auto simp: resolveOverride_def k split: if_splits sum.splits)
  qed
qed

lemma weather_lookup_inv:
  assumes "weather_lookup env key code station c = (r, c')" "weather_inv c" "peers_keep env" "take 4 key = code"
  shows "weather_inv c' \<and> answers key r"
proof -
  define resolved where "resolved = (if station = [] \<or> station = code then resolveStation env code c else resolveOverride env key code station c)"
  obtain res c1 where res: "resolved = (res, c1)" by (cases resolved)
  have i: "weather_inv c1" "\<And>s. res = Inr s \<Longrightarrow> station_fits s"
    using res resolveStation_inv [OF _ assms(2,3)] resolveOverride_inv [OF _ assms(2,3)] unfolding resolved_def by (auto split: if_splits)
  have o: "weather_inv (wv_others env n d)" if "weather_inv d" for n d using assms(3) that by (simp add: peers_keep_def)
  note r = assms(1) [unfolded weather_lookup_def, folded resolved_def, unfolded res]
  show ?thesis
  proof (cases res)
    case (Inl e)
    obtain hit c2 where st: "weather_stale (wv_clock env 4) key (wv_others env 4 c1) = (hit, c2)" by (cases "weather_stale (wv_clock env 4) key (wv_others env 4 c1)")
    note si = weather_stale_inv [OF st o [OF i(1)]]
    have "weather_inv (weather_store (wv_clock env 5) key (Inl e) minute (wv_others env 5 c2))"
      by (rule weather_store_inv) (use o si in \<open>simp_all add: answers_def\<close>)
    then show ?thesis using r Inl st si by (auto simp: answers_def split: option.splits)
  next
    case (Inr s)
    show ?thesis
    proof (cases "sn_HasData s")
      case False
      define ob where "ob = blank_observation\<lparr> wo_RequestedICAO := code, wo_ReportingICAO := first_nonblank station code, wo_StationStatus := ''unavailable'',
        wo_METARStatus := ''not-found'', wo_TAFStatus := ''not-found'', wo_FetchedAt := wv_clock env 4, wo_Attribution := attribution \<rparr>"
      have ob: "fits key ob" "\<not> wo_Stale ob" using assms(4) by (simp_all add: fits_def ob_def blank_observation_def)
      have "(r, c') = (Inr ob, weather_store (wv_clock env 5) key (Inr ob) (5 * minute) (wv_others env 5 c1))"
        using r [symmetric] Inr False unfolding ob_def by (simp add: Let_def)
      moreover have "weather_inv (weather_store (wv_clock env 5) key (Inr ob) (5 * minute) (wv_others env 5 c1))"
        by (rule weather_store_inv) (use o i(1) ob in \<open>simp_all add: answers_def\<close>)
      ultimately show ?thesis using ob by (simp add: answers_def)
    next
      case True
      define ob where "ob = with_forecast (wv_taf env (sn_Reporting s)) (observationFromDTO (wv_ParseFloat env) (wv_ParseTime env) code s (wv_clock env 4))"
      have f: "wo_RequestedICAO (with_forecast t x) = wo_RequestedICAO x \<and> wo_StationStatus (with_forecast t x) = wo_StationStatus x \<and>
        wo_METARStatus (with_forecast t x) = wo_METARStatus x \<and> wo_Stale (with_forecast t x) = wo_Stale x" for t x
        by (simp add: with_forecast_def Let_def split: sum.splits list.splits)
      have "known_status (sn_Status s)" using i(2) [OF Inr] True by (simp add: station_fits_def)
      then have ob: "fits key ob" "\<not> wo_Stale ob" using f observation_frame assms(4) by (simp_all add: fits_def ob_def)
      have "(r, c') = (Inr ob, weather_store (wv_clock env 5) key (Inr ob) (wx_ttl c1) (wv_others env 5 c1))"
        using r [symmetric] Inr True unfolding ob_def by (simp add: Let_def)
      moreover have "weather_inv (weather_store (wv_clock env 5) key (Inr ob) (wx_ttl c1) (wv_others env 5 c1))"
        by (rule weather_store_inv) (use o i(1) ob in \<open>simp_all add: answers_def\<close>)
      ultimately show ?thesis using ob by (simp add: answers_def)
    qed
  qed
qed


text \<open>The first lookup of a client, of an airport of which nothing is known.\<close>

definition demo_weather_env :: weather_env where
  "demo_weather_env = \<lparr> wv_clock = (\<lambda>_. 7), wv_others = (\<lambda>_ c. c), wv_ParseFloat = (\<lambda>_. None), wv_ParseTime = (\<lambda>_. None),
     wv_refresh = (\<lambda>_. Inr []), wv_metar = (\<lambda>_. Inr []), wv_airport = (\<lambda>_ _. Inr []), wv_nearby = (\<lambda>_. Inr []), wv_taf = (\<lambda>_. Inr []) \<rparr>"

lemma demo_codes: "to_upper (trim_space ''kpbi'') = ''KPBI''" "trim_space [] = []" "to_upper [] = []"
  by code_simp+


section \<open>A failing service\<close>

text \<open>Every request that a lookup may need first fails.\<close>

definition service_down :: "go_error \<Rightarrow> weather_env \<Rightarrow> bool" where
  "service_down e env \<longleftrightarrow> (\<forall>s. wv_refresh env s = Inl e) \<and> (\<forall>s. wv_metar env s = Inl e)"

definition alone_at :: "time \<Rightarrow> weather_env \<Rightarrow> bool" where
  "alone_at now env \<longleftrightarrow> (\<forall>i. wv_clock env i = now) \<and> (\<forall>i c. wv_others env i c = c)"

lemma failing_resolution:
  assumes "alone_at now env" "service_down e env"
    and "\<forall>s. map_of (wx_stations c) (cache_key code other) = Some s \<longrightarrow> sn_HasData (wk_Station s)"
  obtains d where "(if other = [] \<or> other = code then resolveStation env code c else resolveOverride env (cache_key code other) code other c) = (Inl e, d)"
    "wx_cache d = wx_cache c"
proof -
  define key where "key = cache_key code other"
  have clock: "wv_clock env i = now" "wv_others env i x = x" for i x using assms(1) by (simp_all add: alone_at_def)
  have down: "wv_refresh env x = Inl e" "wv_metar env x = Inl e" for x using assms(2) by (simp_all add: service_down_def)
  have k: "other = [] \<or> other = code \<Longrightarrow> key = code" by (auto simp: key_def cache_key_def)
  obtain known d where cs: "cachedStation now key c = (known, d)" by (cases "cachedStation now key c")
  then have keep: "wx_cache d = wx_cache c" by (auto simp: cachedStation_def split: option.splits if_splits)
  have data: "sn_HasData s" if "known = Some s" for s
    using cs that assms(3) by (auto simp: key_def cachedStation_def split: option.splits if_splits)
  show ?thesis
  proof (cases "other = [] \<or> other = code")
    case True
    then have "resolveStation env code c = (Inl e, d)"
      using cs data k by (cases known) (simp_all add: resolveStation_def clock down resolve_requested_def)
    then show ?thesis using that True keep by simp
  next
    case False
    then have "resolveOverride env key code other c = (Inl e, d)"
      using cs by (cases known) (simp_all add: resolveOverride_def clock down resolve_override_def)
    then show ?thesis using that False keep by (simp add: key_def)
  qed
qed

text \<open>
  C31. A failing service is bridged by the last report. An observation with a report that was stored
  at some time answers every later lookup of its key: unchanged for the ten minutes it is fresh,
  also without asking; marked as stale for thirty minutes more, when the service fails; and from
  then on the failure is the answer.
\<close>

theorem weather_bridges_outage:
  fixes icao station :: string and c :: weather_client and v :: observation
  defines "code \<equiv> to_upper (trim_space icao)" and "other \<equiv> to_upper (trim_space station)"
  defines "key \<equiv> cache_key code other"
  assumes "length code = 4" "asciiLetters code" "other = [] \<or> length other = 4 \<and> asciiLetters other" "0 < wx_max c"
    and "wo_METAR v \<noteq> []" "alone_at now env" "service_down e env" "stored \<le> now"
    and "\<forall>s. map_of (wx_stations c) key = Some s \<longrightarrow> sn_HasData (wk_Station s)"
  shows "fst (LookupAt env Runs now now icao station (weather_store stored key (Inr v) (wx_ttl weather_NewClient) c)) =
    (if now < stored + 10 * minute then Inr v
     else if now < stored + 40 * minute then Inr (v\<lparr> wo_Stale := True \<rparr>) else Inl e)"
proof -
  define d where "d = weather_store stored key (Inr v) (10 * minute) c"
  define entry where "entry = \<lparr> wc_Value = Inr v, wc_Expires = stored + 10 * minute, wc_StaleExpires = stored + 40 * minute \<rparr>"
  have d: "map_of (wx_cache d) key = Some entry" "wx_stations d = wx_stations c"
    using assms(7) by (auto simp: d_def weather_store_def move_front_def staleExpiry_def entry_def Let_def take_Cons')
  have clock: "wv_clock env i = now" "wv_others env i x = x" for i x using assms(9) by (simp_all add: alone_at_def)
  have start: "LookupAt env Runs now now icao station d = (case weather_cached now key d of (Some r, c1) \<Rightarrow> (r, c1)
      | (None, c1) \<Rightarrow> (case weather_cached now key c1 of (Some r, c2) \<Rightarrow> (r, c2) | (None, c2) \<Rightarrow> weather_lookup env key code other c2))"
    using assms(4-6) unfolding LookupAt_def Let_def code_def [symmetric] other_def [symmetric] key_def [symmetric] flight_part.case by auto
  show ?thesis
  proof (cases "now < stored + 10 * minute")
    case True
    then show ?thesis unfolding d_def [symmetric] using start d(1) by (simp add: weather_cached_def entry_def d_def weather_NewClient_def)
  next
    case old: False
    define d1 where "d1 = (if now < stored + 40 * minute then d else d\<lparr> wx_cache := AList.delete key (wx_cache d) \<rparr>)"
    have miss: "weather_cached now key d = (None, d1)" using old d(1) by (simp add: weather_cached_def entry_def d1_def)
    have d1: "map_of (wx_cache d1) key = (if now < stored + 40 * minute then Some entry else None)" "wx_stations d1 = wx_stations c"
      using d by (simp_all add: d1_def)
    have miss1: "weather_cached now key d1 = (None, d1)"
      using old d1(1) by (simp add: weather_cached_def entry_def)
    obtain d2 where fail: "(if other = [] \<or> other = code then resolveStation env code d1 else resolveOverride env key code other d1) = (Inl e, d2)"
      "wx_cache d2 = wx_cache d1"
      by (rule failing_resolution [OF assms(9,10), of d1 code other]) (use assms(12) d1(2) in \<open>simp add: key_def\<close>, fold key_def, rule that)
    have "fst (weather_lookup env key code other d1) = (if now < stored + 40 * minute then Inr (v\<lparr> wo_Stale := True \<rparr>) else Inl e)"
      unfolding weather_lookup_def fail(1) using fail(2) d1(1) assms(8) by (simp add: clock weather_stale_def entry_def)
    then show ?thesis unfolding d_def [symmetric] using start miss miss1 old by (simp add: d_def weather_NewClient_def)
  qed
qed

definition demo_failing_env :: "time \<Rightarrow> weather_env" where
  "demo_failing_env now = demo_weather_env\<lparr> wv_clock := (\<lambda>_. now), wv_refresh := (\<lambda>_. Inl ContextDeadline), wv_metar := (\<lambda>_. Inl ContextDeadline) \<rparr>"

theorem weather_bridges_outage_witness:
  "fst (LookupAt (demo_failing_env (20 * minute)) Runs (20 * minute) (20 * minute) ''kpbi'' []
     (weather_store 0 ''KPBI'' (Inr (blank_observation\<lparr> wo_METAR := ''KPBI 10SM'' \<rparr>)) (10 * minute) weather_NewClient)) =
   Inr (blank_observation\<lparr> wo_METAR := ''KPBI 10SM'', wo_Stale := True \<rparr>)"
proof -
  have k: "cache_key ''KPBI'' [] = ''KPBI''" "asciiLetters ''KPBI''" by (simp_all add: cache_key_def asciiLetters_def char_le_iff)
  have e: "alone_at (20 * minute) (demo_failing_env (20 * minute))" "service_down ContextDeadline (demo_failing_env (20 * minute))"
    by (simp_all add: alone_at_def service_down_def demo_failing_env_def demo_weather_env_def)
  show ?thesis
    using weather_bridges_outage [OF _ _ _ _ _ e, of "''kpbi''" "[]" weather_NewClient "blank_observation\<lparr> wo_METAR := ''KPBI 10SM'' \<rparr>" 0]
    by (simp add: demo_codes k weather_NewClient_def)
qed

section \<open>A station whose name spells a condition\<close>

lemma typed_keeps_conditions:
  assumes "trim_space (wd_Weather dto) = []"
  shows "wo_Conditions (applyTypedMETAR PF dto ob) = wo_Conditions ob"
proof -
  have "wo_Conditions (f ob) = wo_Conditions ob"
    if "f \<in> {typed_temperature dto, typed_wind PF dto, typed_visibility PF dto, typed_altimeter dto, typed_clouds dto, typed_conditions dto, typed_category dto}" for f ob
    using that assms
    by (auto simp: typed_temperature_def typed_wind_def typed_visibility_def typed_altimeter_def typed_clouds_def typed_conditions_def
        typed_category_def Let_def split: option.splits prod.splits if_splits)
  then show ?thesis unfolding applyTypedMETAR_def by simp
qed



end
