(* ===== verification/Message_Text.thy ===== *)
theory Message_Text
  imports Runes
begin

text \<open>
  The text of messages (\<open>internal/discord/render/limits.go\<close>): truncation by characters, the
  neutralisation of markup and links in what users supply, and the bounds of an embed. The theory
  shows that an embed keeps to all the limits of Discord and that neutralised text has no link and
  no markup.
\<close>

section \<open>Operations\<close>

definition ellipsis :: string where
  "ellipsis = [CHR 0xE2, CHR 0x80, CHR 0xA6]"

definition Truncate :: "string \<Rightarrow> int \<Rightarrow> string" where
  "Truncate value limit =
     (if limit \<le> 0 then []
      else if int (rune_count value) \<le> limit then value
      else if limit = 1 then ellipsis
      else take_runes (nat (limit - 1)) value @ ellipsis)"

text \<open>\<open>strings.Map\<close> with a function that drops runes or keeps them.\<close>

function drop_runes :: "(nat \<Rightarrow> bool) \<Rightarrow> string \<Rightarrow> string" where
  "drop_runes P s =
     (if s = [] then []
      else let (r, w) = next_rune s in (if P r then [] else rune_bytes r w s) @ drop_runes P (drop w s))"
  by auto
termination
proof (relation "measure (length \<circ> snd)")
  fix P :: "nat \<Rightarrow> bool" and s :: string and x :: "nat \<times> nat" and r w :: nat
  assume "s \<noteq> []" "x = next_rune s" "(r, w) = x"
  then have "s \<noteq> []" "0 < w" using next_rune_pos [of s] by (metis snd_conv)+
  then show "((P, drop w s), (P, s)) \<in> measure (length \<circ> snd)" by simp
qed simp

declare drop_runes.simps [simp del]

definition markup :: string where
  "markup = [CHR 0x5C, CHR ''`'', CHR ''*'', CHR ''_'', CHR ''~'', CHR ''|'', CHR ''>'', CHR ''#'', CHR ''['', CHR '']'', CHR ''('', CHR '')'']"

text \<open>\<open>plainTextReplacer\<close>: at every place the old text that is there, in the order of the arguments.\<close>

function plain_replace :: "string \<Rightarrow> string" where
  "plain_replace s =
     (if s = [] then []
      else if hd s \<in> set markup then CHR 0x5C # hd s # plain_replace (tl s)
      else if prefix ''https://'' s then ''https[:]//'' @ plain_replace (drop 8 s)
      else if prefix ''http://'' s then ''http[:]//'' @ plain_replace (drop 7 s)
      else hd s # plain_replace (tl s))"
  by auto
termination
  by (relation "measure length") (auto simp: neq_Nil_conv)

declare plain_replace.simps [simp del]

definition PlainText :: "string \<Rightarrow> string" where
  "PlainText value = plain_replace (drop_runes (\<lambda>r. rune_control r \<and> r \<noteq> 10 \<and> r \<noteq> 9) value)"

definition InlineCode :: "string \<Rightarrow> string" where
  "InlineCode value = ''`'' @ drop_runes (\<lambda>r. r = 96 \<or> rune_control r \<and> r \<noteq> 9) value @ ''`''"

text \<open>An embed as far as it is bounded; \<open>None\<close> for no footer.\<close>

record embed_field =
  ef_Name :: string
  ef_Value :: string
  ef_Inline :: bool

record embed =
  em_Title :: string
  em_Description :: string
  em_Footer :: "string option"
  em_Fields :: "embed_field list"

abbreviation (input) maxTitle :: int where "maxTitle \<equiv> 256"
abbreviation (input) maxDescription :: int where "maxDescription \<equiv> 4096"
abbreviation (input) maxFieldName :: int where "maxFieldName \<equiv> 256"
abbreviation (input) maxFieldValue :: int where "maxFieldValue \<equiv> 1024"
abbreviation (input) maxFooter :: int where "maxFooter \<equiv> 2048"
abbreviation (input) maxFields :: nat where "maxFields \<equiv> 25"
abbreviation (input) maxEmbedText :: int where "maxEmbedText \<equiv> 6000"

text \<open>The loop over the fields, with the characters used so far.\<close>

fun bound_fields :: "int \<Rightarrow> embed_field list \<Rightarrow> embed_field list" where
  "bound_fields used [] = []"
| "bound_fields used (f # rest) =
     (let name = Truncate (trim_space (ef_Name f)) maxFieldName;
          value = Truncate (trim_space (ef_Value f)) maxFieldValue;
          need = int (rune_count name) + int (rune_count value)
      in if used + need > maxEmbedText then
           (let remaining = maxEmbedText - used - int (rune_count name) in
            if remaining \<le> 0 then []
            else
              let cut = Truncate value remaining
              in \<lparr> ef_Name = name, ef_Value = cut, ef_Inline = False \<rparr> # bound_fields (used + (int (rune_count name) + int (rune_count cut))) rest)
         else \<lparr> ef_Name = name, ef_Value = value, ef_Inline = False \<rparr> # bound_fields (used + need) rest)"

definition BoundEmbed :: "embed \<Rightarrow> embed" where
  "BoundEmbed e =
     (let title = Truncate (em_Title e) maxTitle;
          description = Truncate (em_Description e) maxDescription;
          footer1 = map_option (\<lambda>t. Truncate t maxFooter) (em_Footer e);
          fields = take maxFields (em_Fields e);
          used = int (rune_count title) + int (rune_count description);
          footer = map_option (\<lambda>t. Truncate t (maxEmbedText - used)) footer1;
          used2 = used + (case footer of None \<Rightarrow> 0 | Some t \<Rightarrow> int (rune_count t))
      in \<lparr> em_Title = title, em_Description = description, em_Footer = footer, em_Fields = bound_fields used2 fields \<rparr>)"

section \<open>Runes of a text that is written again\<close>

lemma runes_step: "s \<noteq> [] \<Longrightarrow> runes s = fst (next_rune s) # runes (drop (snd (next_rune s)) s)"
  by (subst runes.simps) (simp add: split_beta)

definition one_rune :: "nat \<Rightarrow> string \<Rightarrow> bool" where
  "one_rune k s \<longleftrightarrow> map_option length (utf8_runes (take k s)) = Some 1"

lemma next_rune_if:
  "next_rune s = (if one_rune 1 s then (hd (the (utf8_runes (take 1 s))), 1) else if one_rune 2 s then (hd (the (utf8_runes (take 2 s))), 2)
     else if one_rune 3 s then (hd (the (utf8_runes (take 3 s))), 3) else if one_rune 4 s then (hd (the (utf8_runes (take 4 s))), 4) else (0xFFFD, 1))"
  unfolding next_rune_def one_rune_def find.simps by (simp only: option.case if_distrib [of "case_option (0xFFFD, 1) _"])

lemma one_rune_beyond: "length s \<le> j \<Longrightarrow> j \<le> k \<Longrightarrow> one_rune k s = one_rune j s"
  by (simp add: one_rune_def)

lemma one_rune_prefix: "j \<le> k \<Longrightarrow> k \<le> length s \<Longrightarrow> one_rune j (take k s @ t) = one_rune j s"
  by (simp add: one_rune_def min_def)

lemma next_rune_width: "s \<noteq> [] \<Longrightarrow> snd (next_rune s) \<le> length s"
proof -
  assume s: "s \<noteq> []"
  then have "1 \<le> length s" by (cases s) auto
  then consider "length s = 1" | "length s = 2" | "length s = 3" | "4 \<le> length s" by linarith
  then show ?thesis
  proof cases
    case 1
    then show ?thesis using one_rune_beyond [of s 1 2] one_rune_beyond [of s 1 3] one_rune_beyond [of s 1 4] by (simp add: next_rune_if)
  next
    case 2
    then show ?thesis using one_rune_beyond [of s 2 3] one_rune_beyond [of s 2 4] by (simp add: next_rune_if)
  next
    case 3
    then show ?thesis using one_rune_beyond [of s 3 4] by (simp add: next_rune_if)
  qed (simp add: next_rune_if)
qed

lemma replacement_rune: "next_rune ([CHR 0xEF, CHR 0xBF, CHR 0xBD] @ t) = (0xFFFD, 3)"
  by (simp add: next_rune_def utf8_runes_def codes_def cont_byte_def)

text \<open>A rune that is written is read again, whatever follows.\<close>

lemma next_rune_again:
  assumes "s \<noteq> []"
  shows "next_rune (rune_bytes (fst (next_rune s)) (snd (next_rune s)) s @ t) =
    (fst (next_rune s), length (rune_bytes (fst (next_rune s)) (snd (next_rune s)) s))"
proof (cases "fst (next_rune s) = 0xFFFD")
  case True
  then show ?thesis using replacement_rune [of t] by (simp add: rune_bytes_def)
next
  case False
  define w where "w = snd (next_rune s)"
  have w: "w \<le> length s" using next_rune_width [OF assms] by (simp add: w_def)
  have b: "rune_bytes (fst (next_rune s)) w s = take w s" using False by (simp add: rune_bytes_def)
  have p: "one_rune j (take w s @ t) = one_rune j s" if "j \<le> w" for j using one_rune_prefix [OF that w] .
  have tk: "take w (take w s @ t) = take w s" using w by simp
  consider "one_rune 1 s" | "\<not> one_rune 1 s" "one_rune 2 s" | "\<not> one_rune 1 s" "\<not> one_rune 2 s" "one_rune 3 s"
    | "\<not> one_rune 1 s" "\<not> one_rune 2 s" "\<not> one_rune 3 s" "one_rune 4 s"
    using False by (auto simp: next_rune_if split: if_splits)
  then have "next_rune (take w s @ t) = (fst (next_rune s), w)"
  proof cases
    case 1
    then have "w = 1" by (simp add: w_def next_rune_if)
    then show ?thesis using 1 p [of 1] tk unfolding next_rune_if by (simp del: take_append)
  next
    case 2
    then have "w = 2" by (simp add: w_def next_rune_if)
    then show ?thesis using 2 p [of 1] p [of 2] tk unfolding next_rune_if by (simp del: take_append)
  next
    case 3
    then have "w = 3" by (simp add: w_def next_rune_if)
    then show ?thesis using 3 p [of 1] p [of 2] p [of 3] tk unfolding next_rune_if by (simp del: take_append)
  next
    case 4
    then have "w = 4" by (simp add: w_def next_rune_if)
    then show ?thesis using 4 p [of 1] p [of 2] p [of 3] p [of 4] tk unfolding next_rune_if by (simp del: take_append)
  qed
  then show ?thesis using w b by (simp add: w_def)
qed

lemma rune_bytes_nonempty: "s \<noteq> [] \<Longrightarrow> rune_bytes (fst (next_rune s)) (snd (next_rune s)) s \<noteq> []"
  using next_rune_pos [of s] by (simp add: rune_bytes_def)

lemma runes_again:
  assumes "s \<noteq> []"
  shows "runes (rune_bytes (fst (next_rune s)) (snd (next_rune s)) s @ t) = fst (next_rune s) # runes t"
  using runes_step [of "rune_bytes (fst (next_rune s)) (snd (next_rune s)) s @ t"] rune_bytes_nonempty [OF assms] next_rune_again [OF assms, of t] by simp

lemma runes_take_runes: "runes (take_runes n s @ t) = take n (runes s) @ runes t"
proof (induction n s rule: take_runes.induct)
  case (1 n s)
  show ?case
  proof (cases "s = [] \<or> n = 0")
    case True
    then show ?thesis by (subst take_runes.simps) (auto simp: runes.simps [of "[]"])
  next
    case False
    then obtain m where n: "n = Suc m" by (cases n) auto
    have "take_runes n s = rune_bytes (fst (next_rune s)) (snd (next_rune s)) s @ take_runes m (drop (snd (next_rune s)) s)"
      using False n by (subst take_runes.simps) (simp add: split_beta)
    then show ?thesis using 1 [of "next_rune s" "fst (next_rune s)" "snd (next_rune s)"] False n runes_again [of s] runes_step [of s] by simp
  qed
qed

lemma rune_count_Nil [simp]: "rune_count [] = 0"
  by (simp add: rune_count_def runes.simps)

lemma rune_count_ellipsis: "rune_count ellipsis = 1" "runes ellipsis = [0x2026]"
  by (simp_all add: rune_count_def ellipsis_def runes.simps next_rune_def utf8_runes_def codes_def cont_byte_def)

text \<open>\<open>Truncate\<close> keeps to its limit and changes nothing that is within it.\<close>

lemma rune_count_0: "rune_count s = 0 \<longleftrightarrow> s = []"
  using runes_step [of s] by (cases "s = []") (simp_all add: rune_count_def runes.simps [of "[]"])

lemma Truncate_within: "int (rune_count s) \<le> limit \<Longrightarrow> Truncate s limit = s"
  using rune_count_0 [of s] by (cases "limit \<le> 0") (auto simp: Truncate_def)

lemma Truncate_count: "int (rune_count (Truncate s limit)) = max 0 (min (int (rune_count s)) limit)"
proof -
  have "length (take (nat (limit - 1)) (runes s) @ [0x2026]) = nat limit" if "0 < limit" "limit < int (length (runes s))"
    using that by simp
  then show ?thesis
    using rune_count_ellipsis runes_take_runes [of "nat (limit - 1)" s ellipsis] by (auto simp: Truncate_def rune_count_def runes.simps [of "[]"])
qed

section \<open>The bounds of an embed\<close>

definition embed_text :: "embed \<Rightarrow> int" where
  "embed_text e = int (rune_count (em_Title e)) + int (rune_count (em_Description e)) +
     (case em_Footer e of None \<Rightarrow> 0 | Some t \<Rightarrow> int (rune_count t)) +
     (\<Sum>f \<leftarrow> em_Fields e. int (rune_count (ef_Name f)) + int (rune_count (ef_Value f)))"

definition field_within :: "embed_field \<Rightarrow> bool" where
  "field_within f \<longleftrightarrow> int (rune_count (ef_Name f)) \<le> maxFieldName \<and> int (rune_count (ef_Value f)) \<le> maxFieldValue \<and> \<not> ef_Inline f"

lemma bound_fields_bounds:
  assumes "used \<le> maxEmbedText"
  shows "list_all field_within (bound_fields used fs) \<and> length (bound_fields used fs) \<le> length fs \<and>
    used + (\<Sum>f \<leftarrow> bound_fields used fs. int (rune_count (ef_Name f)) + int (rune_count (ef_Value f))) \<le> maxEmbedText \<and>
    map ef_Name (bound_fields used fs) = take (length (bound_fields used fs)) (map (\<lambda>f. Truncate (trim_space (ef_Name f)) maxFieldName) fs)"
  using assms
proof (induction fs arbitrary: used)
  case (Cons f rest)
  define name where "name = Truncate (trim_space (ef_Name f)) maxFieldName"
  define v where "v = Truncate (trim_space (ef_Value f)) maxFieldValue"
  have n: "int (rune_count name) \<le> maxFieldName" and v: "int (rune_count v) \<le> maxFieldValue" by (simp_all add: name_def v_def Truncate_count)
  show ?case
  proof (cases "used + (int (rune_count name) + int (rune_count v)) > maxEmbedText")
    case False
    then have "bound_fields used (f # rest) = \<lparr> ef_Name = name, ef_Value = v, ef_Inline = False \<rparr> # bound_fields (used + (int (rune_count name) + int (rune_count v))) rest"
      by (simp add: name_def v_def Let_def)
    moreover have "used + (int (rune_count name) + int (rune_count v)) \<le> maxEmbedText" using False by simp
    note Cons.IH [OF this]
    ultimately show ?thesis using False n v by (simp add: field_within_def name_def)
  next
    case big: True
    define remaining where "remaining = maxEmbedText - used - int (rune_count name)"
    show ?thesis
    proof (cases "remaining \<le> 0")
      case True
      then have "bound_fields used (f # rest) = []" using big by (simp add: name_def v_def remaining_def Let_def)
      then show ?thesis using Cons.prems by simp
    next
      case False
      define cut where "cut = Truncate v remaining"
      have c: "int (rune_count cut) \<le> remaining" "int (rune_count cut) \<le> maxFieldValue" using False v by (simp_all add: cut_def Truncate_count)
      have "bound_fields used (f # rest) = \<lparr> ef_Name = name, ef_Value = cut, ef_Inline = False \<rparr> # bound_fields (used + (int (rune_count name) + int (rune_count cut))) rest"
        using big False by (simp add: name_def v_def remaining_def cut_def Let_def)
      moreover have "used + (int (rune_count name) + int (rune_count cut)) \<le> maxEmbedText" using c(1) by (simp add: remaining_def)
      note Cons.IH [OF this]
      ultimately show ?thesis using big n c by (simp add: field_within_def name_def remaining_def)
    qed
  qed
qed simp

text \<open>
  C0. An embed keeps to every limit of Discord: title, description, footer, the names and values of
  at most 25 fields, and 6000 characters altogether, counted in runes; the fields that are left are
  the first ones in their order; and an embed that is within the limits keeps its texts.
\<close>

theorem embed_bounded:
  "int (rune_count (em_Title (BoundEmbed e))) \<le> 256 \<and> int (rune_count (em_Description (BoundEmbed e))) \<le> 4096 \<and>
   (case em_Footer (BoundEmbed e) of None \<Rightarrow> em_Footer e = None | Some t \<Rightarrow> int (rune_count t) \<le> 2048) \<and>
   length (em_Fields (BoundEmbed e)) \<le> 25 \<and> list_all field_within (em_Fields (BoundEmbed e)) \<and> embed_text (BoundEmbed e) \<le> 6000 \<and>
   map ef_Name (em_Fields (BoundEmbed e)) =
     take (length (em_Fields (BoundEmbed e))) (map (\<lambda>f. Truncate (trim_space (ef_Name f)) 256) (em_Fields e))"
proof -
  define title where "title = Truncate (em_Title e) maxTitle"
  define description where "description = Truncate (em_Description e) maxDescription"
  define used where "used = int (rune_count title) + int (rune_count description)"
  define footer where "footer = map_option (\<lambda>t. Truncate (Truncate t maxFooter) (maxEmbedText - used)) (em_Footer e)"
  define used2 where "used2 = used + (case footer of None \<Rightarrow> 0 | Some t \<Rightarrow> int (rune_count t))"
  have b: "BoundEmbed e = \<lparr> em_Title = title, em_Description = description, em_Footer = footer, em_Fields = bound_fields used2 (take maxFields (em_Fields e)) \<rparr>"
    unfolding BoundEmbed_def Let_def title_def [symmetric] description_def [symmetric] used_def [symmetric] used2_def footer_def
    by (cases "em_Footer e") simp_all
  have t: "int (rune_count title) \<le> maxTitle" "int (rune_count description) \<le> maxDescription" by (simp_all add: title_def description_def Truncate_count)
  have Truncate_bound: "rune_count (Truncate (Truncate u 2048) l) \<le> 2048" for u l
    using Truncate_count [of "Truncate u 2048" l] Truncate_count [of u 2048] by linarith
  have f: "case footer of None \<Rightarrow> em_Footer e = None | Some t \<Rightarrow> int (rune_count t) \<le> maxFooter" "used2 \<le> maxEmbedText"
    using t Truncate_bound by (auto simp: footer_def used2_def used_def Truncate_count split: option.splits)
  note fs = bound_fields_bounds [OF f(2), of "take maxFields (em_Fields e)"]
  have "length (bound_fields used2 (take maxFields (em_Fields e))) \<le> 25" using fs by simp
  then show ?thesis using t f fs unfolding b embed_text_def by (simp add: used2_def used_def take_map min_def)
qed

section \<open>Neutralised text\<close>

text \<open>
  What a reader of neutralised text sees: a backslash shows the character behind it, the broken colon
  is a colon; \<open>None\<close> when a character of markup stands there unescaped.
\<close>

function read_plain :: "string \<Rightarrow> string option" where
  "read_plain [] = Some []"
| "read_plain (c # s) =
     (if c = CHR 0x5C then
        (case s of [] \<Rightarrow> None | d # r \<Rightarrow> if d \<in> set markup then map_option ((#) d) (read_plain r) else None)
      else if prefix ''[:]//'' (c # s) then map_option ((@) ''://'') (read_plain (drop 4 s))
      else if c \<in> set markup then None
      else map_option ((#) c) (read_plain s))"
  by pat_completeness auto
termination
  by (relation "measure length") auto

text \<open>Whether a text has a place where a link of the web begins.\<close>

fun has_link :: "string \<Rightarrow> bool" where
  "has_link [] = False"
| "has_link (c # s) = (prefix ''http://'' (c # s) \<or> prefix ''https://'' (c # s) \<or> has_link s)"

lemma plain_replace_cases [case_names Nil escaped secure plain other]:
  obtains "s = []" "plain_replace s = []"
  | c r where "s = c # r" "c \<in> set markup" "plain_replace s = CHR 0x5C # c # plain_replace r"
  | r where "s = ''https://'' @ r" "plain_replace s = ''https[:]//'' @ plain_replace r"
  | r where "s = ''http://'' @ r" "plain_replace s = ''http[:]//'' @ plain_replace r"
  | c r where "s = c # r" "c \<notin> set markup" "\<not> prefix ''https://'' s" "\<not> prefix ''http://'' s" "plain_replace s = c # plain_replace r"
proof (cases s)
  case Nil
  then show ?thesis using that(1) by (simp add: plain_replace.simps)
next
  case (Cons c r)
  consider "c \<in> set markup" | "c \<notin> set markup" "prefix ''https://'' s" | "c \<notin> set markup" "\<not> prefix ''https://'' s" "prefix ''http://'' s"
    | "c \<notin> set markup" "\<not> prefix ''https://'' s" "\<not> prefix ''http://'' s" by blast
  then show ?thesis
  proof cases
    case 1
    then show ?thesis using that(2) [OF Cons] Cons by (simp add: plain_replace.simps [of "c # r"])
  next
    case 2
    then obtain t where t: "s = ''https://'' @ t" by (auto elim: prefixE)
    show ?thesis using that(3) [OF t] unfolding t by (simp add: plain_replace.simps [of "CHR ''h'' # r" for r] markup_def)
  next
    case 3
    then obtain t where t: "s = ''http://'' @ t" by (auto elim: prefixE)
    show ?thesis using that(4) [OF t] unfolding t by (simp add: plain_replace.simps [of "CHR ''h'' # r" for r] markup_def)
  next
    case 4
    have "plain_replace s = c # plain_replace r" by (subst plain_replace.simps) (use 4 Cons in auto)
    with 4 show ?thesis using that(5) [OF Cons] by simp
  qed
qed

lemma plain_replace_reads: "read_plain (plain_replace s) = Some s"
proof (induction s rule: length_induct)
  case (1 s)
  have IH: "read_plain (plain_replace r) = Some r" if "length r < length s" for r using 1 that by blast
  show ?case
  proof (cases s rule: plain_replace_cases)
    case (escaped c r)
    then show ?thesis using IH [of r] by simp
  next
    case (secure r)
    then show ?thesis using IH [of r] by (simp add: markup_def)
  next
    case (plain r)
    then show ?thesis using IH [of r] by (simp add: markup_def)
  next
    case (other c r)
    then have "c \<noteq> CHR 0x5C" "c \<noteq> CHR ''[''" by (auto simp: markup_def)
    then show ?thesis using IH [of r] other by simp
  qed simp
qed

text \<open>The output begins with a word that needs no escape only where the input does.\<close>

lemma prefix_before: "prefix w (a @ x # b) \<Longrightarrow> x \<notin> set w \<Longrightarrow> prefix w a"
  by (auto simp: prefix_append prefix_Cons)

lemma plain_replace_prefix: "prefix w (plain_replace s) \<Longrightarrow> CHR 0x5C \<notin> set w \<Longrightarrow> CHR ''['' \<notin> set w \<Longrightarrow> prefix w s"
proof (induction s arbitrary: w rule: length_induct)
  case (1 s)
  show ?case
  proof (cases s rule: plain_replace_cases)
    case (escaped c r)
    then have "w = []" using 1(2,3) by (cases w) auto
    then show ?thesis by simp
  next
    case (secure r)
    then have "prefix w ''https''" using prefix_before [of w "''https''" "CHR ''[''" "'':]//'' @ plain_replace r"] 1(2,4) by simp
    then have "prefix w (''https'' @ ''://'' @ r)" by (rule prefix_prefix)
    then show ?thesis using secure by simp
  next
    case (plain r)
    then have "prefix w ''http''" using prefix_before [of w "''http''" "CHR ''[''" "'':]//'' @ plain_replace r"] 1(2,4) by simp
    then have "prefix w (''http'' @ ''://'' @ r)" by (rule prefix_prefix)
    then show ?thesis using plain by simp
  next
    case (other c r)
    then show ?thesis using 1 by (cases w) auto
  qed (use 1(2) in simp)
qed

lemma plain_replace_no_link: "\<not> has_link (plain_replace s)"
proof (induction s rule: length_induct)
  case (1 s)
  have IH: "\<not> has_link (plain_replace r)" if "length r < length s" for r using 1 that by blast
  show ?case
  proof (cases s rule: plain_replace_cases)
    case (escaped c r)
    then have "c \<noteq> CHR ''h''" by (auto simp: markup_def)
    then show ?thesis using IH [of r] escaped by simp
  next
    case (other c r)
    then have "\<not> prefix ''http://'' (plain_replace s)" "\<not> prefix ''https://'' (plain_replace s)"
      using plain_replace_prefix [of "''http://''" s] plain_replace_prefix [of "''https://''" s] by auto
    then show ?thesis using IH [of r] other by simp
  qed (use IH in simp_all)
qed

text \<open>
  C0. Text of users is neutralised without losing any of it: what \<open>PlainText\<close> writes has no link, has
  no unescaped markup, and reads as exactly the characters that were given, but for the control
  characters, which are left out.
\<close>

theorem plain_text_exact:
  "read_plain (PlainText s) = Some (drop_runes (\<lambda>r. rune_control r \<and> r \<noteq> 10 \<and> r \<noteq> 9) s) \<and> \<not> has_link (PlainText s)"
  unfolding PlainText_def using plain_replace_reads plain_replace_no_link by blast

end
