(* ===== verification/Message_Deletion.thy ===== *)
theory Message_Deletion
  imports Moderation Message_Text
begin

text \<open>
  The deletion of a message (\<open>internal/discord/message_deletion.go\<close>, \<open>message_deletion_discord.go\<close>):
  the target that a moderator names, the search for it in the channels of the guild, the permissions
  with the overwrites of a channel, and the way from the command over a confirmation to the deletion.
  The answers of Discord are arguments, each phase with its own; \<open>url.Parse\<close> and \<open>snowflake.Parse\<close>
  are parameters; the goroutines of the search are the steps of a relation.
\<close>

section \<open>Errors\<close>

text \<open>An error of the REST client: an answer of Discord with its code and the HTTP status, if there is one, or another error.\<close>

datatype rest_code = UnknownMessage | UnknownChannel | MissingAccess | LackPermissions | OtherCode nat

datatype rest_error = RestAnswer rest_code "nat option" | RestOther go_error

datatype deletion_error =
    ErrMessageNotFound | ErrMessageAccess | ErrMessageSearchTooLarge | ErrMessageInvalidTarget | ErrMessageRateLimited
  | ErrMessageTemporary | ErrDeletionPermission | ErrRest rest_error

fun isMessageMissingREST :: "rest_error \<Rightarrow> bool" where
  "isMessageMissingREST (RestAnswer code status) = (code = UnknownMessage \<or> code = UnknownChannel \<or> status = Some 404)"
| "isMessageMissingREST (RestOther e) = False"

fun isMessageAccessREST :: "rest_error \<Rightarrow> bool" where
  "isMessageAccessREST (RestAnswer code status) = (code = MissingAccess \<or> code = LackPermissions \<or> status = Some 403)"
| "isMessageAccessREST (RestOther e) = False"

definition classifyMessageRESTError :: "rest_error \<Rightarrow> deletion_error" where
  "classifyMessageRESTError e =
     (if isMessageMissingREST e then ErrMessageNotFound
      else if isMessageAccessREST e then ErrMessageAccess
      else case e of
             RestAnswer code (Some status) \<Rightarrow>
               if status = 429 then ErrMessageRateLimited else if status \<ge> 500 then ErrMessageTemporary else ErrRest e
           | _ \<Rightarrow> ErrRest e)"

fun ended_error :: "deletion_error \<Rightarrow> bool" where
  "ended_error (ErrRest (RestOther e)) = (is_deadline e \<or> is_cancelled e)"
| "ended_error _ = False"

definition messageDeletionErrorCode :: "deletion_error \<Rightarrow> string" where
  "messageDeletionErrorCode e =
     (if e = ErrMessageNotFound then ''message-missing''
      else if e = ErrMessageAccess \<or> e = ErrDeletionPermission then ''manage-messages-missing''
      else if ended_error e then ''timeout''
      else if e = ErrMessageRateLimited then ''discord-rate-limited''
      else if e = ErrMessageTemporary then ''discord-temporary-failure''
      else if e = ErrMessageInvalidTarget then ''message-identity-changed''
      else ''discord-delete-failed'')"

definition messageLookupError :: "deletion_error \<Rightarrow> string" where
  "messageLookupError e =
     (if e = ErrMessageNotFound then ''That message could not be found. Choose its channel or paste the full Discord message link.''
      else if e = ErrMessageAccess \<or> e = ErrDeletionPermission then ''The admin or SkyFeed bot lacks Manage Messages access in the target channel.''
      else if e = ErrMessageSearchTooLarge then
        ''The server has too many searchable channels for an ID-only lookup. Paste the message link or choose its channel.''
      else if e = ErrMessageInvalidTarget then ''Enter a valid Discord message link or numeric message ID from this server.''
      else if e = ErrMessageRateLimited then ''Discord is rate-limiting message operations. Wait a moment, then try again.''
      else if e = ErrMessageTemporary then ''Discord's message service is temporarily unavailable. Try again shortly.''
      else if ended_error e then ''Discord did not finish the message lookup in time. Try again with the message link.''
      else ''Discord could not complete the message operation. Try again shortly.'')"

section \<open>The target\<close>

record message_lookup =
  mlk_GuildID :: u64
  mlk_ModeratorID :: u64
  mlk_Input :: string
  mlk_ChannelID :: u64
  mlk_MessageID :: u64

text \<open>What \<open>url.Parse\<close> finds of a link; the host is without its port, the path is escaped.\<close>

record link_parts =
  lnk_Scheme :: string
  lnk_User :: bool
  lnk_RawQuery :: string
  lnk_Fragment :: string
  lnk_Hostname :: string
  lnk_EscapedPath :: string

definition trim_slashes :: "string \<Rightarrow> string" where
  "trim_slashes s = rev (dropWhile (\<lambda>c. c = CHR ''/'') (rev (dropWhile (\<lambda>c. c = CHR ''/'') s)))"

definition parseMessageLink ::
    "(string \<Rightarrow> link_parts option) \<Rightarrow> (string \<Rightarrow> u64 option) \<Rightarrow> u64 \<Rightarrow> u64 \<Rightarrow> string \<Rightarrow> (u64 \<times> u64) option" where
  "parseMessageLink ParseURL ParseID guildID channelID input =
     (case ParseURL input of
        None \<Rightarrow> None
      | Some l \<Rightarrow>
          if lnk_Scheme l \<noteq> ''https'' \<or> lnk_User l \<or> lnk_RawQuery l \<noteq> [] \<or> lnk_Fragment l \<noteq> [] \<or>
             to_lower (lnk_Hostname l) \<notin> set [''discord.com'', ''www.discord.com'', ''ptb.discord.com'', ''canary.discord.com''] then None
          else (case split_on CHR ''/'' (trim_slashes (lnk_EscapedPath l)) of
                  [p, g, c, m] \<Rightarrow>
                    if p \<noteq> ''channels'' then None
                    else (case (ParseID g, ParseID c, ParseID m) of
                            (Some linkGuild, Some linkChannel, Some linkMessage) \<Rightarrow>
                              if linkGuild \<noteq> guildID \<or> (channelID \<noteq> 0 \<and> channelID \<noteq> linkChannel) then None else Some (linkChannel, linkMessage)
                          | _ \<Rightarrow> None)
                | _ \<Rightarrow> None))"

text \<open>Guild, channel (zero for unknown) and message.\<close>

definition parseMessageTarget ::
    "(string \<Rightarrow> link_parts option) \<Rightarrow> (string \<Rightarrow> u64 option) \<Rightarrow> message_lookup \<Rightarrow> deletion_error + u64 \<times> u64 \<times> u64" where
  "parseMessageTarget ParseURL ParseID lookup =
     (let guildID = mlk_GuildID lookup; channelID = mlk_ChannelID lookup; messageID = mlk_MessageID lookup; input = trim_space (mlk_Input lookup) in
      if guildID = 0 then Inl ErrMessageInvalidTarget
      else if messageID \<noteq> 0 then Inr (guildID, channelID, messageID)
      else if input = [] then Inl ErrMessageInvalidTarget
      else if str_contains ''://'' input then
        (case parseMessageLink ParseURL ParseID guildID channelID input of
           None \<Rightarrow> Inl ErrMessageInvalidTarget
         | Some (linkChannel, linkMessage) \<Rightarrow> Inr (guildID, linkChannel, linkMessage))
      else (case ParseID input of
              None \<Rightarrow> Inl ErrMessageInvalidTarget
            | Some m \<Rightarrow> if m = 0 then Inl ErrMessageInvalidTarget else Inr (guildID, channelID, m)))"

section \<open>Permissions in a channel\<close>

record overwrite =
  ovw_Allow :: permissions
  ovw_Deny :: permissions

datatype channel_type = GuildNewsThread | GuildPublicThread | GuildPrivateThread | OtherChannel nat

record guild_channel =
  gch_ID :: u64
  gch_GuildID :: u64
  gch_Type :: channel_type
  gch_Messages :: bool
  gch_ParentID :: "u64 option"
  gch_Role :: "(u64, overwrite) gomap"
  gch_Member :: "(u64, overwrite) gomap"

definition isThreadType :: "channel_type \<Rightarrow> bool" where
  "isThreadType t \<longleftrightarrow> t = GuildNewsThread \<or> t = GuildPublicThread \<or> t = GuildPrivateThread"

definition apply_overwrite :: "overwrite option \<Rightarrow> permissions \<Rightarrow> permissions" where
  "apply_overwrite o' ps = (case o' of None \<Rightarrow> ps | Some w \<Rightarrow> ps - ovw_Deny w \<union> ovw_Allow w)"

definition effectivePermissions :: "u64 \<Rightarrow> discord_role list \<Rightarrow> u64 \<Rightarrow> u64 list \<Rightarrow> guild_channel \<Rightarrow> permissions" where
  "effectivePermissions guild roles user roleIDs channel =
     (let permissions = memberPermissions guild roles roleIDs in
      if PermAdministrator \<in> permissions then UNIV
      else
        let permissions1 = apply_overwrite (map_of (gch_Role channel) guild) permissions;
            (allow, deny) = fold (\<lambda>role (allow, deny).
               case map_of (gch_Role channel) role of None \<Rightarrow> (allow, deny) | Some w \<Rightarrow> (allow \<union> ovw_Allow w, deny \<union> ovw_Deny w)) roleIDs ({}, {})
        in apply_overwrite (map_of (gch_Member channel) user) (permissions1 - deny \<union> allow))"

section \<open>Discord\<close>

record discord_message =
  dms_ID :: u64
  dms_ChannelID :: u64
  dms_GuildID :: "u64 option"
  dms_AuthorID :: u64
  dms_CreatedAt :: time
  dms_Content :: string
  dms_Embeds :: "(string \<times> string) list"
  dms_Attachments :: nat
  dms_Pinned :: bool

text \<open>
  The answers: owner and roles of the guild, the roles of a member, a channel (\<open>None\<close> when it is not
  one of a guild), a message of a channel, the channels and the active threads, the result of a
  deletion, and the outcome of a search in these channels, which is one that the steps below can have;
  none of it is asked while the client is not ready.
\<close>

record deletion_rest =
  dlr_Ready :: bool
  dlr_Guild :: "rest_error + u64 \<times> discord_role list"
  dlr_Member :: "u64 \<Rightarrow> rest_error + u64 list"
  dlr_Channel :: "u64 \<Rightarrow> rest_error + guild_channel option"
  dlr_Message :: "u64 \<Rightarrow> u64 \<Rightarrow> rest_error + discord_message"
  dlr_Channels :: "rest_error + guild_channel list"
  dlr_Threads :: "rest_error + u64 list"
  dlr_Delete :: "rest_error option"
  dlr_Search :: "u64 list \<Rightarrow> u64 \<Rightarrow> deletion_error + u64 \<times> discord_message"

text \<open>A thread has the permissions of its parent.\<close>

definition permissionChannel :: "deletion_rest \<Rightarrow> guild_channel \<Rightarrow> rest_error + guild_channel" where
  "permissionChannel rest channel =
     (case (if isThreadType (gch_Type channel) then gch_ParentID channel else None) of
        None \<Rightarrow> Inr channel
      | Some p \<Rightarrow> (case dlr_Channel rest p of Inl e \<Rightarrow> Inl e | Inr None \<Rightarrow> Inr channel | Inr (Some parent) \<Rightarrow> Inr parent))"

definition requireManageMessages :: "deletion_rest \<Rightarrow> u64 \<Rightarrow> u64 \<Rightarrow> u64 \<Rightarrow> u64 \<Rightarrow> deletion_error option" where
  "requireManageMessages rest botUserID guildID channelID moderatorID =
     (case dlr_Guild rest of Inl e \<Rightarrow> Some (classifyMessageRESTError e)
      | Inr (owner, roles) \<Rightarrow>
      (case dlr_Member rest moderatorID of Inl e \<Rightarrow> Some (classifyMessageRESTError e)
       | Inr moderatorRoles \<Rightarrow>
       (case dlr_Member rest botUserID of Inl e \<Rightarrow> Some (classifyMessageRESTError e)
        | Inr botRoles \<Rightarrow>
        (case dlr_Channel rest channelID of Inl e \<Rightarrow> Some (classifyMessageRESTError e)
         | Inr None \<Rightarrow> Some ErrMessageInvalidTarget
         | Inr (Some channel) \<Rightarrow>
             if gch_GuildID channel \<noteq> guildID then Some ErrMessageInvalidTarget
             else (case permissionChannel rest channel of Inl e \<Rightarrow> Some (classifyMessageRESTError e)
                   | Inr c \<Rightarrow>
                       if moderatorID \<noteq> owner \<and> PermManageMessages \<notin> effectivePermissions guildID roles moderatorID moderatorRoles c
                       then Some ErrDeletionPermission
                       else if \<not> {PermViewChannel, PermReadHistory, PermManageMessages} \<subseteq> effectivePermissions guildID roles botUserID botRoles c
                       then Some ErrMessageAccess
                       else None)))))"

section \<open>Finding and deleting\<close>

record message_target =
  mtg_GuildID :: u64
  mtg_ChannelID :: u64
  mtg_MessageID :: u64
  mtg_AuthorID :: u64
  mtg_CreatedAt :: time
  mtg_Preview :: string
  mtg_Pinned :: bool

definition messageTarget :: "discord_message \<Rightarrow> message_target" where
  "messageTarget m =
     (let text0 = trim_space (dms_Content m);
          text1 = (case dms_Embeds m of (title, description) # _ \<Rightarrow> if text0 = [] then trim_space (title @ '' '' @ description) else text0 | [] \<Rightarrow> text0);
          text2 = (if text1 = [] \<and> dms_Attachments m > 0 then format_nat (dms_Attachments m) @ '' attachment(s)'' else text1)
      in \<lparr> mtg_GuildID = (case dms_GuildID m of None \<Rightarrow> 0 | Some g \<Rightarrow> g), mtg_ChannelID = dms_ChannelID m, mtg_MessageID = dms_ID m,
           mtg_AuthorID = dms_AuthorID m, mtg_CreatedAt = dms_CreatedAt m, mtg_Preview = text2, mtg_Pinned = dms_Pinned m \<rparr>)"

text \<open>The channels and threads that a search looks into: sorted, each once.\<close>

definition searchChannels :: "deletion_rest \<Rightarrow> deletion_error + u64 list" where
  "searchChannels rest =
     (case dlr_Channels rest of Inl e \<Rightarrow> Inl (classifyMessageRESTError e)
      | Inr channels \<Rightarrow>
          (case dlr_Threads rest of
             Inl e \<Rightarrow> if isMessageMissingREST e then Inr (sorted_list_of_set (gch_ID ` set (filter gch_Messages channels)))
                      else Inl (classifyMessageRESTError e)
           | Inr threads \<Rightarrow> Inr (sorted_list_of_set (gch_ID ` set (filter gch_Messages channels) \<union> set threads))))"

definition searchMessage :: "deletion_rest \<Rightarrow> u64 \<Rightarrow> deletion_error + u64 \<times> discord_message" where
  "searchMessage rest messageID =
     (case searchChannels rest of Inl e \<Rightarrow> Inl e
      | Inr ids \<Rightarrow> if length ids > 100 then Inl ErrMessageSearchTooLarge else dlr_Search rest ids messageID)"

definition notReady :: deletion_error where
  "notReady = ErrRest (RestOther (Plain ''discord message deletion is not ready''))"

definition ResolveMessage ::
    "(string \<Rightarrow> link_parts option) \<Rightarrow> (string \<Rightarrow> u64 option) \<Rightarrow> u64 \<Rightarrow> deletion_rest \<Rightarrow> message_lookup \<Rightarrow> deletion_error + message_target" where
  "ResolveMessage ParseURL ParseID botUserID rest lookup =
     (if \<not> dlr_Ready rest then Inl notReady
      else case parseMessageTarget ParseURL ParseID lookup of Inl e \<Rightarrow> Inl e
      | Inr (guildID, channelID, messageID) \<Rightarrow>
          (case (if channelID \<noteq> 0
                 then (case dlr_Message rest channelID messageID of Inl e \<Rightarrow> Inl (classifyMessageRESTError e) | Inr m \<Rightarrow> Inr (channelID, m))
                 else searchMessage rest messageID) of
             Inl e \<Rightarrow> Inl e
           | Inr (channel, m) \<Rightarrow>
               if dms_ID m \<noteq> messageID \<or> dms_ChannelID m \<noteq> channel \<or> dms_GuildID m \<noteq> Some guildID then Inl ErrMessageInvalidTarget
               else (case requireManageMessages rest botUserID guildID channel (mlk_ModeratorID lookup) of
                       Some e \<Rightarrow> Inl e
                     | None \<Rightarrow> Inr (messageTarget m))))"

text \<open>What is sent to Discord: the channel, the message, and the reason in the audit log.\<close>

datatype deletion_action = DeleteDiscordMessage u64 u64 string

definition stringsMapNoControls :: "string \<Rightarrow> string" where
  "stringsMapNoControls value = drop_runes rune_control value"

definition DeleteMessage ::
    "u64 \<Rightarrow> deletion_rest \<Rightarrow> int \<Rightarrow> u64 \<Rightarrow> message_target \<Rightarrow> string \<Rightarrow> deletion_error option \<times> deletion_action list" where
  "DeleteMessage botUserID rest caseID moderatorID target reason =
     (if \<not> dlr_Ready rest then (Some notReady, [])
      else if mtg_GuildID target = 0 \<or> mtg_ChannelID target = 0 \<or> mtg_MessageID target = 0 \<or> moderatorID = 0 then (Some ErrMessageInvalidTarget, [])
      else case requireManageMessages rest botUserID (mtg_GuildID target) (mtg_ChannelID target) moderatorID of
             Some e \<Rightarrow> (Some e, [])
           | None \<Rightarrow>
               (case dlr_Message rest (mtg_ChannelID target) (mtg_MessageID target) of
                  Inl e \<Rightarrow> (Some (classifyMessageRESTError e), [])
                | Inr m \<Rightarrow>
                    if dms_AuthorID m \<noteq> mtg_AuthorID target \<or> dms_CreatedAt m \<noteq> mtg_CreatedAt target then (Some ErrMessageInvalidTarget, [])
                    else (map_option classifyMessageRESTError (dlr_Delete rest),
                          [DeleteDiscordMessage (mtg_ChannelID target) (mtg_MessageID target)
                            (Truncate (stringsMapNoControls (''SkyFeed case '' @ format_int caseID @ '': '' @ reason)) 480)])))"

section \<open>The bindings of messages\<close>

record message_binding =
  mbd_GuildID :: u64
  mbd_Purpose :: string
  mbd_ChannelID :: u64
  mbd_MessageID :: u64

definition MessageBinding :: "u64 \<Rightarrow> string \<Rightarrow> message_binding list \<Rightarrow> message_binding option" where
  "MessageBinding guild purpose bs = find (\<lambda>b. mbd_GuildID b = guild \<and> mbd_Purpose b = purpose) bs"

definition DeleteMessageBindingByTarget :: "u64 \<Rightarrow> u64 \<Rightarrow> u64 \<Rightarrow> message_binding list \<Rightarrow> message_binding list" where
  "DeleteMessageBindingByTarget guild channel message bs =
     filter (\<lambda>b. \<not> (mbd_GuildID b = guild \<and> mbd_ChannelID b = channel \<and> mbd_MessageID b = message)) bs"

definition managedMessage :: "message_target \<Rightarrow> message_binding list \<Rightarrow> bool" where
  "managedMessage target bs \<longleftrightarrow> list_ex (\<lambda>purpose.
     case MessageBinding (mtg_GuildID target) purpose bs of None \<Rightarrow> False
     | Some b \<Rightarrow> mbd_ChannelID b = mtg_ChannelID target \<and> mbd_MessageID b = mtg_MessageID target) [''dashboard'', ''flight-leaders'']"

section \<open>The way to a deletion\<close>

datatype deletion_reply =
    DeletionUnavailable | DeletionStorageDown | DeletionTierMissing | DeletionNativeMissing | DeletionNoMessage
  | DeletionTooMany | DeletionFormFailed | DeletionForm string | DeletionFormExpired | DeletionReasonRefused request_error
  | DeletionLookupFailed string | DeletionConfirmExpired | DeletionConfirm session bool bool
  | DeletionCancelled | DeletionControlInvalid | DeletionAuthorizationChanged
  | DeletionNotCreated | DeletionNotFinalized int | NothingDeletedNotFinalized int | DeletionFailed int string | MessageDeleted int bool

text \<open>
  The environment of a phase: the readings of the clock, what Discord answers while the message is
  resolved and while it is deleted, and the errors of the database.
\<close>

record deletion_env =
  den_now :: time
  den_doneAt :: time
  den_bot :: u64
  den_ParseURL :: "string \<Rightarrow> link_parts option"
  den_ParseID :: "string \<Rightarrow> u64 option"
  den_resolve :: deletion_rest
  den_delete :: deletion_rest
  den_createErr :: "go_error option"
  den_ended :: bool
  den_completeErr :: "go_error option"
  den_bindingErr :: bool

definition prepareMessageDeletion ::
    "deletion_env \<Rightarrow> session \<Rightarrow> string \<Rightarrow> string \<Rightarrow> message_binding list \<Rightarrow> session_manager \<Rightarrow> deletion_reply \<times> session_manager" where
  "prepareMessageDeletion env s0 reason input bs m =
     (case ResolveMessage (den_ParseURL env) (den_ParseID env) (den_bot env) (den_resolve env)
             \<lparr> mlk_GuildID = ses_GuildID s0, mlk_ModeratorID = ses_UserID s0, mlk_Input = input,
               mlk_ChannelID = ses_TargetChannelID s0, mlk_MessageID = ses_TargetMessageID s0 \<rparr> of
        Inl e \<Rightarrow> (DeletionLookupFailed (messageLookupError e), session_Delete (ses_ID s0) m)
      | Inr target \<Rightarrow>
          let s = s0\<lparr> ses_TargetID := mtg_AuthorID target, ses_TargetChannelID := mtg_ChannelID target, ses_TargetMessageID := mtg_MessageID target,
                ses_TargetMessageCreatedAt := mtg_CreatedAt target, ses_TargetPreview := Truncate (trim_space (mtg_Preview target)) 300, ses_Reason := reason \<rparr>
          in case session_Update (den_now env) s m of
               (Inl e, m1) \<Rightarrow> (DeletionConfirmExpired, m1)
             | (Inr _, m1) \<Rightarrow> (DeletionConfirm s (mtg_Pinned target) (managedMessage target bs), m1))"

text \<open>\<open>/moderation delete-message\<close>, after the guards of \<open>handleModeration\<close>.\<close>

definition beginMessageDeletion ::
    "deletion_env \<Rightarrow> time \<Rightarrow> time \<Rightarrow> time \<Rightarrow> (nat \<Rightarrow> string option) \<Rightarrow> command_request \<Rightarrow> message_binding list \<Rightarrow> session_manager
     \<Rightarrow> deletion_reply \<times> session_manager" where
  "beginMessageDeletion env now1 now2 now3 random q bs m =
     (case validateModerationReason (option_or [] (mrq_Strings q) ''reason'') of
        Inl e \<Rightarrow> (DeletionReasonRefused e, m)
      | Inr reason \<Rightarrow>
          (case CreateWithTTL now1 now2 random \<lparr> sq_user = mrq_UserID q, sq_guild = mrq_GuildID q, sq_channel = mrq_ChannelID q,
                  sq_view = ''message-delete'', sq_sort = [], sq_query = [], sq_squawk = [] \<rparr> minute m of
             (Inl e, m1) \<Rightarrow> (DeletionTooMany, m1)
           | (Inr s0, m1) \<Rightarrow>
               let s = s0\<lparr> ses_TargetChannelID := option_or 0 (mrq_IDs q) ''channel'' \<rparr>
               in case session_Update now3 s m1 of
                    (Inl e, m2) \<Rightarrow> (DeletionFormFailed, m2)
                  | (Inr _, m2) \<Rightarrow> prepareMessageDeletion env s reason (option_or [] (mrq_Strings q) ''message'') bs m2))"

definition handleDeleteMessageContext ::
    "moderation_router \<Rightarrow> time \<Rightarrow> time \<Rightarrow> time \<Rightarrow> (nat \<Rightarrow> string option) \<Rightarrow> command_request \<Rightarrow> session_manager \<Rightarrow> deletion_reply \<times> session_manager" where
  "handleDeleteMessageContext r now1 now2 now3 random q m =
     (if \<not> mro_repository r \<or> \<not> mro_deletion r then (DeletionUnavailable, m)
      else if mro_ensureErr r \<noteq> None then (DeletionStorageDown, m)
      else if \<not> authorizedTier (mro_bindings r) (mrq_RoleIDs q) (mrq_Administrator q) ''admin'' then (DeletionTierMissing, m)
      else if \<not> mrq_Administrator q \<and> PermManageMessages \<notin> mrq_Permissions q then (DeletionNativeMissing, m)
      else if option_or 0 (mrq_IDs q) ''message'' = 0 \<or> option_or 0 (mrq_IDs q) ''channel'' = 0 then (DeletionNoMessage, m)
      else case CreateWithTTL now1 now2 random \<lparr> sq_user = mrq_UserID q, sq_guild = mrq_GuildID q, sq_channel = mrq_ChannelID q,
                  sq_view = ''message-delete'', sq_sort = [], sq_query = [], sq_squawk = [] \<rparr> minute m of
             (Inl e, m1) \<Rightarrow> (DeletionTooMany, m1)
           | (Inr s0, m1) \<Rightarrow>
               let s = s0\<lparr> ses_TargetChannelID := option_or 0 (mrq_IDs q) ''channel'', ses_TargetMessageID := option_or 0 (mrq_IDs q) ''message'' \<rparr>
               in case session_Update now3 s m1 of
                    (Inl e, m2) \<Rightarrow> (DeletionFormFailed, m2)
                  | (Inr _, m2) \<Rightarrow> (case CustomID (ses_ID s) ''delete-reason'' of Inl e \<Rightarrow> (DeletionFormFailed, m2) | Inr modal \<Rightarrow> (DeletionForm modal, m2)))"

text \<open>The user, guild and channel of the request.\<close>

definition handleDeleteReasonModal ::
    "deletion_env \<Rightarrow> time \<Rightarrow> string \<Rightarrow> u64 \<Rightarrow> u64 \<Rightarrow> u64 \<Rightarrow> (string, string) gomap \<Rightarrow> message_binding list \<Rightarrow> session_manager
     \<Rightarrow> deletion_reply \<times> session_manager" where
  "handleDeleteReasonModal env now sid user guild channel values bs m =
     (case session_Get now sid user guild channel m of
        (Inl e, m1) \<Rightarrow> (DeletionFormExpired, m1)
      | (Inr s, m1) \<Rightarrow>
          if ses_View s \<noteq> ''message-delete'' then (DeletionFormExpired, m1)
          else (case validateModerationReason (option_or [] values ''reason'') of
                  Inl e \<Rightarrow> (DeletionReasonRefused e, m1)
                | Inr reason \<Rightarrow> prepareMessageDeletion env s reason [] bs m1))"

definition completeFailedMessageDeletion ::
    "deletion_env \<Rightarrow> int \<Rightarrow> u64 \<Rightarrow> deletion_error \<Rightarrow> string \<Rightarrow> moderation_db \<Rightarrow> deletion_reply \<times> moderation_db" where
  "completeFailedMessageDeletion env i guild e detail db =
     (case CompleteModerationCase (den_doneAt env) (den_ended env) (den_completeErr env) i guild ''failed'' ''not-attempted''
             (messageDeletionErrorCode e) (den_doneAt env) db of
        (Some e', db') \<Rightarrow> (NothingDeletedNotFinalized i, db')
      | (None, db') \<Rightarrow> (DeletionFailed i detail, db'))"

definition executeMessageDeletion ::
    "deletion_env \<Rightarrow> session \<Rightarrow> moderation_db \<Rightarrow> message_binding list
     \<Rightarrow> deletion_reply \<times> deletion_action list \<times> moderation_db \<times> message_binding list" where
  "executeMessageDeletion env s db bs =
     (let requested = \<lparr> mdc_ID = 0, mdc_GuildID = ses_GuildID s, mdc_ModeratorID = ses_UserID s, mdc_TargetUserID = ses_TargetID s,
            mdc_TargetChannelID = ses_TargetChannelID s, mdc_TargetMessageID = ses_TargetMessageID s,
            mdc_TargetMessageCreatedAt = ses_TargetMessageCreatedAt s, mdc_Action = ''delete-message'', mdc_Reason = ses_Reason s,
            mdc_Duration = 0, mdc_DeleteMessageDuration = 0, mdc_Status = [], mdc_DMStatus = [], mdc_ErrorCode = [],
            mdc_CreatedAt = den_now env, mdc_CompletedAt = time_zero \<rparr>
      in case CreateModerationCase (den_now env) (den_createErr env) requested db of
           (Inl e, db1) \<Rightarrow> (DeletionNotCreated, [], db1, bs)
         | (Inr moderationCase, db1) \<Rightarrow>
             let i = mdc_ID moderationCase in
             (case ResolveMessage (den_ParseURL env) (den_ParseID env) (den_bot env) (den_resolve env)
                     \<lparr> mlk_GuildID = ses_GuildID s, mlk_ModeratorID = ses_UserID s, mlk_Input = [],
                       mlk_ChannelID = ses_TargetChannelID s, mlk_MessageID = ses_TargetMessageID s \<rparr> of
                Inl e \<Rightarrow> (let (reply, db2) = completeFailedMessageDeletion env i (ses_GuildID s) e (messageLookupError e) db1 in (reply, [], db2, bs))
              | Inr target \<Rightarrow>
                  if mtg_AuthorID target \<noteq> ses_TargetID s \<or> mtg_CreatedAt target \<noteq> ses_TargetMessageCreatedAt s then
                    (let (reply, db2) = completeFailedMessageDeletion env i (ses_GuildID s) ErrMessageInvalidTarget
                           ''The target message changed identity before confirmation; nothing was deleted.'' db1 in (reply, [], db2, bs))
                  else
                    (let (deleteErr, actions) = DeleteMessage (den_bot env) (den_delete env) i (ses_UserID s) target (ses_Reason s);
                         (status, errorCode) = (case deleteErr of None \<Rightarrow> (''succeeded'', []) | Some e \<Rightarrow> (''failed'', messageDeletionErrorCode e));
                         (completeErr, db2) = CompleteModerationCase (den_doneAt env) (den_ended env) (den_completeErr env) i (ses_GuildID s)
                           status ''not-attempted'' errorCode (den_doneAt env) db1
                     in case completeErr of
                          Some e \<Rightarrow> (DeletionNotFinalized i, actions, db2, bs)
                        | None \<Rightarrow>
                            (case deleteErr of
                               Some e \<Rightarrow> (DeletionFailed i (messageLookupError e), actions, db2, bs)
                             | None \<Rightarrow>
                                 if den_bindingErr env then (MessageDeleted i False, actions, db2, bs)
                                 else (MessageDeleted i True, actions, db2,
                                       DeleteMessageBindingByTarget (ses_GuildID s) (mtg_ChannelID target) (mtg_MessageID target) bs)))))"

definition handleDeleteMessageComponent ::
    "moderation_router \<Rightarrow> deletion_env \<Rightarrow> component_request \<Rightarrow> session \<Rightarrow> string \<Rightarrow> session_manager \<Rightarrow> moderation_db \<Rightarrow> message_binding list
     \<Rightarrow> deletion_reply \<times> deletion_action list \<times> session_manager \<times> moderation_db \<times> message_binding list" where
  "handleDeleteMessageComponent r env q s action m db bs =
     (if action = ''delete-cancel'' then (DeletionCancelled, [], session_Delete (ses_ID s) m, db, bs)
      else if action \<noteq> ''delete-confirm'' then (DeletionControlInvalid, [], m, db, bs)
      else if \<not> authorizedTier (mro_bindings r) (cpr_RoleIDs q) (cpr_Administrator q) ''admin''
        then (DeletionAuthorizationChanged, [], session_Delete (ses_ID s) m, db, bs)
      else (let (reply, actions, db', bs') = executeMessageDeletion env s db bs in (reply, actions, session_Delete (ses_ID s) m, db', bs')))"

text \<open>The way of a press of a button to it.\<close>

definition deletion_component ::
    "moderation_router \<Rightarrow> deletion_env \<Rightarrow> time \<Rightarrow> string \<Rightarrow> component_request \<Rightarrow> session_manager \<Rightarrow> moderation_db \<Rightarrow> message_binding list
     \<Rightarrow> deletion_reply \<times> deletion_action list \<times> session_manager \<times> moderation_db \<times> message_binding list" where
  "deletion_component r env now customID q m db bs =
     (case ParseCustomID customID of
        Inl e \<Rightarrow> (DeletionControlInvalid, [], m, db, bs)
      | Inr (sid, action) \<Rightarrow>
          (case session_Get now sid (cpr_UserID q) (cpr_GuildID q) (cpr_ChannelID q) m of
             (Inl e, m1) \<Rightarrow> (DeletionControlInvalid, [], m1, db, bs)
           | (Inr s, m1) \<Rightarrow>
               if ses_View s = ''message-delete'' then handleDeleteMessageComponent r env q s action m1 db bs
               else (DeletionControlInvalid, [], m1, db, bs)))"

section \<open>The search under every interleaving\<close>

text \<open>
  A worker waits for a channel, asks Discord for the message in it, has told the outcome and is to
  cancel the search, or has returned. The state is the channels the producer has left, whether
  the queue is closed, the workers, the two buffers of one element, whether the context of the search
  and that of the caller have ended, and what the caller has chosen to return.
\<close>

datatype search_worker = Waits | Asks u64 | Tells | Returned

record message_search =
  sch_left :: "u64 list"
  sch_closed :: bool
  sch_workers :: "search_worker list"
  sch_found :: "(u64 \<times> discord_message) option"
  sch_failure :: "rest_error option"
  sch_cancelled :: bool
  sch_ended :: bool
  sch_result :: "(deletion_error + u64 \<times> discord_message) option"

definition search_start :: "u64 list \<Rightarrow> message_search" where
  "search_start ids = \<lparr> sch_left = ids, sch_closed = False, sch_workers = replicate 4 Waits, sch_found = None, sch_failure = None,
     sch_cancelled = False, sch_ended = False, sch_result = None \<rparr>"

text \<open>What a worker does with an error: it returns when the search has been cancelled, goes on after a channel
  without the message or without access, and reports any other.\<close>

definition worker_error :: "nat \<Rightarrow> rest_error \<Rightarrow> message_search \<Rightarrow> message_search" where
  "worker_error i e y =
     (if sch_cancelled y then y\<lparr> sch_workers := (sch_workers y)[i := Returned] \<rparr>
      else if isMessageMissingREST e \<or> isMessageAccessREST e then y\<lparr> sch_workers := (sch_workers y)[i := Waits] \<rparr>
      else if sch_failure y = None then y\<lparr> sch_failure := Some e, sch_workers := (sch_workers y)[i := Tells] \<rparr>
      else y\<lparr> sch_workers := (sch_workers y)[i := Returned] \<rparr>)"

definition worker_message :: "nat \<Rightarrow> u64 \<Rightarrow> discord_message \<Rightarrow> message_search \<Rightarrow> message_search" where
  "worker_message i c m y =
     (if sch_found y = None then y\<lparr> sch_found := Some (c, m), sch_workers := (sch_workers y)[i := Tells] \<rparr>
      else y\<lparr> sch_workers := (sch_workers y)[i := Returned] \<rparr>)"

inductive search_step :: "(u64 \<Rightarrow> rest_error + discord_message) \<Rightarrow> message_search \<Rightarrow> message_search \<Rightarrow> bool" for answer where
  send: "sch_left y = c # cs \<Longrightarrow> \<not> sch_closed y \<Longrightarrow> i < length (sch_workers y) \<Longrightarrow> sch_workers y ! i = Waits \<Longrightarrow>
    search_step answer y (y\<lparr> sch_left := cs, sch_workers := (sch_workers y)[i := Asks c] \<rparr>)"
| close: "sch_left y = [] \<or> sch_cancelled y \<Longrightarrow> \<not> sch_closed y \<Longrightarrow> search_step answer y (y\<lparr> sch_closed := True \<rparr>)"
| leave: "sch_closed y \<Longrightarrow> i < length (sch_workers y) \<Longrightarrow> sch_workers y ! i = Waits \<Longrightarrow>
    search_step answer y (y\<lparr> sch_workers := (sch_workers y)[i := Returned] \<rparr>)"
| found: "i < length (sch_workers y) \<Longrightarrow> sch_workers y ! i = Asks c \<Longrightarrow> answer c = Inr m \<Longrightarrow> search_step answer y (worker_message i c m y)"
| error: "i < length (sch_workers y) \<Longrightarrow> sch_workers y ! i = Asks c \<Longrightarrow> answer c = Inl e \<or> sch_cancelled y \<Longrightarrow>
    search_step answer y (worker_error i e y)"
| tell: "i < length (sch_workers y) \<Longrightarrow> sch_workers y ! i = Tells \<Longrightarrow>
    search_step answer y (y\<lparr> sch_cancelled := True, sch_workers := (sch_workers y)[i := Returned] \<rparr>)"
| expire: "\<not> sch_ended y \<Longrightarrow> search_step answer y (y\<lparr> sch_ended := True, sch_cancelled := True \<rparr>)"
| take_found: "sch_result y = None \<Longrightarrow> sch_found y = Some x \<Longrightarrow>
    search_step answer y (y\<lparr> sch_result := Some (Inr x), sch_found := None, sch_cancelled := True \<rparr>)"
| take_failure: "sch_result y = None \<Longrightarrow> sch_failure y = Some e \<Longrightarrow>
    search_step answer y (y\<lparr> sch_result := Some (Inl (classifyMessageRESTError e)), sch_failure := None, sch_cancelled := True \<rparr>)"
| take_done: "sch_result y = None \<Longrightarrow> list_all (\<lambda>w. w = Returned) (sch_workers y) \<Longrightarrow>
    search_step answer y (y\<lparr> sch_result := Some (Inl ErrMessageNotFound), sch_cancelled := True \<rparr>)"
| take_ended: "sch_result y = None \<Longrightarrow> sch_ended y \<Longrightarrow> e = ContextDeadline \<or> e = ContextCanceled \<Longrightarrow>
    search_step answer y (y\<lparr> sch_result := Some (Inl (ErrRest (RestOther e))) , sch_cancelled := True \<rparr>)"

end
