(* ===== verification/Spec2Isabelle.thy ===== *)
theory Spec2Isabelle
  imports Source_Props State_Engine_Props Feeder_Manager_Props Rule_Index_Props Rule_Engine_Props Alert_Queue Feeder_Monitor
    Interesting Movement_Props Track_Plot_Props Report_Props Agent_Replay Sessions_Props Enrichment_Props
    Outbound_Props Alert_Delivery_Props Schedules_Props Aircraft_Points_Props Moderation_Props Weather_Lookup_Props Message_Deletion
begin

text \<open>
  \<^bold>\<open>SkyFeed: a verification of its core.\<close>

  SkyFeed polls ADS-B feeders (an ultrafeeder's readsb, or remote providers behind a fail-over
  chain), keeps a consistent snapshot of the traffic per feeder, merges the feeders into one
  aggregate, evaluates watch rules, emergencies, feeder outages, airport movements and a list
  of notable aircraft over it, and queues the resulting alerts for delivery to Discord. This
  development models that pipeline and proves what each stage promises to the next.

  \<^bold>\<open>The parts and how they interact.\<close> A poller of \<open>internal/state\<close> fetches from a source of
  \<open>internal/source\<close> and stores a snapshot; the manager of \<open>internal/state\<close> collects the
  snapshots of all feeders, also those remote agents send through \<open>internal/source/agent\<close>, and
  rebuilds the aggregate; the engine and the monitors of \<open>internal/rules\<close> and the store of
  \<open>internal/track\<close> read snapshots; the alerts go through the queue of \<open>internal/rules\<close>. A snapshot is
  immutable, so the interface between a producer and its readers is the locale
  \<open>snapshot_reader\<close> (every snapshot in a reachable state is well formed, hence a lookup
  is exact), interpreted for the engine alone, for the engine under its two pollers and for
  the manager of the feeders; the monitors are machines from snapshots to alerts and share
  the locale \<open>monitor\<close> (a property of a run is proved from a property of a step), interpreted
  for the feeder monitor, the interesting monitor and a track of the movement monitor.

  \<^bold>\<open>The theories.\<close>
  \<^item> \<open>Go_Prelude\<close>: what the source uses of Go and of its standard library: wrapping and
    saturating arithmetic of \<open>time.Duration\<close>, \<open>strings.TrimSpace\<close>, \<open>ToUpper\<close>, \<open>Split\<close> and
    \<open>Join\<close>, \<open>strconv.Itoa\<close>, maps (association lists with distinct keys, the locale \<open>go_map\<close>),
    runs of monitors.
  \<^item> \<open>Domain\<close> (\<open>internal/domain\<close>): the shared records: aircraft, snapshot, health, rules,
    alerts, settings, enrichment; \<open>LookupICAO\<close>, \<open>EmergencyActive\<close>, feeder identifiers.
  \<^item> \<open>Geo\<close>: the great-circle computations that \<open>internal/state\<close>, \<open>internal/rules\<close>,
    and \<open>internal/track\<close> each write for themselves; they agree, distances are
    in range and symmetric, bearings are in \<open>[0, 360)\<close>.
  \<^item> \<open>Source\<close>, \<open>Source_Props\<close> (\<open>internal/source/source.go\<close>, \<open>failover.go\<close>): conditional
    fetches and the fail-over chain: which provider answers, that an answer is of the
    active provider, that a better provider comes back only after its streak of successes,
    that some available provider always answers.
  \<^item> \<open>Snapshot_Wf\<close>: the well-formedness of snapshots and the locale of their readers.
  \<^item> \<open>State_Engine\<close>, \<open>State_Engine_Props\<close> (\<open>internal/state/engine.go\<close>): the engine of a
    feeder, its two pollers and their interleavings; normalisation and deduplication of a
    batch, health escalation, sequence numbers; the race between the two stores.
  \<^item> \<open>Feeder_Manager\<close>, \<open>Feeder_Manager_Props\<close> (\<open>internal/state/manager.go\<close>): registration, publication,
    the debounced rebuild and the aggregation over feeders: the aggregate holds exactly the
    reported aircraft, each with its best observation, an emergency of any feeder, and the
    feeders that see it; no published change is lost.
  \<^item> \<open>Rule_Index\<close>, \<open>Rule_Index_Props\<close> (\<open>internal/rules/index.go\<close>): compiled rules and their
    index; looking up the index is equivalent to testing every rule.
  \<^item> \<open>Rule_Engine\<close>, \<open>Rule_Engine_Props\<close> (\<open>internal/rules/engine.go\<close>): evaluation of rules and
    emergencies: alerts are sound, respect cooldown and episodes, state stays bounded,
    replacing the rules keeps what is still valid.
  \<^item> \<open>Alert_Queue\<close> (\<open>internal/rules/queue.go\<close>): the bounded queue under every interleaving of
    its producers and consumers.
  \<^item> \<open>Feeder_Monitor\<close>, \<open>Interesting\<close>, \<open>Movement\<close>, \<open>Movement_Props\<close> (\<open>feeder.go\<close>, \<open>interesting.go\<close>,
    \<open>movement.go\<close> and \<open>movement_registry.go\<close> of \<open>internal/rules\<close>): the monitors, with their alerts characterised along a run and across a restart.
  \<^item> \<open>Plane_Alert\<close> (\<open>internal/planealert\<close>, and the table it uses of \<open>internal/storage\<close>): the
    list of notable aircraft, its CSV, its refresh and its storage.
  \<^item> \<open>Track_Store\<close>, \<open>Track_Store_Props\<close> (\<open>internal/track/store.go\<close>): recent positions, bounded,
    pruned and summarised. \<open>Track_Plot\<close>, \<open>Track_Plot_Props\<close> (\<open>plot.go\<close>): the picture of a track,
    drawn by a loop that ends, on the canvas, and cached without showing.
  \<^item> \<open>Storage_Writer\<close>, \<open>Storage_Run\<close>, \<open>Storage_Props\<close> (\<open>internal/storage/writer.go\<close>, \<open>ApplyBatch\<close>
    and its tables in \<open>internal/storage/sqlite/store.go\<close>): the persistence writer. The content
    of rollups is a commutative monoid; the locale \<open>batch_sink\<close> is the contract of the sink,
    interpreted for the SQLite store, and gives that no accepted data is lost while the writer
    is enabled. The retries of a flush end. Two ways to lose data are exhibited: the deletion of
    a watch rule, and a cancellation during a flush.
  \<^item> \<open>Report\<close>, \<open>Report_Props\<close> (\<open>internal/report\<close>, \<open>internal/storage/routestats.go\<close>): the hourly
    aggregator, live leaders, route statistics and the report summary; reports are exact from
    the accepted events to the summary, leaders are the best, sightings count once per hour.
  \<^item> \<open>Enrichment_Cache\<close>, \<open>Enrichment_Cache_Props\<close>, \<open>Enrichment_Service\<close>, \<open>Enrichment_Routes\<close>,
    \<open>Enrichment_Props\<close> (\<open>internal/enrichment\<close>): the bounded cache with expiry, which refines a
    list; the token bucket, which keeps to its rate; circuits; the queues of background lookups,
    exact under every interleaving; the route service, whose caches hold normalised codes only,
    and the cancelled probe that closes it for good.
  \<^item> \<open>Agent_Protocol\<close>, \<open>Feeder_Store\<close>, \<open>Agent_Server\<close>, \<open>Agent_Props\<close>, \<open>Agent_Replay\<close>
    (\<open>internal/source/agent\<close>, \<open>internal/storage/sqlite/store_feeders.go\<close>): the transport of
    remote agents: what a signature covers, delivery from agent to published snapshot, the
    privacy of the receiver's place, no replay under every interleaving with the
    administration, and the agent that stays stuck after an outage.
  \<^item> \<open>Sessions\<close>, \<open>Sessions_Props\<close> (\<open>internal/discord/sessions.go\<close>, \<open>PageBounds\<close> of
    \<open>render/responsive.go\<close>): the sessions behind the buttons of a message, bounded and owned,
    and their custom IDs.
  \<^item> \<open>Outbound\<close>, \<open>Outbound_Props\<close> (\<open>internal/discord/outbound.go\<close>): the scheduler of
    messages: four lanes with their callers under every interleaving; nothing accepted is lost,
    run twice or overtaken, retries are bounded, a pending key is a queued or held job.
  \<^item> \<open>Alert_Delivery\<close>, \<open>Alert_Delivery_Props\<close> (\<open>sendAlert\<close> and its helpers in
    \<open>internal/discord/client.go\<close>, the muted codes of \<open>admin.go\<close>, the completion of alerts in
    \<open>internal/app/app.go\<close>): an emergency reaches its channel, other alerts keep their cooldown,
    and muting a squawk code has no effect.
  \<^item> \<open>Schedules\<close>, \<open>Schedules_Props\<close> (the report scheduler of \<open>client.go\<close>, the tables of
    schedules in \<open>internal/storage/sqlite\<close>): a report is sent once for each period.
  \<^item> \<open>Runes\<close>: decoding of UTF-8, for the bounds the program counts in characters.
  \<^item> \<open>Aircraft_Sources\<close>, \<open>Aircraft_Points\<close>, \<open>Aircraft_Points_Props\<close> (\<open>internal/source/readsb\<close>,
    \<open>internal/source/airplaneslive\<close>): the two clients, from the reply of the network to the
    frame: altitudes, validation, normalisation, \<open>Retry-After\<close> and the rate of requests; the
    engine finds what the response held, and requests keep their distance.
  \<^item> \<open>Moderation\<close>, \<open>Moderation_Props\<close> (\<open>internal/discord/moderation.go\<close>,
    \<open>moderation_discord.go\<close>, the log of \<open>client.go\<close>, the tables of cases in
    \<open>internal/storage/sqlite/store.go\<close>): who may act on whom, the confirmation of a kick or ban,
    the case and its log; what a time-out at Discord leaves behind.
  \<^item> \<open>Metar\<close>, \<open>Metar_Props\<close>, \<open>Weather\<close>, \<open>Weather_Props\<close>, \<open>Weather_Lookup_Props\<close>
    (\<open>internal/weather/aviationweather\<close>): a METAR is read as it was written, the flight category
    is the usual one, and the client of the weather service: its rate, the nearest station that
    reports, the bounded cache and its stale values, a lookup among others. A station's name that
    spells a condition is read as one.

  \<^bold>\<open>Modelling decisions.\<close> Strings are lists of bytes; \<open>ToUpper\<close> and \<open>ToLower\<close> map ASCII
  letters, as the inputs they are applied to are ASCII identifiers. \<open>float64\<close> is \<open>real\<close>.
  \<open>time.Time\<close> is the number of nanoseconds since the zero time, \<open>time.Duration\<close> an integer with
  the saturation of \<open>Time.Sub\<close> written out; \<open>uint64\<close> is a 64-bit word. A clock reading, the
  answer of the network and the outcome of a \<open>select\<close> are arguments. A Go map is an
  association list, and its iteration order the order of the list; no theorem depends on
  that order being any particular one, since every list is a possible value. A critical section is one step; where goroutines
  interleave (the pollers and the engine, the manager's rebuild, the queue) the steps form an
  \<open>inductive\<close> relation and the theorems hold in every reachable state. Every loop is a
  structural recursion, a fold, a \<open>function\<close> with a termination proof, or a partial function that
  is proved to return.

  \<^bold>\<open>Not modelled.\<close> The transport of HTTP and JSON, the clients of the metadata
  services, the Discord gateway and the rendering of its messages, SQLite and the start-up code are input and output; the manifest of
  components lists them one by one. Logging, metrics and the wake-up channels are left out
  of the definitions above.
\<close>

end
